(* ===== verification/Go_Prelude.thy ===== *)
theory Go_Prelude
  imports Main "HOL-Library.Word"
begin

unbundle bit_operations_syntax

text \<open>
  Shared vocabulary of the development: what a Go call can end in, a state-passing monad for
  code that mutates one object, the conversions between Go strings and byte slices, and the
  generic lemmas the component theories use.

  A Go function that returns \<open>(T, error)\<close> and may panic ends in one of the values of
  \<open>outcome\<close>. \<open>Diverge\<close> is the value a bounded loop returns when its bound is used up; the
  component theories prove that the bounds they choose are never used up. Errors keep the type
  of the innermost error and the chain of contexts the callers prepend
  (\<^verbatim>\<open>LdapError{"readBOOLEAN:\n" + err.Error()}\<close> and \<^verbatim>\<open>fmt.Errorf("readBOOLEAN: %w", err)\<close> are
  \<open>Wrapped ''readBOOLEAN'' e\<close>); the numbers a message is formatted with are kept as a list.
  \<open>CodeError\<close> is the error of \<^verbatim>\<open>ldapsrv/error.go\<close> that carries an LDAP result code. \<open>Joined a b\<close> wraps
  two errors, as \<^verbatim>\<open>fmt.Errorf("(%w) %w", a, b)\<close> and \<^verbatim>\<open>errors.Join(a, b)\<close> do. \<open>HTTPError\<close> is the error of
  \<^verbatim>\<open>lib/webdav/error\<close>, a status and the error it wraps.
\<close>

section \<open>Outcomes and the state monad\<close>

datatype goerr =
    SyntaxError string "int list"
  | StructuralError string
  | LdapError string "int list"
  | PlainError string
  | CodeError "32 word" string
  | Wrapped string goerr
  | Joined goerr goerr
  | HTTPError int goerr

datatype 'a outcome = Ok 'a | Err goerr | Panic string | Diverge

type_synonym ('s, 'a) go = "'s \<Rightarrow> 'a outcome \<times> 's"

definition ret :: "'a \<Rightarrow> ('s, 'a) go" where
  "ret x = (\<lambda>s. (Ok x, s))"

definition throw :: "goerr \<Rightarrow> ('s, 'a) go" where
  "throw e = (\<lambda>s. (Err e, s))"

definition panic :: "string \<Rightarrow> ('s, 'a) go" where
  "panic p = (\<lambda>s. (Panic p, s))"

definition lift :: "'a outcome \<Rightarrow> ('s, 'a) go" where
  "lift r = (\<lambda>s. (r, s))"

definition go_bind :: "('s, 'a) go \<Rightarrow> ('a \<Rightarrow> ('s, 'b) go) \<Rightarrow> ('s, 'b) go" where
  "go_bind m f = (\<lambda>s. case m s of
      (Ok a, s') \<Rightarrow> f a s'
    | (Err e, s') \<Rightarrow> (Err e, s')
    | (Panic p, s') \<Rightarrow> (Panic p, s')
    | (Diverge, s') \<Rightarrow> (Diverge, s'))"

text \<open>\<open>if err != nil { err = LdapError{ctx + err.Error()}; return }\<close>\<close>

definition go_wrap :: "string \<Rightarrow> ('s, 'a) go \<Rightarrow> ('s, 'a) go" where
  "go_wrap ctx m = (\<lambda>s. case m s of
      (Err e, s') \<Rightarrow> (Err (Wrapped ctx e), s')
    | r \<Rightarrow> r)"

definition go_map :: "('a \<Rightarrow> 'b) \<Rightarrow> ('s, 'a) go \<Rightarrow> ('s, 'b) go" where
  "go_map f m = go_bind m (\<lambda>x. ret (f x))"

definition outcome_bind :: "'a outcome \<Rightarrow> ('a \<Rightarrow> 'b outcome) \<Rightarrow> 'b outcome" where
  "outcome_bind r f = (case r of Ok a \<Rightarrow> f a | Err e \<Rightarrow> Err e | Panic p \<Rightarrow> Panic p | Diverge \<Rightarrow> Diverge)"

definition outcome_wrap :: "string \<Rightarrow> 'a outcome \<Rightarrow> 'a outcome" where
  "outcome_wrap ctx r = (case r of Err e \<Rightarrow> Err (Wrapped ctx e) | _ \<Rightarrow> r)"

lemma ret_apply [simp]: "ret x s = (Ok x, s)"
  by (simp add: ret_def)

lemma throw_apply [simp]: "throw e s = (Err e, s)"
  by (simp add: throw_def)

lemma panic_apply [simp]: "panic p s = (Panic p, s)"
  by (simp add: panic_def)

lemma lift_apply [simp]: "lift r s = (r, s)"
  by (simp add: lift_def)

lemma outcome_bind_simps [simp]:
  "outcome_bind (Ok a) f = f a"
  "outcome_bind (Err e) f = Err e"
  "outcome_bind (Panic p) f = Panic p"
  "outcome_bind Diverge f = Diverge"
  by (simp_all add: outcome_bind_def)

lemma outcome_wrap_simps [simp]:
  "outcome_wrap c (Ok a) = Ok a"
  "outcome_wrap c (Err e) = Err (Wrapped c e)"
  "outcome_wrap c (Panic p) = Panic p"
  "outcome_wrap c Diverge = Diverge"
  by (simp_all add: outcome_wrap_def)

lemma go_bind_Ok [simp]: "m s = (Ok a, s') \<Longrightarrow> go_bind m f s = f a s'"
  by (simp add: go_bind_def)

lemma go_bind_Err [simp]: "m s = (Err e, s') \<Longrightarrow> go_bind m f s = (Err e, s')"
  by (simp add: go_bind_def)

lemma go_bind_Panic [simp]: "m s = (Panic e, s') \<Longrightarrow> go_bind m f s = (Panic e, s')"
  by (simp add: go_bind_def)

lemma go_wrap_Ok [simp]: "m s = (Ok a, s') \<Longrightarrow> go_wrap c m s = (Ok a, s')"
  by (simp add: go_wrap_def)

lemma go_wrap_Err [simp]: "m s = (Err e, s') \<Longrightarrow> go_wrap c m s = (Err (Wrapped c e), s')"
  by (simp add: go_wrap_def)

lemma go_wrap_Panic [simp]: "m s = (Panic e, s') \<Longrightarrow> go_wrap c m s = (Panic e, s')"
  by (simp add: go_wrap_def)

lemma go_wrap_eq_Ok [simp]: "go_wrap c m s = (Ok a, s') \<longleftrightarrow> m s = (Ok a, s')"
  by (auto simp: go_wrap_def split: prod.splits outcome.splits)

lemma go_bind_eq_Ok:
  "go_bind m f s = (Ok b, s'') \<longleftrightarrow> (\<exists>a s'. m s = (Ok a, s') \<and> f a s' = (Ok b, s''))"
  by (auto simp: go_bind_def split: prod.splits outcome.splits)

lemma go_map_eq_Ok [simp]: "go_map f m s = (Ok b, s') \<longleftrightarrow> (\<exists>a. m s = (Ok a, s') \<and> b = f a)"
  by (auto simp: go_map_def go_bind_eq_Ok)

subsection \<open>Frame and totality of monadic code\<close>

text \<open>
  \<open>terminates m\<close>: the code never runs into the bound of one of its loops, whatever the state.
\<close>

definition terminates :: "('s, 'a) go \<Rightarrow> bool" where
  "terminates m \<longleftrightarrow> (\<forall>s. fst (m s) \<noteq> Diverge)"

named_theorems terminates_rules

lemma terminates_ret [terminates_rules]: "terminates (ret x)"
  by (simp add: terminates_def)

lemma terminates_throw [terminates_rules]: "terminates (throw x)"
  by (simp add: terminates_def)

lemma terminates_panic [terminates_rules]: "terminates (panic x)"
  by (simp add: terminates_def)

lemma terminates_lift [terminates_rules]: "r \<noteq> Diverge \<Longrightarrow> terminates (lift r)"
  by (simp add: terminates_def)

lemma terminates_bind [terminates_rules]:
  assumes "terminates m" and "\<And>a. terminates (f a)"
  shows "terminates (go_bind m f)"
  unfolding terminates_def
proof
  fix s
  have m: "fst (m s) \<noteq> Diverge" using assms(1) by (simp add: terminates_def)
  obtain r s' where ms: "m s = (r, s')" by (cases "m s")
  have f: "fst (f a s') \<noteq> Diverge" for a using assms(2) by (simp add: terminates_def)
  show "fst (go_bind m f s) \<noteq> Diverge"
    using m f by (simp add: go_bind_def ms split: outcome.splits)
qed

lemma terminates_wrap [terminates_rules]: "terminates m \<Longrightarrow> terminates (go_wrap c m)"
  by (auto simp: terminates_def go_wrap_def split: prod.splits outcome.splits)
     (metis fst_conv)+

lemma terminates_map [terminates_rules]: "terminates m \<Longrightarrow> terminates (go_map f m)"
  by (auto simp: go_map_def intro!: terminates_bind terminates_ret)

lemma terminates_if [terminates_rules]:
  "terminates m \<Longrightarrow> terminates m' \<Longrightarrow> terminates (if b then m else m')"
  by simp

lemma terminates_lam_if [terminates_rules]:
  "terminates m \<Longrightarrow> terminates m' \<Longrightarrow> terminates (\<lambda>s. if b s then m s else m' s)"
  by (simp add: terminates_def)

section \<open>Strings and bytes\<close>

type_synonym byte = "8 word"

text \<open>A Go string is a sequence of bytes: \<open>[]byte(s)\<close> and \<open>string(b)\<close>.\<close>

definition bytes_of :: "string \<Rightarrow> byte list" where
  "bytes_of s = map (\<lambda>c. of_nat (of_char c)) s"

definition string_of :: "byte list \<Rightarrow> string" where
  "string_of b = map (\<lambda>w. char_of (unat w)) b"

lemma length_bytes_of [simp]: "length (bytes_of s) = length s"
  by (simp add: bytes_of_def)

lemma length_string_of [simp]: "length (string_of b) = length b"
  by (simp add: string_of_def)

lemma string_of_bytes_of [simp]: "string_of (bytes_of s) = s"
proof -
  have "char_of (unat (of_nat (of_char c) :: byte)) = c" for c :: char
  proof -
    have "(of_char c :: nat) < 256" by simp
    then have "unat (of_nat (of_char c) :: byte) = of_char c"
      by (simp add: unat_of_nat)
    then show ?thesis by simp
  qed
  then show ?thesis by (simp add: string_of_def bytes_of_def map_idI)
qed

lemma bytes_of_string_of [simp]: "bytes_of (string_of b) = b"
proof -
  have "(of_nat (of_char (char_of (unat w) :: char)) :: byte) = w" for w :: byte
  proof -
    have "unat w < 256" using unsigned_less [where ?'a = nat and ?'b = 8, of w] by simp
    then show ?thesis by simp
  qed
  then show ?thesis by (simp add: string_of_def bytes_of_def comp_def)
qed

section \<open>List facts\<close>

lemma length_concat_map: "length (concat (map f xs)) = sum_list (map (\<lambda>x. length (f x)) xs)"
  by (induction xs) simp_all

lemma list_all_True [simp]: "list_all (\<lambda>_. True) xs"
  by (simp add: list_all_iff)

lemma length_le_sum_list_map: "x \<in> set xs \<Longrightarrow> (f x :: nat) \<le> sum_list (map f xs)"
  by (induction xs) auto

lemma take_drop_middle: "take (length e) (drop (length p) (p @ e @ q)) = e"
  by simp

end
