(* ===== verification/Ldap_Pool.thy ===== *)
theory Ldap_Pool
  imports Go_Prelude "HOL-Library.Multiset"
begin

text \<open>
  The pool of connections to the directory, \<^verbatim>\<open>lib/ldap/pool.go\<close>, as a state machine: the workers of
  \<^verbatim>\<open>fill\<close>, the callers of \<^verbatim>\<open>get\<close> and the cancellation of the context interleave in any order, one
  channel operation at a time. A connection is dialled by the library, which may fail; it is alive
  or not when it is checked. The last section has the wait group of \<^verbatim>\<open>Factory.Run\<close>.
\<close>

section \<open>The state\<close>

text \<open>
  A worker waits for demand, dials, sends the connection it dialled, or gives back the demand of a
  dial that failed; it has stopped, possibly after closing a connection that nobody took. A caller
  waits in its \<^verbatim>\<open>select\<close>, has received a connection and owes the demand for it, checks it, and has it
  returned or failed.
\<close>

datatype 'c worker = Waiting | Dialing | Sending 'c | Requeueing | Stopped | Aborted

datatype 'c getter = Selecting | Owing 'c | Checking 'c | Got 'c | Failed

record 'c pool =
  pl_size :: nat
  pl_demand :: nat
  pl_source :: "'c list"
  pl_workers :: "'c worker list"
  pl_getters :: "'c getter list"
  pl_done :: bool
  pl_dialed :: "'c list"
  pl_closed :: "'c list"

definition newPool :: "32 word \<Rightarrow> nat \<Rightarrow> 'c pool" where
  "newPool n workers = \<lparr>pl_size = unat n, pl_demand = unat n, pl_source = [], pl_workers = replicate workers Waiting,
     pl_getters = [], pl_done = False, pl_dialed = [], pl_closed = []\<rparr>"

definition put_worker :: "nat \<Rightarrow> 'c worker \<Rightarrow> 'c pool \<Rightarrow> 'c pool" where
  "put_worker i w p = p\<lparr>pl_workers := (pl_workers p)[i := w]\<rparr>"

definition put_getter :: "nat \<Rightarrow> 'c getter \<Rightarrow> 'c pool \<Rightarrow> 'c pool" where
  "put_getter j g p = p\<lparr>pl_getters := (pl_getters p)[j := g]\<rparr>"

definition close_conn :: "'c \<Rightarrow> 'c pool \<Rightarrow> 'c pool" where
  "close_conn c p = p\<lparr>pl_closed := c # pl_closed p\<rparr>"

lemma pool_frames [simp]:
  "pl_workers (close_conn c p) = pl_workers p" "pl_getters (close_conn c p) = pl_getters p" "pl_dialed (close_conn c p) = pl_dialed p"
  "pl_size (close_conn c p) = pl_size p" "pl_done (close_conn c p) = pl_done p"
  "pl_dialed (put_worker i w p) = pl_dialed p" "pl_size (put_worker i w p) = pl_size p" "pl_done (put_worker i w p) = pl_done p"
  "pl_workers (put_worker i w p) = (pl_workers p)[i := w]"
  "pl_dialed (put_getter j g p) = pl_dialed p" "pl_size (put_getter j g p) = pl_size p" "pl_done (put_getter j g p) = pl_done p"
  "pl_workers (put_getter j g p) = pl_workers p"
  by (simp_all add: close_conn_def put_worker_def put_getter_def)

section \<open>Workers\<close>

text \<open>The steps of \<^verbatim>\<open>fill\<close>. A buffered channel takes an element while it is not full.\<close>

inductive fill_step :: "'c pool \<Rightarrow> nat \<Rightarrow> 'c pool \<Rightarrow> bool" where
  take_demand: "i < length (pl_workers p) \<Longrightarrow> pl_workers p ! i = Waiting \<Longrightarrow> pl_demand p = Suc n \<Longrightarrow>
    fill_step p i (put_worker i Dialing (p\<lparr>pl_demand := n\<rparr>))"
| stop: "i < length (pl_workers p) \<Longrightarrow> pl_workers p ! i = Waiting \<Longrightarrow> pl_done p \<Longrightarrow> fill_step p i (put_worker i Stopped p)"
| dial_ok: "i < length (pl_workers p) \<Longrightarrow> pl_workers p ! i = Dialing \<Longrightarrow> c \<notin> set (pl_dialed p) \<Longrightarrow>
    fill_step p i (put_worker i (Sending c) (p\<lparr>pl_dialed := c # pl_dialed p\<rparr>))"
| dial_err: "i < length (pl_workers p) \<Longrightarrow> pl_workers p ! i = Dialing \<Longrightarrow> fill_step p i (put_worker i Requeueing p)"
| give_back: "i < length (pl_workers p) \<Longrightarrow> pl_workers p ! i = Requeueing \<Longrightarrow> pl_demand p < pl_size p \<Longrightarrow>
    fill_step p i (put_worker i Waiting (p\<lparr>pl_demand := Suc (pl_demand p)\<rparr>))"
| send: "i < length (pl_workers p) \<Longrightarrow> pl_workers p ! i = Sending c \<Longrightarrow> length (pl_source p) < pl_size p \<Longrightarrow>
    fill_step p i (put_worker i Waiting (p\<lparr>pl_source := pl_source p @ [c]\<rparr>))"
| abort: "i < length (pl_workers p) \<Longrightarrow> pl_workers p ! i = Sending c \<Longrightarrow> pl_done p \<Longrightarrow>
    fill_step p i (put_worker i Aborted (close_conn c p))"

section \<open>Callers\<close>

text \<open>The steps of \<^verbatim>\<open>get\<close>; the context of a call may be done at any time.\<close>

inductive get_step :: "'c pool \<Rightarrow> nat \<Rightarrow> 'c pool \<Rightarrow> bool" where
  context_done: "j < length (pl_getters p) \<Longrightarrow> pl_getters p ! j = Selecting \<Longrightarrow> get_step p j (put_getter j Failed p)"
| receive: "j < length (pl_getters p) \<Longrightarrow> pl_getters p ! j = Selecting \<Longrightarrow> pl_source p = c # rest \<Longrightarrow>
    get_step p j (put_getter j (Owing c) (p\<lparr>pl_source := rest\<rparr>))"
| demand: "j < length (pl_getters p) \<Longrightarrow> pl_getters p ! j = Owing c \<Longrightarrow> pl_demand p < pl_size p \<Longrightarrow>
    get_step p j (put_getter j (Checking c) (p\<lparr>pl_demand := Suc (pl_demand p)\<rparr>))"
| alive: "j < length (pl_getters p) \<Longrightarrow> pl_getters p ! j = Checking c \<Longrightarrow> get_step p j (put_getter j (Got c) p)"
| dead_retry: "j < length (pl_getters p) \<Longrightarrow> pl_getters p ! j = Checking c \<Longrightarrow> get_step p j (put_getter j Selecting (close_conn c p))"
| dead_error: "j < length (pl_getters p) \<Longrightarrow> pl_getters p ! j = Checking c \<Longrightarrow> get_step p j (put_getter j Failed (close_conn c p))"

inductive pool_step :: "'c pool \<Rightarrow> 'c pool \<Rightarrow> bool" where
  worker: "fill_step p i p' \<Longrightarrow> pool_step p p'"
| getter: "get_step p j p' \<Longrightarrow> pool_step p p'"
| call: "pool_step p (p\<lparr>pl_getters := pl_getters p @ [Selecting]\<rparr>)"
| cancel: "pool_step p (p\<lparr>pl_done := True\<rparr>)"

inductive pool_reachable :: "32 word \<Rightarrow> nat \<Rightarrow> 'c pool \<Rightarrow> bool" for n k where
  init: "pool_reachable n k (newPool n k)"
| step: "pool_reachable n k p \<Longrightarrow> pool_step p p' \<Longrightarrow> pool_reachable n k p'"

section \<open>The invariant\<close>

text \<open>
  The slots of the pool are in the demand channel, in the source channel, with a worker between the
  two, or with a caller that has taken a connection and not yet given its slot back. Every connection
  that was dialled is in exactly one place.
\<close>

fun worker_slots :: "'c worker \<Rightarrow> nat" where
  "worker_slots Waiting = 0"
| "worker_slots Stopped = 0"
| "worker_slots _ = 1"

fun getter_slots :: "'c getter \<Rightarrow> nat" where
  "getter_slots (Owing c) = 1"
| "getter_slots _ = 0"

fun worker_conns :: "'c worker \<Rightarrow> 'c multiset" where
  "worker_conns (Sending c) = {#c#}"
| "worker_conns _ = {#}"

fun getter_conns :: "'c getter \<Rightarrow> 'c multiset" where
  "getter_conns (Owing c) = {#c#}"
| "getter_conns (Checking c) = {#c#}"
| "getter_conns (Got c) = {#c#}"
| "getter_conns _ = {#}"

definition slots :: "'c pool \<Rightarrow> nat" where
  "slots p = pl_demand p + length (pl_source p) + sum_list (map worker_slots (pl_workers p)) + sum_list (map getter_slots (pl_getters p))"

definition conns :: "'c pool \<Rightarrow> 'c multiset" where
  "conns p = mset (pl_source p) + sum_list (map worker_conns (pl_workers p)) + sum_list (map getter_conns (pl_getters p)) + mset (pl_closed p)"

definition pool_inv :: "'c pool \<Rightarrow> bool" where
  "pool_inv p \<longleftrightarrow> slots p = pl_size p \<and> conns p = mset (pl_dialed p) \<and> distinct (pl_dialed p) \<and>
     (\<not> pl_done p \<longrightarrow> Stopped \<notin> set (pl_workers p) \<and> Aborted \<notin> set (pl_workers p))"

lemma sum_list_upd:
  fixes f :: "'a \<Rightarrow> 'b::comm_monoid_add"
  assumes "i < length xs"
  shows "sum_list (map f (xs[i := y])) + f (xs ! i) = sum_list (map f xs) + f y"
  using assms
proof (induction xs arbitrary: i)
  case (Cons x xs)
  then show ?case by (cases i) (auto simp: add_ac)
qed simp

lemma sum_list_member:
  fixes f :: "'a \<Rightarrow> nat"
  assumes "i < length xs"
  shows "f (xs ! i) \<le> sum_list (map f xs)"
  using assms by (intro member_le_sum_list) simp_all

lemma sum_list_mset_member:
  fixes f :: "'a \<Rightarrow> 'b multiset"
  shows "i < length xs \<Longrightarrow> f (xs ! i) \<subseteq># sum_list (map f xs)"
proof (induction xs arbitrary: i)
  case (Cons x xs)
  show ?case
  proof (cases i)
    case (Suc k)
    then have "f (xs ! k) \<subseteq># sum_list (map f xs)" using Cons by simp
    then show ?thesis using Suc by (simp add: subset_mset.add_increasing)
  qed simp
qed simp

lemmas pool_simps = slots_def conns_def put_worker_def put_getter_def close_conn_def

lemma slots_worker:
  "i < length (pl_workers p) \<Longrightarrow> slots (put_worker i w p) + worker_slots (pl_workers p ! i) = slots p + worker_slots w"
  using sum_list_upd [of i "pl_workers p" worker_slots w] by (simp add: pool_simps)

lemma conns_worker:
  "i < length (pl_workers p) \<Longrightarrow> conns (put_worker i w p) + worker_conns (pl_workers p ! i) = conns p + worker_conns w"
  using sum_list_upd [of i "pl_workers p" worker_conns w] by (simp add: pool_simps add_ac)

lemma slots_getter:
  "j < length (pl_getters p) \<Longrightarrow> slots (put_getter j g p) + getter_slots (pl_getters p ! j) = slots p + getter_slots g"
  using sum_list_upd [of j "pl_getters p" getter_slots g] by (simp add: pool_simps)

lemma conns_getter:
  "j < length (pl_getters p) \<Longrightarrow> conns (put_getter j g p) + getter_conns (pl_getters p ! j) = conns p + getter_conns g"
  using sum_list_upd [of j "pl_getters p" getter_conns g] by (simp add: pool_simps add_ac)

lemma slots_upd [simp]:
  "slots (p\<lparr>pl_dialed := d\<rparr>) = slots p" "slots (close_conn c p) = slots p" "slots (p\<lparr>pl_done := b\<rparr>) = slots p"
  by (simp_all add: pool_simps)

lemma conns_upd [simp]:
  "conns (p\<lparr>pl_dialed := d\<rparr>) = conns p" "conns (p\<lparr>pl_demand := n\<rparr>) = conns p" "conns (p\<lparr>pl_done := b\<rparr>) = conns p"
  "conns (close_conn c p) = add_mset c (conns p)"
  by (simp_all add: pool_simps)

lemma slots_channels:
  "slots p + n = slots (p\<lparr>pl_demand := n\<rparr>) + pl_demand p"
  "slots p + length q = slots (p\<lparr>pl_source := q\<rparr>) + length (pl_source p)"
  by (simp_all add: slots_def)

lemma fill_step_slots: "fill_step p i p' \<Longrightarrow> slots p' = slots p"
proof (induction rule: fill_step.induct)
  case (take_demand i p n)
  then show ?case using slots_worker [of i "p\<lparr>pl_demand := n\<rparr>" Dialing] slots_channels(1) [of p n] by simp
next
  case (stop i p)
  then show ?case using slots_worker [of i p Stopped] by simp
next
  case (dial_ok i p c)
  then show ?case using slots_worker [of i "p\<lparr>pl_dialed := c # pl_dialed p\<rparr>" "Sending c"] by simp
next
  case (dial_err i p)
  then show ?case using slots_worker [of i p Requeueing] by simp
next
  case (give_back i p)
  then show ?case using slots_worker [of i "p\<lparr>pl_demand := Suc (pl_demand p)\<rparr>" Waiting] slots_channels(1) [of p "Suc (pl_demand p)"] by simp
next
  case (send i p c)
  then show ?case using slots_worker [of i "p\<lparr>pl_source := pl_source p @ [c]\<rparr>" Waiting] slots_channels(2) [of p "pl_source p @ [c]"] by simp
next
  case (abort i p c)
  then show ?case using slots_worker [of i "close_conn c p" Aborted] by simp
qed

lemma get_step_slots: "get_step p j p' \<Longrightarrow> slots p' = slots p"
proof (induction rule: get_step.induct)
  case (context_done j p)
  then show ?case using slots_getter [of j p Failed] by simp
next
  case (receive j p c rest)
  then show ?case using slots_getter [of j "p\<lparr>pl_source := rest\<rparr>" "Owing c"] slots_channels(2) [of p rest] by simp
next
  case (demand j p c)
  then show ?case using slots_getter [of j "p\<lparr>pl_demand := Suc (pl_demand p)\<rparr>" "Checking c"] slots_channels(1) [of p "Suc (pl_demand p)"] by simp
next
  case (alive j p c)
  then show ?case using slots_getter [of j p "Got c"] by simp
next
  case (dead_retry j p c)
  then show ?case using slots_getter [of j "close_conn c p" Selecting] by simp
next
  case (dead_error j p c)
  then show ?case using slots_getter [of j "close_conn c p" Failed] by simp
qed

text \<open>The connections of a pool only change place, except that a dial adds a new one.\<close>

lemma conns_source: "conns p + mset q = conns (p\<lparr>pl_source := q\<rparr>) + mset (pl_source p)"
  by (simp add: conns_def)

lemma fill_step_conns:
  "fill_step p i p' \<Longrightarrow> conns p' + mset (pl_dialed p) = conns p + mset (pl_dialed p') \<and> (distinct (pl_dialed p) \<longrightarrow> distinct (pl_dialed p'))"
proof (induction rule: fill_step.induct)
  case (take_demand i p n)
  then show ?case using conns_worker [of i "p\<lparr>pl_demand := n\<rparr>" Dialing] by simp
next
  case (stop i p)
  then show ?case using conns_worker [of i p Stopped] by simp
next
  case (dial_ok i p c)
  then show ?case using conns_worker [of i "p\<lparr>pl_dialed := c # pl_dialed p\<rparr>" "Sending c"] by simp
next
  case (dial_err i p)
  then show ?case using conns_worker [of i p Requeueing] by simp
next
  case (give_back i p)
  then show ?case using conns_worker [of i "p\<lparr>pl_demand := Suc (pl_demand p)\<rparr>" Waiting] by simp
next
  case (send i p c)
  then show ?case using conns_worker [of i "p\<lparr>pl_source := pl_source p @ [c]\<rparr>" Waiting] conns_source [of p "pl_source p @ [c]"]
    by simp (metis add_mset_remove_trivial)
next
  case (abort i p c)
  then show ?case using conns_worker [of i "close_conn c p" Aborted] by simp
qed

lemma get_step_conns: "get_step p j p' \<Longrightarrow> conns p' = conns p \<and> pl_dialed p' = pl_dialed p"
proof (induction rule: get_step.induct)
  case (context_done j p)
  then show ?case using conns_getter [of j p Failed] by simp
next
  case (receive j p c rest)
  then show ?case using conns_getter [of j "p\<lparr>pl_source := rest\<rparr>" "Owing c"] conns_source [of p rest] by simp
next
  case (demand j p c)
  then show ?case using conns_getter [of j "p\<lparr>pl_demand := Suc (pl_demand p)\<rparr>" "Checking c"] by simp
next
  case (alive j p c)
  then show ?case using conns_getter [of j p "Got c"] by simp
next
  case (dead_retry j p c)
  then show ?case using conns_getter [of j "close_conn c p" Selecting] by simp
next
  case (dead_error j p c)
  then show ?case using conns_getter [of j "close_conn c p" Failed] by simp
qed

lemma fill_step_frame:
  "fill_step p i p' \<Longrightarrow> pl_size p' = pl_size p \<and> pl_done p' = pl_done p \<and> length (pl_workers p') = length (pl_workers p) \<and>
     (\<not> pl_done p \<longrightarrow> set (pl_workers p') \<inter> {Stopped, Aborted} \<subseteq> set (pl_workers p))"
  by (induction rule: fill_step.induct) (auto dest!: subsetD [OF set_update_subset_insert])

lemma get_step_frame: "get_step p j p' \<Longrightarrow> pl_size p' = pl_size p \<and> pl_done p' = pl_done p \<and> pl_workers p' = pl_workers p"
  by (induction rule: get_step.induct) auto

lemma pool_inv_step:
  assumes "pool_step p p'" "pool_inv p"
  shows "pool_inv p' \<and> pl_size p' = pl_size p \<and> length (pl_workers p') = length (pl_workers p)"
  using assms(1)
proof (cases rule: pool_step.cases)
  case (worker i)
  then show ?thesis using assms(2) fill_step_slots [of p i p'] fill_step_conns [of p i p'] fill_step_frame [of p i p']
    by (auto simp: pool_inv_def)
next
  case (getter j)
  then show ?thesis using assms(2) get_step_slots [of p j p'] get_step_conns [of p j p'] get_step_frame [of p j p']
    by (auto simp: pool_inv_def)
next
  case call
  then show ?thesis using assms(2) by (auto simp: pool_inv_def slots_def conns_def)
next
  case cancel
  then show ?thesis using assms(2) by (auto simp: pool_inv_def)
qed

lemma sum_list_zero: "\<forall>x \<in> set xs. f x = (0::'b::comm_monoid_add) \<Longrightarrow> sum_list (map f xs) = 0"
  by (induction xs) auto

lemma pool_reachable_inv:
  "pool_reachable n k p \<Longrightarrow> pool_inv p \<and> pl_size p = unat n \<and> length (pl_workers p) = k"
proof (induction rule: pool_reachable.induct)
  case init
  have "sum_list (map worker_conns (replicate k Waiting)) = ({#} :: 'a multiset)" by (rule sum_list_zero) simp
  then show ?case by (simp add: pool_inv_def newPool_def slots_def conns_def)
next
  case (step p p')
  then show ?case using pool_inv_step [of p p'] by simp
qed

section \<open>What the invariant gives\<close>

lemma slots_bound:
  assumes "pool_inv p"
  shows "pl_demand p + length (pl_source p) + worker_slots w \<le> pl_size p \<or> w \<notin> set (pl_workers p)"
    "pl_demand p + length (pl_source p) + getter_slots g \<le> pl_size p \<or> g \<notin> set (pl_getters p)"
proof -
  have *: "pl_demand p + length (pl_source p) + sum_list (map worker_slots (pl_workers p)) + sum_list (map getter_slots (pl_getters p)) = pl_size p"
    using assms by (simp add: pool_inv_def slots_def)
  show "pl_demand p + length (pl_source p) + worker_slots w \<le> pl_size p \<or> w \<notin> set (pl_workers p)"
    using * sum_list_member [of _ "pl_workers p" worker_slots] by (fastforce simp: in_set_conv_nth)
  show "pl_demand p + length (pl_source p) + getter_slots g \<le> pl_size p \<or> g \<notin> set (pl_getters p)"
    using * sum_list_member [of _ "pl_getters p" getter_slots] by (fastforce simp: in_set_conv_nth)
qed

text \<open>A connection that a caller holds is in no other place.\<close>

lemma held_once:
  assumes "pool_inv p" "j < length (pl_getters p)" "pl_getters p ! j = Got c"
  shows "c \<notin> set (pl_source p)" "c \<notin> set (pl_closed p)" "Sending c \<notin> set (pl_workers p)"
    "\<And>k. k < length (pl_getters p) \<Longrightarrow> k \<noteq> j \<Longrightarrow> c \<notin># getter_conns (pl_getters p ! k)"
proof -
  let ?G = "sum_list (map getter_conns (pl_getters p))" and ?W = "sum_list (map worker_conns (pl_workers p))"
  have one: "count (conns p) c \<le> 1" using assms(1) by (auto simp: pool_inv_def distinct_count_atmost_1)
  have sum: "count (conns p) c = count (mset (pl_source p)) c + count ?W c + count ?G c + count (mset (pl_closed p)) c" by (simp add: conns_def)
  have "c \<in># ?G" using sum_list_mset_member [OF assms(2), of getter_conns] assms(3) by (auto dest: mset_subset_eqD)
  then have "count ?G c \<ge> 1" by simp
  with one sum have zero: "count (mset (pl_source p)) c = 0" "count ?W c = 0" "count (mset (pl_closed p)) c = 0" "count ?G c = 1" by linarith+
  then show "c \<notin> set (pl_source p)" "c \<notin> set (pl_closed p)" by (simp_all add: count_eq_zero_iff)
  show "Sending c \<notin> set (pl_workers p)"
  proof
    assume "Sending c \<in> set (pl_workers p)"
    then obtain i where "i < length (pl_workers p)" "pl_workers p ! i = Sending c" by (auto simp: in_set_conv_nth)
    then have "c \<in># ?W" using sum_list_mset_member [of i "pl_workers p" worker_conns] by (auto dest: mset_subset_eqD)
    then show False using zero(2) by (simp add: count_eq_zero_iff)
  qed
  fix k assume k: "k < length (pl_getters p)" "k \<noteq> j"
  have G: "sum_list (map getter_conns ((pl_getters p)[j := Failed])) + {#c#} = ?G"
    using sum_list_upd [OF assms(2), of getter_conns Failed] assms(3) by simp
  have "getter_conns (pl_getters p ! k) \<subseteq># sum_list (map getter_conns ((pl_getters p)[j := Failed]))"
    using sum_list_mset_member [of k "(pl_getters p)[j := Failed]" getter_conns] k by simp
  moreover have "count (sum_list (map getter_conns ((pl_getters p)[j := Failed]))) c = 0" using zero(4) G [symmetric] by simp
  ultimately show "c \<notin># getter_conns (pl_getters p ! k)" by (metis count_eq_zero_iff mset_subset_eqD)
qed

text \<open>A worker that is not waiting can take a step, and so can one that waits while there is demand.\<close>

lemma worker_moves:
  assumes "pool_inv p" "\<not> pl_done p" "i < length (pl_workers p)" "infinite (UNIV :: 'c set)"
    "pl_workers p ! i \<noteq> Waiting \<or> pl_demand p > 0"
  shows "\<exists>p'. fill_step p i (p' :: 'c pool)"
proof -
  have mem: "pl_workers p ! i \<in> set (pl_workers p)" using assms(3) by simp
  note bound = slots_bound(1) [OF assms(1), of "pl_workers p ! i"]
  show ?thesis
  proof (cases "pl_workers p ! i")
    case Waiting
    then obtain n where "pl_demand p = Suc n" using assms(5) by (metis gr0_implies_Suc)
    then show ?thesis using fill_step.take_demand [OF assms(3) Waiting] by blast
  next
    case Dialing
    then show ?thesis using fill_step.dial_err [OF assms(3)] by blast
  next
    case (Sending c)
    then have "length (pl_source p) < pl_size p" using bound mem by simp
    then show ?thesis using fill_step.send [OF assms(3) Sending] by blast
  next
    case Requeueing
    then have "pl_demand p < pl_size p" using bound mem by simp
    then show ?thesis using fill_step.give_back [OF assms(3) Requeueing] by blast
  next
    case Stopped
    then show ?thesis using assms(1,2) mem by (simp add: pool_inv_def)
  next
    case Aborted
    then show ?thesis using assms(1,2) mem by (simp add: pool_inv_def)
  qed
qed

text \<open>
  A caller is never stuck while the context is live: a connection is ready, another caller is about
  to give back a slot, or a worker is on its way to fill one.
\<close>

lemma get_served:
  assumes "pool_inv p" "\<not> pl_done p" "pl_workers p \<noteq> []" "pl_size p > 0" "infinite (UNIV :: 'c set)"
  shows "pl_source p \<noteq> [] \<or> (\<exists>j c. j < length (pl_getters p) \<and> pl_getters p ! j = Owing c) \<or> (\<exists>i p'. fill_step p i (p' :: 'c pool))"
proof (cases "pl_demand p > 0 \<or> (\<exists>i < length (pl_workers p). pl_workers p ! i \<noteq> Waiting)")
  case True
  then obtain i where "i < length (pl_workers p)" "pl_workers p ! i \<noteq> Waiting \<or> pl_demand p > 0" using assms(3) by auto
  then show ?thesis using worker_moves [OF assms(1,2) _ assms(5)] by blast
next
  case False
  then have "\<forall>w \<in> set (pl_workers p). worker_slots w = 0" by (auto simp: in_set_conv_nth)
  then have "sum_list (map worker_slots (pl_workers p)) = 0" by (rule sum_list_zero)
  moreover have "slots p = pl_size p" "pl_demand p = 0" using assms(1) False by (auto simp: pool_inv_def)
  ultimately have "length (pl_source p) + sum_list (map getter_slots (pl_getters p)) > 0"
    using assms(4) unfolding slots_def by linarith
  then consider "pl_source p \<noteq> []" | "sum_list (map getter_slots (pl_getters p)) \<noteq> 0" by fastforce
  then show ?thesis
  proof cases
    case 2
    then obtain g where g: "g \<in> set (pl_getters p)" "getter_slots g \<noteq> 0" by auto
    from g(2) obtain c where "g = Owing c" by (cases g) simp_all
    then show ?thesis using g(1) by (metis in_set_conv_nth)
  qed simp
qed

text \<open>
  C22. The connection pool. However workers, callers and cancellation interleave, the two channels hold
  together at most as many elements as the pool has slots, so a worker that returns a slot or sends a
  connection and a caller that returns a slot find room and never block; a connection is given to one
  caller only, and it is then neither in the pool nor with a worker nor closed; and while the context
  is live, a pool with slots and workers always has a connection ready, a slot that is about to be
  returned, or a worker that can take a step.
\<close>

theorem pool_conserves:
  fixes p :: "'c pool"
  assumes "pool_reachable n k p"
  shows "pl_demand p + length (pl_source p) \<le> unat n \<and>
    (\<forall>c. Sending c \<in> set (pl_workers p) \<longrightarrow> length (pl_source p) < unat n) \<and>
    (Requeueing \<in> set (pl_workers p) \<longrightarrow> pl_demand p < unat n) \<and>
    (\<forall>c. Owing c \<in> set (pl_getters p) \<longrightarrow> pl_demand p < unat n) \<and>
    (\<forall>j c. j < length (pl_getters p) \<and> pl_getters p ! j = Got c \<longrightarrow>
       c \<notin> set (pl_source p) \<and> c \<notin> set (pl_closed p) \<and> Sending c \<notin> set (pl_workers p) \<and>
       (\<forall>i < length (pl_getters p). i \<noteq> j \<longrightarrow> c \<notin># getter_conns (pl_getters p ! i))) \<and>
    (\<not> pl_done p \<and> 0 < n \<and> 0 < k \<and> infinite (UNIV :: 'c set) \<longrightarrow>
       pl_source p \<noteq> [] \<or> (\<exists>j p'. get_step p j p') \<or> (\<exists>i p'. fill_step p i p'))"
proof -
  have inv: "pool_inv p" and n: "pl_size p = unat n" and k: "length (pl_workers p) = k" using pool_reachable_inv [OF assms] by auto
  have "pl_demand p + length (pl_source p) \<le> unat n" using inv n by (simp add: pool_inv_def slots_def)
  moreover have "length (pl_source p) < unat n" if "Sending c \<in> set (pl_workers p)" for c using slots_bound(1) [OF inv, of "Sending c"] that n by simp
  moreover have "pl_demand p < unat n" if "Requeueing \<in> set (pl_workers p)" using slots_bound(1) [OF inv, of Requeueing] that n by simp
  moreover have owing: "pl_demand p < unat n" if "Owing c \<in> set (pl_getters p)" for c using slots_bound(2) [OF inv, of "Owing c"] that n by simp
  moreover have "pl_source p \<noteq> [] \<or> (\<exists>j p'. get_step p j p') \<or> (\<exists>i p'. fill_step p i p')"
    if live: "\<not> pl_done p" "0 < n" "0 < k" "infinite (UNIV :: 'c set)"
  proof -
    have "pl_workers p \<noteq> []" "pl_size p > 0" using live n k by (auto simp: unat_gt_0)
    from get_served [OF inv live(1) this live(4)] show ?thesis
    proof (elim disjE exE conjE)
      fix j c assume j: "j < length (pl_getters p)" "pl_getters p ! j = Owing c"
      then have "pl_demand p < pl_size p" using owing [of c] n by (metis nth_mem)
      then show ?thesis using get_step.demand [OF j] by blast
    qed auto
  qed
  ultimately show ?thesis using held_once [OF inv] by auto
qed

text \<open>A pool with one slot and one worker: the connection 7 is dialled, sent, received and found alive.\<close>

theorem pool_conserves_witness:
  "\<exists>p :: nat pool. pool_reachable 1 1 p \<and> pl_getters p = [Got 7] \<and> pl_demand p + length (pl_source p) \<le> 1 \<and> 7 \<notin> set (pl_source p)"
proof -
  let ?p = "\<lambda>d src ws gs ds. \<lparr>pl_size = 1, pl_demand = d, pl_source = src, pl_workers = ws, pl_getters = gs, pl_done = False, pl_dialed = ds, pl_closed = []\<rparr> :: nat pool"
  have "pool_reachable 1 1 (?p 1 [] [Waiting] [] [])" using pool_reachable.init [of 1 1] by (simp add: newPool_def)
  then have "pool_reachable 1 1 (?p 0 [] [Dialing] [] [])"
    using fill_step.take_demand [of 0 "?p 1 [] [Waiting] [] []" 0] by (auto simp: put_worker_def intro: pool_reachable.step pool_step.worker)
  then have "pool_reachable 1 1 (?p 0 [] [Sending 7] [] [7])"
    using fill_step.dial_ok [of 0 "?p 0 [] [Dialing] [] []" 7] by (auto simp: put_worker_def intro: pool_reachable.step pool_step.worker)
  then have "pool_reachable 1 1 (?p 0 [7] [Waiting] [] [7])"
    using fill_step.send [of 0 "?p 0 [] [Sending 7] [] [7]" 7] by (auto simp: put_worker_def intro: pool_reachable.step pool_step.worker)
  then have "pool_reachable 1 1 (?p 0 [7] [Waiting] [Selecting] [7])"
    using pool_step.call [of "?p 0 [7] [Waiting] [] [7]"] by (auto intro: pool_reachable.step)
  then have "pool_reachable 1 1 (?p 0 [] [Waiting] [Owing 7] [7])"
    using get_step.receive [of 0 "?p 0 [7] [Waiting] [Selecting] [7]" 7 "[]"] by (auto simp: put_getter_def intro: pool_reachable.step pool_step.getter)
  then have "pool_reachable 1 1 (?p 1 [] [Waiting] [Checking 7] [7])"
    using get_step.demand [of 0 "?p 0 [] [Waiting] [Owing 7] [7]" 7] by (auto simp: put_getter_def intro: pool_reachable.step pool_step.getter)
  then have got: "pool_reachable 1 1 (?p 1 [] [Waiting] [Got 7] [7])"
    using get_step.alive [of 0 "?p 1 [] [Waiting] [Checking 7] [7]" 7] by (auto simp: put_getter_def intro: pool_reachable.step pool_step.getter)
  from pool_conserves [OF got] show ?thesis by (intro exI [of _ "?p 1 [] [Waiting] [Got 7] [7]"] conjI got) auto
qed

section \<open>Factory.Run\<close>

text \<open>
  The wait group counts; a negative count panics. \<^verbatim>\<open>Run\<close> adds one for each worker and starts it with
  \<^verbatim>\<open>wg.Go\<close>, which adds another; a worker that ends calls \<^verbatim>\<open>Done\<close>, as does \<^verbatim>\<open>wg.Go\<close> after it. \<^verbatim>\<open>Run\<close> itself
  then calls \<^verbatim>\<open>Done\<close> and returns.
\<close>

fun WaitGroup :: "int \<Rightarrow> int list \<Rightarrow> int outcome" where
  "WaitGroup c [] = Ok c"
| "WaitGroup c (d # ds) = (if c + d < 0 then Panic ''sync: negative WaitGroup counter'' else WaitGroup (c + d) ds)"

definition Run_worker_ends :: "int list" where
  "Run_worker_ends = [-1, -1]"

definition Factory_Run :: "nat \<Rightarrow> int list" where
  "Factory_Run workers = concat (replicate workers [1, 1]) @ [-1]"

lemma WaitGroup_Ok: "WaitGroup c ds = Ok r \<Longrightarrow> 0 \<le> c \<Longrightarrow> r = c + sum_list ds \<and> 0 \<le> r"
  by (induction c ds rule: WaitGroup.induct) (auto split: if_splits)

lemma WaitGroup_cases: "(\<exists>r. WaitGroup c ds = Ok r) \<or> WaitGroup c ds = Panic ''sync: negative WaitGroup counter''"
  by (induction c ds rule: WaitGroup.induct) auto

text \<open>Whatever the order of the calls, once all workers have ended one of the calls has panicked.\<close>

lemma Factory_Run_panics:
  assumes "mset ds = mset (Factory_Run workers @ concat (replicate workers Run_worker_ends))"
  shows "WaitGroup 0 ds = Panic ''sync: negative WaitGroup counter''"
proof -
  have sums: "sum_list (concat (replicate n xs)) = int n * sum_list xs" for n and xs :: "int list"
    by (induction n) (simp_all add: algebra_simps)
  have "sum_list ds = sum_list (Factory_Run workers @ concat (replicate workers Run_worker_ends))"
    using assms by (metis sum_mset_sum_list)
  also have "\<dots> = -1" by (simp add: Factory_Run_def Run_worker_ends_def sums)
  finally show ?thesis using WaitGroup_cases [of 0 ds] WaitGroup_Ok [of 0 ds] by auto
qed

end
