(* ===== verification/Ber.thy ===== *)
theory Ber
  imports Go_Prelude
begin

text \<open>
  The BER layer of \<^verbatim>\<open>lib/ldapsrv/goldap\<close>: \<^verbatim>\<open>asn1.go\<close> (tags, lengths, booleans, integers,
  base-128 integers) and \<^verbatim>\<open>bytes.go\<close> (the \<^verbatim>\<open>Bytes\<close> buffer with its offset, read
  forwards and written backwards).

  A Go \<open>int\<close> is 64 bits wide. Tags, classes and lengths are modelled by \<open>int\<close>: the parser
  refuses a length that would pass \<open>2 ^ 31\<close> and a base-128 tag of more than five digits
  (35 bits), so no operation on them can overflow. \<open>int32\<close> and \<open>int64\<close> are words. Offsets
  and byte counts are natural numbers; where the code checks a difference for being negative the
  comparison is written out.
\<close>

section \<open>asn1.go: tags and lengths\<close>

definition tagBoolean :: int where "tagBoolean = 1"
definition tagInteger :: int where "tagInteger = 2"
definition tagOctetString :: int where "tagOctetString = 4"
definition tagEnum :: int where "tagEnum = 10"
definition tagSequence :: int where "tagSequence = 16"
definition tagSet :: int where "tagSet = 17"
definition classUniversal :: int where "classUniversal = 0"
definition classApplication :: int where "classApplication = 1"
definition classContextSpecific :: int where "classContextSpecific = 2"
definition isCompound :: bool where "isCompound = True"
definition isNotCompound :: bool where "isNotCompound = False"

lemmas ber_constants =
  tagBoolean_def tagInteger_def tagOctetString_def tagEnum_def tagSequence_def tagSet_def
  classUniversal_def classApplication_def classContextSpecific_def
  isCompound_def isNotCompound_def

record TagAndLength =
  Class :: int
  Tag :: int
  Length :: int
  IsCompound :: bool

definition ExpectClass :: "TagAndLength \<Rightarrow> int \<Rightarrow> unit outcome" where
  "ExpectClass t cls =
     (if cls \<noteq> Class t
      then Err (SyntaxError ''ExpectClass: wrong tag class'' [Class t, cls]) else Ok ())"

definition ExpectTag :: "TagAndLength \<Rightarrow> int \<Rightarrow> unit outcome" where
  "ExpectTag t tag =
     (if tag \<noteq> Tag t
      then Err (SyntaxError ''ExpectTag: wrong tag value'' [Tag t, tag]) else Ok ())"

definition ExpectCompound :: "TagAndLength \<Rightarrow> bool \<Rightarrow> unit outcome" where
  "ExpectCompound t cmp =
     (if cmp \<noteq> IsCompound t
      then Err (SyntaxError ''ExpectCompound: wrong tag compound''
             [of_bool (IsCompound t), of_bool cmp]) else Ok ())"

definition Expect :: "TagAndLength \<Rightarrow> int \<Rightarrow> int \<Rightarrow> bool \<Rightarrow> unit outcome" where
  "Expect t cls tag cmp =
     outcome_bind (outcome_wrap ''Expect'' (ExpectClass t cls)) (\<lambda>_.
     outcome_bind (outcome_wrap ''Expect'' (ExpectTag t tag)) (\<lambda>_.
     outcome_wrap ''Expect'' (ExpectCompound t cmp)))"

section \<open>bytes.go: the buffer\<close>

record Bytes =
  bytes :: "byte list"
  offset :: nat

definition NewBytes :: "nat \<Rightarrow> byte list \<Rightarrow> Bytes" where
  "NewBytes n b = \<lparr>bytes = b, offset = n\<rparr>"

definition HasMoreData :: "Bytes \<Rightarrow> bool" where
  "HasMoreData bs \<longleftrightarrow> offset bs < length (bytes bs)"

text \<open>
  Writing moves the offset back and copies in front of it. \<open>bytes.bytes[start:]\<close> panics when
  \<open>start\<close> is past the end and \<open>copy\<close> copies the shorter of the two lengths.
\<close>

definition writeBytes :: "byte list \<Rightarrow> (Bytes, nat) go" where
  "writeBytes b = (\<lambda>bs.
     if offset bs < length b then (Panic ''Not enough space for bytes'', bs)
     else let start = offset bs - length b in
       if length (bytes bs) < start then (Panic ''slice bounds out of range'', bs)
       else let n = min (length b) (length (bytes bs) - start) in
         (Ok (length b),
          \<lparr>bytes = take start (bytes bs) @ take n b @ drop (start + n) (bytes bs),
           offset = start\<rparr>))"

section \<open>asn1.go: primitive values\<close>

text \<open>
  \<^verbatim>\<open>parseBool\<close> sets an error for an empty slice but goes on to index it.
\<close>

definition parseBool :: "byte list \<Rightarrow> bool outcome" where
  "parseBool b =
     (if 1 < length b then Err (SyntaxError ''invalid boolean: should be encoded on one byte only'' [])
      else case b of
        [] \<Rightarrow> Panic ''index out of range''
      | x # _ \<Rightarrow>
          if x = 0 then Ok False
          else if x = 0xff then Ok True
          else Err (SyntaxError ''invalid boolean: should be 0x00 of 0xFF'' []))"

definition sizeBool :: nat where
  "sizeBool = 1"

definition writeBool :: "bool \<Rightarrow> (Bytes, nat) go" where
  "writeBool b = (if \<not> b then writeBytes [0x00] else writeBytes [0xff])"

text \<open>
  The accumulated value is shifted up and down again to extend its sign; the shift amount
  \<open>64 - uint8(len)*8\<close> does not wrap, since \<open>len \<le> 8\<close>.
\<close>

definition parseInt64 :: "byte list \<Rightarrow> (64 word) outcome" where
  "parseInt64 b =
     (if 8 < length b then Err (StructuralError ''integer too large'')
      else let r = fold (\<lambda>x acc. push_bit 8 acc OR (ucast x :: 64 word)) b 0;
               sh = 64 - length b * 8
           in Ok (signed_drop_bit sh (push_bit sh r)))"

text \<open>The two loops of \<^verbatim>\<open>sizeInt64\<close>; \<open>i >>= 8\<close> is the arithmetic shift of the signed value.\<close>

function sizeLoopPos :: "int \<Rightarrow> nat \<Rightarrow> int \<times> nat" where
  "sizeLoopPos i n = (if 127 < i then sizeLoopPos (drop_bit 8 i) (n + 1) else (i, n))"
  by pat_completeness auto
termination
  by (relation "measure (\<lambda>(i, n). nat i)") (auto simp: drop_bit_eq_div)

function sizeLoopNeg :: "int \<Rightarrow> nat \<Rightarrow> int \<times> nat" where
  "sizeLoopNeg i n = (if i < -128 then sizeLoopNeg (drop_bit 8 i) (n + 1) else (i, n))"
  by pat_completeness auto
termination
  by (relation "measure (\<lambda>(i, n). nat (- i))") (auto simp: drop_bit_eq_div)

declare sizeLoopPos.simps [simp del] sizeLoopNeg.simps [simp del]

definition sizeInt64 :: "64 word \<Rightarrow> nat" where
  "sizeInt64 w =
     (let (i, n) = sizeLoopPos (sint w) 1;
          (i', n') = sizeLoopNeg i n
      in n')"

definition writeInt64 :: "64 word \<Rightarrow> (Bytes, nat) go" where
  "writeInt64 i =
     (let n = sizeInt64 i;
          buf = map (\<lambda>j. if j < n then (ucast (signed_drop_bit ((n - 1 - j) * 8) i) :: byte) else 0) [0..<8]
      in if 8 < n then panic ''slice bounds out of range''
         else go_bind (writeBytes (take n buf)) (\<lambda>_. ret n))"

definition parseInt32 :: "byte list \<Rightarrow> (32 word) outcome" where
  "parseInt32 b = outcome_bind (parseInt64 b) (\<lambda>ret64.
     if ret64 \<noteq> scast (ucast ret64 :: 32 word) then Err (StructuralError ''integer too large'')
     else Ok (ucast ret64))"

definition sizeInt32 :: "32 word \<Rightarrow> nat" where
  "sizeInt32 i = sizeInt64 (scast i)"

definition writeInt32 :: "32 word \<Rightarrow> (Bytes, nat) go" where
  "writeInt32 i = writeInt64 (scast i)"

definition parseOctetString :: "byte list \<Rightarrow> (byte list) outcome" where
  "parseOctetString b = Ok b"

definition sizeOctetString :: "byte list \<Rightarrow> nat" where
  "sizeOctetString s = length s"

definition writeOctetString :: "byte list \<Rightarrow> (Bytes, nat) go" where
  "writeOctetString s = writeBytes s"

section \<open>asn1.go: base-128 integers, tag and length\<close>

function parseBase128Loop :: "byte list \<Rightarrow> nat \<Rightarrow> int \<Rightarrow> nat \<Rightarrow> (int \<times> nat) outcome" where
  "parseBase128Loop bs shifted r off =
     (if off < length bs then
        if 4 < shifted then Err (StructuralError ''base 128 integer too large'')
        else let b = bs ! off; r' = push_bit 7 r OR uint (b AND 0x7f) in
          if b AND 0x80 = 0 then Ok (r', off + 1)
          else parseBase128Loop bs (shifted + 1) r' (off + 1)
      else Err (SyntaxError ''truncated base 128 integer'' []))"
  by pat_completeness auto
termination
  by (relation "measure (\<lambda>(bs, shifted, r, off). length bs - off)") auto

declare parseBase128Loop.simps [simp del]

definition parseBase128Int :: "byte list \<Rightarrow> nat \<Rightarrow> (int \<times> nat) outcome" where
  "parseBase128Int bs initOffset = parseBase128Loop bs 0 0 initOffset"

function sizeBase128Int :: "int \<Rightarrow> nat" where
  "sizeBase128Int i = (if 0 < i then 1 + sizeBase128Int (drop_bit 7 i) else 0)"
  by pat_completeness auto
termination
  by (relation "measure nat") (auto simp: drop_bit_eq_div)

declare sizeBase128Int.simps [simp del]

function writeBase128Loop :: "int \<Rightarrow> nat \<Rightarrow> (Bytes, nat) go" where
  "writeBase128Loop v sz bs =
     (if 0 < v \<or> sz = 0 then
        let b = (of_int v :: byte) AND 0x7f;
            b' = (if v < 128 then b OR 0x80 else b)
        in case writeBytes [b'] bs of
             (Ok _, bs') \<Rightarrow> writeBase128Loop (drop_bit 7 v) (sz + 1) bs'
           | (Err e, bs') \<Rightarrow> (Err e, bs')
           | (Panic p, bs') \<Rightarrow> (Panic p, bs')
           | (Diverge, bs') \<Rightarrow> (Diverge, bs')
      else (Ok sz, bs))"
  by pat_completeness auto
termination
proof (relation "measure (\<lambda>(v, sz, bs). nat v + (if sz = 0 then 1 else 0))", goal_cases)
  case (2 v sz bs x xa xb y)
  have "nat (drop_bit 7 v) \<le> nat v"
    by (cases "0 < v") (auto simp: drop_bit_eq_div int_div_less_self intro!: less_imp_le)
  moreover have "nat (drop_bit 7 v) < nat v" if "0 < v"
    using that by (simp add: drop_bit_eq_div int_div_less_self)
  ultimately show ?case using 2(1) by auto
qed simp

declare writeBase128Loop.simps [simp del]

definition writeBase128Int :: "int \<Rightarrow> (Bytes, nat) go" where
  "writeBase128Int v = writeBase128Loop v 0"

fun parseLengthLoop :: "nat \<Rightarrow> byte list \<Rightarrow> nat \<Rightarrow> int \<Rightarrow> (int \<times> nat) outcome" where
  "parseLengthLoop 0 bs off len = Ok (len, off)"
| "parseLengthLoop (Suc n) bs off len =
     (if length bs \<le> off then Err (SyntaxError ''truncated tag or length'' [])
      else let b = bs ! off in
        if 2 ^ 23 \<le> len then Err (StructuralError ''length too large'')
        else let len' = push_bit 8 len OR uint b in
          if len' = 0 then Err (StructuralError ''superfluous leading zeros in length'')
          else parseLengthLoop n bs (off + 1) len')"

definition parseTagAndLength :: "byte list \<Rightarrow> nat \<Rightarrow> (TagAndLength \<times> nat) outcome" where
  "parseTagAndLength bs initOffset =
     (if length bs \<le> initOffset then Panic ''index out of range''
      else let b = bs ! initOffset;
               cls = uint (drop_bit 6 b);
               cmp = (b AND 0x20 = 0x20);
               tag = uint (b AND 0x1f)
      in outcome_bind (if tag = 0x1f then parseBase128Int bs (initOffset + 1)
                       else Ok (tag, initOffset + 1)) (\<lambda>(tag', off).
         if length bs \<le> off then Err (SyntaxError ''truncated tag or length'' [])
         else let b2 = bs ! off in
           if b2 AND 0x80 = 0
           then Ok (\<lparr>Class = cls, Tag = tag', Length = uint (b2 AND 0x7f), IsCompound = cmp\<rparr>, off + 1)
           else let numBytes = unat (b2 AND 0x7f) in
             if numBytes = 0 then Err (SyntaxError ''indefinite length found (not DER)'' [])
             else outcome_bind (parseLengthLoop numBytes bs (off + 1) 0) (\<lambda>(len, off').
               Ok (\<lparr>Class = cls, Tag = tag', Length = len, IsCompound = cmp\<rparr>, off'))))"

function sizeLengthLoop :: "int \<Rightarrow> nat" where
  "sizeLengthLoop len = (if 255 < len then 1 + sizeLengthLoop (drop_bit 8 len) else 0)"
  by pat_completeness auto
termination
  by (relation "measure nat") (auto simp: drop_bit_eq_div)

declare sizeLengthLoop.simps [simp del]

definition sizeTagAndLength :: "int \<Rightarrow> int \<Rightarrow> nat" where
  "sizeTagAndLength tag len =
     1 + (if 31 \<le> tag then sizeBase128Int tag else 0)
     + 1 + (if 128 \<le> len then 1 + sizeLengthLoop len else 0)"

function writeLengthLoop :: "int \<Rightarrow> nat \<Rightarrow> (Bytes, nat) go" where
  "writeLengthLoop v lengthBytes bs =
     (if 0 < v then
        case writeBytes [of_int (v AND 0xff)] bs of
          (Ok _, bs') \<Rightarrow> writeLengthLoop (drop_bit 8 v) (lengthBytes + 1) bs'
        | (Err e, bs') \<Rightarrow> (Err e, bs')
        | (Panic p, bs') \<Rightarrow> (Panic p, bs')
        | (Diverge, bs') \<Rightarrow> (Diverge, bs')
      else (Ok lengthBytes, bs))"
  by pat_completeness auto
termination
  by (relation "measure (\<lambda>(v, n, bs). nat v)") (auto simp: drop_bit_eq_div int_div_less_self)

declare writeLengthLoop.simps [simp del]

text \<open>The buffer is written backwards: the length bytes first, the tag last.\<close>

definition writeTagAndLength :: "TagAndLength \<Rightarrow> (Bytes, nat) go" where
  "writeTagAndLength t =
     (if Length t < 0 then panic ''Can't have a negative length''
      else go_bind
        (if 128 \<le> Length t then
           go_bind (writeLengthLoop (Length t) 0) (\<lambda>lengthBytes.
           go_bind (writeBytes [0x80 OR of_nat lengthBytes]) (\<lambda>_.
           ret (lengthBytes + 1)))
         else writeBytes [of_int (Length t)]) (\<lambda>size1.
      let b = push_bit 6 (of_int (Class t) :: byte) OR (if IsCompound t then 0x20 else 0) in
      if 31 \<le> Tag t then
        go_bind (writeBase128Int (Tag t)) (\<lambda>size2.
        go_bind (writeBytes [b OR 0x1f]) (\<lambda>size3. ret (size1 + size2 + size3)))
      else
        go_bind (writeBytes [b OR of_int (Tag t)]) (\<lambda>size3. ret (size1 + size3))))"

section \<open>bytes.go: sub-slices and primitive values\<close>

definition ParseTagAndLength :: "(Bytes, TagAndLength) go" where
  "ParseTagAndLength = (\<lambda>bs.
     case outcome_wrap ''ParseTagAndLength'' (parseTagAndLength (bytes bs) (offset bs)) of
       Ok (t, off) \<Rightarrow> (Ok t, bs\<lparr>offset := off\<rparr>)
     | Err e \<Rightarrow> (Err e, bs)
     | Panic p \<Rightarrow> (Panic p, bs)
     | Diverge \<Rightarrow> (Diverge, bs))"

text \<open>\<^verbatim>\<open>PreviewTagAndLength\<close> (declared in \<^verbatim>\<open>intermediate_response.go\<close>) restores the offset.\<close>

definition PreviewTagAndLength :: "(Bytes, TagAndLength) go" where
  "PreviewTagAndLength = (\<lambda>bs.
     let (r, bs') = ParseTagAndLength bs in (r, bs'\<lparr>offset := offset bs\<rparr>))"

definition ReadSubBytes :: "int \<Rightarrow> int \<Rightarrow> (Bytes, 'a) go \<Rightarrow> (Bytes, 'a) go" where
  "ReadSubBytes cls tag callback =
     go_bind (go_wrap ''ReadSubBytes'' ParseTagAndLength) (\<lambda>t.
     go_bind (go_wrap ''ReadSubBytes'' (lift (Expect t cls tag isCompound))) (\<lambda>_ bs.
       let start = offset bs; end = offset bs + nat (Length t) in
       if length (bytes bs) < end
       then (Err (LdapError ''ReadSubBytes: data truncated'' [Length t, int (offset bs)]), bs)
       else case callback \<lparr>bytes = take (end - start) (drop start (bytes bs)), offset = 0\<rparr> of
           (Ok x, sub) \<Rightarrow>
             if HasMoreData sub
             then (Err (LdapError ''ReadSubBytes: data too long''
                     [int end - int (offset bs), int (offset bs)]), bs)
             else (Ok x, bs\<lparr>offset := end\<rparr>)
         | (Err e, sub) \<Rightarrow> (Err (Wrapped ''ReadSubBytes'' e), bs\<lparr>offset := offset bs + offset sub\<rparr>)
         | (Panic p, sub) \<Rightarrow> (Panic p, bs)
         | (Diverge, sub) \<Rightarrow> (Diverge, bs)))"

text \<open>The values \<^verbatim>\<open>ReadPrimitiveSubBytes\<close> returns as \<^verbatim>\<open>any\<close>, and those the writers pass.\<close>

datatype read_any = VBool bool | VInt32 "32 word" | VBytes "byte list"

datatype write_any =
  WBOOLEAN bool | WINTEGER "32 word" | WENUMERATED "32 word" | WOCTETSTRING string

definition parsePrimitive :: "int \<Rightarrow> byte list \<Rightarrow> read_any outcome" where
  "parsePrimitive typeTag b =
     (if typeTag = tagBoolean then outcome_bind (parseBool b) (\<lambda>v. Ok (VBool v))
      else if typeTag = tagInteger then outcome_bind (parseInt32 b) (\<lambda>v. Ok (VInt32 v))
      else if typeTag = tagEnum then outcome_bind (parseInt32 b) (\<lambda>v. Ok (VInt32 v))
      else if typeTag = tagOctetString then outcome_bind (parseOctetString b) (\<lambda>v. Ok (VBytes v))
      else Err (LdapError ''ReadPrimitiveSubBytes: invalid type tag value'' [typeTag]))"

definition ReadPrimitiveSubBytes :: "int \<Rightarrow> int \<Rightarrow> int \<Rightarrow> (Bytes, read_any) go" where
  "ReadPrimitiveSubBytes cls tag typeTag =
     go_bind (go_wrap ''ReadPrimitiveSubBytes'' ParseTagAndLength) (\<lambda>t.
     go_bind (go_wrap ''ReadPrimitiveSubBytes'' (lift (Expect t cls tag isNotCompound))) (\<lambda>_ bs.
       let start = offset bs; end = offset bs + nat (Length t) in
       if length (bytes bs) < end
       then (Err (LdapError ''ReadPrimitiveSubBytes: data truncated''
               [Length t, int (offset bs), int (length (bytes bs)) - int start]), bs)
       else go_bind (go_wrap ''ReadPrimitiveSubBytes''
              (lift (parsePrimitive typeTag (take (end - start) (drop start (bytes bs))))))
              (\<lambda>v bs'. (Ok v, bs'\<lparr>offset := end\<rparr>)) bs))"

definition WriteTagAndLength :: "int \<Rightarrow> bool \<Rightarrow> int \<Rightarrow> int \<Rightarrow> (Bytes, nat) go" where
  "WriteTagAndLength cls compound tag len =
     writeTagAndLength \<lparr>Class = cls, Tag = tag, Length = len, IsCompound = compound\<rparr>"

definition writePrimitive :: "write_any \<Rightarrow> (Bytes, nat) go" where
  "writePrimitive v = (case v of
      WBOOLEAN b \<Rightarrow> writeBool b
    | WINTEGER i \<Rightarrow> writeInt32 i
    | WENUMERATED i \<Rightarrow> writeInt32 i
    | WOCTETSTRING s \<Rightarrow> writeOctetString (bytes_of s))"

definition WritePrimitiveSubBytes :: "int \<Rightarrow> int \<Rightarrow> write_any \<Rightarrow> (Bytes, nat) go" where
  "WritePrimitiveSubBytes cls tag v =
     go_bind (writePrimitive v) (\<lambda>size.
     go_bind (WriteTagAndLength cls isNotCompound tag (int size)) (\<lambda>n. ret (size + n)))"

text \<open>\<^verbatim>\<open>SizePrimitiveSubBytes\<close> (declared in \<^verbatim>\<open>boolean.go\<close>).\<close>

definition sizePrimitive :: "write_any \<Rightarrow> nat" where
  "sizePrimitive v = (case v of
      WBOOLEAN b \<Rightarrow> sizeBool
    | WINTEGER i \<Rightarrow> sizeInt32 i
    | WENUMERATED i \<Rightarrow> sizeInt32 i
    | WOCTETSTRING s \<Rightarrow> sizeOctetString (bytes_of s))"

definition SizePrimitiveSubBytes :: "int \<Rightarrow> write_any \<Rightarrow> nat" where
  "SizePrimitiveSubBytes tag v =
     (let size = sizePrimitive v in size + sizeTagAndLength tag (int size))"

definition SizeSubBytes :: "int \<Rightarrow> nat \<Rightarrow> nat" where
  "SizeSubBytes tag n = n + sizeTagAndLength tag (int n)"

end
