(* ===== verification/Ber_Codec.thy ===== *)
theory Ber_Codec
  imports Ber
begin

text \<open>
  What the BER layer promises. \<open>tlv\<close> is the abstract encoding: an identifier byte, a
  definite-form length and the contents. \<open>writes w e\<close> says that the writer \<open>w\<close> puts exactly
  the bytes \<open>e\<close> in front of the buffer's offset; \<open>reads r e x\<close> says that the reader \<open>r\<close>, placed
  at \<open>e\<close> inside any buffer, returns \<open>x\<close> and stops right after \<open>e\<close>. Both compose along the
  structure of the readers and writers (\<open>codec_rules\<close>), so that the proof for a message type
  follows its definition. \<open>ber_codec\<close> is the contract of a message type: its writer, its size
  function and its reader agree on one encoding.
\<close>

section \<open>The abstract encoding\<close>

function be_bytes :: "int \<Rightarrow> byte list" where
  "be_bytes v = (if 0 < v then be_bytes (v div 256) @ [of_int v] else [])"
  by pat_completeness auto
termination
  by (relation "measure nat") (auto simp: int_div_less_self)

declare be_bytes.simps [simp del]

definition ident_byte :: "int \<Rightarrow> bool \<Rightarrow> int \<Rightarrow> byte" where
  "ident_byte cls cmp tag =
     (push_bit 6 (of_int cls) OR (if cmp then 0x20 else 0)) OR of_int tag"

definition length_bytes :: "nat \<Rightarrow> byte list" where
  "length_bytes n =
     (if 128 \<le> n then (0x80 OR of_nat (length (be_bytes (int n)))) # be_bytes (int n)
      else [of_int (int n)])"

definition header_bytes :: "int \<Rightarrow> bool \<Rightarrow> int \<Rightarrow> nat \<Rightarrow> byte list" where
  "header_bytes cls cmp tag n = ident_byte cls cmp tag # length_bytes n"

definition tlv :: "int \<Rightarrow> bool \<Rightarrow> int \<Rightarrow> byte list \<Rightarrow> byte list" where
  "tlv cls cmp tag c = header_bytes cls cmp tag (length c) @ c"

text \<open>Classes and tags that have a one-byte identifier: every tag of RFC 4511 does.\<close>

definition low_tag :: "int \<Rightarrow> int \<Rightarrow> bool" where
  "low_tag cls tag \<longleftrightarrow> 0 \<le> cls \<and> cls < 4 \<and> 0 \<le> tag \<and> tag < 31"

lemma be_bytes_0 [simp]: "be_bytes 0 = []"
  by (subst be_bytes.simps) simp

lemma be_bytes_pos: "0 < v \<Longrightarrow> be_bytes v = be_bytes (v div 256) @ [of_int v]"
  by (subst be_bytes.simps) simp

lemma length_be_bytes_bound:
  "v < 256 ^ k \<Longrightarrow> length (be_bytes v) \<le> k"
proof (induction k arbitrary: v)
  case 0
  then show ?case by (subst be_bytes.simps) simp
next
  case (Suc k)
  show ?case
  proof (cases "0 < v")
    case True
    have "v div 256 < 256 ^ k" using Suc.prems by (simp add: div_less_iff_less_mult mult.commute)
    then have "length (be_bytes (v div 256)) \<le> k" by (rule Suc.IH)
    then show ?thesis by (simp add: be_bytes_pos [OF True])
  next
    case False
    then show ?thesis by (subst be_bytes.simps) simp
  qed
qed

lemma be_bytes_nonempty: "0 < v \<Longrightarrow> be_bytes v \<noteq> []"
  by (simp add: be_bytes_pos)

lemma tlv_nonempty [simp]: "tlv cls cmp tag c \<noteq> []"
  by (simp add: tlv_def header_bytes_def)

lemma length_tlv: "length (tlv cls cmp tag c) = length (header_bytes cls cmp tag (length c)) + length c"
  by (simp add: tlv_def)

lemma length_tlv_gr: "length c + 1 < length (tlv cls cmp tag c)"
  by (simp add: tlv_def header_bytes_def length_bytes_def)

section \<open>Writers\<close>

definition place :: "byte list \<Rightarrow> Bytes \<Rightarrow> Bytes" where
  "place e bs = \<lparr>bytes = take (offset bs - length e) (bytes bs) @ e @ drop (offset bs) (bytes bs),
                 offset = offset bs - length e\<rparr>"

definition room :: "nat \<Rightarrow> Bytes \<Rightarrow> bool" where
  "room n bs \<longleftrightarrow> n \<le> offset bs \<and> offset bs \<le> length (bytes bs)"

definition writes :: "(Bytes, nat) go \<Rightarrow> byte list \<Rightarrow> bool" where
  "writes w e \<longleftrightarrow> (\<forall>bs. room (length e) bs \<longrightarrow> w bs = (Ok (length e), place e bs))"

named_theorems codec_rules

lemma place_Nil [simp]: "place [] bs = bs"
  by (cases bs) (simp add: place_def)

lemma room_place: "room (length e1 + n) bs \<Longrightarrow> room n (place e1 bs)"
  by (auto simp: room_def place_def)

lemma room_mono: "room m bs \<Longrightarrow> n \<le> m \<Longrightarrow> room n bs"
  by (simp add: room_def)

lemma place_place:
  "room (length e1 + length e2) bs \<Longrightarrow> place e2 (place e1 bs) = place (e2 @ e1) bs"
  by (auto simp: place_def room_def add.commute)

lemma writesI: "(\<And>bs. room (length e) bs \<Longrightarrow> w bs = (Ok (length e), place e bs)) \<Longrightarrow> writes w e"
  by (simp add: writes_def)

lemma writesD: "writes w e \<Longrightarrow> room (length e) bs \<Longrightarrow> w bs = (Ok (length e), place e bs)"
  by (simp add: writes_def)

lemma writes_writeBytes [codec_rules]: "writes (writeBytes e) e"
  by (rule writesI) (auto simp: writeBytes_def place_def room_def Let_def)

lemma writes_ret0 [codec_rules]: "writes (ret 0) []"
  by (rule writesI) simp

text \<open>\<open>size += w1(bytes); size += w2(bytes)\<close>: the second writer writes in front of the first.\<close>

definition write_then :: "(Bytes, nat) go \<Rightarrow> (Bytes, nat) go \<Rightarrow> (Bytes, nat) go" where
  "write_then w1 w2 = go_bind w1 (\<lambda>n. go_bind w2 (\<lambda>m. ret (n + m)))"

text \<open>\<open>size += bytes.WriteTagAndLength(class, compound, tag, size)\<close>\<close>

definition write_tagged :: "int \<Rightarrow> bool \<Rightarrow> int \<Rightarrow> (Bytes, nat) go \<Rightarrow> (Bytes, nat) go" where
  "write_tagged cls cmp tag w =
     go_bind w (\<lambda>n. go_bind (WriteTagAndLength cls cmp tag (int n)) (\<lambda>m. ret (n + m)))"

text \<open>\<open>if x != nil { size += x.write(bytes) }\<close>\<close>

definition write_opt :: "('a \<Rightarrow> (Bytes, nat) go) \<Rightarrow> 'a option \<Rightarrow> (Bytes, nat) go" where
  "write_opt w x = (case x of None \<Rightarrow> ret 0 | Some v \<Rightarrow> w v)"

text \<open>\<open>for _, v := range slices.Backward(xs) { size += v.write(bytes) }\<close>\<close>

fun write_list :: "('a \<Rightarrow> (Bytes, nat) go) \<Rightarrow> 'a list \<Rightarrow> (Bytes, nat) go" where
  "write_list w [] = ret 0"
| "write_list w (x # xs) = write_then (write_list w xs) (w x)"

lemma write_list_cong [fundef_cong]:
  "xs = ys \<Longrightarrow> (\<And>x. x \<in> set ys \<Longrightarrow> f x = g x) \<Longrightarrow> write_list f xs = write_list g ys"
  by (induction xs arbitrary: ys) auto

definition size_tagged :: "int \<Rightarrow> nat \<Rightarrow> nat" where
  "size_tagged tag n = n + sizeTagAndLength tag (int n)"

definition enc_opt :: "('a \<Rightarrow> byte list) \<Rightarrow> 'a option \<Rightarrow> byte list" where
  "enc_opt e x = (case x of None \<Rightarrow> [] | Some v \<Rightarrow> e v)"

definition size_opt :: "('a \<Rightarrow> nat) \<Rightarrow> 'a option \<Rightarrow> nat" where
  "size_opt f x = (case x of None \<Rightarrow> 0 | Some v \<Rightarrow> f v)"

lemma enc_opt_simps [simp]: "enc_opt e None = []" "enc_opt e (Some v) = e v"
  by (simp_all add: enc_opt_def)

lemma size_opt_simps [simp]: "size_opt e None = 0" "size_opt e (Some v) = e v"
  by (simp_all add: size_opt_def)

lemma writes_then [codec_rules]:
  assumes "writes w1 e1" and "writes w2 e2"
  shows "writes (write_then w1 w2) (e2 @ e1)"
proof (rule writesI)
  fix bs assume r: "room (length (e2 @ e1)) bs"
  then have r1: "room (length e1) bs" by (simp add: room_def)
  have r2: "room (length e2) (place e1 bs)"
    by (rule room_place) (use r in \<open>simp add: add.commute\<close>)
  have p: "place e2 (place e1 bs) = place (e2 @ e1) bs"
    by (rule place_place) (use r in \<open>simp add: add.commute\<close>)
  show "write_then w1 w2 bs = (Ok (length (e2 @ e1)), place (e2 @ e1) bs)"
    using writesD [OF assms(1) r1] writesD [OF assms(2) r2] p
    by (simp add: write_then_def)
qed

lemma writes_opt [codec_rules]:
  "(\<And>v. x = Some v \<Longrightarrow> writes (w v) (e v)) \<Longrightarrow> writes (write_opt w x) (enc_opt e x)"
  by (cases x) (auto simp: write_opt_def intro: writes_ret0)

lemma writes_list [codec_rules]:
  "(\<And>x. x \<in> set xs \<Longrightarrow> writes (w x) (e x)) \<Longrightarrow> writes (write_list w xs) (concat (map e xs))"
  by (induction xs) (auto intro!: writes_ret0 writes_then)

lemma of_int_and_255: "(of_int (v AND 255) :: byte) = of_int v"
proof -
  have "v AND 255 = take_bit 8 v"
    by (simp add: take_bit_eq_mask mask_eq_exp_minus_1)
  then show ?thesis by (simp add: word_of_int_eq_iff)
qed

lemma writes_lengthLoop:
  "room (length (be_bytes v)) bs \<Longrightarrow>
   writeLengthLoop v n bs = (Ok (n + length (be_bytes v)), place (be_bytes v) bs)"
proof (induction v arbitrary: n bs rule: be_bytes.induct)
  case (1 v)
  show ?case
  proof (cases "0 < v")
    case False
    then show ?thesis by (subst writeLengthLoop.simps) (simp add: be_bytes.simps [of v])
  next
    case True
    let ?hi = "be_bytes (v div 256)" and ?lo = "of_int v :: byte"
    have be: "be_bytes v = ?hi @ [?lo]" by (rule be_bytes_pos [OF True])
    have lo: "of_int (v AND 255) = ?lo" by (rule of_int_and_255)
    have dr: "drop_bit 8 v = v div 256" by (simp add: drop_bit_eq_div)
    have r1: "room (length [?lo]) bs" and r2: "room (length ?hi) (place [?lo] bs)"
      using 1(2) by (auto simp: be room_def place_def)
    have w: "writeBytes [?lo] bs = (Ok 1, place [?lo] bs)"
      using writesD [OF writes_writeBytes r1] by simp
    have ih: "writeLengthLoop (v div 256) (n + 1) (place [?lo] bs) =
        (Ok (n + 1 + length ?hi), place ?hi (place [?lo] bs))"
      by (rule 1(1) [OF True r2])
    have "place ?hi (place [?lo] bs) = place (be_bytes v) bs"
      using 1(2) by (subst place_place) (auto simp: be room_def)
    then show ?thesis using True ih
      by (subst writeLengthLoop.simps) (simp add: lo w dr be)
  qed
qed

lemma writes_header:
  assumes "low_tag cls tag"
  shows "writes (WriteTagAndLength cls cmp tag (int n)) (header_bytes cls cmp tag n)"
proof -
  let ?id = "ident_byte cls cmp tag"
  let ?L = "if 128 \<le> int n then
           go_bind (writeLengthLoop (int n) 0) (\<lambda>lengthBytes.
           go_bind (writeBytes [0x80 OR of_nat lengthBytes]) (\<lambda>_.
           ret (lengthBytes + 1)))
         else writeBytes [of_int (int n)]"
  have L: "writes ?L (length_bytes n)"
  proof (cases "128 \<le> n")
    case True
    show ?thesis
    proof (rule writesI)
      fix bs assume r: "room (length (length_bytes n)) bs"
      let ?c = "0x80 OR of_nat (length (be_bytes (int n))) :: byte"
      from r True have r1: "room (length (be_bytes (int n))) bs"
        and r2: "room (length [?c]) (place (be_bytes (int n)) bs)"
        by (auto simp: length_bytes_def room_def place_def)
      have "place [?c] (place (be_bytes (int n)) bs) = place (length_bytes n) bs"
        using r True by (subst place_place) (auto simp: length_bytes_def room_def)
      then show "?L bs = (Ok (length (length_bytes n)), place (length_bytes n) bs)"
        using True writes_lengthLoop [OF r1, of 0] writesD [OF writes_writeBytes r2]
        by (simp add: length_bytes_def)
    qed
  next
    case False
    then show ?thesis by (simp add: length_bytes_def writes_writeBytes)
  qed
  have W: "WriteTagAndLength cls cmp tag (int n) = write_then ?L (writeBytes [?id])"
    using assms
    by (simp add: WriteTagAndLength_def writeTagAndLength_def write_then_def low_tag_def
        ident_byte_def Let_def)
  show ?thesis unfolding W header_bytes_def
    using writes_then [OF L writes_writeBytes [of "[?id]"]] by simp
qed

lemma writes_tagged [codec_rules]:
  assumes "writes w c" and "low_tag cls tag"
  shows "writes (write_tagged cls cmp tag w) (tlv cls cmp tag c)"
proof (rule writesI)
  fix bs assume r: "room (length (tlv cls cmp tag c)) bs"
  let ?h = "header_bytes cls cmp tag (length c)"
  have r1: "room (length c) bs" and r2: "room (length ?h) (place c bs)"
    using r by (auto simp: tlv_def room_def place_def)
  have "place ?h (place c bs) = place (tlv cls cmp tag c) bs"
    using r by (subst place_place) (auto simp: tlv_def room_def)
  then show "write_tagged cls cmp tag w bs =
      (Ok (length (tlv cls cmp tag c)), place (tlv cls cmp tag c) bs)"
    using writesD [OF assms(1) r1] writesD [OF writes_header [OF assms(2)] r2]
    by (simp add: write_tagged_def tlv_def)
qed

section \<open>Sizes\<close>

lemma sizeLengthLoop_be_bytes: "0 < v \<Longrightarrow> 1 + sizeLengthLoop v = length (be_bytes v)"
proof (induction v rule: be_bytes.induct)
  case (1 v)
  show ?case
  proof (cases "255 < v")
    case True
    then have "1 + sizeLengthLoop (v div 256) = length (be_bytes (v div 256))"
      by (intro "1.IH") auto
    with True show ?thesis
      by (subst sizeLengthLoop.simps) (simp add: be_bytes_pos drop_bit_eq_div)
  next
    case False
    with "1.prems" show ?thesis
      by (subst sizeLengthLoop.simps) (simp add: be_bytes_pos)
  qed
qed

lemma sizeTagAndLength_header:
  "low_tag cls tag \<Longrightarrow> tag' < 31 \<Longrightarrow>
   sizeTagAndLength tag' (int n) = length (header_bytes cls cmp tag n)"
  using sizeLengthLoop_be_bytes [of "int n"]
  by (auto simp: sizeTagAndLength_def header_bytes_def length_bytes_def low_tag_def)

lemma size_tagged_tlv:
  "low_tag cls tag \<Longrightarrow> tag' < 31 \<Longrightarrow> n = length c \<Longrightarrow>
   size_tagged tag' n = length (tlv cls cmp tag c)"
  by (simp add: size_tagged_def tlv_def sizeTagAndLength_header [of cls tag tag' _ cmp])

text \<open>The size of an element depends on the size of its contents only.\<close>

definition tlv_size :: "nat \<Rightarrow> nat" where
  "tlv_size n = 1 + length (length_bytes n) + n"

named_theorems size_rules

lemma length_tlv_size [size_rules]: "length (tlv cls cmp tag c) = tlv_size (length c)"
  by (simp add: tlv_def header_bytes_def tlv_size_def)

lemma size_tagged_size [size_rules]: "tag < 31 \<Longrightarrow> size_tagged tag n = tlv_size n"
  using size_tagged_tlv [of 0 0 tag n "replicate n 0" False]
  by (simp add: low_tag_def length_tlv_size)

lemma size_opt_enc:
  "(\<And>v. x = Some v \<Longrightarrow> f v = length (e v)) \<Longrightarrow> size_opt f x = length (enc_opt e x)"
  by (cases x) auto

lemma sum_list_size:
  "(\<And>x. x \<in> set xs \<Longrightarrow> f x = length (e x)) \<Longrightarrow> sum_list (map f xs) = length (concat (map e xs))"
  by (induction xs) auto

section \<open>Readers\<close>

definition reads_if :: "(byte list \<Rightarrow> bool) \<Rightarrow> (Bytes, 'a) go \<Rightarrow> byte list \<Rightarrow> 'a \<Rightarrow> bool" where
  "reads_if P r e x \<longleftrightarrow> length e < 2 ^ 31 \<longrightarrow>
     (\<forall>pre post. P post \<longrightarrow>
        r \<lparr>bytes = pre @ e @ post, offset = length pre\<rparr> =
        (Ok x, \<lparr>bytes = pre @ e @ post, offset = length pre + length e\<rparr>))"

text \<open>\<open>reads\<close>: whatever follows; \<open>consumes\<close>: at the end of the slice.\<close>

abbreviation reads :: "(Bytes, 'a) go \<Rightarrow> byte list \<Rightarrow> 'a \<Rightarrow> bool" where
  "reads \<equiv> reads_if (\<lambda>_. True)"

abbreviation consumes :: "(Bytes, 'a) go \<Rightarrow> byte list \<Rightarrow> 'a \<Rightarrow> bool" where
  "consumes \<equiv> reads_if (\<lambda>post. post = [])"

lemma reads_ifI:
  "(\<And>pre post. length e < 2 ^ 31 \<Longrightarrow> P post \<Longrightarrow>
     r \<lparr>bytes = pre @ e @ post, offset = length pre\<rparr> =
     (Ok x, \<lparr>bytes = pre @ e @ post, offset = length pre + length e\<rparr>)) \<Longrightarrow> reads_if P r e x"
  by (simp add: reads_if_def)

lemma reads_ifD:
  "reads_if P r e x \<Longrightarrow> length e < 2 ^ 31 \<Longrightarrow> P post \<Longrightarrow>
   r \<lparr>bytes = pre @ e @ post, offset = length pre\<rparr> =
   (Ok x, \<lparr>bytes = pre @ e @ post, offset = length pre + length e\<rparr>)"
  by (simp add: reads_if_def)

lemma reads_if_weaken: "reads_if Q r e x \<Longrightarrow> (\<And>post. P post \<Longrightarrow> Q post) \<Longrightarrow> reads_if P r e x"
  by (simp add: reads_if_def)

lemma reads_weaken: "reads r e x \<Longrightarrow> reads_if P r e x"
  by (simp add: reads_if_def)

lemma consumes_reads: "reads r e x \<Longrightarrow> consumes r e x"
  by (rule reads_weaken)

lemma reads_if_bind:
  assumes m: "reads_if Q m e1 a" and f: "reads_if P (f a) e2 b"
    and PQ: "\<And>post. length (e1 @ e2) < 2 ^ 31 \<Longrightarrow> P post \<Longrightarrow> Q (e2 @ post)"
  shows "reads_if P (go_bind m f) (e1 @ e2) b"
proof (rule reads_ifI)
  fix pre post assume len: "length (e1 @ e2) < 2 ^ 31" and P: "P post"
  have 1: "m \<lparr>bytes = pre @ e1 @ e2 @ post, offset = length pre\<rparr> =
      (Ok a, \<lparr>bytes = pre @ e1 @ e2 @ post, offset = length pre + length e1\<rparr>)"
    by (rule reads_ifD [OF m]) (use len PQ [OF len P] in auto)
  have 2: "f a \<lparr>bytes = (pre @ e1) @ e2 @ post, offset = length (pre @ e1)\<rparr> =
      (Ok b, \<lparr>bytes = (pre @ e1) @ e2 @ post, offset = length (pre @ e1) + length e2\<rparr>)"
    by (rule reads_ifD [OF f]) (use len P in auto)
  show "go_bind m f \<lparr>bytes = pre @ (e1 @ e2) @ post, offset = length pre\<rparr> =
      (Ok b, \<lparr>bytes = pre @ (e1 @ e2) @ post, offset = length pre + length (e1 @ e2)\<rparr>)"
    using 1 2 by (simp add: add.assoc)
qed

text \<open>The common case: the first reader does not look at what follows.\<close>

lemma reads_bind [codec_rules]:
  "reads m e1 a \<Longrightarrow> reads_if P (f a) e2 b \<Longrightarrow> reads_if P (go_bind m f) (e1 @ e2) b"
  by (rule reads_if_bind) auto

lemma reads_bind_last [codec_rules]:
  "reads_if P m e a \<Longrightarrow> f a = ret b \<Longrightarrow> reads_if P (go_bind m f) e b"
  by (auto simp: reads_if_def)

lemma reads_wrap [codec_rules]: "reads_if P m e x \<Longrightarrow> reads_if P (go_wrap c m) e x"
  by (auto simp: reads_if_def)

lemma reads_ret [codec_rules]: "reads_if P (ret x) [] x"
  by (auto simp: reads_if_def)

lemma reads_map [codec_rules]: "reads_if P m e x \<Longrightarrow> y = f x \<Longrightarrow> reads_if P (go_map f m) e y"
  by (auto simp: reads_if_def)

subsection \<open>Tag and length\<close>

lemma ident_byte_fields_all:
  "list_all (\<lambda>cls. list_all (\<lambda>tag. list_all (\<lambda>cmp.
      uint (drop_bit 6 (ident_byte cls cmp tag)) = cls \<and>
      (ident_byte cls cmp tag AND 0x20 = 0x20) = cmp \<and>
      uint (ident_byte cls cmp tag AND 0x1f) = tag) [True, False]) [0..30]) [0..3]"
  by code_simp

lemma ident_byte_fields:
  assumes "low_tag cls tag"
  shows "uint (drop_bit 6 (ident_byte cls cmp tag)) = cls"
    and "ident_byte cls cmp tag AND 0x20 = 0x20 \<longleftrightarrow> cmp"
    and "uint (ident_byte cls cmp tag AND 0x1f) = tag"
proof -
  have "cls \<in> set [0..3]" "tag \<in> set [0..30]" "cmp \<in> set [True, False]"
    using assms by (auto simp: low_tag_def)
  with ident_byte_fields_all show
    "uint (drop_bit 6 (ident_byte cls cmp tag)) = cls"
    "ident_byte cls cmp tag AND 0x20 = 0x20 \<longleftrightarrow> cmp"
    "uint (ident_byte cls cmp tag AND 0x1f) = tag"
    unfolding list_all_iff by blast+
qed

lemma shift_or_byte: "push_bit 8 (v div 256) OR uint (of_int v :: byte) = v"
proof -
  have "uint (of_int v :: byte) = take_bit 8 v" by (simp add: uint_word_of_int_eq)
  moreover have "push_bit 8 (drop_bit 8 v) OR take_bit 8 v = v"
    by (rule bit_eqI) (auto simp: bit_simps)
  ultimately show ?thesis by (simp add: drop_bit_eq_div)
qed

lemma parseLengthLoop_be_bytes:
  "0 \<le> v \<Longrightarrow> v < 2 ^ 31 \<Longrightarrow>
   parseLengthLoop (length (be_bytes v) + k) (pre @ be_bytes v @ rest) (length pre) 0 =
   parseLengthLoop k (pre @ be_bytes v @ rest) (length pre + length (be_bytes v)) v"
proof (induction v arbitrary: k rest rule: be_bytes.induct)
  case (1 v)
  show ?case
  proof (cases "0 < v")
    case False
    with "1.prems" show ?thesis by simp
  next
    case True
    let ?hi = "v div 256"
    have hi: "0 \<le> ?hi" "?hi < 2 ^ 23"
      using True "1.prems" by (auto simp: pos_imp_zdiv_nonneg_iff)
    have "parseLengthLoop (length (be_bytes ?hi) + Suc k)
        (pre @ be_bytes ?hi @ (of_int v # rest)) (length pre) 0 =
      parseLengthLoop (Suc k) (pre @ be_bytes ?hi @ (of_int v # rest))
        (length pre + length (be_bytes ?hi)) ?hi"
      by (rule "1.IH" [OF True]) (use hi in auto)
    then show ?thesis
      using True hi shift_or_byte [of v]
      by (simp add: be_bytes_pos nth_append)
  qed
qed

lemma length_be_bytes_le_4: "n < 2 ^ 31 \<Longrightarrow> length (be_bytes (int n)) \<le> 4"
  by (rule length_be_bytes_bound) simp

lemma length_octet_all:
  "list_all (\<lambda>k. (0x80 OR of_nat k :: byte) AND 0x80 \<noteq> 0 \<and>
      unat ((0x80 OR of_nat k :: byte) AND 0x7f) = k) [1, 2, 3, 4]"
  by code_simp

lemma length_octet_fields:
  assumes "0 < k" "k \<le> 4"
  shows "(0x80 OR of_nat k :: byte) AND 0x80 \<noteq> 0" "unat ((0x80 OR of_nat k :: byte) AND 0x7f) = k"
proof -
  have "k \<in> set [1, 2, 3, 4]" using assms by auto
  with length_octet_all show
    "(0x80 OR of_nat k :: byte) AND 0x80 \<noteq> 0" "unat ((0x80 OR of_nat k :: byte) AND 0x7f) = k"
    unfolding list_all_iff by blast+
qed

lemma short_length_all:
  "list_all (\<lambda>n. (of_int n :: byte) AND 0x80 = 0 \<and> uint ((of_int n :: byte) AND 0x7f) = n) [0..127]"
  by code_simp

lemma short_length_fields:
  assumes "n < 128"
  shows "(of_int (int n) :: byte) AND 0x80 = 0" "uint ((of_int (int n) :: byte) AND 0x7f) = int n"
proof -
  have "int n \<in> set [0..127]" using assms by auto
  with short_length_all show
    "(of_int (int n) :: byte) AND 0x80 = 0" "uint ((of_int (int n) :: byte) AND 0x7f) = int n"
    unfolding list_all_iff by blast+
qed

lemma parseTagAndLength_header:
  assumes "low_tag cls tag" and "n < 2 ^ 31"
  shows "parseTagAndLength (pre @ header_bytes cls cmp tag n @ post) (length pre) =
    Ok (\<lparr>Class = cls, Tag = tag, Length = int n, IsCompound = cmp\<rparr>,
        length pre + length (header_bytes cls cmp tag n))"
proof -
  have tag: "tag \<noteq> 31" using assms(1) by (simp add: low_tag_def)
  note id = ident_byte_fields [OF assms(1), where cmp = cmp]
  show ?thesis
  proof (cases "128 \<le> n")
    case False
    then have "n < 128" by simp
    note sl = short_length_fields [OF this]
    show ?thesis using False tag id sl
      by (simp add: parseTagAndLength_def header_bytes_def length_bytes_def nth_append Let_def)
  next
    case True
    let ?be = "be_bytes (int n)" and ?i = "ident_byte cls cmp tag"
    let ?c = "0x80 OR of_nat (length ?be) :: byte"
    have be: "0 < length ?be" "length ?be \<le> 4"
      using True be_bytes_nonempty [of "int n"] length_be_bytes_le_4 [OF assms(2)] by auto
    note lo = length_octet_fields [OF be]
    have "parseLengthLoop (length ?be + 0) ((pre @ [?i, ?c]) @ ?be @ post) (length (pre @ [?i, ?c])) 0 =
      parseLengthLoop 0 ((pre @ [?i, ?c]) @ ?be @ post) (length (pre @ [?i, ?c]) + length ?be) (int n)"
      by (rule parseLengthLoop_be_bytes) (use assms(2) in auto)
    then have loop: "parseLengthLoop (length ?be) (pre @ ?i # ?c # ?be @ post) (length pre + 2) 0 =
      Ok (int n, length pre + 2 + length ?be)"
      by simp
    show ?thesis using True tag id lo be loop
      by (simp add: parseTagAndLength_def header_bytes_def length_bytes_def nth_append Let_def)
  qed
qed

lemma ParseTagAndLength_tlv:
  assumes "low_tag cls tag" and "length c < 2 ^ 31"
  shows "ParseTagAndLength \<lparr>bytes = pre @ tlv cls cmp tag c @ post, offset = length pre\<rparr> =
    (Ok \<lparr>Class = cls, Tag = tag, Length = int (length c), IsCompound = cmp\<rparr>,
     \<lparr>bytes = pre @ tlv cls cmp tag c @ post,
      offset = length pre + length (header_bytes cls cmp tag (length c))\<rparr>)"
  using parseTagAndLength_header [OF assms, of pre cmp "c @ post"]
  by (simp add: ParseTagAndLength_def tlv_def)

lemma PreviewTagAndLength_tlv:
  assumes "low_tag cls tag" and "length c < 2 ^ 31"
  shows "PreviewTagAndLength \<lparr>bytes = pre @ tlv cls cmp tag c @ post, offset = length pre\<rparr> =
    (Ok \<lparr>Class = cls, Tag = tag, Length = int (length c), IsCompound = cmp\<rparr>,
     \<lparr>bytes = pre @ tlv cls cmp tag c @ post, offset = length pre\<rparr>)"
  by (simp add: PreviewTagAndLength_def ParseTagAndLength_tlv [OF assms])

lemma Expect_same [simp]:
  "Expect \<lparr>Class = cls, Tag = tag, Length = n, IsCompound = cmp\<rparr> cls tag cmp = Ok ()"
  by (simp add: Expect_def ExpectClass_def ExpectTag_def ExpectCompound_def)

subsection \<open>Sub-slices and primitive values\<close>

lemma reads_ReadSubBytes [codec_rules]:
  assumes c: "consumes callback e x" and lt: "low_tag cls tag"
  shows "reads (ReadSubBytes cls tag callback) (tlv cls isCompound tag e) x"
proof (rule reads_ifI)
  fix pre post assume len: "length (tlv cls isCompound tag e) < 2 ^ 31"
  have le: "length e < 2 ^ 31"
    using len length_tlv_gr [of e cls isCompound tag] by linarith
  let ?h = "header_bytes cls isCompound tag (length e)"
  have cb: "callback \<lparr>bytes = e, offset = 0\<rparr> = (Ok x, \<lparr>bytes = e, offset = length e\<rparr>)"
    using reads_ifD [OF c le, of "[]" "[]"] by simp
  have sl: "take (length e) (drop (length pre + length ?h) (pre @ (?h @ e) @ post)) = e"
    by simp
  show "ReadSubBytes cls tag callback
      \<lparr>bytes = pre @ tlv cls isCompound tag e @ post, offset = length pre\<rparr> =
    (Ok x, \<lparr>bytes = pre @ tlv cls isCompound tag e @ post,
             offset = length pre + length (tlv cls isCompound tag e)\<rparr>)"
    using ParseTagAndLength_tlv [OF lt le, of pre isCompound post] cb sl
    by (simp add: ReadSubBytes_def Let_def tlv_def HasMoreData_def)
qed

lemma reads_ReadPrimitive:
  assumes v: "parsePrimitive typeTag e = Ok v" and lt: "low_tag cls tag"
  shows "reads (ReadPrimitiveSubBytes cls tag typeTag) (tlv cls isNotCompound tag e) v"
proof (rule reads_ifI)
  fix pre post assume len: "length (tlv cls isNotCompound tag e) < 2 ^ 31"
  have le: "length e < 2 ^ 31"
    using len length_tlv_gr [of e cls isNotCompound tag] by linarith
  show "ReadPrimitiveSubBytes cls tag typeTag
      \<lparr>bytes = pre @ tlv cls isNotCompound tag e @ post, offset = length pre\<rparr> =
    (Ok v, \<lparr>bytes = pre @ tlv cls isNotCompound tag e @ post,
             offset = length pre + length (tlv cls isNotCompound tag e)\<rparr>)"
    using ParseTagAndLength_tlv [OF lt le, of pre isNotCompound post] v
    by (simp add: ReadPrimitiveSubBytes_def Let_def tlv_def)
qed

text \<open>A reader that looks at the tag first and then reads the whole element.\<close>

lemma reads_preview:
  assumes lt: "low_tag cls tag"
    and r: "reads_if P (f \<lparr>Class = cls, Tag = tag, Length = int (length c), IsCompound = cmp\<rparr>)
      (tlv cls cmp tag c) x"
  shows "reads_if P (go_bind (go_wrap ctx PreviewTagAndLength) f) (tlv cls cmp tag c) x"
proof (rule reads_ifI)
  fix pre post assume len: "length (tlv cls cmp tag c) < 2 ^ 31" and P: "P post"
  have le: "length c < 2 ^ 31" using len length_tlv_gr [of c cls cmp tag] by linarith
  show "go_bind (go_wrap ctx PreviewTagAndLength) f
      \<lparr>bytes = pre @ tlv cls cmp tag c @ post, offset = length pre\<rparr> =
    (Ok x, \<lparr>bytes = pre @ tlv cls cmp tag c @ post,
             offset = length pre + length (tlv cls cmp tag c)\<rparr>)"
    using PreviewTagAndLength_tlv [OF lt le, of pre cmp post] reads_ifD [OF r len P, where pre = pre]
    by simp
qed

subsection \<open>Optional components and repetitions\<close>

text \<open>
  The idiom of the \<^verbatim>\<open>readComponents\<close> methods for an optional component: when data is left, look
  at the next tag, and read the component if it is the expected one.
\<close>

definition read_optional :: "int \<Rightarrow> (Bytes, 'a) go \<Rightarrow> (Bytes, 'a option) go" where
  "read_optional tag r = (\<lambda>bs.
     if HasMoreData bs then
       go_bind (go_wrap ''readComponents'' PreviewTagAndLength) (\<lambda>t.
         if Tag t = tag then go_map Some (go_wrap ''readComponents'' r) else ret None) bs
     else (Ok None, bs))"

text \<open>What may follow an absent component: nothing, or an element with another tag.\<close>

definition other_tag :: "int \<Rightarrow> byte list \<Rightarrow> bool" where
  "other_tag tag post \<longleftrightarrow> post = [] \<or>
     (\<exists>cls cmp tag' c rest. post = tlv cls cmp tag' c @ rest \<and> tag' \<noteq> tag \<and>
        low_tag cls tag' \<and> length c < 2 ^ 31)"

lemma other_tag_Nil [simp]: "other_tag tag []"
  by (simp add: other_tag_def)

lemma other_tag_tlv:
  assumes "tag' \<noteq> tag" "low_tag cls tag'" "length (tlv cls cmp tag' c) < 2 ^ 31"
  shows "other_tag tag (tlv cls cmp tag' c @ rest)"
proof -
  have "length c < 2 ^ 31" using assms(3) length_tlv_gr [of c cls cmp tag'] by linarith
  then show ?thesis unfolding other_tag_def using assms(1,2) by blast
qed

lemma reads_optional_Some:
  assumes r: "reads r (tlv cls cmp tag c) x" and lt: "low_tag cls tag"
  shows "reads (read_optional tag r) (tlv cls cmp tag c) (Some x)"
proof (rule reads_ifI)
  fix pre post assume len: "length (tlv cls cmp tag c) < 2 ^ 31"
  have le: "length c < 2 ^ 31" using len length_tlv_gr [of c cls cmp tag] by linarith
  have more: "HasMoreData \<lparr>bytes = pre @ tlv cls cmp tag c @ post, offset = length pre\<rparr>"
    by (simp add: HasMoreData_def)
  show "read_optional tag r \<lparr>bytes = pre @ tlv cls cmp tag c @ post, offset = length pre\<rparr> =
    (Ok (Some x), \<lparr>bytes = pre @ tlv cls cmp tag c @ post,
                   offset = length pre + length (tlv cls cmp tag c)\<rparr>)"
    using PreviewTagAndLength_tlv [OF lt le, of pre cmp post] reads_ifD [OF r len, where pre = pre and post = post] more
    by (simp add: read_optional_def)
qed

lemma reads_optional_None: "reads_if (other_tag tag) (read_optional tag r) [] None"
proof (rule reads_ifI)
  fix pre post assume "other_tag tag post"
  then consider "post = []"
    | cls cmp tag' c rest where "post = tlv cls cmp tag' c @ rest" "tag' \<noteq> tag"
        "low_tag cls tag'" "length c < 2 ^ 31"
    unfolding other_tag_def by blast
  then show "read_optional tag r \<lparr>bytes = pre @ [] @ post, offset = length pre\<rparr> =
    (Ok None, \<lparr>bytes = pre @ [] @ post, offset = length pre + length []\<rparr>)"
  proof cases
    case 1
    then show ?thesis by (simp add: read_optional_def HasMoreData_def)
  next
    case (2 cls cmp tag' c rest)
    then show ?thesis
      using PreviewTagAndLength_tlv [OF 2(3,4), of pre cmp rest]
      by (simp add: read_optional_def HasMoreData_def)
  qed
qed

text \<open>An optional component, present or not, in front of elements with other tags.\<close>

lemma reads_optional [codec_rules]:
  assumes "\<And>v. x = Some v \<Longrightarrow> reads r (tlv cls cmp tag (c v)) v" and "low_tag cls tag"
  shows "reads_if (other_tag tag) (read_optional tag r) (enc_opt (\<lambda>v. tlv cls cmp tag (c v)) x) x"
  using assms by (cases x) (auto intro: reads_optional_None reads_weaken reads_optional_Some)

lemma reads_bind_optional:
  "reads_if (other_tag tag) m e1 a \<Longrightarrow> reads_if P (f a) e2 b \<Longrightarrow>
   (\<And>post. length e2 < 2 ^ 31 \<Longrightarrow> P post \<Longrightarrow> other_tag tag (e2 @ post)) \<Longrightarrow>
   reads_if P (go_bind m f) (e1 @ e2) b"
  by (rule reads_if_bind [where Q = "other_tag tag"]) auto

lemma consumes_optional: "reads_if (other_tag tag) r e x \<Longrightarrow> consumes r e x"
  by (rule reads_if_weaken [where Q = "other_tag tag"]) simp_all

lemma other_tag_opt:
  assumes "tag' \<noteq> tag" and "low_tag cls tag'" and "other_tag tag post"
    and "length (enc_opt (\<lambda>v. tlv cls cmp tag' (c v)) x) < 2 ^ 31"
  shows "other_tag tag (enc_opt (\<lambda>v. tlv cls cmp tag' (c v)) x @ post)"
  using assms by (cases x) (auto intro: other_tag_tlv)

text \<open>
  A trailing optional component that is read whenever data is left, without a look at its tag.
\<close>

definition read_trailing :: "(Bytes, 'a) go \<Rightarrow> (Bytes, 'a option) go" where
  "read_trailing r = (\<lambda>bs.
     if HasMoreData bs then go_map Some (go_wrap ''readComponents'' r) bs else (Ok None, bs))"

lemma consumes_trailing:
  assumes "\<And>v. x = Some v \<Longrightarrow> reads r (e v) v \<and> e v \<noteq> []"
  shows "consumes (read_trailing r) (enc_opt e x) x"
proof (rule reads_ifI)
  fix pre post :: "byte list" assume len: "length (enc_opt e x) < 2 ^ 31" and p: "post = []"
  show "read_trailing r \<lparr>bytes = pre @ enc_opt e x @ post, offset = length pre\<rparr> =
    (Ok x, \<lparr>bytes = pre @ enc_opt e x @ post, offset = length pre + length (enc_opt e x)\<rparr>)"
  proof (cases x)
    case None
    then show ?thesis by (simp add: read_trailing_def HasMoreData_def p)
  next
    case (Some v)
    then have rd: "reads r (e v) v" "e v \<noteq> []" "length (e v) < 2 ^ 31" using assms len by auto
    from reads_ifD [OF rd(1,3), where pre = pre and post = post] rd(2) Some show ?thesis
      by (simp add: read_trailing_def HasMoreData_def)
  qed
qed

text \<open>
  \<open>for bytes.HasMoreData() { x, err = read(bytes); ...; xs = append(xs, x) }\<close>. Every reader
  advances the offset, so the number of bytes left bounds the number of iterations.
\<close>

fun read_loop :: "nat \<Rightarrow> (Bytes, 'a) go \<Rightarrow> 'a list \<Rightarrow> (Bytes, 'a list) go" where
  "read_loop 0 r acc bs = (Diverge, bs)"
| "read_loop (Suc n) r acc bs =
     (if HasMoreData bs then
        go_bind r (\<lambda>x. read_loop n r (acc @ [x])) bs
      else (Ok acc, bs))"

definition read_all :: "(Bytes, 'a) go \<Rightarrow> (Bytes, 'a list) go" where
  "read_all r = (\<lambda>bs. read_loop (Suc (length (bytes bs) - offset bs)) r [] bs)"

lemma read_loop_list:
  assumes "\<And>x. x \<in> set xs \<Longrightarrow> reads r (e x) x \<and> e x \<noteq> []"
    and "length (concat (map e xs)) < 2 ^ 31" and "length (concat (map e xs)) < n"
  shows "read_loop n r acc \<lparr>bytes = pre @ concat (map e xs), offset = length pre\<rparr> =
    (Ok (acc @ xs), \<lparr>bytes = pre @ concat (map e xs),
                     offset = length pre + length (concat (map e xs))\<rparr>)"
  using assms
proof (induction xs arbitrary: n acc pre)
  case Nil
  then show ?case by (cases n) (auto simp: HasMoreData_def)
next
  case (Cons x xs)
  obtain m where n: "n = Suc m" using Cons.prems(3) by (cases n) auto
  have rx: "reads r (e x) x" and ne: "e x \<noteq> []" using Cons.prems(1) by auto
  have "length (e x) < 2 ^ 31" using Cons.prems(2) by simp
  note hd = reads_ifD [OF rx this, where pre = pre and post = "concat (map e xs)"]
  have "0 < length (e x)" using ne by simp
  then have m: "length (concat (map e xs)) < m"
    using Cons.prems(3) unfolding n by (simp del: length_greater_0_conv length_concat)
  have tl: "read_loop m r (acc @ [x]) \<lparr>bytes = (pre @ e x) @ concat (map e xs), offset = length (pre @ e x)\<rparr> =
    (Ok ((acc @ [x]) @ xs), \<lparr>bytes = (pre @ e x) @ concat (map e xs),
       offset = length (pre @ e x) + length (concat (map e xs))\<rparr>)"
    by (rule Cons.IH) (use Cons.prems m in auto)
  show ?case using hd tl ne by (simp add: n HasMoreData_def add.assoc)
qed

lemma consumes_read_all [codec_rules]:
  assumes "\<And>x. x \<in> set xs \<Longrightarrow> reads r (e x) x \<and> e x \<noteq> []"
  shows "consumes (read_all r) (concat (map e xs)) xs"
proof (rule reads_ifI)
  fix pre post :: "byte list" assume len: "length (concat (map e xs)) < 2 ^ 31" and "post = []"
  then show "read_all r \<lparr>bytes = pre @ concat (map e xs) @ post, offset = length pre\<rparr> =
    (Ok xs, \<lparr>bytes = pre @ concat (map e xs) @ post,
             offset = length pre + length (concat (map e xs))\<rparr>)"
    using read_loop_list [OF assms len, of "Suc (length (concat (map e xs)))" "[]" pre]
    by (simp add: read_all_def del: read_loop.simps)
qed

end
