(* ===== verification/Ber_Prim.thy ===== *)
theory Ber_Prim
  imports Ber_Codec
begin

text \<open>
  Primitive values over the BER layer: the two's complement encoding of integers, the reader and
  writer of a tagged primitive, how far readers advance, and the contract \<open>ber_codec\<close> every
  message type is shown to satisfy.
\<close>

section \<open>Integers\<close>

fun int_digits :: "nat \<Rightarrow> int \<Rightarrow> byte list" where
  "int_digits 0 v = []"
| "int_digits (Suc n) v = int_digits n (v div 256) @ [of_int v]"

lemma length_int_digits [simp]: "length (int_digits n v) = n"
  by (induction n arbitrary: v) simp_all

lemma int_digits_eq_map:
  "int_digits n v = map (\<lambda>j. of_int (v div 256 ^ (n - 1 - j))) [0..<n]"
proof (induction n arbitrary: v)
  case 0
  then show ?case by simp
next
  case (Suc n)
  have "v div 256 div 256 ^ (n - 1 - j) = v div 256 ^ (n - j)" if "j < n" for j
  proof -
    have "n - j = Suc (n - 1 - j)" using that by simp
    then show ?thesis by (simp add: zdiv_zmult2_eq)
  qed
  then show ?case by (simp add: Suc.IH)
qed

lemma fold_int_digits:
  assumes "n \<le> 8"
  shows "fold (\<lambda>x acc. push_bit 8 acc OR (ucast x :: 64 word)) (int_digits n v) 0 =
    of_int (take_bit (8 * n) v)"
  using assms
proof (induction n arbitrary: v)
  case 0
  then show ?case by simp
next
  case (Suc n)
  have "push_bit 8 (of_int (take_bit (8 * n) (drop_bit 8 v))) OR (ucast (of_int v :: byte) :: 64 word) =
      of_int (take_bit (8 * Suc n) v)"
    by (rule bit_word_eqI) (auto simp: bit_simps)
  with Suc show ?case by (simp add: drop_bit_eq_div)
qed

lemma sign_extend_range:
  fixes v :: int
  assumes n: "1 \<le> n" "n \<le> 8" and lo: "- (2 ^ (8 * n - 1)) \<le> v" and hi: "v < 2 ^ (8 * n - 1)"
  shows "signed_drop_bit (64 - 8 * n) (push_bit (64 - 8 * n) (of_int (take_bit (8 * n) v))) =
    (of_int v :: 64 word)"
proof (rule bit_word_eqI)
  fix k assume k: "k < LENGTH(64)"
  have "signed_take_bit (8 * n - 1) v = v"
    using lo hi by (simp add: signed_take_bit_int_eq_self_iff)
  then have sgn: "bit v k \<longleftrightarrow> bit v (min (8 * n - 1) k)"
    using bit_signed_take_bit_iff [of "8 * n - 1" v k] by (simp add: min.commute)
  let ?sh = "64 - 8 * n" and ?x = "of_int (take_bit (8 * n) v) :: 64 word"
  let ?j = "if 8 * n \<le> k then 63 else ?sh + k"
  have sh: "64 - ?sh = 8 * n" using n by simp
  have j: "?sh \<le> ?j" "?j < 64" "?j - ?sh = min (8 * n - 1) k" using n k by auto
  have "bit (signed_drop_bit ?sh (push_bit ?sh ?x)) k \<longleftrightarrow> bit (push_bit ?sh ?x) ?j"
    using k sh by (simp only: bit_signed_drop_bit_iff) simp
  also have "\<dots> \<longleftrightarrow> bit ?x (?j - ?sh)"
    using j(1,2) by (simp only: bit_push_bit_iff) simp
  also have "\<dots> \<longleftrightarrow> bit v (min (8 * n - 1) k)"
    unfolding j(3) using n k by (auto simp: bit_word_of_int_iff bit_take_bit_iff)
  finally show "bit (signed_drop_bit ?sh (push_bit ?sh ?x)) k \<longleftrightarrow> bit (of_int v :: 64 word) k"
    using sgn k by (simp add: bit_word_of_int_iff)
qed

lemma sizeLoopPos_spec:
  "0 \<le> i \<Longrightarrow> \<exists>k. sizeLoopPos i n = (i div 256 ^ k, n + k) \<and> i < 128 * 256 ^ k \<and>
     (k = 0 \<or> 128 * 256 ^ (k - 1) \<le> i)"
proof (induction i n rule: sizeLoopPos.induct)
  case (1 i n)
  show ?case
  proof (cases "127 < i")
    case False
    then show ?thesis using "1.prems"
      by (intro exI [of _ 0]) (auto simp: sizeLoopPos.simps [of i n])
  next
    case True
    have "0 \<le> drop_bit 8 i" using "1.prems" by simp
    with "1.IH" [OF True] obtain k where
      k: "sizeLoopPos (drop_bit 8 i) (n + 1) = (drop_bit 8 i div 256 ^ k, n + 1 + k)"
         "drop_bit 8 i < 128 * 256 ^ k" "k = 0 \<or> 128 * 256 ^ (k - 1) \<le> drop_bit 8 i"
      by blast
    have d: "drop_bit 8 i = i div 256" by (simp add: drop_bit_eq_div)
    have "i < 128 * 256 ^ Suc k" using k(2) unfolding d by simp
    moreover have "128 * 256 ^ k \<le> i"
      using k(3) True unfolding d by (cases k) auto
    ultimately show ?thesis
      using True k(1) unfolding d
      by (intro exI [of _ "Suc k"]) (simp add: sizeLoopPos.simps [of i n] d zdiv_zmult2_eq)
  qed
qed

lemma sizeLoopNeg_spec:
  "i < 0 \<Longrightarrow> \<exists>k. sizeLoopNeg i n = (i div 256 ^ k, n + k) \<and> - 128 * 256 ^ k \<le> i \<and>
     (k = 0 \<or> i < - 128 * 256 ^ (k - 1))"
proof (induction i n rule: sizeLoopNeg.induct)
  case (1 i n)
  show ?case
  proof (cases "i < - 128")
    case False
    then show ?thesis using "1.prems"
      by (intro exI [of _ 0]) (auto simp: sizeLoopNeg.simps [of i n])
  next
    case True
    have d: "drop_bit 8 i = i div 256" by (simp add: drop_bit_eq_div)
    have "drop_bit 8 i < 0" using "1.prems" by simp
    with "1.IH" [OF True] obtain k where
      k: "sizeLoopNeg (drop_bit 8 i) (n + 1) = (drop_bit 8 i div 256 ^ k, n + 1 + k)"
         "- 128 * 256 ^ k \<le> drop_bit 8 i" "k = 0 \<or> drop_bit 8 i < - 128 * 256 ^ (k - 1)"
      by blast
    have "- 128 * 256 ^ Suc k \<le> i" using k(2) unfolding d by simp
    moreover have "i < - 128 * 256 ^ k"
      using k(3) True unfolding d by (cases k) auto
    ultimately show ?thesis
      using True k(1) unfolding d
      by (intro exI [of _ "Suc k"]) (simp add: sizeLoopNeg.simps [of i n] d zdiv_zmult2_eq)
  qed
qed

lemma pow256_less_7: "(256::int) ^ m < 256 ^ 7 \<Longrightarrow> m < 7"
  by (rule power_less_imp_less_exp [where a = "256::int"]) auto

lemma power_128_256: "(128::int) * 256 ^ k = 2 ^ (8 * Suc k - 1)"
proof -
  have "(256::int) ^ k = 2 ^ (8 * k)" by (simp add: power_mult)
  moreover have "8 * Suc k - 1 = 7 + 8 * k" by simp
  ultimately show ?thesis by (simp add: power_add)
qed

lemma sizeInt64_range:
  "1 \<le> sizeInt64 w \<and> sizeInt64 w \<le> 8 \<and>
   - (2 ^ (8 * sizeInt64 w - 1)) \<le> sint w \<and> sint w < 2 ^ (8 * sizeInt64 w - 1)"
proof (cases "0 \<le> sint w")
  case True
  then obtain k where k: "sizeLoopPos (sint w) 1 = (sint w div 256 ^ k, 1 + k)"
    "sint w < 128 * 256 ^ k" "k = 0 \<or> 128 * 256 ^ (k - 1) \<le> sint w"
    using sizeLoopPos_spec [OF True, of 1] by blast
  have "0 \<le> sint w div 256 ^ k" using True by (simp add: pos_imp_zdiv_nonneg_iff)
  then have sz: "sizeInt64 w = Suc k"
    unfolding sizeInt64_def k(1) by (simp add: sizeLoopNeg.simps)
  have "sint w < 2 ^ 63" using sint_lt [of w] by simp
  moreover have "(2::int) ^ 63 = 128 * 256 ^ 7" by simp
  ultimately have "k = 0 \<or> (256::int) ^ (k - 1) < 256 ^ 7" using k(3) by auto
  then have "k = 0 \<or> k - 1 < 7" using pow256_less_7 by blast
  then have "k \<le> 7" by auto
  moreover have "0 \<le> (2::int) ^ (8 * Suc k - 1)" by simp
  ultimately show ?thesis
    using True k(2) unfolding sz power_128_256 by linarith
next
  case False
  then have neg: "sint w < 0" by simp
  then obtain k where k: "sizeLoopNeg (sint w) 1 = (sint w div 256 ^ k, 1 + k)"
    "- 128 * 256 ^ k \<le> sint w" "k = 0 \<or> sint w < - 128 * 256 ^ (k - 1)"
    using sizeLoopNeg_spec [OF neg, of 1] by blast
  have sz: "sizeInt64 w = Suc k"
    using neg k(1) unfolding sizeInt64_def by (simp add: sizeLoopPos.simps [of "sint w"])
  have "- (2 ^ 63) \<le> sint w" using sint_ge [of w] by simp
  moreover have "(2::int) ^ 63 = 128 * 256 ^ 7" by simp
  ultimately have "k = 0 \<or> (256::int) ^ (k - 1) < 256 ^ 7" using k(3) by auto
  then have "k = 0 \<or> k - 1 < 7" using pow256_less_7 by blast
  then have "k \<le> 7" by auto
  moreover have "0 < (2::int) ^ (8 * Suc k - 1)" by simp
  moreover have "- (128 * 256 ^ k) \<le> sint w" using k(2) by simp
  ultimately show ?thesis
    using neg unfolding sz power_128_256 by linarith
qed

definition int64_bytes :: "64 word \<Rightarrow> byte list" where
  "int64_bytes w = int_digits (sizeInt64 w) (sint w)"

lemma length_int64_bytes [simp]: "length (int64_bytes w) = sizeInt64 w"
  by (simp add: int64_bytes_def)

lemma parseInt64_bytes: "parseInt64 (int64_bytes w) = Ok w"
proof -
  let ?n = "sizeInt64 w"
  have r: "1 \<le> ?n" "?n \<le> 8" "- (2 ^ (8 * ?n - 1)) \<le> sint w" "sint w < 2 ^ (8 * ?n - 1)"
    using sizeInt64_range [of w] by auto
  show ?thesis
    using r(2) sign_extend_range [OF r] fold_int_digits [OF r(2), of "sint w"]
    by (simp add: parseInt64_def int64_bytes_def Let_def mult.commute)
qed

lemma ucast_signed_drop_bit:
  "(ucast (signed_drop_bit (m * 8) w) :: byte) = of_int (sint (w :: 64 word) div 256 ^ m)"
proof -
  have "sint w div 256 ^ m = drop_bit (m * 8) (sint w)"
    by (simp add: drop_bit_eq_div power_mult mult.commute [of m])
  moreover have "(ucast (signed_drop_bit (m * 8) w) :: byte) = of_int (drop_bit (m * 8) (sint w))"
    by (rule bit_word_eqI) (auto simp: bit_simps)
  ultimately show ?thesis by simp
qed

lemma writes_writeInt64: "writes (writeInt64 w) (int64_bytes w)"
proof -
  let ?n = "sizeInt64 w"
  let ?f = "\<lambda>j. if j < ?n then (ucast (signed_drop_bit ((?n - 1 - j) * 8) w) :: byte) else 0"
  have n: "?n \<le> 8" using sizeInt64_range [of w] by simp
  have "take ?n (map ?f [0..<8]) = map ?f [0..<?n]"
    using n by (simp add: take_map)
  also have "\<dots> = map (\<lambda>j. of_int (sint w div 256 ^ (?n - 1 - j))) [0..<?n]"
    by (simp add: ucast_signed_drop_bit)
  finally have buf: "take ?n (map ?f [0..<8]) = int64_bytes w"
    by (simp add: int64_bytes_def int_digits_eq_map)
  show ?thesis
  proof (rule writesI)
    fix bs assume r: "room (length (int64_bytes w)) bs"
    show "writeInt64 w bs = (Ok (length (int64_bytes w)), place (int64_bytes w) bs)"
      using writesD [OF writes_writeBytes r] n
      unfolding writeInt64_def Let_def buf by simp
  qed
qed

definition int32_bytes :: "32 word \<Rightarrow> byte list" where
  "int32_bytes i = int64_bytes (scast i)"

lemma ucast_scast_32: "(ucast (scast i :: 64 word) :: 32 word) = i"
  by (rule bit_word_eqI) (auto simp: bit_simps)

lemma parseInt32_bytes: "parseInt32 (int32_bytes i) = Ok i"
  by (simp add: parseInt32_def int32_bytes_def parseInt64_bytes ucast_scast_32)

section \<open>Tagged primitive values\<close>

fun any_bytes :: "write_any \<Rightarrow> byte list" where
  "any_bytes (WBOOLEAN b) = [if b then 0xff else 0x00]"
| "any_bytes (WINTEGER i) = int32_bytes i"
| "any_bytes (WENUMERATED i) = int32_bytes i"
| "any_bytes (WOCTETSTRING s) = bytes_of s"

lemma writes_WritePrimitive [codec_rules]:
  "low_tag cls tag \<Longrightarrow>
   writes (WritePrimitiveSubBytes cls tag v) (tlv cls isNotCompound tag (any_bytes v))"
proof -
  assume lt: "low_tag cls tag"
  have eq: "WritePrimitiveSubBytes cls tag v = write_tagged cls isNotCompound tag (writePrimitive v)"
    by (simp add: WritePrimitiveSubBytes_def write_tagged_def)
  have "writes (writePrimitive v) (any_bytes v)"
    by (cases v) (auto simp: writePrimitive_def writeBool_def writeInt32_def writeOctetString_def
        int32_bytes_def intro: writes_writeBytes writes_writeInt64)
  then show ?thesis unfolding eq by (rule writes_tagged [OF _ lt])
qed

lemma SizePrimitive_enc:
  "low_tag cls tag \<Longrightarrow> tag' < 31 \<Longrightarrow>
   SizePrimitiveSubBytes tag' v = length (tlv cls isNotCompound tag (any_bytes v))"
proof -
  assume lt: "low_tag cls tag" "tag' < 31"
  have "sizePrimitive v = length (any_bytes v)"
    by (cases v) (auto simp: sizePrimitive_def sizeBool_def sizeInt32_def sizeOctetString_def
        int32_bytes_def)
  then show ?thesis
    using size_tagged_tlv [OF lt, of "sizePrimitive v" "any_bytes v" isNotCompound]
    by (simp add: SizePrimitiveSubBytes_def size_tagged_def Let_def)
qed

lemma SizePrimitive_size [size_rules]:
  "tag < 31 \<Longrightarrow> SizePrimitiveSubBytes tag v = tlv_size (length (any_bytes v))"
  using SizePrimitive_enc [of 0 0 tag v] by (simp add: low_tag_def length_tlv_size)

lemma parsePrimitive_bytes:
  "parsePrimitive tagBoolean [if b then 0xff else 0x00] = Ok (VBool b)"
  "parsePrimitive tagInteger (int32_bytes i) = Ok (VInt32 i)"
  "parsePrimitive tagEnum (int32_bytes i) = Ok (VInt32 i)"
  "parsePrimitive tagOctetString b' = Ok (VBytes b')"
  by (simp_all add: parsePrimitive_def ber_constants parseBool_def parseInt32_bytes
      parseOctetString_def)

section \<open>How far readers advance\<close>

text \<open>
  \<open>advances r\<close>: a successful read leaves the buffer as it is and moves the offset forward, by at
  least a tag and a length, without passing the end. \<open>steady\<close>: a check that does not move.
\<close>

definition advances :: "(Bytes, 'a) go \<Rightarrow> bool" where
  "advances r \<longleftrightarrow> (\<forall>bs x bs'. r bs = (Ok x, bs') \<longrightarrow>
     bytes bs' = bytes bs \<and> offset bs + 2 \<le> offset bs' \<and> offset bs' \<le> length (bytes bs))"

definition steady :: "(Bytes, 'a) go \<Rightarrow> bool" where
  "steady r \<longleftrightarrow> (\<forall>bs x bs'. r bs = (Ok x, bs') \<longrightarrow> bs' = bs)"

named_theorems advances_rules

lemma advancesD:
  "advances r \<Longrightarrow> r bs = (Ok x, bs') \<Longrightarrow>
   bytes bs' = bytes bs \<and> offset bs + 2 \<le> offset bs' \<and> offset bs' \<le> length (bytes bs)"
  unfolding advances_def by blast

lemma steady_ret [advances_rules]: "steady (ret x)"
  by (simp add: steady_def)

lemma steady_throw [advances_rules]: "steady (throw x)"
  by (simp add: steady_def)

lemma steady_lift [advances_rules]: "steady (lift x)"
  by (simp add: steady_def)

lemma steady_if [advances_rules]: "steady m \<Longrightarrow> steady m' \<Longrightarrow> steady (if b then m else m')"
  by simp

lemma advances_if [advances_rules]: "advances m \<Longrightarrow> advances m' \<Longrightarrow> advances (if b then m else m')"
  by simp

lemma advances_throw [advances_rules]: "advances (throw x)"
  by (simp add: advances_def)

lemma steady_Preview [advances_rules]: "steady PreviewTagAndLength"
  by (auto simp: steady_def PreviewTagAndLength_def ParseTagAndLength_def split: outcome.splits)

lemma steady_wrap [advances_rules]: "steady m \<Longrightarrow> steady (go_wrap c m)"
  by (auto simp: steady_def)

lemma steady_bind [advances_rules]:
  "steady m \<Longrightarrow> (\<And>a. steady (f a)) \<Longrightarrow> steady (go_bind m f)"
  unfolding steady_def go_bind_eq_Ok by blast

lemma advances_wrap [advances_rules]: "advances m \<Longrightarrow> advances (go_wrap c m)"
  by (auto simp: advances_def)

lemma advances_map [advances_rules]: "advances m \<Longrightarrow> advances (go_map f m)"
  by (auto simp: advances_def)

lemma advances_bind_steady [advances_rules]:
  "advances m \<Longrightarrow> (\<And>a. steady (f a)) \<Longrightarrow> advances (go_bind m f)"
  unfolding advances_def steady_def go_bind_eq_Ok by blast

lemma steady_bind_advances [advances_rules]:
  "steady m \<Longrightarrow> (\<And>a. advances (f a)) \<Longrightarrow> advances (go_bind m f)"
  unfolding advances_def steady_def go_bind_eq_Ok by blast

lemma parseBase128Loop_advances:
  "parseBase128Loop bs k r off = Ok (v, off') \<Longrightarrow> off < off' \<and> off' \<le> length bs"
proof (induction bs k r off rule: parseBase128Loop.induct)
  case (1 bs k r off)
  show ?case
  proof (cases "off < length bs \<and> \<not> 4 < k \<and> bs ! off AND 0x80 \<noteq> 0")
    case True
    with "1.prems" have "parseBase128Loop bs (k + 1) (push_bit 7 r OR uint (bs ! off AND 0x7f)) (off + 1)
        = Ok (v, off')"
      by (subst (asm) parseBase128Loop.simps) (simp add: Let_def)
    with True "1.IH" [OF _ _ refl refl] show ?thesis by force
  next
    case False
    with "1.prems" show ?thesis
      by (subst (asm) parseBase128Loop.simps) (auto simp: Let_def split: if_splits)
  qed
qed

lemma parseLengthLoop_advances:
  "parseLengthLoop n bs off len = Ok (len', off') \<Longrightarrow> 0 \<le> len \<Longrightarrow> off \<le> length bs \<Longrightarrow>
   off' = off + n \<and> off' \<le> length bs \<and> 0 \<le> len'"
proof (induction n arbitrary: off len)
  case (Suc n)
  let ?l = "push_bit 8 len OR uint (bs ! off)"
  from Suc.prems(1) have off: "off < length bs"
    and rec: "parseLengthLoop n bs (off + 1) ?l = Ok (len', off')"
    by (auto simp: Let_def split: if_splits)
  have "0 \<le> ?l" using Suc.prems(2) by simp
  with Suc.IH [OF rec] off show ?case by simp
qed simp

lemma parseTagAndLength_advances:
  assumes "parseTagAndLength bs off = Ok (t, off')"
  shows "off + 2 \<le> off' \<and> off' \<le> length bs \<and> 0 \<le> Length t"
proof -
  let ?b = "bs ! off"
  let ?T = "if uint (?b AND 0x1f) = 0x1f then parseBase128Int bs (off + 1)
            else Ok (uint (?b AND 0x1f), off + 1)"
  from assms have o: "off < length bs"
    by (auto simp: parseTagAndLength_def split: if_splits)
  from assms o obtain tg off1 where T: "?T = Ok (tg, off1)"
    by (cases ?T) (auto simp: parseTagAndLength_def Let_def)
  then have o1: "off < off1" "off1 \<le> length bs"
    using parseBase128Loop_advances [of bs 0 0 "off + 1" tg off1] o
    by (auto simp: parseBase128Int_def split: if_splits)
  from assms o T have o1': "off1 < length bs"
    by (auto simp: parseTagAndLength_def Let_def split: if_splits)
  let ?b2 = "bs ! off1"
  show ?thesis
  proof (cases "?b2 AND 0x80 = 0")
    case True
    with assms o T o1' o1 show ?thesis
      by (auto simp: parseTagAndLength_def Let_def split: if_splits)
  next
    case False
    let ?n = "unat (?b2 AND 0x7f)"
    from assms o T o1' False obtain len where
      l: "parseLengthLoop ?n bs (off1 + 1) 0 = Ok (len, off')" and t: "Length t = len"
      by (cases "parseLengthLoop ?n bs (off1 + 1) 0")
         (auto simp: parseTagAndLength_def Let_def split: if_splits)
    from parseLengthLoop_advances [OF l] o1' have "off' = off1 + 1 + ?n" "off' \<le> length bs" "0 \<le> len"
      by auto
    with o1 t show ?thesis by simp
  qed
qed

lemma ParseTagAndLength_advances:
  "ParseTagAndLength bs = (Ok t, bs') \<Longrightarrow>
   bytes bs' = bytes bs \<and> offset bs + 2 \<le> offset bs' \<and> offset bs' \<le> length (bytes bs) \<and> 0 \<le> Length t"
  using parseTagAndLength_advances [of "bytes bs" "offset bs" t "offset bs'"]
  by (auto simp: ParseTagAndLength_def outcome_wrap_def split: outcome.splits)

lemma ParseTagAndLength_not_Diverge [terminates_rules]: "terminates ParseTagAndLength"
proof -
  have b: "parseBase128Loop bs k r off \<noteq> Diverge" for bs k r off
    by (induction bs k r off rule: parseBase128Loop.induct)
       (subst parseBase128Loop.simps, auto simp: Let_def)
  have l: "parseLengthLoop n bs off len \<noteq> Diverge" for n bs off len
    by (induction n bs off len rule: parseLengthLoop.induct) (auto simp: Let_def)
  have "parseTagAndLength bs off \<noteq> Diverge" for bs off
    using b l by (auto simp: parseTagAndLength_def parseBase128Int_def Let_def outcome_bind_def
        split: outcome.splits)
  then show ?thesis
    by (auto simp: terminates_def ParseTagAndLength_def outcome_wrap_def split: outcome.splits)
qed

lemma terminates_Preview [terminates_rules]: "terminates PreviewTagAndLength"
  using ParseTagAndLength_not_Diverge
  by (auto simp: terminates_def PreviewTagAndLength_def split: prod.splits) (metis fst_conv)

lemma advances_ReadSubBytes [advances_rules]: "advances (ReadSubBytes cls tag callback)"
  unfolding advances_def
proof (intro allI impI)
  fix bs x bs' assume "ReadSubBytes cls tag callback bs = (Ok x, bs')"
  then obtain t bs1 where p: "ParseTagAndLength bs = (Ok t, bs1)"
    and r: "bs' = bs1\<lparr>offset := offset bs1 + nat (Length t)\<rparr>"
           "offset bs1 + nat (Length t) \<le> length (bytes bs1)"
    by (auto simp: ReadSubBytes_def go_bind_eq_Ok Let_def split: if_splits prod.splits outcome.splits)
  from ParseTagAndLength_advances [OF p] r show
    "bytes bs' = bytes bs \<and> offset bs + 2 \<le> offset bs' \<and> offset bs' \<le> length (bytes bs)"
    by auto
qed

lemma advances_ReadPrimitive [advances_rules]: "advances (ReadPrimitiveSubBytes cls tag typeTag)"
  unfolding advances_def
proof (intro allI impI)
  fix bs x bs' assume "ReadPrimitiveSubBytes cls tag typeTag bs = (Ok x, bs')"
  then obtain t bs1 where p: "ParseTagAndLength bs = (Ok t, bs1)"
    and r: "bs' = bs1\<lparr>offset := offset bs1 + nat (Length t)\<rparr>"
           "offset bs1 + nat (Length t) \<le> length (bytes bs1)"
    by (auto simp: ReadPrimitiveSubBytes_def go_bind_eq_Ok Let_def split: if_splits)
  from ParseTagAndLength_advances [OF p] r show
    "bytes bs' = bytes bs \<and> offset bs + 2 \<le> offset bs' \<and> offset bs' \<le> length (bytes bs)"
    by auto
qed

lemma Expect_not_Diverge [simp]: "Expect t cls tag cmp \<noteq> Diverge"
  by (simp add: Expect_def ExpectClass_def ExpectTag_def ExpectCompound_def)

text \<open>The callback of \<^verbatim>\<open>ReadSubBytes\<close> only sees slices that are shorter than the buffer.\<close>

lemma ReadSubBytes_not_Diverge:
  assumes cb: "\<And>sub. length (bytes sub) < length (bytes bs) \<Longrightarrow> fst (callback sub) \<noteq> Diverge"
  shows "fst (ReadSubBytes cls tag callback bs) \<noteq> Diverge"
proof -
  obtain r bs1 where p: "ParseTagAndLength bs = (r, bs1)" by (cases "ParseTagAndLength bs")
  show ?thesis
  proof (cases r)
    case (Ok t)
    with p have "ParseTagAndLength bs = (Ok t, bs1)" by simp
    note a = ParseTagAndLength_advances [OF this]
    define sub where "sub = \<lparr>bytes = take (nat (Length t)) (drop (offset bs1) (bytes bs1)), offset = 0\<rparr>"
    have "length (bytes sub) < length (bytes bs)" using a by (auto simp: sub_def min_def)
    from cb [OF this] have n: "callback sub \<noteq> (Diverge, s)" for s by auto
    have e: "go_wrap ''ReadSubBytes'' (lift (Expect t cls tag isCompound)) bs1 \<noteq> (Diverge, s)" for s
      by (auto simp: go_wrap_def split: outcome.splits)
    show ?thesis using n e
      by (auto simp: ReadSubBytes_def p Ok go_bind_def go_wrap_def [of _ ParseTagAndLength] Let_def sub_def
          split: prod.splits outcome.splits)
  next
    case Diverge
    then show ?thesis
      using ParseTagAndLength_not_Diverge p unfolding terminates_def by (metis fst_conv)
  qed (simp_all add: ReadSubBytes_def p go_bind_def go_wrap_def)
qed

lemma terminates_ReadSubBytes [terminates_rules]:
  "terminates callback \<Longrightarrow> terminates (ReadSubBytes cls tag callback)"
  using ReadSubBytes_not_Diverge unfolding terminates_def by blast

lemma parsePrimitive_not_Diverge: "parsePrimitive typeTag b \<noteq> Diverge"
proof -
  have "parseBool b \<noteq> Diverge" by (auto simp: parseBool_def split: list.splits)
  moreover have "parseInt32 b \<noteq> Diverge" by (simp add: parseInt32_def parseInt64_def Let_def)
  ultimately show ?thesis
    by (auto simp: parsePrimitive_def parseOctetString_def outcome_bind_def split: outcome.splits)
qed

lemma terminates_ReadPrimitive [terminates_rules]:
  "terminates (ReadPrimitiveSubBytes cls tag typeTag)"
  unfolding ReadPrimitiveSubBytes_def
proof (intro terminates_bind terminates_wrap ParseTagAndLength_not_Diverge terminates_lift)
  show "Expect a cls tag isNotCompound \<noteq> Diverge" for a by simp
  show "terminates (\<lambda>bs. let start = offset bs; end = offset bs + nat (Length t) in
       if length (bytes bs) < end
       then (Err (LdapError ''ReadPrimitiveSubBytes: data truncated''
               [Length t, int (offset bs), int (length (bytes bs)) - int start]), bs)
       else go_bind (go_wrap ''ReadPrimitiveSubBytes''
              (lift (parsePrimitive typeTag (take (end - start) (drop start (bytes bs))))))
              (\<lambda>v bs'. (Ok v, bs'\<lparr>offset := end\<rparr>)) bs)" for t :: TagAndLength
    unfolding terminates_def
    by (auto simp: Let_def go_bind_def go_wrap_def parsePrimitive_not_Diverge
        split: prod.splits outcome.splits)
qed

lemma terminates_optional [terminates_rules]:
  "terminates r \<Longrightarrow> terminates (read_optional tag r)"
  unfolding read_optional_def
  by (rule terminates_lam_if)
     (auto intro!: terminates_rules simp: terminates_def [of "\<lambda>bs. (Ok None, bs)"])

lemma terminates_trailing [terminates_rules]: "terminates r \<Longrightarrow> terminates (read_trailing r)"
  unfolding read_trailing_def
  by (rule terminates_lam_if)
     (auto intro!: terminates_rules simp: terminates_def [of "\<lambda>bs. (Ok None, bs)"])

lemma read_loop_not_Diverge:
  assumes t: "\<And>bs. bytes bs = b \<Longrightarrow> fst (r bs) \<noteq> Diverge" and "advances r"
  shows "bytes bs = b \<Longrightarrow> length b - offset bs < n \<Longrightarrow> fst (read_loop n r acc bs) \<noteq> Diverge"
proof (induction n arbitrary: acc bs)
  case (Suc n)
  show ?case
  proof (cases "HasMoreData bs")
    case True
    obtain o' bs' where r: "r bs = (o', bs')" by (cases "r bs")
    then have nd: "o' \<noteq> Diverge" using t [OF Suc.prems(1)] by auto
    show ?thesis
    proof (cases o')
      case (Ok x)
      with r have "r bs = (Ok x, bs')" by simp
      note a = advancesD [OF assms(2) this]
      have "offset bs < length (bytes bs)" using True by (simp add: HasMoreData_def)
      with a Suc.prems have "bytes bs' = b" "length b - offset bs' < n" by auto
      from Suc.IH [OF this, of "acc @ [x]"] show ?thesis using True r Ok by simp
    qed (use True r nd in \<open>auto simp: go_bind_def\<close>)
  qed simp
qed simp

text \<open>
  \<open>terminates_on k m\<close>: no loop of \<open>m\<close> runs into its bound on a buffer of less than \<open>k\<close> bytes.
\<close>

definition terminates_on :: "nat \<Rightarrow> (Bytes, 'a) go \<Rightarrow> bool" where
  "terminates_on k m \<longleftrightarrow> (\<forall>bs. length (bytes bs) < k \<longrightarrow> fst (m bs) \<noteq> Diverge)"

named_theorems terminates_on_rules

lemma terminates_onI: "terminates m \<Longrightarrow> terminates_on k m"
  by (simp add: terminates_def terminates_on_def)

lemma terminates_on_wrap [terminates_on_rules]: "terminates_on k m \<Longrightarrow> terminates_on k (go_wrap c m)"
  by (auto simp: terminates_on_def go_wrap_def split: prod.splits outcome.splits)

lemma terminates_on_bind:
  assumes "terminates_on k m" and "\<And>a. terminates (f a)"
  shows "terminates_on k (go_bind m f)"
  unfolding terminates_on_def
proof (intro allI impI)
  fix bs :: Bytes assume "length (bytes bs) < k"
  then have "fst (m bs) \<noteq> Diverge" using assms(1) by (simp add: terminates_on_def)
  moreover have "fst (f a s) \<noteq> Diverge" for a s using assms(2) by (simp add: terminates_def)
  ultimately show "fst (go_bind m f bs) \<noteq> Diverge"
    by (auto simp: go_bind_def split: prod.splits outcome.splits)
qed

lemma terminates_on_map [terminates_on_rules]: "terminates_on k m \<Longrightarrow> terminates_on k (go_map f m)"
  unfolding go_map_def by (intro terminates_on_bind terminates_ret)

lemma terminates_on_steady_bind:
  assumes "terminates m" and "steady m" and "\<And>a. terminates_on k (f a)"
  shows "terminates_on k (go_bind m f)"
  unfolding terminates_on_def
proof (intro allI impI)
  fix bs :: Bytes assume k: "length (bytes bs) < k"
  have "fst (m bs) \<noteq> Diverge" using assms(1) by (simp add: terminates_def)
  moreover have "fst (f a bs') \<noteq> Diverge" if "m bs = (Ok a, bs')" for a bs'
  proof -
    have "bs' = bs" using that assms(2) unfolding steady_def by blast
    with assms(3) k show ?thesis by (simp add: terminates_on_def)
  qed
  ultimately show "fst (go_bind m f bs) \<noteq> Diverge"
    by (auto simp: go_bind_def split: prod.splits outcome.splits)
qed

lemma terminates_on_if [terminates_on_rules]:
  "terminates_on k m \<Longrightarrow> terminates_on k m' \<Longrightarrow> terminates_on k (if b then m else m')"
  by simp

lemma terminates_on_ReadSubBytes [terminates_on_rules]:
  "terminates_on k callback \<Longrightarrow> terminates_on (Suc k) (ReadSubBytes cls tag callback)"
  unfolding terminates_on_def by (auto intro!: ReadSubBytes_not_Diverge)

lemma terminates_on_read_all [terminates_on_rules]:
  "terminates_on k r \<Longrightarrow> advances r \<Longrightarrow> terminates_on k (read_all r)"
  unfolding terminates_on_def read_all_def
proof (intro allI impI)
  fix bs :: Bytes assume r: "\<forall>bs. length (bytes bs) < k \<longrightarrow> fst (r bs) \<noteq> Diverge" "advances r"
    and k: "length (bytes bs) < k"
  show "fst (read_loop (Suc (length (bytes bs) - offset bs)) r [] bs) \<noteq> Diverge"
    by (rule read_loop_not_Diverge [where b = "bytes bs"]) (use r k in auto)
qed

section \<open>The contract of a message type\<close>

text \<open>A reader that always returns, and advances when it succeeds.\<close>

locale ber_reader =
  fixes rd :: "(Bytes, 'a) go"
  assumes terminates_rd: "terminates rd"
    and advances_rd: "advances rd"
begin

lemma terminates_read_all: "terminates (read_all (go_wrap c rd))"
proof -
  have w: "fst (go_wrap c rd bs) \<noteq> Diverge" for bs
    using terminates_wrap [OF terminates_rd] by (simp add: terminates_def)
  show ?thesis unfolding terminates_def read_all_def
    by (intro allI read_loop_not_Diverge [OF w advances_wrap [OF advances_rd] refl]) simp
qed

end

text \<open>
  A message type: writer, size function and reader agree on one encoding \<open>enc\<close>; \<open>wf\<close> are the values
  the reader accepts.
\<close>

locale ber_codec = ber_reader rd
  for rd :: "(Bytes, 'a) go" +
  fixes wr :: "'a \<Rightarrow> (Bytes, nat) go"
    and sz :: "'a \<Rightarrow> nat"
    and enc :: "'a \<Rightarrow> byte list"
    and wf :: "'a \<Rightarrow> bool"
  assumes writes_enc: "writes (wr x) (enc x)"
    and size_enc: "sz x = length (enc x)"
    and reads_enc: "wf x \<Longrightarrow> reads rd (enc x) x"
    and enc_nonempty: "enc x \<noteq> []"
begin

lemma write_fresh:
  "wr x \<lparr>bytes = replicate (sz x) 0, offset = sz x\<rparr> =
   (Ok (sz x), \<lparr>bytes = enc x, offset = 0\<rparr>)"
proof -
  have "room (length (enc x)) \<lparr>bytes = replicate (sz x) 0, offset = sz x\<rparr>"
    by (simp add: room_def size_enc)
  from writesD [OF writes_enc this] show ?thesis by (simp add: place_def size_enc)
qed

lemma read_enc:
  "wf x \<Longrightarrow> sz x < 2 ^ 31 \<Longrightarrow>
   rd \<lparr>bytes = enc x, offset = 0\<rparr> = (Ok x, \<lparr>bytes = enc x, offset = sz x\<rparr>)"
  using reads_ifD [OF reads_enc, where pre = "[]" and post = "[]"] by (simp add: size_enc)

lemma roundtrip:
  assumes "wf x" and "sz x < 2 ^ 31"
  shows "\<exists>bs. wr x \<lparr>bytes = replicate (sz x) 0, offset = sz x\<rparr> = (Ok (sz x), bs) \<and>
    rd bs = (Ok x, bs\<lparr>offset := sz x\<rparr>)"
  using write_fresh [of x] read_enc [OF assms] by simp

lemma writes_all: "writes (write_list wr xs) (concat (map enc xs))"
  by (rule writes_list) (rule writes_enc)

lemma size_all: "sum_list (map sz xs) = length (concat (map enc xs))"
  by (rule sum_list_size) (rule size_enc)

lemma consumes_all:
  "list_all wf xs \<Longrightarrow> consumes (read_all (go_wrap c rd)) (concat (map enc xs)) xs"
  by (rule consumes_read_all) (auto simp: list_all_iff enc_nonempty intro: reads_wrap reads_enc)

end

text \<open>
  The contract of the body of a constructed type, between its header and its end: the callback
  passed to \<^verbatim>\<open>ReadSubBytes\<close>, the writes and the sizes before the tag is added. A body makes a
  message type under any tag, and a message type makes the body of a sequence.
\<close>

locale ber_components =
  fixes cb :: "(Bytes, 'a) go"
    and wr :: "'a \<Rightarrow> (Bytes, nat) go"
    and sz :: "'a \<Rightarrow> nat"
    and enc :: "'a \<Rightarrow> byte list"
    and wf :: "'a \<Rightarrow> bool"
  assumes terminates_cb: "terminates cb"
    and writes_components: "writes (wr x) (enc x)"
    and size_components: "sz x = length (enc x)"
    and consumes_components: "wf x \<Longrightarrow> consumes cb (enc x) x"
begin

lemma tagged_codec:
  assumes "low_tag cls tag" and "tag' < 31"
  shows "ber_codec
     (go_wrap c (ReadSubBytes cls tag cb))
     (\<lambda>x. write_tagged cls isCompound tag (wr x))
     (\<lambda>x. size_tagged tag' (sz x))
     (\<lambda>x. tlv cls isCompound tag (enc x)) wf"
proof (unfold_locales, goal_cases)
  case 1 show ?case by (intro terminates_rules terminates_cb)
next
  case 2 show ?case by (intro advances_rules)
next
  case (3 x) show ?case by (intro writes_tagged assms writes_components)
next
  case (4 x) show ?case using assms(2) by (simp add: size_rules size_components)
next
  case (5 x) then show ?case by (intro reads_wrap reads_ReadSubBytes consumes_components assms)
next
  case (6 x) show ?case by simp
qed

end

context ber_codec
begin

lemma list_components:
  "ber_components (read_all (go_wrap c rd)) (write_list wr) (\<lambda>xs. sum_list (map sz xs))
     (\<lambda>xs. concat (map enc xs)) (list_all wf)"
  by unfold_locales (rule terminates_read_all writes_all size_all consumes_all, assumption?)+

end

end
