(* ===== verification/Ldap_Leaf.thy ===== *)
theory Ldap_Leaf
  imports Ber_Prim
begin

text \<open>
  The leaf types of \<^verbatim>\<open>lib/ldapsrv/goldap\<close>: \<^verbatim>\<open>boolean.go\<close>, \<^verbatim>\<open>integer.go\<close>,
  \<^verbatim>\<open>enumerated.go\<close>, \<^verbatim>\<open>octetstring.go\<close> and the named string and integer types over them. The Go
  types \<^verbatim>\<open>LDAPString\<close>, \<^verbatim>\<open>LDAPDN\<close>, \<^verbatim>\<open>LDAPOID\<close> and so on are conversions of one another
  without a check, so they are synonyms here, each with its own reader and writer. The methods of
  a Go type \<^verbatim>\<open>T\<close> are named \<open>T_method\<close>.
\<close>

section \<open>Types (struct.go)\<close>

type_synonym BOOLEAN = bool
type_synonym INTEGER = "32 word"
type_synonym ENUMERATED = "32 word"
type_synonym OCTETSTRING = string
type_synonym MessageID = INTEGER
type_synonym LDAPString = OCTETSTRING
type_synonym LDAPOID = OCTETSTRING
type_synonym LDAPDN = LDAPString
type_synonym RelativeLDAPDN = LDAPString
type_synonym AttributeDescription = LDAPString
type_synonym AttributeValue = OCTETSTRING
type_synonym AssertionValue = OCTETSTRING
type_synonym MatchingRuleID = LDAPString
type_synonym URI = LDAPString

definition maxInt :: INTEGER where
  "maxInt = 2147483647"

text \<open>The type assertions \<open>value.(bool)\<close>, \<open>value.(int32)\<close>, \<open>value.([]byte)\<close>.\<close>

fun any_bool :: "read_any \<Rightarrow> bool outcome" where
  "any_bool (VBool b) = Ok b"
| "any_bool _ = Panic ''interface conversion''"

fun any_int32 :: "read_any \<Rightarrow> (32 word) outcome" where
  "any_int32 (VInt32 i) = Ok i"
| "any_int32 _ = Panic ''interface conversion''"

fun any_octets :: "read_any \<Rightarrow> (byte list) outcome" where
  "any_octets (VBytes b) = Ok b"
| "any_octets _ = Panic ''interface conversion''"

section \<open>boolean.go\<close>

definition readBOOLEAN :: "(Bytes, BOOLEAN) go" where
  "readBOOLEAN =
     go_bind (go_wrap ''readBOOLEAN'' (ReadPrimitiveSubBytes classUniversal tagBoolean tagBoolean))
       (\<lambda>v. lift (any_bool v))"

definition readTaggedBOOLEAN :: "int \<Rightarrow> int \<Rightarrow> (Bytes, BOOLEAN) go" where
  "readTaggedBOOLEAN cls tag =
     go_bind (go_wrap ''readTaggedBOOLEAN'' (ReadPrimitiveSubBytes cls tag tagBoolean))
       (\<lambda>v. lift (any_bool v))"

definition BOOLEAN_write :: "BOOLEAN \<Rightarrow> (Bytes, nat) go" where
  "BOOLEAN_write b = WritePrimitiveSubBytes classUniversal tagBoolean (WBOOLEAN b)"

definition BOOLEAN_writeTagged :: "BOOLEAN \<Rightarrow> int \<Rightarrow> int \<Rightarrow> (Bytes, nat) go" where
  "BOOLEAN_writeTagged b cls tag = WritePrimitiveSubBytes cls tag (WBOOLEAN b)"

definition BOOLEAN_size :: "BOOLEAN \<Rightarrow> nat" where
  "BOOLEAN_size b = SizePrimitiveSubBytes tagBoolean (WBOOLEAN b)"

definition BOOLEAN_sizeTagged :: "BOOLEAN \<Rightarrow> int \<Rightarrow> nat" where
  "BOOLEAN_sizeTagged b tag = SizePrimitiveSubBytes tag (WBOOLEAN b)"

section \<open>integer.go\<close>

definition readINTEGER :: "(Bytes, INTEGER) go" where
  "readINTEGER =
     go_bind (go_wrap ''readINTEGER'' (ReadPrimitiveSubBytes classUniversal tagInteger tagInteger))
       (\<lambda>v. lift (any_int32 v))"

definition readTaggedINTEGER :: "int \<Rightarrow> int \<Rightarrow> (Bytes, INTEGER) go" where
  "readTaggedINTEGER cls tag =
     go_bind (go_wrap ''readTaggedINTEGER'' (ReadPrimitiveSubBytes cls tag tagInteger))
       (\<lambda>v. lift (any_int32 v))"

definition readTaggedPositiveINTEGER :: "int \<Rightarrow> int \<Rightarrow> (Bytes, INTEGER) go" where
  "readTaggedPositiveINTEGER cls tag =
     go_bind (go_wrap ''readTaggedPositiveINTEGER'' (readTaggedINTEGER cls tag)) (\<lambda>i.
       if sint i < 0 \<or> sint maxInt < sint i
       then throw (LdapError ''readTaggedPositiveINTEGER: Invalid INTEGER value'' [sint i, sint maxInt])
       else ret i)"

definition readPositiveINTEGER :: "(Bytes, INTEGER) go" where
  "readPositiveINTEGER = readTaggedPositiveINTEGER classUniversal tagInteger"

definition INTEGER_write :: "INTEGER \<Rightarrow> (Bytes, nat) go" where
  "INTEGER_write i = WritePrimitiveSubBytes classUniversal tagInteger (WINTEGER i)"

definition INTEGER_writeTagged :: "INTEGER \<Rightarrow> int \<Rightarrow> int \<Rightarrow> (Bytes, nat) go" where
  "INTEGER_writeTagged i cls tag = WritePrimitiveSubBytes cls tag (WINTEGER i)"

definition INTEGER_size :: "INTEGER \<Rightarrow> nat" where
  "INTEGER_size i = SizePrimitiveSubBytes tagInteger (WINTEGER i)"

definition INTEGER_sizeTagged :: "INTEGER \<Rightarrow> int \<Rightarrow> nat" where
  "INTEGER_sizeTagged i tag = SizePrimitiveSubBytes tag (WINTEGER i)"

section \<open>enumerated.go\<close>

text \<open>A Go map from the allowed values to their names is an association list.\<close>

type_synonym enum_names = "(ENUMERATED \<times> string) list"

definition readENUMERATED :: "enum_names \<Rightarrow> (Bytes, ENUMERATED) go" where
  "readENUMERATED allowedValues =
     go_bind (go_wrap ''readENUMERATED'' (ReadPrimitiveSubBytes classUniversal tagEnum tagEnum)) (\<lambda>v.
     go_bind (lift (any_int32 v)) (\<lambda>r.
       case map_of allowedValues r of
         None \<Rightarrow> throw (LdapError ''readENUMERATED: Invalid ENUMERATED VALUE'' [sint r])
       | Some _ \<Rightarrow> ret r))"

definition ENUMERATED_write :: "ENUMERATED \<Rightarrow> (Bytes, nat) go" where
  "ENUMERATED_write i = WritePrimitiveSubBytes classUniversal tagEnum (WENUMERATED i)"

definition ENUMERATED_writeTagged :: "ENUMERATED \<Rightarrow> int \<Rightarrow> int \<Rightarrow> (Bytes, nat) go" where
  "ENUMERATED_writeTagged i cls tag = WritePrimitiveSubBytes cls tag (WENUMERATED i)"

definition ENUMERATED_size :: "ENUMERATED \<Rightarrow> nat" where
  "ENUMERATED_size i = SizePrimitiveSubBytes tagEnum (WENUMERATED i)"

section \<open>octetstring.go and the string types\<close>

definition readOCTETSTRING :: "(Bytes, OCTETSTRING) go" where
  "readOCTETSTRING =
     go_bind (go_wrap ''readOCTETSTRING''
       (ReadPrimitiveSubBytes classUniversal tagOctetString tagOctetString))
       (\<lambda>v. go_map string_of (lift (any_octets v)))"

definition readTaggedOCTETSTRING :: "int \<Rightarrow> int \<Rightarrow> (Bytes, OCTETSTRING) go" where
  "readTaggedOCTETSTRING cls tag =
     go_bind (go_wrap ''readTaggedOCTETSTRING'' (ReadPrimitiveSubBytes cls tag tagOctetString))
       (\<lambda>v. go_map string_of (lift (any_octets v)))"

definition OCTETSTRING_write :: "OCTETSTRING \<Rightarrow> (Bytes, nat) go" where
  "OCTETSTRING_write s = WritePrimitiveSubBytes classUniversal tagOctetString (WOCTETSTRING s)"

definition OCTETSTRING_writeTagged :: "OCTETSTRING \<Rightarrow> int \<Rightarrow> int \<Rightarrow> (Bytes, nat) go" where
  "OCTETSTRING_writeTagged s cls tag = WritePrimitiveSubBytes cls tag (WOCTETSTRING s)"

definition OCTETSTRING_size :: "OCTETSTRING \<Rightarrow> nat" where
  "OCTETSTRING_size s = SizePrimitiveSubBytes tagOctetString (WOCTETSTRING s)"

definition OCTETSTRING_sizeTagged :: "OCTETSTRING \<Rightarrow> int \<Rightarrow> nat" where
  "OCTETSTRING_sizeTagged s tag = SizePrimitiveSubBytes tag (WOCTETSTRING s)"

subsection \<open>string.go\<close>

definition readTaggedLDAPString :: "int \<Rightarrow> int \<Rightarrow> (Bytes, LDAPString) go" where
  "readTaggedLDAPString cls tag = go_wrap ''readTaggedLDAPString'' (readTaggedOCTETSTRING cls tag)"

definition readLDAPString :: "(Bytes, LDAPString) go" where
  "readLDAPString = readTaggedLDAPString classUniversal tagOctetString"

definition LDAPString_write :: "LDAPString \<Rightarrow> (Bytes, nat) go" where
  "LDAPString_write s = OCTETSTRING_write s"

definition LDAPString_writeTagged :: "LDAPString \<Rightarrow> int \<Rightarrow> int \<Rightarrow> (Bytes, nat) go" where
  "LDAPString_writeTagged s cls tag = OCTETSTRING_writeTagged s cls tag"

definition LDAPString_size :: "LDAPString \<Rightarrow> nat" where
  "LDAPString_size s = OCTETSTRING_size s"

definition LDAPString_sizeTagged :: "LDAPString \<Rightarrow> int \<Rightarrow> nat" where
  "LDAPString_sizeTagged s tag = OCTETSTRING_sizeTagged s tag"

subsection \<open>message\_id.go\<close>

definition readTaggedMessageID :: "int \<Rightarrow> int \<Rightarrow> (Bytes, MessageID) go" where
  "readTaggedMessageID cls tag = go_wrap ''readTaggedMessageID'' (readTaggedPositiveINTEGER cls tag)"

definition readMessageID :: "(Bytes, MessageID) go" where
  "readMessageID = readTaggedMessageID classUniversal tagInteger"

definition MessageID_write :: "MessageID \<Rightarrow> (Bytes, nat) go" where
  "MessageID_write m = INTEGER_write m"

definition MessageID_writeTagged :: "MessageID \<Rightarrow> int \<Rightarrow> int \<Rightarrow> (Bytes, nat) go" where
  "MessageID_writeTagged m cls tag = INTEGER_writeTagged m cls tag"

definition MessageID_size :: "MessageID \<Rightarrow> nat" where
  "MessageID_size m = INTEGER_size m"

definition MessageID_sizeTagged :: "MessageID \<Rightarrow> int \<Rightarrow> nat" where
  "MessageID_sizeTagged m tag = INTEGER_sizeTagged m tag"

subsection \<open>dn.go, relative\_ldap\_dn.go, oid.go, uri.go\<close>

definition readLDAPDN :: "(Bytes, LDAPDN) go" where
  "readLDAPDN = go_wrap ''readLDAPDN'' readLDAPString"

definition readTaggedLDAPDN :: "int \<Rightarrow> int \<Rightarrow> (Bytes, LDAPDN) go" where
  "readTaggedLDAPDN cls tag = go_wrap ''readTaggedLDAPDN'' (readTaggedLDAPString cls tag)"

definition readRelativeLDAPDN :: "(Bytes, RelativeLDAPDN) go" where
  "readRelativeLDAPDN = go_wrap ''readRelativeLDAPDN'' readLDAPString"

definition LDAPDN_write :: "LDAPDN \<Rightarrow> (Bytes, nat) go" where
  "LDAPDN_write l = LDAPString_write l"

definition LDAPDN_writeTagged :: "LDAPDN \<Rightarrow> int \<Rightarrow> int \<Rightarrow> (Bytes, nat) go" where
  "LDAPDN_writeTagged l cls tag = LDAPString_writeTagged l cls tag"

definition LDAPDN_size :: "LDAPDN \<Rightarrow> nat" where
  "LDAPDN_size l = LDAPString_size l"

definition LDAPDN_sizeTagged :: "LDAPDN \<Rightarrow> int \<Rightarrow> nat" where
  "LDAPDN_sizeTagged l tag = LDAPString_sizeTagged l tag"

definition RelativeLDAPDN_write :: "RelativeLDAPDN \<Rightarrow> (Bytes, nat) go" where
  "RelativeLDAPDN_write r = LDAPString_write r"

definition RelativeLDAPDN_size :: "RelativeLDAPDN \<Rightarrow> nat" where
  "RelativeLDAPDN_size r = LDAPString_size r"

definition readTaggedLDAPOID :: "int \<Rightarrow> int \<Rightarrow> (Bytes, LDAPOID) go" where
  "readTaggedLDAPOID cls tag = go_wrap ''readTaggedLDAPOID'' (readTaggedOCTETSTRING cls tag)"

definition readLDAPOID :: "(Bytes, LDAPOID) go" where
  "readLDAPOID = readTaggedLDAPOID classUniversal tagOctetString"

definition LDAPOID_write :: "LDAPOID \<Rightarrow> (Bytes, nat) go" where
  "LDAPOID_write l = OCTETSTRING_write l"

definition LDAPOID_writeTagged :: "LDAPOID \<Rightarrow> int \<Rightarrow> int \<Rightarrow> (Bytes, nat) go" where
  "LDAPOID_writeTagged l cls tag = OCTETSTRING_writeTagged l cls tag"

definition LDAPOID_size :: "LDAPOID \<Rightarrow> nat" where
  "LDAPOID_size l = OCTETSTRING_size l"

definition LDAPOID_sizeTagged :: "LDAPOID \<Rightarrow> int \<Rightarrow> nat" where
  "LDAPOID_sizeTagged l tag = OCTETSTRING_sizeTagged l tag"

definition readURI :: "(Bytes, URI) go" where
  "readURI = go_wrap ''readURI'' readLDAPString"

definition URI_write :: "URI \<Rightarrow> (Bytes, nat) go" where
  "URI_write u = LDAPString_write u"

definition URI_size :: "URI \<Rightarrow> nat" where
  "URI_size u = LDAPString_size u"

subsection \<open>assertion\_value.go, attribute\_value.go, attribute\_description.go, matching\_rule\_id.go\<close>

definition readAssertionValue :: "(Bytes, AssertionValue) go" where
  "readAssertionValue = go_wrap ''readAssertionValue'' readOCTETSTRING"

definition readTaggedAssertionValue :: "int \<Rightarrow> int \<Rightarrow> (Bytes, AssertionValue) go" where
  "readTaggedAssertionValue cls tag =
     go_wrap ''readTaggedAssertionValue'' (readTaggedOCTETSTRING cls tag)"

definition AssertionValue_size :: "AssertionValue \<Rightarrow> nat" where
  "AssertionValue_size a = OCTETSTRING_size a"

definition AssertionValue_sizeTagged :: "AssertionValue \<Rightarrow> int \<Rightarrow> nat" where
  "AssertionValue_sizeTagged a tag = OCTETSTRING_sizeTagged a tag"

definition AssertionValue_write :: "AssertionValue \<Rightarrow> (Bytes, nat) go" where
  "AssertionValue_write a = OCTETSTRING_write a"

definition AssertionValue_writeTagged :: "AssertionValue \<Rightarrow> int \<Rightarrow> int \<Rightarrow> (Bytes, nat) go" where
  "AssertionValue_writeTagged a cls tag = OCTETSTRING_writeTagged a cls tag"

definition readAttributeValue :: "(Bytes, AttributeValue) go" where
  "readAttributeValue = go_wrap ''readAttributeValue'' readOCTETSTRING"

definition AttributeValue_write :: "AttributeValue \<Rightarrow> (Bytes, nat) go" where
  "AttributeValue_write v = OCTETSTRING_write v"

definition AttributeValue_size :: "AttributeValue \<Rightarrow> nat" where
  "AttributeValue_size v = OCTETSTRING_size v"

definition readAttributeDescription :: "(Bytes, AttributeDescription) go" where
  "readAttributeDescription = go_wrap ''readAttributeDescription'' readLDAPString"

definition readTaggedAttributeDescription :: "int \<Rightarrow> int \<Rightarrow> (Bytes, AttributeDescription) go" where
  "readTaggedAttributeDescription cls tag =
     go_wrap ''readTaggedAttributeDescription'' (readTaggedLDAPString cls tag)"

definition AttributeDescription_size :: "AttributeDescription \<Rightarrow> nat" where
  "AttributeDescription_size d = LDAPString_size d"

definition AttributeDescription_sizeTagged :: "AttributeDescription \<Rightarrow> int \<Rightarrow> nat" where
  "AttributeDescription_sizeTagged d tag = LDAPString_sizeTagged d tag"

definition AttributeDescription_write :: "AttributeDescription \<Rightarrow> (Bytes, nat) go" where
  "AttributeDescription_write d = LDAPString_write d"

definition AttributeDescription_writeTagged :: "AttributeDescription \<Rightarrow> int \<Rightarrow> int \<Rightarrow> (Bytes, nat) go" where
  "AttributeDescription_writeTagged d cls tag = LDAPString_writeTagged d cls tag"

definition readTaggedMatchingRuleID :: "int \<Rightarrow> int \<Rightarrow> (Bytes, MatchingRuleID) go" where
  "readTaggedMatchingRuleID cls tag =
     go_wrap ''readTaggedMatchingRuleId'' (readTaggedLDAPString cls tag)"

definition MatchingRuleID_writeTagged :: "MatchingRuleID \<Rightarrow> int \<Rightarrow> int \<Rightarrow> (Bytes, nat) go" where
  "MatchingRuleID_writeTagged m cls tag = LDAPString_writeTagged m cls tag"

definition MatchingRuleID_sizeTagged :: "MatchingRuleID \<Rightarrow> int \<Rightarrow> nat" where
  "MatchingRuleID_sizeTagged m tag = LDAPString_sizeTagged m tag"

section \<open>The encodings of the leaf types\<close>

definition enc_bool :: "int \<Rightarrow> int \<Rightarrow> BOOLEAN \<Rightarrow> byte list" where
  "enc_bool cls tag b = tlv cls isNotCompound tag [if b then 0xff else 0x00]"

definition enc_int :: "int \<Rightarrow> int \<Rightarrow> INTEGER \<Rightarrow> byte list" where
  "enc_int cls tag i = tlv cls isNotCompound tag (int32_bytes i)"

definition enc_str :: "int \<Rightarrow> int \<Rightarrow> OCTETSTRING \<Rightarrow> byte list" where
  "enc_str cls tag s = tlv cls isNotCompound tag (bytes_of s)"

abbreviation enc_BOOLEAN :: "BOOLEAN \<Rightarrow> byte list" where
  "enc_BOOLEAN \<equiv> enc_bool classUniversal tagBoolean"

abbreviation enc_INTEGER :: "INTEGER \<Rightarrow> byte list" where
  "enc_INTEGER \<equiv> enc_int classUniversal tagInteger"

abbreviation enc_ENUMERATED :: "ENUMERATED \<Rightarrow> byte list" where
  "enc_ENUMERATED \<equiv> enc_int classUniversal tagEnum"

abbreviation enc_OCTETSTRING :: "OCTETSTRING \<Rightarrow> byte list" where
  "enc_OCTETSTRING \<equiv> enc_str classUniversal tagOctetString"

lemmas enc_leaf_defs = enc_bool_def enc_int_def enc_str_def

lemma enc_leaf_nonempty [simp]:
  "enc_bool cls tag b \<noteq> []" "enc_int cls tag i \<noteq> []" "enc_str cls tag s \<noteq> []"
  by (simp_all add: enc_leaf_defs)

lemma low_tags [simp, codec_rules]:
  "low_tag classUniversal tagBoolean" "low_tag classUniversal tagInteger"
  "low_tag classUniversal tagEnum" "low_tag classUniversal tagOctetString"
  "low_tag classUniversal tagSequence" "low_tag classUniversal tagSet"
  by (simp_all add: low_tag_def ber_constants)

lemmas bool_writer_defs = BOOLEAN_write_def BOOLEAN_writeTagged_def
lemmas int_writer_defs = INTEGER_write_def INTEGER_writeTagged_def ENUMERATED_write_def
  ENUMERATED_writeTagged_def MessageID_write_def MessageID_writeTagged_def
lemmas string_writer_defs = OCTETSTRING_write_def OCTETSTRING_writeTagged_def
  LDAPString_write_def LDAPString_writeTagged_def LDAPDN_write_def LDAPDN_writeTagged_def
  RelativeLDAPDN_write_def LDAPOID_write_def LDAPOID_writeTagged_def URI_write_def
  AssertionValue_write_def AssertionValue_writeTagged_def AttributeValue_write_def
  AttributeDescription_write_def AttributeDescription_writeTagged_def MatchingRuleID_writeTagged_def
lemmas leaf_size_defs = BOOLEAN_size_def BOOLEAN_sizeTagged_def INTEGER_size_def
  INTEGER_sizeTagged_def ENUMERATED_size_def MessageID_size_def MessageID_sizeTagged_def
  OCTETSTRING_size_def OCTETSTRING_sizeTagged_def LDAPString_size_def LDAPString_sizeTagged_def
  LDAPDN_size_def LDAPDN_sizeTagged_def RelativeLDAPDN_size_def LDAPOID_size_def
  LDAPOID_sizeTagged_def URI_size_def AssertionValue_size_def AssertionValue_sizeTagged_def
  AttributeValue_size_def AttributeDescription_size_def AttributeDescription_sizeTagged_def
  MatchingRuleID_sizeTagged_def
lemmas string_reader_defs = readTaggedLDAPString_def readLDAPString_def readLDAPDN_def
  readTaggedLDAPDN_def readRelativeLDAPDN_def readTaggedLDAPOID_def readLDAPOID_def readURI_def
  readAssertionValue_def readTaggedAssertionValue_def readAttributeValue_def
  readAttributeDescription_def readTaggedAttributeDescription_def readTaggedMatchingRuleID_def

lemma bool_writers [codec_rules]:
  "low_tag cls tag \<Longrightarrow> writes (BOOLEAN_writeTagged b cls tag) (enc_bool cls tag b)"
  "writes (BOOLEAN_write b) (enc_BOOLEAN b)"
  using writes_WritePrimitive [of cls tag "WBOOLEAN b"]
    writes_WritePrimitive [of classUniversal tagBoolean "WBOOLEAN b"]
  by (simp_all add: bool_writer_defs enc_bool_def)

lemma int_writers [codec_rules]:
  "low_tag cls tag \<Longrightarrow> writes (INTEGER_writeTagged i cls tag) (enc_int cls tag i)"
  "low_tag cls tag \<Longrightarrow> writes (MessageID_writeTagged i cls tag) (enc_int cls tag i)"
  "writes (INTEGER_write i) (enc_INTEGER i)"
  "writes (MessageID_write i) (enc_INTEGER i)"
  "writes (ENUMERATED_write i) (enc_ENUMERATED i)"
  using writes_WritePrimitive [of cls tag "WINTEGER i"]
    writes_WritePrimitive [of classUniversal tagInteger "WINTEGER i"]
    writes_WritePrimitive [of classUniversal tagEnum "WENUMERATED i"]
  by (simp_all add: int_writer_defs enc_int_def)

lemma string_writers [codec_rules]:
  "low_tag cls tag \<Longrightarrow> writes (OCTETSTRING_writeTagged s cls tag) (enc_str cls tag s)"
  "low_tag cls tag \<Longrightarrow> writes (LDAPString_writeTagged s cls tag) (enc_str cls tag s)"
  "low_tag cls tag \<Longrightarrow> writes (LDAPDN_writeTagged s cls tag) (enc_str cls tag s)"
  "low_tag cls tag \<Longrightarrow> writes (LDAPOID_writeTagged s cls tag) (enc_str cls tag s)"
  "low_tag cls tag \<Longrightarrow> writes (AssertionValue_writeTagged s cls tag) (enc_str cls tag s)"
  "low_tag cls tag \<Longrightarrow> writes (AttributeDescription_writeTagged s cls tag) (enc_str cls tag s)"
  "low_tag cls tag \<Longrightarrow> writes (MatchingRuleID_writeTagged s cls tag) (enc_str cls tag s)"
  "writes (OCTETSTRING_write s) (enc_OCTETSTRING s)"
  "writes (LDAPString_write s) (enc_OCTETSTRING s)"
  "writes (LDAPDN_write s) (enc_OCTETSTRING s)"
  "writes (RelativeLDAPDN_write s) (enc_OCTETSTRING s)"
  "writes (LDAPOID_write s) (enc_OCTETSTRING s)"
  "writes (URI_write s) (enc_OCTETSTRING s)"
  "writes (AssertionValue_write s) (enc_OCTETSTRING s)"
  "writes (AttributeValue_write s) (enc_OCTETSTRING s)"
  "writes (AttributeDescription_write s) (enc_OCTETSTRING s)"
  using writes_WritePrimitive [of cls tag "WOCTETSTRING s"]
    writes_WritePrimitive [of classUniversal tagOctetString "WOCTETSTRING s"]
  by (simp_all add: string_writer_defs enc_str_def)

lemma leaf_sizes [size_rules]:
  "BOOLEAN_size b = tlv_size 1"
  "tag < 31 \<Longrightarrow> BOOLEAN_sizeTagged b tag = tlv_size 1"
  "INTEGER_size i = tlv_size (length (int32_bytes i))"
  "MessageID_size i = tlv_size (length (int32_bytes i))"
  "tag < 31 \<Longrightarrow> MessageID_sizeTagged i tag = tlv_size (length (int32_bytes i))"
  "ENUMERATED_size i = tlv_size (length (int32_bytes i))"
  "OCTETSTRING_size s = tlv_size (length s)"
  "tag < 31 \<Longrightarrow> OCTETSTRING_sizeTagged s tag = tlv_size (length s)"
  "LDAPString_size s = tlv_size (length s)"
  "LDAPDN_size s = tlv_size (length s)"
  "tag < 31 \<Longrightarrow> LDAPDN_sizeTagged s tag = tlv_size (length s)"
  "RelativeLDAPDN_size s = tlv_size (length s)"
  "LDAPOID_size s = tlv_size (length s)"
  "tag < 31 \<Longrightarrow> LDAPOID_sizeTagged s tag = tlv_size (length s)"
  "URI_size s = tlv_size (length s)"
  "AssertionValue_size s = tlv_size (length s)"
  "tag < 31 \<Longrightarrow> AssertionValue_sizeTagged s tag = tlv_size (length s)"
  "AttributeValue_size s = tlv_size (length s)"
  "AttributeDescription_size s = tlv_size (length s)"
  "tag < 31 \<Longrightarrow> AttributeDescription_sizeTagged s tag = tlv_size (length s)"
  "tag < 31 \<Longrightarrow> MatchingRuleID_sizeTagged s tag = tlv_size (length s)"
  by (simp_all add: leaf_size_defs SizePrimitive_size ber_constants)

lemma enc_leaf_sizes [size_rules]:
  "length (enc_bool cls tag b) = tlv_size 1"
  "length (enc_int cls tag i) = tlv_size (length (int32_bytes i))"
  "length (enc_str cls tag s) = tlv_size (length s)"
  by (simp_all add: enc_leaf_defs length_tlv_size)

lemma reads_primitive_then:
  assumes "parsePrimitive typeTag e = Ok v" and "low_tag cls tag" and "f v = lift (Ok x)"
  shows "reads (go_bind (go_wrap c (ReadPrimitiveSubBytes cls tag typeTag)) f)
    (tlv cls isNotCompound tag e) x"
  by (rule reads_bind_last [OF reads_wrap [OF reads_ReadPrimitive [OF assms(1,2)]]])
     (simp add: assms(3) lift_def ret_def)

lemma bool_readers [codec_rules]:
  "low_tag cls tag \<Longrightarrow> reads (readTaggedBOOLEAN cls tag) (enc_bool cls tag b) b"
  "reads readBOOLEAN (enc_BOOLEAN b) b"
  unfolding readTaggedBOOLEAN_def readBOOLEAN_def enc_bool_def
  by (intro reads_primitive_then [OF parsePrimitive_bytes(1)]; simp)+

lemma int_readers [codec_rules]:
  "low_tag cls tag \<Longrightarrow> reads (readTaggedINTEGER cls tag) (enc_int cls tag i) i"
  "reads readINTEGER (enc_INTEGER i) i"
  unfolding readTaggedINTEGER_def readINTEGER_def enc_int_def
  by (intro reads_primitive_then [OF parsePrimitive_bytes(2)]; simp)+

text \<open>Every \<open>int32\<close> is at most \<open>maxInt\<close>, so the check refuses exactly the negative values.\<close>

lemma sint_le_maxInt: "\<not> sint maxInt < sint (i :: INTEGER)"
  using sint_lt [of i] by (simp add: maxInt_def)

lemma positive_int_readers [codec_rules]:
  "low_tag cls tag \<Longrightarrow> 0 \<le> sint i \<Longrightarrow> reads (readTaggedPositiveINTEGER cls tag) (enc_int cls tag i) i"
  "0 \<le> sint i \<Longrightarrow> reads readPositiveINTEGER (enc_INTEGER i) i"
  "low_tag cls tag \<Longrightarrow> 0 \<le> sint i \<Longrightarrow> reads (readTaggedMessageID cls tag) (enc_int cls tag i) i"
  "0 \<le> sint i \<Longrightarrow> reads readMessageID (enc_INTEGER i) i"
proof -
  have t: "reads (readTaggedPositiveINTEGER cls tag) (enc_int cls tag i) i"
    if "low_tag cls tag" "0 \<le> sint i" for cls tag
    unfolding readTaggedPositiveINTEGER_def
    by (rule reads_bind_last [OF reads_wrap [OF int_readers(1) [OF that(1)]]])
       (use that sint_le_maxInt in auto)
  show "low_tag cls tag \<Longrightarrow> 0 \<le> sint i \<Longrightarrow> reads (readTaggedPositiveINTEGER cls tag) (enc_int cls tag i) i"
    by (rule t)
  show "0 \<le> sint i \<Longrightarrow> reads readPositiveINTEGER (enc_INTEGER i) i"
    by (simp add: readPositiveINTEGER_def t)
  show "low_tag cls tag \<Longrightarrow> 0 \<le> sint i \<Longrightarrow> reads (readTaggedMessageID cls tag) (enc_int cls tag i) i"
    by (simp add: readTaggedMessageID_def t reads_wrap)
  show "0 \<le> sint i \<Longrightarrow> reads readMessageID (enc_INTEGER i) i"
    by (simp add: readMessageID_def readTaggedMessageID_def t reads_wrap)
qed

lemma enum_reader [codec_rules]:
  assumes "i \<in> fst ` set allowed"
  shows "reads (readENUMERATED allowed) (enc_ENUMERATED i) i"
proof -
  obtain nm where "map_of allowed i = Some nm" using assms by (metis map_of_eq_None_iff not_Some_eq)
  then show ?thesis unfolding readENUMERATED_def enc_int_def
    by (intro reads_primitive_then [OF parsePrimitive_bytes(3)])
       (auto simp: go_bind_def lift_def ret_def)
qed

lemma octet_readers [codec_rules]:
  "low_tag cls tag \<Longrightarrow> reads (readTaggedOCTETSTRING cls tag) (enc_str cls tag s) s"
  "reads readOCTETSTRING (enc_OCTETSTRING s) s"
  unfolding readTaggedOCTETSTRING_def readOCTETSTRING_def enc_str_def
  by (intro reads_primitive_then [OF parsePrimitive_bytes(4)];
      simp add: go_map_def go_bind_def lift_def ret_def)+

lemma string_readers [codec_rules]:
  "low_tag cls tag \<Longrightarrow> reads (readTaggedLDAPString cls tag) (enc_str cls tag s) s"
  "low_tag cls tag \<Longrightarrow> reads (readTaggedLDAPDN cls tag) (enc_str cls tag s) s"
  "low_tag cls tag \<Longrightarrow> reads (readTaggedLDAPOID cls tag) (enc_str cls tag s) s"
  "low_tag cls tag \<Longrightarrow> reads (readTaggedAssertionValue cls tag) (enc_str cls tag s) s"
  "low_tag cls tag \<Longrightarrow> reads (readTaggedAttributeDescription cls tag) (enc_str cls tag s) s"
  "low_tag cls tag \<Longrightarrow> reads (readTaggedMatchingRuleID cls tag) (enc_str cls tag s) s"
  "reads readLDAPString (enc_OCTETSTRING s) s"
  "reads readLDAPDN (enc_OCTETSTRING s) s"
  "reads readRelativeLDAPDN (enc_OCTETSTRING s) s"
  "reads readLDAPOID (enc_OCTETSTRING s) s"
  "reads readURI (enc_OCTETSTRING s) s"
  "reads readAssertionValue (enc_OCTETSTRING s) s"
  "reads readAttributeValue (enc_OCTETSTRING s) s"
  "reads readAttributeDescription (enc_OCTETSTRING s) s"
  unfolding string_reader_defs by (intro reads_wrap octet_readers; simp)+

lemma reads_optional_str:
  "low_tag cls tag \<Longrightarrow> (\<And>s. reads r (enc_str cls tag s) s) \<Longrightarrow>
   reads_if (other_tag tag) (read_optional tag r) (enc_opt (enc_str cls tag) x) x"
  unfolding enc_str_def [abs_def] by (rule reads_optional)

lemma other_tag_opt_str:
  "tag' \<noteq> tag \<Longrightarrow> low_tag cls tag' \<Longrightarrow> other_tag tag post \<Longrightarrow>
   length (enc_opt (enc_str cls tag') x) < 2 ^ 31 \<Longrightarrow>
   other_tag tag (enc_opt (enc_str cls tag') x @ post)"
  unfolding enc_str_def [abs_def] by (rule other_tag_opt)

lemma other_tag_str:
  "tag' \<noteq> tag \<Longrightarrow> low_tag cls tag' \<Longrightarrow> length (enc_str cls tag' s) < 2 ^ 31 \<Longrightarrow>
   other_tag tag (enc_str cls tag' s @ post)"
  unfolding enc_str_def by (rule other_tag_tlv)

lemma any_not_Diverge [simp]:
  "any_bool v \<noteq> Diverge" "any_int32 v \<noteq> Diverge" "any_octets v \<noteq> Diverge"
  by (cases v; simp)+

lemma terminates_leaf_readers [terminates_rules]:
  "terminates readBOOLEAN" "terminates (readTaggedBOOLEAN cls tag)"
  "terminates readINTEGER" "terminates (readTaggedINTEGER cls tag)"
  "terminates readOCTETSTRING" "terminates (readTaggedOCTETSTRING cls tag)"
  "terminates (readENUMERATED allowed)"
  unfolding readBOOLEAN_def readTaggedBOOLEAN_def readINTEGER_def readTaggedINTEGER_def
    readOCTETSTRING_def readTaggedOCTETSTRING_def readENUMERATED_def
  by (intro terminates_rules any_not_Diverge; simp split: option.split add: terminates_ret terminates_throw)+

lemma advances_leaf_readers [advances_rules]:
  "advances readBOOLEAN" "advances (readTaggedBOOLEAN cls tag)"
  "advances readINTEGER" "advances (readTaggedINTEGER cls tag)"
  "advances readOCTETSTRING" "advances (readTaggedOCTETSTRING cls tag)"
  "advances (readENUMERATED allowed)"
  unfolding readBOOLEAN_def readTaggedBOOLEAN_def readINTEGER_def readTaggedINTEGER_def
    readOCTETSTRING_def readTaggedOCTETSTRING_def readENUMERATED_def go_map_def
  by (intro advances_bind_steady advances_wrap advances_ReadPrimitive steady_bind steady_lift;
      simp split: option.split add: steady_ret steady_throw)+

lemma terminates_positive_readers [terminates_rules]:
  "terminates (readTaggedPositiveINTEGER cls tag)" "terminates readPositiveINTEGER"
  "terminates (readTaggedMessageID cls tag)" "terminates readMessageID"
  unfolding readPositiveINTEGER_def readMessageID_def readTaggedMessageID_def
    readTaggedPositiveINTEGER_def
  by (intro terminates_rules)+

lemma advances_positive_readers [advances_rules]:
  "advances (readTaggedPositiveINTEGER cls tag)" "advances readPositiveINTEGER"
  "advances (readTaggedMessageID cls tag)" "advances readMessageID"
  unfolding readPositiveINTEGER_def readMessageID_def readTaggedMessageID_def
    readTaggedPositiveINTEGER_def
  by (intro advances_wrap advances_bind_steady advances_leaf_readers steady_if steady_ret steady_throw)+

lemma terminates_string_readers [terminates_rules]:
  "terminates (readTaggedLDAPString cls tag)" "terminates (readTaggedLDAPDN cls tag)"
  "terminates (readTaggedLDAPOID cls tag)" "terminates (readTaggedAssertionValue cls tag)"
  "terminates (readTaggedAttributeDescription cls tag)" "terminates (readTaggedMatchingRuleID cls tag)"
  "terminates readLDAPString" "terminates readLDAPDN" "terminates readRelativeLDAPDN"
  "terminates readLDAPOID" "terminates readURI" "terminates readAssertionValue"
  "terminates readAttributeValue" "terminates readAttributeDescription"
  unfolding string_reader_defs by (intro terminates_wrap terminates_leaf_readers)+

lemma advances_string_readers [advances_rules]:
  "advances (readTaggedLDAPString cls tag)" "advances (readTaggedLDAPDN cls tag)"
  "advances (readTaggedLDAPOID cls tag)" "advances (readTaggedAssertionValue cls tag)"
  "advances (readTaggedAttributeDescription cls tag)" "advances (readTaggedMatchingRuleID cls tag)"
  "advances readLDAPString" "advances readLDAPDN" "advances readRelativeLDAPDN"
  "advances readLDAPOID" "advances readURI" "advances readAssertionValue"
  "advances readAttributeValue" "advances readAttributeDescription"
  unfolding string_reader_defs by (intro advances_wrap advances_leaf_readers)+

section \<open>The leaf types satisfy the contract\<close>

lemmas codec_leaf_rules = bool_writers int_writers string_writers bool_readers int_readers
  positive_int_readers octet_readers string_readers

interpretation BOOLEAN: ber_codec readBOOLEAN BOOLEAN_write BOOLEAN_size enc_BOOLEAN "\<lambda>_. True"
  by unfold_locales (auto simp: size_rules intro: codec_leaf_rules terminates_leaf_readers advances_leaf_readers)

interpretation INTEGER: ber_codec readINTEGER INTEGER_write INTEGER_size enc_INTEGER "\<lambda>_. True"
  by unfold_locales (auto simp: size_rules intro: codec_leaf_rules terminates_leaf_readers advances_leaf_readers)

interpretation MessageID: ber_codec readMessageID MessageID_write MessageID_size enc_INTEGER
  "\<lambda>i. 0 \<le> sint i"
  by unfold_locales (auto simp: size_rules intro: codec_leaf_rules terminates_positive_readers advances_positive_readers)

interpretation ENUMERATED: ber_codec "readENUMERATED allowed" ENUMERATED_write ENUMERATED_size
  enc_ENUMERATED "\<lambda>i. i \<in> fst ` set allowed" for allowed
  by unfold_locales (auto simp: size_rules intro: codec_leaf_rules enum_reader terminates_leaf_readers advances_leaf_readers)

interpretation OCTETSTRING: ber_codec readOCTETSTRING OCTETSTRING_write OCTETSTRING_size
  enc_OCTETSTRING "\<lambda>_. True"
  by unfold_locales (auto simp: size_rules intro: codec_leaf_rules terminates_leaf_readers advances_leaf_readers)

interpretation LDAPString: ber_codec readLDAPString LDAPString_write LDAPString_size
  enc_OCTETSTRING "\<lambda>_. True"
  by unfold_locales (auto simp: size_rules intro: codec_leaf_rules terminates_string_readers advances_string_readers)

interpretation LDAPDN: ber_codec readLDAPDN LDAPDN_write LDAPDN_size enc_OCTETSTRING "\<lambda>_. True"
  by unfold_locales (auto simp: size_rules intro: codec_leaf_rules terminates_string_readers advances_string_readers)

interpretation LDAPOID: ber_codec readLDAPOID LDAPOID_write LDAPOID_size enc_OCTETSTRING "\<lambda>_. True"
  by unfold_locales (auto simp: size_rules intro: codec_leaf_rules terminates_string_readers advances_string_readers)

interpretation URI: ber_codec readURI URI_write URI_size enc_OCTETSTRING "\<lambda>_. True"
  by unfold_locales (auto simp: size_rules intro: codec_leaf_rules terminates_string_readers advances_string_readers)

interpretation AttributeValue: ber_codec readAttributeValue AttributeValue_write AttributeValue_size
  enc_OCTETSTRING "\<lambda>_. True"
  by unfold_locales (auto simp: size_rules intro: codec_leaf_rules terminates_string_readers advances_string_readers)

end
