(* ===== verification/Ldap_Attr.thy ===== *)
theory Ldap_Attr
  imports Ldap_Leaf
begin

text \<open>
  Attributes and attribute lists: \<^verbatim>\<open>partial_attribute.go\<close>, \<^verbatim>\<open>attribute.go\<close>,
  \<^verbatim>\<open>attribute_list.go\<close>, \<^verbatim>\<open>partial_attribute_list.go\<close>, \<^verbatim>\<open>attribute_selection.go\<close> and
  \<^verbatim>\<open>attribute_value_assertion.go\<close>. A method \<^verbatim>\<open>readComponents\<close> that fills its receiver
  returns the filled value here. Each type is shown to satisfy the contract \<open>ber_codec\<close>.
\<close>

section \<open>Attributes\<close>

record PartialAttribute =
  pa_type :: AttributeDescription
  pa_vals :: "AttributeValue list"

type_synonym Attribute = PartialAttribute
type_synonym AttributeList = "Attribute list"
type_synonym PartialAttributeList = "PartialAttribute list"
type_synonym AttributeSelection = "LDAPString list"

definition PartialAttribute_readValsComponents :: "(Bytes, AttributeValue list) go" where
  "PartialAttribute_readValsComponents = read_all (go_wrap ''readValsComponents'' readAttributeValue)"

definition PartialAttribute_readComponents :: "(Bytes, PartialAttribute) go" where
  "PartialAttribute_readComponents =
     go_bind (go_wrap ''readComponents'' readAttributeDescription) (\<lambda>t.
     go_bind (go_wrap ''readComponents''
       (ReadSubBytes classUniversal tagSet PartialAttribute_readValsComponents)) (\<lambda>vs.
     ret \<lparr>pa_type = t, pa_vals = vs\<rparr>))"

definition readPartialAttribute :: "(Bytes, PartialAttribute) go" where
  "readPartialAttribute =
     go_wrap ''readPartialAttribute''
       (ReadSubBytes classUniversal tagSequence PartialAttribute_readComponents)"

definition PartialAttribute_write :: "PartialAttribute \<Rightarrow> (Bytes, nat) go" where
  "PartialAttribute_write p =
     write_tagged classUniversal isCompound tagSequence
       (write_then
         (write_tagged classUniversal isCompound tagSet (write_list AttributeValue_write (pa_vals p)))
         (AttributeDescription_write (pa_type p)))"

definition PartialAttribute_size :: "PartialAttribute \<Rightarrow> nat" where
  "PartialAttribute_size p =
     size_tagged tagSequence
       (size_tagged tagSet (sum_list (map AttributeValue_size (pa_vals p)))
        + AttributeDescription_size (pa_type p))"

definition enc_PartialAttribute :: "PartialAttribute \<Rightarrow> byte list" where
  "enc_PartialAttribute p =
     tlv classUniversal isCompound tagSequence
       (enc_OCTETSTRING (pa_type p) @
        tlv classUniversal isCompound tagSet (concat (map enc_OCTETSTRING (pa_vals p))))"

lemma tags_small [simp]:
  "tagBoolean < 31" "tagInteger < 31" "tagOctetString < 31" "tagEnum < 31" "tagSequence < 31"
  "tagSet < 31"
  by (simp_all add: ber_constants)

interpretation PartialAttribute_vals: ber_components PartialAttribute_readValsComponents
  "write_list AttributeValue_write" "\<lambda>vs. sum_list (map AttributeValue_size vs)"
  "\<lambda>vs. concat (map enc_OCTETSTRING vs)" "list_all (\<lambda>_. True)"
  unfolding PartialAttribute_readValsComponents_def by (rule AttributeValue.list_components)

interpretation PartialAttribute_body: ber_components PartialAttribute_readComponents
  "\<lambda>p. write_then
     (write_tagged classUniversal isCompound tagSet (write_list AttributeValue_write (pa_vals p)))
     (AttributeDescription_write (pa_type p))"
  "\<lambda>p. size_tagged tagSet (sum_list (map AttributeValue_size (pa_vals p)))
     + AttributeDescription_size (pa_type p)"
  "\<lambda>p. enc_OCTETSTRING (pa_type p) @
     tlv classUniversal isCompound tagSet (concat (map enc_OCTETSTRING (pa_vals p)))"
  "\<lambda>_. True"
proof (unfold_locales, goal_cases)
  case 1 show ?case unfolding PartialAttribute_readComponents_def
    by (intro terminates_rules PartialAttribute_vals.terminates_cb)
next
  case (2 x) show ?case by (intro codec_rules)
next
  case (3 x) show ?case
    by (simp add: size_rules AttributeValue.size_all add.commute del: length_concat)
next
  case (4 x) show ?case unfolding PartialAttribute_readComponents_def
    by (cases x) (rule reads_bind reads_bind_last reads_wrap string_readers reads_ReadSubBytes
        PartialAttribute_vals.consumes_components consumes_reads | simp)+
qed

interpretation PartialAttribute: ber_codec readPartialAttribute PartialAttribute_write
  PartialAttribute_size enc_PartialAttribute "\<lambda>_. True"
  unfolding readPartialAttribute_def PartialAttribute_write_def [abs_def]
    PartialAttribute_size_def [abs_def] enc_PartialAttribute_def [abs_def]
  by (rule PartialAttribute_body.tagged_codec) simp_all

subsection \<open>attribute.go\<close>

definition readAttribute :: "(Bytes, Attribute) go" where
  "readAttribute =
     go_bind (go_wrap ''readAttribute'' readPartialAttribute) (\<lambda>par.
       if pa_vals par = [] then throw (LdapError ''readAttribute: expecting at least one value'' [])
       else ret par)"

definition Attribute_size :: "Attribute \<Rightarrow> nat" where
  "Attribute_size a = PartialAttribute_size a"

definition Attribute_write :: "Attribute \<Rightarrow> (Bytes, nat) go" where
  "Attribute_write a = PartialAttribute_write a"

definition wf_Attribute :: "Attribute \<Rightarrow> bool" where
  "wf_Attribute a \<longleftrightarrow> pa_vals a \<noteq> []"

interpretation Attribute: ber_codec readAttribute Attribute_write Attribute_size
  enc_PartialAttribute wf_Attribute
proof unfold_locales
  show "terminates readAttribute"
    unfolding readAttribute_def by (intro terminates_rules PartialAttribute.terminates_rd)
  show "advances readAttribute"
    unfolding readAttribute_def
    by (intro advances_bind_steady advances_wrap PartialAttribute.advances_rd advances_rules)
  fix x
  show "writes (Attribute_write x) (enc_PartialAttribute x)"
    by (simp add: Attribute_write_def PartialAttribute.writes_enc)
  show "Attribute_size x = length (enc_PartialAttribute x)"
    by (simp add: Attribute_size_def PartialAttribute.size_enc)
  show "wf_Attribute x \<Longrightarrow> reads readAttribute (enc_PartialAttribute x) x"
    unfolding readAttribute_def
    by (rule reads_bind_last [OF reads_wrap [OF PartialAttribute.reads_enc]])
       (simp_all add: wf_Attribute_def)
  show "enc_PartialAttribute x \<noteq> []" by (rule PartialAttribute.enc_nonempty)
qed

subsection \<open>Sequences of attributes and of selectors\<close>

definition readAttributeList :: "(Bytes, AttributeList) go" where
  "readAttributeList =
     go_wrap ''readAttributeList''
       (ReadSubBytes classUniversal tagSequence (read_all (go_wrap ''readComponents'' readAttribute)))"

definition AttributeList_size :: "AttributeList \<Rightarrow> nat" where
  "AttributeList_size l = size_tagged tagSequence (sum_list (map Attribute_size l))"

definition AttributeList_write :: "AttributeList \<Rightarrow> (Bytes, nat) go" where
  "AttributeList_write l =
     write_tagged classUniversal isCompound tagSequence (write_list Attribute_write l)"

definition readPartialAttributeList :: "(Bytes, PartialAttributeList) go" where
  "readPartialAttributeList =
     go_wrap ''readPartialAttributeList''
       (ReadSubBytes classUniversal tagSequence (read_all (go_wrap ''readComponents'' readPartialAttribute)))"

definition PartialAttributeList_size :: "PartialAttributeList \<Rightarrow> nat" where
  "PartialAttributeList_size l = size_tagged tagSequence (sum_list (map PartialAttribute_size l))"

definition PartialAttributeList_write :: "PartialAttributeList \<Rightarrow> (Bytes, nat) go" where
  "PartialAttributeList_write l =
     write_tagged classUniversal isCompound tagSequence (write_list PartialAttribute_write l)"

definition PartialAttributeList_add :: "PartialAttributeList \<Rightarrow> PartialAttribute \<Rightarrow> PartialAttributeList" where
  "PartialAttributeList_add l a = l @ [a]"

definition readAttributeSelection :: "(Bytes, AttributeSelection) go" where
  "readAttributeSelection =
     go_wrap ''readAttributeSelection''
       (ReadSubBytes classUniversal tagSequence (read_all (go_wrap ''readComponents'' readLDAPString)))"

definition AttributeSelection_write :: "AttributeSelection \<Rightarrow> (Bytes, nat) go" where
  "AttributeSelection_write l =
     write_tagged classUniversal isCompound tagSequence (write_list LDAPString_write l)"

definition AttributeSelection_size :: "AttributeSelection \<Rightarrow> nat" where
  "AttributeSelection_size l = size_tagged tagSequence (sum_list (map LDAPString_size l))"

text \<open>A sequence of elements that satisfy the contract satisfies it.\<close>

definition enc_seq :: "('a \<Rightarrow> byte list) \<Rightarrow> 'a list \<Rightarrow> byte list" where
  "enc_seq enc xs = tlv classUniversal isCompound tagSequence (concat (map enc xs))"

context ber_codec
begin

lemma seq_codec:
  "ber_codec
     (go_wrap c (ReadSubBytes classUniversal tagSequence (read_all (go_wrap c' rd))))
     (\<lambda>xs. write_tagged classUniversal isCompound tagSequence (write_list wr xs))
     (\<lambda>xs. size_tagged tagSequence (sum_list (map sz xs)))
     (enc_seq enc) (list_all wf)"
  unfolding enc_seq_def [abs_def]
  by (rule ber_components.tagged_codec [OF list_components]) simp_all

end

interpretation AttributeList: ber_codec readAttributeList AttributeList_write AttributeList_size
  "enc_seq enc_PartialAttribute" "list_all wf_Attribute"
  unfolding readAttributeList_def AttributeList_write_def [abs_def] AttributeList_size_def [abs_def]
  by (rule Attribute.seq_codec)

interpretation PartialAttributeList: ber_codec readPartialAttributeList PartialAttributeList_write
  PartialAttributeList_size "enc_seq enc_PartialAttribute" "list_all (\<lambda>_. True)"
  unfolding readPartialAttributeList_def PartialAttributeList_write_def [abs_def]
    PartialAttributeList_size_def [abs_def]
  by (rule PartialAttribute.seq_codec)

interpretation AttributeSelection: ber_codec readAttributeSelection AttributeSelection_write
  AttributeSelection_size "enc_seq enc_OCTETSTRING" "list_all (\<lambda>_. True)"
  unfolding readAttributeSelection_def AttributeSelection_write_def [abs_def]
    AttributeSelection_size_def [abs_def]
  by (rule LDAPString.seq_codec)

section \<open>attribute\_value\_assertion.go\<close>

record AttributeValueAssertion =
  ava_attributeDesc :: AttributeDescription
  ava_assertionValue :: AssertionValue

definition AttributeValueAssertion_readComponents :: "(Bytes, AttributeValueAssertion) go" where
  "AttributeValueAssertion_readComponents =
     go_bind (go_wrap ''readComponents'' readAttributeDescription) (\<lambda>d.
     go_bind (go_wrap ''readComponents'' readAssertionValue) (\<lambda>v.
     ret \<lparr>ava_attributeDesc = d, ava_assertionValue = v\<rparr>))"

definition readAttributeValueAssertion :: "(Bytes, AttributeValueAssertion) go" where
  "readAttributeValueAssertion =
     go_wrap ''readAttributeValueAssertion''
       (ReadSubBytes classUniversal tagSequence AttributeValueAssertion_readComponents)"

definition readTaggedAttributeValueAssertion :: "int \<Rightarrow> int \<Rightarrow> (Bytes, AttributeValueAssertion) go" where
  "readTaggedAttributeValueAssertion cls tag =
     go_wrap ''readTaggedAttributeValueAssertion''
       (ReadSubBytes cls tag AttributeValueAssertion_readComponents)"

definition AttributeValueAssertion_write :: "AttributeValueAssertion \<Rightarrow> (Bytes, nat) go" where
  "AttributeValueAssertion_write a =
     write_tagged classUniversal isCompound tagSequence
       (write_then (AssertionValue_write (ava_assertionValue a))
         (AttributeDescription_write (ava_attributeDesc a)))"

definition AttributeValueAssertion_writeTagged ::
    "AttributeValueAssertion \<Rightarrow> int \<Rightarrow> int \<Rightarrow> (Bytes, nat) go" where
  "AttributeValueAssertion_writeTagged a cls tag =
     write_tagged cls isCompound tag
       (write_then (AssertionValue_write (ava_assertionValue a))
         (AttributeDescription_write (ava_attributeDesc a)))"

definition AttributeValueAssertion_size :: "AttributeValueAssertion \<Rightarrow> nat" where
  "AttributeValueAssertion_size a =
     size_tagged tagSequence
       (AttributeDescription_size (ava_attributeDesc a) + AssertionValue_size (ava_assertionValue a))"

definition AttributeValueAssertion_sizeTagged :: "AttributeValueAssertion \<Rightarrow> int \<Rightarrow> nat" where
  "AttributeValueAssertion_sizeTagged a tag =
     size_tagged tag
       (AttributeDescription_size (ava_attributeDesc a) + AssertionValue_size (ava_assertionValue a))"

definition enc_ava :: "AttributeValueAssertion \<Rightarrow> byte list" where
  "enc_ava a = enc_OCTETSTRING (ava_attributeDesc a) @ enc_OCTETSTRING (ava_assertionValue a)"

interpretation AVA_body: ber_components AttributeValueAssertion_readComponents
  "\<lambda>a. write_then (AssertionValue_write (ava_assertionValue a))
     (AttributeDescription_write (ava_attributeDesc a))"
  "\<lambda>a. AttributeDescription_size (ava_attributeDesc a) + AssertionValue_size (ava_assertionValue a)"
  enc_ava "\<lambda>_. True"
proof (unfold_locales, goal_cases)
  case 1 show ?case unfolding AttributeValueAssertion_readComponents_def by (intro terminates_rules)
next
  case (2 x) show ?case unfolding enc_ava_def by (intro codec_rules)
next
  case (3 x) show ?case by (simp add: enc_ava_def size_rules)
next
  case (4 x) show ?case unfolding AttributeValueAssertion_readComponents_def enc_ava_def
    by (cases x) (rule reads_bind reads_bind_last reads_wrap string_readers consumes_reads | simp)+
qed

interpretation AttributeValueAssertion: ber_codec readAttributeValueAssertion
  AttributeValueAssertion_write AttributeValueAssertion_size
  "\<lambda>a. tlv classUniversal isCompound tagSequence (enc_ava a)" "\<lambda>_. True"
  unfolding readAttributeValueAssertion_def AttributeValueAssertion_write_def [abs_def]
    AttributeValueAssertion_size_def [abs_def]
  by (rule AVA_body.tagged_codec) simp_all

end
