(* ===== verification/Ldap_Result.thy ===== *)
theory Ldap_Result
  imports Ldap_Attr
begin

text \<open>
  The tags and enumerations of \<^verbatim>\<open>struct.go\<close> and the types that carry results, controls and
  credentials: \<^verbatim>\<open>referral.go\<close>, \<^verbatim>\<open>result.go\<close>, \<^verbatim>\<open>control.go\<close>, \<^verbatim>\<open>controls.go\<close>,
  \<^verbatim>\<open>sasl_credentials.go\<close>, \<^verbatim>\<open>authentication_choice.go\<close>. A pointer to an optional component is
  an option.
\<close>

section \<open>Tags and enumerations (struct.go)\<close>

definition TagLDAPMessageControls :: int where "TagLDAPMessageControls = 0"
definition TagLDAPResultReferral :: int where "TagLDAPResultReferral = 3"
definition TagBindRequest :: int where "TagBindRequest = 0"
definition TagAuthenticationChoiceSimple :: int where "TagAuthenticationChoiceSimple = 0"
definition TagAuthenticationChoiceSaslCredentials :: int where "TagAuthenticationChoiceSaslCredentials = 3"
definition TagBindResponse :: int where "TagBindResponse = 1"
definition TagBindResponseServerSaslCreds :: int where "TagBindResponseServerSaslCreds = 7"
definition TagUnbindRequest :: int where "TagUnbindRequest = 2"
definition TagPasswordModifyRequestUserIdentity :: int where "TagPasswordModifyRequestUserIdentity = 0"
definition TagPasswordModifyRequestOldPassword :: int where "TagPasswordModifyRequestOldPassword = 1"
definition TagPasswordModifyRequestNewPassword :: int where "TagPasswordModifyRequestNewPassword = 2"
definition TagSearchRequest :: int where "TagSearchRequest = 3"
definition TagFilterAnd :: int where "TagFilterAnd = 0"
definition TagFilterOr :: int where "TagFilterOr = 1"
definition TagFilterNot :: int where "TagFilterNot = 2"
definition TagFilterEqualityMatch :: int where "TagFilterEqualityMatch = 3"
definition TagFilterSubstrings :: int where "TagFilterSubstrings = 4"
definition TagFilterGreaterOrEqual :: int where "TagFilterGreaterOrEqual = 5"
definition TagFilterLessOrEqual :: int where "TagFilterLessOrEqual = 6"
definition TagFilterPresent :: int where "TagFilterPresent = 7"
definition TagFilterApproxMatch :: int where "TagFilterApproxMatch = 8"
definition TagFilterExtensibleMatch :: int where "TagFilterExtensibleMatch = 9"
definition TagSubstringInitial :: int where "TagSubstringInitial = 0"
definition TagSubstringAny :: int where "TagSubstringAny = 1"
definition TagSubstringFinal :: int where "TagSubstringFinal = 2"
definition TagMatchingRuleAssertionMatchingRule :: int where "TagMatchingRuleAssertionMatchingRule = 1"
definition TagMatchingRuleAssertionType :: int where "TagMatchingRuleAssertionType = 2"
definition TagMatchingRuleAssertionMatchValue :: int where "TagMatchingRuleAssertionMatchValue = 3"
definition TagMatchingRuleAssertionDnAttributes :: int where "TagMatchingRuleAssertionDnAttributes = 4"
definition TagSearchResultEntry :: int where "TagSearchResultEntry = 4"
definition TagSearchResultReference :: int where "TagSearchResultReference = 19"
definition TagSearchResultDone :: int where "TagSearchResultDone = 5"
definition TagModifyRequest :: int where "TagModifyRequest = 6"
definition TagModifyResponse :: int where "TagModifyResponse = 7"
definition TagAddRequest :: int where "TagAddRequest = 8"
definition TagAddResponse :: int where "TagAddResponse = 9"
definition TagDelRequest :: int where "TagDelRequest = 10"
definition TagDelResponse :: int where "TagDelResponse = 11"
definition TagModifyDNRequest :: int where "TagModifyDNRequest = 12"
definition TagModifyDNRequestNewSuperior :: int where "TagModifyDNRequestNewSuperior = 0"
definition TagModifyDNResponse :: int where "TagModifyDNResponse = 13"
definition TagCompareRequest :: int where "TagCompareRequest = 14"
definition TagCompareResponse :: int where "TagCompareResponse = 15"
definition TagAbandonRequest :: int where "TagAbandonRequest = 16"
definition TagExtendedRequest :: int where "TagExtendedRequest = 23"
definition TagExtendedRequestName :: int where "TagExtendedRequestName = 0"
definition TagExtendedRequestValue :: int where "TagExtendedRequestValue = 1"
definition TagExtendedResponse :: int where "TagExtendedResponse = 24"
definition TagExtendedResponseName :: int where "TagExtendedResponseName = 10"
definition TagExtendedResponseValue :: int where "TagExtendedResponseValue = 11"
definition TagIntermediateResponse :: int where "TagIntermediateResponse = 25"
definition TagIntermediateResponseName :: int where "TagIntermediateResponseName = 0"
definition TagIntermediateResponseValue :: int where "TagIntermediateResponseValue = 1"

lemmas ldap_tags =
  TagLDAPMessageControls_def TagLDAPResultReferral_def TagBindRequest_def
  TagAuthenticationChoiceSimple_def TagAuthenticationChoiceSaslCredentials_def TagBindResponse_def
  TagBindResponseServerSaslCreds_def TagUnbindRequest_def TagPasswordModifyRequestUserIdentity_def
  TagPasswordModifyRequestOldPassword_def TagPasswordModifyRequestNewPassword_def
  TagSearchRequest_def TagFilterAnd_def TagFilterOr_def TagFilterNot_def TagFilterEqualityMatch_def
  TagFilterSubstrings_def TagFilterGreaterOrEqual_def TagFilterLessOrEqual_def TagFilterPresent_def
  TagFilterApproxMatch_def TagFilterExtensibleMatch_def TagSubstringInitial_def TagSubstringAny_def
  TagSubstringFinal_def TagMatchingRuleAssertionMatchingRule_def TagMatchingRuleAssertionType_def
  TagMatchingRuleAssertionMatchValue_def TagMatchingRuleAssertionDnAttributes_def
  TagSearchResultEntry_def TagSearchResultReference_def TagSearchResultDone_def TagModifyRequest_def
  TagModifyResponse_def TagAddRequest_def TagAddResponse_def TagDelRequest_def TagDelResponse_def
  TagModifyDNRequest_def TagModifyDNRequestNewSuperior_def TagModifyDNResponse_def
  TagCompareRequest_def TagCompareResponse_def TagAbandonRequest_def TagExtendedRequest_def
  TagExtendedRequestName_def TagExtendedRequestValue_def TagExtendedResponse_def
  TagExtendedResponseName_def TagExtendedResponseValue_def TagIntermediateResponse_def
  TagIntermediateResponseName_def TagIntermediateResponseValue_def

definition ResultCodeSuccess :: ENUMERATED where "ResultCodeSuccess = 0"
definition ResultCodeOperationsError :: ENUMERATED where "ResultCodeOperationsError = 1"
definition ResultCodeProtocolError :: ENUMERATED where "ResultCodeProtocolError = 2"
definition ResultCodeTimeLimitExceeded :: ENUMERATED where "ResultCodeTimeLimitExceeded = 3"
definition ResultCodeSizeLimitExceeded :: ENUMERATED where "ResultCodeSizeLimitExceeded = 4"
definition ResultCodeCompareFalse :: ENUMERATED where "ResultCodeCompareFalse = 5"
definition ResultCodeCompareTrue :: ENUMERATED where "ResultCodeCompareTrue = 6"
definition ResultCodeAuthMethodNotSupported :: ENUMERATED where "ResultCodeAuthMethodNotSupported = 7"
definition ResultCodeStrongerAuthRequired :: ENUMERATED where "ResultCodeStrongerAuthRequired = 8"
definition ResultCodeReferral :: ENUMERATED where "ResultCodeReferral = 10"
definition ResultCodeAdminLimitExceeded :: ENUMERATED where "ResultCodeAdminLimitExceeded = 11"
definition ResultCodeUnavailableCriticalExtension :: ENUMERATED where "ResultCodeUnavailableCriticalExtension = 12"
definition ResultCodeConfidentialityRequired :: ENUMERATED where "ResultCodeConfidentialityRequired = 13"
definition ResultCodeSaslBindInProgress :: ENUMERATED where "ResultCodeSaslBindInProgress = 14"
definition ResultCodeNoSuchAttribute :: ENUMERATED where "ResultCodeNoSuchAttribute = 16"
definition ResultCodeUndefinedAttributeType :: ENUMERATED where "ResultCodeUndefinedAttributeType = 17"
definition ResultCodeInappropriateMatching :: ENUMERATED where "ResultCodeInappropriateMatching = 18"
definition ResultCodeConstraintViolation :: ENUMERATED where "ResultCodeConstraintViolation = 19"
definition ResultCodeAttributeOrValueExists :: ENUMERATED where "ResultCodeAttributeOrValueExists = 20"
definition ResultCodeInvalidAttributeSyntax :: ENUMERATED where "ResultCodeInvalidAttributeSyntax = 21"
definition ResultCodeNoSuchObject :: ENUMERATED where "ResultCodeNoSuchObject = 32"
definition ResultCodeAliasProblem :: ENUMERATED where "ResultCodeAliasProblem = 33"
definition ResultCodeInvalidDNSyntax :: ENUMERATED where "ResultCodeInvalidDNSyntax = 34"
definition ResultCodeAliasDereferencingProblem :: ENUMERATED where "ResultCodeAliasDereferencingProblem = 36"
definition ResultCodeInappropriateAuthentication :: ENUMERATED where "ResultCodeInappropriateAuthentication = 48"
definition ResultCodeInvalidCredentials :: ENUMERATED where "ResultCodeInvalidCredentials = 49"
definition ResultCodeInsufficientAccessRights :: ENUMERATED where "ResultCodeInsufficientAccessRights = 50"
definition ResultCodeBusy :: ENUMERATED where "ResultCodeBusy = 51"
definition ResultCodeUnavailable :: ENUMERATED where "ResultCodeUnavailable = 52"
definition ResultCodeUnwillingToPerform :: ENUMERATED where "ResultCodeUnwillingToPerform = 53"
definition ResultCodeLoopDetect :: ENUMERATED where "ResultCodeLoopDetect = 54"
definition ResultCodeNamingViolation :: ENUMERATED where "ResultCodeNamingViolation = 64"
definition ResultCodeObjectClassViolation :: ENUMERATED where "ResultCodeObjectClassViolation = 65"
definition ResultCodeNotAllowedOnNonLeaf :: ENUMERATED where "ResultCodeNotAllowedOnNonLeaf = 66"
definition ResultCodeNotAllowedOnRDN :: ENUMERATED where "ResultCodeNotAllowedOnRDN = 67"
definition ResultCodeEntryAlreadyExists :: ENUMERATED where "ResultCodeEntryAlreadyExists = 68"
definition ResultCodeObjectClassModsProhibited :: ENUMERATED where "ResultCodeObjectClassModsProhibited = 69"
definition ResultCodeAffectsMultipleDSAs :: ENUMERATED where "ResultCodeAffectsMultipleDSAs = 71"
definition ResultCodeOther :: ENUMERATED where "ResultCodeOther = 80"

lemmas result_codes =
  ResultCodeSuccess_def ResultCodeOperationsError_def ResultCodeProtocolError_def
  ResultCodeTimeLimitExceeded_def ResultCodeSizeLimitExceeded_def ResultCodeCompareFalse_def
  ResultCodeCompareTrue_def ResultCodeAuthMethodNotSupported_def ResultCodeStrongerAuthRequired_def
  ResultCodeReferral_def ResultCodeAdminLimitExceeded_def ResultCodeUnavailableCriticalExtension_def
  ResultCodeConfidentialityRequired_def ResultCodeSaslBindInProgress_def
  ResultCodeNoSuchAttribute_def ResultCodeUndefinedAttributeType_def
  ResultCodeInappropriateMatching_def ResultCodeConstraintViolation_def
  ResultCodeAttributeOrValueExists_def ResultCodeInvalidAttributeSyntax_def
  ResultCodeNoSuchObject_def ResultCodeAliasProblem_def ResultCodeInvalidDNSyntax_def
  ResultCodeAliasDereferencingProblem_def ResultCodeInappropriateAuthentication_def
  ResultCodeInvalidCredentials_def ResultCodeInsufficientAccessRights_def ResultCodeBusy_def
  ResultCodeUnavailable_def ResultCodeUnwillingToPerform_def ResultCodeLoopDetect_def
  ResultCodeNamingViolation_def ResultCodeObjectClassViolation_def ResultCodeNotAllowedOnNonLeaf_def
  ResultCodeNotAllowedOnRDN_def ResultCodeEntryAlreadyExists_def
  ResultCodeObjectClassModsProhibited_def ResultCodeAffectsMultipleDSAs_def ResultCodeOther_def

definition EnumeratedLDAPResultCode :: enum_names where
  "EnumeratedLDAPResultCode = [
     (ResultCodeSuccess, ''success''),
     (ResultCodeOperationsError, ''operationsError''),
     (ResultCodeProtocolError, ''protocolError''),
     (ResultCodeTimeLimitExceeded, ''timeLimitExceeded''),
     (ResultCodeSizeLimitExceeded, ''sizeLimitExceeded''),
     (ResultCodeCompareFalse, ''compareFalse''),
     (ResultCodeCompareTrue, ''compareTrue''),
     (ResultCodeAuthMethodNotSupported, ''authMethodNotSupported''),
     (ResultCodeStrongerAuthRequired, ''strongerAuthRequired''),
     (ResultCodeReferral, ''referral''),
     (ResultCodeAdminLimitExceeded, ''adminLimitExceeded''),
     (ResultCodeUnavailableCriticalExtension, ''unavailableCriticalExtension''),
     (ResultCodeConfidentialityRequired, ''confidentialityRequired''),
     (ResultCodeSaslBindInProgress, ''saslBindInProgress''),
     (ResultCodeNoSuchAttribute, ''noSuchAttribute''),
     (ResultCodeUndefinedAttributeType, ''undefinedAttributeType''),
     (ResultCodeInappropriateMatching, ''inappropriateMatching''),
     (ResultCodeConstraintViolation, ''constraintViolation''),
     (ResultCodeAttributeOrValueExists, ''attributeOrValueExists''),
     (ResultCodeInvalidAttributeSyntax, ''invalidAttributeSyntax''),
     (ResultCodeNoSuchObject, ''noSuchObject''),
     (ResultCodeAliasProblem, ''aliasProblem''),
     (ResultCodeInvalidDNSyntax, ''invalidDNSyntax''),
     (ResultCodeAliasDereferencingProblem, ''aliasDereferencingProblem''),
     (ResultCodeInappropriateAuthentication, ''inappropriateAuthentication''),
     (ResultCodeInvalidCredentials, ''invalidCredentials''),
     (ResultCodeInsufficientAccessRights, ''insufficientAccessRights''),
     (ResultCodeBusy, ''busy''),
     (ResultCodeUnavailable, ''unavailable''),
     (ResultCodeUnwillingToPerform, ''unwillingToPerform''),
     (ResultCodeLoopDetect, ''loopDetect''),
     (ResultCodeNamingViolation, ''namingViolation''),
     (ResultCodeObjectClassViolation, ''objectClassViolation''),
     (ResultCodeNotAllowedOnNonLeaf, ''notAllowedOnNonLeaf''),
     (ResultCodeNotAllowedOnRDN, ''notAllowedOnRDN''),
     (ResultCodeEntryAlreadyExists, ''entryAlreadyExists''),
     (ResultCodeObjectClassModsProhibited, ''objectClassModsProhibited''),
     (ResultCodeAffectsMultipleDSAs, ''affectsMultipleDSAs''),
     (ResultCodeOther, ''other'')]"

definition EnumeratedSearchRequestScope :: enum_names where
  "EnumeratedSearchRequestScope = [(0, ''baseObject''), (1, ''singleLevel''), (2, ''homeSubtree'')]"

definition EnumeratedSearchRequestDerefAliases :: enum_names where
  "EnumeratedSearchRequestDerefAliases = [
     (0, ''neverDerefAliases''), (1, ''derefInSearching''),
     (2, ''derefFindingBaseObj''), (3, ''derefAlways'')]"

definition EnumeratedModifyRequestChangeOperation :: enum_names where
  "EnumeratedModifyRequestChangeOperation = [(0, ''add''), (1, ''delete''), (2, ''replace'')]"

lemma low_ldap_tags [simp]:
  "low_tag classApplication TagBindRequest"
  "low_tag classApplication TagBindResponse"
  "low_tag classApplication TagUnbindRequest"
  "low_tag classApplication TagSearchRequest"
  "low_tag classApplication TagSearchResultEntry"
  "low_tag classApplication TagSearchResultReference"
  "low_tag classApplication TagSearchResultDone"
  "low_tag classApplication TagModifyRequest"
  "low_tag classApplication TagModifyResponse"
  "low_tag classApplication TagAddRequest"
  "low_tag classApplication TagAddResponse"
  "low_tag classApplication TagDelRequest"
  "low_tag classApplication TagDelResponse"
  "low_tag classApplication TagModifyDNRequest"
  "low_tag classApplication TagModifyDNResponse"
  "low_tag classApplication TagCompareRequest"
  "low_tag classApplication TagCompareResponse"
  "low_tag classApplication TagAbandonRequest"
  "low_tag classApplication TagExtendedRequest"
  "low_tag classApplication TagExtendedResponse"
  "low_tag classApplication TagIntermediateResponse"
  "low_tag classContextSpecific TagLDAPMessageControls"
  "low_tag classContextSpecific TagLDAPResultReferral"
  "low_tag classContextSpecific TagAuthenticationChoiceSimple"
  "low_tag classContextSpecific TagAuthenticationChoiceSaslCredentials"
  "low_tag classContextSpecific TagBindResponseServerSaslCreds"
  "low_tag classContextSpecific TagPasswordModifyRequestUserIdentity"
  "low_tag classContextSpecific TagPasswordModifyRequestOldPassword"
  "low_tag classContextSpecific TagPasswordModifyRequestNewPassword"
  "low_tag classContextSpecific TagFilterAnd"
  "low_tag classContextSpecific TagFilterOr"
  "low_tag classContextSpecific TagFilterNot"
  "low_tag classContextSpecific TagFilterEqualityMatch"
  "low_tag classContextSpecific TagFilterSubstrings"
  "low_tag classContextSpecific TagFilterGreaterOrEqual"
  "low_tag classContextSpecific TagFilterLessOrEqual"
  "low_tag classContextSpecific TagFilterPresent"
  "low_tag classContextSpecific TagFilterApproxMatch"
  "low_tag classContextSpecific TagFilterExtensibleMatch"
  "low_tag classContextSpecific TagSubstringInitial"
  "low_tag classContextSpecific TagSubstringAny"
  "low_tag classContextSpecific TagSubstringFinal"
  "low_tag classContextSpecific TagMatchingRuleAssertionMatchingRule"
  "low_tag classContextSpecific TagMatchingRuleAssertionType"
  "low_tag classContextSpecific TagMatchingRuleAssertionMatchValue"
  "low_tag classContextSpecific TagMatchingRuleAssertionDnAttributes"
  "low_tag classContextSpecific TagModifyDNRequestNewSuperior"
  "low_tag classContextSpecific TagExtendedRequestName"
  "low_tag classContextSpecific TagExtendedRequestValue"
  "low_tag classContextSpecific TagExtendedResponseName"
  "low_tag classContextSpecific TagExtendedResponseValue"
  "low_tag classContextSpecific TagIntermediateResponseName"
  "low_tag classContextSpecific TagIntermediateResponseValue"
  by (simp_all add: low_tag_def ber_constants ldap_tags)

lemma ldap_tags_small [simp]:
  "TagLDAPMessageControls < 31"
  "TagLDAPResultReferral < 31"
  "TagBindRequest < 31"
  "TagAuthenticationChoiceSimple < 31"
  "TagAuthenticationChoiceSaslCredentials < 31"
  "TagBindResponse < 31"
  "TagBindResponseServerSaslCreds < 31"
  "TagUnbindRequest < 31"
  "TagPasswordModifyRequestUserIdentity < 31"
  "TagPasswordModifyRequestOldPassword < 31"
  "TagPasswordModifyRequestNewPassword < 31"
  "TagSearchRequest < 31"
  "TagFilterAnd < 31"
  "TagFilterOr < 31"
  "TagFilterNot < 31"
  "TagFilterEqualityMatch < 31"
  "TagFilterSubstrings < 31"
  "TagFilterGreaterOrEqual < 31"
  "TagFilterLessOrEqual < 31"
  "TagFilterPresent < 31"
  "TagFilterApproxMatch < 31"
  "TagFilterExtensibleMatch < 31"
  "TagSubstringInitial < 31"
  "TagSubstringAny < 31"
  "TagSubstringFinal < 31"
  "TagMatchingRuleAssertionMatchingRule < 31"
  "TagMatchingRuleAssertionType < 31"
  "TagMatchingRuleAssertionMatchValue < 31"
  "TagMatchingRuleAssertionDnAttributes < 31"
  "TagSearchResultEntry < 31"
  "TagSearchResultReference < 31"
  "TagSearchResultDone < 31"
  "TagModifyRequest < 31"
  "TagModifyResponse < 31"
  "TagAddRequest < 31"
  "TagAddResponse < 31"
  "TagDelRequest < 31"
  "TagDelResponse < 31"
  "TagModifyDNRequest < 31"
  "TagModifyDNRequestNewSuperior < 31"
  "TagModifyDNResponse < 31"
  "TagCompareRequest < 31"
  "TagCompareResponse < 31"
  "TagAbandonRequest < 31"
  "TagExtendedRequest < 31"
  "TagExtendedRequestName < 31"
  "TagExtendedRequestValue < 31"
  "TagExtendedResponse < 31"
  "TagExtendedResponseName < 31"
  "TagExtendedResponseValue < 31"
  "TagIntermediateResponse < 31"
  "TagIntermediateResponseName < 31"
  "TagIntermediateResponseValue < 31"
  by (simp_all add: ldap_tags)

section \<open>referral.go\<close>

type_synonym Referral = "URI list"

definition Referral_readComponents :: "(Bytes, Referral) go" where
  "Referral_readComponents =
     go_bind (read_all (go_wrap ''readComponents'' readURI)) (\<lambda>r.
       if r = [] then throw (LdapError ''readComponents: expecting at least one URI'' [])
       else ret r)"

definition readTaggedReferral :: "int \<Rightarrow> int \<Rightarrow> (Bytes, Referral) go" where
  "readTaggedReferral cls tag =
     go_wrap ''readTaggedReferral'' (ReadSubBytes cls tag Referral_readComponents)"

definition Referral_writeTagged :: "Referral \<Rightarrow> int \<Rightarrow> int \<Rightarrow> (Bytes, nat) go" where
  "Referral_writeTagged r cls tag = write_tagged cls isCompound tag (write_list URI_write r)"

definition Referral_sizeTagged :: "Referral \<Rightarrow> int \<Rightarrow> nat" where
  "Referral_sizeTagged r tag = size_tagged tag (sum_list (map URI_size r))"

definition enc_uris :: "URI list \<Rightarrow> byte list" where
  "enc_uris r = concat (map enc_OCTETSTRING r)"

text \<open>A list that has to have an element, as in \<^verbatim>\<open>Referral\<close> and \<^verbatim>\<open>SearchResultReference\<close>.\<close>

lemma uris_components:
  "ber_components
     (go_bind (read_all (go_wrap c readURI)) (\<lambda>r. if r = [] then throw e else ret r))
     (write_list URI_write) (\<lambda>r. sum_list (map URI_size r)) enc_uris (\<lambda>r. r \<noteq> [])"
proof (unfold_locales, goal_cases)
  case 1 show ?case by (intro terminates_rules URI.terminates_read_all)
next
  case (2 x) show ?case unfolding enc_uris_def by (rule URI.writes_all)
next
  case (3 x) show ?case unfolding enc_uris_def by (rule URI.size_all)
next
  case (4 x) then show ?case unfolding enc_uris_def
    by (intro reads_bind_last [OF URI.consumes_all]) simp_all
qed

interpretation Referral_body: ber_components Referral_readComponents "write_list URI_write"
  "\<lambda>r. sum_list (map URI_size r)" enc_uris "\<lambda>r. r \<noteq> []"
  unfolding Referral_readComponents_def by (rule uris_components)

section \<open>result.go\<close>

record LDAPResult =
  res_resultCode :: ENUMERATED
  res_matchedDN :: LDAPDN
  res_diagnosticMessage :: LDAPString
  res_referral :: "Referral option"

definition LDAPResult_readComponents :: "(Bytes, LDAPResult) go" where
  "LDAPResult_readComponents =
     go_bind (go_wrap ''readComponents'' (readENUMERATED EnumeratedLDAPResultCode)) (\<lambda>c.
     go_bind (go_wrap ''readComponents'' readLDAPDN) (\<lambda>d.
     go_bind (go_wrap ''readComponents'' readLDAPString) (\<lambda>m.
     go_bind (read_optional TagLDAPResultReferral
       (readTaggedReferral classContextSpecific TagLDAPResultReferral)) (\<lambda>r.
     ret \<lparr>res_resultCode = c, res_matchedDN = d, res_diagnosticMessage = m, res_referral = r\<rparr>))))"

definition readTaggedLDAPResult :: "int \<Rightarrow> int \<Rightarrow> (Bytes, LDAPResult) go" where
  "readTaggedLDAPResult cls tag =
     go_wrap ''readTaggedLDAPResult'' (ReadSubBytes cls tag LDAPResult_readComponents)"

definition LDAPResult_writeComponents :: "LDAPResult \<Rightarrow> (Bytes, nat) go" where
  "LDAPResult_writeComponents l =
     write_then (write_then (write_then
       (write_opt (\<lambda>r. Referral_writeTagged r classContextSpecific TagLDAPResultReferral) (res_referral l))
       (LDAPString_write (res_diagnosticMessage l)))
       (LDAPDN_write (res_matchedDN l)))
       (ENUMERATED_write (res_resultCode l))"

definition LDAPResult_write :: "LDAPResult \<Rightarrow> (Bytes, nat) go" where
  "LDAPResult_write l = write_tagged classUniversal isCompound tagSequence (LDAPResult_writeComponents l)"

definition LDAPResult_writeTagged :: "LDAPResult \<Rightarrow> int \<Rightarrow> int \<Rightarrow> (Bytes, nat) go" where
  "LDAPResult_writeTagged l cls tag = write_tagged cls isCompound tag (LDAPResult_writeComponents l)"

definition LDAPResult_sizeComponents :: "LDAPResult \<Rightarrow> nat" where
  "LDAPResult_sizeComponents l =
     size_opt (\<lambda>r. Referral_sizeTagged r TagLDAPResultReferral) (res_referral l)
     + LDAPString_size (res_diagnosticMessage l)
     + LDAPDN_size (res_matchedDN l)
     + ENUMERATED_size (res_resultCode l)"

definition LDAPResult_size :: "LDAPResult \<Rightarrow> nat" where
  "LDAPResult_size l = size_tagged tagSequence (LDAPResult_sizeComponents l)"

definition LDAPResult_sizeTagged :: "LDAPResult \<Rightarrow> int \<Rightarrow> nat" where
  "LDAPResult_sizeTagged l tag = size_tagged tag (LDAPResult_sizeComponents l)"

definition LDAPResult_SetResultCode :: "ENUMERATED \<Rightarrow> LDAPResult \<Rightarrow> LDAPResult" where
  "LDAPResult_SetResultCode code l = l\<lparr>res_resultCode := code\<rparr>"

definition LDAPResult_SeMatchedDN :: "string \<Rightarrow> LDAPResult \<Rightarrow> LDAPResult" where
  "LDAPResult_SeMatchedDN code l = l\<lparr>res_matchedDN := code\<rparr>"

definition LDAPResult_SetDiagnosticMessage :: "string \<Rightarrow> LDAPResult \<Rightarrow> LDAPResult" where
  "LDAPResult_SetDiagnosticMessage code l = l\<lparr>res_diagnosticMessage := code\<rparr>"

definition LDAPResult_SetReferral :: "Referral option \<Rightarrow> LDAPResult \<Rightarrow> LDAPResult" where
  "LDAPResult_SetReferral r l = l\<lparr>res_referral := r\<rparr>"

text \<open>The results the reader accepts: a known code and, if there is a referral, a URI in it.\<close>

definition wf_LDAPResult :: "LDAPResult \<Rightarrow> bool" where
  "wf_LDAPResult l \<longleftrightarrow> res_resultCode l \<in> fst ` set EnumeratedLDAPResultCode \<and> res_referral l \<noteq> Some []"

definition enc_LDAPResult :: "LDAPResult \<Rightarrow> byte list" where
  "enc_LDAPResult l =
     enc_ENUMERATED (res_resultCode l) @ enc_OCTETSTRING (res_matchedDN l) @
     enc_OCTETSTRING (res_diagnosticMessage l) @
     enc_opt (\<lambda>r. tlv classContextSpecific isCompound TagLDAPResultReferral (enc_uris r)) (res_referral l)"

lemma reads_LDAPResult:
  assumes "wf_LDAPResult x"
  shows "reads_if (other_tag TagLDAPResultReferral) LDAPResult_readComponents (enc_LDAPResult x) x"
proof -
  have r: "reads_if (other_tag TagLDAPResultReferral)
     (read_optional TagLDAPResultReferral
       (readTaggedReferral classContextSpecific TagLDAPResultReferral))
     (enc_opt (\<lambda>r. tlv classContextSpecific isCompound TagLDAPResultReferral (enc_uris r)) (res_referral x))
     (res_referral x)"
    unfolding readTaggedReferral_def using assms
    by (intro reads_optional reads_wrap reads_ReadSubBytes Referral_body.consumes_components)
       (auto simp: wf_LDAPResult_def)
  show ?thesis unfolding LDAPResult_readComponents_def enc_LDAPResult_def
    using assms
    by (cases x) (rule reads_bind reads_bind_last [OF r] reads_wrap string_readers enum_reader
        | simp add: wf_LDAPResult_def)+
qed

interpretation LDAPResult_body: ber_components LDAPResult_readComponents LDAPResult_writeComponents
  LDAPResult_sizeComponents enc_LDAPResult wf_LDAPResult
proof (unfold_locales, goal_cases)
  case 1 show ?case unfolding LDAPResult_readComponents_def readTaggedReferral_def
    by (intro terminates_rules Referral_body.terminates_cb)
next
  case (2 x) show ?case
    unfolding LDAPResult_writeComponents_def enc_LDAPResult_def Referral_writeTagged_def
    using Referral_body.writes_components by (simp add: codec_rules)
next
  case (3 x) show ?case
    by (cases "res_referral x")
       (simp_all add: LDAPResult_sizeComponents_def enc_LDAPResult_def size_rules
         Referral_sizeTagged_def Referral_body.size_components)
next
  case (4 x) then show ?case by (rule consumes_optional [OF reads_LDAPResult])
qed

section \<open>control.go and controls.go\<close>

record Control =
  ctl_controlType :: LDAPOID
  ctl_criticality :: BOOLEAN
  ctl_controlValue :: "OCTETSTRING option"

type_synonym Controls = "Control list"

definition ErrCriticalityNotSpecified :: goerr where
  "ErrCriticalityNotSpecified =
     PlainError ''readComponents: criticality default value FALSE should not be specified''"

definition Control_readComponents :: "(Bytes, Control) go" where
  "Control_readComponents =
     go_bind (go_wrap ''readComponents'' readLDAPOID) (\<lambda>t.
     go_bind (read_optional tagBoolean readBOOLEAN) (\<lambda>b.
     go_bind (case b of
         None \<Rightarrow> ret False
       | Some c \<Rightarrow> if \<not> c then throw ErrCriticalityNotSpecified else ret c) (\<lambda>c.
     go_bind (read_trailing readOCTETSTRING) (\<lambda>v.
     ret \<lparr>ctl_controlType = t, ctl_criticality = c, ctl_controlValue = v\<rparr>))))"

definition readControl :: "(Bytes, Control) go" where
  "readControl = go_wrap ''readControl'' (ReadSubBytes classUniversal tagSequence Control_readComponents)"

definition Control_write :: "Control \<Rightarrow> (Bytes, nat) go" where
  "Control_write c =
     write_tagged classUniversal isCompound tagSequence
       (write_then (write_then
         (write_opt OCTETSTRING_write (ctl_controlValue c))
         (if ctl_criticality c \<noteq> False then BOOLEAN_write (ctl_criticality c) else ret 0))
         (LDAPOID_write (ctl_controlType c)))"

definition Control_size :: "Control \<Rightarrow> nat" where
  "Control_size c =
     size_tagged tagSequence
       (size_opt OCTETSTRING_size (ctl_controlValue c)
        + (if ctl_criticality c \<noteq> False then BOOLEAN_size (ctl_criticality c) else 0)
        + LDAPOID_size (ctl_controlType c))"

definition Controls_readComponents :: "(Bytes, Controls) go" where
  "Controls_readComponents = read_all (go_wrap ''readComponents'' readControl)"

definition readTaggedControls :: "int \<Rightarrow> int \<Rightarrow> (Bytes, Controls) go" where
  "readTaggedControls cls tag =
     go_wrap ''readTaggedControls'' (ReadSubBytes cls tag Controls_readComponents)"

definition Controls_writeTagged :: "Controls \<Rightarrow> int \<Rightarrow> int \<Rightarrow> (Bytes, nat) go" where
  "Controls_writeTagged cs cls tag = write_tagged cls isCompound tag (write_list Control_write cs)"

definition Controls_sizeTagged :: "Controls \<Rightarrow> int \<Rightarrow> nat" where
  "Controls_sizeTagged cs tag = size_tagged tag (sum_list (map Control_size cs))"

definition enc_Control :: "Control \<Rightarrow> byte list" where
  "enc_Control c =
     enc_OCTETSTRING (ctl_controlType c) @
     enc_opt enc_BOOLEAN (if ctl_criticality c then Some True else None) @
     enc_opt enc_OCTETSTRING (ctl_controlValue c)"

lemma reads_criticality:
  "reads_if (other_tag tagBoolean) (read_optional tagBoolean readBOOLEAN)
     (enc_opt enc_BOOLEAN b) b"
  using reads_optional [of b readBOOLEAN classUniversal isNotCompound tagBoolean
      "\<lambda>b. [if b then 0xff else 0x00]"] bool_readers(2)
  by (simp add: enc_bool_def [abs_def])

interpretation Control_body: ber_components Control_readComponents
  "\<lambda>c. write_then (write_then
     (write_opt OCTETSTRING_write (ctl_controlValue c))
     (if ctl_criticality c \<noteq> False then BOOLEAN_write (ctl_criticality c) else ret 0))
     (LDAPOID_write (ctl_controlType c))"
  "\<lambda>c. size_opt OCTETSTRING_size (ctl_controlValue c)
     + (if ctl_criticality c \<noteq> False then BOOLEAN_size (ctl_criticality c) else 0)
     + LDAPOID_size (ctl_controlType c)"
  enc_Control "\<lambda>_. True"
proof (unfold_locales, goal_cases)
  case 1 show ?case unfolding Control_readComponents_def
    by (intro terminates_rules) (simp add: terminates_ret terminates_throw split: option.split)
next
  case (2 x)
  have "writes (if ctl_criticality x \<noteq> False then BOOLEAN_write (ctl_criticality x) else ret 0)
      (enc_opt enc_BOOLEAN (if ctl_criticality x then Some True else None))"
    by (simp add: codec_rules)
  moreover have "writes (write_opt OCTETSTRING_write (ctl_controlValue x))
      (enc_opt enc_OCTETSTRING (ctl_controlValue x))"
    by (intro codec_rules)
  ultimately show ?case
    unfolding enc_Control_def by (intro writes_then string_writers)
next
  case (3 x) show ?case
    by (cases "ctl_controlValue x") (auto simp: enc_Control_def size_rules)
next
  case (4 x)
  have v: "consumes (read_trailing readOCTETSTRING) (enc_opt enc_OCTETSTRING (ctl_controlValue x))
      (ctl_controlValue x)"
    by (rule consumes_trailing) (simp add: octet_readers)
  have o: "other_tag tagBoolean (enc_opt enc_OCTETSTRING (ctl_controlValue x) @ post)"
    if "length (enc_opt enc_OCTETSTRING (ctl_controlValue x)) < 2 ^ 31" "post = []" for post
    using that by (intro other_tag_opt_str) (simp_all, simp add: ber_constants)
  have c: "(case (if ctl_criticality x then Some True else None) of
         None \<Rightarrow> ret False
       | Some c \<Rightarrow> if \<not> c then throw ErrCriticalityNotSpecified else ret c) = ret (ctl_criticality x)"
    by simp
  have body: "consumes (go_bind (ret (ctl_criticality x)) (\<lambda>c.
      go_bind (read_trailing readOCTETSTRING) (\<lambda>v.
      ret \<lparr>ctl_controlType = ctl_controlType x, ctl_criticality = c, ctl_controlValue = v\<rparr>)))
      (enc_opt enc_OCTETSTRING (ctl_controlValue x)) x"
    using v by (cases x) (auto simp: reads_if_def)
  show ?case unfolding Control_readComponents_def enc_Control_def
    by (rule reads_bind [OF reads_wrap [OF string_readers(10)]],
        rule reads_bind_optional [OF reads_criticality _ o], unfold c, rule body)
qed

interpretation Control: ber_codec readControl Control_write Control_size
  "\<lambda>c. tlv classUniversal isCompound tagSequence (enc_Control c)" "\<lambda>_. True"
  unfolding readControl_def Control_write_def [abs_def] Control_size_def [abs_def]
  by (rule Control_body.tagged_codec) simp_all

definition enc_Controls :: "Controls \<Rightarrow> byte list" where
  "enc_Controls cs =
     concat (map (\<lambda>c. tlv classUniversal isCompound tagSequence (enc_Control c)) cs)"

interpretation Controls_body: ber_components Controls_readComponents "write_list Control_write"
  "\<lambda>cs. sum_list (map Control_size cs)" enc_Controls "list_all (\<lambda>_. True)"
  unfolding Controls_readComponents_def enc_Controls_def [abs_def] by (rule Control.list_components)

section \<open>sasl\_credentials.go and authentication\_choice.go\<close>

record SaslCredentials =
  sasl_mechanism :: LDAPString
  sasl_credentials :: "OCTETSTRING option"

text \<open>The two types that are an \<^verbatim>\<open>AuthenticationChoice\<close>.\<close>

datatype AuthenticationChoice = AuthSimple OCTETSTRING | AuthSasl SaslCredentials

definition SaslCredentials_readComponents :: "(Bytes, SaslCredentials) go" where
  "SaslCredentials_readComponents =
     go_bind (go_wrap ''readComponents'' readLDAPString) (\<lambda>m.
     go_bind (read_trailing readOCTETSTRING) (\<lambda>c.
     ret \<lparr>sasl_mechanism = m, sasl_credentials = c\<rparr>))"

definition readSaslCredentials :: "(Bytes, SaslCredentials) go" where
  "readSaslCredentials =
     go_wrap ''readSaslCredentials''
       (ReadSubBytes classContextSpecific TagAuthenticationChoiceSaslCredentials SaslCredentials_readComponents)"

definition SaslCredentials_writeTagged :: "SaslCredentials \<Rightarrow> int \<Rightarrow> int \<Rightarrow> (Bytes, nat) go" where
  "SaslCredentials_writeTagged s cls tag =
     write_tagged cls isCompound tag
       (write_then (write_opt OCTETSTRING_write (sasl_credentials s))
         (LDAPString_write (sasl_mechanism s)))"

definition SaslCredentials_sizeTagged :: "SaslCredentials \<Rightarrow> int \<Rightarrow> nat" where
  "SaslCredentials_sizeTagged s tag =
     size_tagged tag (size_opt OCTETSTRING_size (sasl_credentials s) + LDAPString_size (sasl_mechanism s))"

definition readAuthenticationChoice :: "(Bytes, AuthenticationChoice) go" where
  "readAuthenticationChoice =
     go_bind (go_wrap ''readAuthenticationChoice'' PreviewTagAndLength) (\<lambda>t.
     go_bind (go_wrap ''readAuthenticationChoice'' (lift (ExpectClass t classContextSpecific))) (\<lambda>_.
       if Tag t = TagAuthenticationChoiceSimple
       then go_map AuthSimple (go_wrap ''readAuthenticationChoice''
              (readTaggedOCTETSTRING classContextSpecific TagAuthenticationChoiceSimple))
       else if Tag t = TagAuthenticationChoiceSaslCredentials
       then go_map AuthSasl (go_wrap ''readAuthenticationChoice'' readSaslCredentials)
       else throw (LdapError ''readAuthenticationChoice: invalid tag value'' [Tag t])))"

definition enc_sasl :: "SaslCredentials \<Rightarrow> byte list" where
  "enc_sasl s = enc_OCTETSTRING (sasl_mechanism s) @ enc_opt enc_OCTETSTRING (sasl_credentials s)"

fun enc_auth :: "AuthenticationChoice \<Rightarrow> byte list" where
  "enc_auth (AuthSimple s) = enc_str classContextSpecific TagAuthenticationChoiceSimple s"
| "enc_auth (AuthSasl s) =
     tlv classContextSpecific isCompound TagAuthenticationChoiceSaslCredentials (enc_sasl s)"

interpretation Sasl_body: ber_components SaslCredentials_readComponents
  "\<lambda>s. write_then (write_opt OCTETSTRING_write (sasl_credentials s))
     (LDAPString_write (sasl_mechanism s))"
  "\<lambda>s. size_opt OCTETSTRING_size (sasl_credentials s) + LDAPString_size (sasl_mechanism s)"
  enc_sasl "\<lambda>_. True"
proof (unfold_locales, goal_cases)
  case 1 show ?case unfolding SaslCredentials_readComponents_def by (intro terminates_rules)
next
  case (2 x) show ?case unfolding enc_sasl_def by (intro codec_rules)
next
  case (3 x) show ?case by (cases "sasl_credentials x") (simp_all add: enc_sasl_def size_rules)
next
  case (4 x)
  have v: "consumes (read_trailing readOCTETSTRING) (enc_opt enc_OCTETSTRING (sasl_credentials x))
      (sasl_credentials x)"
    by (rule consumes_trailing) (simp add: octet_readers)
  show ?case unfolding SaslCredentials_readComponents_def enc_sasl_def
    by (cases x) (rule reads_bind reads_bind_last [OF v] reads_wrap string_readers | simp)+
qed

lemma auth_tags_distinct: "TagAuthenticationChoiceSaslCredentials \<noteq> TagAuthenticationChoiceSimple"
  by (simp add: ldap_tags)

lemma reads_auth: "reads readAuthenticationChoice (enc_auth a) a"
proof (cases a)
  case (AuthSimple s)
  have "reads readAuthenticationChoice
      (tlv classContextSpecific isNotCompound TagAuthenticationChoiceSimple (bytes_of s)) (AuthSimple s)"
    unfolding readAuthenticationChoice_def
    using octet_readers(1) [of classContextSpecific TagAuthenticationChoiceSimple s]
    by (intro reads_preview) (auto simp: ExpectClass_def go_bind_def enc_str_def reads_if_def)
  then show ?thesis by (simp add: AuthSimple enc_str_def)
next
  case (AuthSasl s)
  have "reads readSaslCredentials (enc_auth a) s"
    unfolding readSaslCredentials_def AuthSasl
    by (simp add: reads_wrap reads_ReadSubBytes Sasl_body.consumes_components)
  then have "reads readAuthenticationChoice
      (tlv classContextSpecific isCompound TagAuthenticationChoiceSaslCredentials (enc_sasl s)) (AuthSasl s)"
    unfolding readAuthenticationChoice_def
    using auth_tags_distinct
    by (intro reads_preview) (auto simp: AuthSasl ExpectClass_def go_bind_def reads_if_def)
  then show ?thesis by (simp add: AuthSasl)
qed

lemma ExpectClass_not_Diverge [simp]: "ExpectClass t cls \<noteq> Diverge"
  by (simp add: ExpectClass_def)

lemma terminates_auth [terminates_rules]: "terminates readAuthenticationChoice"
  unfolding readAuthenticationChoice_def readSaslCredentials_def
  by (intro terminates_rules Sasl_body.terminates_cb) simp

end
