(* ===== verification/Go_Hoare.thy ===== *)
theory Go_Hoare
  imports Go_Prelude
begin

text \<open>
  Specifications of monadic code by a precondition, a postcondition of the normal result and a
  condition for every other end (error, panic), with the rules that take them through the
  constructs of \<open>Go_Prelude\<close>. \<open>go_join c\<close> is \<^verbatim>\<open>fmt.Errorf("(%w) %w", c, err)\<close>.
\<close>

definition go_join :: "goerr \<Rightarrow> ('s, 'a) go \<Rightarrow> ('s, 'a) go" where
  "go_join c m = (\<lambda>s. case m s of
      (Err e, s') \<Rightarrow> (Err (Joined c e), s')
    | r \<Rightarrow> r)"

definition go_spec :: "('s \<Rightarrow> bool) \<Rightarrow> ('s, 'a) go \<Rightarrow> ('a \<Rightarrow> 's \<Rightarrow> bool) \<Rightarrow> ('s \<Rightarrow> bool) \<Rightarrow> bool" where
  "go_spec P m Q E \<longleftrightarrow>
     (\<forall>s. P s \<longrightarrow> (case fst (m s) of Ok a \<Rightarrow> Q a (snd (m s)) | _ \<Rightarrow> E (snd (m s))))"

named_theorems spec_rules

lemma go_join_Ok [simp]: "m s = (Ok a, s') \<Longrightarrow> go_join c m s = (Ok a, s')"
  by (simp add: go_join_def)

lemma go_join_Err [simp]: "m s = (Err e, s') \<Longrightarrow> go_join c m s = (Err (Joined c e), s')"
  by (simp add: go_join_def)

lemma go_join_eq_Ok [simp]: "go_join c m s = (Ok a, s') \<longleftrightarrow> m s = (Ok a, s')"
  by (auto simp: go_join_def split: prod.splits outcome.splits)

lemma go_specI:
  "(\<And>s. P s \<Longrightarrow> case fst (m s) of Ok a \<Rightarrow> Q a (snd (m s)) | _ \<Rightarrow> E (snd (m s))) \<Longrightarrow> go_spec P m Q E"
  by (simp add: go_spec_def)

lemma go_specE:
  "go_spec P m Q E \<Longrightarrow> P s \<Longrightarrow> case fst (m s) of Ok a \<Rightarrow> Q a (snd (m s)) | _ \<Rightarrow> E (snd (m s))"
  by (simp add: go_spec_def)

lemma go_specD:
  "go_spec P m Q E \<Longrightarrow> P s \<Longrightarrow> m s = (Ok a, s') \<Longrightarrow> Q a s'"
  unfolding go_spec_def by (drule spec [of _ s]) simp

lemma go_spec_final: "go_spec P m (\<lambda>_. E) E \<Longrightarrow> P s \<Longrightarrow> E (snd (m s))"
  unfolding go_spec_def by (drule spec [of _ s]) (simp split: outcome.splits)

lemma spec_conseq:
  assumes "go_spec P' m Q' E'" "\<And>s. P s \<Longrightarrow> P' s" "\<And>a s. Q' a s \<Longrightarrow> Q a s" "\<And>s. E' s \<Longrightarrow> E s"
  shows "go_spec P m Q E"
proof (rule go_specI)
  fix s assume "P s"
  from go_specE [OF assms(1) assms(2) [OF this]]
  show "case fst (m s) of Ok a \<Rightarrow> Q a (snd (m s)) | _ \<Rightarrow> E (snd (m s))"
    by (cases "fst (m s)") (simp_all add: assms)
qed

lemma spec_pre: "go_spec P' m Q E \<Longrightarrow> (\<And>s. P s \<Longrightarrow> P' s) \<Longrightarrow> go_spec P m Q E"
  by (rule spec_conseq)

lemma spec_ret [spec_rules]: "(\<And>s. P s \<Longrightarrow> Q x s) \<Longrightarrow> go_spec P (ret x) Q E"
  by (simp add: go_spec_def)

lemma spec_throw [spec_rules]: "(\<And>s. P s \<Longrightarrow> E s) \<Longrightarrow> go_spec P (throw e) Q E"
  by (simp add: go_spec_def)

lemma spec_panic [spec_rules]: "(\<And>s. P s \<Longrightarrow> E s) \<Longrightarrow> go_spec P (panic e) Q E"
  by (simp add: go_spec_def)

lemma spec_lift:
  "(\<And>a s. r = Ok a \<Longrightarrow> P s \<Longrightarrow> Q a s) \<Longrightarrow> (\<And>s. P s \<Longrightarrow> E s) \<Longrightarrow> go_spec P (lift r) Q E"
  by (auto simp: go_spec_def split: outcome.splits)

lemma go_bind_split:
  "go_bind m f s = (case fst (m s) of Ok a \<Rightarrow> f a (snd (m s)) | Err e \<Rightarrow> (Err e, snd (m s))
     | Panic p \<Rightarrow> (Panic p, snd (m s)) | Diverge \<Rightarrow> (Diverge, snd (m s)))"
  by (cases "m s") (simp add: go_bind_def split: outcome.splits)

lemma go_wrap_split: "go_wrap c m s = (outcome_wrap c (fst (m s)), snd (m s))"
  by (cases "m s") (simp add: go_wrap_def outcome_wrap_def split: outcome.splits)

lemma go_join_split:
  "go_join c m s = (case fst (m s) of Err e \<Rightarrow> Err (Joined c e) | r \<Rightarrow> r, snd (m s))"
  by (cases "m s") (simp add: go_join_def split: outcome.splits)

lemma spec_bind:
  assumes "go_spec P m R E" "\<And>a. go_spec (R a) (f a) Q E"
  shows "go_spec P (go_bind m f) Q E"
proof (rule go_specI)
  fix s assume "P s"
  from go_specE [OF assms(1) this] go_specE [OF assms(2)]
  show "case fst (go_bind m f s) of Ok a \<Rightarrow> Q a (snd (go_bind m f s)) | _ \<Rightarrow> E (snd (go_bind m f s))"
    by (cases "fst (m s)") (simp_all only: go_bind_split outcome.case fst_conv snd_conv)
qed

lemma spec_wrap [spec_rules]:
  assumes "go_spec P m Q E"
  shows "go_spec P (go_wrap c m) Q E"
proof (rule go_specI)
  fix s assume "P s"
  from go_specE [OF assms this]
  show "case fst (go_wrap c m s) of Ok a \<Rightarrow> Q a (snd (go_wrap c m s)) | _ \<Rightarrow> E (snd (go_wrap c m s))"
    by (cases "fst (m s)") (simp_all add: go_wrap_split)
qed

lemma spec_join [spec_rules]:
  assumes "go_spec P m Q E"
  shows "go_spec P (go_join c m) Q E"
proof (rule go_specI)
  fix s assume "P s"
  from go_specE [OF assms this]
  show "case fst (go_join c m s) of Ok a \<Rightarrow> Q a (snd (go_join c m s)) | _ \<Rightarrow> E (snd (go_join c m s))"
    by (cases "fst (m s)") (simp_all add: go_join_split)
qed

lemma spec_if [spec_rules]:
  "(b \<Longrightarrow> go_spec P m Q E) \<Longrightarrow> (\<not> b \<Longrightarrow> go_spec P m' Q E) \<Longrightarrow> go_spec P (if b then m else m') Q E"
  by simp

text \<open>The rest of a sequence may use that its input is the result of a run of the first part.\<close>

lemma spec_bind_result:
  assumes "go_spec P m R E" "\<And>a s0 s1. m s0 = (Ok a, s1) \<Longrightarrow> go_spec (R a) (f a) Q E"
  shows "go_spec P (go_bind m f) Q E"
proof (rule go_specI)
  fix s assume P: "P s"
  obtain r s' where m: "m s = (r, s')" by (cases "m s")
  note first = go_specE [OF assms(1) P]
  show "case fst (go_bind m f s) of Ok a \<Rightarrow> Q a (snd (go_bind m f s)) | _ \<Rightarrow> E (snd (go_bind m f s))"
  proof (cases r)
    case (Ok a)
    then have "R a s'" using first m by simp
    from go_specE [OF assms(2) this] m Ok show ?thesis
      by (simp only: go_bind_split fst_conv snd_conv outcome.case)
  qed (use m first in \<open>simp_all add: go_bind_split\<close>)
qed

lemma spec_bind_pair:
  assumes "go_spec P m R E" "\<And>a b s0 s1. m s0 = (Ok (a, b), s1) \<Longrightarrow> go_spec (R (a, b)) (f a b) Q E"
  shows "go_spec P (go_bind m (\<lambda>(a, b). f a b)) Q E"
  by (rule spec_bind_result [OF assms(1)]) (auto split: prod.splits intro: assms(2))

text \<open>Code that, where it is run, only computes a value.\<close>

lemma spec_bind_reads:
  assumes "\<And>s. P s \<Longrightarrow> m s = (r, s)" "\<And>a. r = Ok a \<Longrightarrow> go_spec P (f a) Q E" "\<And>s. P s \<Longrightarrow> E s"
  shows "go_spec P (go_bind m f) Q E"
proof (rule go_specI)
  fix s assume P: "P s"
  note m = assms(1) [OF P]
  show "case fst (go_bind m f s) of Ok a \<Rightarrow> Q a (snd (go_bind m f s)) | _ \<Rightarrow> E (snd (go_bind m f s))"
  proof (cases r)
    case (Ok a)
    then show ?thesis using go_specE [OF assms(2) [OF Ok] P] m by (simp only: go_bind_split fst_conv snd_conv outcome.case)
  qed (use m assms(3) [OF P] in \<open>simp_all add: go_bind_split\<close>)
qed

definition outcome_join :: "goerr \<Rightarrow> 'a outcome \<Rightarrow> 'a outcome" where
  "outcome_join c r = (case r of Err e \<Rightarrow> Err (Joined c e) | _ \<Rightarrow> r)"

lemma outcome_join_simps [simp]:
  "outcome_join c (Ok a) = Ok a" "outcome_join c (Err e) = Err (Joined c e)"
  "outcome_join c (Panic p) = Panic p" "outcome_join c Diverge = Diverge"
  by (simp_all add: outcome_join_def)

lemma outcome_join_Ok [simp]: "outcome_join c r = Ok a \<longleftrightarrow> r = Ok a"
  by (cases r) simp_all

lemma outcome_wrap_Ok [simp]: "outcome_wrap c r = Ok a \<longleftrightarrow> r = Ok a"
  by (cases r) simp_all

lemma go_join_reads: "m s = (r, s) \<Longrightarrow> go_join c m s = (outcome_join c r, s)"
  by (cases r) (simp_all add: go_join_def)

lemma go_wrap_reads: "m s = (r, s) \<Longrightarrow> go_wrap c m s = (outcome_wrap c r, s)"
  by (cases r) (simp_all add: go_wrap_def)

lemma go_join_lift: "go_join c (lift r) = lift (outcome_join c r)"
  by (rule ext) (simp add: go_join_reads)

lemma go_wrap_lift: "go_wrap c (lift r) = lift (outcome_wrap c r)"
  by (rule ext) (simp add: go_wrap_reads)

lemma spec_bind_lift:
  "(\<And>a. r = Ok a \<Longrightarrow> go_spec P (f a) Q E) \<Longrightarrow> (\<And>s. P s \<Longrightarrow> E s) \<Longrightarrow> go_spec P (go_bind (lift r) f) Q E"
  by (rule spec_bind_reads [where r = r]) simp_all

text \<open>A loop that runs an action on each element of a list.\<close>

fun go_each :: "('x \<Rightarrow> ('s, unit) go) \<Rightarrow> 'x list \<Rightarrow> ('s, unit) go" where
  "go_each f [] = ret ()"
| "go_each f (x # xs) = go_bind (f x) (\<lambda>_. go_each f xs)"

lemma spec_each:
  "(\<And>x. x \<in> set xs \<Longrightarrow> go_spec I (f x) (\<lambda>_. I) E) \<Longrightarrow> go_spec I (go_each f xs) (\<lambda>_. I) E"
  by (induction xs) (auto intro!: spec_rules intro: spec_bind)

text \<open>A loop that threads an accumulator through a list.\<close>

fun go_fold :: "('x \<Rightarrow> 'acc \<Rightarrow> ('s, 'acc) go) \<Rightarrow> 'x list \<Rightarrow> 'acc \<Rightarrow> ('s, 'acc) go" where
  "go_fold f [] acc = ret acc"
| "go_fold f (x # xs) acc = go_bind (f x acc) (go_fold f xs)"

lemma spec_fold:
  "(\<And>x acc. x \<in> set xs \<Longrightarrow> go_spec (I acc) (f x acc) I E) \<Longrightarrow> go_spec (I acc) (go_fold f xs acc) I E"
proof (induction xs arbitrary: acc)
  case (Cons x xs)
  have "go_spec (I a) (go_fold f xs a) I E" for a by (rule Cons.IH) (simp add: Cons.prems)
  moreover have "go_spec (I acc) (f x acc) I E" by (rule Cons.prems) simp
  ultimately show ?case by (auto intro: spec_bind)
qed (auto intro: spec_ret)

section \<open>Code that ends well\<close>

text \<open>
  \<open>go_ends True P m\<close>: from a state with \<open>P\<close> the code ends in a value or an error, it does not panic
  and does not run for ever. \<open>go_ends False P m\<close>: it ends in a value. Sequences use what a
  specification says of their first part.
\<close>

definition ends :: "bool \<Rightarrow> 'a outcome \<Rightarrow> bool" where
  "ends b r = (case r of Ok _ \<Rightarrow> True | Err _ \<Rightarrow> b | _ \<Rightarrow> False)"

definition go_ends :: "bool \<Rightarrow> ('s \<Rightarrow> bool) \<Rightarrow> ('s, 'a) go \<Rightarrow> bool" where
  "go_ends b P m \<longleftrightarrow> (\<forall>s. P s \<longrightarrow> ends b (fst (m s)))"

named_theorems ends_rules

lemma ends_simps [simp]:
  "ends b (Ok a)" "ends b (Err e) = b" "\<not> ends b (Panic p)" "\<not> ends b Diverge"
  by (simp_all add: ends_def)

lemma ends_False: "ends False r \<longleftrightarrow> (\<exists>a. r = Ok a)"
  by (cases r) simp_all

lemma ends_True: "ends True r \<longleftrightarrow> (\<exists>a. r = Ok a) \<or> (\<exists>e. r = Err e)"
  by (cases r) simp_all

lemma ends_join [simp]: "ends b (outcome_join c r) = ends b r"
  by (cases r) simp_all

lemma ends_outcome_wrap [simp]: "ends b (outcome_wrap c r) = ends b r"
  by (cases r) simp_all

lemma ends_outcome_bind:
  "ends b r \<Longrightarrow> (\<And>a. r = Ok a \<Longrightarrow> ends b (f a)) \<Longrightarrow> ends b (outcome_bind r f)"
  by (cases r) simp_all

lemma go_endsI: "(\<And>s. P s \<Longrightarrow> ends b (fst (m s))) \<Longrightarrow> go_ends b P m"
  by (simp add: go_ends_def)

lemma go_endsD: "go_ends b P m \<Longrightarrow> P s \<Longrightarrow> ends b (fst (m s))"
  by (simp add: go_ends_def)

lemma ends_pre: "go_ends b P' m \<Longrightarrow> (\<And>s. P s \<Longrightarrow> P' s) \<Longrightarrow> go_ends b P m"
  by (simp add: go_ends_def)

lemma ends_ret [ends_rules]: "go_ends b P (ret x)"
  by (simp add: go_ends_def)

lemma ends_throw [ends_rules]: "go_ends True P (throw e)"
  by (simp add: go_ends_def)

lemma ends_lift: "ends b r \<Longrightarrow> go_ends b P (lift r)"
  by (simp add: go_ends_def)

lemma ends_wrap [ends_rules]: "go_ends b P m \<Longrightarrow> go_ends b P (go_wrap c m)"
  by (simp add: go_ends_def go_wrap_split)

lemma ends_go_join [ends_rules]: "go_ends b P m \<Longrightarrow> go_ends b P (go_join c m)"
  by (auto simp: go_ends_def go_join_split split: outcome.splits)

lemma ends_if [ends_rules]:
  "(c \<Longrightarrow> go_ends b P m) \<Longrightarrow> (\<not> c \<Longrightarrow> go_ends b P m') \<Longrightarrow> go_ends b P (if c then m else m')"
  by simp

lemma ends_bind:
  assumes "go_ends b P m" "go_spec P m R E" "\<And>a. go_ends b (R a) (f a)"
  shows "go_ends b P (go_bind m f)"
proof (rule go_endsI)
  fix s assume P: "P s"
  from go_endsD [OF assms(1) P] go_specE [OF assms(2) P] go_endsD [OF assms(3)]
  show "ends b (fst (go_bind m f s))" by (cases "fst (m s)") (simp_all add: go_bind_split)
qed

lemma ends_bind_reads:
  assumes "\<And>s. P s \<Longrightarrow> m s = (r, s)" "ends b r" "\<And>a. r = Ok a \<Longrightarrow> go_ends b P (f a)"
  shows "go_ends b P (go_bind m f)"
proof (rule go_endsI)
  fix s assume P: "P s"
  from assms(1) [OF P] assms(2) go_endsD [OF assms(3) P]
  show "ends b (fst (go_bind m f s))" by (cases r) (simp_all add: go_bind_split)
qed

lemma ends_bind_lift:
  "ends b r \<Longrightarrow> (\<And>a. r = Ok a \<Longrightarrow> go_ends b P (f a)) \<Longrightarrow> go_ends b P (go_bind (lift r) f)"
  by (rule ends_bind_reads [where r = r]) simp_all

lemma ends_each:
  assumes "\<And>x. x \<in> set xs \<Longrightarrow> go_ends b I (f x)" "\<And>x. x \<in> set xs \<Longrightarrow> go_spec I (f x) (\<lambda>_. I) E"
  shows "go_ends b I (go_each f xs)"
  using assms
proof (induction xs)
  case (Cons x xs)
  then show ?case by (auto intro: ends_bind [where R = "\<lambda>_. I"])
qed (simp add: ends_ret)

lemma ends_fold:
  assumes "\<And>x acc. x \<in> set xs \<Longrightarrow> go_ends b I (f x acc)" "\<And>x acc. x \<in> set xs \<Longrightarrow> go_spec I (f x acc) (\<lambda>_. I) E"
  shows "go_ends b I (go_fold f xs acc)"
  using assms
proof (induction xs arbitrary: acc)
  case (Cons x xs)
  then show ?case by (auto intro!: ends_bind [where R = "\<lambda>_. I" and E = E])
qed (simp add: ends_ret)

end
