(* ===== verification/Http_Handler.thy ===== *)
theory Http_Handler
  imports Go_Hoare
begin

text \<open>
  The adapter of \<^verbatim>\<open>lib/httphandler\<close>, which turns a handler that returns an error into an HTTP
  handler: the error decides on the handler that writes the response.

  A response is the status and the body that were written, the connection a function that says how
  many bytes of a body it takes. Errors are those of \<open>Go_Prelude\<close>, together with the two error types
  of the package; \<^verbatim>\<open>errors.As\<close> and \<^verbatim>\<open>errors.Is\<close> search the tree of wrapped errors in preorder.
\<close>

section \<open>Errors\<close>

definition ErrNotFound :: goerr where "ErrNotFound = PlainError ''not found''"
definition ErrInternal :: goerr where "ErrInternal = PlainError ''internal error''"
definition ErrBadRequest :: goerr where "ErrBadRequest = PlainError ''bad request''"
definition ErrLengthMisatch :: goerr where "ErrLengthMisatch = PlainError ''length mismatch''"

record InternalError =
  ie_internal :: goerr
  ie_external :: "goerr option"

record RedirectError =
  re_url :: string
  re_status :: int

datatype httperr =
    Other goerr
  | Internal InternalError
  | Redirect RedirectError
  | Context string httperr
  | Both httperr httperr

definition NewInternalError :: "goerr \<Rightarrow> goerr option \<Rightarrow> InternalError" where
  "NewInternalError internal external = \<lparr>ie_internal = internal, ie_external = external\<rparr>"

definition InternalError_External :: "InternalError \<Rightarrow> goerr" where
  "InternalError_External ie = (case ie_external ie of None \<Rightarrow> ErrInternal | Some e \<Rightarrow> e)"

definition NewRedirectError :: "string \<Rightarrow> int \<Rightarrow> RedirectError" where
  "NewRedirectError url status = \<lparr>re_url = url, re_status = status\<rparr>"

definition or_else :: "'a option \<Rightarrow> 'a option \<Rightarrow> 'a option" where
  "or_else a b = (case a of None \<Rightarrow> b | Some _ \<Rightarrow> a)"

fun as_InternalError :: "httperr \<Rightarrow> InternalError option" where
  "as_InternalError (Internal ie) = Some ie"
| "as_InternalError (Context c e) = as_InternalError e"
| "as_InternalError (Both a b) = or_else (as_InternalError a) (as_InternalError b)"
| "as_InternalError _ = None"

fun as_RedirectError :: "httperr \<Rightarrow> RedirectError option" where
  "as_RedirectError (Redirect re) = Some re"
| "as_RedirectError (Context c e) = as_RedirectError e"
| "as_RedirectError (Both a b) = or_else (as_RedirectError a) (as_RedirectError b)"
| "as_RedirectError _ = None"

fun goerr_Is :: "goerr \<Rightarrow> goerr \<Rightarrow> bool" where
  "goerr_Is (Wrapped c e) target \<longleftrightarrow> Wrapped c e = target \<or> goerr_Is e target"
| "goerr_Is (Joined a b) target \<longleftrightarrow> Joined a b = target \<or> goerr_Is a target \<or> goerr_Is b target"
| "goerr_Is (HTTPError c e) target \<longleftrightarrow> HTTPError c e = target \<or> goerr_Is e target"
| "goerr_Is e target \<longleftrightarrow> e = target"

fun errors_Is :: "httperr \<Rightarrow> goerr \<Rightarrow> bool" where
  "errors_Is (Other e) target \<longleftrightarrow> goerr_Is e target"
| "errors_Is (Context c e) target \<longleftrightarrow> errors_Is e target"
| "errors_Is (Both a b) target \<longleftrightarrow> errors_Is a target \<or> errors_Is b target"
| "errors_Is _ target \<longleftrightarrow> False"

section \<open>Responses\<close>

definition StatusOK :: int where "StatusOK = 200"
definition StatusBadRequest :: int where "StatusBadRequest = 400"
definition StatusNotFound :: int where "StatusNotFound = 404"
definition StatusInternalServerError :: int where "StatusInternalServerError = 500"

record Response =
  resp_status :: "int option"
  resp_location :: string
  resp_body :: string

definition empty_response :: Response where
  "empty_response = \<lparr>resp_status = None, resp_location = [], resp_body = []\<rparr>"

text \<open>Only the first status line is sent; the later ones are ignored.\<close>

definition WriteHeader :: "int \<Rightarrow> 'w Response_scheme \<Rightarrow> 'w Response_scheme" where
  "WriteHeader status w = (case resp_status w of None \<Rightarrow> w\<lparr>resp_status := Some status\<rparr> | Some _ \<Rightarrow> w)"

definition ResponseWriter_Write :: "(string \<Rightarrow> nat outcome) \<Rightarrow> string \<Rightarrow> ('w Response_scheme, nat) go" where
  "ResponseWriter_Write conn body w =
     (let w' = WriteHeader StatusOK w in
      case conn body of Ok l \<Rightarrow> (Ok l, w'\<lparr>resp_body := resp_body w' @ take l body\<rparr>) | r \<Rightarrow> (r, w'))"

definition httphandler_Write :: "(string \<Rightarrow> nat outcome) \<Rightarrow> int \<Rightarrow> string \<Rightarrow> ('w Response_scheme, unit) go" where
  "httphandler_Write conn status body = (\<lambda>w.
     go_bind (go_wrap ''error while writing response data'' (ResponseWriter_Write conn body)) (\<lambda>l.
       if l \<noteq> length body then throw (Wrapped ''expected to write another number of bytes'' ErrLengthMisatch) else ret ())
     (WriteHeader status w))"

definition http_Redirect :: "string \<Rightarrow> int \<Rightarrow> 'w Response_scheme \<Rightarrow> 'w Response_scheme" where
  "http_Redirect url status w = (WriteHeader status w)\<lparr>resp_location := url\<rparr>"

text \<open>What is read of a request: its id. \<open>err_text\<close> is \<^verbatim>\<open>err.Error()\<close>.\<close>

record Request =
  rq_id :: string

record ('r, 'w) Handlers =
  InternalHandler :: "'r Request_scheme \<Rightarrow> InternalError \<Rightarrow> string \<Rightarrow> ('w Response_scheme, unit) go"
  RedirectHandler :: "'r Request_scheme \<Rightarrow> RedirectError \<Rightarrow> string \<Rightarrow> ('w Response_scheme, unit) go"
  NotFoundHandler :: "'r Request_scheme \<Rightarrow> httperr \<Rightarrow> string \<Rightarrow> ('w Response_scheme, unit) go"
  BadRequestHandler :: "'r Request_scheme \<Rightarrow> httperr \<Rightarrow> string \<Rightarrow> ('w Response_scheme, unit) go"
  GenericHandler :: "'r Request_scheme \<Rightarrow> httperr \<Rightarrow> string \<Rightarrow> ('w Response_scheme, unit) go"

definition DefaultInternalHandler ::
  "(goerr \<Rightarrow> string) \<Rightarrow> (string \<Rightarrow> nat outcome) \<Rightarrow> 'r Request_scheme \<Rightarrow> InternalError \<Rightarrow> string \<Rightarrow> ('w Response_scheme, unit) go" where
  "DefaultInternalHandler err_text conn r err contact = httphandler_Write conn StatusInternalServerError
     (err_text (InternalError_External err) @ ''. please report this to: '' @ contact @ ''. request id: '' @ rq_id r)"

definition DefaultRedirectHandler :: "'r Request_scheme \<Rightarrow> RedirectError \<Rightarrow> string \<Rightarrow> ('w Response_scheme, unit) go" where
  "DefaultRedirectHandler r err contact = (\<lambda>w. (Ok (), http_Redirect (re_url err) (re_status err) w))"

definition DefaultNotFoundHandler ::
  "(httperr \<Rightarrow> string) \<Rightarrow> (string \<Rightarrow> nat outcome) \<Rightarrow> 'r Request_scheme \<Rightarrow> httperr \<Rightarrow> string \<Rightarrow> ('w Response_scheme, unit) go" where
  "DefaultNotFoundHandler text conn r err contact = httphandler_Write conn StatusNotFound (text err)"

definition DefaultBadRequestHandler ::
  "(httperr \<Rightarrow> string) \<Rightarrow> (string \<Rightarrow> nat outcome) \<Rightarrow> 'r Request_scheme \<Rightarrow> httperr \<Rightarrow> string \<Rightarrow> ('w Response_scheme, unit) go" where
  "DefaultBadRequestHandler text conn r err contact = httphandler_Write conn StatusBadRequest (text err)"

definition DefaultGenericHandler :: "(string \<Rightarrow> nat outcome) \<Rightarrow> 'r Request_scheme \<Rightarrow> httperr \<Rightarrow> string \<Rightarrow> ('w Response_scheme, unit) go" where
  "DefaultGenericHandler conn r err contact = httphandler_Write conn StatusBadRequest
     (''unhandled error. please report this to: '' @ contact @ ''. request id: '' @ rq_id r)"

definition DefaultErrorHandlers ::
  "(goerr \<Rightarrow> string) \<Rightarrow> (httperr \<Rightarrow> string) \<Rightarrow> (string \<Rightarrow> nat outcome) \<Rightarrow> ('r, 'w) Handlers" where
  "DefaultErrorHandlers err_text text conn =
     \<lparr>InternalHandler = DefaultInternalHandler err_text conn, RedirectHandler = DefaultRedirectHandler,
      NotFoundHandler = DefaultNotFoundHandler text conn, BadRequestHandler = DefaultBadRequestHandler text conn,
      GenericHandler = DefaultGenericHandler conn\<rparr>"

text \<open>
  The adapter: the handler \<open>fn\<close> leaves a response and an error or none; what is left is the response
  and the errors that were logged.
\<close>

definition dispatch_error :: "('r, 'w) Handlers \<Rightarrow> string \<Rightarrow> 'r Request_scheme \<Rightarrow> httperr \<Rightarrow> ('w Response_scheme, unit) go" where
  "dispatch_error h contact r err =
     (case as_InternalError err of Some ierr \<Rightarrow> InternalHandler h r ierr contact
      | None \<Rightarrow> (case as_RedirectError err of Some rerr \<Rightarrow> RedirectHandler h r rerr contact
      | None \<Rightarrow> if errors_Is err ErrNotFound then NotFoundHandler h r err contact
         else if errors_Is err ErrBadRequest then BadRequestHandler h r err contact
         else GenericHandler h r err contact))"

definition HTTPHandler_Adapt :: "('r, 'w) Handlers \<Rightarrow> string \<Rightarrow> ('r Request_scheme \<Rightarrow> 'w Response_scheme \<Rightarrow> httperr option \<times> 'w Response_scheme) \<Rightarrow>
    'r Request_scheme \<Rightarrow> 'w Response_scheme \<Rightarrow> unit outcome \<times> 'w Response_scheme" where
  "HTTPHandler_Adapt h contact fn r w = (case fn r w of
      (None, w') \<Rightarrow> (Ok (), w')
    | (Some err, w') \<Rightarrow> dispatch_error h contact r err w')"

section \<open>The status of a response\<close>

lemma WriteHeader_status [simp]: "resp_status (WriteHeader s w) = (case resp_status w of None \<Rightarrow> Some s | Some t \<Rightarrow> Some t)"
  by (simp add: WriteHeader_def split: option.splits)

lemma Write_status: "resp_status (snd (httphandler_Write conn s b w)) = (case resp_status w of None \<Rightarrow> Some s | Some t \<Rightarrow> Some t)"
  by (cases "conn b")
     (auto simp: httphandler_Write_def ResponseWriter_Write_def go_bind_def go_wrap_def Let_def split: option.splits)

text \<open>The status that the default handlers give to an error.\<close>

definition error_status :: "httperr \<Rightarrow> int" where
  "error_status err =
     (case as_InternalError err of Some _ \<Rightarrow> 500
      | None \<Rightarrow> (case as_RedirectError err of Some re \<Rightarrow> re_status re
      | None \<Rightarrow> if errors_Is err ErrNotFound then 404 else 400))"

lemma Adapt_status:
  assumes "fn r w = (Some err, w')" "resp_status w' = None"
  shows "resp_status (snd (HTTPHandler_Adapt (DefaultErrorHandlers err_text text conn) contact fn r w)) = Some (error_status err)"
  using assms
  by (auto simp: HTTPHandler_Adapt_def dispatch_error_def DefaultErrorHandlers_def DefaultInternalHandler_def DefaultRedirectHandler_def
      DefaultNotFoundHandler_def DefaultBadRequestHandler_def DefaultGenericHandler_def http_Redirect_def Write_status error_status_def
      StatusInternalServerError_def StatusNotFound_def StatusBadRequest_def split: option.splits)

lemma errors_Is_wrapped: "goerr_Is e t \<Longrightarrow> goerr_Is (Wrapped c e) t" "goerr_Is a t \<Longrightarrow> goerr_Is (Joined a b) t"
  by simp_all

end
