(* ===== verification/Go_Strings.thy ===== *)
theory Go_Strings
  imports Go_Prelude "HOL-Library.List_Lexorder" "HOL-Library.Char_ord" "HOL-Library.Sublist"
begin

text \<open>
  The functions of the packages \<^verbatim>\<open>strings\<close> and \<^verbatim>\<open>path/filepath\<close> that the components use.

  A Go string is a list of bytes (\<open>char\<close>); the order of \<open>HOL-Library.List_Lexorder\<close> over
  \<open>HOL-Library.Char_ord\<close> is the byte-wise order of \<^verbatim>\<open>strings.Compare\<close>. Case mapping and space
  trimming are those of ASCII; bytes above 127 are left alone.
\<close>

section \<open>Package strings\<close>

text \<open>\<^verbatim>\<open>strings.Split\<close> with a separator of one byte.\<close>

fun strings_Split :: "string \<Rightarrow> char \<Rightarrow> string list" where
  "strings_Split [] sep = [[]]"
| "strings_Split (c # s) sep =
     (if c = sep then [] # strings_Split s sep
      else case strings_Split s sep of [] \<Rightarrow> [[c]] | w # ws \<Rightarrow> (c # w) # ws)"

fun strings_Join :: "string list \<Rightarrow> char \<Rightarrow> string" where
  "strings_Join [] sep = []"
| "strings_Join [w] sep = w"
| "strings_Join (w # ws) sep = w @ sep # strings_Join ws sep"

definition lower_char :: "char \<Rightarrow> char" where
  "lower_char c = (if CHR ''A'' \<le> c \<and> c \<le> CHR ''Z'' then char_of (of_char c + 32 :: nat) else c)"

definition strings_ToLower :: "string \<Rightarrow> string" where
  "strings_ToLower s = map lower_char s"

definition is_space :: "char \<Rightarrow> bool" where
  "is_space c \<longleftrightarrow> c \<in> {CHR '' '', CHR 0x09, CHR 0x0A, CHR 0x0B, CHR 0x0C, CHR 0x0D}"

definition strings_TrimSpace :: "string \<Rightarrow> string" where
  "strings_TrimSpace s = rev (dropWhile is_space (rev (dropWhile is_space s)))"

definition strings_EqualFold :: "string \<Rightarrow> string \<Rightarrow> bool" where
  "strings_EqualFold a b \<longleftrightarrow> strings_ToLower a = strings_ToLower b"

definition strings_Less :: "string \<Rightarrow> string \<Rightarrow> bool" where
  "strings_Less a b \<longleftrightarrow> a < b"

lemma Split_nonempty [simp]: "strings_Split s sep \<noteq> []"
  by (cases s) (auto split: list.splits)

lemma Split_no_sep: "sep \<notin> set w \<Longrightarrow> strings_Split w sep = [w]"
  by (induction w) auto

lemma Split_append_sep:
  "sep \<notin> set w \<Longrightarrow> strings_Split (w @ sep # s) sep = w # strings_Split s sep"
  by (induction w) auto

lemma Split_Join:
  "ws \<noteq> [] \<Longrightarrow> (\<And>w. w \<in> set ws \<Longrightarrow> sep \<notin> set w) \<Longrightarrow> strings_Split (strings_Join ws sep) sep = ws"
  by (induction ws sep rule: strings_Join.induct) (auto simp: Split_no_sep Split_append_sep)

lemma Join_Split: "strings_Join (strings_Split s sep) sep = s"
proof (induction s)
  case (Cons c s)
  obtain w ws where "strings_Split s sep = w # ws" by (cases "strings_Split s sep") auto
  with Cons show ?case by (cases ws) auto
qed simp

lemma lower_char_cases:
  obtains "lower_char c = c" "of_char c < (65 :: nat) \<or> 90 < (of_char c :: nat)"
  | "of_char c \<in> {65..90 :: nat}" "of_char (lower_char c) = (of_char c :: nat) + 32"
proof (cases "of_char c \<in> {65..90 :: nat}")
  case True
  then have "of_char (lower_char c) = (of_char c :: nat) + 32"
    by (simp add: lower_char_def less_eq_char_def)
  with True show ?thesis by (rule that(2))
next
  case False
  then show ?thesis by (intro that(1)) (auto simp: lower_char_def less_eq_char_def)
qed

lemma lower_char_idem [simp]: "lower_char (lower_char c) = lower_char c"
proof (cases c rule: lower_char_cases)
  case 2
  then show ?thesis by (cases "lower_char c" rule: lower_char_cases) auto
qed simp

lemma ToLower_idem [simp]: "strings_ToLower (strings_ToLower s) = strings_ToLower s"
  by (simp add: strings_ToLower_def comp_def)

lemma EqualFold_refl [simp]: "strings_EqualFold a a"
  by (simp add: strings_EqualFold_def)

definition strings_HasPrefix :: "string \<Rightarrow> string \<Rightarrow> bool" where
  "strings_HasPrefix s p \<longleftrightarrow> take (length p) s = p"

definition strings_TrimPrefix :: "string \<Rightarrow> string \<Rightarrow> string" where
  "strings_TrimPrefix s p = (if strings_HasPrefix s p then drop (length p) s else s)"

section \<open>Paths\<close>

text \<open>
  \<^verbatim>\<open>filepath.Clean\<close> goes through the elements of a path with a stack: empty elements and \<^verbatim>\<open>.\<close> are
  dropped, \<^verbatim>\<open>..\<close> removes the element before it, if there is one to remove, and stays in front of
  a path that does not start with a slash. \<^verbatim>\<open>filepath.Join\<close> cleans the joined path.
\<close>

fun clean_step :: "bool \<Rightarrow> string \<Rightarrow> string list \<Rightarrow> string list" where
  "clean_step rooted e out =
     (if e = [] \<or> e = ''.'' then out
      else if e = ''..'' then
        (case out of
           [] \<Rightarrow> (if rooted then [] else [''..''])
         | t # ts \<Rightarrow> (if t = ''..'' then ''..'' # out else ts))
      else e # out)"

definition filepath_Clean :: "string \<Rightarrow> string" where
  "filepath_Clean p =
     (let rooted = (p \<noteq> [] \<and> hd p = CHR ''/'');
          out = strings_Join (rev (fold (clean_step rooted) (strings_Split p (CHR ''/'')) [])) (CHR ''/'')
      in if rooted then CHR ''/'' # out else if out = [] then ''.'' else out)"

definition filepath_Join :: "string list \<Rightarrow> string" where
  "filepath_Join es = (case dropWhile (\<lambda>e. e = []) es of [] \<Rightarrow> [] | fs \<Rightarrow> filepath_Clean (strings_Join fs (CHR ''/'')))"

definition filepath_Dir :: "string \<Rightarrow> string" where
  "filepath_Dir p = filepath_Clean (rev (dropWhile (\<lambda>c. c \<noteq> CHR ''/'') (rev p)))"

text \<open>A path is a plain name when it is one element other than \<^verbatim>\<open>.\<close> and \<^verbatim>\<open>..\<close>.\<close>

definition plain_name :: "string \<Rightarrow> bool" where
  "plain_name e \<longleftrightarrow> e \<noteq> [] \<and> e \<noteq> ''.'' \<and> e \<noteq> ''..'' \<and> CHR ''/'' \<notin> set e"

lemma clean_step_plain [simp]: "plain_name e \<Longrightarrow> clean_step rooted e out = e # out"
  by (simp add: plain_name_def)

lemma clean_plain_elements:
  "list_all plain_name es \<Longrightarrow> fold (clean_step rooted) es out = rev es @ out"
  by (induction es arbitrary: out) (simp_all del: clean_step.simps)

lemma Clean_plain_name [simp]:
  assumes "plain_name e"
  shows "filepath_Clean e = e"
proof -
  have "strings_Split e (CHR ''/'') = [e]" using assms by (simp add: plain_name_def Split_no_sep)
  moreover have "hd e \<noteq> CHR ''/''" using assms by (metis plain_name_def list.set_sel(1))
  ultimately show ?thesis
    using assms by (simp add: filepath_Clean_def del: clean_step.simps) (simp add: plain_name_def)
qed

subsection \<open>Names below a directory\<close>

lemma Split_append: "strings_Split (x @ sep # y) sep = strings_Split x sep @ strings_Split y sep"
proof (induction x)
  case (Cons c x)
  obtain w ws where "strings_Split x sep = w # ws" by (cases "strings_Split x sep") auto
  with Cons show ?case by auto
qed simp

lemma Split_elements: "w \<in> set (strings_Split s sep) \<Longrightarrow> sep \<notin> set w"
proof (induction s arbitrary: w)
  case (Cons c s)
  obtain v vs where "strings_Split s sep = v # vs" by (cases "strings_Split s sep") auto
  with Cons show ?case by (auto split: if_splits)
qed simp

lemma clean_elements:
  "(\<And>e. e \<in> set es \<Longrightarrow> CHR ''/'' \<notin> set e) \<Longrightarrow> (\<And>e. e \<in> set out \<Longrightarrow> CHR ''/'' \<notin> set e) \<Longrightarrow>
   x \<in> set (fold (clean_step rooted) es out) \<Longrightarrow> CHR ''/'' \<notin> set x"
proof (induction es arbitrary: out)
  case (Cons e es)
  have "CHR ''/'' \<notin> set y" if "y \<in> set (clean_step rooted e out)" for y
    using that Cons.prems(1,2) by (auto split: if_splits list.splits)
  then show ?case using Cons by (metis fold_simps(2) list.set_intros(2))
qed simp

text \<open>The stack that cleaning a directory leaves, and the path of names below it.\<close>

definition base_stack :: "string \<Rightarrow> string list" where
  "base_stack p = rev (fold (clean_step (hd p = CHR ''/'')) (strings_Split p (CHR ''/'')) [])"

lemma Join_Nil: "strings_Join ws sep = [] \<longleftrightarrow> ws = [] \<or> ws = [[]]"
  by (cases "(ws, sep)" rule: strings_Join.cases) auto

lemma Join_below:
  assumes "p \<noteq> []" "list_all plain_name es" "es \<noteq> []"
  shows "filepath_Join (p # es) = (if hd p = CHR ''/'' then [CHR ''/''] else []) @ strings_Join (base_stack p @ es) (CHR ''/'')"
proof -
  have "strings_Join (p # es) (CHR ''/'') = p @ CHR ''/'' # strings_Join es (CHR ''/'')" using assms(3) by (cases es) simp_all
  moreover have "strings_Split (strings_Join es (CHR ''/'')) (CHR ''/'') = es"
    using assms(2,3) by (intro Split_Join) (auto simp: list_all_iff plain_name_def)
  ultimately have split: "strings_Split (strings_Join (p # es) (CHR ''/'')) (CHR ''/'') = strings_Split p (CHR ''/'') @ es"
    by (simp add: Split_append)
  have head: "strings_Join (p # es) (CHR ''/'') \<noteq> []" "hd (strings_Join (p # es) (CHR ''/'')) = hd p"
    using assms(1,3) by (cases es; cases p; simp)+
  have "strings_Join (base_stack p @ es) (CHR ''/'') \<noteq> []"
    using assms(2,3) by (auto simp: Join_Nil plain_name_def append_eq_Cons_conv)
  then show ?thesis
    using assms(1,2) head
    by (cases "hd p = CHR ''/''") (simp_all add: filepath_Join_def filepath_Clean_def split Let_def base_stack_def clean_plain_elements del: clean_step.simps)
qed

lemma base_stack_elements: "x \<in> set (base_stack p) \<Longrightarrow> CHR ''/'' \<notin> set x"
  unfolding base_stack_def set_rev by (rule clean_elements) (auto dest: Split_elements)

lemma Join_below_inj:
  assumes "p \<noteq> []" "list_all plain_name es" "es \<noteq> []" "list_all plain_name es'" "es' \<noteq> []"
    and "filepath_Join (p # es) = filepath_Join (p # es')"
  shows "es = es'"
proof -
  have "strings_Join (base_stack p @ es) (CHR ''/'') = strings_Join (base_stack p @ es') (CHR ''/'')"
    using assms(6) by (simp add: Join_below [OF assms(1-3)] Join_below [OF assms(1,4,5)])
  then have "strings_Split (strings_Join (base_stack p @ es) (CHR ''/'')) (CHR ''/'') =
      strings_Split (strings_Join (base_stack p @ es') (CHR ''/'')) (CHR ''/'')" by simp
  moreover have "strings_Split (strings_Join (base_stack p @ fs) (CHR ''/'')) (CHR ''/'') = base_stack p @ fs"
    if "list_all plain_name fs" "fs \<noteq> []" for fs
    using that by (intro Split_Join) (auto simp: list_all_iff plain_name_def dest: base_stack_elements)
  ultimately show ?thesis using assms(2-5) by simp
qed

end
