(* ===== verification/Ldap_Client.thy ===== *)
theory Ldap_Client
  imports Ldap_Pool Ldap_Result Http_Handler Go_Strings
begin

text \<open>
  The client of the directory, \<^verbatim>\<open>lib/ldap\<close>, with the string templates of \<^verbatim>\<open>lib/tmplstring\<close> that its
  search filter is made of, and both ends of the control that carries a trace.

  The LDAP library, the template engine and the propagation of traces are parameters. A connection
  acts on the world \<open>'w\<close>, which is the directory and the network; the state of the factory is the world
  together with its metrics, and the state of a client extends it with the flag \<^verbatim>\<open>errored\<close>. Sentinel
  errors of different packages that share their text are different values, so their package is part
  of them.
\<close>

section \<open>Package tmplstring\<close>

text \<open>The nodes of a parsed template that the code looks at; a pipe is its commands with their arguments.\<close>

datatype template_arg = FieldNode "string list" | OtherArg

type_synonym template_pipe = "template_arg list list"

datatype template_node =
    TextNode string
  | ActionNode template_pipe
  | ListNode "template_node list"
  | IfNode template_pipe template_node "template_node option"
  | RangeNode template_pipe template_node "template_node option"
  | WithNode template_pipe template_node "template_node option"

fun field_of :: "template_arg \<Rightarrow> string list" where
  "field_of (FieldNode (f # fs)) = [f]"
| "field_of _ = []"

fun exprs_walk :: "template_node \<Rightarrow> string list" where
  "exprs_walk (TextNode s) = []"
| "exprs_walk (ActionNode pipe) = concat (map (\<lambda>args. concat (map field_of args)) pipe)"
| "exprs_walk (ListNode ns) = concat (map exprs_walk ns)"
| "exprs_walk (IfNode pipe n els) = exprs_walk n @ (case els of None \<Rightarrow> [] | Some m \<Rightarrow> exprs_walk m)"
| "exprs_walk (RangeNode pipe n els) = exprs_walk n @ (case els of None \<Rightarrow> [] | Some m \<Rightarrow> exprs_walk m)"
| "exprs_walk (WithNode pipe n els) = exprs_walk n @ (case els of None \<Rightarrow> [] | Some m \<Rightarrow> exprs_walk m)"

definition exprsInTemplate :: "template_node \<Rightarrow> string list" where
  "exprsInTemplate n = remdups (exprs_walk n)"

text \<open>A type as reflection shows it: a structure with its fields, which may be exported, or another type.\<close>

datatype gotype = Struct "(string \<times> bool \<times> gotype) list" | OtherType

fun fieldsInStructHelper :: "gotype \<Rightarrow> string list" where
  "fieldsInStructHelper OtherType = []"
| "fieldsInStructHelper (Struct fs) = concat (map (\<lambda>(name, exported, t).
     if exported then name # map (\<lambda>sub. name @ ''.'' @ sub) (fieldsInStructHelper t) else []) fs)"

definition ErrNotStruct :: goerr where "ErrNotStruct = PlainError ''provided type is not a struct. only structs are supported''"
definition ErrMissingField :: goerr where "ErrMissingField = PlainError ''expression references missing field''"

definition isStruct :: "gotype \<Rightarrow> bool" where
  "isStruct t \<longleftrightarrow> (case t of Struct _ \<Rightarrow> True | OtherType \<Rightarrow> False)"

definition fieldsInStruct :: "gotype \<Rightarrow> string list outcome" where
  "fieldsInStruct t = (if \<not> isStruct t then Err ErrNotStruct else Ok (fieldsInStructHelper t))"

fun errors_Join :: "goerr list \<Rightarrow> goerr" where
  "errors_Join [] = PlainError []"
| "errors_Join [e] = e"
| "errors_Join (e # es) = Joined e (errors_Join es)"

definition NewTMPL :: "(string \<Rightarrow> template_node outcome) \<Rightarrow> gotype \<Rightarrow> string \<Rightarrow> template_node outcome" where
  "NewTMPL parse t str =
     outcome_bind (outcome_wrap ''error while parsing string template'' (parse str)) (\<lambda>root.
     outcome_bind (outcome_wrap ''error while gathering fields from parameter struct'' (fieldsInStruct t)) (\<lambda>fields.
       let expressions = filter (\<lambda>e. e \<notin> set fields) (exprsInTemplate root) in
       if length expressions > 0
       then Err (Wrapped ''error while validating string template''
         (errors_Join (map (\<lambda>expr. Wrapped (''invalid expression '' @ expr) ErrMissingField) expressions)))
       else Ok root))"

definition TMPL_Render :: "(template_node \<Rightarrow> 'p \<Rightarrow> string outcome) \<Rightarrow> template_node \<Rightarrow> 'p \<Rightarrow> string outcome" where
  "TMPL_Render execute t params = outcome_wrap ''could not execute templated string'' (execute t params)"

section \<open>The library\<close>

record filterTemplateValues =
  fv_Username :: string

definition filterTemplateValues_type :: gotype where
  "filterTemplateValues_type = Struct [(''Username'', True, OtherType)]"

record ControlTraceContext =
  ct_Traceparent :: string
  ct_Tracestate :: string

record SearchRequest =
  sr_BaseDN :: string
  sr_Scope :: int
  sr_DerefAliases :: int
  sr_SizeLimit :: int
  sr_TimeLimit :: int
  sr_TypesOnly :: bool
  sr_Filter :: string
  sr_Attributes :: "string list"
  sr_Controls :: "ControlTraceContext list"

record SimpleBindRequest =
  br_Username :: string
  br_Password :: string
  br_AllowEmptyPassword :: bool
  br_Controls :: "ControlTraceContext list"

record PasswordModifyRequest =
  pm_UserIdentity :: string
  pm_OldPassword :: string
  pm_NewPassword :: string

record Entry =
  en_DN :: string
  en_Attributes :: "(string \<times> string list) list"

record ('c, 'w) ldap_lib =
  ll_SimpleBind :: "'c \<Rightarrow> SimpleBindRequest \<Rightarrow> ('w, unit) go"
  ll_Bind :: "'c \<Rightarrow> string \<Rightarrow> string \<Rightarrow> ('w, unit) go"
  ll_Search :: "'c \<Rightarrow> SearchRequest \<Rightarrow> ('w, Entry list) go"
  ll_PasswordModify :: "'c \<Rightarrow> PasswordModifyRequest \<Rightarrow> ('w, string) go"
  ll_Close :: "'c \<Rightarrow> ('w, unit) go"
  ll_GetAttributeValue :: "Entry \<Rightarrow> string \<Rightarrow> string"
  ll_GetAttributeValues :: "Entry \<Rightarrow> string \<Rightarrow> string list"
  ll_execute :: "template_node \<Rightarrow> filterTemplateValues \<Rightarrow> string outcome"
  ll_Inject :: "string \<times> string"

definition ScopeBaseObject :: int where "ScopeBaseObject = 0"
definition ScopeWholeSubtree :: int where "ScopeWholeSubtree = 2"
definition NeverDerefAliases :: int where "NeverDerefAliases = 0"

section \<open>Traces\<close>

definition GetControlType :: "ControlTraceContext \<Rightarrow> string" where
  "GetControlType c = ''1.3.6.1.4.1.1337.1''"

text \<open>The packet is a sequence of the type and the value, that is, a control without criticality.\<close>

definition ControlTraceContext_Encode :: "ControlTraceContext \<Rightarrow> Control" where
  "ControlTraceContext_Encode c = \<lparr>ctl_controlType = GetControlType c, ctl_criticality = False,
     ctl_controlValue = Some (ct_Traceparent c @ [CHR 0x00] @ ct_Tracestate c)\<rparr>"

definition TraceControlsFromContext :: "string \<times> string \<Rightarrow> ControlTraceContext list" where
  "TraceControlsFromContext carrier = (let (traceparent, tracestate) = carrier in
     if length traceparent \<ge> 0 \<and> length tracestate \<ge> 0
     then [\<lparr>ct_Traceparent = traceparent, ct_Tracestate = tracestate\<rparr>] else [])"

text \<open>What the server takes from the controls of a message.\<close>

definition bytes_SplitN2 :: "string \<Rightarrow> char \<Rightarrow> string list" where
  "bytes_SplitN2 s sep = (let a = takeWhile (\<lambda>c. c \<noteq> sep) s in
     if length a = length s then [s] else [a, drop (Suc (length a)) s])"

fun serve_trace :: "Control list \<Rightarrow> string \<times> string" where
  "serve_trace [] = ([], [])"
| "serve_trace (control # controls) =
     (if ctl_controlType control = ''1.3.6.1.4.1.1337.1'' \<and> ctl_controlValue control \<noteq> None
      then let parts = bytes_SplitN2 (the (ctl_controlValue control)) (CHR 0x00) in
        (parts ! 0, if length parts = 2 then parts ! 1 else [])
      else serve_trace controls)"

definition serve_traceOf :: "Control list option \<Rightarrow> string \<times> string" where
  "serve_traceOf controls = (case controls of None \<Rightarrow> ([], []) | Some cs \<Rightarrow> serve_trace cs)"

section \<open>State and metrics\<close>

record 'w ldap_state =
  ls_world :: 'w
  ls_clients :: "32 word"
  ls_active :: int
  ls_success :: nat
  ls_error :: nat
  ls_duration :: "(string \<times> bool) list"

record 'w client_state = "'w ldap_state" +
  cs_errored :: bool

definition on_world :: "('w, 'a) go \<Rightarrow> (('w, 'z) ldap_state_scheme, 'a) go" where
  "on_world m s = (let (r, w) = m (ls_world s) in (r, s\<lparr>ls_world := w\<rparr>))"

fun is_Err :: "'a outcome \<Rightarrow> bool" where
  "is_Err (Err _) = True"
| "is_Err _ = False"

definition observed :: "string \<Rightarrow> ('w, 'a) go \<Rightarrow> (('w, 'z) ldap_state_scheme, 'a) go" where
  "observed operation m s = (let (r, s') = on_world m s in (r, s'\<lparr>ls_duration := ls_duration s' @ [(operation, is_Err r)]\<rparr>))"

definition ldap_bind :: "('c, 'w) ldap_lib \<Rightarrow> 'c \<Rightarrow> string \<Rightarrow> string \<Rightarrow> (('w, 'z) ldap_state_scheme, unit) go" where
  "ldap_bind lib conn username password = observed ''bind'' (ll_SimpleBind lib conn
     \<lparr>br_Username = username, br_Password = password, br_AllowEmptyPassword = False,
      br_Controls = TraceControlsFromContext (ll_Inject lib)\<rparr>)"

definition ldap_search :: "('c, 'w) ldap_lib \<Rightarrow> 'c \<Rightarrow> SearchRequest \<Rightarrow> (('w, 'z) ldap_state_scheme, Entry list) go" where
  "ldap_search lib conn searchRequest = observed ''search'' (ll_Search lib conn
     (searchRequest\<lparr>sr_Controls := sr_Controls searchRequest @ TraceControlsFromContext (ll_Inject lib)\<rparr>))"

definition ldap_passwd :: "('c, 'w) ldap_lib \<Rightarrow> 'c \<Rightarrow> PasswordModifyRequest \<Rightarrow> (('w, 'z) ldap_state_scheme, string) go" where
  "ldap_passwd lib conn req = observed ''passwd'' (ll_PasswordModify lib conn req)"

section \<open>Taking a connection from the pool\<close>

text \<open>
  One call of \<^verbatim>\<open>get\<close>, over what its \<^verbatim>\<open>select\<close> yields in turn: a connection, or that its context is done.
  A call whose \<^verbatim>\<open>select\<close> yields nothing more does not return.
\<close>

datatype 'c selected = Received 'c | CtxErr goerr

definition isAlive :: "('c, 'w) ldap_lib \<Rightarrow> string \<Rightarrow> 'c \<Rightarrow> 'w \<Rightarrow> bool \<times> 'w" where
  "isAlive lib base conn w =
     (let (r, w') = ll_Search lib conn \<lparr>sr_BaseDN = base, sr_Scope = ScopeBaseObject, sr_DerefAliases = NeverDerefAliases,
        sr_SizeLimit = 0, sr_TimeLimit = 5, sr_TypesOnly = False, sr_Filter = ''(objectClass=*)'', sr_Attributes = [''1.1''],
        sr_Controls = []\<rparr> w
      in (\<not> is_Err r, w'))"

fun pool_get :: "('c, 'w) ldap_lib \<Rightarrow> string \<Rightarrow> 'c selected list \<Rightarrow> ('w, 'c) go" where
  "pool_get lib base [] w = (Diverge, w)"
| "pool_get lib base (CtxErr e # as) w = (Err e, w)"
| "pool_get lib base (Received conn # as) w =
     (case isAlive lib base conn w of
        (True, w') \<Rightarrow> (Ok conn, w')
      | (False, w') \<Rightarrow> go_bind (go_wrap ''error while closing pooled non-alive connection'' (ll_Close lib conn)) (\<lambda>_. pool_get lib base as) w')"

section \<open>The factory\<close>

record LDAPConfig =
  lc_RootDN :: string
  lc_RootPasswd :: string
  lc_UsersDN :: string
  lc_UsersFilter :: string
  lc_GroupsDN :: string
  lc_AdminGroupDN :: string
  lc_AccessesDN :: string
  lc_MaxConnections :: "32 word"
  lc_Workers :: "32 word"

record Factory =
  ft_base :: string
  ft_rootDN :: string
  ft_rootPasswd :: string
  ft_usersDN :: string
  ft_usersFilter :: template_node
  ft_groupsDN :: string
  ft_adminGroupDN :: string
  ft_accessesDN :: string

definition NewFactory :: "(string \<Rightarrow> template_node outcome) \<Rightarrow> LDAPConfig \<Rightarrow> (Factory \<times> 'c pool) outcome" where
  "NewFactory parse config =
     outcome_bind (outcome_wrap ''error while parsing user filter template''
        (NewTMPL parse filterTemplateValues_type (lc_UsersFilter config))) (\<lambda>usersFilter.
     Ok (\<lparr>ft_base = lc_RootDN config, ft_rootDN = lc_RootDN config, ft_rootPasswd = lc_RootPasswd config,
          ft_usersDN = lc_UsersDN config, ft_usersFilter = usersFilter, ft_groupsDN = lc_GroupsDN config,
          ft_adminGroupDN = lc_AdminGroupDN config, ft_accessesDN = lc_AccessesDN config\<rparr>,
         newPool (lc_MaxConnections config) (unat (lc_Workers config))))"

record 'c Client =
  cl_conn :: 'c
  cl_usersDN :: string
  cl_usersFilter :: template_node
  cl_groupsDN :: string
  cl_adminGroupDN :: string
  cl_accessesDN :: string

text \<open>The deferred function of \<^verbatim>\<open>NewClient\<close>, which counts the client or its failure.\<close>

definition counted :: "'a outcome \<Rightarrow> 'w ldap_state \<Rightarrow> 'w ldap_state" where
  "counted r s = (let s' = s\<lparr>ls_clients := ls_clients s + 1\<rparr> in
     if is_Err r then s'\<lparr>ls_error := ls_error s' + 1\<rparr> else s'\<lparr>ls_active := ls_active s' + 1\<rparr>)"

definition NewClient :: "('c, 'w) ldap_lib \<Rightarrow> Factory \<Rightarrow> 'c selected list \<Rightarrow> ('w ldap_state, 'c Client) go" where
  "NewClient lib f received s =
     (let (r, s') = go_bind (go_wrap ''could not enstablish a connection to the LDAP server'' (on_world (pool_get lib (ft_base f) received))) (\<lambda>conn.
          go_bind (go_wrap ''error while binding as root'' (ldap_bind lib conn (ft_rootDN f) (ft_rootPasswd f))) (\<lambda>_.
          ret \<lparr>cl_conn = conn, cl_usersDN = ft_usersDN f, cl_usersFilter = ft_usersFilter f, cl_groupsDN = ft_groupsDN f,
            cl_adminGroupDN = ft_adminGroupDN f, cl_accessesDN = ft_accessesDN f\<rparr>)) s
      in (r, counted r s'))"

text \<open>A client that is closed is counted with its status; an error of closing the connection is only logged.\<close>

definition Client_Close :: "('c, 'w) ldap_lib \<Rightarrow> 'c Client \<Rightarrow> 'w client_state \<Rightarrow> 'w client_state" where
  "Client_Close lib c s =
     (let s = s\<lparr>ls_active := ls_active s - 1\<rparr>;
          s = (if cs_errored s then s\<lparr>ls_error := ls_error s + 1\<rparr> else s\<lparr>ls_success := ls_success s + 1\<rparr>)
      in snd (on_world (ll_Close lib (cl_conn c)) s))"

text \<open>The use of a client between its construction and the deferred \<^verbatim>\<open>Close\<close>.\<close>

definition open_client :: "'w ldap_state \<Rightarrow> 'w client_state" where
  "open_client s = ldap_state.extend s (client_state.fields False)"

definition with_client :: "('c, 'w) ldap_lib \<Rightarrow> 'c Client \<Rightarrow> ('w client_state, 'a) go \<Rightarrow> ('w ldap_state, 'a) go" where
  "with_client lib c m s = (let (r, s') = m (open_client s) in (r, ldap_state.truncate (Client_Close lib c s')))"

section \<open>Users\<close>

definition ErrUserNotFound :: goerr where "ErrUserNotFound = PlainError ''ldap: user not found''"
definition ErrTooManyMatches :: goerr where "ErrTooManyMatches = PlainError ''ldap: too many matches for user search''"
definition ErrInvalidCredentials :: goerr where "ErrInvalidCredentials = PlainError ''ldap: invalid credentials''"
definition ErrNotMatchingUsername :: goerr where "ErrNotMatchingUsername = PlainError ''ldap: username does not match''"
definition ErrUnexpectedGeneratedPassword :: goerr where
  "ErrUnexpectedGeneratedPassword = PlainError ''ldap: LDAP server unexpectedly returned a generated password''"

record User =
  us_DN :: string
  us_Username :: string
  us_Firstname :: string
  us_Lastname :: string
  us_Mail :: string
  us_Home :: string
  us_Groups :: "string list"
  us_Accesses :: "string list"
  us_UID :: int
  us_GID :: int
  us_Admin :: bool

definition users_request :: "'c Client \<Rightarrow> string \<Rightarrow> SearchRequest" where
  "users_request c flt = \<lparr>sr_BaseDN = cl_usersDN c, sr_Scope = ScopeWholeSubtree, sr_DerefAliases = NeverDerefAliases,
     sr_SizeLimit = 0, sr_TimeLimit = 0, sr_TypesOnly = False, sr_Filter = flt, sr_Attributes = [], sr_Controls = []\<rparr>"

definition list_entries :: "('c, 'w) ldap_lib \<Rightarrow> 'c Client \<Rightarrow> (('w, 'z) ldap_state_scheme, Entry list) go" where
  "list_entries lib c =
     go_bind (lift (outcome_wrap ''error while rendering user filter template''
       (TMPL_Render (ll_execute lib) (cl_usersFilter c) \<lparr>fv_Username = ''*''\<rparr>))) (\<lambda>flt.
     go_wrap ''error while performing search for user'' (ldap_search lib (cl_conn c) (users_request c flt)))"

definition find_entry :: "('c, 'w) ldap_lib \<Rightarrow> 'c Client \<Rightarrow> string \<Rightarrow> (('w, 'z) ldap_state_scheme, Entry) go" where
  "find_entry lib c username =
     go_bind (lift (outcome_wrap ''error while rendering user filter template''
       (TMPL_Render (ll_execute lib) (cl_usersFilter c) \<lparr>fv_Username = username\<rparr>))) (\<lambda>flt.
     go_bind (go_wrap ''error while performing search for user'' (ldap_search lib (cl_conn c) (users_request c flt))) (\<lambda>entries.
       if length entries = 0 then throw ErrUserNotFound
       else if length entries > 1 then throw ErrTooManyMatches
       else let entry = entries ! 0; cn = ll_GetAttributeValue lib entry ''cn'' in
         if username \<noteq> cn then throw (Wrapped (''expected '' @ username @ '' for username, but got '' @ cn) ErrNotMatchingUsername)
         else ret entry))"

definition strings_HasSuffix :: "string \<Rightarrow> string \<Rightarrow> bool" where
  "strings_HasSuffix s sfx \<longleftrightarrow> length sfx \<le> length s \<and> drop (length s - length sfx) s = sfx"

definition filterDN :: "string list \<Rightarrow> string \<Rightarrow> string list" where
  "filterDN dns sfx = filter (\<lambda>dn. strings_HasSuffix dn sfx) dns"

text \<open>\<^verbatim>\<open>strconv.Atoi\<close>: an optional sign and at least one digit, within the range of a 64 bit integer.\<close>

definition is_digit :: "char \<Rightarrow> bool" where
  "is_digit c \<longleftrightarrow> c \<in> set ''0123456789''"

definition digits_value :: "string \<Rightarrow> int" where
  "digits_value ds = foldl (\<lambda>n c. 10 * n + (int (of_char c) - 48)) 0 ds"

definition strconv_Atoi :: "string \<Rightarrow> int outcome" where
  "strconv_Atoi s =
     (let negative = (s \<noteq> [] \<and> hd s = CHR ''-''); ds = (if s \<noteq> [] \<and> hd s \<in> {CHR ''-'', CHR ''+''} then tl s else s);
          n = (if negative then - digits_value ds else digits_value ds)
      in if ds = [] \<or> \<not> list_all is_digit ds then Err (PlainError ''invalid syntax'')
         else if n < - (2 ^ 63) \<or> 2 ^ 63 \<le> n then Err (PlainError ''value out of range'')
         else Ok n)"

definition mapUser :: "('c, 'w) ldap_lib \<Rightarrow> 'c Client \<Rightarrow> Entry \<Rightarrow> User outcome" where
  "mapUser lib c entry =
     (let attr = ll_GetAttributeValue lib entry; memberof = ll_GetAttributeValues lib entry ''memberof'' in
      outcome_bind (outcome_wrap ''error while parsing uid'' (strconv_Atoi (attr ''uidnumber''))) (\<lambda>uid.
      outcome_bind (outcome_wrap ''error while parsing gid'' (strconv_Atoi (attr ''gidnumber''))) (\<lambda>gid.
      Ok \<lparr>us_DN = en_DN entry, us_Username = attr ''cn'', us_Firstname = attr ''givenname'', us_Lastname = attr ''sn'',
          us_Mail = attr ''mail'', us_Home = attr ''homedirectory'', us_Groups = filterDN memberof (cl_groupsDN c),
          us_Accesses = filterDN memberof (cl_accessesDN c), us_UID = uid, us_GID = gid,
          us_Admin = (cl_adminGroupDN c \<in> set memberof)\<rparr>)))"

text \<open>\<open>on_error f m\<close>: the deferred function \<open>f\<close> changes the state when \<open>m\<close> fails.\<close>

definition on_error :: "('s \<Rightarrow> 's) \<Rightarrow> ('s, 'a) go \<Rightarrow> ('s, 'a) go" where
  "on_error f m s = (let (r, s') = m s in (r, if is_Err r then f s' else s'))"

definition mark_errored :: "'w client_state \<Rightarrow> 'w client_state" where
  "mark_errored s = s\<lparr>cs_errored := True\<rparr>"

fun map_users :: "('c, 'w) ldap_lib \<Rightarrow> 'c Client \<Rightarrow> Entry list \<Rightarrow> User list outcome" where
  "map_users lib c [] = Ok []"
| "map_users lib c (entry # entries) =
     outcome_bind (outcome_wrap (''error while mapping user '' @ ll_GetAttributeValue lib entry ''cn'') (mapUser lib c entry)) (\<lambda>user.
     outcome_bind (map_users lib c entries) (\<lambda>users. Ok (user # users)))"

definition Client_Users :: "('c, 'w) ldap_lib \<Rightarrow> 'c Client \<Rightarrow> ('w client_state, User list) go" where
  "Client_Users lib c = on_error mark_errored
     (go_bind (go_wrap ''error while listing all users'' (list_entries lib c)) (\<lambda>entries. lift (map_users lib c entries)))"

definition Client_User :: "('c, 'w) ldap_lib \<Rightarrow> 'c Client \<Rightarrow> string \<Rightarrow> ('w client_state, User) go" where
  "Client_User lib c username = on_error mark_errored
     (go_bind (go_wrap ''error while looking up user'' (find_entry lib c username)) (\<lambda>entry. lift (mapUser lib c entry)))"

text \<open>A failing bind wraps the error of the library and \<open>ErrInvalidCredentials\<close>, and does not mark the client.\<close>

definition bind_user :: "('c, 'w) ldap_lib \<Rightarrow> 'c Client \<Rightarrow> Entry \<Rightarrow> string \<Rightarrow> ('w client_state, unit) go" where
  "bind_user lib c entry password s = (case ldap_bind lib (cl_conn c) (en_DN entry) password s of
      (Err e, s') \<Rightarrow> (Err (Wrapped (''error while binding as '' @ en_DN entry) (Joined e ErrInvalidCredentials)), s')
    | r \<Rightarrow> r)"

definition Client_Authenticate :: "('c, 'w) ldap_lib \<Rightarrow> 'c Client \<Rightarrow> string \<Rightarrow> string \<Rightarrow> ('w client_state, User) go" where
  "Client_Authenticate lib c username password =
     go_bind (go_wrap ''error while looking up user for bind'' (on_error mark_errored (find_entry lib c username))) (\<lambda>entry.
     go_bind (bind_user lib c entry password) (\<lambda>_. lift (mapUser lib c entry)))"

definition Client_Passwd :: "('c, 'w) ldap_lib \<Rightarrow> 'c Client \<Rightarrow> string \<Rightarrow> string \<Rightarrow> ('w client_state, unit) go" where
  "Client_Passwd lib c username password =
     go_bind (go_wrap ''error while looking up user'' (find_entry lib c username)) (\<lambda>entry.
     go_bind (go_wrap ''error while modifying user password'' (ldap_passwd lib (cl_conn c)
         \<lparr>pm_UserIdentity = en_DN entry, pm_OldPassword = [], pm_NewPassword = password\<rparr>)) (\<lambda>generated.
       if generated \<noteq> [] then throw ErrUnexpectedGeneratedPassword else ret ()))"

section \<open>Health checks\<close>

text \<open>
  The deferred function wraps the error of the check, which may be nil, and not that of the closing;
  \<^verbatim>\<open>fmt.Errorf\<close> with a nil error is an error.
\<close>

definition nil_error :: goerr where "nil_error = PlainError ''%!w(<nil>)''"

definition closing :: "('c, 'w) ldap_lib \<Rightarrow> 'c \<Rightarrow> ('w, unit) go \<Rightarrow> ('w, unit) go" where
  "closing lib conn m w = (let (r, w') = m w; (e, w'') = ll_Close lib conn w' in
     (if is_Err e then Err (Wrapped ''error while closing the ping LDAP connection'' (case r of Err x \<Rightarrow> x | _ \<Rightarrow> nil_error)) else r, w''))"

definition canDialServer :: "('c, 'w) ldap_lib \<Rightarrow> Factory \<Rightarrow> 'c selected list \<Rightarrow> ('w, unit) go" where
  "canDialServer lib f received =
     go_bind (go_wrap ''could not enstablish a connection to the LDAP server'' (pool_get lib (ft_base f) received)) (\<lambda>conn.
     closing lib conn (ret ()))"

definition canBindAsRoot :: "('c, 'w) ldap_lib \<Rightarrow> Factory \<Rightarrow> 'c selected list \<Rightarrow> ('w, unit) go" where
  "canBindAsRoot lib f received =
     go_bind (go_wrap ''could not enstablish a connection to the LDAP server'' (pool_get lib (ft_base f) received)) (\<lambda>conn.
     closing lib conn (go_wrap ''error while binding as root'' (ll_Bind lib conn (ft_rootDN f) (ft_rootPasswd f))))"

section \<open>Lemmas\<close>

text \<open>A template that is accepted reads no field that is missing, except in the conditions of its control structures.\<close>

lemma NewTMPL_fields:
  "NewTMPL parse t str = Ok root \<Longrightarrow> parse str = Ok root \<and> isStruct t \<and> set (exprs_walk root) \<subseteq> set (fieldsInStructHelper t)"
  by (auto simp: NewTMPL_def outcome_bind_def outcome_wrap_def fieldsInStruct_def exprsInTemplate_def Let_def filter_empty_conv
      split: outcome.splits if_splits)

lemma condition_unchecked:
  "parse str = Ok (IfNode [[FieldNode [f]]] (ListNode []) None) \<Longrightarrow> NewTMPL parse filterTemplateValues_type str = Ok (IfNode [[FieldNode [f]]] (ListNode []) None)"
  by (simp add: NewTMPL_def filterTemplateValues_type_def fieldsInStruct_def isStruct_def exprsInTemplate_def)

text \<open>The server reads from the control of a client the trace that the client put there.\<close>

lemma trace_roundtrip:
  assumes "CHR 0x00 \<notin> set traceparent"
  shows "serve_traceOf (Some (map ControlTraceContext_Encode (TraceControlsFromContext (traceparent, tracestate)))) = (traceparent, tracestate)"
proof -
  have "takeWhile (\<lambda>c. c \<noteq> CHR 0x00) (traceparent @ CHR 0x00 # tracestate) = traceparent"
    using assms by (subst takeWhile_append2) auto
  then show ?thesis
    by (simp add: serve_traceOf_def TraceControlsFromContext_def ControlTraceContext_Encode_def GetControlType_def bytes_SplitN2_def Let_def)
qed

lemma on_world_state [simp]:
  "ls_world (snd (on_world m s)) = snd (m (ls_world s))" "fst (on_world m s) = fst (m (ls_world s))"
  by (simp_all add: on_world_def split_beta)

lemma observed_state [simp]:
  "ls_world (snd (observed op m s)) = snd (m (ls_world s))" "fst (observed op m s) = fst (m (ls_world s))"
  "ls_clients (snd (observed op m s)) = ls_clients s" "ls_active (snd (observed op m s)) = ls_active s"
  "ls_success (snd (observed op m s)) = ls_success s" "ls_error (snd (observed op m s)) = ls_error s"
  "ldap_state.more (snd (observed op m s)) = ldap_state.more s"
  by (simp_all add: observed_def on_world_def split_beta)

end
