(* ===== verification/Ui_Linearize.thy ===== *)
theory Ui_Linearize
  imports Go_Strings "HOL-Library.Monad_Syntax"
begin

text \<open>
  Dependencies of web pages and their order: \<^verbatim>\<open>lib/ui/dependency/dependency.go\<close> and \<^verbatim>\<open>lib/ui/linearize.go\<close>.

  The set of the units is given as a list, in the order in which a \<^verbatim>\<open>range\<close> over the map runs; the
  second loop runs over another map with the same keys and so has an order of its own. The graph
  maps a dependency to those it requires, an absent key to none.
\<close>

section \<open>Dependencies\<close>

datatype DependencyType = DependencyTypeInvalid | DependencyTypeStyle | DependencyTypeScript

definition ErrInvalidDependency :: goerr where "ErrInvalidDependency = PlainError ''invalid dependency''"
definition ErrInvalidDependencyType :: goerr where "ErrInvalidDependencyType = PlainError ''invalid dependency type''"

definition ParseDependencyType :: "string \<Rightarrow> DependencyType outcome" where
  "ParseDependencyType raw =
     (if raw = ''style'' then Ok DependencyTypeStyle
      else if raw = ''script'' then Ok DependencyTypeScript
      else Err (Wrapped ''could not parse dependency type'' ErrInvalidDependencyType))"

fun DependencyType_String :: "DependencyType \<Rightarrow> string" where
  "DependencyType_String DependencyTypeStyle = ''style''"
| "DependencyType_String DependencyTypeScript = ''script''"
| "DependencyType_String DependencyTypeInvalid = ''invalid''"

record Dependency =
  dep_Type :: DependencyType
  dep_Name :: string

definition ParseDependency :: "string \<Rightarrow> Dependency outcome" where
  "ParseDependency raw = (case strings_Split raw (CHR '':'') of
      [t, name] \<Rightarrow> outcome_bind (ParseDependencyType t) (\<lambda>dt. Ok \<lparr>dep_Type = dt, dep_Name = name\<rparr>)
    | _ \<Rightarrow> Err ErrInvalidDependency)"

definition Dependency_String :: "Dependency \<Rightarrow> string" where
  "Dependency_String d = DependencyType_String (dep_Type d) @ '':'' @ dep_Name d"

type_synonym DependencyGraph = "Dependency \<Rightarrow> Dependency list"

section \<open>Linearisation\<close>

definition ErrCyclicDependency :: goerr where
  "ErrCyclicDependency = PlainError ''cyclic dependency detected: linearization is not possible''"

type_synonym degrees = "Dependency \<Rightarrow> int"
type_synonym dependents = "Dependency \<Rightarrow> Dependency list"

definition count_edge :: "Dependency list \<Rightarrow> Dependency \<Rightarrow> Dependency \<Rightarrow> degrees \<times> dependents \<Rightarrow> degrees \<times> dependents" where
  "count_edge units dep req = (\<lambda>(inDegree, dependents).
     if req \<notin> set units then (inDegree, dependents)
     else (inDegree(dep := inDegree dep + 1), dependents(req := dependents req @ [dep])))"

definition count_unit :: "Dependency list \<Rightarrow> DependencyGraph \<Rightarrow> Dependency \<Rightarrow> degrees \<times> dependents \<Rightarrow> degrees \<times> dependents" where
  "count_unit units graph dep = fold (count_edge units dep) (graph dep)"

definition count_edges :: "Dependency list \<Rightarrow> DependencyGraph \<Rightarrow> degrees \<times> dependents" where
  "count_edges units graph = fold (count_unit units graph) units (\<lambda>_. 0, \<lambda>_. [])"

text \<open>The inner loop: one requirement less for every dependent, and into the queue at zero.\<close>

definition release :: "Dependency \<Rightarrow> degrees \<times> Dependency list \<Rightarrow> degrees \<times> Dependency list" where
  "release d = (\<lambda>(inDegree, queue).
     (let k = inDegree d - 1 in (inDegree(d := k), if k = 0 then queue @ [d] else queue)))"

text \<open>The loop over the queue; that it ends is proved below.\<close>

partial_function (option) drain :: "dependents \<Rightarrow> Dependency list \<Rightarrow> degrees \<Rightarrow> Dependency list \<Rightarrow> Dependency list option" where
  [code]: "drain dependents queue inDegree result = (case queue of
      [] \<Rightarrow> Some result
    | node # rest \<Rightarrow> (case fold release (dependents node) (inDegree, rest) of
        (inDegree', queue') \<Rightarrow> drain dependents queue' inDegree' (result @ [node])))"

definition linearize :: "Dependency list \<Rightarrow> Dependency list \<Rightarrow> DependencyGraph \<Rightarrow> Dependency list outcome option" where
  "linearize units order graph =
     (case count_edges units graph of (inDegree, dependents) \<Rightarrow>
      do {
        result \<leftarrow> drain dependents (filter (\<lambda>d. inDegree d = 0) order) inDegree [];
        Some (if length result \<noteq> length units then Err ErrCyclicDependency else Ok result)
      })"

section \<open>The counts\<close>

text \<open>How often \<open>v\<close> requires the unit \<open>u\<close>.\<close>

definition edges :: "Dependency list \<Rightarrow> DependencyGraph \<Rightarrow> Dependency \<Rightarrow> Dependency \<Rightarrow> nat" where
  "edges units graph u v = (if u \<in> set units \<and> v \<in> set units then count_list (graph v) u else 0)"

lemma count_edge_loop:
  "fold (count_edge units dep) reqs (deg, ds) =
     (deg(dep := deg dep + int (length (filter (\<lambda>r. r \<in> set units) reqs))),
      \<lambda>u. ds u @ replicate (if u \<in> set units then count_list reqs u else 0) dep)"
  by (induction reqs arbitrary: deg ds) (auto simp: count_edge_def fun_eq_iff replicate_append_same [symmetric])

lemma sum_count_list:
  "distinct us \<Longrightarrow> (\<Sum>u \<in> set us. count_list reqs u) = length (filter (\<lambda>r. r \<in> set us) reqs)"
proof (induction reqs)
  case (Cons r reqs)
  have "(\<Sum>u \<in> set us. count_list (r # reqs) u) = (\<Sum>u \<in> set us. (if u = r then 1 else 0) + count_list reqs u)"
    by (rule sum.cong) auto
  with Cons show ?case by (simp add: sum.distrib)
qed simp

lemma count_units_loop:
  assumes "distinct xs" "set xs \<subseteq> set units" "distinct units"
  shows "case fold (count_unit units graph) xs (deg, ds) of (deg', ds') \<Rightarrow>
    (\<forall>v. deg' v = deg v + (if v \<in> set xs then int (\<Sum>u \<in> set units. edges units graph u v) else 0)) \<and>
    (\<forall>u v. count_list (ds' u) v = count_list (ds u) v + (if v \<in> set xs then edges units graph u v else 0))"
  using assms(1,2)
proof (induction xs arbitrary: deg ds)
  case (Cons x xs)
  let ?deg = "deg(x := deg x + int (length (filter (\<lambda>r. r \<in> set units) (graph x))))"
  let ?ds = "\<lambda>u. ds u @ replicate (if u \<in> set units then count_list (graph x) u else 0) x"
  have step: "count_unit units graph x (deg, ds) = (?deg, ?ds)"
    unfolding count_unit_def by (rule count_edge_loop)
  have sum: "(\<Sum>u \<in> set units. edges units graph u x) = length (filter (\<lambda>r. r \<in> set units) (graph x))"
    using Cons.prems sum_count_list [OF assms(3), of "graph x"] by (simp add: edges_def)
  have rep: "count_list (replicate n y) v = (if v = y then n else 0)" for n y v by (induction n) auto
  have "case fold (count_unit units graph) xs (?deg, ?ds) of (deg', ds') \<Rightarrow>
    (\<forall>v. deg' v = ?deg v + (if v \<in> set xs then int (\<Sum>u \<in> set units. edges units graph u v) else 0)) \<and>
    (\<forall>u v. count_list (ds' u) v = count_list (?ds u) v + (if v \<in> set xs then edges units graph u v else 0))"
    by (rule Cons.IH) (use Cons.prems in simp_all)
  moreover have "edges units graph u x = (if u \<in> set units then count_list (graph x) u else 0)" for u
    using Cons.prems by (simp add: edges_def)
  moreover obtain deg' ds' where "fold (count_unit units graph) xs (?deg, ?ds) = (deg', ds')" by fastforce
  ultimately have deg: "\<And>v. deg' v = ?deg v + (if v \<in> set xs then int (\<Sum>u \<in> set units. edges units graph u v) else 0)"
      and ds: "\<And>u v. count_list (ds' u) v = count_list (?ds u) v + (if v \<in> set xs then edges units graph u v else 0)"
      and e: "\<And>u. edges units graph u x = (if u \<in> set units then count_list (graph x) u else 0)"
      and res: "fold (count_unit units graph) (x # xs) (deg, ds) = (deg', ds')" by (simp_all add: step)
  have "deg' v = deg v + (if v \<in> set (x # xs) then int (\<Sum>u \<in> set units. edges units graph u v) else 0)" for v
    unfolding deg using Cons.prems by (cases "v = x") (simp_all only: sum, simp_all)
  moreover have "count_list (ds' u) v = count_list (ds u) v + (if v \<in> set (x # xs) then edges units graph u v else 0)" for u v
    unfolding ds using Cons.prems by (cases "v = x") (simp_all add: rep e)
  ultimately show ?case unfolding res by simp
qed simp

lemma count_edges_spec:
  assumes "distinct units" "count_edges units graph = (deg, ds)"
  shows "v \<in> set units \<Longrightarrow> deg v = int (\<Sum>u \<in> set units. edges units graph u v)"
    and "count_list (ds u) v = edges units graph u v"
  using count_units_loop [OF assms(1) subset_refl assms(1), where graph = graph and deg = "\<lambda>_. 0" and ds = "\<lambda>_. []"] assms(2)
  by (auto simp: count_edges_def edges_def)

section \<open>The loop over the queue\<close>

lemma count_list_pos: "0 < count_list xs x \<longleftrightarrow> x \<in> set xs"
  by (metis count_list_0_iff neq0_conv)

lemma release_loop:
  assumes "\<And>v. int (count_list ds v) \<le> deg v"
  shows "\<exists>new. fold release ds (deg, q) = (\<lambda>v. deg v - int (count_list ds v), q @ new) \<and> distinct new \<and>
    set new = {v \<in> set ds. deg v = int (count_list ds v)}"
  using assms
proof (induction ds arbitrary: deg q)
  case (Cons d ds)
  let ?deg = "deg(d := deg d - 1)" and ?q = "if deg d - 1 = 0 then q @ [d] else q"
  have "int (count_list ds v) \<le> ?deg v" for v using Cons.prems [of v] by (simp split: if_splits)
  from Cons.IH [OF this, of ?q] obtain new where new:
      "fold release ds (?deg, ?q) = (\<lambda>v. ?deg v - int (count_list ds v), ?q @ new)" "distinct new"
      "set new = {v \<in> set ds. ?deg v = int (count_list ds v)}" by blast
  have degs: "(\<lambda>v. ?deg v - int (count_list ds v)) = (\<lambda>v. deg v - int (count_list (d # ds) v))" by (rule ext) simp
  have step: "fold release (d # ds) (deg, q) = (\<lambda>v. deg v - int (count_list (d # ds) v), ?q @ new)"
    using new(1) unfolding degs by (simp add: release_def Let_def)
  show ?case
  proof (cases "deg d = 1")
    case True
    then have zero: "count_list ds d = 0" using Cons.prems [of d] by simp
    then have "d \<notin> set ds" by (simp add: count_list_0_iff)
    then show ?thesis using step new True zero by (intro exI [of _ "d # new"]) (auto simp: count_list_0_iff)
  next
    case False
    have "d \<in> set ds" if "deg d = int (count_list (d # ds) d)"
    proof (rule ccontr)
      assume "d \<notin> set ds"
      then show False using that False by (simp add: count_list_0_iff [symmetric])
    qed
    then have "v \<in> set new \<longleftrightarrow> v \<in> set (d # ds) \<and> deg v = int (count_list (d # ds) v)" for v
      using new(3) by (cases "v = d") auto
    then have "set new = {v \<in> set (d # ds). deg v = int (count_list (d # ds) v)}" by blast
    moreover have "fold release (d # ds) (deg, q) = (\<lambda>v. deg v - int (count_list (d # ds) v), q @ new)"
      using step False by simp
    ultimately show ?thesis using new(2) by blast
  qed
qed simp

text \<open>
  The state of the loop: nodes are taken once, the degrees count the requirements that are not yet
  in the result, and exactly the nodes without any are in the result or the queue.
\<close>

definition kahn :: "Dependency list \<Rightarrow> DependencyGraph \<Rightarrow> Dependency list \<Rightarrow> degrees \<Rightarrow> Dependency list \<Rightarrow> bool" where
  "kahn units graph q deg res \<longleftrightarrow> distinct (res @ q) \<and> set (res @ q) \<subseteq> set units \<and>
     (\<forall>v \<in> set units. deg v = int (\<Sum>u \<in> set units - set res. edges units graph u v)) \<and>
     (\<forall>v \<in> set units. v \<in> set (res @ q) \<longleftrightarrow> deg v = 0) \<and>
     (\<forall>v. v \<notin> set units \<longrightarrow> deg v = 0) \<and>
     (\<forall>i < length res. \<forall>u \<in> set units. u \<in> set (graph (res ! i)) \<longrightarrow> u \<in> set (take i res))"

lemma edges_pos: "0 < edges units graph u v \<longleftrightarrow> u \<in> set units \<and> v \<in> set units \<and> u \<in> set (graph v)"
  by (auto simp: edges_def count_list_pos)

lemma kahn_step:
  assumes inv: "kahn units graph (n # q) deg res" and ds: "\<And>u v. count_list (ds u) v = edges units graph u v"
  shows "\<exists>q' deg'. fold release (ds n) (deg, q) = (deg', q') \<and> kahn units graph q' deg' (res @ [n])"
proof -
  have n: "n \<in> set units" "n \<notin> set res" using inv by (auto simp: kahn_def)
  have split: "(\<Sum>u \<in> set units - set res. edges units graph u v) =
      edges units graph n v + (\<Sum>u \<in> set units - set (res @ [n]). edges units graph u v)" for v
    using n by (subst sum.remove [of _ n]) (auto intro: arg_cong [where f = "\<lambda>A. sum _ A"] simp: Diff_insert2 [symmetric])
  have deg: "deg v = int (edges units graph n v + (\<Sum>u \<in> set units - set (res @ [n]). edges units graph u v))" if "v \<in> set units" for v
    using inv that unfolding kahn_def split [symmetric] by blast
  have none: "edges units graph n v = 0" if "v \<notin> set units" for v using that by (simp add: edges_def)
  have "int (count_list (ds n) v) \<le> deg v" for v
  proof (cases "v \<in> set units")
    case True
    show ?thesis unfolding deg [OF True] ds of_nat_le_iff by simp
  next
    case False
    then show ?thesis using none [of v] inv ds by (simp add: kahn_def)
  qed
  from release_loop [OF this, of q] obtain new where new: "fold release (ds n) (deg, q) = (\<lambda>v. deg v - int (count_list (ds n) v), q @ new)"
      "distinct new" "set new = {v \<in> set (ds n). deg v = int (count_list (ds n) v)}" by blast
  let ?deg = "\<lambda>v. deg v - int (edges units graph n v)"
  have mem: "v \<in> set (ds n) \<longleftrightarrow> 0 < edges units graph n v" for v using ds [of n v] by (metis count_list_0_iff neq0_conv)
  have newset: "set new = {v. 0 < edges units graph n v \<and> ?deg v = 0}" using new(3) mem ds by auto
  have old: "edges units graph n v = 0" if "v \<in> set (res @ n # q)" for v
  proof -
    have v: "v \<in> set units" "deg v = 0" using inv that unfolding kahn_def by blast+
    then have "int (edges units graph n v + (\<Sum>u \<in> set units - set (res @ [n]). edges units graph u v)) = 0" using deg [of v] by metis
    then show ?thesis unfolding of_nat_eq_0_iff by simp
  qed
  have disj: "set new \<inter> set (res @ n # q) = {}" using old newset by auto
  have sub: "set new \<subseteq> set units" using newset by (auto simp: edges_pos)
  have "distinct ((res @ [n]) @ (q @ new))" using inv new(2) disj by (auto simp: kahn_def)
  moreover have "set ((res @ [n]) @ (q @ new)) \<subseteq> set units" using inv sub by (auto simp: kahn_def)
  moreover have "?deg v = int (\<Sum>u \<in> set units - set (res @ [n]). edges units graph u v)" if "v \<in> set units" for v
    unfolding deg [OF that] by (simp only: of_nat_add)
  moreover have "v \<in> set ((res @ [n]) @ (q @ new)) \<longleftrightarrow> ?deg v = 0" if v: "v \<in> set units" for v
  proof (cases "0 < edges units graph n v")
    case True
    then have "v \<notin> set (res @ n # q)" using old by auto
    then show ?thesis using newset True by auto
  next
    case False
    then show ?thesis using inv v newset by (auto simp: kahn_def)
  qed
  moreover have "?deg v = 0" if "v \<notin> set units" for v using inv none that by (auto simp: kahn_def)
  moreover have "u \<in> set (take i (res @ [n]))" if i: "i < length (res @ [n])" and u: "u \<in> set units" "u \<in> set (graph ((res @ [n]) ! i))" for i u
  proof (cases "i < length res")
    case True
    then show ?thesis using inv u by (auto simp: kahn_def nth_append)
  next
    case False
    then have last: "i = length res" using i by simp
    have "u \<in> set res"
    proof (rule ccontr)
      assume "u \<notin> set res"
      then have "edges units graph u n \<le> (\<Sum>u \<in> set units - set res. edges units graph u n)"
        using u(1) by (intro member_le_sum) auto
      moreover have "0 < edges units graph u n" using u n last by (simp add: edges_pos)
      moreover have "deg n = 0" using inv n unfolding kahn_def by (meson in_set_conv_decomp)
      then have "int (\<Sum>u \<in> set units - set res. edges units graph u n) = 0" using inv n unfolding kahn_def by metis
      then have "(\<Sum>u \<in> set units - set res. edges units graph u n) = 0" unfolding of_nat_eq_0_iff .
      ultimately show False by simp
    qed
    then show ?thesis using last by simp
  qed
  ultimately have "kahn units graph (q @ new) ?deg (res @ [n])" unfolding kahn_def by blast
  then show ?thesis using new(1) ds by auto
qed

lemma drain_returns:
  assumes "kahn units graph q deg res" "\<And>u v. count_list (ds u) v = edges units graph u v"
  shows "\<exists>result deg'. drain ds q deg res = Some result \<and> kahn units graph [] deg' result"
  using assms(1)
proof (induction "length units - length res" arbitrary: q deg res rule: less_induct)
  case less
  show ?case
  proof (cases q)
    case Nil
    then show ?thesis using less.prems drain.simps [of ds "[]" deg res] by auto
  next
    case (Cons n q')
    obtain q'' deg'' where step: "fold release (ds n) (deg, q') = (deg'', q'')" "kahn units graph q'' deg'' (res @ [n])"
      using kahn_step [OF less.prems [unfolded Cons] assms(2)] by blast
    have "length (res @ [n]) \<le> card (set units)"
      using step(2) by (metis kahn_def distinct_append distinct_card card_mono List.finite_set set_append Un_subset_iff)
    then have "length (res @ [n]) \<le> length units" using card_length le_trans by blast
    then have "\<exists>result deg'. drain ds q'' deg'' (res @ [n]) = Some result \<and> kahn units graph [] deg' result"
      by (intro less.hyps step(2)) simp
    then show ?thesis using step(1) Cons drain.simps [of ds "n # q'" deg res] by simp
  qed
qed

section \<open>Linearisation is correct\<close>

definition requires :: "Dependency list \<Rightarrow> DependencyGraph \<Rightarrow> (Dependency \<times> Dependency) set" where
  "requires units graph = {(u, v). u \<in> set units \<and> v \<in> set units \<and> u \<in> set (graph v)}"

lemma kahn_start:
  assumes "distinct units" "distinct order" "set order = set units" "count_edges units graph = (deg, ds)"
  shows "kahn units graph (filter (\<lambda>d. deg d = 0) order) deg []"
proof -
  have "deg v = 0" if "v \<notin> set units" for v
    using count_units_loop [OF assms(1) subset_refl assms(1), where graph = graph and deg = "\<lambda>_. 0" and ds = "\<lambda>_. []"] assms(4) that
    by (simp add: count_edges_def)
  moreover have "deg v = int (\<Sum>u \<in> set units. edges units graph u v)" if "v \<in> set units" for v
    using count_edges_spec(1) [OF assms(1,4) that] .
  ultimately show ?thesis using assms(2,3) unfolding kahn_def by simp
qed

text \<open>In an order that respects the graph every requirement has a smaller position.\<close>

definition position :: "Dependency list \<Rightarrow> Dependency \<Rightarrow> nat" where
  "position res v = length (takeWhile (\<lambda>x. x \<noteq> v) res)"

lemma position_less: "v \<in> set (take i res) \<Longrightarrow> position res v < i"
proof (induction res arbitrary: i)
  case (Cons x res)
  then show ?case by (cases i) (auto simp: position_def)
qed simp

lemma position_nth: "v \<in> set res \<Longrightarrow> position res v < length res \<and> res ! position res v = v"
  by (induction res) (auto simp: position_def)

lemma respects_acyclic:
  assumes "kahn units graph q deg res" "set res = set units"
  shows "acyclic (requires units graph)"
proof -
  have "requires units graph \<subseteq> measure (position res)"
  proof (rule subrelI)
    fix u v assume "(u, v) \<in> requires units graph"
    then have uv: "u \<in> set units" "v \<in> set res" "u \<in> set (graph v)" using assms(2) by (auto simp: requires_def)
    note v = position_nth [OF uv(2)]
    have "u \<in> set (take (position res v) res)" using assms(1) uv v unfolding kahn_def by metis
    then show "(u, v) \<in> measure (position res)" using position_less by simp
  qed
  then show ?thesis by (meson wf_measure wf_subset wf_acyclic)
qed

lemma leftover_cyclic:
  assumes "kahn units graph [] deg res" "set res \<noteq> set units"
  shows "\<not> acyclic (requires units graph)"
proof
  assume acyc: "acyclic (requires units graph)"
  have "requires units graph \<subseteq> set units \<times> set units" by (auto simp: requires_def)
  then have "finite (requires units graph)" by (rule finite_subset) simp
  then have wf: "wf (requires units graph)" using acyc by (rule finite_acyclic_wf)
  obtain v where "v \<in> set units - set res" using assms by (auto simp: kahn_def)
  then obtain m where m: "m \<in> set units - set res" "\<And>y. (y, m) \<in> requires units graph \<Longrightarrow> y \<notin> set units - set res"
    using wfE_min [OF wf] by metis
  have zero: "edges units graph u m = 0" if "u \<in> set units - set res" for u
    using m(1) m(2) [of u] that edges_pos [of units graph u m] by (auto simp: requires_def)
  have "deg m = int (\<Sum>u \<in> set units - set res. edges units graph u m)" using assms(1) m(1) unfolding kahn_def by blast
  also have "\<dots> = 0" using zero by simp
  finally show False using assms(1) m(1) by (auto simp: kahn_def)
qed

lemma linearize_total:
  assumes "distinct units" "distinct order" "set order = set units"
  shows "\<exists>r. linearize units order graph = Some r \<and>
    (if acyclic (requires units graph)
     then \<exists>res. r = Ok res \<and> distinct res \<and> set res = set units \<and>
       (\<forall>i < length res. \<forall>u \<in> set units. u \<in> set (graph (res ! i)) \<longrightarrow> u \<in> set (take i res))
     else r = Err ErrCyclicDependency)"
proof -
  obtain deg ds where counts: "count_edges units graph = (deg, ds)" by fastforce
  obtain res deg' where res: "drain ds (filter (\<lambda>d. deg d = 0) order) deg [] = Some res" "kahn units graph [] deg' res"
    using drain_returns [OF kahn_start [OF assms counts]] count_edges_spec(2) [OF assms(1) counts] by blast
  have sub: "distinct res" "set res \<subseteq> set units" using res(2) by (auto simp: kahn_def)
  have len: "length res = length units \<longleftrightarrow> set res = set units"
    using sub assms(1) by (metis card_subset_eq distinct_card List.finite_set)
  have lin: "linearize units order graph = Some (if length res \<noteq> length units then Err ErrCyclicDependency else Ok res)"
    by (simp add: linearize_def counts res(1))
  show ?thesis
  proof (cases "set res = set units")
    case True
    then show ?thesis using lin len respects_acyclic [OF res(2) True] res(2) sub by (auto simp: kahn_def)
  next
    case False
    then show ?thesis using lin len leftover_cyclic [OF res(2) False] by auto
  qed
qed

lemma Parse_String:
  assumes "dep_Type d \<noteq> DependencyTypeInvalid" "CHR '':'' \<notin> set (dep_Name d)"
  shows "ParseDependency (Dependency_String d) = Ok d"
proof -
  have "CHR '':'' \<notin> set (DependencyType_String (dep_Type d))" by (cases "dep_Type d") auto
  then have "strings_Split (Dependency_String d) (CHR '':'') = [DependencyType_String (dep_Type d), dep_Name d]"
    using assms(2) by (simp add: Dependency_String_def Split_append_sep Split_no_sep)
  then show ?thesis using assms(1) by (cases d; cases "dep_Type d") (auto simp: ParseDependency_def ParseDependencyType_def)
qed

end
