(* ===== verification/Ui_Render.thy ===== *)
theory Ui_Render
  imports Ui_Linearize
begin

text \<open>
  The renderer of \<^verbatim>\<open>lib/ui\<close>: the registry of the dependencies and their paths (\<^verbatim>\<open>render.go\<close>), the
  styles of components and what they depend on (\<^verbatim>\<open>style.go\<close>, \<^verbatim>\<open>context.go\<close>), and the elements that a
  page needs besides its components.

  SHA-256 and the encoders of identifiers and JSON are parameters. The elements that the HTML
  library builds are the values of \<open>Node\<close>; a component is what it calls on its context, the styles
  it asks for, together with the node it returns.
\<close>

definition ErrInvalidDependencyPath :: goerr where "ErrInvalidDependencyPath = PlainError ''invalid dependency path''"
definition ErrMissingDependency :: goerr where "ErrMissingDependency = PlainError ''missing dependency''"
definition ErrDependencyRegistered :: goerr where "ErrDependencyRegistered = PlainError ''dependency already registered''"
definition ErrDependencyNotRegistered :: goerr where "ErrDependencyNotRegistered = PlainError ''dependency not registered''"

section \<open>The registry\<close>

record Renderer =
  rr_dependencies :: "Dependency \<rightharpoonup> string"
  rr_dependencyPaths :: "Dependency \<rightharpoonup> string"
  rr_pathDependencies :: "string \<rightharpoonup> Dependency"
  rr_assetPath :: string
  rr_debug :: bool
  rr_linearized :: "string \<rightharpoonup> Dependency list"

definition empty_Renderer :: "string \<Rightarrow> Renderer" where
  "empty_Renderer assetPath = \<lparr>rr_dependencies = Map.empty, rr_dependencyPaths = Map.empty, rr_pathDependencies = Map.empty,
     rr_assetPath = assetPath, rr_debug = False, rr_linearized = Map.empty\<rparr>"

text \<open>\<open>sha\<close> is the hexadecimal text of the SHA-256 sum.\<close>

definition register_dependency :: "(string \<Rightarrow> string) \<Rightarrow> Dependency \<times> string \<Rightarrow> (Renderer, unit) go" where
  "register_dependency sha = (\<lambda>(dep, content) rer.
     if rr_dependencies rer dep \<noteq> None then (Err (Wrapped ''error while registering dependency'' ErrDependencyRegistered), rer)
     else (let path = filepath_Join [rr_assetPath rer, Dependency_String dep @ ''-'' @ sha content] in
       (Ok (), rer\<lparr>rr_dependencies := (rr_dependencies rer)(dep \<mapsto> content),
          rr_dependencyPaths := (rr_dependencyPaths rer)(dep \<mapsto> path),
          rr_pathDependencies := (rr_pathDependencies rer)(path \<mapsto> dep)\<rparr>)))"

fun register_all :: "(string \<Rightarrow> string) \<Rightarrow> (Dependency \<times> string) list \<Rightarrow> (Renderer, unit) go" where
  "register_all sha [] rer = (Ok (), rer)"
| "register_all sha (x # xs) rer = go_bind (register_dependency sha x) (\<lambda>_. register_all sha xs) rer"

text \<open>
  The functions that are registered give dependencies and perhaps an error. The errors are collected,
  what a failing function gives is registered all the same; a dependency that is registered twice
  ends the call. The contents are inserted into the registry a second time after the loop.
\<close>

fun register_functions :: "(string \<Rightarrow> string) \<Rightarrow> ((Dependency \<times> string) list \<times> goerr option) list \<Rightarrow> goerr list \<Rightarrow> (Renderer, unit) go" where
  "register_functions sha [] errs rer =
     (case errs of [] \<Rightarrow> (Ok (), rer) | e # es \<Rightarrow> (Err (foldl Joined e es), rer))"
| "register_functions sha ((deps, err) # fs) errs rer =
     (let errs' = (case err of None \<Rightarrow> errs | Some e \<Rightarrow> errs @ [Wrapped ''error while loading dependencies'' e]) in
      go_bind (register_all sha deps) (\<lambda>_ rer'.
        register_functions sha fs errs' (rer'\<lparr>rr_dependencies := rr_dependencies rer' ++ map_of deps\<rparr>)) rer)"

definition Renderer_RegisterDependencies :: "(string \<Rightarrow> string) \<Rightarrow> ((Dependency \<times> string) list \<times> goerr option) list \<Rightarrow> (Renderer, unit) go" where
  "Renderer_RegisterDependencies sha fns = register_functions sha fns []"

definition Renderer_Debug :: "bool \<Rightarrow> Renderer \<Rightarrow> Renderer" where
  "Renderer_Debug dbg rer = rer\<lparr>rr_debug := dbg\<rparr>"

definition Renderer_Dependency :: "Renderer \<Rightarrow> string \<Rightarrow> (Dependency \<times> string) outcome" where
  "Renderer_Dependency rer path =
     (if \<not> strings_HasPrefix path (rr_assetPath rer) then Err ErrInvalidDependencyPath
      else case rr_pathDependencies rer path of
          Some dep \<Rightarrow> Ok (dep, case rr_dependencies rer dep of None \<Rightarrow> [] | Some content \<Rightarrow> content)
        | None \<Rightarrow> Err ErrMissingDependency)"

definition Renderer_dependencyPath :: "Renderer \<Rightarrow> Dependency \<Rightarrow> string outcome" where
  "Renderer_dependencyPath rer dep = (case rr_dependencyPaths rer dep of
      Some path \<Rightarrow> Ok path
    | None \<Rightarrow> Err (Wrapped ''could not find path for dependency'' ErrDependencyNotRegistered))"

section \<open>The default dependencies\<close>

text \<open>
  \<open>fs\<close> holds the files that are embedded into the program. The packages \<^verbatim>\<open>htmx\<close>, \<^verbatim>\<open>openprops\<close> and \<^verbatim>\<open>teapot\<close>
  give their components in the order of their lists, and nothing when a file is missing.
\<close>

fun load_components :: "(string \<rightharpoonup> string) \<Rightarrow> (Dependency \<times> string) list \<Rightarrow> (Dependency \<times> string) list \<times> goerr option" where
  "load_components fs [] = ([], None)"
| "load_components fs ((dep, path) # rest) = (case fs path of
      Some content \<Rightarrow> (case load_components fs rest of (deps, None) \<Rightarrow> ((dep, content) # deps, None) | (_, Some e) \<Rightarrow> ([], Some e))
    | None \<Rightarrow> ([], Some (Wrapped ''error while loading file from bundle'' (PlainError ''file does not exist''))))"

definition htmx_Components :: "string list" where
  "htmx_Components = [''htmx.org'', ''htmx-ext-response-targets'', ''htmx-ext-head-support'']"

definition htmx_name :: "nat \<Rightarrow> string \<Rightarrow> string" where
  "htmx_name i component = (if i = 0 then ''htmx'' else strings_TrimPrefix component ''htmx-ext-'')"

definition htmx_Dependencies :: "(string \<rightharpoonup> string) \<Rightarrow> (Dependency \<times> string) list \<times> goerr option" where
  "htmx_Dependencies fs = load_components fs (map (\<lambda>(i, component).
     (\<lparr>dep_Type = DependencyTypeScript, dep_Name = htmx_name i component\<rparr>, ''js/'' @ htmx_name i component @ ''.js'')) (List.enumerate 0 htmx_Components))"

definition openprops_Components :: "string list" where
  "openprops_Components = [''normalize'', ''animations'', ''aspects'', ''borders'', ''colors'', ''durations'', ''easings'', ''fonts'',
     ''gradients'', ''masks.edges'', ''masks.corner-cuts'', ''media'', ''shadows'', ''sizes'', ''supports'', ''zindex'', ''brand-colors'']"

definition nameMap :: "string \<rightharpoonup> string" where
  "nameMap = [''sizes'' \<mapsto> ''size'', ''fonts'' \<mapsto> ''font'', ''easings'' \<mapsto> ''ease'']"

definition openprops_Dependencies :: "(string \<rightharpoonup> string) \<Rightarrow> (Dependency \<times> string) list \<times> goerr option" where
  "openprops_Dependencies fs = load_components fs (map (\<lambda>component.
     (\<lparr>dep_Type = DependencyTypeStyle, dep_Name = (case nameMap component of Some newName \<Rightarrow> newName | None \<Rightarrow> component)\<rparr>,
      ''css/'' @ component @ ''.css'')) openprops_Components)"

definition CSSComponents :: "string list" where "CSSComponents = [''theme'']"
definition JSComponents :: "string list" where "JSComponents = [''render'']"

definition teapot_Dependencies :: "(string \<rightharpoonup> string) \<Rightarrow> (Dependency \<times> string) list \<times> goerr option" where
  "teapot_Dependencies fs = load_components fs
     (map (\<lambda>component. (\<lparr>dep_Type = DependencyTypeStyle, dep_Name = component\<rparr>, ''css/'' @ component @ ''.css'')) CSSComponents @
      map (\<lambda>component. (\<lparr>dep_Type = DependencyTypeScript, dep_Name = component\<rparr>, ''js/'' @ component @ ''.js'')) JSComponents)"

text \<open>Each of the packages has files of its own.\<close>

definition NewRenderer :: "(string \<Rightarrow> string) \<Rightarrow> (string \<rightharpoonup> string) \<Rightarrow> (string \<rightharpoonup> string) \<Rightarrow> (string \<rightharpoonup> string) \<Rightarrow>
    string \<Rightarrow> Renderer outcome" where
  "NewRenderer sha teapotFS htmxFS openpropsFS assetPath =
     (case Renderer_RegisterDependencies sha [teapot_Dependencies teapotFS, htmx_Dependencies htmxFS, openprops_Dependencies openpropsFS]
         (empty_Renderer assetPath) of
        (Ok _, rer) \<Rightarrow> Ok rer
      | (Err e, _) \<Rightarrow> Err (Wrapped ''error while registering default dependencies'' e)
      | (Panic p, _) \<Rightarrow> Panic p
      | (Diverge, _) \<Rightarrow> Diverge)"

section \<open>Cached linearisation\<close>

definition cacheKey :: "(string \<Rightarrow> string) \<Rightarrow> Dependency list \<Rightarrow> string" where
  "cacheKey sha units = sha (strings_Join (sort (map Dependency_String units)) (CHR '',''))"

definition Renderer_Linearize :: "(string \<Rightarrow> string) \<Rightarrow> Dependency list \<Rightarrow> Dependency list \<Rightarrow> DependencyGraph \<Rightarrow>
    Renderer \<Rightarrow> (Dependency list outcome \<times> Renderer) option" where
  "Renderer_Linearize sha units order graph rer = (case rr_linearized rer (cacheKey sha units) of
      Some cached \<Rightarrow> Some (Ok cached, rer)
    | None \<Rightarrow> do {
        r \<leftarrow> linearize units order graph;
        Some (r, case r of Ok res \<Rightarrow> rer\<lparr>rr_linearized := (rr_linearized rer)(cacheKey sha units \<mapsto> res)\<rparr> | _ \<Rightarrow> rer)
      })"

section \<open>Styles\<close>

record Style =
  st_id :: string
  st_css :: string
  st_dependencies :: "Dependency list"

definition name_char :: "char \<Rightarrow> bool" where
  "name_char ch \<longleftrightarrow> (CHR ''a'' \<le> ch \<and> ch \<le> CHR ''z'') \<or> (CHR ''A'' \<le> ch \<and> ch \<le> CHR ''Z'') \<or> (CHR ''0'' \<le> ch \<and> ch \<le> CHR ''9'') \<or> ch = CHR ''-''"

text \<open>
  The matches of the expression \<^verbatim>\<open>var\(--([a-zA-Z0-9\-]+)\<close>, from left to right and without overlap: the
  longest run of name characters after the opening, if it is not empty.
\<close>

function find_vars :: "string \<Rightarrow> string list" where
  "find_vars css = (if css = [] then []
     else if take 6 css = ''var(--'' \<and> takeWhile name_char (drop 6 css) \<noteq> []
     then takeWhile name_char (drop 6 css) # find_vars (dropWhile name_char (drop 6 css))
     else find_vars (tl css))"
  by auto
termination
proof (relation "measure length", goal_cases)
  case (2 css)
  have "length (dropWhile name_char (drop 6 css)) \<le> length (drop 6 css)" by (rule length_dropWhile_le)
  moreover have "length (drop 6 css) < length css" using 2 by simp
  ultimately show ?case by simp
qed auto

declare find_vars.simps [simp del]

definition style_dependency :: "string \<Rightarrow> Dependency" where
  "style_dependency m = \<lparr>dep_Type = DependencyTypeStyle, dep_Name = hd (strings_Split m (CHR ''-''))\<rparr>"

text \<open>\<open>encode\<close> is the encoder of identifiers, the state the counter of the parsed styles.\<close>

definition ParseStyle :: "(64 word \<Rightarrow> string outcome) \<Rightarrow> string \<Rightarrow> (64 word, Style) go" where
  "ParseStyle encode css counter = (case outcome_wrap ''error while computing hash for style'' (encode counter) of
      Ok i \<Rightarrow> (Ok \<lparr>st_id = ''s'' @ i, st_css = css, st_dependencies = map style_dependency (find_vars css)\<rparr>, counter + 1)
    | Err e \<Rightarrow> (Err e, counter)
    | Panic p \<Rightarrow> (Panic p, counter)
    | Diverge \<Rightarrow> (Diverge, counter))"

definition MustParseStyle :: "(64 word \<Rightarrow> string outcome) \<Rightarrow> string \<Rightarrow> (64 word, Style) go" where
  "MustParseStyle encode css counter = (case ParseStyle encode css counter of
      (Err e, c) \<Rightarrow> (Panic ''error while parsing style'', c)
    | r \<Rightarrow> r)"

record renderContext =
  rc_styles :: "Style list"
  rc_dependencies :: "Dependency list"

definition renderContext_register :: "Style \<Rightarrow> renderContext \<Rightarrow> renderContext" where
  "renderContext_register style c = c\<lparr>rc_styles := rc_styles c @ [style],
     rc_dependencies := fold (\<lambda>dep ds. if dep \<in> set ds then ds else ds @ [dep]) (st_dependencies style) (rc_dependencies c)\<rparr>"

definition renderContext_Class :: "Style list \<Rightarrow> renderContext \<Rightarrow> string \<times> renderContext" where
  "renderContext_Class styles c =
     (strings_Join (map st_id styles) (CHR '' ''),
      fold (\<lambda>style c. if style \<in> set (rc_styles c) then c else renderContext_register style c) styles c)"

section \<open>The elements of a page\<close>

definition ScriptHTMX :: Dependency where "ScriptHTMX = \<lparr>dep_Type = DependencyTypeScript, dep_Name = ''htmx''\<rparr>"
definition ScriptHTMXResponseTargets :: Dependency where
  "ScriptHTMXResponseTargets = \<lparr>dep_Type = DependencyTypeScript, dep_Name = ''response-targets''\<rparr>"
definition ScriptHTMXHeadSupport :: Dependency where
  "ScriptHTMXHeadSupport = \<lparr>dep_Type = DependencyTypeScript, dep_Name = ''head-support''\<rparr>"
definition ScriptTeapotRender :: Dependency where "ScriptTeapotRender = \<lparr>dep_Type = DependencyTypeScript, dep_Name = ''render''\<rparr>"
definition StyleNormalize :: Dependency where "StyleNormalize = \<lparr>dep_Type = DependencyTypeStyle, dep_Name = ''normalize''\<rparr>"
definition StyleColors :: Dependency where "StyleColors = \<lparr>dep_Type = DependencyTypeStyle, dep_Name = ''colors''\<rparr>"
definition StyleFont :: Dependency where "StyleFont = \<lparr>dep_Type = DependencyTypeStyle, dep_Name = ''font''\<rparr>"

definition defaultDependencies :: "Dependency list" where
  "defaultDependencies = [ScriptHTMX, ScriptHTMXResponseTargets, ScriptHTMXHeadSupport, ScriptTeapotRender, StyleColors, StyleNormalize, StyleFont]"

definition DependencyGraph :: DependencyGraph where
  "DependencyGraph dep =
     (if dep \<in> {ScriptHTMXResponseTargets, ScriptHTMXHeadSupport, ScriptTeapotRender} then [ScriptHTMX]
      else if dep \<in> {StyleColors, StyleFont} then [StyleNormalize] else [])"

datatype 'n Node =
    Link string
  | ScriptSrc string
  | StyleEl string string
  | ScriptInject string
  | Ext string
  | Rendered 'n

record AlreadyLoaded =
  al_Styles :: "string list"
  al_Dependencies :: "Dependency list"

definition AlreadyLoaded_IsEmpty :: "AlreadyLoaded \<Rightarrow> bool" where
  "AlreadyLoaded_IsEmpty al \<longleftrightarrow> al_Styles al = [] \<and> al_Dependencies al = []"

definition EmptyAlreadyLoaded :: AlreadyLoaded where
  "EmptyAlreadyLoaded = \<lparr>al_Styles = [], al_Dependencies = []\<rparr>"

definition registerScript :: "(string list \<Rightarrow> string outcome) \<Rightarrow> string \<Rightarrow> string list \<Rightarrow> string outcome" where
  "registerScript marshal target elements =
     outcome_bind (outcome_wrap ''error while generating register code'' (marshal elements)) (\<lambda>b.
       Ok (''('' @ b @ '').forEach(e => window.teapot.'' @ target @ ''.add(e))''))"

text \<open>The elements of the dependencies that are not loaded yet, in the order given.\<close>

fun render_dependencies :: "Renderer \<Rightarrow> AlreadyLoaded \<Rightarrow> Dependency list \<Rightarrow> ('n Node list \<times> 'n Node list \<times> Dependency list) outcome" where
  "render_dependencies rer loaded [] = Ok ([], [], [])"
| "render_dependencies rer loaded (dep # deps) =
     (if dep \<in> set (al_Dependencies loaded) then render_dependencies rer loaded deps
      else outcome_bind (outcome_wrap ''error while rendering dependency tags (script, style)'' (Renderer_dependencyPath rer dep)) (\<lambda>url.
           outcome_bind (render_dependencies rer loaded deps) (\<lambda>(links, scripts, used).
           Ok (case dep_Type dep of
               DependencyTypeStyle \<Rightarrow> (Link url # links, scripts, dep # used)
             | DependencyTypeScript \<Rightarrow> (links, ScriptSrc url # scripts, dep # used)
             | DependencyTypeInvalid \<Rightarrow> (links, scripts, dep # used)))))"

fun strings_ReplaceNewline :: "string \<Rightarrow> string \<Rightarrow> string" where
  "strings_ReplaceNewline r [] = []"
| "strings_ReplaceNewline r (ch # s) = (if ch = CHR 0x0A then r else [ch]) @ strings_ReplaceNewline r s"

definition style_rule :: "bool \<Rightarrow> Style \<Rightarrow> string" where
  "style_rule debug style =
     (if debug then ''.'' @ st_id style @ '' {'' @ [CHR 0x0A] @ ''  '' @ strings_ReplaceNewline (CHR 0x0A # ''  '') (st_css style) @ [CHR 0x0A] @ ''}''
      else ''.'' @ st_id style @ ''{'' @ strings_ReplaceNewline [] (st_css style) @ ''}'')"

definition render_elements :: "(string \<Rightarrow> string) \<Rightarrow> (string list \<Rightarrow> string outcome) \<Rightarrow> Renderer \<Rightarrow> AlreadyLoaded \<Rightarrow> Style list \<Rightarrow>
    Dependency list \<Rightarrow> ('n Node list \<times> 'n Node list) outcome" where
  "render_elements sha marshal rer loaded allStyles linearized =
     outcome_bind (render_dependencies rer loaded linearized) (\<lambda>(links, scripts, dependencies).
     (let styles = filter (\<lambda>s. st_id s \<notin> set (al_Styles loaded)) allStyles;
          stylesheet = concat (map (style_rule (rr_debug rer)) styles);
          links' = (if stylesheet = [] then links else links @ [StyleEl (''style-'' @ sha stylesheet) stylesheet]) in
      outcome_bind (outcome_wrap ''error while generating styles register code'' (registerScript marshal ''styles'' (map st_id styles))) (\<lambda>src.
      outcome_bind (outcome_wrap ''error while generating dependencies register code''
          (registerScript marshal ''dependencies'' (map Dependency_String dependencies))) (\<lambda>drc.
      Ok (links', scripts @ (if styles = [] then [] else [ScriptInject src]) @ (if dependencies = [] then [] else [ScriptInject drc]))))))"

text \<open>
  A component takes the context it is rendered in to a node. \<open>rangeD\<close> and \<open>rangeS\<close> stand for the
  orders in which the loops over the maps of dependencies and styles run.
\<close>

definition Renderer_contextRender :: "(renderContext \<Rightarrow> 'n \<times> renderContext) \<Rightarrow> 'n \<times> renderContext" where
  "Renderer_contextRender component = component \<lparr>rc_styles = [], rc_dependencies = defaultDependencies\<rparr>"

definition Renderer_renderWithDependencies :: "(string \<Rightarrow> string) \<Rightarrow> (string list \<Rightarrow> string outcome) \<Rightarrow>
    (Dependency list \<Rightarrow> Dependency list) \<Rightarrow> (Style list \<Rightarrow> Style list) \<Rightarrow> AlreadyLoaded \<Rightarrow> (renderContext \<Rightarrow> 'n \<times> renderContext) \<Rightarrow>
    Renderer \<Rightarrow> (('n Node list \<times> 'n Node list \<times> 'n) outcome \<times> Renderer) option" where
  "Renderer_renderWithDependencies sha marshal rangeD rangeS loaded component rer =
     (case Renderer_contextRender component of (node, c) \<Rightarrow>
      do {
        (r, rer') \<leftarrow> Renderer_Linearize sha (rc_dependencies c) (rangeD (rc_dependencies c)) DependencyGraph rer;
        Some (outcome_bind (outcome_wrap ''error while linearizing dependencies'' r) (\<lambda>linearized.
          outcome_bind (render_elements sha marshal rer' loaded (rangeS (rc_styles c)) linearized) (\<lambda>(links, scripts).
          Ok (links, scripts, node))), rer')
      })"

text \<open>
  \<open>Renderer_Render\<close> and \<open>Renderer_RenderPage\<close> give the nodes that are written to the response: a group, or
  the head and the body of a page.
\<close>

definition Renderer_Render :: "(string \<Rightarrow> string) \<Rightarrow> (string list \<Rightarrow> string outcome) \<Rightarrow>
    (Dependency list \<Rightarrow> Dependency list) \<Rightarrow> (Style list \<Rightarrow> Style list) \<Rightarrow> AlreadyLoaded \<Rightarrow> (renderContext \<Rightarrow> 'n \<times> renderContext) \<Rightarrow>
    Renderer \<Rightarrow> ('n Node list outcome \<times> Renderer) option" where
  "Renderer_Render sha marshal rangeD rangeS loaded component rer = do {
     (r, rer') \<leftarrow> Renderer_renderWithDependencies sha marshal rangeD rangeS loaded component rer;
     Some (outcome_bind r (\<lambda>(styles, scripts, node). Ok (styles @ scripts @ [Rendered node])), rer')
   }"

record 'n HTML5Props =
  hp_Head :: "'n Node list"
  hp_Body :: "'n Node list"

definition Renderer_RenderPage :: "(string \<Rightarrow> string) \<Rightarrow> (string list \<Rightarrow> string outcome) \<Rightarrow>
    (Dependency list \<Rightarrow> Dependency list) \<Rightarrow> (Style list \<Rightarrow> Style list) \<Rightarrow> AlreadyLoaded \<Rightarrow> 'n HTML5Props \<Rightarrow> (renderContext \<Rightarrow> 'n \<times> renderContext) \<Rightarrow>
    Renderer \<Rightarrow> ('n HTML5Props outcome \<times> Renderer) option" where
  "Renderer_RenderPage sha marshal rangeD rangeS loaded opts body rer = do {
     (r, rer') \<leftarrow> Renderer_renderWithDependencies sha marshal rangeD rangeS loaded body rer;
     Some (outcome_bind r (\<lambda>(styles, scripts, node).
       Ok \<lparr>hp_Head = hp_Head opts @ styles @ scripts, hp_Body = Ext ''head-support'' # hp_Body opts @ [Rendered node]\<rparr>), rer')
   }"

end
