(* ===== verification/Web_Handler.thy ===== *)
theory Web_Handler
  imports Ui_Render Http_Handler
begin

text \<open>
  The handlers of web pages: what a browser says it has loaded and the files it asks for
  (\<^verbatim>\<open>lib/ui/http\<close>), and the adapter that renders components and errors (\<^verbatim>\<open>lib/webhandler\<close>).

  The state of a handler is the response together with the renderer, whose cache the handler may
  fill; a renderer that does not return leaves the outcome \<open>Diverge\<close>. The JSON library, the writer of
  HTML and the skeleton of pages are parameters.
\<close>

section \<open>Requests and responses\<close>

text \<open>The headers of a request, empty when absent; \<open>wq_hx\<close> and \<open>wq_boosted\<close> are those of htmx.\<close>

record WebRequest = Request +
  wq_path :: string
  wq_hx :: bool
  wq_boosted :: bool
  wq_HeaderTeapotStyles :: string
  wq_HeaderTeapotDependencies :: string

record web_state = Response +
  ws_contentType :: "string list"
  ws_hxLocation :: string
  ws_renderer :: Renderer

section \<open>What the browser has loaded\<close>

fun parse_elements :: "(string \<Rightarrow> 'a outcome) \<Rightarrow> string list \<Rightarrow> 'a list \<Rightarrow> 'a list outcome" where
  "parse_elements fn [] result = Ok result"
| "parse_elements fn (str # strs) result =
     outcome_bind (outcome_wrap ''error while parsing element in header'' (fn str)) (\<lambda>key.
       parse_elements fn strs (if key \<in> set result then result else result @ [key]))"

definition parseSet :: "(string \<Rightarrow> string list outcome) \<Rightarrow> string \<Rightarrow> (string \<Rightarrow> 'a outcome) \<Rightarrow> 'a list outcome" where
  "parseSet unmarshal raw fn =
     (if length raw \<le> 0 then Ok []
      else outcome_bind (outcome_wrap ''error while parsing header'' (unmarshal raw)) (\<lambda>strs. parse_elements fn strs []))"

definition AlreadyLoadedFromRequest :: "(string \<Rightarrow> string list outcome) \<Rightarrow> 'a WebRequest_scheme \<Rightarrow> AlreadyLoaded outcome" where
  "AlreadyLoadedFromRequest unmarshal r =
     (if \<not> wq_hx r then Ok EmptyAlreadyLoaded
      else outcome_bind (outcome_wrap ''error while parsing already loaded syles from header''
          (parseSet unmarshal (wq_HeaderTeapotStyles r) Ok)) (\<lambda>styles.
        outcome_bind (outcome_wrap ''error while parsing already loaded dependencies from header''
          (parseSet unmarshal (wq_HeaderTeapotDependencies r) ParseDependency)) (\<lambda>deps.
        Ok \<lparr>al_Styles = styles, al_Dependencies = deps\<rparr>)))"

section \<open>Serving dependencies\<close>

text \<open>A handler leaves an error or none, or does not end normally.\<close>

type_synonym 'w handler_result = "httperr option outcome \<times> 'w"

definition no_error :: "unit outcome \<times> 'w \<Rightarrow> 'w handler_result" where
  "no_error = (\<lambda>(r, w). (case r of Ok _ \<Rightarrow> Ok None | Err e \<Rightarrow> Ok (Some (Other e)) | Panic p \<Rightarrow> Panic p | Diverge \<Rightarrow> Diverge, w))"

definition content_type :: "Dependency \<Rightarrow> string" where
  "content_type dep = (case dep_Type dep of
      DependencyTypeStyle \<Rightarrow> ''text/css''
    | DependencyTypeScript \<Rightarrow> ''application/javascript''
    | DependencyTypeInvalid \<Rightarrow> ''text/plain'')"

definition ServeDependencies :: "(string \<Rightarrow> nat outcome) \<Rightarrow> 'a WebRequest_scheme \<Rightarrow> web_state \<Rightarrow> web_state handler_result" where
  "ServeDependencies conn r w = (case Renderer_Dependency (ws_renderer w) (wq_path r) of
      Ok (dep, content) \<Rightarrow>
        no_error (httphandler_Write conn StatusOK content (w\<lparr>ws_contentType := ws_contentType w @ [content_type dep]\<rparr>))
    | Err e \<Rightarrow> (Ok (Some (Other (Wrapped ''invalid dependency request'' e))), w)
    | Panic p \<Rightarrow> (Panic p, w)
    | Diverge \<Rightarrow> (Diverge, w))"

section \<open>The adapter\<close>

definition ErrSkeleton :: goerr where "ErrSkeleton = PlainError ''error while rendering the page skeleton''"
definition ErrRendering :: goerr where "ErrRendering = PlainError ''rendering error''"

text \<open>
  A component is a page, with title and description, or a part of one. \<open>wb_write\<close> and \<open>wb_writePage\<close>
  write nodes and pages to the response.
\<close>

type_synonym 'n Component = "renderContext \<Rightarrow> 'n \<times> renderContext"

record 'n Page =
  pg_component :: "'n Component"
  pg_title :: string
  pg_description :: string

datatype 'n WebComponent = Part "'n Component" | FullPage "'n Page"

fun render_component :: "'n WebComponent \<Rightarrow> 'n Component" where
  "render_component (Part c) = c"
| "render_component (FullPage p) = pg_component p"

definition NewPage :: "string \<Rightarrow> string \<Rightarrow> 'n Component \<Rightarrow> 'n Page" where
  "NewPage title description component = \<lparr>pg_component = component, pg_title = title, pg_description = description\<rparr>"

record 'n PageProps =
  pp_Title :: string
  pp_Language :: string
  pp_Description :: string
  pp_nodes :: "'n HTML5Props"

definition Lang :: string where "Lang = ''en''"
definition ErrPageTitle :: string where "ErrPageTitle = ''error''"
definition ErrPageDescription :: string where "ErrPageDescription = ''an error occurred while handling the request''"

record 'n WebHandler =
  wb_sha :: "string \<Rightarrow> string"
  wb_marshal :: "string list \<Rightarrow> string outcome"
  wb_unmarshal :: "string \<Rightarrow> string list outcome"
  wb_rangeD :: "Dependency list \<Rightarrow> Dependency list"
  wb_rangeS :: "Style list \<Rightarrow> Style list"
  wb_write :: "'n Node list \<Rightarrow> (web_state, unit) go"
  wb_writePage :: "'n PageProps \<Rightarrow> (web_state, unit) go"
  wb_skeleton :: "WebRequest \<Rightarrow> 'n WebComponent \<Rightarrow> 'n WebComponent outcome"

text \<open>The calls of the renderer, with the state of the renderer that is part of the state.\<close>

definition on_renderer :: "(Renderer \<Rightarrow> ('a outcome \<times> Renderer) option) \<Rightarrow> (web_state, 'a) go" where
  "on_renderer f w = (case f (ws_renderer w) of None \<Rightarrow> (Diverge, w) | Some (r, rer) \<Rightarrow> (r, w\<lparr>ws_renderer := rer\<rparr>))"

definition render_part :: "'n WebHandler \<Rightarrow> AlreadyLoaded \<Rightarrow> 'n Component \<Rightarrow> (web_state, unit) go" where
  "render_part wh al component =
     go_bind (on_renderer (Renderer_Render (wb_sha wh) (wb_marshal wh) (wb_rangeD wh) (wb_rangeS wh) al component)) (\<lambda>nodes.
       go_wrap ''error while rendering component'' (wb_write wh nodes))"

definition render_page :: "'n WebHandler \<Rightarrow> AlreadyLoaded \<Rightarrow> string \<Rightarrow> string \<Rightarrow> 'n Component \<Rightarrow> (web_state, unit) go" where
  "render_page wh al title description component =
     go_bind (on_renderer (Renderer_RenderPage (wb_sha wh) (wb_marshal wh) (wb_rangeD wh) (wb_rangeS wh) al
         \<lparr>hp_Head = [], hp_Body = []\<rparr> component)) (\<lambda>nodes.
       go_wrap ''error while rendering page'' (wb_writePage wh
         \<lparr>pp_Title = title, pp_Language = Lang, pp_Description = description, pp_nodes = nodes\<rparr>))"

text \<open>
  The handler of an error may give a component, which is rendered inside the skeleton unless htmx
  asks for a part of a page.
\<close>

definition wrapErrorHandler :: "'n WebHandler \<Rightarrow> (WebRequest \<Rightarrow> 'e \<Rightarrow> string \<Rightarrow> (web_state, 'n WebComponent option) go) \<Rightarrow>
    WebRequest \<Rightarrow> 'e \<Rightarrow> string \<Rightarrow> (web_state, unit) go" where
  "wrapErrorHandler wh eh r e contact =
     go_bind (eh r e contact) (\<lambda>component. case component of
        None \<Rightarrow> ret ()
      | Some component \<Rightarrow>
          go_bind (go_wrap ''error while loading already loaded for error handler'' (lift (AlreadyLoadedFromRequest (wb_unmarshal wh) r))) (\<lambda>al.
          if wq_hx r \<and> \<not> wq_boosted r
          then go_wrap ''error while rendering error handler'' (render_part wh al (render_component component))
          else go_bind (go_wrap ''error while rendering skeleton for error handler'' (lift (wb_skeleton wh r component))) (\<lambda>component.
               go_wrap ''error while rendering error handler''
                 (render_page wh al ErrPageTitle ErrPageDescription (render_component component)))))"

definition internal :: "goerr option \<Rightarrow> (web_state, unit) go \<Rightarrow> web_state \<Rightarrow> web_state handler_result" where
  "internal external m w = (case m w of
      (Ok _, w') \<Rightarrow> (Ok None, w')
    | (Err e, w') \<Rightarrow> (Ok (Some (Internal (NewInternalError e external))), w')
    | (Panic p, w') \<Rightarrow> (Panic p, w')
    | (Diverge, w') \<Rightarrow> (Diverge, w'))"

text \<open>The function that is handed to the HTTP handler: every error but that of the handler itself is internal.\<close>

definition render_result :: "'n WebHandler \<Rightarrow> WebRequest \<Rightarrow> 'n WebComponent \<Rightarrow> web_state \<Rightarrow> web_state handler_result" where
  "render_result wh r component w = (case AlreadyLoadedFromRequest (wb_unmarshal wh) r of
      Ok al \<Rightarrow> (case component of
          FullPage page \<Rightarrow> (case wb_skeleton wh r component of
              Ok component' \<Rightarrow> internal (Some ErrRendering)
                (render_page wh al (pg_title page) (pg_description page) (render_component component')) w
            | Err e \<Rightarrow> (Ok (Some (Internal (NewInternalError e (Some ErrSkeleton)))), w)
            | Panic p \<Rightarrow> (Panic p, w)
            | Diverge \<Rightarrow> (Diverge, w))
        | Part c \<Rightarrow> internal (Some ErrRendering) (render_part wh al c) w)
    | Err e \<Rightarrow> (Ok (Some (Internal (NewInternalError e None))), w)
    | Panic p \<Rightarrow> (Panic p, w)
    | Diverge \<Rightarrow> (Diverge, w))"

definition adapted :: "'n WebHandler \<Rightarrow> (WebRequest \<Rightarrow> web_state \<Rightarrow> (httperr + 'n WebComponent) \<times> web_state) \<Rightarrow>
    WebRequest \<Rightarrow> web_state \<Rightarrow> web_state handler_result" where
  "adapted wh fn r w = (case fn r w of
      (Inl err, w') \<Rightarrow> (Ok (Some err), w')
    | (Inr component, w') \<Rightarrow> render_result wh r component w')"

definition finish :: "(unit WebRequest_ext, unit web_state_ext) Handlers \<Rightarrow> string \<Rightarrow> (WebRequest \<Rightarrow> web_state \<Rightarrow> web_state handler_result) \<Rightarrow>
    WebRequest \<Rightarrow> web_state \<Rightarrow> unit outcome \<times> web_state" where
  "finish h contact f r w = (case f r w of
      (Ok err, w') \<Rightarrow> HTTPHandler_Adapt h contact (\<lambda>_ _. (err, w')) r w
    | (Panic p, w') \<Rightarrow> (Panic p, w')
    | (Diverge, w') \<Rightarrow> (Diverge, w')
    | (Err e, w') \<Rightarrow> (Err e, w'))"

section \<open>The error pages\<close>

text \<open>\<open>notification\<close> is the component that shows an error, \<open>missing\<close> the one that shows 404.\<close>

definition web_DefaultInternalHandler :: "(goerr \<Rightarrow> string) \<Rightarrow> (string \<Rightarrow> 'n Component) \<Rightarrow> WebRequest \<Rightarrow> InternalError \<Rightarrow> string \<Rightarrow>
    (web_state, 'n WebComponent option) go" where
  "web_DefaultInternalHandler err_text notification r err contact w =
     (Ok (Some (Part (notification (err_text (InternalError_External err) @ ''. please report this to: '' @ contact @ ''. request id: '' @ rq_id r)))),
      WriteHeader StatusInternalServerError w)"

definition web_DefaultRedirectHandler :: "WebRequest \<Rightarrow> RedirectError \<Rightarrow> string \<Rightarrow> (web_state, 'n WebComponent option) go" where
  "web_DefaultRedirectHandler r err contact w =
     (Ok None, if wq_hx r then w\<lparr>ws_hxLocation := re_url err\<rparr> else http_Redirect (re_url err) (re_status err) w)"

definition web_DefaultNotFoundHandler :: "'n Component \<Rightarrow> WebRequest \<Rightarrow> httperr \<Rightarrow> string \<Rightarrow> (web_state, 'n WebComponent option) go" where
  "web_DefaultNotFoundHandler missing r err contact w = (Ok (Some (Part missing)), WriteHeader StatusNotFound w)"

definition web_DefaultBadRequestHandler :: "(httperr \<Rightarrow> string) \<Rightarrow> (string \<Rightarrow> 'n Component) \<Rightarrow> WebRequest \<Rightarrow> httperr \<Rightarrow> string \<Rightarrow>
    (web_state, 'n WebComponent option) go" where
  "web_DefaultBadRequestHandler text notification r err contact w =
     (Ok (Some (Part (notification (text err @ ''. please report this to: '' @ contact @ ''. request id: '' @ rq_id r)))),
      WriteHeader StatusBadRequest w)"

definition web_DefaultGenericHandler :: "(httperr \<Rightarrow> string) \<Rightarrow> (string \<Rightarrow> 'n Component) \<Rightarrow> WebRequest \<Rightarrow> httperr \<Rightarrow> string \<Rightarrow>
    (web_state, 'n WebComponent option) go" where
  "web_DefaultGenericHandler text notification r err contact w =
     (Ok (Some (Part (notification (text err @ ''. please report this to: '' @ contact @ ''. request id: '' @ rq_id r)))),
      WriteHeader StatusBadRequest w)"

definition web_DefaultErrorHandlers :: "'n WebHandler \<Rightarrow> (goerr \<Rightarrow> string) \<Rightarrow> (httperr \<Rightarrow> string) \<Rightarrow> (string \<Rightarrow> 'n Component) \<Rightarrow> 'n Component \<Rightarrow>
    (unit WebRequest_ext, unit web_state_ext) Handlers" where
  "web_DefaultErrorHandlers wh err_text text notification missing =
     \<lparr>InternalHandler = wrapErrorHandler wh (web_DefaultInternalHandler err_text notification),
      RedirectHandler = wrapErrorHandler wh web_DefaultRedirectHandler,
      NotFoundHandler = wrapErrorHandler wh (web_DefaultNotFoundHandler missing),
      BadRequestHandler = wrapErrorHandler wh (web_DefaultBadRequestHandler text notification),
      GenericHandler = wrapErrorHandler wh (web_DefaultGenericHandler text notification)\<rparr>"

text \<open>
  The handlers that \<^verbatim>\<open>NewWebHandler\<close> builds over a renderer: that of the assets, and the adapter for
  handlers of pages.
\<close>

definition WebHandler_AdaptHTTP :: "(unit WebRequest_ext, unit web_state_ext) Handlers \<Rightarrow> string \<Rightarrow>
    (WebRequest \<Rightarrow> web_state \<Rightarrow> web_state handler_result) \<Rightarrow> WebRequest \<Rightarrow> web_state \<Rightarrow> unit outcome \<times> web_state" where
  "WebHandler_AdaptHTTP h contact fn = finish h contact fn"

definition WebHandler_Adapt :: "'n WebHandler \<Rightarrow> (unit WebRequest_ext, unit web_state_ext) Handlers \<Rightarrow> string \<Rightarrow>
    (WebRequest \<Rightarrow> web_state \<Rightarrow> (httperr + 'n WebComponent) \<times> web_state) \<Rightarrow> WebRequest \<Rightarrow> web_state \<Rightarrow> unit outcome \<times> web_state" where
  "WebHandler_Adapt wh h contact fn = finish h contact (adapted wh fn)"

definition AssetHandler :: "(unit WebRequest_ext, unit web_state_ext) Handlers \<Rightarrow> string \<Rightarrow> (string \<Rightarrow> nat outcome) \<Rightarrow>
    WebRequest \<Rightarrow> web_state \<Rightarrow> unit outcome \<times> web_state" where
  "AssetHandler h contact conn = finish h contact (ServeDependencies conn)"

end
