(* ===== verification/Http_Auth.thy ===== *)
theory Http_Auth
  imports Ldap_Client Web_Handler
begin

text \<open>
  Authentication of HTTP requests: credentials in the request and cookies with a signed token
  (\<^verbatim>\<open>lib/httpauth\<close>), and the pages that log a user in and out (\<^verbatim>\<open>lib/webauth\<close>).

  A request carries what \<^verbatim>\<open>net/http\<close> parsed of it, and the values its context was given. The state of
  a handler is the response together with the state of the directory client. The library of tokens
  is a parameter, as is what the \<^verbatim>\<open>select\<close> of the connection pool yields to a request; times are
  numbers of nanoseconds.
\<close>

section \<open>Requests and responses\<close>

record Auth =
  au_ExpiresAt :: "int option"
  au_Username :: string
  au_Admin :: bool

record AuthRequest = WebRequest +
  aq_method :: string
  aq_basic :: "(string \<times> string) option"
  aq_cookies :: "(string \<times> string) list"
  aq_form :: "(string \<times> string) list"
  aq_auth :: "Auth option"
  aq_basicErr :: "goerr option"

record Cookie =
  ck_Name :: string
  ck_Value :: string
  ck_Path :: string
  ck_Expires :: "int option"
  ck_Secure :: bool
  ck_HttpOnly :: bool
  ck_SameSiteStrict :: bool

record 'w auth_state = Response +
  as_wwwAuthenticate :: string
  as_cookies :: "Cookie list"
  as_ldap :: "'w ldap_state"

type_synonym 'w http_handler = "AuthRequest \<Rightarrow> ('w auth_state, unit) go"

definition StatusUnauthorized :: int where "StatusUnauthorized = 401"
definition StatusFound :: int where "StatusFound = 302"

definition http_StatusText :: "int \<Rightarrow> string" where
  "http_StatusText code = (if code = StatusUnauthorized then ''Unauthorized''
     else if code = StatusInternalServerError then ''Internal Server Error'' else [])"

definition http_Error :: "string \<Rightarrow> int \<Rightarrow> 'w Response_scheme \<Rightarrow> 'w Response_scheme" where
  "http_Error text code w = (let w' = WriteHeader code w in w'\<lparr>resp_body := resp_body w' @ text @ [CHR 0x0A]\<rparr>)"

definition http_SetCookie :: "Cookie \<Rightarrow> 'w auth_state \<Rightarrow> 'w auth_state" where
  "http_SetCookie c w = w\<lparr>as_cookies := as_cookies w @ [c]\<rparr>"

definition FormValue :: "AuthRequest \<Rightarrow> string \<Rightarrow> string" where
  "FormValue r key = (case map_of (aq_form r) key of None \<Rightarrow> [] | Some v \<Rightarrow> v)"

definition on_ldap :: "('w ldap_state, 'a) go \<Rightarrow> ('w auth_state, 'a) go" where
  "on_ldap m w = (let (r, s) = m (as_ldap w) in (r, w\<lparr>as_ldap := s\<rparr>))"

section \<open>httpauth.go\<close>

definition httpauth_ErrInvalidCredentials :: goerr where "httpauth_ErrInvalidCredentials = PlainError ''httpauth: invalid credentials''"

definition GetAuth :: "AuthRequest \<Rightarrow> Auth option" where
  "GetAuth r = aq_auth r"

definition MustGetAuth :: "AuthRequest \<Rightarrow> Auth outcome" where
  "MustGetAuth r = (case GetAuth r of None \<Rightarrow> Panic ''invalid memory address or nil pointer dereference'' | Some auth \<Rightarrow> Ok auth)"

definition authFromUser :: "User \<Rightarrow> int option \<Rightarrow> Auth" where
  "authFromUser user expiresAt = \<lparr>au_ExpiresAt = expiresAt, au_Username = us_Username user, au_Admin = us_Admin user\<rparr>"

definition authenticate :: "('c, 'w) ldap_lib \<Rightarrow> Factory \<Rightarrow> 'c selected list \<Rightarrow> string \<Rightarrow> string \<Rightarrow> ('w ldap_state, User) go" where
  "authenticate lib f received username password =
     go_bind (NewClient lib f received) (\<lambda>client.
     with_client lib client (\<lambda>s. case Client_Authenticate lib client username password s of
        (Err err, s') \<Rightarrow> (Err (if goerr_Is err ErrInvalidCredentials then httpauth_ErrInvalidCredentials else err), s')
      | r \<Rightarrow> r))"

section \<open>basic.go\<close>

definition GetBasicAuthErr :: "AuthRequest \<Rightarrow> goerr option" where
  "GetBasicAuthErr r = aq_basicErr r"

definition basic_challenge :: string where
  "basic_challenge = ''Basic realm=\"restricted\", charset=\"UTF-8\"''"

definition DefaultBasicAuthErrorHandler :: "(goerr \<Rightarrow> string) \<Rightarrow> 'w http_handler" where
  "DefaultBasicAuthErrorHandler text r w = (Ok (),
     case GetBasicAuthErr r of
       Some err \<Rightarrow> if goerr_Is err ErrInvalidCredentials
         then http_Error (text err) StatusUnauthorized (w\<lparr>as_wwwAuthenticate := basic_challenge\<rparr>)
         else http_Error (http_StatusText StatusInternalServerError) StatusInternalServerError w
     | None \<Rightarrow> http_Error (http_StatusText StatusInternalServerError) StatusInternalServerError w)"

definition BasicAuth_Middleware :: "('c, 'w) ldap_lib \<Rightarrow> Factory \<Rightarrow> 'w http_handler \<Rightarrow> 'c selected list \<Rightarrow> 'w http_handler \<Rightarrow> 'w http_handler" where
  "BasicAuth_Middleware lib f errorHandler received next r w = (case aq_basic r of
      Some (username, password) \<Rightarrow>
        if length username > 0 then
          (case on_ldap (authenticate lib f received username password) w of
             (Ok user, w') \<Rightarrow> next (r\<lparr>aq_auth := Some (authFromUser user None)\<rparr>) w'
           | (Err err, w') \<Rightarrow> errorHandler (r\<lparr>aq_basicErr := Some err\<rparr>) w'
           | (Panic p, w') \<Rightarrow> (Panic p, w')
           | (Diverge, w') \<Rightarrow> (Diverge, w'))
        else next r w
    | None \<Rightarrow> next r w)"

definition BasicAuth_Required :: "'w http_handler \<Rightarrow> 'w http_handler" where
  "BasicAuth_Required next r w = (case GetAuth r of
      None \<Rightarrow> (Ok (), http_Error (http_StatusText StatusUnauthorized) StatusUnauthorized (w\<lparr>as_wwwAuthenticate := basic_challenge\<rparr>))
    | Some _ \<Rightarrow> next r w)"

section \<open>jwt.go\<close>

definition cookieName :: string where "cookieName = ''teapot-auth''"

record jwtAuth =
  jc_ExpiresAt :: "int option"
  jc_IssuedAt :: "int option"
  jc_NotBefore :: "int option"
  jc_Issuer :: string
  jc_Subject :: string
  jc_Admin :: bool

text \<open>
  The library signs claims with a secret, and parses a token with a secret at a time, which fails
  when the signature or the times of the claims are not valid; \<^verbatim>\<open>jwt.NewNumericDate\<close> rounds a time.
\<close>

record jwt_lib =
  jl_SignedString :: "string \<Rightarrow> jwtAuth \<Rightarrow> string outcome"
  jl_ParseWithClaims :: "int \<Rightarrow> string \<Rightarrow> string \<Rightarrow> jwtAuth outcome"
  jl_NewNumericDate :: "int \<Rightarrow> int"

record JWTAuth =
  ja_secret :: string
  ja_issuer :: string
  ja_duration :: int
  ja_prefix :: string
  ja_secure :: bool

record JWTAuthConfig =
  jf_Secret :: string
  jf_Issuser :: string
  jf_Duration :: int
  jf_Prefix :: string
  jf_Secure :: bool

definition NewJWTAuth :: "JWTAuthConfig \<Rightarrow> JWTAuth" where
  "NewJWTAuth config = \<lparr>ja_secret = jf_Secret config, ja_issuer = jf_Issuser config, ja_duration = jf_Duration config,
     ja_prefix = jf_Prefix config, ja_secure = jf_Secure config\<rparr>"

definition authCookie :: "jwt_lib \<Rightarrow> JWTAuth \<Rightarrow> int \<Rightarrow> string \<Rightarrow> bool \<Rightarrow> Cookie outcome" where
  "authCookie jl ja now username admin =
     (let expiry = now + ja_duration ja;
          claims = \<lparr>jc_ExpiresAt = Some (jl_NewNumericDate jl expiry), jc_IssuedAt = Some (jl_NewNumericDate jl now),
            jc_NotBefore = Some (jl_NewNumericDate jl now), jc_Issuer = ja_issuer ja, jc_Subject = username, jc_Admin = admin\<rparr>
      in outcome_bind (outcome_wrap (''error while signing JWT for '' @ username) (jl_SignedString jl (ja_secret ja) claims)) (\<lambda>ss.
         Ok \<lparr>ck_Name = cookieName, ck_Value = ss, ck_Path = ja_prefix ja, ck_Expires = Some expiry, ck_Secure = ja_secure ja,
             ck_HttpOnly = True, ck_SameSiteStrict = True\<rparr>))"

definition checkAuthCookie :: "jwt_lib \<Rightarrow> JWTAuth \<Rightarrow> int \<Rightarrow> AuthRequest \<Rightarrow> jwtAuth option" where
  "checkAuthCookie jl ja now r = (case map_of (aq_cookies r) cookieName of
      None \<Rightarrow> None
    | Some cookie \<Rightarrow> if length cookie \<le> 0 then None
        else (case jl_ParseWithClaims jl now (ja_secret ja) cookie of Ok claims \<Rightarrow> Some claims | _ \<Rightarrow> None))"

text \<open>The address of a field of the missing expiry panics.\<close>

definition JWTAuth_Middleware :: "jwt_lib \<Rightarrow> JWTAuth \<Rightarrow> int \<Rightarrow> (AuthRequest \<Rightarrow> ('s, 'a) go) \<Rightarrow> AuthRequest \<Rightarrow> ('s, 'a) go" where
  "JWTAuth_Middleware jl ja now next r w = (case checkAuthCookie jl ja now r of
      Some claims \<Rightarrow> if jc_Issuer claims = ja_issuer ja
        then (case jc_ExpiresAt claims of
            None \<Rightarrow> (Panic ''invalid memory address or nil pointer dereference'', w)
          | Some t \<Rightarrow> next (r\<lparr>aq_auth := Some \<lparr>au_ExpiresAt = Some t, au_Username = jc_Subject claims, au_Admin = jc_Admin claims\<rparr>\<rparr>) w)
        else next r w
    | None \<Rightarrow> next r w)"

definition JWTAuth_Authenticate :: "('c, 'w) ldap_lib \<Rightarrow> Factory \<Rightarrow> 'c selected list \<Rightarrow> jwt_lib \<Rightarrow> JWTAuth \<Rightarrow> int \<Rightarrow> string \<Rightarrow> string \<Rightarrow>
    ('w ldap_state, Cookie \<times> Auth) go" where
  "JWTAuth_Authenticate lib f received jl ja now username password =
     go_bind (authenticate lib f received username password) (\<lambda>user.
     go_bind (go_wrap ''error while generating JWT cookie'' (lift (authCookie jl ja now (us_Username user) (us_Admin user)))) (\<lambda>cookie.
     ret (cookie, \<lparr>au_ExpiresAt = None, au_Username = us_Username user, au_Admin = us_Admin user\<rparr>)))"

definition DeAuthenticate :: "JWTAuth \<Rightarrow> Cookie" where
  "DeAuthenticate ja = \<lparr>ck_Name = cookieName, ck_Value = [], ck_Path = ja_prefix ja, ck_Expires = None, ck_Secure = ja_secure ja,
     ck_HttpOnly = True, ck_SameSiteStrict = True\<rparr>"

section \<open>Package webauth\<close>

definition webauth_ErrMissingCredentials :: goerr where "webauth_ErrMissingCredentials = PlainError ''webauth: missing credentials''"
definition webauth_ErrInvalidCredentials :: goerr where "webauth_ErrInvalidCredentials = PlainError ''webauth: invalid credentials''"

definition pagetitle_Title :: "string \<Rightarrow> string \<Rightarrow> string" where
  "pagetitle_Title page app = page @ [CHR 0x20, CHR 0xE2, CHR 0x80, CHR 0x94, CHR 0x20] @ app"

record WebAuth =
  wa_auth :: JWTAuth
  wa_loginPath :: string
  wa_logoutPath :: string
  wa_returnPath :: "Auth \<Rightarrow> string"
  wa_app :: string

definition ConstantPath :: "string \<Rightarrow> Auth \<Rightarrow> string" where
  "ConstantPath path auth = path"

record WebAuthOptions =
  wo_LoginPath :: string
  wo_LogoutPath :: string
  wo_ReturnPath :: "Auth \<Rightarrow> string"
  wo_App :: string

definition NewWebAuth :: "(string \<Rightarrow> unit outcome) \<Rightarrow> JWTAuthConfig \<Rightarrow> string \<Rightarrow> WebAuthOptions \<Rightarrow> WebAuth outcome" where
  "NewWebAuth url_Parse jwt resetPasswordURL options =
     outcome_bind (outcome_wrap (''error while parsing reset password URL '' @ resetPasswordURL) (url_Parse resetPasswordURL)) (\<lambda>_.
     Ok \<lparr>wa_auth = NewJWTAuth jwt, wa_loginPath = wo_LoginPath options, wa_logoutPath = wo_LogoutPath options,
         wa_returnPath = wo_ReturnPath options, wa_app = wo_App options\<rparr>)"

text \<open>
  A handler of pages gives an error or a description of what is rendered: the notification of an
  error, a part of a page, or a page with its title, its description and what is shown.
\<close>

datatype 'p shown = Notification goerr | PartOf 'p | PageOf string string 'p

type_synonym ('w, 'p) page_handler = "AuthRequest \<Rightarrow> 'w auth_state \<Rightarrow> (httperr + 'p shown) outcome \<times> 'w auth_state"

definition invalid_method :: "AuthRequest \<Rightarrow> httperr" where
  "invalid_method r = Other (Wrapped (''invalid method '' @ aq_method r) ErrBadRequest)"

definition redirect_to :: "string \<Rightarrow> httperr" where
  "redirect_to url = Redirect (NewRedirectError url StatusFound)"

datatype login_page = LoginForm string

definition Login_post :: "('c, 'w) ldap_lib \<Rightarrow> Factory \<Rightarrow> 'c selected list \<Rightarrow> jwt_lib \<Rightarrow> WebAuth \<Rightarrow> int \<Rightarrow> ('w, login_page) page_handler" where
  "Login_post lib f received jl wa now r w =
     (let username = FormValue r ''username''; password = FormValue r ''password'' in
      if username = [] \<or> password = [] then (Ok (Inr (Notification webauth_ErrMissingCredentials)), WriteHeader StatusUnauthorized w)
      else (case on_ldap (JWTAuth_Authenticate lib f received jl (wa_auth wa) now username password) w of
          (Ok (cookie, auth), w') \<Rightarrow> (Ok (Inl (redirect_to (wa_returnPath wa auth))), http_SetCookie cookie w')
        | (Err err, w') \<Rightarrow> if goerr_Is err httpauth_ErrInvalidCredentials
            then (Ok (Inr (Notification webauth_ErrInvalidCredentials)), WriteHeader StatusUnauthorized w')
            else (Ok (Inl (Internal (NewInternalError err None))), w')
        | (Panic p, w') \<Rightarrow> (Panic p, w')
        | (Diverge, w') \<Rightarrow> (Diverge, w')))"

definition WebAuth_Login :: "('c, 'w) ldap_lib \<Rightarrow> Factory \<Rightarrow> 'c selected list \<Rightarrow> jwt_lib \<Rightarrow> WebAuth \<Rightarrow> int \<Rightarrow> ('w, login_page) page_handler" where
  "WebAuth_Login lib f received jl wa now r w =
     (if aq_method r = ''POST'' then Login_post lib f received jl wa now r w
      else if aq_method r = ''GET'' then
        (case GetAuth r of
           Some auth \<Rightarrow> (Ok (Inl (redirect_to (wa_returnPath wa auth))), w)
         | None \<Rightarrow> (Ok (Inr (PageOf (pagetitle_Title ''Login'' (wa_app wa)) (''Authenticate with your account to access '' @ wa_app wa)
             (LoginForm (wa_loginPath wa)))), w))
      else (Ok (Inl (invalid_method r)), w))"

definition WebAuth_Logout :: "WebAuth \<Rightarrow> ('w, 'p) page_handler" where
  "WebAuth_Logout wa r w =
     (if aq_method r = ''GET'' then
        (Ok (Inl (redirect_to (wa_loginPath wa))), if GetAuth r \<noteq> None then http_SetCookie (DeAuthenticate (wa_auth wa)) w else w)
      else (Ok (Inl (invalid_method r)), w))"

section \<open>What a successful authentication means\<close>

text \<open>
  The directory accepts a password for a user when the search for the user gives one entry, which
  carries the name, and a bind as this entry with the password succeeds on the same connection.
\<close>

definition user_search :: "('c, 'w) ldap_lib \<Rightarrow> Factory \<Rightarrow> string \<Rightarrow> SearchRequest" where
  "user_search lib f flt = \<lparr>sr_BaseDN = ft_usersDN f, sr_Scope = ScopeWholeSubtree, sr_DerefAliases = NeverDerefAliases,
     sr_SizeLimit = 0, sr_TimeLimit = 0, sr_TypesOnly = False, sr_Filter = flt, sr_Attributes = [],
     sr_Controls = TraceControlsFromContext (ll_Inject lib)\<rparr>"

definition user_bind :: "('c, 'w) ldap_lib \<Rightarrow> Entry \<Rightarrow> string \<Rightarrow> SimpleBindRequest" where
  "user_bind lib entry password = \<lparr>br_Username = en_DN entry, br_Password = password, br_AllowEmptyPassword = False,
     br_Controls = TraceControlsFromContext (ll_Inject lib)\<rparr>"

definition accepted :: "('c, 'w) ldap_lib \<Rightarrow> Factory \<Rightarrow> string \<Rightarrow> string \<Rightarrow> Entry \<Rightarrow> bool" where
  "accepted lib f username password entry \<longleftrightarrow> ll_GetAttributeValue lib entry ''cn'' = username \<and>
     (\<exists>conn flt w. ll_execute lib (ft_usersFilter f) \<lparr>fv_Username = username\<rparr> = Ok flt \<and>
        fst (ll_Search lib conn (user_search lib f flt) w) = Ok [entry] \<and>
        fst (ll_SimpleBind lib conn (user_bind lib entry password) (snd (ll_Search lib conn (user_search lib f flt) w))) = Ok ())"

definition client_of :: "Factory \<Rightarrow> 'c \<Rightarrow> 'c Client" where
  "client_of f conn = \<lparr>cl_conn = conn, cl_usersDN = ft_usersDN f, cl_usersFilter = ft_usersFilter f, cl_groupsDN = ft_groupsDN f,
     cl_adminGroupDN = ft_adminGroupDN f, cl_accessesDN = ft_accessesDN f\<rparr>"

lemma NewClient_Ok:
  assumes "NewClient lib f received s = (Ok c, s')"
  shows "\<exists>conn. c = client_of f conn"
  using assms by (auto simp: NewClient_def client_of_def split_beta Let_def go_bind_def split: prod.splits outcome.splits)

lemma find_entry_Ok:
  assumes "find_entry lib (client_of f conn) username s = (Ok entry, s')"
  shows "\<exists>flt. ll_execute lib (ft_usersFilter f) \<lparr>fv_Username = username\<rparr> = Ok flt \<and>
    ll_Search lib conn (user_search lib f flt) (ls_world s) = (Ok [entry], ls_world s') \<and> ll_GetAttributeValue lib entry ''cn'' = username"
proof -
  from assms obtain flt entries s1 where flt: "ll_execute lib (ft_usersFilter f) \<lparr>fv_Username = username\<rparr> = Ok flt"
    and search: "ldap_search lib conn (users_request (client_of f conn) flt) s = (Ok entries, s1)"
    and rest: "(if length entries = 0 then throw ErrUserNotFound else if length entries > 1 then throw ErrTooManyMatches
       else let entry = entries ! 0; cn = ll_GetAttributeValue lib entry ''cn'' in
         if username \<noteq> cn then throw (Wrapped (''expected '' @ username @ '' for username, but got '' @ cn) ErrNotMatchingUsername)
         else ret entry) s1 = (Ok entry, s')"
    by (auto simp: find_entry_def client_of_def go_bind_eq_Ok TMPL_Render_def outcome_wrap_def split: outcome.splits)
  have "entries = [entries ! 0]" if "entries \<noteq> []" "\<not> length entries > 1" using that by (cases entries) auto
  with rest have "entries = [entry]" "s1 = s'" "ll_GetAttributeValue lib entry ''cn'' = username"
    by (auto simp: Let_def split: if_splits)
  moreover have "(users_request (client_of f conn) flt)\<lparr>sr_Controls := sr_Controls (users_request (client_of f conn) flt) @ TraceControlsFromContext (ll_Inject lib)\<rparr> =
      user_search lib f flt"
    by (simp add: users_request_def client_of_def user_search_def)
  ultimately show ?thesis using flt search
    by (auto simp: ldap_search_def observed_def on_world_def split_beta Let_def intro: prod_eqI)
qed

lemma Client_Authenticate_Ok:
  assumes "Client_Authenticate lib (client_of f conn) username password s = (Ok user, s')"
  shows "\<exists>entry. accepted lib f username password entry \<and> mapUser lib (client_of f conn) entry = Ok user"
proof -
  from assms obtain entry s1 where find: "find_entry lib (client_of f conn) username s = (Ok entry, s1)"
    and bind: "go_bind (bind_user lib (client_of f conn) entry password) (\<lambda>_. lift (mapUser lib (client_of f conn) entry)) s1 = (Ok user, s')"
    by (auto simp: Client_Authenticate_def go_bind_eq_Ok on_error_def split_beta Let_def split: if_splits intro: prod_eqI) (metis prod.collapse)+
  from bind have "fst (ldap_bind lib conn (en_DN entry) password s1) = Ok ()" "mapUser lib (client_of f conn) entry = Ok user"
    by (auto simp: go_bind_eq_Ok bind_user_def client_of_def split: prod.splits outcome.splits)
  moreover obtain flt where "ll_execute lib (ft_usersFilter f) \<lparr>fv_Username = username\<rparr> = Ok flt"
    "ll_Search lib conn (user_search lib f flt) (ls_world s) = (Ok [entry], ls_world s1)" "ll_GetAttributeValue lib entry ''cn'' = username"
    using find_entry_Ok [OF find] by blast
  ultimately have "accepted lib f username password entry"
    unfolding accepted_def by (intro conjI exI [of _ conn] exI [of _ flt] exI [of _ "ls_world s"]) (simp_all add: ldap_bind_def user_bind_def)
  then show ?thesis using \<open>mapUser lib (client_of f conn) entry = Ok user\<close> by blast
qed

lemma mapUser_Ok:
  "mapUser lib c entry = Ok user \<Longrightarrow> us_Username user = ll_GetAttributeValue lib entry ''cn'' \<and> us_DN user = en_DN entry \<and>
     (us_Admin user \<longleftrightarrow> cl_adminGroupDN c \<in> set (ll_GetAttributeValues lib entry ''memberof''))"
  by (auto simp: mapUser_def Let_def outcome_bind_def outcome_wrap_def split: outcome.splits)

lemma authenticate_Ok:
  assumes "authenticate lib f received username password s = (Ok user, s')"
  shows "us_Username user = username \<and> (\<exists>entry. accepted lib f username password entry \<and> us_DN user = en_DN entry \<and>
    (us_Admin user \<longleftrightarrow> ft_adminGroupDN f \<in> set (ll_GetAttributeValues lib entry ''memberof'')))"
proof -
  from assms obtain c s1 where c: "NewClient lib f received s = (Ok c, s1)"
    and m: "with_client lib c (\<lambda>s. case Client_Authenticate lib c username password s of
        (Err err, s') \<Rightarrow> (Err (if goerr_Is err ErrInvalidCredentials then httpauth_ErrInvalidCredentials else err), s') | r \<Rightarrow> r) s1 = (Ok user, s')"
    unfolding authenticate_def go_bind_eq_Ok by blast
  obtain conn where conn: "c = client_of f conn" using NewClient_Ok [OF c] by blast
  from m have "fst (Client_Authenticate lib c username password (open_client s1)) = Ok user"
    by (cases "Client_Authenticate lib c username password (open_client s1)") (auto simp: with_client_def Let_def split: outcome.splits)
  then obtain s2 where "Client_Authenticate lib (client_of f conn) username password (open_client s1) = (Ok user, s2)"
    by (metis conn prod.collapse)
  from Client_Authenticate_Ok [OF this] obtain entry where "accepted lib f username password entry" "mapUser lib (client_of f conn) entry = Ok user" by blast
  then show ?thesis using mapUser_Ok [of lib "client_of f conn" entry user] by (auto simp: accepted_def client_of_def)
qed

text \<open>A failing bind is reported as invalid credentials of the package, and as nothing else.\<close>

lemma authenticate_bind_fails:
  assumes "NewClient lib f received s = (Ok c, s1)" "find_entry lib c username (open_client s1) = (Ok entry, s2)"
    "ldap_bind lib (cl_conn c) (en_DN entry) password s2 = (Err e, s3)"
  shows "fst (authenticate lib f received username password s) = Err httpauth_ErrInvalidCredentials"
proof -
  have "Client_Authenticate lib c username password (open_client s1) =
      (Err (Wrapped (''error while binding as '' @ en_DN entry) (Joined e ErrInvalidCredentials)), s3)"
    using assms(2,3) by (simp add: Client_Authenticate_def go_bind_def go_wrap_def on_error_def bind_user_def)
  then show ?thesis using assms(1) by (simp add: authenticate_def go_bind_def with_client_def ErrInvalidCredentials_def)
qed

text \<open>A user that is not found is no invalid credential: the error is passed on as it is.\<close>

lemma authenticate_not_found:
  assumes "NewClient lib f received s = (Ok c, s1)" "find_entry lib c username (open_client s1) = (Err e, s2)"
    "\<not> goerr_Is e ErrInvalidCredentials"
  shows "fst (authenticate lib f received username password s) = Err (Wrapped ''error while looking up user for bind'' e)"
proof -
  have "fst (Client_Authenticate lib c username password (open_client s1)) = Err (Wrapped ''error while looking up user for bind'' e)"
    using assms(2) by (simp add: Client_Authenticate_def go_bind_def go_wrap_def on_error_def)
  then obtain s3 where "Client_Authenticate lib c username password (open_client s1) = (Err (Wrapped ''error while looking up user for bind'' e), s3)"
    by (metis prod.collapse)
  then show ?thesis using assms(1,3) by (simp add: authenticate_def go_bind_def with_client_def ErrInvalidCredentials_def)
qed

section \<open>Counting clients\<close>

text \<open>Every attempt to make a client is counted once: as active, or with its status.\<close>

definition counters :: "('w, 'z) ldap_state_scheme \<Rightarrow> 32 word \<times> int \<times> nat \<times> nat" where
  "counters s = (ls_clients s, ls_active s, ls_success s, ls_error s)"

definition balanced :: "('w, 'z) ldap_state_scheme \<Rightarrow> bool" where
  "balanced s \<longleftrightarrow> ls_clients s = word_of_int (ls_active s + int (ls_success s) + int (ls_error s))"

definition keeps_counters :: "(('w, 'z) ldap_state_scheme, 'a) go \<Rightarrow> bool" where
  "keeps_counters m \<longleftrightarrow> (\<forall>s. counters (snd (m s)) = counters s)"

named_theorems counter_rules

lemma keeps_counters_basic [counter_rules]:
  "keeps_counters (lift r)" "keeps_counters (ret x)" "keeps_counters (throw e)" "keeps_counters (observed op m)" "keeps_counters (on_world m')"
  by (simp_all add: keeps_counters_def counters_def observed_def on_world_def split_beta Let_def)

lemma keeps_counters_bind [counter_rules]:
  "keeps_counters m \<Longrightarrow> (\<And>x. keeps_counters (g x)) \<Longrightarrow> keeps_counters (go_bind m g)"
  by (simp add: keeps_counters_def go_bind_split split: outcome.splits)

lemma keeps_counters_wrap [counter_rules]: "keeps_counters m \<Longrightarrow> keeps_counters (go_wrap c m)"
  by (simp add: keeps_counters_def go_wrap_split)

lemma keeps_counters_if [counter_rules]: "keeps_counters m \<Longrightarrow> keeps_counters m' \<Longrightarrow> keeps_counters (if b then m else m')"
  by simp

lemma keeps_counters_let [counter_rules]: "(\<And>x. keeps_counters (g x)) \<Longrightarrow> keeps_counters (Let v g)"
  by simp

lemma keeps_counters_on_error [counter_rules]: "keeps_counters m \<Longrightarrow> keeps_counters (on_error mark_errored m)"
  by (simp add: keeps_counters_def on_error_def split_beta Let_def mark_errored_def counters_def)

lemma keeps_counters_find [counter_rules]: "keeps_counters (find_entry lib c username)" "keeps_counters (list_entries lib c)"
  unfolding find_entry_def list_entries_def ldap_search_def by (intro counter_rules)+

lemma keeps_counters_bind_user [counter_rules]: "keeps_counters (bind_user lib c entry password)"
  by (auto simp: keeps_counters_def bind_user_def counters_def ldap_bind_def split_beta observed_def on_world_def Let_def split: prod.splits outcome.splits)

lemma keeps_counters_clients [counter_rules]:
  "keeps_counters (Client_Authenticate lib c username password)" "keeps_counters (Client_User lib c username)"
  "keeps_counters (Client_Users lib c)" "keeps_counters (Client_Passwd lib c username password)"
  unfolding Client_Authenticate_def Client_User_def Client_Users_def Client_Passwd_def ldap_passwd_def by (intro counter_rules)+

lemma with_client_balanced:
  assumes "keeps_counters m" "balanced s"
  shows "balanced (snd (with_client lib c m s)) \<and> ls_active (snd (with_client lib c m s)) = ls_active s - 1"
proof -
  let ?s = "snd (m (open_client s))"
  have "counters ?s = counters s" using assms(1) by (simp add: keeps_counters_def counters_def open_client_def ldap_state.defs client_state.defs)
  then show ?thesis using assms(2)
    by (auto simp: with_client_def Client_Close_def split_beta Let_def on_world_def balanced_def counters_def ldap_state.defs)
qed

lemma NewClient_balanced:
  fixes lib :: "('c, 'w) ldap_lib"
  assumes "balanced s"
  shows "balanced (snd (NewClient lib f received s)) \<and>
    ls_active (snd (NewClient lib f received s)) = ls_active s + (if is_Err (fst (NewClient lib f received s)) then 0 else 1)"
proof -
  let ?m = "go_bind (go_wrap ''could not enstablish a connection to the LDAP server'' (on_world (pool_get lib (ft_base f) received))) (\<lambda>conn.
          go_bind (go_wrap ''error while binding as root'' (ldap_bind lib conn (ft_rootDN f) (ft_rootPasswd f))) (\<lambda>_.
          ret \<lparr>cl_conn = conn, cl_usersDN = ft_usersDN f, cl_usersFilter = ft_usersFilter f, cl_groupsDN = ft_groupsDN f,
            cl_adminGroupDN = ft_adminGroupDN f, cl_accessesDN = ft_accessesDN f\<rparr>)) :: ('w ldap_state, 'c Client) go"
  have "keeps_counters ?m" unfolding ldap_bind_def by (intro counter_rules)
  then have "counters (snd (?m s)) = counters s" by (simp add: keeps_counters_def)
  then show ?thesis using assms
    by (auto simp: NewClient_def split_beta Let_def counted_def balanced_def counters_def add.commute add.left_commute)
qed

end
