(* ===== verification/Kontakte.thy ===== *)
theory Kontakte
  imports Http_Auth
begin

text \<open>
  The pages of \<^verbatim>\<open>service/kontakte\<close>, where users see their entry of the directory and change their
  password: the handlers, the routes and the middleware before them. What a page shows is described by
  a value; its HTML is not modelled.
\<close>

section \<open>Paths\<close>

definition App :: string where "App = ''Teapot Kontakte''"
definition PathLogin :: string where "PathLogin = ''/login''"
definition PathLogout :: string where "PathLogout = ''/logout''"
definition PathIndex :: string where "PathIndex = ''/''"
definition PathUsers :: string where "PathUsers = ''/users''"

definition PathUser :: "string \<Rightarrow> string" where
  "PathUser username = filepath_Join [PathUsers, username]"

definition PathPasswd :: "string \<Rightarrow> string" where
  "PathPasswd username = filepath_Join [PathUsers, username, ''passwd'']"

section \<open>Handlers\<close>

datatype kontakte_page =
    LoginPage login_page
  | PasswdForm string bool
  | PasswdDone string string
  | UserPage User
  | UsersPage "User list"
  | AssetFile string

definition ErrMismatchedPasswords :: goerr where "ErrMismatchedPasswords = PlainError ''kontakte: passwords do not match''"

definition canViewUser :: "Auth option \<Rightarrow> string \<Rightarrow> bool" where
  "canViewUser auth username \<longleftrightarrow> (case auth of None \<Rightarrow> False | Some a \<Rightarrow> au_Username a = username \<or> au_Admin a)"

definition Kontakte_Index :: "('w, kontakte_page) page_handler" where
  "Kontakte_Index r w = (Ok (Inl (redirect_to (case GetAuth r of Some auth \<Rightarrow> PathUser (au_Username auth) | None \<Rightarrow> PathLogin))), w)"

definition Kontakte_NotFound :: "('w, kontakte_page) page_handler" where
  "Kontakte_NotFound r w = (if wq_path r = PathIndex then Kontakte_Index r w else (Ok (Inl (Other ErrNotFound)), w))"

text \<open>A client for the length of a handler: an error of making it is internal.\<close>

definition handle_with_client :: "('c, 'w) ldap_lib \<Rightarrow> Factory \<Rightarrow> 'c selected list \<Rightarrow> ('c Client \<Rightarrow> ('w client_state, 'a) go) \<Rightarrow>
    ('a outcome \<Rightarrow> 'w auth_state \<Rightarrow> (httperr + 'p shown) outcome \<times> 'w auth_state) \<Rightarrow> 'w auth_state \<Rightarrow> (httperr + 'p shown) outcome \<times> 'w auth_state" where
  "handle_with_client lib f received m k w = (case on_ldap (NewClient lib f received) w of
      (Ok client, w') \<Rightarrow> (let (r, w'') = on_ldap (with_client lib client (m client)) w' in k r w'')
    | (Err err, w') \<Rightarrow> (Ok (Inl (Internal (NewInternalError err None))), w')
    | (Panic p, w') \<Rightarrow> (Panic p, w')
    | (Diverge, w') \<Rightarrow> (Diverge, w'))"

definition Passwd_post :: "('c, 'w) ldap_lib \<Rightarrow> Factory \<Rightarrow> 'c selected list \<Rightarrow> string \<Rightarrow> Auth \<Rightarrow> ('w, kontakte_page) page_handler" where
  "Passwd_post lib f received username auth r w =
     (let password = FormValue r ''password''; repeatPassword = FormValue r ''repeat-password'' in
      if password = [] \<or> repeatPassword = [] then
        (Ok (Inr (Notification (Wrapped ''invalid passwd request'' webauth_ErrMissingCredentials))), WriteHeader StatusBadRequest w)
      else if password \<noteq> repeatPassword then
        (Ok (Inr (Notification (Wrapped ''invalid passwd request'' ErrMismatchedPasswords))), WriteHeader StatusBadRequest w)
      else if au_Username auth \<noteq> username \<and> \<not> au_Admin auth then
        (Ok (Inr (Notification (Wrapped ''not authorized to perform password update'' ErrBadRequest))), WriteHeader StatusUnauthorized w)
      else handle_with_client lib f received (\<lambda>client. Client_Passwd lib client username password) (\<lambda>res w'. case res of
          Ok _ \<Rightarrow> (Ok (Inr (PartOf (PasswdDone username ''The password has been updated successfully.''))), WriteHeader StatusOK w')
        | Err err \<Rightarrow> (Ok (Inr (Notification (Wrapped ''error while performing LDAP passwd'' err))), WriteHeader StatusUnauthorized w')
        | Panic p \<Rightarrow> (Panic p, w')
        | Diverge \<Rightarrow> (Diverge, w')) w)"

definition Kontakte_Passwd :: "('c, 'w) ldap_lib \<Rightarrow> Factory \<Rightarrow> 'c selected list \<Rightarrow> string \<Rightarrow> ('w, kontakte_page) page_handler" where
  "Kontakte_Passwd lib f received username r w =
     (if \<not> canViewUser (GetAuth r) username then (Ok (Inl (redirect_to PathIndex)), w)
      else let auth = the (GetAuth r) in
        if aq_method r = ''GET'' then
          (Ok (Inr (PageOf (pagetitle_Title (''Change the password for '' @ username) App)
             (''Change the password associated with the user '' @ username @ '' in the LDAP directory'')
             (PasswdForm username (au_Admin auth \<and> au_Username auth \<noteq> username)))), w)
        else if aq_method r = ''POST'' then Passwd_post lib f received username auth r w
        else (Ok (Inl (invalid_method r)), w))"

definition Kontakte_User :: "('c, 'w) ldap_lib \<Rightarrow> Factory \<Rightarrow> 'c selected list \<Rightarrow> string \<Rightarrow> ('w, kontakte_page) page_handler" where
  "Kontakte_User lib f received username r w =
     (if \<not> canViewUser (GetAuth r) username then (Ok (Inl (redirect_to PathIndex)), w)
      else if aq_method r = ''GET'' then
        handle_with_client lib f received (\<lambda>client. Client_User lib client username) (\<lambda>res w'. case res of
            Ok user \<Rightarrow> (Ok (Inr (PageOf (pagetitle_Title (username @ [CHR 0x27] @ ''s profile'') App)
               (''View the details of the user: '' @ username @ '' as stored in LDAP'') (UserPage user))), w')
          | Err err \<Rightarrow> (Ok (Inl (Internal (NewInternalError (Wrapped (''error while fetching user '' @ username @ '' from LDAP'') err) None))), w')
          | Panic p \<Rightarrow> (Panic p, w')
          | Diverge \<Rightarrow> (Diverge, w')) w
      else (Ok (Inl (invalid_method r)), w))"

definition Kontakte_Users :: "('c, 'w) ldap_lib \<Rightarrow> Factory \<Rightarrow> 'c selected list \<Rightarrow> ('w, kontakte_page) page_handler" where
  "Kontakte_Users lib f received r w =
     (if (case GetAuth r of None \<Rightarrow> True | Some auth \<Rightarrow> \<not> au_Admin auth) then (Ok (Inl (redirect_to PathIndex)), w)
      else if aq_method r = ''GET'' then
        handle_with_client lib f received (\<lambda>client. Client_Users lib client) (\<lambda>res w'. case res of
            Ok users \<Rightarrow> (Ok (Inr (PageOf (pagetitle_Title ''Browse all users'' App)
               ''Browse all users stored in the LDAP directory'' (UsersPage users))), w')
          | Err err \<Rightarrow> (Ok (Inl (Internal (NewInternalError (Wrapped ''error while enumerating users from LDAP'' err) None))), w')
          | Panic p \<Rightarrow> (Panic p, w')
          | Diverge \<Rightarrow> (Diverge, w')) w
      else (Ok (Inl (invalid_method r)), w))"

section \<open>Routes\<close>

text \<open>
  The patterns of the multiplexer over a clean path; a wildcard matches one element that is not empty.
\<close>

datatype route = RAsset | RLogin | RLogout | RUsers | RUser string | RPasswd string | ROther

definition kontakte_route :: "string \<Rightarrow> string \<Rightarrow> route" where
  "kontakte_route assetPath path =
     (if strings_HasPrefix path assetPath then RAsset
      else if path = PathLogin then RLogin
      else if path = PathLogout then RLogout
      else if path = PathUsers then RUsers
      else case strings_Split path (CHR ''/'') of
          [a, b, username] \<Rightarrow> if a = [] \<and> b = ''users'' \<and> username \<noteq> [] then RUser username else ROther
        | [a, b, username, c] \<Rightarrow> if a = [] \<and> b = ''users'' \<and> username \<noteq> [] \<and> c = ''passwd'' then RPasswd username else ROther
        | _ \<Rightarrow> ROther)"

definition login_shown :: "(httperr + login_page shown) outcome \<times> 'w auth_state \<Rightarrow> (httperr + kontakte_page shown) outcome \<times> 'w auth_state" where
  "login_shown = (\<lambda>(res, w). (case res of
      Ok (Inl e) \<Rightarrow> Ok (Inl e)
    | Ok (Inr s) \<Rightarrow> Ok (Inr (map_shown LoginPage s))
    | Err e \<Rightarrow> Err e | Panic p \<Rightarrow> Panic p | Diverge \<Rightarrow> Diverge, w))"

definition kontakte_dispatch :: "('c, 'w) ldap_lib \<Rightarrow> Factory \<Rightarrow> 'c selected list \<Rightarrow> jwt_lib \<Rightarrow> WebAuth \<Rightarrow> int \<Rightarrow> string \<Rightarrow> ('w, kontakte_page) page_handler" where
  "kontakte_dispatch lib f received jl wa now assetPath r w = (case kontakte_route assetPath (wq_path r) of
      RAsset \<Rightarrow> (Ok (Inr (PartOf (AssetFile (wq_path r)))), w)
    | RLogin \<Rightarrow> login_shown (WebAuth_Login lib f received jl wa now r w)
    | RLogout \<Rightarrow> WebAuth_Logout wa r w
    | RUsers \<Rightarrow> Kontakte_Users lib f received r w
    | RUser username \<Rightarrow> Kontakte_User lib f received username r w
    | RPasswd username \<Rightarrow> Kontakte_Passwd lib f received username r w
    | ROther \<Rightarrow> Kontakte_NotFound r w)"

definition Kontakte_Handler :: "('c, 'w) ldap_lib \<Rightarrow> Factory \<Rightarrow> 'c selected list \<Rightarrow> jwt_lib \<Rightarrow> WebAuth \<Rightarrow> int \<Rightarrow> string \<Rightarrow> ('w, kontakte_page) page_handler" where
  "Kontakte_Handler lib f received jl wa now assetPath =
     JWTAuth_Middleware jl (wa_auth wa) now (kontakte_dispatch lib f received jl wa now assetPath)"

definition kontakte_options :: WebAuthOptions where
  "kontakte_options = \<lparr>wo_LoginPath = PathLogin, wo_LogoutPath = PathLogout, wo_ReturnPath = (\<lambda>auth. PathUser (au_Username auth)), wo_App = App\<rparr>"

end
