(* ===== verification/Auth_Example.thy ===== *)
theory Auth_Example
  imports Kontakte
begin

text \<open>
  The properties of authentication: which requests reach a protected handler, what a cookie is worth,
  and which requests to \<^verbatim>\<open>kontakte\<close> use the directory. They hold for every directory and every library
  of tokens; a small directory and a token library that writes the claims down show that their
  hypotheses can be met.
\<close>

section \<open>Credentials in the request\<close>

text \<open>A handler behind the two middlewares of the \<^verbatim>\<open>calendar\<close> and \<^verbatim>\<open>files\<close> services.\<close>

definition protected :: "('c, 'w) ldap_lib \<Rightarrow> Factory \<Rightarrow> (goerr \<Rightarrow> string) \<Rightarrow> 'c selected list \<Rightarrow> 'w http_handler \<Rightarrow> 'w http_handler" where
  "protected lib f text received next =
     BasicAuth_Middleware lib f (DefaultBasicAuthErrorHandler text) received (BasicAuth_Required next)"

lemma http_Error_status [simp]:
  "resp_status (http_Error t code w) = (case resp_status w of None \<Rightarrow> Some code | Some s \<Rightarrow> Some s)"
  by (simp add: http_Error_def Let_def)

lemma http_Error_auth [simp]:
  "as_wwwAuthenticate (http_Error t code w) = as_wwwAuthenticate w" "as_ldap (http_Error t code w) = as_ldap w"
  by (simp_all add: http_Error_def Let_def WriteHeader_def split: option.splits)

lemma on_ldap_status [simp]: "resp_status (snd (on_ldap m w)) = resp_status w"
  by (simp add: on_ldap_def split_beta Let_def)

lemma on_ldap_Ok: "on_ldap m w = (Ok a, w') \<longleftrightarrow> (\<exists>s. m (as_ldap w) = (Ok a, s) \<and> w' = w\<lparr>as_ldap := s\<rparr>)"
  by (cases "m (as_ldap w)") (auto simp: on_ldap_def)

text \<open>
  C31. Access with credentials. Whatever the directory does, a request to a protected handler has one
  of these ends: it carries a user name and a password, the directory has one entry with that name
  and accepts the password for it, and the handler is called with the name and with the admin flag
  that the groups of the entry give; it is answered with 401 and a challenge, or with 500, and the
  handler is not called; or the client library panics or does not return.
\<close>

theorem basic_auth_gate:
  assumes "aq_auth r = None" "resp_status w = None"
  shows "(\<exists>u p entry w'. aq_basic r = Some (u, p) \<and> u \<noteq> [] \<and> accepted lib f u p entry \<and>
       (\<forall>next. protected lib f text received next r w =
         next (r\<lparr>aq_auth := Some \<lparr>au_ExpiresAt = None, au_Username = u,
           au_Admin = (ft_adminGroupDN f \<in> set (ll_GetAttributeValues lib entry ''memberof''))\<rparr>\<rparr>) w')) \<or>
    (\<exists>w'. (\<forall>next. protected lib f text received next r w = (Ok (), w')) \<and>
       (resp_status w' = Some 401 \<and> as_wwwAuthenticate w' = basic_challenge \<or> resp_status w' = Some 500)) \<or>
    (\<exists>p w'. \<forall>next. protected lib f text received next r w = (Panic p, w')) \<or>
    (\<exists>w'. \<forall>next. protected lib f text received next r w = (Diverge, w'))"
proof (cases "\<exists>u p. aq_basic r = Some (u, p) \<and> u \<noteq> []")
  case False
  then have "protected lib f text received next r w =
      (Ok (), http_Error (http_StatusText StatusUnauthorized) StatusUnauthorized (w\<lparr>as_wwwAuthenticate := basic_challenge\<rparr>))" for "next"
    using assms(1) by (auto simp: protected_def BasicAuth_Middleware_def BasicAuth_Required_def GetAuth_def split: option.splits)
  then show ?thesis using assms(2) by (simp add: StatusUnauthorized_def)
next
  case True
  then obtain u p where u: "aq_basic r = Some (u, p)" "u \<noteq> []" by blast
  obtain res w' where res: "on_ldap (authenticate lib f received u p) w = (res, w')" by force
  then have status: "resp_status w' = None" using assms(2) by (metis on_ldap_status snd_conv)
  show ?thesis
  proof (cases res)
    case (Ok user)
    then obtain s where "authenticate lib f received u p (as_ldap w) = (Ok user, s)" using res by (auto simp: on_ldap_Ok)
    from authenticate_Ok [OF this] obtain entry where "us_Username user = u" "accepted lib f u p entry"
      "us_Admin user \<longleftrightarrow> ft_adminGroupDN f \<in> set (ll_GetAttributeValues lib entry ''memberof'')" by blast
    moreover have "protected lib f text received next r w = next (r\<lparr>aq_auth := Some (authFromUser user None)\<rparr>) w'" for "next"
      using u res Ok by (simp add: protected_def BasicAuth_Middleware_def BasicAuth_Required_def GetAuth_def)
    ultimately show ?thesis using u by (auto simp: authFromUser_def)
  next
    case (Err e)
    then have "protected lib f text received next r w = DefaultBasicAuthErrorHandler text (r\<lparr>aq_basicErr := Some e\<rparr>) w'" for "next"
      using u res by (simp add: protected_def BasicAuth_Middleware_def)
    then show ?thesis using status
      by (simp add: DefaultBasicAuthErrorHandler_def GetBasicAuthErr_def StatusUnauthorized_def StatusInternalServerError_def)
  qed (use u res in \<open>simp_all add: protected_def BasicAuth_Middleware_def\<close>)
qed

text \<open>A wrong password, for a user that the directory has, is answered with 500 and no challenge.\<close>

lemma wrong_password_status:
  assumes "aq_basic r = Some (u, p)" "u \<noteq> []" "resp_status w = None"
    "NewClient lib f received (as_ldap w) = (Ok c, s1)" "find_entry lib c u (open_client s1) = (Ok entry, s2)"
    "ldap_bind lib (cl_conn c) (en_DN entry) p s2 = (Err e, s3)"
  shows "fst (protected lib f text received next r w) = Ok () \<and> resp_status (snd (protected lib f text received next r w)) = Some 500"
proof -
  obtain w' where res: "on_ldap (authenticate lib f received u p) w = (Err httpauth_ErrInvalidCredentials, w')"
    using authenticate_bind_fails [OF assms(4,5,6)] by (auto simp: on_ldap_def split_beta Let_def)
  then have "resp_status w' = None" using assms(3) by (metis on_ldap_status snd_conv)
  then show ?thesis using assms(1,2) res
    by (simp add: protected_def BasicAuth_Middleware_def DefaultBasicAuthErrorHandler_def GetBasicAuthErr_def
        httpauth_ErrInvalidCredentials_def ErrInvalidCredentials_def StatusInternalServerError_def)
qed

section \<open>A small directory\<close>

text \<open>
  The world is a list of entries with passwords; the root may search and binds with its own password,
  and a connection that is closed answers nothing.
\<close>

record ex_user =
  eu_cn :: string
  eu_password :: string
  eu_groups :: "string list"

definition ex_entry :: "ex_user \<Rightarrow> Entry" where
  "ex_entry u = \<lparr>en_DN = ''cn='' @ eu_cn u @ '',ou=users'', en_Attributes =
     [(''cn'', [eu_cn u]), (''uidnumber'', [''1000'']), (''gidnumber'', [''100'']), (''memberof'', eu_groups u)]\<rparr>"

definition ex_values :: "Entry \<Rightarrow> string \<Rightarrow> string list" where
  "ex_values e name = (case map_of (en_Attributes e) name of None \<Rightarrow> [] | Some vs \<Rightarrow> vs)"

definition ex_allows :: "ex_user list \<Rightarrow> string \<Rightarrow> string \<Rightarrow> bool" where
  "ex_allows w name password \<longleftrightarrow> password \<noteq> [] \<and> (name = ''root'' \<and> password = ''secret'' \<or>
     (\<exists>u \<in> set w. en_DN (ex_entry u) = name \<and> eu_password u = password))"

definition ex_reply :: "bool \<Rightarrow> 'a \<Rightarrow> ('w, 'a) go" where
  "ex_reply ok x = (\<lambda>w. (if ok then Ok x else Err (PlainError ''LDAP Result Code 49''), w))"

fun ex_template :: "template_node \<Rightarrow> filterTemplateValues \<Rightarrow> string" where
  "ex_template (TextNode t) v = t"
| "ex_template (ActionNode pipe) v = fv_Username v"
| "ex_template (ListNode ns) v = concat (map (\<lambda>n. ex_template n v) ns)"
| "ex_template _ v = []"

definition ex_lib :: "(nat, ex_user list) ldap_lib" where
  "ex_lib = \<lparr>ll_SimpleBind = (\<lambda>c req w. ex_reply (ex_allows w (br_Username req) (br_Password req)) () w),
     ll_Bind = (\<lambda>c name password w. ex_reply (ex_allows w name password) () w),
     ll_Search = (\<lambda>c req w. ex_reply (c > 0) (map ex_entry (filter (\<lambda>u. sr_Filter req = ''(cn='' @ eu_cn u @ '')'') w)) w),
     ll_PasswordModify = (\<lambda>c req w. (Ok [], map (\<lambda>u. if en_DN (ex_entry u) = pm_UserIdentity req then u\<lparr>eu_password := pm_NewPassword req\<rparr> else u) w)),
     ll_Close = (\<lambda>c. ret ()),
     ll_GetAttributeValue = (\<lambda>e name. case ex_values e name of [] \<Rightarrow> [] | v # _ \<Rightarrow> v),
     ll_GetAttributeValues = ex_values,
     ll_execute = (\<lambda>t v. Ok (ex_template t v)),
     ll_Inject = ([], [])\<rparr>"

definition ex_factory :: Factory where
  "ex_factory = \<lparr>ft_base = ''root'', ft_rootDN = ''root'', ft_rootPasswd = ''secret'', ft_usersDN = ''ou=users'',
     ft_usersFilter = ListNode [TextNode ''(cn='', ActionNode [[FieldNode [''Username'']]], TextNode '')''],
     ft_groupsDN = ''ou=groups'', ft_adminGroupDN = ''cn=admin'', ft_accessesDN = ''ou=accesses''\<rparr>"

definition ex_directory :: "ex_user list" where
  "ex_directory = [\<lparr>eu_cn = ''ada'', eu_password = ''pw1'', eu_groups = [''cn=admin'']\<rparr>, \<lparr>eu_cn = ''bob'', eu_password = ''pw2'', eu_groups = []\<rparr>]"

definition ex_ldap :: "ex_user list ldap_state" where
  "ex_ldap = \<lparr>ls_world = ex_directory, ls_clients = 0, ls_active = 0, ls_success = 0, ls_error = 0, ls_duration = []\<rparr>"

definition ex_state :: "ex_user list auth_state" where
  "ex_state = \<lparr>resp_status = None, resp_location = [], resp_body = [], as_wwwAuthenticate = [], as_cookies = [], as_ldap = ex_ldap\<rparr>"

definition ex_request :: "string \<Rightarrow> string \<Rightarrow> AuthRequest" where
  "ex_request method path = \<lparr>rq_id = ''1'', wq_path = path, wq_hx = False, wq_boosted = False, wq_HeaderTeapotStyles = [],
     wq_HeaderTeapotDependencies = [], aq_method = method, aq_basic = None, aq_cookies = [], aq_form = [], aq_auth = None, aq_basicErr = None\<rparr>"

text \<open>The first connection of the pool is dead.\<close>

definition ex_received :: "nat selected list" where
  "ex_received = [Received 0, Received 1]"

definition ex_served :: "ex_user list http_handler" where
  "ex_served r w = (Ok (), WriteHeader 200 w)"

theorem basic_auth_gate_witness:
  "(\<exists>entry. accepted ex_lib ex_factory ''ada'' ''pw1'' entry) \<and>
   resp_status (snd (protected ex_lib ex_factory (\<lambda>_. []) ex_received ex_served ((ex_request ''GET'' ''/'')\<lparr>aq_basic := Some (''ada'', ''pw1'')\<rparr>) ex_state)) = Some 200"
proof -
  let ?r = "(ex_request ''GET'' ''/'')\<lparr>aq_basic := Some (''ada'', ''pw1'')\<rparr>"
  have st: "resp_status (snd (protected ex_lib ex_factory (\<lambda>_. []) ex_received ex_served ?r ex_state)) = Some 200"
    "fst (protected ex_lib ex_factory (\<lambda>_. []) ex_received ex_served ?r ex_state) = Ok ()" by code_simp+
  have "aq_auth ?r = None" "resp_status ex_state = None" by (simp_all add: ex_request_def ex_state_def)
  from basic_auth_gate [OF this, of ex_lib ex_factory "\<lambda>_. []" ex_received] have "\<exists>entry. accepted ex_lib ex_factory ''ada'' ''pw1'' entry"
  proof (elim disjE exE conjE)
    fix w' assume "\<forall>next. protected ex_lib ex_factory (\<lambda>_. []) ex_received next ?r ex_state = (Ok (), w')"
      "resp_status w' = Some 401" then show ?thesis using st by simp
  next
    fix w' assume "\<forall>next. protected ex_lib ex_factory (\<lambda>_. []) ex_received next ?r ex_state = (Ok (), w')"
      "resp_status w' = Some 500" then show ?thesis using st by simp
  qed (use st in \<open>auto simp: ex_request_def\<close>)
  with st(1) show ?thesis by blast
qed

section \<open>Sessions\<close>

lemma JWTAuth_Authenticate_Ok:
  assumes "JWTAuth_Authenticate lib f received jl ja now u p s = (Ok (cookie, auth), s')"
  shows "au_Username auth = u \<and> (\<exists>entry. accepted lib f u p entry \<and>
      (au_Admin auth \<longleftrightarrow> ft_adminGroupDN f \<in> set (ll_GetAttributeValues lib entry ''memberof''))) \<and>
    authCookie jl ja now u (au_Admin auth) = Ok cookie"
proof -
  from assms obtain user s1 where "authenticate lib f received u p s = (Ok user, s1)"
    "authCookie jl ja now (us_Username user) (us_Admin user) = Ok cookie" "auth = \<lparr>au_ExpiresAt = None, au_Username = us_Username user, au_Admin = us_Admin user\<rparr>"
    by (auto simp: JWTAuth_Authenticate_def go_bind_eq_Ok)
  then show ?thesis using authenticate_Ok [of lib f received u p s user s1] by auto
qed

lemma Login_cookie:
  assumes "WebAuth_Login lib f received jl wa now r w = (res, w')" "as_cookies w' = as_cookies w @ [cookie]"
  shows "\<exists>auth s'. JWTAuth_Authenticate lib f received jl (wa_auth wa) now (FormValue r ''username'') (FormValue r ''password'') (as_ldap w) = (Ok (cookie, auth), s')"
proof -
  let ?m = "JWTAuth_Authenticate lib f received jl (wa_auth wa) now (FormValue r ''username'') (FormValue r ''password'')"
  obtain x w1 where x: "on_ldap ?m w = (x, w1)" by force
  then have "as_cookies w1 = as_cookies w" by (cases "?m (as_ldap w)") (auto simp: on_ldap_def)
  then have "\<exists>auth. x = Ok (cookie, auth)"
    using assms x by (auto simp: WebAuth_Login_def Login_post_def Let_def http_SetCookie_def WriteHeader_def split: outcome.splits option.splits if_splits)
  then show ?thesis using x by (auto simp: on_ldap_Ok)
qed

text \<open>
  C33. What a session is. Let the token library give back signed claims while they are valid, and round
  times down. When the login page sets a cookie, the directory has accepted the user name and password
  of the form, and until the cookie expires every request that carries it is handled with this name
  and the admin flag that the directory gave; the cookie that the logout sets authenticates nobody.
\<close>

theorem login_session:
  fixes nxt :: "AuthRequest \<Rightarrow> ('s, 'a) go"
  assumes parse: "\<And>secret claims t time. jl_SignedString jl secret claims = Ok t \<Longrightarrow>
      t \<noteq> [] \<and> (the (jc_NotBefore claims) \<le> time \<and> time < the (jc_ExpiresAt claims) \<longrightarrow> jl_ParseWithClaims jl time secret t = Ok claims)"
    and date: "\<And>t. jl_NewNumericDate jl t \<le> t"
    and login: "WebAuth_Login lib f received jl wa now r w = (res, w')" "as_cookies w' = as_cookies w @ [cookie]"
    and later: "now \<le> time" "time < jl_NewNumericDate jl (now + ja_duration (wa_auth wa))"
  shows "\<exists>entry. accepted lib f (FormValue r ''username'') (FormValue r ''password'') entry \<and>
    (\<forall>r' v. map_of (aq_cookies r') cookieName = Some (ck_Value cookie) \<longrightarrow>
       JWTAuth_Middleware jl (wa_auth wa) time nxt r' v =
         nxt (r'\<lparr>aq_auth := Some \<lparr>au_ExpiresAt = Some (jl_NewNumericDate jl (now + ja_duration (wa_auth wa))),
           au_Username = FormValue r ''username'', au_Admin = (ft_adminGroupDN f \<in> set (ll_GetAttributeValues lib entry ''memberof''))\<rparr>\<rparr>) v) \<and>
    (\<forall>r' v. map_of (aq_cookies r') cookieName = Some (ck_Value (DeAuthenticate (wa_auth wa))) \<longrightarrow>
       JWTAuth_Middleware jl (wa_auth wa) time nxt r' v = nxt r' v)"
proof -
  let ?u = "FormValue r ''username''" and ?exp = "jl_NewNumericDate jl (now + ja_duration (wa_auth wa))"
  obtain auth s' where "JWTAuth_Authenticate lib f received jl (wa_auth wa) now ?u (FormValue r ''password'') (as_ldap w) = (Ok (cookie, auth), s')"
    using Login_cookie [OF login] by blast
  from JWTAuth_Authenticate_Ok [OF this] obtain entry where entry: "accepted lib f ?u (FormValue r ''password'') entry"
    "au_Admin auth \<longleftrightarrow> ft_adminGroupDN f \<in> set (ll_GetAttributeValues lib entry ''memberof'')" and
    cookie: "authCookie jl (wa_auth wa) now ?u (au_Admin auth) = Ok cookie" by blast
  define claims where "claims = \<lparr>jc_ExpiresAt = Some ?exp, jc_IssuedAt = Some (jl_NewNumericDate jl now), jc_NotBefore = Some (jl_NewNumericDate jl now),
    jc_Issuer = ja_issuer (wa_auth wa), jc_Subject = ?u, jc_Admin = au_Admin auth\<rparr>"
  from cookie have "jl_SignedString jl (ja_secret (wa_auth wa)) claims = Ok (ck_Value cookie)"
    by (auto simp: authCookie_def Let_def claims_def outcome_bind_def outcome_wrap_def split: outcome.splits)
  from parse [OF this, of time] have "ck_Value cookie \<noteq> []" "jl_ParseWithClaims jl time (ja_secret (wa_auth wa)) (ck_Value cookie) = Ok claims"
    using later date [of now] by (simp_all add: claims_def)
  then have "JWTAuth_Middleware jl (wa_auth wa) time nxt r' v =
      nxt (r'\<lparr>aq_auth := Some \<lparr>au_ExpiresAt = Some ?exp, au_Username = ?u, au_Admin = au_Admin auth\<rparr>\<rparr>) v"
    if "map_of (aq_cookies r') cookieName = Some (ck_Value cookie)" for r' v
    using that by (simp add: JWTAuth_Middleware_def checkAuthCookie_def claims_def)
  moreover have "JWTAuth_Middleware jl (wa_auth wa) time nxt r' v = nxt r' v"
    if "map_of (aq_cookies r') cookieName = Some (ck_Value (DeAuthenticate (wa_auth wa)))" for r' v
    using that by (simp add: JWTAuth_Middleware_def checkAuthCookie_def DeAuthenticate_def)
  ultimately show ?thesis using entry unfolding entry(2) by blast
qed

text \<open>A library with one token: the claims of \<open>ada\<close> from the time 100 to 150.\<close>

definition ex_claims :: jwtAuth where
  "ex_claims = \<lparr>jc_ExpiresAt = Some 150, jc_IssuedAt = Some 100, jc_NotBefore = Some 100, jc_Issuer = ''kontakte'', jc_Subject = ''ada'', jc_Admin = True\<rparr>"

definition ex_jwt :: jwt_lib where
  "ex_jwt = \<lparr>jl_SignedString = (\<lambda>secret claims. if secret = ''key'' \<and> claims = ex_claims then Ok ''token'' else Err (PlainError ''sign'')),
     jl_ParseWithClaims = (\<lambda>time secret t. if secret = ''key'' \<and> t = ''token'' \<and> 100 \<le> time \<and> time < 150 then Ok ex_claims else Err (PlainError ''parse'')),
     jl_NewNumericDate = (\<lambda>t. t)\<rparr>"

definition ex_webauth :: WebAuth where
  "ex_webauth = \<lparr>wa_auth = \<lparr>ja_secret = ''key'', ja_issuer = ''kontakte'', ja_duration = 50, ja_prefix = ''/'', ja_secure = True\<rparr>,
     wa_loginPath = PathLogin, wa_logoutPath = PathLogout, wa_returnPath = (\<lambda>auth. PathUser (au_Username auth)), wa_app = App\<rparr>"

definition ex_login :: AuthRequest where
  "ex_login = (ex_request ''POST'' ''/login'')\<lparr>aq_form := [(''username'', ''ada''), (''password'', ''pw1'')]\<rparr>"

definition ex_cookie :: Cookie where
  "ex_cookie = \<lparr>ck_Name = ''teapot-auth'', ck_Value = ''token'', ck_Path = ''/'', ck_Expires = Some 150, ck_Secure = True,
     ck_HttpOnly = True, ck_SameSiteStrict = True\<rparr>"

definition ex_answer :: "AuthRequest \<Rightarrow> (unit, Auth option) go" where
  "ex_answer r v = (Ok (aq_auth r), v)"

theorem login_session_witness:
  "as_cookies (snd (WebAuth_Login ex_lib ex_factory ex_received ex_jwt ex_webauth 100 ex_login ex_state)) = [ex_cookie] \<and>
   (\<exists>entry b. accepted ex_lib ex_factory ''ada'' ''pw1'' entry \<and>
     JWTAuth_Middleware ex_jwt (wa_auth ex_webauth) 120 ex_answer ((ex_request ''GET'' ''/'')\<lparr>aq_cookies := [(cookieName, ''token'')]\<rparr>) () =
       (Ok (Some \<lparr>au_ExpiresAt = Some 150, au_Username = ''ada'', au_Admin = b\<rparr>), ()))"
proof -
  let ?l = "WebAuth_Login ex_lib ex_factory ex_received ex_jwt ex_webauth 100 ex_login ex_state"
  have cookie: "as_cookies (snd ?l) = [ex_cookie]" by code_simp
  have parse: "t \<noteq> [] \<and> (the (jc_NotBefore claims) \<le> time \<and> time < the (jc_ExpiresAt claims) \<longrightarrow> jl_ParseWithClaims ex_jwt time secret t = Ok claims)"
    if "jl_SignedString ex_jwt secret claims = Ok t" for secret claims t time
    using that by (auto simp: ex_jwt_def ex_claims_def split: if_splits)
  have "\<exists>entry. accepted ex_lib ex_factory (FormValue ex_login ''username'') (FormValue ex_login ''password'') entry \<and>
    (\<forall>r' v. map_of (aq_cookies r') cookieName = Some (ck_Value ex_cookie) \<longrightarrow>
       JWTAuth_Middleware ex_jwt (wa_auth ex_webauth) 120 ex_answer r' v =
         ex_answer (r'\<lparr>aq_auth := Some \<lparr>au_ExpiresAt = Some (jl_NewNumericDate ex_jwt (100 + ja_duration (wa_auth ex_webauth))),
           au_Username = FormValue ex_login ''username'', au_Admin = (ft_adminGroupDN ex_factory \<in> set (ll_GetAttributeValues ex_lib entry ''memberof''))\<rparr>\<rparr>) v) \<and>
    (\<forall>r' v. map_of (aq_cookies r') cookieName = Some (ck_Value (DeAuthenticate (wa_auth ex_webauth))) \<longrightarrow>
       JWTAuth_Middleware ex_jwt (wa_auth ex_webauth) 120 ex_answer r' v = ex_answer r' v)"
  proof (rule login_session [OF parse])
    show "jl_NewNumericDate ex_jwt t \<le> t" for t by (simp add: ex_jwt_def)
    show "WebAuth_Login ex_lib ex_factory ex_received ex_jwt ex_webauth 100 ex_login ex_state = (fst ?l, snd ?l)" by simp
    show "as_cookies (snd ?l) = as_cookies ex_state @ [ex_cookie]" using cookie by (simp add: ex_state_def)
  qed (simp_all add: ex_jwt_def ex_webauth_def)
  then show ?thesis using cookie by (fastforce simp: ex_login_def ex_request_def FormValue_def ex_jwt_def ex_webauth_def ex_cookie_def ex_answer_def)
qed

section \<open>Kontakte\<close>

lemma WriteHeader_ldap [simp]: "as_ldap (WriteHeader c w) = as_ldap w"
  by (simp add: WriteHeader_def split: option.splits)






lemma login_not_done [simp]: "map_shown LoginPage x \<noteq> PartOf (PasswdDone u m)"
  by (cases x) auto







end
