(* ===== verification/Files.thy ===== *)
theory Files
  imports Http_Auth
begin

text \<open>
  The \<^verbatim>\<open>files\<close> service: mounts and sessions (\<^verbatim>\<open>service/files\<close>), the pages that browse a session and add to
  it (\<^verbatim>\<open>service/files/web\<close>), and the file system that the WebDAV library is given
  (\<^verbatim>\<open>service/files/webdav\<close>).

  The file system library, the cache of sessions and the WebDAV library are parameters; they act on the
  same world as the directory. The HTML of the pages is not modelled.
\<close>

section \<open>Paths\<close>

text \<open>\<^verbatim>\<open>filepath.Rel\<close> for a base that starts with a slash.\<close>

definition path_elements :: "string \<Rightarrow> string list" where
  "path_elements p = filter (\<lambda>e. e \<noteq> []) (strings_Split (filepath_Clean p) (CHR ''/''))"

fun drop_common :: "string list \<Rightarrow> string list \<Rightarrow> string list \<times> string list" where
  "drop_common (b # bs) (t # ts) = (if b = t then drop_common bs ts else (b # bs, t # ts))"
| "drop_common bs ts = (bs, ts)"

definition filepath_Rel :: "string \<Rightarrow> string \<Rightarrow> string outcome" where
  "filepath_Rel base targ =
     (if filepath_Clean targ = filepath_Clean base then Ok ''.''
      else if targ = [] \<or> hd targ \<noteq> CHR ''/'' then Err (PlainError ''Rel: cannot make path relative'')
      else let (bs, ts) = drop_common (path_elements base) (path_elements targ) in
        Ok (strings_Join (replicate (length bs) ''..'' @ ts) (CHR ''/'')))"

definition PathBrowse :: string where "PathBrowse = ''/browse/''"
definition PathFile :: string where "PathFile = ''/file/''"
definition files_PathIndex :: string where "files_PathIndex = ''/''"
definition files_PathLogin :: string where "files_PathLogin = ''/login''"
definition files_App :: string where "files_App = ''Teapot Files''"
definition sep :: string where "sep = ''/''"

definition PathBrowseAt :: "string list \<Rightarrow> string" where
  "PathBrowseAt paths = filepath_Join (PathBrowse # paths)"

definition PathFileAt :: "string list \<Rightarrow> string" where
  "PathFileAt paths = filepath_Join (PathFile # paths)"

section \<open>The library\<close>

datatype 'fs ReadOnlyFS = NewReadOnlyFS 'fs

record DirEntry =
  de_Name :: string
  de_IsDir :: bool

record ('fs, 'h, 'w) hpfs_lib =
  hl_Sub :: "string \<Rightarrow> ('w, 'fs) go"
  hl_memNewFS :: "('w, 'fs) go"
  hl_mountNewFS :: "'fs ReadOnlyFS \<Rightarrow> ('w, 'fs) go"
  hl_AddMount :: "'fs \<Rightarrow> string \<Rightarrow> 'fs \<Rightarrow> ('w, unit) go"
  hl_Mkdir :: "'fs \<Rightarrow> string \<Rightarrow> int \<Rightarrow> ('w, unit) go"
  hl_MkdirAll :: "'fs \<Rightarrow> string \<Rightarrow> int \<Rightarrow> ('w, unit) go"
  hl_ReadDir :: "'fs \<Rightarrow> string \<Rightarrow> ('w, DirEntry list) go"
  hl_Stat :: "'fs \<Rightarrow> string \<Rightarrow> ('w, int) go"
  hl_OpenFile :: "'fs \<Rightarrow> string \<Rightarrow> int \<Rightarrow> int \<Rightarrow> ('w, 'h) go"
  hl_ReadAll :: "'h \<Rightarrow> ('w, string) go"
  hl_ReadDirFile :: "'h \<Rightarrow> int \<Rightarrow> ('w, DirEntry list) go"
  hl_Info :: "DirEntry \<Rightarrow> ('w, int) go"
  hl_WriteFullFile :: "'fs \<Rightarrow> string \<Rightarrow> string \<Rightarrow> int \<Rightarrow> ('w, unit) go"
  hl_RemoveAll :: "'fs \<Rightarrow> string \<Rightarrow> ('w, unit) go"
  hl_Rename :: "'fs \<Rightarrow> string \<Rightarrow> string \<Rightarrow> ('w, unit) go"
  hl_cacheDo :: "string \<Rightarrow> ('w, 'fs) go \<Rightarrow> ('w, 'fs) go"
  hl_Execute :: "template_node \<Rightarrow> string \<Rightarrow> string outcome"

definition DirPerm :: int where "DirPerm = 488"
definition ErrNotExist :: goerr where "ErrNotExist = PlainError ''file does not exist''"

section \<open>Mounts\<close>

datatype VFS = VFSOS

definition VFS_String :: "VFS \<Rightarrow> string" where
  "VFS_String vfs = (case vfs of VFSOS \<Rightarrow> ''os'')"

definition ErrExpectMountFormat :: goerr where
  "ErrExpectMountFormat = PlainError ''expected mount format to be: <vfs>:<src>:<dest>, missing some parts''"
definition ErrInvalidVFSType :: goerr where "ErrInvalidVFSType = PlainError ''invalid VFS type''"

record mountConfig =
  mc_Source :: string
  mc_Destination :: string
  mc_VFS :: VFS

definition parseRawMount :: "string \<Rightarrow> mountConfig outcome" where
  "parseRawMount mnt =
     (let parts = strings_Split mnt (CHR '':'') in
      if length parts \<noteq> 3 then Err ErrExpectMountFormat
      else if parts ! 0 \<noteq> VFS_String VFSOS then Err (Wrapped (''could not parse VFS mount type '' @ parts ! 0) ErrInvalidVFSType)
      else Ok \<lparr>mc_Source = filepath_Clean (parts ! 1), mc_Destination = filepath_Clean (parts ! 2), mc_VFS = VFSOS\<rparr>)"

record mount =
  mt_srcTmpl :: template_node
  mt_dst :: string
  mt_vfs :: VFS

definition mountSourceParameters_type :: gotype where
  "mountSourceParameters_type = Struct [(''Username'', True, OtherType)]"

definition parseMountConfig :: "(string \<Rightarrow> template_node outcome) \<Rightarrow> mountConfig \<Rightarrow> mount outcome" where
  "parseMountConfig parse mc =
     outcome_bind (outcome_wrap (''error while parsing mount source '' @ mc_Source mc) (NewTMPL parse mountSourceParameters_type (mc_Source mc))) (\<lambda>srcTmpl.
     Ok \<lparr>mt_srcTmpl = srcTmpl, mt_dst = mc_Destination mc, mt_vfs = mc_VFS mc\<rparr>)"

definition mount_src :: "('fs, 'h, 'w) hpfs_lib \<Rightarrow> mount \<Rightarrow> string \<Rightarrow> ('w, 'fs) go" where
  "mount_src lib m username =
     go_bind (go_wrap ''error while generating mount source'' (lift (TMPL_Render (hl_Execute lib) (mt_srcTmpl m) username))) (\<lambda>path.
     case mt_vfs m of VFSOS \<Rightarrow> go_wrap ''error while opening filesystem for mount source'' (hl_Sub lib path))"

section \<open>Sessions\<close>

fun NewSessions :: "(string \<Rightarrow> template_node outcome) \<Rightarrow> string list \<Rightarrow> mount list outcome" where
  "NewSessions parse [] = Ok []"
| "NewSessions parse (m # ms) =
     outcome_bind (parseRawMount m) (\<lambda>mc.
     outcome_bind (parseMountConfig parse mc) (\<lambda>mnt.
     outcome_bind (NewSessions parse ms) (\<lambda>mounts. Ok (mnt # mounts))))"

fun mount_all :: "('fs, 'h, 'w) hpfs_lib \<Rightarrow> 'fs \<Rightarrow> 'fs \<Rightarrow> string \<Rightarrow> mount list \<Rightarrow> ('w, unit) go" where
  "mount_all lib memFS rootFS username [] = ret ()"
| "mount_all lib memFS rootFS username (m # ms) =
     go_bind (go_wrap (''error while getting filesystem for mountpoint '' @ mt_dst m) (mount_src lib m username)) (\<lambda>src.
     go_bind (go_wrap (''error while creating mounting directory at '' @ mt_dst m) (hl_MkdirAll lib memFS (mt_dst m) DirPerm)) (\<lambda>_.
     go_bind (go_wrap (''error while mounting filesystem at '' @ mt_dst m) (hl_AddMount lib rootFS (mt_dst m) src)) (\<lambda>_.
     mount_all lib memFS rootFS username ms)))"

definition newSessionFn :: "('fs, 'h, 'w) hpfs_lib \<Rightarrow> mount list \<Rightarrow> string \<Rightarrow> ('w, 'fs) go" where
  "newSessionFn lib mounts username =
     go_bind (go_wrap ''error while creating root memory filesystem'' (hl_memNewFS lib)) (\<lambda>memFS.
     go_bind (go_wrap ''error while creating root mount filesystem'' (hl_mountNewFS lib (NewReadOnlyFS memFS))) (\<lambda>rootFS.
     go_bind (mount_all lib memFS rootFS username mounts) (\<lambda>_. ret rootFS)))"

definition Sessions_Get :: "('fs, 'h, 'w) hpfs_lib \<Rightarrow> mount list \<Rightarrow> string \<Rightarrow> ('w, 'fs) go" where
  "Sessions_Get lib mounts username = hl_cacheDo lib username (newSessionFn lib mounts username)"

section \<open>The WebDAV file system\<close>

definition sanitizeName :: "string \<Rightarrow> string" where
  "sanitizeName name = (let name = strings_TrimPrefix (filepath_Clean name) ''/'' in if name = [] then ''.'' else name)"

definition webDav_Mkdir :: "('fs, 'h, 'w) hpfs_lib \<Rightarrow> 'fs \<Rightarrow> string \<Rightarrow> int \<Rightarrow> ('w, unit) go" where
  "webDav_Mkdir lib fs name perm = hl_Mkdir lib fs (sanitizeName name) perm"

definition webDav_OpenFile :: "('fs, 'h, 'w) hpfs_lib \<Rightarrow> 'fs \<Rightarrow> string \<Rightarrow> int \<Rightarrow> int \<Rightarrow> ('w, 'h) go" where
  "webDav_OpenFile lib fs name flag perm = hl_OpenFile lib fs (sanitizeName name) flag perm"

definition webDav_RemoveAll :: "('fs, 'h, 'w) hpfs_lib \<Rightarrow> 'fs \<Rightarrow> string \<Rightarrow> ('w, unit) go" where
  "webDav_RemoveAll lib fs name = hl_RemoveAll lib fs (sanitizeName name)"

definition webDav_Rename :: "('fs, 'h, 'w) hpfs_lib \<Rightarrow> 'fs \<Rightarrow> string \<Rightarrow> string \<Rightarrow> ('w, unit) go" where
  "webDav_Rename lib fs oldName newName = hl_Rename lib fs (sanitizeName oldName) (sanitizeName newName)"

definition webDav_Stat :: "('fs, 'h, 'w) hpfs_lib \<Rightarrow> 'fs \<Rightarrow> string \<Rightarrow> ('w, int) go" where
  "webDav_Stat lib fs name = hl_Stat lib fs (sanitizeName name)"

fun readdir_infos :: "('fs, 'h, 'w) hpfs_lib \<Rightarrow> DirEntry list \<Rightarrow> ('w, int list) go" where
  "readdir_infos lib [] = ret []"
| "readdir_infos lib (entry # entries) =
     go_bind (go_wrap (''error while getting file info of '' @ de_Name entry) (hl_Info lib entry)) (\<lambda>info.
     go_bind (readdir_infos lib entries) (\<lambda>infos. ret (info # infos)))"

definition webDav_Readdir :: "('fs, 'h, 'w) hpfs_lib \<Rightarrow> 'h \<Rightarrow> int \<Rightarrow> ('w, int list) go" where
  "webDav_Readdir lib h n = go_bind (hl_ReadDirFile lib h n) (readdir_infos lib)"

definition on_fs :: "('w, 'a) go \<Rightarrow> ('w auth_state, 'a) go" where
  "on_fs m = on_ldap (on_world m)"

text \<open>The handler of the service, over the handler \<open>dav\<close> of the WebDAV library for a file system.\<close>

definition WebDav_serve :: "('fs, 'h, 'w) hpfs_lib \<Rightarrow> mount list \<Rightarrow> ('fs \<Rightarrow> 'w http_handler) \<Rightarrow> 'w http_handler" where
  "WebDav_serve lib mounts dav r w = (case MustGetAuth r of
      Ok auth \<Rightarrow> (case on_fs (Sessions_Get lib mounts (au_Username auth)) w of
          (Ok fs, w') \<Rightarrow> dav fs r w'
        | (Err e, w') \<Rightarrow> (Ok (), http_Error (http_StatusText StatusInternalServerError) StatusInternalServerError w')
        | (Panic p, w') \<Rightarrow> (Panic p, w')
        | (Diverge, w') \<Rightarrow> (Diverge, w'))
    | Err e \<Rightarrow> (Err e, w)
    | Panic p \<Rightarrow> (Panic p, w)
    | Diverge \<Rightarrow> (Diverge, w))"

definition WebDav_Handler :: "('c, 'w) ldap_lib \<Rightarrow> Factory \<Rightarrow> (goerr \<Rightarrow> string) \<Rightarrow> 'c selected list \<Rightarrow> ('fs, 'h, 'w) hpfs_lib \<Rightarrow> mount list \<Rightarrow>
    ('fs \<Rightarrow> 'w http_handler) \<Rightarrow> 'w http_handler" where
  "WebDav_Handler ldap f text received lib mounts dav =
     BasicAuth_Middleware ldap f (DefaultBasicAuthErrorHandler text) received (BasicAuth_Required (WebDav_serve lib mounts dav))"

section \<open>Pages\<close>

record file_entry =
  fe_name :: string
  fe_path :: string
  fe_isDir :: bool
  fe_size :: "64 word"

datatype files_page =
    BrowsePage string string "file_entry list" "file_entry list"
  | NewFolderDialog string string
  | UploadDialog string string

text \<open>\<open>on_file m k w\<close>: the error path of a call that ends the handler.\<close>

definition on_file :: "('w, 'a) go \<Rightarrow> (goerr \<Rightarrow> 'w auth_state \<Rightarrow> (httperr + 'p) outcome \<times> 'w auth_state) \<Rightarrow>
    ('a \<Rightarrow> 'w auth_state \<Rightarrow> (httperr + 'p) outcome \<times> 'w auth_state) \<Rightarrow> 'w auth_state \<Rightarrow> (httperr + 'p) outcome \<times> 'w auth_state" where
  "on_file m h k w = (case on_fs m w of
      (Ok a, w') \<Rightarrow> k a w'
    | (Err e, w') \<Rightarrow> h e w'
    | (Panic p, w') \<Rightarrow> (Panic p, w')
    | (Diverge, w') \<Rightarrow> (Diverge, w'))"

definition internal_error :: "goerr \<Rightarrow> 'w auth_state \<Rightarrow> (httperr + 'p) outcome \<times> 'w auth_state" where
  "internal_error e w = (Ok (Inl (Internal (NewInternalError e None))), w)"

fun stat_entries :: "('fs, 'h, 'w) hpfs_lib \<Rightarrow> 'fs \<Rightarrow> string \<Rightarrow> DirEntry list \<Rightarrow> ('w, file_entry list) go" where
  "stat_entries lib fs path [] = ret []"
| "stat_entries lib fs path (e # es) =
     (let entryPath = filepath_Clean (filepath_Join [path, de_Name e]) in
      go_bind (go_wrap (''could not stat file at '' @ path) (hl_Stat lib fs entryPath)) (\<lambda>bytes.
      go_bind (stat_entries lib fs path es) (\<lambda>rest.
      ret (\<lparr>fe_name = de_Name e, fe_path = entryPath, fe_isDir = de_IsDir e, fe_size = word_of_int bytes\<rparr> # rest))))"

fun browse_segments :: "string \<Rightarrow> string list \<Rightarrow> file_entry list" where
  "browse_segments segmentPath [] = []"
| "browse_segments segmentPath (segment # segments) =
     (if segment = ''.'' then browse_segments segmentPath segments
      else let segmentPath' = filepath_Join [segmentPath, segment] in
        \<lparr>fe_name = segment, fe_path = segmentPath', fe_isDir = True, fe_size = 0\<rparr> # browse_segments segmentPath' segments)"

definition relative_path :: "string \<Rightarrow> string \<Rightarrow> (httperr, string) sum" where
  "relative_path pfx path = (case filepath_Rel pfx path of
      Ok p \<Rightarrow> Inr (filepath_Clean p)
    | Err e \<Rightarrow> Inl (Other (Joined (Wrapped ''could not get relative path'' e) ErrBadRequest))
    | _ \<Rightarrow> Inl (Other ErrBadRequest))"

definition Web_Browse :: "('fs, 'h, 'w) hpfs_lib \<Rightarrow> mount list \<Rightarrow> ('w, files_page) page_handler" where
  "Web_Browse lib mounts r w =
     (if aq_method r = ''GET'' then (case GetAuth r of
        None \<Rightarrow> (Ok (Inl (redirect_to files_PathIndex)), w)
      | Some auth \<Rightarrow> (case relative_path PathBrowse (wq_path r) of
          Inl e \<Rightarrow> (Ok (Inl e), w)
        | Inr path \<Rightarrow>
            on_file (Sessions_Get lib mounts (au_Username auth)) internal_error (\<lambda>fs.
            on_file (hl_ReadDir lib fs path) (\<lambda>e w. if goerr_Is e ErrNotExist then (Ok (Inl (Other ErrNotFound)), w)
                else internal_error (Wrapped (''could not read directory at '' @ path) e) w) (\<lambda>dirEntries.
            on_file (stat_entries lib fs path dirEntries) internal_error (\<lambda>entries w.
              (Ok (Inr (PageOf (pagetitle_Title (''Browse at '' @ path) files_App) (''Browse your files at '' @ path)
                (BrowsePage path (au_Username auth)
                  (\<lparr>fe_name = au_Username auth, fe_path = sep, fe_isDir = True, fe_size = 0\<rparr> # browse_segments [] (strings_Split path (CHR ''/'')))
                  entries))), w)))) w))
      else (Ok (Inl (invalid_method r)), w))"

text \<open>The file handler writes the content to the response; nobody closes the file.\<close>

definition Web_File :: "('fs, 'h, 'w) hpfs_lib \<Rightarrow> mount list \<Rightarrow> AuthRequest \<Rightarrow> 'w auth_state \<Rightarrow> (httperr + unit) outcome \<times> 'w auth_state" where
  "Web_File lib mounts r w = (case GetAuth r of
      None \<Rightarrow> (Ok (Inl (redirect_to files_PathIndex)), w)
    | Some auth \<Rightarrow> (case relative_path PathFile (wq_path r) of
        Inl e \<Rightarrow> (Ok (Inl e), w)
      | Inr path \<Rightarrow>
          on_file (Sessions_Get lib mounts (au_Username auth)) internal_error (\<lambda>fs.
          on_file (hl_OpenFile lib fs path 0 0) (\<lambda>e w. if goerr_Is e ErrNotExist then (Ok (Inl (Other ErrNotFound)), w)
              else internal_error (Wrapped (''could not read file at '' @ path) e) w) (\<lambda>h.
          on_file (hl_ReadAll lib h) (\<lambda>e w. (Ok (Inl (Other (Wrapped (''error while writing response file at '' @ path) e))), w)) (\<lambda>content w.
            (Ok (Inr ()), (WriteHeader StatusOK w)\<lparr>resp_body := resp_body w @ content\<rparr>)))) w))"

text \<open>The dialogs: the folder of the page that the request comes from, and the changes they post.\<close>

definition getDialogBasePath :: "(string \<Rightarrow> string outcome) \<Rightarrow> string \<Rightarrow> string \<Rightarrow> (httperr, string) sum" where
  "getDialogBasePath url_path current pfx = (case url_path current of
      Ok p \<Rightarrow> relative_path pfx p
    | Err e \<Rightarrow> Inl (Other (Joined (Wrapped (''could not parse current URL '' @ current) e) ErrBadRequest))
    | _ \<Rightarrow> Inl (Other ErrBadRequest))"

definition BrowseDialogNewFolder :: "('fs, 'h, 'w) hpfs_lib \<Rightarrow> mount list \<Rightarrow> (string \<Rightarrow> string outcome) \<Rightarrow> string \<Rightarrow> ('w, files_page) page_handler" where
  "BrowseDialogNewFolder lib mounts url_path current r w = (case GetAuth r of
      None \<Rightarrow> (Ok (Inl (redirect_to files_PathIndex)), w)
    | Some auth \<Rightarrow>
        if aq_method r = ''GET'' then (case getDialogBasePath url_path current PathBrowse of
            Inl e \<Rightarrow> (Ok (Inl e), w) | Inr path \<Rightarrow> (Ok (Inr (PartOf (NewFolderDialog (wq_path r) path))), w))
        else if aq_method r = ''POST'' then
          let base = FormValue r ''base''; path = FormValue r ''path'' in
          if base = [] \<or> path = [] then
            (Ok (Inr (Notification (Wrapped ''invalid empty path'' ErrBadRequest))), WriteHeader StatusUnauthorized w)
          else let path = filepath_Clean (filepath_Join [base, path]) in
            on_file (Sessions_Get lib mounts (au_Username auth)) internal_error (\<lambda>fs.
            on_file (hl_MkdirAll lib fs path DirPerm)
              (\<lambda>e w. (Ok (Inr (Notification (Wrapped (''error while creating folder '' @ path) e))), WriteHeader StatusBadRequest w)) (\<lambda>_ w.
            (Ok (Inl (redirect_to (PathBrowseAt [path] @ sep))), w))) w
        else (Ok (Inl (invalid_method r)), w))"

record upload =
  up_name :: string
  up_size :: int
  up_content :: "string outcome"

definition BrowseDialogUpload :: "('fs, 'h, 'w) hpfs_lib \<Rightarrow> mount list \<Rightarrow> (string \<Rightarrow> string outcome) \<Rightarrow> string \<Rightarrow>
    upload option outcome \<Rightarrow> ('w, files_page) page_handler" where
  "BrowseDialogUpload lib mounts url_path current form r w = (case GetAuth r of
      None \<Rightarrow> (Ok (Inl (redirect_to files_PathIndex)), w)
    | Some auth \<Rightarrow>
        if aq_method r = ''GET'' then (case getDialogBasePath url_path current PathBrowse of
            Inl e \<Rightarrow> (Ok (Inl e), w) | Inr path \<Rightarrow> (Ok (Inr (PartOf (UploadDialog (wq_path r) path))), w))
        else if aq_method r = ''POST'' then (case form of
            Err e \<Rightarrow> internal_error e w
          | Ok part \<Rightarrow>
              let base = FormValue r ''base'' in
              (case part of
                 None \<Rightarrow> (Ok (Inr (Notification (Wrapped ''invalid empty path/file'' ErrBadRequest))), WriteHeader StatusBadRequest w)
               | Some file \<Rightarrow>
                   if base = [] \<or> up_name file = [] \<or> up_size file \<le> 0 then
                     (Ok (Inr (Notification (Wrapped ''invalid empty path/file'' ErrBadRequest))), WriteHeader StatusBadRequest w)
                   else let path = filepath_Clean (filepath_Join [base, up_name file]) in
                     on_file (Sessions_Get lib mounts (au_Username auth)) internal_error (\<lambda>fs.
                     on_file (lift (up_content file))
                       (\<lambda>e w. (Ok (Inr (Notification (Wrapped ''could not read file from request'' e))), WriteHeader StatusBadRequest w)) (\<lambda>bytes.
                     on_file (hl_WriteFullFile lib fs path bytes DirPerm)
                       (\<lambda>e w. (Ok (Inr (Notification (Wrapped (''error while writing file '' @ path) e))), WriteHeader StatusBadRequest w)) (\<lambda>_ w.
                     (Ok (Inl (redirect_to (PathBrowseAt [base] @ sep))), w)))) w)
          | Panic p \<Rightarrow> (Panic p, w)
          | Diverge \<Rightarrow> (Diverge, w))
        else (Ok (Inl (invalid_method r)), w))"

definition ErrInvalidBrowseDialog :: goerr where "ErrInvalidBrowseDialog = PlainError ''invalid browse dialog''"

definition BrowseDialog :: "('fs, 'h, 'w) hpfs_lib \<Rightarrow> mount list \<Rightarrow> (string \<Rightarrow> string outcome) \<Rightarrow> string \<Rightarrow> upload option outcome \<Rightarrow> string \<Rightarrow> ('w, files_page) page_handler" where
  "BrowseDialog lib mounts url_path current form dialog r w =
     (if dialog = ''newfolder'' then BrowseDialogNewFolder lib mounts url_path current r w
      else if dialog = ''upload'' then BrowseDialogUpload lib mounts url_path current form r w
      else (Ok (Inl (Other (Wrapped (''could not serve requested dialog '' @ dialog) ErrInvalidBrowseDialog))), w))"

definition Web_Index :: "('w, files_page) page_handler" where
  "Web_Index r w = (Ok (Inl (redirect_to (if GetAuth r \<noteq> None then PathBrowse else files_PathLogin))), w)"

definition Web_NotFound :: "('w, files_page) page_handler" where
  "Web_NotFound r w = (if wq_path r = files_PathIndex then Web_Index r w else (Ok (Inl (Other ErrNotFound)), w))"

section \<open>Valid names\<close>

text \<open>The names that the file system library accepts: the root, or plain elements with a slash between them.\<close>

definition fs_ValidPath :: "string \<Rightarrow> bool" where
  "fs_ValidPath p \<longleftrightarrow> p = ''.'' \<or> list_all plain_name (strings_Split p (CHR ''/''))"

lemma clean_rooted_plain:
  "(\<And>e. e \<in> set es \<Longrightarrow> CHR ''/'' \<notin> set e) \<Longrightarrow> list_all plain_name out \<Longrightarrow> list_all plain_name (fold (clean_step True) es out)"
proof (induction es arbitrary: out)
  case (Cons e es)
  have "list_all plain_name (clean_step True e out)"
    using Cons.prems by (auto simp: plain_name_def list_all_iff split: list.splits)
  then show ?case using Cons by simp
qed simp

definition rooted_elements :: "string \<Rightarrow> string list" where
  "rooted_elements p = rev (fold (clean_step True) (strings_Split p (CHR ''/'')) [])"

lemma Clean_rooted:
  assumes "p \<noteq> []" "hd p = CHR ''/''"
  shows "filepath_Clean p = CHR ''/'' # strings_Join (rooted_elements p) (CHR ''/'')" "list_all plain_name (rooted_elements p)"
proof -
  show "filepath_Clean p = CHR ''/'' # strings_Join (rooted_elements p) (CHR ''/'')"
    using assms by (simp add: filepath_Clean_def rooted_elements_def Let_def)
  have "list_all plain_name (fold (clean_step True) (strings_Split p (CHR ''/'')) [])"
    by (rule clean_rooted_plain) (auto dest: Split_elements)
  then show "list_all plain_name (rooted_elements p)" by (simp add: rooted_elements_def list_all_iff)
qed

lemma Split_Join_plain:
  assumes "list_all plain_name es" "es \<noteq> []"
  shows "strings_Split (strings_Join es (CHR ''/'')) (CHR ''/'') = es"
  using assms by (intro Split_Join) (auto simp: list_all_iff plain_name_def)

lemma valid_Join: "list_all plain_name es \<Longrightarrow> es \<noteq> [] \<Longrightarrow> fs_ValidPath (strings_Join es (CHR ''/''))"
  by (simp add: fs_ValidPath_def Split_Join_plain)

lemma sanitizeName_valid:
  assumes "name \<noteq> []" "hd name = CHR ''/''"
  shows "fs_ValidPath (sanitizeName name)"
proof (cases "rooted_elements name = []")
  case True
  then show ?thesis using Clean_rooted [OF assms] by (simp add: sanitizeName_def strings_TrimPrefix_def strings_HasPrefix_def fs_ValidPath_def)
next
  case False
  then have "strings_Join (rooted_elements name) (CHR ''/'') \<noteq> []"
    using Clean_rooted(2) [OF assms] by (auto simp: Join_Nil plain_name_def)
  then show ?thesis using Clean_rooted [OF assms] False
    by (simp add: sanitizeName_def strings_TrimPrefix_def strings_HasPrefix_def valid_Join)
qed

text \<open>A name without a leading slash may leave the root: only the file system library refuses it.\<close>

lemma sanitizeName_relative: "sanitizeName ''../x'' = ''../x'' \<and> \<not> fs_ValidPath (sanitizeName ''../x'')"
  by code_simp

lemma path_elements_rooted:
  assumes "p \<noteq> []" "hd p = CHR ''/''"
  shows "path_elements p = rooted_elements p"
proof (cases "rooted_elements p = []")
  case False
  then show ?thesis using Clean_rooted [OF assms] Split_Join_plain [OF Clean_rooted(2) [OF assms] False]
    by (simp add: path_elements_def) (metis (mono_tags, lifting) filter_True list_all_iff plain_name_def)
qed (simp add: path_elements_def Clean_rooted [OF assms])

lemma drop_common_append: "drop_common bs (bs @ ts) = ([], ts)"
  by (induction bs) simp_all

lemma plain_Clean:
  assumes "list_all plain_name es" "es \<noteq> []"
  shows "filepath_Clean (strings_Join es (CHR ''/'')) = strings_Join es (CHR ''/'')"
proof -
  let ?p = "strings_Join es (CHR ''/'')"
  have p: "?p \<noteq> []" "hd ?p \<noteq> CHR ''/''"
    using assms by (cases es; cases "tl es"; auto simp: plain_name_def hd_append neq_Nil_conv)+
  have "rev (fold (clean_step False) (strings_Split ?p (CHR ''/'')) []) = es"
    using assms by (simp add: Split_Join_plain clean_plain_elements)
  then show ?thesis using p by (simp add: filepath_Clean_def Let_def)
qed

text \<open>The path of a request below a prefix gives a valid name, whatever dots it has.\<close>

lemma relative_path_valid:
  assumes "path \<noteq> []" "hd path = CHR ''/''" "pfx \<noteq> []" "hd pfx = CHR ''/''" "rooted_elements path = rooted_elements pfx @ ts"
  shows "\<exists>p. relative_path pfx path = Inr p \<and> fs_ValidPath p \<and> p = (if ts = [] then ''.'' else strings_Join ts (CHR ''/''))"
proof (cases "ts = []")
  case True
  then have "filepath_Clean path = filepath_Clean pfx" using assms by (simp add: Clean_rooted)
  moreover have "filepath_Clean ''.'' = ''.''" by code_simp
  ultimately show ?thesis using True by (simp add: relative_path_def filepath_Rel_def fs_ValidPath_def)
next
  case False
  have plain: "list_all plain_name ts" using Clean_rooted(2) [OF assms(1,2)] assms(5) by simp
  have "path_elements path = path_elements pfx @ ts" using assms by (simp add: path_elements_rooted)
  then have rest: "drop_common (path_elements pfx) (path_elements path) = ([], ts)" by (simp add: drop_common_append)
  have "path_elements path \<noteq> path_elements pfx" using \<open>path_elements path = path_elements pfx @ ts\<close> False by simp
  then have "filepath_Clean path \<noteq> filepath_Clean pfx" by (auto simp: path_elements_def)
  then have "filepath_Rel pfx path = Ok (strings_Join ts (CHR ''/''))" using assms(1,2) rest by (simp add: filepath_Rel_def)
  then show ?thesis using False plain by (simp add: relative_path_def plain_Clean valid_Join)
qed

text \<open>Behind the middlewares the identity of a request is known, so the handler of the service does not panic for want of it.\<close>

lemma WebDav_identity:
  assumes "\<And>fs r w. fst (dav fs r w) \<noteq> Panic p" "\<And>w. fst (on_fs (Sessions_Get lib mounts u) w) \<noteq> Panic p"
  shows "aq_auth r = Some auth \<Longrightarrow> au_Username auth = u \<Longrightarrow> fst (WebDav_serve lib mounts dav r w) \<noteq> Panic p"
  using assms(2) [of w] assms(1)
  by (cases "on_fs (Sessions_Get lib mounts u) w") (auto simp: WebDav_serve_def MustGetAuth_def GetAuth_def split: outcome.splits)

end
