(* ===== verification/Desec.thy ===== *)
theory Desec
  imports Ldap_Client
begin

text \<open>
  The provider of DNS records, \<^verbatim>\<open>service/desec\<close>: the conversion between the endpoints of external-dns and
  the record sets of deSEC, the provider and the handlers of its webhook.

  The client of the deSEC interface acts on the world \<open>'w\<close> and is a parameter, as are the parser of
  labels and the JSON library. A time to live is a 64 bit integer, as in the source.
\<close>

section \<open>Record sets and endpoints\<close>

type_synonym Labels = "(string \<times> string) list"

record RRSet =
  rr_Name :: string
  rr_Domain :: string
  rr_SubName :: string
  rr_Type :: string
  rr_Records :: "string list"
  rr_TTL :: "64 word"

record Endpoint =
  ep_DNSName :: string
  ep_Targets :: "string list"
  ep_RecordType :: string
  ep_RecordTTL :: "64 word"
  ep_Labels :: "Labels option"

definition canonicalize :: "string \<Rightarrow> string" where
  "canonicalize dn = strings_ToLower (strings_Join (filter (\<lambda>part. length part > 0) (strings_Split dn (CHR ''.''))) (CHR ''.'') @ ''.'')"

definition rrsetToEndpoint :: "RRSet \<Rightarrow> Labels option \<Rightarrow> Endpoint" where
  "rrsetToEndpoint rrset labels = \<lparr>ep_DNSName = canonicalize (rr_Name rrset), ep_Targets = rr_Records rrset,
     ep_RecordType = rr_Type rrset, ep_RecordTTL = rr_TTL rrset, ep_Labels = labels\<rparr>"

definition labelSeparator :: char where "labelSeparator = CHR ''-''"

definition recordTypesSet :: "string list" where
  "recordTypesSet = [''a'', ''aaaa'', ''afsdb'', ''apl'', ''caa'', ''cert'', ''cname'', ''dhcid'', ''dname'', ''dlv'', ''eui48'', ''eui64'',
     ''hinfo'', ''https'', ''kx'', ''l32'', ''l64'', ''loc'', ''lp'', ''mx'', ''naptr'', ''nid'', ''ns'', ''openpgpkey'', ''ptr'', ''rp'',
     ''smimea'', ''spf'', ''srv'', ''sshfp'', ''svcb'', ''tlsa'', ''txt'', ''uri'']"

definition couldBeLabel :: "RRSet \<Rightarrow> bool" where
  "couldBeLabel rrset \<longleftrightarrow>
     (if strings_ToLower (rr_Type rrset) \<noteq> ''txt'' then False
      else if length (rr_Records rrset) \<le> 0 then False
      else let parts = strings_Split (rr_Name rrset) labelSeparator in
        if length parts \<le> 1 then False else parts ! 0 \<in> set recordTypesSet)"

definition labelName :: "RRSet \<Rightarrow> string" where
  "labelName rrset = canonicalize (rr_Type rrset @ [labelSeparator] @ rr_Name rrset)"

text \<open>The first pass collects the labels, the second attaches them.\<close>

fun potentialLabels :: "(string \<Rightarrow> Labels outcome) \<Rightarrow> RRSet list \<Rightarrow> (string \<rightharpoonup> Labels) \<Rightarrow> (string \<rightharpoonup> Labels)" where
  "potentialLabels parse [] m = m"
| "potentialLabels parse (rrset # rrsets) m =
     potentialLabels parse rrsets
       (if couldBeLabel rrset then (case parse (rr_Records rrset ! 0) of Ok labels \<Rightarrow> m(rr_Name rrset \<mapsto> labels) | _ \<Rightarrow> m) else m)"

definition groupRRSets :: "(string \<Rightarrow> Labels outcome) \<Rightarrow> RRSet list \<Rightarrow> Endpoint list" where
  "groupRRSets parse rrsets =
     (let potential = potentialLabels parse rrsets Map.empty in
      map (\<lambda>rrset. rrsetToEndpoint rrset (potential (labelName rrset))) rrsets)"

definition strings_TrimSuffix :: "string \<Rightarrow> string \<Rightarrow> string" where
  "strings_TrimSuffix s sfx = (if strings_HasSuffix s sfx then take (length s - length sfx) s else s)"

definition partialRRSetFromFQDN :: "string \<Rightarrow> string \<Rightarrow> RRSet" where
  "partialRRSetFromFQDN fqdn domain =
     (let fqdn = canonicalize fqdn; domain = canonicalize domain in
      \<lparr>rr_Name = fqdn, rr_Domain = domain, rr_SubName = strings_TrimSuffix fqdn (CHR ''.'' # domain), rr_Type = [], rr_Records = [], rr_TTL = 0\<rparr>)"

definition Second :: "64 word" where "Second = 1000000000"
definition Hour :: "64 word" where "Hour = 3600 * Second"

text \<open>\<^verbatim>\<open>time.Duration(raw)*time.Second < time.Hour\<close>, a multiplication of 64 bit integers.\<close>

definition below_hour :: "64 word \<Rightarrow> bool" where
  "below_hour raw \<longleftrightarrow> sint (raw * Second) < sint Hour"

definition ttl :: "64 word \<Rightarrow> 64 word" where
  "ttl raw = (if below_hour raw then 3600 else raw)"

definition endpointsToRRSets :: "Endpoint list \<Rightarrow> string \<Rightarrow> RRSet list" where
  "endpointsToRRSets endpoints domain = map (\<lambda>e. (partialRRSetFromFQDN (ep_DNSName e) domain)
     \<lparr>rr_Type := ep_RecordType e, rr_Records := ep_Targets e, rr_TTL := ttl (ep_RecordTTL e)\<rparr>) endpoints"

definition endpointsToRRSetsIdentifiers :: "Endpoint list \<Rightarrow> string \<Rightarrow> RRSet list" where
  "endpointsToRRSetsIdentifiers endpoints domain = map (\<lambda>e. (partialRRSetFromFQDN (ep_DNSName e) domain)
     \<lparr>rr_Type := ep_RecordType e, rr_TTL := ttl (ep_RecordTTL e)\<rparr>) endpoints"

definition filterRRSets :: "RRSet list \<Rightarrow> string list \<Rightarrow> RRSet list" where
  "filterRRSets rrsets managedTypes = filter (\<lambda>rrset. strings_ToLower (rr_Type rrset) \<in> set managedTypes) rrsets"

section \<open>The provider\<close>

record 'w desec_client =
  dc_GetAll :: "string \<Rightarrow> ('w, RRSet list) go"
  dc_BulkCreate :: "string \<Rightarrow> RRSet list \<Rightarrow> ('w, unit) go"
  dc_BulkUpdate :: "string \<Rightarrow> RRSet list \<Rightarrow> ('w, unit) go"
  dc_BulkDelete :: "string \<Rightarrow> RRSet list \<Rightarrow> ('w, unit) go"

text \<open>The state is the world together with the metrics: the operations and whether they failed.\<close>

record 'w desec_state =
  ds_world :: 'w
  ds_total :: "(string \<times> bool) list"

record provider =
  pv_domain :: string
  pv_managedTypes :: "string list"

record Changes =
  chg_Create :: "Endpoint list"
  chg_UpdateNew :: "Endpoint list"
  chg_Delete :: "Endpoint list"

definition ErrAliasUnsupported :: goerr where "ErrAliasUnsupported = PlainError ''ALIAS records are not supported''"

definition with_metrics :: "string \<Rightarrow> ('w, 'a) go \<Rightarrow> ('w desec_state, 'a) go" where
  "with_metrics operation m s = (let (r, w) = m (ds_world s) in
     (r, s\<lparr>ds_world := w, ds_total := ds_total s @ [(operation, is_Err r)]\<rparr>))"

definition provider_getAll :: "'w desec_client \<Rightarrow> string \<Rightarrow> ('w desec_state, RRSet list) go" where
  "provider_getAll client domainName = with_metrics ''list'' (dc_GetAll client domainName)"

definition provider_bulkCreate :: "'w desec_client \<Rightarrow> string \<Rightarrow> RRSet list \<Rightarrow> ('w desec_state, unit) go" where
  "provider_bulkCreate client domainName rrSets = with_metrics ''create'' (dc_BulkCreate client domainName rrSets)"

definition provider_bulkUpdate :: "'w desec_client \<Rightarrow> string \<Rightarrow> RRSet list \<Rightarrow> ('w desec_state, unit) go" where
  "provider_bulkUpdate client domainName rrSets = with_metrics ''update'' (dc_BulkUpdate client domainName rrSets)"

definition provider_bulkDelete :: "'w desec_client \<Rightarrow> string \<Rightarrow> RRSet list \<Rightarrow> ('w desec_state, unit) go" where
  "provider_bulkDelete client domainName rrSets = with_metrics ''delete'' (dc_BulkDelete client domainName rrSets)"

definition provider_Records :: "(string \<Rightarrow> Labels outcome) \<Rightarrow> 'w desec_client \<Rightarrow> provider \<Rightarrow> ('w desec_state, Endpoint list) go" where
  "provider_Records parse client p =
     go_bind (go_wrap ''error while fetching all RRSets'' (provider_getAll client (pv_domain p))) (\<lambda>rrsets.
     ret (groupRRSets parse (filterRRSets rrsets (pv_managedTypes p))))"

definition quoted :: "string \<Rightarrow> string" where
  "quoted target = (if \<not> strings_HasPrefix target [CHR 0x22] \<or> \<not> strings_HasSuffix target [CHR 0x22] then [CHR 0x22] @ target @ [CHR 0x22] else target)"

definition adjust :: "Endpoint \<Rightarrow> Endpoint" where
  "adjust e = (let e = (if below_hour (ep_RecordTTL e) then e\<lparr>ep_RecordTTL := 3600\<rparr> else e) in
     if strings_ToLower (ep_RecordType e) = ''txt'' then e\<lparr>ep_Targets := map quoted (ep_Targets e)\<rparr> else e)"

fun AdjustEndpoints :: "string \<Rightarrow> Endpoint list \<Rightarrow> Endpoint list outcome" where
  "AdjustEndpoints domain [] = Ok []"
| "AdjustEndpoints domain (e # es) =
     (if strings_ToLower (ep_RecordType e) = ''alias'' then Err ErrAliasUnsupported
      else if \<not> strings_HasSuffix (ep_DNSName e) domain then AdjustEndpoints domain es
      else outcome_bind (AdjustEndpoints domain es) (\<lambda>result. Ok (adjust e # result)))"

definition when_any :: "RRSet list \<Rightarrow> ('w desec_state, unit) go \<Rightarrow> ('w desec_state, unit) go" where
  "when_any rrsets m = (if length rrsets > 0 then m else ret ())"

definition ApplyChanges :: "'w desec_client \<Rightarrow> provider \<Rightarrow> Changes \<Rightarrow> ('w desec_state, unit) go" where
  "ApplyChanges client p changes =
     (let create = endpointsToRRSets (chg_Create changes) (pv_domain p);
          update = endpointsToRRSets (chg_UpdateNew changes) (pv_domain p);
          remove = endpointsToRRSetsIdentifiers (chg_Delete changes) (pv_domain p) in
      go_bind (when_any create (go_wrap ''error while creating RRSets for the new endpoints'' (provider_bulkCreate client (pv_domain p) create))) (\<lambda>_.
      go_bind (when_any update (go_wrap ''error while updating RRSets for already-existing endpoints'' (provider_bulkUpdate client (pv_domain p) update))) (\<lambda>_.
      when_any remove (go_wrap ''error while deleting old RRSets'' (provider_bulkDelete client (pv_domain p) remove)))))"

definition NewDesec_managedTypes :: "string list \<Rightarrow> string list" where
  "NewDesec_managedTypes managedTypes = managedTypes @ [''txt'']"

section \<open>The webhook\<close>

text \<open>
  A list of endpoints that is nil is encoded as null.
  A response is the status that was sent and the values that were encoded; the metrics take the status
  that the handler itself wrote, 0 when it wrote none.
\<close>

datatype hook_body = BodyRecords "Endpoint list" | BodyNull | BodyFilter string

definition json_endpoints :: "Endpoint list \<Rightarrow> hook_body" where
  "json_endpoints es = (if es = [] then BodyNull else BodyRecords es)"

record hook_response =
  hr_status :: "int option"
  hr_written :: "int option"
  hr_bodies :: "hook_body list"

definition hook_WriteHeader :: "int \<Rightarrow> hook_response \<Rightarrow> hook_response" where
  "hook_WriteHeader code w = w\<lparr>hr_status := (case hr_status w of None \<Rightarrow> Some code | Some c \<Rightarrow> Some c), hr_written := Some code\<rparr>"

definition hook_Encode :: "hook_body \<Rightarrow> hook_response \<Rightarrow> hook_response" where
  "hook_Encode b w = w\<lparr>hr_status := (case hr_status w of None \<Rightarrow> Some 200 | Some c \<Rightarrow> Some c), hr_bodies := hr_bodies w @ [b]\<rparr>"

definition RecordsHandler :: "(string \<Rightarrow> Labels outcome) \<Rightarrow> 'w desec_client \<Rightarrow> provider \<Rightarrow> string \<Rightarrow> Changes outcome \<Rightarrow>
    hook_response \<Rightarrow> 'w desec_state \<Rightarrow> hook_response \<times> 'w desec_state" where
  "RecordsHandler parse client p method body w s =
     (if method = ''GET'' then (case provider_Records parse client p s of
          (Ok records, s') \<Rightarrow> (hook_Encode (json_endpoints records) (hook_WriteHeader 200 w), s')
        | (_, s') \<Rightarrow> (hook_WriteHeader 500 w, s'))
      else if method = ''POST'' then (case body of
          Ok changes \<Rightarrow> (case ApplyChanges client p changes s of
              (Ok _, s') \<Rightarrow> (hook_WriteHeader 204 w, s')
            | (_, s') \<Rightarrow> (hook_WriteHeader 500 w, s'))
        | _ \<Rightarrow> (hook_WriteHeader 400 w, s))
      else (hook_WriteHeader 400 w, s))"

definition AdjustEndpointsHandler :: "provider \<Rightarrow> string \<Rightarrow> Endpoint list outcome \<Rightarrow> hook_response \<Rightarrow> hook_response" where
  "AdjustEndpointsHandler p method body w =
     (if method \<noteq> ''POST'' then hook_WriteHeader 400 w
      else (case body of
          Ok pve \<Rightarrow> (case AdjustEndpoints (pv_domain p) pve of
              Ok pve' \<Rightarrow> hook_Encode (json_endpoints pve') w
            | _ \<Rightarrow> hook_Encode BodyNull (hook_WriteHeader 500 w))
        | _ \<Rightarrow> hook_WriteHeader 400 w))"

definition NegotiateHandler :: "provider \<Rightarrow> string \<Rightarrow> string \<Rightarrow> hook_response \<Rightarrow> hook_response" where
  "NegotiateHandler p path method w =
     (if path \<noteq> ''/'' then hook_WriteHeader 404 w
      else if method \<noteq> ''GET'' then hook_WriteHeader 400 w
      else hook_Encode (BodyFilter (pv_domain p)) w)"

definition collectWebhookMetrics :: "hook_response \<Rightarrow> int" where
  "collectWebhookMetrics w = (case hr_written w of None \<Rightarrow> 0 | Some code \<Rightarrow> code)"

section \<open>Lemmas\<close>

lemma lower_char_dot: "lower_char c = CHR ''.'' \<longleftrightarrow> c = CHR ''.''"
proof
  assume *: "lower_char c = CHR ''.''"
  have "CHR ''A'' \<le> c \<and> c \<le> CHR ''Z'' \<Longrightarrow> (of_char (lower_char c) :: nat) = of_char c + 32"
    by (simp add: lower_char_def less_eq_char_def)
  moreover have "(of_char (lower_char c) :: nat) = 46" using * by simp
  moreover have "CHR ''A'' \<le> c \<Longrightarrow> (65 :: nat) \<le> of_char c" by (simp add: less_eq_char_def)
  ultimately have "\<not> (CHR ''A'' \<le> c \<and> c \<le> CHR ''Z'')" by fastforce
  then show "c = CHR ''.''" using * by (auto simp: lower_char_def)
qed (simp add: lower_char_def)

lemma Split_map_lower: "strings_Split (map lower_char s) (CHR ''.'') = map (map lower_char) (strings_Split s (CHR ''.''))"
proof (induction s)
  case (Cons c s)
  then show ?case by (auto simp: lower_char_dot split: list.splits)
qed simp

lemma Join_map_lower: "map lower_char (strings_Join ws (CHR ''.'')) = strings_Join (map (map lower_char) ws) (CHR ''.'')"
  by (induction ws "CHR ''.''" rule: strings_Join.induct) (simp_all add: lower_char_def)

text \<open>The parts of a name in canonical form; a canonical name is a fixed point.\<close>

definition name_parts :: "string \<Rightarrow> string list" where
  "name_parts dn = map (map lower_char) (filter (\<lambda>part. part \<noteq> []) (strings_Split dn (CHR ''.'')))"

lemma canonicalize_parts: "canonicalize dn = strings_Join (name_parts dn) (CHR ''.'') @ ''.''"
  by (simp add: canonicalize_def strings_ToLower_def name_parts_def Join_map_lower) (simp add: lower_char_def)

lemma canonicalize_idem: "canonicalize (canonicalize dn) = canonicalize dn"
proof -
  let ?ps = "name_parts dn"
  have parts: "p \<noteq> []" "CHR ''.'' \<notin> set p" "map lower_char p = p" if "p \<in> set ?ps" for p
  proof -
    from that obtain q where q: "p = map lower_char q" "q \<noteq> []" "q \<in> set (strings_Split dn (CHR ''.''))" by (auto simp: name_parts_def)
    show "p \<noteq> []" "CHR ''.'' \<notin> set p" using q Split_elements [OF q(3)] by (auto simp: lower_char_dot dest: sym)
    show "map lower_char p = p" using ToLower_idem [of q] q(1) by (simp add: strings_ToLower_def)
  qed
  have "strings_Split (strings_Join ?ps (CHR ''.'') @ ''.'') (CHR ''.'') = (if ?ps = [] then [[], []] else ?ps @ [[]])"
    using Split_append [of "strings_Join ?ps (CHR ''.'')" "CHR ''.''" "[]"] Split_Join [of ?ps "CHR ''.''"] parts(2) by auto
  moreover have "filter (\<lambda>p. p \<noteq> []) ?ps = ?ps" "map (map lower_char) ?ps = ?ps" using parts by (auto intro: filter_True map_idI)
  ultimately have "name_parts (strings_Join ?ps (CHR ''.'') @ ''.'') = ?ps"
    unfolding name_parts_def [of "strings_Join ?ps (CHR ''.'') @ ''.''"] by simp
  then show ?thesis by (simp add: canonicalize_parts)
qed

text \<open>An hour and more is kept as it is.\<close>

lemma not_below_3600 [simp]: "\<not> below_hour 3600"
  by (simp add: below_hour_def Hour_def Second_def)

lemma ttl_idem [simp]: "ttl (ttl raw) = ttl raw" "\<not> below_hour (ttl raw)"
  by (simp_all add: ttl_def)

lemma ttl_at_least_an_hour:
  assumes "\<bar>sint raw\<bar> \<le> 9000000000"
  shows "3600 \<le> sint (ttl raw)"
proof (cases "below_hour raw")
  case False
  have "sint (raw * Second) = signed_take_bit 63 (sint raw * 1000000000)"
    by (simp add: Second_def sint_word_ariths)
  also have "\<dots> = sint raw * 1000000000" using assms by (intro signed_take_bit_int_eq_self) auto
  finally show ?thesis using False by (simp add: ttl_def below_hour_def Hour_def Second_def)
qed (simp add: ttl_def)

text \<open>For a time to live far below zero the product wraps around, and the negative value is kept.\<close>

lemma ttl_wraps: "sint (ttl (- 10000000000)) = - 10000000000"
  by (simp add: ttl_def below_hour_def Hour_def Second_def)

text \<open>What is created for an endpoint is read back as the endpoint with its canonical name and an hour at least.\<close>

lemma endpoint_roundtrip:
  "map (\<lambda>rrset. rrsetToEndpoint rrset l) (endpointsToRRSets es domain) =
   map (\<lambda>e. e\<lparr>ep_DNSName := canonicalize (ep_DNSName e), ep_RecordTTL := ttl (ep_RecordTTL e), ep_Labels := l\<rparr>) es"
  by (simp add: endpointsToRRSets_def rrsetToEndpoint_def partialRRSetFromFQDN_def canonicalize_idem Let_def)

text \<open>The name below the domain, and the record at the domain itself, which keeps its whole name.\<close>

lemma subname_below:
  assumes "canonicalize fqdn = sub @ CHR ''.'' # canonicalize domain"
  shows "rr_SubName (partialRRSetFromFQDN fqdn domain) = sub"
  using assms by (simp add: partialRRSetFromFQDN_def Let_def strings_TrimSuffix_def strings_HasSuffix_def)

lemma subname_apex: "rr_SubName (partialRRSetFromFQDN domain domain) = canonicalize domain"
  by (simp add: partialRRSetFromFQDN_def Let_def strings_TrimSuffix_def strings_HasSuffix_def)

lemma quoted_idem: "quoted (quoted t) = quoted t"
  by (simp add: quoted_def strings_HasPrefix_def strings_HasSuffix_def)

lemma adjust_idem: "adjust (adjust e) = adjust e"
  by (simp add: adjust_def Let_def comp_def quoted_idem)

lemma adjust_frame [simp]: "ep_DNSName (adjust e) = ep_DNSName e" "ep_RecordType (adjust e) = ep_RecordType e"
  by (simp_all add: adjust_def Let_def)

text \<open>Adjusting what was adjusted changes nothing; only endpoints whose name ends with the domain are kept.\<close>

lemma AdjustEndpoints_idem:
  "AdjustEndpoints domain es = Ok es' \<Longrightarrow> AdjustEndpoints domain es' = Ok es' \<and>
     es' = map adjust (filter (\<lambda>e. strings_HasSuffix (ep_DNSName e) domain) es)"
proof (induction es arbitrary: es')
  case (Cons e es)
  then show ?case by (auto simp: adjust_idem outcome_bind_def split: if_splits outcome.splits)
qed simp

text \<open>A name of another domain that ends with the same letters is kept.\<close>

lemma suffix_of_other_domain: "AdjustEndpoints ''pot.ovh'' [e\<lparr>ep_DNSName := ''teapot.ovh'', ep_RecordType := ''A''\<rparr>] \<noteq> Ok []"
  by (simp add: strings_HasSuffix_def strings_ToLower_def lower_char_def)

text \<open>Changes that succeed were applied in order, each kind in one call; after a call that fails there is no other.\<close>

lemma when_any_Ok:
  "when_any rrs (go_wrap c (with_metrics op m)) s = (Ok (), s') \<Longrightarrow> ds_total s' = ds_total s @ (if rrs = [] then [] else [(op, False)])"
  by (cases "m (ds_world s)"; cases "fst (m (ds_world s))") (auto simp: when_any_def with_metrics_def split: if_splits)

lemma endpointsToRRSets_Nil [simp]:
  "endpointsToRRSets es domain = [] \<longleftrightarrow> es = []" "endpointsToRRSetsIdentifiers es domain = [] \<longleftrightarrow> es = []"
  by (simp_all add: endpointsToRRSets_def endpointsToRRSetsIdentifiers_def)

lemma ApplyChanges_Ok:
  assumes "ApplyChanges client p changes s = (Ok (), s')"
  shows "ds_total s' = ds_total s @ (if chg_Create changes = [] then [] else [(''create'', False)]) @
    (if chg_UpdateNew changes = [] then [] else [(''update'', False)]) @ (if chg_Delete changes = [] then [] else [(''delete'', False)])"
proof -
  from assms obtain s1 s2 where
    "when_any (endpointsToRRSets (chg_Create changes) (pv_domain p)) (go_wrap ''error while creating RRSets for the new endpoints''
       (with_metrics ''create'' (dc_BulkCreate client (pv_domain p) (endpointsToRRSets (chg_Create changes) (pv_domain p))))) s = (Ok (), s1)"
    "when_any (endpointsToRRSets (chg_UpdateNew changes) (pv_domain p)) (go_wrap ''error while updating RRSets for already-existing endpoints''
       (with_metrics ''update'' (dc_BulkUpdate client (pv_domain p) (endpointsToRRSets (chg_UpdateNew changes) (pv_domain p))))) s1 = (Ok (), s2)"
    "when_any (endpointsToRRSetsIdentifiers (chg_Delete changes) (pv_domain p)) (go_wrap ''error while deleting old RRSets''
       (with_metrics ''delete'' (dc_BulkDelete client (pv_domain p) (endpointsToRRSetsIdentifiers (chg_Delete changes) (pv_domain p))))) s2 = (Ok (), s')"
    by (auto simp: ApplyChanges_def Let_def go_bind_eq_Ok provider_bulkCreate_def provider_bulkUpdate_def provider_bulkDelete_def)
  from this [THEN when_any_Ok] show ?thesis by simp
qed

lemma ApplyChanges_create_fails:
  assumes "chg_Create changes \<noteq> []" "dc_BulkCreate client (pv_domain p) (endpointsToRRSets (chg_Create changes) (pv_domain p)) (ds_world s) = (Err e, w)"
  shows "ApplyChanges client p changes s =
    (Err (Wrapped ''error while creating RRSets for the new endpoints'' e), s\<lparr>ds_world := w, ds_total := ds_total s @ [(''create'', True)]\<rparr>)"
  using assms by (simp add: ApplyChanges_def Let_def go_bind_def when_any_def go_wrap_def provider_bulkCreate_def with_metrics_def)

text \<open>An adjustment that fails is answered with 500 and a body, and one that succeeds is counted with the status 0.\<close>

lemma AdjustEndpointsHandler_status:
  assumes "hr_status w = None" "hr_written w = None" "hr_bodies w = []"
  shows "AdjustEndpoints (pv_domain p) es = Err e \<Longrightarrow> hr_status (AdjustEndpointsHandler p ''POST'' (Ok es) w) = Some 500 \<and>
      hr_bodies (AdjustEndpointsHandler p ''POST'' (Ok es) w) = [BodyNull]"
    "AdjustEndpoints (pv_domain p) es = Ok es' \<Longrightarrow> hr_status (AdjustEndpointsHandler p ''POST'' (Ok es) w) = Some 200 \<and>
      collectWebhookMetrics (AdjustEndpointsHandler p ''POST'' (Ok es) w) = 0"
  using assms by (simp_all add: AdjustEndpointsHandler_def hook_Encode_def hook_WriteHeader_def collectWebhookMetrics_def)

end
