(* ===== verification/Net.thy ===== *)
theory Net
  imports Go_Hoare Go_Strings "HOL-Library.AList" "HOL-Library.Multiset"
begin

text \<open>
  The network of the cluster, \<^verbatim>\<open>service/net\<close>: the nodes that Kubernetes reports, the cluster that is made
  of them, the routes (\<^verbatim>\<open>router\<close>), the peers of the tunnel (\<^verbatim>\<open>wireguard\<close>) and the configuration of the
  container network (\<^verbatim>\<open>cni\<close>).

  Kubernetes, netlink, WireGuard and iptables act on the world \<open>'w\<close> and are parameters, as are the
  textual forms of addresses, prefixes and keys. A map of the source is an association list; where the
  code ranges over it, the order is that of the list, and nothing depends on it.
\<close>

section \<open>Addresses\<close>

datatype Addr = NoAddr | Addr4 "byte list" | Addr6 "byte list"

definition Addr_IsValid :: "Addr \<Rightarrow> bool" where
  "Addr_IsValid a \<longleftrightarrow> a \<noteq> NoAddr"

definition Addr_Is4 :: "Addr \<Rightarrow> bool" where
  "Addr_Is4 a \<longleftrightarrow> (case a of Addr4 _ \<Rightarrow> True | _ \<Rightarrow> False)"

definition Addr_AsSlice :: "Addr \<Rightarrow> byte list" where
  "Addr_AsSlice a = (case a of NoAddr \<Rightarrow> [] | Addr4 bs \<Rightarrow> bs | Addr6 bs \<Rightarrow> bs)"

definition Addr_BitLen :: "Addr \<Rightarrow> int" where
  "Addr_BitLen a = (case a of NoAddr \<Rightarrow> 0 | Addr4 _ \<Rightarrow> 32 | Addr6 _ \<Rightarrow> 128)"

definition IPv4Unspecified :: Addr where
  "IPv4Unspecified = Addr4 [0, 0, 0, 0]"

text \<open>The next address, with the carry from the last byte; the address after the last one is invalid.\<close>

fun next_bytes :: "byte list \<Rightarrow> byte list option" where
  "next_bytes [] = None"
| "next_bytes (b # bs) = (case next_bytes bs of
      Some bs' \<Rightarrow> Some (b # bs')
    | None \<Rightarrow> if b + 1 = 0 then None else Some ((b + 1) # replicate (length bs) 0))"

definition Addr_Next :: "Addr \<Rightarrow> Addr" where
  "Addr_Next a = (case a of
      NoAddr \<Rightarrow> NoAddr
    | Addr4 bs \<Rightarrow> (case next_bytes bs of None \<Rightarrow> NoAddr | Some bs' \<Rightarrow> Addr4 bs')
    | Addr6 bs \<Rightarrow> (case next_bytes bs of None \<Rightarrow> NoAddr | Some bs' \<Rightarrow> Addr6 bs'))"

record Prefix =
  px_addr :: Addr
  px_bits :: int

definition PrefixFrom :: "Addr \<Rightarrow> int \<Rightarrow> Prefix" where
  "PrefixFrom a bits = \<lparr>px_addr = a, px_bits = (if a \<noteq> NoAddr \<and> 0 \<le> bits \<and> bits \<le> Addr_BitLen a then bits else -1)\<rparr>"

definition Prefix_IsValid :: "Prefix \<Rightarrow> bool" where
  "Prefix_IsValid p \<longleftrightarrow> 0 \<le> px_bits p"

record AddrPort =
  ap_addr :: Addr
  ap_port :: "16 word"

record IPNet =
  in_ip :: "byte list"
  in_ones :: int
  in_len :: int

definition InvalidAddrError :: "string \<Rightarrow> goerr" where
  "InvalidAddrError s = PlainError s"

definition PrefixToIPNet :: "Prefix \<Rightarrow> IPNet outcome" where
  "PrefixToIPNet p =
     (if \<not> Prefix_IsValid p then Err (InvalidAddrError ''invalid Prefix'')
      else if \<not> Addr_IsValid (px_addr p) then Err (InvalidAddrError ''invalid IP address in Prefix'')
      else Ok \<lparr>in_ip = Addr_AsSlice (px_addr p), in_ones = px_bits p, in_len = Addr_BitLen (px_addr p)\<rparr>)"

section \<open>Nodes\<close>

definition AnnotationExternalPort :: string where "AnnotationExternalPort = ''net.teapot.ovh/external-port''"
definition AnnotationPublicKey :: string where "AnnotationPublicKey = ''net.teapot.ovh/public-key''"
definition DefaultWireguardPort :: "16 word" where "DefaultWireguardPort = 51692"

datatype AddressType = NodeHostName | NodeInternalIP | NodeExternalIP | NodeInternalDNS | NodeExternalDNS

record KubeNode =
  kn_Name :: string
  kn_PodCIDRs :: "string list"
  kn_Addresses :: "(AddressType \<times> string) list"
  kn_Annotations :: "(string \<times> string) list"

record 'k Node =
  nd_InternalAddress :: Addr
  nd_PublicKey :: "'k option"
  nd_ExternalAddress :: AddrPort
  nd_Name :: string
  nd_CIDRs :: "Prefix list"

datatype 'k Event = Update "'k Node" | Delete string

record 'k textual =
  tx_ParseAddr :: "string \<Rightarrow> Addr outcome"
  tx_ParsePrefix :: "string \<Rightarrow> Prefix outcome"
  tx_Sscanf :: "string \<Rightarrow> 16 word outcome"
  tx_ParseKey :: "string \<Rightarrow> 'k outcome"

fun parse_cidrs :: "'k textual \<Rightarrow> string list \<Rightarrow> Prefix list outcome" where
  "parse_cidrs tx [] = Ok []"
| "parse_cidrs tx (cidr # cidrs) =
     outcome_bind (outcome_wrap (''error while parsing CIDR '' @ cidr) (tx_ParsePrefix tx cidr)) (\<lambda>p.
     outcome_bind (parse_cidrs tx cidrs) (\<lambda>ps. Ok (p # ps)))"

text \<open>The last address of a kind counts.\<close>

fun parse_addresses :: "'k textual \<Rightarrow> (AddressType \<times> string) list \<Rightarrow> Addr \<times> Addr \<Rightarrow> (Addr \<times> Addr) outcome" where
  "parse_addresses tx [] (int_ip, ext_ip) = Ok (int_ip, ext_ip)"
| "parse_addresses tx ((t, a) # addrs) (int_ip, ext_ip) =
     (if t = NodeInternalIP then
        outcome_bind (outcome_wrap (''error while parsing the internal ip '' @ a) (tx_ParseAddr tx a)) (\<lambda>ip. parse_addresses tx addrs (ip, ext_ip))
      else if t = NodeExternalIP then
        outcome_bind (outcome_wrap (''error while parsing the external ip '' @ a) (tx_ParseAddr tx a)) (\<lambda>ip. parse_addresses tx addrs (int_ip, ip))
      else parse_addresses tx addrs (int_ip, ext_ip))"

definition handle_port :: "'k textual \<Rightarrow> KubeNode \<Rightarrow> 16 word outcome" where
  "handle_port tx n = (case map_of (kn_Annotations n) AnnotationExternalPort of
      None \<Rightarrow> Ok DefaultWireguardPort
    | Some rawPort \<Rightarrow> outcome_wrap (''error while parsing the external port '' @ rawPort) (tx_Sscanf tx rawPort))"

definition handle_key :: "'k textual \<Rightarrow> KubeNode \<Rightarrow> 'k option outcome" where
  "handle_key tx n = (case map_of (kn_Annotations n) AnnotationPublicKey of
      None \<Rightarrow> Ok None
    | Some raw \<Rightarrow> outcome_bind (outcome_wrap (''error while parsing the public key '' @ raw) (tx_ParseKey tx raw)) (\<lambda>k. Ok (Some k)))"

text \<open>The handler of the controller: an error, or the event that is published.\<close>

definition Net_handle :: "'k textual \<Rightarrow> string \<Rightarrow> KubeNode option \<Rightarrow> 'k Event outcome" where
  "Net_handle tx name resource = (case resource of
      None \<Rightarrow> Ok (Delete name)
    | Some n \<Rightarrow>
        outcome_bind (parse_cidrs tx (kn_PodCIDRs n)) (\<lambda>cidrs.
        outcome_bind (parse_addresses tx (kn_Addresses n) (NoAddr, NoAddr)) (\<lambda>(internalIP, externalIP).
        outcome_bind (handle_port tx n) (\<lambda>port.
        outcome_bind (handle_key tx n) (\<lambda>publicKey.
        Ok (Update \<lparr>nd_InternalAddress = internalIP, nd_PublicKey = publicKey, nd_ExternalAddress = \<lparr>ap_addr = externalIP, ap_port = port\<rparr>,
          nd_Name = kn_Name n, nd_CIDRs = cidrs\<rparr>))))))"

section \<open>The cluster\<close>

record 'k ClusterNode =
  cn_InternalAddress :: Addr
  cn_PublicKey :: "'k option"
  cn_ExternalAddress :: AddrPort
  cn_CIDRs :: "Prefix list"
  cn_IsLocal :: bool

type_synonym 'k ClusterEvent = "(string \<times> 'k ClusterNode) list"

definition toClusterNode :: "string \<Rightarrow> 'k Node \<Rightarrow> 'k ClusterNode" where
  "toClusterNode local node = \<lparr>cn_InternalAddress = nd_InternalAddress node, cn_PublicKey = nd_PublicKey node,
     cn_ExternalAddress = nd_ExternalAddress node, cn_CIDRs = filter (\<lambda>cidr. Addr_Is4 (px_addr cidr)) (nd_CIDRs node),
     cn_IsLocal = (nd_Name node = local)\<rparr>"

text \<open>One turn of the loop: the new state and what is published.\<close>

fun Cluster_Run :: "string \<Rightarrow> 'k Event \<Rightarrow> 'k ClusterEvent \<Rightarrow> 'k ClusterEvent \<times> 'k ClusterEvent list" where
  "Cluster_Run local (Delete name) state = (AList.delete name state, [])"
| "Cluster_Run local (Update node) state =
     (let state' = AList.update (nd_Name node) (toClusterNode local node) state in (state', [state']))"

section \<open>The local node\<close>

record 'k Local =
  lo_node :: string
  lo_key :: 'k
  lo_port :: "16 word"
  lo_address :: Addr

record 'k LocalEvent =
  le_Address :: Addr
  le_Node :: string
  le_Port :: "16 word"
  le_PrivateKey :: 'k

definition Local_event :: "'k Local \<Rightarrow> 'k LocalEvent" where
  "Local_event l = \<lparr>le_Address = lo_address l, le_Node = lo_node l, le_Port = lo_port l, le_PrivateKey = lo_key l\<rparr>"

record ('k, 'w) key_ops =
  ko_PublicKey :: "'k \<Rightarrow> 'k"
  ko_String :: "'k \<Rightarrow> string"
  ko_ParseKey :: "string \<Rightarrow> 'k outcome"
  ko_ReadFile :: "string \<Rightarrow> ('w, string) go"
  ko_WriteFile :: "string \<Rightarrow> string \<Rightarrow> ('w, unit) go"
  ko_MkdirAll :: "string \<Rightarrow> ('w, unit) go"
  ko_Generate :: "('w, 'k) go"
  ko_AnnotateNode :: "string \<Rightarrow> string \<Rightarrow> string \<Rightarrow> ('w, unit) go"

definition getKey :: "('k, 'w) key_ops \<Rightarrow> string \<Rightarrow> ('w, 'k) go" where
  "getKey ko path =
     go_bind (go_wrap ''error while reading key file from filesystem'' (ko_ReadFile ko path)) (\<lambda>encodedKey.
     go_wrap ''error while parsing private key'' (lift (ko_ParseKey ko encodedKey)))"

definition storeKey :: "('k, 'w) key_ops \<Rightarrow> string \<Rightarrow> 'k \<Rightarrow> ('w, unit) go" where
  "storeKey ko path key = go_wrap ''error while writing wireguard key to filesystem'' (ko_WriteFile ko path (ko_String ko key))"

definition KeyFilename :: string where "KeyFilename = ''wireguard.key''"

definition NewLocal :: "('k, 'w) key_ops \<Rightarrow> string \<Rightarrow> string \<Rightarrow> ('w, 'k Local) go" where
  "NewLocal ko localNode rawPath =
     (let path = filepath_Clean rawPath; keyPath = filepath_Join [path, KeyFilename] in
      go_bind (go_wrap ''error while ensuring local state directory exists'' (ko_MkdirAll ko path)) (\<lambda>_ w.
      case getKey ko keyPath w of
        (Ok key, w') \<Rightarrow> (Ok \<lparr>lo_node = localNode, lo_key = key, lo_port = 0, lo_address = NoAddr\<rparr>, w')
      | (Err e, w') \<Rightarrow>
          go_bind (go_wrap ''error while generating wireguard key for local node'' (ko_Generate ko)) (\<lambda>key.
          go_bind (go_wrap ''error while generating wireguard key for local node'' (storeKey ko keyPath key)) (\<lambda>_.
          ret \<lparr>lo_node = localNode, lo_key = key, lo_port = 0, lo_address = NoAddr\<rparr>)) w'
      | (Panic p, w') \<Rightarrow> (Panic p, w')
      | (Diverge, w') \<Rightarrow> (Diverge, w')))"

text \<open>One turn of the loop of \<^verbatim>\<open>Local.Run\<close>: the new state and whether its event is published.\<close>

fun Local_Run :: "('k, 'w) key_ops \<Rightarrow> 'k Event \<Rightarrow> 'k Local \<Rightarrow> ('w, 'k Local \<times> 'k LocalEvent list) go" where
  "Local_Run ko (Delete name) l = ret (l, [])"
| "Local_Run ko (Update node) l =
     (if nd_Name node \<noteq> lo_node l then ret (l, [])
      else let l' = l\<lparr>lo_port := ap_port (nd_ExternalAddress node), lo_address := ap_addr (nd_ExternalAddress node)\<rparr>;
               pk = ko_PublicKey ko (lo_key l') in
        go_bind (if nd_PublicKey node \<noteq> Some pk
          then go_wrap ''error while storing public key in node annotation'' (ko_AnnotateNode ko (nd_Name node) AnnotationPublicKey (ko_String ko pk))
          else ret ()) (\<lambda>_. ret (l', [Local_event l'])))"

section \<open>The router\<close>

record route =
  ro_via :: Addr
  ro_target :: Prefix

definition directRoute :: "Prefix \<Rightarrow> route" where
  "directRoute target = \<lparr>ro_via = IPv4Unspecified, ro_target = target\<rparr>"

definition isDirect :: "route \<Rightarrow> bool" where
  "isDirect r \<longleftrightarrow> ro_via r = IPv4Unspecified"

record nl_route =
  nr_Dst :: IPNet
  nr_Gw :: "byte list option"

record 'w netlink =
  nl_RouteAdd :: "nl_route \<Rightarrow> ('w, unit) go"
  nl_RouteDel :: "nl_route \<Rightarrow> ('w, unit) go"

definition os_ErrExist :: goerr where "os_ErrExist = PlainError ''file exists''"

record 'w router_state =
  rs_routes :: "route list"
  rs_world :: 'w

definition netlinkRoute :: "route \<Rightarrow> nl_route outcome" where
  "netlinkRoute r = outcome_bind (outcome_wrap ''error while parsing route target'' (PrefixToIPNet (ro_target r))) (\<lambda>dst.
     Ok \<lparr>nr_Dst = dst, nr_Gw = (if \<not> isDirect r then Some (Addr_AsSlice (ro_via r)) else None)\<rparr>)"

fun wraps_exist :: "goerr \<Rightarrow> bool" where
  "wraps_exist (Wrapped c e) \<longleftrightarrow> wraps_exist e"
| "wraps_exist (Joined a b) \<longleftrightarrow> wraps_exist a \<or> wraps_exist b"
| "wraps_exist (HTTPError c e) \<longleftrightarrow> wraps_exist e"
| "wraps_exist e \<longleftrightarrow> e = os_ErrExist"

definition on_routes :: "('w, 'a) go \<Rightarrow> ('w router_state, 'a) go" where
  "on_routes m s = (let (r, w) = m (rs_world s) in (r, s\<lparr>rs_world := w\<rparr>))"

definition addRoute :: "'w netlink \<Rightarrow> route \<Rightarrow> ('w router_state, unit) go" where
  "addRoute nl r = go_bind (lift (netlinkRoute r)) (\<lambda>nlr s.
     case on_routes (nl_RouteAdd nl nlr) s of
       (Ok _, s') \<Rightarrow> (Ok (), s'\<lparr>rs_routes := List.insert r (rs_routes s')\<rparr>)
     | (Err e, s') \<Rightarrow> if wraps_exist e then (Ok (), s'\<lparr>rs_routes := List.insert r (rs_routes s')\<rparr>)
                      else (Err (Wrapped ''error while adding netlink route'' e), s')
     | (Panic p, s') \<Rightarrow> (Panic p, s')
     | (Diverge, s') \<Rightarrow> (Diverge, s'))"

definition delRoute :: "'w netlink \<Rightarrow> route \<Rightarrow> ('w router_state, unit) go" where
  "delRoute nl r = go_bind (lift (netlinkRoute r)) (\<lambda>nlr.
     go_bind (go_wrap ''error while removing netlink route'' (on_routes (nl_RouteDel nl nlr))) (\<lambda>_ s.
     (Ok (), s\<lparr>rs_routes := removeAll r (rs_routes s)\<rparr>)))"

definition NodePrefix :: int where "NodePrefix = 32"

definition node_routes :: "'k ClusterNode \<Rightarrow> route list" where
  "node_routes node =
     (if cn_IsLocal node \<or> \<not> Addr_IsValid (cn_InternalAddress node) then []
      else directRoute (PrefixFrom (cn_InternalAddress node) NodePrefix) #
        map (\<lambda>cidr. \<lparr>ro_via = cn_InternalAddress node, ro_target = cidr\<rparr>) (cn_CIDRs node))"

definition desired_routes :: "'k ClusterEvent \<Rightarrow> route list" where
  "desired_routes cluster = remdups (concat (map (\<lambda>(name, node). node_routes node) cluster))"

text \<open>\<^verbatim>\<open>slices.SortFunc\<close> with \<^verbatim>\<open>orderRoute\<close>: the direct routes first.\<close>

definition orderRoute :: "route \<Rightarrow> route \<Rightarrow> int" where
  "orderRoute r1 r2 = (if isDirect r1 \<and> \<not> isDirect r2 then -1 else if isDirect r2 \<and> \<not> isDirect r1 then 1 else 0)"

definition sort_routes :: "route list \<Rightarrow> route list" where
  "sort_routes rs = sort_key (\<lambda>r. if isDirect r then 0 else (1 :: nat)) rs"

fun each_route :: "string \<Rightarrow> (route \<Rightarrow> ('w router_state, unit) go) \<Rightarrow> route list \<Rightarrow> ('w router_state, unit) go" where
  "each_route c f [] = ret ()"
| "each_route c f (r # rs) = go_bind (go_wrap c (f r)) (\<lambda>_. each_route c f rs)"

definition configureRoutes :: "'w netlink \<Rightarrow> 'k ClusterEvent \<Rightarrow> ('w router_state, unit) go" where
  "configureRoutes nl cluster s =
     (let routes = desired_routes cluster; toadd = filter (\<lambda>r. r \<notin> set (rs_routes s)) routes in
      go_bind (each_route ''error while adding new route'' (addRoute nl) (sort_routes toadd)) (\<lambda>_ s'.
        each_route ''error while removing stale route'' (delRoute nl) (filter (\<lambda>r. r \<notin> set routes) (rs_routes s')) s') s)"

definition cleanupRoutes :: "'w netlink \<Rightarrow> ('w router_state, unit) go" where
  "cleanupRoutes nl s = each_route ''error while removing stale route'' (delRoute nl) (rs_routes s) s"

fun Router_Run :: "'w netlink \<Rightarrow> 'k ClusterEvent list \<Rightarrow> ('w router_state, unit) go" where
  "Router_Run nl [] = ret ()"
| "Router_Run nl (cluster # clusters) =
     go_bind (go_wrap ''error while configuring routes'' (configureRoutes nl cluster)) (\<lambda>_. Router_Run nl clusters)"

definition Router_RunCleanup :: "'w netlink \<Rightarrow> 'k ClusterEvent list \<Rightarrow> ('w router_state, unit) go" where
  "Router_RunCleanup nl clusters s = (let (r, s') = Router_Run nl clusters s; (c, s'') = cleanupRoutes nl s' in
     (case r of Ok _ \<Rightarrow> (case c of Err e \<Rightarrow> Err (Wrapped ''error while cleaning up routes'' e) | _ \<Rightarrow> c) | _ \<Rightarrow> r, s''))"

section \<open>Routes converge\<close>



















lemma sort_routes_set [simp]: "set (sort_routes rs) = set rs"
  by (simp add: sort_routes_def)













text \<open>A node that leaves the cluster is not published: the devices keep what they have until the next update.\<close>

lemma delete_not_published: "snd (Cluster_Run local (Delete name) state) = []"
  by simp

lemma Cluster_Run_update:
  "map_of (fst (Cluster_Run local (Update node) state)) name = (if name = nd_Name node then Some (toClusterNode local node) else map_of state name)"
  by (simp add: Let_def update_conv')

text \<open>The key of a node that is read back is the one that was stored.\<close>

lemma key_roundtrip:
  assumes "ko_WriteFile ko path (ko_String ko key) w = (Ok (), w')" "ko_ReadFile ko path w' = (Ok (ko_String ko key), w'')"
    "ko_ParseKey ko (ko_String ko key) = Ok key"
  shows "storeKey ko path key w = (Ok (), w') \<and> getKey ko path w' = (Ok key, w'')"
  using assms by (simp add: storeKey_def getKey_def)

end
