(* ===== verification/Net_Devices.thy ===== *)
theory Net_Devices
  imports Net
begin

text \<open>
  The devices of a node, over the cluster and the local node of \<open>Net\<close>: the peers of the tunnel
  (\<^verbatim>\<open>service/net/wireguard\<close>), and the bridge, the configuration file and the rules of the container
  network (\<^verbatim>\<open>service/net/cni\<close>). A key is its bytes, as in the source.
\<close>

section \<open>WireGuard\<close>

type_synonym key = "byte list"

definition DefaultPrivateKey :: key where "DefaultPrivateKey = replicate 32 0"

record UDPAddr =
  ud_IP :: "byte list"
  ud_Port :: int

record PeerConfig =
  pc_PublicKey :: key
  pc_Endpoint :: UDPAddr
  pc_AllowedIPs :: "IPNet list"

definition addrPortToUDPAddr :: "AddrPort \<Rightarrow> UDPAddr outcome" where
  "addrPortToUDPAddr ap = (if \<not> Addr_IsValid (ap_addr ap) then Err (InvalidAddrError ''invalid AddrPort'')
     else Ok \<lparr>ud_IP = Addr_AsSlice (ap_addr ap), ud_Port = uint (ap_port ap)\<rparr>)"

definition compareUDPAddr :: "UDPAddr \<Rightarrow> UDPAddr \<Rightarrow> bool" where
  "compareUDPAddr a b \<longleftrightarrow> ud_IP a = ud_IP b \<and> ud_Port a = ud_Port b"

text \<open>\<^verbatim>\<open>IPNet.Network\<close> is the name of the kind of network, the same for all.\<close>

definition IPNet_Network :: "IPNet \<Rightarrow> string" where
  "IPNet_Network n = ''ip+net''"

definition compareNetIP :: "IPNet \<Rightarrow> IPNet \<Rightarrow> bool" where
  "compareNetIP a b \<longleftrightarrow> in_ip a = in_ip b \<and> IPNet_Network a = IPNet_Network b"

definition comparePeerConfig :: "PeerConfig \<Rightarrow> PeerConfig \<Rightarrow> bool" where
  "comparePeerConfig a b \<longleftrightarrow> pc_PublicKey a = pc_PublicKey b \<and> compareUDPAddr (pc_Endpoint a) (pc_Endpoint b) \<and>
     list_all2 compareNetIP (pc_AllowedIPs a) (pc_AllowedIPs b)"

record 'w wg_ops =
  wl_AddrList :: "('w, byte list list) go"
  wl_AddrAdd :: "IPNet \<Rightarrow> ('w, unit) go"
  wl_ConfigureDevice :: "key \<Rightarrow> int \<Rightarrow> PeerConfig list \<Rightarrow> ('w, unit) go"

record 'w Wireguard =
  wg_local :: "key LocalEvent"
  wg_cluster :: "key ClusterEvent"
  wg_peers :: "PeerConfig list"
  wg_port :: "16 word"
  wg_privateKey :: key
  wg_world :: 'w

definition on_wg :: "('w, 'a) go \<Rightarrow> ('w Wireguard, 'a) go" where
  "on_wg m s = (let (r, w) = m (wg_world s) in (r, s\<lparr>wg_world := w\<rparr>))"

definition local_node :: "'k ClusterEvent \<Rightarrow> 'k ClusterNode option" where
  "local_node cluster = find cn_IsLocal (map snd cluster)"

definition addWireguardIP :: "'w wg_ops \<Rightarrow> ('w Wireguard, unit) go" where
  "addWireguardIP wl s = (case local_node (wg_cluster s) of
      None \<Rightarrow> (Ok (), s)
    | Some node \<Rightarrow> on_wg (
        go_bind (go_wrap ''error while listing addresses for the wireguard interface'' (wl_AddrList wl)) (\<lambda>addrs.
        if Addr_AsSlice (cn_InternalAddress node) \<in> set addrs then ret ()
        else go_bind (go_wrap ''error while computing local node IP'' (lift (PrefixToIPNet (PrefixFrom (cn_InternalAddress node) NodePrefix)))) (\<lambda>ip.
          go_wrap ''error while adding local node IP'' (wl_AddrAdd wl ip)))) s)"

fun allowed_ips :: "Prefix list \<Rightarrow> IPNet list outcome" where
  "allowed_ips [] = Ok []"
| "allowed_ips (c # cs) = outcome_bind (outcome_wrap ''error while computing allowed IP for node from CIDR'' (PrefixToIPNet c)) (\<lambda>n.
     outcome_bind (allowed_ips cs) (\<lambda>ns. Ok (n # ns)))"

definition node_peer :: "string \<Rightarrow> key ClusterNode \<Rightarrow> PeerConfig list outcome" where
  "node_peer name node =
     (if cn_IsLocal node then Ok []
      else case cn_PublicKey node of
        None \<Rightarrow> Ok []
      | Some publicKey \<Rightarrow>
          if \<not> Addr_IsValid (ap_addr (cn_ExternalAddress node)) then Ok []
          else outcome_bind (outcome_wrap (''error while computing endpoint for node '' @ name) (addrPortToUDPAddr (cn_ExternalAddress node))) (\<lambda>endpoint.
            outcome_bind (outcome_wrap (''error while computing allowed IP for node '' @ name) (PrefixToIPNet (PrefixFrom (cn_InternalAddress node) NodePrefix))) (\<lambda>ip.
            outcome_bind (allowed_ips (cn_CIDRs node)) (\<lambda>ips.
            Ok [\<lparr>pc_PublicKey = publicKey, pc_Endpoint = endpoint, pc_AllowedIPs = ip # ips\<rparr>]))))"

fun cluster_peers :: "key ClusterEvent \<Rightarrow> PeerConfig list outcome" where
  "cluster_peers [] = Ok []"
| "cluster_peers ((name, node) # cluster) =
     outcome_bind (node_peer name node) (\<lambda>p. outcome_bind (cluster_peers cluster) (\<lambda>ps. Ok (p @ ps)))"

definition configureWireguard :: "'w wg_ops \<Rightarrow> ('w Wireguard, unit) go" where
  "configureWireguard wl s =
     (if le_PrivateKey (wg_local s) = DefaultPrivateKey \<or> le_Port (wg_local s) = 0 then (Ok (), s)
      else go_bind (go_wrap ''error while adding local node IP to wireguard interface'' (addWireguardIP wl)) (\<lambda>_.
        go_bind (\<lambda>s. (cluster_peers (wg_cluster s), s)) (\<lambda>unsorted s.
          let newPeers = sort_key pc_PublicKey unsorted in
          if list_all2 comparePeerConfig newPeers (wg_peers s) \<and> wg_privateKey s = le_PrivateKey (wg_local s) \<and> wg_port s = le_Port (wg_local s)
          then (Ok (), s)
          else go_wrap ''error while configuring wireguard device''
            (on_wg (wl_ConfigureDevice wl (le_PrivateKey (wg_local s)) (uint (le_Port (wg_local s))) newPeers))
            (s\<lparr>wg_peers := newPeers, wg_privateKey := le_PrivateKey (wg_local s), wg_port := le_Port (wg_local s)\<rparr>))) s)"

datatype wg_event = ClusterChanged "key ClusterEvent" | LocalChanged "key LocalEvent"

fun Wireguard_Run :: "'w wg_ops \<Rightarrow> wg_event list \<Rightarrow> ('w Wireguard, unit) go" where
  "Wireguard_Run wl [] s = (Ok (), s)"
| "Wireguard_Run wl (e # es) s =
     go_bind (go_wrap ''error while configuring wireguard interface'' (configureWireguard wl)) (\<lambda>_. Wireguard_Run wl es)
       (case e of ClusterChanged c \<Rightarrow> s\<lparr>wg_cluster := c\<rparr> | LocalChanged l \<Rightarrow> s\<lparr>wg_local := l\<rparr>)"

section \<open>Container network\<close>

record rule =
  ru_table :: string
  ru_chain :: string
  ru_rule :: "string list"

record hostLocalIPAMRange =
  ir_Subnet :: string
  ir_Gateway :: string

record bridgePlugin =
  bp_Bridge :: string
  bp_MTU :: int
  bp_IsGateway :: bool
  bp_IPMasq :: bool
  bp_Ranges :: "hostLocalIPAMRange list list"
  bp_Routes :: "string list"

datatype plugin = Bridge bridgePlugin | Portmap bool

record cniConfigList =
  cl_CNIVersion :: string
  cl_Name :: string
  cl_Plugins :: "plugin list"

record 'w cni_ops =
  co_AddrString :: "Addr \<Rightarrow> string"
  co_PrefixString :: "Prefix \<Rightarrow> string"
  co_MarshalIndent :: "cniConfigList \<Rightarrow> string outcome"
  co_AddrList :: "('w, byte list list) go"
  co_AddrAdd :: "IPNet \<Rightarrow> ('w, unit) go"
  co_WriteFile :: "string \<Rightarrow> string \<Rightarrow> ('w, unit) go"
  co_Remove :: "string \<Rightarrow> ('w, unit) go"
  co_AppendUnique :: "rule \<Rightarrow> ('w, unit) go"
  co_DeleteRule :: "rule \<Rightarrow> ('w, unit) go"

definition OptimalMTU :: int where "OptimalMTU = 1380"

definition cniConfig :: "'w cni_ops \<Rightarrow> string \<Rightarrow> Prefix list \<Rightarrow> cniConfigList" where
  "cniConfig co device cidrs = \<lparr>cl_CNIVersion = ''1.1.0'', cl_Name = ''teapotnet'', cl_Plugins =
     [Bridge \<lparr>bp_Bridge = device, bp_MTU = OptimalMTU, bp_IsGateway = True, bp_IPMasq = False,
        bp_Ranges = map (\<lambda>cidr. [\<lparr>ir_Subnet = co_PrefixString co cidr, ir_Gateway = co_AddrString co (Addr_Next (px_addr cidr))\<rparr>]) cidrs,
        bp_Routes = [co_PrefixString co (PrefixFrom IPv4Unspecified 0)]\<rparr>,
      Portmap True]\<rparr>"

record 'w CNI =
  ci_device :: string
  ci_cniConfig :: string
  ci_cniPath :: string
  ci_rules :: "rule list"
  ci_cluster :: "key ClusterEvent"
  ci_local :: "key LocalEvent"
  ci_localNode :: "key ClusterNode"
  ci_world :: 'w

definition on_cni :: "('w, 'a) go \<Rightarrow> ('w CNI, 'a) go" where
  "on_cni m s = (let (r, w) = m (ci_world s) in (r, s\<lparr>ci_world := w\<rparr>))"

text \<open>The loop ends with the first prefix whose address the bridge already has.\<close>

fun add_bridge_ips :: "'w cni_ops \<Rightarrow> byte list list \<Rightarrow> Prefix list \<Rightarrow> ('w, unit) go" where
  "add_bridge_ips co addrs [] = ret ()"
| "add_bridge_ips co addrs (cidr # cidrs) =
     (let ip = Addr_Next (px_addr cidr) in
      if Addr_AsSlice ip \<in> set addrs then ret ()
      else go_bind (go_wrap ''error while computing bridge IP for CIDR'' (lift (PrefixToIPNet (PrefixFrom ip (px_bits cidr))))) (\<lambda>nip.
        go_bind (go_wrap ''error while adding bridge IP for CIDR'' (co_AddrAdd co nip)) (\<lambda>_. add_bridge_ips co addrs cidrs)))"

definition addCNIIP :: "'w cni_ops \<Rightarrow> ('w CNI, unit) go" where
  "addCNIIP co s = on_cni (go_bind (go_wrap ''error while listing addresses for the CNI interface'' (co_AddrList co)) (\<lambda>addrs.
     add_bridge_ips co addrs (cn_CIDRs (ci_localNode s)))) s"

definition writeCNIConfig :: "'w cni_ops \<Rightarrow> ('w CNI, unit) go" where
  "writeCNIConfig co s =
     go_bind (go_wrap ''error while marshaling CNI config'' (lift (co_MarshalIndent co (cniConfig co (ci_device s) (cn_CIDRs (ci_localNode s)))))) (\<lambda>rawConfig s.
       if rawConfig = ci_cniConfig s then (Ok (), s)
       else go_bind (go_wrap ''error while writing CNI config'' (on_cni (co_WriteFile co (ci_cniPath s) rawConfig))) (\<lambda>_ s.
         (Ok (), s\<lparr>ci_cniConfig := rawConfig\<rparr>)) s) s"

definition cidr_rules :: "'w cni_ops \<Rightarrow> Prefix \<Rightarrow> rule list" where
  "cidr_rules co cidr = (let c = co_PrefixString co cidr in
     [\<lparr>ru_table = ''filter'', ru_chain = ''FORWARD'', ru_rule = [''-s'', c, ''-j'', ''ACCEPT'']\<rparr>,
      \<lparr>ru_table = ''filter'', ru_chain = ''FORWARD'', ru_rule = [''-d'', c, ''-j'', ''ACCEPT'']\<rparr>,
      \<lparr>ru_table = ''nat'', ru_chain = ''POSTROUTING'', ru_rule = [''-s'', c, ''!'', ''-d'', c, ''-j'', ''MASQUERADE'']\<rparr>])"

fun each_rule :: "string \<Rightarrow> (rule \<Rightarrow> ('w, unit) go) \<Rightarrow> rule list \<Rightarrow> ('w, unit) go" where
  "each_rule c f [] = ret ()"
| "each_rule c f (r # rs) = go_bind (go_wrap c (f r)) (\<lambda>_. each_rule c f rs)"

definition addCNIRules :: "'w cni_ops \<Rightarrow> ('w CNI, unit) go" where
  "addCNIRules co s = (let rules = concat (map (cidr_rules co) (cn_CIDRs (ci_localNode s))) in
     go_bind (on_cni (each_rule ''error while adding iptables rule'' (co_AppendUnique co) rules)) (\<lambda>_ s. (Ok (), s\<lparr>ci_rules := rules\<rparr>)) s)"

definition configureCNI :: "'w cni_ops \<Rightarrow> ('w CNI, unit) go" where
  "configureCNI co s =
     (if le_Node (ci_local s) = [] then (Ok (), s)
      else case local_node (ci_cluster s) of
        None \<Rightarrow> (Ok (), s)
      | Some n \<Rightarrow>
          go_bind (go_wrap ''error while adding IPs to the CNI interface'' (addCNIIP co)) (\<lambda>_.
          go_bind (go_wrap ''error while writing CNI configuration'' (writeCNIConfig co)) (\<lambda>_.
          go_wrap ''error while adding CNI iptables rules'' (addCNIRules co))) (s\<lparr>ci_localNode := n\<rparr>))"

definition cleanupCNIFile :: "'w cni_ops \<Rightarrow> ('w CNI, unit) go" where
  "cleanupCNIFile co s = (if length (ci_cniConfig s) > 0
     then go_wrap ''error while removing CNI configuration'' (on_cni (co_Remove co (ci_cniPath s))) s else (Ok (), s))"

definition cleanupIptables :: "'w cni_ops \<Rightarrow> ('w CNI, unit) go" where
  "cleanupIptables co s = on_cni (each_rule ''error while removing stale iptables rule'' (co_DeleteRule co) (ci_rules s)) s"

section \<open>Lemmas\<close>

text \<open>The peers of the tunnel are the other nodes with a key and an address.\<close>

lemma node_peer_Ok:
  assumes "node_peer name node = Ok ps"
  shows "ps \<noteq> [] \<longleftrightarrow> \<not> cn_IsLocal node \<and> cn_PublicKey node \<noteq> None \<and> Addr_IsValid (ap_addr (cn_ExternalAddress node))"
  using assms by (auto simp: node_peer_def outcome_bind_def split: if_splits option.splits outcome.splits)

lemma cluster_peers_Ok:
  "cluster_peers cluster = Ok ps \<Longrightarrow>
     set (map pc_PublicKey ps) = {k. \<exists>name node. (name, node) \<in> set cluster \<and> \<not> cn_IsLocal node \<and> cn_PublicKey node = Some k \<and>
       Addr_IsValid (ap_addr (cn_ExternalAddress node))}"
proof (induction cluster arbitrary: ps)
  case (Cons c cluster)
  obtain name node where c: "c = (name, node)" by force
  with Cons.prems obtain p qs where p: "node_peer name node = Ok p" "cluster_peers cluster = Ok qs" "ps = p @ qs"
    by (auto simp: outcome_bind_def split: outcome.splits)
  have "set (map pc_PublicKey p) = {k. \<not> cn_IsLocal node \<and> cn_PublicKey node = Some k \<and> Addr_IsValid (ap_addr (cn_ExternalAddress node))}"
    using p(1) by (auto simp: node_peer_def outcome_bind_def split: if_splits option.splits outcome.splits)
  then show ?case using Cons.IH [OF p(2)] p(3) c by auto
qed simp

text \<open>An update that changes nothing does not touch the device.\<close>

lemma compare_refl: "list_all2 comparePeerConfig ps ps"
  by (simp add: list_all2_same comparePeerConfig_def compareUDPAddr_def compareNetIP_def)

lemma unchanged_peers:
  assumes "cluster_peers (wg_cluster s) = Ok ps" "list_all2 comparePeerConfig (sort_key pc_PublicKey ps) (wg_peers s)"
    "wg_privateKey s = le_PrivateKey (wg_local s)" "wg_port s = le_Port (wg_local s)"
    "fst (addWireguardIP wl s) = Ok ()" "snd (addWireguardIP wl s) = s"
  shows "configureWireguard wl s = (Ok (), s)"
proof -
  have "addWireguardIP wl s = (Ok (), s)" using assms(5,6) by (metis prod.collapse)
  then show ?thesis using assms(1-4) by (simp add: configureWireguard_def go_bind_def go_wrap_def)
qed

text \<open>A prefix of another length counts as no change.\<close>

lemma mask_ignored: "compareNetIP n (n\<lparr>in_ones := k\<rparr>)"
  by (simp add: compareNetIP_def IPNet_Network_def)

text \<open>When the bridge has the address of the first prefix, the other prefixes get none.\<close>

lemma later_cidrs_skipped: "Addr_AsSlice (Addr_Next (px_addr cidr)) \<in> set addrs \<Longrightarrow> add_bridge_ips co addrs (cidr # cidrs) = ret ()"
  by simp

text \<open>The rules that are remembered for the clean-up are those of the last configuration; older ones stay.\<close>

lemma addCNIRules_Ok:
  assumes "addCNIRules co s = (Ok (), s')"
  shows "ci_rules s' = concat (map (cidr_rules co) (cn_CIDRs (ci_localNode s)))"
  using assms by (auto simp: addCNIRules_def Let_def go_bind_eq_Ok on_cni_def split_beta)

end
