(* ===== verification/Kube.thy ===== *)
theory Kube
  imports Net
begin

text \<open>
  The Kubernetes controllers: \<^verbatim>\<open>lib/kubecontroller\<close>, \<^verbatim>\<open>lib/kubeutil\<close>, \<^verbatim>\<open>service/loadbalancer\<close> and
  \<^verbatim>\<open>service/ccm\<close> with its three parts. The API server, the work queue of client-go and the retries are
  parameters. The laws that the lemmas use of them are stated on what a world holds: nodes, pods and
  services by name.
\<close>

section \<open>The controller\<close>

record 'q work_queue =
  wq_Get :: "'q \<Rightarrow> string option \<times> 'q"
  wq_Done :: "string \<Rightarrow> 'q \<Rightarrow> 'q"
  wq_Forget :: "string \<Rightarrow> 'q \<Rightarrow> 'q"
  wq_AddRateLimited :: "string \<Rightarrow> 'q \<Rightarrow> 'q"
  wq_NumRequeues :: "string \<Rightarrow> 'q \<Rightarrow> int"

record ('q, 'r, 'w) Controller =
  kc_queue :: "'q work_queue"
  kc_GetByKey :: "string \<Rightarrow> 'w \<Rightarrow> 'r option outcome"
  kc_handler :: "string \<Rightarrow> 'r option \<Rightarrow> ('w, unit) go"
  kc_numRetries :: int

definition controller_numRetries :: "int \<Rightarrow> int" where
  "controller_numRetries n = (if n = 0 then 5 else n)"

definition callHandler :: "('q, 'r, 'w) Controller \<Rightarrow> string \<Rightarrow> ('w, unit) go" where
  "callHandler c key w = go_bind (lift (kc_GetByKey c key w)) (kc_handler c key) w"

definition handleErr :: "('q, 'r, 'w) Controller \<Rightarrow> goerr option \<Rightarrow> string \<Rightarrow> 'q \<Rightarrow> 'q" where
  "handleErr c err key q =
     (if err = None then wq_Forget (kc_queue c) key q
      else if wq_NumRequeues (kc_queue c) key q < kc_numRetries c then wq_AddRateLimited (kc_queue c) key q
      else wq_Forget (kc_queue c) key q)"

definition processNextItem :: "('q, 'r, 'w) Controller \<Rightarrow> ('q \<times> 'w, bool) go" where
  "processNextItem c = (\<lambda>(q, w). case wq_Get (kc_queue c) q of
      (None, q') \<Rightarrow> (Ok False, q', w)
    | (Some key, q') \<Rightarrow> (case callHandler c key w of
        (Ok _, w') \<Rightarrow> (Ok True, wq_Done (kc_queue c) key (handleErr c None key q'), w')
      | (Err e, w') \<Rightarrow> (Ok True, wq_Done (kc_queue c) key (handleErr c (Some e) key q'), w')
      | (Panic p, w') \<Rightarrow> (Panic p, wq_Done (kc_queue c) key q', w')
      | (Diverge, w') \<Rightarrow> (Diverge, q', w')))"

text \<open>What client-go documents of the queue: a key that is added again is counted, a forgotten one is not.\<close>

definition queue_laws :: "'q work_queue \<Rightarrow> bool" where
  "queue_laws Q \<longleftrightarrow> (\<forall>k q. wq_NumRequeues Q k (wq_Forget Q k q) = 0 \<and>
     wq_NumRequeues Q k (wq_AddRateLimited Q k q) = wq_NumRequeues Q k q + 1)"

lemma requeues:
  assumes "queue_laws Q" "wq_NumRequeues Q k q = 0"
  shows "wq_NumRequeues Q k ((wq_AddRateLimited Q k ^^ i) q) = int i"
  using assms by (induction i) (simp_all add: queue_laws_def)

text \<open>
  A key that always fails is put back as often as the configuration says, and then given up: the next
  failure forgets it, so that a later update starts from the beginning.
\<close>

lemma handleErr_retries:
  assumes "queue_laws (kc_queue c)" "wq_NumRequeues (kc_queue c) k q = 0" "int i \<le> kc_numRetries c"
  shows "(handleErr c (Some e) k ^^ i) q = (wq_AddRateLimited (kc_queue c) k ^^ i) q"
    and "kc_numRetries c = int i \<Longrightarrow> handleErr c (Some e) k ((handleErr c (Some e) k ^^ i) q) =
      wq_Forget (kc_queue c) k ((wq_AddRateLimited (kc_queue c) k ^^ i) q)"
proof -
  show one: "(handleErr c (Some e) k ^^ i) q = (wq_AddRateLimited (kc_queue c) k ^^ i) q"
    using assms(3)
  proof (induction i)
    case (Suc i)
    then show ?case using requeues [OF assms(1,2), of i] by (simp add: handleErr_def)
  qed simp
  show "handleErr c (Some e) k ((handleErr c (Some e) k ^^ i) q) = wq_Forget (kc_queue c) k ((wq_AddRateLimited (kc_queue c) k ^^ i) q)"
    if "kc_numRetries c = int i"
    using that requeues [OF assms(1,2), of i] by (simp add: one handleErr_def)
qed

lemma handled_forgotten:
  assumes "queue_laws (kc_queue c)" "wq_Get (kc_queue c) q = (Some key, q')" "callHandler c key w = (Ok (), w')"
    and "\<And>k q. wq_NumRequeues (kc_queue c) k (wq_Done (kc_queue c) k q) = wq_NumRequeues (kc_queue c) k q"
  shows "\<exists>q''. processNextItem c (q, w) = (Ok True, q'', w') \<and> wq_NumRequeues (kc_queue c) key q'' = 0"
  using assms by (simp add: processNextItem_def handleErr_def queue_laws_def)

section \<open>Nodes of the API server\<close>

record Taint =
  ta_Key :: string
  ta_Value :: string
  ta_Effect :: string

record ApiNode = KubeNode +
  kn_Taints :: "Taint list"
  kn_Conditions :: "(string \<times> string) list"

record 'w kube_api =
  ka_GetNode :: "string \<Rightarrow> ('w, ApiNode) go"
  ka_UpdateNode :: "ApiNode \<Rightarrow> ('w, unit) go"
  ka_UpdateStatus :: "ApiNode \<Rightarrow> ('w, unit) go"
  ka_RetryOnConflict :: "('w, unit) go \<Rightarrow> ('w, unit) go"

definition AnnotateNode :: "'w kube_api \<Rightarrow> string \<Rightarrow> string \<Rightarrow> string \<Rightarrow> ('w, unit) go" where
  "AnnotateNode api name key value = ka_RetryOnConflict api (
     go_bind (go_wrap (''failed to get kubernetes node '' @ name) (ka_GetNode api name)) (\<lambda>node.
     go_wrap (''failed to update kubernetes node '' @ kn_Name node)
       (ka_UpdateNode api (node\<lparr>kn_Annotations := AList.update key value (kn_Annotations node)\<rparr>))))"

fun delete_first :: "('a \<Rightarrow> bool) \<Rightarrow> 'a list \<Rightarrow> 'a list" where
  "delete_first P [] = []"
| "delete_first P (x # xs) = (if P x then xs else x # delete_first P xs)"

definition RemoveTaint :: "'w kube_api \<Rightarrow> string \<Rightarrow> string \<Rightarrow> string \<Rightarrow> ('w, unit) go" where
  "RemoveTaint api nodeName key value =
     go_bind (go_wrap (''failed to get kubernetes node '' @ nodeName) (ka_GetNode api nodeName)) (\<lambda>node.
       let hit = (\<lambda>taint. ta_Key taint = key \<and> ta_Value taint = value) in
       if \<not> list_ex hit (kn_Taints node) then ret ()
       else go_wrap (''failed to update taint '' @ key)
         (ka_UpdateNode api (node\<lparr>kn_Taints := delete_first hit (kn_Taints node)\<rparr>)))"

text \<open>
  What the lemmas use of the API server: a read returns what is there and changes nothing, a write that
  succeeds stores the node; the result of a retried call is that of its last attempt.
\<close>

definition api_laws :: "'w kube_api \<Rightarrow> ('w \<Rightarrow> string \<Rightarrow> ApiNode option) \<Rightarrow> bool" where
  "api_laws api nodes \<longleftrightarrow>
     (\<forall>name w n w'. ka_GetNode api name w = (Ok n, w') \<longrightarrow> w' = w \<and> nodes w name = Some n) \<and>
     (\<forall>name w n. nodes w name = Some n \<longrightarrow> kn_Name n = name) \<and>
     (\<forall>n w w'. ka_UpdateNode api n w = (Ok (), w') \<longrightarrow> nodes w' = (nodes w)(kn_Name n \<mapsto> n)) \<and>
     (\<forall>n w w'. ka_UpdateStatus api n w = (Ok (), w') \<longrightarrow> nodes w' = (nodes w)(kn_Name n \<mapsto> n)) \<and>
     (\<forall>f w r w'. ka_RetryOnConflict api f w = (r, w') \<longrightarrow> (\<exists>v. f v = (r, w')))"

lemma annotation_stored:
  assumes "api_laws api nodes" "AnnotateNode api name key value w = (Ok (), w')"
  shows "\<exists>n. nodes w' name = Some n \<and> map_of (kn_Annotations n) key = Some value"
proof -
  obtain v where "go_bind (go_wrap (''failed to get kubernetes node '' @ name) (ka_GetNode api name)) (\<lambda>node.
     go_wrap (''failed to update kubernetes node '' @ kn_Name node)
       (ka_UpdateNode api (node\<lparr>kn_Annotations := AList.update key value (kn_Annotations node)\<rparr>))) v = (Ok (), w')"
    using assms unfolding AnnotateNode_def api_laws_def by blast
  then obtain n v' where n: "ka_GetNode api name v = (Ok n, v')"
    "ka_UpdateNode api (n\<lparr>kn_Annotations := AList.update key value (kn_Annotations n)\<rparr>) v' = (Ok (), w')"
    by (auto simp: go_bind_def go_wrap_def split: prod.splits outcome.splits)
  moreover have "nodes w' = (nodes v')(kn_Name n \<mapsto> n\<lparr>kn_Annotations := AList.update key value (kn_Annotations n)\<rparr>)" "kn_Name n = name"
    using assms(1) n unfolding api_laws_def by fastforce+
  ultimately show ?thesis by (simp add: update_conv')
qed

section \<open>The cloud controller\<close>

text \<open>The state of \<^verbatim>\<open>CCM\<close>: the node it runs on, the addresses it was told, and the world of the API server.\<close>

record 'w ccm_state =
  cm_node :: string
  cm_internalIP :: Addr
  cm_externalIP :: Addr
  cm_world :: 'w

record ccm_Event =
  ev_Node :: string
  ev_ExternalIP :: Addr
  ev_InternalIP :: Addr
  ev_Hostname :: string

definition ccm_addresses :: "(Addr \<Rightarrow> string) \<Rightarrow> ('w, 'z) ccm_state_scheme \<Rightarrow> (AddressType \<times> string) list" where
  "ccm_addresses str s = (NodeHostName, cm_node s) #
     (if Addr_IsValid (cm_internalIP s) then [(NodeInternalIP, str (cm_internalIP s))] else []) @
     (if Addr_IsValid (cm_externalIP s) then [(NodeExternalIP, str (cm_externalIP s))] else [])"

definition CCM_update :: "'w kube_api \<Rightarrow> (Addr \<Rightarrow> string) \<Rightarrow> (('w, 'z) ccm_state_scheme, unit) go" where
  "CCM_update api str s = (let addresses = ccm_addresses str s;
      (r, w) = ka_RetryOnConflict api (
        go_bind (go_wrap (''failed to get kubernetes node '' @ cm_node s) (ka_GetNode api (cm_node s))) (\<lambda>node.
        go_wrap (''failed to update kubernetes node '' @ kn_Name node) (ka_UpdateStatus api (node\<lparr>kn_Addresses := addresses\<rparr>)))) (cm_world s)
     in (r, s\<lparr>cm_world := w\<rparr>))"

definition CCM_SetInternalIP :: "'w kube_api \<Rightarrow> (Addr \<Rightarrow> string) \<Rightarrow> Addr \<Rightarrow> (('w, 'z) ccm_state_scheme, unit) go" where
  "CCM_SetInternalIP api str addr s = CCM_update api str (s\<lparr>cm_internalIP := addr\<rparr>)"

definition CCM_SetExternalIP :: "'w kube_api \<Rightarrow> (Addr \<Rightarrow> string) \<Rightarrow> Addr \<Rightarrow> (('w, 'z) ccm_state_scheme, unit) go" where
  "CCM_SetExternalIP api str addr s = CCM_update api str (s\<lparr>cm_externalIP := addr\<rparr>)"

text \<open>An address that does not parse is the zero address.\<close>

definition parsed_or_zero :: "(string \<Rightarrow> Addr outcome) \<Rightarrow> string \<Rightarrow> Addr" where
  "parsed_or_zero parse a = (case parse a of Ok ip \<Rightarrow> ip | _ \<Rightarrow> NoAddr)"

fun read_addresses :: "(string \<Rightarrow> Addr outcome) \<Rightarrow> (AddressType \<times> string) list \<Rightarrow> ccm_Event \<Rightarrow> ccm_Event" where
  "read_addresses parse [] ev = ev"
| "read_addresses parse ((t, a) # addrs) ev = read_addresses parse addrs (case t of
      NodeExternalIP \<Rightarrow> ev\<lparr>ev_ExternalIP := parsed_or_zero parse a\<rparr>
    | NodeInternalIP \<Rightarrow> ev\<lparr>ev_InternalIP := parsed_or_zero parse a\<rparr>
    | NodeHostName \<Rightarrow> ev\<lparr>ev_Hostname := a\<rparr>
    | _ \<Rightarrow> ev)"

text \<open>The handler of the controller: the event that is published, if any.\<close>

definition CCM_handle :: "(string \<Rightarrow> Addr outcome) \<Rightarrow> string \<Rightarrow> string \<Rightarrow> ApiNode option \<Rightarrow> ccm_Event option outcome" where
  "CCM_handle parse own name resource =
     (if name \<noteq> own then Ok None
      else case resource of
        None \<Rightarrow> Panic ''invalid memory address or nil pointer dereference''
      | Some node \<Rightarrow> Ok (Some (read_addresses parse (kn_Addresses node)
          \<lparr>ev_Node = kn_Name node, ev_ExternalIP = NoAddr, ev_InternalIP = NoAddr, ev_Hostname = []\<rparr>)))"

lemma CCM_update_stored:
  assumes "api_laws api nodes" "CCM_update api str s = (Ok (), s')"
  shows "\<exists>n. nodes (cm_world s') (cm_node s) = Some n \<and> kn_Addresses n = ccm_addresses str s \<and> s' = s\<lparr>cm_world := cm_world s'\<rparr>"
proof -
  let ?f = "go_bind (go_wrap (''failed to get kubernetes node '' @ cm_node s) (ka_GetNode api (cm_node s))) (\<lambda>node.
        go_wrap (''failed to update kubernetes node '' @ kn_Name node) (ka_UpdateStatus api (node\<lparr>kn_Addresses := ccm_addresses str s\<rparr>)))"
  obtain w where w: "ka_RetryOnConflict api ?f (cm_world s) = (Ok (), w)" "s' = s\<lparr>cm_world := w\<rparr>"
    using assms(2) by (auto simp: CCM_update_def Let_def split: prod.splits)
  obtain v where "?f v = (Ok (), w)" using assms(1) w(1) unfolding api_laws_def by blast
  then obtain n v' where n: "ka_GetNode api (cm_node s) v = (Ok n, v')"
    "ka_UpdateStatus api (n\<lparr>kn_Addresses := ccm_addresses str s\<rparr>) v' = (Ok (), w)"
    by (auto simp: go_bind_def go_wrap_def split: prod.splits outcome.splits)
  moreover have "nodes w = (nodes v')(kn_Name n \<mapsto> n\<lparr>kn_Addresses := ccm_addresses str s\<rparr>)" "kn_Name n = cm_node s"
    using assms(1) n unfolding api_laws_def by fastforce+
  ultimately show ?thesis using w(2) by simp
qed

text \<open>
  Round trip through the API server: after an update that succeeds, the event that the controller
  publishes for the stored node carries the addresses that were set.
\<close>

lemma ccm_roundtrip:
  assumes "api_laws api nodes" "CCM_update api str s = (Ok (), s')" "\<And>a. Addr_IsValid a \<Longrightarrow> parse (str a) = Ok a"
  shows "CCM_handle parse (cm_node s) (cm_node s) (nodes (cm_world s') (cm_node s)) =
    Ok (Some \<lparr>ev_Node = cm_node s, ev_ExternalIP = cm_externalIP s, ev_InternalIP = cm_internalIP s, ev_Hostname = cm_node s\<rparr>)"
proof -
  obtain n where n: "nodes (cm_world s') (cm_node s) = Some n" "kn_Addresses n = ccm_addresses str s"
    using CCM_update_stored [OF assms(1,2)] by blast
  moreover have "kn_Name n = cm_node s" using assms(1) n(1) unfolding api_laws_def by blast
  ultimately show ?thesis using assms(3)
    by (auto simp: CCM_handle_def ccm_addresses_def parsed_or_zero_def Addr_IsValid_def)
qed

lemma deleted_node_panics: "CCM_handle parse own own None = Panic ''invalid memory address or nil pointer dereference''"
  by (simp add: CCM_handle_def)

subsection \<open>The external address\<close>

record 'w http_api =
  ha_NewRequest :: "string \<Rightarrow> unit outcome"
  ha_Do :: "string \<Rightarrow> ('w, int) go"
  ha_ReadAll :: "('w, string) go"
  ha_Close :: "('w, unit) go"
  ha_Retry :: "nat \<Rightarrow> ('w, Addr) go \<Rightarrow> ('w, Addr) go"

definition ErrInvalidResponseCode :: goerr where "ErrInvalidResponseCode = PlainError ''invalid response code''"

text \<open>One request; the deferred close of the body replaces the error.\<close>

definition fetch_body :: "'w http_api \<Rightarrow> (string \<Rightarrow> Addr outcome) \<Rightarrow> int \<Rightarrow> ('w, Addr) go" where
  "fetch_body ha parse code = go_bind (go_wrap ''error reading response body'' (ha_ReadAll ha)) (\<lambda>body.
     if code \<noteq> 200 then throw (Wrapped ''error in response'' ErrInvalidResponseCode)
     else lift (outcome_wrap ''error parsing IP address from response'' (parse body)))"

definition fetch_once :: "'w http_api \<Rightarrow> (string \<Rightarrow> Addr outcome) \<Rightarrow> string \<Rightarrow> ('w, Addr) go" where
  "fetch_once ha parse server =
     go_bind (lift (outcome_wrap ''error creating request'' (ha_NewRequest ha server))) (\<lambda>_.
     go_bind (go_wrap ''error performing request'' (ha_Do ha server)) (\<lambda>code w.
       let (r, w1) = fetch_body ha parse code w in
       case r of Diverge \<Rightarrow> (Diverge, w1) | _ \<Rightarrow>
         (case ha_Close ha w1 of
            (Ok _, w2) \<Rightarrow> (r, w2)
          | (Err e, w2) \<Rightarrow> (case r of Panic p \<Rightarrow> Panic p | _ \<Rightarrow> Err (Wrapped ''error while closing request body'' e), w2)
          | (Panic p, w2) \<Rightarrow> (Panic p, w2)
          | (Diverge, w2) \<Rightarrow> (Diverge, w2))))"

definition fetchPublicIP :: "'w http_api \<Rightarrow> (string \<Rightarrow> Addr outcome) \<Rightarrow> nat \<Rightarrow> string \<Rightarrow> ('w, Addr) go" where
  "fetchPublicIP ha parse maxRetries server = ha_Retry ha maxRetries (fetch_once ha parse server)"

record 'w eip_state = "'w ccm_state" +
  ei_externalIP :: Addr

definition setExternalIP :: "'w kube_api \<Rightarrow> (Addr \<Rightarrow> string) \<Rightarrow> Addr \<Rightarrow> ('w eip_state, unit) go" where
  "setExternalIP api str ip = go_bind (go_wrap ''error while updating node ExternalIP'' (CCM_SetExternalIP api str ip))
     (\<lambda>_ s. (Ok (), s\<lparr>ei_externalIP := ip\<rparr>))"

datatype eip_input = Ticked | EipEvent ccm_Event

definition ExternalIP_turn :: "'w kube_api \<Rightarrow> (Addr \<Rightarrow> string) \<Rightarrow> ('w, Addr) go \<Rightarrow> eip_input \<Rightarrow> ('w eip_state, unit) go" where
  "ExternalIP_turn api str fetch i s = (case i of
      Ticked \<Rightarrow> (let (r, w) = fetch (cm_world s) in
        go_bind (go_wrap ''error while fetching public IP'' (lift r)) (\<lambda>publicIP s'.
          if ei_externalIP s' = publicIP then (Ok (), s') else setExternalIP api str publicIP s') (s\<lparr>cm_world := w\<rparr>))
    | EipEvent event \<Rightarrow>
        if Addr_IsValid (ei_externalIP s) then
          (if ev_ExternalIP event \<noteq> ei_externalIP s then setExternalIP api str (ei_externalIP s) s else (Ok (), s))
        else (Ok (), s\<lparr>ei_externalIP := ev_ExternalIP event\<rparr>))"

fun ExternalIP_Run :: "'w kube_api \<Rightarrow> (Addr \<Rightarrow> string) \<Rightarrow> ('w, Addr) go \<Rightarrow> eip_input list \<Rightarrow> ('w eip_state, unit) go" where
  "ExternalIP_Run api str fetch [] = ret ()"
| "ExternalIP_Run api str fetch (i # is) = go_bind (ExternalIP_turn api str fetch i) (\<lambda>_. ExternalIP_Run api str fetch is)"

text \<open>
  Whoever changes the external address in Kubernetes: once the address is known, a turn that ends
  well for an event with another address has stored the known one again.
\<close>

lemma tampering_undone:
  assumes "api_laws api nodes" "ExternalIP_turn api str fetch (EipEvent event) s = (Ok (), s')"
    and "Addr_IsValid (ei_externalIP s)" "ev_ExternalIP event \<noteq> ei_externalIP s"
  shows "ei_externalIP s' = ei_externalIP s \<and>
    (\<exists>n. nodes (cm_world s') (cm_node s) = Some n \<and> (NodeExternalIP, str (ei_externalIP s)) \<in> set (kn_Addresses n))"
proof -
  obtain s1 where s1: "CCM_update api str (s\<lparr>cm_externalIP := ei_externalIP s\<rparr>) = (Ok (), s1)" "s' = s1\<lparr>ei_externalIP := ei_externalIP s\<rparr>"
    using assms(2-4) by (auto simp: ExternalIP_turn_def setExternalIP_def CCM_SetExternalIP_def go_bind_def go_wrap_def split: prod.splits outcome.splits)
  from CCM_update_stored [OF assms(1) s1(1)] s1(2) assms(3) show ?thesis by (auto simp: ccm_addresses_def)
qed

subsection \<open>The internal address\<close>

definition ErrAddressForNode :: goerr where "ErrAddressForNode = PlainError ''could not generate random node local address''"

text \<open>Every second byte of the hash, from the first or from the second one, added without carry.\<close>

definition hash_byte :: "byte list \<Rightarrow> nat \<Rightarrow> byte" where
  "hash_byte hash i = fold (\<lambda>j b. xor b (hash ! (2 * j + i))) [0..<8] 0"

definition AddrFromSlice :: "byte list \<Rightarrow> Addr option" where
  "AddrFromSlice bs = (if length bs = 4 then Some (Addr4 bs) else if length bs = 16 then Some (Addr6 bs) else None)"

definition nodeInternalIP :: "(string \<Rightarrow> byte list) \<Rightarrow> Prefix \<Rightarrow> string \<Rightarrow> Addr outcome" where
  "nodeInternalIP md5 p nodeName = (let hash = md5 nodeName; bytes = Addr_AsSlice (px_addr p) in
     if length bytes < 4 then Panic ''index out of range''
     else case AddrFromSlice (bytes[2 := hash_byte hash 0, 3 := hash_byte hash 1]) of
         None \<Rightarrow> Err ErrAddressForNode
       | Some addr \<Rightarrow> Ok addr)"

lemma nodeInternalIP_v4:
  "nodeInternalIP md5 \<lparr>px_addr = Addr4 [a, b, c, d], px_bits = n\<rparr> name =
    Ok (Addr4 [a, b, hash_byte (md5 name) 0, hash_byte (md5 name) 1])"
  by (simp add: nodeInternalIP_def Addr_AsSlice_def AddrFromSlice_def Let_def)

text \<open>Two nodes have the same address exactly when the two folded bytes of their hashes agree.\<close>

lemma nodeInternalIP_collision:
  "nodeInternalIP md5 \<lparr>px_addr = Addr4 [a, b, c, d], px_bits = n\<rparr> x = nodeInternalIP md5 \<lparr>px_addr = Addr4 [a, b, c, d], px_bits = n\<rparr> y \<longleftrightarrow>
    hash_byte (md5 x) 0 = hash_byte (md5 y) 0 \<and> hash_byte (md5 x) 1 = hash_byte (md5 y) 1"
  by (simp add: nodeInternalIP_v4)

record 'w iip_state = "'w ccm_state" +
  ii_internalIP :: Addr
  ii_node :: string

definition setInternalIP :: "'w kube_api \<Rightarrow> (Addr \<Rightarrow> string) \<Rightarrow> Addr \<Rightarrow> ('w iip_state, unit) go" where
  "setInternalIP api str ip = go_bind (go_wrap ''error while updating node InternalIP'' (CCM_SetInternalIP api str ip))
     (\<lambda>_ s. (Ok (), s\<lparr>ii_internalIP := ip\<rparr>))"

definition InternalIP_turn :: "'w kube_api \<Rightarrow> (Addr \<Rightarrow> string) \<Rightarrow> (string \<Rightarrow> byte list) \<Rightarrow> Prefix \<Rightarrow> ccm_Event \<Rightarrow> ('w iip_state, unit) go" where
  "InternalIP_turn api str md5 p event s =
     (if \<not> Addr_IsValid (ev_InternalIP event) \<or> ii_node s = ev_Node event then
        go_bind (go_wrap ''error while computing local node IP'' (lift (nodeInternalIP md5 p (ev_Node event)))) (\<lambda>newIP.
          setInternalIP api str newIP) (s\<lparr>ii_node := ev_Node event\<rparr>)
      else if Addr_IsValid (ii_internalIP s) \<and> ev_InternalIP event \<noteq> ii_internalIP s then setInternalIP api str (ii_internalIP s) s
      else (Ok (), s))"

fun InternalIP_Run :: "'w kube_api \<Rightarrow> (Addr \<Rightarrow> string) \<Rightarrow> (string \<Rightarrow> byte list) \<Rightarrow> Prefix \<Rightarrow> ccm_Event list \<Rightarrow> ('w iip_state, unit) go" where
  "InternalIP_Run api str md5 p [] = ret ()"
| "InternalIP_Run api str md5 p (e # es) = go_bind (InternalIP_turn api str md5 p e) (\<lambda>_. InternalIP_Run api str md5 p es)"

text \<open>
  The events are all about one node, so the address that was set is known only together with the
  node: the branch that undoes tampering is never taken, and the address is computed and written
  again for every event.
\<close>

definition iip_inv :: "string \<Rightarrow> 'w iip_state \<Rightarrow> bool" where
  "iip_inv own s \<longleftrightarrow> (Addr_IsValid (ii_internalIP s) \<longrightarrow> ii_node s = own)"

lemma CCM_update_keeps:
  "ii_node (snd (CCM_SetInternalIP api str a (s :: 'w iip_state))) = ii_node s"
  "ii_internalIP (snd (CCM_SetInternalIP api str a (s :: 'w iip_state))) = ii_internalIP s"
  by (simp_all add: CCM_SetInternalIP_def CCM_update_def Let_def split: prod.splits)

lemma setInternalIP_node: "ii_node (snd (setInternalIP api str a s)) = ii_node s"
  using CCM_update_keeps(1) [of api str a s]
  by (auto simp: setInternalIP_def go_bind_def go_wrap_def split: prod.splits outcome.splits)

lemma InternalIP_turn_inv:
  assumes "iip_inv own s" "ev_Node e = own"
  shows "iip_inv own (snd (InternalIP_turn api str md5 p e s))"
proof (cases "\<not> Addr_IsValid (ev_InternalIP e) \<or> ii_node s = ev_Node e")
  case True
  then have "ii_node (snd (InternalIP_turn api str md5 p e s)) = own" using assms
    by (auto simp: InternalIP_turn_def go_bind_def go_wrap_def lift_def setInternalIP_node split: prod.splits outcome.splits)
  then show ?thesis by (simp add: iip_inv_def)
next
  case False
  then show ?thesis using assms by (auto simp: InternalIP_turn_def iip_inv_def)
qed

lemma tamper_branch_unreachable:
  assumes "iip_inv own s" "ev_Node e = own" "Addr_IsValid (ii_internalIP s)"
  shows "InternalIP_turn api str md5 p e s =
    go_bind (go_wrap ''error while computing local node IP'' (lift (nodeInternalIP md5 p own))) (setInternalIP api str) s"
proof -
  have node: "ii_node s = own" using assms by (simp add: iip_inv_def)
  then have same: "s\<lparr>ii_node := own\<rparr> = s" by (cases s) simp
  show ?thesis using assms(2) node by (simp add: InternalIP_turn_def same)
qed

subsection \<open>Initialisation\<close>

definition Initialize_turn :: "'w kube_api \<Rightarrow> ccm_Event \<Rightarrow> ('w, unit) go" where
  "Initialize_turn api event =
     (if \<not> Addr_IsValid (ev_InternalIP event) \<or> \<not> Addr_IsValid (ev_ExternalIP event) then ret ()
      else go_wrap (''error while removing uninitialized taint from node '' @ ev_Node event)
        (RemoveTaint api (ev_Node event) ''node.cloudprovider.kubernetes.io/uninitialized'' ''true''))"

fun Initialize_Run :: "'w kube_api \<Rightarrow> ccm_Event list \<Rightarrow> ('w, unit) go" where
  "Initialize_Run api [] = ret ()"
| "Initialize_Run api (e # es) = go_bind (Initialize_turn api e) (\<lambda>_. Initialize_Run api es)"

lemma delete_first_set: "distinct xs \<Longrightarrow> (\<And>x y. x \<in> set xs \<Longrightarrow> y \<in> set xs \<Longrightarrow> P x \<Longrightarrow> P y \<Longrightarrow> x = y) \<Longrightarrow> set (delete_first P xs) = {x \<in> set xs. \<not> P x}"
  by (induction xs) auto

text \<open>
  When a turn ends well for a node with both addresses, the node has no taint any more that marks it
  as uninitialised, if it had at most one (the API server takes no two taints with the same key and effect);
  all other taints are as they were.
\<close>

lemma initialized:
  assumes "api_laws api nodes" "Initialize_turn api e w = (Ok (), w')" "Addr_IsValid (ev_InternalIP e)" "Addr_IsValid (ev_ExternalIP e)"
    and hit: "hit = (\<lambda>t. ta_Key t = ''node.cloudprovider.kubernetes.io/uninitialized'' \<and> ta_Value t = ''true'')"
    and one: "\<And>n x y. nodes w (ev_Node e) = Some n \<Longrightarrow> distinct (kn_Taints n) \<and>
      (x \<in> set (kn_Taints n) \<longrightarrow> y \<in> set (kn_Taints n) \<longrightarrow> hit x \<longrightarrow> hit y \<longrightarrow> x = y)"
  shows "\<exists>n n'. nodes w (ev_Node e) = Some n \<and> nodes w' (ev_Node e) = Some n' \<and> set (kn_Taints n') = {t \<in> set (kn_Taints n). \<not> hit t}"
proof -
  have run: "RemoveTaint api (ev_Node e) ''node.cloudprovider.kubernetes.io/uninitialized'' ''true'' w = (Ok (), w')"
    using assms(2-4) by (auto simp: Initialize_turn_def go_wrap_def split: prod.splits outcome.splits)
  then obtain n v where n: "ka_GetNode api (ev_Node e) w = (Ok n, v)"
    by (auto simp: RemoveTaint_def go_bind_def go_wrap_def split: prod.splits outcome.splits)
  then have v: "v = w" "nodes w (ev_Node e) = Some n" using assms(1) unfolding api_laws_def by blast+
  then have name: "kn_Name n = ev_Node e" using assms(1) unfolding api_laws_def by blast
  show ?thesis
  proof (cases "list_ex hit (kn_Taints n)")
    case False
    then have "w' = w" using run n v by (auto simp: RemoveTaint_def go_bind_def go_wrap_def ret_def hit Let_def split: prod.splits outcome.splits)
    then show ?thesis using False v by (auto simp: list_ex_iff)
  next
    case True
    then have "ka_UpdateNode api (n\<lparr>kn_Taints := delete_first hit (kn_Taints n)\<rparr>) w = (Ok (), w')"
      using run n v by (auto simp: RemoveTaint_def go_bind_def go_wrap_def hit Let_def split: prod.splits outcome.splits)
    then have "nodes w' = (nodes w)(ev_Node e \<mapsto> n\<lparr>kn_Taints := delete_first hit (kn_Taints n)\<rparr>)"
      using assms(1) name unfolding api_laws_def by fastforce
    then show ?thesis using v one [OF v(2)] delete_first_set [of "kn_Taints n" hit] by auto
  qed
qed

section \<open>The load balancer\<close>

type_synonym labels = "(string \<times> string) list"

record LoadBalancerIngress =
  ig_IP :: string
  ig_IPMode :: string

record Service =
  sv_Namespace :: string
  sv_Name :: string
  sv_Type :: string
  sv_Selector :: labels
  sv_Ingress :: "LoadBalancerIngress list"

record Pod =
  pd_Namespace :: string
  pd_Labels :: labels
  pd_NodeName :: string
  pd_Phase :: string

text \<open>
  The client of controller-runtime, the matching of labels, and the order in which a map of node names
  is iterated.
\<close>

record 'w lb_api =
  la_GetService :: "string \<times> string \<Rightarrow> ('w, Service) go"
  la_IsNotFound :: "goerr \<Rightarrow> bool"
  la_ListPods :: "string \<Rightarrow> labels \<Rightarrow> ('w, Pod list) go"
  la_GetNode :: "string \<Rightarrow> ('w, ApiNode) go"
  la_PatchStatus :: "Service \<Rightarrow> LoadBalancerIngress list \<Rightarrow> ('w, unit) go"
  la_ListServices :: "string \<Rightarrow> ('w, Service list) go"
  la_PodsOn :: "string \<Rightarrow> ('w, Pod list) go"
  la_Matches :: "labels \<Rightarrow> labels \<Rightarrow> bool"
  la_order :: "string list \<Rightarrow> string list"

definition nodeIsReady :: "ApiNode \<Rightarrow> bool" where
  "nodeIsReady node = (case map_of (kn_Conditions node) ''Ready'' of Some status \<Rightarrow> status = ''True'' | None \<Rightarrow> False)"

fun fresh_ips :: "string list \<Rightarrow> (AddressType \<times> string) list \<Rightarrow> string list" where
  "fresh_ips seen [] = []"
| "fresh_ips seen ((t, a) # addrs) =
     (if t = NodeExternalIP \<and> a \<notin> set seen then a # fresh_ips (a # seen) addrs else fresh_ips seen addrs)"

fun node_ips :: "'w lb_api \<Rightarrow> string list \<Rightarrow> string list \<Rightarrow> ('w, string list) go" where
  "node_ips api seen [] w = (Ok seen, w)"
| "node_ips api seen (name # names) w = (case la_GetNode api name w of
      (Ok node, w') \<Rightarrow> if \<not> nodeIsReady node then node_ips api seen names w'
        else node_ips api (seen @ fresh_ips seen (kn_Addresses node)) names w'
    | (Err e, w') \<Rightarrow> node_ips api seen names w'
    | (Panic p, w') \<Rightarrow> (Panic p, w')
    | (Diverge, w') \<Rightarrow> (Diverge, w'))"

definition pod_nodes :: "Pod list \<Rightarrow> string list" where
  "pod_nodes pods = remdups (map pd_NodeName (filter (\<lambda>pod. pd_NodeName pod \<noteq> [] \<and> pd_Phase pod = ''Running'') pods))"

definition reconcile_service :: "'w lb_api \<Rightarrow> Service \<Rightarrow> ('w, unit) go" where
  "reconcile_service api svc =
     (if sv_Type svc \<noteq> ''LoadBalancer'' then ret ()
      else go_bind (la_ListPods api (sv_Namespace svc) (sv_Selector svc)) (\<lambda>pods.
        go_bind (node_ips api [] (la_order api (pod_nodes pods))) (\<lambda>ips.
          let ingresses = map (\<lambda>ip. \<lparr>ig_IP = ip, ig_IPMode = ''Proxy''\<rparr>) ips in
          if sv_Ingress svc \<noteq> ingresses then la_PatchStatus api svc ingresses else ret ())))"

definition Reconcile :: "'w lb_api \<Rightarrow> string \<times> string \<Rightarrow> ('w, unit) go" where
  "Reconcile api req w = (case la_GetService api req w of
      (Ok svc, w') \<Rightarrow> reconcile_service api svc w'
    | (Err e, w') \<Rightarrow> (if la_IsNotFound api e then Ok () else Err e, w')
    | (Panic p, w') \<Rightarrow> (Panic p, w')
    | (Diverge, w') \<Rightarrow> (Diverge, w'))"

definition podToService :: "'w lb_api \<Rightarrow> Pod \<Rightarrow> 'w \<Rightarrow> (string \<times> string) list outcome \<times> 'w" where
  "podToService api pod w = (case la_ListServices api (pd_Namespace pod) w of
      (Ok svcs, w') \<Rightarrow> (Ok (map (\<lambda>svc. (sv_Namespace svc, sv_Name svc))
        (filter (\<lambda>svc. sv_Type svc = ''LoadBalancer'' \<and> la_Matches api (sv_Selector svc) (pd_Labels pod)) svcs)), w')
    | (Err e, w') \<Rightarrow> (Ok [], w')
    | (Panic p, w') \<Rightarrow> (Panic p, w')
    | (Diverge, w') \<Rightarrow> (Diverge, w'))"

fun pods_requests :: "'w lb_api \<Rightarrow> (string \<times> string) list \<Rightarrow> Pod list \<Rightarrow> ('w, (string \<times> string) list) go" where
  "pods_requests api seen [] = ret seen"
| "pods_requests api seen (pod # pods) = go_bind (podToService api pod) (\<lambda>reqs.
     pods_requests api (fold (\<lambda>req seen. if req \<in> set seen then seen else seen @ [req]) reqs seen) pods)"

definition nodeToService :: "'w lb_api \<Rightarrow> string \<Rightarrow> ('w, (string \<times> string) list) go" where
  "nodeToService api nodeName w = (case la_PodsOn api nodeName w of
      (Ok pods, w') \<Rightarrow> pods_requests api [] pods w'
    | (Err e, w') \<Rightarrow> (Ok [], w')
    | (Panic p, w') \<Rightarrow> (Panic p, w')
    | (Diverge, w') \<Rightarrow> (Diverge, w'))"

subsection \<open>What the API server promises\<close>

text \<open>
  A world holds services by name, pods, and nodes by name. Reads return what is there and change
  nothing; the list of pods has those of the namespace that the selector matches; a patch that succeeds
  replaces the status. Map iteration visits every key once.
\<close>

definition lb_laws :: "'w lb_api \<Rightarrow> ('w \<Rightarrow> string \<times> string \<Rightarrow> Service option) \<Rightarrow> ('w \<Rightarrow> Pod set) \<Rightarrow> ('w \<Rightarrow> string \<Rightarrow> ApiNode option) \<Rightarrow> bool" where
  "lb_laws api svcs pods nodes \<longleftrightarrow>
     (\<forall>key w s w'. la_GetService api key w = (Ok s, w') \<longrightarrow> w' = w \<and> svcs w key = Some s) \<and>
     (\<forall>key w s. svcs w key = Some s \<longrightarrow> key = (sv_Namespace s, sv_Name s)) \<and>
     (\<forall>ns sel w ps w'. la_ListPods api ns sel w = (Ok ps, w') \<longrightarrow>
        w' = w \<and> set ps = {p \<in> pods w. pd_Namespace p = ns \<and> la_Matches api sel (pd_Labels p)}) \<and>
     (\<forall>name w. la_GetNode api name w = (case nodes w name of Some n \<Rightarrow> Ok n | None \<Rightarrow> Err (PlainError ''not found''), w)) \<and>
     (\<forall>s is w w'. la_PatchStatus api s is w = (Ok (), w') \<longrightarrow> svcs w' = (svcs w)((sv_Namespace s, sv_Name s) \<mapsto> s\<lparr>sv_Ingress := is\<rparr>)) \<and>
     (\<forall>ns w ss w'. la_ListServices api ns w = (Ok ss, w') \<longrightarrow> w' = w \<and> set ss = {s. \<exists>key. svcs w key = Some s \<and> sv_Namespace s = ns}) \<and>
     (\<forall>name w ps w'. la_PodsOn api name w = (Ok ps, w') \<longrightarrow> w' = w \<and> set ps = {p \<in> pods w. pd_NodeName p = name}) \<and>
     (\<forall>xs. distinct xs \<longrightarrow> distinct (la_order api xs) \<and> set (la_order api xs) = set xs)"

lemmas lb_laws_unfolded = lb_laws_def [THEN iffD1]

lemmas lb_pods_on = lb_laws_unfolded [THEN conjunct2, THEN conjunct2, THEN conjunct2, THEN conjunct2, THEN conjunct2, THEN conjunct2, THEN conjunct1, rule_format]









lemma fold_requests:
  "set (fold (\<lambda>req seen. if req \<in> set seen then seen else seen @ [req]) reqs seen) = set seen \<union> set reqs \<and>
   (distinct seen \<longrightarrow> distinct (fold (\<lambda>req seen. if req \<in> set seen then seen else seen @ [req]) reqs seen))"
  by (induction reqs arbitrary: seen) auto

text \<open>The requests for a node are those of its pods, each once.\<close>

lemma pods_requests_Ok:
  "pods_requests api seen ps w = (Ok reqs, w') \<Longrightarrow> (\<And>p v. snd (podToService api p v) = v) \<Longrightarrow> distinct seen \<Longrightarrow>
    distinct reqs \<and> set reqs = set seen \<union> (\<Union>p \<in> set ps. {r. \<exists>rs. podToService api p w = (Ok rs, w) \<and> r \<in> set rs})"
proof (induction ps arbitrary: seen w)
  case (Cons p ps)
  have same: "\<And>p v. snd (podToService api p v) = v" by (rule Cons.prems(2))
  obtain rs where rs: "podToService api p w = (Ok rs, w)"
    "pods_requests api (fold (\<lambda>req seen. if req \<in> set seen then seen else seen @ [req]) rs seen) ps w = (Ok reqs, w')"
    using Cons.prems(1) same [of p w] by (auto simp: go_bind_def split: prod.splits outcome.splits)
  from Cons.IH [OF rs(2) same] fold_requests [of rs seen] Cons.prems(3) rs(1) show ?case by auto
qed (simp add: ret_def)


subsection \<open>A cluster\<close>

text \<open>Two ready nodes and one that is not, a service with a pod on each of them; the world is the service.\<close>

definition kube_node :: "string \<Rightarrow> string \<Rightarrow> string \<Rightarrow> ApiNode" where
  "kube_node name ip ready = \<lparr>kn_Name = name, kn_PodCIDRs = [], kn_Addresses = [(NodeHostName, name), (NodeExternalIP, ip)],
     kn_Annotations = [], kn_Taints = [], kn_Conditions = [(''Ready'', ready)]\<rparr>"

definition kube_nodes :: "(string \<times> ApiNode) list" where
  "kube_nodes = [(''a'', kube_node ''a'' ''1.2.3.4'' ''True''), (''b'', kube_node ''b'' ''5.6.7.8'' ''True''), (''c'', kube_node ''c'' ''9.9.9.9'' ''False'')]"

definition kube_pods :: "Pod list" where
  "kube_pods = map (\<lambda>n. \<lparr>pd_Namespace = ''web'', pd_Labels = [(''app'', ''x'')], pd_NodeName = n, pd_Phase = ''Running''\<rparr>) [''a'', ''b'', ''c'']"

definition kube_matches :: "labels \<Rightarrow> labels \<Rightarrow> bool" where
  "kube_matches sel ls \<longleftrightarrow> list_all (\<lambda>(k, v). map_of ls k = Some v) sel"

definition kube_key :: "Service \<Rightarrow> string \<times> string" where
  "kube_key s = (sv_Namespace s, sv_Name s)"

definition kube_client :: "(string list \<Rightarrow> string list) \<Rightarrow> Service lb_api" where
  "kube_client order = \<lparr>
     la_GetService = (\<lambda>key w. (if key = kube_key w then Ok w else Err (PlainError ''not found''), w)),
     la_IsNotFound = (\<lambda>e. e = PlainError ''not found''),
     la_ListPods = (\<lambda>ns sel w. (Ok (filter (\<lambda>p. pd_Namespace p = ns \<and> kube_matches sel (pd_Labels p)) kube_pods), w)),
     la_GetNode = (\<lambda>name w. (case map_of kube_nodes name of Some n \<Rightarrow> Ok n | None \<Rightarrow> Err (PlainError ''not found''), w)),
     la_PatchStatus = (\<lambda>s is w. if kube_key s = kube_key w then (Ok (), s\<lparr>sv_Ingress := is\<rparr>) else (Err (PlainError ''not found''), w)),
     la_ListServices = (\<lambda>ns w. (Ok (if sv_Namespace w = ns then [w] else []), w)),
     la_PodsOn = (\<lambda>name w. (Ok (filter (\<lambda>p. pd_NodeName p = name) kube_pods), w)),
     la_Matches = kube_matches,
     la_order = order\<rparr>"


definition kube_service :: Service where
  "kube_service = \<lparr>sv_Namespace = ''web'', sv_Name = ''front'', sv_Type = ''LoadBalancer'', sv_Selector = [(''app'', ''x'')], sv_Ingress = []\<rparr>"

definition kube_ingress :: "string list \<Rightarrow> LoadBalancerIngress list" where
  "kube_ingress ips = map (\<lambda>ip. \<lparr>ig_IP = ip, ig_IPMode = ''Proxy''\<rparr>) ips"


text \<open>
  The order of the addresses is that in which the map of nodes is iterated: in another order the status of an
  unchanged service is written again.
\<close>

lemma order_patches_again:
  "Reconcile (kube_client rev) (''web'', ''front'') (kube_service\<lparr>sv_Ingress := kube_ingress [''1.2.3.4'', ''5.6.7.8'']\<rparr>) =
    (Ok (), kube_service\<lparr>sv_Ingress := kube_ingress [''5.6.7.8'', ''1.2.3.4'']\<rparr>)"
  by code_simp



end
