(* ===== verification/Alerts.thy ===== *)
theory Alerts
  imports Http_Handler Go_Strings
begin

text \<open>
  \<^verbatim>\<open>service/alert\<close>: the channel of alerts, the issues on GitHub with the back-off for its rate limit, and
  the web hook for Alertmanager. The GitHub client, the retries and the printing of times are parameters. A
  send that finds the channel full and nobody to receive blocks, which is \<open>Diverge\<close>.
\<close>

section \<open>Alerts\<close>

definition InFlightAlerts :: nat where "InFlightAlerts = 8"

record AlertData =
  ad_ID :: string
  ad_Title :: string
  ad_Description :: string
  ad_Time :: int
  ad_Labels :: "string list"
  ad_Details :: string

record AlertConfig =
  ac_Token :: string
  ac_Owner :: string
  ac_Repo :: string
  ac_Assignees :: "string list"
  ac_MaxRetries :: nat

record Alert =
  al_owner :: string
  al_repo :: string
  al_assignees :: "string list"
  al_maxRetries :: nat

record 'w alert_state =
  as_alerts :: "AlertData list"
  as_closed :: bool
  as_world :: 'w

definition ErrMissingToken :: goerr where "ErrMissingToken = PlainError ''GitHub access token not provided''"

definition NewAlert :: "AlertConfig \<Rightarrow> 'w \<Rightarrow> (Alert \<times> 'w alert_state) outcome" where
  "NewAlert config w = (if length (ac_Token config) \<le> 0 then Err ErrMissingToken
     else Ok (\<lparr>al_owner = ac_Owner config, al_repo = ac_Repo config, al_assignees = ac_Assignees config, al_maxRetries = ac_MaxRetries config\<rparr>,
       \<lparr>as_alerts = [], as_closed = False, as_world = w\<rparr>))"

definition Fire :: "AlertData \<Rightarrow> (('w, 'z) alert_state_scheme, unit) go" where
  "Fire alert s =
     (if as_closed s then (Panic ''send on closed channel'', s)
      else if length (as_alerts s) < InFlightAlerts then (Ok (), s\<lparr>as_alerts := as_alerts s @ [alert]\<rparr>)
      else (Diverge, s))"

section \<open>Issues\<close>

type_synonym RateLimitBackOff = "int option"

definition NewRateLimitBackOff :: RateLimitBackOff where "NewRateLimitBackOff = None"

definition ReleaseAt :: "int \<Rightarrow> RateLimitBackOff \<Rightarrow> RateLimitBackOff" where
  "ReleaseAt release rlb = Some release"

definition NextBackOff :: "int \<Rightarrow> RateLimitBackOff \<Rightarrow> int \<times> RateLimitBackOff" where
  "NextBackOff now rlb = (case rlb of Some release \<Rightarrow> (release - now, None) | None \<Rightarrow> (0, rlb))"

definition RateLimitBackOff_Reset :: "RateLimitBackOff \<Rightarrow> RateLimitBackOff" where
  "RateLimitBackOff_Reset rlb = None"

record IssueRequest =
  ir_Title :: string
  ir_Body :: string
  ir_Labels :: "string list option"
  ir_Assignees :: "string list option"

record Rate =
  ra_Used :: int
  ra_Limit :: int
  ra_Reset :: int

text \<open>What a call of the API gives: the number of the issue, if there is one, or an error with the rate of the response.\<close>

datatype issue_result = Created "int option" | CreateFailed goerr "Rate option"

record 'w github =
  gh_Create :: "string \<Rightarrow> string \<Rightarrow> IssueRequest \<Rightarrow> 'w \<Rightarrow> issue_result \<times> 'w"
  gh_GetUser :: "string \<Rightarrow> ('w, unit) go"
  gh_GetRepository :: "string \<Rightarrow> string \<Rightarrow> ('w, unit) go"
  gh_Retry :: "nat \<Rightarrow> ('w \<times> RateLimitBackOff, int) go \<Rightarrow> ('w \<times> RateLimitBackOff, int) go"
  gh_TimeString :: "int \<Rightarrow> string"

definition ErrMissingRepository :: goerr where "ErrMissingRepository = PlainError ''missing repository information, you must set owner/repo''"
definition ErrRateLimitExceeded :: goerr where "ErrRateLimitExceeded = PlainError ''rate limit exceeded''"
definition ErrNoIssueNumber :: goerr where "ErrNoIssueNumber = PlainError ''received no issue number''"

definition issueRequest :: "'w github \<Rightarrow> Alert \<Rightarrow> AlertData \<Rightarrow> IssueRequest" where
  "issueRequest gh a alert = \<lparr>ir_Title = ad_Title alert,
     ir_Body = ad_Description alert @ [CHR 0x0A] @ ''Fired at: '' @ gh_TimeString gh (ad_Time alert) @ [CHR 0x0A, CHR 0x0A] @
       ''<details>'' @ ad_Details alert @ ''</details>'',
     ir_Labels = (if length (ad_Labels alert) > 0 then Some (ad_Labels alert) else None),
     ir_Assignees = (if length (al_assignees a) > 0 then Some (al_assignees a) else None)\<rparr>"

definition create_try :: "'w github \<Rightarrow> Alert \<Rightarrow> AlertData \<Rightarrow> ('w \<times> RateLimitBackOff, int) go" where
  "create_try gh a alert = (\<lambda>(w, rlb).
     if al_owner a = [] \<or> al_repo a = [] then (Err ErrMissingRepository, w, rlb)
     else case gh_Create gh (al_owner a) (al_repo a) (issueRequest gh a alert) w of
         (CreateFailed err (Some rate), w') \<Rightarrow>
           if ra_Used rate \<ge> ra_Limit rate
           then (Err (Wrapped ''error while creating issue'' (Joined err ErrRateLimitExceeded)), w', ReleaseAt (ra_Reset rate) rlb)
           else (Err (Wrapped ''failed to create issue'' err), w', rlb)
       | (CreateFailed err None, w') \<Rightarrow> (Err (Wrapped ''failed to create issue'' err), w', rlb)
       | (Created None, w') \<Rightarrow> (Err ErrNoIssueNumber, w', rlb)
       | (Created (Some number), w') \<Rightarrow> (Ok number, w', rlb))"

definition createGitHubIssue :: "'w github \<Rightarrow> Alert \<Rightarrow> AlertData \<Rightarrow> ('w, int) go" where
  "createGitHubIssue gh a alert w =
     (let (r, w', rlb) = gh_Retry gh (al_maxRetries a) (create_try gh a alert) (w, NewRateLimitBackOff) in (r, w'))"

text \<open>\<^verbatim>\<open>Run\<close> with what its select chooses: the end of the context, or the first alert of the channel.\<close>

datatype alert_choice = ContextDone | FirstAlert

definition Alert_Run :: "'w github \<Rightarrow> Alert \<Rightarrow> alert_choice \<Rightarrow> (('w, 'z) alert_state_scheme, unit) go" where
  "Alert_Run gh a choice s = (case choice of
      ContextDone \<Rightarrow> (Ok (), s\<lparr>as_closed := True\<rparr>)
    | FirstAlert \<Rightarrow> (case as_alerts s of
        [] \<Rightarrow> (Diverge, s)
      | alert # alerts \<Rightarrow>
          let (r, w) = createGitHubIssue gh a alert (as_world s) in
          (case r of
             Ok number \<Rightarrow> Ok ()
           | Err err \<Rightarrow> Err (Wrapped ''error while creating issue for alert'' err)
           | Panic p \<Rightarrow> Panic p
           | Diverge \<Rightarrow> Diverge,
           s\<lparr>as_alerts := alerts, as_closed := r \<noteq> Diverge \<or> as_closed s, as_world := w\<rparr>)))"

definition canConnect :: "'w github \<Rightarrow> ('w, unit) go" where
  "canConnect gh = go_wrap ''error while check connectivity to github by performing an empty user get'' (gh_GetUser gh [])"

definition repoExists :: "'w github \<Rightarrow> Alert \<Rightarrow> ('w, unit) go" where
  "repoExists gh a = go_wrap ''error while checking if the repository exists'' (gh_GetRepository gh (al_owner a) (al_repo a))"

section \<open>The web hook\<close>

record template_Alert =
  ta_Status :: string
  ta_Labels :: "(string \<times> string) list"
  ta_Annotations :: "(string \<times> string) list"
  ta_StartsAt :: int
  ta_EndsAt :: int
  ta_GeneratorURL :: string
  ta_Fingerprint :: string

definition details_items :: "(string \<times> string) list \<Rightarrow> string" where
  "details_items kvs = concat (map (\<lambda>(k, v). ''<li><code>'' @ k @ ''</code>: <code>'' @ v @ ''</code></li>'' @ [CHR 0x0A]) kvs)"

definition alertDetails :: "'w github \<Rightarrow> template_Alert \<Rightarrow> string" where
  "alertDetails gh a = (let nl = [CHR 0x0A]; open_list = nl @ ''<ul>'' @ nl; close_list = ''</ul>'' @ nl @ ''<hr />'' @ nl in
     ''<h3>Labels</h3>'' @ open_list @ details_items (ta_Labels a) @ close_list @
     ''<h3>Annotations</h3>'' @ open_list @ details_items (ta_Annotations a) @ close_list @
     ''<h3>Timing</h3>'' @ open_list @ ''<li>starts at: '' @ gh_TimeString gh (ta_StartsAt a) @ ''</li>'' @ nl @
     ''<li>ends at: '' @ gh_TimeString gh (ta_EndsAt a) @ ''</li>'' @ nl @ close_list @
     ''<h3>Identifiers</h3>'' @ open_list @ ''<li>url: '' @ ta_GeneratorURL a @ ''</li>'' @ nl @
     ''<li>fingerprint: '' @ ta_Fingerprint a @ ''</li>'' @ nl @ ''</ul>'' @ nl)"

definition alert_of :: "'w github \<Rightarrow> template_Alert \<Rightarrow> AlertData" where
  "alert_of gh a = \<lparr>ad_ID = ta_Fingerprint a,
     ad_Title = ''alertmanager: '' @ (case map_of (ta_Labels a) ''alertname'' of Some name \<Rightarrow> name | None \<Rightarrow> ''Unknown Alert''),
     ad_Description = (case map_of (ta_Annotations a) ''description'' of Some desc \<Rightarrow> desc | None \<Rightarrow> []),
     ad_Time = ta_StartsAt a,
     ad_Labels = [''alertmanager'', case map_of (ta_Labels a) ''severity'' of Some severity \<Rightarrow> severity | None \<Rightarrow> ''unknown-severity''],
     ad_Details = alertDetails gh a\<rparr>"

record 'w hook_state = "'w alert_state" +
  hs_total :: "string list"
  hs_alerts :: "string list"

fun fire_alerts :: "'w github \<Rightarrow> template_Alert list \<Rightarrow> ('w hook_state, unit) go" where
  "fire_alerts gh [] s = (Ok (), s)"
| "fire_alerts gh (a # rest) s =
     go_bind (if ta_Status a = ''firing'' then Fire (alert_of gh a) else ret ()) (\<lambda>_. fire_alerts gh rest)
       (s\<lparr>hs_alerts := hs_alerts s @ [ta_Status a]\<rparr>)"

text \<open>The handler with what the decoder makes of the body; the deferred function counts the call.\<close>

definition Webhook :: "'w github \<Rightarrow> template_Alert list outcome \<Rightarrow> ('w hook_state, unit) go" where
  "Webhook gh body s = (let (r, s') =
       (case body of
          Err err \<Rightarrow> (Err (Wrapped ''could not parse webhook data'' (Joined err ErrBadRequest)), s)
        | Ok alerts \<Rightarrow> fire_alerts gh alerts s
        | Panic p \<Rightarrow> (Panic p, s)
        | Diverge \<Rightarrow> (Diverge, s)) in
     (r, if r = Diverge then s' else s'\<lparr>hs_total := hs_total s' @ [case r of Err _ \<Rightarrow> ''failed'' | _ \<Rightarrow> ''success'']\<rparr>))"

definition firing :: "template_Alert list \<Rightarrow> template_Alert list" where
  "firing = filter (\<lambda>a. ta_Status a = ''firing'')"

text \<open>
  Every firing alert of a call is put into the channel, in order, as long as there is room; the call
  then succeeds and leaves the rest as it was. If there is not enough room the call blocks.
\<close>

lemma fire_alerts_Ok:
  "\<not> as_closed s \<Longrightarrow> length (as_alerts s) + length (firing alerts) \<le> InFlightAlerts \<Longrightarrow>
    fire_alerts gh alerts s = (Ok (), s\<lparr>as_alerts := as_alerts s @ map (alert_of gh) (firing alerts), hs_alerts := hs_alerts s @ map ta_Status alerts\<rparr>)"
proof (induction alerts arbitrary: s)
  case (Cons a alerts)
  then show ?case by (auto simp: go_bind_def ret_def Fire_def firing_def)
qed (simp add: firing_def)

lemma fire_alerts_blocks:
  "\<not> as_closed s \<Longrightarrow> length (as_alerts s) \<le> InFlightAlerts \<Longrightarrow> InFlightAlerts < length (as_alerts s) + length (firing alerts) \<Longrightarrow>
    fst (fire_alerts gh alerts s) = Diverge"
proof (induction alerts arbitrary: s)
  case (Cons a alerts)
  then show ?case by (auto simp: go_bind_def ret_def Fire_def firing_def)
qed (simp add: firing_def)

lemma Webhook_queues:
  assumes "\<not> as_closed s" "length (as_alerts s) + length (firing alerts) \<le> InFlightAlerts"
  shows "\<exists>s'. Webhook gh (Ok alerts) s = (Ok (), s') \<and> as_alerts s' = as_alerts s @ map (alert_of gh) (firing alerts) \<and>
    hs_total s' = hs_total s @ [''success'']"
  using fire_alerts_Ok [OF assms] by (simp add: Webhook_def)

text \<open>
  \<^verbatim>\<open>Run\<close> handles one alert at most and then closes the channel: whatever came of it, the next call of the
  web hook with a firing alert panics, and the alerts still in the channel are never sent.
\<close>

lemma Run_closes: "fst (Alert_Run gh a choice s) \<noteq> Diverge \<Longrightarrow> as_closed (snd (Alert_Run gh a choice s))"
  by (auto simp: Alert_Run_def split_beta Let_def split: alert_choice.splits list.splits outcome.splits)

lemma Run_handles_one:
  assumes "fst (Alert_Run gh a FirstAlert s) \<noteq> Diverge"
  shows "\<exists>alert. as_alerts s = alert # as_alerts (snd (Alert_Run gh a FirstAlert s))"
  using assms by (auto simp: Alert_Run_def split_beta Let_def split: list.splits)

lemma fire_closed:
  "as_closed s \<Longrightarrow> firing alerts \<noteq> [] \<Longrightarrow> fst (fire_alerts gh alerts s) = Panic ''send on closed channel''"
proof (induction alerts arbitrary: s)
  case (Cons a alerts)
  then show ?case by (auto simp: go_bind_def ret_def Fire_def firing_def split: if_splits)
qed (simp add: firing_def)

lemma second_alert_panics:
  assumes "fst (Alert_Run gh a choice s) \<noteq> Diverge" "firing alerts \<noteq> []"
  shows "fst (Webhook gh (Ok alerts) (snd (Alert_Run gh a choice (s :: 'w hook_state)))) = Panic ''send on closed channel''"
  using fire_closed [OF Run_closes [OF assms(1)] assms(2), of gh] by (simp add: Webhook_def split_beta Let_def)

text \<open>A rate limit is waited for once; an error of another kind is tried again at once.\<close>

lemma rate_limit_waited:
  assumes "gh_Create gh (al_owner a) (al_repo a) (issueRequest gh a alert) w = (CreateFailed err (Some rate), w')"
    and "ra_Limit rate \<le> ra_Used rate" "al_owner a \<noteq> []" "al_repo a \<noteq> []"
  shows "\<exists>e rlb'. create_try gh a alert (w, rlb) = (Err e, w', rlb') \<and> goerr_Is e ErrRateLimitExceeded \<and>
    NextBackOff now rlb' = (ra_Reset rate - now, None) \<and> NextBackOff now None = (0, None)"
  using assms by (simp add: create_try_def ReleaseAt_def NextBackOff_def ErrRateLimitExceeded_def)

end
