(* ===== verification/Cal_Match.thy ===== *)
theory Cal_Match
  imports Go_Strings
begin

text \<open>
  Queries on calendar objects: \<^verbatim>\<open>lib/webdav/caldav/match.go\<close> and the types of \<^verbatim>\<open>caldav.go\<close>.

  A time is an integer and \<open>zeroDate\<close> the zero time. An event is what the methods of the iCalendar
  library say of it: its times and rules, or why they do not parse, its properties with their
  parameters and its sub-components. The recurrence library is a parameter: a rule from its text,
  and the instances of rules and dates between two times.
\<close>

section \<open>Queries\<close>

type_synonym date = int

definition zeroDate :: date where "zeroDate = 0"

record TextMatch =
  tm_Text :: string
  tm_NegateCondition :: bool

record ParamFilter =
  pf_Name :: string
  pf_IsNotDefined :: bool
  pf_TextMatch :: "TextMatch option"

record PropFilter =
  pr_Name :: string
  pr_IsNotDefined :: bool
  pr_Start :: date
  pr_End :: date
  pr_TextMatch :: "TextMatch option"
  pr_ParamFilter :: "ParamFilter list"

datatype CompFilter = CompFilter
  (cf_Name: string) (cf_IsNotDefined: bool) (cf_Start: date) (cf_End: date) (cf_Props: "PropFilter list") (cf_Comps: "CompFilter list")

section \<open>Events\<close>

record IANAProperty =
  ip_Value :: string
  ip_ICalParameters :: "string \<rightharpoonup> string list"

text \<open>\<open>ev_children\<close> are the sub-components that are events themselves.\<close>

datatype VEvent = VEvent
  (ev_start: "date outcome") (ev_end: "date outcome") (ev_rules: "string list outcome") (ev_rdates: "date list outcome")
  (ev_exdates: "date list outcome") (ev_singular: "string \<Rightarrow> bool") (ev_properties: "string \<Rightarrow> IANAProperty list") (ev_children: "VEvent list")

record IcsCalendar =
  ic_Components :: nat
  ic_Events :: "VEvent list"

record CalendarObject =
  co_Path :: string
  co_ModTime :: date
  co_ContentLength :: int
  co_ETag :: string
  co_Data :: "IcsCalendar option"

record 'r Rrule =
  rl_StrToRRule :: "string \<Rightarrow> 'r outcome"
  rl_Between :: "'r list \<Rightarrow> date \<Rightarrow> date list \<Rightarrow> date list \<Rightarrow> date \<Rightarrow> date \<Rightarrow> date list"

definition ErrMatchEmptyObject :: goerr where
  "ErrMatchEmptyObject = PlainError ''request to process empty calendar object''"

section \<open>Matching properties\<close>

fun strings_Contains :: "string \<Rightarrow> string \<Rightarrow> bool" where
  "strings_Contains [] sub \<longleftrightarrow> sub = []"
| "strings_Contains (c # s) sub \<longleftrightarrow> strings_HasPrefix (c # s) sub \<or> strings_Contains s sub"

definition matchTextMatch :: "TextMatch \<Rightarrow> string \<Rightarrow> bool" where
  "matchTextMatch txt value =
     (let m = strings_Contains value (tm_Text txt) in if tm_NegateCondition txt then \<not> m else m)"

text \<open>The loop over the values returns at the first one.\<close>

definition matchParamFilter :: "ParamFilter \<Rightarrow> IANAProperty \<Rightarrow> bool" where
  "matchParamFilter flt field = (case ip_ICalParameters field (pf_Name flt) of
      None \<Rightarrow> pf_IsNotDefined flt
    | Some values \<Rightarrow>
        if length values > 0 \<and> pf_IsNotDefined flt then False
        else (case (values, pf_TextMatch flt) of
            (value # _, Some tm) \<Rightarrow> matchTextMatch tm value
          | _ \<Rightarrow> True))"

definition matchPropTimeRange :: "date \<Rightarrow> date \<Rightarrow> date \<Rightarrow> bool" where
  "matchPropTimeRange start end' ptime \<longleftrightarrow> start < ptime \<and> (end' = zeroDate \<or> ptime < end')"

definition prop_dates :: "PropFilter \<Rightarrow> VEvent \<Rightarrow> date list outcome option" where
  "prop_dates flt vev =
     (if pr_Name flt = ''RDATE'' then Some (ev_rdates vev)
      else if pr_Name flt = ''EXDATE'' then Some (ev_exdates vev)
      else None)"

definition matchPropFilter :: "PropFilter \<Rightarrow> VEvent \<Rightarrow> bool outcome" where
  "matchPropFilter flt vev =
     (let fields = ev_properties vev (pr_Name flt) in
      if ev_singular vev (pr_Name flt) \<and> fields = [] then Ok (pr_IsNotDefined flt)
      else if \<not> list_all (\<lambda>field. list_all (\<lambda>pf. matchParamFilter pf field) (pr_ParamFilter flt)) fields then Ok False
      else if pr_Start flt \<noteq> zeroDate then
        (case prop_dates flt vev of
           None \<Rightarrow> Ok False
         | Some dates \<Rightarrow> outcome_bind (outcome_wrap ''error while getting dates for property'' dates) (\<lambda>ds.
             Ok (list_all (matchPropTimeRange (pr_Start flt) (pr_End flt)) ds)))
      else (case pr_TextMatch flt of
           Some tm \<Rightarrow> Ok (list_all (\<lambda>field. matchTextMatch tm (ip_Value field)) fields)
         | None \<Rightarrow> Ok True))"

section \<open>Matching times\<close>

text \<open>A rule whose text does not parse is a nil pointer, and setting its start panics.\<close>

fun build_rules :: "(string \<Rightarrow> 'r outcome) \<Rightarrow> string list \<Rightarrow> 'r list outcome" where
  "build_rules str [] = Ok []"
| "build_rules str (r # rs) = (case str r of
      Ok rr \<Rightarrow> outcome_bind (build_rules str rs) (\<lambda>rrs. Ok (rr # rrs))
    | _ \<Rightarrow> Panic ''invalid memory address or nil pointer dereference'')"

definition matchCompTimeRange :: "'r Rrule \<Rightarrow> date \<Rightarrow> date \<Rightarrow> VEvent \<Rightarrow> bool outcome" where
  "matchCompTimeRange lib start end' vev =
     outcome_bind (outcome_wrap ''while parsing event start time'' (ev_start vev)) (\<lambda>eventStart.
     outcome_bind (outcome_wrap ''while parsing event recurrence rules'' (ev_rules vev)) (\<lambda>rules.
     if length rules > 0 then
       outcome_bind (build_rules (rl_StrToRRule lib) rules) (\<lambda>rrs.
       outcome_bind (outcome_wrap ''while parsing event recurrence dates'' (ev_rdates vev)) (\<lambda>rDates.
       outcome_bind (outcome_wrap ''while parsing event exclude dates'' (ev_exdates vev)) (\<lambda>exDates.
       Ok (length (rl_Between lib rrs eventStart rDates exDates start end') > 0))))
     else
       outcome_bind (outcome_wrap ''while parsing event end time'' (ev_end vev)) (\<lambda>eventEnd.
       Ok ((start < eventStart \<and> (end' = zeroDate \<or> eventStart < end')) \<or>
           (start < eventEnd \<and> (end' = zeroDate \<or> eventEnd < end')) \<or>
           (eventStart < start \<and> end' \<noteq> zeroDate \<and> end' < eventEnd)))))"

section \<open>Matching components\<close>

fun all_match :: "('f \<Rightarrow> bool outcome) \<Rightarrow> string \<Rightarrow> 'f list \<Rightarrow> bool outcome" where
  "all_match f msg [] = Ok True"
| "all_match f msg (x # xs) = outcome_bind (outcome_wrap msg (f x)) (\<lambda>m. if m then all_match f msg xs else Ok False)"

fun any_match :: "('e \<Rightarrow> bool outcome) \<Rightarrow> 'e list \<Rightarrow> bool \<Rightarrow> bool outcome" where
  "any_match f [] matches = Ok matches"
| "any_match f (e # es) matches = outcome_bind (f e) (\<lambda>m. any_match f es (matches \<or> m))"

lemma all_match_cong [fundef_cong]:
  "xs = ys \<Longrightarrow> (\<And>x. x \<in> set ys \<Longrightarrow> f x = g x) \<Longrightarrow> msg = msg' \<Longrightarrow> all_match f msg xs = all_match g msg' ys"
proof (induction xs arbitrary: ys)
  case (Cons x xs)
  have "all_match f msg xs = all_match g msg' xs" by (rule Cons.IH [OF refl _ Cons.prems(3)]) (use Cons.prems in auto)
  moreover have "ys = x # xs" "f x = g x" using Cons.prems by auto
  ultimately show ?case using Cons.prems(3) by (simp only: all_match.simps)
qed simp

text \<open>\<^verbatim>\<open>match\<close> and \<^verbatim>\<open>matchCompFilter\<close> call each other; the nesting of the filter ends the recursion.\<close>

function caldav_match :: "'r Rrule \<Rightarrow> CompFilter \<Rightarrow> VEvent \<Rightarrow> bool outcome" where
  "caldav_match lib flt vev =
     outcome_bind (if cf_Start flt \<noteq> zeroDate
       then outcome_wrap ''error while matching time'' (matchCompTimeRange lib (cf_Start flt) (cf_End flt) vev) else Ok True) (\<lambda>m.
     if \<not> m then Ok False else
     outcome_bind (all_match (\<lambda>f.
         outcome_bind (any_match (caldav_match lib f) (ev_children vev) False) (\<lambda>ms. Ok (ms \<or> cf_IsNotDefined f)))
       ''error while matching component filter'' (cf_Comps flt)) (\<lambda>m.
     if \<not> m then Ok False else
     all_match (\<lambda>f. matchPropFilter f vev) ''error while matching filter props'' (cf_Props flt)))"
  by auto
termination
proof (relation "measure (\<lambda>(lib, flt, vev). size flt)", goal_cases)
  case (2 lib flt vev m f x)
  then have "size f < size flt" by (cases flt) (auto simp: less_Suc_eq_le intro: size_list_estimation')
  then show ?case by simp
qed simp

declare caldav_match.simps [simp del]

definition matchCompFilter :: "'r Rrule \<Rightarrow> CompFilter \<Rightarrow> VEvent \<Rightarrow> bool outcome" where
  "matchCompFilter lib flt vev =
     outcome_bind (any_match (caldav_match lib flt) (ev_children vev) False) (\<lambda>ms. Ok (ms \<or> cf_IsNotDefined flt))"

fun first_match :: "(VEvent \<Rightarrow> bool outcome) \<Rightarrow> VEvent list \<Rightarrow> bool outcome" where
  "first_match f [] = Ok False"
| "first_match f (e # es) = outcome_bind (outcome_wrap ''parsing component'' (f e)) (\<lambda>m. if m then Ok True else first_match f es)"

definition caldav_Match :: "'r Rrule \<Rightarrow> CompFilter \<Rightarrow> CalendarObject \<Rightarrow> bool outcome" where
  "caldav_Match lib query co = (case co_Data co of
      None \<Rightarrow> Err ErrMatchEmptyObject
    | Some data \<Rightarrow> if ic_Components data \<le> 0 then Err ErrMatchEmptyObject
        else first_match (caldav_match lib query) (ic_Events data))"

fun filter_objects :: "'r Rrule \<Rightarrow> CompFilter \<Rightarrow> CalendarObject list \<Rightarrow> CalendarObject list outcome" where
  "filter_objects lib query [] = Ok []"
| "filter_objects lib query (co # cos) =
     outcome_bind (outcome_wrap ''error while matching object'' (caldav_Match lib query co)) (\<lambda>ok.
     outcome_bind (filter_objects lib query cos) (\<lambda>out. Ok (if ok then co # out else out)))"

definition caldav_Filter :: "'r Rrule \<Rightarrow> CompFilter option \<Rightarrow> CalendarObject list \<Rightarrow> CalendarObject list outcome" where
  "caldav_Filter lib query cos = (case query of None \<Rightarrow> Ok cos | Some q \<Rightarrow> filter_objects lib q cos)"

section \<open>The range of a query\<close>

text \<open>
  An event without recurrence is found when it overlaps the range, unless it covers the range and
  shares its start or its end: such events are missed.
\<close>

lemma matchCompTimeRange_overlap:
  assumes "ev_start vev = Ok s" "ev_end vev = Ok e" "ev_rules vev = Ok []" "s \<le> e" "start < end'" "end' \<noteq> zeroDate" "s < e"
  shows "matchCompTimeRange lib start end' vev =
    Ok (s < end' \<and> start < e \<and> \<not> (s \<le> start \<and> end' \<le> e \<and> (s = start \<or> e = end')))"
  using assms by (auto simp: matchCompTimeRange_def)

lemma matchCompFilter_eq: "caldav_match lib flt vev =
     outcome_bind (if cf_Start flt \<noteq> zeroDate
       then outcome_wrap ''error while matching time'' (matchCompTimeRange lib (cf_Start flt) (cf_End flt) vev) else Ok True) (\<lambda>m.
     if \<not> m then Ok False else
     outcome_bind (all_match (\<lambda>f. matchCompFilter lib f vev) ''error while matching component filter'' (cf_Comps flt)) (\<lambda>m.
     if \<not> m then Ok False else
     all_match (\<lambda>f. matchPropFilter f vev) ''error while matching filter props'' (cf_Props flt)))"
  by (subst caldav_match.simps) (simp only: matchCompFilter_def)

text \<open>Filtering keeps the objects that match, in their order.\<close>

lemma Filter_filters:
  assumes "caldav_Filter lib (Some q) cos = Ok out"
  shows "out = filter (\<lambda>co. caldav_Match lib q co = Ok True) cos"
proof -
  have "filter_objects lib q cos = Ok out \<Longrightarrow> out = filter (\<lambda>co. caldav_Match lib q co = Ok True) cos"
  proof (induction cos arbitrary: out)
    case (Cons co cos)
    then show ?case by (cases "caldav_Match lib q co"; cases "filter_objects lib q cos") auto
  qed simp
  with assms show ?thesis by (simp add: caldav_Filter_def)
qed

end
