(* ===== verification/Go_Os.thy ===== *)
theory Go_Os
  imports Go_Hoare
begin

text \<open>
  Files, as far as the components use the package \<^verbatim>\<open>os\<close>.

  The disk is a map from paths to contents, with the table of the opened files: a \<^verbatim>\<open>*os.File\<close> is an
  index into it, so that several objects can share one. Every system call takes the next element
  of a list of faults: \<open>None\<close> lets it succeed, \<open>Some n\<close> makes it fail, a write after \<open>n\<close> bytes; after
  the list is used up every call succeeds. \<open>dk_time\<close> is the clock.
\<close>

section \<open>Files\<close>

type_synonym bytes = "byte list"

record disk =
  dk_files :: "string \<rightharpoonup> bytes"
  dk_handles :: "(string \<times> bool) list"
  dk_faults :: "nat option list"
  dk_time :: nat

definition os_ErrNotExist :: goerr where "os_ErrNotExist = PlainError ''file does not exist''"
definition os_ErrClosed :: goerr where "os_ErrClosed = PlainError ''file already closed''"
definition os_ErrInvalid :: goerr where "os_ErrInvalid = PlainError ''invalid argument''"
definition os_ErrExist :: goerr where "os_ErrExist = PlainError ''file already exists''"
definition os_ErrIO :: goerr where "os_ErrIO = PlainError ''input/output error''"

definition next_fault :: "disk \<Rightarrow> nat option \<times> disk" where
  "next_fault d = (case dk_faults d of [] \<Rightarrow> (None, d) | f # fs \<Rightarrow> (f, d\<lparr>dk_faults := fs\<rparr>))"

definition syscall :: "(disk, 'a) go \<Rightarrow> (disk, 'a) go" where
  "syscall m d = (case next_fault d of (Some _, d') \<Rightarrow> (Err os_ErrIO, d') | (None, d') \<Rightarrow> m d')"

text \<open>\<^verbatim>\<open>os.OpenFile\<close> with \<^verbatim>\<open>O_CREATE|O_WRONLY|O_APPEND\<close>.\<close>

definition os_OpenFile :: "string \<Rightarrow> (disk, nat) go" where
  "os_OpenFile path = syscall (\<lambda>d. (Ok (length (dk_handles d)),
     d\<lparr>dk_files := (dk_files d)(path \<mapsto> (case dk_files d path of None \<Rightarrow> [] | Some c \<Rightarrow> c)),
       dk_handles := dk_handles d @ [(path, False)]\<rparr>))"

definition append_file :: "string \<Rightarrow> bytes \<Rightarrow> disk \<Rightarrow> disk" where
  "append_file path p d = d\<lparr>dk_files := (case dk_files d path of None \<Rightarrow> dk_files d | Some c \<Rightarrow> (dk_files d)(path \<mapsto> c @ p))\<rparr>"

text \<open>\<^verbatim>\<open>(*os.File).Write\<close>: the number of bytes written, and the error of a partial write.\<close>

definition File_Write :: "nat \<Rightarrow> bytes \<Rightarrow> disk \<Rightarrow> (nat \<times> goerr option) \<times> disk" where
  "File_Write f p d = (case dk_handles d ! f of (path, closed) \<Rightarrow>
     if closed then ((0, Some os_ErrClosed), d)
     else case next_fault d of
         (None, d') \<Rightarrow> ((length p, None), append_file path p d')
       | (Some n, d') \<Rightarrow> (let m = min n (length p - 1) in ((m, Some os_ErrIO), append_file path (take m p) d')))"

definition File_Close :: "nat option \<Rightarrow> (disk, unit) go" where
  "File_Close fo d = (case fo of
      None \<Rightarrow> (Err os_ErrInvalid, d)
    | Some f \<Rightarrow> (case dk_handles d ! f of (path, closed) \<Rightarrow>
        if closed then (Err os_ErrClosed, d)
        else syscall (ret ()) (d\<lparr>dk_handles := (dk_handles d)[f := (path, True)]\<rparr>)))"

definition os_Stat :: "string \<Rightarrow> (disk, unit) go" where
  "os_Stat path = syscall (\<lambda>d. (if dk_files d path = None then Err os_ErrNotExist else Ok (), d))"

definition os_Rename :: "string \<Rightarrow> string \<Rightarrow> (disk, unit) go" where
  "os_Rename a b = syscall (\<lambda>d. case dk_files d a of
      None \<Rightarrow> (Err os_ErrNotExist, d)
    | Some c \<Rightarrow> (Ok (), d\<lparr>dk_files := (dk_files d)(a := None, b \<mapsto> c)\<rparr>))"

definition os_MkdirAll :: "string \<Rightarrow> (disk, unit) go" where
  "os_MkdirAll path = syscall (ret ())"

definition os_ReadFile :: "string \<Rightarrow> (disk, bytes) go" where
  "os_ReadFile path = syscall (\<lambda>d. (case dk_files d path of None \<Rightarrow> Err os_ErrNotExist | Some c \<Rightarrow> Ok c, d))"

definition os_Remove :: "string \<Rightarrow> (disk, unit) go" where
  "os_Remove path = syscall (\<lambda>d. case dk_files d path of
      None \<Rightarrow> (Err os_ErrNotExist, d)
    | Some c \<Rightarrow> (Ok (), d\<lparr>dk_files := (dk_files d)(path := None)\<rparr>))"

text \<open>
  \<^verbatim>\<open>os.CreateTemp\<close> makes up a name from the pattern that no file has; \<open>tmp\<close> is that name, and a taken
  one the error the package gives up with.
\<close>

definition os_CreateTemp :: "(nat \<Rightarrow> string \<Rightarrow> string) \<Rightarrow> string \<Rightarrow> (disk, nat \<times> string) go" where
  "os_CreateTemp tmp path = syscall (\<lambda>d.
     let name = tmp (length (dk_handles d)) path in
     if dk_files d name \<noteq> None then (Err os_ErrExist, d)
     else (Ok (length (dk_handles d), name),
       d\<lparr>dk_files := (dk_files d)(name \<mapsto> []), dk_handles := dk_handles d @ [(name, False)]\<rparr>))"

section \<open>Faults\<close>

lemma next_fault_simps [simp]:
  "dk_files (snd (next_fault d)) = dk_files d"
  "dk_handles (snd (next_fault d)) = dk_handles d"
  "dk_time (snd (next_fault d)) = dk_time d"
  "dk_faults d = [] \<Longrightarrow> next_fault d = (None, d)"
  by (simp_all add: next_fault_def split: list.splits)

lemma next_faultD:
  assumes "next_fault d = (x, d')"
  shows "dk_files d' = dk_files d" "dk_handles d' = dk_handles d" "dk_time d' = dk_time d"
  using next_fault_simps(1-3) [of d] assms by simp_all

lemma syscall_cases:
  obtains d' where "syscall m d = (Err os_ErrIO, d')" "dk_files d' = dk_files d" "dk_handles d' = dk_handles d" "dk_time d' = dk_time d"
  | d' where "syscall m d = m d'" "dk_files d' = dk_files d" "dk_handles d' = dk_handles d" "dk_time d' = dk_time d"
proof -
  obtain x d1 where f: "next_fault d = (x, d1)" by (cases "next_fault d")
  note d1 = next_faultD [OF f]
  show thesis
  proof (cases x)
    case None
    show thesis by (rule that(2) [of d1]) (simp_all add: syscall_def f None d1)
  next
    case (Some n)
    show thesis by (rule that(1) [of d1]) (simp_all add: syscall_def f Some d1)
  qed
qed

lemma Rename_effect:
  assumes "os_Rename a b d = (r, d')"
  shows "ends True r \<and> dk_time d' = dk_time d \<and> (r \<noteq> Ok () \<longrightarrow> dk_files d' = dk_files d) \<and>
    (r = Ok () \<longrightarrow> (\<exists>c. dk_files d a = Some c \<and> dk_files d' = (dk_files d)(a := None, b \<mapsto> c)))"
proof (rule syscall_cases [of "\<lambda>d. case dk_files d a of None \<Rightarrow> (Err os_ErrNotExist, d)
    | Some c \<Rightarrow> (Ok (), d\<lparr>dk_files := (dk_files d)(a := None, b \<mapsto> c)\<rparr>)" d])
qed (use assms in \<open>auto simp: os_Rename_def split: option.splits\<close>)

lemma Close_effect:
  assumes "File_Close fo d = (r, d')"
  shows "ends True r \<and> dk_time d' = dk_time d \<and> dk_files d' = dk_files d"
proof (cases "\<exists>f. fo = Some f \<and> \<not> snd (dk_handles d ! f)")
  case True
  then obtain f path where f: "fo = Some f" "dk_handles d ! f = (path, False)" by (cases "dk_handles d ! the fo") auto
  show ?thesis
    by (rule syscall_cases [of "ret ()" "d\<lparr>dk_handles := (dk_handles d)[f := (path, True)]\<rparr>"])
       (use assms f in \<open>auto simp: File_Close_def\<close>)
qed (use assms in \<open>auto simp: File_Close_def split: option.splits prod.splits\<close>)

lemma os_Remove_effect:
  assumes "os_Remove path d = (r, d')"
  shows "ends True r \<and> dk_time d' = dk_time d \<and> (\<forall>q. q \<noteq> path \<longrightarrow> dk_files d' q = dk_files d q)"
proof (rule syscall_cases [of "\<lambda>d. case dk_files d path of None \<Rightarrow> (Err os_ErrNotExist, d)
    | Some c \<Rightarrow> (Ok (), d\<lparr>dk_files := (dk_files d)(path := None)\<rparr>)" d])
qed (use assms in \<open>auto simp: os_Remove_def split: option.splits\<close>)

lemma ReadFile_effect:
  assumes "os_ReadFile path d = (r, d')"
  shows "ends True r \<and> dk_time d' = dk_time d \<and> dk_files d' = dk_files d \<and> (\<forall>c. r = Ok c \<longrightarrow> dk_files d path = Some c)"
proof (rule syscall_cases [of "\<lambda>d. (case dk_files d path of None \<Rightarrow> Err os_ErrNotExist | Some c \<Rightarrow> Ok c, d)" d])
qed (use assms in \<open>auto simp: os_ReadFile_def split: option.splits\<close>)

lemma MkdirAll_effect:
  assumes "os_MkdirAll path d = (r, d')"
  shows "ends True r \<and> dk_time d' = dk_time d \<and> dk_files d' = dk_files d"
proof (rule syscall_cases [of "ret ()" d])
qed (use assms in \<open>auto simp: os_MkdirAll_def\<close>)

end
