(* ===== verification/S3_Cache.thy ===== *)
theory S3_Cache
  imports Go_Os Go_Strings "HOL-Library.AList"
begin

text \<open>
  The read-through cache of \<^verbatim>\<open>lib/s3cache\<close>: objects of an S3 bucket are kept in files, described by
  metadata in memory that is written to a file of its own.

  The S3 client, the JSON codec of the metadata and the sources of unique and temporary names are
  parameters. The map of the entries is an association list in the order in which a \<^verbatim>\<open>range\<close> over it
  happens to run. Sizes are integers: they are lengths of slices, and their sum is bounded below.
  The operations are those of one goroutine after the other.
\<close>

section \<open>Hashes\<close>

type_synonym Hash = string

definition ZeroHash :: Hash where "ZeroHash = []"

definition Hash_IsZero :: "Hash \<Rightarrow> bool" where "Hash_IsZero h \<longleftrightarrow> h = []"

definition hex_digit :: "nat \<Rightarrow> char" where
  "hex_digit n = ''0123456789abcdef'' ! n"

definition hex_EncodeToString :: "bytes \<Rightarrow> string" where
  "hex_EncodeToString p = concat (map (\<lambda>b. [hex_digit (unat b div 16), hex_digit (unat b mod 16)]) p)"

definition HashBytes :: "(bytes \<Rightarrow> bytes) \<Rightarrow> bytes \<Rightarrow> Hash" where
  "HashBytes md5 p = hex_EncodeToString (md5 p)"

section \<open>Metadata\<close>

definition v1MetadataFileName :: string where "v1MetadataFileName = ''v1.metadata.json''"

record entry =
  en_ID :: string
  en_Key :: string
  en_Hash :: Hash
  en_Size :: int
  en_StoredAt :: nat
  en_lastAccess :: nat

record snapshot =
  sn_ID :: string
  sn_Key :: string
  sn_Hash :: Hash
  sn_Size :: int
  sn_StoredAt :: nat
  sn_LastAccess :: nat

definition entry_touch :: "nat \<Rightarrow> entry \<Rightarrow> entry" where
  "entry_touch now e = e\<lparr>en_lastAccess := now\<rparr>"

record metadataStore =
  ms_path :: string
  ms_size :: int
  ms_byKey :: "(string \<times> entry) list"

text \<open>The JSON codec of the metadata file; the decoded list may hold null pointers.\<close>

record MetaJson =
  mj_Marshal :: "entry list \<Rightarrow> bytes outcome"
  mj_Unmarshal :: "bytes \<Rightarrow> entry option list outcome"

definition load_entry :: "entry option \<Rightarrow> (string \<times> entry) list outcome \<Rightarrow> (string \<times> entry) list outcome" where
  "load_entry eo acc = outcome_bind acc (\<lambda>m. case eo of
      None \<Rightarrow> Panic ''invalid memory address or nil pointer dereference''
    | Some e \<Rightarrow> Ok (AList.update (en_Key e) (e\<lparr>en_lastAccess := en_StoredAt e\<rparr>) m))"

definition newMetadataStore :: "MetaJson \<Rightarrow> string \<Rightarrow> (disk, metadataStore) go" where
  "newMetadataStore json path d =
     (let metadataPath = filepath_Join [path, v1MetadataFileName];
          ms = \<lparr>ms_path = metadataPath, ms_size = 0, ms_byKey = []\<rparr> in
      case os_ReadFile metadataPath d of
        (Err e, d') \<Rightarrow> if e = os_ErrNotExist then (Ok ms, d') else (Err (Wrapped ''error while reading s3 metadata'' e), d')
      | (Ok raw, d') \<Rightarrow>
          (outcome_bind (outcome_wrap ''error while unmarshaling s3 metadata (v1)'' (mj_Unmarshal json raw)) (\<lambda>entries.
           outcome_bind (fold load_entry entries (Ok [])) (\<lambda>m. Ok (ms\<lparr>ms_byKey := m\<rparr>))), d')
      | (Panic p, d') \<Rightarrow> (Panic p, d')
      | (Diverge, d') \<Rightarrow> (Diverge, d'))"

definition metadataStore_lockedGet :: "string \<Rightarrow> metadataStore \<Rightarrow> entry option" where
  "metadataStore_lockedGet key ms = map_of (ms_byKey ms) key"

definition metadataStore_get :: "string \<Rightarrow> metadataStore \<Rightarrow> snapshot option" where
  "metadataStore_get key ms = map_option (\<lambda>e. \<lparr>sn_ID = en_ID e, sn_Key = en_Key e, sn_Hash = en_Hash e, sn_Size = en_Size e,
     sn_StoredAt = en_StoredAt e, sn_LastAccess = 0\<rparr>) (metadataStore_lockedGet key ms)"

definition metadataStore_touch :: "nat \<Rightarrow> string \<Rightarrow> metadataStore \<Rightarrow> metadataStore" where
  "metadataStore_touch now key ms = (case metadataStore_lockedGet key ms of
      None \<Rightarrow> ms
    | Some e \<Rightarrow> ms\<lparr>ms_byKey := AList.update key (entry_touch now e) (ms_byKey ms)\<rparr>)"

text \<open>\<open>new\<close> is the identifier that \<^verbatim>\<open>uuid.New()\<close> returns if it is called.\<close>

definition metadataStore_resolveUID :: "string \<Rightarrow> string \<Rightarrow> metadataStore \<Rightarrow> string \<times> int" where
  "metadataStore_resolveUID new key ms = (case metadataStore_lockedGet key ms of
      Some e \<Rightarrow> (en_ID e, en_Size e) | None \<Rightarrow> (new, 0))"

definition metadataStore_put :: "nat \<Rightarrow> string \<Rightarrow> string \<Rightarrow> Hash \<Rightarrow> int \<Rightarrow> metadataStore \<Rightarrow> metadataStore" where
  "metadataStore_put now key i hash sz ms =
     (let e = (case map_of (ms_byKey ms) key of
          Some e \<Rightarrow> e
        | None \<Rightarrow> \<lparr>en_ID = i, en_Key = key, en_Hash = [], en_Size = 0, en_StoredAt = 0, en_lastAccess = 0\<rparr>)
      in ms\<lparr>ms_byKey := AList.update key (entry_touch now (e\<lparr>en_Hash := hash, en_Size := sz, en_StoredAt := now\<rparr>)) (ms_byKey ms)\<rparr>)"

definition metadataStore_remove :: "string \<Rightarrow> metadataStore \<Rightarrow> metadataStore" where
  "metadataStore_remove key ms = (if map_of (ms_byKey ms) key = None then ms else ms\<lparr>ms_byKey := AList.delete key (ms_byKey ms)\<rparr>)"

definition metadataStore_cacheSize :: "metadataStore \<Rightarrow> int" where
  "metadataStore_cacheSize ms = sum_list (map (en_Size \<circ> snd) (ms_byKey ms))"

definition metadataStore_lruHeap :: "metadataStore \<Rightarrow> snapshot list" where
  "metadataStore_lruHeap ms = sort_key sn_LastAccess (map (\<lambda>(k, e). \<lparr>sn_ID = en_ID e, sn_Key = en_Key e, sn_Hash = en_Hash e,
     sn_Size = en_Size e, sn_StoredAt = en_StoredAt e, sn_LastAccess = en_lastAccess e\<rparr>) (ms_byKey ms))"

section \<open>The cache\<close>

definition ErrS3CachePathRequired :: goerr where
  "ErrS3CachePathRequired = PlainError ''path is required to initialize an s3cache''"

definition ErrS3CacheBucketRequired :: goerr where
  "ErrS3CacheBucketRequired = PlainError ''bucket is required to initialize an s3cache''"

text \<open>
  The client: an object that is opened gives its tag and its content, and is closed at the end. The
  state of the bucket is \<open>'r\<close>.
\<close>

record 'r Minio =
  mn_PutObject :: "string \<Rightarrow> string \<Rightarrow> bytes \<Rightarrow> ('r, Hash) go"
  mn_RemoveObject :: "string \<Rightarrow> string \<Rightarrow> ('r, unit) go"
  mn_GetObject :: "string \<Rightarrow> string \<Rightarrow> ('r, unit) go"
  mn_Stat :: "string \<Rightarrow> string \<Rightarrow> ('r, Hash) go"
  mn_ReadAll :: "string \<Rightarrow> string \<Rightarrow> ('r, bytes) go"
  mn_Close :: "string \<Rightarrow> string \<Rightarrow> ('r, unit) go"

record 'r S3Cache =
  sc_path :: string
  sc_bucket :: string
  sc_client :: "'r Minio"
  sc_capacity :: int
  sc_json :: MetaJson
  sc_uuid :: "nat \<Rightarrow> string"
  sc_tmp :: "nat \<Rightarrow> string \<Rightarrow> string"

record 'r cache_state =
  cs_meta :: metadataStore
  cs_disk :: disk
  cs_remote :: 'r
  cs_uuids :: nat

definition NewS3Cache :: "'r S3Cache \<Rightarrow> int outcome \<Rightarrow> (disk, 'r S3Cache \<times> metadataStore) go" where
  "NewS3Cache config diskCapacity =
     (if length (sc_path config) \<le> 0 then throw ErrS3CachePathRequired
      else if length (sc_bucket config) \<le> 0 then throw ErrS3CacheBucketRequired
      else go_bind (go_wrap ''error while fetching the cache size'' (lift diskCapacity)) (\<lambda>capacity.
           go_bind (go_wrap ''error while loading the metadata store'' (newMetadataStore (sc_json config) (sc_path config))) (\<lambda>meta.
           ret (config\<lparr>sc_capacity := capacity\<rparr>, meta))))"

definition in_disk :: "(disk, 'a) go \<Rightarrow> ('r cache_state, 'a) go" where
  "in_disk m s = (case m (cs_disk s) of (r, d) \<Rightarrow> (r, s\<lparr>cs_disk := d\<rparr>))"

definition in_remote :: "('r, 'a) go \<Rightarrow> ('r cache_state, 'a) go" where
  "in_remote m s = (case m (cs_remote s) of (r, x) \<Rightarrow> (r, s\<lparr>cs_remote := x\<rparr>))"

definition in_meta :: "(metadataStore \<Rightarrow> metadataStore) \<Rightarrow> ('r cache_state, unit) go" where
  "in_meta f s = (Ok (), s\<lparr>cs_meta := f (cs_meta s)\<rparr>)"

text \<open>The write to the temporary file is one system call, which may write only a part.\<close>

definition copy_to :: "nat \<Rightarrow> bytes \<Rightarrow> (disk, unit) go" where
  "copy_to f p d =
     (if p = [] then (Ok (), d)
      else case File_Write f p d of ((n, err), d') \<Rightarrow> (case err of None \<Rightarrow> Ok () | Some e \<Rightarrow> Err e, d'))"

definition writeFileAtomic :: "(nat \<Rightarrow> string \<Rightarrow> string) \<Rightarrow> string \<Rightarrow> bytes \<Rightarrow> (disk, unit) go" where
  "writeFileAtomic tmp path p =
     go_bind (go_wrap ''error while creating temporary file'' (os_CreateTemp tmp path)) (\<lambda>(file, name).
     go_bind (go_wrap ''error while writing data to temporary file'' (copy_to file p)) (\<lambda>_.
     go_bind (go_wrap ''error while closing temporary file after write'' (File_Close (Some file))) (\<lambda>_.
     os_Rename name path)))"

definition metadataStore_persistLocked :: "'r S3Cache \<Rightarrow> ('r cache_state, unit) go" where
  "metadataStore_persistLocked c = (\<lambda>s.
     go_bind (go_wrap ''error while marshaling metadata'' (lift (mj_Marshal (sc_json c) (map snd (ms_byKey (cs_meta s)))))) (\<lambda>raw.
     go_bind (in_meta (\<lambda>ms. ms\<lparr>ms_size := int (length raw)\<rparr>)) (\<lambda>_.
     in_disk (writeFileAtomic (sc_tmp c) (ms_path (cs_meta s)) raw))) s)"

definition S3Cache_cap :: "'r S3Cache \<Rightarrow> metadataStore \<Rightarrow> int" where
  "S3Cache_cap c ms = sc_capacity c - ms_size ms - metadataStore_cacheSize ms"

definition S3Cache_dataPath :: "'r S3Cache \<Rightarrow> string \<Rightarrow> string" where
  "S3Cache_dataPath c uid = filepath_Join [sc_path c, take 2 uid, drop 2 uid]"

text \<open>\<^verbatim>\<open>reclaimSpace\<close>: the loop over the candidates gives those that were dropped.\<close>

fun reclaim_loop :: "snapshot list \<Rightarrow> int \<Rightarrow> int \<Rightarrow> metadataStore \<Rightarrow> snapshot list \<times> metadataStore" where
  "reclaim_loop [] freed diff ms = ([], ms)"
| "reclaim_loop (candidate # heap) freed diff ms =
     (if freed < diff
      then (case reclaim_loop heap (freed - sn_Size candidate) diff (metadataStore_remove (sn_Key candidate) ms) of
              (dropped, ms') \<Rightarrow> (candidate # dropped, ms'))
      else ([], ms))"

definition S3Cache_reclaimSpace :: "'r S3Cache \<Rightarrow> int \<Rightarrow> ('r cache_state, unit) go" where
  "S3Cache_reclaimSpace c diff = (\<lambda>s.
     case reclaim_loop (metadataStore_lruHeap (cs_meta s)) 0 diff (cs_meta s) of (dropped, ms) \<Rightarrow>
       go_bind (go_wrap ''error while writing to s3 cache after removing entries'' (metadataStore_persistLocked c)) (\<lambda>_.
       go_each (\<lambda>candidate. go_wrap ''error while removing S3 cached key (file)''
         (in_disk (os_Remove (S3Cache_dataPath c (sn_ID candidate))))) dropped) (s\<lparr>cs_meta := ms\<rparr>))"

definition S3Cache_store :: "'r S3Cache \<Rightarrow> string \<Rightarrow> bytes \<Rightarrow> Hash \<Rightarrow> ('r cache_state, unit) go" where
  "S3Cache_store c key p hash = (\<lambda>s.
     case metadataStore_resolveUID (sc_uuid c (cs_uuids s)) key (cs_meta s) of (uid, oldSize) \<Rightarrow>
     (let newSize = int (length p); sizeDiff = newSize - oldSize;
          s0 = s\<lparr>cs_uuids := cs_uuids s + (if metadataStore_lockedGet key (cs_meta s) = None then 1 else 0)\<rparr> in
      if newSize \<ge> sc_capacity c then (Ok (), s0)
      else go_bind
         (if S3Cache_cap c (cs_meta s) < sizeDiff
          then go_wrap ''error while reclaiming cache space'' (S3Cache_reclaimSpace c sizeDiff)
          else ret ()) (\<lambda>_.
       go_bind (go_wrap ''error while creating base directory for S3 cache entry'' (in_disk (os_MkdirAll (filepath_Dir (S3Cache_dataPath c uid))))) (\<lambda>_.
       go_bind (go_wrap ''error while writing S3 cache entry to disk'' (in_disk (writeFileAtomic (sc_tmp c) (S3Cache_dataPath c uid) p))) (\<lambda>_.
       go_bind (\<lambda>s. in_meta (metadataStore_put (dk_time (cs_disk s)) key uid hash newSize) s) (\<lambda>_.
       go_wrap ''error while writing to s3 cache after adding new entry'' (metadataStore_persistLocked c))))) s0))"

definition S3Cache_readCached :: "'r S3Cache \<Rightarrow> string \<Rightarrow> Hash \<Rightarrow> ('r cache_state, bytes option) go" where
  "S3Cache_readCached c key expected = (\<lambda>s. case metadataStore_get key (cs_meta s) of
      None \<Rightarrow> (Ok None, s)
    | Some e \<Rightarrow>
        if sn_Hash e \<noteq> expected then (Ok None, s)
        else go_bind (go_wrap ''error while reading from filesystem cache'' (in_disk (os_ReadFile (S3Cache_dataPath c (sn_ID e))))) (\<lambda>p.
          go_bind (\<lambda>s. in_meta (metadataStore_touch (dk_time (cs_disk s)) key) s) (\<lambda>_. ret (Some p))) s)"

text \<open>A failure to store is logged and otherwise ignored.\<close>

definition log_errors :: "('s, unit) go \<Rightarrow> ('s, unit) go" where
  "log_errors m = (\<lambda>s. case m s of (Err e, s') \<Rightarrow> (Ok (), s') | r \<Rightarrow> r)"

text \<open>
  The deferred function of \<^verbatim>\<open>fetchAndStore\<close> closes the object on every return, and turns a failure to
  do so into an error, with the wrong cause, when there is none yet.
\<close>

definition deferred_Close :: "'r S3Cache \<Rightarrow> string \<Rightarrow> ('r cache_state, 'a) go \<Rightarrow> ('r cache_state, 'a) go" where
  "deferred_Close c key m = (\<lambda>s. case m s of (r, s1) \<Rightarrow>
     (case in_remote (mn_Close (sc_client c) (sc_bucket c) key) s1 of
        (Err e, s2) \<Rightarrow> (case r of Ok _ \<Rightarrow> (Err (PlainError ''error while closing S3 object''), s2) | _ \<Rightarrow> (r, s2))
      | (_, s2) \<Rightarrow> (r, s2)))"

definition S3Cache_fetchAndStore :: "'r S3Cache \<Rightarrow> string \<Rightarrow> ('r cache_state, bytes \<times> Hash) go" where
  "S3Cache_fetchAndStore c key =
     go_bind (go_wrap ''error while getting object'' (in_remote (mn_GetObject (sc_client c) (sc_bucket c) key))) (\<lambda>_.
     deferred_Close c key (
       go_bind (go_wrap ''error while statting on object'' (in_remote (mn_Stat (sc_client c) (sc_bucket c) key))) (\<lambda>hash.
       go_bind (go_wrap ''error while reading reading object'' (in_remote (mn_ReadAll (sc_client c) (sc_bucket c) key))) (\<lambda>p.
       go_bind (log_errors (S3Cache_store c key p hash)) (\<lambda>_. ret (p, hash))))))"

definition S3Cache_Get :: "'r S3Cache \<Rightarrow> string \<Rightarrow> Hash \<Rightarrow> ('r cache_state, bytes \<times> Hash) go" where
  "S3Cache_Get c key expected =
     go_bind (if Hash_IsZero expected then ret None
              else go_wrap ''error while reading (possibly) cached S3 key'' (S3Cache_readCached c key expected)) (\<lambda>cached.
     case cached of
       Some p \<Rightarrow> ret (p, expected)
     | None \<Rightarrow> go_wrap ''error while fetching key from remote S3'' (S3Cache_fetchAndStore c key))"

definition S3Cache_Put :: "'r S3Cache \<Rightarrow> string \<Rightarrow> bytes \<Rightarrow> ('r cache_state, Hash) go" where
  "S3Cache_Put c key p =
     go_bind (go_wrap ''error while putting object'' (in_remote (mn_PutObject (sc_client c) (sc_bucket c) key p))) (\<lambda>hash.
     go_bind (log_errors (S3Cache_store c key p hash)) (\<lambda>_. ret hash))"

definition S3Cache_Remove :: "'r S3Cache \<Rightarrow> string \<Rightarrow> ('r cache_state, unit) go" where
  "S3Cache_Remove c key =
     go_bind (go_wrap ''error while deleting object'' (in_remote (mn_RemoveObject (sc_client c) (sc_bucket c) key))) (\<lambda>_ s.
     case metadataStore_get key (cs_meta s) of
       None \<Rightarrow> (Ok (), s)
     | Some candidate \<Rightarrow>
         go_bind (in_meta (metadataStore_remove key)) (\<lambda>_.
         go_bind (go_wrap ''error while removing s3 cache entry'' (metadataStore_persistLocked c)) (\<lambda>_.
         log_errors (in_disk (os_Remove (S3Cache_dataPath c (sn_ID candidate)))))) s)"

end
