(* ===== verification/Btree.thy ===== *)
theory Btree
  imports Main
begin

text \<open>
  The ordered tree \<^verbatim>\<open>github.com/google/btree\<close> as its clients see it. The package is not part of the
  sources, so it is a parameter: a record of the operations the sources call, over an arbitrary
  type \<open>'b\<close> of trees, and the locale \<open>google_btree\<close> with the behaviour its documentation promises.
  \<open>bt_Ascend\<close> lists the items in the order \<^verbatim>\<open>Ascend\<close> visits them; \<open>bt_AscendRange a b\<close> those
  \<^verbatim>\<open>AscendRange(a, b, _)\<close> would visit with an iterator that never stops, and
  \<open>bt_AscendGreaterOrEqual a\<close> those from \<open>a\<close> on.

  \<open>list_btree\<close> is one tree that behaves that way: the sorted list of the items.
\<close>

record ('b, 'a) btree =
  bt_New :: "'b"
  bt_ReplaceOrInsert :: "'a \<Rightarrow> 'b \<Rightarrow> 'b"
  bt_Delete :: "'a \<Rightarrow> 'b \<Rightarrow> 'b"
  bt_AscendRange :: "'a \<Rightarrow> 'a \<Rightarrow> 'b \<Rightarrow> 'a list"
  bt_AscendGreaterOrEqual :: "'a \<Rightarrow> 'b \<Rightarrow> 'a list"
  bt_Ascend :: "'b \<Rightarrow> 'a list"

text \<open>Two items neither of which is below the other are the same key.\<close>

definition same_key :: "('a \<Rightarrow> 'a \<Rightarrow> bool) \<Rightarrow> 'a \<Rightarrow> 'a \<Rightarrow> bool" where
  "same_key lt x y \<longleftrightarrow> \<not> lt x y \<and> \<not> lt y x"

locale google_btree =
  fixes lt :: "'a \<Rightarrow> 'a \<Rightarrow> bool"
    and bt :: "('b, 'a) btree"
  assumes New: "bt_Ascend bt (bt_New bt) = []"
    and Insert_sorted: "sorted_wrt lt (bt_Ascend bt t) \<Longrightarrow>
      sorted_wrt lt (bt_Ascend bt (bt_ReplaceOrInsert bt x t))"
    and Insert_set: "sorted_wrt lt (bt_Ascend bt t) \<Longrightarrow>
      set (bt_Ascend bt (bt_ReplaceOrInsert bt x t)) =
        insert x {y \<in> set (bt_Ascend bt t). \<not> same_key lt x y}"
    and Delete_items: "sorted_wrt lt (bt_Ascend bt t) \<Longrightarrow>
      bt_Ascend bt (bt_Delete bt x t) = filter (\<lambda>y. \<not> same_key lt x y) (bt_Ascend bt t)"
    and AscendRange: "sorted_wrt lt (bt_Ascend bt t) \<Longrightarrow>
      bt_AscendRange bt a b t = filter (\<lambda>y. \<not> lt y a \<and> lt y b) (bt_Ascend bt t)"
    and AscendGreaterOrEqual: "sorted_wrt lt (bt_Ascend bt t) \<Longrightarrow>
      bt_AscendGreaterOrEqual bt a t = filter (\<lambda>y. \<not> lt y a) (bt_Ascend bt t)"
begin

lemma Delete_sorted:
  "sorted_wrt lt (bt_Ascend bt t) \<Longrightarrow> sorted_wrt lt (bt_Ascend bt (bt_Delete bt x t))"
  by (simp add: Delete_items sorted_wrt_filter)

lemma Delete_set:
  "sorted_wrt lt (bt_Ascend bt t) \<Longrightarrow>
   set (bt_Ascend bt (bt_Delete bt x t)) = {y \<in> set (bt_Ascend bt t). \<not> same_key lt x y}"
  by (auto simp: Delete_items)

end

section \<open>Sorted lists\<close>

fun insert_sorted :: "('a \<Rightarrow> 'a \<Rightarrow> bool) \<Rightarrow> 'a \<Rightarrow> 'a list \<Rightarrow> 'a list" where
  "insert_sorted lt x [] = [x]"
| "insert_sorted lt x (y # ys) =
     (if lt x y then x # y # ys
      else if lt y x then y # insert_sorted lt x ys
      else x # ys)"

definition list_btree :: "('a \<Rightarrow> 'a \<Rightarrow> bool) \<Rightarrow> ('a list, 'a) btree" where
  "list_btree lt =
     \<lparr>bt_New = [],
      bt_ReplaceOrInsert = insert_sorted lt,
      bt_Delete = (\<lambda>x. filter (\<lambda>y. \<not> same_key lt x y)),
      bt_AscendRange = (\<lambda>a b. filter (\<lambda>y. \<not> lt y a \<and> lt y b)),
      bt_AscendGreaterOrEqual = (\<lambda>a. filter (\<lambda>y. \<not> lt y a)),
      bt_Ascend = (\<lambda>t. t)\<rparr>"

text \<open>A strict weak order: the comparison of some key.\<close>

definition weak_order :: "('a \<Rightarrow> 'a \<Rightarrow> bool) \<Rightarrow> bool" where
  "weak_order lt \<longleftrightarrow> transp lt \<and> irreflp lt \<and>
     (\<forall>x y z. same_key lt x y \<longrightarrow> (lt x z \<longleftrightarrow> lt y z) \<and> (lt z x \<longleftrightarrow> lt z y))"

lemma weak_order_key: "(\<And>x y. lt x y \<longleftrightarrow> (key x :: 'k :: linorder) < key y) \<Longrightarrow> weak_order lt"
  by (auto simp: weak_order_def same_key_def intro!: transpI irreflpI)

lemma insert_sorted_set:
  assumes "weak_order lt" "sorted_wrt lt ys"
  shows "set (insert_sorted lt x ys) = insert x {y \<in> set ys. \<not> same_key lt x y}"
  using assms(2)
proof (induction ys)
  case (Cons y ys)
  have w: "transp lt" "irreflp lt" "same_key lt x y \<Longrightarrow> lt x z \<longleftrightarrow> lt y z" for z
    using assms(1) by (auto simp: weak_order_def)
  have tail: "lt y z" if "z \<in> set ys" for z using Cons.prems that by simp
  have above: "\<not> same_key lt x z" if "lt x y \<or> same_key lt x y" "z \<in> set ys" for z
    using that tail [OF that(2)] w transpD [OF w(1), of x y z] by (auto simp: same_key_def)
  have ylx: "\<not> lt y x" if "lt x y" using that transpD [OF w(1)] irreflpD [OF w(2)] by blast
  show ?case
    using Cons above ylx by (auto simp: same_key_def)
qed simp

lemma insert_sorted_sorted:
  assumes "weak_order lt" "sorted_wrt lt ys"
  shows "sorted_wrt lt (insert_sorted lt x ys)"
  using assms(2)
proof (induction ys)
  case (Cons y ys)
  have t: "transp lt" and w: "same_key lt x y \<Longrightarrow> lt y z \<Longrightarrow> lt x z" for z
    using assms(1) unfolding weak_order_def by blast+
  have tail: "\<And>z. z \<in> set ys \<Longrightarrow> lt y z" "sorted_wrt lt ys" using Cons.prems by simp_all
  consider (below) "lt x y" | (above) "\<not> lt x y" "lt y x" | (same) "\<not> lt x y" "\<not> lt y x" by blast
  then show ?case
  proof cases
    case below
    have "lt x z" if "z \<in> set ys" for z by (rule transpD [OF t below tail(1) [OF that]])
    with below Cons.prems show ?thesis by simp
  next
    case above
    have "lt y z" if "z \<in> set (insert_sorted lt x ys)" for z
      using that above tail(1) [of z] insert_sorted_set [OF assms(1) tail(2), of x] by auto
    with above Cons.IH [OF tail(2)] show ?thesis by simp
  next
    case same
    then have "lt x z" if "z \<in> set ys" for z using w [OF _ tail(1) [OF that]] by (simp add: same_key_def)
    with same tail(2) show ?thesis by simp
  qed
qed simp

lemma list_btree_google: "weak_order lt \<Longrightarrow> google_btree lt (list_btree lt)"
  by unfold_locales (auto simp: list_btree_def insert_sorted_sorted insert_sorted_set)

end
