(* ===== verification/Pg_SortedMap.thy ===== *)
theory Pg_SortedMap
  imports Go_Hoare Btree "HOL-Library.List_Lexorder" "HOL-Library.Char_ord"
begin

text \<open>
  The ordered map of \<^verbatim>\<open>lib/pgcache/sorted_map.go\<close>: a tree of the keys and a map from their texts to
  values, replaced as a whole by every update (an atomic pointer to an immutable snapshot). The
  methods of the interface \<^verbatim>\<open>Key\<close> (\<^verbatim>\<open>types.go\<close>) are the fields of a record; a clone of the persistent
  tree is the tree. An iterator is the list of the pairs it yields to a consumer that does not stop.

  The locale \<open>pg_key\<close> is what the map needs of its keys: two keys have the same text exactly when
  neither is below the other.
\<close>

section \<open>Keys\<close>

record 'k Key =
  key_Less :: "'k \<Rightarrow> 'k \<Rightarrow> bool"
  key_String :: "'k \<Rightarrow> string"

definition StringKey_Less :: "string \<Rightarrow> string \<Rightarrow> bool" where
  "StringKey_Less s other \<longleftrightarrow> s < other"

definition StringKey_String :: "string \<Rightarrow> string" where
  "StringKey_String s = s"

definition StringKeyFromString :: "string \<Rightarrow> string outcome" where
  "StringKeyFromString str = Ok str"

definition StringKey :: "string Key" where
  "StringKey = \<lparr>key_Less = StringKey_Less, key_String = StringKey_String\<rparr>"

section \<open>Snapshots\<close>

record ('b, 'v) snapshot =
  sm_tree :: 'b
  sm_vals :: "string \<rightharpoonup> 'v"

definition NewSortedMap :: "('b, 'k) btree \<Rightarrow> ('b, 'v) snapshot" where
  "NewSortedMap bt = \<lparr>sm_tree = bt_New bt, sm_vals = Map.empty\<rparr>"

definition SortedMap_copy :: "('b, 'v) snapshot \<Rightarrow> ('b, 'v) snapshot" where
  "SortedMap_copy old = \<lparr>sm_tree = sm_tree old, sm_vals = sm_vals old\<rparr>"

definition SortedMap_Store :: "'k Key \<Rightarrow> ('b, 'k) btree \<Rightarrow> 'k \<Rightarrow> 'v \<Rightarrow> ('b, 'v) snapshot \<Rightarrow> ('b, 'v) snapshot" where
  "SortedMap_Store K bt k v m =
     (let s = SortedMap_copy m in
      s\<lparr>sm_tree := bt_ReplaceOrInsert bt k (sm_tree s), sm_vals := (sm_vals s)(key_String K k \<mapsto> v)\<rparr>)"

definition SortedMap_Delete :: "'k Key \<Rightarrow> ('b, 'k) btree \<Rightarrow> 'k \<Rightarrow> ('b, 'v) snapshot \<Rightarrow> ('b, 'v) snapshot" where
  "SortedMap_Delete K bt k m =
     (let s = SortedMap_copy m in
      s\<lparr>sm_tree := bt_Delete bt k (sm_tree s), sm_vals := (sm_vals s)(key_String K k := None)\<rparr>)"

definition SortedMap_Load :: "'k Key \<Rightarrow> 'k \<Rightarrow> ('b, 'v) snapshot \<Rightarrow> 'v option" where
  "SortedMap_Load K k m = sm_vals m (key_String K k)"

text \<open>The pairs for some keys; a key without a value yields the zero value.\<close>

definition yielded :: "'k Key \<Rightarrow> 'v \<Rightarrow> ('b, 'v) snapshot \<Rightarrow> 'k list \<Rightarrow> ('k \<times> 'v) list" where
  "yielded K zero s ks = map (\<lambda>k. (k, case sm_vals s (key_String K k) of Some v \<Rightarrow> v | None \<Rightarrow> zero)) ks"

definition SortedMap_All :: "'k Key \<Rightarrow> ('b, 'k) btree \<Rightarrow> 'v \<Rightarrow> ('b, 'v) snapshot \<Rightarrow> ('k \<times> 'v) list" where
  "SortedMap_All K bt zero s = yielded K zero s (bt_Ascend bt (sm_tree s))"

definition SortedMap_From :: "'k Key \<Rightarrow> ('b, 'k) btree \<Rightarrow> 'v \<Rightarrow> 'k \<Rightarrow> ('b, 'v) snapshot \<Rightarrow> ('k \<times> 'v) list" where
  "SortedMap_From K bt zero start s = yielded K zero s (bt_AscendGreaterOrEqual bt start (sm_tree s))"

definition SortedMap_Between ::
    "'k Key \<Rightarrow> ('b, 'k) btree \<Rightarrow> 'v \<Rightarrow> 'k \<Rightarrow> 'k \<Rightarrow> ('b, 'v) snapshot \<Rightarrow> ('k \<times> 'v) list" where
  "SortedMap_Between K bt zero start stop s = yielded K zero s (bt_AscendRange bt start stop (sm_tree s))"

section \<open>Laws\<close>

text \<open>The tree is sorted and holds the keys of exactly the texts that have a value.\<close>

definition sm_inv :: "'k Key \<Rightarrow> ('b, 'k) btree \<Rightarrow> ('b, 'v) snapshot \<Rightarrow> bool" where
  "sm_inv K bt m \<longleftrightarrow> sorted_wrt (key_Less K) (bt_Ascend bt (sm_tree m)) \<and>
     key_String K ` set (bt_Ascend bt (sm_tree m)) = dom (sm_vals m)"

lemma sm_vals_simps [simp]:
  "sm_vals (SortedMap_Store K bt k v m) = (sm_vals m)(key_String K k \<mapsto> v)"
  "sm_vals (SortedMap_Delete K bt k m) = (sm_vals m)(key_String K k := None)"
  "sm_vals (NewSortedMap bt) = Map.empty"
  by (simp_all add: SortedMap_Store_def SortedMap_Delete_def NewSortedMap_def SortedMap_copy_def Let_def)

lemma sm_tree_simps [simp]:
  "sm_tree (SortedMap_Store K bt k v m) = bt_ReplaceOrInsert bt k (sm_tree m)"
  "sm_tree (SortedMap_Delete K bt k m) = bt_Delete bt k (sm_tree m)"
  "sm_tree (NewSortedMap bt) = bt_New bt"
  by (simp_all add: SortedMap_Store_def SortedMap_Delete_def NewSortedMap_def SortedMap_copy_def Let_def)

lemma map_of_graph:
  assumes "distinct (map fst ps)" "set ps = {(s, v). m s = Some v}"
  shows "map_of ps = m"
proof
  fix s
  show "map_of ps s = m s"
  proof (cases "m s")
    case None
    then have "s \<notin> fst ` set ps" using assms(2) by auto
    with None show ?thesis by (simp add: map_of_eq_None_iff)
  qed (use assms map_of_eq_Some_iff in fastforce)
qed

locale pg_key =
  fixes K :: "'k Key"
  assumes String_same: "key_String K x = key_String K y \<longleftrightarrow> same_key (key_Less K) x y"

locale sorted_map = pg_key K + google_btree "key_Less K" bt for K :: "'k Key" and bt :: "('b, 'k) btree"
begin

lemma sm_inv_New: "sm_inv K bt (NewSortedMap bt)"
  by (simp add: sm_inv_def New)

lemma String_others:
  "key_String K ` {y \<in> ks. \<not> same_key (key_Less K) k y} = key_String K ` ks - {key_String K k}"
  by (auto simp: String_same [symmetric])

lemma sm_inv_Store: "sm_inv K bt m \<Longrightarrow> sm_inv K bt (SortedMap_Store K bt k v m)"
  by (simp add: sm_inv_def Insert_sorted Insert_set String_others)

lemma sm_inv_Delete: "sm_inv K bt m \<Longrightarrow> sm_inv K bt (SortedMap_Delete K bt k m)"
  by (simp add: sm_inv_def Delete_sorted Delete_set String_others)

text \<open>Iteration: in order, each key once, with its value.\<close>

lemma yielded_vals:
  assumes "sm_inv K bt m" "set ks \<subseteq> set (bt_Ascend bt (sm_tree m))"
  shows "set (yielded K zero m ks) = {(k, v). k \<in> set ks \<and> sm_vals m (key_String K k) = Some v}"
proof -
  have "\<exists>v. sm_vals m (key_String K k) = Some v" if "k \<in> set ks" for k
    using assms(2) that imageI [of k "set (bt_Ascend bt (sm_tree m))" "key_String K"] assms(1)
    unfolding sm_inv_def by blast
  then show ?thesis by (force simp: yielded_def)
qed

lemma irrefl: "\<not> key_Less K x x"
  using String_same [of x x] by (simp add: same_key_def)

lemma distinct_String:
  assumes "sorted_wrt (key_Less K) ks"
  shows "distinct (map (key_String K) ks)"
  using assms by (induction ks) (auto simp: String_same same_key_def)

lemma All_vals:
  assumes "sm_inv K bt m"
  shows "sorted_wrt (key_Less K) (map fst (SortedMap_All K bt zero m))"
    and "map_of (map (\<lambda>(k, v). (key_String K k, v)) (SortedMap_All K bt zero m)) = sm_vals m"
proof -
  let ?ks = "bt_Ascend bt (sm_tree m)"
  have fst: "map fst (SortedMap_All K bt zero m) = ?ks" by (simp add: SortedMap_All_def yielded_def comp_def)
  then show "sorted_wrt (key_Less K) (map fst (SortedMap_All K bt zero m))" using assms by (simp add: sm_inv_def)
  let ?ps = "map (\<lambda>(k, v). (key_String K k, v)) (SortedMap_All K bt zero m)"
  have "map fst ?ps = map (key_String K) (map fst (SortedMap_All K bt zero m))" by (simp add: comp_def split_def)
  then have "distinct (map fst ?ps)" using fst assms distinct_String by (simp add: sm_inv_def)
  moreover have "set ?ps = {(s, v). sm_vals m s = Some v}"
  proof -
    have "set ?ps = (\<lambda>(k, v). (key_String K k, v)) ` {(k, v). k \<in> set ?ks \<and> sm_vals m (key_String K k) = Some v}"
      using yielded_vals [OF assms, of ?ks zero] by (simp add: SortedMap_All_def)
    also have "\<dots> = {(s, v). sm_vals m s = Some v}"
    proof -
      have "s \<in> key_String K ` set ?ks" if "sm_vals m s = Some v" for s v
        using assms that domI [of "sm_vals m"] by (simp add: sm_inv_def)
      then show ?thesis by force
    qed
    finally show ?thesis .
  qed
  ultimately show "map_of ?ps = sm_vals m" by (rule map_of_graph)
qed

lemma range_filters:
  assumes "sm_inv K bt m"
  shows "SortedMap_Between K bt zero a b m =
      filter (\<lambda>(k, v). \<not> key_Less K k a \<and> key_Less K k b) (SortedMap_All K bt zero m)"
    and "SortedMap_From K bt zero a m = filter (\<lambda>(k, v). \<not> key_Less K k a) (SortedMap_All K bt zero m)"
  using assms
  by (simp_all add: SortedMap_Between_def SortedMap_From_def SortedMap_All_def yielded_def sm_inv_def
      AscendRange AscendGreaterOrEqual filter_map comp_def)

end

interpretation StringKey: pg_key StringKey
  by unfold_locales (auto simp: StringKey_def StringKey_Less_def StringKey_String_def same_key_def)

lemma sorted_map_list:
  assumes "pg_key K" "weak_order (key_Less K)"
  shows "sorted_map K (list_btree (key_Less K))"
  using assms list_btree_google [OF assms(2)] by (simp add: sorted_map_def)

section \<open>Concurrent writers\<close>

text \<open>
  \<^verbatim>\<open>Store\<close> and \<^verbatim>\<open>Delete\<close> load the pointer, build a new snapshot and store the pointer, as separate
  atomic steps: other goroutines may write in between. A state is the published snapshot and the
  snapshots being built.
\<close>

datatype ('k, 'v) sm_write = WriteStore 'k 'v | WriteDelete 'k

fun sm_apply :: "'k Key \<Rightarrow> ('b, 'k) btree \<Rightarrow> ('k, 'v) sm_write \<Rightarrow> ('b, 'v) snapshot \<Rightarrow> ('b, 'v) snapshot" where
  "sm_apply K bt (WriteStore k v) m = SortedMap_Store K bt k v m"
| "sm_apply K bt (WriteDelete k) m = SortedMap_Delete K bt k m"

inductive sm_step :: "'k Key \<Rightarrow> ('b, 'k) btree \<Rightarrow> ('b, 'v) snapshot \<times> ('b, 'v) snapshot list \<Rightarrow>
    ('b, 'v) snapshot \<times> ('b, 'v) snapshot list \<Rightarrow> bool" for K bt where
  build: "sm_step K bt (ptr, pending) (ptr, pending @ [sm_apply K bt w ptr])"
| publish: "sm_step K bt (ptr, before @ s # after) (s, before @ after)"

context sorted_map
begin

lemma sm_inv_apply: "sm_inv K bt m \<Longrightarrow> sm_inv K bt (sm_apply K bt w m)"
  by (cases w) (simp_all add: sm_inv_Store sm_inv_Delete)

text \<open>Whatever the interleaving, a reader always finds a well-formed snapshot.\<close>

lemma sm_steps_inv:
  assumes "(sm_step K bt)\<^sup>*\<^sup>* s s'" "sm_inv K bt (fst s)" "list_all (sm_inv K bt) (snd s)"
  shows "sm_inv K bt (fst s') \<and> list_all (sm_inv K bt) (snd s')"
  using assms
proof (induction rule: rtranclp_induct)
  case (step y z)
  from step.hyps(2) step.IH [OF step.prems] show ?case by cases (auto simp: sm_inv_apply)
qed simp

text \<open>Two writers that overlap: the later one to publish undoes the other's write.\<close>

lemma lost_write:
  assumes "key_String K a \<noteq> key_String K b"
  shows "\<exists>ptr'. (sm_step K bt)\<^sup>*\<^sup>* (m, []) (ptr', []) \<and> ptr' = sm_apply K bt (WriteStore b w) m \<and>
    SortedMap_Load K a ptr' = SortedMap_Load K a m"
proof -
  let ?sa = "sm_apply K bt (WriteStore a v) m" and ?sb = "sm_apply K bt (WriteStore b w) m"
  have "sm_step K bt (m, []) (m, [?sa])" using build [of K bt m "[]" "WriteStore a v"] by simp
  moreover have "sm_step K bt (m, [?sa]) (m, [?sa, ?sb])" using build [of K bt m "[?sa]" "WriteStore b w"] by simp
  moreover have "sm_step K bt (m, [?sa, ?sb]) (?sa, [?sb])" using publish [of K bt m "[]" ?sa "[?sb]"] by simp
  moreover have "sm_step K bt (?sa, [?sb]) (?sb, [])" using publish [of K bt ?sa "[]" ?sb "[]"] by simp
  ultimately have "(sm_step K bt)\<^sup>*\<^sup>* (m, []) (?sb, [])"
    by (meson converse_rtranclp_into_rtranclp rtranclp.rtrancl_refl)
  with assms show ?thesis by (auto simp: SortedMap_Load_def)
qed

end

end
