(* ===== verification/Pg_Table.thy ===== *)
theory Pg_Table
  imports Pg_SortedMap "HOL-Library.Word" "HOL-Library.AList"
begin

text \<open>
  The table cache \<^verbatim>\<open>lib/pgcache\<close>: a copy of a database table kept in memory, written through by the
  transactions of this process (\<^verbatim>\<open>TableTx\<close>) and brought up to date by notifications that the other
  processes send when they commit (\<^verbatim>\<open>notification_manager.go\<close>).

  The database is a parameter: its state \<open>'db\<close> (with the notifications sent), the state \<open>'dtx\<close> of a
  transaction, the calls of the pool (\<open>Pool\<close>) and the four functions given to \<^verbatim>\<open>NewTable\<close>. So is
  \<^verbatim>\<open>backoff.Retry\<close>, a function of the results of the tries, of which each may find another state of
  the database. A Go map is the list of its entries in the order in which a loop visits them.
  Contexts are of an arbitrary type \<open>'c\<close> and only passed on. Of the metrics the gauge of objects is
  modelled, since its updates depend on the cache.
\<close>

section \<open>Events\<close>

definition ErrUnexpectedEvenType :: goerr where
  "ErrUnexpectedEvenType = PlainError ''unexpected event type''"

type_synonym EvenType = "8 word"

definition EventTypeStore :: EvenType where "EventTypeStore = 0"
definition EventTypeDelete :: EvenType where "EventTypeDelete = 1"

definition EvenType_String :: "EvenType \<Rightarrow> string" where
  "EvenType_String et =
     (if et = EventTypeStore then ''store'' else if et = EventTypeDelete then ''delete'' else ''unknown'')"

record 'k Event =
  ev_Type :: EvenType
  ev_Key :: 'k

definition Event_String :: "'k Key \<Rightarrow> 'k Event \<Rightarrow> string" where
  "Event_String K e = ''('' @ EvenType_String (ev_Type e) @ '', '' @ key_String K (ev_Key e) @ '')''"

section \<open>The notification manager\<close>

type_synonym keymap = "(string \<times> EvenType) list"

record payload =
  pl_ID :: string
  pl_KeyMap :: keymap

record Json =
  json_Marshal :: "payload \<Rightarrow> string outcome"
  json_Unmarshal :: "string \<Rightarrow> payload outcome"

record ('c, 'db, 'dtx) Pool =
  pool_Ping :: "'c \<Rightarrow> 'db \<Rightarrow> unit outcome"
  pool_Begin :: "'c \<Rightarrow> 'db \<Rightarrow> 'dtx outcome"
  pool_Commit :: "'c \<Rightarrow> 'dtx \<Rightarrow> ('db, unit) go"
  pool_Notify :: "'c \<Rightarrow> string \<Rightarrow> string \<Rightarrow> ('db, unit) go"

record 'k notificationManager =
  nm_id :: string
  nm_channel :: string
  nm_fromString :: "string \<Rightarrow> 'k outcome"
  nm_json :: Json

definition newNotificationManager ::
    "Json \<Rightarrow> string outcome \<Rightarrow> unit outcome \<Rightarrow> unit outcome \<Rightarrow> string \<Rightarrow> (string \<Rightarrow> 'k outcome) \<Rightarrow> 'k notificationManager outcome" where
  "newNotificationManager json uuid notifyConn listenConn table fromString =
     outcome_bind (outcome_wrap ''error while generating uuid'' uuid) (\<lambda>id.
     outcome_bind (outcome_wrap ''error while opening notify connection'' notifyConn) (\<lambda>_.
     outcome_bind (outcome_wrap ''error while opening listen connection'' listenConn) (\<lambda>_.
     Ok \<lparr>nm_id = id, nm_channel = ''teapot_invalidate_'' @ table, nm_fromString = fromString, nm_json = json\<rparr>)))"

definition encode_keymap :: "'k Key \<Rightarrow> 'k Event list \<Rightarrow> keymap" where
  "encode_keymap K events = fold (\<lambda>event. AList.update (key_String K (ev_Key event)) (ev_Type event)) events []"

definition nm_encode :: "'k Key \<Rightarrow> 'k notificationManager \<Rightarrow> 'k Event list \<Rightarrow> string outcome" where
  "nm_encode K nm events =
     outcome_wrap ''error while marshaling keys''
       (json_Marshal (nm_json nm) \<lparr>pl_ID = nm_id nm, pl_KeyMap = encode_keymap K events\<rparr>)"

fun decode_events :: "(string \<Rightarrow> 'k outcome) \<Rightarrow> keymap \<Rightarrow> 'k Event list outcome" where
  "decode_events fromString [] = Ok []"
| "decode_events fromString ((str, t) # rest) =
     outcome_bind (outcome_wrap ''error while building key from encoded'' (fromString str)) (\<lambda>key.
     outcome_bind (decode_events fromString rest) (\<lambda>events.
     Ok (\<lparr>ev_Type = t, ev_Key = key\<rparr> # events)))"

definition nm_decode :: "'k notificationManager \<Rightarrow> string \<Rightarrow> (string \<times> 'k Event list) outcome" where
  "nm_decode nm raw =
     outcome_bind (outcome_wrap ''error while unmarshaling keys'' (json_Unmarshal (nm_json nm) raw)) (\<lambda>payload.
     outcome_bind (decode_events (nm_fromString nm) (pl_KeyMap payload)) (\<lambda>events.
     Ok (pl_ID payload, events)))"

text \<open>
  The notifications that arrive, each with the states of the database that the tries to handle it
  will find. \<^verbatim>\<open>Next\<close> waits for ever when none is left.
\<close>

type_synonym 'db delivery = "(string \<times> string) outcome \<times> (nat \<Rightarrow> 'db)"

fun nm_Next :: "'k notificationManager \<Rightarrow> 'db delivery list \<Rightarrow>
    ('k Event list \<times> (nat \<Rightarrow> 'db)) outcome \<times> 'db delivery list" where
  "nm_Next nm [] = (Diverge, [])"
| "nm_Next nm ((msg, views) # rest) = (case msg of
      Ok (channel, raw) \<Rightarrow>
        if channel = nm_channel nm then
          (case outcome_wrap ''error while decoding notification payload'' (nm_decode nm raw) of
             Ok (sender, events) \<Rightarrow> if sender \<noteq> nm_id nm then (Ok (events, views), rest) else nm_Next nm rest
           | Err e \<Rightarrow> (Err e, rest) | Panic p \<Rightarrow> (Panic p, rest) | Diverge \<Rightarrow> (Diverge, rest))
        else nm_Next nm rest
    | Err e \<Rightarrow> (Err e, rest) | Panic p \<Rightarrow> (Panic p, rest) | Diverge \<Rightarrow> (Diverge, rest))"

lemma nm_Next_shorter: "nm_Next nm msgs = (Ok x, rest) \<Longrightarrow> length rest < length msgs"
proof (induction msgs)
  case (Cons m msgs)
  then show ?case by (cases m) (auto split: outcome.splits if_splits intro: less_SucI)
qed simp

definition nm_Notify :: "'k Key \<Rightarrow> ('c, 'db, 'dtx) Pool \<Rightarrow> 'k notificationManager \<Rightarrow> 'c \<Rightarrow> 'k Event list \<Rightarrow> ('db, unit) go" where
  "nm_Notify K pool nm ctx events =
     (if events = [] then ret ()
      else go_bind (go_wrap ''error while encoding notification events'' (lift (nm_encode K nm events))) (\<lambda>payload.
        go_wrap ''error while sending notification'' (pool_Notify pool ctx (nm_channel nm) payload)))"

section \<open>The table\<close>

definition ErrNotLoaded :: goerr where "ErrNotLoaded = PlainError ''not loaded yet''"
definition ErrNotListening :: goerr where "ErrNotListening = PlainError ''not listening yet''"
definition ErrInvalidUpdate :: goerr where "ErrInvalidUpdate = PlainError ''invalid update''"
definition ErrAlreadyCommitted :: goerr where "ErrAlreadyCommitted = PlainError ''already committed''"
definition ErrUnexpectedAmountOfObjects :: goerr where
  "ErrUnexpectedAmountOfObjects = PlainError ''unexpected about of objects''"

text \<open>
  What does not change (\<open>Table\<close>, with the methods of the key and object types) and what does
  (\<open>TableState\<close>).
\<close>

record ('k, 't, 'c, 'db, 'dtx) Table =
  t_key :: "'k Key"
  t_Key :: "'t \<Rightarrow> 'k"
  t_zero :: 't
  t_table :: string
  t_pool :: "('c, 'db, 'dtx) Pool"
  t_nm :: "'k notificationManager"
  t_listFunc :: "'db \<Rightarrow> 't list outcome"
  t_getFunc :: "'k list \<Rightarrow> 'db \<Rightarrow> 't list outcome"
  t_storeFunc :: "'t list \<Rightarrow> ('dtx, unit) go"
  t_deleteFunc :: "'k list \<Rightarrow> ('dtx, unit) go"
  t_retry :: "(nat \<Rightarrow> 't list outcome) \<Rightarrow> 't list outcome"

record ('b, 't) TableState =
  ts_cache :: "('b, 't) snapshot"
  ts_loaded :: bool
  ts_listening :: bool
  ts_objectsTotal :: int

definition NewTable_state :: "('b, 'k) btree \<Rightarrow> ('b, 't) TableState" where
  "NewTable_state bt = \<lparr>ts_cache = NewSortedMap bt, ts_loaded = False, ts_listening = False, ts_objectsTotal = 0\<rparr>"

definition Table_store :: "('k, 't, 'c, 'db, 'dtx) Table \<Rightarrow> ('b, 'k) btree \<Rightarrow> 'k \<Rightarrow> 't \<Rightarrow> ('b, 't) TableState \<Rightarrow> ('b, 't) TableState" where
  "Table_store T bt key object ts =
     (let existed = SortedMap_Load (t_key T) key (ts_cache ts) \<noteq> None in
      ts\<lparr>ts_cache := SortedMap_Store (t_key T) bt key object (ts_cache ts),
         ts_objectsTotal := (if existed then ts_objectsTotal ts else ts_objectsTotal ts + 1)\<rparr>)"

text \<open>The call for an object that existed is \<^verbatim>\<open>Desc()\<close>, which returns a description and changes nothing.\<close>

definition Table_delete :: "('k, 't, 'c, 'db, 'dtx) Table \<Rightarrow> ('b, 'k) btree \<Rightarrow> 'k \<Rightarrow> ('b, 't) TableState \<Rightarrow> ('b, 't) TableState" where
  "Table_delete T bt key ts = ts\<lparr>ts_cache := SortedMap_Delete (t_key T) bt key (ts_cache ts)\<rparr>"

definition Table_Get :: "('k, 't, 'c, 'db, 'dtx) Table \<Rightarrow> 'k \<Rightarrow> ('b, 't) TableState \<Rightarrow> 't option" where
  "Table_Get T key ts = SortedMap_Load (t_key T) key (ts_cache ts)"

definition Table_List :: "('k, 't, 'c, 'db, 'dtx) Table \<Rightarrow> ('b, 'k) btree \<Rightarrow> ('b, 't) TableState \<Rightarrow> 't list" where
  "Table_List T bt ts = map snd (SortedMap_All (t_key T) bt (t_zero T) (ts_cache ts))"

definition Table_From :: "('k, 't, 'c, 'db, 'dtx) Table \<Rightarrow> ('b, 'k) btree \<Rightarrow> 'k \<Rightarrow> ('b, 't) TableState \<Rightarrow> 't list" where
  "Table_From T bt key ts = map snd (SortedMap_From (t_key T) bt (t_zero T) key (ts_cache ts))"

definition Table_Between :: "('k, 't, 'c, 'db, 'dtx) Table \<Rightarrow> ('b, 'k) btree \<Rightarrow> 'k \<Rightarrow> 'k \<Rightarrow> ('b, 't) TableState \<Rightarrow> 't list" where
  "Table_Between T bt start stop ts = map snd (SortedMap_Between (t_key T) bt (t_zero T) start stop (ts_cache ts))"

definition Table_isLoaded :: "('b, 't) TableState \<Rightarrow> unit outcome" where
  "Table_isLoaded ts = (if ts_loaded ts then Ok () else Err ErrNotLoaded)"

definition Table_isListening :: "('b, 't) TableState \<Rightarrow> unit outcome" where
  "Table_isListening ts = (if ts_listening ts then Ok () else Err ErrNotListening)"

section \<open>Transactions\<close>

record ('k, 't) update =
  upd_store :: "'t option"
  upd_delete :: "'k option"

record ('k, 't, 'dtx) TableTx =
  ttx_tx :: 'dtx
  ttx_updates :: "('k, 't) update list"
  ttx_committed :: bool

type_synonym ('b, 'k, 't, 'db, 'dtx) table_world = "(('b, 't) TableState \<times> 'db) \<times> ('k, 't, 'dtx) TableTx"

definition Table_Begin :: "('k, 't, 'c, 'db, 'dtx) Table \<Rightarrow> 'c \<Rightarrow> (('b, 't) TableState \<times> 'db, ('k, 't, 'dtx) TableTx) go" where
  "Table_Begin T ctx = (\<lambda>(ts, db).
     (outcome_bind (outcome_wrap ''error while beginning transaction'' (pool_Begin (t_pool T) ctx db)) (\<lambda>tx.
        Ok \<lparr>ttx_tx = tx, ttx_updates = [], ttx_committed = False\<rparr>), ts, db))"

text \<open>A call on the database transaction, and the updates it adds when it succeeds.\<close>

definition ttx_call :: "string \<Rightarrow> ('dtx, unit) go \<Rightarrow> ('k, 't) update list \<Rightarrow> ('b, 'k, 't, 'db, 'dtx) table_world \<Rightarrow>
    unit outcome \<times> ('b, 'k, 't, 'db, 'dtx) table_world" where
  "ttx_call what call updates = (\<lambda>(st, ttx).
     if ttx_committed ttx then (Err ErrAlreadyCommitted, st, ttx)
     else case go_wrap what call (ttx_tx ttx) of
        (Ok _, tx) \<Rightarrow> (Ok (), st, ttx\<lparr>ttx_tx := tx, ttx_updates := ttx_updates ttx @ updates\<rparr>)
      | (r, tx) \<Rightarrow> (r, st, ttx\<lparr>ttx_tx := tx\<rparr>))"

definition TableTx_Store :: "('k, 't, 'c, 'db, 'dtx) Table \<Rightarrow> 't list \<Rightarrow> (('b, 'k, 't, 'db, 'dtx) table_world, unit) go" where
  "TableTx_Store T objects =
     ttx_call ''error while performing the store operation'' (t_storeFunc T objects)
       (map (\<lambda>object. \<lparr>upd_store = Some object, upd_delete = None\<rparr>) objects)"

definition TableTx_Delete :: "('k, 't, 'c, 'db, 'dtx) Table \<Rightarrow> 'k list \<Rightarrow> (('b, 'k, 't, 'db, 'dtx) table_world, unit) go" where
  "TableTx_Delete T keys =
     ttx_call ''error while performing the delete operation'' (t_deleteFunc T keys)
       (map (\<lambda>key. \<lparr>upd_store = None, upd_delete = Some key\<rparr>) keys)"

text \<open>The two loops of \<^verbatim>\<open>Commit\<close>.\<close>

fun commit_events :: "('t \<Rightarrow> 'k) \<Rightarrow> ('k, 't) update list \<Rightarrow> 'k Event list outcome" where
  "commit_events objKey [] = Ok []"
| "commit_events objKey (u # us) =
     outcome_bind (case upd_store u of
         Some object \<Rightarrow> Ok \<lparr>ev_Type = EventTypeStore, ev_Key = objKey object\<rparr>
       | None \<Rightarrow> (case upd_delete u of
           Some key \<Rightarrow> Ok \<lparr>ev_Type = EventTypeDelete, ev_Key = key\<rparr>
         | None \<Rightarrow> Err ErrInvalidUpdate)) (\<lambda>event.
     outcome_bind (commit_events objKey us) (\<lambda>events. Ok (event # events)))"

fun commit_updates :: "('k, 't, 'c, 'db, 'dtx) Table \<Rightarrow> ('b, 'k) btree \<Rightarrow> ('k, 't) update list \<Rightarrow> (('b, 't) TableState, unit) go" where
  "commit_updates T bt [] ts = (Ok (), ts)"
| "commit_updates T bt (u # us) ts = (case upd_store u of
      Some object \<Rightarrow> commit_updates T bt us (Table_store T bt (t_Key T object) object ts)
    | None \<Rightarrow> (case upd_delete u of
        Some key \<Rightarrow> commit_updates T bt us (Table_delete T bt key ts)
      | None \<Rightarrow> (Err ErrInvalidUpdate, ts)))"

definition TableTx_Commit :: "('k, 't, 'c, 'db, 'dtx) Table \<Rightarrow> ('b, 'k) btree \<Rightarrow> 'c \<Rightarrow>
    (('b, 'k, 't, 'db, 'dtx) table_world, unit) go" where
  "TableTx_Commit T bt ctx = (\<lambda>((ts, db), ttx).
     if ttx_committed ttx then (Err ErrAlreadyCommitted, (ts, db), ttx)
     else case go_bind (lift (commit_events (t_Key T) (ttx_updates ttx))) (\<lambda>events.
            go_bind (go_wrap ''error while sending notification during commit'' (nm_Notify (t_key T) (t_pool T) (t_nm T) ctx events)) (\<lambda>_.
            go_wrap ''error while committing'' (pool_Commit (t_pool T) ctx (ttx_tx ttx)))) db of
        (Ok _, db') \<Rightarrow>
          (case commit_updates T bt (ttx_updates ttx) ts of
             (Ok _, ts') \<Rightarrow> (Ok (), (ts', db'), ttx\<lparr>ttx_updates := [], ttx_committed := True\<rparr>)
           | (r, ts') \<Rightarrow> (r, (ts', db'), ttx))
      | (r, db') \<Rightarrow> (r, (ts, db'), ttx))"

section \<open>Notifications and start-up\<close>

fun handle_events_loop :: "('k, 't, 'c, 'db, 'dtx) Table \<Rightarrow> ('b, 'k) btree \<Rightarrow> 'k Event list \<Rightarrow> 'k list \<Rightarrow>
    (('b, 't) TableState, 'k list) go" where
  "handle_events_loop T bt [] refresh ts = (Ok refresh, ts)"
| "handle_events_loop T bt (event # events) refresh ts =
     (if ev_Type event = EventTypeStore then handle_events_loop T bt events (refresh @ [ev_Key event]) ts
      else if ev_Type event = EventTypeDelete then handle_events_loop T bt events refresh (Table_delete T bt (ev_Key event) ts)
      else (Err ErrUnexpectedEvenType, ts))"

text \<open>One try to fetch the objects to refresh.\<close>

definition refresh_try :: "('k, 't, 'c, 'db, 'dtx) Table \<Rightarrow> 'k list \<Rightarrow> 'db \<Rightarrow> 't list outcome" where
  "refresh_try T refresh db =
     outcome_bind (outcome_wrap ''fetching objects to refresh'' (t_getFunc T refresh db)) (\<lambda>objects.
       if length objects \<noteq> length refresh then Err (Wrapped ''expected, got'' ErrUnexpectedAmountOfObjects)
       else Ok objects)"

definition store_objects :: "('k, 't, 'c, 'db, 'dtx) Table \<Rightarrow> ('b, 'k) btree \<Rightarrow> 't list \<Rightarrow> ('b, 't) TableState \<Rightarrow> ('b, 't) TableState" where
  "store_objects T bt objects ts = fold (\<lambda>object. Table_store T bt (t_Key T object) object) objects ts"

definition handleEvents :: "('k, 't, 'c, 'db, 'dtx) Table \<Rightarrow> ('b, 'k) btree \<Rightarrow> (nat \<Rightarrow> 'db) \<Rightarrow> 'k Event list \<Rightarrow>
    (('b, 't) TableState, unit) go" where
  "handleEvents T bt views events =
     go_bind (handle_events_loop T bt events []) (\<lambda>refresh.
       if refresh = [] then ret ()
       else go_bind (go_wrap ''error while handling notification'' (lift (t_retry T (\<lambda>i. refresh_try T refresh (views i))))) (\<lambda>objects ts.
         (Ok (), store_objects T bt objects ts)))"

function Table_loop :: "('k, 't, 'c, 'db, 'dtx) Table \<Rightarrow> ('b, 'k) btree \<Rightarrow> bool \<Rightarrow> 'db delivery list \<Rightarrow>
    (('b, 't) TableState, unit) go" where
  "Table_loop T bt cancelled msgs ts = (case nm_Next (t_nm T) msgs of
      (Ok (events, views), rest) \<Rightarrow>
          (case handleEvents T bt views events ts of
             (Ok _, ts') \<Rightarrow> Table_loop T bt cancelled rest ts'
           | (Err e, ts') \<Rightarrow> (Err (Wrapped ''error while performing cache update due to notification'' e), ts')
           | (Panic p, ts') \<Rightarrow> (Panic p, ts')
           | (Diverge, ts') \<Rightarrow> (Diverge, ts'))
    | (Err e, rest) \<Rightarrow>
        if cancelled then (Ok (), ts) else (Err (Wrapped ''error while getting the next notification'' e), ts)
    | (Panic p, rest) \<Rightarrow> (Panic p, ts)
    | (Diverge, rest) \<Rightarrow> (Diverge, ts))"
  by pat_completeness auto
termination by (relation "measure (\<lambda>(T, bt, cancelled, msgs, ts). length msgs)") (auto dest!: nm_Next_shorter [OF sym])

declare Table_loop.simps [simp del]

definition Table_Run :: "('k, 't, 'c, 'db, 'dtx) Table \<Rightarrow> ('b, 'k) btree \<Rightarrow> 'db \<Rightarrow> unit outcome \<Rightarrow> bool \<Rightarrow> 'db delivery list \<Rightarrow>
    (('b, 't) TableState, unit) go" where
  "Table_Run T bt db listen cancelled msgs =
     go_bind (go_wrap ''error while fetching all objects to populate the cache'' (lift (t_listFunc T db))) (\<lambda>objects ts.
       let ts1 = store_objects T bt objects ts in
       (case listen of
          Ok _ \<Rightarrow> Table_loop T bt cancelled msgs (ts1\<lparr>ts_listening := True, ts_loaded := True\<rparr>)
        | Err e \<Rightarrow> (Err (Wrapped ''error while setting up notifications listener'' (Wrapped ''error while listening'' e)), ts1)
        | Panic p \<Rightarrow> (Panic p, ts1)
        | Diverge \<Rightarrow> (Diverge, ts1)))"

end
