(* ===== verification/Cal_Store.thy ===== *)
theory Cal_Store
  imports Cal_Match S3_Cache Pg_Table
begin

text \<open>
  The stores of the calendar service, \<^verbatim>\<open>service/calendar/store\<close>: the interface, the store in memory and
  the online store, which keeps calendars and references to objects in two cached tables and the
  objects in a bucket.

  The database, the JSON package, the S3 client and the iCalendar library are parameters.
\<close>

section \<open>Types\<close>

record CalendarMetadata =
  cm_Name :: string
  cm_Description :: string
  cm_SupportedComponentSet :: "string list"
  cm_MaxResourceSize :: int
  cm_Color :: string
  cm_Tag :: string

record StoreCalendar =
  sc_Path :: string
  sc_Metadata :: CalendarMetadata

record Object =
  ob_Path :: string
  ob_ModTime :: date
  ob_Data :: bytes
  ob_ETag :: string

definition Object_Size :: "Object \<Rightarrow> int" where
  "Object_Size o' = int (length (ob_Data o'))"

record Ics =
  ics_Parse :: "bytes \<Rightarrow> IcsCalendar outcome"
  ics_Serialize :: "IcsCalendar \<Rightarrow> bytes outcome"

definition Object_Calendar :: "Ics \<Rightarrow> Object \<Rightarrow> IcsCalendar outcome" where
  "Object_Calendar ics o' = outcome_wrap ''error while parsing ics'' (ics_Parse ics (ob_Data o'))"

text \<open>Serialising an object without data dereferences a nil pointer.\<close>

definition SerializeObject :: "Ics \<Rightarrow> (bytes \<Rightarrow> bytes) \<Rightarrow> CalendarObject \<Rightarrow> Object outcome" where
  "SerializeObject ics md5 obj = (case co_Data obj of
      None \<Rightarrow> Panic ''invalid memory address or nil pointer dereference''
    | Some cal \<Rightarrow> outcome_bind (outcome_wrap ''error while encoding ical'' (ics_Serialize ics cal)) (\<lambda>data.
        Ok \<lparr>ob_Path = co_Path obj, ob_ModTime = co_ModTime obj, ob_Data = data, ob_ETag = HashBytes md5 data\<rparr>))"

definition ErrInvalidBackend :: goerr where "ErrInvalidBackend = PlainError ''invalid backend''"
definition ErrAlreadyExists :: goerr where "ErrAlreadyExists = PlainError ''already exists''"
definition ErrNotFound :: goerr where "ErrNotFound = PlainError ''not found''"
definition ErrCalendarAlreadyExists :: goerr where "ErrCalendarAlreadyExists = Wrapped ''calendar'' ErrAlreadyExists"
definition ErrCalendarNotFound :: goerr where "ErrCalendarNotFound = Wrapped ''calendar'' ErrNotFound"
definition ErrCalendarObjectAlreadyExists :: goerr where "ErrCalendarObjectAlreadyExists = Wrapped ''calendar object'' ErrAlreadyExists"
definition ErrCalendarObjectNotFound :: goerr where "ErrCalendarObjectNotFound = Wrapped ''calendar object'' ErrNotFound"

section \<open>The interface\<close>

record 's Store =
  str_CreateCalendar :: "StoreCalendar \<Rightarrow> ('s, unit) go"
  str_ListCalendars :: "string \<Rightarrow> ('s, StoreCalendar list) go"
  str_GetCalendar :: "string \<Rightarrow> ('s, StoreCalendar) go"
  str_CreateCalendarObject :: "Object \<Rightarrow> ('s, unit) go"
  str_ListCalendarObjects :: "string \<Rightarrow> ('s, Object list) go"
  str_GetCalendarObject :: "string \<Rightarrow> ('s, Object) go"
  str_DeleteCalendarObject :: "string \<Rightarrow> ('s, unit) go"

section \<open>The store in memory\<close>

text \<open>The maps, in the order in which a loop over them runs.\<close>

record Mem =
  mem_calendars :: "(string \<times> StoreCalendar) list"
  mem_objects :: "(string \<times> Object) list"

definition NewMem :: Mem where
  "NewMem = \<lparr>mem_calendars = [], mem_objects = []\<rparr>"

definition Mem_CreateCalendar :: "StoreCalendar \<Rightarrow> (Mem, unit) go" where
  "Mem_CreateCalendar calendar m =
     (if map_of (mem_calendars m) (sc_Path calendar) \<noteq> None then (Err ErrCalendarAlreadyExists, m)
      else (Ok (), m\<lparr>mem_calendars := AList.update (sc_Path calendar) calendar (mem_calendars m)\<rparr>))"

definition Mem_ListCalendars :: "string \<Rightarrow> (Mem, StoreCalendar list) go" where
  "Mem_ListCalendars basePath m =
     (Ok (filter (\<lambda>calendar. strings_HasPrefix (sc_Path calendar) basePath) (map snd (mem_calendars m))), m)"

definition Mem_GetCalendar :: "string \<Rightarrow> (Mem, StoreCalendar) go" where
  "Mem_GetCalendar path m = (case map_of (mem_calendars m) path of Some calendar \<Rightarrow> Ok calendar | None \<Rightarrow> Err ErrCalendarNotFound, m)"

definition Mem_CreateCalendarObject :: "Object \<Rightarrow> (Mem, unit) go" where
  "Mem_CreateCalendarObject object m =
     (if map_of (mem_objects m) (ob_Path object) \<noteq> None then (Err ErrCalendarObjectAlreadyExists, m)
      else (Ok (), m\<lparr>mem_objects := AList.update (ob_Path object) object (mem_objects m)\<rparr>))"

definition Mem_ListCalendarObjects :: "string \<Rightarrow> (Mem, Object list) go" where
  "Mem_ListCalendarObjects path m =
     (Ok (filter (\<lambda>object. strings_HasPrefix (ob_Path object) path) (map snd (mem_objects m))), m)"

definition Mem_GetCalendarObject :: "string \<Rightarrow> (Mem, Object) go" where
  "Mem_GetCalendarObject path m =
     (case map_of (mem_objects m) path of Some object \<Rightarrow> Ok object | None \<Rightarrow> Err ErrCalendarObjectNotFound, m)"

definition Mem_DeleteCalendarObject :: "string \<Rightarrow> (Mem, unit) go" where
  "Mem_DeleteCalendarObject path m =
     (if map_of (mem_objects m) path = None then (Err ErrCalendarObjectNotFound, m)
      else (Ok (), m\<lparr>mem_objects := AList.delete path (mem_objects m)\<rparr>))"

definition Mem_Store :: "Mem Store" where
  "Mem_Store = \<lparr>str_CreateCalendar = Mem_CreateCalendar, str_ListCalendars = Mem_ListCalendars, str_GetCalendar = Mem_GetCalendar,
     str_CreateCalendarObject = Mem_CreateCalendarObject, str_ListCalendarObjects = Mem_ListCalendarObjects,
     str_GetCalendarObject = Mem_GetCalendarObject, str_DeleteCalendarObject = Mem_DeleteCalendarObject\<rparr>"

section \<open>Queries\<close>

record objectRef =
  ref_Path :: string
  ref_ModTime :: date
  ref_Ref :: string
  ref_ETag :: Hash

definition objectRef_s3Key :: "objectRef \<Rightarrow> string" where
  "objectRef_s3Key ref = ref_Ref ref"

text \<open>\<open>db\<close> is the database, \<open>dtx\<close> a transaction on it; a row has the columns of the query.\<close>

record ('db, 'dtx) CalSql =
  cq_list :: "'db \<Rightarrow> (string \<times> bytes) list outcome"
  cq_get :: "string list \<Rightarrow> 'db \<Rightarrow> (string \<times> bytes) list outcome"
  cx_store :: "string list \<Rightarrow> bytes list \<Rightarrow> ('dtx, unit) go"
  cx_delete :: "string list \<Rightarrow> ('dtx, unit) go"
  oq_list :: "'db \<Rightarrow> objectRef list outcome"
  oq_get :: "string list \<Rightarrow> 'db \<Rightarrow> objectRef list outcome"
  ox_store :: "string list \<Rightarrow> date list \<Rightarrow> string list \<Rightarrow> string list \<Rightarrow> ('dtx, unit) go"
  ox_delete :: "string list \<Rightarrow> ('dtx, unit) go"
  json_MarshalMetadata :: "CalendarMetadata \<Rightarrow> bytes outcome"
  json_UnmarshalMetadata :: "bytes \<Rightarrow> CalendarMetadata outcome"

fun parseCalendarRows :: "('db, 'dtx) CalSql \<Rightarrow> (string \<times> bytes) list \<Rightarrow> StoreCalendar list outcome" where
  "parseCalendarRows sql [] = Ok []"
| "parseCalendarRows sql ((path, rawMetadata) # rows) =
     outcome_bind (outcome_wrap ''error while decoding JSON calendar metadata field'' (json_UnmarshalMetadata sql rawMetadata)) (\<lambda>metadata.
     outcome_bind (parseCalendarRows sql rows) (\<lambda>calendars. Ok (\<lparr>sc_Path = path, sc_Metadata = metadata\<rparr> # calendars)))"

definition listCalendarPSQL :: "('db, 'dtx) CalSql \<Rightarrow> 'db \<Rightarrow> StoreCalendar list outcome" where
  "listCalendarPSQL sql conn = outcome_bind (outcome_wrap ''error while listing calendars from psql'' (cq_list sql conn)) (parseCalendarRows sql)"

definition getCalendarPSQL :: "('db, 'dtx) CalSql \<Rightarrow> string list \<Rightarrow> 'db \<Rightarrow> StoreCalendar list outcome" where
  "getCalendarPSQL sql paths conn =
     outcome_bind (outcome_wrap ''error while listing select calendars from psql'' (cq_get sql paths conn)) (parseCalendarRows sql)"

fun marshal_calendars :: "('db, 'dtx) CalSql \<Rightarrow> StoreCalendar list \<Rightarrow> (string list \<times> bytes list) outcome" where
  "marshal_calendars sql [] = Ok ([], [])"
| "marshal_calendars sql (calendar # calendars) =
     outcome_bind (outcome_wrap ''could not marshal metadata of calendar for psql'' (json_MarshalMetadata sql (sc_Metadata calendar))) (\<lambda>raw.
     outcome_bind (marshal_calendars sql calendars) (\<lambda>(paths, metadata). Ok (sc_Path calendar # paths, raw # metadata)))"

definition storeCalendarPSQL :: "('db, 'dtx) CalSql \<Rightarrow> StoreCalendar list \<Rightarrow> ('dtx, unit) go" where
  "storeCalendarPSQL sql calendars =
     go_bind (lift (marshal_calendars sql calendars)) (\<lambda>(paths, metadata).
     go_wrap ''error while inserting calendars with psql'' (cx_store sql paths metadata))"

definition deleteCalendarPSQL :: "('db, 'dtx) CalSql \<Rightarrow> string list \<Rightarrow> ('dtx, unit) go" where
  "deleteCalendarPSQL sql paths = go_wrap ''error while deleting calendars in psql'' (cx_delete sql paths)"

definition listObjectRefPSQL :: "('db, 'dtx) CalSql \<Rightarrow> 'db \<Rightarrow> objectRef list outcome" where
  "listObjectRefPSQL sql conn = outcome_wrap ''error while listing object refs from psql'' (oq_list sql conn)"

definition getObjectRefPSQL :: "('db, 'dtx) CalSql \<Rightarrow> string list \<Rightarrow> 'db \<Rightarrow> objectRef list outcome" where
  "getObjectRefPSQL sql paths conn = outcome_wrap ''error while listing select object refs from psql'' (oq_get sql paths conn)"

definition storeObjectRefPSQL :: "('db, 'dtx) CalSql \<Rightarrow> objectRef list \<Rightarrow> ('dtx, unit) go" where
  "storeObjectRefPSQL sql refs = go_wrap ''error while inserting object refs with psql''
     (ox_store sql (map ref_Path refs) (map ref_ModTime refs) (map ref_Ref refs) (map ref_ETag refs))"

definition deleteObjectRefPSQL :: "('db, 'dtx) CalSql \<Rightarrow> string list \<Rightarrow> ('dtx, unit) go" where
  "deleteObjectRefPSQL sql paths = go_wrap ''error while deleting object refs in psql'' (ox_delete sql paths)"

end
