(* ===== verification/Cal_Online.thy ===== *)
theory Cal_Online
  imports Cal_Store
begin

text \<open>
  The online store of the calendar service (\<^verbatim>\<open>online.go\<close>, \<^verbatim>\<open>online_calendar.go\<close>, \<^verbatim>\<open>online_object.go\<close>): two
  table caches over one database, and the S3 cache for the objects. The tables and the cache are
  the models of \<^verbatim>\<open>lib/pgcache\<close> and \<^verbatim>\<open>lib/s3cache\<close>; \<open>bt\<close> and \<open>bo\<close> are the trees of the two tables.
\<close>

section \<open>The tables\<close>

definition Path_Less :: "string \<Rightarrow> string \<Rightarrow> bool" where
  "Path_Less path p \<longleftrightarrow> strings_Less path p"

definition PathKey :: "string Key" where
  "PathKey = \<lparr>key_Less = Path_Less, key_String = (\<lambda>path. path)\<rparr>"

definition empty_Metadata :: CalendarMetadata where
  "empty_Metadata = \<lparr>cm_Name = [], cm_Description = [], cm_SupportedComponentSet = [], cm_MaxResourceSize = 0, cm_Color = [], cm_Tag = []\<rparr>"

definition calendarTable :: "('db, 'dtx) CalSql \<Rightarrow> ('c, 'db, 'dtx) Pool \<Rightarrow> string notificationManager \<Rightarrow>
    ((nat \<Rightarrow> StoreCalendar list outcome) \<Rightarrow> StoreCalendar list outcome) \<Rightarrow> (string, StoreCalendar, 'c, 'db, 'dtx) Table" where
  "calendarTable sql pool nm retry =
     \<lparr>t_key = PathKey, t_Key = sc_Path, t_zero = \<lparr>sc_Path = [], sc_Metadata = empty_Metadata\<rparr>, t_table = ''calendars'', t_pool = pool, t_nm = nm,
      t_listFunc = listCalendarPSQL sql, t_getFunc = getCalendarPSQL sql, t_storeFunc = storeCalendarPSQL sql,
      t_deleteFunc = deleteCalendarPSQL sql, t_retry = retry\<rparr>"

definition objectRefTable :: "('db, 'dtx) CalSql \<Rightarrow> ('c, 'db, 'dtx) Pool \<Rightarrow> string notificationManager \<Rightarrow>
    ((nat \<Rightarrow> objectRef list outcome) \<Rightarrow> objectRef list outcome) \<Rightarrow> (string, objectRef, 'c, 'db, 'dtx) Table" where
  "objectRefTable sql pool nm retry =
     \<lparr>t_key = PathKey, t_Key = ref_Path, t_zero = \<lparr>ref_Path = [], ref_ModTime = zeroDate, ref_Ref = [], ref_ETag = []\<rparr>,
      t_table = ''objects'', t_pool = pool, t_nm = nm,
      t_listFunc = listObjectRefPSQL sql, t_getFunc = getObjectRefPSQL sql, t_storeFunc = storeObjectRefPSQL sql,
      t_deleteFunc = deleteObjectRefPSQL sql, t_retry = retry\<rparr>"

section \<open>The store\<close>

record ('b, 'o, 'c, 'db, 'dtx, 'r) Online =
  on_calendarTable :: "(string, StoreCalendar, 'c, 'db, 'dtx) Table"
  on_objectRefTable :: "(string, objectRef, 'c, 'db, 'dtx) Table"
  on_bt :: "('b, string) btree"
  on_bo :: "('o, string) btree"
  on_cache :: "'r S3Cache"
  on_ctx :: 'c
  on_uuid :: "nat \<Rightarrow> string"

record ('b, 'o, 'db, 'r) online_state =
  os_calendars :: "('b, StoreCalendar) TableState"
  os_refs :: "('o, objectRef) TableState"
  os_db :: 'db
  os_objects :: "'r cache_state"
  os_uuids :: nat

definition in_calendars :: "(('b, StoreCalendar) TableState \<times> 'db, 'a) go \<Rightarrow> (('b, 'o, 'db, 'r) online_state, 'a) go" where
  "in_calendars m s = (case m (os_calendars s, os_db s) of (r, ts, db) \<Rightarrow> (r, s\<lparr>os_calendars := ts, os_db := db\<rparr>))"

definition in_refs :: "(('o, objectRef) TableState \<times> 'db, 'a) go \<Rightarrow> (('b, 'o, 'db, 'r) online_state, 'a) go" where
  "in_refs m s = (case m (os_refs s, os_db s) of (r, ts, db) \<Rightarrow> (r, s\<lparr>os_refs := ts, os_db := db\<rparr>))"

definition in_objects :: "('r cache_state, 'a) go \<Rightarrow> (('b, 'o, 'db, 'r) online_state, 'a) go" where
  "in_objects m s = (case m (os_objects s) of (r, c) \<Rightarrow> (r, s\<lparr>os_objects := c\<rparr>))"

definition runInTx :: "(string, 't, 'c, 'db, 'dtx) Table \<Rightarrow> ('b, string) btree \<Rightarrow> 'c \<Rightarrow>
    (('b, string, 't, 'db, 'dtx) table_world, 'a) go \<Rightarrow> (('b, 't) TableState \<times> 'db, 'a) go" where
  "runInTx table bt ctx fn =
     go_bind (go_wrap ''error while starting transaction'' (Table_Begin table ctx)) (\<lambda>tx s.
       case go_bind (go_wrap ''error while running transaction body'' fn) (\<lambda>result.
            go_bind (go_wrap ''error while committing transaction'' (TableTx_Commit table bt ctx)) (\<lambda>_. ret result)) (s, tx) of
         (r, s', tx') \<Rightarrow> (r, s'))"

definition maxRune :: string where
  "maxRune = [CHR 0xF4, CHR 0x8F, CHR 0xBF, CHR 0xBF]"

definition Online_CreateCalendar :: "('b, 'o, 'c, 'db, 'dtx, 'r) Online \<Rightarrow> StoreCalendar \<Rightarrow> (('b, 'o, 'db, 'r) online_state, unit) go" where
  "Online_CreateCalendar n calendar = (\<lambda>s.
     if Table_Get (on_calendarTable n) (sc_Path calendar) (os_calendars s) \<noteq> None then (Err ErrAlreadyExists, s)
     else in_calendars (runInTx (on_calendarTable n) (on_bt n) (on_ctx n) (TableTx_Store (on_calendarTable n) [calendar])) s)"

definition Online_ListCalendars :: "('b, 'o, 'c, 'db, 'dtx, 'r) Online \<Rightarrow> string \<Rightarrow> (('b, 'o, 'db, 'r) online_state, StoreCalendar list) go" where
  "Online_ListCalendars n basePath = (\<lambda>s.
     (Ok (Table_Between (on_calendarTable n) (on_bt n) basePath (basePath @ maxRune) (os_calendars s)), s))"

definition Online_GetCalendar :: "('b, 'o, 'c, 'db, 'dtx, 'r) Online \<Rightarrow> string \<Rightarrow> (('b, 'o, 'db, 'r) online_state, StoreCalendar) go" where
  "Online_GetCalendar n path = (\<lambda>s.
     (case Table_Get (on_calendarTable n) path (os_calendars s) of Some calendar \<Rightarrow> Ok calendar | None \<Rightarrow> Err ErrCalendarNotFound, s))"

text \<open>An object that exists keeps its reference, and with it the time of its first version.\<close>

definition next_ref :: "('b, 'o, 'c, 'db, 'dtx, 'r) Online \<Rightarrow> Object \<Rightarrow> (('b, 'o, 'db, 'r) online_state, objectRef) go" where
  "next_ref n object = (\<lambda>s. case Table_Get (on_objectRefTable n) (ob_Path object) (os_refs s) of
      Some ref \<Rightarrow> (Ok ref, s)
    | None \<Rightarrow> (Ok \<lparr>ref_Path = ob_Path object, ref_ModTime = ob_ModTime object, ref_Ref = on_uuid n (os_uuids s), ref_ETag = []\<rparr>,
        s\<lparr>os_uuids := Suc (os_uuids s)\<rparr>))"

definition Online_CreateCalendarObject :: "('b, 'o, 'c, 'db, 'dtx, 'r) Online \<Rightarrow> Object \<Rightarrow> (('b, 'o, 'db, 'r) online_state, unit) go" where
  "Online_CreateCalendarObject n object =
     go_bind (next_ref n object) (\<lambda>ref.
     go_bind (go_wrap ''error while storing calendar object in s3''
       (in_objects (S3Cache_Put (on_cache n) (objectRef_s3Key ref) (ob_Data object)))) (\<lambda>etag.
     in_refs (runInTx (on_objectRefTable n) (on_bo n) (on_ctx n)
       (TableTx_Store (on_objectRefTable n) [ref\<lparr>ref_ETag := etag\<rparr>]))))"

definition Online_getObjectFromRef :: "('b, 'o, 'c, 'db, 'dtx, 'r) Online \<Rightarrow> objectRef \<Rightarrow> (('b, 'o, 'db, 'r) online_state, Object) go" where
  "Online_getObjectFromRef n ref =
     go_bind (go_wrap ''error while fetching calendar object from S3''
       (in_objects (S3Cache_Get (on_cache n) (objectRef_s3Key ref) (ref_ETag ref)))) (\<lambda>(data, etag).
     ret \<lparr>ob_Path = ref_Path ref, ob_ModTime = ref_ModTime ref, ob_Data = data, ob_ETag = etag\<rparr>)"

text \<open>The group of requests, one after the other; its first error is returned.\<close>

fun get_objects :: "('b, 'o, 'c, 'db, 'dtx, 'r) Online \<Rightarrow> objectRef list \<Rightarrow> (('b, 'o, 'db, 'r) online_state, Object list) go" where
  "get_objects n [] = ret []"
| "get_objects n (ref # refs) =
     go_bind (go_wrap ''error while fetching object from ref'' (Online_getObjectFromRef n ref)) (\<lambda>object.
     go_bind (get_objects n refs) (\<lambda>objects. ret (object # objects)))"

definition Online_ListCalendarObjects :: "('b, 'o, 'c, 'db, 'dtx, 'r) Online \<Rightarrow> string \<Rightarrow> (('b, 'o, 'db, 'r) online_state, Object list) go" where
  "Online_ListCalendarObjects n basePath = (\<lambda>s.
     get_objects n (Table_Between (on_objectRefTable n) (on_bo n) basePath (basePath @ maxRune) (os_refs s)) s)"

definition Online_GetCalendarObject :: "('b, 'o, 'c, 'db, 'dtx, 'r) Online \<Rightarrow> string \<Rightarrow> (('b, 'o, 'db, 'r) online_state, Object) go" where
  "Online_GetCalendarObject n path = (\<lambda>s. case Table_Get (on_objectRefTable n) path (os_refs s) of
      None \<Rightarrow> (Err ErrCalendarObjectNotFound, s)
    | Some ref \<Rightarrow> Online_getObjectFromRef n ref s)"

definition Online_DeleteCalendarObject :: "('b, 'o, 'c, 'db, 'dtx, 'r) Online \<Rightarrow> string \<Rightarrow> (('b, 'o, 'db, 'r) online_state, unit) go" where
  "Online_DeleteCalendarObject n path = (\<lambda>s. case Table_Get (on_objectRefTable n) path (os_refs s) of
      None \<Rightarrow> (Err (Wrapped ''attempted to delete missing calendar object'' ErrCalendarObjectNotFound), s)
    | Some ref \<Rightarrow>
        go_bind (go_wrap ''error while removing object ref''
          (in_refs (runInTx (on_objectRefTable n) (on_bo n) (on_ctx n) (TableTx_Delete (on_objectRefTable n) [path])))) (\<lambda>_.
        go_wrap ''error while removing entry from s3'' (in_objects (S3Cache_Remove (on_cache n) (objectRef_s3Key ref)))) s)"

definition Online_Store :: "('b, 'o, 'c, 'db, 'dtx, 'r) Online \<Rightarrow> ('b, 'o, 'db, 'r) online_state Store" where
  "Online_Store n = \<lparr>str_CreateCalendar = Online_CreateCalendar n, str_ListCalendars = Online_ListCalendars n, str_GetCalendar = Online_GetCalendar n,
     str_CreateCalendarObject = Online_CreateCalendarObject n, str_ListCalendarObjects = Online_ListCalendarObjects n,
     str_GetCalendarObject = Online_GetCalendarObject n, str_DeleteCalendarObject = Online_DeleteCalendarObject n\<rparr>"

end
