(* ===== verification/Cal_Backend.thy ===== *)
theory Cal_Backend
  imports Cal_Online Http_Handler
begin

text \<open>
  The backend of the calendar service, \<^verbatim>\<open>service/calendar/backend\<close>, over a store, and the conditional
  headers of \<^verbatim>\<open>lib/webdav\<close>. \<^verbatim>\<open>strconv.Unquote\<close> is a parameter, as are the iCalendar and the recurrence
  library; \<open>now\<close> is the time of a call.
\<close>

section \<open>Conditions\<close>

type_synonym ConditionalMatch = string

definition ConditionalMatch_IsSet :: "ConditionalMatch \<Rightarrow> bool" where
  "ConditionalMatch_IsSet val \<longleftrightarrow> val \<noteq> []"

definition ConditionalMatch_IsWildcard :: "ConditionalMatch \<Rightarrow> bool" where
  "ConditionalMatch_IsWildcard val \<longleftrightarrow> val = ''*''"

definition ConditionalMatch_ETag :: "(string \<Rightarrow> string outcome) \<Rightarrow> ConditionalMatch \<Rightarrow> string outcome" where
  "ConditionalMatch_ETag unquote val = outcome_wrap ''webdav: failed to unquote ETag'' (unquote val)"

definition ConditionalMatch_MatchETag :: "(string \<Rightarrow> string outcome) \<Rightarrow> ConditionalMatch \<Rightarrow> string \<Rightarrow> bool outcome" where
  "ConditionalMatch_MatchETag unquote val etag =
     (if val = [] then Ok False
      else if ConditionalMatch_IsWildcard val then Ok True
      else outcome_bind (ConditionalMatch_ETag unquote val) (\<lambda>t. Ok (t = etag)))"

type_synonym ETagMatcher = "string \<Rightarrow> bool outcome"

definition NegateETagMatch :: "ETagMatcher \<Rightarrow> ETagMatcher" where
  "NegateETagMatch matcher etag = outcome_bind (matcher etag) (\<lambda>m. Ok (\<not> m))"

fun AndETagMatch :: "ETagMatcher list \<Rightarrow> ETagMatcher" where
  "AndETagMatch [] etag = Ok True"
| "AndETagMatch (matcher # matchers) etag =
     outcome_bind (matcher etag) (\<lambda>m. if m then AndETagMatch matchers etag else Ok False)"

record PutCalendarObjectOptions =
  po_IfMatch :: ConditionalMatch
  po_IfNoneMatch :: ConditionalMatch

definition put_matcher :: "(string \<Rightarrow> string outcome) \<Rightarrow> PutCalendarObjectOptions \<Rightarrow> ETagMatcher" where
  "put_matcher unquote opts = AndETagMatch
     ((if ConditionalMatch_IsSet (po_IfMatch opts) then [ConditionalMatch_MatchETag unquote (po_IfMatch opts)] else []) @
      (if ConditionalMatch_IsSet (po_IfNoneMatch opts)
       then [NegateETagMatch (ConditionalMatch_MatchETag unquote (po_IfNoneMatch opts))] else []))"

section \<open>Paths and users\<close>

definition strings_TrimRight :: "string \<Rightarrow> char \<Rightarrow> string" where
  "strings_TrimRight s c = rev (dropWhile (\<lambda>x. x = c) (rev s))"

definition normalizePath :: "string \<Rightarrow> string" where
  "normalizePath path = strings_TrimRight (filepath_Clean path) (CHR ''/'')"

definition ErrMissingAuthentication :: goerr where "ErrMissingAuthentication = PlainError ''missing authentication''"
definition ErrUnexpectedNilCalendar :: goerr where "ErrUnexpectedNilCalendar = PlainError ''unexpected nil calendar''"
definition ErrUnexpectedNilObject :: goerr where "ErrUnexpectedNilObject = PlainError ''unexpected nil object''"
definition ErrETagDidNotMatch :: goerr where "ErrETagDidNotMatch = PlainError ''etag did not match''"

definition SupportedComponentSet :: "string list" where
  "SupportedComponentSet = [''VEVENT'', ''VTODO'', ''VJOURNAL'', ''VFREEBUSY'']"

text \<open>The name of the authenticated user, if any.\<close>

definition CurrentUserPrincipal :: "string option \<Rightarrow> string outcome" where
  "CurrentUserPrincipal auth = (case auth of None \<Rightarrow> Err ErrMissingAuthentication | Some username \<Rightarrow> Ok (''/'' @ username))"

definition CalendarHomeSetPath :: "string option \<Rightarrow> string outcome" where
  "CalendarHomeSetPath auth =
     outcome_bind (outcome_wrap ''could not get user principal'' (CurrentUserPrincipal auth)) (\<lambda>up. Ok (up @ ''/calendars/''))"

section \<open>Calendars\<close>

record CaldavCalendar =
  cal_Path :: string
  cal_Name :: string
  cal_Description :: string
  cal_MaxResourceSize :: int
  cal_SupportedComponentSet :: "string list"
  cal_Color :: string

definition caldavCalendarToStoreCalendar :: "CaldavCalendar \<Rightarrow> StoreCalendar" where
  "caldavCalendarToStoreCalendar cal = \<lparr>sc_Path = normalizePath (cal_Path cal),
     sc_Metadata = \<lparr>cm_Name = cal_Name cal, cm_Description = cal_Description cal, cm_SupportedComponentSet = cal_SupportedComponentSet cal,
       cm_MaxResourceSize = cal_MaxResourceSize cal, cm_Color = cal_Color cal, cm_Tag = []\<rparr>\<rparr>"

definition storeCalendarToCaldavCalendar :: "StoreCalendar \<Rightarrow> CaldavCalendar" where
  "storeCalendarToCaldavCalendar cal = \<lparr>cal_Path = sc_Path cal, cal_Name = cm_Name (sc_Metadata cal),
     cal_Description = cm_Description (sc_Metadata cal), cal_MaxResourceSize = 0,
     cal_SupportedComponentSet = cm_SupportedComponentSet (sc_Metadata cal), cal_Color = cm_Color (sc_Metadata cal)\<rparr>"

record 's Backend =
  be_store :: "'s Store"
  be_ics :: Ics
  be_md5 :: "bytes \<Rightarrow> bytes"
  be_unquote :: "string \<Rightarrow> string outcome"

definition Backend_CreateCalendar :: "'s Backend \<Rightarrow> CaldavCalendar option \<Rightarrow> ('s, unit) go" where
  "Backend_CreateCalendar b calendar = (case calendar of
      None \<Rightarrow> throw ErrUnexpectedNilCalendar
    | Some cal \<Rightarrow>
        go_wrap ''error while creating calendar in storage'' (str_CreateCalendar (be_store b) (caldavCalendarToStoreCalendar
          (if length (cal_SupportedComponentSet cal) \<le> 0 then cal\<lparr>cal_SupportedComponentSet := SupportedComponentSet\<rparr> else cal))))"

definition Backend_ListCalendars :: "'s Backend \<Rightarrow> string option \<Rightarrow> ('s, CaldavCalendar list) go" where
  "Backend_ListCalendars b auth =
     go_bind (go_wrap ''could not get home-set path'' (lift (CalendarHomeSetPath auth))) (\<lambda>path.
     go_bind (go_wrap ''error while fetching calendars from storage'' (str_ListCalendars (be_store b) (normalizePath path))) (\<lambda>cals.
     ret (map storeCalendarToCaldavCalendar cals)))"

definition Backend_GetCalendar :: "'s Backend \<Rightarrow> string \<Rightarrow> ('s, CaldavCalendar) go" where
  "Backend_GetCalendar b path =
     go_bind (go_wrap ''error while getting calendar in storage'' (str_GetCalendar (be_store b) (normalizePath path))) (\<lambda>cal.
     ret (storeCalendarToCaldavCalendar cal))"

section \<open>Objects\<close>

definition caldavObjectToStoreObject :: "'s Backend \<Rightarrow> date \<Rightarrow> string \<Rightarrow> IcsCalendar \<Rightarrow> Object outcome" where
  "caldavObjectToStoreObject b now path calendar = SerializeObject (be_ics b) (be_md5 b)
     \<lparr>co_Path = path, co_ModTime = now, co_ContentLength = 0, co_ETag = [], co_Data = Some calendar\<rparr>"

definition storeObjectToCaldavObject :: "'s Backend \<Rightarrow> Object \<Rightarrow> CalendarObject outcome" where
  "storeObjectToCaldavObject b obj =
     outcome_bind (outcome_wrap ''error while parsing ics object and generating etag'' (Object_Calendar (be_ics b) obj)) (\<lambda>cal.
     Ok \<lparr>co_Path = ob_Path obj, co_ModTime = ob_ModTime obj, co_ContentLength = Object_Size obj, co_ETag = ob_ETag obj, co_Data = Some cal\<rparr>)"

text \<open>The conditions of a request are checked against the object there is; without one they hold.\<close>

definition check_conditions :: "'s Backend \<Rightarrow> string \<Rightarrow> PutCalendarObjectOptions \<Rightarrow> ('s, unit) go" where
  "check_conditions b path opts = (\<lambda>s. case str_GetCalendarObject (be_store b) (normalizePath path) s of
      (Ok obj, s') \<Rightarrow> (case put_matcher (be_unquote b) opts (ob_ETag obj) of
          Ok m \<Rightarrow> if m then (Ok (), s') else (Err ErrETagDidNotMatch, s')
        | Err e \<Rightarrow> (Err (HTTPError 412 (Wrapped ''error while matching etag'' e)), s')
        | Panic p \<Rightarrow> (Panic p, s')
        | Diverge \<Rightarrow> (Diverge, s'))
    | (Err e, s') \<Rightarrow>
        if goerr_Is e Cal_Store.ErrNotFound then (Ok (), s')
        else (Err (Wrapped ''error while checking for previous object'' e), s')
    | (Panic p, s') \<Rightarrow> (Panic p, s')
    | (Diverge, s') \<Rightarrow> (Diverge, s'))"

definition Backend_PutCalendarObject :: "'s Backend \<Rightarrow> date \<Rightarrow> string \<Rightarrow> IcsCalendar option \<Rightarrow> PutCalendarObjectOptions option \<Rightarrow>
    ('s, CalendarObject) go" where
  "Backend_PutCalendarObject b now path calendar opts = (case calendar of
      None \<Rightarrow> throw ErrUnexpectedNilObject
    | Some cal \<Rightarrow>
        go_bind (case opts of None \<Rightarrow> ret () | Some o' \<Rightarrow> check_conditions b path o') (\<lambda>_.
        go_bind (go_wrap ''could not convert caldav Object into store Object'' (lift (caldavObjectToStoreObject b now path cal))) (\<lambda>obj.
        go_bind (go_wrap ''error while creating calendar object in storage'' (str_CreateCalendarObject (be_store b) obj)) (\<lambda>_.
        go_wrap ''error while converting stored object back to a caldav CalendarObject'' (lift (storeObjectToCaldavObject b obj))))))"

definition Backend_GetCalendarObject :: "'s Backend \<Rightarrow> string \<Rightarrow> ('s, CalendarObject) go" where
  "Backend_GetCalendarObject b path =
     go_bind (go_wrap ''error while fetching calendar object from storage'' (str_GetCalendarObject (be_store b) (normalizePath path))) (\<lambda>obj.
     go_wrap ''error while converting object to a caldav CalendarObject'' (lift (storeObjectToCaldavObject b obj)))"

fun convert_objects :: "'s Backend \<Rightarrow> Object list \<Rightarrow> CalendarObject list outcome" where
  "convert_objects b [] = Ok []"
| "convert_objects b (obj # objs) =
     outcome_bind (outcome_wrap ''error while converting object to a caldav CalendarObject'' (storeObjectToCaldavObject b obj)) (\<lambda>object.
     outcome_bind (convert_objects b objs) (\<lambda>objects. Ok (object # objects)))"

definition Backend_listCalendarObjects :: "'s Backend \<Rightarrow> string \<Rightarrow> ('s, CalendarObject list) go" where
  "Backend_listCalendarObjects b path =
     go_bind (go_wrap ''error while fetching calendar objects from storage'' (str_ListCalendarObjects (be_store b) (normalizePath path))) (\<lambda>objs.
     lift (convert_objects b objs))"

definition Backend_ListCalendarObjects :: "'s Backend \<Rightarrow> string \<Rightarrow> ('s, CalendarObject list) go" where
  "Backend_ListCalendarObjects b path = Backend_listCalendarObjects b path"

definition Backend_QueryCalendarObjects :: "'r Rrule \<Rightarrow> 's Backend \<Rightarrow> string \<Rightarrow> CompFilter \<Rightarrow> ('s, CalendarObject list) go" where
  "Backend_QueryCalendarObjects lib b path query =
     go_bind (go_wrap ''error while listing all calendar objects for query'' (Backend_listCalendarObjects b path)) (\<lambda>objects.
     go_wrap ''error while filtering down calendar objects'' (lift (caldav_Filter lib (Some query) objects)))"

definition Backend_DeleteCalendarObject :: "'s Backend \<Rightarrow> string \<Rightarrow> ('s, unit) go" where
  "Backend_DeleteCalendarObject b path =
     go_wrap ''error while deleting calendar object in storage'' (str_DeleteCalendarObject (be_store b) (normalizePath path))"

end
