(* ===== verification/Dav.thy ===== *)
theory Dav
  imports Cal_Backend Http_Auth
begin

text \<open>
  The WebDAV protocol of \<^verbatim>\<open>lib/webdav\<close>: errors with a status (\<^verbatim>\<open>error\<close>), the elements of requests and
  responses and the dispatch of methods (\<^verbatim>\<open>internal\<close>). XML is not modelled: a request has what the
  decoder makes of its body for each type it is decoded into, and a response holds its elements. Writing the
  response does not fail. No code of the repository makes an error with an XML element, so that
  errors are answered with their text. The order in which Go iterates over the map of properties is a
  parameter.
\<close>

section \<open>Errors\<close>

fun as_HTTPError :: "goerr \<Rightarrow> int option" where
  "as_HTTPError (HTTPError code e) = Some code"
| "as_HTTPError (Wrapped c e) = as_HTTPError e"
| "as_HTTPError (Joined a b) = or_else (as_HTTPError a) (as_HTTPError b)"
| "as_HTTPError _ = None"

definition HTTPErrorf :: "int \<Rightarrow> string \<Rightarrow> goerr" where
  "HTTPErrorf code text = HTTPError code (PlainError text)"

definition HTTPErrorFromError :: "goerr \<Rightarrow> int" where
  "HTTPErrorFromError err = (case as_HTTPError err of Some code \<Rightarrow> code | None \<Rightarrow> StatusInternalServerError)"

definition IsNotFound :: "goerr \<Rightarrow> bool" where
  "IsNotFound err \<longleftrightarrow> as_HTTPError err = Some StatusNotFound"

section \<open>Elements\<close>

type_synonym xml_name = "string \<times> string"

abbreviation DAV :: string where "DAV \<equiv> ''DAV:''"
abbreviation CALDAV :: string where "CALDAV \<equiv> ''urn:ietf:params:xml:ns:caldav''"

definition ResourceTypeName :: xml_name where "ResourceTypeName = (DAV, ''resourcetype'')"
definition DisplayNameName :: xml_name where "DisplayNameName = (DAV, ''displayname'')"
definition GetContentLengthName :: xml_name where "GetContentLengthName = (DAV, ''getcontentlength'')"
definition GetContentTypeName :: xml_name where "GetContentTypeName = (DAV, ''getcontenttype'')"
definition GetLastModifiedName :: xml_name where "GetLastModifiedName = (DAV, ''getlastmodified'')"
definition GetETagName :: xml_name where "GetETagName = (DAV, ''getetag'')"
definition CollectionName :: xml_name where "CollectionName = (DAV, ''collection'')"
definition PrincipalName :: xml_name where "PrincipalName = (DAV, ''principal'')"
definition CurrentUserPrincipalName :: xml_name where "CurrentUserPrincipalName = (DAV, ''current-user-principal'')"
definition CurrentUserPrivilegeSetName :: xml_name where "CurrentUserPrivilegeSetName = (DAV, ''current-user-privilege-set'')"
definition calendarHomeSetName :: xml_name where "calendarHomeSetName = (CALDAV, ''calendar-home-set'')"
definition calendarDescriptionName :: xml_name where "calendarDescriptionName = (CALDAV, ''calendar-description'')"
definition calendarColorName :: xml_name where "calendarColorName = (''http://apple.com/ns/ical/'', ''calendar-color'')"
definition supportedCalendarDataName :: xml_name where "supportedCalendarDataName = (CALDAV, ''supported-calendar-data'')"
definition supportedCalendarComponentSetName :: xml_name where
  "supportedCalendarComponentSetName = (CALDAV, ''supported-calendar-component-set'')"
definition maxResourceSizeName :: xml_name where "maxResourceSizeName = (CALDAV, ''max-resource-size'')"
definition calendarName :: xml_name where "calendarName = (CALDAV, ''calendar'')"
definition calendarDataName :: xml_name where "calendarDataName = (CALDAV, ''calendar-data'')"

lemmas xml_names = ResourceTypeName_def DisplayNameName_def GetContentLengthName_def GetContentTypeName_def
  GetLastModifiedName_def GetETagName_def CollectionName_def PrincipalName_def CurrentUserPrincipalName_def
  CurrentUserPrivilegeSetName_def calendarHomeSetName_def calendarDescriptionName_def calendarColorName_def
  supportedCalendarDataName_def supportedCalendarComponentSetName_def maxResourceSizeName_def calendarName_def calendarDataName_def

datatype dav_value =
    EmptyElement xml_name
  | ResourceType "xml_name list"
  | UserPrincipal string
  | PrivilegeSet "string list"
  | DisplayName string
  | GetContentLength int
  | GetContentType string
  | GetLastModified date
  | GetETag string
  | calendarHomeSet string
  | calendarDescription string
  | calendarColor string
  | supportedCalendarData "(string \<times> string) list"
  | supportedCalendarComponentSet "string list"
  | maxResourceSize int
  | calendarDataResp bytes

fun valueXMLName :: "dav_value \<Rightarrow> xml_name" where
  "valueXMLName (EmptyElement name) = name"
| "valueXMLName (ResourceType _) = ResourceTypeName"
| "valueXMLName (UserPrincipal _) = CurrentUserPrincipalName"
| "valueXMLName (PrivilegeSet _) = CurrentUserPrivilegeSetName"
| "valueXMLName (DisplayName _) = DisplayNameName"
| "valueXMLName (GetContentLength _) = GetContentLengthName"
| "valueXMLName (GetContentType _) = GetContentTypeName"
| "valueXMLName (GetLastModified _) = GetLastModifiedName"
| "valueXMLName (GetETag _) = GetETagName"
| "valueXMLName (calendarHomeSet _) = calendarHomeSetName"
| "valueXMLName (calendarDescription _) = calendarDescriptionName"
| "valueXMLName (calendarColor _) = calendarColorName"
| "valueXMLName (supportedCalendarData _) = supportedCalendarDataName"
| "valueXMLName (supportedCalendarComponentSet _) = supportedCalendarComponentSetName"
| "valueXMLName (maxResourceSize _) = maxResourceSizeName"
| "valueXMLName (calendarDataResp _) = calendarDataName"

record PropStat =
  ps_Code :: int
  ps_Raw :: "dav_value list"

record DavResponse =
  dr_Hrefs :: "string list"
  dr_PropStats :: "PropStat list"
  dr_Status :: "int option"
  dr_Description :: "goerr option"

definition NewOKResponse :: "string \<Rightarrow> DavResponse" where
  "NewOKResponse path = \<lparr>dr_Hrefs = [path], dr_PropStats = [], dr_Status = Some StatusOK, dr_Description = None\<rparr>"

definition NewErrorResponse :: "string \<Rightarrow> goerr \<Rightarrow> DavResponse" where
  "NewErrorResponse path err = \<lparr>dr_Hrefs = [path], dr_PropStats = [], dr_Status = Some (HTTPErrorFromError err), dr_Description = Some err\<rparr>"

fun EncodeProp :: "int \<Rightarrow> dav_value \<Rightarrow> PropStat list \<Rightarrow> PropStat list" where
  "EncodeProp code v [] = [\<lparr>ps_Code = code, ps_Raw = [v]\<rparr>]"
| "EncodeProp code v (ps # pss) =
     (if ps_Code ps = code then ps\<lparr>ps_Raw := ps_Raw ps @ [v]\<rparr> # pss else ps # EncodeProp code v pss)"

definition ResourceType_Is :: "xml_name list \<Rightarrow> xml_name \<Rightarrow> bool" where
  "ResourceType_Is names name \<longleftrightarrow> name \<in> set names"

record PropFind =
  fd_Prop :: "xml_name list option"
  fd_AllProp :: bool
  fd_PropName :: bool

section \<open>Properties\<close>

type_synonym prop_map = "(xml_name \<times> dav_value outcome) list"

text \<open>The status and the element for one property that is asked for.\<close>

definition prop_answer :: "prop_map \<Rightarrow> xml_name \<Rightarrow> (int \<times> dav_value) outcome" where
  "prop_answer props name = (case map_of props name of
      None \<Rightarrow> Ok (StatusNotFound, EmptyElement name)
    | Some (Ok v) \<Rightarrow> Ok (StatusOK, v)
    | Some (Err e) \<Rightarrow> Ok (HTTPErrorFromError e, EmptyElement name)
    | Some (Panic p) \<Rightarrow> Panic p
    | Some Diverge \<Rightarrow> Diverge)"

fun answer_props :: "prop_map \<Rightarrow> xml_name list \<Rightarrow> PropStat list \<Rightarrow> PropStat list outcome" where
  "answer_props props [] pss = Ok pss"
| "answer_props props (name # names) pss =
     outcome_bind (prop_answer props name) (\<lambda>(code, v). answer_props props names (EncodeProp code v pss))"

definition with_resource_type :: "prop_map \<Rightarrow> prop_map" where
  "with_resource_type props = (if ResourceTypeName \<in> fst ` set props then props else (ResourceTypeName, Ok (ResourceType [])) # props)"

definition NewPropFindResponse :: "(xml_name list \<Rightarrow> xml_name list) \<Rightarrow> string \<Rightarrow> PropFind \<Rightarrow> prop_map \<Rightarrow> DavResponse outcome" where
  "NewPropFindResponse order path fd props0 = (let props = with_resource_type props0;
      resp = (\<lambda>pss. \<lparr>dr_Hrefs = [path], dr_PropStats = pss, dr_Status = None, dr_Description = None\<rparr>) in
     if fd_PropName fd then
       Ok (resp (fold (\<lambda>name. EncodeProp StatusOK (EmptyElement name)) (order (map fst props)) []))
     else if fd_AllProp fd then outcome_bind (answer_props props (order (map fst props)) []) (\<lambda>pss. Ok (resp pss))
     else case fd_Prop fd of
         Some names \<Rightarrow> outcome_bind (answer_props props names []) (\<lambda>pss. Ok (resp pss))
       | None \<Rightarrow> Err (HTTPErrorf StatusBadRequest ''webdav: request missing propname, allprop or prop element''))"

text \<open>The elements that are reported with a status.\<close>

definition at_status :: "int \<Rightarrow> PropStat list \<Rightarrow> dav_value list" where
  "at_status code pss = concat (map ps_Raw (filter (\<lambda>ps. ps_Code ps = code) pss))"

lemma EncodeProp_codes: "distinct (map ps_Code pss) \<Longrightarrow> distinct (map ps_Code (EncodeProp code v pss))"
  and EncodeProp_set: "set (map ps_Code (EncodeProp code v pss)) = insert code (set (map ps_Code pss))"
  by (induction code v pss rule: EncodeProp.induct) (auto simp: image_iff)

lemma at_status_absent: "code \<notin> set (map ps_Code pss) \<Longrightarrow> at_status code pss = []"
  by (induction pss) (auto simp: at_status_def)

lemma EncodeProp_at:
  "distinct (map ps_Code pss) \<Longrightarrow> at_status c (EncodeProp code v pss) = at_status c pss @ (if c = code then [v] else [])"
proof (induction code v pss rule: EncodeProp.induct)
  case (2 code v ps pss)
  show ?case
  proof (cases "ps_Code ps = code")
    case True
    have "ps_Code ps \<notin> ps_Code ` set pss" using 2(2) by simp
    then have "filter (\<lambda>ps. ps_Code ps = code) pss = []" using True by (metis (mono_tags, lifting) filter_False imageI)
    then show ?thesis using True by (auto simp: at_status_def)
  next
    case False
    then show ?thesis using 2 by (auto simp: at_status_def)
  qed
qed (simp add: at_status_def)

text \<open>
  What a list of properties is answered with: the statuses of the groups are distinct, and the group of a
  status has the elements of the properties with this status, in the order of the request.
\<close>

lemma answer_props_Ok:
  "answer_props props names pss = Ok pss' \<Longrightarrow> distinct (map ps_Code pss) \<Longrightarrow>
    distinct (map ps_Code pss') \<and>
    (\<forall>code. at_status code pss' = at_status code pss @ concat (map (\<lambda>n. case prop_answer props n of Ok (c, v) \<Rightarrow> if c = code then [v] else [] | _ \<Rightarrow> []) names))"
proof (induction props names pss rule: answer_props.induct)
  case (2 props name names pss)
  obtain c v where cv: "prop_answer props name = Ok (c, v)" "answer_props props names (EncodeProp c v pss) = Ok pss'"
    using 2(2) by (auto simp: outcome_bind_def split: outcome.splits)
  from 2(1) [OF cv(2) EncodeProp_codes [OF 2(3)]] cv(1) 2(3) show ?case by (auto simp: EncodeProp_at)
qed simp

lemma answer_props_ends:
  assumes "\<And>n. n \<in> set names \<Longrightarrow> \<exists>a. prop_answer props n = Ok a"
  shows "\<exists>pss'. answer_props props names pss = Ok pss'"
  using assms by (induction names arbitrary: pss) (force simp: outcome_bind_def)+

section \<open>Requests\<close>

datatype Depth = DepthZero | DepthOne | DepthInfinity

definition ErrInvalidDepthValue :: goerr where "ErrInvalidDepthValue = PlainError ''webdav: invalid Depth value''"
definition ErrInvalidOverwriteValue :: goerr where "ErrInvalidOverwriteValue = PlainError ''webdav: invalid Overwrite value''"

definition ParseDepth :: "string \<Rightarrow> Depth outcome" where
  "ParseDepth s = (if s = ''0'' then Ok DepthZero else if s = ''1'' then Ok DepthOne
     else if s = ''infinity'' then Ok DepthInfinity else Err ErrInvalidDepthValue)"

fun Depth_String :: "Depth \<Rightarrow> string" where
  "Depth_String DepthZero = ''0''"
| "Depth_String DepthOne = ''1''"
| "Depth_String DepthInfinity = ''infinity''"

definition ParseOverwrite :: "string \<Rightarrow> bool outcome" where
  "ParseOverwrite s = (if s = ''T'' then Ok True else if s = ''F'' then Ok False else Err ErrInvalidOverwriteValue)"

definition FormatOverwrite :: "bool \<Rightarrow> string" where
  "FormatOverwrite overwrite = (if overwrite then ''T'' else ''F'')"

lemma header_roundtrips:
  "ParseDepth (Depth_String d) = Ok d" "ParseOverwrite (FormatOverwrite b) = Ok b"
  "ParseDepth s = Ok d \<Longrightarrow> Depth_String d = s"
  by (cases d) (auto simp: ParseDepth_def ParseOverwrite_def FormatOverwrite_def split: if_splits)

text \<open>
  A request: its media type, what each decoder makes of the body, and the name of the authenticated
  user. The type \<open>'m\<close> is that of the bodies of the other methods.
\<close>

record 'm DavRequest =
  dq_method :: string
  dq_path :: string
  dq_headers :: "(string \<times> string) list"
  dq_media :: "string outcome"
  dq_empty :: bool
  dq_propfind :: "PropFind outcome"
  dq_update :: "unit outcome"
  dq_url :: "string \<Rightarrow> string outcome"
  dq_user :: "string option"
  dq_more :: 'm

definition header_Get :: "'m DavRequest \<Rightarrow> string \<Rightarrow> string" where
  "header_Get r name = (case map_of (dq_headers r) name of Some v \<Rightarrow> v | None \<Rightarrow> [])"

record 's dav_state = Response +
  ds_headers :: "(string \<times> string) list"
  ds_multi :: "DavResponse list option"
  ds_data :: "bytes option"
  ds_store :: 's

definition set_header :: "string \<Rightarrow> string \<Rightarrow> 's dav_state \<Rightarrow> 's dav_state" where
  "set_header name v w = w\<lparr>ds_headers := ds_headers w @ [(name, v)]\<rparr>"

definition write_header :: "int \<Rightarrow> ('s dav_state, unit) go" where
  "write_header code w = (Ok (), WriteHeader code w)"

definition isContentXML :: "'m DavRequest \<Rightarrow> bool" where
  "isContentXML r \<longleftrightarrow> dq_media r = Ok ''application/xml'' \<or> dq_media r = Ok ''text/xml''"

definition DecodeXMLRequest :: "'m DavRequest \<Rightarrow> 'a outcome \<Rightarrow> 'a outcome" where
  "DecodeXMLRequest r decoded =
     (if \<not> isContentXML r then Err (HTTPErrorf StatusBadRequest ''webdav: expected application/xml request'')
      else case decoded of Err e \<Rightarrow> Err (HTTPError StatusBadRequest e) | _ \<Rightarrow> decoded)"

definition ServeError :: "(goerr \<Rightarrow> string) \<Rightarrow> goerr \<Rightarrow> 's dav_state \<Rightarrow> 's dav_state" where
  "ServeError text err w = http_Error (text err) (HTTPErrorFromError err) w"

definition ServeMultiStatus :: "DavResponse list \<Rightarrow> ('s dav_state, unit) go" where
  "ServeMultiStatus ms w = (Ok (), (WriteHeader 207 w)\<lparr>ds_multi := Some ms\<rparr>)"

record ('s, 'm) dav_backend =
  db_Options :: "'m DavRequest \<Rightarrow> ('s dav_state, string list \<times> string list) go"
  db_HeadGet :: "'m DavRequest \<Rightarrow> ('s dav_state, unit) go"
  db_PropFind :: "'m DavRequest \<Rightarrow> PropFind \<Rightarrow> Depth \<Rightarrow> ('s dav_state, DavResponse list) go"
  db_PropPatch :: "'m DavRequest \<Rightarrow> unit \<Rightarrow> ('s dav_state, DavResponse) go"
  db_Put :: "'m DavRequest \<Rightarrow> ('s dav_state, unit) go"
  db_Delete :: "'m DavRequest \<Rightarrow> ('s dav_state, unit) go"
  db_Mkcol :: "'m DavRequest \<Rightarrow> ('s dav_state, unit) go"
  db_Mkcalendar :: "('m DavRequest \<Rightarrow> ('s dav_state, unit) go) option"
  db_Copy :: "'m DavRequest \<Rightarrow> string \<Rightarrow> bool \<Rightarrow> bool \<Rightarrow> ('s dav_state, bool) go"
  db_Move :: "'m DavRequest \<Rightarrow> string \<Rightarrow> bool \<Rightarrow> ('s dav_state, bool) go"

definition strings_JoinComma :: "string list \<Rightarrow> string" where
  "strings_JoinComma xs = (case xs of [] \<Rightarrow> [] | y # ys \<Rightarrow> y @ concat (map (\<lambda>x. '', '' @ x) ys))"

definition handleOptions :: "('s, 'm) dav_backend \<Rightarrow> 'm DavRequest \<Rightarrow> ('s dav_state, unit) go" where
  "handleOptions b r = go_bind (db_Options b r) (\<lambda>(caps, allow) w.
     (Ok (), WriteHeader 204 (set_header ''Allow'' (strings_JoinComma allow) (set_header ''DAV'' (strings_JoinComma ([''1'', ''3''] @ caps)) w))))"

definition handlePropfind :: "('s, 'm) dav_backend \<Rightarrow> 'm DavRequest \<Rightarrow> ('s dav_state, unit) go" where
  "handlePropfind b r =
     go_bind (lift (if dq_empty r then Ok \<lparr>fd_Prop = None, fd_AllProp = True, fd_PropName = False\<rparr>
        else if isContentXML r then DecodeXMLRequest r (dq_propfind r)
        else Err (HTTPErrorf StatusBadRequest ''webdav: unsupported request body''))) (\<lambda>propfind.
     go_bind (lift (let s = header_Get r ''Depth'' in
        if s = [] then Ok DepthInfinity else case ParseDepth s of Err e \<Rightarrow> Err (HTTPError StatusBadRequest e) | d \<Rightarrow> d)) (\<lambda>depth.
     go_bind (db_PropFind b r propfind depth) ServeMultiStatus))"

definition handleProppatch :: "('s, 'm) dav_backend \<Rightarrow> 'm DavRequest \<Rightarrow> ('s dav_state, unit) go" where
  "handleProppatch b r = go_bind (lift (DecodeXMLRequest r (dq_update r))) (\<lambda>update.
     go_bind (db_PropPatch b r update) (\<lambda>resp. ServeMultiStatus [resp]))"

definition parseDestination :: "'m DavRequest \<Rightarrow> string outcome" where
  "parseDestination r = (let destHref = header_Get r ''Destination'' in
     if destHref = [] then Err (HTTPErrorf StatusBadRequest ''webdav: missing Destination header in MOVE request'')
     else case dq_url r destHref of
         Err e \<Rightarrow> Err (HTTPErrorf StatusBadRequest ''webdav: marlformed Destination header in MOVE request'')
       | dest \<Rightarrow> dest)"

definition handleCopyMove :: "('s, 'm) dav_backend \<Rightarrow> 'm DavRequest \<Rightarrow> ('s dav_state, unit) go" where
  "handleCopyMove b r =
     go_bind (lift (parseDestination r)) (\<lambda>dest.
     go_bind (lift (let s = header_Get r ''Overwrite'' in if s = [] then Ok True else ParseOverwrite s)) (\<lambda>overwrite.
     go_bind (lift (let s = header_Get r ''Depth'' in if s = [] then Ok DepthInfinity else ParseDepth s)) (\<lambda>depth.
     go_bind (if dq_method r = ''COPY'' then
         (if depth = DepthOne then throw (HTTPErrorf StatusBadRequest ''webdav: Depth: 1 is not supported in COPY request'')
          else db_Copy b r dest (depth = DepthInfinity) overwrite)
       else if depth \<noteq> DepthInfinity then throw (HTTPErrorf StatusBadRequest ''webdav: only Depth: infinity is accepted in MOVE request'')
       else db_Move b r dest overwrite) (\<lambda>created. write_header (if created then 201 else 204)))))"

definition dispatch_method :: "('s, 'm) dav_backend \<Rightarrow> 'm DavRequest \<Rightarrow> ('s dav_state, unit) go" where
  "dispatch_method b r = (let m = dq_method r in
     if m = ''OPTIONS'' then handleOptions b r
     else if m = ''GET'' \<or> m = ''HEAD'' then db_HeadGet b r
     else if m = ''PUT'' then db_Put b r
     else if m = ''DELETE'' then go_bind (db_Delete b r) (\<lambda>_. write_header 204)
     else if m = ''PROPFIND'' then handlePropfind b r
     else if m = ''PROPPATCH'' then handleProppatch b r
     else if m = ''MKCOL'' then go_bind (db_Mkcol b r) (\<lambda>_. write_header 201)
     else if m = ''MKCALENDAR'' then (case db_Mkcalendar b of
         Some mk \<Rightarrow> go_bind (mk r) (\<lambda>_. write_header 201)
       | None \<Rightarrow> throw (HTTPErrorf 405 ''webdav: server does not support MKCALENDAR''))
     else if m = ''COPY'' \<or> m = ''MOVE'' then handleCopyMove b r
     else throw (HTTPErrorf 405 ''webdav: unsupported method''))"

text \<open>An error of a handler is the end of the request.\<close>

definition serve_errors :: "(goerr \<Rightarrow> string) \<Rightarrow> ('s dav_state, unit) go \<Rightarrow> ('s dav_state, unit) go" where
  "serve_errors text m w = (case m w of (Err err, w') \<Rightarrow> (Ok (), ServeError text err w') | r \<Rightarrow> r)"

definition DavHandler_ServeHTTP :: "(goerr \<Rightarrow> string) \<Rightarrow> ('s, 'm) dav_backend \<Rightarrow> 'm DavRequest \<Rightarrow> ('s dav_state, unit) go" where
  "DavHandler_ServeHTTP text b r = serve_errors text (dispatch_method b r)"

lemma serve_errors_Ok: "m w = (Ok (), w') \<Longrightarrow> serve_errors text m w = (Ok (), w')"
  by (simp add: serve_errors_def)

lemma ServeError_status [simp]:
  "resp_status (ServeError text e w) = (case resp_status w of None \<Rightarrow> Some (HTTPErrorFromError e) | Some s \<Rightarrow> Some s)"
  "ds_store (ServeError text e w) = ds_store w"
  by (simp_all add: ServeError_def http_Error_def Let_def WriteHeader_def split: option.splits)

lemma ServeError_internal:
  "as_HTTPError e = None \<Longrightarrow> resp_status w = None \<Longrightarrow> resp_status (ServeError text e w) = Some 500"
  by (simp add: HTTPErrorFromError_def StatusInternalServerError_def)

lemma unsupported_method_405:
  assumes "dq_method r \<notin> {''OPTIONS'', ''GET'', ''HEAD'', ''PUT'', ''DELETE'', ''PROPFIND'', ''PROPPATCH'', ''MKCOL'', ''MKCALENDAR'', ''COPY'', ''MOVE''}"
    and "resp_status w = None"
  shows "\<exists>w'. DavHandler_ServeHTTP text b r w = (Ok (), w') \<and> resp_status w' = Some 405 \<and> ds_store w' = ds_store w"
  using assms by (simp add: DavHandler_ServeHTTP_def dispatch_method_def serve_errors_def throw_def HTTPErrorf_def HTTPErrorFromError_def Let_def)

end
