(* ===== verification/Cal_Example.thy ===== *)
theory Cal_Example
  imports Cal_Backend
begin

text \<open>
  What the calendar backend promises over a store that keeps objects: the contract of the store as a
  locale, its interpretation on the store in memory, and the property of the backend.
\<close>

section \<open>The contract of a store\<close>

text \<open>What a call that succeeds was made of.\<close>

lemma bind_OkE:
  assumes "go_bind m f s = (Ok x, s')"
  obtains a s1 where "m s = (Ok a, s1)" "f a s1 = (Ok x, s')"
  using assms by (cases "m s"; cases "fst (m s)") (auto simp: go_bind_def)

lemma wrap_OkD: "go_wrap c m s = (Ok x, s') \<Longrightarrow> m s = (Ok x, s')"
  by (simp add: go_wrap_split prod_eq_iff)

locale object_store =
  fixes S :: "'s Store" and wf :: "'s \<Rightarrow> bool" and objs :: "'s \<Rightarrow> string \<rightharpoonup> Object"
  assumes Get: "wf s \<Longrightarrow> str_GetCalendarObject S p s =
      (case objs s p of Some obj \<Rightarrow> Ok obj | None \<Rightarrow> Err ErrCalendarObjectNotFound, s)"
    and Create_ok: "wf s \<Longrightarrow> str_CreateCalendarObject S obj s = (Ok u, s') \<Longrightarrow> wf s' \<and> objs s' = (objs s)(ob_Path obj \<mapsto> obj)"
    and Create_err: "wf s \<Longrightarrow> str_CreateCalendarObject S obj s = (Err e, s') \<Longrightarrow> wf s' \<and> objs s' = objs s"
    and Delete: "wf s \<Longrightarrow> objs s p = Some obj \<Longrightarrow> \<exists>s'. str_DeleteCalendarObject S p s = (Ok (), s') \<and> wf s' \<and> objs s' = (objs s)(p := None)"
    and List: "wf s \<Longrightarrow> \<exists>os. str_ListCalendarObjects S p s = (Ok os, s) \<and> distinct os \<and>
      set os = {obj. \<exists>q. objs s q = Some obj \<and> strings_HasPrefix q p}"
begin

text \<open>An object that was put is what a request for its path gets, until it is deleted.\<close>

lemma put_get:
  assumes "be_store b = S" "wf s" "Backend_PutCalendarObject b now path (Some cal) opts s = (Ok obj, s')" "normalizePath p = path"
  shows "wf s' \<and> Backend_GetCalendarObject b p s' = (Ok obj, s')"
proof -
  obtain u s1 where c: "(case opts of None \<Rightarrow> ret () | Some o' \<Rightarrow> check_conditions b path o') s = (Ok u, s1)"
    and rest: "go_bind (go_wrap ''could not convert caldav Object into store Object'' (lift (caldavObjectToStoreObject b now path cal))) (\<lambda>obj.
        go_bind (go_wrap ''error while creating calendar object in storage'' (str_CreateCalendarObject (be_store b) obj)) (\<lambda>_.
        go_wrap ''error while converting stored object back to a caldav CalendarObject'' (lift (storeObjectToCaldavObject b obj)))) s1 = (Ok obj, s')"
    using assms(3) unfolding Backend_PutCalendarObject_def option.case by (rule bind_OkE)
  have s1: "s1 = s"
    using c Get [OF assms(2)] assms(1)
    by (cases opts) (auto simp: check_conditions_def split: option.splits outcome.splits if_splits)
  from rest obtain ob s2 where ob: "go_wrap ''could not convert caldav Object into store Object'' (lift (caldavObjectToStoreObject b now path cal)) s1 = (Ok ob, s2)"
    and rest2: "go_bind (go_wrap ''error while creating calendar object in storage'' (str_CreateCalendarObject (be_store b) ob)) (\<lambda>_.
        go_wrap ''error while converting stored object back to a caldav CalendarObject'' (lift (storeObjectToCaldavObject b ob))) s2 = (Ok obj, s')"
    by (rule bind_OkE)
  have conv: "caldavObjectToStoreObject b now path cal = Ok ob" "s2 = s" using wrap_OkD [OF ob] s1 by (simp_all add: lift_def)
  from rest2 obtain v s3 where cr: "go_wrap ''error while creating calendar object in storage'' (str_CreateCalendarObject (be_store b) ob) s2 = (Ok v, s3)"
    and conv2: "go_wrap ''error while converting stored object back to a caldav CalendarObject'' (lift (storeObjectToCaldavObject b ob)) s3 = (Ok obj, s')"
    by (rule bind_OkE)
  have conv3: "storeObjectToCaldavObject b ob = Ok obj" "s' = s3" using wrap_OkD [OF conv2] by (simp_all add: lift_def)
  have put: "wf s' \<and> objs s' = (objs s)(ob_Path ob \<mapsto> ob)" using Create_ok [OF assms(2)] wrap_OkD [OF cr] conv(2) conv3(2) assms(1) by simp
  have "ob_Path ob = path" using conv(1)
    by (cases "ics_Serialize (be_ics b) cal") (auto simp: caldavObjectToStoreObject_def SerializeObject_def)
  then have "str_GetCalendarObject (be_store b) (normalizePath p) s' = (Ok ob, s')" using put Get [of s' path] assms(1,4) by simp
  then show ?thesis using put conv3(1) by (simp add: Backend_GetCalendarObject_def lift_def)
qed

lemma delete_get:
  assumes "be_store b = S" "wf s" "objs s (normalizePath p) = Some ob"
  shows "\<exists>s'. Backend_DeleteCalendarObject b p s = (Ok (), s') \<and> wf s' \<and> objs s' = (objs s)(normalizePath p := None) \<and>
    Backend_GetCalendarObject b p s' = (Err (Wrapped ''error while fetching calendar object from storage'' ErrCalendarObjectNotFound), s')"
proof -
  obtain s' where "str_DeleteCalendarObject S (normalizePath p) s = (Ok (), s')" "wf s'" "objs s' = (objs s)(normalizePath p := None)"
    using Delete [OF assms(2,3)] by blast
  then show ?thesis using assms(1) Get [of s' "normalizePath p"]
    by (simp add: Backend_DeleteCalendarObject_def Backend_GetCalendarObject_def)
qed

end

text \<open>A store that takes an object only once.\<close>

locale exclusive_store = object_store +
  assumes Create_new: "wf s \<Longrightarrow> objs s (ob_Path obj) = None \<Longrightarrow> \<exists>s'. str_CreateCalendarObject S obj s = (Ok (), s')"
    and Create_old: "wf s \<Longrightarrow> objs s (ob_Path obj) \<noteq> None \<Longrightarrow> str_CreateCalendarObject S obj s = (Err ErrCalendarObjectAlreadyExists, s)"

section \<open>The store in memory\<close>

definition mem_wf :: "Mem \<Rightarrow> bool" where
  "mem_wf m \<longleftrightarrow> distinct (map fst (mem_objects m)) \<and> (\<forall>p obj. map_of (mem_objects m) p = Some obj \<longrightarrow> ob_Path obj = p)"

interpretation mem: exclusive_store Mem_Store mem_wf "\<lambda>m. map_of (mem_objects m)"
proof
  fix s s' :: Mem and p obj u e
  assume wf: "mem_wf s"
  show "str_GetCalendarObject Mem_Store p s = (case map_of (mem_objects s) p of Some obj \<Rightarrow> Ok obj | None \<Rightarrow> Err ErrCalendarObjectNotFound, s)"
    by (simp add: Mem_Store_def Mem_GetCalendarObject_def)
  show "mem_wf s' \<and> map_of (mem_objects s') = (map_of (mem_objects s))(ob_Path obj \<mapsto> obj)"
    if "str_CreateCalendarObject Mem_Store obj s = (Ok u, s')"
    using that wf by (auto simp: Mem_Store_def Mem_CreateCalendarObject_def mem_wf_def update_conv' distinct_update split: if_splits)
  show "mem_wf s' \<and> map_of (mem_objects s') = map_of (mem_objects s)" if "str_CreateCalendarObject Mem_Store obj s = (Err e, s')"
    using that wf by (auto simp: Mem_Store_def Mem_CreateCalendarObject_def split: if_splits)
  show "\<exists>s'. str_DeleteCalendarObject Mem_Store p s = (Ok (), s') \<and> mem_wf s' \<and> map_of (mem_objects s') = (map_of (mem_objects s))(p := None)"
    if "map_of (mem_objects s) p = Some obj"
    using that wf by (auto simp: Mem_Store_def Mem_DeleteCalendarObject_def mem_wf_def delete_conv' distinct_delete)
  show "\<exists>os. str_ListCalendarObjects Mem_Store p s = (Ok os, s) \<and> distinct os \<and>
      set os = {obj. \<exists>q. map_of (mem_objects s) q = Some obj \<and> strings_HasPrefix q p}"
  proof -
    let ?os = "filter (\<lambda>object. strings_HasPrefix (ob_Path object) p) (map snd (mem_objects s))"
    have "map_of (mem_objects s) q = Some obj \<longleftrightarrow> (q, obj) \<in> set (mem_objects s)" for q obj using wf by (simp add: mem_wf_def)
    then have keys: "(q, obj) \<in> set (mem_objects s) \<Longrightarrow> ob_Path obj = q" for q obj using wf by (simp add: mem_wf_def)
    have "map fst (mem_objects s) = map ob_Path (map snd (mem_objects s))" using keys by auto
    then have "distinct (map snd (mem_objects s))" using wf by (metis mem_wf_def distinct_map)
    moreover have "set ?os = {obj. \<exists>q. map_of (mem_objects s) q = Some obj \<and> strings_HasPrefix q p}"
      using wf keys by (force simp: mem_wf_def)
    ultimately show ?thesis by (simp add: Mem_Store_def Mem_ListCalendarObjects_def)
  qed
  show "\<exists>s'. str_CreateCalendarObject Mem_Store obj s = (Ok (), s')" if "map_of (mem_objects s) (ob_Path obj) = None"
    using that by (simp add: Mem_Store_def Mem_CreateCalendarObject_def)
  show "str_CreateCalendarObject Mem_Store obj s = (Err ErrCalendarObjectAlreadyExists, s)" if "map_of (mem_objects s) (ob_Path obj) \<noteq> None"
    using that by (simp add: Mem_Store_def Mem_CreateCalendarObject_def)
qed

section \<open>Properties of the backend\<close>

lemma mem_put_new:
  assumes "be_store b = Mem_Store" "map_of (mem_objects m) path = None" "normalizePath path = path"
    and "ics_Serialize (be_ics b) cal = Ok data" "ics_Parse (be_ics b) data = Ok cal"
  shows "Backend_PutCalendarObject b now path (Some cal) opts m =
    (Ok \<lparr>co_Path = path, co_ModTime = now, co_ContentLength = int (length data), co_ETag = HashBytes (be_md5 b) data, co_Data = Some cal\<rparr>,
     m\<lparr>mem_objects := AList.update path \<lparr>ob_Path = path, ob_ModTime = now, ob_Data = data, ob_ETag = HashBytes (be_md5 b) data\<rparr> (mem_objects m)\<rparr>)"
proof -
  have "goerr_Is ErrCalendarObjectNotFound Cal_Store.ErrNotFound" by (simp add: ErrCalendarObjectNotFound_def Cal_Store.ErrNotFound_def)
  then have "(case opts of None \<Rightarrow> ret () | Some o' \<Rightarrow> check_conditions b path o') m = (Ok (), m)"
    using assms(1-3) by (cases opts) (simp_all add: check_conditions_def Mem_Store_def Mem_GetCalendarObject_def)
  then show ?thesis using assms
    by (simp add: Backend_PutCalendarObject_def caldavObjectToStoreObject_def SerializeObject_def lift_def go_wrap_def go_bind_def
        Mem_Store_def Mem_CreateCalendarObject_def storeObjectToCaldavObject_def Object_Calendar_def Object_Size_def)
qed

lemma mem_put_old:
  assumes "be_store b = Mem_Store" "map_of (mem_objects m) path = Some old" "normalizePath path = path"
    and "ics_Serialize (be_ics b) cal = Ok data"
  shows "Backend_PutCalendarObject b now path (Some cal) opts m =
    (case opts of
       None \<Rightarrow> Err (Wrapped ''error while creating calendar object in storage'' ErrCalendarObjectAlreadyExists)
     | Some o' \<Rightarrow> (case put_matcher (be_unquote b) o' (ob_ETag old) of
         Ok True \<Rightarrow> Err (Wrapped ''error while creating calendar object in storage'' ErrCalendarObjectAlreadyExists)
       | Ok False \<Rightarrow> Err ErrETagDidNotMatch
       | Err e \<Rightarrow> Err (HTTPError 412 (Wrapped ''error while matching etag'' e))
       | Panic p \<Rightarrow> Panic p
       | Diverge \<Rightarrow> Diverge), m)"
proof -
  have get: "str_GetCalendarObject (be_store b) (normalizePath path) m = (Ok old, m)"
    using assms(1-3) by (simp add: Mem_Store_def Mem_GetCalendarObject_def)
  have create: "str_CreateCalendarObject (be_store b) ob m = (Err ErrCalendarObjectAlreadyExists, m)" if "ob_Path ob = path" for ob
    using assms(1,2) that by (simp add: Mem_Store_def Mem_CreateCalendarObject_def)
  show ?thesis
    by (simp add: Backend_PutCalendarObject_def check_conditions_def get caldavObjectToStoreObject_def SerializeObject_def assms(4) lift_def go_wrap_def
        go_bind_def create split: option.splits outcome.splits bool.splits)
qed

text \<open>
  Calendar objects in the store in memory. An object that is put under a clean path without an
  object is stored whatever the conditions of the request are, and returned with its tag and length;
  afterwards a request for any spelling of the path gets the same object, it is listed, a second put
  is refused and changes nothing, whether its conditions hold or not, and after a delete the store
  is as before and the object is not found.
\<close>

theorem calendar_objects:
  assumes "be_store b = Mem_Store" "mem_wf m" "map_of (mem_objects m) path = None" "normalizePath path = path" "normalizePath p = path"
    and "ics_Serialize (be_ics b) cal = Ok data" "ics_Parse (be_ics b) data = Ok cal"
  shows "\<exists>obj m'. Backend_PutCalendarObject b now path (Some cal) opts m = (Ok obj, m') \<and>
    co_Data obj = Some cal \<and> co_ETag obj = HashBytes (be_md5 b) data \<and> co_ContentLength obj = int (length data) \<and>
    Backend_GetCalendarObject b p m' = (Ok obj, m') \<and>
    (\<exists>os. str_ListCalendarObjects (be_store b) path m' = (Ok os, m') \<and> path \<in> ob_Path ` set os) \<and>
    (\<forall>now' opts'. \<exists>r. Backend_PutCalendarObject b now' path (Some cal) opts' m' = (r, m') \<and> (\<forall>x. r \<noteq> Ok x)) \<and>
    (\<exists>m''. Backend_DeleteCalendarObject b p m' = (Ok (), m'') \<and> mem_objects m'' = mem_objects m \<and>
      Backend_GetCalendarObject b p m'' = (Err (Wrapped ''error while fetching calendar object from storage'' ErrCalendarObjectNotFound), m''))"
proof -
  let ?ob = "\<lparr>ob_Path = path, ob_ModTime = now, ob_Data = data, ob_ETag = HashBytes (be_md5 b) data\<rparr>"
  let ?m' = "m\<lparr>mem_objects := AList.update path ?ob (mem_objects m)\<rparr>"
  note put = mem_put_new [OF assms(1,3,4,6,7), of now opts]
  note get = mem.put_get [OF assms(1,2) put assms(5)]
  have ob: "map_of (mem_objects ?m') path = Some ?ob" by (simp add: update_conv')
  obtain os where "str_ListCalendarObjects Mem_Store path ?m' = (Ok os, ?m')"
    "set os = {obj. \<exists>q. map_of (mem_objects ?m') q = Some obj \<and> strings_HasPrefix q path}"
    using mem.List [of ?m' path] get by blast
  moreover have "?ob \<in> {obj. \<exists>q. map_of (mem_objects ?m') q = Some obj \<and> strings_HasPrefix q path}"
    using ob by (auto simp: strings_HasPrefix_def)
  ultimately have list: "\<exists>os. str_ListCalendarObjects (be_store b) path ?m' = (Ok os, ?m') \<and> path \<in> ob_Path ` set os"
    using assms(1) by (force simp: image_iff)
  have again: "\<forall>now' opts'. \<exists>r. Backend_PutCalendarObject b now' path (Some cal) opts' ?m' = (r, ?m') \<and> (\<forall>x. r \<noteq> Ok x)"
    unfolding mem_put_old [OF assms(1) ob assms(4,6)] by (simp split: option.splits outcome.splits bool.splits)
  have "map_of (mem_objects ?m') (normalizePath p) = Some ?ob" using ob assms(5) by simp
  note gone = mem.delete_get [OF assms(1) conjunct1 [OF get] this]
  have absent: "path \<notin> fst ` set (mem_objects m)" using assms(3) by (simp add: map_of_eq_None_iff)
  have "Backend_DeleteCalendarObject b p ?m' = (Ok (), ?m'\<lparr>mem_objects := mem_objects m\<rparr>)"
    using ob assms(1,5) absent
    by (simp add: Backend_DeleteCalendarObject_def Mem_Store_def Mem_DeleteCalendarObject_def delete_update_same)
  with gone have del: "\<exists>m''. Backend_DeleteCalendarObject b p ?m' = (Ok (), m'') \<and> mem_objects m'' = mem_objects m \<and>
      Backend_GetCalendarObject b p m'' = (Err (Wrapped ''error while fetching calendar object from storage'' ErrCalendarObjectNotFound), m'')" by auto
  let ?co = "\<lparr>co_Path = path, co_ModTime = now, co_ContentLength = int (length data), co_ETag = HashBytes (be_md5 b) data, co_Data = Some cal\<rparr>"
  have "co_Data ?co = Some cal" "co_ETag ?co = HashBytes (be_md5 b) data" "co_ContentLength ?co = int (length data)" by simp_all
  then show ?thesis using put conjunct2 [OF get] list again del by blast
qed

text \<open>A calendar without components, whose text is one byte.\<close>

definition ex_cal :: IcsCalendar where
  "ex_cal = \<lparr>ic_Components = 0, ic_Events = []\<rparr>"

definition ex_backend :: "Mem Backend" where
  "ex_backend = \<lparr>be_store = Mem_Store, be_ics = \<lparr>ics_Parse = (\<lambda>d. Ok ex_cal), ics_Serialize = (\<lambda>c. Ok [1])\<rparr>, be_md5 = (\<lambda>d. d),
     be_unquote = (\<lambda>s. Ok s)\<rparr>"

theorem calendar_objects_witness:
  "\<exists>obj m'. Backend_PutCalendarObject ex_backend 7 ''/u/calendars/w/a.ics'' (Some ex_cal) None NewMem = (Ok obj, m') \<and>
    Backend_GetCalendarObject ex_backend ''/u/calendars//w/a.ics/'' m' = (Ok obj, m')"
proof -
  have "be_store ex_backend = Mem_Store" "mem_wf NewMem" "map_of (mem_objects NewMem) ''/u/calendars/w/a.ics'' = None"
    by (simp_all add: ex_backend_def mem_wf_def NewMem_def)
  moreover have "normalizePath ''/u/calendars/w/a.ics'' = ''/u/calendars/w/a.ics''" "normalizePath ''/u/calendars//w/a.ics/'' = ''/u/calendars/w/a.ics''"
    by code_simp+
  moreover have "ics_Serialize (be_ics ex_backend) ex_cal = Ok [1]" "ics_Parse (be_ics ex_backend) [1] = Ok ex_cal" by (simp_all add: ex_backend_def)
  ultimately show ?thesis using calendar_objects [of ex_backend NewMem "''/u/calendars/w/a.ics''" "''/u/calendars//w/a.ics/''" ex_cal "[1]" 7 None] by blast
qed

section \<open>What goes wrong\<close>

text \<open>An object that is put under a path that is not clean is stored under it, where no request finds it.\<close>

lemma unclean_path_lost:
  "\<exists>obj m'. Backend_PutCalendarObject ex_backend 7 ''/u/a/'' (Some ex_cal) None NewMem = (Ok obj, m') \<and>
    Backend_GetCalendarObject ex_backend ''/u/a/'' m' =
      (Err (Wrapped ''error while fetching calendar object from storage'' ErrCalendarObjectNotFound), m')"
proof -
  let ?ob = "\<lparr>ob_Path = ''/u/a/'', ob_ModTime = 7, ob_Data = [1], ob_ETag = HashBytes (\<lambda>d. d) [1]\<rparr>"
  let ?m = "\<lparr>mem_calendars = [], mem_objects = [(''/u/a/'', ?ob)]\<rparr>"
  let ?co = "\<lparr>co_Path = ''/u/a/'', co_ModTime = 7, co_ContentLength = 1, co_ETag = HashBytes (\<lambda>d. d) [1], co_Data = Some ex_cal\<rparr>"
  have norm: "normalizePath ''/u/a/'' = ''/u/a''" by code_simp
  have "Backend_PutCalendarObject ex_backend 7 ''/u/a/'' (Some ex_cal) None NewMem = (Ok ?co, ?m)"
    by (simp add: Backend_PutCalendarObject_def ex_backend_def caldavObjectToStoreObject_def SerializeObject_def lift_def go_wrap_def go_bind_def
        Mem_Store_def Mem_CreateCalendarObject_def NewMem_def storeObjectToCaldavObject_def Object_Calendar_def Object_Size_def)
  moreover have "Backend_GetCalendarObject ex_backend ''/u/a/'' ?m =
      (Err (Wrapped ''error while fetching calendar object from storage'' ErrCalendarObjectNotFound), ?m)"
    by (simp add: Backend_GetCalendarObject_def norm ex_backend_def Mem_Store_def Mem_GetCalendarObject_def go_bind_def go_wrap_def)
  ultimately show ?thesis by blast
qed

text \<open>A calendar lists the objects of every calendar whose name it begins.\<close>

lemma sibling_objects_listed:
  assumes "ob_Path obj = ''/u/calendars/work2/a.ics''"
  shows "Mem_ListCalendarObjects ''/u/calendars/work'' \<lparr>mem_calendars = [], mem_objects = [(''/u/calendars/work2/a.ics'', obj)]\<rparr> =
    (Ok [obj], \<lparr>mem_calendars = [], mem_objects = [(''/u/calendars/work2/a.ics'', obj)]\<rparr>)"
proof -
  have "strings_HasPrefix ''/u/calendars/work2/a.ics'' ''/u/calendars/work''" by code_simp
  then show ?thesis using assms by (simp add: Mem_ListCalendarObjects_def)
qed

end
