(* ===== verification/Cal_Server.thy ===== *)
theory Cal_Server
  imports Dav Cal_Example
begin

text \<open>
  \<^verbatim>\<open>lib/webdav/caldav/server.go\<close>: the CalDAV server over the backend of \<open>Cal_Backend\<close>. The record \<open>caldav_lib\<close>
  has what the code uses to print times, numbers and tags; \<open>caldav_body\<close> has what the decoders make of the body
  of a request. A handler always has a backend.
\<close>

section \<open>Requests\<close>

record caldav_lib =
  cl_quote :: "string \<Rightarrow> string"
  cl_FormatInt :: "int \<Rightarrow> string"
  cl_TimeFormat :: "date \<Rightarrow> string"
  cl_order :: "xml_name list \<Rightarrow> xml_name list"

record textMatch =
  xt_Text :: string
  xt_NegateCondition :: bool

record paramFilter =
  xp_Name :: string
  xp_IsNotDefined :: bool
  xp_TextMatch :: "textMatch option"

record propFilter =
  xr_Name :: string
  xr_IsNotDefined :: bool
  xr_TimeRange :: "(date \<times> date) option"
  xr_TextMatch :: "textMatch option"
  xr_ParamFilter :: "paramFilter list"

datatype compFilter = compFilter
  (xc_Name: string) (xc_IsNotDefined: bool) (xc_TimeRange: "(date \<times> date) option") (xc_PropFilters: "propFilter list") (xc_CompFilters: "compFilter list")

datatype xml_comp = comp (xm_Name: string) (xm_Allprop: bool) (xm_Prop: "string list") (xm_Allcomp: bool) (xm_Comp: "xml_comp list")

datatype CalendarCompRequest = CalendarCompRequest (cq_AllProps: bool) (cq_Props: "string list") (cq_AllComps: bool) (cq_Comps: "CalendarCompRequest list")

record calendarQuery =
  qu_Propfind :: PropFind
  qu_Filter :: compFilter

text \<open>\<open>mg_data\<close> is what decoding \<^verbatim>\<open>calendar-data\<close> among the properties gives, if there are properties.\<close>

record calendarMultiget =
  mg_Hrefs :: "string list"
  mg_Propfind :: PropFind
  mg_data :: "xml_comp option outcome"

datatype reportReq = ReportQuery calendarQuery | ReportMultiget calendarMultiget | ReportOther

record mkcalendarReq =
  mk_DisplayName :: string
  mk_Description :: string
  mk_SupportedComponents :: "string list"
  mk_MaxResourceSize :: int

record mkcolReq = mkcalendarReq +
  mk_ResourceType :: "xml_name list"

record caldav_body =
  cb_report :: "reportReq outcome"
  cb_mkcol :: "mkcolReq outcome"
  cb_mkcalendar :: "mkcalendarReq outcome"
  cb_calendar :: "IcsCalendar outcome"
  cb_close :: "unit outcome"

type_synonym caldav_request = "caldav_body DavRequest"

section \<open>Filters\<close>

definition ErrTextMatchIncompatibleWithIfNotDefined :: goerr where
  "ErrTextMatchIncompatibleWithIfNotDefined = PlainError ''if is-not-defined is provided, text-match cannot be provided''"
definition ErrMany1IncompatibleWithIfNotDefined :: goerr where
  "ErrMany1IncompatibleWithIfNotDefined = PlainError ''if is-not-defined is provided, text-match, time-range, or param-filter cannot be provided''"
definition ErrMany2IncompatibleWithIfNotDefined :: goerr where
  "ErrMany2IncompatibleWithIfNotDefined = PlainError ''if is-not-defined is provided, time-range, prop-filter, or comp-filter cannot be provided''"
definition ErrInvalidCalendarPath :: goerr where
  "ErrInvalidCalendarPath = PlainError ''invalid calendar path (must be under calendar home-set)''"

definition decode_text :: "textMatch option \<Rightarrow> TextMatch option" where
  "decode_text t = map_option (\<lambda>m. \<lparr>tm_Text = xt_Text m, tm_NegateCondition = False\<rparr>) t"

definition decodeParamFilter :: "paramFilter \<Rightarrow> ParamFilter outcome" where
  "decodeParamFilter el =
     (if xp_IsNotDefined el \<and> xp_TextMatch el \<noteq> None then Err (Wrapped ''caldav: failed to parse param-filter'' ErrTextMatchIncompatibleWithIfNotDefined)
      else Ok \<lparr>pf_Name = xp_Name el, pf_IsNotDefined = xp_IsNotDefined el, pf_TextMatch = decode_text (xp_TextMatch el)\<rparr>)"

fun outcome_all :: "('a \<Rightarrow> 'b outcome) \<Rightarrow> 'a list \<Rightarrow> 'b list outcome" where
  "outcome_all f [] = Ok []"
| "outcome_all f (x # xs) = outcome_bind (f x) (\<lambda>y. outcome_bind (outcome_all f xs) (\<lambda>ys. Ok (y # ys)))"

lemma outcome_all_cong [fundef_cong]:
  "xs = ys \<Longrightarrow> (\<And>x. x \<in> set ys \<Longrightarrow> f x = g x) \<Longrightarrow> outcome_all f xs = outcome_all g ys"
  by (induction ys arbitrary: xs) auto

definition decodePropFilter :: "propFilter \<Rightarrow> PropFilter outcome" where
  "decodePropFilter el =
     (if xr_IsNotDefined el \<and> (xr_TextMatch el \<noteq> None \<or> xr_TimeRange el \<noteq> None \<or> length (xr_ParamFilter el) > 0)
      then Err (Wrapped ''caldav: failed to parse prop-filter'' ErrMany1IncompatibleWithIfNotDefined)
      else outcome_bind (outcome_all decodeParamFilter (xr_ParamFilter el)) (\<lambda>params.
        Ok \<lparr>pr_Name = xr_Name el, pr_IsNotDefined = xr_IsNotDefined el,
          pr_Start = (case xr_TimeRange el of Some (start, _) \<Rightarrow> start | None \<Rightarrow> zeroDate),
          pr_End = (case xr_TimeRange el of Some (_, end') \<Rightarrow> end' | None \<Rightarrow> zeroDate),
          pr_TextMatch = decode_text (xr_TextMatch el), pr_ParamFilter = params\<rparr>))"

function decodeCompFilter :: "compFilter \<Rightarrow> CompFilter outcome" where
  "decodeCompFilter (compFilter name undef tr props comps) =
     (if undef \<and> (tr \<noteq> None \<or> length props > 0 \<or> length comps > 0)
      then Err (Wrapped ''caldav: failed to parse comp-filter'' ErrMany2IncompatibleWithIfNotDefined)
      else outcome_bind (outcome_all decodePropFilter props) (\<lambda>props'.
        outcome_bind (outcome_all decodeCompFilter comps) (\<lambda>comps'.
        Ok (CompFilter name undef (case tr of Some (start, _) \<Rightarrow> start | None \<Rightarrow> zeroDate)
          (case tr of Some (_, end') \<Rightarrow> end' | None \<Rightarrow> zeroDate) props' comps'))))"
  by pat_completeness auto
termination by (relation "measure size") (auto simp: less_Suc_eq_le elim: size_list_estimation')

function decodeComp :: "xml_comp \<Rightarrow> CalendarCompRequest outcome" where
  "decodeComp (comp name allprop props allcomp comps) =
     (if allprop \<and> length props > 0 then Err (HTTPErrorf StatusBadRequest ''caldav: only one of allprop or prop can be specified in calendar-data'')
      else if allcomp \<and> length comps > 0 then Err (HTTPErrorf StatusBadRequest ''caldav: only one of allcomp or comp can be specified in calendar-data'')
      else outcome_bind (outcome_all decodeComp comps) (\<lambda>cs. Ok (CalendarCompRequest allprop props allcomp cs)))"
  by pat_completeness auto
termination by (relation "measure size") (auto simp: less_Suc_eq_le elim: size_list_estimation')

definition decodeCalendarDataReq :: "xml_comp option \<Rightarrow> CalendarCompRequest outcome" where
  "decodeCalendarDataReq c = (case c of None \<Rightarrow> Ok (CalendarCompRequest True [] True []) | Some c0 \<Rightarrow> decodeComp c0)"

text \<open>The condition to negate a match is dropped.\<close>

lemma negation_dropped:
  "decodeParamFilter \<lparr>xp_Name = n, xp_IsNotDefined = False, xp_TextMatch = Some \<lparr>xt_Text = t, xt_NegateCondition = True\<rparr>\<rparr> =
   decodeParamFilter \<lparr>xp_Name = n, xp_IsNotDefined = False, xp_TextMatch = Some \<lparr>xt_Text = t, xt_NegateCondition = False\<rparr>\<rparr>"
  by (simp add: decodeParamFilter_def decode_text_def)

section \<open>The backend of the protocol\<close>

record ('s, 'r) caldav =
  cv_backend :: "'s Backend"
  cv_rrule :: "'r Rrule"
  cv_lib :: caldav_lib
  cv_prefix :: string
  cv_now :: date

definition MIMEType :: string where "MIMEType = ''text/calendar''"

definition on_store :: "('s, 'a) go \<Rightarrow> ('s dav_state, 'a) go" where
  "on_store m w = (let (r, s) = m (ds_store w) in (r, w\<lparr>ds_store := s\<rparr>))"

datatype resourceType =
    resourceTypeRoot | resourceTypeUserPrincipal | resourceTypeCalendarHomeSet | resourceTypeCalendar | resourceTypeCalendarObject
  | resourceTypeOther nat

text \<open>Past the object the code has numbers without a name.\<close>

definition resourceTypeAtPath :: "string \<Rightarrow> string \<Rightarrow> resourceType" where
  "resourceTypeAtPath pre reqPath =
     (let p0 = strings_TrimPrefix (filepath_Clean reqPath) pre; p = (if strings_HasPrefix p0 ''/'' then p0 else ''/'' @ p0) in
      if p = ''/'' then resourceTypeRoot
      else let n = length (strings_Split p (CHR ''/'')) - 1 in
        if n = 0 then resourceTypeRoot else if n = 1 then resourceTypeUserPrincipal else if n = 2 then resourceTypeCalendarHomeSet
        else if n = 3 then resourceTypeCalendar else if n = 4 then resourceTypeCalendarObject else resourceTypeOther n)"

definition user_principal :: "string option \<Rightarrow> dav_value outcome" where
  "user_principal user = outcome_bind (CurrentUserPrincipal user) (\<lambda>path. Ok (UserPrincipal path))"

definition propFindRoot :: "('s, 'r) caldav \<Rightarrow> string option \<Rightarrow> PropFind \<Rightarrow> DavResponse outcome" where
  "propFindRoot cv user fd = outcome_bind (CurrentUserPrincipal user) (\<lambda>principalPath.
     NewPropFindResponse (cl_order (cv_lib cv)) principalPath fd
       [(CurrentUserPrincipalName, Ok (UserPrincipal principalPath)), (ResourceTypeName, Ok (ResourceType [CollectionName]))])"

definition propFindUserPrincipal :: "('s, 'r) caldav \<Rightarrow> string option \<Rightarrow> PropFind \<Rightarrow> DavResponse outcome" where
  "propFindUserPrincipal cv user fd = outcome_bind (CurrentUserPrincipal user) (\<lambda>principalPath.
     outcome_bind (CalendarHomeSetPath user) (\<lambda>homeSetPath.
     NewPropFindResponse (cl_order (cv_lib cv)) principalPath fd
       [(CurrentUserPrincipalName, Ok (UserPrincipal principalPath)), (calendarHomeSetName, Ok (calendarHomeSet homeSetPath)),
        (ResourceTypeName, Ok (ResourceType [CollectionName, PrincipalName]))]))"

definition propFindHomeSet :: "('s, 'r) caldav \<Rightarrow> string option \<Rightarrow> PropFind \<Rightarrow> DavResponse outcome" where
  "propFindHomeSet cv user fd = outcome_bind (CurrentUserPrincipal user) (\<lambda>principalPath.
     outcome_bind (CalendarHomeSetPath user) (\<lambda>homeSetPath.
     NewPropFindResponse (cl_order (cv_lib cv)) homeSetPath fd
       [(CurrentUserPrincipalName, Ok (UserPrincipal principalPath)), (ResourceTypeName, Ok (ResourceType [CollectionName]))]))"

text \<open>The set of components of a calendar is nil when it is empty.\<close>

definition calendar_props :: "string option \<Rightarrow> CaldavCalendar \<Rightarrow> prop_map" where
  "calendar_props user cal =
     [(CurrentUserPrincipalName, user_principal user),
      (ResourceTypeName, Ok (ResourceType [CollectionName, calendarName])),
      (supportedCalendarDataName, Ok (supportedCalendarData [(MIMEType, ''2.0'')])),
      (supportedCalendarComponentSetName, Ok (supportedCalendarComponentSet
        (if cal_SupportedComponentSet cal \<noteq> [] then cal_SupportedComponentSet cal else [''VEVENT'']))),
      (CurrentUserPrivilegeSetName, Ok (PrivilegeSet [''read'', ''write'']))] @
     (if cal_Name cal \<noteq> [] then [(DisplayNameName, Ok (DisplayName (cal_Name cal)))] else []) @
     (if cal_Description cal \<noteq> [] then [(calendarDescriptionName, Ok (calendarDescription (cal_Description cal)))] else []) @
     (if cal_MaxResourceSize cal > 0 then [(maxResourceSizeName, Ok (maxResourceSize (cal_MaxResourceSize cal)))] else []) @
     (if cal_Color cal \<noteq> [] then [(calendarColorName, Ok (calendarColor (cal_Color cal)))] else [])"

definition propFindCalendar :: "('s, 'r) caldav \<Rightarrow> string option \<Rightarrow> PropFind \<Rightarrow> CaldavCalendar \<Rightarrow> DavResponse outcome" where
  "propFindCalendar cv user fd cal = NewPropFindResponse (cl_order (cv_lib cv)) (cal_Path cal) fd (calendar_props user cal)"

definition object_data :: "('s, 'r) caldav \<Rightarrow> CalendarObject \<Rightarrow> bytes outcome" where
  "object_data cv co = (case co_Data co of
      None \<Rightarrow> Panic ''invalid memory address or nil pointer dereference''
    | Some cal \<Rightarrow> ics_Serialize (be_ics (cv_backend cv)) cal)"

definition object_props :: "('s, 'r) caldav \<Rightarrow> string option \<Rightarrow> CalendarObject \<Rightarrow> prop_map" where
  "object_props cv user co =
     [(CurrentUserPrincipalName, user_principal user),
      (GetContentTypeName, Ok (GetContentType MIMEType)),
      (calendarDataName, outcome_bind (object_data cv co) (\<lambda>data. Ok (calendarDataResp data)))] @
     (if co_ContentLength co > 0 then [(GetContentLengthName, Ok (GetContentLength (co_ContentLength co)))] else []) @
     (if co_ModTime co \<noteq> zeroDate then [(GetLastModifiedName, Ok (GetLastModified (co_ModTime co)))] else []) @
     (if co_ETag co \<noteq> [] then [(GetETagName, Ok (GetETag (co_ETag co)))] else [])"

definition propFindCalendarObject :: "('s, 'r) caldav \<Rightarrow> string option \<Rightarrow> PropFind \<Rightarrow> CalendarObject \<Rightarrow> DavResponse outcome" where
  "propFindCalendarObject cv user fd co = NewPropFindResponse (cl_order (cv_lib cv)) (co_Path co) fd (object_props cv user co)"

definition propFindAllCalendarObjects :: "('s, 'r) caldav \<Rightarrow> string option \<Rightarrow> PropFind \<Rightarrow> CaldavCalendar \<Rightarrow> ('s, DavResponse list) go" where
  "propFindAllCalendarObjects cv user fd cal =
     go_bind (Backend_ListCalendarObjects (cv_backend cv) (cal_Path cal)) (\<lambda>aos. lift (outcome_all (propFindCalendarObject cv user fd) aos))"

fun calendars_responses :: "('s, 'r) caldav \<Rightarrow> string option \<Rightarrow> PropFind \<Rightarrow> bool \<Rightarrow> CaldavCalendar list \<Rightarrow> ('s, DavResponse list) go" where
  "calendars_responses cv user fd recurse [] = ret []"
| "calendars_responses cv user fd recurse (ab # cals) =
     go_bind (lift (propFindCalendar cv user fd ab)) (\<lambda>resp.
     go_bind (if recurse then propFindAllCalendarObjects cv user fd ab else ret []) (\<lambda>resps.
     go_bind (calendars_responses cv user fd recurse cals) (\<lambda>rest. ret (resp # resps @ rest))))"

definition propFindAllCalendars :: "('s, 'r) caldav \<Rightarrow> string option \<Rightarrow> PropFind \<Rightarrow> bool \<Rightarrow> ('s, DavResponse list) go" where
  "propFindAllCalendars cv user fd recurse =
     go_bind (Backend_ListCalendars (cv_backend cv) user) (calendars_responses cv user fd recurse)"

definition propfind_principal :: "('s, 'r) caldav \<Rightarrow> string option \<Rightarrow> string \<Rightarrow> PropFind \<Rightarrow> Depth \<Rightarrow> ('s, DavResponse list) go" where
  "propfind_principal cv user path fd depth = go_bind (lift (CurrentUserPrincipal user)) (\<lambda>principalPath.
     if path \<noteq> principalPath then ret []
     else go_bind (lift (propFindUserPrincipal cv user fd)) (\<lambda>resp.
       if depth = DepthZero then ret [resp]
       else go_bind (lift (propFindHomeSet cv user fd)) (\<lambda>home.
         if depth = DepthInfinity then go_bind (propFindAllCalendars cv user fd True) (\<lambda>resps. ret (resp # home # resps))
         else ret [resp, home])))"

definition propfind_home :: "('s, 'r) caldav \<Rightarrow> string option \<Rightarrow> string \<Rightarrow> PropFind \<Rightarrow> Depth \<Rightarrow> ('s, DavResponse list) go" where
  "propfind_home cv user path fd depth = go_bind (lift (CalendarHomeSetPath user)) (\<lambda>homeSetPath.
     if path \<noteq> homeSetPath then ret []
     else go_bind (lift (propFindHomeSet cv user fd)) (\<lambda>resp.
       if depth = DepthZero then ret [resp]
       else go_bind (propFindAllCalendars cv user fd (depth = DepthInfinity)) (\<lambda>resps. ret (resp # resps))))"

definition propfind_calendar :: "('s, 'r) caldav \<Rightarrow> string option \<Rightarrow> string \<Rightarrow> PropFind \<Rightarrow> Depth \<Rightarrow> ('s, DavResponse list) go" where
  "propfind_calendar cv user path fd depth = go_bind (Backend_GetCalendar (cv_backend cv) path) (\<lambda>ab.
     go_bind (lift (propFindCalendar cv user fd ab)) (\<lambda>resp.
     if depth = DepthZero then ret [resp]
     else go_bind (propFindAllCalendarObjects cv user fd ab) (\<lambda>resps. ret (resp # resps))))"

definition caldav_PropFind :: "('s, 'r) caldav \<Rightarrow> caldav_request \<Rightarrow> PropFind \<Rightarrow> Depth \<Rightarrow> ('s dav_state, DavResponse list) go" where
  "caldav_PropFind cv r fd depth = on_store (case resourceTypeAtPath (cv_prefix cv) (dq_path r) of
      resourceTypeRoot \<Rightarrow> go_bind (lift (propFindRoot cv (dq_user r) fd)) (\<lambda>resp. ret [resp])
    | resourceTypeUserPrincipal \<Rightarrow> propfind_principal cv (dq_user r) (dq_path r) fd depth
    | resourceTypeCalendarHomeSet \<Rightarrow> propfind_home cv (dq_user r) (dq_path r) fd depth
    | resourceTypeCalendar \<Rightarrow> propfind_calendar cv (dq_user r) (dq_path r) fd depth
    | resourceTypeCalendarObject \<Rightarrow> go_bind (Backend_GetCalendarObject (cv_backend cv) (dq_path r)) (\<lambda>ao.
        go_bind (lift (propFindCalendarObject cv (dq_user r) fd ao)) (\<lambda>resp. ret [resp]))
    | resourceTypeOther n \<Rightarrow> ret [])"

definition caldav_Options :: "('s, 'r) caldav \<Rightarrow> caldav_request \<Rightarrow> ('s dav_state, string list \<times> string list) go" where
  "caldav_Options cv r w =
     (if resourceTypeAtPath (cv_prefix cv) (dq_path r) \<noteq> resourceTypeCalendarObject
      then (Ok ([''calendar-access''], [''OPTIONS'', ''PROPFIND'', ''REPORT'', ''DELETE'', ''MKCOL'']), w)
      else case on_store (Backend_GetCalendarObject (cv_backend cv) (dq_path r)) w of
          (Ok co, w') \<Rightarrow> (Ok ([''calendar-access''], [''OPTIONS'', ''HEAD'', ''GET'', ''PUT'', ''DELETE'', ''PROPFIND'']), w')
        | (Err e, w') \<Rightarrow> (if as_HTTPError e \<noteq> None then Ok ([''calendar-access''], [''OPTIONS'', ''PUT'']) else Err e, w')
        | (Panic p, w') \<Rightarrow> (Panic p, w')
        | (Diverge, w') \<Rightarrow> (Diverge, w'))"

definition object_headers :: "('s, 'r) caldav \<Rightarrow> CalendarObject \<Rightarrow> (string \<times> string) list" where
  "object_headers cv co =
     (if co_ETag co \<noteq> [] then [(''ETag'', cl_quote (cv_lib cv) (co_ETag co))] else []) @
     (if co_ModTime co \<noteq> zeroDate then [(''Last-Modified'', cl_TimeFormat (cv_lib cv) (co_ModTime co))] else [])"

definition caldav_HeadGet :: "('s, 'r) caldav \<Rightarrow> caldav_request \<Rightarrow> ('s dav_state, unit) go" where
  "caldav_HeadGet cv r = go_bind (on_store (Backend_GetCalendarObject (cv_backend cv) (dq_path r))) (\<lambda>co w.
     let w' = w\<lparr>ds_headers := ds_headers w @ [(''Content-Type'', MIMEType)] @
        (if co_ContentLength co > 0 then [(''Content-Length'', cl_FormatInt (cv_lib cv) (co_ContentLength co))] else []) @ object_headers cv co\<rparr> in
     if dq_method r \<noteq> ''HEAD'' then
       (case object_data cv co of
          Ok data \<Rightarrow> (Ok (), (WriteHeader StatusOK w')\<lparr>ds_data := Some data\<rparr>)
        | Err e \<Rightarrow> (Err e, w') | Panic p \<Rightarrow> (Panic p, w') | Diverge \<Rightarrow> (Diverge, w'))
     else (Ok (), w'))"

text \<open>The deferred close of the body: its error is reported with the error there is, not with its own.\<close>

definition put_closed :: "unit outcome \<Rightarrow> unit outcome \<Rightarrow> unit outcome" where
  "put_closed closed r = (case closed of
      Err _ \<Rightarrow> (case r of
          Ok _ \<Rightarrow> Err (Wrapped ''error while closing request body'' nil_error)
        | Err e \<Rightarrow> Err (Joined e (Wrapped ''error while closing request body'' e))
        | _ \<Rightarrow> r)
    | Ok _ \<Rightarrow> r | Panic p \<Rightarrow> Panic p | Diverge \<Rightarrow> Diverge)"

definition caldav_Put :: "('s, 'r) caldav \<Rightarrow> caldav_request \<Rightarrow> ('s dav_state, unit) go" where
  "caldav_Put cv r =
     (let opts = \<lparr>po_IfMatch = header_Get r ''If-Match'', po_IfNoneMatch = header_Get r ''If-None-Match''\<rparr> in
      case dq_media r of
        Err e \<Rightarrow> throw (HTTPErrorf StatusBadRequest ''caldav: malformed Content-Type'')
      | Panic p \<Rightarrow> panic p
      | Diverge \<Rightarrow> lift Diverge
      | Ok t \<Rightarrow> if t \<noteq> MIMEType then throw (HTTPErrorf StatusBadRequest ''caldav: unsupported Content-Type'')
        else case cb_calendar (dq_more r) of
            Err e \<Rightarrow> throw (HTTPErrorf StatusBadRequest ''caldav: failed to parse iCalendar'')
          | Panic p \<Rightarrow> panic p
          | Diverge \<Rightarrow> lift Diverge
          | Ok cal \<Rightarrow> (\<lambda>w. let (res, w1) =
              go_bind (on_store (Backend_PutCalendarObject (cv_backend cv) (cv_now cv) (dq_path r) (Some cal) (Some opts))) (\<lambda>co w'.
                (Ok (), WriteHeader 201 (w'\<lparr>ds_headers := ds_headers w' @ object_headers cv co @
                   (if co_Path co \<noteq> [] then [(''Location'', co_Path co)] else [])\<rparr>))) w
            in (put_closed (cb_close (dq_more r)) res, w1)))"

definition caldav_Delete :: "('s, 'r) caldav \<Rightarrow> caldav_request \<Rightarrow> ('s dav_state, unit) go" where
  "caldav_Delete cv r = on_store (Backend_DeleteCalendarObject (cv_backend cv) (dq_path r))"

definition empty_calendar :: "string \<Rightarrow> CaldavCalendar" where
  "empty_calendar path = \<lparr>cal_Path = path, cal_Name = [], cal_Description = [], cal_MaxResourceSize = 0, cal_SupportedComponentSet = [], cal_Color = []\<rparr>"

definition described :: "('z mkcalendarReq_scheme) \<Rightarrow> CaldavCalendar \<Rightarrow> CaldavCalendar" where
  "described m cal = cal\<lparr>cal_Name := mk_DisplayName m, cal_Description := mk_Description m, cal_MaxResourceSize := mk_MaxResourceSize m,
     cal_SupportedComponentSet := mk_SupportedComponents m\<rparr>"

definition create_at_home :: "('s, 'r) caldav \<Rightarrow> caldav_request \<Rightarrow> CaldavCalendar \<Rightarrow> ('s dav_state, unit) go" where
  "create_at_home cv r cal = go_bind (lift (CalendarHomeSetPath (dq_user r))) (\<lambda>homeSetPath.
     if \<not> strings_HasPrefix (cal_Path cal) homeSetPath then throw ErrInvalidCalendarPath
     else on_store (Backend_CreateCalendar (cv_backend cv) (Some cal)))"

definition caldav_Mkcol :: "('s, 'r) caldav \<Rightarrow> caldav_request \<Rightarrow> ('s dav_state, unit) go" where
  "caldav_Mkcol cv r =
     (if resourceTypeAtPath (cv_prefix cv) (dq_path r) \<noteq> resourceTypeCalendar
      then throw (HTTPErrorf 403 ''caldav: calendar creation not allowed at given location'')
      else go_bind (lift (if dq_empty r then Ok (empty_calendar (dq_path r))
        else case DecodeXMLRequest r (cb_mkcol (dq_more r)) of
            Ok m \<Rightarrow> if \<not> ResourceType_Is (mk_ResourceType m) CollectionName \<or> \<not> ResourceType_Is (mk_ResourceType m) calendarName
              then Err (HTTPErrorf StatusBadRequest ''carddav: unexpected resource type'')
              else Ok (described m (empty_calendar (dq_path r)))
          | Err e \<Rightarrow> Err (HTTPErrorf StatusBadRequest ''carddav: error parsing mkcol request'')
          | Panic p \<Rightarrow> Panic p | Diverge \<Rightarrow> Diverge)) (create_at_home cv r))"

definition caldav_Mkcalendar :: "('s, 'r) caldav \<Rightarrow> caldav_request \<Rightarrow> ('s dav_state, unit) go" where
  "caldav_Mkcalendar cv r =
     (if resourceTypeAtPath (cv_prefix cv) (dq_path r) \<noteq> resourceTypeCalendar
      then throw (HTTPErrorf 403 ''caldav: calendar creation not allowed at given location'')
      else go_bind (lift (if dq_empty r then Ok (empty_calendar (dq_path r))
        else case DecodeXMLRequest r (cb_mkcalendar (dq_more r)) of
            Ok m \<Rightarrow> Ok (described m (empty_calendar (dq_path r)))
          | Err e \<Rightarrow> Err (HTTPErrorf StatusBadRequest ''carddav: error parsing mkcalendar request'')
          | Panic p \<Rightarrow> Panic p | Diverge \<Rightarrow> Diverge)) (create_at_home cv r))"

definition caldav_backend :: "('s, 'r) caldav \<Rightarrow> ('s, caldav_body) dav_backend" where
  "caldav_backend cv = \<lparr>db_Options = caldav_Options cv, db_HeadGet = caldav_HeadGet cv, db_PropFind = caldav_PropFind cv,
     db_PropPatch = (\<lambda>r u. throw (HTTPErrorf 501 ''caldav: PropPatch not implemented'')),
     db_Put = caldav_Put cv, db_Delete = caldav_Delete cv, db_Mkcol = caldav_Mkcol cv, db_Mkcalendar = Some (caldav_Mkcalendar cv),
     db_Copy = (\<lambda>r dest recursive overwrite. throw (HTTPErrorf 501 ''caldav: Copy not implemented'')),
     db_Move = (\<lambda>r dest overwrite. throw (HTTPErrorf 501 ''caldav: Move not implemented''))\<rparr>"

section \<open>Reports\<close>

definition handleQuery :: "('s, 'r) caldav \<Rightarrow> caldav_request \<Rightarrow> calendarQuery \<Rightarrow> ('s dav_state, unit) go" where
  "handleQuery cv r query =
     go_bind (lift (decodeCompFilter (qu_Filter query))) (\<lambda>cf.
     go_bind (on_store (Backend_QueryCalendarObjects (cv_rrule cv) (cv_backend cv) (dq_path r) cf)) (\<lambda>cos.
     go_bind (lift (outcome_all (propFindCalendarObject cv (dq_user r) (qu_Propfind query)) cos)) ServeMultiStatus))"

fun multiget_responses :: "('s, 'r) caldav \<Rightarrow> string option \<Rightarrow> PropFind \<Rightarrow> string list \<Rightarrow> ('s, DavResponse list) go" where
  "multiget_responses cv user fd [] s = (Ok [], s)"
| "multiget_responses cv user fd (href # hrefs) s = (case Backend_GetCalendarObject (cv_backend cv) href s of
      (Ok co, s') \<Rightarrow> go_bind (lift (propFindCalendarObject cv user fd co)) (\<lambda>resp.
        go_bind (multiget_responses cv user fd hrefs) (\<lambda>resps. ret (resp # resps))) s'
    | (Err e, s') \<Rightarrow> go_bind (multiget_responses cv user fd hrefs) (\<lambda>resps. ret (NewErrorResponse href e # resps)) s'
    | (Panic p, s') \<Rightarrow> (Panic p, s')
    | (Diverge, s') \<Rightarrow> (Diverge, s'))"

definition handleMultiget :: "('s, 'r) caldav \<Rightarrow> caldav_request \<Rightarrow> calendarMultiget \<Rightarrow> ('s dav_state, unit) go" where
  "handleMultiget cv r multiget =
     go_bind (lift (if fd_Prop (mg_Propfind multiget) = None then Ok (CalendarCompRequest False [] False [])
        else case mg_data multiget of
            Err e \<Rightarrow> if IsNotFound e then decodeCalendarDataReq None else Err e
          | Ok c \<Rightarrow> decodeCalendarDataReq c
          | Panic p \<Rightarrow> Panic p | Diverge \<Rightarrow> Diverge)) (\<lambda>dataReq.
     go_bind (on_store (multiget_responses cv (dq_user r) (mg_Propfind multiget) (mg_Hrefs multiget))) ServeMultiStatus)"

definition handleReport :: "('s, 'r) caldav \<Rightarrow> caldav_request \<Rightarrow> ('s dav_state, unit) go" where
  "handleReport cv r = go_bind (lift (DecodeXMLRequest r (cb_report (dq_more r)))) (\<lambda>report. case report of
      ReportQuery query \<Rightarrow> handleQuery cv r query
    | ReportMultiget multiget \<Rightarrow> handleMultiget cv r multiget
    | ReportOther \<Rightarrow> throw (HTTPErrorf StatusBadRequest ''caldav: expected calendar-query or calendar-multiget element in REPORT request''))"

definition trimmed_prefix :: "string \<Rightarrow> string" where
  "trimmed_prefix p = (if p \<noteq> [] \<and> last p = CHR ''/'' then butlast p else p)"

definition caldav_ServeHTTP :: "(goerr \<Rightarrow> string) \<Rightarrow> ('s, 'r) caldav \<Rightarrow> caldav_request \<Rightarrow> ('s dav_state, unit) go" where
  "caldav_ServeHTTP text cv r w =
     (if dq_path r = ''/.well-known/caldav'' then
        (case CurrentUserPrincipal (dq_user r) of
           Ok principalPath \<Rightarrow> (Ok (), http_Redirect principalPath 308 w)
         | _ \<Rightarrow> (Ok (), http_Error ''caldav: failed to determine current user principal'' StatusInternalServerError w))
      else if dq_method r = ''REPORT'' then serve_errors text (handleReport cv r) w
      else DavHandler_ServeHTTP text (caldav_backend (cv\<lparr>cv_prefix := trimmed_prefix (cv_prefix cv)\<rparr>)) r w)"

section \<open>Requests to the store in memory\<close>

text \<open>An answer that nothing was written to.\<close>

definition unanswered :: "'s \<Rightarrow> 's dav_state" where
  "unanswered s = \<lparr>resp_status = None, resp_location = [], resp_body = [], ds_headers = [], ds_multi = None, ds_data = None, ds_store = s\<rparr>"

definition served :: "(goerr \<Rightarrow> string) \<Rightarrow> ('s, 'r) caldav \<Rightarrow> caldav_request \<Rightarrow> 's \<Rightarrow> unit outcome \<times> 's dav_state" where
  "served msg cv r s = caldav_ServeHTTP msg cv r (unanswered s)"

lemma unanswered_simps [simp]:
  "resp_status (unanswered s) = None" "ds_store (unanswered s) = s" "ds_headers (unanswered s) = []"
  by (simp_all add: unanswered_def)

lemma WriteHeader_dav [simp]:
  "ds_store (WriteHeader c w) = ds_store w" "ds_headers (WriteHeader c w) = ds_headers w"
  "resp_status w = None \<Longrightarrow> resp_status (WriteHeader c w) = Some c"
  by (simp_all add: WriteHeader_def split: option.splits)

lemmas serving = served_def caldav_ServeHTTP_def DavHandler_ServeHTTP_def dispatch_method_def caldav_backend_def serve_errors_def on_store_def
  go_bind_def Let_def

lemma backend_prefix [simp]:
  "caldav_HeadGet (cv\<lparr>cv_prefix := p\<rparr>) = caldav_HeadGet cv" "caldav_Put (cv\<lparr>cv_prefix := p\<rparr>) = caldav_Put cv"
  "caldav_Delete (cv\<lparr>cv_prefix := p\<rparr>) = caldav_Delete cv"
  by (auto simp: fun_eq_iff caldav_HeadGet_def caldav_Put_def caldav_Delete_def object_data_def object_headers_def
      cong: if_cong option.case_cong outcome.case_cong)

lemma GET_found:
  assumes "dq_method r = ''GET''" "dq_path r \<noteq> ''/.well-known/caldav''"
    and "Backend_GetCalendarObject (cv_backend cv) (dq_path r) s = (Ok co, s')" "object_data cv co = Ok data"
  shows "\<exists>w. served msg cv r s = (Ok (), w) \<and> resp_status w = Some 200 \<and> ds_data w = Some data \<and> ds_store w = s'"
  using assms by (simp add: serving caldav_HeadGet_def StatusOK_def)

lemma GET_failed:
  assumes "dq_method r = ''GET''" "dq_path r \<noteq> ''/.well-known/caldav''"
    and "Backend_GetCalendarObject (cv_backend cv) (dq_path r) s = (Err e, s')"
  shows "\<exists>w. served msg cv r s = (Ok (), w) \<and> resp_status w = Some (HTTPErrorFromError e) \<and> ds_store w = s'"
  using assms by (simp add: serving caldav_HeadGet_def)

lemma PUT_served:
  assumes "dq_method r = ''PUT''" "dq_path r \<noteq> ''/.well-known/caldav''" "dq_media r = Ok MIMEType"
    and "cb_calendar (dq_more r) = Ok cal" "cb_close (dq_more r) = Ok ()"
    and "Backend_PutCalendarObject (cv_backend cv) (cv_now cv) (dq_path r) (Some cal)
      (Some \<lparr>po_IfMatch = header_Get r ''If-Match'', po_IfNoneMatch = header_Get r ''If-None-Match''\<rparr>) s = (res, s')"
  shows "ds_store (snd (served msg cv r s)) = s' \<and>
    (case res of Ok co \<Rightarrow> fst (served msg cv r s) = Ok () \<and> resp_status (snd (served msg cv r s)) = Some 201 \<and>
          ds_headers (snd (served msg cv r s)) = object_headers cv co @ (if co_Path co \<noteq> [] then [(''Location'', co_Path co)] else [])
      | Err e \<Rightarrow> fst (served msg cv r s) = Ok () \<and> resp_status (snd (served msg cv r s)) = Some (HTTPErrorFromError e)
      | _ \<Rightarrow> resp_status (snd (served msg cv r s)) = None)"
  using assms by (cases res) (simp_all add: serving caldav_Put_def put_closed_def)

lemma DELETE_served:
  assumes "dq_method r = ''DELETE''" "dq_path r \<noteq> ''/.well-known/caldav''"
    and "Backend_DeleteCalendarObject (cv_backend cv) (dq_path r) s = (Ok (), s')"
  shows "\<exists>w. served msg cv r s = (Ok (), w) \<and> resp_status w = Some 204 \<and> ds_store w = s'"
  using assms by (simp add: serving caldav_Delete_def write_header_def)

text \<open>Requests for an object: a calendar is put under the path itself, the others may spell it differently.\<close>

definition puts :: "caldav_request \<Rightarrow> string \<Rightarrow> IcsCalendar \<Rightarrow> bool" where
  "puts r path cal \<longleftrightarrow> dq_method r = ''PUT'' \<and> dq_path r = path \<and> path \<noteq> ''/.well-known/caldav'' \<and> dq_media r = Ok MIMEType \<and>
     cb_calendar (dq_more r) = Ok cal \<and> cb_close (dq_more r) = Ok ()"

definition asks :: "string \<Rightarrow> caldav_request \<Rightarrow> string \<Rightarrow> bool" where
  "asks meth r path \<longleftrightarrow> dq_method r = meth \<and> normalizePath (dq_path r) = path \<and> dq_path r \<noteq> ''/.well-known/caldav''"

lemma put_again:
  assumes "be_store (cv_backend cv) = Mem_Store" "map_of (mem_objects m) path = Some old" "normalizePath path = path"
    and "ics_Serialize (be_ics (cv_backend cv)) cal = Ok data" "puts r path cal"
  shows "resp_status (snd (served msg cv r m)) \<noteq> Some 201 \<and> ds_store (snd (served msg cv r m)) = m"
proof -
  let ?opts = "Some \<lparr>po_IfMatch = header_Get r ''If-Match'', po_IfNoneMatch = header_Get r ''If-None-Match''\<rparr>"
  obtain res where res: "Backend_PutCalendarObject (cv_backend cv) (cv_now cv) path (Some cal) ?opts m = (res, m)"
    "\<forall>x. res \<noteq> Ok x" "\<forall>e. res = Err e \<longrightarrow> HTTPErrorFromError e \<noteq> 201"
    unfolding mem_put_old [OF assms(1-4)]
    by (simp add: HTTPErrorFromError_def ErrCalendarObjectAlreadyExists_def ErrETagDidNotMatch_def Cal_Store.ErrAlreadyExists_def StatusInternalServerError_def
        split: outcome.splits bool.splits)
  then show ?thesis using PUT_served [of r cal cv m res m msg] assms(5)
    by (cases res) (simp_all add: puts_def)
qed

text \<open>
  C40. Calendar objects through the server, over the store in memory. A request of any user that puts a calendar
  under a clean path without an object is answered with 201 and the path as the location, whatever its
  conditions are; afterwards a request of any user for any spelling of the path is answered with 200 and the
  text of the calendar, and a second put is not answered with 201 and changes nothing; a request of
  any user to delete the object is answered with 204 and leaves the objects there were, and then a request for the
  object is answered with 500, since the error of the store has no status.
\<close>

theorem calendar_requests:
  assumes "be_store (cv_backend cv) = Mem_Store" "mem_wf m" "map_of (mem_objects m) path = None" "normalizePath path = path" "path \<noteq> []"
    and "ics_Serialize (be_ics (cv_backend cv)) cal = Ok data" "ics_Parse (be_ics (cv_backend cv)) data = Ok cal"
    and "puts put path cal" "puts put' path cal" "asks ''GET'' get path" "asks ''DELETE'' del path"
  shows "\<exists>w. served msg cv put m = (Ok (), w) \<and> resp_status w = Some 201 \<and> (''Location'', path) \<in> set (ds_headers w) \<and>
    (\<exists>w2. served msg cv get (ds_store w) = (Ok (), w2) \<and> resp_status w2 = Some 200 \<and> ds_data w2 = Some data \<and> ds_store w2 = ds_store w) \<and>
    (resp_status (snd (served msg cv put' (ds_store w))) \<noteq> Some 201 \<and> ds_store (snd (served msg cv put' (ds_store w))) = ds_store w) \<and>
    (\<exists>w3. served msg cv del (ds_store w) = (Ok (), w3) \<and> resp_status w3 = Some 204 \<and> mem_objects (ds_store w3) = mem_objects m \<and>
      (\<exists>w4. served msg cv get (ds_store w3) = (Ok (), w4) \<and> resp_status w4 = Some 500 \<and> ds_store w4 = ds_store w3))"
proof -
  let ?b = "cv_backend cv"
  let ?ob = "\<lparr>ob_Path = path, ob_ModTime = cv_now cv, ob_Data = data, ob_ETag = HashBytes (be_md5 ?b) data\<rparr>"
  let ?co = "\<lparr>co_Path = path, co_ModTime = cv_now cv, co_ContentLength = int (length data), co_ETag = HashBytes (be_md5 ?b) data, co_Data = Some cal\<rparr>"
  let ?m' = "m\<lparr>mem_objects := AList.update path ?ob (mem_objects m)\<rparr>"
  note put = mem_put_new [OF assms(1,3,4,6,7), of "cv_now cv"]
  have ob: "map_of (mem_objects ?m') path = Some ?ob" by (simp add: update_conv')
  have one: "ds_store (snd (served msg cv put m)) = ?m' \<and> fst (served msg cv put m) = Ok () \<and> resp_status (snd (served msg cv put m)) = Some 201 \<and>
      (''Location'', path) \<in> set (ds_headers (snd (served msg cv put m)))"
    using PUT_served [of put cal cv m "Ok ?co" ?m' msg] assms(5,8) put by (simp add: puts_def)
  have get: "normalizePath (dq_path get) = path" "normalizePath (dq_path del) = path" using assms(10,11) by (simp_all add: asks_def)
  note found = mem.put_get [OF assms(1,2) put get(1)]
  have two: "\<exists>w2. served msg cv get ?m' = (Ok (), w2) \<and> resp_status w2 = Some 200 \<and> ds_data w2 = Some data \<and> ds_store w2 = ?m'"
    using GET_found [of get cv ?m' ?co ?m' data msg] assms(6,10) conjunct2 [OF found] by (simp add: asks_def object_data_def)
  have three: "resp_status (snd (served msg cv put' ?m')) \<noteq> Some 201 \<and> ds_store (snd (served msg cv put' ?m')) = ?m'"
    by (rule put_again [OF assms(1) ob assms(4,6,9)])
  have "map_of (mem_objects ?m') (normalizePath (dq_path get)) = Some ?ob" using ob get(1) by simp
  note gone = mem.delete_get [OF assms(1) conjunct1 [OF found] this]
  have absent: "path \<notin> fst ` set (mem_objects m)" using assms(3) by (simp add: map_of_eq_None_iff)
  let ?d = "?m'\<lparr>mem_objects := mem_objects m\<rparr>"
  have del: "Backend_DeleteCalendarObject ?b q ?m' = (Ok (), ?d)" if "normalizePath q = path" for q
    using that ob assms(1) absent
    by (simp add: Backend_DeleteCalendarObject_def Mem_Store_def Mem_DeleteCalendarObject_def delete_update_same)
  obtain w3 where w3: "served msg cv del ?m' = (Ok (), w3)" "resp_status w3 = Some 204" "ds_store w3 = ?d"
    using DELETE_served [of del cv ?m' ?d msg] assms(11) del [OF get(2)] by (auto simp: asks_def)
  have "Backend_GetCalendarObject ?b (dq_path get) ?d = (Err (Wrapped ''error while fetching calendar object from storage'' ErrCalendarObjectNotFound), ?d)"
    using gone del [OF get(1)] by simp
  then have "\<exists>w4. served msg cv get ?d = (Ok (), w4) \<and> resp_status w4 = Some 500 \<and> ds_store w4 = ?d"
    using GET_failed [of get cv ?d _ ?d msg] assms(10)
    by (fastforce simp: asks_def HTTPErrorFromError_def ErrCalendarObjectNotFound_def Cal_Store.ErrNotFound_def StatusInternalServerError_def)
  then show ?thesis using one two three w3
    by (intro exI [of _ "snd (served msg cv put m)"]) (auto simp: prod_eq_iff)
qed

definition ex_request :: "string \<Rightarrow> string \<Rightarrow> string option \<Rightarrow> caldav_request" where
  "ex_request meth path user = \<lparr>dq_method = meth, dq_path = path, dq_headers = [], dq_media = Ok MIMEType, dq_empty = False,
     dq_propfind = Err (PlainError ''EOF''), dq_update = Err (PlainError ''EOF''), dq_url = Ok, dq_user = user,
     dq_more = \<lparr>cb_report = Err (PlainError ''EOF''), cb_mkcol = Err (PlainError ''EOF''), cb_mkcalendar = Err (PlainError ''EOF''), cb_calendar = Ok ex_cal, cb_close = Ok ()\<rparr>\<rparr>"

definition ex_caldav :: "(Mem, unit) caldav" where
  "ex_caldav = \<lparr>cv_backend = ex_backend, cv_rrule = \<lparr>rl_StrToRRule = (\<lambda>s. Ok ()), rl_Between = (\<lambda>rs d ds es s e. [])\<rparr>,
     cv_lib = \<lparr>cl_quote = (\<lambda>s. s), cl_FormatInt = (\<lambda>n. []), cl_TimeFormat = (\<lambda>d. []), cl_order = (\<lambda>ns. ns)\<rparr>, cv_prefix = [], cv_now = 7\<rparr>"

text \<open>One user puts an object, another one reads and deletes it.\<close>

theorem calendar_requests_witness:
  "\<exists>w. served (\<lambda>e. []) ex_caldav (ex_request ''PUT'' ''/u/calendars/w/a.ics'' (Some ''u'')) NewMem = (Ok (), w) \<and> resp_status w = Some 201 \<and>
    (\<exists>w2. served (\<lambda>e. []) ex_caldav (ex_request ''GET'' ''/u/calendars//w/a.ics/'' (Some ''v'')) (ds_store w) = (Ok (), w2) \<and> ds_data w2 = Some [1]) \<and>
    (\<exists>w3. served (\<lambda>e. []) ex_caldav (ex_request ''DELETE'' ''/u/calendars/w/a.ics'' (Some ''v'')) (ds_store w) = (Ok (), w3) \<and> resp_status w3 = Some 204)"
proof -
  have norm: "normalizePath ''/u/calendars/w/a.ics'' = ''/u/calendars/w/a.ics''" "normalizePath ''/u/calendars//w/a.ics/'' = ''/u/calendars/w/a.ics''"
    by code_simp+
  have "be_store (cv_backend ex_caldav) = Mem_Store" "mem_wf NewMem" "map_of (mem_objects NewMem) ''/u/calendars/w/a.ics'' = None"
    "ics_Serialize (be_ics (cv_backend ex_caldav)) ex_cal = Ok [1]" "ics_Parse (be_ics (cv_backend ex_caldav)) [1] = Ok ex_cal"
    by (simp_all add: ex_caldav_def ex_backend_def mem_wf_def NewMem_def)
  moreover have "puts (ex_request ''PUT'' ''/u/calendars/w/a.ics'' u) ''/u/calendars/w/a.ics'' ex_cal"
    "asks ''GET'' (ex_request ''GET'' ''/u/calendars//w/a.ics/'' u) ''/u/calendars/w/a.ics''"
    "asks ''DELETE'' (ex_request ''DELETE'' ''/u/calendars/w/a.ics'' u) ''/u/calendars/w/a.ics''" for u
    using norm by (simp_all add: puts_def asks_def ex_request_def)
  ultimately show ?thesis
    using calendar_requests [of ex_caldav NewMem "''/u/calendars/w/a.ics''" ex_cal "[1]" "ex_request ''PUT'' ''/u/calendars/w/a.ics'' (Some ''u'')"
        "ex_request ''PUT'' ''/u/calendars/w/a.ics'' (Some ''v'')" "ex_request ''GET'' ''/u/calendars//w/a.ics/'' (Some ''v'')"
        "ex_request ''DELETE'' ''/u/calendars/w/a.ics'' (Some ''v'')" "\<lambda>e. []"] norm(1) by blast
qed

end
