(* ===== verification/Run_Services.thy ===== *)
theory Run_Services
  imports Go_Prelude
begin

text \<open>
  The start-up of services, \<^verbatim>\<open>lib/run\<close>, as a state machine: \<^verbatim>\<open>Run\<close> starts one service after the other
  and waits for each to notify, the goroutines \<^verbatim>\<open>watch\<close> run the services, and services call \<^verbatim>\<open>Notify\<close>
  and end as they like. The steps interleave in any order; a timer may fire as soon as it runs.
\<close>

section \<open>The state\<close>

definition ErrOtherService :: goerr where "ErrOtherService = PlainError ''terminating as other service failed''"
definition ErrPanic :: goerr where "ErrPanic = PlainError ''caught panic''"
definition ErrTimeout :: goerr where "ErrTimeout = PlainError ''timed out''"

text \<open>The channel of capacity one that a service notifies through holds an error or none.\<close>

record notify =
  nt_ch :: "goerr option list"
  nt_sent :: bool

datatype watch_state =
    Idle
  | Executing
  | Reporting goerr
  | Ended

record service =
  sv_name :: string
  sv_notify :: notify
  sv_watch :: watch_state

record Run =
  rn_services :: "service list"
  rn_current :: nat
  rn_cancelled :: bool
  rn_result :: "unit outcome option"

definition new_notify :: notify where
  "new_notify = \<lparr>nt_ch = [], nt_sent = False\<rparr>"

definition NewRun :: Run where
  "NewRun = \<lparr>rn_services = [], rn_current = 0, rn_cancelled = False, rn_result = None\<rparr>"

definition Run_Add :: "string \<Rightarrow> Run \<Rightarrow> Run" where
  "Run_Add name r = r\<lparr>rn_services := rn_services r @ [\<lparr>sv_name = name, sv_notify = new_notify, sv_watch = Idle\<rparr>]\<rparr>"

section \<open>Notifications\<close>

definition notify_Notify :: "notify \<Rightarrow> notify" where
  "notify_Notify n = \<lparr>nt_ch = (if length (nt_ch n) < 1 then nt_ch n @ [None] else nt_ch n), nt_sent = True\<rparr>"

text \<open>Sending an error waits for room, which is there while nothing was sent.\<close>

definition notify_notifyError :: "goerr \<Rightarrow> notify \<Rightarrow> notify option" where
  "notify_notifyError err n = (if length (nt_ch n) < 1 then Some (n\<lparr>nt_ch := nt_ch n @ [Some err]\<rparr>) else None)"

section \<open>The goroutine of a service\<close>

text \<open>How a service ends: with an error or none, or with a panic, which is recovered.\<close>

definition runnable_wrap :: "unit outcome \<Rightarrow> goerr option" where
  "runnable_wrap res = (case res of
      Ok _ \<Rightarrow> None
    | Err e \<Rightarrow> Some e
    | Panic p \<Rightarrow> Some (Wrapped ''error in component'' ErrPanic)
    | Diverge \<Rightarrow> None)"

definition runnable_watch :: "unit outcome \<Rightarrow> service \<Rightarrow> service option" where
  "runnable_watch res svc = (case runnable_wrap res of
      None \<Rightarrow> Some (svc\<lparr>sv_watch := Ended\<rparr>)
    | Some err \<Rightarrow>
        if \<not> nt_sent (sv_notify svc)
        then map_option (\<lambda>n. svc\<lparr>sv_notify := n, sv_watch := Ended\<rparr>) (notify_notifyError err (sv_notify svc))
        else Some (svc\<lparr>sv_watch := Reporting err\<rparr>))"

definition on_service :: "nat \<Rightarrow> (service \<Rightarrow> service) \<Rightarrow> Run \<Rightarrow> Run" where
  "on_service i f r = r\<lparr>rn_services := (rn_services r)[i := f (rn_services r ! i)]\<rparr>"

section \<open>The start-up\<close>

definition finish_run :: "unit outcome \<Rightarrow> Run \<Rightarrow> Run" where
  "finish_run res r = r\<lparr>rn_result := Some res, rn_cancelled := True\<rparr>"

definition startup_error :: "goerr \<Rightarrow> goerr" where
  "startup_error err = Wrapped ''error while starting service'' err"

definition startup_timeout :: goerr where
  "startup_timeout = Wrapped ''service failed to start'' ErrTimeout"

text \<open>What \<^verbatim>\<open>startup\<close> makes of a notification of the service it waits for.\<close>

definition startup_received :: "goerr option \<Rightarrow> nat \<Rightarrow> Run \<Rightarrow> Run" where
  "startup_received x i r =
     (let r' = on_service i (sv_notify_update (nt_ch_update (\<lambda>_. []))) r in
      case x of None \<Rightarrow> r'\<lparr>rn_current := Suc i\<rparr> | Some err \<Rightarrow> finish_run (Err (startup_error err)) r')"

datatype label =
    LStart nat
  | LNotify nat
  | LExit nat "unit outcome"
  | LReceived nat
  | LTimeout nat
  | LReport nat goerr
  | LCancel
  | LStop

inductive run_step :: "Run \<Rightarrow> label \<Rightarrow> Run \<Rightarrow> bool" where
  Start: "rn_result r = None \<Longrightarrow> rn_current r = i \<Longrightarrow> i < length (rn_services r) \<Longrightarrow> sv_watch (rn_services r ! i) = Idle \<Longrightarrow>
    run_step r (LStart i) (on_service i (sv_watch_update (\<lambda>_. Executing)) r)"
| Notify: "i < length (rn_services r) \<Longrightarrow> sv_watch (rn_services r ! i) = Executing \<Longrightarrow>
    run_step r (LNotify i) (on_service i (sv_notify_update notify_Notify) r)"
| Exit: "i < length (rn_services r) \<Longrightarrow> sv_watch (rn_services r ! i) = Executing \<Longrightarrow> res \<noteq> Diverge \<Longrightarrow>
    runnable_watch res (rn_services r ! i) = Some svc \<Longrightarrow> run_step r (LExit i res) (on_service i (\<lambda>_. svc) r)"
| Received: "rn_result r = None \<Longrightarrow> rn_current r = i \<Longrightarrow> i < length (rn_services r) \<Longrightarrow> nt_ch (sv_notify (rn_services r ! i)) = [x] \<Longrightarrow>
    run_step r (LReceived i) (startup_received x i r)"
| Timeout: "rn_result r = None \<Longrightarrow> rn_current r = i \<Longrightarrow> i < length (rn_services r) \<Longrightarrow> sv_watch (rn_services r ! i) \<noteq> Idle \<Longrightarrow>
    run_step r (LTimeout i) (finish_run (Err (startup_error startup_timeout)) r)"
| Report: "rn_result r = None \<Longrightarrow> rn_current r = length (rn_services r) \<Longrightarrow> i < length (rn_services r) \<Longrightarrow>
    sv_watch (rn_services r ! i) = Reporting err \<Longrightarrow>
    run_step r (LReport i err) (finish_run (Err err) (on_service i (sv_watch_update (\<lambda>_. Ended)) r))"
| Cancel: "run_step r LCancel (r\<lparr>rn_cancelled := True\<rparr>)"
| Stop: "rn_result r = None \<Longrightarrow> rn_current r = length (rn_services r) \<Longrightarrow> rn_cancelled r \<Longrightarrow> run_step r LStop (finish_run (Ok ()) r)"

inductive_cases run_stepE: "run_step r l r'"

inductive run_steps :: "Run \<Rightarrow> label list \<Rightarrow> Run \<Rightarrow> bool" for r where
  none: "run_steps r [] r"
| snoc: "run_steps r tr r' \<Longrightarrow> run_step r' l r'' \<Longrightarrow> run_steps r (tr @ [l]) r''"

section \<open>Combined services\<close>

text \<open>
  Several services that notify as one: every call of \<^verbatim>\<open>Notify\<close> adds to a counter and then reads it,
  and other calls may come in between; who reads the total notifies below.
\<close>

record combinedNotify =
  cb_total :: "64 word"
  cb_counter :: "64 word"
  cb_lower :: nat

definition combinedNotify_Add :: "combinedNotify \<Rightarrow> combinedNotify" where
  "combinedNotify_Add n = n\<lparr>cb_counter := cb_counter n + 1\<rparr>"

definition combinedNotify_Load :: "combinedNotify \<Rightarrow> combinedNotify" where
  "combinedNotify_Load n = (if cb_counter n = cb_total n then n\<lparr>cb_lower := Suc (cb_lower n)\<rparr> else n)"

definition combinedNotify_Notify :: "combinedNotify \<Rightarrow> combinedNotify" where
  "combinedNotify_Notify n = combinedNotify_Load (combinedNotify_Add n)"

definition Combine :: "'a list \<Rightarrow> combinedNotify" where
  "Combine runnables = \<lparr>cb_total = of_nat (length runnables), cb_counter = 0, cb_lower = 0\<rparr>"

text \<open>
  The results of the services in the order in which they end: the group returns the first error when
  all have ended, and the first error also cancels the others' context with its cause.
\<close>

fun first_error :: "unit outcome list \<Rightarrow> goerr option" where
  "first_error [] = None"
| "first_error (Err e # rs) = Some e"
| "first_error (r # rs) = first_error rs"

definition CombinedRun_Run :: "unit outcome list \<Rightarrow> unit outcome" where
  "CombinedRun_Run results = (case first_error results of None \<Rightarrow> Ok () | Some e \<Rightarrow> Err e)"

definition CombinedRun_cause :: "unit outcome list \<Rightarrow> goerr option" where
  "CombinedRun_cause results = map_option (Wrapped ''other Runnable failed with'') (first_error results)"

section \<open>The invariant\<close>

definition failed :: "label list \<Rightarrow> nat \<Rightarrow> goerr \<Rightarrow> bool" where
  "failed tr i e \<longleftrightarrow> (\<exists>res. LExit i res \<in> set tr \<and> runnable_wrap res = Some e)"

definition svc_ok :: "label list \<Rightarrow> nat \<Rightarrow> service \<Rightarrow> bool" where
  "svc_ok tr i svc \<longleftrightarrow>
     (nt_sent (sv_notify svc) \<longleftrightarrow> LNotify i \<in> set tr) \<and> length (nt_ch (sv_notify svc)) \<le> 1 \<and>
     (\<forall>x \<in> set (nt_ch (sv_notify svc)). case x of None \<Rightarrow> nt_sent (sv_notify svc) | Some e \<Rightarrow> failed tr i e) \<and>
     (sv_watch svc = Idle \<longrightarrow> nt_ch (sv_notify svc) = []) \<and>
     (sv_watch svc = Executing \<longrightarrow> \<not> nt_sent (sv_notify svc) \<longrightarrow> nt_ch (sv_notify svc) = []) \<and>
     (\<forall>e. sv_watch svc = Reporting e \<longrightarrow> failed tr i e)"

definition result_ok :: "label list \<Rightarrow> Run \<Rightarrow> bool" where
  "result_ok tr r \<longleftrightarrow> (case rn_result r of
      None \<Rightarrow> rn_cancelled r \<longrightarrow> LCancel \<in> set tr
    | Some (Ok _) \<Rightarrow> rn_current r = length (rn_services r) \<and> LCancel \<in> set tr
    | Some (Err e) \<Rightarrow> (\<exists>i. LTimeout i \<in> set tr \<and> e = startup_error startup_timeout) \<or>
        (\<exists>i e'. failed tr i e' \<and> (e = e' \<or> e = startup_error e'))
    | Some _ \<Rightarrow> False)"

definition run_inv :: "nat \<Rightarrow> label list \<Rightarrow> Run \<Rightarrow> bool" where
  "run_inv n tr r \<longleftrightarrow> length (rn_services r) = n \<and> rn_current r \<le> n \<and>
     (\<forall>i < n. svc_ok tr i (rn_services r ! i)) \<and>
     (\<forall>i < n. sv_watch (rn_services r ! i) \<noteq> Idle \<longrightarrow> i \<le> rn_current r) \<and>
     (\<forall>i < rn_current r. LNotify i \<in> set tr) \<and> result_ok tr r"

lemma failed_snoc: "failed tr i e \<Longrightarrow> failed (tr @ [l]) i e"
  by (auto simp: failed_def)

lemma svc_ok_snoc: "svc_ok tr i svc \<Longrightarrow> l \<noteq> LNotify i \<Longrightarrow> svc_ok (tr @ [l]) i svc"
  unfolding svc_ok_def by (auto intro: failed_snoc split: option.splits)

lemma result_ok_snoc: "result_ok tr r \<Longrightarrow> rn_result r' = rn_result r \<Longrightarrow> rn_current r' = rn_current r \<or> rn_result r = None \<Longrightarrow>
    length (rn_services r') = length (rn_services r) \<Longrightarrow> rn_cancelled r' = rn_cancelled r \<Longrightarrow> result_ok (tr @ [l]) r'"
  by (fastforce simp: result_ok_def intro: failed_snoc split: option.splits outcome.splits)

lemma services_snoc:
  assumes "\<forall>i < n. svc_ok tr i (ss ! i)" "length ss = n" "svc_ok (tr @ [l]) j (f (ss ! j))" "\<forall>i. l = LNotify i \<longrightarrow> i = j" "i < n"
  shows "svc_ok (tr @ [l]) i (ss[j := f (ss ! j)] ! i)"
  using assms svc_ok_snoc [of tr i "ss ! i" l] by (cases "i = j") auto

lemma watch_ok:
  assumes "svc_ok tr i svc" "sv_watch svc = Executing" "runnable_watch res svc = Some svc'"
  shows "svc_ok (tr @ [LExit i res]) i svc' \<and> sv_watch svc' \<noteq> Idle"
proof -
  have "failed (tr @ [LExit i res]) i e" if "runnable_wrap res = Some e" for e using that by (auto simp: failed_def)
  then show ?thesis using svc_ok_snoc [OF assms(1), of "LExit i res"] assms(2,3)
    by (auto simp: svc_ok_def runnable_watch_def notify_notifyError_def split: option.splits if_splits)
qed

lemma notify_ok:
  assumes "svc_ok tr i svc" "sv_watch svc = Executing"
  shows "svc_ok (tr @ [LNotify i]) i (sv_notify_update notify_Notify svc)"
proof -
  have "case x of None \<Rightarrow> True | Some e \<Rightarrow> failed (tr @ [LNotify i]) i e" if "x \<in> set (nt_ch (sv_notify svc))" for x
    using assms(1) that failed_snoc by (cases x) (force simp: svc_ok_def)+
  then show ?thesis using assms by (cases "nt_ch (sv_notify svc)") (auto simp: svc_ok_def notify_Notify_def split: option.splits)
qed

lemma service_step_inv:
  assumes "run_inv n tr r" "i < n" "svc_ok (tr @ [l]) i (f (rn_services r ! i))" "\<forall>k. l = LNotify k \<longrightarrow> k = i"
    and "sv_watch (f (rn_services r ! i)) \<noteq> Idle \<longrightarrow> i \<le> rn_current r"
  shows "run_inv n (tr @ [l]) (on_service i f r)"
proof -
  let ?ss = "(rn_services r)[i := f (rn_services r ! i)]"
  have len: "length (rn_services r) = n" using assms(1) by (simp add: run_inv_def)
  have "svc_ok (tr @ [l]) k (?ss ! k)" if "k < n" for k
    using assms(1,3,4) that len by (intro services_snoc) (auto simp: run_inv_def)
  moreover have "sv_watch (?ss ! k) \<noteq> Idle \<longrightarrow> k \<le> rn_current r" if "k < n" for k
    using assms(1,2,5) that len by (cases "k = i") (auto simp: run_inv_def)
  moreover have "result_ok (tr @ [l]) (on_service i f r)"
    using assms(1) by (intro result_ok_snoc [of tr r]) (auto simp: run_inv_def on_service_def)
  ultimately show ?thesis using assms(1) by (simp add: run_inv_def on_service_def)
qed

lemma run_step_inv:
  assumes "run_step r l r'" "run_inv n tr r"
  shows "run_inv n (tr @ [l]) r'"
  using assms(1)
proof (cases rule: run_step.cases)
  case (Start i)
  have "svc_ok (tr @ [l]) i ((rn_services r ! i)\<lparr>sv_watch := Executing\<rparr>)"
    using assms(2) Start svc_ok_snoc [of tr i "rn_services r ! i" l] by (auto simp: run_inv_def svc_ok_def)
  then show ?thesis unfolding Start(2) using assms(2) Start by (intro service_step_inv) (auto simp: run_inv_def)
next
  case (Notify i)
  have "svc_ok tr i (rn_services r ! i)" using assms(2) Notify by (simp add: run_inv_def)
  from notify_ok [OF this Notify(4)] show ?thesis unfolding Notify(1,2)
    using assms(2) Notify(3,4) by (intro service_step_inv) (auto simp: run_inv_def)
next
  case (Exit i res svc)
  have ok: "svc_ok tr i (rn_services r ! i)" using assms(2) Exit by (simp add: run_inv_def)
  have "i \<le> rn_current r" using assms(2) Exit(3,4) by (auto simp: run_inv_def)
  then show ?thesis unfolding Exit(1,2) using watch_ok [OF ok Exit(4,6)] assms(2) Exit(3)
    by (intro service_step_inv) (auto simp: run_inv_def)
next
  case (Received i x)
  have ok: "svc_ok tr i (rn_services r ! i)" using assms(2) Received by (simp add: run_inv_def)
  have "svc_ok (tr @ [l]) i (sv_notify_update (nt_ch_update (\<lambda>_. [])) (rn_services r ! i))"
    using svc_ok_snoc [OF ok, of l] Received by (auto simp: svc_ok_def)
  then have svcs: "svc_ok (tr @ [l]) k ((rn_services r)[i := sv_notify_update (nt_ch_update (\<lambda>_. [])) (rn_services r ! i)] ! k)" if "k < n" for k
    using assms(2) Received that by (intro services_snoc) (auto simp: run_inv_def)
  have watch: "sv_watch ((rn_services r)[i := sv_notify_update (nt_ch_update (\<lambda>_. [])) (rn_services r ! i)] ! k) = sv_watch (rn_services r ! k)" for k
    using Received by (cases "k = i") simp_all
  show ?thesis
  proof (cases x)
    case None
    then have "LNotify i \<in> set tr" using ok Received by (auto simp: svc_ok_def)
    moreover have "result_ok (tr @ [l]) r'"
      using assms(2) Received None by (intro result_ok_snoc [of tr r]) (auto simp: run_inv_def on_service_def startup_received_def Let_def)
    ultimately show ?thesis using assms(2) Received None svcs watch
      by (auto simp: run_inv_def on_service_def startup_received_def Let_def less_Suc_eq)
  next
    case (Some err)
    then have "failed (tr @ [l]) i err" using ok Received by (auto simp: svc_ok_def intro: failed_snoc)
    then show ?thesis using assms(2) Received Some svcs watch
      by (auto simp: run_inv_def on_service_def startup_received_def Let_def finish_run_def result_ok_def)
  qed
next
  case (Timeout i)
  then show ?thesis using assms(2) by (auto simp: run_inv_def finish_run_def result_ok_def svc_ok_snoc)
next
  case (Report i err)
  have ok: "svc_ok tr i (rn_services r ! i)" using assms(2) Report by (simp add: run_inv_def)
  then have fail: "failed (tr @ [l]) i err" using Report by (auto simp: svc_ok_def intro: failed_snoc)
  have "svc_ok (tr @ [l]) i (rn_services r ! i)" using svc_ok_snoc [OF ok, of l] Report by simp
  then have "svc_ok (tr @ [l]) i (sv_watch_update (\<lambda>_. Ended) (rn_services r ! i))"
    unfolding svc_ok_def by (auto split: option.splits)
  then have "run_inv n (tr @ [l]) (on_service i (sv_watch_update (\<lambda>_. Ended)) r)"
    using assms(2) Report by (intro service_step_inv) (auto simp: run_inv_def)
  then show ?thesis using Report fail by (auto simp: run_inv_def on_service_def finish_run_def result_ok_def)
next
  case Cancel
  have "result_ok (tr @ [l]) r'" using assms(2) Cancel
    by (fastforce simp: run_inv_def result_ok_def intro: failed_snoc split: option.splits outcome.splits)
  then show ?thesis using assms(2) Cancel by (auto simp: run_inv_def svc_ok_snoc)
next
  case Stop
  then show ?thesis using assms(2) by (auto simp: run_inv_def finish_run_def result_ok_def svc_ok_snoc)
qed

lemma Add_all: "rn_services (fold Run_Add names r) = rn_services r @ map (\<lambda>name. \<lparr>sv_name = name, sv_notify = new_notify, sv_watch = Idle\<rparr>) names \<and>
    rn_current (fold Run_Add names r) = rn_current r \<and> rn_cancelled (fold Run_Add names r) = rn_cancelled r \<and> rn_result (fold Run_Add names r) = rn_result r"
  by (induction names arbitrary: r) (simp_all add: Run_Add_def)

lemma run_reachable_inv: "run_steps (fold Run_Add names NewRun) tr r \<Longrightarrow> run_inv (length names) tr r"
proof (induction rule: run_steps.induct)
  case none
  then show ?case using Add_all [of names NewRun] by (simp add: run_inv_def NewRun_def svc_ok_def new_notify_def result_ok_def)
next
  case (snoc tr r l r')
  then show ?case using run_step_inv by blast
qed

section \<open>Properties of the start-up\<close>

text \<open>A service that runs can always end: reporting its error never blocks its goroutine before \<^verbatim>\<open>Run\<close> is told.\<close>

lemma watch_never_blocks:
  assumes "run_steps (fold Run_Add names NewRun) tr r" "i < length names" "sv_watch (rn_services r ! i) = Executing"
  shows "\<exists>svc. runnable_watch res (rn_services r ! i) = Some svc"
proof -
  have "svc_ok tr i (rn_services r ! i)" using run_reachable_inv [OF assms(1)] assms(2) by (simp add: run_inv_def)
  then show ?thesis using assms(3) by (auto simp: svc_ok_def runnable_watch_def notify_notifyError_def split: option.splits)
qed

text \<open>A service that neither notifies nor fails, even when it has ended, is given up by the timer alone.\<close>

lemma silent_service_times_out:
  assumes "run_step r l r'" "rn_current r = i" "i < length (rn_services r)" "sv_watch (rn_services r ! i) = Ended"
    and "nt_ch (sv_notify (rn_services r ! i)) = []" "rn_result r = None" "rn_result r' \<noteq> None \<or> rn_current r' \<noteq> i"
  shows "l = LTimeout i"
  using assms by (auto elim!: run_stepE simp: on_service_def)

text \<open>
  C39. Services start in order. However the services interleave with the start-up: a service is only
  started when all services before it have notified; while services are being started the start-up
  can go on, if only by the timer; \<^verbatim>\<open>Run\<close> returns without an error only when every service has
  notified and the context is cancelled; and an error it returns is that of a timer that fired, or
  the error, or the recovered panic, of a service that ended.
\<close>

theorem services_start_in_order:
  assumes "run_steps (fold Run_Add names NewRun) tr r"
  shows "(\<forall>j < length names. sv_watch (rn_services r ! j) \<noteq> Idle \<longrightarrow> (\<forall>i < j. LNotify i \<in> set tr)) \<and>
    (rn_result r = None \<and> rn_current r < length names \<longrightarrow> (\<exists>l r'. run_step r l r' \<and> l \<in> {LStart (rn_current r), LTimeout (rn_current r)})) \<and>
    (rn_result r = Some (Ok ()) \<longrightarrow> (\<forall>i < length names. LNotify i \<in> set tr) \<and> LCancel \<in> set tr) \<and>
    (\<forall>e. rn_result r = Some (Err e) \<longrightarrow>
      (\<exists>i. LTimeout i \<in> set tr \<and> e = startup_error startup_timeout) \<or>
      (\<exists>i res e'. LExit i res \<in> set tr \<and> runnable_wrap res = Some e' \<and> (e = e' \<or> e = startup_error e')))"
proof -
  note inv = run_reachable_inv [OF assms, unfolded run_inv_def]
  have "\<forall>j < length names. sv_watch (rn_services r ! j) \<noteq> Idle \<longrightarrow> (\<forall>i < j. LNotify i \<in> set tr)" using inv by auto
  moreover have "\<exists>l r'. run_step r l r' \<and> l \<in> {LStart (rn_current r), LTimeout (rn_current r)}"
    if "rn_result r = None" "rn_current r < length names"
  proof (cases "sv_watch (rn_services r ! rn_current r) = Idle")
    case True
    then show ?thesis using that inv run_step.Start [of r "rn_current r"] by auto
  next
    case False
    then show ?thesis using that inv run_step.Timeout [of r "rn_current r"] by auto
  qed
  moreover have "rn_result r = Some (Ok ()) \<longrightarrow> (\<forall>i < length names. LNotify i \<in> set tr) \<and> LCancel \<in> set tr"
    using inv by (auto simp: result_ok_def)
  moreover have "\<forall>e. rn_result r = Some (Err e) \<longrightarrow> (\<exists>i. LTimeout i \<in> set tr \<and> e = startup_error startup_timeout) \<or>
      (\<exists>i res e'. LExit i res \<in> set tr \<and> runnable_wrap res = Some e' \<and> (e = e' \<or> e = startup_error e'))"
  proof (intro allI impI)
    fix e assume "rn_result r = Some (Err e)"
    with inv have "(\<exists>i. LTimeout i \<in> set tr \<and> e = startup_error startup_timeout) \<or> (\<exists>i e'. failed tr i e' \<and> (e = e' \<or> e = startup_error e'))"
      by (simp add: result_ok_def)
    then show "(\<exists>i. LTimeout i \<in> set tr \<and> e = startup_error startup_timeout) \<or>
      (\<exists>i res e'. LExit i res \<in> set tr \<and> runnable_wrap res = Some e' \<and> (e = e' \<or> e = startup_error e'))" unfolding failed_def by blast
  qed
  ultimately show ?thesis by blast
qed

lemma run_steps_one: "run_steps r0 tr r \<Longrightarrow> run_step r l r' \<Longrightarrow> tr' = tr @ [l] \<Longrightarrow> run_steps r0 tr' r'"
  by (simp add: run_steps.snoc)

definition ex_svc :: "string \<Rightarrow> goerr option list \<Rightarrow> bool \<Rightarrow> watch_state \<Rightarrow> service" where
  "ex_svc name ch sent w = \<lparr>sv_name = name, sv_notify = \<lparr>nt_ch = ch, nt_sent = sent\<rparr>, sv_watch = w\<rparr>"

text \<open>One service starts, the second panics before it notifies.\<close>

theorem services_start_in_order_witness:
  "\<exists>r. run_steps (fold Run_Add [''a'', ''b''] NewRun) [LStart 0, LNotify 0, LReceived 0, LStart 1, LExit 1 (Panic ''p''), LReceived 1] r \<and>
    rn_result r = Some (Err (startup_error (Wrapped ''error in component'' ErrPanic))) \<and>
    (\<forall>i < 1. LNotify i \<in> set [LStart 0, LNotify 0, LReceived 0, LStart 1, LExit 1 (Panic ''p''), LReceived 1])"
proof -
  let ?s = "\<lambda>a b. \<lparr>rn_services = [a, b], rn_current = 0, rn_cancelled = False, rn_result = None\<rparr>"
  let ?a = "ex_svc ''a''" and ?b = "ex_svc ''b''"
  have "fold Run_Add [''a'', ''b''] NewRun = ?s (?a [] False Idle) (?b [] False Idle)" by code_simp
  then have 0: "run_steps (fold Run_Add [''a'', ''b''] NewRun) [] (?s (?a [] False Idle) (?b [] False Idle))" by (metis run_steps.none)
  note defs = ex_svc_def on_service_def notify_Notify_def startup_received_def finish_run_def Let_def
  have "run_step (?s (?a [] False Idle) (?b [] False Idle)) (LStart 0) (?s (?a [] False Executing) (?b [] False Idle))"
    using run_step.Start [of "?s (?a [] False Idle) (?b [] False Idle)" 0] by (simp add: defs)
  note 1 = run_steps.snoc [OF 0 this]
  have "run_step (?s (?a [] False Executing) (?b [] False Idle)) (LNotify 0) (?s (?a [None] True Executing) (?b [] False Idle))"
    using run_step.Notify [of 0 "?s (?a [] False Executing) (?b [] False Idle)"] by (simp add: defs)
  note 2 = run_steps.snoc [OF 1 this]
  have "run_step (?s (?a [None] True Executing) (?b [] False Idle)) (LReceived 0) ((?s (?a [] True Executing) (?b [] False Idle))\<lparr>rn_current := 1\<rparr>)"
    using run_step.Received [of "?s (?a [None] True Executing) (?b [] False Idle)" 0 None] by (simp add: defs)
  note 3 = run_steps.snoc [OF 2 this]
  have "run_step ((?s (?a [] True Executing) (?b [] False Idle))\<lparr>rn_current := 1\<rparr>) (LStart 1) ((?s (?a [] True Executing) (?b [] False Executing))\<lparr>rn_current := 1\<rparr>)"
    using run_step.Start [of "(?s (?a [] True Executing) (?b [] False Idle))\<lparr>rn_current := 1\<rparr>" 1] by (simp add: defs)
  note 4 = run_steps.snoc [OF 3 this]
  let ?e = "Wrapped ''error in component'' ErrPanic"
  have "runnable_watch (Panic ''p'') (?b [] False Executing) = Some (?b [Some ?e] False Ended)"
    by (simp add: runnable_watch_def runnable_wrap_def notify_notifyError_def ex_svc_def)
  then have "run_step ((?s (?a [] True Executing) (?b [] False Executing))\<lparr>rn_current := 1\<rparr>) (LExit 1 (Panic ''p''))
      ((?s (?a [] True Executing) (?b [Some ?e] False Ended))\<lparr>rn_current := 1\<rparr>)"
    using run_step.Exit [of 1 "(?s (?a [] True Executing) (?b [] False Executing))\<lparr>rn_current := 1\<rparr>" "Panic ''p''" "?b [Some ?e] False Ended"] by (simp add: defs)
  note 5 = run_steps.snoc [OF 4 this]
  have "run_step ((?s (?a [] True Executing) (?b [Some ?e] False Ended))\<lparr>rn_current := 1\<rparr>) (LReceived 1)
      (finish_run (Err (startup_error ?e)) ((?s (?a [] True Executing) (?b [] False Ended))\<lparr>rn_current := 1\<rparr>))"
    using run_step.Received [of "(?s (?a [] True Executing) (?b [Some ?e] False Ended))\<lparr>rn_current := 1\<rparr>" 1 "Some ?e"] by (simp add: defs)
  note 6 = run_steps.snoc [OF 5 this]
  let ?r = "finish_run (Err (startup_error ?e)) ((?s (?a [] True Executing) (?b [] False Ended))\<lparr>rn_current := 1\<rparr>)"
  have r: "rn_result ?r = Some (Err (startup_error ?e))" "sv_watch (rn_services ?r ! 1) \<noteq> Idle" "1 < length [''a'', ''b'']"
    by (simp_all add: finish_run_def ex_svc_def)
  show ?thesis using 6 r services_start_in_order [OF 6] by (intro exI [of _ ?r]) auto
qed

text \<open>
  Combined services notify below once all of them have notified, provided that each does so once: not
  before, and at least once.
\<close>

lemma combined_notifies:
  assumes "length runnables < 2 ^ 64" "k \<le> length runnables"
  shows "(combinedNotify_Notify ^^ k) (Combine runnables) = \<lparr>cb_total = of_nat (length runnables), cb_counter = of_nat k,
    cb_lower = (if k = length runnables \<and> 0 < k then 1 else 0)\<rparr>"
  using assms(2)
proof (induction k)
  case (Suc k)
  have "(of_nat (Suc k) = (of_nat (length runnables) :: 64 word)) \<longleftrightarrow> Suc k = length runnables"
    using assms(1) Suc.prems by (simp del: of_nat_Suc add: word_of_nat_eq_iff take_bit_nat_eq_self)
  with Suc show ?case by (simp add: combinedNotify_Notify_def combinedNotify_Add_def combinedNotify_Load_def add.commute)
qed (simp add: Combine_def)

end
