(* ===== verification/Broker.thy ===== *)
theory Broker
  imports Go_Prelude "HOL-Library.Sublist"
begin

text \<open>
  The publish and subscribe broker of \<^verbatim>\<open>lib/broker\<close>, as a state machine: the broker goroutine, the
  buffered channels of the subscribers, and their goroutines interleave in any order. Channels are
  numbered in the order in which they are made. A rendezvous with \<^verbatim>\<open>Run\<close> is possible while it waits
  in its \<^verbatim>\<open>select\<close>; sending on or closing a closed channel panics.
\<close>

section \<open>The state\<close>

definition bufferSize :: nat where "bufferSize = 5"

record 'm channel =
  cn_buf :: "'m list"
  cn_closed :: bool

datatype phase = Running | Returned | Panicked

record 'm Broker =
  bk_chans :: "'m channel list"
  bk_subs :: "nat list"
  bk_phase :: phase

definition NewBroker :: "'m Broker" where
  "NewBroker = \<lparr>bk_chans = [], bk_subs = [], bk_phase = Running\<rparr>"

definition make_chan :: "'m channel" where
  "make_chan = \<lparr>cn_buf = [], cn_closed = False\<rparr>"

definition on_chan :: "nat \<Rightarrow> ('m channel \<Rightarrow> 'm channel) \<Rightarrow> 'm Broker \<Rightarrow> 'm Broker" where
  "on_chan c f b = b\<lparr>bk_chans := (bk_chans b)[c := f (bk_chans b ! c)]\<rparr>"

section \<open>The broker goroutine\<close>

definition close_chan :: "nat \<Rightarrow> 'm Broker \<Rightarrow> 'm Broker" where
  "close_chan c b = (if cn_closed (bk_chans b ! c) then b\<lparr>bk_phase := Panicked\<rparr> else on_chan c (cn_closed_update (\<lambda>_. True)) b)"

text \<open>The \<^verbatim>\<open>select\<close> with a default: a message for a full buffer is dropped.\<close>

definition offer :: "'m \<Rightarrow> nat \<Rightarrow> 'm Broker \<Rightarrow> 'm Broker" where
  "offer msg c b =
     (if cn_closed (bk_chans b ! c) then b\<lparr>bk_phase := Panicked\<rparr>
      else if length (cn_buf (bk_chans b ! c)) < bufferSize then on_chan c (cn_buf_update (\<lambda>q. q @ [msg])) b
      else b)"

definition Run_sub :: "nat \<Rightarrow> 'm Broker \<Rightarrow> 'm Broker" where
  "Run_sub c b = b\<lparr>bk_subs := (if c \<in> set (bk_subs b) then bk_subs b else bk_subs b @ [c])\<rparr>"

definition Run_unsub :: "nat \<Rightarrow> 'm Broker \<Rightarrow> 'm Broker" where
  "Run_unsub c b = close_chan c (b\<lparr>bk_subs := removeAll c (bk_subs b)\<rparr>)"

definition Run_publish :: "'m \<Rightarrow> 'm Broker \<Rightarrow> 'm Broker" where
  "Run_publish msg b = fold (offer msg) (bk_subs b) b"

definition Run_done :: "'m Broker \<Rightarrow> 'm Broker" where
  "Run_done b = (let b' = fold close_chan (bk_subs b) b in
     if bk_phase b' = Running then b'\<lparr>bk_phase := Returned\<rparr> else b')"

section \<open>The clients\<close>

definition Broker_Subscribe :: "'m Broker \<Rightarrow> 'm Broker" where
  "Broker_Subscribe b = Run_sub (length (bk_chans b)) (b\<lparr>bk_chans := bk_chans b @ [make_chan]\<rparr>)"

datatype 'm label = LSubscribe | LUnsubscribe nat | LPublish 'm | LDone | LReceive nat 'm | LClosed nat

inductive bk_step :: "'m Broker \<Rightarrow> 'm label \<Rightarrow> 'm Broker \<Rightarrow> bool" where
  Subscribe: "bk_phase b = Running \<Longrightarrow> bk_step b LSubscribe (Broker_Subscribe b)"
| Unsubscribe: "bk_phase b = Running \<Longrightarrow> c < length (bk_chans b) \<Longrightarrow> bk_step b (LUnsubscribe c) (Run_unsub c b)"
| Publish: "bk_phase b = Running \<Longrightarrow> bk_step b (LPublish msg) (Run_publish msg b)"
| ContextDone: "bk_phase b = Running \<Longrightarrow> bk_step b LDone (Run_done b)"
| Receive: "bk_phase b \<noteq> Panicked \<Longrightarrow> c < length (bk_chans b) \<Longrightarrow> cn_buf (bk_chans b ! c) = msg # rest \<Longrightarrow>
    bk_step b (LReceive c msg) (on_chan c (cn_buf_update (\<lambda>_. rest)) b)"
| Closed: "bk_phase b \<noteq> Panicked \<Longrightarrow> c < length (bk_chans b) \<Longrightarrow> cn_buf (bk_chans b ! c) = [] \<Longrightarrow> cn_closed (bk_chans b ! c) \<Longrightarrow> bk_step b (LClosed c) b"

inductive_cases bk_stepE: "bk_step b l b'"

inductive bk_steps :: "'m Broker \<Rightarrow> 'm label list \<Rightarrow> 'm Broker \<Rightarrow> bool" for b where
  none: "bk_steps b [] b"
| snoc: "bk_steps b tr b' \<Longrightarrow> bk_step b' l b'' \<Longrightarrow> bk_steps b (tr @ [l]) b''"

text \<open>
  The loop of \<^verbatim>\<open>Iter\<close> over what a channel gives: a message, that it is closed, or that the context is
  done. It ends when one of the latter comes first or the consumer refuses a message; the result is
  what the consumer was given.
\<close>

datatype 'm arrival = Arrived 'm | ChanClosed | CtxDone

fun Subscriber_Iter :: "('m \<Rightarrow> bool) \<Rightarrow> 'm arrival list \<Rightarrow> 'm list" where
  "Subscriber_Iter yield [] = []"
| "Subscriber_Iter yield (Arrived msg # as) = msg # (if yield msg then Subscriber_Iter yield as else [])"
| "Subscriber_Iter yield (ChanClosed # as) = []"
| "Subscriber_Iter yield (CtxDone # as) = []"

section \<open>Traces\<close>

text \<open>
  What a trace says of a channel: the number of channels made, whether it is subscribed, the messages
  published while it was, and the messages received from it.
\<close>

fun made :: "'m label list \<Rightarrow> nat" where
  "made [] = 0"
| "made (LSubscribe # tr) = Suc (made tr)"
| "made (l # tr) = made tr"

text \<open>Channel \<open>c\<close> is subscribed with the subscription number \<open>c\<close>, until it is unsubscribed or the broker ends.\<close>

definition subscribed :: "nat \<Rightarrow> 'm label list \<Rightarrow> bool" where
  "subscribed c tr \<longleftrightarrow> c < made tr \<and> LUnsubscribe c \<notin> set tr \<and> LDone \<notin> set tr"

fun received_by :: "nat \<Rightarrow> 'm label \<Rightarrow> 'm list" where
  "received_by c (LReceive c' msg) = (if c' = c then [msg] else [])"
| "received_by c l = []"

definition received :: "nat \<Rightarrow> 'm label list \<Rightarrow> 'm list" where
  "received c tr = concat (map (received_by c) tr)"

fun publishes :: "bool \<Rightarrow> 'm label \<Rightarrow> 'm list" where
  "publishes on (LPublish msg) = (if on then [msg] else [])"
| "publishes on l = []"

fun published_from :: "nat \<Rightarrow> 'm label list \<Rightarrow> 'm label list \<Rightarrow> 'm list" where
  "published_from c past [] = []"
| "published_from c past (l # tr) = publishes (subscribed c past) l @ published_from c (past @ [l]) tr"

definition published_to :: "nat \<Rightarrow> 'm label list \<Rightarrow> 'm list" where
  "published_to c tr = published_from c [] tr"

lemma made_append [simp]: "made (tr @ tr') = made tr + made tr'"
proof (induction tr)
  case (Cons l tr)
  then show ?case by (cases l) auto
qed simp

lemma received_snoc [simp]: "received c (tr @ [l]) = received c tr @ received_by c l"
  by (simp add: received_def)

lemma published_from_snoc: "published_from c past (tr @ [l]) = published_from c past tr @ publishes (subscribed c (past @ tr)) l"
  by (induction tr arbitrary: past) simp_all

lemma published_to_snoc [simp]: "published_to c (tr @ [l]) = published_to c tr @ publishes (subscribed c tr) l"
  by (simp add: published_to_def published_from_snoc)

section \<open>The invariant\<close>

text \<open>The subscriptions are the open channels; what was received and what is waiting was published, in order.\<close>

definition chan_ok :: "'m label list \<Rightarrow> nat \<Rightarrow> 'm channel \<Rightarrow> bool" where
  "chan_ok tr c ch \<longleftrightarrow> length (cn_buf ch) \<le> bufferSize \<and> cn_closed ch = (\<not> subscribed c tr) \<and>
     subseq (received c tr @ cn_buf ch) (published_to c tr)"

definition bk_inv :: "'m label list \<Rightarrow> 'm Broker \<Rightarrow> bool" where
  "bk_inv tr b \<longleftrightarrow> length (bk_chans b) = made tr \<and>
     (\<forall>c < length (bk_chans b). chan_ok tr c (bk_chans b ! c)) \<and>
     (bk_phase b = Running \<longrightarrow> distinct (bk_subs b) \<and> LDone \<notin> set tr \<and> (\<forall>c. c \<in> set (bk_subs b) \<longleftrightarrow> subscribed c tr))"

lemma offer_loop:
  assumes "distinct xs" "\<forall>c \<in> set xs. c < length (bk_chans b) \<and> \<not> cn_closed (bk_chans b ! c)"
  shows "length (bk_chans (fold (offer msg) xs b)) = length (bk_chans b) \<and> bk_phase (fold (offer msg) xs b) = bk_phase b \<and>
    bk_subs (fold (offer msg) xs b) = bk_subs b \<and>
    (\<forall>c < length (bk_chans b). bk_chans (fold (offer msg) xs b) ! c =
      (if c \<in> set xs \<and> length (cn_buf (bk_chans b ! c)) < bufferSize
       then cn_buf_update (\<lambda>q. q @ [msg]) (bk_chans b ! c) else bk_chans b ! c))"
  using assms
proof (induction xs arbitrary: b)
  case (Cons x xs)
  let ?b = "offer msg x b"
  have b: "length (bk_chans ?b) = length (bk_chans b)" "bk_phase ?b = bk_phase b" "bk_subs ?b = bk_subs b"
    "\<And>c. c < length (bk_chans b) \<Longrightarrow> bk_chans ?b ! c = (if c = x \<and> length (cn_buf (bk_chans b ! c)) < bufferSize
       then cn_buf_update (\<lambda>q. q @ [msg]) (bk_chans b ! c) else bk_chans b ! c)"
    using Cons.prems by (auto simp: offer_def on_chan_def nth_list_update)
  have "\<forall>c \<in> set xs. c < length (bk_chans ?b) \<and> \<not> cn_closed (bk_chans ?b ! c)" using Cons.prems b by auto
  from Cons.IH [OF _ this] Cons.prems(1) b show ?case by auto
qed simp

lemma close_loop:
  assumes "distinct xs" "\<forall>c \<in> set xs. c < length (bk_chans b) \<and> \<not> cn_closed (bk_chans b ! c)"
  shows "length (bk_chans (fold close_chan xs b)) = length (bk_chans b) \<and> bk_phase (fold close_chan xs b) = bk_phase b \<and>
    (\<forall>c < length (bk_chans b). bk_chans (fold close_chan xs b) ! c =
      (if c \<in> set xs then cn_closed_update (\<lambda>_. True) (bk_chans b ! c) else bk_chans b ! c))"
  using assms
proof (induction xs arbitrary: b)
  case (Cons x xs)
  let ?b = "close_chan x b"
  have b: "length (bk_chans ?b) = length (bk_chans b)" "bk_phase ?b = bk_phase b"
    "\<And>c. c < length (bk_chans b) \<Longrightarrow> bk_chans ?b ! c = (if c = x then cn_closed_update (\<lambda>_. True) (bk_chans b ! c) else bk_chans b ! c)"
    using Cons.prems by (auto simp: close_chan_def on_chan_def nth_list_update)
  have "\<forall>c \<in> set xs. c < length (bk_chans ?b) \<and> \<not> cn_closed (bk_chans ?b ! c)" using Cons.prems b by auto
  from Cons.IH [OF _ this] Cons.prems(1) b show ?case by auto
qed simp

text \<open>The past of a channel that is not made yet is empty.\<close>

lemma unmade_received:
  assumes "bk_steps NewBroker tr b"
  shows "length (bk_chans b) = made tr \<and> (made tr \<le> c \<longrightarrow> received c tr = [] \<and> published_to c tr = [] \<and> LUnsubscribe c \<notin> set tr)"
  using assms
proof (induction rule: bk_steps.induct)
  case none
  then show ?case by (simp add: NewBroker_def received_def published_to_def)
next
  case (snoc tr b' l b'')
  have len: "length (bk_chans (fold (offer msg) xs b)) = length (bk_chans b)" for msg xs and b :: "'a Broker"
    by (induction xs arbitrary: b) (simp_all add: offer_def on_chan_def)
  have len2: "length (bk_chans (fold close_chan xs b)) = length (bk_chans b)" for xs and b :: "'a Broker"
    by (induction xs arbitrary: b) (simp_all add: close_chan_def on_chan_def)
  show ?case using snoc.hyps(2) snoc.IH
    by (cases rule: bk_step.cases)
       (auto simp: Broker_Subscribe_def Run_sub_def Run_unsub_def close_chan_def on_chan_def Run_publish_def Run_done_def Let_def len len2 subscribed_def)
qed

lemma subscribed_snoc [simp]:
  "subscribed c (tr @ [LSubscribe]) \<longleftrightarrow> c < Suc (made tr) \<and> LUnsubscribe c \<notin> set tr \<and> LDone \<notin> set tr"
  "subscribed c (tr @ [LUnsubscribe c']) \<longleftrightarrow> subscribed c tr \<and> c' \<noteq> c"
  "subscribed c (tr @ [LPublish msg]) \<longleftrightarrow> subscribed c tr"
  "\<not> subscribed c (tr @ [LDone])"
  "subscribed c (tr @ [LReceive c' msg]) \<longleftrightarrow> subscribed c tr"
  "subscribed c (tr @ [LClosed c']) \<longleftrightarrow> subscribed c tr"
  by (auto simp: subscribed_def)

lemma subseq_both: "subseq (xs @ ys) zs \<Longrightarrow> subseq (xs @ ys @ [m]) (zs @ [m])"
  by (metis append.assoc list_emb_append_mono subseq_order.order_refl)

lemma subseq_more: "subseq xs zs \<Longrightarrow> subseq xs (zs @ [m])"
  by (meson prefixI prefix_imp_subseq subseq_order.trans)

lemma bk_step_inv:
  assumes "bk_step b l b'" "bk_inv tr b" "\<And>c. made tr \<le> c \<Longrightarrow> received c tr = [] \<and> published_to c tr = [] \<and> LUnsubscribe c \<notin> set tr"
  shows "bk_inv (tr @ [l]) b'"
  using assms(1)
proof (cases rule: bk_step.cases)
  case Subscribe
  note run = assms(2) [unfolded bk_inv_def]
  have "subscribed c (tr @ [LSubscribe]) \<longleftrightarrow> subscribed c tr \<or> c = made tr" for c
    using run Subscribe assms(3) by (auto simp: subscribed_def)
  then show ?thesis using run Subscribe assms(3) [of "made tr"]
    by (auto simp: bk_inv_def Broker_Subscribe_def Run_sub_def chan_ok_def nth_append make_chan_def subscribed_def less_Suc_eq)
next
  case (Unsubscribe c)
  note run = assms(2) [unfolded bk_inv_def]
  have "bk_phase b' = Running \<longrightarrow> distinct (bk_subs b') \<and> (\<forall>d. d \<in> set (bk_subs b') \<longleftrightarrow> subscribed d (tr @ [l]))"
    using run Unsubscribe by (auto simp: Run_unsub_def close_chan_def on_chan_def distinct_removeAll)
  moreover have "chan_ok (tr @ [l]) d (bk_chans b' ! d)" if "d < length (bk_chans b')" for d
  proof -
    have "d < length (bk_chans b)" using that Unsubscribe by (simp add: Run_unsub_def close_chan_def on_chan_def split: if_splits)
    then have "chan_ok tr d (bk_chans b ! d)" using run by blast
    then show ?thesis using Unsubscribe \<open>d < length (bk_chans b)\<close>
      by (cases "d = c") (auto simp: chan_ok_def Run_unsub_def close_chan_def on_chan_def)
  qed
  moreover have "length (bk_chans b') = length (bk_chans b)" using Unsubscribe by (simp add: Run_unsub_def close_chan_def on_chan_def)
  ultimately show ?thesis using run Unsubscribe unfolding bk_inv_def by auto
next
  case (Publish msg)
  note run = assms(2) [unfolded bk_inv_def]
  have subs: "distinct (bk_subs b)" "\<And>c. c \<in> set (bk_subs b) \<longleftrightarrow> subscribed c tr" "LDone \<notin> set tr" using run Publish by auto
  have ok: "chan_ok tr c (bk_chans b ! c)" if "c < length (bk_chans b)" for c using run that by blast
  have "\<forall>c \<in> set (bk_subs b). c < length (bk_chans b) \<and> \<not> cn_closed (bk_chans b ! c)"
    using run ok subs(2) by (auto simp: subscribed_def chan_ok_def)
  note b' = offer_loop [OF subs(1) this, of msg, folded Run_publish_def, folded Publish(2)]
  have "chan_ok (tr @ [l]) c (bk_chans b' ! c)" if "c < length (bk_chans b)" for c
    using ok [OF that] b' that Publish(1) subs(2) [of c] by (auto simp: chan_ok_def intro: subseq_both subseq_more)
  then show ?thesis using run b' subs Publish unfolding bk_inv_def by auto
next
  case ContextDone
  note run = assms(2) [unfolded bk_inv_def]
  have subs: "distinct (bk_subs b)" "\<And>c. c \<in> set (bk_subs b) \<longleftrightarrow> subscribed c tr" "LDone \<notin> set tr" using run ContextDone by auto
  have ok: "chan_ok tr c (bk_chans b ! c)" if "c < length (bk_chans b)" for c using run that by blast
  have "\<forall>c \<in> set (bk_subs b). c < length (bk_chans b) \<and> \<not> cn_closed (bk_chans b ! c)"
    using run ok subs(2) by (auto simp: subscribed_def chan_ok_def)
  note cl = close_loop [OF subs(1) this]
  then have b': "bk_chans b' = bk_chans (fold close_chan (bk_subs b) b)" "bk_phase b' = Returned" using ContextDone by (auto simp: Run_done_def Let_def)
  have "chan_ok (tr @ [l]) c (bk_chans b' ! c)" if "c < length (bk_chans b)" for c
    using ok [OF that] cl that ContextDone(1) subs(2) [of c] unfolding b' by (auto simp: chan_ok_def)
  then show ?thesis using run cl b' ContextDone unfolding bk_inv_def by auto
next
  case (Receive c msg rest)
  then show ?thesis using assms(2) by (auto simp: bk_inv_def chan_ok_def on_chan_def nth_list_update)
next
  case (Closed c)
  then show ?thesis using assms(2) by (auto simp: bk_inv_def chan_ok_def)
qed

lemma bk_reachable_inv: "bk_steps NewBroker tr b \<Longrightarrow> bk_inv tr b"
proof (induction rule: bk_steps.induct)
  case none
  then show ?case by (simp add: bk_inv_def NewBroker_def subscribed_def)
next
  case (snoc tr b' l b'')
  then show ?case using bk_step_inv [OF snoc.hyps(2) snoc.IH] unmade_received [OF snoc.hyps(1)] by blast
qed

section \<open>Properties of the broker\<close>

text \<open>A subscriber keeps up when fewer messages than the buffer holds wait for it whenever one is published.\<close>

definition keeps_up :: "nat \<Rightarrow> 'm label list \<Rightarrow> bool" where
  "keeps_up c tr \<longleftrightarrow> (\<forall>k < length tr. \<forall>msg. tr ! k = LPublish msg \<longrightarrow>
     length (published_to c (take k tr)) < length (received c (take k tr)) + bufferSize)"

lemma keeps_up_snoc:
  "keeps_up c (tr @ [l]) \<longleftrightarrow> keeps_up c tr \<and> (\<forall>msg. l = LPublish msg \<longrightarrow> length (published_to c tr) < length (received c tr) + bufferSize)"
  by (auto simp: keeps_up_def nth_append less_Suc_eq)

lemma kept_up:
  assumes "bk_steps NewBroker tr b" "keeps_up c tr" "c < length (bk_chans b)"
  shows "received c tr @ cn_buf (bk_chans b ! c) = published_to c tr"
  using assms
proof (induction rule: bk_steps.induct)
  case none
  then show ?case by (simp add: NewBroker_def)
next
  case (snoc tr b l b')
  note inv = bk_reachable_inv [OF snoc.hyps(1)] and past = unmade_received [OF snoc.hyps(1), of c]
  have up: "keeps_up c tr" using snoc.prems(1) keeps_up_snoc by blast
  have IH: "received c tr @ cn_buf (bk_chans b ! c) = published_to c tr" if "c < length (bk_chans b)" using snoc.IH up that by blast
  show ?case using snoc.hyps(2)
  proof (cases rule: bk_step.cases)
    case Subscribe
    then show ?thesis using IH past snoc.prems(2)
      by (auto simp: Broker_Subscribe_def Run_sub_def nth_append make_chan_def less_Suc_eq)
  next
    case (Unsubscribe d)
    then show ?thesis using IH snoc.prems(2)
      by (cases "d = c") (auto simp: Run_unsub_def close_chan_def on_chan_def split: if_splits)
  next
    case (Publish msg)
    have subs: "distinct (bk_subs b)" "\<And>c. c \<in> set (bk_subs b) \<longleftrightarrow> subscribed c tr" using inv Publish by (auto simp: bk_inv_def)
    have open_subs: "\<forall>c \<in> set (bk_subs b). c < length (bk_chans b) \<and> \<not> cn_closed (bk_chans b ! c)"
      using inv subs(2) by (auto simp: bk_inv_def subscribed_def chan_ok_def)
    note b' = offer_loop [OF subs(1) open_subs, of msg, folded Run_publish_def, folded Publish(2)]
    have c: "c < length (bk_chans b)" using snoc.prems(2) b' by simp
    have "length (published_to c tr) < length (received c tr) + bufferSize"
      using snoc.prems(1) Publish(1) by (simp add: keeps_up_snoc)
    then have "length (cn_buf (bk_chans b ! c)) < bufferSize" using arg_cong [OF IH [OF c], of length] by simp
    then show ?thesis using b' IH [OF c] c Publish(1) subs(2) [of c] by (auto simp flip: append.assoc)
  next
    case ContextDone
    have subs: "distinct (bk_subs b)" "\<And>c. c \<in> set (bk_subs b) \<longleftrightarrow> subscribed c tr" using inv ContextDone by (auto simp: bk_inv_def)
    have "\<forall>c \<in> set (bk_subs b). c < length (bk_chans b) \<and> \<not> cn_closed (bk_chans b ! c)"
      using inv subs(2) by (auto simp: bk_inv_def subscribed_def chan_ok_def)
    note cl = close_loop [OF subs(1) this]
    have "bk_chans b' = bk_chans (fold close_chan (bk_subs b) b)" using ContextDone by (simp add: Run_done_def Let_def)
    then show ?thesis using cl IH snoc.prems(2) ContextDone(1) by auto
  next
    case (Receive d msg rest)
    then show ?thesis using IH snoc.prems(2) by (cases "d = c") (auto simp: on_chan_def)
  next
    case (Closed d)
    then show ?thesis using IH snoc.prems(2) by auto
  qed
qed

text \<open>The broker goroutine panics exactly when a channel is unsubscribed a second time.\<close>

lemma panics_on_second_unsubscribe:
  assumes "bk_steps NewBroker tr b" "bk_step b (LUnsubscribe c) b'"
  shows "bk_phase b' = Panicked \<longleftrightarrow> LUnsubscribe c \<in> set tr"
proof -
  have c: "bk_phase b = Running" "c < length (bk_chans b)" "b' = Run_unsub c b" using assms(2) by (auto elim: bk_stepE)
  then have "cn_closed (bk_chans b ! c) \<longleftrightarrow> \<not> subscribed c tr" "LDone \<notin> set tr" "c < made tr"
    using bk_reachable_inv [OF assms(1)] by (auto simp: bk_inv_def chan_ok_def)
  then show ?thesis using c by (auto simp: Run_unsub_def close_chan_def on_chan_def subscribed_def)
qed

text \<open>After the context is done nobody can subscribe, publish or unsubscribe: those calls block for ever.\<close>

lemma blocked_after_done:
  assumes "bk_steps NewBroker tr b" "LDone \<in> set tr"
  shows "\<not> bk_step b LSubscribe b' \<and> \<not> bk_step b (LPublish msg) b' \<and> \<not> bk_step b (LUnsubscribe c) b'"
  using bk_reachable_inv [OF assms(1)] assms(2) by (auto simp: bk_inv_def elim: bk_stepE)

text \<open>
  C38. What the broker delivers. However the broker and its subscribers interleave, at most five
  messages wait in the buffer of a subscriber; what it has received and what waits for it are
  messages that were published while it was subscribed, in the order of publication and each at
  most once, and all of them when it keeps up; and its channel is closed exactly when it was
  unsubscribed or the context of the broker is done.
\<close>

theorem broker_delivers:
  assumes "bk_steps NewBroker tr b" "c < length (bk_chans b)"
  shows "length (cn_buf (bk_chans b ! c)) \<le> 5 \<and>
    subseq (received c tr @ cn_buf (bk_chans b ! c)) (published_to c tr) \<and>
    (keeps_up c tr \<longrightarrow> received c tr @ cn_buf (bk_chans b ! c) = published_to c tr) \<and>
    (cn_closed (bk_chans b ! c) \<longleftrightarrow> LUnsubscribe c \<in> set tr \<or> LDone \<in> set tr)"
proof -
  have "chan_ok tr c (bk_chans b ! c)" "c < made tr" using bk_reachable_inv [OF assms(1)] assms(2) by (auto simp: bk_inv_def)
  then show ?thesis using kept_up [OF assms(1) _ assms(2)] by (auto simp: chan_ok_def subscribed_def bufferSize_def)
qed

text \<open>One subscriber is slow and misses the last of six messages; another is told that the broker ends.\<close>

fun run_labels :: "'m label list \<Rightarrow> 'm Broker \<Rightarrow> 'm Broker option" where
  "run_labels [] b = Some b"
| "run_labels (LSubscribe # tr) b = (if bk_phase b = Running then run_labels tr (Broker_Subscribe b) else None)"
| "run_labels (LUnsubscribe c # tr) b = (if bk_phase b = Running \<and> c < length (bk_chans b) then run_labels tr (Run_unsub c b) else None)"
| "run_labels (LPublish msg # tr) b = (if bk_phase b = Running then run_labels tr (Run_publish msg b) else None)"
| "run_labels (LDone # tr) b = (if bk_phase b = Running then run_labels tr (Run_done b) else None)"
| "run_labels (LReceive c msg # tr) b =
     (if bk_phase b \<noteq> Panicked \<and> c < length (bk_chans b) \<and> cn_buf (bk_chans b ! c) \<noteq> [] \<and> hd (cn_buf (bk_chans b ! c)) = msg
      then run_labels tr (on_chan c (cn_buf_update (\<lambda>_. tl (cn_buf (bk_chans b ! c)))) b) else None)"
| "run_labels (LClosed c # tr) b =
     (if bk_phase b \<noteq> Panicked \<and> c < length (bk_chans b) \<and> cn_buf (bk_chans b ! c) = [] \<and> cn_closed (bk_chans b ! c) then run_labels tr b else None)"

lemma bk_steps_Cons:
  assumes "bk_step b l b'" "bk_steps b' tr b''"
  shows "bk_steps b (l # tr) b''"
  using assms(2,1)
proof (induction rule: bk_steps.induct)
  case none
  then show ?case using bk_steps.snoc [OF bk_steps.none none.prems] by simp
next
  case (snoc tr b2 l2 b3)
  then show ?case using bk_steps.snoc [of b "l # tr" b2 l2 b3] by simp
qed

lemma run_labels_steps: "run_labels tr b = Some b' \<Longrightarrow> bk_steps b tr b'"
proof (induction tr b rule: run_labels.induct)
  case (6 c msg tr b)
  then have c: "bk_phase b \<noteq> Panicked" "c < length (bk_chans b)" "cn_buf (bk_chans b ! c) = msg # tl (cn_buf (bk_chans b ! c))"
    by (auto split: if_splits)
  from 6 have "bk_steps (on_chan c (cn_buf_update (\<lambda>_. tl (cn_buf (bk_chans b ! c)))) b) tr b'" by (auto split: if_splits)
  with bk_step.Receive [OF c] show ?case by (rule bk_steps_Cons)
qed (auto split: if_splits intro: bk_steps_Cons bk_steps.intros bk_step.intros)

definition ex_trace :: "nat label list" where
  "ex_trace = [LSubscribe, LSubscribe, LPublish 1, LReceive 1 1, LPublish 2, LReceive 1 2, LPublish 3, LPublish 4, LPublish 5, LPublish 6, LDone]"

theorem broker_delivers_witness:
  "\<exists>b. bk_steps NewBroker ex_trace b \<and> received 0 ex_trace @ cn_buf (bk_chans b ! 0) = [1, 2, 3, 4, 5] \<and> published_to 0 ex_trace = [1, 2, 3, 4, 5, 6] \<and>
    received 1 ex_trace @ cn_buf (bk_chans b ! 1) = [1, 2, 3, 4, 5, 6] \<and> cn_closed (bk_chans b ! 1)"
proof -
  define b where "b = the (run_labels ex_trace NewBroker)"
  have "run_labels ex_trace NewBroker \<noteq> None" by code_simp
  then have steps: "bk_steps NewBroker ex_trace b" unfolding b_def by (auto intro: run_labels_steps)
  have len: "1 < length (bk_chans b)" unfolding b_def by code_simp
  have "\<forall>k < length ex_trace. (case ex_trace ! k of LPublish msg \<Rightarrow>
      length (published_to 1 (take k ex_trace)) < length (received 1 (take k ex_trace)) + bufferSize | _ \<Rightarrow> True)" by code_simp
  then have up: "keeps_up 1 ex_trace" unfolding keeps_up_def by (metis label.case(3))
  have "published_to 0 ex_trace = [1, 2, 3, 4, 5, 6]" "published_to 1 ex_trace = [1, 2, 3, 4, 5, 6]" "LDone \<in> set ex_trace" by code_simp+
  moreover have "received 0 ex_trace @ cn_buf (bk_chans b ! 0) = [1, 2, 3, 4, 5]" unfolding b_def by code_simp
  ultimately show ?thesis using steps broker_delivers [OF steps len] up by auto
qed

end
