(* ===== verification/Ui_Pages.thy ===== *)
theory Ui_Pages
  imports Web_Handler "HOL-Library.Multiset"
begin

text \<open>
  The registry of the renderer stays well formed, and the pages it renders name only files that are
  served: proofs about \<^verbatim>\<open>Ui_Render\<close> and \<^verbatim>\<open>Web_Handler\<close>.
\<close>

section \<open>Paths of assets\<close>

text \<open>A directory of assets: rooted, clean and with a slash at its end, as the default \<^verbatim>\<open>/static/\<close> is.\<close>

definition asset_dir :: "string list \<Rightarrow> string" where
  "asset_dir es = CHR ''/'' # concat (map (\<lambda>e. e @ ''/'') es)"

lemma Split_asset_dir: "list_all plain_name es \<Longrightarrow> strings_Split (concat (map (\<lambda>e. e @ ''/'') es)) (CHR ''/'') = es @ [[]]"
proof (induction es)
  case (Cons e es)
  then show ?case by (simp add: Split_append Split_no_sep plain_name_def)
qed simp

lemma base_stack_asset_dir: "list_all plain_name es \<Longrightarrow> base_stack (asset_dir es) = es"
  by (simp add: base_stack_def asset_dir_def Split_asset_dir clean_plain_elements)

lemma Join_snoc: "strings_Join (es @ [n]) sep = concat (map (\<lambda>e. e @ [sep]) es) @ n"
proof (induction es)
  case (Cons e es)
  then show ?case by (cases "es @ [n]") simp_all
qed simp

lemma Join_asset_dir:
  assumes "list_all plain_name es" "plain_name n"
  shows "filepath_Join [asset_dir es, n] = asset_dir es @ n"
  using assms Join_below [of "asset_dir es" "[n]"] by (simp add: base_stack_asset_dir Join_snoc) (simp add: asset_dir_def)

section \<open>The registry\<close>

lemma first_sep: "x \<notin> set a \<Longrightarrow> x \<notin> set b \<Longrightarrow> a @ x # u = b @ x # v \<Longrightarrow> a = b \<and> u = v"
proof (induction a arbitrary: b)
  case Nil
  then show ?case by (cases b) auto
next
  case (Cons y a)
  then show ?case by (cases b) auto
qed

lemma Dependency_String_inj: "Dependency_String d = Dependency_String d' \<longleftrightarrow> d = d'"
proof
  assume eq: "Dependency_String d = Dependency_String d'"
  have free: "CHR '':'' \<notin> set (DependencyType_String t)" for t by (cases t) auto
  have "DependencyType_String t = DependencyType_String t' \<Longrightarrow> t = t'" for t t' by (cases t; cases t') auto
  moreover have "DependencyType_String (dep_Type d) = DependencyType_String (dep_Type d') \<and> dep_Name d = dep_Name d'"
    using eq by (intro first_sep [OF free free]) (simp add: Dependency_String_def)
  ultimately show "d = d'" by (auto intro!: Dependency.equality)
qed simp

definition file_name :: "(string \<Rightarrow> string) \<Rightarrow> Dependency \<Rightarrow> string \<Rightarrow> string" where
  "file_name sha dep content = Dependency_String dep @ ''-'' @ sha content"

definition hex :: "string \<Rightarrow> bool" where
  "hex s \<longleftrightarrow> set s \<subseteq> set ''0123456789abcdef''"

lemma file_name_inj:
  assumes "hex (sha c)" "hex (sha c')" "file_name sha d c = file_name sha d' c'"
  shows "d = d'"
proof -
  have "CHR ''-'' \<notin> set (sha c)" "CHR ''-'' \<notin> set (sha c')" using assms(1,2) by (auto simp: hex_def)
  then have free: "CHR ''-'' \<notin> set (rev (sha c))" "CHR ''-'' \<notin> set (rev (sha c'))" by simp_all
  have "rev (sha c) @ CHR ''-'' # rev (Dependency_String d) = rev (sha c') @ CHR ''-'' # rev (Dependency_String d')"
    using arg_cong [OF assms(3), of rev] by (simp add: file_name_def)
  then have "rev (Dependency_String d) = rev (Dependency_String d')" by (rule conjunct2 [OF first_sep [OF free]])
  then show ?thesis by (simp add: Dependency_String_inj)
qed

lemma file_name_plain:
  assumes "hex (sha c)" "CHR ''/'' \<notin> set (dep_Name d)"
  shows "plain_name (file_name sha d c)"
proof -
  have "CHR ''/'' \<notin> set (DependencyType_String t)" for t by (cases t) auto
  moreover have "length (file_name sha d c) > 2"
  proof -
    have "2 < length (DependencyType_String (dep_Type d))" by (cases "dep_Type d") simp_all
    then show ?thesis unfolding file_name_def Dependency_String_def length_append by linarith
  qed
  moreover have "CHR ''/'' \<notin> set (sha c)" using assms(1) by (auto simp: hex_def)
  moreover have "CHR ''/'' \<notin> set (file_name sha d c)"
    using calculation(1,3) assms(2) by (simp add: file_name_def Dependency_String_def)
  ultimately show ?thesis unfolding plain_name_def by auto
qed

text \<open>
  A well-formed registry: the path of a dependency is made of its name and the hash of its content,
  and the two maps between dependencies and paths are inverse to each other.
\<close>

definition wf_renderer :: "(string \<Rightarrow> string) \<Rightarrow> string list \<Rightarrow> Renderer \<Rightarrow> bool" where
  "wf_renderer sha es rer \<longleftrightarrow> rr_assetPath rer = asset_dir es \<and>
     (\<forall>d. rr_dependencyPaths rer d = map_option (\<lambda>c. asset_dir es @ file_name sha d c) (rr_dependencies rer d)) \<and>
     (\<forall>p d. rr_pathDependencies rer p = Some d \<longleftrightarrow> rr_dependencyPaths rer d = Some p)"

definition slash_free :: "(Dependency \<times> string) list \<Rightarrow> bool" where
  "slash_free deps \<longleftrightarrow> (\<forall>(d, c) \<in> set deps. CHR ''/'' \<notin> set (dep_Name d))"

lemma register_dependency_wf:
  assumes "wf_renderer sha es rer" "list_all plain_name es" "\<And>c. hex (sha c)" "CHR ''/'' \<notin> set (dep_Name d)"
  shows "wf_renderer sha es (snd (register_dependency sha (d, c) rer))"
proof (cases "rr_dependencies rer d")
  case None
  let ?p = "asset_dir es @ file_name sha d c"
  have path: "filepath_Join [rr_assetPath rer, Dependency_String d @ ''-'' @ sha c] = ?p"
    using Join_asset_dir [OF assms(2) file_name_plain [where sha = sha and c = c, OF assms(3,4)]] assms(1) by (simp add: wf_renderer_def file_name_def)
  have fresh: "rr_dependencyPaths rer d' \<noteq> Some ?p" for d'
  proof
    assume "rr_dependencyPaths rer d' = Some ?p"
    then obtain c' where "rr_dependencies rer d' = Some c'" "file_name sha d' c' = file_name sha d c" using assms(1) by (auto simp: wf_renderer_def)
    then show False using file_name_inj [where sha = sha, OF assms(3) assms(3)] None by fastforce
  qed
  then have "rr_pathDependencies rer ?p = None" using assms(1) by (metis wf_renderer_def option.exhaust)
  then show ?thesis using assms(1) None fresh path
    by (auto simp: wf_renderer_def register_dependency_def Let_def)
qed (simp add: assms(1) register_dependency_def)

lemma register_all_wf:
  assumes "wf_renderer sha es rer" "list_all plain_name es" "\<And>c. hex (sha c)" "slash_free deps"
  shows "wf_renderer sha es (snd (register_all sha deps rer))"
  using assms(1,4)
proof (induction deps arbitrary: rer)
  case (Cons x deps)
  obtain d c where x: "x = (d, c)" by fastforce
  obtain r rer' where step: "register_dependency sha (d, c) rer = (r, rer')" by fastforce
  have "wf_renderer sha es rer'"
    using register_dependency_wf [OF Cons.prems(1) assms(2,3), of d c] Cons.prems(2) x step by (simp add: slash_free_def)
  then show ?case using Cons step x by (cases r) (simp_all add: slash_free_def go_bind_def)
qed simp

lemma register_all_effect:
  assumes "register_all sha deps rer = (Ok (), rer')"
  shows "rr_dependencies rer' = rr_dependencies rer ++ map_of deps \<and> distinct (map fst deps) \<and>
    fst ` set deps \<inter> dom (rr_dependencies rer) = {} \<and> rr_assetPath rer' = rr_assetPath rer \<and> rr_linearized rer' = rr_linearized rer"
  using assms
proof (induction deps arbitrary: rer)
  case (Cons x deps)
  obtain d c where x: "x = (d, c)" by fastforce
  have new: "rr_dependencies rer d = None" using Cons.prems x by (auto simp: go_bind_def register_dependency_def split: if_splits)
  let ?rer = "snd (register_dependency sha (d, c) rer)"
  have fields: "rr_dependencies ?rer = (rr_dependencies rer)(d \<mapsto> c)" "rr_assetPath ?rer = rr_assetPath rer" "rr_linearized ?rer = rr_linearized rer"
    using new by (simp_all add: register_dependency_def Let_def)
  have "register_all sha deps ?rer = (Ok (), rer')" using Cons.prems x new by (simp add: go_bind_def register_dependency_def Let_def)
  note rest = Cons.IH [OF this, unfolded fields]
  then have "d \<notin> fst ` set deps" by auto
  then have swap: "(rr_dependencies rer)(d \<mapsto> c) ++ map_of deps = rr_dependencies rer ++ map_of (x # deps)"
    unfolding x map_of.simps fst_conv snd_conv map_add_upd by (intro map_add_upd_left) (simp add: dom_map_of_conv_image_fst)
  have "fst ` set (x # deps) \<inter> dom (rr_dependencies rer) = {}" using rest new x by auto
  moreover have "distinct (map fst (x # deps))" using rest x \<open>d \<notin> fst ` set deps\<close> by simp
  ultimately show ?case using rest unfolding swap by blast
qed simp

lemma register_all_succeeds:
  assumes "distinct (map fst deps)" "fst ` set deps \<inter> dom (rr_dependencies rer) = {}"
  shows "fst (register_all sha deps rer) = Ok ()"
  using assms
proof (induction deps arbitrary: rer)
  case (Cons x deps)
  obtain d c where x: "x = (d, c)" by fastforce
  let ?rer = "snd (register_dependency sha (d, c) rer)"
  have new: "rr_dependencies rer d = None" using Cons.prems x by auto
  have "fst (register_all sha deps ?rer) = Ok ()"
    by (rule Cons.IH) (use Cons.prems x new in \<open>force simp: register_dependency_def Let_def\<close>)+
  then show ?case using new x by (simp add: go_bind_def register_dependency_def Let_def)
qed simp

lemma insert_again: "m ++ f ++ f = m ++ f"
  by (simp add: map_add_def fun_eq_iff split: option.splits)

lemma register_functions_wf:
  assumes "wf_renderer sha es rer" "list_all plain_name es" "\<And>c. hex (sha c)" "\<forall>(deps, e) \<in> set fns. slash_free deps"
  shows "wf_renderer sha es (snd (register_functions sha fns errs rer))"
  using assms(1,4)
proof (induction fns arbitrary: rer errs)
  case Nil
  then show ?case by (simp split: list.splits)
next
  case (Cons f fns)
  obtain deps e where f: "f = (deps, e)" by fastforce
  obtain r rer' where reg: "register_all sha deps rer = (r, rer')" by fastforce
  have wf: "wf_renderer sha es rer'" using register_all_wf [OF Cons.prems(1) assms(2,3), of deps] Cons.prems(2) f reg by simp
  show ?case
  proof (cases r)
    case (Ok u)
    then have "rr_dependencies rer' ++ map_of deps = rr_dependencies rer'"
      using register_all_effect [of sha deps rer rer'] reg by (simp add: insert_again)
    then show ?thesis using Cons wf f reg Ok by (simp add: go_bind_def)
  qed (use wf f reg in \<open>simp_all add: go_bind_def\<close>)
qed

lemma empty_renderer_wf: "wf_renderer sha es (empty_Renderer (asset_dir es))"
  by (simp add: wf_renderer_def empty_Renderer_def)

text \<open>Functions that succeed with new and different dependencies are all registered.\<close>

lemma register_functions_succeeds:
  assumes "\<forall>(deps, e) \<in> set fns. e = None" "distinct (map fst (concat (map fst fns)))"
    and "fst ` set (concat (map fst fns)) \<inter> dom (rr_dependencies rer) = {}"
  shows "\<exists>rer'. register_functions sha fns [] rer = (Ok (), rer') \<and> dom (rr_dependencies rer') = dom (rr_dependencies rer) \<union> fst ` set (concat (map fst fns)) \<and>
    rr_linearized rer' = rr_linearized rer"
  using assms
proof (induction fns arbitrary: rer)
  case (Cons f fns)
  obtain deps where f: "f = (deps, None)" using Cons.prems(1) by (cases f) auto
  have "fst (register_all sha deps rer) = Ok ()"
    by (rule register_all_succeeds) (use Cons.prems(2,3) f in auto)
  then obtain rer' where reg: "register_all sha deps rer = (Ok (), rer')" by (metis prod.collapse)
  note eff = register_all_effect [OF reg]
  have "fst ` set (concat (map fst fns)) \<inter> dom (rr_dependencies rer') = {}"
    using Cons.prems(2,3) f conjunct1 [OF eff] by (simp add: dom_map_of_conv_image_fst) blast
  then have "\<exists>rer''. register_functions sha fns [] rer' = (Ok (), rer'') \<and>
      dom (rr_dependencies rer'') = dom (rr_dependencies rer') \<union> fst ` set (concat (map fst fns)) \<and> rr_linearized rer'' = rr_linearized rer'"
    using Cons.prems(1,2) f by (intro Cons.IH) simp_all
  moreover have "rr_dependencies rer' ++ map_of deps = rr_dependencies rer'" using eff by (simp add: insert_again)
  then have "register_functions sha (f # fns) [] rer = register_functions sha fns [] rer'" using f reg by (simp add: go_bind_def)
  moreover have "dom (rr_dependencies rer') = dom (rr_dependencies rer) \<union> fst ` set deps" using eff by (auto simp: dom_map_of_conv_image_fst)
  ultimately show ?case using f conjunct2 [OF conjunct2 [OF conjunct2 [OF conjunct2 [OF eff]]]] by (auto simp: Un_assoc image_Un)
qed simp

section \<open>Rendering\<close>

text \<open>A component, given by the styles it asks its context for and the node it returns.\<close>

definition component_of :: "'n \<Rightarrow> Style list list \<Rightarrow> 'n Component" where
  "component_of node calls c = (node, fold (\<lambda>styles c. snd (renderContext_Class styles c)) calls c)"

definition depends_on :: "Style list list \<Rightarrow> Dependency set" where
  "depends_on calls = (\<Union>styles \<in> set calls. \<Union>style \<in> set styles. set (st_dependencies style))"

lemma insert_loop:
  "distinct ds \<Longrightarrow> distinct (fold (\<lambda>dep ds. if dep \<in> set ds then ds else ds @ [dep]) xs ds) \<and>
    set (fold (\<lambda>dep ds. if dep \<in> set ds then ds else ds @ [dep]) xs ds) = set ds \<union> set xs"
  by (induction xs arbitrary: ds) auto

lemma Class_dependencies:
  "distinct (rc_dependencies c) \<Longrightarrow> distinct (rc_dependencies (snd (renderContext_Class styles c))) \<and>
    set (rc_dependencies (snd (renderContext_Class styles c))) \<subseteq> set (rc_dependencies c) \<union> (\<Union>style \<in> set styles. set (st_dependencies style))"
proof (induction styles arbitrary: c)
  case (Cons s styles)
  let ?c = "if s \<in> set (rc_styles c) then c else renderContext_register s c"
  have "distinct (rc_dependencies ?c)" "set (rc_dependencies ?c) \<subseteq> set (rc_dependencies c) \<union> set (st_dependencies s)"
    using insert_loop [OF Cons.prems, of "st_dependencies s"] Cons.prems by (simp_all add: renderContext_register_def)
  note c = this
  have step: "snd (renderContext_Class (s # styles) c) = snd (renderContext_Class styles ?c)" by (simp add: renderContext_Class_def)
  have "set (rc_dependencies (snd (renderContext_Class styles ?c))) \<subseteq> set (rc_dependencies ?c) \<union> (\<Union>style \<in> set styles. set (st_dependencies style))"
    using Cons.IH [OF c(1)] by (rule conjunct2)
  also have "\<dots> \<subseteq> set (rc_dependencies c) \<union> set (st_dependencies s) \<union> (\<Union>style \<in> set styles. set (st_dependencies style))"
    using c(2) by (rule Un_mono) simp
  also have "\<dots> = set (rc_dependencies c) \<union> (\<Union>style \<in> set (s # styles). set (st_dependencies style))" by (simp add: Un_assoc)
  finally show ?case unfolding step using Cons.IH [OF c(1)] by blast
qed (simp add: renderContext_Class_def)

lemma component_dependencies:
  "distinct (rc_dependencies c) \<Longrightarrow> distinct (rc_dependencies (snd (component_of node calls c))) \<and>
    set (rc_dependencies (snd (component_of node calls c))) \<subseteq> set (rc_dependencies c) \<union> depends_on calls"
proof (induction calls arbitrary: c)
  case (Cons styles calls)
  show ?case using Cons.IH [of "snd (renderContext_Class styles c)"] Class_dependencies [OF Cons.prems, of styles]
    by (auto simp: component_of_def depends_on_def)
qed (simp add: component_of_def)

lemma DependencyGraph_acyclic: "acyclic (requires units DependencyGraph)"
proof -
  have "requires units DependencyGraph \<subseteq> measure (\<lambda>d. if d \<in> {ScriptHTMX, StyleNormalize} then 0 else 1)"
  proof (rule subrelI)
    fix u v assume "(u, v) \<in> requires units DependencyGraph"
    then have "u \<in> {ScriptHTMX, StyleNormalize}" "v \<in> {ScriptHTMXResponseTargets, ScriptHTMXHeadSupport, ScriptTeapotRender, StyleColors, StyleFont}"
      by (auto simp: requires_def DependencyGraph_def split: if_splits)
    moreover have "{ScriptHTMXResponseTargets, ScriptHTMXHeadSupport, ScriptTeapotRender, StyleColors, StyleFont} \<inter> {ScriptHTMX, StyleNormalize} = {}"
      by (simp add: ScriptHTMX_def ScriptHTMXResponseTargets_def ScriptHTMXHeadSupport_def ScriptTeapotRender_def
          StyleNormalize_def StyleColors_def StyleFont_def)
    ultimately have "u \<in> {ScriptHTMX, StyleNormalize} \<and> v \<notin> {ScriptHTMX, StyleNormalize}" by blast
    then show "(u, v) \<in> measure (\<lambda>d. if d \<in> {ScriptHTMX, StyleNormalize} then 0 else 1)" by simp
  qed
  then show ?thesis by (meson wf_measure wf_subset wf_acyclic)
qed

text \<open>Only registered dependencies are in the cache.\<close>

definition cache_ok :: "Renderer \<Rightarrow> bool" where
  "cache_ok rer \<longleftrightarrow> (\<forall>k l. rr_linearized rer k = Some l \<longrightarrow> set l \<subseteq> dom (rr_dependencies rer))"

lemma Linearize_registered:
  assumes "cache_ok rer" "distinct units" "set units \<subseteq> dom (rr_dependencies rer)" "mset order = mset units"
  shows "\<exists>l m. Renderer_Linearize sha units order DependencyGraph rer = Some (Ok l, rer\<lparr>rr_linearized := m\<rparr>) \<and>
    set l \<subseteq> dom (rr_dependencies rer) \<and> cache_ok (rer\<lparr>rr_linearized := m\<rparr>)"
proof (cases "rr_linearized rer (cacheKey sha units)")
  case None
  have "distinct order" "set order = set units" using assms(2,4) by (metis mset_eq_imp_distinct_iff mset_eq_setD)+
  then obtain l where lin: "linearize units order DependencyGraph = Some (Ok l)" "set l = set units"
    using linearize_total [OF assms(2), of order DependencyGraph] DependencyGraph_acyclic by auto
  then show ?thesis using None assms(1,3)
    by (intro exI [of _ l] exI [of _ "(rr_linearized rer)(cacheKey sha units \<mapsto> l)"]) (auto simp: Renderer_Linearize_def cache_ok_def)
next
  case (Some l)
  then show ?thesis using assms(1) by (intro exI [of _ l] exI [of _ "rr_linearized rer"]) (simp add: Renderer_Linearize_def cache_ok_def)
qed

text \<open>The elements that refer to a file refer to one of a registered dependency.\<close>

definition refers :: "(string \<Rightarrow> string) \<Rightarrow> string list \<Rightarrow> Renderer \<Rightarrow> 'n Node \<Rightarrow> bool" where
  "refers sha es rer n \<longleftrightarrow> (\<forall>url. n = Link url \<or> n = ScriptSrc url \<longrightarrow>
     (\<exists>d c. rr_dependencies rer d = Some c \<and> url = asset_dir es @ file_name sha d c))"

lemma refers_inline [simp]: "refers sha es rer (StyleEl i s)" "refers sha es rer (ScriptInject s)" "refers sha es rer (Rendered x)" "refers sha es rer (Ext s)"
  by (simp_all add: refers_def)

lemma render_dependencies_refer:
  assumes "wf_renderer sha es rer" "set deps \<subseteq> dom (rr_dependencies rer)"
  shows "\<exists>(links :: 'n Node list) scripts used. render_dependencies rer loaded deps = Ok (links, scripts, used) \<and>
    (\<forall>n \<in> set (links @ scripts). refers sha es rer n)"
  using assms(2)
proof (induction deps)
  case (Cons d deps)
  then obtain c scripts used and links :: "'n Node list" where IH: "rr_dependencies rer d = Some c" "render_dependencies rer loaded deps = Ok (links, scripts, used)"
    "\<forall>n \<in> set (links @ scripts). refers sha es rer n" by auto
  then have "Renderer_dependencyPath rer d = Ok (asset_dir es @ file_name sha d c)" "rr_dependencies rer d = Some c"
    using assms(1) by (simp_all add: wf_renderer_def Renderer_dependencyPath_def)
  with IH show ?case by (cases "dep_Type d") (auto simp: refers_def)
qed simp

lemma served:
  assumes "wf_renderer sha es rer" "rr_dependencies rer d = Some c"
  shows "Renderer_Dependency rer (asset_dir es @ file_name sha d c) = Ok (d, c)"
proof -
  have "rr_dependencyPaths rer d = Some (asset_dir es @ file_name sha d c)" using assms by (simp add: wf_renderer_def)
  then have "rr_pathDependencies rer (asset_dir es @ file_name sha d c) = Some d" using assms(1) by (simp only: wf_renderer_def)
  moreover have "rr_assetPath rer = asset_dir es" using assms(1) by (simp only: wf_renderer_def)
  ultimately show ?thesis using assms(2) by (simp add: Renderer_Dependency_def strings_HasPrefix_def)
qed

text \<open>
  What the renderer relies on: hashes are hexadecimal, a list of strings has a JSON text, and a loop
  over a map runs over each of its keys once.
\<close>

locale ui_env =
  fixes sha :: "string \<Rightarrow> string" and marshal :: "string list \<Rightarrow> string outcome" and rangeD :: "Dependency list \<Rightarrow> Dependency list"
  assumes sha_hex: "hex (sha c)" and marshal_strings: "\<exists>b. marshal xs = Ok b" and range_permutes: "mset (rangeD ds) = mset ds"
begin

lemma render_elements_refer:
  assumes "wf_renderer sha es rer" "set l \<subseteq> dom (rr_dependencies rer)"
  shows "\<exists>(links :: 'n Node list) scripts. render_elements sha marshal rer loaded styles l = Ok (links, scripts) \<and>
    (\<forall>n \<in> set (links @ scripts). refers sha es rer n)"
proof -
  obtain scripts used and links :: "'n Node list" where el: "render_dependencies rer loaded l = Ok (links, scripts, used)"
      "\<forall>n \<in> set (links @ scripts). refers sha es rer n" using render_dependencies_refer [OF assms] by blast
  have js: "\<exists>s. registerScript marshal t xs = Ok s" for t xs
    using marshal_strings [of xs] by (auto simp: registerScript_def)
  obtain s1 where s1: "registerScript marshal ''styles'' (map st_id (filter (\<lambda>s. st_id s \<notin> set (al_Styles loaded)) styles)) = Ok s1" using js by blast
  obtain s2 where s2: "registerScript marshal ''dependencies'' (map Dependency_String used) = Ok s2" using js by blast
  show ?thesis using el by (auto simp: render_elements_def Let_def s1 s2)
qed

lemma render_refers:
  assumes "wf_renderer sha es rer" "cache_ok rer" "set defaultDependencies \<union> depends_on calls \<subseteq> dom (rr_dependencies rer)"
  shows "\<exists>(links :: 'n Node list) scripts m. Renderer_renderWithDependencies sha marshal rangeD rangeS loaded (component_of node calls) rer =
      Some (Ok (links, scripts, node), rer\<lparr>rr_linearized := m\<rparr>) \<and>
    wf_renderer sha es (rer\<lparr>rr_linearized := m\<rparr>) \<and> cache_ok (rer\<lparr>rr_linearized := m\<rparr>) \<and>
    (\<forall>n \<in> set (links @ scripts). refers sha es rer n)"
proof -
  let ?c0 = "\<lparr>rc_styles = [], rc_dependencies = defaultDependencies\<rparr>"
  have d0: "distinct (rc_dependencies ?c0)" by (simp add: defaultDependencies_def) code_simp
  obtain c where c: "component_of node calls ?c0 = (node, c)" by (simp add: component_of_def)
  have deps: "distinct (rc_dependencies c)" "set (rc_dependencies c) \<subseteq> dom (rr_dependencies rer)"
    using component_dependencies [OF d0, of node calls] c assms(3) by auto
  from Linearize_registered [OF assms(2) deps range_permutes] obtain l m where
    l: "Renderer_Linearize sha (rc_dependencies c) (rangeD (rc_dependencies c)) DependencyGraph rer = Some (Ok l, rer\<lparr>rr_linearized := m\<rparr>)"
    "set l \<subseteq> dom (rr_dependencies rer)" "cache_ok (rer\<lparr>rr_linearized := m\<rparr>)" by blast
  have wf: "wf_renderer sha es (rer\<lparr>rr_linearized := m\<rparr>)" using assms(1) by (simp add: wf_renderer_def)
  obtain scripts and links :: "'n Node list" where el: "render_elements sha marshal (rer\<lparr>rr_linearized := m\<rparr>) loaded (rangeS (rc_styles c)) l = Ok (links, scripts)"
    "\<forall>n \<in> set (links @ scripts). refers sha es (rer\<lparr>rr_linearized := m\<rparr>) n"
    using render_elements_refer [OF wf, of l loaded "rangeS (rc_styles c)"] l(2) by auto
  have "refers sha es (rer\<lparr>rr_linearized := m\<rparr>) n = refers sha es rer n" for n :: "'n Node" by (simp add: refers_def)
  then show ?thesis using l el wf by (auto simp: Renderer_renderWithDependencies_def Renderer_contextRender_def c)
qed

end

end
