(* ===== verification/Ui_Example.thy ===== *)
theory Ui_Example
  imports Ui_Pages
begin

text \<open>The properties of the user interface library, with the instances that show that they apply.\<close>

section \<open>Linearisation\<close>

text \<open>
  C35. Linearisation is a correct topological sort. It always returns, whatever the order in which
  the loops over the maps run; when the requirements among the units have no cycle the result holds
  every unit once, each after all the units it requires, and otherwise the error says that there is
  a cycle.
\<close>

theorem linearize_correct:
  assumes "distinct units" "mset order = mset units"
  shows "\<exists>r. linearize units order graph = Some r \<and>
    (if acyclic (requires units graph)
     then \<exists>res. r = Ok res \<and> mset res = mset units \<and>
       (\<forall>i < length res. \<forall>u \<in> set units. u \<in> set (graph (res ! i)) \<longrightarrow> u \<in> set (take i res))
     else r = Err ErrCyclicDependency)"
proof -
  have order: "distinct order" "set order = set units" using assms by (metis mset_eq_imp_distinct_iff mset_eq_setD)+
  have "mset res = mset units" if "distinct res" "set res = set units" for res
    using that assms(1) by (simp add: set_eq_iff_mset_eq_distinct)
  with linearize_total [OF assms(1) order, of graph] show ?thesis by (auto split: if_splits)
qed

definition ex_cycle :: "Dependency \<Rightarrow> Dependency list" where
  "ex_cycle d = (if d = ScriptHTMX then [ScriptTeapotRender] else if d = ScriptTeapotRender then [ScriptHTMX] else [])"

theorem linearize_correct_witness:
  "(\<exists>res. linearize defaultDependencies (rev defaultDependencies) DependencyGraph = Some (Ok res) \<and> mset res = mset defaultDependencies) \<and>
   linearize [ScriptHTMX, ScriptTeapotRender] [ScriptHTMX, ScriptTeapotRender] ex_cycle = Some (Err ErrCyclicDependency)"
proof
  have d: "distinct defaultDependencies" "mset (rev defaultDependencies) = mset defaultDependencies" by code_simp+
  show "\<exists>res. linearize defaultDependencies (rev defaultDependencies) DependencyGraph = Some (Ok res) \<and> mset res = mset defaultDependencies"
    using linearize_correct [OF d, of DependencyGraph] DependencyGraph_acyclic [of defaultDependencies] by auto
  have two: "distinct [ScriptHTMX, ScriptTeapotRender]" by code_simp
  have "(ScriptHTMX, ScriptTeapotRender) \<in> requires [ScriptHTMX, ScriptTeapotRender] ex_cycle"
      "(ScriptTeapotRender, ScriptHTMX) \<in> requires [ScriptHTMX, ScriptTeapotRender] ex_cycle"
    using two by (simp_all add: requires_def ex_cycle_def)
  then have "\<not> acyclic (requires [ScriptHTMX, ScriptTeapotRender] ex_cycle)"
    by (metis acyclic_def trancl.r_into_trancl trancl_trans)
  then show "linearize [ScriptHTMX, ScriptTeapotRender] [ScriptHTMX, ScriptTeapotRender] ex_cycle = Some (Err ErrCyclicDependency)"
    using linearize_correct [OF two refl, of ex_cycle] by auto
qed

section \<open>The default renderer\<close>

lemma load_all:
  "(\<forall>(d, p) \<in> set xs. p \<in> dom fs) \<Longrightarrow> load_components fs xs = (map (\<lambda>(d, p). (d, the (fs p))) xs, None)"
  by (induction xs) auto

definition has_files :: "(string \<rightharpoonup> string) \<Rightarrow> string list \<Rightarrow> bool" where
  "has_files fs names \<longleftrightarrow> set names \<subseteq> dom fs"

definition teapot_files :: "string list" where "teapot_files = [''css/theme.css'', ''js/render.js'']"
definition htmx_files :: "string list" where "htmx_files = [''js/htmx.js'', ''js/response-targets.js'', ''js/head-support.js'']"
definition openprops_files :: "string list" where "openprops_files = map (\<lambda>c. ''css/'' @ c @ ''.css'') openprops_Components"

text \<open>The names of the dependencies of the three packages.\<close>

definition openprops_names :: "string list" where
  "openprops_names = [''normalize'', ''animations'', ''aspects'', ''borders'', ''colors'', ''durations'', ''ease'', ''font'',
     ''gradients'', ''masks.edges'', ''masks.corner-cuts'', ''media'', ''shadows'', ''size'', ''supports'', ''zindex'', ''brand-colors'']"

definition style_dep :: "string \<Rightarrow> Dependency" where "style_dep n = \<lparr>dep_Type = DependencyTypeStyle, dep_Name = n\<rparr>"
definition script_dep :: "string \<Rightarrow> Dependency" where "script_dep n = \<lparr>dep_Type = DependencyTypeScript, dep_Name = n\<rparr>"

definition known :: "Dependency list" where
  "known = style_dep ''theme'' # map script_dep [''render'', ''htmx'', ''response-targets'', ''head-support''] @ map style_dep openprops_names"

lemma teapot_loaded:
  assumes "has_files fs teapot_files"
  shows "teapot_Dependencies fs = (map2 (\<lambda>d p. (d, the (fs p))) [style_dep ''theme'', script_dep ''render''] teapot_files, None)"
  unfolding teapot_Dependencies_def
  by (subst load_all) (use assms in \<open>auto simp: has_files_def teapot_files_def CSSComponents_def JSComponents_def style_dep_def script_dep_def\<close>)

lemma htmx_loaded:
  assumes "has_files fs htmx_files"
  shows "htmx_Dependencies fs = (map2 (\<lambda>d p. (d, the (fs p))) (map script_dep [''htmx'', ''response-targets'', ''head-support'']) htmx_files, None)"
proof -
  have "map (\<lambda>(i, c). (\<lparr>dep_Type = DependencyTypeScript, dep_Name = htmx_name i c\<rparr>, ''js/'' @ htmx_name i c @ ''.js'')) (List.enumerate 0 htmx_Components) =
      zip (map script_dep [''htmx'', ''response-targets'', ''head-support'']) htmx_files" by code_simp
  then show ?thesis unfolding htmx_Dependencies_def
    by (subst load_all) (use assms in \<open>auto simp: has_files_def htmx_files_def\<close>)
qed

lemma openprops_loaded:
  assumes "has_files fs openprops_files"
  shows "openprops_Dependencies fs = (map2 (\<lambda>d p. (d, the (fs p))) (map style_dep openprops_names) openprops_files, None)"
proof -
  have "map (\<lambda>c. (\<lparr>dep_Type = DependencyTypeStyle, dep_Name = (case nameMap c of Some n \<Rightarrow> n | None \<Rightarrow> c)\<rparr>, ''css/'' @ c @ ''.css'')) openprops_Components =
      zip (map style_dep openprops_names) openprops_files" by code_simp
  then show ?thesis unfolding openprops_Dependencies_def
    by (subst load_all) (use assms in \<open>auto simp: has_files_def dest: set_zip_rightD\<close>)
qed

lemma load_names: "fst ` set (fst (load_components fs xs)) \<subseteq> fst ` set xs"
proof (induction xs)
  case (Cons x xs)
  obtain d p where x: "x = (d, p)" by fastforce
  obtain deps e where rest: "load_components fs xs = (deps, e)" by fastforce
  show ?case using Cons.IH unfolding x rest by (cases "fs p"; cases e) (simp_all add: rest subset_insertI2)
qed simp

lemma load_slash_free: "\<forall>x \<in> set xs. CHR ''/'' \<notin> set (dep_Name (fst x)) \<Longrightarrow> slash_free (fst (load_components fs xs))"
  using load_names [of fs xs] by (auto simp: slash_free_def) fastforce

lemma defaults_slash_free:
  "slash_free (fst (teapot_Dependencies fs))" "slash_free (fst (htmx_Dependencies fs))" "slash_free (fst (openprops_Dependencies fs))"
  unfolding teapot_Dependencies_def htmx_Dependencies_def openprops_Dependencies_def by (rule load_slash_free, code_simp)+

lemma new_renderer_wf:
  assumes "NewRenderer sha f1 f2 f3 (asset_dir es) = Ok rer" "list_all plain_name es" "\<And>c. hex (sha c)"
  shows "wf_renderer sha es rer"
proof -
  let ?fns = "[teapot_Dependencies f1, htmx_Dependencies f2, openprops_Dependencies f3]"
  have "\<forall>(deps, e) \<in> set ?fns. slash_free deps" using defaults_slash_free [of f1] defaults_slash_free [of f2] defaults_slash_free [of f3] by auto
  from register_functions_wf [where sha = sha, OF empty_renderer_wf assms(2,3) this, where errs = "[]"] assms(1) show ?thesis
    by (auto simp: NewRenderer_def Renderer_RegisterDependencies_def split: prod.splits outcome.splits)
qed

lemma new_renderer:
  assumes "has_files f1 teapot_files" "has_files f2 htmx_files" "has_files f3 openprops_files" "list_all plain_name es" "\<And>c. hex (sha c)"
  shows "\<exists>rer. NewRenderer sha f1 f2 f3 (asset_dir es) = Ok rer \<and> wf_renderer sha es rer \<and> cache_ok rer \<and> dom (rr_dependencies rer) = set known"
proof -
  let ?fns = "[teapot_Dependencies f1, htmx_Dependencies f2, openprops_Dependencies f3]" and ?rer = "empty_Renderer (asset_dir es)"
  have keys: "map fst (concat (map fst ?fns)) = known"
    unfolding teapot_loaded [OF assms(1)] htmx_loaded [OF assms(2)] openprops_loaded [OF assms(3)]
    by (simp add: map_zip_map known_def teapot_files_def htmx_files_def openprops_files_def) code_simp
  have names: "distinct known" by code_simp
  have set_keys: "fst ` set (concat (map fst ?fns)) = set known" by (simp only: keys [symmetric] set_map)
  have none: "\<forall>(deps, e) \<in> set ?fns. e = None"
    by (simp add: teapot_loaded [OF assms(1)] htmx_loaded [OF assms(2)] openprops_loaded [OF assms(3)])
  have "fst ` set (concat (map fst ?fns)) \<inter> dom (rr_dependencies ?rer) = {}" by (simp add: empty_Renderer_def)
  from register_functions_succeeds [OF none names [folded keys] this, of sha] obtain rer where
    rer: "register_functions sha ?fns [] ?rer = (Ok (), rer)" "rr_linearized rer = Map.empty"
    "dom (rr_dependencies rer) = set known" unfolding set_keys by (auto simp: empty_Renderer_def)
  have new: "NewRenderer sha f1 f2 f3 (asset_dir es) = Ok rer" using rer(1) by (simp add: NewRenderer_def Renderer_RegisterDependencies_def)
  show ?thesis using new new_renderer_wf [OF new assms(4,5)] rer by (simp add: cache_ok_def)
qed

section \<open>Properties of the renderer\<close>

lemma registrations_wf:
  assumes "wf_renderer sha es rer" "\<And>c. hex (sha c)" "list_all plain_name es" "\<forall>fns \<in> set calls. \<forall>(deps, e) \<in> set fns. slash_free deps"
  shows "wf_renderer sha es (fold (\<lambda>fns rer. snd (Renderer_RegisterDependencies sha fns rer)) calls rer)"
  using assms(1,4)
proof (induction calls arbitrary: rer)
  case (Cons fns calls)
  then show ?case using register_functions_wf [OF Cons.prems(1) assms(3,2), of fns "[]"] by (simp add: Renderer_RegisterDependencies_def)
qed simp

text \<open>
  C36. The registry of a renderer is well formed. In a renderer for a rooted directory of assets, after
  any calls that register more dependencies, successful or not, the path of a dependency is its
  name with the hash of its content, below that directory; the maps between dependencies and paths
  are inverse to each other; and a registered dependency is served under its path with its content.
\<close>

theorem registry_wf:
  assumes "\<And>c. hex (sha c)" "list_all plain_name es" "NewRenderer sha f1 f2 f3 (asset_dir es) = Ok rer0"
    and "\<forall>fns \<in> set calls. \<forall>(deps, e) \<in> set fns. slash_free deps"
    and "rer = fold (\<lambda>fns rer. snd (Renderer_RegisterDependencies sha fns rer)) calls rer0"
  shows "wf_renderer sha es rer \<and>
    (\<forall>d c. rr_dependencies rer d = Some c \<longrightarrow>
      (\<exists>path. Renderer_dependencyPath rer d = Ok path \<and> Renderer_Dependency rer path = Ok (d, c)))"
proof
  show wf: "wf_renderer sha es rer"
    unfolding assms(5) by (rule registrations_wf [OF new_renderer_wf [OF assms(3,2,1)] assms(1,2,4)])
  have "Renderer_dependencyPath rer d = Ok (asset_dir es @ file_name sha d c)" if "rr_dependencies rer d = Some c" for d c
    using wf that by (simp add: wf_renderer_def Renderer_dependencyPath_def)
  then show "\<forall>d c. rr_dependencies rer d = Some c \<longrightarrow>
      (\<exists>path. Renderer_dependencyPath rer d = Ok path \<and> Renderer_Dependency rer path = Ok (d, c))"
    using served [OF wf] by blast
qed

text \<open>Instances: a hash that gives the length in unary, JSON texts that are empty, and files without content.\<close>

definition ex_sha :: "string \<Rightarrow> string" where
  "ex_sha s = replicate (length s) (CHR ''a'')"

definition ex_marshal :: "string list \<Rightarrow> string outcome" where
  "ex_marshal xs = Ok ''[]''"

definition ex_files :: "string \<rightharpoonup> string" where
  "ex_files path = Some []"

interpretation ex_ui: ui_env ex_sha ex_marshal rev
  by unfold_locales (simp_all add: ex_sha_def ex_marshal_def hex_def set_replicate_conv_if)

lemma ex_has_files: "has_files ex_files names"
  by (auto simp: has_files_def ex_files_def)

lemma ex_plain: "list_all plain_name [''static'']"
  by code_simp

theorem registry_wf_witness:
  "\<exists>rer path. wf_renderer ex_sha [''static''] rer \<and> Renderer_dependencyPath rer (style_dep ''more'') = Ok path \<and>
    Renderer_Dependency rer path = Ok (style_dep ''more'', ''a{}'')"
proof -
  obtain rer0 where new: "NewRenderer ex_sha ex_files ex_files ex_files (asset_dir [''static'']) = Ok rer0" "dom (rr_dependencies rer0) = set known"
    using new_renderer [OF ex_has_files ex_has_files ex_has_files ex_plain, where sha = ex_sha, OF ex_ui.sha_hex] by blast
  define rer where "rer = fold (\<lambda>fns rer. snd (Renderer_RegisterDependencies ex_sha fns rer)) [[([(style_dep ''more'', ''a{}'')], None)]] rer0"
  have free: "\<forall>fns \<in> set [[([(style_dep ''more'', ''a{}'')], None)]]. \<forall>(deps, e) \<in> set fns. slash_free deps"
    by (simp add: slash_free_def style_dep_def)
  have "style_dep ''more'' \<notin> set known" by code_simp
  then have "rr_dependencies rer0 (style_dep ''more'') = None" using new(2) by auto
  then have "rr_dependencies rer (style_dep ''more'') = Some ''a{}''"
    by (simp add: rer_def Renderer_RegisterDependencies_def go_bind_def register_dependency_def Let_def)
  with registry_wf [where sha = ex_sha, OF ex_ui.sha_hex ex_plain new(1) free rer_def] show ?thesis by blast
qed

definition page_rendered :: "(string \<Rightarrow> string) \<Rightarrow> (string list \<Rightarrow> string outcome) \<Rightarrow> (Dependency list \<Rightarrow> Dependency list) \<Rightarrow> (Style list \<Rightarrow> Style list) \<Rightarrow>
    AlreadyLoaded \<times> Style list list \<Rightarrow> Renderer \<Rightarrow> Renderer" where
  "page_rendered sha marshal rangeD rangeS = (\<lambda>(loaded, calls) rer.
     case Renderer_renderWithDependencies sha marshal rangeD rangeS loaded (component_of () calls) rer of None \<Rightarrow> rer | Some (_, rer') \<Rightarrow> rer')"

lemma page_keeps:
  assumes "ui_env sha marshal rangeD" "wf_renderer sha es rer" "cache_ok rer" "dom (rr_dependencies rer) = set known" "depends_on (snd x) \<subseteq> set known"
  shows "wf_renderer sha es (page_rendered sha marshal rangeD rangeS x rer) \<and> cache_ok (page_rendered sha marshal rangeD rangeS x rer) \<and>
    dom (rr_dependencies (page_rendered sha marshal rangeD rangeS x rer)) = set known"
proof -
  have "set defaultDependencies \<subseteq> set known" by code_simp
  then have "set defaultDependencies \<union> depends_on (snd x) \<subseteq> dom (rr_dependencies rer)" using assms(4,5) by auto
  from ui_env.render_refers [OF assms(1-3) this, of rangeS "fst x" "()"] obtain links scripts m where
    "Renderer_renderWithDependencies sha marshal rangeD rangeS (fst x) (component_of () (snd x)) rer = Some (Ok (links, scripts, ()), rer\<lparr>rr_linearized := m\<rparr>)"
    and wf: "wf_renderer sha es (rer\<lparr>rr_linearized := m\<rparr>)" "cache_ok (rer\<lparr>rr_linearized := m\<rparr>)" by blast
  then have "page_rendered sha marshal rangeD rangeS x rer = rer\<lparr>rr_linearized := m\<rparr>" by (simp add: page_rendered_def case_prod_beta)
  then show ?thesis using wf assms(4) by simp
qed

lemma pages_keep:
  assumes "ui_env sha marshal rangeD" "wf_renderer sha es rer" "cache_ok rer" "dom (rr_dependencies rer) = set known"
    and "\<forall>x \<in> set pages. depends_on (snd x) \<subseteq> set known"
  shows "wf_renderer sha es (fold (page_rendered sha marshal rangeD rangeS) pages rer) \<and> cache_ok (fold (page_rendered sha marshal rangeD rangeS) pages rer) \<and>
    dom (rr_dependencies (fold (page_rendered sha marshal rangeD rangeS) pages rer)) = set known"
  using assms(2-5)
proof (induction pages arbitrary: rer)
  case (Cons x pages)
  then show ?case using page_keeps [OF assms(1) Cons.prems(1-3), of x rangeS] by simp
qed simp

lemma asset_answered:
  assumes "wf_renderer sha es rer" "rr_dependencies rer d = Some c" "wq_path r = asset_dir es @ file_name sha d c" "ws_renderer w = rer" "resp_status w = None"
  shows "\<exists>w'. AssetHandler h contact (\<lambda>b. Ok (length b)) r w = (Ok (), w') \<and> resp_status w' = Some 200 \<and> resp_body w' = resp_body w @ c"
  using assms served [OF assms(1,2)]
  by (simp add: AssetHandler_def finish_def ServeDependencies_def no_error_def httphandler_Write_def ResponseWriter_Write_def WriteHeader_def
      HTTPHandler_Adapt_def go_bind_def go_wrap_def Let_def StatusOK_def)

text \<open>
  C37. Pages name only files that are served. With the embedded files in place the renderer is
  created, and after any number of pages it renders a component whose styles use variables of the
  known packages without an error; each style sheet and each script that the elements link to is
  answered by the handler of the assets with status 200 and the content whose hash is in its name.
\<close>

theorem pages_served:
  assumes "ui_env sha marshal rangeD" "list_all plain_name es" "has_files f1 teapot_files" "has_files f2 htmx_files" "has_files f3 openprops_files"
    and "\<forall>x \<in> set pages. depends_on (snd x) \<subseteq> set known" "depends_on calls \<subseteq> set known"
  shows "\<exists>rer0. NewRenderer sha f1 f2 f3 (asset_dir es) = Ok rer0 \<and>
    (\<exists>(links :: 'n Node list) scripts rer. Renderer_renderWithDependencies sha marshal rangeD rangeS loaded (component_of node calls)
        (fold (page_rendered sha marshal rangeD rangeS) pages rer0) = Some (Ok (links, scripts, node), rer) \<and>
      (\<forall>url. Link url \<in> set links \<or> ScriptSrc url \<in> set scripts \<longrightarrow>
        (\<exists>d c. url = asset_dir es @ file_name sha d c \<and>
          (\<forall>h contact r w. wq_path r = url \<and> ws_renderer w = rer \<and> resp_status w = None \<longrightarrow>
            (\<exists>w'. AssetHandler h contact (\<lambda>b. Ok (length b)) r w = (Ok (), w') \<and> resp_status w' = Some 200 \<and> resp_body w' = resp_body w @ c)))))"
proof -
  obtain rer0 where new: "NewRenderer sha f1 f2 f3 (asset_dir es) = Ok rer0" "wf_renderer sha es rer0" "cache_ok rer0" "dom (rr_dependencies rer0) = set known"
    using new_renderer [OF assms(3-5,2), where sha = sha] ui_env.sha_hex [OF assms(1)] by blast
  let ?rer = "fold (page_rendered sha marshal rangeD rangeS) pages rer0"
  have keep: "wf_renderer sha es ?rer" "cache_ok ?rer" "dom (rr_dependencies ?rer) = set known"
    using pages_keep [OF assms(1) new(2-4) assms(6)] by blast+
  have "set defaultDependencies \<subseteq> set known" by code_simp
  then have "set defaultDependencies \<union> depends_on calls \<subseteq> dom (rr_dependencies ?rer)" unfolding keep(3) using assms(7) by (rule Un_least)
  from ui_env.render_refers [OF assms(1) keep(1,2) this, of rangeS loaded node] obtain scripts m and links :: "'n Node list" where
    res: "Renderer_renderWithDependencies sha marshal rangeD rangeS loaded (component_of node calls) ?rer = Some (Ok (links, scripts, node), ?rer\<lparr>rr_linearized := m\<rparr>)"
      "wf_renderer sha es (?rer\<lparr>rr_linearized := m\<rparr>)" "\<forall>n \<in> set (links @ scripts). refers sha es ?rer n" by blast
  have "\<exists>d c. rr_dependencies (?rer\<lparr>rr_linearized := m\<rparr>) d = Some c \<and> url = asset_dir es @ file_name sha d c"
    if "Link url \<in> set links \<or> ScriptSrc url \<in> set scripts" for url
    using that res(3) by (auto simp: refers_def)
  moreover have "\<exists>w'. AssetHandler h contact (\<lambda>b. Ok (length b)) r w = (Ok (), w') \<and> resp_status w' = Some 200 \<and> resp_body w' = resp_body w @ c"
    if "rr_dependencies (?rer\<lparr>rr_linearized := m\<rparr>) d = Some c" "url = asset_dir es @ file_name sha d c"
      "wq_path r = url \<and> ws_renderer w = ?rer\<lparr>rr_linearized := m\<rparr> \<and> resp_status w = None" for d c url h contact r and w :: web_state
    using asset_answered [OF res(2) that(1)] that(2,3) by simp
  ultimately have "\<exists>d c. url = asset_dir es @ file_name sha d c \<and>
          (\<forall>h contact r w. wq_path r = url \<and> ws_renderer w = ?rer\<lparr>rr_linearized := m\<rparr> \<and> resp_status w = None \<longrightarrow>
            (\<exists>w'. AssetHandler h contact (\<lambda>b. Ok (length b)) r w = (Ok (), w') \<and> resp_status w' = Some 200 \<and> resp_body w' = resp_body w @ c))"
    if "Link url \<in> set links \<or> ScriptSrc url \<in> set scripts" for url
    using that by metis
  then show ?thesis using new(1) res(1) by blast
qed

definition ex_style :: Style where
  "ex_style = \<lparr>st_id = ''s0'', st_css = ''margin: var(--size-2)'', st_dependencies = [style_dep ''size'']\<rparr>"

theorem pages_served_witness:
  "fst (ParseStyle (\<lambda>n. Ok ''0'') ''margin: var(--size-2)'' 0) = Ok ex_style \<and>
   (\<exists>rer0 (links :: nat Node list) scripts rer. NewRenderer ex_sha ex_files ex_files ex_files ''/static/'' = Ok rer0 \<and>
     Renderer_renderWithDependencies ex_sha ex_marshal rev rev EmptyAlreadyLoaded (component_of 7 [[ex_style]])
       (page_rendered ex_sha ex_marshal rev rev (EmptyAlreadyLoaded, []) rer0) = Some (Ok (links, scripts, 7), rer))"
proof
  show "fst (ParseStyle (\<lambda>n. Ok ''0'') ''margin: var(--size-2)'' 0) = Ok ex_style" by code_simp
  have dir: "asset_dir [''static''] = ''/static/''" by code_simp
  have "style_dep ''size'' \<in> set known" by code_simp
  then have "depends_on [[ex_style]] \<subseteq> set known" "\<forall>x \<in> set [(EmptyAlreadyLoaded, [])]. depends_on (snd x) \<subseteq> set known"
    by (simp_all add: depends_on_def ex_style_def)
  from pages_served [OF ex_ui.ui_env_axioms ex_plain ex_has_files ex_has_files ex_has_files this(2,1), of rev EmptyAlreadyLoaded "7 :: nat"]
  show "\<exists>rer0 (links :: nat Node list) scripts rer. NewRenderer ex_sha ex_files ex_files ex_files ''/static/'' = Ok rer0 \<and>
     Renderer_renderWithDependencies ex_sha ex_marshal rev rev EmptyAlreadyLoaded (component_of 7 [[ex_style]])
       (page_rendered ex_sha ex_marshal rev rev (EmptyAlreadyLoaded, []) rer0) = Some (Ok (links, scripts, 7), rer)"
    unfolding dir by auto
qed

end
