(* ===== verification/S3_Cache_Proof.thy ===== *)
theory S3_Cache_Proof
  imports S3_Cache
begin

text \<open>
  The invariant of the S3 cache and what follows from it: every entry of the metadata has its file,
  with the content the hash stands for, and the entries never exceed the capacity.
\<close>

section \<open>Atomic writes\<close>

text \<open>
  A write replaces the file or leaves it as it was, and touches no other file; a file that was not
  there may appear.
\<close>

lemma writeFileAtomic_effect:
  assumes "writeFileAtomic tmp path p d = (r, d')"
  shows "ends True r \<and> dk_time d' = dk_time d \<and> (\<forall>q \<in> dom (dk_files d). q \<noteq> path \<longrightarrow> dk_files d' q = dk_files d q) \<and>
    (r = Ok () \<longrightarrow> dk_files d' path = Some p) \<and>
    (r \<noteq> Ok () \<longrightarrow> path \<in> dom (dk_files d) \<longrightarrow> dk_files d' path = dk_files d path)"
proof -
  define f where "f = length (dk_handles d)"
  define name where "name = tmp f path"
  consider (fault) e d1 where "os_CreateTemp tmp path d = (Err e, d1)" "dk_files d1 = dk_files d" "dk_time d1 = dk_time d"
    | (created) d1 where "os_CreateTemp tmp path d = (Ok (f, name), d1)" "dk_files d name = None"
        "dk_files d1 = (dk_files d)(name \<mapsto> [])" "dk_handles d1 ! f = (name, False)" "dk_time d1 = dk_time d"
    unfolding os_CreateTemp_def
    by (rule syscall_cases [of "\<lambda>d. let name = tmp (length (dk_handles d)) path in
          if dk_files d name \<noteq> None then (Err os_ErrExist, d)
          else (Ok (length (dk_handles d), name), d\<lparr>dk_files := (dk_files d)(name \<mapsto> []), dk_handles := dk_handles d @ [(name, False)]\<rparr>)" d])
       (auto simp: Let_def f_def name_def split: if_splits)
  then show ?thesis
  proof cases
    case fault
    then show ?thesis using assms by (auto simp: writeFileAtomic_def go_bind_def go_wrap_def)
  next
    case created
    obtain r2 d2 where copy: "copy_to f p d1 = (r2, d2)" by (cases "copy_to f p d1")
    have "\<exists>c. dk_files d2 = (dk_files d)(name \<mapsto> c) \<and> dk_time d2 = dk_time d \<and> (r2 = Ok () \<longrightarrow> c = p) \<and> ends True r2"
    proof (cases "p = []")
      case True
      then show ?thesis using copy created by (auto simp: copy_to_def)
    next
      case False
      obtain x d1' where fault: "next_fault d1 = (x, d1')" by (cases "next_fault d1")
      note d1' = next_faultD [OF fault]
      show ?thesis
        by (rule exI [of _ "case x of None \<Rightarrow> p | Some n \<Rightarrow> take (min n (length p - 1)) p"])
           (use copy created fault d1' False in \<open>cases x; auto simp: copy_to_def File_Write_def append_file_def Let_def\<close>)
    qed
    then obtain c where d2: "dk_files d2 = (dk_files d)(name \<mapsto> c)" "dk_time d2 = dk_time d" "r2 = Ok () \<Longrightarrow> c = p" "ends True r2"
      by blast
    obtain r3 d3 where close: "File_Close (Some f) d2 = (r3, d3)" by (cases "File_Close (Some f) d2")
    note d3 = Close_effect [OF close]
    obtain r4 d4 where rename: "os_Rename name path d3 = (r4, d4)" by (cases "os_Rename name path d3")
    note d4 = Rename_effect [OF rename]
    have res: "writeFileAtomic tmp path p d =
        go_bind (go_wrap ''error while writing data to temporary file'' (copy_to f p)) (\<lambda>_.
        go_bind (go_wrap ''error while closing temporary file after write'' (File_Close (Some f))) (\<lambda>_. os_Rename name path)) d1"
      by (simp add: writeFileAtomic_def created)
    have "path \<noteq> name" if "path \<in> dom (dk_files d)" using that created(2) by auto
    then show ?thesis
      using assms d2 d3 d4 created(2,5) unfolding res
      by (cases r2; cases r3) (auto simp: go_bind_def go_wrap_def copy close rename split: if_splits)
  qed
qed

section \<open>The entries\<close>

definition meta_path :: "'r S3Cache \<Rightarrow> string" where
  "meta_path c = filepath_Join [sc_path c, v1MetadataFileName]"

text \<open>Every entry has its key, and its file holds the content that its size and hash describe.\<close>

definition backed :: "'r S3Cache \<Rightarrow> (bytes \<Rightarrow> Hash) \<Rightarrow> (string \<times> entry) list \<Rightarrow> (string \<rightharpoonup> bytes) \<Rightarrow> bool" where
  "backed c tag es files \<longleftrightarrow> (\<forall>k e. (k, e) \<in> set es \<longrightarrow> en_Key e = k \<and>
     (\<exists>p. files (S3Cache_dataPath c (en_ID e)) = Some p \<and> en_Size e = int (length p) \<and> en_Hash e = tag p))"

text \<open>The identifiers are distinct and come from the first \<open>n\<close> of the supply.\<close>

definition ids_ok :: "'r S3Cache \<Rightarrow> nat \<Rightarrow> (string \<times> entry) list \<Rightarrow> bool" where
  "ids_ok c n es \<longleftrightarrow> distinct (map fst es) \<and>
     (\<forall>k e. (k, e) \<in> set es \<longrightarrow> (\<exists>j < n. en_ID e = sc_uuid c j)) \<and>
     (\<forall>k e k' e'. (k, e) \<in> set es \<longrightarrow> (k', e') \<in> set es \<longrightarrow> en_ID e = en_ID e' \<longrightarrow> k = k')"

definition entries_size :: "(string \<times> entry) list \<Rightarrow> int" where
  "entries_size es = sum_list (map (en_Size \<circ> snd) es)"

definition cache_inv :: "'r S3Cache \<Rightarrow> (bytes \<Rightarrow> Hash) \<Rightarrow> 'r cache_state \<Rightarrow> bool" where
  "cache_inv c tag s \<longleftrightarrow> ms_path (cs_meta s) = meta_path c \<and> 0 \<le> ms_size (cs_meta s) \<and>
     backed c tag (ms_byKey (cs_meta s)) (dk_files (cs_disk s)) \<and> ids_ok c (cs_uuids s) (ms_byKey (cs_meta s)) \<and>
     entries_size (ms_byKey (cs_meta s)) \<le> sc_capacity c"

lemma entries_update:
  "distinct (map fst es) \<Longrightarrow> entries_size (AList.update k e es) =
     entries_size es - (case map_of es k of None \<Rightarrow> 0 | Some e' \<Rightarrow> en_Size e') + en_Size e"
  by (induction es) (auto simp: entries_size_def split: option.splits dest: map_of_SomeD)

lemma set_update_cases:
  assumes "(k', e') \<in> set (AList.update k e es)" "distinct (map fst es)"
  shows "(k' = k \<and> e' = e) \<or> (k' \<noteq> k \<and> (k', e') \<in> set es)"
proof -
  have "distinct (map fst (AList.update k e es))" using assms(2) by (rule distinct_update)
  then have "map_of (AList.update k e es) k' = Some e'" using assms(1) by (simp add: map_of_eq_Some_iff)
  then show ?thesis by (auto simp: update_conv' split: if_splits dest: map_of_SomeD)
qed

lemma backed_subset: "backed c tag es fs \<Longrightarrow> set es' \<subseteq> set es \<Longrightarrow> backed c tag es' fs"
  unfolding backed_def by blast

lemma ids_subset: "ids_ok c n es \<Longrightarrow> set es' \<subseteq> set es \<Longrightarrow> distinct (map fst es') \<Longrightarrow> ids_ok c n es'"
  unfolding ids_ok_def by blast

lemma ids_mono: "ids_ok c n es \<Longrightarrow> n \<le> m \<Longrightarrow> ids_ok c m es"
  unfolding ids_ok_def by (meson order_less_le_trans)

lemma backed_sizes: "backed c tag es fs \<Longrightarrow> \<forall>x \<in> set es. 0 \<le> en_Size (snd x)"
  by (force simp: backed_def)

lemma entries_delete:
  "\<forall>x \<in> set es. 0 \<le> en_Size (snd x) \<Longrightarrow> entries_size (AList.delete k es) \<le> entries_size es"
  by (induction es) (auto simp: entries_size_def)

section \<open>Names\<close>

text \<open>
  What the cache relies on: a path; unique identifiers, whose text has no separator; and tags of the
  bucket that stand for the content.
\<close>

locale s3_cache =
  fixes c :: "'r S3Cache" and tag :: "bytes \<Rightarrow> Hash"
  assumes path: "sc_path c \<noteq> []"
    and uuid_text: "plain_name (take 2 (sc_uuid c n))" "plain_name (drop 2 (sc_uuid c n))"
    and uuid_unique: "sc_uuid c i = sc_uuid c j \<Longrightarrow> i = j"
    and PutObject_tag: "mn_PutObject (sc_client c) b k p x = (Ok h, x') \<Longrightarrow> h = tag p"
    and ReadAll_tag: "mn_Stat (sc_client c) b k x = (Ok h, x1) \<Longrightarrow> mn_ReadAll (sc_client c) b k x1 = (Ok p, x2) \<Longrightarrow> h = tag p"
begin

lemma dataPath_inj: "S3Cache_dataPath c (sc_uuid c i) = S3Cache_dataPath c (sc_uuid c j) \<longleftrightarrow> i = j"
proof
  assume "S3Cache_dataPath c (sc_uuid c i) = S3Cache_dataPath c (sc_uuid c j)"
  then have "[take 2 (sc_uuid c i), drop 2 (sc_uuid c i)] = [take 2 (sc_uuid c j), drop 2 (sc_uuid c j)]"
    unfolding S3Cache_dataPath_def by (intro Join_below_inj [OF path]) (simp_all add: uuid_text)
  then have "sc_uuid c i = sc_uuid c j" by (metis append_take_drop_id list.inject)
  then show "i = j" by (rule uuid_unique)
qed simp

lemma dataPath_meta: "S3Cache_dataPath c (sc_uuid c i) \<noteq> meta_path c"
proof
  assume "S3Cache_dataPath c (sc_uuid c i) = meta_path c"
  then have "[take 2 (sc_uuid c i), drop 2 (sc_uuid c i)] = [v1MetadataFileName]"
    unfolding S3Cache_dataPath_def meta_path_def
    by (intro Join_below_inj [OF path]) (simp_all add: uuid_text, simp add: plain_name_def v1MetadataFileName_def)
  then show False by simp
qed

lemma backed_files:
  assumes "backed c tag es fs" "ids_ok c n es" "\<forall>q \<in> dom fs. q \<noteq> meta_path c \<longrightarrow> fs' q = fs q"
  shows "backed c tag es fs'"
proof -
  have "fs' (S3Cache_dataPath c (en_ID e)) = fs (S3Cache_dataPath c (en_ID e))" if mem: "(k, e) \<in> set es" for k e
  proof -
    obtain j where "en_ID e = sc_uuid c j" using assms(2) mem unfolding ids_ok_def by blast
    then have "S3Cache_dataPath c (en_ID e) \<noteq> meta_path c" by (simp add: dataPath_meta)
    moreover have "S3Cache_dataPath c (en_ID e) \<in> dom fs" using assms(1) mem by (auto simp: backed_def)
    ultimately show ?thesis using assms(3) by blast
  qed
  then show ?thesis using assms(1) by (auto simp: backed_def)
qed

text \<open>Writing the metadata changes the metadata file and its recorded size.\<close>

lemma persist_effect:
  assumes "metadataStore_persistLocked c s = (r, s')"
  shows "cs_uuids s' = cs_uuids s \<and> cs_remote s' = cs_remote s \<and> ms_byKey (cs_meta s') = ms_byKey (cs_meta s) \<and>
    ms_path (cs_meta s') = ms_path (cs_meta s) \<and> (ms_size (cs_meta s') = ms_size (cs_meta s) \<or> 0 \<le> ms_size (cs_meta s')) \<and>
    dk_time (cs_disk s') = dk_time (cs_disk s) \<and>
    (\<forall>q \<in> dom (dk_files (cs_disk s)). q \<noteq> ms_path (cs_meta s) \<longrightarrow> dk_files (cs_disk s') q = dk_files (cs_disk s) q) \<and>
    (r = Ok () \<longrightarrow> (\<exists>raw. mj_Marshal (sc_json c) (map snd (ms_byKey (cs_meta s))) = Ok raw \<and>
       dk_files (cs_disk s') (ms_path (cs_meta s)) = Some raw))"
proof (cases "mj_Marshal (sc_json c) (map snd (ms_byKey (cs_meta s)))")
  case (Ok raw)
  obtain r1 d1 where w: "writeFileAtomic (sc_tmp c) (ms_path (cs_meta s)) raw (cs_disk s) = (r1, d1)"
    by (cases "writeFileAtomic (sc_tmp c) (ms_path (cs_meta s)) raw (cs_disk s)")
  show ?thesis
    using assms Ok writeFileAtomic_effect [OF w] by (auto simp: metadataStore_persistLocked_def go_bind_def go_wrap_def in_meta_def in_disk_def w)
qed (use assms in \<open>auto simp: metadataStore_persistLocked_def go_bind_def go_wrap_def\<close>)

subsection \<open>Eviction\<close>

lemma remove_byKey: "ms_byKey (metadataStore_remove k ms) = AList.delete k (ms_byKey ms)"
  by (simp add: metadataStore_remove_def delete_id map_of_eq_None_iff)

lemma remove_other: "ms_path (metadataStore_remove k ms) = ms_path ms" "ms_size (metadataStore_remove k ms) = ms_size ms"
  by (simp_all add: metadataStore_remove_def)

lemma fold_remove:
  "ms_path (fold metadataStore_remove ks ms) = ms_path ms \<and> ms_size (fold metadataStore_remove ks ms) = ms_size ms \<and>
   set (ms_byKey (fold metadataStore_remove ks ms)) \<subseteq> {x \<in> set (ms_byKey ms). fst x \<notin> set ks}"
proof (induction ks arbitrary: ms)
  case (Cons k ks)
  have "set (ms_byKey (metadataStore_remove k ms)) \<subseteq> {x \<in> set (ms_byKey ms). fst x \<noteq> k}"
    by (auto simp: remove_byKey AList.delete_eq)
  with Cons [of "metadataStore_remove k ms"] show ?case by (auto simp: remove_other)
qed simp

lemma reclaim_none: "diff \<le> freed \<Longrightarrow> reclaim_loop heap freed diff ms = ([], ms)"
  by (cases heap) simp_all

text \<open>What was freed is counted downwards, so that the loop ends with the last candidate.\<close>

lemma reclaim_all:
  "freed < diff \<Longrightarrow> \<forall>x \<in> set heap. 0 \<le> sn_Size x \<Longrightarrow>
   reclaim_loop heap freed diff ms = (heap, fold metadataStore_remove (map sn_Key heap) ms)"
  by (induction heap arbitrary: freed ms) (simp_all split: prod.splits)

lemma reclaim_empties:
  assumes "backed c tag (ms_byKey ms) fs" "0 < diff"
  shows "reclaim_loop (metadataStore_lruHeap ms) 0 diff ms =
    (metadataStore_lruHeap ms, (fold metadataStore_remove (map sn_Key (metadataStore_lruHeap ms)) ms)) \<and>
    ms_byKey (fold metadataStore_remove (map sn_Key (metadataStore_lruHeap ms)) ms) = []"
proof -
  have "\<forall>x \<in> set (metadataStore_lruHeap ms). 0 \<le> sn_Size x"
    using backed_sizes [OF assms(1)] by (auto simp: metadataStore_lruHeap_def)
  moreover have "fst x \<in> sn_Key ` set (metadataStore_lruHeap ms)" if "x \<in> set (ms_byKey ms)" for x
    using assms(1) that by (cases x) (force simp: metadataStore_lruHeap_def backed_def)
  then have "{x \<in> set (ms_byKey ms). fst x \<notin> sn_Key ` set (metadataStore_lruHeap ms)} = {}" by simp
  then have "set (ms_byKey (fold metadataStore_remove (map sn_Key (metadataStore_lruHeap ms)) ms)) = {}"
    using fold_remove [of "map sn_Key (metadataStore_lruHeap ms)" ms] unfolding set_map by (metis subset_empty)
  ultimately show ?thesis using assms(2) by (simp add: reclaim_all)
qed

subsection \<open>Storing\<close>

text \<open>
  Before an entry is stored: the invariant, the identifier is that of the key, no other key has it,
  and there is room.
\<close>

definition ready :: "string \<Rightarrow> string \<Rightarrow> int \<Rightarrow> 'r cache_state \<Rightarrow> bool" where
  "ready key uid sz s \<longleftrightarrow> cache_inv c tag s \<and> (\<exists>j < cs_uuids s. uid = sc_uuid c j) \<and>
     (\<forall>k e. (k, e) \<in> set (ms_byKey (cs_meta s)) \<longrightarrow> (en_ID e = uid \<longleftrightarrow> k = key)) \<and>
     entries_size (ms_byKey (cs_meta s)) - (case map_of (ms_byKey (cs_meta s)) key of None \<Rightarrow> 0 | Some e \<Rightarrow> en_Size e) + sz \<le> sc_capacity c"

lemma inv_cong:
  assumes "cache_inv c tag s" "cs_uuids s' = cs_uuids s" "ms_byKey (cs_meta s') = ms_byKey (cs_meta s)"
    "ms_path (cs_meta s') = ms_path (cs_meta s)" "0 \<le> ms_size (cs_meta s')"
    "\<forall>q \<in> dom (dk_files (cs_disk s)). q \<noteq> meta_path c \<longrightarrow> dk_files (cs_disk s') q = dk_files (cs_disk s) q"
  shows "cache_inv c tag s'"
  using assms backed_files [of "ms_byKey (cs_meta s)" "dk_files (cs_disk s)" "cs_uuids s" "dk_files (cs_disk s')"]
  by (simp add: cache_inv_def)

lemma persist_inv:
  assumes "metadataStore_persistLocked c s = (r, s')" "cache_inv c tag s"
  shows "cache_inv c tag s'"
  by (rule inv_cong [OF assms(2)]) (use persist_effect [OF assms(1)] assms(2) in \<open>auto simp: cache_inv_def\<close>)

lemma entries_nonneg: "cache_inv c tag s \<Longrightarrow> 0 \<le> entries_size (ms_byKey (cs_meta s))"
  using backed_sizes unfolding entries_size_def cache_inv_def by (fastforce intro: sum_list_nonneg)

lemma removals_keep:
  "cs_uuids (snd (go_each (\<lambda>x. go_wrap m (in_disk (os_Remove (f x)))) xs s)) = cs_uuids s \<and>
   cs_meta (snd (go_each (\<lambda>x. go_wrap m (in_disk (os_Remove (f x)))) xs s)) = cs_meta s \<and>
   cs_remote (snd (go_each (\<lambda>x. go_wrap m (in_disk (os_Remove (f x)))) xs s)) = cs_remote s"
proof (induction xs arbitrary: s)
  case (Cons x xs)
  obtain r d where rm: "os_Remove (f x) (cs_disk s) = (r, d)" by (cases "os_Remove (f x) (cs_disk s)")
  show ?case using Cons by (cases r) (simp_all add: go_bind_def go_wrap_def in_disk_def rm)
qed simp

lemma reclaim_effect:
  assumes "S3Cache_reclaimSpace c diff s = (r, s')" "cache_inv c tag s"
  shows "cs_uuids s' = cs_uuids s \<and> cs_remote s' = cs_remote s \<and> cache_inv c tag s' \<and>
    ms_byKey (cs_meta s') = (if 0 < diff then [] else ms_byKey (cs_meta s))"
proof (cases "0 < diff")
  case False
  obtain r1 s1 where p: "metadataStore_persistLocked c s = (r1, s1)" by (cases "metadataStore_persistLocked c s")
  have "s' = s1"
    using assms(1) False by (cases r1) (auto simp: S3Cache_reclaimSpace_def reclaim_none go_bind_def go_wrap_def p)
  then show ?thesis using persist_effect [OF p] persist_inv [OF p assms(2)] False by simp
next
  case True
  let ?heap = "metadataStore_lruHeap (cs_meta s)"
  let ?ms = "fold metadataStore_remove (map sn_Key ?heap) (cs_meta s)"
  have "backed c tag (ms_byKey (cs_meta s)) (dk_files (cs_disk s))" using assms(2) by (simp add: cache_inv_def)
  note loop = reclaim_empties [OF this True]
  obtain r1 s1 where p: "metadataStore_persistLocked c (s\<lparr>cs_meta := ?ms\<rparr>) = (r1, s1)"
    by (cases "metadataStore_persistLocked c (s\<lparr>cs_meta := ?ms\<rparr>)")
  note eff = persist_effect [OF p, simplified]
  let ?each = "go_each (\<lambda>x. go_wrap ''error while removing S3 cached key (file)'' (in_disk (os_Remove (S3Cache_dataPath c (sn_ID x))))) ?heap"
  have "s' = (if r1 = Ok () then snd (?each s1) else s1)"
    using assms(1) loop by (cases r1) (auto simp: S3Cache_reclaimSpace_def go_bind_def go_wrap_def p)
  then have s': "cs_uuids s' = cs_uuids s" "cs_remote s' = cs_remote s" "cs_meta s' = cs_meta s1"
    using eff removals_keep [of _ "\<lambda>x. S3Cache_dataPath c (sn_ID x)" ?heap s1] by auto
  have "ms_byKey (cs_meta s1) = []" "ms_path (cs_meta s1) = meta_path c" "0 \<le> ms_size (cs_meta s1)"
    using eff loop fold_remove [of "map sn_Key ?heap" "cs_meta s"] assms(2) by (auto simp: cache_inv_def)
  moreover have "0 \<le> sc_capacity c" using entries_nonneg [OF assms(2)] assms(2) by (simp add: cache_inv_def)
  ultimately show ?thesis using s' True by (simp add: cache_inv_def backed_def ids_ok_def entries_size_def)
qed

lemma ready_reclaimed:
  assumes "S3Cache_reclaimSpace c diff s = (Ok (), s')" "ready key uid sz s" "sz < sc_capacity c"
  shows "ready key uid sz s'"
  using reclaim_effect [OF assms(1)] assms(2,3) by (auto simp: ready_def entries_size_def split: if_splits)

lemma data_file_written:
  assumes "writeFileAtomic (sc_tmp c) (S3Cache_dataPath c uid) p (cs_disk s) = (r, d)" "ready key uid sz s"
  shows "(r \<noteq> Ok () \<longrightarrow> cache_inv c tag (s\<lparr>cs_disk := d\<rparr>)) \<and> (\<forall>k e. (k, e) \<in> set (ms_byKey (cs_meta s)) \<longrightarrow> k \<noteq> key \<longrightarrow>
    dk_files d (S3Cache_dataPath c (en_ID e)) = dk_files (cs_disk s) (S3Cache_dataPath c (en_ID e)))"
proof -
  note w = writeFileAtomic_effect [OF assms(1)]
  have inv: "cache_inv c tag s" using assms(2) by (simp add: ready_def)
  have mem: "S3Cache_dataPath c (en_ID e) \<in> dom (dk_files (cs_disk s))" if "(k, e) \<in> set (ms_byKey (cs_meta s))" for k e
    using inv that by (auto simp: cache_inv_def backed_def)
  have other: "S3Cache_dataPath c (en_ID e) \<noteq> S3Cache_dataPath c uid" if entry: "(k, e) \<in> set (ms_byKey (cs_meta s))" "k \<noteq> key" for k e
  proof -
    have "en_ID e \<noteq> uid" using assms(2) entry by (auto simp: ready_def)
    moreover obtain i j where "en_ID e = sc_uuid c i" "uid = sc_uuid c j"
      using assms(2) inv entry unfolding ready_def cache_inv_def ids_ok_def by blast
    ultimately show ?thesis using dataPath_inj by metis
  qed
  have "cache_inv c tag (s\<lparr>cs_disk := d\<rparr>)" if "r \<noteq> Ok ()"
  proof (rule inv_cong [OF inv])
    show "\<forall>q \<in> dom (dk_files (cs_disk s)). q \<noteq> meta_path c \<longrightarrow> dk_files (cs_disk (s\<lparr>cs_disk := d\<rparr>)) q = dk_files (cs_disk s) q"
      using w that by simp metis
  qed (use inv in \<open>simp_all add: cache_inv_def\<close>)
  then show ?thesis using w mem other by blast
qed

lemma put_inv:
  assumes "ready key uid (int (length p)) s"
    and "\<forall>k e. (k, e) \<in> set (ms_byKey (cs_meta s)) \<longrightarrow> k \<noteq> key \<longrightarrow>
      dk_files d (S3Cache_dataPath c (en_ID e)) = dk_files (cs_disk s) (S3Cache_dataPath c (en_ID e))"
    and "dk_files d (S3Cache_dataPath c uid) = Some p"
  shows "cache_inv c tag (s\<lparr>cs_disk := d, cs_meta := metadataStore_put now key uid (tag p) (int (length p)) (cs_meta s)\<rparr>)"
proof -
  let ?es = "ms_byKey (cs_meta s)"
  have inv: "cache_inv c tag s" using assms(1) by (simp add: ready_def)
  then have dist: "distinct (map fst ?es)" by (simp add: cache_inv_def ids_ok_def)
  define e where "e = (case map_of ?es key of Some e \<Rightarrow> e
    | None \<Rightarrow> \<lparr>en_ID = uid, en_Key = key, en_Hash = [], en_Size = 0, en_StoredAt = 0, en_lastAccess = 0\<rparr>)"
  have old: "en_ID e = uid \<and> en_Key e = key"
  proof (cases "map_of ?es key")
    case (Some e')
    then have "(key, e') \<in> set ?es" by (rule map_of_SomeD)
    then show ?thesis using assms(1) inv Some by (auto simp: e_def ready_def cache_inv_def backed_def)
  qed (simp add: e_def)
  define e' where "e' = entry_touch now (e\<lparr>en_Hash := tag p, en_Size := int (length p), en_StoredAt := now\<rparr>)"
  have put: "metadataStore_put now key uid (tag p) (int (length p)) (cs_meta s) = (cs_meta s)\<lparr>ms_byKey := AList.update key e' ?es\<rparr>"
    by (simp add: metadataStore_put_def e_def e'_def Let_def)
  have e': "en_ID e' = uid" "en_Key e' = key" "en_Hash e' = tag p" "en_Size e' = int (length p)"
    using old by (simp_all add: e'_def entry_touch_def)
  note upd = set_update_cases [where k = key and e = e' and es = ?es, OF _ dist]
  have "backed c tag (AList.update key e' ?es) (dk_files d)"
    using upd inv assms(2,3) e' unfolding backed_def cache_inv_def by (metis (no_types, lifting))
  moreover have "ids_ok c (cs_uuids s) (AList.update key e' ?es)"
  proof -
    have "\<exists>j < cs_uuids s. en_ID x = sc_uuid c j" if "(k, x) \<in> set (AList.update key e' ?es)" for k x
      using upd [OF that] assms(1) inv e' unfolding ready_def cache_inv_def ids_ok_def by metis
    moreover have "k = k'" if "(k, x) \<in> set (AList.update key e' ?es)" "(k', x') \<in> set (AList.update key e' ?es)" "en_ID x = en_ID x'" for k x k' x'
      using upd [OF that(1)] upd [OF that(2)] that(3) assms(1) inv e' unfolding ready_def cache_inv_def ids_ok_def by metis
    ultimately show ?thesis using distinct_update [OF dist, of key e'] unfolding ids_ok_def by blast
  qed
  moreover have "entries_size (AList.update key e' ?es) \<le> sc_capacity c"
    using assms(1) e' by (simp add: entries_update [OF dist] ready_def)
  ultimately show ?thesis using inv by (simp add: put cache_inv_def)
qed

text \<open>The start of a store: an identifier, and room if nothing has to be reclaimed.\<close>

definition started :: "string \<Rightarrow> 'r cache_state \<Rightarrow> 'r cache_state" where
  "started key s = s\<lparr>cs_uuids := cs_uuids s + (if metadataStore_lockedGet key (cs_meta s) = None then 1 else 0)\<rparr>"

lemma started_inv: "cache_inv c tag s \<Longrightarrow> cache_inv c tag (started key s)"
  using ids_mono [of c "cs_uuids s" _ "cs_uuids (started key s)"] by (simp add: started_def cache_inv_def)

lemma started_ready:
  assumes "cache_inv c tag s" "metadataStore_resolveUID (sc_uuid c (cs_uuids s)) key (cs_meta s) = (uid, old)"
    and "entries_size (ms_byKey (cs_meta s)) - old + sz \<le> sc_capacity c"
  shows "ready key uid sz (started key s)"
proof (cases "map_of (ms_byKey (cs_meta s)) key")
  case None
  then have uid: "uid = sc_uuid c (cs_uuids s)" "old = 0" using assms(2) by (simp_all add: metadataStore_resolveUID_def metadataStore_lockedGet_def)
  have "en_ID e \<noteq> uid \<and> k \<noteq> key" if "(k, e) \<in> set (ms_byKey (cs_meta s))" for k e
  proof -
    have "\<exists>j < cs_uuids s. en_ID e = sc_uuid c j" using assms(1) that unfolding cache_inv_def ids_ok_def by blast
    moreover have "k \<noteq> key" using None that by (auto simp: map_of_eq_None_iff image_iff)
    ultimately show ?thesis using uid uuid_unique by (metis less_irrefl)
  qed
  then show ?thesis
    using started_inv [OF assms(1), of key] assms(3) uid None
    by (auto simp: ready_def started_def metadataStore_lockedGet_def)
next
  case (Some e)
  then have uid: "uid = en_ID e" "old = en_Size e" using assms(2) by (simp_all add: metadataStore_resolveUID_def metadataStore_lockedGet_def)
  have mem: "(key, e) \<in> set (ms_byKey (cs_meta s))" using Some by (rule map_of_SomeD)
  have "en_ID e' = uid \<longleftrightarrow> k = key" if "(k, e') \<in> set (ms_byKey (cs_meta s))" for k e'
  proof
    show "k = key" if "en_ID e' = uid"
      using assms(1) mem \<open>(k, e') \<in> _\<close> that uid unfolding cache_inv_def ids_ok_def by metis
    show "en_ID e' = uid" if "k = key"
    proof -
      have "distinct (map fst (ms_byKey (cs_meta s)))" using assms(1) by (simp add: cache_inv_def ids_ok_def)
      then have "map_of (ms_byKey (cs_meta s)) k = Some e'" using \<open>(k, e') \<in> _\<close> by simp
      then show ?thesis using Some uid that by simp
    qed
  qed
  moreover have "\<exists>j < cs_uuids s. uid = sc_uuid c j" using assms(1) mem uid unfolding cache_inv_def ids_ok_def by metis
  ultimately show ?thesis
    using assms(1,3) Some uid by (simp add: ready_def started_def metadataStore_lockedGet_def cache_inv_def)
qed

text \<open>The rest of a store, from a state in which there is room.\<close>

definition store_rest :: "string \<Rightarrow> string \<Rightarrow> bytes \<Rightarrow> Hash \<Rightarrow> ('r cache_state, unit) go" where
  "store_rest key uid p hash =
     go_bind (go_wrap ''error while creating base directory for S3 cache entry'' (in_disk (os_MkdirAll (filepath_Dir (S3Cache_dataPath c uid))))) (\<lambda>_.
     go_bind (go_wrap ''error while writing S3 cache entry to disk'' (in_disk (writeFileAtomic (sc_tmp c) (S3Cache_dataPath c uid) p))) (\<lambda>_.
     go_bind (\<lambda>s. in_meta (metadataStore_put (dk_time (cs_disk s)) key uid hash (int (length p))) s) (\<lambda>_.
     go_wrap ''error while writing to s3 cache after adding new entry'' (metadataStore_persistLocked c))))"

definition stored :: "string \<Rightarrow> Hash \<Rightarrow> (string \<times> entry) list \<Rightarrow> 'r cache_state \<Rightarrow> bool" where
  "stored key hash es s \<longleftrightarrow> (\<exists>e. ms_byKey (cs_meta s) = AList.update key e es \<and> en_Hash e = hash) \<and>
     (\<exists>raw. mj_Marshal (sc_json c) (map snd (ms_byKey (cs_meta s))) = Ok raw \<and> dk_files (cs_disk s) (meta_path c) = Some raw)"

lemma store_rest_effect:
  assumes "store_rest key uid p (tag p) s = (r, s')" "ready key uid (int (length p)) s"
  shows "cache_inv c tag s' \<and> cs_remote s' = cs_remote s \<and> (r = Ok () \<longrightarrow> stored key (tag p) (ms_byKey (cs_meta s)) s')"
proof -
  obtain r1 d1 where mk: "os_MkdirAll (filepath_Dir (S3Cache_dataPath c uid)) (cs_disk s) = (r1, d1)"
    by (cases "os_MkdirAll (filepath_Dir (S3Cache_dataPath c uid)) (cs_disk s)")
  note d1 = MkdirAll_effect [OF mk]
  define s1 where "s1 = s\<lparr>cs_disk := d1\<rparr>"
  have same: "ms_byKey (cs_meta s1) = ms_byKey (cs_meta s)" "cs_meta s1 = cs_meta s" "cs_remote s1 = cs_remote s" by (simp_all add: s1_def)
  have ready1: "ready key uid (int (length p)) s1"
    using assms(2) d1 by (simp add: ready_def cache_inv_def s1_def)
  obtain r2 d2 where wr: "writeFileAtomic (sc_tmp c) (S3Cache_dataPath c uid) p (cs_disk s1) = (r2, d2)"
    by (cases "writeFileAtomic (sc_tmp c) (S3Cache_dataPath c uid) p (cs_disk s1)")
  note written = data_file_written [OF wr ready1] and w = writeFileAtomic_effect [OF wr]
  define s2 where "s2 = s1\<lparr>cs_disk := d2, cs_meta := metadataStore_put (dk_time d2) key uid (tag p) (int (length p)) (cs_meta s1)\<rparr>"
  obtain r3 s3 where pe: "metadataStore_persistLocked c s2 = (r3, s3)" by (cases "metadataStore_persistLocked c s2")
  have first: "go_wrap m (in_disk (os_MkdirAll (filepath_Dir (S3Cache_dataPath c uid)))) s = (outcome_wrap m r1, s1)" for m
    by (simp add: go_wrap_split in_disk_def mk s1_def)
  have second: "go_wrap m (in_disk (writeFileAtomic (sc_tmp c) (S3Cache_dataPath c uid) p)) s1 = (outcome_wrap m r2, s1\<lparr>cs_disk := d2\<rparr>)" for m
    by (simp add: go_wrap_split in_disk_def wr)
  have third: "in_meta (metadataStore_put (dk_time d2) key uid (tag p) (int (length p))) (s1\<lparr>cs_disk := d2\<rparr>) = (Ok (), s2)"
    by (simp add: in_meta_def s2_def)
  have fourth: "go_wrap m (metadataStore_persistLocked c) s2 = (outcome_wrap m r3, s3)" for m by (simp add: go_wrap_split pe)
  consider "r1 \<noteq> Ok ()" | "r1 = Ok ()" "r2 \<noteq> Ok ()" | "r1 = Ok ()" "r2 = Ok ()" by blast
  then show ?thesis
  proof cases
    case 1
    then have "s' = s1" "r \<noteq> Ok ()" using assms(1) by (cases r1; auto simp: store_rest_def go_bind_def first)+
    then show ?thesis using ready1 same by (simp add: ready_def)
  next
    case 2
    then have "s' = s1\<lparr>cs_disk := d2\<rparr>" "r \<noteq> Ok ()" using assms(1) by (cases r2; auto simp: store_rest_def go_bind_def first second)+
    then show ?thesis using written 2(2) same by simp
  next
    case 3
    have "cache_inv c tag s2" unfolding s2_def using put_inv [OF ready1, of d2 "dk_time d2"] written w 3(2) by auto
    note inv = persist_inv [OF pe this] and eff = persist_effect [OF pe]
    have meta2: "ms_path (cs_meta s2) = meta_path c" using \<open>cache_inv c tag s2\<close> by (simp add: cache_inv_def)
    have "s' = s3 \<and> (r = Ok () \<longrightarrow> r3 = Ok ())"
      using assms(1) 3 by (auto simp: store_rest_def go_bind_def first second third fourth)
    moreover have "\<exists>e. ms_byKey (cs_meta s2) = AList.update key e (ms_byKey (cs_meta s)) \<and> en_Hash e = tag p"
      by (simp add: s2_def same metadataStore_put_def Let_def entry_touch_def) (rule exI, rule conjI, rule refl, simp)
    ultimately show ?thesis using inv eff same meta2 by (auto simp: stored_def s2_def)
  qed
qed

lemma store_unfold:
  assumes "metadataStore_resolveUID (sc_uuid c (cs_uuids s)) key (cs_meta s) = (uid, old)"
  shows "S3Cache_store c key p hash s =
    (if int (length p) \<ge> sc_capacity c then (Ok (), started key s)
     else go_bind (if S3Cache_cap c (cs_meta s) < int (length p) - old
                   then go_wrap ''error while reclaiming cache space'' (S3Cache_reclaimSpace c (int (length p) - old)) else ret ())
            (\<lambda>_. store_rest key uid p hash) (started key s))"
  by (simp add: S3Cache_store_def assms Let_def started_def store_rest_def)

definition needs_room :: "string \<Rightarrow> bytes \<Rightarrow> metadataStore \<Rightarrow> bool" where
  "needs_room key p ms \<longleftrightarrow> (let old = (case map_of (ms_byKey ms) key of None \<Rightarrow> 0 | Some e \<Rightarrow> en_Size e) in
     S3Cache_cap c ms < int (length p) - old \<and> old < int (length p))"

lemma store_effect:
  assumes "S3Cache_store c key p (tag p) s = (r, s')" "cache_inv c tag s"
  shows "cache_inv c tag s' \<and> cs_remote s' = cs_remote s \<and>
    (r = Ok () \<longrightarrow> int (length p) < sc_capacity c \<longrightarrow>
      stored key (tag p) (if needs_room key p (cs_meta s) then [] else ms_byKey (cs_meta s)) s')"
proof -
  obtain uid old where uid: "metadataStore_resolveUID (sc_uuid c (cs_uuids s)) key (cs_meta s) = (uid, old)"
    by (cases "metadataStore_resolveUID (sc_uuid c (cs_uuids s)) key (cs_meta s)")
  have old: "old = (case map_of (ms_byKey (cs_meta s)) key of None \<Rightarrow> 0 | Some e \<Rightarrow> en_Size e)"
    using uid by (auto simp: metadataStore_resolveUID_def metadataStore_lockedGet_def split: option.splits)
  define diff where "diff = int (length p) - old"
  note store = assms(1) [unfolded store_unfold [OF uid], folded diff_def]
  have same: "cs_meta (started key s) = cs_meta s" "cs_remote (started key s) = cs_remote s" by (simp_all add: started_def)
  have room: "needs_room key p (cs_meta s) \<longleftrightarrow> S3Cache_cap c (cs_meta s) < diff \<and> 0 < diff"
    by (auto simp: needs_room_def Let_def old [symmetric] diff_def)
  consider (big) "int (length p) \<ge> sc_capacity c" | (fits) "int (length p) < sc_capacity c" "\<not> S3Cache_cap c (cs_meta s) < diff"
    | (reclaim) "int (length p) < sc_capacity c" "S3Cache_cap c (cs_meta s) < diff" by linarith
  then show ?thesis
  proof cases
    case big
    then show ?thesis using store started_inv [OF assms(2)] same by auto
  next
    case fits
    have "ready key uid (int (length p)) (started key s)"
      by (rule started_ready [OF assms(2) uid])
         (use fits assms(2) in \<open>simp add: S3Cache_cap_def metadataStore_cacheSize_def entries_size_def diff_def cache_inv_def\<close>)
    moreover have "store_rest key uid p (tag p) (started key s) = (r, s')" using store fits by simp
    ultimately show ?thesis using store_rest_effect [of key uid p "started key s" r s'] same fits room by auto
  next
    case reclaim
    obtain r1 s1 where rc: "S3Cache_reclaimSpace c diff (started key s) = (r1, s1)" by (cases "S3Cache_reclaimSpace c diff (started key s)")
    note eff = reclaim_effect [OF rc started_inv [OF assms(2)]]
    show ?thesis
    proof (cases "r1 = Ok ()")
      case False
      then have "s' = s1 \<and> r \<noteq> Ok ()" using store reclaim by (cases r1) (auto simp: go_bind_def go_wrap_def rc)
      then show ?thesis using eff same by simp
    next
      case True
      have "ready key uid (int (length p)) s1"
      proof (cases "0 < diff")
        case pos: True
        obtain j where "uid = sc_uuid c j \<and> j < cs_uuids (started key s)"
          using started_ready [OF assms(2) uid, of "old - entries_size (ms_byKey (cs_meta s)) + sc_capacity c"] by (auto simp: ready_def)
        then show ?thesis using eff pos reclaim(1) by (auto simp: ready_def entries_size_def)
      next
        case neg: False
        have "ready key uid (int (length p)) (started key s)"
          by (rule started_ready [OF assms(2) uid]) (use neg assms(2) in \<open>simp add: diff_def cache_inv_def\<close>)
        then show ?thesis using ready_reclaimed [OF rc [unfolded True]] reclaim(1) by blast
      qed
      moreover have "store_rest key uid p (tag p) s1 = (r, s')"
        using store reclaim by (simp add: go_bind_def go_wrap_def rc True)
      ultimately show ?thesis using store_rest_effect [of key uid p s1 r s'] eff same room reclaim by auto
    qed
  qed
qed

lemma log_errors_effect: "log_errors m s = (r, s') \<Longrightarrow> \<exists>r0. m s = (r0, s') \<and> (r = r0 \<or> r = Ok ())"
  by (cases "m s"; cases "fst (m s)") (auto simp: log_errors_def)

lemma Put_effect:
  assumes "S3Cache_Put c key p s = (r, s')" "cache_inv c tag s"
  shows "cache_inv c tag s' \<and> (\<forall>h. r = Ok h \<longrightarrow> h = tag p)"
proof -
  obtain r1 x where put: "mn_PutObject (sc_client c) (sc_bucket c) key p (cs_remote s) = (r1, x)"
    by (cases "mn_PutObject (sc_client c) (sc_bucket c) key p (cs_remote s)")
  have inv: "cache_inv c tag (s\<lparr>cs_remote := x\<rparr>)" using assms(2) by (simp add: cache_inv_def)
  show ?thesis
  proof (cases r1)
    case (Ok h)
    have h: "h = tag p" by (rule PutObject_tag [OF put [unfolded Ok]])
    obtain r2 s2 where st: "log_errors (S3Cache_store c key p h) (s\<lparr>cs_remote := x\<rparr>) = (r2, s2)"
      by (cases "log_errors (S3Cache_store c key p h) (s\<lparr>cs_remote := x\<rparr>)")
    from log_errors_effect [OF st] store_effect inv h have "cache_inv c tag s2" by blast
    moreover have "s' = s2 \<and> (\<forall>h'. r = Ok h' \<longrightarrow> h' = h)"
      using assms(1) by (cases r2) (auto simp: S3Cache_Put_def go_bind_def go_wrap_def in_remote_def put Ok st)
    ultimately show ?thesis using h by simp
  qed (use assms(1) inv in \<open>auto simp: S3Cache_Put_def go_bind_def go_wrap_def in_remote_def put\<close>)
qed

subsection \<open>Reading\<close>

lemma touch_inv:
  assumes "cache_inv c tag s"
  shows "cache_inv c tag (s\<lparr>cs_meta := metadataStore_touch now key (cs_meta s)\<rparr>)"
proof (cases "map_of (ms_byKey (cs_meta s)) key")
  case None
  then show ?thesis using assms by (simp add: metadataStore_touch_def metadataStore_lockedGet_def)
next
  case (Some e)
  let ?es = "ms_byKey (cs_meta s)" and ?e = "entry_touch now e"
  have e: "(key, e) \<in> set ?es" using Some by (rule map_of_SomeD)
  have dist: "distinct (map fst ?es)" using assms by (simp add: cache_inv_def ids_ok_def)
  note upd = set_update_cases [where k = key and e = ?e and es = ?es, OF _ dist]
  have same: "\<exists>e0. (k, e0) \<in> set ?es \<and> en_ID x = en_ID e0 \<and> en_Key x = en_Key e0 \<and> en_Size x = en_Size e0 \<and> en_Hash x = en_Hash e0"
    if "(k, x) \<in> set (AList.update key ?e ?es)" for k x
    using upd [OF that] e by (auto simp: entry_touch_def)
  have "backed c tag (AList.update key ?e ?es) (dk_files (cs_disk s))"
    using same assms unfolding cache_inv_def backed_def by (metis (no_types, lifting))
  moreover have "ids_ok c (cs_uuids s) (AList.update key ?e ?es)"
    using same assms distinct_update [OF dist, of key ?e] unfolding cache_inv_def ids_ok_def by (metis (no_types, lifting))
  moreover have "entries_size (AList.update key ?e ?es) = entries_size ?es"
    by (simp add: entries_update [OF dist] Some entry_touch_def)
  ultimately show ?thesis using assms Some by (simp add: cache_inv_def metadataStore_touch_def metadataStore_lockedGet_def)
qed

lemma entry_file:
  assumes "cache_inv c tag s" "map_of (ms_byKey (cs_meta s)) key = Some e"
  shows "\<exists>p. dk_files (cs_disk s) (S3Cache_dataPath c (en_ID e)) = Some p \<and> en_Hash e = tag p"
  using assms(1) map_of_SomeD [OF assms(2)] unfolding cache_inv_def backed_def by blast

lemma readCached_effect:
  assumes "S3Cache_readCached c key expected s = (r, s')" "cache_inv c tag s"
  shows "cache_inv c tag s' \<and> cs_remote s' = cs_remote s \<and> (\<forall>p. r = Ok (Some p) \<longrightarrow> expected = tag p)"
proof (cases "metadataStore_get key (cs_meta s)")
  case None
  then show ?thesis using assms by (auto simp: S3Cache_readCached_def)
next
  case (Some n)
  then obtain e where e: "map_of (ms_byKey (cs_meta s)) key = Some e" "sn_Hash n = en_Hash e" "sn_ID n = en_ID e"
    by (auto simp: metadataStore_get_def metadataStore_lockedGet_def)
  obtain p where p: "dk_files (cs_disk s) (S3Cache_dataPath c (en_ID e)) = Some p" "en_Hash e = tag p"
    using entry_file [OF assms(2) e(1)] by blast
  obtain r1 d1 where rd: "os_ReadFile (S3Cache_dataPath c (en_ID e)) (cs_disk s) = (r1, d1)"
    by (cases "os_ReadFile (S3Cache_dataPath c (en_ID e)) (cs_disk s)")
  note eff = ReadFile_effect [OF rd]
  let ?s = "s\<lparr>cs_disk := d1\<rparr>"
  have inv: "cache_inv c tag ?s" using assms(2) eff by (simp add: cache_inv_def)
  have rd': "go_wrap m (in_disk (os_ReadFile (S3Cache_dataPath c (sn_ID n)))) s = (outcome_wrap m r1, ?s)" for m
    by (simp add: go_wrap_split in_disk_def rd e)
  show ?thesis
  proof (cases "sn_Hash n = expected")
    case False
    then show ?thesis using assms Some by (auto simp: S3Cache_readCached_def)
  next
    case True
    show ?thesis
    proof (cases r1)
      case (Ok q)
      have "(r, s') = (Ok (Some q), ?s\<lparr>cs_meta := metadataStore_touch (dk_time d1) key (cs_meta ?s)\<rparr>)"
        using assms(1) by (simp add: S3Cache_readCached_def Some True go_bind_def rd' Ok in_meta_def)
      then show ?thesis using touch_inv [OF inv, of "dk_time d1" key] eff Ok p True e by auto
    qed (use assms(1) inv in \<open>auto simp: S3Cache_readCached_def Some True go_bind_def rd'\<close>)
  qed
qed

text \<open>Code that only talks to the bucket keeps the invariant.\<close>

lemma remote_keeps:
  "go_spec (cache_inv c tag) (in_remote m) (\<lambda>a s. cache_inv c tag s \<and> (\<exists>x. m x = (Ok a, cs_remote s))) (cache_inv c tag)"
proof (rule go_specI)
  fix s assume "cache_inv c tag s"
  then show "case fst (in_remote m s) of Ok a \<Rightarrow> cache_inv c tag (snd (in_remote m s)) \<and> (\<exists>x. m x = (Ok a, cs_remote (snd (in_remote m s))))
      | _ \<Rightarrow> cache_inv c tag (snd (in_remote m s))"
    by (cases "m (cs_remote s)") (auto simp: in_remote_def cache_inv_def split: outcome.splits)
qed

lemma remote_inv: "in_remote m s = (r, s') \<Longrightarrow> cache_inv c tag s \<Longrightarrow> cache_inv c tag s'"
  by (auto simp: in_remote_def cache_inv_def split: prod.splits)

lemma store_keeps: "go_spec (\<lambda>s. cache_inv c tag s \<and> h = tag p) (log_errors (S3Cache_store c key p h)) (\<lambda>_ s. cache_inv c tag s \<and> h = tag p) (cache_inv c tag)"
proof (rule go_specI, elim conjE)
  fix s assume inv: "cache_inv c tag s" and h: "h = tag p"
  obtain r s' where st: "log_errors (S3Cache_store c key p h) s = (r, s')" by (cases "log_errors (S3Cache_store c key p h) s")
  have "cache_inv c tag s'" using log_errors_effect [OF st] store_effect inv h by blast
  then show "case fst (log_errors (S3Cache_store c key p h) s) of Ok a \<Rightarrow> cache_inv c tag (snd (log_errors (S3Cache_store c key p h) s)) \<and> h = tag p
      | _ \<Rightarrow> cache_inv c tag (snd (log_errors (S3Cache_store c key p h) s))"
    unfolding st using h by (cases r) simp_all
qed

lemma close_keeps:
  assumes "go_spec (cache_inv c tag) m (\<lambda>a s. cache_inv c tag s \<and> R a) (cache_inv c tag)"
  shows "go_spec (cache_inv c tag) (deferred_Close c key m) (\<lambda>a s. cache_inv c tag s \<and> R a) (cache_inv c tag)"
proof (rule go_specI)
  fix s assume inv: "cache_inv c tag s"
  obtain q t where m: "m s = (q, t)" by (cases "m s")
  obtain rc u where cl: "in_remote (mn_Close (sc_client c) (sc_bucket c) key) t = (rc, u)"
    by (cases "in_remote (mn_Close (sc_client c) (sc_bucket c) key) t")
  have "cache_inv c tag t" "\<And>a. q = Ok a \<Longrightarrow> R a" using go_specE [OF assms inv] by (auto simp: m split: outcome.splits)
  then have "cache_inv c tag u" using remote_inv [OF cl] by blast
  then show "case fst (deferred_Close c key m s) of Ok a \<Rightarrow> cache_inv c tag (snd (deferred_Close c key m s)) \<and> R a
      | _ \<Rightarrow> cache_inv c tag (snd (deferred_Close c key m s))"
    using \<open>\<And>a. q = Ok a \<Longrightarrow> R a\<close> by (cases rc; cases q) (simp_all add: deferred_Close_def m cl)
qed

lemma fetch_keeps:
  "go_spec (cache_inv c tag) (S3Cache_fetchAndStore c key) (\<lambda>(p, h) s. cache_inv c tag s \<and> h = tag p) (cache_inv c tag)"
proof -
  let ?cl = "sc_client c" and ?b = "sc_bucket c"
  have stat: "go_spec (cache_inv c tag) (go_wrap m (in_remote (mn_Stat ?cl ?b key)))
      (\<lambda>h s. cache_inv c tag s \<and> (\<exists>x. mn_Stat ?cl ?b key x = (Ok h, cs_remote s))) (cache_inv c tag)" for m
    by (rule spec_wrap, rule remote_keeps)
  have read: "go_spec (\<lambda>s. cache_inv c tag s \<and> (\<exists>x. mn_Stat ?cl ?b key x = (Ok h, cs_remote s)))
      (go_wrap m (in_remote (mn_ReadAll ?cl ?b key))) (\<lambda>p s. cache_inv c tag s \<and> h = tag p) (cache_inv c tag)" for h m
  proof (rule spec_wrap, rule go_specI, elim conjE exE)
    fix s x assume inv: "cache_inv c tag s" and st: "mn_Stat ?cl ?b key x = (Ok h, cs_remote s)"
    obtain r y where ra: "mn_ReadAll ?cl ?b key (cs_remote s) = (r, y)" by (cases "mn_ReadAll ?cl ?b key (cs_remote s)")
    show "case fst (in_remote (mn_ReadAll ?cl ?b key) s) of
        Ok p \<Rightarrow> cache_inv c tag (snd (in_remote (mn_ReadAll ?cl ?b key) s)) \<and> h = tag p
      | _ \<Rightarrow> cache_inv c tag (snd (in_remote (mn_ReadAll ?cl ?b key) s))"
      using inv ReadAll_tag [OF st] ra by (cases r) (auto simp: in_remote_def cache_inv_def)
  qed
  have store: "go_spec (\<lambda>s. cache_inv c tag s \<and> h = tag p) (go_bind (log_errors (S3Cache_store c key p h)) (\<lambda>_. ret (p, h)))
      (\<lambda>(p, h) s. cache_inv c tag s \<and> h = tag p) (cache_inv c tag)" for p h
    by (rule spec_bind [OF store_keeps]) (rule spec_ret, simp)
  have get: "go_spec (cache_inv c tag) (go_wrap m (in_remote (mn_GetObject ?cl ?b key))) (\<lambda>_. cache_inv c tag) (cache_inv c tag)" for m
    by (rule spec_wrap, rule spec_conseq [OF remote_keeps]) auto
  show ?thesis
    unfolding S3Cache_fetchAndStore_def
    by (rule spec_bind [OF get], rule spec_conseq [OF close_keeps [where R = "\<lambda>(p, h). h = tag p"]],
        rule spec_conseq [OF spec_bind [OF stat spec_bind [OF read store]]]) auto
qed

lemma Get_effect:
  assumes "S3Cache_Get c key expected s = (r, s')" "cache_inv c tag s"
  shows "cache_inv c tag s' \<and> (\<forall>p h. r = Ok (p, h) \<longrightarrow> h = tag p)"
proof -
  let ?first = "if Hash_IsZero expected then ret None
    else go_wrap ''error while reading (possibly) cached S3 key'' (S3Cache_readCached c key expected)"
  have first: "go_spec (cache_inv c tag) ?first (\<lambda>po s. cache_inv c tag s \<and> (\<forall>p. po = Some p \<longrightarrow> expected = tag p)) (cache_inv c tag)"
  proof (rule spec_if)
    show "go_spec (cache_inv c tag) (ret None) (\<lambda>po s. cache_inv c tag s \<and> (\<forall>p. po = Some p \<longrightarrow> expected = tag p)) (cache_inv c tag)"
      by (rule spec_ret) simp
    show "go_spec (cache_inv c tag) (go_wrap m (S3Cache_readCached c key expected))
        (\<lambda>po s. cache_inv c tag s \<and> (\<forall>p. po = Some p \<longrightarrow> expected = tag p)) (cache_inv c tag)" for m
    proof (rule spec_wrap, rule go_specI)
      fix s assume inv: "cache_inv c tag s"
      obtain r s' where rd: "S3Cache_readCached c key expected s = (r, s')" by (cases "S3Cache_readCached c key expected s")
      show "case fst (S3Cache_readCached c key expected s) of
          Ok po \<Rightarrow> cache_inv c tag (snd (S3Cache_readCached c key expected s)) \<and> (\<forall>p. po = Some p \<longrightarrow> expected = tag p)
        | _ \<Rightarrow> cache_inv c tag (snd (S3Cache_readCached c key expected s))"
        using readCached_effect [OF rd inv] by (cases r) (auto simp: rd)
    qed
  qed
  have rest: "go_spec (\<lambda>s. cache_inv c tag s \<and> (\<forall>p. po = Some p \<longrightarrow> expected = tag p))
      (case po of Some p \<Rightarrow> ret (p, expected) | None \<Rightarrow> go_wrap m (S3Cache_fetchAndStore c key))
      (\<lambda>(p, h) s. cache_inv c tag s \<and> h = tag p) (cache_inv c tag)" for po m
  proof (cases po)
    case None
    then show ?thesis by simp (rule spec_wrap, rule fetch_keeps)
  next
    case (Some p)
    then show ?thesis by simp (rule spec_ret, simp)
  qed
  have "go_spec (cache_inv c tag) (S3Cache_Get c key expected) (\<lambda>(p, h) s. cache_inv c tag s \<and> h = tag p) (cache_inv c tag)"
    unfolding S3Cache_Get_def by (rule spec_bind [OF first rest])
  from go_specE [OF this assms(2)] assms(1) show ?thesis by (cases r) auto
qed

lemma Remove_effect:
  assumes "S3Cache_Remove c key s = (r, s')" "cache_inv c tag s"
  shows "cache_inv c tag s'"
proof -
  obtain r1 s1 where rm: "in_remote (mn_RemoveObject (sc_client c) (sc_bucket c) key) s = (r1, s1)"
    by (cases "in_remote (mn_RemoveObject (sc_client c) (sc_bucket c) key) s")
  note inv1 = remote_inv [OF rm assms(2)]
  show ?thesis
  proof (cases r1)
    case (Ok u)
    show ?thesis
    proof (cases "metadataStore_get key (cs_meta s1)")
      case None
      then show ?thesis using assms(1) inv1 by (auto simp: S3Cache_Remove_def go_bind_def go_wrap_def rm Ok)
    next
      case (Some n)
      let ?s2 = "s1\<lparr>cs_meta := metadataStore_remove key (cs_meta s1)\<rparr>"
      let ?path = "S3Cache_dataPath c (sn_ID n)"
      obtain e where e: "(key, e) \<in> set (ms_byKey (cs_meta s1))" "sn_ID n = en_ID e"
        using Some by (auto simp: metadataStore_get_def metadataStore_lockedGet_def dest: map_of_SomeD)
      have del: "ms_byKey (cs_meta ?s2) = AList.delete key (ms_byKey (cs_meta s1))" by (simp add: remove_byKey)
      have sub: "set (AList.delete key (ms_byKey (cs_meta s1))) \<subseteq> set (ms_byKey (cs_meta s1))" by (auto simp: AList.delete_eq)
      have sizes: "\<forall>x \<in> set (ms_byKey (cs_meta s1)). 0 \<le> en_Size (snd x)"
        by (rule backed_sizes [of c tag _ "dk_files (cs_disk s1)"]) (use inv1 in \<open>simp add: cache_inv_def\<close>)
      have inv2: "cache_inv c tag ?s2"
      proof -
        have "ids_ok c (cs_uuids s1) (AList.delete key (ms_byKey (cs_meta s1)))"
          by (rule ids_subset [OF _ sub], use inv1 in \<open>simp add: cache_inv_def\<close>, rule distinct_delete,
              use inv1 in \<open>simp add: cache_inv_def ids_ok_def\<close>)
        then show ?thesis
          using inv1 entries_delete [OF sizes, of key] backed_subset [OF _ sub] by (auto simp: cache_inv_def remove_byKey remove_other)
      qed
      obtain r3 s3 where pe: "metadataStore_persistLocked c ?s2 = (r3, s3)" by (cases "metadataStore_persistLocked c ?s2")
      note inv3 = persist_inv [OF pe inv2] and eff = persist_effect [OF pe]
      obtain r4 d4 where rem: "os_Remove ?path (cs_disk s3) = (r4, d4)" by (cases "os_Remove ?path (cs_disk s3)")
      have "S3Cache_dataPath c (en_ID x) \<noteq> ?path" if other: "(k, x) \<in> set (AList.delete key (ms_byKey (cs_meta s1)))" for k x
      proof -
        have "(k, x) \<in> set (ms_byKey (cs_meta s1))" "k \<noteq> key" using other by (auto simp: AList.delete_eq)
        then have "en_ID x \<noteq> en_ID e" using inv1 e(1) unfolding cache_inv_def ids_ok_def by blast
        moreover obtain i j where "en_ID x = sc_uuid c i" "en_ID e = sc_uuid c j"
          using inv1 e(1) \<open>(k, x) \<in> set (ms_byKey (cs_meta s1))\<close> unfolding cache_inv_def ids_ok_def by blast
        ultimately show ?thesis using dataPath_inj e(2) by metis
      qed
      then have "cache_inv c tag (s3\<lparr>cs_disk := d4\<rparr>)"
        using inv3 eff del os_Remove_effect [OF rem] unfolding cache_inv_def backed_def by (simp add: remove_byKey)
      then have "cache_inv c tag s4" if "log_errors (in_disk (os_Remove ?path)) s3 = (r5, s4)" for r5 s4
        using that by (cases r4) (auto simp: log_errors_def in_disk_def rem)
      moreover have "(r, s') = (case r3 of Ok _ \<Rightarrow> log_errors (in_disk (os_Remove ?path)) s3 | _ \<Rightarrow> (outcome_wrap ''error while removing s3 cache entry'' r3, s3))"
        using assms(1) by (cases r3) (auto simp: S3Cache_Remove_def go_bind_def go_wrap_def rm Ok Some in_meta_def pe)
      ultimately show ?thesis using inv3 by (cases r3) (auto dest: sym)
    qed
  qed (use assms(1) inv1 in \<open>auto simp: S3Cache_Remove_def go_bind_def go_wrap_def rm\<close>)
qed

subsection \<open>A hit\<close>

text \<open>An object whose entry has the expected hash is read from its file, without the bucket.\<close>

lemma Get_hit:
  assumes "cache_inv c tag s" "map_of (ms_byKey (cs_meta s)) key = Some e" "en_Hash e \<noteq> []" "dk_faults (cs_disk s) = []"
  shows "\<exists>p s'. S3Cache_Get c key (en_Hash e) s = (Ok (p, en_Hash e), s') \<and> en_Hash e = tag p \<and> cs_remote s' = cs_remote s"
proof -
  obtain p where p: "dk_files (cs_disk s) (S3Cache_dataPath c (en_ID e)) = Some p" "en_Hash e = tag p"
    using entry_file [OF assms(1,2)] by blast
  obtain n where n: "metadataStore_get key (cs_meta s) = Some n" "sn_Hash n = en_Hash e" "sn_ID n = en_ID e"
    using assms(2) by (simp add: metadataStore_get_def metadataStore_lockedGet_def)
  have "in_disk (os_ReadFile (S3Cache_dataPath c (sn_ID n))) s = (Ok p, s)"
    using assms(4) p n by (simp add: in_disk_def os_ReadFile_def syscall_def)
  then have "S3Cache_readCached c key (en_Hash e) s =
      (Ok (Some p), s\<lparr>cs_meta := metadataStore_touch (dk_time (cs_disk s)) key (cs_meta s)\<rparr>)"
    using n by (simp add: S3Cache_readCached_def go_bind_def in_meta_def)
  then have "S3Cache_Get c key (en_Hash e) s =
      (Ok (p, en_Hash e), s\<lparr>cs_meta := metadataStore_touch (dk_time (cs_disk s)) key (cs_meta s)\<rparr>)"
    using assms(3) by (simp add: S3Cache_Get_def Hash_IsZero_def go_bind_def go_wrap_def)
  then show ?thesis using p by auto
qed

end

section \<open>Histories\<close>

datatype s3_op = OpGet string Hash | OpPut string bytes | OpRemove string | OpTime

fun s3_apply :: "'r S3Cache \<Rightarrow> s3_op \<Rightarrow> 'r cache_state \<Rightarrow> 'r cache_state" where
  "s3_apply c (OpGet key expected) s = snd (S3Cache_Get c key expected s)"
| "s3_apply c (OpPut key p) s = snd (S3Cache_Put c key p s)"
| "s3_apply c (OpRemove key) s = snd (S3Cache_Remove c key s)"
| "s3_apply c OpTime s = s\<lparr>cs_disk := (cs_disk s)\<lparr>dk_time := dk_time (cs_disk s) + 1\<rparr>\<rparr>"

text \<open>The state of a cache that was created on a directory without metadata.\<close>

definition empty_cache :: "'r S3Cache \<Rightarrow> disk \<Rightarrow> 'r \<Rightarrow> 'r cache_state" where
  "empty_cache c d x = \<lparr>cs_meta = \<lparr>ms_path = meta_path c, ms_size = 0, ms_byKey = []\<rparr>, cs_disk = d, cs_remote = x, cs_uuids = 0\<rparr>"

context s3_cache
begin

lemma empty_inv: "0 \<le> sc_capacity c \<Longrightarrow> cache_inv c tag (empty_cache c d x)"
  by (simp add: empty_cache_def cache_inv_def backed_def ids_ok_def entries_size_def)

lemma apply_inv: "cache_inv c tag s \<Longrightarrow> cache_inv c tag (s3_apply c op s)"
proof (cases op)
  case OpTime
  assume "cache_inv c tag s"
  then show ?thesis using OpTime by (simp add: cache_inv_def)
qed (auto intro: Get_effect [THEN conjunct1, OF surjective_pairing] Put_effect [THEN conjunct1, OF surjective_pairing]
  Remove_effect [OF surjective_pairing])

lemma history_inv: "cache_inv c tag s \<Longrightarrow> cache_inv c tag (fold (s3_apply c) ops s)"
  by (induction ops arbitrary: s) (simp_all add: apply_inv)

end

section \<open>Restart\<close>

definition reloaded :: "entry \<Rightarrow> entry" where
  "reloaded e = e\<lparr>en_lastAccess := en_StoredAt e\<rparr>"

lemma load_entries:
  "fold load_entry (map (\<lambda>e. Some (e\<lparr>en_lastAccess := 0\<rparr>)) es) (Ok acc) = Ok (fold (\<lambda>e. AList.update (en_Key e) (reloaded e)) es acc)"
  by (induction es arbitrary: acc) (simp_all add: load_entry_def reloaded_def)

lemma map_of_updates:
  "distinct (map en_Key es) \<Longrightarrow> map_of (fold (\<lambda>e. AList.update (en_Key e) (reloaded e)) es acc) k =
     (case map_of (map (\<lambda>e. (en_Key e, reloaded e)) es) k of None \<Rightarrow> map_of acc k | Some v \<Rightarrow> Some v)"
proof (induction es arbitrary: acc)
  case (Cons e es)
  have "map_of (map (\<lambda>e. (en_Key e, reloaded e)) es) (en_Key e) = None"
    using Cons.prems by (auto simp: map_of_eq_None_iff image_iff)
  then show ?case using Cons by (auto simp: update_conv' split: option.splits)
qed simp

end
