(* ===== verification/S3_Example.thy ===== *)
theory S3_Example
  imports S3_Cache_Proof
begin

text \<open>
  A bucket kept in memory, whose tags are the hexadecimal text of the contents, as a client for the
  cache; and the properties of the cache.
\<close>

section \<open>A bucket\<close>

definition ex_tag :: "bytes \<Rightarrow> Hash" where
  "ex_tag p = HashBytes (\<lambda>b. b) p"

definition ex_find :: "string \<Rightarrow> (bytes \<Rightarrow> 'a) \<Rightarrow> ((string \<times> bytes) list, 'a) go" where
  "ex_find key f x = (case map_of x key of None \<Rightarrow> Err (PlainError ''no such key'') | Some p \<Rightarrow> Ok (f p), x)"

definition ex_minio :: "(string \<times> bytes) list Minio" where
  "ex_minio = \<lparr>mn_PutObject = (\<lambda>b key p x. (Ok (ex_tag p), (key, p) # x)),
     mn_RemoveObject = (\<lambda>b key x. (Ok (), AList.delete key x)),
     mn_GetObject = (\<lambda>b key. ret ()), mn_Stat = (\<lambda>b key. ex_find key ex_tag),
     mn_ReadAll = (\<lambda>b key. ex_find key (\<lambda>p. p)), mn_Close = (\<lambda>b key. ret ())\<rparr>"

definition ex_entry :: entry where
  "ex_entry = \<lparr>en_ID = ''aab'', en_Key = ''k'', en_Hash = ''0102'', en_Size = 2, en_StoredAt = 0, en_lastAccess = 0\<rparr>"

definition ex_entry2 :: entry where
  "ex_entry2 = \<lparr>en_ID = ''aabc'', en_Key = ''l'', en_Hash = ''05060708'', en_Size = 4, en_StoredAt = 0, en_lastAccess = 0\<rparr>"

text \<open>A codec that knows the metadata of the example.\<close>

definition ex_json :: MetaJson where
  "ex_json = \<lparr>mj_Marshal = (\<lambda>es. if es = [] then Ok [91, 93] else if es = [ex_entry] then Ok [91, 101, 93]
       else if es = [ex_entry2] then Ok [91, 102, 93] else Err (PlainError ''unsupported'')),
     mj_Unmarshal = (\<lambda>raw. if raw = [91, 93] then Ok [] else if raw = [91, 101, 93] then Ok [Some (ex_entry\<lparr>en_lastAccess := 0\<rparr>)]
       else if raw = [91, 102, 93] then Ok [Some (ex_entry2\<lparr>en_lastAccess := 0\<rparr>)] else Err (PlainError ''unsupported''))\<rparr>"

definition ex_cache :: "(string \<times> bytes) list S3Cache" where
  "ex_cache = \<lparr>sc_path = ''/c'', sc_bucket = ''b'', sc_client = ex_minio, sc_capacity = 8, sc_json = ex_json,
     sc_uuid = (\<lambda>n. ''aab'' @ replicate n (CHR ''c'')), sc_tmp = (\<lambda>n p. p @ ''.tmp'' @ replicate n (CHR ''0''))\<rparr>"

interpretation ex: s3_cache ex_cache ex_tag
proof
  show "sc_path ex_cache \<noteq> []" by (simp add: ex_cache_def)
  show "plain_name (take 2 (sc_uuid ex_cache n))" "plain_name (drop 2 (sc_uuid ex_cache n))" for n
    by (simp_all add: ex_cache_def plain_name_def set_replicate_conv_if)
  show "i = j" if "sc_uuid ex_cache i = sc_uuid ex_cache j" for i j
    using arg_cong [OF that, of length] by (simp add: ex_cache_def)
  show "h = ex_tag p" if "mn_PutObject (sc_client ex_cache) b k p x = (Ok h, x')" for b k p x h x'
    using that by (simp add: ex_cache_def ex_minio_def)
  show "h = ex_tag p" if "mn_Stat (sc_client ex_cache) b k x = (Ok h, x1)" "mn_ReadAll (sc_client ex_cache) b k x1 = (Ok p, x2)" for b k x h x1 p x2
    using that by (auto simp: ex_cache_def ex_minio_def ex_find_def split: option.splits)
qed

definition ex_disk0 :: disk where
  "ex_disk0 = \<lparr>dk_files = Map.empty, dk_handles = [], dk_faults = [], dk_time = 0\<rparr>"

definition ex_meta0 :: metadataStore where
  "ex_meta0 = \<lparr>ms_path = ''/c/v1.metadata.json'', ms_size = 0, ms_byKey = []\<rparr>"

lemma ex_meta_path: "meta_path ex_cache = ''/c/v1.metadata.json''"
  by code_simp

lemma ex_new: "NewS3Cache ex_cache (Ok 8) ex_disk0 = (Ok (ex_cache, ex_meta0), ex_disk0)"
proof -
  have "filepath_Join [''/c'', v1MetadataFileName] = ''/c/v1.metadata.json''" by code_simp
  then show ?thesis
    by (simp add: NewS3Cache_def newMetadataStore_def os_ReadFile_def syscall_def ex_cache_def ex_disk0_def ex_meta0_def go_bind_def go_wrap_def
        next_fault_def)
qed

definition ex_state0 :: "(string \<times> bytes) list cache_state" where
  "ex_state0 = \<lparr>cs_meta = ex_meta0, cs_disk = ex_disk0, cs_remote = [], cs_uuids = 0\<rparr>"

definition ex_state1 :: "(string \<times> bytes) list cache_state" where
  "ex_state1 = s3_apply ex_cache (OpPut ''k'' [1, 2]) ex_state0"

lemma ex_state1_entry: "ms_byKey (cs_meta ex_state1) = [(''k'', ex_entry)]" "dk_faults (cs_disk ex_state1) = []"
  by code_simp+

section \<open>Properties of the cache\<close>

text \<open>A cache that was created on a directory without metadata is the empty one.\<close>

lemma new_cache_empty:
  assumes "NewS3Cache config (Ok capacity) d = (Ok (c, ms), d')" "dk_files d (meta_path config) = None"
  shows "\<lparr>cs_meta = ms, cs_disk = d', cs_remote = x, cs_uuids = 0\<rparr> = empty_cache c d' x \<and> c = config\<lparr>sc_capacity := capacity\<rparr>"
proof -
  obtain r1 d1 where rd: "os_ReadFile (meta_path config) d = (r1, d1)" by (cases "os_ReadFile (meta_path config) d")
  have "r1 \<noteq> Ok q" for q using ReadFile_effect [OF rd] assms(2) by auto
  then show ?thesis
    using assms(1) rd by (cases r1) (auto simp: NewS3Cache_def newMetadataStore_def meta_path_def empty_cache_def Let_def go_bind_def go_wrap_def
        split: if_splits)
qed

text \<open>
  C32. The cache is coherent. It is created on a directory without metadata and then used: objects
  are read, written and removed in any order, while system calls and the bucket may fail. Then the
  entries together are no bigger than the capacity; what a read returns is the content that the
  returned hash stands for; and an object whose entry has the expected hash is returned from its
  file without asking the bucket.
\<close>

theorem cache_coherent:
  assumes "s3_cache c tag" "NewS3Cache config (Ok capacity) d = (Ok (c, ms), d')" "dk_files d (meta_path config) = None" "0 \<le> capacity"
    and "s = fold (s3_apply c) ops \<lparr>cs_meta = ms, cs_disk = d', cs_remote = x, cs_uuids = 0\<rparr>"
  shows "metadataStore_cacheSize (cs_meta s) \<le> sc_capacity c \<and>
    (\<forall>key expected p h s'. S3Cache_Get c key expected s = (Ok (p, h), s') \<longrightarrow> h = tag p) \<and>
    (\<forall>key e. map_of (ms_byKey (cs_meta s)) key = Some e \<longrightarrow> en_Hash e \<noteq> [] \<longrightarrow> dk_faults (cs_disk s) = [] \<longrightarrow>
      (\<exists>p s'. S3Cache_Get c key (en_Hash e) s = (Ok (p, en_Hash e), s') \<and> en_Hash e = tag p \<and> cs_remote s' = cs_remote s))"
proof -
  have "cache_inv c tag s"
    unfolding assms(5) using s3_cache.history_inv [OF assms(1) s3_cache.empty_inv [OF assms(1), of d' x]] new_cache_empty [OF assms(2,3), of x] assms(4)
    by auto
  then show ?thesis
    using s3_cache.Get_effect [OF assms(1)] s3_cache.Get_hit [OF assms(1)]
    by (auto simp: cache_inv_def metadataStore_cacheSize_def entries_size_def)
qed

theorem cache_coherent_witness:
  "\<exists>p s'. S3Cache_Get ex_cache ''k'' ''0102'' ex_state1 = (Ok (p, ''0102''), s') \<and> ''0102'' = ex_tag p \<and> cs_remote s' = cs_remote ex_state1"
proof -
  have free: "dk_files ex_disk0 (meta_path ex_cache) = None" by (simp add: ex_disk0_def)
  have state: "ex_state1 = fold (s3_apply ex_cache) [OpPut ''k'' [1, 2]] \<lparr>cs_meta = ex_meta0, cs_disk = ex_disk0, cs_remote = [], cs_uuids = 0\<rparr>"
    by (simp add: ex_state1_def ex_state0_def)
  have "0 \<le> (8 :: int)" by simp
  note all = cache_coherent [OF ex.s3_cache_axioms ex_new free this state]
  have entry: "map_of (ms_byKey (cs_meta ex_state1)) ''k'' = Some ex_entry" by (simp add: ex_state1_entry)
  have hash: "en_Hash ex_entry = ''0102''" by (simp add: ex_entry_def)
  have "en_Hash ex_entry \<noteq> []" by (simp add: hash)
  from conjunct2 [OF conjunct2 [OF all], rule_format, OF entry this ex_state1_entry(2)] show ?thesis unfolding hash .
qed

text \<open>
  Eviction empties the cache. When a bigger object has to be stored than there is room for,
  every entry is evicted, however little room is missing: after a store that succeeds the new
  object is the only one.
\<close>

theorem eviction_empties:
  assumes "s3_cache c tag" "cache_inv c tag s" "S3Cache_store c key p (tag p) s = (Ok (), s')" "int (length p) < sc_capacity c"
    and "old = (case map_of (ms_byKey (cs_meta s)) key of None \<Rightarrow> 0 | Some e \<Rightarrow> en_Size e)"
    and "S3Cache_cap c (cs_meta s) < int (length p) - old" "old < int (length p)"
  shows "map fst (ms_byKey (cs_meta s')) = [key]"
proof -
  have "s3_cache.needs_room c key p (cs_meta s)" using assms(5-7) by (simp add: s3_cache.needs_room_def [OF assms(1)] Let_def)
  with s3_cache.store_effect [OF assms(1,3,2)] assms(4) show ?thesis by (auto simp: s3_cache.stored_def [OF assms(1)])
qed

lemma ex_inv0: "cache_inv ex_cache ex_tag ex_state0"
proof -
  have "0 \<le> sc_capacity ex_cache" by (simp add: ex_cache_def)
  from ex.empty_inv [OF this, of ex_disk0 "[]"] show ?thesis
    by (simp add: ex_state0_def ex_meta0_def empty_cache_def ex_meta_path)
qed

lemma ex_inv1: "cache_inv ex_cache ex_tag ex_state1"
  unfolding ex_state1_def by (rule ex.apply_inv [OF ex_inv0])

lemma ex_stored: "fst (S3Cache_store ex_cache ''l'' [5, 6, 7, 8] (ex_tag [5, 6, 7, 8]) ex_state1) = Ok ()"
  "fst (S3Cache_store ex_cache ''k'' [1, 2] (ex_tag [1, 2]) ex_state0) = Ok ()"
  "S3Cache_cap ex_cache (cs_meta ex_state1) = 3"
  "dk_faults (cs_disk (snd (S3Cache_store ex_cache ''k'' [1, 2] (ex_tag [1, 2]) ex_state0))) = []"
  "ms_byKey (cs_meta (snd (S3Cache_store ex_cache ''k'' [1, 2] (ex_tag [1, 2]) ex_state0))) = [(''k'', ex_entry)]"
  by code_simp+

theorem eviction_empties_witness:
  "\<exists>s'. S3Cache_store ex_cache ''l'' [5, 6, 7, 8] (ex_tag [5, 6, 7, 8]) ex_state1 = (Ok (), s') \<and> map fst (ms_byKey (cs_meta s')) = [''l'']"
proof -
  let ?st = "S3Cache_store ex_cache ''l'' [5, 6, 7, 8] (ex_tag [5, 6, 7, 8]) ex_state1"
  have st: "?st = (Ok (), snd ?st)" using ex_stored(1) by (metis prod.collapse)
  have small: "int (length [5 :: byte, 6, 7, 8]) < sc_capacity ex_cache" by (simp add: ex_cache_def)
  have old: "0 = (case map_of (ms_byKey (cs_meta ex_state1)) ''l'' of None \<Rightarrow> 0 | Some e \<Rightarrow> en_Size e)" by (simp add: ex_state1_entry)
  have room: "S3Cache_cap ex_cache (cs_meta ex_state1) < int (length [5 :: byte, 6, 7, 8]) - 0" "0 < int (length [5 :: byte, 6, 7, 8])"
    by (simp_all add: ex_stored(3))
  show ?thesis by (rule exI, rule conjI, rule st, rule eviction_empties [OF ex.s3_cache_axioms ex_inv1 st small old room])
qed

text \<open>
  C34. A restart keeps the cache. After a store that succeeds, a metadata store that is opened on the
  same directory has the same entries, with the time of their storage as that of the last access,
  provided that the JSON codec decodes what it encoded.
\<close>

theorem restart_keeps_entries:
  assumes "s3_cache c tag" "cache_inv c tag s" "S3Cache_store c key p (tag p) s = (Ok (), s')" "int (length p) < sc_capacity c"
    and "\<And>es raw. mj_Marshal (sc_json c) es = Ok raw \<Longrightarrow> mj_Unmarshal (sc_json c) raw = Ok (map (\<lambda>e. Some (e\<lparr>en_lastAccess := 0\<rparr>)) es)"
    and "dk_faults (cs_disk s') = []"
  shows "\<exists>ms d. newMetadataStore (sc_json c) (sc_path c) (cs_disk s') = (Ok ms, d) \<and>
    (\<forall>k. map_of (ms_byKey ms) k = map_option (\<lambda>e. e\<lparr>en_lastAccess := en_StoredAt e\<rparr>) (map_of (ms_byKey (cs_meta s')) k))"
proof -
  note eff = s3_cache.store_effect [OF assms(1,3,2)]
  let ?es = "map snd (ms_byKey (cs_meta s'))"
  obtain raw where raw: "mj_Marshal (sc_json c) ?es = Ok raw" "dk_files (cs_disk s') (meta_path c) = Some raw"
    using eff assms(4) by (auto simp: s3_cache.stored_def [OF assms(1)])
  have inv: "cache_inv c tag s'" using eff by simp
  then have keys: "\<And>k e. (k, e) \<in> set (ms_byKey (cs_meta s')) \<Longrightarrow> en_Key e = k" by (simp add: cache_inv_def backed_def)
  have pairs: "map (\<lambda>e. (en_Key e, reloaded e)) ?es = map (\<lambda>(k, e). (k, reloaded e)) (ms_byKey (cs_meta s'))"
    using keys by (auto simp: comp_def)
  have "map en_Key ?es = map fst (ms_byKey (cs_meta s'))" using keys by auto
  moreover have "distinct (map fst (ms_byKey (cs_meta s')))" using inv by (simp add: cache_inv_def ids_ok_def)
  ultimately have dist: "distinct (map en_Key ?es)" by metis
  let ?m = "fold (\<lambda>e. AList.update (en_Key e) (reloaded e)) ?es []"
  have "newMetadataStore (sc_json c) (sc_path c) (cs_disk s') = (Ok \<lparr>ms_path = meta_path c, ms_size = 0, ms_byKey = ?m\<rparr>, cs_disk s')"
    using raw assms(6) by (simp add: newMetadataStore_def os_ReadFile_def syscall_def Let_def meta_path_def [symmetric] assms(5) load_entries del: map_map)
  moreover have "map_of ?m k = map_option reloaded (map_of (ms_byKey (cs_meta s')) k)" for k
    unfolding map_of_updates [OF dist] pairs map_of_map by (simp split: option.splits)
  moreover have "reloaded = (\<lambda>e. e\<lparr>en_lastAccess := en_StoredAt e\<rparr>)" by (rule ext) (simp add: reloaded_def)
  ultimately show ?thesis by fastforce
qed

theorem restart_keeps_entries_witness:
  "\<exists>ms d. newMetadataStore ex_json ''/c'' (cs_disk (snd (S3Cache_store ex_cache ''k'' [1, 2] (ex_tag [1, 2]) ex_state0))) = (Ok ms, d) \<and>
     map_of (ms_byKey ms) ''k'' = Some ex_entry"
proof -
  let ?st = "S3Cache_store ex_cache ''k'' [1, 2] (ex_tag [1, 2]) ex_state0"
  have st: "?st = (Ok (), snd ?st)" using ex_stored(2) by (metis prod.collapse)
  have codec: "mj_Unmarshal (sc_json ex_cache) raw = Ok (map (\<lambda>e. Some (e\<lparr>en_lastAccess := 0\<rparr>)) es)"
    if "mj_Marshal (sc_json ex_cache) es = Ok raw" for es raw
    using that by (auto simp: ex_cache_def ex_json_def split: if_splits)
  have small: "int (length [1 :: byte, 2]) < sc_capacity ex_cache" by (simp add: ex_cache_def)
  have c: "sc_json ex_cache = ex_json" "sc_path ex_cache = ''/c''" by (simp_all add: ex_cache_def)
  from restart_keeps_entries [OF ex.s3_cache_axioms ex_inv0 st small codec ex_stored(4), unfolded c]
  show ?thesis by (auto simp: ex_stored(5) ex_entry_def)
qed

end
