(* ===== verification/Log_Worker.thy ===== *)
theory Log_Worker
  imports Go_Os Go_Strings "HOL-Library.Monad_Syntax"
begin

text \<open>
  The worker of the log service, \<^verbatim>\<open>service/log/worker.go\<close>, with the buffer of \<^verbatim>\<open>buffer.go\<close> and the
  tickers of \<^verbatim>\<open>ticker.go\<close>. One worker appends the lines of one source to a compressed file,
  flushes it from time to time and moves it to an archive name when it has grown.

  Files are those of \<open>Go_Os\<close>; the worker and its buffer share the handle of the current file. The time
  of day is a function of the disk's clock, which moves when the code sleeps. \<^verbatim>\<open>compress/gzip\<close> is the parameter \<open>Gzip\<close>: its writer turns
  what is written and flushed into bytes of the underlying writer.
\<close>

section \<open>The buffer and the compressor\<close>

record flushBuffer =
  fb_buf :: bytes
  fb_bytesWritten :: "64 word"
  fb_w :: nat

definition newFlushBuffer :: "nat \<Rightarrow> flushBuffer" where
  "newFlushBuffer w = \<lparr>fb_buf = [], fb_bytesWritten = 0, fb_w = w\<rparr>"

definition flushBuffer_Write :: "bytes \<Rightarrow> flushBuffer \<Rightarrow> flushBuffer" where
  "flushBuffer_Write p f = f\<lparr>fb_bytesWritten := fb_bytesWritten f + of_nat (length p), fb_buf := fb_buf f @ p\<rparr>"

text \<open>
  \<^verbatim>\<open>bytes.Buffer.WriteTo\<close> makes one write of all it holds, none when it is empty, and keeps what
  was not written.
\<close>

definition flushBuffer_Flush :: "flushBuffer \<Rightarrow> disk \<Rightarrow> unit outcome \<times> flushBuffer \<times> disk" where
  "flushBuffer_Flush f d =
     (if fb_buf f = [] then (Ok (), f, d)
      else case File_Write (fb_w f) (fb_buf f) d of ((n, err), d') \<Rightarrow>
        (case err of None \<Rightarrow> Ok () | Some e \<Rightarrow> Err e, f\<lparr>fb_buf := drop n (fb_buf f)\<rparr>, d'))"

definition flushBuffer_Position :: "flushBuffer \<Rightarrow> 64 word" where
  "flushBuffer_Position f = fb_bytesWritten f"

text \<open>
  A gzip writer: its state, and for a write and a flush the returned values, the bytes it hands to
  the underlying writer and the next state.
\<close>

record 'z Gzip =
  gz_new :: 'z
  gz_Write :: "bytes \<Rightarrow> 'z \<Rightarrow> (nat \<times> goerr option) \<times> bytes \<times> 'z"
  gz_Flush :: "'z \<Rightarrow> goerr option \<times> bytes \<times> 'z"

section \<open>Tickers\<close>

text \<open>The two buffered channels of a ticker hold at most one element.\<close>

record manualTicker =
  mt_manual :: bool
  mt_out :: bool

definition newManualTicker :: manualTicker where
  "newManualTicker = \<lparr>mt_manual = False, mt_out = False\<rparr>"

definition manualTicker_Trigger :: "manualTicker \<Rightarrow> manualTicker" where
  "manualTicker_Trigger m = m\<lparr>mt_manual := True\<rparr>"

text \<open>The two receiving cases of the goroutine's loop, and a receive from \<^verbatim>\<open>Triggered()\<close>.\<close>

inductive ticker_step :: "manualTicker \<Rightarrow> manualTicker \<Rightarrow> bool" where
  tick: "ticker_step m (m\<lparr>mt_out := True\<rparr>)"
| manual: "mt_manual m \<Longrightarrow> ticker_step m (m\<lparr>mt_manual := False, mt_out := True\<rparr>)"

definition manualTicker_Triggered :: "manualTicker \<Rightarrow> manualTicker option" where
  "manualTicker_Triggered m = (if mt_out m then Some (m\<lparr>mt_out := False\<rparr>) else None)"

section \<open>The worker\<close>

definition ErrBytesMismatch :: goerr where "ErrBytesMismatch = PlainError ''bytes mismatch''"

definition LatestLogFilename :: string where "LatestLogFilename = ''latest''"

record 'z worker =
  wk_source :: string
  wk_logDirectory :: string
  wk_maxLogLinesBeforeFlush :: "32 word"
  wk_maxFileSizeBeforeRotate :: "64 word"
  wk_file :: "nat option"
  wk_buffered :: flushBuffer
  wk_writer :: "'z option"

record workerRequest =
  req_data :: bytes
  req_level :: string

type_synonym 'z world = "'z worker \<times> disk"

definition on_disk :: "(disk, 'a) go \<Rightarrow> ('z world, 'a) go" where
  "on_disk m = (\<lambda>(w, d). case m d of (r, d') \<Rightarrow> (r, (w, d')))"

definition worker_logFilePath :: "'z worker \<Rightarrow> string \<Rightarrow> string" where
  "worker_logFilePath w name = filepath_Join [wk_logDirectory w, filepath_Clean (wk_source w @ ''-'' @ name @ ''.jsonl.gz'')]"

definition worker_openLogFile :: "'z Gzip \<Rightarrow> ('z world, unit) go" where
  "worker_openLogFile g = (\<lambda>(w, d).
     case go_wrap ''error while opening log file'' (os_OpenFile (worker_logFilePath w LatestLogFilename)) d of
       (Ok file, d') \<Rightarrow> (Ok (), (w\<lparr>wk_file := Some file, wk_buffered := newFlushBuffer file, wk_writer := Some (gz_new g)\<rparr>, d'))
     | (Err e, d') \<Rightarrow> (Err e, (w, d'))
     | (Panic p, d') \<Rightarrow> (Panic p, (w, d'))
     | (Diverge, d') \<Rightarrow> (Diverge, (w, d')))"

text \<open>
  \<^verbatim>\<open>w.writer.Flush()\<close>, \<^verbatim>\<open>w.buffered.Flush()\<close> and \<^verbatim>\<open>w.file.Close()\<close>; the first dereferences the writer and panics when
  there is none.
\<close>

definition writer_Flush :: "'z Gzip \<Rightarrow> ('z world, unit) go" where
  "writer_Flush g = (\<lambda>(w, d). case wk_writer w of
      None \<Rightarrow> (Panic ''invalid memory address or nil pointer dereference'', (w, d))
    | Some z \<Rightarrow> (case gz_Flush g z of (err, p, z') \<Rightarrow>
        (case err of None \<Rightarrow> Ok () | Some e \<Rightarrow> Err e,
         (w\<lparr>wk_writer := Some z', wk_buffered := flushBuffer_Write p (wk_buffered w)\<rparr>, d))))"

definition buffered_Flush :: "('z world, unit) go" where
  "buffered_Flush = (\<lambda>(w, d). case flushBuffer_Flush (wk_buffered w) d of (r, b, d') \<Rightarrow> (r, (w\<lparr>wk_buffered := b\<rparr>, d')))"

definition file_Close :: "('z world, unit) go" where
  "file_Close = (\<lambda>(w, d). on_disk (File_Close (wk_file w)) (w, d))"

text \<open>\<open>now\<close> gives the time of day, in the format of RFC 3339, for every time.\<close>

definition archive :: "(nat \<Rightarrow> string) \<Rightarrow> string \<Rightarrow> ('z world, string) go" where
  "archive now path = (\<lambda>(w, d).
     let archivalPath = worker_logFilePath w (now (dk_time d)) in
     (case os_Stat archivalPath d of
        (Err e, d') \<Rightarrow>
          if e = os_ErrNotExist
          then on_disk (go_wrap ''error while arching current log file'' (go_map (\<lambda>_. archivalPath) (os_Rename path archivalPath))) (w, d')
          else (Err (Wrapped ''attempted to archive file to already existing path'' e), (w, d'))
      | (_, d') \<Rightarrow> (Err (PlainError ''attempted to archive file to already existing path''), (w, d'))))"

definition worker_closeCurrentFile :: "'z Gzip \<Rightarrow> (nat \<Rightarrow> string) \<Rightarrow> ('z world, string) go" where
  "worker_closeCurrentFile g now =
     go_bind (go_wrap ''error while flushing gzip writer'' (writer_Flush g)) (\<lambda>_.
     go_bind (go_wrap ''error while flushing current log file'' buffered_Flush) (\<lambda>_.
     go_bind (go_wrap ''error while closing current log file'' file_Close) (\<lambda>_.
     (\<lambda>(w, d). archive now (worker_logFilePath w LatestLogFilename) (w\<lparr>wk_file := None, wk_writer := None\<rparr>, d)))))"

text \<open>
  The retry loops of a rotation: the code is run again, after a sleep, until it returns no error.
  The loop may never return.
\<close>

definition sleep :: "'z world \<Rightarrow> 'z world" where
  "sleep = (\<lambda>(w, d). (w, d\<lparr>dk_time := dk_time d + 1\<rparr>))"

partial_function (option) retry :: "('z world, 'a) go \<Rightarrow> 'z world \<Rightarrow> ('a outcome \<times> 'z world) option" where
  [code]: "retry m s = (case m s of
      (Err e, s') \<Rightarrow> retry m (sleep s')
    | (Ok a, s') \<Rightarrow> Some (Ok a, s')
    | (Panic p, s') \<Rightarrow> Some (Panic p, s')
    | (Diverge, s') \<Rightarrow> Some (Diverge, s'))"

text \<open>
  The variables of \<^verbatim>\<open>run\<close>. \<open>rn_replies\<close> are the lines written so far with what was sent back for
  them, \<open>rn_archived\<close> the archive names as they are logged.
\<close>

record 'z run =
  rn_world :: "'z world"
  rn_flush :: manualTicker
  rn_rotate :: manualTicker
  rn_lines :: "32 word"
  rn_bytes :: "64 word"
  rn_lastPosition :: "64 word"
  rn_replies :: "(bytes \<times> unit outcome) list"
  rn_archived :: "string list"

definition newWorker :: "'z Gzip \<Rightarrow> string \<Rightarrow> string \<Rightarrow> 32 word \<Rightarrow> 64 word \<Rightarrow> (disk, 'z worker) go" where
  "newWorker g source dir maxLines maxSize d =
     (case worker_openLogFile g
         (\<lparr>wk_source = source, wk_logDirectory = dir, wk_maxLogLinesBeforeFlush = maxLines, wk_maxFileSizeBeforeRotate = maxSize,
           wk_file = None, wk_buffered = newFlushBuffer 0, wk_writer = None\<rparr>, d) of
        (r, (w, d')) \<Rightarrow> (outcome_bind r (\<lambda>_. Ok w), d'))"

definition run_start :: "'z worker \<Rightarrow> disk \<Rightarrow> 'z run" where
  "run_start w d = \<lparr>rn_world = (w, d), rn_flush = newManualTicker, rn_rotate = newManualTicker, rn_lines = 0, rn_bytes = 0,
     rn_lastPosition = flushBuffer_Position (wk_buffered w), rn_replies = [], rn_archived = []\<rparr>"

text \<open>The cases of the select statement.\<close>

definition run_flush :: "'z Gzip \<Rightarrow> 'z run \<Rightarrow> 'z run outcome" where
  "run_flush g r =
     (if rn_lines r \<le> 0 then Ok r
      else case go_bind (writer_Flush g) (\<lambda>_. buffered_Flush) (rn_world r) of
          (Ok _, s) \<Rightarrow> Ok (r\<lparr>rn_world := s, rn_lines := 0\<rparr>)
        | (Err e, s) \<Rightarrow> Ok (r\<lparr>rn_world := s\<rparr>)
        | (Panic p, s) \<Rightarrow> Panic p
        | (Diverge, s) \<Rightarrow> Diverge)"

definition run_rotate :: "'z Gzip \<Rightarrow> (nat \<Rightarrow> string) \<Rightarrow> 'z run \<Rightarrow> 'z run outcome option" where
  "run_rotate g now r =
     (if rn_bytes r \<le> 0 then Some (Ok r)
      else do {
        (closed, s1) \<leftarrow> retry (worker_closeCurrentFile g now) (rn_world r);
        (case closed of
           Ok path \<Rightarrow> do {
             (opened, s2) \<leftarrow> retry (worker_openLogFile g) s1;
             Some (outcome_bind opened (\<lambda>_. Ok (r\<lparr>rn_world := s2, rn_lines := 0, rn_bytes := 0,
               rn_archived := rn_archived r @ [path]\<rparr>)))
           }
         | Err e \<Rightarrow> Some (Err e) | Panic p \<Rightarrow> Some (Panic p) | Diverge \<Rightarrow> Some Diverge)
      })"

definition add_newline :: "bytes \<Rightarrow> bytes" where
  "add_newline p = (if length p > 1 \<and> p ! (length p - 1) \<noteq> 0x0A then p @ [0x0A] else p)"

definition run_written :: "'z run \<Rightarrow> 'z worker \<Rightarrow> 'z run" where
  "run_written r w =
     (let lines = rn_lines r + 1;
          newPosition = flushBuffer_Position (wk_buffered w);
          written = rn_bytes r + (newPosition - rn_lastPosition r);
          r' = r\<lparr>rn_lines := lines, rn_bytes := written, rn_lastPosition := newPosition\<rparr>
      in if written > wk_maxFileSizeBeforeRotate w then r'\<lparr>rn_rotate := manualTicker_Trigger (rn_rotate r)\<rparr>
         else if lines > wk_maxLogLinesBeforeFlush w then r'\<lparr>rn_flush := manualTicker_Trigger (rn_flush r)\<rparr>
         else r')"

definition run_request :: "'z Gzip \<Rightarrow> workerRequest \<Rightarrow> 'z run \<Rightarrow> 'z run outcome" where
  "run_request g req r = (case rn_world r of (w, d) \<Rightarrow> (case wk_writer w of
      None \<Rightarrow> Panic ''invalid memory address or nil pointer dereference''
    | Some z \<Rightarrow>
        (let line = add_newline (req_data req) in
         (case gz_Write g line z of ((l, err), p, z') \<Rightarrow>
           (let w' = w\<lparr>wk_writer := Some z', wk_buffered := flushBuffer_Write p (wk_buffered w)\<rparr>;
                r' = r\<lparr>rn_world := (w', d)\<rparr> in
            (case err of
               Some e \<Rightarrow> Ok (r'\<lparr>rn_replies := rn_replies r @ [(line, Err (Wrapped ''error while writing log line to disk'' e))]\<rparr>)
             | None \<Rightarrow>
                 if l \<noteq> length line then Ok (r'\<lparr>rn_replies := rn_replies r @ [(line, Err ErrBytesMismatch)]\<rparr>)
                 else Ok ((run_written r' w')\<lparr>rn_replies := rn_replies r @ [(line, Ok ())]\<rparr>)))))))"

text \<open>
  The goroutines of a worker and its two tickers: in any order, a ticker moves, time passes, or
  the worker takes a case of its select statement that is ready.
\<close>

inductive worker_step :: "'z Gzip \<Rightarrow> (nat \<Rightarrow> string) \<Rightarrow> 'z run \<Rightarrow> 'z run \<Rightarrow> bool" for g now where
  flush_ticker: "ticker_step (rn_flush r) t \<Longrightarrow> worker_step g now r (r\<lparr>rn_flush := t\<rparr>)"
| rotate_ticker: "ticker_step (rn_rotate r) t \<Longrightarrow> worker_step g now r (r\<lparr>rn_rotate := t\<rparr>)"
| time: "worker_step g now r (r\<lparr>rn_world := sleep (rn_world r)\<rparr>)"
| flush: "manualTicker_Triggered (rn_flush r) = Some t \<Longrightarrow> run_flush g (r\<lparr>rn_flush := t\<rparr>) = Ok r' \<Longrightarrow> worker_step g now r r'"
| rotate: "manualTicker_Triggered (rn_rotate r) = Some t \<Longrightarrow> run_rotate g now (r\<lparr>rn_rotate := t\<rparr>) = Some (Ok r') \<Longrightarrow>
    worker_step g now r r'"
| request: "run_request g req r = Ok r' \<Longrightarrow> worker_step g now r r'"

text \<open>
  \<^verbatim>\<open>stop\<close> first receives from the channel \<^verbatim>\<open>stopped\<close>. Nothing is ever sent on it: \<open>signalled\<close> is whether
  something was.
\<close>

definition worker_stop :: "'z Gzip \<Rightarrow> bool \<Rightarrow> ('z world, unit) go" where
  "worker_stop g signalled =
     (if \<not> signalled then lift Diverge
      else go_bind (go_wrap ''error while flushing gzip writer during shutdown'' (writer_Flush g)) (\<lambda>_.
           go_bind (go_wrap ''error while flushing log buffer during shutdown'' buffered_Flush) (\<lambda>_.
           go_wrap ''error while closing log file during shutdown'' file_Close)))"

end
