(* ===== verification/Log_Stream.thy ===== *)
theory Log_Stream
  imports Log_Worker
begin

text \<open>
  What the files of a log worker hold. The gzip writer is described by the locale \<open>gzip_writer\<close>: it
  takes all it is given, and what it has handed on up to a flush decodes to what was written. From
  this the stream invariant follows: whatever the order of requests, flushes, rotations and
  failing system calls, the archives, in the order of their creation, and the current file with
  the bytes not yet on disk hold the acknowledged lines, each once and in order.
\<close>

section \<open>The gzip writer\<close>

datatype gz_op = GzWrite bytes | GzFlush

fun gz_apply :: "'z Gzip \<Rightarrow> gz_op \<Rightarrow> bytes \<times> 'z \<Rightarrow> bytes \<times> 'z" where
  "gz_apply g (GzWrite p) (out, z) = (case gz_Write g p z of (_, q, z') \<Rightarrow> (out @ q, z'))"
| "gz_apply g GzFlush (out, z) = (case gz_Flush g z of (_, q, z') \<Rightarrow> (out @ q, z'))"

definition gz_run :: "'z Gzip \<Rightarrow> gz_op list \<Rightarrow> bytes \<times> 'z" where
  "gz_run g ops = fold (gz_apply g) ops ([], gz_new g)"

definition gz_input :: "gz_op list \<Rightarrow> bytes" where
  "gz_input ops = concat (map (\<lambda>op. case op of GzWrite p \<Rightarrow> p | GzFlush \<Rightarrow> []) ops)"

lemma gz_run_snoc: "gz_run g (ops @ [op]) = gz_apply g op (gz_run g ops)"
  by (simp add: gz_run_def)

lemma gz_input_simps [simp]:
  "gz_input [] = []"
  "gz_input (ops @ [GzFlush]) = gz_input ops"
  "gz_input (ops @ [GzWrite p]) = gz_input ops @ p"
  by (simp_all add: gz_input_def)

section \<open>The current file\<close>

abbreviation latest :: "'z worker \<Rightarrow> string" where
  "latest w \<equiv> worker_logFilePath w LatestLogFilename"

definition current :: "'z Gzip \<Rightarrow> gz_op list \<Rightarrow> 'z world \<Rightarrow> bool" where
  "current g h = (\<lambda>(w, d). \<exists>f z c.
     wk_file w = Some f \<and> fb_w (wk_buffered w) = f \<and> f < length (dk_handles d) \<and> dk_handles d ! f = (latest w, False) \<and>
     wk_writer w = Some z \<and> dk_files d (latest w) = Some c \<and> gz_run g h = (c @ fb_buf (wk_buffered w), z))"

text \<open>What the operations on the current file leave alone: the configuration and the other files.\<close>

definition same_rest :: "'z world \<Rightarrow> 'z world \<Rightarrow> bool" where
  "same_rest = (\<lambda>(w, d) (w', d').
     wk_source w' = wk_source w \<and> wk_logDirectory w' = wk_logDirectory w \<and>
     wk_maxFileSizeBeforeRotate w' = wk_maxFileSizeBeforeRotate w \<and>
     (\<forall>p. p \<noteq> latest w \<longrightarrow> dk_files d' p = dk_files d p))"

lemma same_rest_refl [simp]: "same_rest s s"
  by (simp add: same_rest_def split: prod.splits)

lemma same_rest_trans: "same_rest s t \<Longrightarrow> same_rest t u \<Longrightarrow> same_rest s u"
  by (auto simp: same_rest_def worker_logFilePath_def split: prod.splits)

lemma same_rest_sleep [simp]: "same_rest s (sleep t) = same_rest s t" "current g h (sleep s) = current g h s"
  by (auto simp: same_rest_def current_def sleep_def worker_logFilePath_def split: prod.splits)

text \<open>After a file was closed, or the worker's writer dropped, a rotation can no longer succeed.\<close>

definition stuck :: "'z world \<Rightarrow> bool" where
  "stuck = (\<lambda>(w, d). wk_writer w = None \<or> (\<exists>f. wk_file w = Some f \<and> snd (dk_handles d ! f)))"

lemma File_Write_handles: "File_Write f p d = (r, d') \<Longrightarrow> dk_handles d' = dk_handles d"
  by (auto simp: File_Write_def append_file_def Let_def dest: next_faultD split: prod.splits if_splits option.splits)

definition closed_file :: "'z world \<Rightarrow> bool" where
  "closed_file = (\<lambda>(w, d). \<exists>f. wk_file w = Some f \<and> snd (dk_handles d ! f))"

lemma flushBuffer_Flush_handles: "flushBuffer_Flush b d = (r, b', d') \<Longrightarrow> dk_handles d' = dk_handles d"
  by (auto simp: flushBuffer_Flush_def dest: File_Write_handles split: if_splits prod.splits)

lemma stuck_writer: "go_spec stuck (writer_Flush g) (\<lambda>_. closed_file) stuck"
  by (rule go_specI) (auto simp: stuck_def closed_file_def writer_Flush_def split: option.splits prod.splits outcome.splits)

lemma stuck_buffered: "go_spec closed_file buffered_Flush (\<lambda>_. closed_file) stuck"
  by (rule go_specI)
     (auto simp: stuck_def closed_file_def buffered_Flush_def dest: flushBuffer_Flush_handles split: prod.splits outcome.splits)

lemma stuck_Close: "go_spec closed_file file_Close (\<lambda>_ _. False) stuck"
  by (rule go_specI) (auto simp: stuck_def closed_file_def file_Close_def on_disk_def File_Close_def split: prod.splits)

lemma stuck_never_closes: "go_spec stuck (worker_closeCurrentFile g now) (\<lambda>_ _. False) stuck"
  unfolding worker_closeCurrentFile_def
  by (rule spec_bind [OF spec_wrap [OF stuck_writer]], rule spec_bind [OF spec_wrap [OF stuck_buffered]],
      rule spec_bind [OF spec_wrap [OF stuck_Close]]) (simp add: go_spec_def)

text \<open>A retry loop that returns has met, in a state the loop reaches, a call that succeeds.\<close>

lemma retry_Ok:
  assumes "retry m s = Some (Ok a, s')" "I s" "\<And>s e s'. I s \<Longrightarrow> m s = (Err e, s') \<Longrightarrow> I (sleep s')"
  shows "\<exists>s0. I s0 \<and> m s0 = (Ok a, s')"
proof -
  have "m' = m \<longrightarrow> I s \<longrightarrow> (case y of (Ok a, s') \<Rightarrow> \<exists>s0. I s0 \<and> m s0 = (Ok a, s') | _ \<Rightarrow> True)"
    if "retry m' s = Some y" for m' s y
  proof (rule retry.raw_induct [OF _ that], intro impI)
    fix rec m' s y
    assume IH: "\<And>m' s y. rec m' s = Some y \<Longrightarrow>
        m' = m \<longrightarrow> I s \<longrightarrow> (case y of (Ok a, s') \<Rightarrow> \<exists>s0. I s0 \<and> m s0 = (Ok a, s') | _ \<Rightarrow> True)"
      and step: "(case m' s of (Ok a, s') \<Rightarrow> Some (Ok a, s') | (Err e, s') \<Rightarrow> rec m' (sleep s')
        | (Panic p, s') \<Rightarrow> Some (Panic p, s') | (Diverge, s') \<Rightarrow> Some (Diverge, s')) = Some y"
      and m': "m' = m" and I: "I s"
    obtain r s1 where m: "m s = (r, s1)" by (cases "m s")
    show "case y of (Ok a, s') \<Rightarrow> \<exists>s0. I s0 \<and> m s0 = (Ok a, s') | _ \<Rightarrow> True"
    proof (cases r)
      case (Ok a)
      then have "y = (Ok a, s1)" using step m m' by simp
      then show ?thesis using m Ok I by (simp only: prod.case outcome.case) blast
    next
      case (Err e)
      then have "rec m (sleep s1) = Some y" "I (sleep s1)" using step m m' I assms(3) by simp_all
      then show ?thesis using IH by blast
    qed (use step m m' in auto)
  qed
  then show ?thesis using assms(1,2) by fastforce
qed

text \<open>The lines that were answered without an error.\<close>

definition acknowledged :: "(bytes \<times> unit outcome) list \<Rightarrow> bytes" where
  "acknowledged replies = concat (map fst (filter (\<lambda>(line, r). r = Ok ()) replies))"

definition decoded :: "(bytes \<Rightarrow> bytes) \<Rightarrow> (string \<rightharpoonup> bytes) \<Rightarrow> string list \<Rightarrow> bytes" where
  "decoded read files paths = concat (map (\<lambda>p. read (the (files p))) paths)"

lemma decoded_cong: "(\<And>p. p \<in> set ps \<Longrightarrow> fs' p = fs p) \<Longrightarrow> decoded read fs' ps = decoded read fs ps"
  unfolding decoded_def by (rule arg_cong [where f = concat], rule map_cong) simp_all

lemma decoded_snoc: "decoded read fs (ps @ [p]) = decoded read fs ps @ read (the (fs p))"
  by (simp add: decoded_def)

section \<open>The stream invariant\<close>

locale gzip_writer =
  fixes g :: "'z Gzip" and read :: "bytes \<Rightarrow> bytes"
  assumes Write_all: "fst (gz_Write g p z) = (length p, None)"
    and Flush_ok: "fst (gz_Flush g z) = None"
    and read_flushed: "read (fst (gz_run g (ops @ [GzFlush]))) = gz_input ops"
begin

lemma current_writer_Flush:
  "go_spec (\<lambda>s. current g h s \<and> same_rest s0 s) (writer_Flush g)
     (\<lambda>_ s. current g (h @ [GzFlush]) s \<and> same_rest s0 s) (\<lambda>_. False)"
proof (rule go_specI, elim conjE)
  fix s assume cur: "current g h s" and rest: "same_rest s0 s"
  obtain w d where s: "s = (w, d)" by (cases s)
  obtain z where z: "wk_writer w = Some z" using cur by (auto simp: s current_def)
  obtain q z' where flush: "gz_Flush g z = (None, q, z')" using Flush_ok [of z] by (cases "gz_Flush g z") auto
  let ?t = "(w\<lparr>wk_writer := Some z', wk_buffered := flushBuffer_Write q (wk_buffered w)\<rparr>, d)"
  have "writer_Flush g s = (Ok (), ?t)" by (simp add: s writer_Flush_def z flush)
  moreover have "current g (h @ [GzFlush]) ?t"
    using cur by (auto simp: s z current_def gz_run_snoc flush flushBuffer_Write_def worker_logFilePath_def)
  moreover have "same_rest s0 ?t"
    using rest by (auto simp: s same_rest_def split: prod.splits)
  ultimately show "case fst (writer_Flush g s) of Ok a \<Rightarrow> current g (h @ [GzFlush]) (snd (writer_Flush g s)) \<and> same_rest s0 (snd (writer_Flush g s))
    | _ \<Rightarrow> False" by simp
qed

lemma current_buffered_Flush:
  "go_spec (\<lambda>s. current g h s \<and> same_rest s0 s) buffered_Flush
     (\<lambda>_ s. current g h s \<and> same_rest s0 s \<and> fb_buf (wk_buffered (fst s)) = []) (\<lambda>s. current g h s \<and> same_rest s0 s)"
proof (rule go_specI, elim conjE)
  fix s assume cur: "current g h s" and rest: "same_rest s0 s"
  obtain w d where s: "s = (w, d)" by (cases s)
  obtain f z c where f: "wk_file w = Some f" "fb_w (wk_buffered w) = f" "f < length (dk_handles d)"
      "dk_handles d ! f = (latest w, False)" and z: "wk_writer w = Some z" and c: "dk_files d (latest w) = Some c"
      and run: "gz_run g h = (c @ fb_buf (wk_buffered w), z)"
    using cur by (auto simp: s current_def)
  show "case fst (buffered_Flush s) of Ok a \<Rightarrow> current g h (snd (buffered_Flush s)) \<and> same_rest s0 (snd (buffered_Flush s)) \<and>
      fb_buf (wk_buffered (fst (snd (buffered_Flush s)))) = []
    | _ \<Rightarrow> current g h (snd (buffered_Flush s)) \<and> same_rest s0 (snd (buffered_Flush s))"
  proof (cases "fb_buf (wk_buffered w) = []")
    case True
    then show ?thesis using cur rest by (simp add: s buffered_Flush_def flushBuffer_Flush_def)
  next
    case False
    obtain x d1 where fault: "next_fault d = (x, d1)" by (cases "next_fault d")
    note d1 = next_faultD [OF fault]
    define m where "m = (case x of None \<Rightarrow> length (fb_buf (wk_buffered w)) | Some n \<Rightarrow> min n (length (fb_buf (wk_buffered w)) - 1))"
    let ?t = "(w\<lparr>wk_buffered := (wk_buffered w)\<lparr>fb_buf := drop m (fb_buf (wk_buffered w))\<rparr>\<rparr>,
      append_file (latest w) (take m (fb_buf (wk_buffered w))) d1)"
    have flush: "buffered_Flush s = (case x of None \<Rightarrow> Ok () | Some _ \<Rightarrow> Err os_ErrIO, ?t)"
      using False by (cases x) (simp_all add: s buffered_Flush_def flushBuffer_Flush_def f File_Write_def fault m_def Let_def)
    have "current g h ?t"
      using f z c run d1 by (simp add: current_def append_file_def worker_logFilePath_def)
    moreover have "same_rest s0 ?t"
      using rest c d1 by (auto simp: s same_rest_def append_file_def worker_logFilePath_def split: prod.splits)
    ultimately show ?thesis by (cases x) (simp_all add: flush m_def)
  qed
qed

text \<open>The current file is closed and decodes to \<open>content\<close>; it was moved to \<open>path\<close>.\<close>

definition complete :: "bytes \<Rightarrow> 'z world \<Rightarrow> bool" where
  "complete content = (\<lambda>(w, d). \<exists>c. dk_files d (latest w) = Some c \<and> read c = content)"

definition moved_to :: "string \<Rightarrow> bytes \<Rightarrow> 'z world \<Rightarrow> 'z world \<Rightarrow> bool" where
  "moved_to path content = (\<lambda>(w0, d0) (w, d).
     wk_source w = wk_source w0 \<and> wk_logDirectory w = wk_logDirectory w0 \<and> path \<noteq> latest w0 \<and> dk_files d0 path = None \<and>
     wk_maxFileSizeBeforeRotate w = wk_maxFileSizeBeforeRotate w0 \<and>
     (\<exists>c. read c = content \<and> dk_files d = (dk_files d0)(latest w0 := None, path \<mapsto> c)))"

lemma current_Close:
  "go_spec (\<lambda>s. current g (h @ [GzFlush]) s \<and> same_rest s0 s \<and> fb_buf (wk_buffered (fst s)) = [])
     file_Close (\<lambda>_ s. complete (gz_input h) s \<and> same_rest s0 s) stuck"
proof (rule go_specI, elim conjE)
  fix s assume cur: "current g (h @ [GzFlush]) s" and rest: "same_rest s0 s" and buf: "fb_buf (wk_buffered (fst s)) = []"
  obtain w d where s: "s = (w, d)" by (cases s)
  obtain f z c where f: "wk_file w = Some f" "f < length (dk_handles d)" "dk_handles d ! f = (latest w, False)"
      and c: "dk_files d (latest w) = Some c" and run: "gz_run g (h @ [GzFlush]) = (c, z)"
    using cur buf by (auto simp: s current_def)
  have "read c = gz_input h" using read_flushed [of h] run by simp
  then have comp: "complete (gz_input h) s" using c by (simp add: s complete_def)
  let ?d = "d\<lparr>dk_handles := (dk_handles d)[f := (latest w, True)]\<rparr>"
  obtain x d1 where fault: "next_fault ?d = (x, d1)" by (cases "next_fault ?d")
  note d1 = next_faultD [OF fault]
  show "case fst (file_Close s) of
      Ok a \<Rightarrow> complete (gz_input h) (snd (file_Close s)) \<and>
        same_rest s0 (snd (file_Close s))
    | _ \<Rightarrow> stuck (snd (file_Close s))"
    using comp rest f fault d1 by (cases x; cases s0) (auto simp: s file_Close_def on_disk_def File_Close_def syscall_def complete_def same_rest_def stuck_def)
qed

lemma archive_moves:
  "go_spec (\<lambda>s. complete content s \<and> same_rest s0 s \<and> wk_writer (fst s) = None)
     (\<lambda>s. archive now (latest (fst s)) s) (\<lambda>path. moved_to path content s0) stuck"
proof (rule go_specI, elim conjE)
  fix s assume comp: "complete content s" and rest: "same_rest s0 s" and nil: "wk_writer (fst s) = None"
  obtain w d where s: "s = (w, d)" by (cases s)
  obtain w0 d0 where s0: "s0 = (w0, d0)" by (cases s0)
  define ap where "ap = worker_logFilePath w (now (dk_time d))"
  obtain c where c: "dk_files d (latest w) = Some c" "read c = content" using comp by (auto simp: s complete_def)
  obtain x d1 where f1: "next_fault d = (x, d1)" by (cases "next_fault d")
  obtain y d2 where f2: "next_fault d1 = (y, d2)" by (cases "next_fault d1")
  note d1 = next_faultD [OF f1] and d2 = next_faultD [OF f2]
  have "moved_to ap content s0 (w, d2\<lparr>dk_files := (dk_files d2)(latest w := None, ap \<mapsto> c)\<rparr>)" if "dk_files d ap = None"
  proof -
    have "ap \<noteq> latest w" using that c by auto
    moreover have "dk_files d = (dk_files d0)(latest w \<mapsto> c)"
      using rest c by (intro ext) (auto simp: s s0 same_rest_def worker_logFilePath_def)
    ultimately show ?thesis
      using rest that c(2) d1 d2 by (auto simp: s s0 same_rest_def moved_to_def worker_logFilePath_def)
  qed
  then show "case fst (archive now (latest (fst s)) s) of Ok path \<Rightarrow> moved_to path content s0 (snd (archive now (latest (fst s)) s))
      | _ \<Rightarrow> stuck (snd (archive now (latest (fst s)) s))"
    using nil c d1 d2 f1 f2
    by (cases x; cases y)
       (simp_all add: s archive_def Let_def ap_def [symmetric] os_Stat_def os_Rename_def syscall_def on_disk_def go_wrap_def
          go_map_def go_bind_def stuck_def os_ErrNotExist_def os_ErrIO_def)
qed

lemma logFilePath_nil: "worker_logFilePath (w\<lparr>wk_file := None, wk_writer := None\<rparr>) name = worker_logFilePath w name"
  by (simp add: worker_logFilePath_def)

lemma closeCurrentFile_moves:
  "go_spec (\<lambda>s. current g h s \<and> same_rest s0 s) (worker_closeCurrentFile g now)
     (\<lambda>path. moved_to path (gz_input h) s0) (\<lambda>s. (current g (h @ [GzFlush]) s \<and> same_rest s0 s) \<or> stuck s)"
proof -
  let ?E = "\<lambda>s. (current g (h @ [GzFlush]) s \<and> same_rest s0 s) \<or> stuck s"
  let ?nil = "\<lambda>(w, d). archive now (latest w) (w\<lparr>wk_file := None, wk_writer := None\<rparr>, d)"
  have writer: "go_spec (\<lambda>s. current g h s \<and> same_rest s0 s) (go_wrap c (writer_Flush g))
      (\<lambda>_ s. current g (h @ [GzFlush]) s \<and> same_rest s0 s) ?E" for c
    by (rule spec_wrap, rule spec_conseq [OF current_writer_Flush]) auto
  have buffered: "go_spec (\<lambda>s. current g (h @ [GzFlush]) s \<and> same_rest s0 s) (go_wrap c buffered_Flush)
      (\<lambda>_ s. current g (h @ [GzFlush]) s \<and> same_rest s0 s \<and> fb_buf (wk_buffered (fst s)) = []) ?E" for c
    by (rule spec_wrap, rule spec_conseq [OF current_buffered_Flush]) auto
  have close: "go_spec (\<lambda>s. current g (h @ [GzFlush]) s \<and> same_rest s0 s \<and> fb_buf (wk_buffered (fst s)) = [])
      (go_wrap c file_Close) (\<lambda>_ s. complete (gz_input h) s \<and> same_rest s0 s) ?E" for c
    by (rule spec_wrap, rule spec_conseq [OF current_Close]) auto
  have move: "go_spec (\<lambda>s. complete (gz_input h) s \<and> same_rest s0 s) ?nil (\<lambda>path. moved_to path (gz_input h) s0) ?E"
  proof (rule go_specI, elim conjE)
    fix s assume "complete (gz_input h) s" "same_rest s0 s"
    moreover obtain w d where s: "s = (w, d)" by (cases s)
    ultimately have "complete (gz_input h) (w\<lparr>wk_file := None, wk_writer := None\<rparr>, d)"
        "same_rest s0 (w\<lparr>wk_file := None, wk_writer := None\<rparr>, d)"
      by (simp_all add: complete_def same_rest_def worker_logFilePath_def split: prod.splits)
    from go_specE [OF archive_moves, OF conjI [OF this(1) conjI [OF this(2)]], of now]
    show "case fst (?nil s) of Ok path \<Rightarrow> moved_to path (gz_input h) s0 (snd (?nil s)) | _ \<Rightarrow> ?E (snd (?nil s))"
      unfolding s fst_conv logFilePath_nil prod.case by (simp split: outcome.splits)
  qed
  show ?thesis
    unfolding worker_closeCurrentFile_def
    by (rule spec_bind [OF writer spec_bind [OF buffered spec_bind [OF close move]]])
qed

lemma rotation_moves:
  assumes "retry (worker_closeCurrentFile g now) s = Some (Ok path, s')" "current g h s"
  shows "moved_to path (gz_input h) s s'"
proof -
  define I where "I t \<longleftrightarrow> (\<exists>h'. gz_input h' = gz_input h \<and> current g h' t \<and> same_rest s t) \<or> stuck t" for t
  have stuck_sleep: "stuck (sleep t) = stuck t" for t :: "'z world" by (auto simp: stuck_def sleep_def split: prod.splits)
  have "\<exists>t. I t \<and> worker_closeCurrentFile g now t = (Ok path, s')"
  proof (rule retry_Ok [OF assms(1)])
    show "I s" unfolding I_def using assms(2) by auto
    fix t e t' assume "I t" and t': "worker_closeCurrentFile g now t = (Err e, t')"
    then consider h' where "gz_input h' = gz_input h" "current g h' t" "same_rest s t" | "stuck t"
      by (auto simp: I_def)
    then show "I (sleep t')"
    proof cases
      case 1
      then show ?thesis
        using go_specE [OF closeCurrentFile_moves, of h' t s now] t'
        by (simp add: I_def stuck_sleep) (metis gz_input_simps(2))
    next
      case 2
      then show ?thesis using go_specE [OF stuck_never_closes, of t g now] t' by (simp add: I_def stuck_sleep)
    qed
  qed
  then obtain t where t: "I t" "worker_closeCurrentFile g now t = (Ok path, s')" by blast
  from t(1) consider h' where "gz_input h' = gz_input h" "current g h' t" "same_rest s t" | "stuck t"
    by (auto simp: I_def)
  then show ?thesis
  proof cases
    case 1
    then show ?thesis using go_specE [OF closeCurrentFile_moves, of h' t s now] t(2) by simp
  next
    case 2
    then show ?thesis using go_specE [OF stuck_never_closes, of t g now] t(2) by simp
  qed
qed

lemma open_starts:
  assumes "worker_openLogFile g (w, d) = (r, (w', d'))"
  shows "(\<exists>e. r = Err e \<and> w' = w \<and> dk_files d' = dk_files d) \<or>
    (r = Ok () \<and> wk_source w' = wk_source w \<and> wk_logDirectory w' = wk_logDirectory w \<and>
      wk_maxFileSizeBeforeRotate w' = wk_maxFileSizeBeforeRotate w \<and> fb_bytesWritten (wk_buffered w') = 0 \<and>
      dk_files d' = (dk_files d)(latest w \<mapsto> (case dk_files d (latest w) of None \<Rightarrow> [] | Some c \<Rightarrow> c)) \<and>
      (dk_files d (latest w) = None \<longrightarrow> current g [] (w', d')))"
proof -
  obtain x d1 where fault: "next_fault d = (x, d1)" by (cases "next_fault d")
  note d1 = next_faultD [OF fault]
  show ?thesis
    using assms d1 fault
    by (cases x) (auto simp: worker_openLogFile_def os_OpenFile_def syscall_def current_def newFlushBuffer_def gz_run_def
      worker_logFilePath_def)
qed

lemma rotation_opens:
  assumes "retry (worker_openLogFile g) s1 = Some (r, s2)" "moved_to path content s s1"
  shows "r = Ok () \<longrightarrow> current g [] s2 \<and> fb_bytesWritten (wk_buffered (fst s2)) = 0 \<and>
    (case (s, s2) of ((w, d), (w', d')) \<Rightarrow>
      wk_source w' = wk_source w \<and> wk_logDirectory w' = wk_logDirectory w \<and>
      wk_maxFileSizeBeforeRotate w' = wk_maxFileSizeBeforeRotate w \<and> path \<noteq> latest w \<and> dk_files d path = None \<and>
      (\<exists>c. read c = content \<and> dk_files d' = (dk_files d)(latest w \<mapsto> [], path \<mapsto> c)))"
proof
  assume "r = Ok ()"
  have "\<exists>t. moved_to path content s t \<and> worker_openLogFile g t = (Ok (), s2)"
  proof (rule retry_Ok [OF assms(1) [unfolded \<open>r = Ok ()\<close>], of "moved_to path content s", OF assms(2)])
    fix t e t' assume "moved_to path content s t" "worker_openLogFile g t = (Err e, t')"
    then show "moved_to path content s (sleep t')"
      using open_starts [of "fst t" "snd t" "Err e" "fst t'" "snd t'"]
      by (cases t; cases t'; cases s) (auto simp: moved_to_def sleep_def)
  qed
  then obtain w1 d1 where t: "moved_to path content s (w1, d1)" "worker_openLogFile g (w1, d1) = (Ok (), s2)" by auto
  obtain w d w' d' where s: "s = (w, d)" "s2 = (w', d')" by (cases s; cases s2)
  show "current g [] s2 \<and> fb_bytesWritten (wk_buffered (fst s2)) = 0 \<and> (case (s, s2) of ((w, d), (w', d')) \<Rightarrow>
      wk_source w' = wk_source w \<and> wk_logDirectory w' = wk_logDirectory w \<and>
      wk_maxFileSizeBeforeRotate w' = wk_maxFileSizeBeforeRotate w \<and> path \<noteq> latest w \<and> dk_files d path = None \<and>
      (\<exists>c. read c = content \<and> dk_files d' = (dk_files d)(latest w \<mapsto> [], path \<mapsto> c)))"
    using open_starts [OF t(2) [unfolded s]] t(1)
    by (auto simp: s moved_to_def worker_logFilePath_def fun_upd_twist)
qed

definition stream :: "gz_op list \<Rightarrow> 'z run \<Rightarrow> bool" where
  "stream h r \<longleftrightarrow> current g h (rn_world r) \<and> (case rn_world r of (w, d) \<Rightarrow>
     latest w \<notin> set (rn_archived r) \<and> set (rn_archived r) \<subseteq> dom (dk_files d) \<and>
     decoded read (dk_files d) (rn_archived r) @ gz_input h = acknowledged (rn_replies r))"

lemma stream_cong:
  assumes "stream h r" "current g h' s'" "same_rest (rn_world r) s'" "rn_world r' = s'"
    "rn_archived r' = rn_archived r" "acknowledged (rn_replies r') = acknowledged (rn_replies r) @ new" "gz_input h' = gz_input h @ new"
  shows "stream h' r'"
proof -
  obtain w d w' d' where s: "rn_world r = (w, d)" "s' = (w', d')" by (cases "rn_world r"; cases s')
  have other: "\<And>p. p \<in> set (rn_archived r) \<Longrightarrow> dk_files d' p = dk_files d p"
    using assms(1,3) unfolding stream_def s same_rest_def prod.case by metis
  then have "decoded read (dk_files d') (rn_archived r) = decoded read (dk_files d) (rn_archived r)" by (rule decoded_cong)
  then show ?thesis using assms other by (auto simp: stream_def s same_rest_def worker_logFilePath_def)
qed

lemma stream_flush:
  assumes "stream h r" "run_flush g r = Ok r'"
  shows "\<exists>h'. stream h' r' \<and> (rn_lines r \<noteq> 0 \<longrightarrow> rn_lines r' = 0 \<longrightarrow>
    (case rn_world r' of (w, d) \<Rightarrow> decoded read (dk_files d) (rn_archived r' @ [latest w]) = acknowledged (rn_replies r)))"
proof (cases "rn_lines r = 0")
  case True
  then show ?thesis using assms by (auto simp: run_flush_def)
next
  case False
  let ?m = "go_bind (writer_Flush g) (\<lambda>_. buffered_Flush)"
  let ?P = "\<lambda>s. current g (h @ [GzFlush]) s \<and> same_rest (rn_world r) s"
  have "go_spec (\<lambda>s. current g h s \<and> same_rest (rn_world r) s) ?m (\<lambda>_ s. ?P s \<and> fb_buf (wk_buffered (fst s)) = []) ?P"
    by (rule spec_bind, rule spec_conseq [OF current_writer_Flush], assumption, assumption, simp,
        rule spec_conseq [OF current_buffered_Flush]) auto
  from go_specE [OF this, of "rn_world r"]
  have eff: "case fst (?m (rn_world r)) of Ok _ \<Rightarrow> ?P (snd (?m (rn_world r))) \<and> fb_buf (wk_buffered (fst (snd (?m (rn_world r))))) = []
      | _ \<Rightarrow> ?P (snd (?m (rn_world r)))"
    using assms(1) by (simp add: stream_def)
  obtain o1 s where m: "?m (rn_world r) = (o1, s)" by (cases "?m (rn_world r)")
  have world: "rn_world r' = s" "rn_archived r' = rn_archived r" "rn_replies r' = rn_replies r"
      "rn_lines r' = 0 \<Longrightarrow> o1 = Ok ()"
    using assms(2) False m by (cases o1; auto simp: run_flush_def)+
  have P: "?P s" and flushed: "o1 = Ok () \<Longrightarrow> fb_buf (wk_buffered (fst s)) = []" using eff m by (cases o1; simp)+
  have stream': "stream (h @ [GzFlush]) r'"
    by (rule stream_cong [OF assms(1), where s' = s and new = "[]"]) (use P world in simp_all)
  obtain w d where s: "s = (w, d)" by (cases s)
  have "decoded read (dk_files d) (rn_archived r @ [latest w]) = acknowledged (rn_replies r)" if reset: "rn_lines r' = 0"
  proof -
    obtain c z where "dk_files d (latest w) = Some c" "gz_run g (h @ [GzFlush]) = (c, z)"
      using P flushed [OF world(4) [OF reset]] by (auto simp: s current_def)
    then have "read (the (dk_files d (latest w))) = gz_input h" using read_flushed [of h] by simp
    then show ?thesis using stream' world s by (simp add: decoded_snoc stream_def)
  qed
  then show ?thesis using stream' world s by (intro exI [of _ "h @ [GzFlush]"]) auto
qed

lemma stream_rotate:
  assumes "stream h r" "run_rotate g now r = Some (Ok r')" "rn_bytes r \<noteq> 0"
  shows "stream [] r' \<and> fb_bytesWritten (wk_buffered (fst (rn_world r'))) = 0 \<and> rn_bytes r' = 0 \<and> rn_lastPosition r' = rn_lastPosition r \<and>
    wk_maxFileSizeBeforeRotate (fst (rn_world r')) = wk_maxFileSizeBeforeRotate (fst (rn_world r))"
proof -
  obtain path s1 s2 where close: "retry (worker_closeCurrentFile g now) (rn_world r) = Some (Ok path, s1)"
      and open_: "retry (worker_openLogFile g) s1 = Some (Ok (), s2)"
      and r': "r' = r\<lparr>rn_world := s2, rn_lines := 0, rn_bytes := 0, rn_archived := rn_archived r @ [path]\<rparr>"
    using assms(2,3) by (auto simp: run_rotate_def outcome_bind_def split: Option.bind_splits prod.splits outcome.splits)
  obtain w d w' d' where s: "rn_world r = (w, d)" "s2 = (w', d')" by (cases "rn_world r"; cases s2)
  have moved: "moved_to path (gz_input h) (w, d) s1"
    by (rule rotation_moves [OF close [unfolded s]]) (use assms(1) in \<open>simp add: stream_def s\<close>)
  note opened = rotation_opens [OF open_ this, THEN mp, OF refl, unfolded s prod.case fst_conv]
  then obtain c where c: "read c = gz_input h" "dk_files d' = (dk_files d)(latest w \<mapsto> [], path \<mapsto> c)" by blast
  have old: "dk_files d' p = dk_files d p" if "p \<in> set (rn_archived r)" for p
    using assms(1) opened c that by (auto simp: stream_def s)
  then have "decoded read (dk_files d') (rn_archived r) = decoded read (dk_files d) (rn_archived r)" by (rule decoded_cong)
  moreover have "set (rn_archived r) \<subseteq> dom (dk_files d)" using assms(1) by (simp add: stream_def s)
  ultimately show ?thesis
    using assms(1) opened c old by (auto simp: stream_def s r' decoded_snoc worker_logFilePath_def)
qed

lemma stream_request:
  assumes "stream h r" "run_request g req r = Ok r'"
  shows "stream (h @ [GzWrite (add_newline (req_data req))]) r'"
proof -
  let ?line = "add_newline (req_data req)"
  obtain w d where s: "rn_world r = (w, d)" by (cases "rn_world r")
  obtain z where z: "wk_writer w = Some z" using assms(1) by (auto simp: stream_def s current_def)
  obtain q z' where wr: "gz_Write g ?line z = ((length ?line, None), q, z')"
    using Write_all [of ?line z] by (cases "gz_Write g ?line z") auto
  let ?w = "w\<lparr>wk_writer := Some z', wk_buffered := flushBuffer_Write q (wk_buffered w)\<rparr>"
  have r': "rn_world r' = (?w, d)" "rn_archived r' = rn_archived r" "rn_replies r' = rn_replies r @ [(?line, Ok ())]"
    using assms(2) by (auto simp: run_request_def run_written_def s z wr Let_def)
  show ?thesis
  proof (rule stream_cong [OF assms(1), where s' = "(?w, d)" and new = ?line])
    show "current g (h @ [GzWrite ?line]) (?w, d)"
      using assms(1) by (auto simp: stream_def s z current_def gz_run_snoc wr flushBuffer_Write_def worker_logFilePath_def)
  qed (use r' s in \<open>simp_all add: same_rest_def acknowledged_def worker_logFilePath_def\<close>)
qed

lemma stream_step:
  assumes "worker_step g now r r'" "stream h r"
  shows "\<exists>h'. stream h' r'"
  using assms
proof cases
  case (flush t)
  then show ?thesis using stream_flush [of h "r\<lparr>rn_flush := t\<rparr>" r'] assms(2) by (auto simp: stream_def)
next
  case (rotate t)
  have "stream h (r\<lparr>rn_rotate := t\<rparr>)" using assms(2) by (simp add: stream_def)
  then show ?thesis
  proof (cases "rn_bytes r = 0")
    case True
    then have "r' = r\<lparr>rn_rotate := t\<rparr>" using rotate by (simp add: run_rotate_def)
    then show ?thesis using \<open>stream h (r\<lparr>rn_rotate := t\<rparr>)\<close> by blast
  next
    case False
    then show ?thesis using stream_rotate [OF \<open>stream h (r\<lparr>rn_rotate := t\<rparr>)\<close> rotate(2)] by auto
  qed
next
  case (request req)
  then show ?thesis using stream_request [OF assms(2)] by blast
next
  case time
  then show ?thesis using assms(2) by (auto simp: stream_def sleep_def current_def split: prod.splits)
qed (auto simp: stream_def)

lemma stream_start:
  assumes "newWorker g source dir maxLines maxSize d = (Ok w, d')" "dk_files d (latest w) = None"
  shows "stream [] (run_start w d')"
proof -
  let ?w0 = "\<lparr>wk_source = source, wk_logDirectory = dir, wk_maxLogLinesBeforeFlush = maxLines, wk_maxFileSizeBeforeRotate = maxSize,
    wk_file = None, wk_buffered = newFlushBuffer 0, wk_writer = None\<rparr>"
  obtain r where "worker_openLogFile g (?w0, d) = (r, (w, d'))" "r = Ok ()"
    using assms(1) by (auto simp: newWorker_def outcome_bind_def split: prod.splits outcome.splits)
  from open_starts [OF this(1)] this(2) assms(2) show ?thesis
    by (auto simp: stream_def run_start_def decoded_def acknowledged_def worker_logFilePath_def)
qed

lemma stream_reachable:
  assumes "(worker_step g now)\<^sup>*\<^sup>* r r'" "stream h r"
  shows "\<exists>h'. stream h' r'"
  using assms by (induction) (blast intro: stream_step)+

subsection \<open>Rotation without faults\<close>

lemma faultless_close:
  assumes "current g h (w, d)" "dk_faults d = []"
  shows "\<exists>w' d' c. worker_closeCurrentFile g now (w, d) = archive now (latest w) (w', d') \<and> wk_writer w' = None \<and>
    (\<forall>name. worker_logFilePath w' name = worker_logFilePath w name) \<and> dk_faults d' = [] \<and> dk_time d' = dk_time d \<and>
    dk_files d' = (dk_files d)(latest w \<mapsto> c)"
proof -
  obtain f z c where f: "wk_file w = Some f" "fb_w (wk_buffered w) = f" "f < length (dk_handles d)"
      "dk_handles d ! f = (latest w, False)" and z: "wk_writer w = Some z" and c: "dk_files d (latest w) = Some c"
    using assms(1) by (auto simp: current_def)
  obtain q z' where flush: "gz_Flush g z = (None, q, z')" using Flush_ok [of z] by (cases "gz_Flush g z") auto
  define b where "b = flushBuffer_Write q (wk_buffered w)"
  define w1 where "w1 = w\<lparr>wk_writer := Some z', wk_buffered := b\<rparr>"
  have w1: "wk_file w1 = Some f" "fb_w (wk_buffered w1) = f" "latest w1 = latest w" "worker_logFilePath w1 name = worker_logFilePath w name" for name
    using f by (simp_all add: w1_def b_def flushBuffer_Write_def worker_logFilePath_def)
  have first: "go_wrap x (writer_Flush g) (w, d) = (Ok (), (w1, d))" for x
    by (simp add: writer_Flush_def z flush w1_def b_def)
  obtain b' d2 where second: "flushBuffer_Flush (wk_buffered w1) d = (Ok (), b', d2)" and
      d2: "dk_faults d2 = []" "dk_time d2 = dk_time d" "dk_handles d2 = dk_handles d" "dk_files d2 = (dk_files d)(latest w \<mapsto> c @ fb_buf b)"
  proof (cases "fb_buf b = []")
    case True
    then have "flushBuffer_Flush (wk_buffered w1) d = (Ok (), wk_buffered w1, d)" by (simp add: flushBuffer_Flush_def w1_def)
    moreover have "dk_files d = (dk_files d)(latest w \<mapsto> c @ fb_buf b)" using c True by (simp add: map_upd_triv)
    ultimately show ?thesis using that assms(2) by blast
  next
    case False
    then have "flushBuffer_Flush (wk_buffered w1) d = (Ok (), (wk_buffered w1)\<lparr>fb_buf := []\<rparr>, append_file (latest w) (fb_buf b) d)"
      using f w1 assms(2) by (simp add: flushBuffer_Flush_def File_Write_def w1_def)
    then show ?thesis by (rule that) (use c assms(2) in \<open>simp_all add: append_file_def\<close>)
  qed
  let ?w2 = "w1\<lparr>wk_buffered := b'\<rparr>" and ?d3 = "d2\<lparr>dk_handles := (dk_handles d2)[f := (latest w, True)]\<rparr>"
  have third: "go_wrap x buffered_Flush (w1, d) = (Ok (), (?w2, d2))" for x
    by (simp add: buffered_Flush_def second)
  have fourth: "go_wrap x file_Close (?w2, d2) = (Ok (), (?w2, ?d3))" for x
    using f w1 d2 by (simp add: file_Close_def on_disk_def File_Close_def syscall_def)
  have "worker_closeCurrentFile g now (w, d) = archive now (latest w) (?w2\<lparr>wk_file := None, wk_writer := None\<rparr>, ?d3)"
    using w1 by (simp add: worker_closeCurrentFile_def go_bind_def first third fourth worker_logFilePath_def)
  then show ?thesis
    using d2 w1 by (intro exI [of _ "?w2\<lparr>wk_file := None, wk_writer := None\<rparr>"] exI [of _ ?d3] exI [of _ "c @ fb_buf b"])
      (simp add: worker_logFilePath_def)
qed

text \<open>
  A rotation to a name that exists already ends in a panic: the first attempt has dropped the
  writer that the second one flushes.
\<close>

lemma rotation_to_taken_name:
  assumes "stream h r" "rn_world r = (w, d)" "dk_faults d = []" "rn_bytes r \<noteq> 0"
    and "worker_logFilePath w (now (dk_time d)) \<in> dom (dk_files d)"
  shows "run_rotate g now r = Some (Panic ''invalid memory address or nil pointer dereference'')"
proof -
  have "current g h (w, d)" using assms(1,2) by (simp add: stream_def)
  from faultless_close [OF this assms(3)] obtain w' d' c where
      close: "worker_closeCurrentFile g now (w, d) = archive now (latest w) (w', d')" and nil: "wk_writer w' = None"
      and paths: "\<And>name. worker_logFilePath w' name = worker_logFilePath w name" and d': "dk_faults d' = []" "dk_time d' = dk_time d"
      "dk_files d' = (dk_files d)(latest w \<mapsto> c)" by blast
  have "archive now (latest w) (w', d') = (Err (PlainError ''attempted to archive file to already existing path''), (w', d'))"
    using assms(5) d' paths by (auto simp: archive_def os_Stat_def syscall_def Let_def)
  with close have first: "worker_closeCurrentFile g now (w, d) =
      (Err (PlainError ''attempted to archive file to already existing path''), (w', d'))" by simp
  have second: "worker_closeCurrentFile g now (sleep (w', d')) =
      (Panic ''invalid memory address or nil pointer dereference'', sleep (w', d'))"
    using nil by (simp add: worker_closeCurrentFile_def writer_Flush_def sleep_def go_bind_def go_wrap_def)
  have "retry (worker_closeCurrentFile g now) (w, d) =
      Some (Panic ''invalid memory address or nil pointer dereference'', sleep (w', d'))"
    by (subst retry.simps) (simp add: first, subst retry.simps, simp add: second)
  then show ?thesis using assms(2,4) by (simp add: run_rotate_def)
qed

lemma rotation_to_free_name:
  assumes "stream h r" "rn_world r = (w, d)" "dk_faults d = []" "rn_bytes r \<noteq> 0"
    and "worker_logFilePath w (now (dk_time d)) \<notin> dom (dk_files d)"
  shows "\<exists>r'. run_rotate g now r = Some (Ok r') \<and> rn_archived r' = rn_archived r @ [worker_logFilePath w (now (dk_time d))]"
proof -
  have cur: "current g h (w, d)" using assms(1,2) by (simp add: stream_def)
  from faultless_close [OF cur assms(3)] obtain w' d' c where
      close: "worker_closeCurrentFile g now (w, d) = archive now (latest w) (w', d')" and nil: "wk_writer w' = None"
      and paths: "\<And>name. worker_logFilePath w' name = worker_logFilePath w name" and d': "dk_faults d' = []" "dk_time d' = dk_time d"
      "dk_files d' = (dk_files d)(latest w \<mapsto> c)" by blast
  let ?ap = "worker_logFilePath w (now (dk_time d))"
  have "latest w \<in> dom (dk_files d)" using cur by (auto simp: current_def)
  then have "?ap \<noteq> latest w" using assms(5) by metis
  then have free: "dk_files d' ?ap = None" using assms(5) d' by (auto simp: domIff)
  let ?d = "d'\<lparr>dk_files := (dk_files d')(latest w := None, ?ap \<mapsto> c)\<rparr>"
  have "archive now (latest w) (w', d') = (Ok ?ap, (w', ?d))"
    using free d' paths by (simp add: archive_def os_Stat_def os_Rename_def syscall_def on_disk_def go_wrap_def go_map_def go_bind_def Let_def)
  then have 1: "retry (worker_closeCurrentFile g now) (w, d) = Some (Ok ?ap, (w', ?d))"
    by (subst retry.simps) (simp add: close)
  obtain s2 where "worker_openLogFile g (w', ?d) = (Ok (), s2)"
    using d'(1) by (simp add: worker_openLogFile_def os_OpenFile_def syscall_def)
  then have 2: "retry (worker_openLogFile g) (w', ?d) = Some (Ok (), s2)" by (subst retry.simps) simp
  show ?thesis using assms(2,4) by (simp add: run_rotate_def 1 2)
qed

text \<open>
  The position of the last write is not reset by a rotation, while the new file's count starts
  from zero: the difference wraps around and the next line asks for another rotation.
\<close>

lemma rotation_repeats:
  assumes "stream h r" "rn_bytes r \<noteq> 0" "run_rotate g now r = Some (Ok r1)" "run_request g req r1 = Ok r2"
    and "length (fst (snd (gz_Write g (add_newline (req_data req)) (gz_new g)))) < unat (rn_lastPosition r)"
    and "unat (rn_lastPosition r) < 2 ^ 63" "unat (wk_maxFileSizeBeforeRotate (fst (rn_world r))) < 2 ^ 63"
  shows "mt_manual (rn_rotate r2) \<and> 2 ^ 63 < unat (rn_bytes r2)"
proof -
  note rot = stream_rotate [OF assms(1,3,2)]
  obtain w d where w: "rn_world r1 = (w, d)" by (cases "rn_world r1")
  let ?line = "add_newline (req_data req)"
  have z: "wk_writer w = Some (gz_new g)" using rot by (auto simp: stream_def w current_def gz_run_def)
  obtain q z' where wr: "gz_Write g ?line (gz_new g) = ((length ?line, None), q, z')"
    using Write_all [of ?line "gz_new g"] by (cases "gz_Write g ?line (gz_new g)") auto
  define P where "P = rn_lastPosition r"
  define B where "B = (of_nat (length q) :: 64 word) - P"
  have q: "length q < unat P" "unat P < 2 ^ 63" using assms(5,6) wr by (simp_all add: P_def)
  have "unat (of_nat (length q) :: 64 word) = length q" using q by (simp add: unat_of_nat)
  then have "unat B = 2 ^ 64 + length q - unat P"
    unfolding B_def using q by (simp add: unat_sub_if' word_size)
  then have B: "2 ^ 63 < unat B" using q by simp
  then have max: "wk_maxFileSizeBeforeRotate w < B"
    using assms(7) rot by (simp add: word_less_nat_alt w)
  have pos: "fb_bytesWritten (wk_buffered w) = 0" "rn_bytes r1 = 0" "rn_lastPosition r1 = P" using rot by (simp_all add: w P_def)
  have "rn_bytes r2 = B \<and> mt_manual (rn_rotate r2)"
    using assms(4) pos max
    by (simp add: run_request_def w z wr Let_def run_written_def flushBuffer_Position_def flushBuffer_Write_def B_def
        manualTicker_Trigger_def) auto
  then show ?thesis using B by simp
qed

end

end
