(* ===== verification/Log_Manager.thy ===== *)
theory Log_Manager
  imports Log_Worker Http_Handler
begin

text \<open>
  The log service around its workers: the manager of \<^verbatim>\<open>service/log/manager.go\<close>, which starts one
  worker per source, and the handler of \<^verbatim>\<open>handler.go\<close>, which takes a batch of events from a
  request and hands each to the manager in a goroutine of its own. The workers share the disk. A
  request to a worker is one step: its answer is awaited.
\<close>

definition ErrTerminating :: goerr where "ErrTerminating = PlainError ''process terminating''"

record 'z WorkerManager =
  wm_directory :: string
  wm_maxLogLinesBeforeFlush :: "32 word"
  wm_maxFileSizeBeforeRotate :: "64 word"
  wm_context :: bool
  wm_terminating :: bool
  wm_workers :: "string \<rightharpoonup> 'z run"
  wm_disk :: disk

definition NewWorkerManager :: "string \<Rightarrow> 32 word \<Rightarrow> 64 word \<Rightarrow> disk \<Rightarrow> 'z WorkerManager" where
  "NewWorkerManager path maxLines maxSize d =
     \<lparr>wm_directory = path, wm_maxLogLinesBeforeFlush = maxLines, wm_maxFileSizeBeforeRotate = maxSize, wm_context = False,
      wm_terminating = False, wm_workers = Map.empty, wm_disk = d\<rparr>"

definition WorkerManager_logPath :: "'z WorkerManager \<Rightarrow> string \<Rightarrow> string" where
  "WorkerManager_logPath m source = filepath_Join [wm_directory m, source]"

text \<open>
  \<^verbatim>\<open>worker\<close>. The goroutine of a new worker starts with \<^verbatim>\<open>w.context.Done()\<close>, which panics when \<^verbatim>\<open>Run\<close>
  has not set the context yet.
\<close>

definition WorkerManager_worker :: "'z Gzip \<Rightarrow> string \<Rightarrow> ('z WorkerManager, unit) go" where
  "WorkerManager_worker g source m =
     (if wm_workers m source \<noteq> None then (Ok (), m)
      else (let p = WorkerManager_logPath m source in
        case go_bind (go_wrap ''could not create log directory'' (os_MkdirAll p)) (\<lambda>_.
               go_wrap ''error while creating worker for source''
                 (newWorker g source p (wm_maxLogLinesBeforeFlush m) (wm_maxFileSizeBeforeRotate m))) (wm_disk m) of
          (Ok w, d) \<Rightarrow>
            if wm_context m then (Ok (), m\<lparr>wm_workers := (wm_workers m)(source \<mapsto> run_start w d), wm_disk := d\<rparr>)
            else (Panic ''invalid memory address or nil pointer dereference'', m\<lparr>wm_disk := d\<rparr>)
        | (Err e, d) \<Rightarrow> (Err e, m\<lparr>wm_disk := d\<rparr>)
        | (Panic q, d) \<Rightarrow> (Panic q, m\<lparr>wm_disk := d\<rparr>)
        | (Diverge, d) \<Rightarrow> (Diverge, m\<lparr>wm_disk := d\<rparr>)))"

record event =
  ev_Source :: string
  ev_Data :: bytes

text \<open>The request to the worker of a source and its answer.\<close>

definition send_request :: "'z Gzip \<Rightarrow> string \<Rightarrow> workerRequest \<Rightarrow> ('z WorkerManager, unit) go" where
  "send_request g source req m = (case wm_workers m source of
      None \<Rightarrow> (Diverge, m)
    | Some r \<Rightarrow> (case run_request g req (r\<lparr>rn_world := (fst (rn_world r), wm_disk m)\<rparr>) of
        Ok r' \<Rightarrow> (snd (last (rn_replies r')), m\<lparr>wm_workers := (wm_workers m)(source \<mapsto> r'), wm_disk := snd (rn_world r')\<rparr>)
      | Err e \<Rightarrow> (Err e, m)
      | Panic p \<Rightarrow> (Panic p, m)
      | Diverge \<Rightarrow> (Diverge, m)))"

definition WorkerManager_process :: "'z Gzip \<Rightarrow> event \<Rightarrow> string \<Rightarrow> ('z WorkerManager, unit) go" where
  "WorkerManager_process g e level m =
     (if wm_terminating m then (Err ErrTerminating, m)
      else go_bind (go_wrap ''could not get worker'' (WorkerManager_worker g (ev_Source e)))
             (\<lambda>_. send_request g (ev_Source e) \<lparr>req_data = ev_Data e, req_level = level\<rparr>) m)"

text \<open>
  \<^verbatim>\<open>Run\<close>: it sets the context, and when that is cancelled stops the workers it knows, which do not
  signal that they have stopped.
\<close>

definition WorkerManager_start :: "'z WorkerManager \<Rightarrow> 'z WorkerManager" where
  "WorkerManager_start m = m\<lparr>wm_context := True\<rparr>"

fun stop_workers :: "'z Gzip \<Rightarrow> string list \<Rightarrow> ('z WorkerManager, unit) go" where
  "stop_workers g [] m = (Ok (), m)"
| "stop_workers g (source # sources) m = (case wm_workers m source of
      None \<Rightarrow> stop_workers g sources m
    | Some r \<Rightarrow> (case worker_stop g False (fst (rn_world r), wm_disk m) of
        (Ok _, (w, d)) \<Rightarrow> stop_workers g sources (m\<lparr>wm_disk := d\<rparr>)
      | (Err e, (w, d)) \<Rightarrow> stop_workers g sources (m\<lparr>wm_disk := d\<rparr>)
      | (Panic p, (w, d)) \<Rightarrow> (Panic p, m\<lparr>wm_disk := d\<rparr>)
      | (Diverge, (w, d)) \<Rightarrow> (Diverge, m\<lparr>wm_disk := d\<rparr>)))"

definition WorkerManager_shutdown :: "'z Gzip \<Rightarrow> string list \<Rightarrow> ('z WorkerManager, unit) go" where
  "WorkerManager_shutdown g sources m = stop_workers g sources (m\<lparr>wm_terminating := True\<rparr>)"

section \<open>The handler\<close>

definition LogLevelUnkown :: string where "LogLevelUnkown = ''unknown''"

text \<open>\<open>level_of\<close> is the decoding of the level field of a JSON object.\<close>

definition tryExtractLevel :: "(bytes \<Rightarrow> string outcome) \<Rightarrow> bytes \<Rightarrow> string" where
  "tryExtractLevel level_of p = (case level_of p of Ok l \<Rightarrow> l | _ \<Rightarrow> LogLevelUnkown)"

text \<open>
  \<^verbatim>\<open>sync.WaitGroup\<close> is a counter: \<^verbatim>\<open>Go\<close> adds one to it and takes one off when its function ends, \<^verbatim>\<open>Wait\<close>
  blocks until it is zero. The loop adds one for every event and then calls \<^verbatim>\<open>Go\<close>.
\<close>

fun start_all :: "event list \<Rightarrow> nat \<Rightarrow> nat" where
  "start_all [] wg = wg"
| "start_all (e # es) wg = start_all es ((wg + 1) + 1)"

text \<open>
  The goroutines end in some order \<open>order\<close>, a list of the positions of the events; the error of each
  is kept at its position.
\<close>

fun process_all :: "'z Gzip \<Rightarrow> (bytes \<Rightarrow> string outcome) \<Rightarrow> event list \<Rightarrow> nat list \<Rightarrow> goerr option list \<Rightarrow> nat \<Rightarrow>
    ('z WorkerManager, goerr option list \<times> nat) go" where
  "process_all g level_of es [] errs wg m = (Ok (errs, wg), m)"
| "process_all g level_of es (i # is) errs wg m =
     (case WorkerManager_process g (es ! i) (tryExtractLevel level_of (ev_Data (es ! i))) m of
        (Ok _, m') \<Rightarrow> process_all g level_of es is errs (wg - 1) m'
      | (Err e, m') \<Rightarrow> process_all g level_of es is
          (errs[i := Some (Joined (Wrapped ''error while storing log'' ErrInternal) e)]) (wg - 1) m'
      | (Panic p, m') \<Rightarrow> (Panic p, m')
      | (Diverge, m') \<Rightarrow> (Diverge, m'))"

fun join_all :: "goerr list \<Rightarrow> goerr" where
  "join_all [] = PlainError []"
| "join_all [e] = e"
| "join_all (e # es) = Joined e (join_all es)"

definition Log_handleLogs :: "'z Gzip \<Rightarrow> (bytes \<Rightarrow> string outcome) \<Rightarrow> (string \<Rightarrow> event list outcome) \<Rightarrow> nat list \<Rightarrow>
    string outcome \<Rightarrow> unit outcome \<Rightarrow> ('z WorkerManager, unit) go" where
  "Log_handleLogs g level_of decode order body close =
     go_bind (go_join (Wrapped ''error while reading the'' ErrInternal) (lift body)) (\<lambda>b.
     go_bind (go_join (Wrapped ''error while decoding the request body'' ErrBadRequest) (lift (decode b))) (\<lambda>events.
     go_bind (go_join (Wrapped ''error while closing the request body'' ErrBadRequest) (lift close)) (\<lambda>_.
     go_bind (process_all g level_of events order (replicate (length events) None) (start_all events 0)) (\<lambda>(logErrors, wg).
     if wg \<noteq> 0 then lift Diverge
     else (let collected = [e. Some e \<leftarrow> logErrors] in
           if collected = [] then ret ()
           else throw (Wrapped ''writing one or more logs failed'' (join_all collected)))))))"

section \<open>The handler does not return\<close>

lemma start_all_count: "start_all es wg = wg + 2 * length es"
  by (induction es arbitrary: wg) simp_all

lemma process_all_count:
  "process_all g level_of es is errs wg m = (Ok (errs', wg'), m') \<Longrightarrow> wg' = wg - length is"
  by (induction "is" arbitrary: errs wg m) (fastforce split: prod.splits outcome.splits)+

lemma process_all_no_error: "fst (process_all g level_of es is errs wg m) \<noteq> Err e"
  by (induction "is" arbitrary: errs wg m) (auto split: prod.splits outcome.splits)

text \<open>
  A batch with an event is never answered: the counter counts every event twice. Only a body that
  cannot be read or decoded, and an empty batch, are.
\<close>

lemma handleLogs_hangs:
  assumes "decode b = Ok events" "events \<noteq> []" "length order = length events"
  shows "\<not> ends True (fst (Log_handleLogs g level_of decode order (Ok b) (Ok ()) m))"
proof -
  let ?p = "process_all g level_of events order (replicate (length events) None) (start_all events 0) m"
  obtain r m' where p: "?p = (r, m')" by (cases ?p)
  show ?thesis
  proof (cases r)
    case (Ok res)
    obtain errs wg where res: "res = (errs, wg)" by (cases res)
    have "wg = length events"
      using process_all_count [OF p [unfolded Ok res]] assms(3) by (simp add: start_all_count)
    then show ?thesis using assms p by (simp add: Log_handleLogs_def Ok res go_bind_def go_join_def)
  qed (use assms p process_all_no_error [of g level_of events order _ _ m] in
      \<open>auto simp: Log_handleLogs_def go_bind_def go_join_def, metis fst_conv\<close>)
qed

lemma handleLogs_empty: "decode b = Ok [] \<Longrightarrow> Log_handleLogs g level_of decode [] (Ok b) (Ok ()) m = (Ok (), m)"
  by (simp add: Log_handleLogs_def go_bind_def go_join_def)

text \<open>Shutting down a manager that has started a worker does not return either.\<close>

lemma shutdown_hangs:
  assumes "wm_workers m source \<noteq> None" "source \<in> set sources"
  shows "fst (WorkerManager_shutdown g sources m) = Diverge"
proof -
  have "fst (stop_workers g sources m') = Diverge" if "wm_workers m' = wm_workers m" for m' :: "'a WorkerManager"
    using assms that by (induction sources arbitrary: m') (auto simp: worker_stop_def split: option.splits)
  then show ?thesis by (simp add: WorkerManager_shutdown_def)
qed

end
