(* ===== verification/Log_Example.thy ===== *)
theory Log_Example
  imports Log_Stream Log_Manager
begin

text \<open>
  A gzip writer that stores its data without compression, as level \<^verbatim>\<open>NoCompression\<close> does: the header of
  RFC 1952, then stored blocks of RFC 1951 of at most 65535 bytes, a flush ending in an empty
  block. It satisfies the laws of \<open>gzip_writer\<close>. With it, a worker of the log service is run.
\<close>

section \<open>Stored blocks\<close>

definition gz_header :: bytes where
  "gz_header = [0x1F, 0x8B, 8, 0, 0, 0, 0, 0, 0, 0xFF]"

definition block :: "bytes \<Rightarrow> bytes" where
  "block p = (let l0 = of_nat (length p mod 256); l1 = of_nat (length p div 256) in 0 # l0 # l1 # not l0 # not l1 # p)"

function chunks :: "bytes \<Rightarrow> bytes list" where
  "chunks p = (if p = [] then [] else take 65535 p # chunks (drop 65535 p))"
  by auto
termination by (relation "measure length") auto

declare chunks.simps [simp del]

function inflate :: "bytes \<Rightarrow> bytes" where
  "inflate p = (case p of
      b # l0 # l1 # n0 # n1 # rest \<Rightarrow> (let n = unat l0 + 256 * unat l1 in take n rest @ inflate (drop n rest))
    | _ \<Rightarrow> [])"
  by auto
termination by (relation "measure length") auto

declare inflate.simps [simp del]

definition stored_gzip :: "(bool \<times> bytes) Gzip" where
  "stored_gzip = \<lparr>gz_new = (False, []),
     gz_Write = (\<lambda>p (started, pending). ((length p, None), (if started then [] else gz_header), (True, pending @ p))),
     gz_Flush = (\<lambda>(started, pending). (None,
       (if started then [] else gz_header) @ concat (map block (chunks pending)) @ block [], (True, [])))\<rparr>"

definition gunzip :: "bytes \<Rightarrow> bytes" where
  "gunzip p = inflate (drop 10 p)"

lemma inflate_block:
  assumes "length p \<le> 65535"
  shows "inflate (block p @ rest) = p @ inflate rest"
proof -
  have "length p div 256 < 256" using assms by simp
  then have "unat (of_nat (length p mod 256) :: byte) + 256 * unat (of_nat (length p div 256) :: byte) = length p"
    by (simp add: unat_of_nat)
  then show ?thesis by (subst inflate.simps) (simp add: block_def Let_def)
qed

lemma inflate_blocks:
  "\<forall>p\<in>set ps. length p \<le> 65535 \<Longrightarrow> inflate (concat (map block ps)) = concat ps"
proof (induction ps)
  case (Cons p ps)
  then show ?case by (simp add: inflate_block)
qed (simp add: inflate.simps)

lemma chunks_props: "concat (chunks p) = p \<and> (\<forall>c\<in>set (chunks p). length c \<le> 65535)"
proof (induction p rule: chunks.induct)
  case (1 p)
  show ?case
  proof (cases "p = []")
    case False
    with 1 show ?thesis by (simp add: chunks.simps [of p])
  qed (simp add: chunks.simps)
qed

lemma stored_run:
  "\<exists>ps started pending. gz_run stored_gzip ops = ((if started then gz_header else []) @ concat (map block ps), (started, pending)) \<and>
     (\<forall>p\<in>set ps. length p \<le> 65535) \<and> concat ps @ pending = gz_input ops \<and> (started \<or> ps = [] \<and> pending = [])"
proof (induction ops rule: rev_induct)
  case Nil
  show ?case by (intro exI [of _ "[]"] exI [of _ False]) (simp add: gz_run_def stored_gzip_def)
next
  case (snoc op ops)
  then obtain ps started pending where IH:
      "gz_run stored_gzip ops = ((if started then gz_header else []) @ concat (map block ps), (started, pending))"
      "\<forall>p\<in>set ps. length p \<le> 65535" "concat ps @ pending = gz_input ops" "started \<or> ps = [] \<and> pending = []" by blast
  show ?case
  proof (cases op)
    case (GzWrite p)
    then show ?thesis using IH
      by (intro exI [of _ ps] exI [of _ True] exI [of _ "pending @ p"])
         (auto simp: gz_run_snoc stored_gzip_def append_assoc [symmetric] simp del: append_assoc)
  next
    case GzFlush
    then show ?thesis using IH chunks_props [of pending]
      by (intro exI [of _ "ps @ chunks pending @ [[]]"] exI [of _ True] exI [of _ "[]"])
         (auto simp: gz_run_snoc stored_gzip_def)
  qed
qed

interpretation stored: gzip_writer stored_gzip gunzip
proof
  show "fst (gz_Write stored_gzip p z) = (length p, None)" for p z by (cases z) (simp add: stored_gzip_def)
  show "fst (gz_Flush stored_gzip z) = None" for z by (cases z) (simp add: stored_gzip_def)
  show "gunzip (fst (gz_run stored_gzip (ops @ [GzFlush]))) = gz_input ops" for ops
  proof -
    obtain ps started pending where run:
      "gz_run stored_gzip ops = ((if started then gz_header else []) @ concat (map block ps), (started, pending))"
      "\<forall>p\<in>set ps. length p \<le> 65535" "concat ps @ pending = gz_input ops" "started \<or> ps = [] \<and> pending = []"
      using stored_run [of ops] by blast
    have "fst (gz_run stored_gzip (ops @ [GzFlush])) = gz_header @ concat (map block (ps @ chunks pending @ [[]]))"
      using run by (auto simp: gz_run_snoc stored_gzip_def)
    then have "gunzip (fst (gz_run stored_gzip (ops @ [GzFlush]))) = concat (ps @ chunks pending @ [[]])"
      unfolding gunzip_def using run(2) chunks_props [of pending] by (subst inflate_blocks [symmetric]) (auto simp: gz_header_def)
    then show ?thesis using run(3) chunks_props [of pending] by simp
  qed
qed

section \<open>A worker\<close>

definition ex_disk :: disk where
  "ex_disk = \<lparr>dk_files = Map.empty, dk_handles = [], dk_faults = [], dk_time = 0\<rparr>"

definition ex_now :: "nat \<Rightarrow> string" where
  "ex_now t = ''t'' @ replicate t (CHR ''i'')"

definition ex_worker :: "(bool \<times> bytes) worker" where
  "ex_worker = \<lparr>wk_source = ''web'', wk_logDirectory = ''/log'', wk_maxLogLinesBeforeFlush = 10, wk_maxFileSizeBeforeRotate = 5,
     wk_file = Some 0, wk_buffered = newFlushBuffer 0, wk_writer = Some (False, [])\<rparr>"

definition ex_opened :: disk where
  "ex_opened = \<lparr>dk_files = [''/log/web-latest.jsonl.gz'' \<mapsto> []], dk_handles = [(''/log/web-latest.jsonl.gz'', False)], dk_faults = [], dk_time = 0\<rparr>"

definition ex_request :: workerRequest where
  "ex_request = \<lparr>req_data = [123, 125], req_level = ''info''\<rparr>"

definition ex_line :: bytes where "ex_line = [123, 125, 10]"

lemma ex_latest: "worker_logFilePath ex_worker LatestLogFilename = ''/log/web-latest.jsonl.gz''"
  by code_simp

lemma ex_newWorker: "newWorker stored_gzip ''web'' ''/log'' 10 5 ex_disk = (Ok ex_worker, ex_opened)"
proof -
  have path: "worker_logFilePath \<lparr>wk_source = ''web'', wk_logDirectory = ''/log'', wk_maxLogLinesBeforeFlush = 10,
      wk_maxFileSizeBeforeRotate = 5, wk_file = None, wk_buffered = newFlushBuffer 0, wk_writer = None\<rparr> LatestLogFilename =
      ''/log/web-latest.jsonl.gz''" by code_simp
  show ?thesis
    by (simp add: newWorker_def worker_openLogFile_def path os_OpenFile_def syscall_def ex_disk_def ex_worker_def ex_opened_def
        stored_gzip_def go_wrap_def next_fault_def)
qed

definition ex_run :: "(bool \<times> bytes) run" where
  "ex_run = (run_start ex_worker ex_opened)\<lparr>
     rn_world := (ex_worker\<lparr>wk_writer := Some (True, ex_line), wk_buffered := \<lparr>fb_buf = gz_header, fb_bytesWritten = 10, fb_w = 0\<rparr>\<rparr>, ex_opened),
     rn_lines := 1, rn_bytes := 10, rn_lastPosition := 10, rn_rotate := \<lparr>mt_manual = True, mt_out = False\<rparr>,
     rn_replies := [(ex_line, Ok ())]\<rparr>"

lemma ex_run_request: "run_request stored_gzip ex_request (run_start ex_worker ex_opened) = Ok ex_run"
  by (simp add: run_request_def run_start_def ex_request_def ex_worker_def stored_gzip_def add_newline_def Let_def
      flushBuffer_Write_def newFlushBuffer_def run_written_def flushBuffer_Position_def gz_header_def ex_line_def ex_run_def
      manualTicker_Trigger_def newManualTicker_def)

lemma ex_reached: "(worker_step stored_gzip ex_now)\<^sup>*\<^sup>* (run_start ex_worker ex_opened) ex_run"
  by (rule r_into_rtranclp, rule worker_step.request [OF ex_run_request])

text \<open>The source of an event becomes part of a path: nothing keeps it below the log directory.\<close>

lemma source_escapes:
  "WorkerManager_logPath (NewWorkerManager ''/var/log/teapot'' 10 5 ex_disk :: (bool \<times> bytes) WorkerManager) ''../../../etc/cron.d'' = ''/etc/cron.d''"
  by code_simp

section \<open>Properties of the log service\<close>

text \<open>
  C28. No line is lost, repeated or moved. A worker is started on a directory without a current
  file and runs for any time, its requests, flushes and rotations in any order and its system calls
  failing in any way that it survives. Then the archived files, decoded in the order of their
  creation, hold the acknowledged lines but for the lines that the current file is to hold; and
  after a flush that succeeds the archives and the current file hold all of them.
\<close>

theorem acknowledged_lines_kept:
  assumes "gzip_writer g read" "newWorker g source dir maxLines maxSize d = (Ok w, d')" "dk_files d (latest w) = None"
    and "(worker_step g now)\<^sup>*\<^sup>* (run_start w d') r"
  shows "(\<exists>rest. decoded read (dk_files (snd (rn_world r))) (rn_archived r) @ rest = acknowledged (rn_replies r)) \<and>
    (\<forall>r'. run_flush g r = Ok r' \<longrightarrow> rn_lines r \<noteq> 0 \<longrightarrow> rn_lines r' = 0 \<longrightarrow>
      decoded read (dk_files (snd (rn_world r'))) (rn_archived r' @ [latest (fst (rn_world r'))]) = acknowledged (rn_replies r))"
proof -
  note start = gzip_writer.stream_start [OF assms(1-3)]
  obtain h where h: "gzip_writer.stream g read h r" using gzip_writer.stream_reachable [OF assms(1,4) start] by blast
  have "\<exists>rest. decoded read (dk_files (snd (rn_world r))) (rn_archived r) @ rest = acknowledged (rn_replies r)"
    using h by (auto simp: gzip_writer.stream_def [OF assms(1)] split: prod.splits)
  moreover have "decoded read (dk_files (snd (rn_world r'))) (rn_archived r' @ [latest (fst (rn_world r'))]) = acknowledged (rn_replies r)"
    if "run_flush g r = Ok r'" "rn_lines r \<noteq> 0" "rn_lines r' = 0" for r'
    using gzip_writer.stream_flush [OF assms(1) h that(1)] that by (auto split: prod.splits)
  ultimately show ?thesis by blast
qed

lemma ex_flushed:
  "\<exists>r'. run_flush stored_gzip ex_run = Ok r' \<and> rn_lines ex_run \<noteq> 0 \<and> rn_lines r' = 0 \<and> rn_archived r' = [] \<and>
     rn_replies ex_run = [(ex_line, Ok ())]"
  by (simp add: run_flush_def ex_run_def run_start_def go_bind_def writer_Flush_def buffered_Flush_def stored_gzip_def flushBuffer_Write_def
      flushBuffer_Flush_def File_Write_def ex_opened_def gz_header_def next_fault_def)

theorem acknowledged_lines_kept_witness:
  "\<exists>r'. run_flush stored_gzip ex_run = Ok r' \<and>
     gunzip (the (dk_files (snd (rn_world r')) (latest (fst (rn_world r'))))) = ex_line"
proof -
  obtain r' where r': "run_flush stored_gzip ex_run = Ok r'" "rn_lines ex_run \<noteq> 0" "rn_lines r' = 0" "rn_archived r' = []"
      "rn_replies ex_run = [(ex_line, Ok ())]" using ex_flushed by blast
  have "dk_files ex_disk (latest ex_worker) = None" by (simp add: ex_disk_def)
  note all = acknowledged_lines_kept [OF stored.gzip_writer_axioms ex_newWorker this ex_reached]
  from conjunct2 [OF all] r' show ?thesis by (auto simp: decoded_def acknowledged_def)
qed

text \<open>
  C29. Rotation. When the system calls succeed, a rotation moves the current file to the name made of
  the time if that name is free, and panics if it is taken. After a rotation the byte count is not
  in step with the new file: the position in the old file is kept, so that the count wraps around
  with the next line whose first bytes are fewer than that position, exceeds every size limit below
  two to the 63 and asks for another rotation.
\<close>

theorem rotation_wraps:
  assumes "gzip_writer g read" "newWorker g source dir maxLines maxSize d0 = (Ok w0, d1)" "dk_files d0 (latest w0) = None"
    and "(worker_step g now)\<^sup>*\<^sup>* (run_start w0 d1) r" "rn_world r = (w, d)" "dk_faults d = []" "rn_bytes r \<noteq> 0"
  shows "(if worker_logFilePath w (now (dk_time d)) \<in> dom (dk_files d)
     then run_rotate g now r = Some (Panic ''invalid memory address or nil pointer dereference'')
     else \<exists>r1. run_rotate g now r = Some (Ok r1) \<and> rn_archived r1 = rn_archived r @ [worker_logFilePath w (now (dk_time d))] \<and>
       (\<forall>req r2. run_request g req r1 = Ok r2 \<longrightarrow> unat (rn_lastPosition r) < 2 ^ 63 \<longrightarrow>
          unat (wk_maxFileSizeBeforeRotate w) < 2 ^ 63 \<longrightarrow>
          length (fst (snd (gz_Write g (add_newline (req_data req)) (gz_new g)))) < unat (rn_lastPosition r) \<longrightarrow>
          mt_manual (rn_rotate r2) \<and> 2 ^ 63 < unat (rn_bytes r2)))"
proof -
  note start = gzip_writer.stream_start [OF assms(1-3)]
  obtain h where h: "gzip_writer.stream g read h r" using gzip_writer.stream_reachable [OF assms(1,4) start] by blast
  note taken = gzip_writer.rotation_to_taken_name [OF assms(1) h assms(5-7), of now]
  note free = gzip_writer.rotation_to_free_name [OF assms(1) h assms(5-7), of now]
  note repeats = gzip_writer.rotation_repeats [OF assms(1) h assms(7), of now, unfolded assms(5) fst_conv]
  show ?thesis using taken free repeats by (cases "worker_logFilePath w (now (dk_time d)) \<in> dom (dk_files d)") (simp, simp, blast)
qed

theorem rotation_wraps_witness:
  "\<exists>r1. run_rotate stored_gzip ex_now ex_run = Some (Ok r1) \<and> rn_archived r1 = [''/log/web-t.jsonl.gz'']"
proof -
  let ?w = "fst (rn_world ex_run)"
  have path: "worker_logFilePath ?w (ex_now 0) = ''/log/web-t.jsonl.gz''" by code_simp
  have "dk_files ex_disk (latest ex_worker) = None" by (simp add: ex_disk_def)
  note all = rotation_wraps [OF stored.gzip_writer_axioms ex_newWorker this ex_reached, of ?w ex_opened]
  have "rn_world ex_run = (?w, ex_opened)" "dk_faults ex_opened = []" "rn_bytes ex_run \<noteq> 0" "rn_archived ex_run = []"
    "dk_time ex_opened = 0" "''/log/web-t.jsonl.gz'' \<notin> dom (dk_files ex_opened)"
    by (simp_all add: ex_run_def run_start_def ex_opened_def)
  with all path show ?thesis by auto
qed

text \<open>
  A batch of log events is never answered. A request whose body decodes to at least one event
  ends neither with a response nor with an error, whatever the workers do and in whatever order
  they finish: every event is counted twice before the handler waits.
\<close>

theorem handleLogs_never_answers:
  assumes "decode body = Ok events" "events \<noteq> []" "length order = length events"
  shows "\<not> ends True (fst (Log_handleLogs g level_of decode order (Ok body) (Ok ()) m))"
  using assms by (rule handleLogs_hangs)

theorem handleLogs_never_answers_witness:
  "\<not> ends True (fst (Log_handleLogs stored_gzip (\<lambda>_. Ok ''info'') (\<lambda>_. Ok [\<lparr>ev_Source = ''web'', ev_Data = [123, 125]\<rparr>]) [0]
     (Ok ''x'') (Ok ()) (WorkerManager_start (NewWorkerManager ''/log'' 10 5 ex_disk))))"
  by (rule handleLogs_never_answers [where events = "[\<lparr>ev_Source = ''web'', ev_Data = [123, 125]\<rparr>]"]) simp_all

text \<open>
  The status of a failed request. With the default handlers, an error of a handler that wrote
  nothing is answered with 500 if an \<^verbatim>\<open>InternalError\<close> is found in it, else with the status of a
  \<^verbatim>\<open>RedirectError\<close> found in it, else with 404 if it wraps \<^verbatim>\<open>ErrNotFound\<close>, and else with 400. The
  sentinel \<^verbatim>\<open>ErrInternal\<close>, with which the handlers mark their own failures, is of the last kind.
\<close>

theorem error_responses:
  assumes "fn r w = (Some err, w')" "resp_status w' = None"
  shows "resp_status (snd (HTTPHandler_Adapt (DefaultErrorHandlers err_text text conn) contact fn r w)) =
    Some (case as_InternalError err of Some _ \<Rightarrow> 500
      | None \<Rightarrow> (case as_RedirectError err of Some re \<Rightarrow> re_status re | None \<Rightarrow> if errors_Is err ErrNotFound then 404 else 400)) \<and>
    (\<forall>c e. err = Other (Joined (Wrapped c ErrInternal) e) \<longrightarrow> \<not> goerr_Is e ErrNotFound \<longrightarrow>
      resp_status (snd (HTTPHandler_Adapt (DefaultErrorHandlers err_text text conn) contact fn r w)) = Some 400)"
  unfolding Adapt_status [where fn = fn and r = r and w = w, OF assms] error_status_def
  by (simp add: ErrInternal_def ErrNotFound_def)

theorem error_responses_witness:
  "resp_status (snd (HTTPHandler_Adapt (DefaultErrorHandlers (\<lambda>_. []) (\<lambda>_. []) (\<lambda>b. Ok (length b))) ''root''
     (\<lambda>r w. (Some (Other (Joined (Wrapped ''error while reading the'' ErrInternal) os_ErrIO)), w)) \<lparr>rq_id = ''1''\<rparr> empty_response)) = Some 400"
  using error_responses [of "\<lambda>r w. (Some (Other (Joined (Wrapped ''error while reading the'' ErrInternal) os_ErrIO)), w)" "\<lparr>rq_id = ''1''\<rparr>"
      empty_response "Other (Joined (Wrapped ''error while reading the'' ErrInternal) os_ErrIO)" empty_response]
  by (auto simp: empty_response_def os_ErrIO_def ErrNotFound_def ErrInternal_def)

end
