(* ===== verification/Bottin_Types.thy ===== *)
theory Bottin_Types
  imports Go_Strings
begin

text \<open>
  The types of the directory's store, \<^verbatim>\<open>service/bottin/store/types.go\<close>: components, distinguished
  names, prefixes, attributes and entries. A Go map is an association list without repeated keys, in the order in
  which a \<^verbatim>\<open>range\<close> over it happens to run.
\<close>

section \<open>Components, DNs and prefixes\<close>

record Component =
  comp_Type :: string
  comp_Value :: string

type_synonym DN = "Component list"
type_synonym Prefix = "Component list"

definition dnSeparator :: char where "dnSeparator = CHR '',''"
definition prefixSeparator :: char where "prefixSeparator = CHR ''/''"

definition ErrMissingEquals :: goerr where
  "ErrMissingEquals = PlainError ''missing = in DN, expected exactly one''"

definition ErrInvalidComponent :: goerr where
  "ErrInvalidComponent = PlainError ''invalid component''"

definition NewComponent :: "string \<Rightarrow> string \<Rightarrow> Component" where
  "NewComponent typ value = \<lparr>comp_Type = typ, comp_Value = value\<rparr>"

definition Component_String :: "Component \<Rightarrow> string" where
  "Component_String seg = comp_Type seg @ ''='' @ comp_Value seg"

definition ParseComponent :: "string \<Rightarrow> Component outcome" where
  "ParseComponent rawComp = (case strings_Split rawComp (CHR ''='') of
      [t, v] \<Rightarrow> Ok \<lparr>comp_Type = strings_ToLower (strings_TrimSpace t),
                    comp_Value = strings_ToLower (strings_TrimSpace v)\<rparr>
    | _ \<Rightarrow> Err (Joined (Wrapped ''error parsing component'' ErrInvalidComponent) ErrMissingEquals))"

fun parseComponents :: "string list \<Rightarrow> Component list outcome" where
  "parseComponents [] = Ok []"
| "parseComponents (str # strs) =
     outcome_bind (ParseComponent str) (\<lambda>c. outcome_bind (parseComponents strs) (\<lambda>cs. Ok (c # cs)))"

definition parseComponentSlice :: "string \<Rightarrow> char \<Rightarrow> Component list outcome" where
  "parseComponentSlice raw separator = parseComponents (strings_Split raw separator)"

definition joinComponentSlice :: "Component list \<Rightarrow> char \<Rightarrow> string" where
  "joinComponentSlice comps separator = strings_Join (map Component_String comps) separator"

definition ParseDN :: "string \<Rightarrow> DN outcome" where
  "ParseDN rawDN = parseComponentSlice rawDN dnSeparator"

definition reverse_slice :: "'a list \<Rightarrow> 'a list" where
  "reverse_slice sl = rev sl"

definition DN_Prefix :: "DN \<Rightarrow> Prefix" where
  "DN_Prefix dn = reverse_slice dn"

definition DN_String :: "DN \<Rightarrow> string" where
  "DN_String dn = joinComponentSlice dn dnSeparator"

definition DN_Level :: "DN \<Rightarrow> nat" where
  "DN_Level dn = length dn"

definition DN_Equal :: "DN \<Rightarrow> DN \<Rightarrow> bool" where
  "DN_Equal dn dn2 \<longleftrightarrow> dn = dn2"

definition DN_Sub :: "DN \<Rightarrow> Component list \<Rightarrow> DN" where
  "DN_Sub dn comps = comps @ dn"

definition DN_Parent :: "DN \<Rightarrow> DN outcome" where
  "DN_Parent dn = (case dn of [] \<Rightarrow> Panic ''slice bounds out of range'' | _ # p \<Rightarrow> Ok p)"

definition ParsePrefix :: "string \<Rightarrow> Prefix outcome" where
  "ParsePrefix rawPrefix = parseComponentSlice rawPrefix prefixSeparator"

definition Prefix_String :: "Prefix \<Rightarrow> string" where
  "Prefix_String pfx = joinComponentSlice pfx prefixSeparator"

definition Prefix_Level :: "Prefix \<Rightarrow> nat" where
  "Prefix_Level pfx = length pfx"

definition PrefixFromString :: "string \<Rightarrow> Prefix outcome" where
  "PrefixFromString rawPrefix = ParsePrefix rawPrefix"

definition Prefix_Less :: "Prefix \<Rightarrow> Prefix \<Rightarrow> bool" where
  "Prefix_Less pfx p \<longleftrightarrow> strings_Less (Prefix_String pfx) (Prefix_String p)"

definition Prefix_DN :: "Prefix \<Rightarrow> DN" where
  "Prefix_DN pfx = reverse_slice pfx"

definition Prefix_Equal :: "Prefix \<Rightarrow> Prefix \<Rightarrow> bool" where
  "Prefix_Equal pfx pfx2 \<longleftrightarrow> pfx = pfx2"

definition Prefix_IsPrefixOf :: "Prefix \<Rightarrow> Prefix \<Rightarrow> bool" where
  "Prefix_IsPrefixOf pfx prf \<longleftrightarrow> (if length prf < length pfx then False else pfx = take (length pfx) prf)"

text \<open>\<^verbatim>\<open>utf8.MaxRune\<close> printed with \<open>%c\<close>: the four bytes of U+10FFFF.\<close>

definition MaxRune :: string where
  "MaxRune = [CHR 0xF4, CHR 0x8F, CHR 0xBF, CHR 0xBF]"

definition prefixEnd :: "Prefix \<Rightarrow> Prefix" where
  "prefixEnd pfx =
     (if pfx = [] then []
      else butlast pfx @
        [\<lparr>comp_Type = comp_Type (last pfx), comp_Value = comp_Value (last pfx) @ MaxRune\<rparr>])"

section \<open>Attributes and entries\<close>

type_synonym AttributeKey = string
type_synonym StoreAttributeValue = "string list"
type_synonym Attributes = "(AttributeKey \<times> StoreAttributeValue) list"

definition NewAttributeKey :: "string \<Rightarrow> AttributeKey" where
  "NewAttributeKey key = strings_ToLower key"

definition AttributeKey_EqualFold :: "AttributeKey \<Rightarrow> AttributeKey \<Rightarrow> bool" where
  "AttributeKey_EqualFold ak1 ak2 \<longleftrightarrow> strings_EqualFold ak1 ak2"

text \<open>Assignment to a key of a map.\<close>

fun attr_set :: "AttributeKey \<Rightarrow> StoreAttributeValue \<Rightarrow> Attributes \<Rightarrow> Attributes" where
  "attr_set k v [] = [(k, v)]"
| "attr_set k v ((k', v') # as) = (if k' = k then (k, v) # as else (k', v') # attr_set k v as)"

record Entry =
  entry_DN :: DN
  entry_Attributes :: Attributes

definition Attributes_Get :: "Attributes \<Rightarrow> AttributeKey \<Rightarrow> StoreAttributeValue" where
  "Attributes_Get attrs key = (case map_of attrs key of None \<Rightarrow> [] | Some v \<Rightarrow> v)"

definition Entry_Get :: "Entry \<Rightarrow> AttributeKey \<Rightarrow> StoreAttributeValue" where
  "Entry_Get e key = Attributes_Get (entry_Attributes e) key"

definition NewEntry :: "DN \<Rightarrow> Attributes \<Rightarrow> Entry" where
  "NewEntry dn attributes =
     \<lparr>entry_DN = dn,
      entry_Attributes = (case dn of
         [] \<Rightarrow> attributes
       | c # _ \<Rightarrow> attr_set (NewAttributeKey (comp_Type c)) [comp_Value c] attributes)\<rparr>"

definition Entry_Key :: "Entry \<Rightarrow> Prefix" where
  "Entry_Key e = DN_Prefix (entry_DN e)"

lemma map_of_attr_set [simp]: "map_of (attr_set k v as) = (map_of as)(k \<mapsto> v)"
  by (induction k v as rule: attr_set.induct) auto

lemma Get_attr_set:
  "Attributes_Get (attr_set k v as) k' = (if k' = k then v else Attributes_Get as k')"
  by (simp add: Attributes_Get_def)

lemma Entry_Get_NewEntry:
  "Entry_Get (NewEntry dn as) k =
    (if dn \<noteq> [] \<and> k = NewAttributeKey (comp_Type (hd dn)) then [comp_Value (hd dn)] else Attributes_Get as k)"
  by (cases dn) (auto simp: Entry_Get_def NewEntry_def Get_attr_set)

lemma NewEntry_DN [simp]: "entry_DN (NewEntry dn as) = dn"
  by (simp add: NewEntry_def)

section \<open>Laws\<close>

lemma DN_Prefix_inverse [simp]: "Prefix_DN (DN_Prefix dn) = dn" "DN_Prefix (Prefix_DN p) = p"
  by (simp_all add: DN_Prefix_def reverse_slice_def Prefix_DN_def)

lemma DN_Prefix_eq [simp]: "DN_Prefix a = DN_Prefix b \<longleftrightarrow> a = b"
  by (simp add: DN_Prefix_def reverse_slice_def)

lemma IsPrefixOf_prefix: "Prefix_IsPrefixOf p q \<longleftrightarrow> prefix p q"
proof -
  have "prefix p q \<longleftrightarrow> length p \<le> length q \<and> p = take (length p) q"
    using take_is_prefix [of "length p" q]
    by (auto simp: prefix_def)
  then show ?thesis by (auto simp: Prefix_IsPrefixOf_def)
qed

lemma IsPrefixOf_suffix: "Prefix_IsPrefixOf (DN_Prefix a) (DN_Prefix b) \<longleftrightarrow> suffix a b"
  by (simp add: IsPrefixOf_prefix DN_Prefix_def reverse_slice_def suffix_to_prefix)

text \<open>
  The components a parsed DN has: lower case, trimmed, and without the characters that separate
  components and their parts.
\<close>

definition canonical_text :: "string \<Rightarrow> bool" where
  "canonical_text s \<longleftrightarrow> strings_ToLower s = s \<and> strings_TrimSpace s = s \<and> CHR ''='' \<notin> set s \<and> dnSeparator \<notin> set s"

definition canonical_component :: "Component \<Rightarrow> bool" where
  "canonical_component c \<longleftrightarrow> canonical_text (comp_Type c) \<and> canonical_text (comp_Value c)"

definition canonical_DN :: "DN \<Rightarrow> bool" where
  "canonical_DN dn \<longleftrightarrow> dn \<noteq> [] \<and> list_all canonical_component dn"

lemma ParseComponent_String:
  assumes "canonical_component c"
  shows "ParseComponent (Component_String c) = Ok c"
proof -
  have "strings_Split (Component_String c) (CHR ''='') = [comp_Type c, comp_Value c]"
    using assms
    by (simp add: Component_String_def canonical_component_def canonical_text_def Split_append_sep Split_no_sep)
  then show ?thesis using assms
    by (simp add: ParseComponent_def canonical_component_def canonical_text_def)
qed

lemma parseComponents_String:
  "list_all canonical_component cs \<Longrightarrow> parseComponents (map Component_String cs) = Ok cs"
  by (induction cs) (simp_all add: ParseComponent_String)

lemma Component_String_no_sep:
  "canonical_component c \<Longrightarrow> dnSeparator \<notin> set (Component_String c)"
  by (auto simp: Component_String_def canonical_component_def canonical_text_def dnSeparator_def)

lemma ParseDN_String:
  assumes "canonical_DN dn"
  shows "ParseDN (DN_String dn) = Ok dn"
proof -
  have "strings_Split (DN_String dn) dnSeparator = map Component_String dn"
    unfolding DN_String_def joinComponentSlice_def
    using assms Component_String_no_sep
    by (intro Split_Join) (auto simp: canonical_DN_def list_all_iff)
  then show ?thesis
    using assms by (simp add: ParseDN_def parseComponentSlice_def parseComponents_String canonical_DN_def)
qed

text \<open>What \<^verbatim>\<open>ParseDN\<close> returns is in canonical form, so printing it and parsing again gives it back.\<close>

lemma Split_parts_no_sep: "w \<in> set (strings_Split s sep) \<Longrightarrow> sep \<notin> set w"
  by (induction s arbitrary: w) (auto split: if_splits list.splits)

lemma Split_parts_subset: "w \<in> set (strings_Split s sep) \<Longrightarrow> set w \<subseteq> set s"
  by (induction s arbitrary: w) (auto split: if_splits list.splits, blast+)

lemma lower_char_other:
  assumes "of_char d < (65 :: nat)"
  shows "lower_char c = d \<longleftrightarrow> c = d"
proof (cases c rule: lower_char_cases)
  case 2
  then have "lower_char c \<noteq> d" "c \<noteq> d" using assms by auto
  then show ?thesis by simp
qed simp

lemma lower_char_sep [simp]:
  "lower_char c = CHR ''='' \<longleftrightarrow> c = CHR ''=''" "lower_char c = CHR '','' \<longleftrightarrow> c = CHR '',''"
  "lower_char c = CHR ''/'' \<longleftrightarrow> c = CHR ''/''"
  by (simp_all add: lower_char_other)

lemma is_space_lower [simp]: "is_space (lower_char c) \<longleftrightarrow> is_space c"
  by (simp add: is_space_def lower_char_other)

lemma TrimSpace_ToLower: "strings_TrimSpace (strings_ToLower s) = strings_ToLower (strings_TrimSpace s)"
  by (simp add: strings_TrimSpace_def strings_ToLower_def dropWhile_map comp_def rev_map)

lemma dropWhile_rev_dropWhile:
  "dropWhile P (rev (dropWhile P (rev (dropWhile P s)))) = rev (dropWhile P (rev (dropWhile P s)))"
proof (cases "dropWhile P s")
  case (Cons c t)
  then have c: "\<not> P c" by (metis dropWhile_eq_Cons_conv)
  then have "\<exists>u. dropWhile P (rev t @ [c]) = u @ [c]"
    by (cases "dropWhile P (rev t) = []") (auto simp: dropWhile_append3 dropWhile_eq_Nil_conv dropWhile_append2 dropWhile_append)
  with Cons c show ?thesis by auto
qed (simp del: dropWhile_eq_Nil_conv)

lemma TrimSpace_idem [simp]: "strings_TrimSpace (strings_TrimSpace s) = strings_TrimSpace s"
  by (simp add: strings_TrimSpace_def dropWhile_rev_dropWhile)

lemma set_TrimSpace: "set (strings_TrimSpace s) \<subseteq> set s"
  by (auto simp: strings_TrimSpace_def dest!: set_dropWhileD)

lemma canonical_text_parsed:
  assumes "CHR ''='' \<notin> set s" "dnSeparator \<notin> set s"
  shows "canonical_text (strings_ToLower (strings_TrimSpace s))"
proof -
  have "c \<notin> set (strings_ToLower (strings_TrimSpace s))"
    if "c \<in> {CHR ''='', dnSeparator}" for c
    using that assms set_TrimSpace [of s]
    by (auto simp: strings_ToLower_def dnSeparator_def subset_iff dest: sym)
  then show ?thesis
    by (simp add: canonical_text_def TrimSpace_ToLower)
qed

lemma ParseComponent_canonical:
  assumes "ParseComponent s = Ok c" "dnSeparator \<notin> set s"
  shows "canonical_component c"
proof -
  obtain t v where s: "strings_Split s (CHR ''='') = [t, v]"
    and c: "c = \<lparr>comp_Type = strings_ToLower (strings_TrimSpace t), comp_Value = strings_ToLower (strings_TrimSpace v)\<rparr>"
    using assms(1) by (auto simp: ParseComponent_def split: list.splits)
  have "CHR ''='' \<notin> set w \<and> dnSeparator \<notin> set w" if "w \<in> {t, v}" for w
    using that s assms(2) Split_parts_no_sep [of w s "CHR ''=''"] Split_parts_subset [of w s "CHR ''=''"]
    by auto
  then show ?thesis
    by (simp add: c canonical_component_def canonical_text_parsed)
qed

lemma parseComponents_canonical:
  "parseComponents ss = Ok cs \<Longrightarrow> (\<And>s. s \<in> set ss \<Longrightarrow> dnSeparator \<notin> set s) \<Longrightarrow>
   list_all canonical_component cs \<and> length cs = length ss"
proof (induction ss arbitrary: cs)
  case (Cons s ss)
  then show ?case
    by (auto simp: outcome_bind_def ParseComponent_canonical split: outcome.splits)
qed simp

lemma ParseDN_canonical: "ParseDN raw = Ok dn \<Longrightarrow> canonical_DN dn"
  using parseComponents_canonical [of "strings_Split raw dnSeparator" dn]
  by (auto simp: ParseDN_def parseComponentSlice_def canonical_DN_def Split_parts_no_sep)

section \<open>The range of keys under a prefix\<close>

lemma append_less_cancel [simp]: "(p @ a :: 'a :: linorder list) < p @ b \<longleftrightarrow> a < b"
  by (induction p) auto

lemma append_le_cancel [simp]: "(p @ a :: 'a :: linorder list) \<le> p @ b \<longleftrightarrow> a \<le> b"
  by (induction p) auto

lemma range_append:
  "(p :: 'a :: linorder list) \<le> s \<and> s < p @ m \<longleftrightarrow> (\<exists>t. s = p @ t \<and> t < m)"
proof (induction p arbitrary: s)
  case (Cons c p)
  then show ?case by (cases s) auto
qed simp

lemma joinComponentSlice_append:
  "xs \<noteq> [] \<Longrightarrow> ys \<noteq> [] \<Longrightarrow>
   joinComponentSlice (xs @ ys) sep = joinComponentSlice xs sep @ sep # joinComponentSlice ys sep"
proof (induction xs)
  case (Cons x xs)
  then show ?case by (cases xs; cases ys) (simp_all add: joinComponentSlice_def)
qed simp

lemma prefixEnd_String:
  assumes "p \<noteq> []"
  shows "Prefix_String (prefixEnd p) = Prefix_String p @ MaxRune"
proof (cases "butlast p = []")
  case True
  with assms obtain c where "p = [c]" by (metis append_butlast_last_id append_Nil)
  then show ?thesis
    by (simp add: Prefix_String_def prefixEnd_def joinComponentSlice_def Component_String_def)
next
  case False
  have "Prefix_String (butlast p @ [last p]) =
      joinComponentSlice (butlast p) prefixSeparator @ prefixSeparator # Component_String (last p)"
    using False by (simp add: Prefix_String_def joinComponentSlice_append) (simp add: joinComponentSlice_def)
  moreover have "Prefix_String (prefixEnd p) =
      joinComponentSlice (butlast p) prefixSeparator @ prefixSeparator # Component_String (last p) @ MaxRune"
    using False assms by (simp add: Prefix_String_def prefixEnd_def joinComponentSlice_append)
      (simp add: joinComponentSlice_def Component_String_def)
  ultimately show ?thesis using assms by simp
qed

text \<open>
  The keys between a prefix and its end are the strings that extend the prefix's text by something
  below U+10FFFF: the entry itself, everything below it in the tree, and also its siblings whose
  value continues the last value.
\<close>

definition in_range :: "Prefix \<Rightarrow> Prefix \<Rightarrow> bool" where
  "in_range p q \<longleftrightarrow> \<not> Prefix_Less q p \<and> Prefix_Less q (prefixEnd p)"

lemma in_range_iff:
  "p \<noteq> [] \<Longrightarrow> in_range p q \<longleftrightarrow> (\<exists>t. Prefix_String q = Prefix_String p @ t \<and> t < MaxRune)"
  by (auto simp: in_range_def Prefix_Less_def strings_Less_def prefixEnd_String not_less
      simp flip: range_append)

lemma in_range_empty: "\<not> in_range [] q"
  by (simp add: in_range_def prefixEnd_def)

lemma in_range_descendant:
  assumes "p \<noteq> []" "prefix p q"
  shows "in_range p q"
proof -
  obtain r where q: "q = p @ r" using assms(2) by (auto simp: prefix_def)
  have "(CHR ''/'' # s :: string) < MaxRune" for s
    by (simp add: MaxRune_def less_char_def)
  then show ?thesis
    using assms(1) q in_range_iff [of p q] joinComponentSlice_append [of p r prefixSeparator]
    by (cases "r = []") (auto simp: Prefix_String_def prefixSeparator_def MaxRune_def)
qed

text \<open>Keys are told apart by their text when no component holds the separator.\<close>

definition plain_component :: "Component \<Rightarrow> bool" where
  "plain_component c \<longleftrightarrow> CHR ''='' \<notin> set (comp_Type c) \<and> CHR ''='' \<notin> set (comp_Value c) \<and>
     prefixSeparator \<notin> set (comp_Type c) \<and> prefixSeparator \<notin> set (comp_Value c)"

definition plain_DN :: "DN \<Rightarrow> bool" where
  "plain_DN dn \<longleftrightarrow> list_all plain_component dn"

lemma plain_DN_rev [simp]: "plain_DN (rev p) = plain_DN p"
  by (simp add: plain_DN_def list_all_iff)

lemma plain_DN_Prefix [simp]: "plain_DN (DN_Prefix dn) = plain_DN dn"
  by (simp add: DN_Prefix_def reverse_slice_def)

lemma Component_String_inj:
  assumes "plain_component c" "plain_component d" "Component_String c = Component_String d"
  shows "c = d"
proof -
  have "strings_Split (Component_String x) (CHR ''='') = [comp_Type x, comp_Value x]"
    if "plain_component x" for x :: Component
    using that by (simp add: Component_String_def plain_component_def Split_append_sep Split_no_sep)
  from this [OF assms(1)] this [OF assms(2)] assms(3)
  have "comp_Type c = comp_Type d" "comp_Value c = comp_Value d" by simp_all
  then show ?thesis by (cases c; cases d) simp
qed

lemma Component_String_plain: "plain_component c \<Longrightarrow> prefixSeparator \<notin> set (Component_String c)"
  by (auto simp: plain_component_def Component_String_def prefixSeparator_def)

lemma Prefix_String_Nil_iff: "Prefix_String p = [] \<longleftrightarrow> p = []"
  by (cases p rule: remdups_adj.cases)
     (simp_all add: Prefix_String_def joinComponentSlice_def Component_String_def)

lemma Prefix_String_inj:
  assumes "plain_DN p" "plain_DN q" "Prefix_String p = Prefix_String q"
  shows "p = q"
proof (cases "p = [] \<or> q = []")
  case True
  with assms(3) show ?thesis by (metis Prefix_String_Nil_iff)
next
  case False
  have "strings_Split (Prefix_String x) prefixSeparator = map Component_String x"
    if "x \<noteq> []" "plain_DN x" for x
    unfolding Prefix_String_def joinComponentSlice_def
    using that Component_String_plain
    by (intro Split_Join) (auto simp: plain_DN_def list_all_iff)
  with False assms have "map Component_String p = map Component_String q" by metis
  moreover have "inj_on Component_String (set p \<union> set q)"
    using assms(1,2) Component_String_inj by (auto simp: inj_on_def plain_DN_def list_all_iff)
  ultimately show ?thesis by (metis inj_on_map_eq_map)
qed

end
