(* ===== verification/Bottin_Store.thy ===== *)
theory Bottin_Store
  imports Bottin_Types Go_Hoare
begin

text \<open>
  The interfaces \<^verbatim>\<open>Store\<close> and \<^verbatim>\<open>Transaction\<close> of \<^verbatim>\<open>service/bottin/store/store.go\<close>, as a record of
  operations over the state \<open>'st\<close> of a store and \<open>'tx\<close> of a transaction, and the contract the
  directory's handlers rely on, as locales.

  A context enters through what \<^verbatim>\<open>ctx.Err()\<close> returns at the two places the stores look at it.

  \<open>s_assign\<close> is not a call of the interface. An entry that \<^verbatim>\<open>List\<close> returns shares its attribute map
  with the store, so an assignment \<^verbatim>\<open>entry.Attributes[key] = value\<close> by the caller changes the
  stored entry too, outside any transaction; \<open>s_assign prefix key value\<close> is that change.
\<close>

record Context =
  ctx_Err_Begin :: "goerr option"
  ctx_Err_Commit :: "goerr option"

definition context_Background :: Context where
  "context_Background = \<lparr>ctx_Err_Begin = None, ctx_Err_Commit = None\<rparr>"

record ('st, 'tx) Store =
  s_List :: "Prefix \<Rightarrow> bool \<Rightarrow> ('st, Entry list) go"
  s_Begin :: "Context \<Rightarrow> ('st, 'tx) go"
  s_assign :: "Prefix \<Rightarrow> AttributeKey \<Rightarrow> StoreAttributeValue \<Rightarrow> 'st \<Rightarrow> 'st"
  tx_Store :: "Entry \<Rightarrow> ('st \<times> 'tx, unit) go"
  tx_Delete :: "DN \<Rightarrow> ('st \<times> 'tx, unit) go"
  tx_Commit :: "Context \<Rightarrow> ('st \<times> 'tx, unit) go"

section \<open>The directory as a map\<close>

text \<open>
  What a store promises, in terms of the map from DNs to attributes it stands for and the list of
  changes a transaction holds.
\<close>

type_synonym directory = "DN \<rightharpoonup> Attributes"

lemma directory_eqI: "(\<And>dn as. d dn = Some as \<longleftrightarrow> d' dn = Some as) \<Longrightarrow> d = (d' :: directory)"
  by (rule ext) (metis not_None_eq)

lemma Entry_eq_iff: "e = \<lparr>entry_DN = dn, entry_Attributes = as\<rparr> \<longleftrightarrow> entry_DN e = dn \<and> entry_Attributes e = as"
  by (cases e) auto

lemma Entry_eqI: "entry_DN e = entry_DN f \<Longrightarrow> entry_Attributes e = entry_Attributes f \<Longrightarrow> e = (f :: Entry)"
  by (cases e; cases f) simp

text \<open>The DNs a store tells apart.\<close>

definition good_DN :: "DN \<Rightarrow> bool" where
  "good_DN dn \<longleftrightarrow> dn \<noteq> [] \<and> plain_DN dn"

datatype dir_change = Put DN Attributes | Remove DN

fun change_DN :: "dir_change \<Rightarrow> DN" where
  "change_DN (Put dn as) = dn"
| "change_DN (Remove dn) = dn"

fun apply_change :: "dir_change \<Rightarrow> directory \<Rightarrow> directory" where
  "apply_change (Put dn as) d = d(dn \<mapsto> as)"
| "apply_change (Remove dn) d = d(dn := None)"

definition apply_changes :: "dir_change list \<Rightarrow> directory \<Rightarrow> directory" where
  "apply_changes cs d = fold apply_change cs d"

lemma apply_changes_simps [simp]:
  "apply_changes [] d = d"
  "apply_changes (c # cs) d = apply_changes cs (apply_change c d)"
  "apply_changes (cs @ cs') d = apply_changes cs' (apply_changes cs d)"
  by (simp_all add: apply_changes_def)

text \<open>Changes to other entries leave an entry alone.\<close>

lemma apply_changes_other: "dn \<notin> change_DN ` set cs \<Longrightarrow> apply_changes cs d dn = d dn"
proof (induction cs arbitrary: d)
  case (Cons c cs)
  then show ?case by (cases c) auto
qed simp

fun is_Put :: "dir_change \<Rightarrow> bool" where
  "is_Put (Put dn as) \<longleftrightarrow> True"
| "is_Put (Remove dn) \<longleftrightarrow> False"

lemma dom_apply_puts:
  "list_all is_Put cs \<Longrightarrow> dom (apply_changes cs d) = dom d \<union> change_DN ` set cs"
proof (induction cs arbitrary: d)
  case (Cons c cs)
  then show ?case by (cases c) auto
qed simp

text \<open>
  The contract. \<open>wf\<close> is the store's own invariant, \<open>dir\<close> the directory it holds, \<open>live\<close> tells whether
  a transaction still takes changes and \<open>log\<close> lists those it took. Any call on the transaction may
  fail, and then nothing was changed.
\<close>

locale directory_store =
  fixes S :: "('st, 'tx) Store"
    and wf :: "'st \<Rightarrow> bool"
    and dir :: "'st \<Rightarrow> directory"
    and live :: "'tx \<Rightarrow> bool"
    and log :: "'tx \<Rightarrow> dir_change list"
  assumes wf_good: "wf st \<Longrightarrow> dir st dn = Some as \<Longrightarrow> good_DN dn"
    and List_exact: "wf st \<Longrightarrow> s_List S (DN_Prefix dn) True st =
      (Ok (case dir st dn of None \<Rightarrow> [] | Some as \<Rightarrow> [\<lparr>entry_DN = dn, entry_Attributes = as\<rparr>]), st)"
    and List_range: "wf st \<Longrightarrow> dn \<noteq> [] \<Longrightarrow> \<exists>es. s_List S (DN_Prefix dn) False st = (Ok es, st) \<and> distinct es \<and>
      set es = {\<lparr>entry_DN = e, entry_Attributes = as\<rparr> | e as.
                 dir st e = Some as \<and> in_range (DN_Prefix dn) (DN_Prefix e)}"
    and Begin: "s_Begin S ctx st = (begun, st') \<Longrightarrow> st' = st \<and> (\<forall>tx. begun = Ok tx \<longrightarrow> live tx \<and> log tx = [])"
    and assign: "wf st \<Longrightarrow> dir st dn = Some as \<Longrightarrow> wf (s_assign S (DN_Prefix dn) k v st) \<and>
      dir (s_assign S (DN_Prefix dn) k v st) = (dir st)(dn \<mapsto> attr_set k v as)"
    and Store: "live tx \<Longrightarrow> tx_Store S e (st, tx) = (r, st', tx') \<Longrightarrow>
      st' = st \<and> (r = Ok () \<longrightarrow> live tx' \<and> log tx' = log tx @ [Put (entry_DN e) (entry_Attributes e)])"
    and Delete: "live tx \<Longrightarrow> tx_Delete S dn (st, tx) = (r, st', tx') \<Longrightarrow>
      st' = st \<and> (r = Ok () \<longrightarrow> live tx' \<and> log tx' = log tx @ [Remove dn])"
    and Commit: "wf st \<Longrightarrow> live tx \<Longrightarrow> list_all (\<lambda>c. good_DN (change_DN c)) (log tx) \<Longrightarrow>
      tx_Commit S ctx (st, tx) = (r, st', tx') \<Longrightarrow>
      wf st' \<and> dir st' = (if r = Ok () then apply_changes (log tx) (dir st) else dir st)"

text \<open>A store whose calls succeed when the context is not done, and do not panic when it is.\<close>

locale reliable_store = directory_store +
  assumes Begin_Ok: "ctx_Err_Begin ctx = None \<Longrightarrow> \<exists>tx. s_Begin S ctx st = (Ok tx, st)"
    and Store_Ok: "live tx \<Longrightarrow> fst (tx_Store S e (st, tx)) = Ok ()"
    and Delete_Ok: "live tx \<Longrightarrow> fst (tx_Delete S dn (st, tx)) = Ok ()"
    and Commit_Ok: "live tx \<Longrightarrow> ctx_Err_Commit ctx = None \<Longrightarrow> fst (tx_Commit S ctx (st, tx)) = Ok ()"
    and Begin_ends: "ends True (fst (s_Begin S ctx st))"
    and Commit_ends: "ends True (fst (tx_Commit S ctx (st, tx)))"

text \<open>A transaction: a sequence of changes, then a commit.\<close>

fun tx_apply :: "('st, 'tx) Store \<Rightarrow> dir_change \<Rightarrow> ('st \<times> 'tx, unit) go" where
  "tx_apply S (Put dn as) = tx_Store S \<lparr>entry_DN = dn, entry_Attributes = as\<rparr>"
| "tx_apply S (Remove dn) = tx_Delete S dn"

context reliable_store
begin

lemma tx_apply_Ok:
  assumes "live tx"
  shows "\<exists>tx'. tx_apply S c (st, tx) = (Ok (), st, tx') \<and> live tx' \<and> log tx' = log tx @ [c]"
proof (cases c)
  case (Put dn as)
  let ?e = "\<lparr>entry_DN = dn, entry_Attributes = as\<rparr>"
  obtain r st' tx' where step: "tx_Store S ?e (st, tx) = (r, st', tx')" by (metis prod_cases3)
  with Store_Ok [OF assms, of ?e st] have "r = Ok ()" by simp
  with Store [OF assms step] step Put show ?thesis by simp
next
  case (Remove dn)
  obtain r st' tx' where step: "tx_Delete S dn (st, tx) = (r, st', tx')" by (metis prod_cases3)
  with Delete_Ok [OF assms, of dn st] have "r = Ok ()" by simp
  with Delete [OF assms step] step Remove show ?thesis by simp
qed

lemma tx_each_Ok:
  "live tx \<Longrightarrow> \<exists>tx'. go_each (tx_apply S) cs (st, tx) = (Ok (), st, tx') \<and> live tx' \<and> log tx' = log tx @ cs"
proof (induction cs arbitrary: tx)
  case (Cons c cs)
  obtain tx1 where "tx_apply S c (st, tx) = (Ok (), st, tx1)" "live tx1" "log tx1 = log tx @ [c]"
    using tx_apply_Ok [OF Cons.prems] by blast
  with Cons.IH [of tx1] show ?case by auto
qed simp

lemma transaction_run:
  assumes "wf st" "ctx_Err_Begin ctx = None" "ctx_Err_Commit ctx = None" "list_all (\<lambda>c. good_DN (change_DN c)) cs"
  shows "\<exists>tx st' tx'. s_Begin S ctx st = (Ok tx, st) \<and>
    go_bind (go_each (tx_apply S) cs) (\<lambda>_. tx_Commit S ctx) (st, tx) = (Ok (), st', tx') \<and>
    wf st' \<and> dir st' = apply_changes cs (dir st)"
proof -
  obtain tx where tx: "s_Begin S ctx st = (Ok tx, st)" using Begin_Ok [OF assms(2)] by blast
  with Begin [OF tx] have "live tx" "log tx = []" by simp_all
  then obtain tx1 where tx1: "go_each (tx_apply S) cs (st, tx) = (Ok (), st, tx1)" "live tx1" "log tx1 = cs"
    using tx_each_Ok [of tx cs st] by auto
  obtain r st' tx' where step: "tx_Commit S ctx (st, tx1) = (r, st', tx')" by (metis prod_cases3)
  with Commit_Ok [OF tx1(2) assms(3), of st] have "r = Ok ()" by simp
  with Commit [OF assms(1) tx1(2) _ step] assms(4) tx1 step tx show ?thesis by auto
qed

end

end
