(* ===== verification/Pg_Replica.thy ===== *)
theory Pg_Replica
  imports Pg_Table
begin

text \<open>
  The table cache stays equal to the table. The contents of a cache and of the database are maps from
  the text of a key to an object; a transaction is a list of assignments to such a map. The locale
  \<open>pg_database\<close> states what the database and the functions given to \<^verbatim>\<open>NewTable\<close> promise; in
  \<open>table_cache\<close> the cache of the process that commits, and the caches of the processes that handle
  its notification, follow the table.
\<close>

section \<open>Assignments\<close>

type_synonym 't assignment = "string \<times> 't option"

definition assign_all :: "'t assignment list \<Rightarrow> (string \<rightharpoonup> 't) \<Rightarrow> (string \<rightharpoonup> 't)" where
  "assign_all as m = fold (\<lambda>(s, v) m. m(s := v)) as m"

lemma assign_all_simps [simp]:
  "assign_all [] m = m"
  "assign_all (a # as) m = assign_all as (m(fst a := snd a))"
  "assign_all (as @ bs) m = assign_all bs (assign_all as m)"
  by (simp_all add: assign_all_def split_def)

lemma assign_all_other: "s \<notin> fst ` set as \<Longrightarrow> assign_all as m s = m s"
  by (induction as arbitrary: m) auto

text \<open>The value of a key after the assignments depends on the old contents only if none is to it.\<close>

lemma assign_all_cong: "s \<in> fst ` set as \<Longrightarrow> assign_all as m s = assign_all as m' s"
proof (induction as arbitrary: m m')
  case (Cons a as)
  show ?case
  proof (cases "s \<in> fst ` set as")
    case False
    with Cons.prems show ?thesis by (simp add: assign_all_other)
  qed (simp add: Cons.IH)
qed simp

text \<open>Assignments that agree on the value of each key.\<close>

lemma assign_all_consistent:
  "(\<And>s v. (s, v) \<in> set as \<Longrightarrow> v = f s) \<Longrightarrow> assign_all as m s = (if s \<in> fst ` set as then f s else m s)"
proof (induction as arbitrary: m)
  case (Cons a as)
  have "assign_all as (m(fst a := snd a)) s = (if s \<in> fst ` set as then f s else (m(fst a := snd a)) s)"
    by (rule Cons.IH) (simp add: Cons.prems)
  moreover have "snd a = f (fst a)" by (rule Cons.prems) simp
  ultimately show ?case by (auto simp del: fun_upd_apply simp: fun_upd_def)
qed simp

section \<open>Updates\<close>

definition valid_update :: "('k, 't) update \<Rightarrow> bool" where
  "valid_update u \<longleftrightarrow> upd_store u \<noteq> None \<or> upd_delete u \<noteq> None"

definition upd_key :: "('t \<Rightarrow> 'k) \<Rightarrow> ('k, 't) update \<Rightarrow> 'k" where
  "upd_key objKey u = (case upd_store u of Some object \<Rightarrow> objKey object | None \<Rightarrow> the (upd_delete u))"

definition upd_event :: "('t \<Rightarrow> 'k) \<Rightarrow> ('k, 't) update \<Rightarrow> 'k Event" where
  "upd_event objKey u =
     \<lparr>ev_Type = (if upd_store u = None then EventTypeDelete else EventTypeStore), ev_Key = upd_key objKey u\<rparr>"

definition upd_assign :: "'k Key \<Rightarrow> ('t \<Rightarrow> 'k) \<Rightarrow> ('k, 't) update \<Rightarrow> 't assignment" where
  "upd_assign K objKey u = (key_String K (upd_key objKey u), upd_store u)"

lemma commit_events_Ok: "list_all valid_update us \<Longrightarrow> commit_events objKey us = Ok (map (upd_event objKey) us)"
  by (induction us) (auto simp: valid_update_def upd_event_def upd_key_def outcome_bind_def split: option.splits)

lemma event_types: "EventTypeStore \<noteq> EventTypeDelete" "EventTypeDelete \<noteq> EventTypeStore"
  by (simp_all add: EventTypeStore_def EventTypeDelete_def)

text \<open>The map of a notification gives each key the type of its last update.\<close>

lemma encode_keymap_props:
  "distinct (map fst (encode_keymap K events))"
  "map_of (encode_keymap K events) = fold (\<lambda>e m. m(key_String K (ev_Key e) \<mapsto> ev_Type e)) events Map.empty"
proof -
  have "distinct (map fst (fold (\<lambda>e. AList.update (key_String K (ev_Key e)) (ev_Type e)) events al)) \<and>
      map_of (fold (\<lambda>e. AList.update (key_String K (ev_Key e)) (ev_Type e)) events al) =
        fold (\<lambda>e m. m(key_String K (ev_Key e) \<mapsto> ev_Type e)) events (map_of al)"
    if "distinct (map fst al)" for al
    using that by (induction events arbitrary: al) (simp_all add: distinct_update update_conv')
  from this [of "[]"] show "distinct (map fst (encode_keymap K events))"
    "map_of (encode_keymap K events) = fold (\<lambda>e m. m(key_String K (ev_Key e) \<mapsto> ev_Type e)) events Map.empty"
    by (simp_all add: encode_keymap_def)
qed

lemma keymap_of_updates:
  fixes us :: "('k, 't) update list"
  assumes "list_all valid_update us"
  shows "map_of (encode_keymap K (map (upd_event objKey) us)) s =
    (if s \<in> fst ` upd_assign K objKey ` set us
     then Some (if assign_all (map (upd_assign K objKey) us) Map.empty s = None then EventTypeDelete else EventTypeStore)
     else None)"
proof -
  have "fold (\<lambda>e m. m(key_String K (ev_Key e) \<mapsto> ev_Type e)) (map (upd_event objKey) us) m s =
      (if s \<in> fst ` upd_assign K objKey ` set us
       then Some (if assign_all (map (upd_assign K objKey) us) m' s = None then EventTypeDelete else EventTypeStore) else m s)"
    for m and m' :: "string \<rightharpoonup> 't"
  proof (induction us arbitrary: m m')
    case (Cons u us)
    let ?k = "key_String K (upd_key objKey u)" and ?as = "map (upd_assign K objKey) us"
    let ?m = "m(?k \<mapsto> ev_Type (upd_event objKey u))" and ?m' = "m'(?k := upd_store u)"
    have fold: "fold (\<lambda>e m. m(key_String K (ev_Key e) \<mapsto> ev_Type e)) (map (upd_event objKey) (u # us)) m s =
      fold (\<lambda>e m. m(key_String K (ev_Key e) \<mapsto> ev_Type e)) (map (upd_event objKey) us) ?m s"
      by (simp add: upd_event_def del: fun_upd_apply)
    have assign: "assign_all (map (upd_assign K objKey) (u # us)) m' s = assign_all ?as ?m' s"
      by (simp add: upd_assign_def del: fun_upd_apply)
    have keys: "fst ` upd_assign K objKey ` set (u # us) = insert ?k (fst ` upd_assign K objKey ` set us)"
      by (simp add: upd_assign_def)
    show ?case
    proof (cases "s \<in> fst ` upd_assign K objKey ` set us")
      case True
      then show ?thesis unfolding fold assign keys Cons.IH [of ?m ?m'] by simp
    next
      case False
      then have other: "assign_all ?as ?m' s = ?m' s" by (intro assign_all_other) simp
      show ?thesis unfolding fold assign keys Cons.IH [of ?m ?m'] other using False by (simp add: upd_event_def)
    qed
  qed simp
  from this [of Map.empty Map.empty] show ?thesis by (simp add: encode_keymap_props(2))
qed

section \<open>The cache\<close>

abbreviation cached :: "('b, 't) TableState \<Rightarrow> string \<rightharpoonup> 't" where
  "cached ts \<equiv> sm_vals (ts_cache ts)"

lemma cached_simps [simp]:
  "cached (Table_store T bt key object ts) = (cached ts)(key_String (t_key T) key \<mapsto> object)"
  "cached (Table_delete T bt key ts) = (cached ts)(key_String (t_key T) key := None)"
  by (simp_all add: Table_store_def Table_delete_def Let_def)

lemma commit_updates_Ok:
  assumes "list_all valid_update us"
  shows "\<exists>ts'. commit_updates T bt us ts = (Ok (), ts') \<and>
    cached ts' = assign_all (map (upd_assign (t_key T) (t_Key T)) us) (cached ts)"
  using assms
proof (induction us arbitrary: ts)
  case (Cons u us)
  let ?ts = "case upd_store u of Some object \<Rightarrow> Table_store T bt (t_Key T object) object ts
    | None \<Rightarrow> Table_delete T bt (the (upd_delete u)) ts"
  have "commit_updates T bt (u # us) ts = commit_updates T bt us ?ts"
    using Cons.prems by (auto simp: valid_update_def split: option.splits)
  moreover have "cached ?ts = (cached ts)(key_String (t_key T) (upd_key (t_Key T) u) := upd_store u)"
    by (simp add: upd_key_def split: option.splits)
  moreover obtain ts' where "commit_updates T bt us ?ts = (Ok (), ts')"
    "cached ts' = assign_all (map (upd_assign (t_key T) (t_Key T)) us) (cached ?ts)"
    using Cons.IH [of ?ts] Cons.prems by auto
  ultimately have "commit_updates T bt (u # us) ts = (Ok (), ts') \<and>
      cached ts' = assign_all (map (upd_assign (t_key T) (t_Key T)) (u # us)) (cached ts)"
    by (simp only: list.map assign_all_simps upd_assign_def fst_conv snd_conv simp_thms)
  then show ?case by blast
qed simp

lemma store_objects_cached:
  "cached (store_objects T bt objects ts) =
   assign_all (map (\<lambda>object. (key_String (t_key T) (t_Key T object), Some object)) objects) (cached ts)"
  by (induction objects arbitrary: ts) (simp_all add: store_objects_def)

text \<open>Events for different keys: the deletions are made, the others collected.\<close>

lemma handle_events_loop_Ok:
  assumes "\<forall>e \<in> set events. ev_Type e \<in> {EventTypeStore, EventTypeDelete}"
  shows "\<exists>ts'. handle_events_loop T bt events refresh ts =
      (Ok (refresh @ map ev_Key (filter (\<lambda>e. ev_Type e = EventTypeStore) events)), ts') \<and>
    cached ts' = (cached ts) |` (- (\<lambda>e. key_String (t_key T) (ev_Key e)) ` set (filter (\<lambda>e. ev_Type e = EventTypeDelete) events))"
  using assms
proof (induction events arbitrary: refresh ts)
  case (Cons e events)
  show ?case
  proof (cases "ev_Type e = EventTypeStore")
    case True
    with Cons.IH [of "refresh @ [ev_Key e]" ts] Cons.prems show ?thesis by (simp add: event_types)
  next
    case False
    with Cons.prems have d: "ev_Type e = EventTypeDelete" by simp
    with Cons.IH [of refresh "Table_delete T bt (ev_Key e) ts"] Cons.prems False show ?thesis
      by (auto simp: restrict_map_def fun_eq_iff)
  qed
qed (simp add: restrict_map_def)

text \<open>How a commit ends for the cache.\<close>

lemma Commit_cases:
  assumes "TableTx_Commit T bt ctx ((ts, db), ttx) = (r, (ts', db'), ttx')" "list_all valid_update (ttx_updates ttx)"
  shows "r = Ok () \<and> commit_updates T bt (ttx_updates ttx) ts = (Ok (), ts') \<or> r \<noteq> Ok () \<and> ts' = ts"
proof -
  obtain ts1 where "commit_updates T bt (ttx_updates ttx) ts = (Ok (), ts1)" using commit_updates_Ok [OF assms(2)] by blast
  with assms show ?thesis
    unfolding TableTx_Commit_def by (auto split: if_splits prod.splits outcome.splits)
qed

section \<open>The database\<close>

text \<open>
  \<open>rows\<close> are the committed objects, \<open>pend\<close> the assignments of a database transaction, \<open>good\<close> the keys
  whose text \<^verbatim>\<open>fromString\<close> reads back, \<open>storable\<close> the objects that the table returns as they were stored.
\<close>

locale pg_database =
  fixes T :: "('k, 't, 'c, 'db, 'dtx) Table"
    and rows :: "'db \<Rightarrow> string \<rightharpoonup> 't"
    and pend :: "'dtx \<Rightarrow> 't assignment list"
    and good :: "'k \<Rightarrow> bool"
    and storable :: "'t \<Rightarrow> bool"
  assumes Begin: "pool_Begin (t_pool T) ctx db = Ok tx \<Longrightarrow> pend tx = []"
    and storeFunc: "t_storeFunc T objects tx = (Ok u, tx') \<Longrightarrow> list_all storable objects \<Longrightarrow>
      pend tx' = pend tx @ map (\<lambda>object. (key_String (t_key T) (t_Key T object), Some object)) objects"
    and deleteFunc: "t_deleteFunc T keys tx = (Ok u, tx') \<Longrightarrow>
      pend tx' = pend tx @ map (\<lambda>key. (key_String (t_key T) key, None)) keys"
    and Commit: "pool_Commit (t_pool T) ctx tx db = (r, db') \<Longrightarrow>
      rows db' = (if r = Ok () then assign_all (pend tx) (rows db) else rows db)"
    and Notify: "pool_Notify (t_pool T) ctx channel raw db = (r, db') \<Longrightarrow> rows db' = rows db"
    and rows_key: "rows db s = Some object \<Longrightarrow> key_String (t_key T) (t_Key T object) = s"
    and listFunc: "t_listFunc T db = Ok objects \<Longrightarrow> set objects = ran (rows db)"
    and getFunc: "t_getFunc T keys db = Ok objects \<Longrightarrow> distinct objects \<and>
      set objects = {object. \<exists>key \<in> set keys. rows db (key_String (t_key T) key) = Some object}"
    and fromString: "good key \<Longrightarrow> \<exists>key'. nm_fromString (t_nm T) (key_String (t_key T) key) = Ok key' \<and>
      key_String (t_key T) key' = key_String (t_key T) key"

text \<open>A transaction whose updates are those of its database transaction.\<close>

definition ttx_inv :: "('k, 't, 'c, 'db, 'dtx) Table \<Rightarrow> ('dtx \<Rightarrow> 't assignment list) \<Rightarrow> ('k, 't, 'dtx) TableTx \<Rightarrow> bool" where
  "ttx_inv T pend ttx \<longleftrightarrow> list_all valid_update (ttx_updates ttx) \<and>
     pend (ttx_tx ttx) = map (upd_assign (t_key T) (t_Key T)) (ttx_updates ttx)"

lemma ttx_call_cases:
  assumes "ttx_call what call us (st, ttx) = (r, st', ttx')"
  shows "st' = st \<and> ttx_committed ttx' = ttx_committed ttx \<and>
    (r = Ok () \<longrightarrow> (\<exists>tx'. call (ttx_tx ttx) = (Ok (), tx') \<and> \<not> ttx_committed ttx \<and>
       ttx' = ttx\<lparr>ttx_tx := tx', ttx_updates := ttx_updates ttx @ us\<rparr>))"
  using assms unfolding ttx_call_def go_wrap_def by (auto split: if_splits prod.splits outcome.splits)

context pg_database
begin

lemma Begin_inv:
  assumes "Table_Begin T ctx st = (Ok ttx, st')"
  shows "ttx_inv T pend ttx \<and> \<not> ttx_committed ttx \<and> ttx_updates ttx = [] \<and> st' = st"
  using assms Begin unfolding Table_Begin_def ttx_inv_def outcome_bind_def outcome_wrap_def
  by (cases st) (auto split: outcome.splits)

lemma Store_inv:
  assumes "TableTx_Store T objects (st, ttx) = (Ok (), st', ttx')" "ttx_inv T pend ttx" "list_all storable objects"
  shows "ttx_inv T pend ttx'"
proof -
  obtain tx' where "t_storeFunc T objects (ttx_tx ttx) = (Ok (), tx')" and ttx':
    "ttx' = ttx\<lparr>ttx_tx := tx', ttx_updates := ttx_updates ttx @ map (\<lambda>object. \<lparr>upd_store = Some object, upd_delete = None\<rparr>) objects\<rparr>"
    using ttx_call_cases [OF assms(1) [unfolded TableTx_Store_def]] by auto
  from storeFunc [OF this(1) assms(3)] assms(2) show ?thesis
    unfolding ttx' ttx_inv_def by (auto simp: valid_update_def upd_assign_def upd_key_def list_all_iff)
qed

lemma Delete_inv:
  assumes "TableTx_Delete T keys (st, ttx) = (Ok (), st', ttx')" "ttx_inv T pend ttx"
  shows "ttx_inv T pend ttx'"
proof -
  obtain tx' where "t_deleteFunc T keys (ttx_tx ttx) = (Ok (), tx')" and ttx':
    "ttx' = ttx\<lparr>ttx_tx := tx', ttx_updates := ttx_updates ttx @ map (\<lambda>key. \<lparr>upd_store = None, upd_delete = Some key\<rparr>) keys\<rparr>"
    using ttx_call_cases [OF assms(1) [unfolded TableTx_Delete_def]] by auto
  from deleteFunc [OF this(1)] assms(2) show ?thesis
    unfolding ttx' ttx_inv_def by (auto simp: valid_update_def upd_assign_def upd_key_def list_all_iff)
qed

lemma Notify_rows: "nm_Notify K (t_pool T) nm ctx events db = (r, db') \<Longrightarrow> rows db' = rows db"
  using Notify unfolding nm_Notify_def ret_def go_bind_def go_wrap_def lift_def
  by (auto split: if_splits outcome.splits prod.splits)

text \<open>
  \<^verbatim>\<open>Commit\<close>: when it succeeds the cache and the table get the same assignments, when it fails before
  the database commits neither changes.
\<close>

lemma Commit_effect:
  assumes run: "TableTx_Commit T bt ctx ((ts, db), ttx) = (r, (ts', db'), ttx')" and inv: "ttx_inv T pend ttx"
  shows "if r = Ok ()
    then \<not> ttx_committed ttx \<and> cached ts' = assign_all (pend (ttx_tx ttx)) (cached ts) \<and>
      rows db' = assign_all (pend (ttx_tx ttx)) (rows db) \<and> ttx_committed ttx'
    else ts' = ts \<and> rows db' = rows db"
proof (cases "ttx_committed ttx")
  case False
  note ok = commit_events_Ok [of "ttx_updates ttx" "t_Key T"]
  let ?events = "map (upd_event (t_Key T)) (ttx_updates ttx)"
  from inv have us: "list_all valid_update (ttx_updates ttx)"
    and pend: "pend (ttx_tx ttx) = map (upd_assign (t_key T) (t_Key T)) (ttx_updates ttx)" by (simp_all add: ttx_inv_def)
  obtain rn dn where n: "nm_Notify (t_key T) (t_pool T) (t_nm T) ctx ?events db = (rn, dn)" by (cases "nm_Notify (t_key T) (t_pool T) (t_nm T) ctx ?events db")
  obtain rc dc where c: "pool_Commit (t_pool T) ctx (ttx_tx ttx) dn = (rc, dc)" by (cases "pool_Commit (t_pool T) ctx (ttx_tx ttx) dn")
  obtain ts1 where ts1: "commit_updates T bt (ttx_updates ttx) ts = (Ok (), ts1)"
    "cached ts1 = assign_all (pend (ttx_tx ttx)) (cached ts)" using commit_updates_Ok [OF us] pend by metis
  note rows = Notify_rows [OF n] Commit [OF c]
  show ?thesis
    using run False rows ts1 c n
    by (cases rn; cases rc) (auto simp: TableTx_Commit_def go_bind_def go_wrap_def lift_def ok [OF us])
qed (use run in \<open>auto simp: TableTx_Commit_def\<close>)

text \<open>A notification with the keys of good updates is decoded to one event for each key.\<close>

lemma decode_events_Ok:
  assumes "\<And>s. s \<in> fst ` set km \<Longrightarrow> \<exists>key. good key \<and> s = key_String (t_key T) key"
  shows "\<exists>events. decode_events (nm_fromString (t_nm T)) km = Ok events \<and>
    map (\<lambda>e. (key_String (t_key T) (ev_Key e), ev_Type e)) events = km"
  using assms
proof (induction km)
  case (Cons a km)
  obtain s t where a: "a = (s, t)" by (cases a)
  obtain key' where key': "nm_fromString (t_nm T) s = Ok key'" "key_String (t_key T) key' = s"
    using Cons.prems [of s] fromString unfolding a by fastforce
  obtain events where "decode_events (nm_fromString (t_nm T)) km = Ok events"
    "map (\<lambda>e. (key_String (t_key T) (ev_Key e), ev_Type e)) events = km"
    using Cons.IH Cons.prems by auto
  with key' show ?case unfolding a by (auto simp: outcome_bind_def outcome_wrap_def)
qed simp

text \<open>The objects fetched for keys that are all in the table.\<close>

lemma fetched:
  assumes get: "t_getFunc T keys db = Ok objects" and "distinct (map (key_String (t_key T)) keys)"
    and present: "\<And>key. key \<in> set keys \<Longrightarrow> rows db (key_String (t_key T) key) \<noteq> None"
  shows "length objects = length keys"
    and "(\<lambda>object. key_String (t_key T) (t_Key T object)) ` set objects = key_String (t_key T) ` set keys"
    and "\<And>object. object \<in> set objects \<Longrightarrow> rows db (key_String (t_key T) (t_Key T object)) = Some object"
proof -
  let ?s = "\<lambda>object. key_String (t_key T) (t_Key T object)"
  note objects = getFunc [OF get]
  show row: "rows db (?s object) = Some object" if "object \<in> set objects" for object
    using that objects rows_key by force
  have "inj_on ?s (set objects)" by (rule inj_onI) (metis row option.inject)
  moreover show image: "?s ` set objects = key_String (t_key T) ` set keys"
  proof (rule set_eqI, rule iffI)
    fix s assume "s \<in> key_String (t_key T) ` set keys"
    then obtain key where "key \<in> set keys" "s = key_String (t_key T) key" by blast
    with present [of key] obtain object where "rows db s = Some object" by auto
    with \<open>key \<in> set keys\<close> \<open>s = _\<close> objects rows_key show "s \<in> ?s ` set objects" by force
  qed (use objects rows_key in force)
  ultimately have "card (set objects) = card (key_String (t_key T) ` set keys)" by (metis card_image)
  then show "length objects = length keys"
    using objects assms(2) distinct_card by (metis length_map set_map)
qed

text \<open>Handling events that tell the truth about a state of the table brings the cache to that state.\<close>

lemma handleEvents_Ok:
  assumes distinct: "distinct (map (\<lambda>e. key_String (t_key T) (ev_Key e)) events)"
    and types: "\<forall>e \<in> set events. ev_Type e \<in> {EventTypeStore, EventTypeDelete} \<and>
      (ev_Type e = EventTypeStore \<longleftrightarrow> rows (views 0) (key_String (t_key T) (ev_Key e)) \<noteq> None)"
    and reach: "\<And>keys. \<exists>objects. t_getFunc T keys (views 0) = Ok objects"
    and retry: "\<And>f objects. f 0 = Ok objects \<Longrightarrow> t_retry T f = Ok objects"
  shows "\<exists>ts'. handleEvents T bt views events ts = (Ok (), ts') \<and>
    cached ts' = (\<lambda>s. if s \<in> (\<lambda>e. key_String (t_key T) (ev_Key e)) ` set events then rows (views 0) s else cached ts s)"
proof -
  let ?S = "\<lambda>e. key_String (t_key T) (ev_Key e)" and ?db = "views 0"
  let ?refresh = "map ev_Key (filter (\<lambda>e. ev_Type e = EventTypeStore) events)"
  let ?del = "?S ` {e \<in> set events. ev_Type e = EventTypeDelete}"
  have "\<forall>e \<in> set events. ev_Type e \<in> {EventTypeStore, EventTypeDelete}" using types by blast
  from handle_events_loop_Ok [OF this, of T bt "[]" ts] obtain ts1 where
    loop: "handle_events_loop T bt events [] ts = (Ok ?refresh, ts1)" and ts1: "cached ts1 = cached ts |` (- ?del)" by auto
  have keys: "key_String (t_key T) ` set ?refresh = ?S ` {e \<in> set events. ev_Type e = EventTypeStore}" by force
  have split: "?S ` set events = key_String (t_key T) ` set ?refresh \<union> ?del" unfolding keys using types by blast
  have gone: "rows ?db s = None" if "s \<in> ?del" for s using that types event_types by auto
  show ?thesis
  proof (cases "?refresh = []")
    case True
    then have "handleEvents T bt views events ts = (Ok (), ts1)" by (simp add: handleEvents_def go_bind_def loop ret_def)
    moreover have "cached ts1 = (\<lambda>s. if s \<in> ?S ` set events then rows ?db s else cached ts s)"
      unfolding split using True gone by (auto simp: ts1 restrict_map_def)
    ultimately show ?thesis by blast
  next
    case False
    obtain objects where get: "t_getFunc T ?refresh ?db = Ok objects" using reach by blast
    have "distinct (map (key_String (t_key T)) ?refresh)"
      using distinct by (simp add: comp_def distinct_map_filter)
    moreover have "rows ?db (key_String (t_key T) key) \<noteq> None" if "key \<in> set ?refresh" for key using that types by auto
    ultimately have fetched: "length objects = length ?refresh"
      "(\<lambda>object. key_String (t_key T) (t_Key T object)) ` set objects = key_String (t_key T) ` set ?refresh"
      "\<And>object. object \<in> set objects \<Longrightarrow> rows ?db (key_String (t_key T) (t_Key T object)) = Some object"
      using fetched [OF get] by blast+
    then have "t_retry T (\<lambda>i. refresh_try T ?refresh (views i)) = Ok objects"
      by (intro retry) (simp add: refresh_try_def get outcome_bind_def outcome_wrap_def)
    then have "handleEvents T bt views events ts = (Ok (), store_objects T bt objects ts1)"
      using False by (simp add: handleEvents_def go_bind_def loop ret_def go_wrap_def lift_def)
    moreover have "cached (store_objects T bt objects ts1) s =
        (if s \<in> key_String (t_key T) ` set ?refresh then rows ?db s else cached ts1 s)" for s
    proof -
      let ?as = "map (\<lambda>object. (key_String (t_key T) (t_Key T object), Some object)) objects"
      have "fst ` set ?as = key_String (t_key T) ` set ?refresh" using fetched(2) by (simp add: image_image)
      then show ?thesis unfolding store_objects_cached
        using assign_all_consistent [of ?as "rows ?db" "cached ts1" s] fetched(3) by force
    qed
    then have "cached (store_objects T bt objects ts1) = (\<lambda>s. if s \<in> ?S ` set events then rows ?db s else cached ts s)"
      unfolding split using gone by (auto simp: ts1 restrict_map_def fun_eq_iff)
    ultimately show ?thesis by blast
  qed
qed

end

section \<open>Replicas\<close>

text \<open>What a committing process sends, and what it is for the process that receives it.\<close>

definition commit_payload :: "('k, 't, 'c, 'db, 'dtx) Table \<Rightarrow> ('k, 't) update list \<Rightarrow> payload" where
  "commit_payload T us = \<lparr>pl_ID = nm_id (t_nm T), pl_KeyMap = encode_keymap (t_key T) (map (upd_event (t_Key T)) us)\<rparr>"

text \<open>The decoder's view of a payload: the same sender and the same map, in some order.\<close>

definition same_payload :: "payload \<Rightarrow> payload \<Rightarrow> bool" where
  "same_payload p p' \<longleftrightarrow> pl_ID p' = pl_ID p \<and> distinct (map fst (pl_KeyMap p')) \<and> map_of (pl_KeyMap p') = map_of (pl_KeyMap p)"

lemma Commit_sends:
  assumes run: "TableTx_Commit T bt ctx ((ts, db), ttx) = (Ok (), st')" and us: "list_all valid_update (ttx_updates ttx)" "ttx_updates ttx \<noteq> []"
  shows "\<exists>raw db1. json_Marshal (nm_json (t_nm T)) (commit_payload T (ttx_updates ttx)) = Ok raw \<and>
    pool_Notify (t_pool T) ctx (nm_channel (t_nm T)) raw db = (Ok (), db1)"
proof -
  let ?m = "json_Marshal (nm_json (t_nm T)) (commit_payload T (ttx_updates ttx))"
  let ?n = "\<lambda>raw. pool_Notify (t_pool T) ctx (nm_channel (t_nm T)) raw db"
  have "nm_Notify (t_key T) (t_pool T) (t_nm T) ctx (map (upd_event (t_Key T)) (ttx_updates ttx)) db =
      go_bind (go_wrap ''error while encoding notification events'' (lift (outcome_wrap ''error while marshaling keys'' ?m)))
        (\<lambda>raw. go_wrap ''error while sending notification'' (pool_Notify (t_pool T) ctx (nm_channel (t_nm T)) raw)) db"
    using us(2) by (simp add: nm_Notify_def nm_encode_def commit_payload_def)
  with run show ?thesis
    by (cases ?m; cases "fst (?n (case ?m of Ok raw \<Rightarrow> raw))")
       (auto simp: TableTx_Commit_def go_bind_def go_wrap_def lift_def commit_events_Ok [OF us(1)] outcome_wrap_def
         split: if_splits prod.splits outcome.splits)
qed

context pg_database
begin

text \<open>
  A replica with the table's contents before a commit has the contents after it, once it has handled
  the notification of that commit and reads the table no earlier than the commit.
\<close>

lemma replica_follows:
  assumes inv: "ttx_inv T pend ttx" and keys: "\<forall>u \<in> set (ttx_updates ttx). good (upd_key (t_Key T) u)"
    and msg: "json_Unmarshal (nm_json (t_nm T)) raw = Ok p'" "same_payload (commit_payload T (ttx_updates ttx)) p'"
    and other: "replica \<noteq> nm_id (t_nm T)"
    and rows: "rows (views 0) = assign_all (pend (ttx_tx ttx)) (cached ts)"
    and reach: "\<And>keys. \<exists>objects. t_getFunc T keys (views 0) = Ok objects"
    and retry: "\<And>f objects. f 0 = Ok objects \<Longrightarrow> t_retry T f = Ok objects"
  shows "\<exists>events ts'. nm_Next ((t_nm T)\<lparr>nm_id := replica\<rparr>) ((Ok (nm_channel (t_nm T), raw), views) # rest) = (Ok (events, views), rest) \<and>
    handleEvents T bt views events ts = (Ok (), ts') \<and> cached ts' = rows (views 0)"
proof -
  let ?us = "ttx_updates ttx" and ?S = "\<lambda>e. key_String (t_key T) (ev_Key e)"
  let ?as = "map (upd_assign (t_key T) (t_Key T)) ?us"
  have us: "list_all valid_update ?us" and pend: "pend (ttx_tx ttx) = ?as" using inv by (simp_all add: ttx_inv_def)
  have km: "distinct (map fst (pl_KeyMap p'))" "pl_ID p' = nm_id (t_nm T)"
    "map_of (pl_KeyMap p') = map_of (encode_keymap (t_key T) (map (upd_event (t_Key T)) ?us))"
    using msg(2) by (simp_all add: same_payload_def commit_payload_def)
  have type: "map_of (pl_KeyMap p') s = (if s \<in> fst ` set ?as
      then Some (if rows (views 0) s = None then EventTypeDelete else EventTypeStore) else None)" for s
    unfolding km(3) keymap_of_updates [OF us] rows pend
    using assign_all_cong [of s ?as "cached ts" Map.empty] by (simp add: image_image)
  have dom: "fst ` set (pl_KeyMap p') = fst ` set ?as"
  proof -
    have "fst ` set (pl_KeyMap p') = dom (map_of (pl_KeyMap p'))" by (simp add: dom_map_of_conv_image_fst)
    also have "\<dots> = fst ` set ?as" by (auto simp: dom_def type)
    finally show ?thesis .
  qed
  have "\<exists>key. good key \<and> s = key_String (t_key T) key" if "s \<in> fst ` set (pl_KeyMap p')" for s
    using that keys unfolding dom by (auto simp: upd_assign_def)
  from decode_events_Ok [OF this] obtain events where
    events: "decode_events (nm_fromString (t_nm T)) (pl_KeyMap p') = Ok events" "map (\<lambda>e. (?S e, ev_Type e)) events = pl_KeyMap p'"
    by blast
  have strings: "map ?S events = map fst (pl_KeyMap p')" by (simp add: events(2) [symmetric] comp_def)
  have truth: "ev_Type e \<in> {EventTypeStore, EventTypeDelete} \<and> (ev_Type e = EventTypeStore \<longleftrightarrow> rows (views 0) (?S e) \<noteq> None)"
    if "e \<in> set events" for e
  proof -
    have "(?S e, ev_Type e) \<in> set (pl_KeyMap p')" using that by (force simp: events(2) [symmetric])
    then have "map_of (pl_KeyMap p') (?S e) = Some (ev_Type e)" using km(1) by simp
    then show ?thesis unfolding type using event_types by (auto split: if_splits)
  qed
  have "nm_Next ((t_nm T)\<lparr>nm_id := replica\<rparr>) ((Ok (nm_channel (t_nm T), raw), views) # rest) = (Ok (events, views), rest)"
    using other km(2) msg(1) events(1) by (simp add: nm_decode_def outcome_bind_def outcome_wrap_def)
  moreover have "distinct (map ?S events)" unfolding strings by (rule km(1))
  then have "\<exists>ts'. handleEvents T bt views events ts = (Ok (), ts') \<and>
      cached ts' = (\<lambda>s. if s \<in> ?S ` set events then rows (views 0) s else cached ts s)"
    by (rule handleEvents_Ok [where views = views, OF _ _ reach retry]) (use truth in blast)
  moreover have "(\<lambda>s. if s \<in> ?S ` set events then rows (views 0) s else cached ts s) = rows (views 0)"
  proof
    fix s
    have "?S ` set events = fst ` set ?as" using arg_cong [OF strings, of set] dom by simp
    then show "(if s \<in> ?S ` set events then rows (views 0) s else cached ts s) = rows (views 0) s"
      using assign_all_other [of s ?as "cached ts"] by (simp add: rows pend)
  qed
  ultimately show ?thesis by auto
qed

end

end
