(* ===== verification/Bottin_Psql.thy ===== *)
theory Bottin_Psql
  imports Bottin_Store Pg_Replica
begin

text \<open>
  The PostgreSQL store, \<^verbatim>\<open>service/bottin/store/psql.go\<close>: a table cache of the entries, keyed by the
  text of their prefix. The queries are parameters (\<open>Sql\<close>), and so is the JSON form of attributes.

  A prefix is looked up by its text, which tells two names apart only if they do not contain the
  separator of prefixes. So this store has the contract \<open>plain_store\<close>, which is \<open>directory_store\<close>
  with exact lookups restricted to such names; \<open>directory_store\<close> gives it.
\<close>

section \<open>The contract\<close>

locale plain_store =
  fixes S :: "('st, 'tx) Store"
    and wf :: "'st \<Rightarrow> bool"
    and dir :: "'st \<Rightarrow> directory"
    and live :: "'tx \<Rightarrow> bool"
    and log :: "'tx \<Rightarrow> dir_change list"
  assumes wf_good: "wf st \<Longrightarrow> dir st dn = Some as \<Longrightarrow> good_DN dn"
    and List_plain: "wf st \<Longrightarrow> good_DN dn \<Longrightarrow> s_List S (DN_Prefix dn) True st =
      (Ok (case dir st dn of None \<Rightarrow> [] | Some as \<Rightarrow> [\<lparr>entry_DN = dn, entry_Attributes = as\<rparr>]), st)"
    and List_range: "wf st \<Longrightarrow> dn \<noteq> [] \<Longrightarrow> \<exists>es. s_List S (DN_Prefix dn) False st = (Ok es, st) \<and> distinct es \<and>
      set es = {\<lparr>entry_DN = e, entry_Attributes = as\<rparr> | e as.
                 dir st e = Some as \<and> in_range (DN_Prefix dn) (DN_Prefix e)}"
    and Begin: "s_Begin S ctx st = (begun, st') \<Longrightarrow> st' = st \<and> (\<forall>tx. begun = Ok tx \<longrightarrow> live tx \<and> log tx = [])"
    and assign: "wf st \<Longrightarrow> dir st dn = Some as \<Longrightarrow> wf (s_assign S (DN_Prefix dn) k v st) \<and>
      dir (s_assign S (DN_Prefix dn) k v st) = (dir st)(dn \<mapsto> attr_set k v as)"
    and Store: "live tx \<Longrightarrow> tx_Store S e (st, tx) = (r, st', tx') \<Longrightarrow>
      st' = st \<and> (r = Ok () \<longrightarrow> live tx' \<and> log tx' = log tx @ [Put (entry_DN e) (entry_Attributes e)])"
    and Delete: "live tx \<Longrightarrow> tx_Delete S dn (st, tx) = (r, st', tx') \<Longrightarrow>
      st' = st \<and> (r = Ok () \<longrightarrow> live tx' \<and> log tx' = log tx @ [Remove dn])"
    and Commit: "wf st \<Longrightarrow> live tx \<Longrightarrow> list_all (\<lambda>c. good_DN (change_DN c)) (log tx) \<Longrightarrow>
      tx_Commit S ctx (st, tx) = (r, st', tx') \<Longrightarrow>
      wf st' \<and> dir st' = (if r = Ok () then apply_changes (log tx) (dir st) else dir st)"
begin

text \<open>A transaction that reports success has made its changes, one that does not has made none.\<close>

lemma tx_each_log:
  assumes "live tx" "go_each (tx_apply S) cs (st, tx) = (r, st', tx')"
  shows "st' = st \<and> (r = Ok () \<longrightarrow> live tx' \<and> log tx' = log tx @ cs)"
  using assms
proof (induction cs arbitrary: tx)
  case (Cons c cs)
  obtain r1 st1 tx1 where step: "tx_apply S c (st, tx) = (r1, st1, tx1)" by (metis prod_cases3)
  have one: "st1 = st \<and> (r1 = Ok () \<longrightarrow> live tx1 \<and> log tx1 = log tx @ [c])"
    using step Store [OF Cons.prems(1)] Delete [OF Cons.prems(1)] by (cases c) auto
  show ?case
  proof (cases "r1 = Ok ()")
    case True
    with one step Cons.prems(2) Cons.IH [of tx1] show ?thesis by (simp add: go_bind_def)
  next
    case False
    with one step Cons.prems(2) show ?thesis by (cases r1) (auto simp: go_bind_def)
  qed
qed (simp add: ret_def)

lemma transaction_effect:
  assumes "wf st" "s_Begin S ctx st = (Ok tx, st0)" "list_all (\<lambda>c. good_DN (change_DN c)) cs"
    and run: "go_bind (go_each (tx_apply S) cs) (\<lambda>_. tx_Commit S ctx) (st0, tx) = (r, st', tx')"
  shows "wf st' \<and> dir st' = (if r = Ok () then apply_changes cs (dir st) else dir st)"
proof -
  have tx: "live tx" "log tx = []" "st0 = st" using Begin [OF assms(2)] by auto
  obtain r1 st1 tx1 where step: "go_each (tx_apply S) cs (st, tx) = (r1, st1, tx1)" by (metis prod_cases3)
  note one = tx_each_log [OF tx(1) step]
  show ?thesis
  proof (cases "r1 = Ok ()")
    case True
    with one step run tx have "live tx1" "log tx1 = cs" "tx_Commit S ctx (st, tx1) = (r, st', tx')" by (auto simp: go_bind_def)
    with Commit [OF assms(1), of tx1 ctx r st' tx'] assms(3) show ?thesis by simp
  next
    case False
    with one step run tx assms(1) show ?thesis by (cases r1) (auto simp: go_bind_def)
  qed
qed

end

sublocale directory_store \<subseteq> plain: plain_store S wf dir live log
  by unfold_locales (rule wf_good List_exact List_range Begin assign Store Delete Commit; assumption)+

section \<open>Queries\<close>

record ('db, 'dtx) Sql =
  q_list :: "'db \<Rightarrow> (string \<times> string) list outcome"
  q_get :: "string list \<Rightarrow> 'db \<Rightarrow> (string \<times> string) list outcome"
  x_store :: "string list \<Rightarrow> string list \<Rightarrow> ('dtx, unit) go"
  x_delete :: "string list \<Rightarrow> ('dtx, unit) go"
  json_MarshalAttributes :: "Attributes \<Rightarrow> string outcome"
  json_UnmarshalAttributes :: "string \<Rightarrow> Attributes outcome"

definition parseRow :: "('db, 'dtx) Sql \<Rightarrow> string \<times> string \<Rightarrow> Entry outcome" where
  "parseRow sql = (\<lambda>(rawPrefix, rawAttributes).
     outcome_bind (outcome_wrap ''error while decoding JSON attributes field'' (json_UnmarshalAttributes sql rawAttributes)) (\<lambda>attributes.
     outcome_bind (outcome_wrap ''error while decoding entry prefix'' (ParsePrefix rawPrefix)) (\<lambda>pfx.
     Ok \<lparr>entry_DN = Prefix_DN pfx, entry_Attributes = attributes\<rparr>)))"

fun parseRows :: "('db, 'dtx) Sql \<Rightarrow> (string \<times> string) list \<Rightarrow> Entry list outcome" where
  "parseRows sql [] = Ok []"
| "parseRows sql (row # rows) =
     outcome_bind (parseRow sql row) (\<lambda>entry. outcome_bind (parseRows sql rows) (\<lambda>entries. Ok (entry # entries)))"

definition listPSQL :: "('db, 'dtx) Sql \<Rightarrow> 'db \<Rightarrow> Entry list outcome" where
  "listPSQL sql conn = outcome_bind (outcome_wrap ''error while listing entries from psql'' (q_list sql conn)) (parseRows sql)"

definition getPSQL :: "('db, 'dtx) Sql \<Rightarrow> Prefix list \<Rightarrow> 'db \<Rightarrow> Entry list outcome" where
  "getPSQL sql pfxs conn =
     outcome_bind (outcome_wrap ''error while listing select entries from psql'' (q_get sql (map Prefix_String pfxs) conn))
       (parseRows sql)"

fun marshal_all :: "('db, 'dtx) Sql \<Rightarrow> Entry list \<Rightarrow> (string list \<times> string list) outcome" where
  "marshal_all sql [] = Ok ([], [])"
| "marshal_all sql (entry # entries) =
     outcome_bind (outcome_wrap ''could not marshal attributes of entry for psql''
       (json_MarshalAttributes sql (entry_Attributes entry))) (\<lambda>rawAttributes.
     outcome_bind (marshal_all sql entries) (\<lambda>(dns, attrs).
     Ok (Prefix_String (DN_Prefix (entry_DN entry)) # dns, rawAttributes # attrs)))"

definition storePSQL :: "('db, 'dtx) Sql \<Rightarrow> Entry list \<Rightarrow> ('dtx, unit) go" where
  "storePSQL sql entries =
     go_bind (lift (marshal_all sql entries)) (\<lambda>(dns, attrs).
     go_wrap ''error while inserting entries with psql'' (x_store sql dns attrs))"

definition deletePSQL :: "('db, 'dtx) Sql \<Rightarrow> Prefix list \<Rightarrow> ('dtx, unit) go" where
  "deletePSQL sql pfxs =
     go_wrap ''error while deleting entries in psql'' (x_delete sql (map Prefix_String pfxs))"

section \<open>PSQL\<close>

definition PrefixKey :: "Prefix Key" where
  "PrefixKey = \<lparr>key_Less = Prefix_Less, key_String = Prefix_String\<rparr>"

type_synonym ('db, 'dtx) PSQL = "(Prefix, Entry, Context, 'db, 'dtx) Table"

text \<open>The table that \<^verbatim>\<open>NewPSQL\<close> makes.\<close>

definition PSQL_table :: "('db, 'dtx) Sql \<Rightarrow> (Context, 'db, 'dtx) Pool \<Rightarrow> Prefix notificationManager \<Rightarrow>
    ((nat \<Rightarrow> Entry list outcome) \<Rightarrow> Entry list outcome) \<Rightarrow> ('db, 'dtx) PSQL" where
  "PSQL_table sql pool nm retry =
     \<lparr>t_key = PrefixKey, t_Key = Entry_Key, t_zero = \<lparr>entry_DN = [], entry_Attributes = []\<rparr>,
      t_table = ''entries'', t_pool = pool, t_nm = nm,
      t_listFunc = listPSQL sql, t_getFunc = getPSQL sql, t_storeFunc = storePSQL sql, t_deleteFunc = deletePSQL sql,
      t_retry = retry\<rparr>"

definition PSQL_Ping :: "('db, 'dtx) PSQL \<Rightarrow> Context \<Rightarrow> 'db \<Rightarrow> unit outcome" where
  "PSQL_Ping p ctx db = outcome_wrap ''error while pinging psql'' (pool_Ping (t_pool p) ctx db)"

definition PSQL_List :: "('db, 'dtx) PSQL \<Rightarrow> ('b, Prefix) btree \<Rightarrow> Prefix \<Rightarrow> bool \<Rightarrow>
    (('b, Entry) TableState \<times> 'db, Entry list) go" where
  "PSQL_List p bt pfx exact = (\<lambda>(ts, db).
     (Ok (if exact then (case Table_Get p pfx ts of Some entry \<Rightarrow> [entry] | None \<Rightarrow> [])
          else Table_Between p bt pfx (prefixEnd pfx) ts), ts, db))"

definition PSQL_Begin :: "('db, 'dtx) PSQL \<Rightarrow> Context \<Rightarrow> (('b, Entry) TableState \<times> 'db, (Prefix, Entry, 'dtx) TableTx) go" where
  "PSQL_Begin p ctx = go_wrap ''could not begin pgcache transaction'' (Table_Begin p ctx)"

definition PSQLTransaction_Store :: "('db, 'dtx) PSQL \<Rightarrow> Entry \<Rightarrow> (('b, Prefix, Entry, 'db, 'dtx) table_world, unit) go" where
  "PSQLTransaction_Store p entry = TableTx_Store p [entry]"

definition PSQLTransaction_Delete :: "('db, 'dtx) PSQL \<Rightarrow> DN \<Rightarrow> (('b, Prefix, Entry, 'db, 'dtx) table_world, unit) go" where
  "PSQLTransaction_Delete p dn = (let pfx = DN_Prefix dn in TableTx_Delete p [pfx])"

definition PSQLTransaction_Commit :: "('db, 'dtx) PSQL \<Rightarrow> ('b, Prefix) btree \<Rightarrow> Context \<Rightarrow>
    (('b, Prefix, Entry, 'db, 'dtx) table_world, unit) go" where
  "PSQLTransaction_Commit p bt ctx = TableTx_Commit p bt ctx"

text \<open>An assignment to the attribute map of a listed entry changes the cached entry.\<close>

definition PSQL_assign :: "Prefix \<Rightarrow> AttributeKey \<Rightarrow> StoreAttributeValue \<Rightarrow> ('b, Entry) TableState \<times> 'db \<Rightarrow> ('b, Entry) TableState \<times> 'db" where
  "PSQL_assign pfx key value = (\<lambda>(ts, db).
     (ts\<lparr>ts_cache := (ts_cache ts)\<lparr>sm_vals := (\<lambda>s. if s = Prefix_String pfx
        then map_option (\<lambda>e. e\<lparr>entry_Attributes := attr_set key value (entry_Attributes e)\<rparr>) (sm_vals (ts_cache ts) s)
        else sm_vals (ts_cache ts) s)\<rparr>\<rparr>, db))"

definition PSQL :: "('db, 'dtx) PSQL \<Rightarrow> ('b, Prefix) btree \<Rightarrow> (('b, Entry) TableState \<times> 'db, (Prefix, Entry, 'dtx) TableTx) Store" where
  "PSQL p bt =
     \<lparr>s_List = PSQL_List p bt, s_Begin = PSQL_Begin p, s_assign = PSQL_assign,
      tx_Store = PSQLTransaction_Store p, tx_Delete = PSQLTransaction_Delete p,
      tx_Commit = PSQLTransaction_Commit p bt\<rparr>"

lemma PSQL_simps [simp]:
  "s_List (PSQL p bt) = PSQL_List p bt" "s_Begin (PSQL p bt) = PSQL_Begin p" "s_assign (PSQL p bt) = PSQL_assign"
  "tx_Store (PSQL p bt) = PSQLTransaction_Store p" "tx_Delete (PSQL p bt) = PSQLTransaction_Delete p"
  "tx_Commit (PSQL p bt) = PSQLTransaction_Commit p bt"
  by (simp_all add: PSQL_def)

section \<open>The store satisfies the contract\<close>

text \<open>Each cached entry is found under the text of its own name.\<close>

definition psql_wf :: "('b, Prefix) btree \<Rightarrow> ('b, Entry) TableState \<times> 'db \<Rightarrow> bool" where
  "psql_wf bt st \<longleftrightarrow> sm_inv PrefixKey bt (ts_cache (fst st)) \<and>
     (\<forall>s e. cached (fst st) s = Some e \<longrightarrow> good_DN (entry_DN e) \<and> s = Prefix_String (DN_Prefix (entry_DN e)))"

definition psql_dir :: "('b, Entry) TableState \<times> 'db \<Rightarrow> directory" where
  "psql_dir st dn =
     (if good_DN dn then map_option entry_Attributes (cached (fst st) (Prefix_String (DN_Prefix dn))) else None)"

definition psql_live :: "(Prefix, Entry, 'dtx) TableTx \<Rightarrow> bool" where
  "psql_live tx \<longleftrightarrow> \<not> ttx_committed tx \<and> list_all valid_update (ttx_updates tx)"

definition psql_change :: "(Prefix, Entry) update \<Rightarrow> dir_change" where
  "psql_change u = (case upd_store u of
      Some e \<Rightarrow> Put (entry_DN e) (entry_Attributes e) | None \<Rightarrow> Remove (Prefix_DN (the (upd_delete u))))"

definition psql_log :: "(Prefix, Entry, 'dtx) TableTx \<Rightarrow> dir_change list" where
  "psql_log tx = map psql_change (ttx_updates tx)"

interpretation PrefixKey: pg_key PrefixKey
  by unfold_locales (auto simp: PrefixKey_def Prefix_Less_def strings_Less_def same_key_def)

lemma key_PrefixKey [simp]: "key_String PrefixKey = Prefix_String" "key_Less PrefixKey = Prefix_Less"
  by (simp_all add: PrefixKey_def)

lemma good_key_inj:
  "good_DN dn \<Longrightarrow> good_DN e \<Longrightarrow> Prefix_String (DN_Prefix dn) = Prefix_String (DN_Prefix e) \<longleftrightarrow> dn = e"
  using Prefix_String_inj [of "DN_Prefix dn" "DN_Prefix e"] by (auto simp: good_DN_def dest: arg_cong [of _ _ Prefix_DN])

lemma psql_dir_Some:
  assumes "psql_wf bt st"
  shows "psql_dir st dn = Some as \<longleftrightarrow> good_DN dn \<and>
    cached (fst st) (Prefix_String (DN_Prefix dn)) = Some \<lparr>entry_DN = dn, entry_Attributes = as\<rparr>"
proof -
  have "entry_DN e = dn" if "cached (fst st) (Prefix_String (DN_Prefix dn)) = Some e" "good_DN dn" for e
    using assms that good_key_inj [of dn "entry_DN e"] by (auto simp: psql_wf_def)
  then show ?thesis by (auto simp: psql_dir_def intro: Entry_eqI)
qed

locale psql_store = sorted_map PrefixKey bt for bt :: "('b, Prefix) btree" +
  fixes p :: "('db, 'dtx) PSQL"
  assumes keys: "t_key p = PrefixKey" "t_Key p = Entry_Key"
begin

lemma store_step:
  assumes "psql_wf bt (ts, db)" "good_DN (entry_DN e)"
  shows "psql_wf bt (Table_store p bt (Entry_Key e) e ts, db) \<and>
    psql_dir (Table_store p bt (Entry_Key e) e ts, db) = (psql_dir (ts, db))(entry_DN e \<mapsto> entry_Attributes e)"
proof -
  have "sm_inv PrefixKey bt (ts_cache (Table_store p bt (Entry_Key e) e ts))"
    using assms by (simp add: psql_wf_def Table_store_def keys Let_def sm_inv_Store)
  then show ?thesis
    using assms good_key_inj [OF _ assms(2)] by (auto simp: psql_wf_def psql_dir_def keys Entry_Key_def fun_eq_iff)
qed

lemma delete_step:
  assumes "psql_wf bt (ts, db)" "good_DN dn"
  shows "psql_wf bt (Table_delete p bt (DN_Prefix dn) ts, db) \<and>
    psql_dir (Table_delete p bt (DN_Prefix dn) ts, db) = (psql_dir (ts, db))(dn := None)"
proof -
  have "sm_inv PrefixKey bt (ts_cache (Table_delete p bt (DN_Prefix dn) ts))"
    using assms by (simp add: psql_wf_def Table_delete_def keys sm_inv_Delete)
  then show ?thesis
    using assms good_key_inj [OF _ assms(2)] by (auto simp: psql_wf_def psql_dir_def keys fun_eq_iff)
qed

lemma commit_updates_dir:
  assumes "psql_wf bt (ts, db)" "list_all valid_update us" "list_all (\<lambda>c. good_DN (change_DN c)) (map psql_change us)"
    and "commit_updates p bt us ts = (Ok (), ts')"
  shows "psql_wf bt (ts', db) \<and> psql_dir (ts', db) = apply_changes (map psql_change us) (psql_dir (ts, db))"
  using assms
proof (induction us arbitrary: ts)
  case (Cons u us)
  show ?case
  proof (cases "upd_store u")
    case (Some e)
    note step = store_step [OF Cons.prems(1), of e]
    show ?thesis using Cons.IH [of "Table_store p bt (Entry_Key e) e ts"] step Cons.prems Some
      by (simp add: keys psql_change_def del: fun_upd_apply)
  next
    case None
    then obtain key where key: "upd_delete u = Some key" using Cons.prems(2) by (auto simp: valid_update_def)
    note step = delete_step [OF Cons.prems(1), of "Prefix_DN key"]
    show ?thesis using Cons.IH [of "Table_delete p bt key ts"] step Cons.prems None key
      by (simp add: psql_change_def del: fun_upd_apply)
  qed
qed simp

lemma Between_set:
  assumes wf: "psql_wf bt (ts, db)"
  shows "distinct (Table_Between p bt a b ts)"
    and "set (Table_Between p bt a b ts) =
      {e. cached ts (Prefix_String (DN_Prefix (entry_DN e))) = Some e \<and>
          \<not> Prefix_Less (DN_Prefix (entry_DN e)) a \<and> Prefix_Less (DN_Prefix (entry_DN e)) b}"
proof -
  let ?key = "\<lambda>e. DN_Prefix (entry_DN e)" and ?ks = "bt_Ascend bt (sm_tree (ts_cache ts))"
  let ?ps = "SortedMap_All PrefixKey bt (t_zero p) (ts_cache ts)"
  have inv: "sm_inv PrefixKey bt (ts_cache ts)" using wf by (simp add: psql_wf_def)
  have between: "Table_Between p bt a b ts = map snd (filter (\<lambda>(k, e). \<not> Prefix_Less k a \<and> Prefix_Less k b) ?ps)"
    using range_filters(1) [OF inv] by (simp add: Table_Between_def keys)
  have ps: "set ?ps = {(k, e). k \<in> set ?ks \<and> cached ts (Prefix_String k) = Some e}"
    using yielded_vals [OF inv, of ?ks] by (simp add: SortedMap_All_def)
  have own: "Prefix_String k = Prefix_String (?key e)" if "(k, e) \<in> set ?ps" for k e
    using that wf unfolding ps psql_wf_def by auto
  have "distinct (map (\<lambda>(k, e). Prefix_String k) ?ps)"
    using distinct_String [of ?ks] inv by (simp add: sm_inv_def SortedMap_All_def yielded_def comp_def)
  also have "map (\<lambda>(k, e). Prefix_String k) ?ps = map (\<lambda>e. Prefix_String (?key e)) (map snd ?ps)"
    using own by auto
  finally have "distinct (map snd ?ps)" by (simp only: distinct_map)
  then show "distinct (Table_Between p bt a b ts)" unfolding between by (rule distinct_map_filter)
  have less: "Prefix_Less k q = Prefix_Less (?key e) q" if "(k, e) \<in> set ?ps" for k e q
    using own [OF that] by (simp add: Prefix_Less_def)
  have listed: "(\<exists>k. (k, e) \<in> set ?ps) \<longleftrightarrow> cached ts (Prefix_String (?key e)) = Some e" for e
  proof
    assume e: "cached ts (Prefix_String (?key e)) = Some e"
    then have "Prefix_String (?key e) \<in> Prefix_String ` set ?ks" using inv by (auto simp: sm_inv_def)
    with e show "\<exists>k. (k, e) \<in> set ?ps" unfolding ps by auto
  next
    assume "\<exists>k. (k, e) \<in> set ?ps"
    then obtain k where k: "(k, e) \<in> set ?ps" by blast
    then have "cached ts (Prefix_String k) = Some e" unfolding ps by blast
    with own [OF k] show "cached ts (Prefix_String (?key e)) = Some e" by simp
  qed
  have "e \<in> set (Table_Between p bt a b ts) \<longleftrightarrow> (\<exists>k. (k, e) \<in> set ?ps \<and> \<not> Prefix_Less k a \<and> Prefix_Less k b)" for e
    unfolding between by force
  then show "set (Table_Between p bt a b ts) = {e. cached ts (Prefix_String (?key e)) = Some e \<and>
          \<not> Prefix_Less (?key e) a \<and> Prefix_Less (?key e) b}"
    using less listed by blast
qed

lemma assign_step:
  assumes wf: "psql_wf bt st" and dn: "psql_dir st dn = Some as"
  shows "psql_wf bt (PSQL_assign (DN_Prefix dn) k v st) \<and>
    psql_dir (PSQL_assign (DN_Prefix dn) k v st) = (psql_dir st)(dn \<mapsto> attr_set k v as)"
proof -
  obtain ts db where st: "st = (ts, db)" by (cases st)
  let ?s = "Prefix_String (DN_Prefix dn)" and ?st = "PSQL_assign (DN_Prefix dn) k v st"
  have e: "good_DN dn" "cached ts ?s = Some \<lparr>entry_DN = dn, entry_Attributes = as\<rparr>"
    using psql_dir_Some [OF wf] dn by (simp_all add: st)
  have vals: "cached (fst ?st) = (cached ts)(?s \<mapsto> \<lparr>entry_DN = dn, entry_Attributes = attr_set k v as\<rparr>)"
    using e by (auto simp: PSQL_assign_def st)
  have "sm_tree (ts_cache (fst ?st)) = sm_tree (ts_cache ts)" by (simp add: PSQL_assign_def st)
  then have "sm_inv PrefixKey bt (ts_cache (fst ?st))"
    using wf e vals by (simp add: psql_wf_def st sm_inv_def insert_absorb domI)
  then show ?thesis
    using wf [unfolded st] e good_key_inj [OF _ e(1)]
    by (auto simp: psql_wf_def psql_dir_def vals fun_eq_iff st [THEN arg_cong, of fst] split: if_splits)
qed

lemma psql_plain_store: "plain_store (PSQL p bt) (psql_wf bt) psql_dir psql_live psql_log"
proof (unfold_locales, goal_cases)
  case (1 st dn as)
  then show ?case using psql_dir_Some by blast
next
  case (2 st dn)
  show ?case
  proof (cases "psql_dir st dn")
    case None
    with 2 show ?thesis by (cases st) (auto simp: PSQL_List_def Table_Get_def SortedMap_Load_def keys psql_dir_def)
  next
    case (Some as)
    with psql_dir_Some [OF 2(1), of dn as]
    have "cached (fst st) (Prefix_String (DN_Prefix dn)) = Some \<lparr>entry_DN = dn, entry_Attributes = as\<rparr>" by simp
    with Some show ?thesis
      by (cases st) (simp add: PSQL_List_def Table_Get_def SortedMap_Load_def keys)
  qed
next
  case (3 st dn)
  obtain ts db where st: "st = (ts, db)" by (cases st)
  note between = Between_set [OF 3(1) [unfolded st], of "DN_Prefix dn" "prefixEnd (DN_Prefix dn)"]
  have "{e. cached ts (Prefix_String (DN_Prefix (entry_DN e))) = Some e \<and>
          \<not> Prefix_Less (DN_Prefix (entry_DN e)) (DN_Prefix dn) \<and> Prefix_Less (DN_Prefix (entry_DN e)) (prefixEnd (DN_Prefix dn))} =
      {\<lparr>entry_DN = e, entry_Attributes = as\<rparr> | e as. psql_dir st e = Some as \<and> in_range (DN_Prefix dn) (DN_Prefix e)}" (is "?L = ?R")
  proof (rule set_eqI)
    fix e :: Entry
    obtain d as where e: "e = \<lparr>entry_DN = d, entry_Attributes = as\<rparr>" by (cases e)
    have "good_DN d" if "cached ts (Prefix_String (DN_Prefix d)) = Some e"
    proof -
      have "good_DN (entry_DN e)" using 3(1) that unfolding st psql_wf_def fst_conv by blast
      then show ?thesis by (simp add: e)
    qed
    then have "cached ts (Prefix_String (DN_Prefix d)) = Some e \<longleftrightarrow> psql_dir st d = Some as"
      using psql_dir_Some [OF 3(1), of d as] unfolding e st fst_conv by blast
    then show "e \<in> ?L \<longleftrightarrow> e \<in> ?R" by (simp add: e in_range_def)
  qed
  with between show ?case by (auto simp: PSQL_List_def st)
next
  case (4 ctx st begun st')
  then show ?case
    by (cases st) (auto simp: PSQL_Begin_def go_wrap_def Table_Begin_def outcome_bind_def outcome_wrap_def
        psql_live_def psql_log_def split: outcome.splits)
next
  case (5 st dn as k v)
  then show ?case using assign_step by simp
next
  case (6 tx e st r st' tx')
  have "ttx_call ''error while performing the store operation'' (t_storeFunc p [e]) [\<lparr>upd_store = Some e, upd_delete = None\<rparr>] (st, tx) =
      (r, st', tx')" using 6(2) by (simp add: PSQLTransaction_Store_def TableTx_Store_def)
  from ttx_call_cases [OF this] 6(1) show ?case by (auto simp: psql_live_def psql_log_def psql_change_def valid_update_def)
next
  case (7 tx dn st r st' tx')
  have "ttx_call ''error while performing the delete operation'' (t_deleteFunc p [DN_Prefix dn])
      [\<lparr>upd_store = None, upd_delete = Some (DN_Prefix dn)\<rparr>] (st, tx) = (r, st', tx')"
    using 7(2) by (simp add: PSQLTransaction_Delete_def TableTx_Delete_def Let_def)
  from ttx_call_cases [OF this] 7(1) show ?case by (auto simp: psql_live_def psql_log_def psql_change_def valid_update_def)
next
  case (8 st tx ctx r st' tx')
  obtain ts db ts' db' where st: "st = (ts, db)" "st' = (ts', db')" by (cases st; cases st')
  have valid: "list_all valid_update (ttx_updates tx)" using 8(2) by (simp add: psql_live_def)
  have "TableTx_Commit p bt ctx ((ts, db), tx) = (r, (ts', db'), tx')"
    using 8(4) by (simp add: PSQLTransaction_Commit_def st)
  note cases = Commit_cases [OF this valid]
  have same: "psql_wf bt (ts', db') = psql_wf bt (ts', db)" "psql_dir (ts', db') = psql_dir (ts', db)"
    by (simp_all add: psql_wf_def psql_dir_def fun_eq_iff)
  from cases commit_updates_dir [OF 8(1) [unfolded st] valid, of ts'] 8(1,3) show ?case
    unfolding st same psql_log_def by auto
qed

end

sublocale psql_store \<subseteq> psql: plain_store "PSQL p bt" "psql_wf bt" psql_dir psql_live psql_log
  by (rule psql_plain_store)

lemma PSQL_table_store: "google_btree Prefix_Less bt \<Longrightarrow> psql_store bt (PSQL_table sql pool nm retry)"
  by (simp add: psql_store_def sorted_map_def psql_store_axioms_def PrefixKey.pg_key_axioms PSQL_table_def)

lemma PSQL_plain:
  "google_btree Prefix_Less bt \<Longrightarrow> plain_store (PSQL (PSQL_table sql pool nm retry) bt) (psql_wf bt) psql_dir psql_live psql_log"
  by (rule psql_store.psql_plain_store [OF PSQL_table_store])

section \<open>The database behind the table\<close>

text \<open>
  What PostgreSQL and the JSON package promise about the queries: \<open>raw\<close> are the committed rows,
  \<open>rawpend\<close> the assignments of a transaction. \<open>storable\<close> are the entries with a name in canonical
  form, without the separator of prefixes, and with attributes that survive the JSON encoding. The
  table holds what this program stored.
\<close>

locale psql_server =
  fixes sql :: "('db, 'dtx) Sql"
    and pool :: "(Context, 'db, 'dtx) Pool"
    and raw :: "'db \<Rightarrow> string \<rightharpoonup> string"
    and rawpend :: "'dtx \<Rightarrow> string assignment list"
    and storable :: "Entry \<Rightarrow> bool"
  assumes Begin: "pool_Begin pool ctx db = Ok tx \<Longrightarrow> rawpend tx = []"
    and store: "x_store sql dns attrs tx = (Ok u, tx') \<Longrightarrow> rawpend tx' = rawpend tx @ zip dns (map Some attrs)"
    and delete: "x_delete sql dns tx = (Ok u, tx') \<Longrightarrow> rawpend tx' = rawpend tx @ map (\<lambda>dn. (dn, None)) dns"
    and Commit: "pool_Commit pool ctx tx db = (r, db') \<Longrightarrow>
      raw db' = (if r = Ok () then assign_all (rawpend tx) (raw db) else raw db)"
    and Notify: "pool_Notify pool ctx channel text db = (r, db') \<Longrightarrow> raw db' = raw db"
    and list: "q_list sql db = Ok rs \<Longrightarrow> set rs = {(s, a). raw db s = Some a}"
    and get: "q_get sql dns db = Ok rs \<Longrightarrow> distinct rs \<and> set rs = {(s, a). s \<in> set dns \<and> raw db s = Some a}"
    and storable: "storable e \<Longrightarrow> canonical_DN (entry_DN e) \<and> plain_DN (entry_DN e) \<and>
      (\<forall>a. json_MarshalAttributes sql (entry_Attributes e) = Ok a \<longrightarrow> json_UnmarshalAttributes sql a = Ok (entry_Attributes e))"
    and written: "raw db s = Some a \<Longrightarrow>
      \<exists>e. storable e \<and> s = Prefix_String (DN_Prefix (entry_DN e)) \<and> json_MarshalAttributes sql (entry_Attributes e) = Ok a"

text \<open>The entry a row stands for, and the rows and assignments in terms of entries.\<close>

definition psql_entry :: "('db, 'dtx) Sql \<Rightarrow> string \<Rightarrow> string \<Rightarrow> Entry option" where
  "psql_entry sql s a = (case parseRow sql (s, a) of Ok e \<Rightarrow> Some e | _ \<Rightarrow> None)"

definition psql_rows :: "('db, 'dtx) Sql \<Rightarrow> (string \<rightharpoonup> string) \<Rightarrow> string \<rightharpoonup> Entry" where
  "psql_rows sql r s = Option.bind (r s) (psql_entry sql s)"

definition psql_pend :: "('db, 'dtx) Sql \<Rightarrow> string assignment list \<Rightarrow> Entry assignment list" where
  "psql_pend sql as = map (\<lambda>(s, v). (s, Option.bind v (psql_entry sql s))) as"

definition good_prefix :: "Prefix \<Rightarrow> bool" where
  "good_prefix p \<longleftrightarrow> p \<noteq> [] \<and> list_all canonical_component p \<and> plain_DN p"

lemma ParsePrefix_String: "good_prefix p \<Longrightarrow> ParsePrefix (Prefix_String p) = Ok p"
proof -
  assume p: "good_prefix p"
  have "strings_Split (Prefix_String p) prefixSeparator = map Component_String p"
    unfolding Prefix_String_def joinComponentSlice_def using p Component_String_plain
    by (intro Split_Join) (auto simp: good_prefix_def plain_DN_def list_all_iff)
  then show ?thesis using p by (simp add: ParsePrefix_def parseComponentSlice_def parseComponents_String good_prefix_def)
qed

lemma psql_rows_assign: "psql_rows sql (assign_all as r) = assign_all (psql_pend sql as) (psql_rows sql r)"
proof (induction as arbitrary: r)
  case (Cons a as)
  have "psql_rows sql (r(fst a := snd a)) = (psql_rows sql r)(fst a := Option.bind (snd a) (psql_entry sql (fst a)))"
    by (auto simp: psql_rows_def)
  with Cons show ?case by (simp add: psql_pend_def split_def del: fun_upd_apply)
qed (simp add: psql_pend_def)

lemma parseRows_all2: "parseRows sql rs = Ok es \<Longrightarrow> list_all2 (\<lambda>row e. parseRow sql row = Ok e) rs es"
proof (induction rs arbitrary: es)
  case (Cons row rs)
  then show ?case by (auto simp: outcome_bind_def split: outcome.splits)
qed simp

context psql_server
begin

lemma stored_entry:
  assumes "storable e" "json_MarshalAttributes sql (entry_Attributes e) = Ok a"
  shows "parseRow sql (Prefix_String (DN_Prefix (entry_DN e)), a) = Ok e"
proof -
  have "good_prefix (DN_Prefix (entry_DN e))"
    using storable [OF assms(1)] by (auto simp: good_prefix_def canonical_DN_def DN_Prefix_def reverse_slice_def list_all_iff)
  with storable [OF assms(1)] assms(2) show ?thesis
    by (simp add: parseRow_def ParsePrefix_String outcome_bind_def outcome_wrap_def)
qed

lemma row_entry:
  assumes "raw db s = Some a"
  obtains e where "parseRow sql (s, a) = Ok e" "s = Prefix_String (DN_Prefix (entry_DN e))" "psql_rows sql (raw db) s = Some e"
proof -
  obtain e where e: "storable e" "s = Prefix_String (DN_Prefix (entry_DN e))" "json_MarshalAttributes sql (entry_Attributes e) = Ok a"
    using written [OF assms] by blast
  have "parseRow sql (s, a) = Ok e" using stored_entry [OF e(1,3)] e(2) by simp
  with e(2) assms show ?thesis by (intro that) (simp_all add: psql_rows_def psql_entry_def)
qed

lemma marshal_pend:
  assumes "marshal_all sql es = Ok (dns, attrs)" "list_all storable es"
  shows "psql_pend sql (zip dns (map Some attrs)) = map (\<lambda>e. (Prefix_String (DN_Prefix (entry_DN e)), Some e)) es"
  using assms
proof (induction es arbitrary: dns attrs)
  case (Cons e es)
  obtain a dns' attrs' where a: "json_MarshalAttributes sql (entry_Attributes e) = Ok a"
    and rest: "marshal_all sql es = Ok (dns', attrs')" "dns = Prefix_String (DN_Prefix (entry_DN e)) # dns'" "attrs = a # attrs'"
    using Cons.prems(1) by (auto simp: outcome_bind_def outcome_wrap_def split: outcome.splits)
  with Cons.IH [OF rest(1)] Cons.prems(2) stored_entry [OF _ a] show ?case
    by (simp add: psql_pend_def psql_entry_def)
qed (simp add: psql_pend_def)

lemma parsed_rows:
  assumes "parseRows sql rs = Ok es" "set rs \<subseteq> {(s, a). raw db s = Some a}"
  shows "set es = {e. \<exists>s \<in> fst ` set rs. psql_rows sql (raw db) s = Some e}"
    and "map (\<lambda>e. Prefix_String (DN_Prefix (entry_DN e))) es = map fst rs"
proof -
  note all2 = parseRows_all2 [OF assms(1)]
  have row: "raw db (fst r) = Some (snd r)" if "r \<in> set rs" for r using assms(2) that by auto
  from all2 row have "set es = {e. \<exists>s \<in> fst ` set rs. psql_rows sql (raw db) s = Some e} \<and>
      map (\<lambda>e. Prefix_String (DN_Prefix (entry_DN e))) es = map fst rs"
  proof (induction rs es rule: list_all2_induct)
    case (Cons r rs e es)
    obtain s a where r: "r = (s, a)" by (cases r)
    have raw: "raw db s = Some a" using Cons.prems [of r] by (simp add: r)
    obtain e' where e': "parseRow sql (s, a) = Ok e'" "s = Prefix_String (DN_Prefix (entry_DN e'))" "psql_rows sql (raw db) s = Some e'"
      using row_entry [OF raw] by blast
    with Cons.hyps(1) have "e' = e" by (simp add: r)
    with e' Cons.IH Cons.prems show ?case by (auto simp: r)
  qed simp
  then show "set es = {e. \<exists>s \<in> fst ` set rs. psql_rows sql (raw db) s = Some e}"
    "map (\<lambda>e. Prefix_String (DN_Prefix (entry_DN e))) es = map fst rs" by simp_all
qed

lemma parseRows_Ok:
  "(\<And>row. row \<in> set rs \<Longrightarrow> raw db (fst row) = Some (snd row)) \<Longrightarrow> \<exists>es. parseRows sql rs = Ok es"
proof (induction rs)
  case (Cons row rs)
  have "raw db (fst row) = Some (snd row)" by (rule Cons.prems) simp
  then obtain e where "parseRow sql (fst row, snd row) = Ok e" by (rule row_entry)
  moreover obtain es where "parseRows sql rs = Ok es" using Cons.IH Cons.prems by auto
  ultimately show ?case by (cases row) (simp add: outcome_bind_def)
qed simp

lemma getPSQL_Ok:
  assumes "\<And>dns. \<exists>rs. q_get sql dns db = Ok rs"
  shows "\<exists>es. getPSQL sql keys db = Ok es"
proof -
  obtain rs where rs: "q_get sql (map Prefix_String keys) db = Ok rs" using assms by blast
  from get [OF this] have "\<exists>es. parseRows sql rs = Ok es" by (intro parseRows_Ok [of _ db]) auto
  with rs show ?thesis by (auto simp: getPSQL_def outcome_bind_def outcome_wrap_def)
qed

text \<open>So the table that the store uses has the database the cache relies on.\<close>

lemma psql_database:
  assumes "nm_fromString nm = PrefixFromString"
  shows "pg_database (PSQL_table sql pool nm retry) (\<lambda>db. psql_rows sql (raw db)) (\<lambda>tx. psql_pend sql (rawpend tx)) good_prefix storable"
proof (unfold_locales, goal_cases)
  case (1 ctx db tx)
  then show ?case using Begin by (simp add: PSQL_table_def psql_pend_def)
next
  case (2 es tx u tx')
  then obtain dns attrs where m: "marshal_all sql es = Ok (dns, attrs)" and x: "x_store sql dns attrs tx = (Ok u, tx')"
    by (auto simp: PSQL_table_def storePSQL_def go_bind_def lift_def go_wrap_def split: outcome.splits prod.splits)
  from marshal_pend [OF m 2(2)] store [OF x] show ?case
    by (simp add: PSQL_table_def Entry_Key_def psql_pend_def)
next
  case (3 keys tx u tx')
  then have "x_delete sql (map Prefix_String keys) tx = (Ok u, tx')"
    by (auto simp: PSQL_table_def deletePSQL_def go_wrap_def split: outcome.splits prod.splits)
  from delete [OF this] show ?case by (simp add: PSQL_table_def psql_pend_def)
next
  case (4 ctx tx db r db')
  then show ?case using Commit by (simp add: PSQL_table_def psql_rows_assign)
next
  case (5 ctx channel msg db r db')
  then show ?case using Notify by (simp add: PSQL_table_def)
next
  case (6 db s e)
  then obtain a where "raw db s = Some a" by (auto simp: psql_rows_def bind_eq_Some_conv)
  then obtain e' where e': "s = Prefix_String (DN_Prefix (entry_DN e'))" "psql_rows sql (raw db) s = Some e'"
    using row_entry by metis
  with 6 have "e' = e" by simp
  then show ?case by (simp add: PSQL_table_def Entry_Key_def e'(1))
next
  case (7 db es)
  then obtain rs where rs: "q_list sql db = Ok rs" "parseRows sql rs = Ok es"
    by (auto simp: PSQL_table_def listPSQL_def outcome_bind_def outcome_wrap_def split: outcome.splits)
  from parsed_rows(1) [OF rs(2), of db] list [OF rs(1)] show ?case
    by (force simp: ran_def psql_rows_def bind_eq_Some_conv)
next
  case (8 keys db es)
  then obtain rs where rs: "q_get sql (map Prefix_String keys) db = Ok rs" "parseRows sql rs = Ok es"
    by (auto simp: PSQL_table_def getPSQL_def outcome_bind_def outcome_wrap_def split: outcome.splits)
  note get = get [OF rs(1)]
  have "inj_on fst (set rs)" using get by (auto simp: inj_on_def)
  with get have "distinct (map fst rs)" by (simp add: distinct_map)
  have "set rs \<subseteq> {(s, a). raw db s = Some a}" using get by blast
  note parsed = parsed_rows [OF rs(2) this]
  from \<open>distinct (map fst rs)\<close> have "distinct es" unfolding parsed(2) [symmetric] by (simp only: distinct_map)
  moreover have "fst ` {(s, a). s \<in> X \<and> raw db s = Some a} = {s \<in> X. raw db s \<noteq> None}" for X by force
  with get have "fst ` set rs = {s \<in> Prefix_String ` set keys. raw db s \<noteq> None}" by simp
  ultimately show ?case
    unfolding parsed(1) by (auto simp: PSQL_table_def psql_rows_def bind_eq_Some_conv)
next
  case (9 key)
  then show ?case using assms ParsePrefix_String by (simp add: PSQL_table_def PrefixFromString_def)
qed

end

end
