(* ===== verification/Psql_Example.thy ===== *)
theory Psql_Example
  imports Bottin_Psql
begin

text \<open>
  A small database to evaluate the table cache on: its table is a list of names (entries without
  attributes), a transaction the list of its statements. And what the cache does when the commit
  fails, or when a replica is early.
\<close>

definition plain_entry :: "DN \<Rightarrow> Entry" where
  "plain_entry dn = \<lparr>entry_DN = dn, entry_Attributes = []\<rparr>"

definition text_of :: "DN \<Rightarrow> string" where
  "text_of dn = Prefix_String (DN_Prefix dn)"

definition ex_good :: "DN \<Rightarrow> bool" where
  "ex_good dn \<longleftrightarrow> canonical_DN dn \<and> plain_DN dn"

definition ex_storable :: "Entry \<Rightarrow> bool" where
  "ex_storable e \<longleftrightarrow> ex_good (entry_DN e) \<and> entry_Attributes e = []"

datatype statement = Insert DN | Erase string

fun ex_run :: "statement \<Rightarrow> DN list \<Rightarrow> DN list" where
  "ex_run (Insert dn) db = (if ex_good dn then dn # db else filter (\<lambda>d. text_of d \<noteq> text_of dn) db)"
| "ex_run (Erase s) db = filter (\<lambda>d. text_of d \<noteq> s) db"

fun ex_assign :: "statement \<Rightarrow> string assignment" where
  "ex_assign (Insert dn) = (text_of dn, if ex_good dn then Some ''{}'' else None)"
| "ex_assign (Erase s) = (s, None)"

definition ex_raw :: "DN list \<Rightarrow> string \<rightharpoonup> string" where
  "ex_raw db s = (if \<exists>dn \<in> set db. ex_good dn \<and> text_of dn = s then Some ''{}'' else None)"

definition ex_names :: "string list \<Rightarrow> DN list" where
  "ex_names ss = List.map_filter (\<lambda>s. case ParsePrefix s of Ok p \<Rightarrow> Some (Prefix_DN p) | _ \<Rightarrow> None) ss"

definition ex_sql :: "(DN list, statement list) Sql" where
  "ex_sql =
     \<lparr>q_list = (\<lambda>db. Ok (map (\<lambda>dn. (text_of dn, ''{}'')) (filter ex_good db))),
      q_get = (\<lambda>dns db. Ok (filter (\<lambda>r. fst r \<in> set dns) (remdups (map (\<lambda>dn. (text_of dn, ''{}'')) (filter ex_good db))))),
      x_store = (\<lambda>dns attrs tx.
        if map text_of (ex_names dns) = dns \<and> list_all ex_good (ex_names dns) \<and> attrs = replicate (length dns) ''{}''
        then (Ok (), tx @ map Insert (ex_names dns)) else (Err (PlainError ''refused''), tx)),
      x_delete = (\<lambda>dns tx. (Ok (), tx @ map Erase dns)),
      json_MarshalAttributes = (\<lambda>as. if as = [] then Ok ''{}'' else Err (PlainError ''refused'')),
      json_UnmarshalAttributes = (\<lambda>s. if s = ''{}'' then Ok [] else Err (PlainError ''refused''))\<rparr>"

text \<open>A pool whose commits succeed or not.\<close>

definition ex_pool :: "bool \<Rightarrow> (Context, DN list, statement list) Pool" where
  "ex_pool up =
     \<lparr>pool_Ping = (\<lambda>_ _. Ok ()), pool_Begin = (\<lambda>_ _. Ok []),
      pool_Commit = (\<lambda>_ tx db. if up then (Ok (), fold ex_run tx db) else (Err (PlainError ''connection lost''), db)),
      pool_Notify = (\<lambda>_ _ _ db. (Ok (), db))\<rparr>"

lemma text_of_inj: "ex_good dn \<Longrightarrow> ex_good dn' \<Longrightarrow> text_of dn = text_of dn' \<longleftrightarrow> dn = dn'"
  using good_key_inj [of dn dn'] by (simp add: ex_good_def good_DN_def canonical_DN_def text_of_def)

lemma ex_raw_run: "ex_raw (ex_run st db) = (ex_raw db)(fst (ex_assign st) := snd (ex_assign st))"
proof (cases st)
  case (Insert dn)
  then show ?thesis by (auto simp: ex_raw_def fun_eq_iff)
next
  case (Erase s)
  then show ?thesis by (auto simp: ex_raw_def fun_eq_iff)
qed

lemma ex_raw_fold: "ex_raw (fold ex_run tx db) = assign_all (map ex_assign tx) (ex_raw db)"
  by (induction tx arbitrary: db) (simp_all add: ex_raw_run del: fun_upd_apply)

lemma ex_database: "psql_server ex_sql (ex_pool up) ex_raw (map ex_assign) ex_storable"
proof (unfold_locales, goal_cases)
  case (2 dns attrs tx u tx')
  then have dns: "map text_of (ex_names dns) = dns" "list_all ex_good (ex_names dns)" "attrs = replicate (length dns) ''{}''"
    and tx': "tx' = tx @ map Insert (ex_names dns)" by (simp_all add: ex_sql_def split: if_splits)
  have "map (ex_assign \<circ> Insert) (ex_names dns) = map (\<lambda>s. (s, Some ''{}'')) (map text_of (ex_names dns))"
    using dns(2) by (simp add: list_all_iff)
  moreover have "zip dns (map Some attrs) = map (\<lambda>s. (s, Some ''{}'')) dns"
    unfolding dns(3) by (induction dns) simp_all
  ultimately show ?case unfolding tx' using dns(1) by simp
next
  case (4 ctx tx db r db')
  then show ?case by (auto simp: ex_pool_def ex_raw_fold split: if_splits)
next
  case (6 db rs)
  then show ?case by (auto simp: ex_sql_def ex_raw_def split: if_splits)
next
  case (7 dns db rs)
  then show ?case by (auto simp: ex_sql_def ex_raw_def split: if_splits)
next
  case (9 db s a)
  then obtain dn where "ex_good dn" "text_of dn = s" "a = ''{}''" by (auto simp: ex_raw_def split: if_splits)
  then show ?case by (intro exI [of _ "plain_entry dn"]) (auto simp: plain_entry_def ex_storable_def text_of_def ex_sql_def)
qed (auto simp: ex_pool_def ex_sql_def ex_storable_def ex_good_def)

interpretation ex_up: psql_server ex_sql "ex_pool True" ex_raw "map ex_assign" ex_storable
  by (rule ex_database)

text \<open>A JSON package that knows one payload, and the table of a process with a name.\<close>

definition ex_nm :: "payload \<Rightarrow> string \<Rightarrow> Prefix notificationManager" where
  "ex_nm p name = \<lparr>nm_id = name, nm_channel = ''teapot_invalidate_entries'', nm_fromString = PrefixFromString,
     nm_json = \<lparr>json_Marshal = (\<lambda>q. if q = p then Ok ''payload'' else Err (PlainError ''refused'')),
                json_Unmarshal = (\<lambda>s. if s = ''payload'' then Ok p else Err (PlainError ''refused''))\<rparr>\<rparr>"

definition ex_table :: "bool \<Rightarrow> payload \<Rightarrow> string \<Rightarrow> (DN list, statement list) PSQL" where
  "ex_table up p name = PSQL_table ex_sql (ex_pool up) (ex_nm p name) (\<lambda>f. f 0)"

interpretation ex_pg: pg_database "ex_table True p name" "\<lambda>db. psql_rows ex_sql (ex_raw db)"
    "\<lambda>tx. psql_pend ex_sql (map ex_assign tx)" good_prefix ex_storable
  unfolding ex_table_def by (rule ex_up.psql_database) (simp add: ex_nm_def)

lemma ex_tree: "google_btree Prefix_Less (list_btree Prefix_Less)"
  by (rule list_btree_google, rule weak_order_key [where key = Prefix_String]) (simp add: Prefix_Less_def strings_Less_def)

interpretation ex_store: psql_store "list_btree Prefix_Less" "ex_table up p name"
  unfolding ex_table_def by (rule PSQL_table_store [OF ex_tree])

section \<open>Commits that fail, replicas that are early\<close>

definition ex_base :: DN where
  "ex_base = [\<lparr>comp_Type = ''dc'', comp_Value = ''t''\<rparr>]"

definition ex_user :: DN where
  "ex_user = \<lparr>comp_Type = ''uid'', comp_Value = ''a''\<rparr> # ex_base"

definition ex_state :: "DN list \<Rightarrow> (Prefix list, Entry) TableState" where
  "ex_state db = store_objects (ex_table True \<lparr>pl_ID = [], pl_KeyMap = []\<rparr> []) (list_btree Prefix_Less) (map plain_entry db)
     (NewTable_state (list_btree Prefix_Less))"

lemma ex_state_wf:
  assumes "list_all ex_good db"
  shows "psql_wf (list_btree Prefix_Less) (ex_state db, x)"
proof -
  let ?T = "ex_table True \<lparr>pl_ID = [], pl_KeyMap = []\<rparr> []" and ?bt = "list_btree Prefix_Less"
  have "psql_wf ?bt (fold (\<lambda>object. Table_store ?T ?bt (t_Key ?T object) object) (map plain_entry db) ts, x)"
    if "psql_wf ?bt (ts, x)" for ts
    using assms that
  proof (induction db arbitrary: ts)
    case (Cons dn db)
    have "good_DN (entry_DN (plain_entry dn))"
      using Cons.prems(1) by (simp add: plain_entry_def ex_good_def good_DN_def canonical_DN_def)
    from ex_store.store_step [OF Cons.prems(2) this] Cons show ?case by (simp add: ex_store.keys)
  qed simp
  moreover have "psql_wf ?bt (NewTable_state ?bt, x)"
    using ex_store.sm_inv_New by (simp add: psql_wf_def NewTable_state_def)
  ultimately show ?thesis unfolding ex_state_def store_objects_def by blast
qed

lemma ex_state_rows:
  assumes "list_all ex_good db"
  shows "cached (ex_state db) = psql_rows ex_sql (ex_raw db)"
proof
  fix s
  let ?as = "map (\<lambda>e. (text_of (entry_DN e), Some e)) (map plain_entry db)"
  have row: "psql_rows ex_sql (ex_raw db) (text_of dn) = Some (plain_entry dn)" if "dn \<in> set db" for dn
  proof -
    have dn: "ex_good dn" using assms that by (simp add: list_all_iff)
    then have "parseRow ex_sql (text_of dn, ''{}'') = Ok (plain_entry dn)"
      using ex_up.stored_entry [of "plain_entry dn" "''{}''"]
      by (simp add: ex_storable_def plain_entry_def text_of_def ex_sql_def)
    with dn that show ?thesis by (auto simp: psql_rows_def psql_entry_def ex_raw_def)
  qed
  have "cached (ex_state db) s = assign_all ?as Map.empty s"
    by (simp add: ex_state_def store_objects_cached ex_table_def PSQL_table_def NewTable_state_def comp_def plain_entry_def Entry_Key_def text_of_def)
  also have "\<dots> = (if s \<in> fst ` set ?as then psql_rows ex_sql (ex_raw db) s else None)"
    by (rule assign_all_consistent) (auto simp: row plain_entry_def [THEN arg_cong, of entry_DN, simplified])
  also have "\<dots> = psql_rows ex_sql (ex_raw db) s"
    by (auto simp: psql_rows_def ex_raw_def plain_entry_def image_image)
  finally show "cached (ex_state db) s = psql_rows ex_sql (ex_raw db) s" .
qed

definition ex_deletion :: "(Prefix, Entry, statement list) TableTx" where
  "ex_deletion = \<lparr>ttx_tx = [Erase (text_of ex_user)],
     ttx_updates = [\<lparr>upd_store = None, upd_delete = Some (DN_Prefix ex_user)\<rparr>], ttx_committed = False\<rparr>"

definition ex_insertion :: "(Prefix, Entry, statement list) TableTx" where
  "ex_insertion = \<lparr>ttx_tx = [Insert ex_user],
     ttx_updates = [\<lparr>upd_store = Some (plain_entry ex_user), upd_delete = None\<rparr>], ttx_committed = False\<rparr>"

definition ex_payload :: "EvenType \<Rightarrow> payload" where
  "ex_payload t = \<lparr>pl_ID = ''a'', pl_KeyMap = [(text_of ex_user, t)]\<rparr>"

text \<open>
  The notification is sent before the database commits. If the commit then fails, a replica has
  dropped an entry that is still in the table; if the replica is faster than the commit, it does not
  find the new entry, and its \<^verbatim>\<open>Run\<close> ends with an error.
\<close>

definition ex_replica :: "EvenType \<Rightarrow> DN list \<Rightarrow> unit outcome \<times> (Prefix list, Entry) TableState" where
  "ex_replica t db = Table_loop (ex_table True (ex_payload t) ''b'') (list_btree Prefix_Less) True
     [(Ok (''teapot_invalidate_entries'', ''payload''), \<lambda>_. db), (Err (PlainError ''closed''), \<lambda>_. db)] (ex_state db)"

lemma failed_commit_deletes:
  "fst (TableTx_Commit (ex_table False (ex_payload EventTypeDelete) ''a'') (list_btree Prefix_Less) context_Background
      ((ex_state [ex_base, ex_user], [ex_base, ex_user]), ex_deletion)) =
    Err (Wrapped ''error while committing'' (PlainError ''connection lost''))"
  "cached (snd (ex_replica EventTypeDelete [ex_base, ex_user])) (text_of ex_user) = None"
  "ex_raw [ex_base, ex_user] (text_of ex_user) \<noteq> None"
  by code_simp+

lemma early_replica_stops:
  "(case fst (ex_replica EventTypeStore [ex_base]) of Err _ \<Rightarrow> True | _ \<Rightarrow> False)"
  by code_simp

text \<open>The gauge of objects counts new objects and is never lowered.\<close>

lemma gauge_not_lowered:
  "ts_objectsTotal (Table_delete (ex_table True (ex_payload 0) []) (list_btree Prefix_Less) (DN_Prefix ex_user) (ex_state [ex_base, ex_user])) = 2"
  by code_simp

end
