(* ===== verification/Path_Match.thy ===== *)
theory Path_Match
  imports Main
begin

text \<open>
  \<^verbatim>\<open>path.Match\<close> of the Go library, which the access rules use: shell patterns with \<^verbatim>\<open>*\<close>, \<^verbatim>\<open>?\<close>,
  character classes and escapes, where neither \<^verbatim>\<open>*\<close> nor \<^verbatim>\<open>?\<close> matches a slash. It is followed function by
  function; characters are bytes, so a \<^verbatim>\<open>?\<close> or a class stands for one byte and not for a
  multi-byte rune. The value \<open>None\<close> is \<^verbatim>\<open>ErrBadPattern\<close>.
\<close>

section \<open>The matcher\<close>

text \<open>\<^verbatim>\<open>scanChunk\<close>: the leading stars, the text up to the next star outside a class, the rest.\<close>

function scanBody :: "bool \<Rightarrow> string \<Rightarrow> string \<times> string" where
  "scanBody inrange [] = ([], [])"
| "scanBody inrange (c # cs) =
     (if c = CHR 0x5C then
        (case cs of [] \<Rightarrow> ([c], [])
         | d # ds \<Rightarrow> let (chunk, rest) = scanBody inrange ds in (c # d # chunk, rest))
      else if c = CHR ''*'' \<and> \<not> inrange then ([], c # cs)
      else let inrange' = (if c = CHR ''['' then True else if c = CHR '']'' then False else inrange);
               (chunk, rest) = scanBody inrange' cs in (c # chunk, rest))"
  by pat_completeness auto
termination by (relation "measure (\<lambda>(_, s). length s)") auto

definition is_star :: "char \<Rightarrow> bool" where
  "is_star c \<longleftrightarrow> c = CHR ''*''"

definition scanChunk :: "string \<Rightarrow> bool \<times> string \<times> string" where
  "scanChunk pattern =
     (let (chunk, rest) = scanBody False (dropWhile is_star pattern) in
      (pattern \<noteq> [] \<and> is_star (hd pattern), chunk, rest))"

text \<open>\<^verbatim>\<open>getEsc\<close>: one character of a class, which must not be the last of the chunk.\<close>

definition getEsc :: "string \<Rightarrow> (char \<times> string) option" where
  "getEsc chunk = (case chunk of
      [] \<Rightarrow> None
    | c # cs \<Rightarrow>
        if c = CHR ''-'' \<or> c = CHR '']'' then None
        else if c = CHR 0x5C then (case cs of d # ds \<Rightarrow> if ds = [] then None else Some (d, ds) | [] \<Rightarrow> None)
        else if cs = [] then None else Some (c, cs))"

lemma getEsc_length: "getEsc chunk = Some (c, rest) \<Longrightarrow> length rest < length chunk \<and> rest \<noteq> []"
  by (auto simp: getEsc_def split: list.splits if_splits)

text \<open>The ranges of a class, up to its bracket: whether \<open>r\<close> is in one of them, and the text after.\<close>

function classRanges :: "char \<Rightarrow> bool \<Rightarrow> bool \<Rightarrow> string \<Rightarrow> (bool \<times> string) option" where
  "classRanges r matched nonempty chunk =
     (if chunk \<noteq> [] \<and> hd chunk = CHR '']'' \<and> nonempty then Some (matched, tl chunk)
      else case getEsc chunk of
          None \<Rightarrow> None
        | Some (lo, chunk1) \<Rightarrow>
            if hd chunk1 = CHR ''-'' then
              (case getEsc (tl chunk1) of
                 None \<Rightarrow> None
               | Some (hi, chunk2) \<Rightarrow>
                   classRanges r (matched \<or> of_char lo \<le> (of_char r :: nat) \<and> of_char r \<le> (of_char hi :: nat)) True chunk2)
            else classRanges r (matched \<or> lo = r) True chunk1)"
  by pat_completeness auto
termination
proof (relation "measure (\<lambda>(_, _, _, s). length s)", goal_cases)
  case (2 r matched nonempty chunk p lo chunk1 q hi chunk2)
  then have "length chunk1 < length chunk" "length chunk2 < length (tl chunk1)"
    using getEsc_length by metis+
  then show ?case by (cases chunk1) simp_all
next
  case (3 r matched nonempty chunk p lo chunk1)
  then show ?case using getEsc_length [of chunk lo chunk1] by simp
qed simp

declare classRanges.simps [simp del]

lemma classRanges_length: "classRanges r m n chunk = Some (b, rest) \<Longrightarrow> length rest \<le> length chunk"
proof (induction r m n chunk rule: classRanges.induct)
  case (1 r m n chunk)
  show ?case
  proof (cases "chunk \<noteq> [] \<and> hd chunk = CHR '']'' \<and> n")
    case True
    with "1.prems" show ?thesis by (subst (asm) classRanges.simps) auto
  next
    case False
    with "1.prems" obtain lo chunk1 where e: "getEsc chunk = Some (lo, chunk1)"
      by (subst (asm) classRanges.simps) (auto split: option.splits)
    note len = getEsc_length [OF e]
    show ?thesis
    proof (cases "hd chunk1 = CHR ''-''")
      case True
      with False e "1.prems" obtain hi chunk2 where e2: "getEsc (tl chunk1) = Some (hi, chunk2)"
        and "classRanges r (m \<or> of_char lo \<le> (of_char r :: nat) \<and> of_char r \<le> (of_char hi :: nat)) True chunk2 = Some (b, rest)"
        by (subst (asm) classRanges.simps) (auto split: option.splits)
      then show ?thesis
        using "1.IH"(1) [OF False e refl True e2 refl] len getEsc_length [OF e2] by (cases chunk1) simp_all
    next
      case no: False
      with False e "1.prems" have "classRanges r (m \<or> lo = r) True chunk1 = Some (b, rest)"
        by (subst (asm) classRanges.simps) auto
      then show ?thesis using "1.IH"(2) [OF False e _ no] len by simp
    qed
  qed
qed

text \<open>
  \<^verbatim>\<open>matchChunk\<close>: the rest of the name after a match. Once the match has failed the chunk is only
  checked for well-formedness.
\<close>

function matchChunk :: "bool \<Rightarrow> string \<Rightarrow> string \<Rightarrow> string option option" where
  "matchChunk failed [] s = Some (if failed then None else Some s)"
| "matchChunk failed (c # cs) s =
     (let failed = failed \<or> s = [] in
      if c = CHR ''['' then
        (let r = (if failed then CHR 0x00 else hd s);
             s' = (if failed then s else tl s);
             negated = (cs \<noteq> [] \<and> hd cs = CHR ''^'');
             cs' = (if negated then tl cs else cs) in
         case classRanges r False False cs' of
           None \<Rightarrow> None
         | Some (matched, rest) \<Rightarrow> matchChunk (failed \<or> matched = negated) rest s')
      else if c = CHR ''?'' then
        (if failed then matchChunk True cs s else matchChunk (hd s = CHR ''/'') cs (tl s))
      else if c = CHR 0x5C then
        (case cs of [] \<Rightarrow> None
         | d # ds \<Rightarrow> if failed then matchChunk True ds s else matchChunk (d \<noteq> hd s) ds (tl s))
      else (if failed then matchChunk True cs s else matchChunk (c \<noteq> hd s) cs (tl s)))"
  by pat_completeness auto
termination
proof (relation "measure (\<lambda>(_, p, _). length p)", goal_cases)
  case (2 failed c cs s failed' r s' negated cs' p matched rest)
  then have "length rest \<le> length cs'" using classRanges_length by blast
  moreover have "length cs' \<le> length cs" using 2 by simp
  ultimately show ?case by simp
qed auto

text \<open>\<^verbatim>\<open>Match\<close>: the loop over the chunks, the search behind a star, the check of what is left.\<close>

fun starLoop :: "string \<Rightarrow> bool \<Rightarrow> string \<Rightarrow> string option option" where
  "starLoop chunk lastp [] = Some None"
| "starLoop chunk lastp (n # ns) =
     (if n = CHR ''/'' then Some None
      else case matchChunk False chunk ns of
          None \<Rightarrow> None
        | Some (Some t) \<Rightarrow> if lastp \<and> t \<noteq> [] then starLoop chunk lastp ns else Some (Some t)
        | Some None \<Rightarrow> starLoop chunk lastp ns)"

lemma scanBody_rest: "scanBody b p = (chunk, rest) \<Longrightarrow> p = chunk @ rest"
proof (induction b p arbitrary: chunk rest rule: scanBody.induct)
  case (2 b c cs)
  show ?case
  proof (cases "c = CHR 0x5C")
    case True
    with 2 show ?thesis by (cases cs) (auto split: prod.splits)
  next
    case False
    with 2 show ?thesis by (auto simp: Let_def split: prod.splits if_splits)
  qed
qed simp

lemma scanBody_progress:
  assumes "p \<noteq> []" "\<not> is_star (hd p)"
  shows "length (snd (scanBody b p)) < length p"
proof -
  obtain c cs where p: "p = c # cs" using assms(1) by (cases p) auto
  obtain chunk rest where s: "scanBody b p = (chunk, rest)" by (cases "scanBody b p")
  have "fst (scanBody b (c # cs)) \<noteq> []"
  proof (cases "c = CHR 0x5C")
    case True
    then show ?thesis by (cases cs) (simp_all add: split_beta Let_def)
  next
    case False
    then show ?thesis using assms(2) p by (simp add: split_beta Let_def is_star_def)
  qed
  with scanBody_rest [OF s] p s show ?thesis by simp
qed

lemma scanChunk_length: "pattern \<noteq> [] \<Longrightarrow> scanChunk pattern = (star, chunk, rest) \<Longrightarrow> length rest < length pattern"
proof -
  assume a: "pattern \<noteq> []" "scanChunk pattern = (star, chunk, rest)"
  let ?p = "dropWhile is_star pattern"
  have s: "scanBody False ?p = (chunk, rest)" using a(2) by (auto simp: scanChunk_def Let_def split: prod.splits)
  have le: "length ?p \<le> length pattern" by (rule length_dropWhile_le)
  show ?thesis
  proof (cases "?p = []")
    case True
    with s a(1) show ?thesis by simp
  next
    case False
    then have "length (snd (scanBody False ?p)) < length ?p"
      using hd_dropWhile [OF False] by (intro scanBody_progress) simp_all
    with s le show ?thesis by simp
  qed
qed

function validRest :: "string \<Rightarrow> bool option" where
  "validRest pattern =
     (if pattern = [] then Some False
      else let (star, chunk, rest) = scanChunk pattern in
        case matchChunk False chunk [] of None \<Rightarrow> None | Some r \<Rightarrow> validRest rest)"
  by pat_completeness auto
termination by (relation "measure length") (auto dest: scanChunk_length [OF _ sym])

function path_Match :: "string \<Rightarrow> string \<Rightarrow> bool option" where
  "path_Match pattern name =
     (if pattern = [] then Some (name = [])
      else let (star, chunk, rest) = scanChunk pattern in
        if star \<and> chunk = [] then Some (CHR ''/'' \<notin> set name)
        else case matchChunk False chunk name of
            None \<Rightarrow> None
          | Some m \<Rightarrow>
              (case (if m \<noteq> None \<and> (m = Some [] \<or> rest \<noteq> []) then Some m
                     else if star then starLoop chunk (rest = []) name else Some None) of
                 None \<Rightarrow> None
               | Some (Some t) \<Rightarrow> path_Match rest t
               | Some None \<Rightarrow> validRest rest))"
  by pat_completeness auto
termination by (relation "measure (\<lambda>(p, _). length p)") (auto dest: scanChunk_length [OF _ sym])

declare validRest.simps [simp del] path_Match.simps [simp del]

section \<open>Patterns without special characters\<close>

definition literal_char :: "char \<Rightarrow> bool" where
  "literal_char c \<longleftrightarrow> c \<notin> {CHR ''*'', CHR ''?'', CHR ''['', CHR 0x5C}"

lemma scanBody_literal: "list_all literal_char p \<Longrightarrow> scanBody b p = (p, [])"
  by (induction b p rule: scanBody.induct) (auto simp: literal_char_def Let_def)

lemma matchChunk_failed: "list_all literal_char p \<Longrightarrow> matchChunk True p s = Some None"
  by (induction p arbitrary: s) (auto simp: literal_char_def Let_def)

lemma matchChunk_literal:
  "list_all literal_char p \<Longrightarrow>
   matchChunk False p s = Some (if take (length p) s = p then Some (drop (length p) s) else None)"
proof (induction p arbitrary: s)
  case (Cons c p)
  have c: "c \<noteq> CHR ''*''" "c \<noteq> CHR ''?''" "c \<noteq> CHR ''[''" "c \<noteq> CHR 0x5C" and p: "list_all literal_char p"
    using Cons.prems unfolding literal_char_def by simp_all
  show ?case
    using c matchChunk_failed [OF p] Cons.IH [OF p] by (cases s; cases "c = hd s") (simp_all add: Let_def)
qed simp

lemma path_Match_Nil: "path_Match [] name = Some (name = [])"
  by (simp add: path_Match.simps)

text \<open>A pattern without special characters matches itself and nothing else.\<close>

lemma path_Match_literal:
  assumes "list_all literal_char p"
  shows "path_Match p name = Some (p = name)"
proof (cases "p = []")
  case False
  then have h: "\<not> is_star (hd p)" using assms by (cases p) (auto simp: literal_char_def is_star_def)
  with False have "dropWhile is_star p = p" by (cases p) auto
  with h assms have sc: "scanChunk p = (False, p, [])"
    by (simp add: scanChunk_def scanBody_literal)
  show ?thesis
  proof (cases "name = p")
    case True
    with False sc matchChunk_literal [OF assms, of name] show ?thesis
      by (subst path_Match.simps) (simp add: path_Match_Nil)
  next
    case ne: False
    then have "take (length p) name \<noteq> p \<or> drop (length p) name \<noteq> []"
      by (metis append_Nil2 append_take_drop_id)
    with False ne sc matchChunk_literal [OF assms, of name] show ?thesis
      by (subst path_Match.simps) (auto simp: validRest.simps)
  qed
qed (auto simp: path_Match_Nil)

text \<open>A single star matches every name without a slash.\<close>

lemma path_Match_star: "path_Match ''*'' name = Some (CHR ''/'' \<notin> set name)"
  by (subst path_Match.simps) (simp add: scanChunk_def is_star_def)

end
