(* ===== verification/Bottin_ACL.thy ===== *)
theory Bottin_ACL
  imports Bottin_Types Path_Match
begin

text \<open>
  The access rules of the directory, \<^verbatim>\<open>service/bottin/acl.go\<close>: the parser of the configured rules and
  the check of an action against them.
\<close>

section \<open>acl.go\<close>

record ACLEntry =
  acl_User :: string
  acl_RequiredGroups :: "string list"
  acl_Actions :: "string list"
  acl_Target :: string
  acl_Attributes :: "AttributeKey list"
  acl_ExcludedAttributes :: "AttributeKey list"

type_synonym ACL = "ACLEntry list"

definition ErrInvalidACLParts :: goerr where
  "ErrInvalidACLParts = PlainError ''invalid number of ACL parts''"

definition splitNoEmpty :: "string \<Rightarrow> string list" where
  "splitNoEmpty s = filter (\<lambda>w. w \<noteq> []) (strings_Split s (CHR '' ''))"

definition acl_attr :: "string list \<Rightarrow> AttributeKey list" where
  "acl_attr ws = map NewAttributeKey (filter (\<lambda>s. hd s \<noteq> CHR ''!'') ws)"

definition acl_exclAttr :: "string list \<Rightarrow> AttributeKey list" where
  "acl_exclAttr ws = map (\<lambda>s. NewAttributeKey (tl s)) (filter (\<lambda>s. hd s = CHR ''!'') ws)"

definition parseACLEntry :: "string \<Rightarrow> ACLEntry outcome" where
  "parseACLEntry item = (case strings_Split item (CHR '':'') of
      [user, groups, actions, target, attributes] \<Rightarrow>
        Ok \<lparr>acl_User = user, acl_RequiredGroups = splitNoEmpty groups, acl_Actions = splitNoEmpty actions,
            acl_Target = target, acl_Attributes = acl_attr (splitNoEmpty attributes),
            acl_ExcludedAttributes = acl_exclAttr (splitNoEmpty attributes)\<rparr>
    | _ \<Rightarrow> Err (Wrapped ''could not parse ACL'' ErrInvalidACLParts))"

fun parseACL :: "string list \<Rightarrow> ACL outcome" where
  "parseACL [] = Ok []"
| "parseACL (item # items) =
     outcome_bind (parseACLEntry item) (\<lambda>entry. outcome_bind (parseACL items) (\<lambda>acl. Ok (entry # acl)))"

record User =
  usr_user :: string
  usr_groups :: "string list"

definition match :: "string \<Rightarrow> string \<Rightarrow> bool" where
  "match pattern val \<longleftrightarrow> path_Match (strings_ToLower pattern) (strings_ToLower val) = Some True"

fun matchAny :: "string \<Rightarrow> string list \<Rightarrow> bool" where
  "matchAny pattern [] \<longleftrightarrow> False"
| "matchAny pattern (val # vals) \<longleftrightarrow> (if match pattern val then True else matchAny pattern vals)"

fun anyMatch :: "string list \<Rightarrow> string \<Rightarrow> bool" where
  "anyMatch [] val \<longleftrightarrow> False"
| "anyMatch (pattern # patterns) val \<longleftrightarrow> (if match pattern val then True else anyMatch patterns val)"

definition attrstostrs :: "AttributeKey list \<Rightarrow> string list" where
  "attrstostrs attrs = attrs"

text \<open>The target, or the target with the user's name at its end replaced by \<^verbatim>\<open>SELF\<close>.\<close>

definition matchTarget :: "string \<Rightarrow> string \<Rightarrow> string \<Rightarrow> bool" where
  "matchTarget pattern user target \<longleftrightarrow>
     (if match pattern target then True
      else if length user \<le> length target then
        (let start = length target - length user in
         if drop start target = user then match pattern (take start target @ ''SELF'') else False)
      else False)"

fun ACLEntry_Check :: "ACLEntry \<Rightarrow> User \<Rightarrow> string \<Rightarrow> string \<Rightarrow> AttributeKey list \<Rightarrow> bool" where
  "ACLEntry_Check entry login action target attributes \<longleftrightarrow>
     (if \<not> match (acl_User entry) (usr_user login) then False
      else if \<not> list_all (\<lambda>grp. matchAny grp (usr_groups login)) (acl_RequiredGroups entry) then False
      else if \<not> matchTarget (acl_Target entry) (usr_user login) target then False
      else if \<not> anyMatch (acl_Actions entry) action then False
      else if \<not> list_all (\<lambda>attrib. anyMatch (attrstostrs (acl_Attributes entry)) attrib) attributes then False
      else if list_ex (\<lambda>exclAttr. matchAny exclAttr (attrstostrs attributes)) (acl_ExcludedAttributes entry) then False
      else True)"

fun acl_check :: "ACL \<Rightarrow> User \<Rightarrow> string \<Rightarrow> string \<Rightarrow> AttributeKey list \<Rightarrow> bool" where
  "acl_check [] login action tgt attributes \<longleftrightarrow> False"
| "acl_check (item # acl) login action tgt attributes \<longleftrightarrow>
     (if ACLEntry_Check item login action tgt attributes then True else acl_check acl login action tgt attributes)"

definition ACL_Check :: "ACL \<Rightarrow> User \<Rightarrow> string \<Rightarrow> DN \<Rightarrow> AttributeKey list \<Rightarrow> bool" where
  "ACL_Check acl login action target attributes \<longleftrightarrow> acl_check acl login action (DN_String target) attributes"

section \<open>What the rules mean\<close>

lemma matchAny_iff: "matchAny p vals \<longleftrightarrow> (\<exists>v \<in> set vals. match p v)"
  by (induction vals) auto

lemma anyMatch_iff: "anyMatch ps v \<longleftrightarrow> (\<exists>p \<in> set ps. match p v)"
  by (induction ps) auto

lemma matchTarget_iff:
  "matchTarget p user target \<longleftrightarrow>
   match p target \<or> (\<exists>pre. target = pre @ user \<and> match p (pre @ ''SELF''))"
proof -
  have "(\<exists>pre. target = pre @ user \<and> match p (pre @ ''SELF'')) \<longleftrightarrow>
      length user \<le> length target \<and> drop (length target - length user) target = user \<and>
      match p (take (length target - length user) target @ ''SELF'')"
    (is "?L \<longleftrightarrow> ?R")
  proof
    assume ?R
    then show ?L by (metis append_take_drop_id)
  qed auto
  then show ?thesis by (auto simp: matchTarget_def Let_def)
qed

lemma acl_check_iff: "acl_check acl u a t as \<longleftrightarrow> (\<exists>item \<in> set acl. ACLEntry_Check item u a t as)"
  by (induction acl) auto

lemma match_literal:
  "list_all literal_char (strings_ToLower p) \<Longrightarrow> match p v \<longleftrightarrow> strings_EqualFold p v"
  by (simp add: match_def path_Match_literal strings_EqualFold_def)

text \<open>What one rule permits.\<close>

definition rule_permits :: "ACLEntry \<Rightarrow> User \<Rightarrow> string \<Rightarrow> DN \<Rightarrow> AttributeKey list \<Rightarrow> bool" where
  "rule_permits rule login action target attributes \<longleftrightarrow>
     match (acl_User rule) (usr_user login) \<and>
     (\<forall>g \<in> set (acl_RequiredGroups rule). \<exists>mine \<in> set (usr_groups login). match g mine) \<and>
     (match (acl_Target rule) (DN_String target) \<or>
      (\<exists>pre. DN_String target = pre @ usr_user login \<and> match (acl_Target rule) (pre @ ''SELF''))) \<and>
     (\<exists>a \<in> set (acl_Actions rule). match a action) \<and>
     (\<forall>k \<in> set attributes. \<exists>p \<in> set (acl_Attributes rule). match p k) \<and>
     (\<forall>p \<in> set (acl_ExcludedAttributes rule). \<forall>k \<in> set attributes. \<not> match p k)"

lemma ACLEntry_Check_iff:
  "ACLEntry_Check rule login action (DN_String target) attributes \<longleftrightarrow> rule_permits rule login action target attributes"
  by (auto simp: rule_permits_def matchAny_iff anyMatch_iff matchTarget_iff attrstostrs_def list_all_iff list_ex_iff
      simp del: matchAny.simps anyMatch.simps)

lemma ACL_Check_iff:
  "ACL_Check acl login action target attributes \<longleftrightarrow> (\<exists>rule \<in> set acl. rule_permits rule login action target attributes)"
  by (simp add: ACL_Check_def acl_check_iff ACLEntry_Check_iff del: ACLEntry_Check.simps)

text \<open>Permission for some attributes is permission for fewer, and more rules permit more.\<close>

lemma ACL_Check_mono:
  assumes "ACL_Check acl login action target attributes" "set acl \<subseteq> set acl'" "set attributes' \<subseteq> set attributes"
  shows "ACL_Check acl' login action target attributes'"
proof -
  have "rule_permits rule login action target attributes \<Longrightarrow> rule_permits rule login action target attributes'" for rule
    using assms(3) by (auto simp: rule_permits_def)
  with assms show ?thesis by (auto simp: ACL_Check_iff)
qed

end
