(* ===== verification/Bottin_Mem.thy ===== *)
theory Bottin_Mem
  imports Bottin_Store Btree
begin

text \<open>
  The in-memory store, \<^verbatim>\<open>service/bottin/store/mem.go\<close>: entries in a B-tree ordered by the text of
  their prefix, transactions as a list of changes applied when they commit. The mutexes are held
  for the whole of each operation, so an operation is one step; metrics are left out.
\<close>

section \<open>Entries of the tree\<close>

record mementry =
  me_entry :: Entry
  me_prefix :: Prefix

definition newmementry :: "Entry \<Rightarrow> mementry" where
  "newmementry entry = \<lparr>me_entry = entry, me_prefix = DN_Prefix (entry_DN entry)\<rparr>"

definition mementryFromPrefix :: "Prefix \<Rightarrow> mementry" where
  "mementryFromPrefix pfx = \<lparr>me_entry = \<lparr>entry_DN = Prefix_DN pfx, entry_Attributes = []\<rparr>, me_prefix = pfx\<rparr>"

definition mementryLess :: "mementry \<Rightarrow> mementry \<Rightarrow> bool" where
  "mementryLess a b \<longleftrightarrow> strings_Less (Prefix_String (me_prefix a)) (Prefix_String (me_prefix b))"

section \<open>Mem\<close>

text \<open>The state of \<^verbatim>\<open>Mem\<close> is its tree.\<close>

definition NewMem :: "('b, mementry) btree \<Rightarrow> 'b" where
  "NewMem bt = bt_New bt"

definition Mem_Ping :: "('b, unit) go" where
  "Mem_Ping = ret ()"

text \<open>The iterator of \<^verbatim>\<open>List\<close>, over the entries \<^verbatim>\<open>AscendRange\<close> visits.\<close>

fun list_iterator :: "Prefix \<Rightarrow> bool \<Rightarrow> mementry list \<Rightarrow> Entry list" where
  "list_iterator pfx exact [] = []"
| "list_iterator pfx exact (entry # rest) =
     (if \<not> exact then me_entry entry # list_iterator pfx exact rest
      else if Prefix_Equal (me_prefix entry) pfx then [me_entry entry]
      else list_iterator pfx exact rest)"

definition Mem_List :: "('b, mementry) btree \<Rightarrow> Prefix \<Rightarrow> bool \<Rightarrow> ('b, Entry list) go" where
  "Mem_List bt pfx exact = (\<lambda>tr.
     let start = mementryFromPrefix pfx; stop = mementryFromPrefix (prefixEnd pfx) in
     (Ok (list_iterator pfx exact (bt_AscendRange bt start stop tr)), tr))"

text \<open>
  The change an assignment to the attribute map of a listed entry makes in the tree: the map is
  shared, the entry's key and place are not touched.
\<close>

definition Mem_assign :: "('b, mementry) btree \<Rightarrow> Prefix \<Rightarrow> AttributeKey \<Rightarrow> StoreAttributeValue \<Rightarrow> 'b \<Rightarrow> 'b" where
  "Mem_assign bt pfx key value tr =
     (case Mem_List bt pfx True tr of
        (Ok [e], _) \<Rightarrow> bt_ReplaceOrInsert bt
           \<lparr>me_entry = e\<lparr>entry_Attributes := attr_set key value (entry_Attributes e)\<rparr>, me_prefix = pfx\<rparr> tr
      | _ \<Rightarrow> tr)"

section \<open>MemTransaction\<close>

definition ErrCommitted :: goerr where
  "ErrCommitted = PlainError ''transaction already committed''"

datatype changekind = changekindStore | changekindDelete

record change =
  change_entry :: mementry
  change_kind :: changekind

record MemTransaction =
  mtx_committed :: bool
  mtx_changes :: "change list"

definition Mem_Begin :: "Context \<Rightarrow> ('b, MemTransaction) go" where
  "Mem_Begin ctx = (case ctx_Err_Begin ctx of
      Some err \<Rightarrow> throw err
    | None \<Rightarrow> ret \<lparr>mtx_committed = False, mtx_changes = []\<rparr>)"

definition MemTransaction_Store :: "Entry \<Rightarrow> ('b \<times> MemTransaction, unit) go" where
  "MemTransaction_Store entry = (\<lambda>(tr, m).
     if mtx_committed m then (Err ErrCommitted, tr, m)
     else let c = \<lparr>change_entry = newmementry entry, change_kind = changekindStore\<rparr> in
       (Ok (), tr, m\<lparr>mtx_changes := mtx_changes m @ [c]\<rparr>))"

definition MemTransaction_Delete :: "DN \<Rightarrow> ('b \<times> MemTransaction, unit) go" where
  "MemTransaction_Delete dn = (\<lambda>(tr, m).
     if mtx_committed m then (Err ErrCommitted, tr, m)
     else let c = \<lparr>change_entry = mementryFromPrefix (DN_Prefix dn), change_kind = changekindDelete\<rparr> in
       (Ok (), tr, m\<lparr>mtx_changes := mtx_changes m @ [c]\<rparr>))"

definition commit_change :: "('b, mementry) btree \<Rightarrow> change \<Rightarrow> 'b \<Rightarrow> 'b" where
  "commit_change bt change tr = (case change_kind change of
      changekindStore \<Rightarrow> bt_ReplaceOrInsert bt (change_entry change) tr
    | changekindDelete \<Rightarrow> bt_Delete bt (change_entry change) tr)"

definition MemTransaction_Commit :: "('b, mementry) btree \<Rightarrow> Context \<Rightarrow> ('b \<times> MemTransaction, unit) go" where
  "MemTransaction_Commit bt ctx = (\<lambda>(tr, m). case ctx_Err_Commit ctx of
      Some err \<Rightarrow> (Err err, tr, m)
    | None \<Rightarrow>
        if mtx_committed m then (Err ErrCommitted, tr, m)
        else (Ok (), fold (commit_change bt) (mtx_changes m) tr, m\<lparr>mtx_committed := True\<rparr>))"

definition Mem :: "('b, mementry) btree \<Rightarrow> ('b, MemTransaction) Store" where
  "Mem bt =
     \<lparr>s_List = Mem_List bt, s_Begin = Mem_Begin, s_assign = Mem_assign bt,
      tx_Store = MemTransaction_Store, tx_Delete = MemTransaction_Delete,
      tx_Commit = MemTransaction_Commit bt\<rparr>"

section \<open>The directory a tree holds\<close>

text \<open>
  The invariant of the tree: sorted, and each entry under the key of its own DN. \<open>mem_plain\<close> adds
  that no DN contains the separator of prefixes; only then do different DNs have different keys.
\<close>

definition keyed :: "mementry \<Rightarrow> bool" where
  "keyed m \<longleftrightarrow> me_prefix m = DN_Prefix (entry_DN (me_entry m))"

definition mem_inv :: "('b, mementry) btree \<Rightarrow> 'b \<Rightarrow> bool" where
  "mem_inv bt tr \<longleftrightarrow> sorted_wrt mementryLess (bt_Ascend bt tr) \<and>
     list_all (\<lambda>m. keyed m \<and> entry_DN (me_entry m) \<noteq> []) (bt_Ascend bt tr)"

definition mem_plain :: "('b, mementry) btree \<Rightarrow> 'b \<Rightarrow> bool" where
  "mem_plain bt tr \<longleftrightarrow> mem_inv bt tr \<and> list_all (\<lambda>m. plain_DN (entry_DN (me_entry m))) (bt_Ascend bt tr)"

definition mem_dir :: "('b, mementry) btree \<Rightarrow> 'b \<Rightarrow> directory" where
  "mem_dir bt tr = map_of (map (\<lambda>m. (entry_DN (me_entry m), entry_Attributes (me_entry m))) (bt_Ascend bt tr))"

definition mem_live :: "MemTransaction \<Rightarrow> bool" where
  "mem_live m \<longleftrightarrow> \<not> mtx_committed m \<and> list_all (\<lambda>c. keyed (change_entry c)) (mtx_changes m)"

definition mem_change :: "change \<Rightarrow> dir_change" where
  "mem_change c = (case change_kind c of
      changekindStore \<Rightarrow> Put (entry_DN (me_entry (change_entry c))) (entry_Attributes (me_entry (change_entry c)))
    | changekindDelete \<Rightarrow> Remove (entry_DN (me_entry (change_entry c))))"

definition mem_log :: "MemTransaction \<Rightarrow> dir_change list" where
  "mem_log m = map mem_change (mtx_changes m)"

lemma same_key_mementry:
  "same_key mementryLess a b \<longleftrightarrow> Prefix_String (me_prefix a) = Prefix_String (me_prefix b)"
  by (auto simp: same_key_def mementryLess_def strings_Less_def)

lemma weak_order_mementry: "weak_order mementryLess"
  by (rule weak_order_key [where key = "\<lambda>m. Prefix_String (me_prefix m)"])
     (simp add: mementryLess_def strings_Less_def)

lemma sorted_keys_distinct:
  "sorted_wrt mementryLess ms \<Longrightarrow> distinct (map (\<lambda>m. Prefix_String (me_prefix m)) ms)"
  by (induction ms) (auto simp: mementryLess_def strings_Less_def)

lemma keyed_DNs_distinct:
  assumes "sorted_wrt mementryLess ms" "list_all keyed ms"
  shows "distinct (map (\<lambda>m. entry_DN (me_entry m)) ms)"
proof -
  have "map (\<lambda>m. Prefix_String (me_prefix m)) ms =
      map (\<lambda>dn. Prefix_String (DN_Prefix dn)) (map (\<lambda>m. entry_DN (me_entry m)) ms)"
    using assms(2) by (simp add: keyed_def list_all_iff)
  then show ?thesis using sorted_keys_distinct [OF assms(1)] by (metis distinct_map)
qed

lemma find_SomeD: "List.find P xs = Some x \<Longrightarrow> x \<in> set xs \<and> P x"
  by (induction xs) (auto split: if_splits)

lemma list_iterator_all: "list_iterator p False ms = map me_entry ms"
  by (induction ms) simp_all

lemma list_iterator_exact:
  "list_iterator p True ms = (case find (\<lambda>m. me_prefix m = p) ms of None \<Rightarrow> [] | Some m \<Rightarrow> [me_entry m])"
  by (induction ms) (simp_all add: Prefix_Equal_def)

lemma key_range:
  "\<not> mementryLess m (mementryFromPrefix p) \<and> mementryLess m (mementryFromPrefix (prefixEnd p)) \<longleftrightarrow>
   in_range p (me_prefix m)"
  by (simp add: mementryLess_def mementryFromPrefix_def in_range_def Prefix_Less_def)

section \<open>The store keeps its contract\<close>

text \<open>The memory store over a tree that behaves as documented.\<close>

locale mem_store = google_btree mementryLess bt for bt :: "('b, mementry) btree"
begin

lemma mem_dir_iff:
  assumes "mem_inv bt tr"
  shows "mem_dir bt tr dn = Some as \<longleftrightarrow>
    (\<exists>m \<in> set (bt_Ascend bt tr). entry_DN (me_entry m) = dn \<and> entry_Attributes (me_entry m) = as)"
proof -
  have "distinct (map (\<lambda>m. entry_DN (me_entry m)) (bt_Ascend bt tr))"
    using assms by (intro keyed_DNs_distinct) (auto simp: mem_inv_def list_all_iff)
  then have "mem_dir bt tr dn = Some as \<longleftrightarrow>
      (dn, as) \<in> set (map (\<lambda>m. (entry_DN (me_entry m), entry_Attributes (me_entry m))) (bt_Ascend bt tr))"
    unfolding mem_dir_def by (intro map_of_eq_Some_iff) (simp add: comp_def)
  then show ?thesis by auto
qed

lemma Insert_inv:
  assumes "mem_inv bt tr" "keyed x" "entry_DN (me_entry x) \<noteq> []"
  shows "mem_inv bt (bt_ReplaceOrInsert bt x tr)"
  using assms by (auto simp: mem_inv_def list_all_iff Insert_sorted Insert_set)

lemma Delete_inv: "mem_inv bt tr \<Longrightarrow> mem_inv bt (bt_Delete bt x tr)"
  by (auto simp: mem_inv_def list_all_iff Delete_sorted Delete_set)

lemma mem_plainD:
  assumes "mem_plain bt tr"
  shows "mem_inv bt tr" "sorted_wrt mementryLess (bt_Ascend bt tr)"
    "m \<in> set (bt_Ascend bt tr) \<Longrightarrow> keyed m" "m \<in> set (bt_Ascend bt tr) \<Longrightarrow> good_DN (entry_DN (me_entry m))"
  using assms by (auto simp: mem_plain_def mem_inv_def list_all_iff good_DN_def)

lemma Insert_plain:
  assumes "mem_plain bt tr" "keyed x" "good_DN (entry_DN (me_entry x))"
  shows "mem_plain bt (bt_ReplaceOrInsert bt x tr)"
  using assms Insert_inv [of tr x] mem_plainD [OF assms(1)]
  by (auto simp: mem_plain_def list_all_iff Insert_set good_DN_def)

lemma Delete_plain: "mem_plain bt tr \<Longrightarrow> mem_plain bt (bt_Delete bt x tr)"
  using Delete_inv [of tr x] mem_plainD [of tr]
  by (auto simp: mem_plain_def list_all_iff Delete_set good_DN_def)

lemma same_key_DN:
  assumes "keyed x" "keyed m" "good_DN (entry_DN (me_entry x))" "good_DN (entry_DN (me_entry m))"
  shows "same_key mementryLess x m \<longleftrightarrow> entry_DN (me_entry m) = entry_DN (me_entry x)"
proof
  assume "same_key mementryLess x m"
  then have "Prefix_String (me_prefix x) = Prefix_String (me_prefix m)" by (simp add: same_key_mementry)
  then show "entry_DN (me_entry m) = entry_DN (me_entry x)"
    using assms Prefix_String_inj [of "me_prefix x" "me_prefix m"] by (simp add: keyed_def good_DN_def)
qed (use assms in \<open>simp add: same_key_mementry keyed_def\<close>)

lemma Insert_dir:
  assumes "mem_plain bt tr" "keyed x" "good_DN (entry_DN (me_entry x))"
  shows "mem_dir bt (bt_ReplaceOrInsert bt x tr) =
    (mem_dir bt tr)(entry_DN (me_entry x) \<mapsto> entry_Attributes (me_entry x))"
proof (rule directory_eqI)
  fix dn as
  note inv = mem_plainD(1) [OF assms(1)] mem_plainD(1) [OF Insert_plain [OF assms]]
  show "mem_dir bt (bt_ReplaceOrInsert bt x tr) dn = Some as \<longleftrightarrow>
      ((mem_dir bt tr)(entry_DN (me_entry x) \<mapsto> entry_Attributes (me_entry x))) dn = Some as"
    using mem_plainD [OF assms(1)] same_key_DN [OF assms(2) _ assms(3)]
    by (auto simp: mem_dir_iff [OF inv(1)] mem_dir_iff [OF inv(2)] Insert_set)
qed

lemma Delete_dir:
  assumes "mem_plain bt tr" "keyed x" "good_DN (entry_DN (me_entry x))"
  shows "mem_dir bt (bt_Delete bt x tr) = (mem_dir bt tr)(entry_DN (me_entry x) := None)"
proof (rule directory_eqI)
  fix dn as
  note inv = mem_plainD(1) [OF assms(1)] mem_plainD(1) [OF Delete_plain [OF assms(1)]]
  show "mem_dir bt (bt_Delete bt x tr) dn = Some as \<longleftrightarrow>
      ((mem_dir bt tr)(entry_DN (me_entry x) := None)) dn = Some as"
    using mem_plainD [OF assms(1)] same_key_DN [OF assms(2) _ assms(3)]
    by (auto simp: mem_dir_iff [OF inv(1)] mem_dir_iff [OF inv(2)] Delete_set)
qed

lemma commit_change_dir:
  assumes "mem_plain bt tr" "keyed (change_entry c)" "good_DN (change_DN (mem_change c))"
  shows "mem_plain bt (commit_change bt c tr)"
    "mem_dir bt (commit_change bt c tr) = apply_change (mem_change c) (mem_dir bt tr)"
  using assms Insert_plain Insert_dir Delete_plain Delete_dir
  by (auto simp: commit_change_def mem_change_def split: changekind.splits)

lemma commit_changes_dir:
  assumes "mem_plain bt tr" "list_all (\<lambda>c. keyed (change_entry c)) cs"
    "list_all (\<lambda>c. good_DN (change_DN c)) (map mem_change cs)"
  shows "mem_plain bt (fold (commit_change bt) cs tr) \<and>
    mem_dir bt (fold (commit_change bt) cs tr) = apply_changes (map mem_change cs) (mem_dir bt tr)"
  using assms
proof (induction cs arbitrary: tr)
  case (Cons c cs)
  then show ?case using commit_change_dir [of tr c] by simp
qed simp

lemma Mem_List_exact:
  assumes "mem_inv bt tr"
  shows "Mem_List bt (DN_Prefix dn) True tr =
    (Ok (case mem_dir bt tr dn of None \<Rightarrow> [] | Some as \<Rightarrow> [\<lparr>entry_DN = dn, entry_Attributes = as\<rparr>]), tr)"
proof -
  let ?P = "\<lambda>m. me_prefix m = DN_Prefix dn"
  let ?range = "filter (\<lambda>m. in_range (DN_Prefix dn) (me_prefix m)) (bt_Ascend bt tr)"
  have keyed: "keyed m" "entry_DN (me_entry m) \<noteq> []" if "m \<in> set (bt_Ascend bt tr)" for m
    using assms that by (auto simp: mem_inv_def list_all_iff)
  have found: "m \<in> set ?range" if "m \<in> set (bt_Ascend bt tr)" "?P m" for m
    using that keyed [OF that(1)] in_range_descendant [of "DN_Prefix dn" "DN_Prefix dn"]
    by (auto simp: keyed_def DN_Prefix_def reverse_slice_def)
  have "Mem_List bt (DN_Prefix dn) True tr = (Ok (list_iterator (DN_Prefix dn) True ?range), tr)"
    using assms by (simp add: Mem_List_def AscendRange mem_inv_def key_range)
  also have "list_iterator (DN_Prefix dn) True ?range =
    (case mem_dir bt tr dn of None \<Rightarrow> [] | Some as \<Rightarrow> [\<lparr>entry_DN = dn, entry_Attributes = as\<rparr>])"
  proof (cases "find ?P ?range")
    case None
    have "mem_dir bt tr dn = None"
    proof (rule ccontr)
      assume "mem_dir bt tr dn \<noteq> None"
      then obtain m where m: "m \<in> set (bt_Ascend bt tr)" "entry_DN (me_entry m) = dn"
        by (auto simp: mem_dir_iff [OF assms])
      then have "?P m" using keyed [OF m(1)] by (simp add: keyed_def)
      moreover have "\<not> (\<exists>x. x \<in> set ?range \<and> ?P x)" using None by (simp only: find_None_iff not_False_eq_True)
      ultimately show False using found [OF m(1)] by blast
    qed
    with None show ?thesis by (simp add: list_iterator_exact)
  next
    case (Some m)
    have m: "m \<in> set (bt_Ascend bt tr)" "?P m" using find_SomeD [OF Some] by simp_all
    then have dn: "entry_DN (me_entry m) = dn" using keyed [OF m(1)] by (simp add: keyed_def)
    then have "mem_dir bt tr dn = Some (entry_Attributes (me_entry m))"
      using m(1) mem_dir_iff [OF assms] by blast
    with Some dn show ?thesis by (simp add: list_iterator_exact Entry_eq_iff)
  qed
  finally show ?thesis .
qed

lemma Mem_List_range:
  assumes "mem_inv bt tr"
  shows "\<exists>es. Mem_List bt p False tr = (Ok es, tr) \<and> distinct es \<and>
    set es = {\<lparr>entry_DN = e, entry_Attributes = as\<rparr> | e as. mem_dir bt tr e = Some as \<and> in_range p (DN_Prefix e)}"
proof -
  let ?range = "filter (\<lambda>m. in_range p (me_prefix m)) (bt_Ascend bt tr)"
  have keyed: "keyed m" if "m \<in> set (bt_Ascend bt tr)" for m
    using assms that by (auto simp: mem_inv_def list_all_iff)
  have "Mem_List bt p False tr = (Ok (map me_entry ?range), tr)"
    using assms by (simp add: Mem_List_def AscendRange mem_inv_def key_range list_iterator_all)
  moreover have "distinct (map me_entry ?range)"
  proof -
    have "distinct (map entry_DN (map me_entry (bt_Ascend bt tr)))"
      using assms keyed_DNs_distinct [of "bt_Ascend bt tr"] by (simp add: mem_inv_def list_all_iff comp_def)
    then show ?thesis by (metis distinct_map distinct_map_filter)
  qed
  moreover have "set (map me_entry ?range) =
      {\<lparr>entry_DN = e, entry_Attributes = as\<rparr> | e as. mem_dir bt tr e = Some as \<and> in_range p (DN_Prefix e)}"
    (is "?L = ?R")
  proof (rule set_eqI)
    fix x
    have "x \<in> ?R \<longleftrightarrow> mem_dir bt tr (entry_DN x) = Some (entry_Attributes x) \<and> in_range p (DN_Prefix (entry_DN x))"
      by (cases x) auto
    also have "\<dots> \<longleftrightarrow> (\<exists>m \<in> set (bt_Ascend bt tr). me_entry m = x \<and> in_range p (DN_Prefix (entry_DN x)))"
      unfolding mem_dir_iff [OF assms] using Entry_eqI by blast
    finally show "x \<in> ?L \<longleftrightarrow> x \<in> ?R" using keyed by (auto simp: keyed_def)
  qed
  ultimately show ?thesis by blast
qed

lemma Mem_assign_dir:
  assumes "mem_plain bt tr" "mem_dir bt tr dn = Some as"
  shows "mem_plain bt (Mem_assign bt (DN_Prefix dn) k v tr) \<and>
    mem_dir bt (Mem_assign bt (DN_Prefix dn) k v tr) = (mem_dir bt tr)(dn \<mapsto> attr_set k v as)"
proof -
  note inv = mem_plainD(1) [OF assms(1)]
  let ?m = "\<lparr>me_entry = \<lparr>entry_DN = dn, entry_Attributes = attr_set k v as\<rparr>, me_prefix = DN_Prefix dn\<rparr>"
  have "good_DN dn" using assms mem_plainD(4) [OF assms(1)] by (auto simp: mem_dir_iff [OF inv])
  moreover have "Mem_assign bt (DN_Prefix dn) k v tr = bt_ReplaceOrInsert bt ?m tr"
    using assms(2) by (simp add: Mem_assign_def Mem_List_exact [OF inv])
  ultimately show ?thesis
    using Insert_plain [OF assms(1), of ?m] Insert_dir [OF assms(1), of ?m] by (simp add: keyed_def)
qed

lemma mem_log_simps:
  "mem_log (m\<lparr>mtx_changes := mtx_changes m @ [c]\<rparr>) = mem_log m @ [mem_change c]"
  by (simp add: mem_log_def)

lemma mem_reliable_store: "reliable_store (Mem bt) (mem_plain bt) (mem_dir bt) mem_live mem_log"
proof
  show "good_DN dn" if "mem_plain bt st" "mem_dir bt st dn = Some as" for st dn as
    using that mem_plainD [OF that(1)] by (auto simp: mem_dir_iff)
  show "s_List (Mem bt) (DN_Prefix dn) True st =
      (Ok (case mem_dir bt st dn of None \<Rightarrow> [] | Some as \<Rightarrow> [\<lparr>entry_DN = dn, entry_Attributes = as\<rparr>]), st)"
    if "mem_plain bt st" for st dn
    using Mem_List_exact [OF mem_plainD(1) [OF that]] by (simp add: Mem_def)
  show "\<exists>es. s_List (Mem bt) (DN_Prefix dn) False st = (Ok es, st) \<and> distinct es \<and>
      set es = {\<lparr>entry_DN = e, entry_Attributes = as\<rparr> | e as.
        mem_dir bt st e = Some as \<and> in_range (DN_Prefix dn) (DN_Prefix e)}"
    if "mem_plain bt st" for st dn
    using Mem_List_range [OF mem_plainD(1) [OF that]] by (simp add: Mem_def)
  show "mem_plain bt (s_assign (Mem bt) (DN_Prefix dn) k v st) \<and>
      mem_dir bt (s_assign (Mem bt) (DN_Prefix dn) k v st) = (mem_dir bt st)(dn \<mapsto> attr_set k v as)"
    if "mem_plain bt st" "mem_dir bt st dn = Some as" for st dn k v as
    using Mem_assign_dir [OF that] by (simp add: Mem_def)
  show "mem_plain bt st' \<and> mem_dir bt st' = (if r = Ok () then apply_changes (mem_log tx) (mem_dir bt st) else mem_dir bt st)"
    if "mem_plain bt st" "mem_live tx" "list_all (\<lambda>c. good_DN (change_DN c)) (mem_log tx)"
      "tx_Commit (Mem bt) ctx (st, tx) = (r, st', tx')" for st tx ctx r st' tx'
    using that commit_changes_dir [of st "mtx_changes tx"]
    by (auto simp: Mem_def MemTransaction_Commit_def mem_live_def mem_log_def split: option.splits if_splits)
qed (auto simp: Mem_def Mem_Begin_def MemTransaction_Store_def MemTransaction_Delete_def MemTransaction_Commit_def
      mem_live_def mem_log_def mem_change_def newmementry_def mementryFromPrefix_def keyed_def Let_def
      split: option.splits prod.splits)

end

sublocale mem_store \<subseteq> mem: reliable_store "Mem bt" "mem_plain bt" "mem_dir bt" mem_live mem_log
  by (rule mem_reliable_store)

interpretation sorted_list: mem_store "list_btree mementryLess"
  by (intro mem_store.intro list_btree_google weak_order_mementry)

lemma Mem_reliable: "google_btree mementryLess bt \<Longrightarrow> reliable_store (Mem bt) (mem_plain bt) (mem_dir bt) mem_live mem_log"
  by (rule mem_store.mem_reliable_store [OF mem_store.intro])

lemma Mem_directory: "google_btree mementryLess bt \<Longrightarrow> directory_store (Mem bt) (mem_plain bt) (mem_dir bt) mem_live mem_log"
  using Mem_reliable by (rule reliable_store.axioms)

end
