(* ===== verification/Ldap_Filter.thy ===== *)
theory Ldap_Filter
  imports Ldap_Result
begin

text \<open>
  Search filters: \<^verbatim>\<open>matching_rule_assertion.go\<close>, \<^verbatim>\<open>filter_substring.go\<close>, \<^verbatim>\<open>filter.go\<close> and the
  files of the other filter types, and the printer \<^verbatim>\<open>decompileFilter\<close> of
  \<^verbatim>\<open>search_request.go\<close>. The interface \<^verbatim>\<open>Filter\<close> is a datatype with one constructor per
  implementing type.

  \<^verbatim>\<open>readFilter\<close> is recursive through the callbacks of and, or and not. The recursion depth is
  bounded by the number of bytes in the buffer, since every level reads inside a shorter slice;
  \<open>readFilterN\<close> carries that bound and \<open>terminates_readFilter\<close> shows that it is enough. The
  counters that only number the filters in an error text are left out.
\<close>

section \<open>matching\_rule\_assertion.go\<close>

record MatchingRuleAssertion =
  mra_matchingRule :: "MatchingRuleID option"
  mra_type :: "AttributeDescription option"
  mra_matchValue :: AssertionValue
  mra_dnAttributes :: BOOLEAN

definition MatchingRuleAssertion_readMatchingRule :: "(Bytes, MatchingRuleID option) go" where
  "MatchingRuleAssertion_readMatchingRule =
     go_bind (go_wrap ''readMatchingRule'' PreviewTagAndLength) (\<lambda>t.
       if Tag t = TagMatchingRuleAssertionMatchingRule
       then go_map Some (go_wrap ''readMatchingRule''
              (readTaggedMatchingRuleID classContextSpecific TagMatchingRuleAssertionMatchingRule))
       else ret None)"

definition MatchingRuleAssertion_readType :: "(Bytes, AttributeDescription option) go" where
  "MatchingRuleAssertion_readType =
     go_bind (go_wrap ''readType'' PreviewTagAndLength) (\<lambda>t.
       if Tag t = TagMatchingRuleAssertionType
       then go_map Some (go_wrap ''readType''
              (readTaggedAttributeDescription classContextSpecific TagMatchingRuleAssertionType))
       else ret None)"

definition MatchingRuleAssertion_readComponents :: "(Bytes, MatchingRuleAssertion) go" where
  "MatchingRuleAssertion_readComponents =
     go_bind (go_wrap ''readComponents'' MatchingRuleAssertion_readMatchingRule) (\<lambda>r.
     go_bind (go_wrap ''readComponents'' MatchingRuleAssertion_readType) (\<lambda>t.
     go_bind (go_wrap ''readComponents''
       (readTaggedAssertionValue classContextSpecific TagMatchingRuleAssertionMatchValue)) (\<lambda>v.
     go_bind (go_wrap ''readComponents''
       (readTaggedBOOLEAN classContextSpecific TagMatchingRuleAssertionDnAttributes)) (\<lambda>d.
     ret \<lparr>mra_matchingRule = r, mra_type = t, mra_matchValue = v, mra_dnAttributes = d\<rparr>))))"

definition readTaggedMatchingRuleAssertion :: "int \<Rightarrow> int \<Rightarrow> (Bytes, MatchingRuleAssertion) go" where
  "readTaggedMatchingRuleAssertion cls tag =
     go_wrap ''readTaggedMatchingRuleAssertion'' (ReadSubBytes cls tag MatchingRuleAssertion_readComponents)"

definition MatchingRuleAssertion_writeTagged :: "MatchingRuleAssertion \<Rightarrow> int \<Rightarrow> int \<Rightarrow> (Bytes, nat) go" where
  "MatchingRuleAssertion_writeTagged m cls tag =
     write_tagged cls isCompound tag
       (write_then (write_then (write_then
         (if mra_dnAttributes m \<noteq> False
          then BOOLEAN_writeTagged (mra_dnAttributes m) classContextSpecific TagMatchingRuleAssertionDnAttributes
          else ret 0)
         (AssertionValue_writeTagged (mra_matchValue m) classContextSpecific TagMatchingRuleAssertionMatchValue))
         (write_opt (\<lambda>t. AttributeDescription_writeTagged t classContextSpecific TagMatchingRuleAssertionType)
           (mra_type m)))
         (write_opt (\<lambda>r. MatchingRuleID_writeTagged r classContextSpecific TagMatchingRuleAssertionMatchingRule)
           (mra_matchingRule m)))"

definition MatchingRuleAssertion_write :: "MatchingRuleAssertion \<Rightarrow> (Bytes, nat) go" where
  "MatchingRuleAssertion_write m = MatchingRuleAssertion_writeTagged m classUniversal tagSequence"

definition MatchingRuleAssertion_sizeTagged :: "MatchingRuleAssertion \<Rightarrow> int \<Rightarrow> nat" where
  "MatchingRuleAssertion_sizeTagged m tag =
     size_tagged tag
       (size_opt (\<lambda>r. MatchingRuleID_sizeTagged r TagMatchingRuleAssertionMatchingRule) (mra_matchingRule m)
        + size_opt (\<lambda>t. AttributeDescription_sizeTagged t TagMatchingRuleAssertionType) (mra_type m)
        + AssertionValue_sizeTagged (mra_matchValue m) TagMatchingRuleAssertionMatchValue
        + (if mra_dnAttributes m \<noteq> False
           then BOOLEAN_sizeTagged (mra_dnAttributes m) TagMatchingRuleAssertionDnAttributes else 0))"

definition MatchingRuleAssertion_size :: "MatchingRuleAssertion \<Rightarrow> nat" where
  "MatchingRuleAssertion_size m = MatchingRuleAssertion_sizeTagged m tagSequence"

section \<open>filter\_substring.go\<close>

datatype Substring =
  SubstringInitial AssertionValue | SubstringAny AssertionValue | SubstringFinal AssertionValue

record SubstringFilter =
  sf_type :: AttributeDescription
  sf_substrings :: "Substring list"

text \<open>One iteration of \<^verbatim>\<open>readSubstringsComponents\<close>, with the two counters.\<close>

definition readSubstring :: "nat \<Rightarrow> nat \<Rightarrow> (Bytes, Substring \<times> nat \<times> nat) go" where
  "readSubstring foundInitial foundFinal =
     go_bind (go_wrap ''readSubstringsComponents'' PreviewTagAndLength) (\<lambda>t.
       if Tag t = TagSubstringInitial then
         if 1 < foundInitial + 1
         then throw (LdapError ''readSubstringsComponents: initial can occur at most once'' [])
         else go_map (\<lambda>v. (SubstringInitial v, foundInitial + 1, foundFinal))
           (go_wrap ''readSubstringsComponents''
             (readTaggedAssertionValue classContextSpecific TagSubstringInitial))
       else if Tag t = TagSubstringAny then
         go_map (\<lambda>v. (SubstringAny v, foundInitial, foundFinal))
           (go_wrap ''readSubstringsComponents''
             (readTaggedAssertionValue classContextSpecific TagSubstringAny))
       else if Tag t = TagSubstringFinal then
         if 1 < foundFinal + 1
         then throw (LdapError ''readSubstringsComponents: final can occur at most once'' [])
         else go_map (\<lambda>v. (SubstringFinal v, foundInitial, foundFinal + 1))
           (go_wrap ''readSubstringsComponents''
             (readTaggedAssertionValue classContextSpecific TagSubstringFinal))
       else throw (LdapError ''readSubstringsComponents: invalid tag'' [Tag t]))"

fun readSubstringsLoop :: "nat \<Rightarrow> nat \<Rightarrow> nat \<Rightarrow> Substring list \<Rightarrow> (Bytes, Substring list) go" where
  "readSubstringsLoop 0 foundInitial foundFinal acc bs = (Diverge, bs)"
| "readSubstringsLoop (Suc n) foundInitial foundFinal acc bs =
     (if HasMoreData bs then
        go_bind (readSubstring foundInitial foundFinal)
          (\<lambda>(s, i, f). readSubstringsLoop n i f (acc @ [s])) bs
      else (Ok acc, bs))"

definition SubstringFilter_readSubstringsComponents :: "(Bytes, Substring list) go" where
  "SubstringFilter_readSubstringsComponents =
     go_bind (\<lambda>bs. readSubstringsLoop (Suc (length (bytes bs) - offset bs)) 0 0 [] bs) (\<lambda>ss.
       if ss = [] then throw (LdapError ''readSubstringsComponents: expecting at least one substring'' [])
       else ret ss)"

definition SubstringFilter_readSubstrings :: "(Bytes, Substring list) go" where
  "SubstringFilter_readSubstrings =
     go_wrap ''readSubstrings''
       (ReadSubBytes classUniversal tagSequence SubstringFilter_readSubstringsComponents)"

definition SubstringFilter_readComponents :: "(Bytes, SubstringFilter) go" where
  "SubstringFilter_readComponents =
     go_bind (go_wrap ''readComponents'' readAttributeDescription) (\<lambda>t.
     go_bind (go_wrap ''readComponents'' SubstringFilter_readSubstrings) (\<lambda>ss.
     ret \<lparr>sf_type = t, sf_substrings = ss\<rparr>))"

definition readTaggedSubstringFilter :: "int \<Rightarrow> int \<Rightarrow> (Bytes, SubstringFilter) go" where
  "readTaggedSubstringFilter cls tag =
     go_wrap ''readTaggedSubstringFilter'' (ReadSubBytes cls tag SubstringFilter_readComponents)"

fun Substring_write :: "Substring \<Rightarrow> (Bytes, nat) go" where
  "Substring_write (SubstringInitial v) = AssertionValue_writeTagged v classContextSpecific TagSubstringInitial"
| "Substring_write (SubstringAny v) = AssertionValue_writeTagged v classContextSpecific TagSubstringAny"
| "Substring_write (SubstringFinal v) = AssertionValue_writeTagged v classContextSpecific TagSubstringFinal"

fun Substring_size :: "Substring \<Rightarrow> nat" where
  "Substring_size (SubstringInitial v) = AssertionValue_sizeTagged v TagSubstringInitial"
| "Substring_size (SubstringAny v) = AssertionValue_sizeTagged v TagSubstringAny"
| "Substring_size (SubstringFinal v) = AssertionValue_sizeTagged v TagSubstringFinal"

definition SubstringFilter_writeTagged :: "SubstringFilter \<Rightarrow> int \<Rightarrow> int \<Rightarrow> (Bytes, nat) go" where
  "SubstringFilter_writeTagged s cls tag =
     write_tagged cls isCompound tag
       (write_then
         (write_tagged classUniversal isCompound tagSequence (write_list Substring_write (sf_substrings s)))
         (AttributeDescription_write (sf_type s)))"

definition SubstringFilter_write :: "SubstringFilter \<Rightarrow> (Bytes, nat) go" where
  "SubstringFilter_write s = SubstringFilter_writeTagged s classUniversal tagSequence"

definition SubstringFilter_sizeTagged :: "SubstringFilter \<Rightarrow> int \<Rightarrow> nat" where
  "SubstringFilter_sizeTagged s tag =
     size_tagged tag
       (size_tagged tagSequence (sum_list (map Substring_size (sf_substrings s)))
        + AttributeDescription_size (sf_type s))"

definition SubstringFilter_size :: "SubstringFilter \<Rightarrow> nat" where
  "SubstringFilter_size s = SubstringFilter_sizeTagged s tagSequence"

section \<open>filter.go and the filter types\<close>

datatype Filter =
    FilterAnd "Filter list"
  | FilterOr "Filter list"
  | FilterNot Filter
  | FilterEqualityMatch AttributeValueAssertion
  | FilterSubstrings SubstringFilter
  | FilterGreaterOrEqual AttributeValueAssertion
  | FilterLessOrEqual AttributeValueAssertion
  | FilterPresent AttributeDescription
  | FilterApproxMatch AttributeValueAssertion
  | FilterExtensibleMatch MatchingRuleAssertion

fun getFilterTag :: "Filter \<Rightarrow> int" where
  "getFilterTag (FilterAnd fs) = TagFilterAnd"
| "getFilterTag (FilterOr fs) = TagFilterOr"
| "getFilterTag (FilterNot f) = TagFilterNot"
| "getFilterTag (FilterEqualityMatch a) = TagFilterEqualityMatch"
| "getFilterTag (FilterSubstrings s) = TagFilterSubstrings"
| "getFilterTag (FilterGreaterOrEqual a) = TagFilterGreaterOrEqual"
| "getFilterTag (FilterLessOrEqual a) = TagFilterLessOrEqual"
| "getFilterTag (FilterPresent d) = TagFilterPresent"
| "getFilterTag (FilterApproxMatch a) = TagFilterApproxMatch"
| "getFilterTag (FilterExtensibleMatch m) = TagFilterExtensibleMatch"

definition FilterAnd_readComponents :: "(Bytes, Filter) go \<Rightarrow> (Bytes, Filter list) go" where
  "FilterAnd_readComponents readF =
     go_bind (read_all (go_wrap ''readComponents (filter)'' readF)) (\<lambda>fs.
       if fs = [] then throw (LdapError ''readComponents: expecting at least one Filter'' [])
       else ret fs)"

definition readFilterAnd :: "(Bytes, Filter) go \<Rightarrow> (Bytes, Filter) go" where
  "readFilterAnd readF =
     go_map FilterAnd (go_wrap ''readFilterAnd''
       (ReadSubBytes classContextSpecific TagFilterAnd (FilterAnd_readComponents readF)))"

definition FilterOr_readComponents :: "(Bytes, Filter) go \<Rightarrow> (Bytes, Filter list) go" where
  "FilterOr_readComponents readF =
     go_bind (read_all (go_wrap ''readComponents (filter)'' readF)) (\<lambda>fs.
       if fs = [] then throw (LdapError ''readComponents: expecting at least one Filter'' [])
       else ret fs)"

definition readFilterOr :: "(Bytes, Filter) go \<Rightarrow> (Bytes, Filter) go" where
  "readFilterOr readF =
     go_map FilterOr (go_wrap ''readFilterOr''
       (ReadSubBytes classContextSpecific TagFilterOr (FilterOr_readComponents readF)))"

definition FilterNot_readComponents :: "(Bytes, Filter) go \<Rightarrow> (Bytes, Filter) go" where
  "FilterNot_readComponents readF = go_wrap ''readComponents'' readF"

definition readFilterNot :: "(Bytes, Filter) go \<Rightarrow> (Bytes, Filter) go" where
  "readFilterNot readF =
     go_map FilterNot (go_wrap ''readFilterNot''
       (ReadSubBytes classContextSpecific TagFilterNot (FilterNot_readComponents readF)))"

definition readFilterEqualityMatch :: "(Bytes, Filter) go" where
  "readFilterEqualityMatch =
     go_map FilterEqualityMatch (go_wrap ''readFilterEqualityMatch''
       (readTaggedAttributeValueAssertion classContextSpecific TagFilterEqualityMatch))"

definition readFilterGreaterOrEqual :: "(Bytes, Filter) go" where
  "readFilterGreaterOrEqual =
     go_map FilterGreaterOrEqual (go_wrap ''readFilterGreaterOrEqual''
       (readTaggedAttributeValueAssertion classContextSpecific TagFilterGreaterOrEqual))"

definition readFilterLessOrEqual :: "(Bytes, Filter) go" where
  "readFilterLessOrEqual =
     go_map FilterLessOrEqual (go_wrap ''readFilterLessOrEqual''
       (readTaggedAttributeValueAssertion classContextSpecific TagFilterLessOrEqual))"

definition readFilterApproxMatch :: "(Bytes, Filter) go" where
  "readFilterApproxMatch =
     go_map FilterApproxMatch (go_wrap ''readFilterApproxMatch''
       (readTaggedAttributeValueAssertion classContextSpecific TagFilterApproxMatch))"

definition readFilterSubstrings :: "(Bytes, Filter) go" where
  "readFilterSubstrings =
     go_map FilterSubstrings (go_wrap ''readFilterSubstrings''
       (readTaggedSubstringFilter classContextSpecific TagFilterSubstrings))"

definition readFilterPresent :: "(Bytes, Filter) go" where
  "readFilterPresent =
     go_map FilterPresent (go_wrap ''readFilterPresent''
       (readTaggedAttributeDescription classContextSpecific TagFilterPresent))"

definition readFilterExtensibleMatch :: "(Bytes, Filter) go" where
  "readFilterExtensibleMatch =
     go_map FilterExtensibleMatch (go_wrap ''readFilterExtensibleMatch''
       (readTaggedMatchingRuleAssertion classContextSpecific TagFilterExtensibleMatch))"

text \<open>The switch of \<^verbatim>\<open>readFilter\<close>, given the reader for nested filters.\<close>

definition readFilterCase :: "(Bytes, Filter) go \<Rightarrow> int \<Rightarrow> (Bytes, Filter) go option" where
  "readFilterCase readF tag =
     (if tag = TagFilterAnd then Some (readFilterAnd readF)
      else if tag = TagFilterOr then Some (readFilterOr readF)
      else if tag = TagFilterNot then Some (readFilterNot readF)
      else if tag = TagFilterEqualityMatch then Some readFilterEqualityMatch
      else if tag = TagFilterSubstrings then Some readFilterSubstrings
      else if tag = TagFilterGreaterOrEqual then Some readFilterGreaterOrEqual
      else if tag = TagFilterLessOrEqual then Some readFilterLessOrEqual
      else if tag = TagFilterPresent then Some readFilterPresent
      else if tag = TagFilterApproxMatch then Some readFilterApproxMatch
      else if tag = TagFilterExtensibleMatch then Some readFilterExtensibleMatch
      else None)"

fun readFilterN :: "nat \<Rightarrow> (Bytes, Filter) go" where
  "readFilterN 0 = (\<lambda>bs. (Diverge, bs))"
| "readFilterN (Suc n) =
     go_bind (go_wrap ''readFilter'' PreviewTagAndLength) (\<lambda>t.
     go_bind (go_wrap ''readFilter'' (lift (ExpectClass t classContextSpecific))) (\<lambda>_.
       case readFilterCase (readFilterN n) (Tag t) of
         Some readF \<Rightarrow> go_wrap ''readFilter'' readF
       | None \<Rightarrow> throw (LdapError ''readFilter: invalid tag value'' [Tag t])))"

definition readFilter :: "(Bytes, Filter) go" where
  "readFilter = (\<lambda>bs. readFilterN (Suc (length (bytes bs))) bs)"

fun Filter_write :: "Filter \<Rightarrow> (Bytes, nat) go" where
  "Filter_write (FilterAnd fs) =
     write_tagged classContextSpecific isCompound TagFilterAnd (write_list Filter_write fs)"
| "Filter_write (FilterOr fs) =
     write_tagged classContextSpecific isCompound TagFilterOr (write_list Filter_write fs)"
| "Filter_write (FilterNot f) =
     write_tagged classContextSpecific isCompound TagFilterNot (Filter_write f)"
| "Filter_write (FilterEqualityMatch a) =
     AttributeValueAssertion_writeTagged a classContextSpecific TagFilterEqualityMatch"
| "Filter_write (FilterSubstrings s) = SubstringFilter_writeTagged s classContextSpecific TagFilterSubstrings"
| "Filter_write (FilterGreaterOrEqual a) =
     AttributeValueAssertion_writeTagged a classContextSpecific TagFilterGreaterOrEqual"
| "Filter_write (FilterLessOrEqual a) =
     AttributeValueAssertion_writeTagged a classContextSpecific TagFilterLessOrEqual"
| "Filter_write (FilterPresent d) = AttributeDescription_writeTagged d classContextSpecific TagFilterPresent"
| "Filter_write (FilterApproxMatch a) =
     AttributeValueAssertion_writeTagged a classContextSpecific TagFilterApproxMatch"
| "Filter_write (FilterExtensibleMatch m) =
     MatchingRuleAssertion_writeTagged m classContextSpecific TagFilterExtensibleMatch"

text \<open>\<^verbatim>\<open>FilterNot.size\<close> sizes its header with the tag of a sequence.\<close>

fun Filter_size :: "Filter \<Rightarrow> nat" where
  "Filter_size (FilterAnd fs) = size_tagged TagFilterAnd (sum_list (map Filter_size fs))"
| "Filter_size (FilterOr fs) = size_tagged TagFilterOr (sum_list (map Filter_size fs))"
| "Filter_size (FilterNot f) = size_tagged tagSequence (Filter_size f)"
| "Filter_size (FilterEqualityMatch a) = AttributeValueAssertion_sizeTagged a TagFilterEqualityMatch"
| "Filter_size (FilterSubstrings s) = SubstringFilter_sizeTagged s TagFilterSubstrings"
| "Filter_size (FilterGreaterOrEqual a) = AttributeValueAssertion_sizeTagged a TagFilterGreaterOrEqual"
| "Filter_size (FilterLessOrEqual a) = AttributeValueAssertion_sizeTagged a TagFilterLessOrEqual"
| "Filter_size (FilterPresent d) = AttributeDescription_sizeTagged d TagFilterPresent"
| "Filter_size (FilterApproxMatch a) = AttributeValueAssertion_sizeTagged a TagFilterApproxMatch"
| "Filter_size (FilterExtensibleMatch m) = MatchingRuleAssertion_sizeTagged m TagFilterExtensibleMatch"

section \<open>decompileFilter (search\_request.go)\<close>

text \<open>
  The printer of filters. No branch of the type switch panics on a filter of the datatype, so
  the error result is never used and only the string is kept.
\<close>

fun decompileSubstring :: "Substring \<Rightarrow> string" where
  "decompileSubstring (SubstringInitial v) = v @ ''*''"
| "decompileSubstring (SubstringAny v) = ''*'' @ v @ ''*''"
| "decompileSubstring (SubstringFinal v) = ''*'' @ v"

fun decompileFilter :: "Filter \<Rightarrow> string" where
  "decompileFilter (FilterAnd fs) = ''(&'' @ concat (map decompileFilter fs) @ '')''"
| "decompileFilter (FilterOr fs) = ''(|'' @ concat (map decompileFilter fs) @ '')''"
| "decompileFilter (FilterNot f) = ''(!'' @ decompileFilter f @ '')''"
| "decompileFilter (FilterSubstrings s) =
     ''('' @ sf_type s @ ''='' @ concat (map decompileSubstring (sf_substrings s)) @ '')''"
| "decompileFilter (FilterEqualityMatch a) =
     ''('' @ ava_attributeDesc a @ ''='' @ ava_assertionValue a @ '')''"
| "decompileFilter (FilterGreaterOrEqual a) =
     ''('' @ ava_attributeDesc a @ ''>='' @ ava_assertionValue a @ '')''"
| "decompileFilter (FilterLessOrEqual a) =
     ''('' @ ava_attributeDesc a @ ''<='' @ ava_assertionValue a @ '')''"
| "decompileFilter (FilterPresent d) = ''('' @ d @ ''=*'' @ '')''"
| "decompileFilter (FilterApproxMatch a) =
     ''('' @ ava_attributeDesc a @ ''~='' @ ava_assertionValue a @ '')''"
| "decompileFilter (FilterExtensibleMatch m) = ''('' @ '')''"

end
