(* ===== verification/Ldap_Filter_Codec.thy ===== *)
theory Ldap_Filter_Codec
  imports Ldap_Filter
begin

text \<open>
  The filters satisfy the contract \<open>ber_codec\<close>: the nesting bound of \<^verbatim>\<open>readFilter\<close> is never
  reached, and what the writer writes for a well-formed filter is read back. Well-formed are the
  filters the reader can return: and/or lists and substring lists are not empty, at most one
  initial and one final substring, and \<^verbatim>\<open>dnAttributes\<close> set in an extensible match (the writer
  leaves out the default value, which the reader insists on).
\<close>

section \<open>Matching rule assertions\<close>

definition enc_mra :: "MatchingRuleAssertion \<Rightarrow> byte list" where
  "enc_mra m =
     enc_opt (enc_str classContextSpecific TagMatchingRuleAssertionMatchingRule) (mra_matchingRule m) @
     enc_opt (enc_str classContextSpecific TagMatchingRuleAssertionType) (mra_type m) @
     enc_str classContextSpecific TagMatchingRuleAssertionMatchValue (mra_matchValue m) @
     enc_opt (enc_bool classContextSpecific TagMatchingRuleAssertionDnAttributes)
       (if mra_dnAttributes m then Some True else None)"

lemma writes_mra:
  assumes "low_tag cls tag"
  shows "writes (MatchingRuleAssertion_writeTagged m cls tag) (tlv cls isCompound tag (enc_mra m))"
proof -
  have d: "writes (if mra_dnAttributes m \<noteq> False
          then BOOLEAN_writeTagged (mra_dnAttributes m) classContextSpecific TagMatchingRuleAssertionDnAttributes
          else ret 0)
      (enc_opt (enc_bool classContextSpecific TagMatchingRuleAssertionDnAttributes)
       (if mra_dnAttributes m then Some True else None))"
    by (simp add: codec_rules)
  show ?thesis unfolding MatchingRuleAssertion_writeTagged_def enc_mra_def
    by (intro writes_tagged assms writes_then writes_opt string_writers d) simp_all
qed

lemma size_mra:
  "tag < 31 \<Longrightarrow> MatchingRuleAssertion_sizeTagged m tag = tlv_size (length (enc_mra m))"
  by (cases "mra_matchingRule m"; cases "mra_type m")
     (simp_all add: MatchingRuleAssertion_sizeTagged_def enc_mra_def size_rules add.assoc)

text \<open>A component that is optional although something has to follow it.\<close>

lemma reads_previewed:
  assumes r: "\<And>s. reads r (enc_str cls tag s) s" and lt: "low_tag cls tag"
  shows "reads_if (\<lambda>post. post \<noteq> [] \<and> other_tag tag post)
    (go_bind (go_wrap c PreviewTagAndLength)
      (\<lambda>t. if Tag t = tag then go_map Some (go_wrap c r) else ret None))
    (enc_opt (enc_str cls tag) x) x"
proof (cases x)
  case (Some s)
  have "reads (go_bind (go_wrap c PreviewTagAndLength)
      (\<lambda>t. if Tag t = tag then go_map Some (go_wrap c r) else ret None))
    (tlv cls isNotCompound tag (bytes_of s)) (Some s)"
    using r [of s] by (intro reads_preview lt) (auto simp: enc_str_def intro!: reads_map reads_wrap)
  then show ?thesis by (simp add: Some enc_str_def reads_weaken)
next
  case None
  show ?thesis
  proof (rule reads_ifI)
    fix pre post assume "post \<noteq> [] \<and> other_tag tag post"
    then obtain cls' cmp tag' e rest where p: "post = tlv cls' cmp tag' e @ rest" "tag' \<noteq> tag"
      and lt': "low_tag cls' tag'" "length e < 2 ^ 31"
      unfolding other_tag_def by blast
    show "go_bind (go_wrap c PreviewTagAndLength)
      (\<lambda>t. if Tag t = tag then go_map Some (go_wrap c r) else ret None)
      \<lparr>bytes = pre @ enc_opt (enc_str cls tag) x @ post, offset = length pre\<rparr> =
      (Ok x, \<lparr>bytes = pre @ enc_opt (enc_str cls tag) x @ post,
              offset = length pre + length (enc_opt (enc_str cls tag) x)\<rparr>)"
      using PreviewTagAndLength_tlv [OF lt', of pre cmp rest] p by (simp add: None)
  qed
qed

lemma consumes_mra:
  assumes d: "mra_dnAttributes m"
  shows "consumes MatchingRuleAssertion_readComponents (enc_mra m) m"
proof -
  let ?v = "enc_str classContextSpecific TagMatchingRuleAssertionMatchValue (mra_matchValue m)"
  let ?d = "enc_bool classContextSpecific TagMatchingRuleAssertionDnAttributes True"
  let ?t = "enc_opt (enc_str classContextSpecific TagMatchingRuleAssertionType) (mra_type m)"
  have tags: "TagMatchingRuleAssertionMatchValue \<noteq> TagMatchingRuleAssertionType"
    "TagMatchingRuleAssertionMatchValue \<noteq> TagMatchingRuleAssertionMatchingRule"
    "TagMatchingRuleAssertionType \<noteq> TagMatchingRuleAssertionMatchingRule"
    by (simp_all add: ldap_tags)
  have d': "mra_dnAttributes m = True" using d by simp
  have o1: "(?v @ ?d) @ post \<noteq> [] \<and> other_tag TagMatchingRuleAssertionType ((?v @ ?d) @ post)"
    if "length (?t @ ?v @ ?d) < 2 ^ 31" for post
    using that tags by (auto intro!: other_tag_str)
  have o2: "(?t @ ?v @ ?d) @ post \<noteq> [] \<and>
      other_tag TagMatchingRuleAssertionMatchingRule ((?t @ ?v @ ?d) @ post)"
    if "length (enc_opt (enc_str classContextSpecific TagMatchingRuleAssertionMatchingRule)
      (mra_matchingRule m) @ ?t @ ?v @ ?d) < 2 ^ 31" for post
    using that tags by (auto intro!: other_tag_opt_str other_tag_str)
  have f: "ret \<lparr>mra_matchingRule = mra_matchingRule m, mra_type = mra_type m,
      mra_matchValue = mra_matchValue m, mra_dnAttributes = True\<rparr> = ret m"
    using d by (cases m) simp
  show ?thesis
    unfolding MatchingRuleAssertion_readComponents_def MatchingRuleAssertion_readMatchingRule_def
      MatchingRuleAssertion_readType_def enc_mra_def d' if_True enc_opt_simps
    by (rule reads_if_bind [OF reads_wrap [OF reads_previewed] _ o2], simp add: string_readers, simp,
        rule reads_if_bind [OF reads_wrap [OF reads_previewed] _ o1], simp add: string_readers, simp,
        rule reads_bind [OF reads_wrap [OF string_readers(4)]], simp,
        rule reads_bind_last [OF consumes_reads [OF reads_wrap [OF bool_readers(1)]]], simp, rule f)
qed

lemma terminates_mra [terminates_rules]: "terminates (readTaggedMatchingRuleAssertion cls tag)"
  unfolding readTaggedMatchingRuleAssertion_def MatchingRuleAssertion_readComponents_def
    MatchingRuleAssertion_readMatchingRule_def MatchingRuleAssertion_readType_def
  by (intro terminates_rules)

section \<open>Substring filters\<close>

fun enc_substring :: "Substring \<Rightarrow> byte list" where
  "enc_substring (SubstringInitial v) = enc_str classContextSpecific TagSubstringInitial v"
| "enc_substring (SubstringAny v) = enc_str classContextSpecific TagSubstringAny v"
| "enc_substring (SubstringFinal v) = enc_str classContextSpecific TagSubstringFinal v"

fun count_initial :: "Substring list \<Rightarrow> nat" where
  "count_initial [] = 0"
| "count_initial (SubstringInitial v # ss) = Suc (count_initial ss)"
| "count_initial (s # ss) = count_initial ss"

fun count_final :: "Substring list \<Rightarrow> nat" where
  "count_final [] = 0"
| "count_final (SubstringFinal v # ss) = Suc (count_final ss)"
| "count_final (s # ss) = count_final ss"

definition wf_SubstringFilter :: "SubstringFilter \<Rightarrow> bool" where
  "wf_SubstringFilter s \<longleftrightarrow>
     sf_substrings s \<noteq> [] \<and> count_initial (sf_substrings s) \<le> 1 \<and> count_final (sf_substrings s) \<le> 1"

definition enc_SubstringFilter :: "SubstringFilter \<Rightarrow> byte list" where
  "enc_SubstringFilter s =
     enc_OCTETSTRING (sf_type s) @
     tlv classUniversal isCompound tagSequence (concat (map enc_substring (sf_substrings s)))"

lemma enc_substring_nonempty [simp]: "enc_substring s \<noteq> []"
  by (cases s) simp_all

lemma writes_substring: "writes (Substring_write s) (enc_substring s)"
  by (cases s) (simp_all add: string_writers)

lemma size_substring: "Substring_size s = length (enc_substring s)"
  by (cases s) (simp_all add: size_rules)

lemma substring_tags_distinct:
  "TagSubstringAny \<noteq> TagSubstringInitial" "TagSubstringFinal \<noteq> TagSubstringInitial"
  "TagSubstringFinal \<noteq> TagSubstringAny"
  by (simp_all add: ldap_tags)

lemma reads_substring:
  assumes "i + count_initial [s] \<le> 1" and "f + count_final [s] \<le> 1"
  shows "reads (readSubstring i f) (enc_substring s) (s, i + count_initial [s], f + count_final [s])"
proof -
  have r: "reads (go_wrap c (readTaggedAssertionValue classContextSpecific tag))
      (tlv classContextSpecific isNotCompound tag (bytes_of v)) v"
    if "low_tag classContextSpecific tag" for tag v c
    using string_readers(4) [OF that, of v] by (auto simp: enc_str_def intro: reads_wrap)
  show ?thesis using assms substring_tags_distinct
    by (cases s; simp only: enc_substring.simps enc_str_def readSubstring_def;
        intro reads_preview low_ldap_tags; simp; intro reads_map r low_ldap_tags; simp add: r)
qed

lemma readSubstringsLoop_list:
  assumes "i + count_initial ss \<le> 1" and "f + count_final ss \<le> 1"
    and "length (concat (map enc_substring ss)) < 2 ^ 31"
    and "length (concat (map enc_substring ss)) < n"
  shows "readSubstringsLoop n i f acc \<lparr>bytes = pre @ concat (map enc_substring ss), offset = length pre\<rparr> =
    (Ok (acc @ ss), \<lparr>bytes = pre @ concat (map enc_substring ss),
                     offset = length pre + length (concat (map enc_substring ss))\<rparr>)"
  using assms
proof (induction ss arbitrary: n i f acc pre)
  case Nil
  then show ?case by (cases n) (auto simp: HasMoreData_def)
next
  case (Cons s ss)
  obtain m where n: "n = Suc m" using Cons.prems(4) by (cases n) auto
  have ci: "count_initial (s # ss) = count_initial [s] + count_initial ss"
    and cf: "count_final (s # ss) = count_final [s] + count_final ss"
    by (cases s; simp)+
  let ?i = "i + count_initial [s]" and ?f = "f + count_final [s]"
  have rs: "reads (readSubstring i f) (enc_substring s) (s, ?i, ?f)"
    by (rule reads_substring) (use Cons.prems(1,2) ci cf in linarith)+
  have "length (enc_substring s) < 2 ^ 31" using Cons.prems(3) by simp
  note hd = reads_ifD [OF rs this, where pre = pre and post = "concat (map enc_substring ss)"]
  have "0 < length (enc_substring s)" by simp
  then have m: "length (concat (map enc_substring ss)) < m"
    using Cons.prems(4) unfolding n by (simp del: length_greater_0_conv length_concat enc_substring_nonempty)
  have tl: "readSubstringsLoop m ?i ?f (acc @ [s])
      \<lparr>bytes = (pre @ enc_substring s) @ concat (map enc_substring ss), offset = length (pre @ enc_substring s)\<rparr> =
    (Ok ((acc @ [s]) @ ss), \<lparr>bytes = (pre @ enc_substring s) @ concat (map enc_substring ss),
       offset = length (pre @ enc_substring s) + length (concat (map enc_substring ss))\<rparr>)"
    by (rule Cons.IH) (use Cons.prems m ci cf in auto)
  show ?case using hd tl by (simp add: n HasMoreData_def add.assoc)
qed

lemma consumes_substrings:
  assumes "wf_SubstringFilter s"
  shows "consumes SubstringFilter_readSubstringsComponents
    (concat (map enc_substring (sf_substrings s))) (sf_substrings s)"
proof -
  let ?ss = "sf_substrings s"
  have "consumes (\<lambda>bs. readSubstringsLoop (Suc (length (bytes bs) - offset bs)) 0 0 [] bs)
    (concat (map enc_substring ?ss)) ?ss"
  proof (rule reads_ifI)
    fix pre post :: "byte list"
    assume len: "length (concat (map enc_substring ?ss)) < 2 ^ 31" and "post = []"
    then show "readSubstringsLoop (Suc (length (bytes \<lparr>bytes = pre @ concat (map enc_substring ?ss) @ post, offset = length pre\<rparr>)
         - offset \<lparr>bytes = pre @ concat (map enc_substring ?ss) @ post, offset = length pre\<rparr>)) 0 0 []
        \<lparr>bytes = pre @ concat (map enc_substring ?ss) @ post, offset = length pre\<rparr> =
      (Ok ?ss, \<lparr>bytes = pre @ concat (map enc_substring ?ss) @ post,
               offset = length pre + length (concat (map enc_substring ?ss))\<rparr>)"
      using readSubstringsLoop_list [of 0 ?ss 0 "Suc (length (concat (map enc_substring ?ss)))" "[]" pre] assms
      by (simp add: wf_SubstringFilter_def del: readSubstringsLoop.simps)
  qed
  from this show ?thesis unfolding SubstringFilter_readSubstringsComponents_def
    by (rule reads_bind_last) (use assms in \<open>simp add: wf_SubstringFilter_def\<close>)
qed

lemma advances_readSubstring: "advances (readSubstring i f)"
  unfolding readSubstring_def by (intro advances_rules)

lemma terminates_readSubstring: "terminates (readSubstring i f)"
  unfolding readSubstring_def by (intro terminates_rules)

lemma readSubstringsLoop_not_Diverge:
  "length (bytes bs) - offset bs < n \<Longrightarrow> fst (readSubstringsLoop n i f acc bs) \<noteq> Diverge"
proof (induction n arbitrary: acc bs i f)
  case (Suc n)
  obtain r bs' where r: "readSubstring i f bs = (r, bs')" by (cases "readSubstring i f bs")
  have nd: "r \<noteq> Diverge" using terminates_readSubstring r unfolding terminates_def by (metis fst_conv)
  show ?case
  proof (cases "HasMoreData bs \<and> (\<exists>x. r = Ok x)")
    case True
    then obtain s i' f' where x: "r = Ok (s, i', f')" by (metis prod_cases3)
    have "offset bs < length (bytes bs)" using True by (simp add: HasMoreData_def)
    with advancesD [OF advances_readSubstring r [unfolded x]] Suc.prems
    have "length (bytes bs') - offset bs' < n" by auto
    from Suc.IH [OF this] show ?thesis using True r x by simp
  next
    case False
    with r nd show ?thesis by (cases r) (auto simp: go_bind_def)
  qed
qed simp

lemma terminates_substrings: "terminates SubstringFilter_readSubstringsComponents"
proof -
  have l: "terminates (\<lambda>bs. readSubstringsLoop (Suc (length (bytes bs) - offset bs)) 0 0 [] bs)"
    unfolding terminates_def by (intro allI readSubstringsLoop_not_Diverge) simp
  show ?thesis unfolding SubstringFilter_readSubstringsComponents_def
    by (intro terminates_bind l terminates_if terminates_throw terminates_ret)
qed

interpretation SubstringFilter_body: ber_components SubstringFilter_readComponents
  "\<lambda>s. write_then
     (write_tagged classUniversal isCompound tagSequence (write_list Substring_write (sf_substrings s)))
     (AttributeDescription_write (sf_type s))"
  "\<lambda>s. size_tagged tagSequence (sum_list (map Substring_size (sf_substrings s)))
     + AttributeDescription_size (sf_type s)"
  enc_SubstringFilter wf_SubstringFilter
proof (unfold_locales, goal_cases)
  case 1 show ?case unfolding SubstringFilter_readComponents_def SubstringFilter_readSubstrings_def
    by (intro terminates_rules terminates_substrings)
next
  case (2 x) show ?case unfolding enc_SubstringFilter_def
    by (intro writes_then writes_tagged writes_list writes_substring string_writers low_tags)
next
  case (3 x) show ?case
    by (simp add: enc_SubstringFilter_def size_rules sum_list_size [OF size_substring] add.commute del: length_concat)
next
  case (4 x) then show ?case
    unfolding SubstringFilter_readComponents_def SubstringFilter_readSubstrings_def enc_SubstringFilter_def
    by (cases x) (rule reads_bind reads_bind_last reads_wrap string_readers reads_ReadSubBytes
        consumes_substrings consumes_reads | simp)+
qed

section \<open>Filters\<close>

fun enc_filter :: "Filter \<Rightarrow> byte list" where
  "enc_filter (FilterAnd fs) = tlv classContextSpecific isCompound TagFilterAnd (concat (map enc_filter fs))"
| "enc_filter (FilterOr fs) = tlv classContextSpecific isCompound TagFilterOr (concat (map enc_filter fs))"
| "enc_filter (FilterNot f) = tlv classContextSpecific isCompound TagFilterNot (enc_filter f)"
| "enc_filter (FilterEqualityMatch a) = tlv classContextSpecific isCompound TagFilterEqualityMatch (enc_ava a)"
| "enc_filter (FilterSubstrings s) =
     tlv classContextSpecific isCompound TagFilterSubstrings (enc_SubstringFilter s)"
| "enc_filter (FilterGreaterOrEqual a) = tlv classContextSpecific isCompound TagFilterGreaterOrEqual (enc_ava a)"
| "enc_filter (FilterLessOrEqual a) = tlv classContextSpecific isCompound TagFilterLessOrEqual (enc_ava a)"
| "enc_filter (FilterPresent d) = tlv classContextSpecific isNotCompound TagFilterPresent (bytes_of d)"
| "enc_filter (FilterApproxMatch a) = tlv classContextSpecific isCompound TagFilterApproxMatch (enc_ava a)"
| "enc_filter (FilterExtensibleMatch m) = tlv classContextSpecific isCompound TagFilterExtensibleMatch (enc_mra m)"

fun wf_filter :: "Filter \<Rightarrow> bool" where
  "wf_filter (FilterAnd fs) \<longleftrightarrow> fs \<noteq> [] \<and> list_all wf_filter fs"
| "wf_filter (FilterOr fs) \<longleftrightarrow> fs \<noteq> [] \<and> list_all wf_filter fs"
| "wf_filter (FilterNot f) \<longleftrightarrow> wf_filter f"
| "wf_filter (FilterSubstrings s) \<longleftrightarrow> wf_SubstringFilter s"
| "wf_filter (FilterExtensibleMatch m) \<longleftrightarrow> mra_dnAttributes m"
| "wf_filter _ \<longleftrightarrow> True"

lemma enc_filter_nonempty [simp]: "enc_filter f \<noteq> []"
  by (cases f) simp_all

lemma writes_filter: "writes (Filter_write f) (enc_filter f)"
proof (induction f)
  case (FilterPresent d)
  then show ?case using string_writers(6) [of classContextSpecific TagFilterPresent d]
    by (simp add: enc_str_def)
qed (auto simp: AttributeValueAssertion_writeTagged_def SubstringFilter_writeTagged_def
    intro!: writes_tagged writes_list AVA_body.writes_components SubstringFilter_body.writes_components writes_mra)

lemma size_tagged_bodies:
  "tag < 31 \<Longrightarrow> AttributeValueAssertion_sizeTagged a tag = tlv_size (length (enc_ava a))"
  "tag < 31 \<Longrightarrow> SubstringFilter_sizeTagged s tag = tlv_size (length (enc_SubstringFilter s))"
  by (simp_all only: AttributeValueAssertion_sizeTagged_def SubstringFilter_sizeTagged_def
      AVA_body.size_components SubstringFilter_body.size_components size_tagged_size)

lemma size_filter: "Filter_size f = length (enc_filter f)"
proof (induction f)
  case (FilterAnd fs)
  then show ?case by (simp add: size_rules sum_list_size del: length_concat)
next
  case (FilterOr fs)
  then show ?case by (simp add: size_rules sum_list_size del: length_concat)
qed (simp_all add: size_tagged_bodies size_mra size_rules)

lemma readFilterCase_simps [simp]:
  "readFilterCase r TagFilterAnd = Some (readFilterAnd r)"
  "readFilterCase r TagFilterOr = Some (readFilterOr r)"
  "readFilterCase r TagFilterNot = Some (readFilterNot r)"
  "readFilterCase r TagFilterEqualityMatch = Some readFilterEqualityMatch"
  "readFilterCase r TagFilterSubstrings = Some readFilterSubstrings"
  "readFilterCase r TagFilterGreaterOrEqual = Some readFilterGreaterOrEqual"
  "readFilterCase r TagFilterLessOrEqual = Some readFilterLessOrEqual"
  "readFilterCase r TagFilterPresent = Some readFilterPresent"
  "readFilterCase r TagFilterApproxMatch = Some readFilterApproxMatch"
  "readFilterCase r TagFilterExtensibleMatch = Some readFilterExtensibleMatch"
  unfolding readFilterCase_def by (simp_all add: ldap_tags)

lemma reads_filter_case:
  assumes "reads readF (tlv classContextSpecific cmp tag c) f"
    and "readFilterCase (readFilterN n) tag = Some readF" and "low_tag classContextSpecific tag"
  shows "reads (readFilterN (Suc n)) (tlv classContextSpecific cmp tag c) f"
  using assms(1,2) unfolding readFilterN.simps
  by (intro reads_preview assms(3)) (auto simp: ExpectClass_def go_bind_def reads_if_def)

lemmas ava_filter_defs = readFilterEqualityMatch_def readFilterGreaterOrEqual_def
  readFilterLessOrEqual_def readFilterApproxMatch_def readTaggedAttributeValueAssertion_def

lemma length_le_concat: "x \<in> set xs \<Longrightarrow> length (e x) \<le> length (concat (map e xs))"
  by (induction xs) auto

lemma consumes_filter_list:
  assumes "\<And>x. x \<in> set fs \<Longrightarrow> reads r (enc_filter x) x" and "fs \<noteq> []"
  shows "consumes (FilterAnd_readComponents r) (concat (map enc_filter fs)) fs"
    and "consumes (FilterOr_readComponents r) (concat (map enc_filter fs)) fs"
  unfolding FilterAnd_readComponents_def FilterOr_readComponents_def
  by (rule reads_bind_last [OF consumes_read_all], simp add: reads_wrap assms(1), simp add: assms(2))+

lemma reads_ava_filter:
  assumes "readFilterCase (readFilterN n) tag = Some (go_map F (go_wrap c
      (readTaggedAttributeValueAssertion classContextSpecific tag)))"
    and "low_tag classContextSpecific tag" and "length (tlv classContextSpecific isCompound tag (enc_ava a)) \<le> k" and "n = k - 1"
  shows "reads (readFilterN k) (tlv classContextSpecific isCompound tag (enc_ava a)) (F a)"
proof -
  have "0 < length (tlv classContextSpecific isCompound tag (enc_ava a))" by simp
  then have k: "k = Suc n" using assms(3,4) by linarith
  have "reads (go_map F (go_wrap c (readTaggedAttributeValueAssertion classContextSpecific tag)))
      (tlv classContextSpecific isCompound tag (enc_ava a)) (F a)"
    unfolding readTaggedAttributeValueAssertion_def
    by (rule reads_map [OF _ refl], intro reads_wrap reads_ReadSubBytes AVA_body.consumes_components assms(2)) simp
  from reads_filter_case [OF this assms(1,2)] show ?thesis by (simp only: k)
qed

lemma reads_readFilterN:
  "wf_filter f \<Longrightarrow> length (enc_filter f) \<le> n \<Longrightarrow> reads (readFilterN n) (enc_filter f) f"
proof (induction f arbitrary: n)
  case (FilterAnd fs)
  let ?c = "concat (map enc_filter fs)"
  obtain m where n: "n = Suc m" using FilterAnd.prems(2) by (cases n) auto
  have "length ?c \<le> m"
    using FilterAnd.prems(2) length_tlv_gr [of ?c classContextSpecific isCompound TagFilterAnd]
    by (simp add: n del: length_concat)
  then have "reads (readFilterN m) (enc_filter x) x" if "x \<in> set fs" for x
    using FilterAnd.IH [OF that, of m] FilterAnd.prems(1) that length_le_concat [OF that, of enc_filter]
    by (auto simp: list_all_iff simp del: length_concat)
  then show ?case unfolding n enc_filter.simps using FilterAnd.prems(1)
    by (intro reads_filter_case [where readF = "readFilterAnd (readFilterN m)"])
       (auto simp: readFilterAnd_def intro!: reads_map reads_wrap reads_ReadSubBytes consumes_filter_list)
next
  case (FilterOr fs)
  let ?c = "concat (map enc_filter fs)"
  obtain m where n: "n = Suc m" using FilterOr.prems(2) by (cases n) auto
  have "length ?c \<le> m"
    using FilterOr.prems(2) length_tlv_gr [of ?c classContextSpecific isCompound TagFilterOr]
    by (simp add: n del: length_concat)
  then have "reads (readFilterN m) (enc_filter x) x" if "x \<in> set fs" for x
    using FilterOr.IH [OF that, of m] FilterOr.prems(1) that length_le_concat [OF that, of enc_filter]
    by (auto simp: list_all_iff simp del: length_concat)
  then show ?case unfolding n enc_filter.simps using FilterOr.prems(1)
    by (intro reads_filter_case [where readF = "readFilterOr (readFilterN m)"])
       (auto simp: readFilterOr_def intro!: reads_map reads_wrap reads_ReadSubBytes consumes_filter_list)
next
  case (FilterNot f)
  obtain m where n: "n = Suc m" using FilterNot.prems(2) by (cases n) auto
  have "length (enc_filter f) \<le> m"
    using FilterNot.prems(2) length_tlv_gr [of "enc_filter f" classContextSpecific isCompound TagFilterNot]
    by (simp add: n)
  then have "reads (readFilterN m) (enc_filter f) f" using FilterNot by simp
  then show ?case unfolding n enc_filter.simps
    by (intro reads_filter_case [where readF = "readFilterNot (readFilterN m)"])
       (auto simp: readFilterNot_def FilterNot_readComponents_def
         intro!: reads_map reads_wrap reads_ReadSubBytes consumes_reads)
next
  case (FilterPresent d)
  then obtain m where n: "n = Suc m" by (cases n) auto
  show ?case unfolding n enc_filter.simps
    using string_readers(5) [of classContextSpecific TagFilterPresent d]
    by (intro reads_filter_case [where readF = readFilterPresent])
       (auto simp: readFilterPresent_def enc_str_def intro!: reads_map reads_wrap)
next
  case (FilterSubstrings s)
  then obtain m where n: "n = Suc m" by (cases n) auto
  show ?case unfolding n enc_filter.simps using FilterSubstrings.prems(1)
    by (intro reads_filter_case [where readF = readFilterSubstrings])
       (auto simp: readFilterSubstrings_def readTaggedSubstringFilter_def
         intro!: reads_map reads_wrap reads_ReadSubBytes SubstringFilter_body.consumes_components)
next
  case (FilterExtensibleMatch x)
  then obtain m where n: "n = Suc m" by (cases n) auto
  show ?case unfolding n enc_filter.simps using FilterExtensibleMatch.prems(1)
    by (intro reads_filter_case [where readF = readFilterExtensibleMatch])
       (auto simp: readFilterExtensibleMatch_def readTaggedMatchingRuleAssertion_def
         intro!: reads_map reads_wrap reads_ReadSubBytes consumes_mra)
qed (simp only: enc_filter.simps, rule reads_ava_filter [OF _ _ _ refl],
     simp only: readFilterCase_simps ava_filter_defs(1-4), simp, assumption)+

lemma reads_filter:
  assumes "wf_filter f"
  shows "reads readFilter (enc_filter f) f"
proof (rule reads_ifI)
  fix pre post assume len: "length (enc_filter f) < 2 ^ 31"
  let ?bs = "\<lparr>bytes = pre @ enc_filter f @ post, offset = length pre\<rparr>"
  have "reads (readFilterN (Suc (length (bytes ?bs)))) (enc_filter f) f"
    by (rule reads_readFilterN [OF assms]) simp
  from reads_ifD [OF this len, where pre = pre and post = post] show "readFilter ?bs =
    (Ok f, \<lparr>bytes = pre @ enc_filter f @ post, offset = length pre + length (enc_filter f)\<rparr>)"
    unfolding readFilter_def by simp
qed

subsection \<open>The nesting bound is enough\<close>

lemma advances_readFilterCase:
  "readFilterCase r tag = Some readF \<Longrightarrow> advances readF"
  unfolding readFilterCase_def
  by (auto simp: readFilterAnd_def readFilterOr_def readFilterNot_def ava_filter_defs readFilterSubstrings_def
      readTaggedSubstringFilter_def readFilterPresent_def readFilterExtensibleMatch_def
      readTaggedMatchingRuleAssertion_def intro!: advances_rules split: if_splits)

lemma advances_readFilterN: "advances (readFilterN n)"
proof (cases n)
  case 0
  then show ?thesis by (simp add: advances_def)
next
  case (Suc m)
  have "advances (case readFilterCase (readFilterN m) tag of
      Some readF \<Rightarrow> go_wrap c readF | None \<Rightarrow> throw e)" for tag c e
    by (auto split: option.split intro!: advances_rules dest: advances_readFilterCase)
  then show ?thesis unfolding Suc readFilterN.simps by (intro advances_rules)
qed

lemma terminates_filter_case:
  assumes r: "terminates_on n r" "advances r" and c: "readFilterCase r tag = Some readF"
  shows "terminates_on (Suc n) readF"
proof -
  have a: "terminates_on n (FilterAnd_readComponents r)" "terminates_on n (FilterOr_readComponents r)"
    "terminates_on n (FilterNot_readComponents r)"
    unfolding FilterAnd_readComponents_def FilterOr_readComponents_def FilterNot_readComponents_def
    by (intro terminates_on_bind terminates_on_read_all terminates_on_wrap advances_wrap r
        terminates_if terminates_throw terminates_ret)+
  have rec: "terminates_on (Suc n) (readFilterAnd r)" "terminates_on (Suc n) (readFilterOr r)"
    "terminates_on (Suc n) (readFilterNot r)"
    unfolding readFilterAnd_def readFilterOr_def readFilterNot_def
    by (intro terminates_on_rules a)+
  have flat: "terminates readFilterEqualityMatch" "terminates readFilterGreaterOrEqual"
    "terminates readFilterLessOrEqual" "terminates readFilterApproxMatch" "terminates readFilterSubstrings"
    "terminates readFilterPresent" "terminates readFilterExtensibleMatch"
    unfolding ava_filter_defs readFilterSubstrings_def readTaggedSubstringFilter_def
      readFilterPresent_def readFilterExtensibleMatch_def
    by (intro terminates_rules AVA_body.terminates_cb SubstringFilter_body.terminates_cb)+
  from c show ?thesis unfolding readFilterCase_def
    by (auto split: if_splits intro!: rec terminates_onI flat)
qed

lemma terminates_readFilterN: "terminates_on n (readFilterN n)"
proof (induction n)
  case 0
  then show ?case by (simp add: terminates_on_def)
next
  case (Suc n)
  have "terminates_on (Suc n) (case readFilterCase (readFilterN n) tag of
      Some readF \<Rightarrow> go_wrap c readF | None \<Rightarrow> throw e)" for tag c e
    using terminates_filter_case [OF Suc.IH advances_readFilterN]
    by (auto split: option.split intro!: terminates_on_wrap terminates_onI [OF terminates_throw])
  then show ?case unfolding readFilterN.simps
    by (intro terminates_on_steady_bind terminates_wrap terminates_Preview terminates_lift
        ExpectClass_not_Diverge steady_wrap steady_Preview steady_lift)
qed

lemma terminates_readFilter: "terminates readFilter"
  unfolding terminates_def readFilter_def
  using terminates_readFilterN by (auto simp: terminates_on_def simp del: readFilterN.simps)

lemma advances_readFilter: "advances readFilter"
  using advances_readFilterN unfolding advances_def readFilter_def by blast

interpretation Filter: ber_codec readFilter Filter_write Filter_size enc_filter wf_filter
  by unfold_locales (simp_all add: terminates_readFilter advances_readFilter writes_filter size_filter reads_filter)

end
