(* ===== verification/Ldap_Ops.thy ===== *)
theory Ldap_Ops
  imports Ldap_Filter_Codec
begin

text \<open>
  The protocol operations: one file of \<^verbatim>\<open>lib/ldapsrv/goldap\<close> each, from
  \<^verbatim>\<open>bind_request.go\<close> to \<^verbatim>\<open>intermediate_response.go\<close>, with \<^verbatim>\<open>password_modify_request.go\<close>.
  The types declared as \<^verbatim>\<open>LDAPResult\<close> share its record. Each operation is shown to satisfy
  \<open>ber_codec\<close>.
\<close>

section \<open>bind\_request.go, bind\_response.go, unbind\_request.go\<close>

record BindRequest =
  bind_version :: INTEGER
  bind_name :: LDAPDN
  bind_authentication :: AuthenticationChoice

definition BindRequest_readComponents :: "(Bytes, BindRequest) go" where
  "BindRequest_readComponents =
     go_bind (go_wrap ''readComponents'' readINTEGER) (\<lambda>v.
     go_bind (if sint v < 1 \<or> 127 < sint v
        then throw (LdapError ''readComponents: invalid version'' [sint v, 1, 127]) else ret ()) (\<lambda>_.
     go_bind (go_wrap ''readComponents'' readLDAPDN) (\<lambda>n.
     go_bind (go_wrap ''readComponents'' readAuthenticationChoice) (\<lambda>a.
     ret \<lparr>bind_version = v, bind_name = n, bind_authentication = a\<rparr>))))"

definition readBindRequest :: "(Bytes, BindRequest) go" where
  "readBindRequest =
     go_wrap ''readBindRequest'' (ReadSubBytes classApplication TagBindRequest BindRequest_readComponents)"

definition AuthenticationChoice_write :: "AuthenticationChoice \<Rightarrow> (Bytes, nat) go" where
  "AuthenticationChoice_write a = (case a of
      AuthSimple s \<Rightarrow> OCTETSTRING_writeTagged s classContextSpecific TagAuthenticationChoiceSimple
    | AuthSasl s \<Rightarrow> SaslCredentials_writeTagged s classContextSpecific TagAuthenticationChoiceSaslCredentials)"

definition AuthenticationChoice_size :: "AuthenticationChoice \<Rightarrow> nat" where
  "AuthenticationChoice_size a = (case a of
      AuthSimple s \<Rightarrow> OCTETSTRING_sizeTagged s TagAuthenticationChoiceSimple
    | AuthSasl s \<Rightarrow> SaslCredentials_sizeTagged s TagAuthenticationChoiceSaslCredentials)"

definition BindRequest_write :: "BindRequest \<Rightarrow> (Bytes, nat) go" where
  "BindRequest_write r =
     write_tagged classApplication isCompound TagBindRequest
       (write_then (write_then
         (AuthenticationChoice_write (bind_authentication r))
         (LDAPDN_write (bind_name r)))
         (INTEGER_write (bind_version r)))"

definition BindRequest_size :: "BindRequest \<Rightarrow> nat" where
  "BindRequest_size r =
     size_tagged TagBindRequest
       (INTEGER_size (bind_version r) + LDAPDN_size (bind_name r)
        + AuthenticationChoice_size (bind_authentication r))"

definition BindRequest_AuthenticationSimple :: "BindRequest \<Rightarrow> OCTETSTRING outcome" where
  "BindRequest_AuthenticationSimple r = (case bind_authentication r of
      AuthSimple s \<Rightarrow> Ok s | AuthSasl s \<Rightarrow> Panic ''interface conversion'')"

definition BindRequest_AuthenticationChoice :: "BindRequest \<Rightarrow> string" where
  "BindRequest_AuthenticationChoice r = (case bind_authentication r of
      AuthSimple s \<Rightarrow> ''simple'' | AuthSasl s \<Rightarrow> ''sasl'')"

record BindResponse =
  bresp_LDAPResult :: LDAPResult
  bresp_serverSaslCreds :: "OCTETSTRING option"

definition BindResponse_readComponents :: "(Bytes, BindResponse) go" where
  "BindResponse_readComponents =
     go_bind (go_wrap ''error while reading LDAP result'' LDAPResult_readComponents) (\<lambda>r.
     go_bind (read_optional TagBindResponseServerSaslCreds
       (readTaggedOCTETSTRING classContextSpecific TagBindResponseServerSaslCreds)) (\<lambda>c.
     ret \<lparr>bresp_LDAPResult = r, bresp_serverSaslCreds = c\<rparr>))"

definition readBindResponse :: "(Bytes, BindResponse) go" where
  "readBindResponse =
     go_wrap ''readBindResponse'' (ReadSubBytes classApplication TagBindResponse BindResponse_readComponents)"

definition BindResponse_write :: "BindResponse \<Rightarrow> (Bytes, nat) go" where
  "BindResponse_write r =
     write_tagged classApplication isCompound TagBindResponse
       (write_then
         (write_opt (\<lambda>c. OCTETSTRING_writeTagged c classContextSpecific TagBindResponseServerSaslCreds)
           (bresp_serverSaslCreds r))
         (LDAPResult_writeComponents (bresp_LDAPResult r)))"

definition BindResponse_size :: "BindResponse \<Rightarrow> nat" where
  "BindResponse_size r =
     size_tagged TagBindResponse
       (size_opt (\<lambda>c. OCTETSTRING_sizeTagged c TagBindResponseServerSaslCreds) (bresp_serverSaslCreds r)
        + LDAPResult_sizeComponents (bresp_LDAPResult r))"

definition readUnbindRequest :: "(Bytes, unit) go" where
  "readUnbindRequest =
     go_bind (go_wrap ''readUnbindRequest'' ParseTagAndLength) (\<lambda>t.
     go_bind (go_wrap ''readUnbindRequest'' (lift (Expect t classApplication TagUnbindRequest isNotCompound))) (\<lambda>_.
       if Length t \<noteq> 0 then throw (LdapError ''readUnbindRequest: expecting NULL'' []) else ret ()))"

definition UnbindRequest_write :: "unit \<Rightarrow> (Bytes, nat) go" where
  "UnbindRequest_write u = WriteTagAndLength classApplication isNotCompound TagUnbindRequest 0"

definition UnbindRequest_size :: "unit \<Rightarrow> nat" where
  "UnbindRequest_size u = sizeTagAndLength TagUnbindRequest 0"

section \<open>search\_request.go and the search results\<close>

record SearchRequest =
  sr_baseObject :: LDAPDN
  sr_scope :: ENUMERATED
  sr_derefAliases :: ENUMERATED
  sr_sizeLimit :: INTEGER
  sr_timeLimit :: INTEGER
  sr_typesOnly :: BOOLEAN
  sr_filter :: Filter
  sr_attributes :: AttributeSelection

definition SearchRequest_readComponents :: "(Bytes, SearchRequest) go" where
  "SearchRequest_readComponents =
     go_bind (go_wrap ''readComponents'' readLDAPDN) (\<lambda>b.
     go_bind (go_wrap ''readComponents'' (readENUMERATED EnumeratedSearchRequestScope)) (\<lambda>sc.
     go_bind (go_wrap ''readComponents'' (readENUMERATED EnumeratedSearchRequestDerefAliases)) (\<lambda>d.
     go_bind (go_wrap ''readComponents'' readPositiveINTEGER) (\<lambda>sl.
     go_bind (go_wrap ''readComponents'' readPositiveINTEGER) (\<lambda>tl.
     go_bind (go_wrap ''readComponents'' readBOOLEAN) (\<lambda>ty.
     go_bind (go_wrap ''readComponents'' readFilter) (\<lambda>f.
     go_bind (go_wrap ''readComponents'' readAttributeSelection) (\<lambda>a.
     ret \<lparr>sr_baseObject = b, sr_scope = sc, sr_derefAliases = d, sr_sizeLimit = sl, sr_timeLimit = tl,
          sr_typesOnly = ty, sr_filter = f, sr_attributes = a\<rparr>))))))))"

definition readSearchRequest :: "(Bytes, SearchRequest) go" where
  "readSearchRequest =
     go_wrap ''readSearchRequest'' (ReadSubBytes classApplication TagSearchRequest SearchRequest_readComponents)"

definition SearchRequest_write :: "SearchRequest \<Rightarrow> (Bytes, nat) go" where
  "SearchRequest_write s =
     write_tagged classApplication isCompound TagSearchRequest
       (write_then (write_then (write_then (write_then (write_then (write_then (write_then
         (AttributeSelection_write (sr_attributes s))
         (Filter_write (sr_filter s)))
         (BOOLEAN_write (sr_typesOnly s)))
         (INTEGER_write (sr_timeLimit s)))
         (INTEGER_write (sr_sizeLimit s)))
         (ENUMERATED_write (sr_derefAliases s)))
         (ENUMERATED_write (sr_scope s)))
         (LDAPDN_write (sr_baseObject s)))"

definition SearchRequest_size :: "SearchRequest \<Rightarrow> nat" where
  "SearchRequest_size s =
     size_tagged TagSearchRequest
       (LDAPDN_size (sr_baseObject s) + ENUMERATED_size (sr_scope s) + ENUMERATED_size (sr_derefAliases s)
        + INTEGER_size (sr_sizeLimit s) + INTEGER_size (sr_timeLimit s) + BOOLEAN_size (sr_typesOnly s)
        + Filter_size (sr_filter s) + AttributeSelection_size (sr_attributes s))"

definition FilterString :: "SearchRequest \<Rightarrow> string" where
  "FilterString s = decompileFilter (sr_filter s)"

record SearchResultEntry =
  sre_objectName :: LDAPDN
  sre_attributes :: PartialAttributeList

definition SearchResultEntry_readComponents :: "(Bytes, SearchResultEntry) go" where
  "SearchResultEntry_readComponents =
     go_bind (go_wrap ''readComponents'' readLDAPDN) (\<lambda>n.
     go_bind (go_wrap ''readComponents'' readPartialAttributeList) (\<lambda>a.
     ret \<lparr>sre_objectName = n, sre_attributes = a\<rparr>))"

definition readSearchResultEntry :: "(Bytes, SearchResultEntry) go" where
  "readSearchResultEntry =
     go_wrap ''readSearchResultEntry''
       (ReadSubBytes classApplication TagSearchResultEntry SearchResultEntry_readComponents)"

definition SearchResultEntry_write :: "SearchResultEntry \<Rightarrow> (Bytes, nat) go" where
  "SearchResultEntry_write s =
     write_tagged classApplication isCompound TagSearchResultEntry
       (write_then (PartialAttributeList_write (sre_attributes s)) (LDAPDN_write (sre_objectName s)))"

definition SearchResultEntry_size :: "SearchResultEntry \<Rightarrow> nat" where
  "SearchResultEntry_size s =
     size_tagged tagSequence (LDAPDN_size (sre_objectName s) + PartialAttributeList_size (sre_attributes s))"

definition SearchResultEntry_SetObjectName :: "string \<Rightarrow> SearchResultEntry \<Rightarrow> SearchResultEntry" where
  "SearchResultEntry_SetObjectName on s = s\<lparr>sre_objectName := on\<rparr>"

definition SearchResultEntry_AddAttribute ::
    "AttributeDescription \<Rightarrow> AttributeValue list \<Rightarrow> SearchResultEntry \<Rightarrow> SearchResultEntry" where
  "SearchResultEntry_AddAttribute name values s =
     s\<lparr>sre_attributes := PartialAttributeList_add (sre_attributes s) \<lparr>pa_type = name, pa_vals = values\<rparr>\<rparr>"

type_synonym SearchResultReference = "URI list"

definition SearchResultReference_readComponents :: "(Bytes, SearchResultReference) go" where
  "SearchResultReference_readComponents =
     go_bind (read_all (go_wrap ''readComponents'' readURI)) (\<lambda>r.
       if r = [] then throw (LdapError ''readComponents: expecting at least one URI'' [])
       else ret r)"

definition readSearchResultReference :: "(Bytes, SearchResultReference) go" where
  "readSearchResultReference =
     go_wrap ''readSearchResultReference''
       (ReadSubBytes classApplication TagSearchResultReference SearchResultReference_readComponents)"

definition SearchResultReference_write :: "SearchResultReference \<Rightarrow> (Bytes, nat) go" where
  "SearchResultReference_write s =
     write_tagged classApplication isCompound TagSearchResultReference (write_list URI_write s)"

definition SearchResultReference_size :: "SearchResultReference \<Rightarrow> nat" where
  "SearchResultReference_size s = size_tagged tagSequence (sum_list (map URI_size s))"

section \<open>modify\_request.go, modify\_request\_change.go, modify\_dn\_request.go\<close>

record ModifyRequestChange =
  mc_operation :: ENUMERATED
  mc_modification :: PartialAttribute

record ModifyRequest =
  mod_object :: LDAPDN
  mod_changes :: "ModifyRequestChange list"

definition ModifyRequestChange_readComponents :: "(Bytes, ModifyRequestChange) go" where
  "ModifyRequestChange_readComponents =
     go_bind (go_wrap ''readComponents'' (readENUMERATED EnumeratedModifyRequestChangeOperation)) (\<lambda>p.
     go_bind (go_wrap ''readComponents'' readPartialAttribute) (\<lambda>m.
     ret \<lparr>mc_operation = p, mc_modification = m\<rparr>))"

definition readModifyRequestChange :: "(Bytes, ModifyRequestChange) go" where
  "readModifyRequestChange =
     go_wrap ''readModifyRequestChange''
       (ReadSubBytes classUniversal tagSequence ModifyRequestChange_readComponents)"

definition ModifyRequestChange_write :: "ModifyRequestChange \<Rightarrow> (Bytes, nat) go" where
  "ModifyRequestChange_write m =
     write_tagged classUniversal isCompound tagSequence
       (write_then (PartialAttribute_write (mc_modification m)) (ENUMERATED_write (mc_operation m)))"

definition ModifyRequestChange_size :: "ModifyRequestChange \<Rightarrow> nat" where
  "ModifyRequestChange_size m =
     size_tagged tagSequence (ENUMERATED_size (mc_operation m) + PartialAttribute_size (mc_modification m))"

definition ModifyRequest_readChanges :: "(Bytes, ModifyRequestChange list) go" where
  "ModifyRequest_readChanges = read_all (go_wrap ''readChanges'' readModifyRequestChange)"

definition ModifyRequest_readComponents :: "(Bytes, ModifyRequest) go" where
  "ModifyRequest_readComponents =
     go_bind (go_wrap ''readComponents'' readLDAPDN) (\<lambda>d.
     go_bind (ReadSubBytes classUniversal tagSequence ModifyRequest_readChanges) (\<lambda>cs.
     ret \<lparr>mod_object = d, mod_changes = cs\<rparr>))"

definition readModifyRequest :: "(Bytes, ModifyRequest) go" where
  "readModifyRequest =
     go_wrap ''readModifyRequest'' (ReadSubBytes classApplication TagModifyRequest ModifyRequest_readComponents)"

definition ModifyRequest_write :: "ModifyRequest \<Rightarrow> (Bytes, nat) go" where
  "ModifyRequest_write m =
     write_tagged classApplication isCompound TagModifyRequest
       (write_then
         (write_tagged classUniversal isCompound tagSequence
           (write_list ModifyRequestChange_write (mod_changes m)))
         (LDAPDN_write (mod_object m)))"

definition ModifyRequest_size :: "ModifyRequest \<Rightarrow> nat" where
  "ModifyRequest_size m =
     size_tagged TagModifyRequest
       (size_tagged tagSequence (sum_list (map ModifyRequestChange_size (mod_changes m)))
        + LDAPDN_size (mod_object m))"

record ModifyDNRequest =
  mdn_entry :: LDAPDN
  mdn_newrdn :: RelativeLDAPDN
  mdn_deleteoldrdn :: BOOLEAN
  mdn_newSuperior :: "LDAPDN option"

definition ModifyDNRequest_readComponents :: "(Bytes, ModifyDNRequest) go" where
  "ModifyDNRequest_readComponents =
     go_bind (go_wrap ''readComponents'' readLDAPDN) (\<lambda>e.
     go_bind (go_wrap ''readComponents'' readRelativeLDAPDN) (\<lambda>n.
     go_bind (go_wrap ''readComponents'' readBOOLEAN) (\<lambda>d.
     go_bind (read_optional TagModifyDNRequestNewSuperior
       (readTaggedLDAPDN classContextSpecific TagModifyDNRequestNewSuperior)) (\<lambda>s.
     ret \<lparr>mdn_entry = e, mdn_newrdn = n, mdn_deleteoldrdn = d, mdn_newSuperior = s\<rparr>))))"

definition readModifyDNRequest :: "(Bytes, ModifyDNRequest) go" where
  "readModifyDNRequest =
     go_wrap ''readModifyDNRequest''
       (ReadSubBytes classApplication TagModifyDNRequest ModifyDNRequest_readComponents)"

definition ModifyDNRequest_write :: "ModifyDNRequest \<Rightarrow> (Bytes, nat) go" where
  "ModifyDNRequest_write m =
     write_tagged classApplication isCompound TagModifyDNRequest
       (write_then (write_then (write_then
         (write_opt (\<lambda>s. LDAPDN_writeTagged s classContextSpecific TagModifyDNRequestNewSuperior)
           (mdn_newSuperior m))
         (BOOLEAN_write (mdn_deleteoldrdn m)))
         (RelativeLDAPDN_write (mdn_newrdn m)))
         (LDAPDN_write (mdn_entry m)))"

definition ModifyDNRequest_size :: "ModifyDNRequest \<Rightarrow> nat" where
  "ModifyDNRequest_size m =
     size_tagged TagModifyDNRequest
       (LDAPDN_size (mdn_entry m) + RelativeLDAPDN_size (mdn_newrdn m) + BOOLEAN_size (mdn_deleteoldrdn m)
        + size_opt (\<lambda>s. LDAPDN_sizeTagged s TagModifyDNRequestNewSuperior) (mdn_newSuperior m))"

section \<open>add\_request.go, del\_request.go, compare\_request.go, abandon\_request.go\<close>

record AddRequest =
  add_entry :: LDAPDN
  add_attributes :: AttributeList

definition AddRequest_readComponents :: "(Bytes, AddRequest) go" where
  "AddRequest_readComponents =
     go_bind (go_wrap ''readComponents'' readLDAPDN) (\<lambda>e.
     go_bind (go_wrap ''readComponents'' readAttributeList) (\<lambda>a.
     ret \<lparr>add_entry = e, add_attributes = a\<rparr>))"

definition readAddRequest :: "(Bytes, AddRequest) go" where
  "readAddRequest =
     go_wrap ''readAddRequest'' (ReadSubBytes classApplication TagAddRequest AddRequest_readComponents)"

definition AddRequest_size :: "AddRequest \<Rightarrow> nat" where
  "AddRequest_size a =
     size_tagged TagAddRequest (LDAPDN_size (add_entry a) + AttributeList_size (add_attributes a))"

definition AddRequest_write :: "AddRequest \<Rightarrow> (Bytes, nat) go" where
  "AddRequest_write a =
     write_tagged classApplication isCompound TagAddRequest
       (write_then (AttributeList_write (add_attributes a)) (LDAPDN_write (add_entry a)))"

type_synonym DelRequest = LDAPDN

definition readDelRequest :: "(Bytes, DelRequest) go" where
  "readDelRequest = go_wrap ''readDelRequest'' (readTaggedLDAPDN classApplication TagDelRequest)"

definition DelRequest_write :: "DelRequest \<Rightarrow> (Bytes, nat) go" where
  "DelRequest_write d = LDAPDN_writeTagged d classApplication TagDelRequest"

definition DelRequest_size :: "DelRequest \<Rightarrow> nat" where
  "DelRequest_size d = LDAPDN_sizeTagged d TagDelRequest"

record CompareRequest =
  cmp_entry :: LDAPDN
  cmp_ava :: AttributeValueAssertion

definition CompareRequest_readComponents :: "(Bytes, CompareRequest) go" where
  "CompareRequest_readComponents =
     go_bind (go_wrap ''readComponents'' readLDAPDN) (\<lambda>e.
     go_bind (go_wrap ''readComponents'' readAttributeValueAssertion) (\<lambda>a.
     ret \<lparr>cmp_entry = e, cmp_ava = a\<rparr>))"

definition readCompareRequest :: "(Bytes, CompareRequest) go" where
  "readCompareRequest =
     go_wrap ''readCompareRequest'' (ReadSubBytes classApplication TagCompareRequest CompareRequest_readComponents)"

definition CompareRequest_write :: "CompareRequest \<Rightarrow> (Bytes, nat) go" where
  "CompareRequest_write r =
     write_tagged classApplication isCompound TagCompareRequest
       (write_then (AttributeValueAssertion_write (cmp_ava r)) (LDAPDN_write (cmp_entry r)))"

definition CompareRequest_size :: "CompareRequest \<Rightarrow> nat" where
  "CompareRequest_size r =
     size_tagged TagCompareRequest (LDAPDN_size (cmp_entry r) + AttributeValueAssertion_size (cmp_ava r))"

type_synonym AbandonRequest = MessageID

definition readAbandonRequest :: "(Bytes, AbandonRequest) go" where
  "readAbandonRequest = go_wrap ''readAbandonRequest'' (readTaggedMessageID classApplication TagAbandonRequest)"

definition AbandonRequest_size :: "AbandonRequest \<Rightarrow> nat" where
  "AbandonRequest_size a = MessageID_sizeTagged a TagAbandonRequest"

definition AbandonRequest_write :: "AbandonRequest \<Rightarrow> (Bytes, nat) go" where
  "AbandonRequest_write a = MessageID_writeTagged a classApplication TagAbandonRequest"

section \<open>The responses that are an LDAPResult\<close>

definition readSearchResultDone :: "(Bytes, LDAPResult) go" where
  "readSearchResultDone = go_wrap ''readSearchResultDone'' (readTaggedLDAPResult classApplication TagSearchResultDone)"

definition SearchResultDone_write :: "LDAPResult \<Rightarrow> (Bytes, nat) go" where
  "SearchResultDone_write r = LDAPResult_writeTagged r classApplication TagSearchResultDone"

definition SearchResultDone_size :: "LDAPResult \<Rightarrow> nat" where
  "SearchResultDone_size r = LDAPResult_sizeTagged r TagSearchResultDone"

definition readModifyResponse :: "(Bytes, LDAPResult) go" where
  "readModifyResponse = go_wrap ''readModifyResponse'' (readTaggedLDAPResult classApplication TagModifyResponse)"

definition ModifyResponse_write :: "LDAPResult \<Rightarrow> (Bytes, nat) go" where
  "ModifyResponse_write r = LDAPResult_writeTagged r classApplication TagModifyResponse"

definition ModifyResponse_size :: "LDAPResult \<Rightarrow> nat" where
  "ModifyResponse_size r = LDAPResult_sizeTagged r TagModifyResponse"

definition readAddResponse :: "(Bytes, LDAPResult) go" where
  "readAddResponse = go_wrap ''readAddResponse'' (readTaggedLDAPResult classApplication TagAddResponse)"

definition AddResponse_write :: "LDAPResult \<Rightarrow> (Bytes, nat) go" where
  "AddResponse_write r = LDAPResult_writeTagged r classApplication TagAddResponse"

definition AddResponse_size :: "LDAPResult \<Rightarrow> nat" where
  "AddResponse_size r = LDAPResult_sizeTagged r TagAddResponse"

definition readDelResponse :: "(Bytes, LDAPResult) go" where
  "readDelResponse = go_wrap ''readDelResponse'' (readTaggedLDAPResult classApplication TagDelResponse)"

definition DelResponse_write :: "LDAPResult \<Rightarrow> (Bytes, nat) go" where
  "DelResponse_write r = LDAPResult_writeTagged r classApplication TagDelResponse"

definition DelResponse_size :: "LDAPResult \<Rightarrow> nat" where
  "DelResponse_size r = LDAPResult_sizeTagged r TagDelResponse"

definition readModifyDNResponse :: "(Bytes, LDAPResult) go" where
  "readModifyDNResponse = go_wrap ''readModifyDNResponse'' (readTaggedLDAPResult classApplication TagModifyDNResponse)"

definition ModifyDNResponse_write :: "LDAPResult \<Rightarrow> (Bytes, nat) go" where
  "ModifyDNResponse_write r = LDAPResult_writeTagged r classApplication TagModifyDNResponse"

definition ModifyDNResponse_size :: "LDAPResult \<Rightarrow> nat" where
  "ModifyDNResponse_size r = LDAPResult_sizeTagged r TagModifyDNResponse"

definition readCompareResponse :: "(Bytes, LDAPResult) go" where
  "readCompareResponse = go_wrap ''readCompareResponse'' (readTaggedLDAPResult classApplication TagCompareResponse)"

definition CompareResponse_write :: "LDAPResult \<Rightarrow> (Bytes, nat) go" where
  "CompareResponse_write r = LDAPResult_writeTagged r classApplication TagCompareResponse"

definition CompareResponse_size :: "LDAPResult \<Rightarrow> nat" where
  "CompareResponse_size r = LDAPResult_sizeTagged r TagCompareResponse"

section \<open>extended\_request.go, extended\_response.go, intermediate\_response.go\<close>

record ExtendedRequest =
  ext_requestName :: LDAPOID
  ext_requestValue :: "OCTETSTRING option"

definition ExtendedRequest_readComponents :: "(Bytes, ExtendedRequest) go" where
  "ExtendedRequest_readComponents =
     go_bind (go_wrap ''readComponents'' (readTaggedLDAPOID classContextSpecific TagExtendedRequestName)) (\<lambda>n.
     go_bind (read_optional TagExtendedRequestValue
       (readTaggedOCTETSTRING classContextSpecific TagExtendedRequestValue)) (\<lambda>v.
     ret \<lparr>ext_requestName = n, ext_requestValue = v\<rparr>))"

definition readExtendedRequest :: "(Bytes, ExtendedRequest) go" where
  "readExtendedRequest =
     go_wrap ''readExtendedRequest''
       (ReadSubBytes classApplication TagExtendedRequest ExtendedRequest_readComponents)"

definition ExtendedRequest_write :: "ExtendedRequest \<Rightarrow> (Bytes, nat) go" where
  "ExtendedRequest_write e =
     write_tagged classApplication isCompound TagExtendedRequest
       (write_then
         (write_opt (\<lambda>v. OCTETSTRING_writeTagged v classContextSpecific TagExtendedRequestValue)
           (ext_requestValue e))
         (LDAPOID_writeTagged (ext_requestName e) classContextSpecific TagExtendedRequestName))"

definition ExtendedRequest_size :: "ExtendedRequest \<Rightarrow> nat" where
  "ExtendedRequest_size e =
     size_tagged TagExtendedRequest
       (LDAPOID_sizeTagged (ext_requestName e) TagExtendedRequestName
        + size_opt (\<lambda>v. OCTETSTRING_sizeTagged v TagExtendedRequestValue) (ext_requestValue e))"

record ExtendedResponse =
  eresp_LDAPResult :: LDAPResult
  eresp_responseName :: "LDAPOID option"
  eresp_responseValue :: "OCTETSTRING option"

definition ExtendedResponse_SetResponseName :: "LDAPOID \<Rightarrow> ExtendedResponse \<Rightarrow> ExtendedResponse" where
  "ExtendedResponse_SetResponseName name e = e\<lparr>eresp_responseName := Some name\<rparr>"

definition ExtendedResponse_readComponents :: "(Bytes, ExtendedResponse) go" where
  "ExtendedResponse_readComponents =
     go_bind (go_wrap ''error while reading LDAP result'' LDAPResult_readComponents) (\<lambda>r.
     go_bind (read_optional TagExtendedResponseName
       (readTaggedLDAPOID classContextSpecific TagExtendedResponseName)) (\<lambda>n.
     go_bind (read_optional TagExtendedResponseValue
       (readTaggedOCTETSTRING classContextSpecific TagExtendedResponseValue)) (\<lambda>v.
     ret \<lparr>eresp_LDAPResult = r, eresp_responseName = n, eresp_responseValue = v\<rparr>)))"

definition readExtendedResponse :: "(Bytes, ExtendedResponse) go" where
  "readExtendedResponse =
     go_wrap ''readExtendedResponse''
       (ReadSubBytes classApplication TagExtendedResponse ExtendedResponse_readComponents)"

definition ExtendedResponse_write :: "ExtendedResponse \<Rightarrow> (Bytes, nat) go" where
  "ExtendedResponse_write e =
     write_tagged classApplication isCompound TagExtendedResponse
       (write_then (write_then
         (write_opt (\<lambda>v. OCTETSTRING_writeTagged v classContextSpecific TagExtendedResponseValue)
           (eresp_responseValue e))
         (write_opt (\<lambda>n. LDAPOID_writeTagged n classContextSpecific TagExtendedResponseName)
           (eresp_responseName e)))
         (LDAPResult_writeComponents (eresp_LDAPResult e)))"

definition ExtendedResponse_size :: "ExtendedResponse \<Rightarrow> nat" where
  "ExtendedResponse_size e =
     size_tagged TagExtendedResponse
       (LDAPResult_sizeComponents (eresp_LDAPResult e)
        + size_opt (\<lambda>n. LDAPOID_sizeTagged n TagExtendedResponseName) (eresp_responseName e)
        + size_opt (\<lambda>v. OCTETSTRING_sizeTagged v TagExtendedResponseValue) (eresp_responseValue e))"

record IntermediateResponse =
  ir_responseName :: "LDAPOID option"
  ir_responseValue :: "OCTETSTRING option"

definition IntermediateResponse_readComponents :: "(Bytes, IntermediateResponse) go" where
  "IntermediateResponse_readComponents =
     go_bind (read_optional TagIntermediateResponseName
       (readTaggedLDAPOID classContextSpecific TagIntermediateResponseName)) (\<lambda>n.
     go_bind (read_optional TagIntermediateResponseValue
       (readTaggedOCTETSTRING classContextSpecific TagIntermediateResponseValue)) (\<lambda>v.
     ret \<lparr>ir_responseName = n, ir_responseValue = v\<rparr>))"

definition readIntermediateResponse :: "(Bytes, IntermediateResponse) go" where
  "readIntermediateResponse =
     go_wrap ''readIntermediateResponse''
       (ReadSubBytes classApplication TagIntermediateResponse IntermediateResponse_readComponents)"

definition IntermediateResponse_write :: "IntermediateResponse \<Rightarrow> (Bytes, nat) go" where
  "IntermediateResponse_write i =
     write_tagged classApplication isCompound TagIntermediateResponse
       (write_then
         (write_opt (\<lambda>v. OCTETSTRING_writeTagged v classContextSpecific TagIntermediateResponseValue)
           (ir_responseValue i))
         (write_opt (\<lambda>n. LDAPOID_writeTagged n classContextSpecific TagIntermediateResponseName)
           (ir_responseName i)))"

definition IntermediateResponse_size :: "IntermediateResponse \<Rightarrow> nat" where
  "IntermediateResponse_size i =
     size_tagged TagIntermediateResponse
       (size_opt (\<lambda>n. LDAPOID_sizeTagged n TagIntermediateResponseName) (ir_responseName i)
        + size_opt (\<lambda>v. OCTETSTRING_sizeTagged v TagIntermediateResponseValue) (ir_responseValue i))"

section \<open>password\_modify\_request.go\<close>

record PasswordModifyRequest =
  pmr_userIdentity :: "OCTETSTRING option"
  pmr_oldPassword :: "OCTETSTRING option"
  pmr_newPassword :: "OCTETSTRING option"

definition readOptionalOctetString :: "int \<Rightarrow> (Bytes, OCTETSTRING option) go" where
  "readOptionalOctetString expectedTag =
     read_optional expectedTag (readTaggedOCTETSTRING classContextSpecific expectedTag)"

definition PasswordModifyRequest_readComponents :: "(Bytes, PasswordModifyRequest) go" where
  "PasswordModifyRequest_readComponents =
     go_bind (readOptionalOctetString TagPasswordModifyRequestUserIdentity) (\<lambda>u.
     go_bind (readOptionalOctetString TagPasswordModifyRequestOldPassword) (\<lambda>p.
     go_bind (readOptionalOctetString TagPasswordModifyRequestNewPassword) (\<lambda>n.
     ret \<lparr>pmr_userIdentity = u, pmr_oldPassword = p, pmr_newPassword = n\<rparr>)))"

definition readPasswordModifyRequest :: "(Bytes, PasswordModifyRequest) go" where
  "readPasswordModifyRequest =
     go_wrap ''readPasswordModifyRequest''
       (ReadSubBytes classUniversal tagSequence PasswordModifyRequest_readComponents)"

text \<open>The buffer is filled from the end, so this order puts the new password first.\<close>

definition PasswordModifyRequest_write :: "PasswordModifyRequest \<Rightarrow> (Bytes, nat) go" where
  "PasswordModifyRequest_write r =
     write_then (write_then
       (write_opt (\<lambda>s. OCTETSTRING_writeTagged s classContextSpecific TagPasswordModifyRequestUserIdentity)
         (pmr_userIdentity r))
       (write_opt (\<lambda>s. OCTETSTRING_writeTagged s classContextSpecific TagPasswordModifyRequestOldPassword)
         (pmr_oldPassword r)))
       (write_opt (\<lambda>s. OCTETSTRING_writeTagged s classContextSpecific TagPasswordModifyRequestNewPassword)
         (pmr_newPassword r))"

definition PasswordModifyRequest_size :: "PasswordModifyRequest \<Rightarrow> nat" where
  "PasswordModifyRequest_size r =
     size_opt (\<lambda>s. OCTETSTRING_sizeTagged s TagPasswordModifyRequestUserIdentity) (pmr_userIdentity r)
     + size_opt (\<lambda>s. OCTETSTRING_sizeTagged s TagPasswordModifyRequestOldPassword) (pmr_oldPassword r)
     + size_opt (\<lambda>s. OCTETSTRING_sizeTagged s TagPasswordModifyRequestNewPassword) (pmr_newPassword r)"

text \<open>\<^verbatim>\<open>ExtendedRequest.PasswordModifyRequest\<close>: the value of an extended request, parsed.\<close>

definition ErrMissingRequestValue :: goerr where
  "ErrMissingRequestValue = PlainError ''missing RequestValue''"

definition ExtendedRequest_PasswordModifyRequest :: "ExtendedRequest \<Rightarrow> PasswordModifyRequest outcome" where
  "ExtendedRequest_PasswordModifyRequest e = (case ext_requestValue e of
      None \<Rightarrow> Err ErrMissingRequestValue
    | Some v \<Rightarrow> outcome_wrap ''error parsing RequestValue as PasswordModifyRequest''
        (fst (readPasswordModifyRequest (NewBytes 0 (bytes_of v)))))"

end
