(* ===== verification/Ldap_Ops_Codec.thy ===== *)
theory Ldap_Ops_Codec
  imports Ldap_Ops
begin

text \<open>
  Every protocol operation satisfies \<open>ber_codec\<close>. The bodies between the operation's header and
  its end are shown to satisfy \<open>ber_components\<close> first; the header is added by
  \<open>tagged_codec\<close>.
\<close>

context ber_codec
begin

lemma wrap_codec: "ber_codec (go_wrap c rd) wr sz enc wf"
  by unfold_locales
     (simp_all add: terminates_wrap advances_wrap terminates_rd advances_rd writes_enc size_enc
       reads_wrap reads_enc enc_nonempty)

end

lemma tags_differ [simp]:
  "TagBindResponseServerSaslCreds \<noteq> TagLDAPResultReferral"
  "TagExtendedResponseName \<noteq> TagLDAPResultReferral"
  "TagExtendedResponseValue \<noteq> TagLDAPResultReferral"
  "TagExtendedResponseValue \<noteq> TagExtendedResponseName"
  "TagIntermediateResponseValue \<noteq> TagIntermediateResponseName"
  "TagPasswordModifyRequestOldPassword \<noteq> TagPasswordModifyRequestUserIdentity"
  "TagPasswordModifyRequestNewPassword \<noteq> TagPasswordModifyRequestUserIdentity"
  "TagPasswordModifyRequestNewPassword \<noteq> TagPasswordModifyRequestOldPassword"
  by (simp_all add: ldap_tags)

lemma writes_opt_str [codec_rules]:
  "low_tag cls tag \<Longrightarrow> writes (write_opt (\<lambda>s. OCTETSTRING_writeTagged s cls tag) x) (enc_opt (enc_str cls tag) x)"
  "low_tag cls tag \<Longrightarrow> writes (write_opt (\<lambda>s. LDAPDN_writeTagged s cls tag) x) (enc_opt (enc_str cls tag) x)"
  "low_tag cls tag \<Longrightarrow> writes (write_opt (\<lambda>s. LDAPOID_writeTagged s cls tag) x) (enc_opt (enc_str cls tag) x)"
  by (intro writes_opt string_writers; assumption)+

lemma length_opt_str [size_rules]:
  "length (enc_opt (enc_str cls tag) x) = size_opt (\<lambda>s. tlv_size (length s)) x"
  by (cases x) (simp_all add: size_rules)

lemma optional_readers:
  "low_tag cls tag \<Longrightarrow> reads_if (other_tag tag) (read_optional tag (readTaggedOCTETSTRING cls tag))
     (enc_opt (enc_str cls tag) x) x"
  "low_tag cls tag \<Longrightarrow> reads_if (other_tag tag) (read_optional tag (readTaggedLDAPDN cls tag))
     (enc_opt (enc_str cls tag) x) x"
  "low_tag cls tag \<Longrightarrow> reads_if (other_tag tag) (read_optional tag (readTaggedLDAPOID cls tag))
     (enc_opt (enc_str cls tag) x) x"
  by (intro reads_optional_str octet_readers string_readers; assumption)+

section \<open>Bind and unbind\<close>

definition enc_BindRequest :: "BindRequest \<Rightarrow> byte list" where
  "enc_BindRequest r =
     enc_INTEGER (bind_version r) @ enc_OCTETSTRING (bind_name r) @ enc_auth (bind_authentication r)"

definition wf_BindRequest :: "BindRequest \<Rightarrow> bool" where
  "wf_BindRequest r \<longleftrightarrow> 1 \<le> sint (bind_version r) \<and> sint (bind_version r) \<le> 127"

lemma writes_auth: "writes (AuthenticationChoice_write a) (enc_auth a)"
  by (cases a)
     (simp_all add: AuthenticationChoice_write_def SaslCredentials_writeTagged_def string_writers
       writes_tagged Sasl_body.writes_components)

lemma size_auth: "AuthenticationChoice_size a = length (enc_auth a)"
proof (cases a)
  case (AuthSasl s)
  then show ?thesis
    by (simp add: AuthenticationChoice_size_def SaslCredentials_sizeTagged_def Sasl_body.size_components
        size_tagged_size length_tlv_size)
qed (simp add: AuthenticationChoice_size_def size_rules)

interpretation BindRequest_body: ber_components BindRequest_readComponents
  "\<lambda>r. write_then (write_then
     (AuthenticationChoice_write (bind_authentication r)) (LDAPDN_write (bind_name r)))
     (INTEGER_write (bind_version r))"
  "\<lambda>r. INTEGER_size (bind_version r) + LDAPDN_size (bind_name r)
     + AuthenticationChoice_size (bind_authentication r)"
  enc_BindRequest wf_BindRequest
proof (unfold_locales, goal_cases)
  case 1 show ?case unfolding BindRequest_readComponents_def by (intro terminates_rules)
next
  case (2 x) show ?case unfolding enc_BindRequest_def
    by (intro writes_then writes_auth string_writers int_writers)
next
  case (3 x) show ?case by (simp add: enc_BindRequest_def size_rules size_auth)
next
  case (4 x)
  have check: "(if sint (bind_version x) < 1 \<or> 127 < sint (bind_version x)
        then throw (LdapError ''readComponents: invalid version'' [sint (bind_version x), 1, 127])
        else ret ()) = ret ()"
    using 4 by (simp add: wf_BindRequest_def)
  have rest: "consumes (go_bind (ret ()) (\<lambda>_. go_bind (go_wrap ''readComponents'' readLDAPDN) (\<lambda>n.
     go_bind (go_wrap ''readComponents'' readAuthenticationChoice) (\<lambda>a.
     ret \<lparr>bind_version = bind_version x, bind_name = n, bind_authentication = a\<rparr>))))
     ([] @ enc_OCTETSTRING (bind_name x) @ enc_auth (bind_authentication x)) x"
    by (cases x) (rule reads_bind [OF reads_ret] reads_bind reads_bind_last reads_wrap string_readers reads_auth
        consumes_reads | simp)+
  show ?case unfolding BindRequest_readComponents_def enc_BindRequest_def
    by (rule reads_bind [OF reads_wrap [OF int_readers(2)]], unfold check, rule rest [unfolded append_Nil])
qed

interpretation BindRequest: ber_codec readBindRequest BindRequest_write BindRequest_size
  "\<lambda>r. tlv classApplication isCompound TagBindRequest (enc_BindRequest r)" wf_BindRequest
  unfolding readBindRequest_def BindRequest_write_def [abs_def] BindRequest_size_def [abs_def]
  by (rule BindRequest_body.tagged_codec) simp_all

definition enc_BindResponse :: "BindResponse \<Rightarrow> byte list" where
  "enc_BindResponse r =
     enc_LDAPResult (bresp_LDAPResult r) @
     enc_opt (enc_str classContextSpecific TagBindResponseServerSaslCreds) (bresp_serverSaslCreds r)"

interpretation BindResponse_body: ber_components BindResponse_readComponents
  "\<lambda>r. write_then
     (write_opt (\<lambda>c. OCTETSTRING_writeTagged c classContextSpecific TagBindResponseServerSaslCreds)
       (bresp_serverSaslCreds r))
     (LDAPResult_writeComponents (bresp_LDAPResult r))"
  "\<lambda>r. size_opt (\<lambda>c. OCTETSTRING_sizeTagged c TagBindResponseServerSaslCreds) (bresp_serverSaslCreds r)
     + LDAPResult_sizeComponents (bresp_LDAPResult r)"
  enc_BindResponse "\<lambda>r. wf_LDAPResult (bresp_LDAPResult r)"
proof (unfold_locales, goal_cases)
  case 1 show ?case unfolding BindResponse_readComponents_def
    by (intro terminates_rules LDAPResult_body.terminates_cb)
next
  case (2 x) show ?case unfolding enc_BindResponse_def
    by (intro writes_then writes_opt_str LDAPResult_body.writes_components) simp
next
  case (3 x) show ?case
    by (simp add: enc_BindResponse_def LDAPResult_body.size_components size_rules)
next
  case (4 x) show ?case unfolding BindResponse_readComponents_def enc_BindResponse_def
    by (rule reads_bind_optional [OF reads_wrap [OF reads_LDAPResult [OF 4]]],
        rule reads_bind_last [OF consumes_optional [OF optional_readers(1)]])
       (simp, cases x, simp, rule other_tag_opt_str, simp_all)
qed

interpretation BindResponse: ber_codec readBindResponse BindResponse_write BindResponse_size
  "\<lambda>r. tlv classApplication isCompound TagBindResponse (enc_BindResponse r)"
  "\<lambda>r. wf_LDAPResult (bresp_LDAPResult r)"
  unfolding readBindResponse_def BindResponse_write_def [abs_def] BindResponse_size_def [abs_def]
  by (rule BindResponse_body.tagged_codec) simp_all

interpretation UnbindRequest: ber_codec readUnbindRequest UnbindRequest_write UnbindRequest_size
  "\<lambda>_. tlv classApplication isNotCompound TagUnbindRequest []" "\<lambda>_. True"
proof (unfold_locales, goal_cases)
  case 1 show ?case unfolding readUnbindRequest_def
    by (intro terminates_rules ParseTagAndLength_not_Diverge) simp
next
  case 2
  have "advances ParseTagAndLength"
    unfolding advances_def using ParseTagAndLength_advances by blast
  then show ?case unfolding readUnbindRequest_def by (intro advances_rules)
next
  case (3 x)
  then show ?case
    using writes_header [of classApplication TagUnbindRequest isNotCompound 0]
    by (simp add: UnbindRequest_write_def tlv_def)
next
  case (4 x) show ?case
    using sizeTagAndLength_header [of classApplication TagUnbindRequest TagUnbindRequest 0 isNotCompound]
    by (simp add: UnbindRequest_size_def tlv_def)
next
  case (5 x) show ?case
  proof (rule reads_ifI)
    fix pre post :: "byte list"
    show "readUnbindRequest
      \<lparr>bytes = pre @ tlv classApplication isNotCompound TagUnbindRequest [] @ post, offset = length pre\<rparr> =
     (Ok x, \<lparr>bytes = pre @ tlv classApplication isNotCompound TagUnbindRequest [] @ post,
       offset = length pre + length (tlv classApplication isNotCompound TagUnbindRequest [])\<rparr>)"
      using ParseTagAndLength_tlv [of classApplication TagUnbindRequest "[]" pre isNotCompound post]
      by (simp add: readUnbindRequest_def tlv_def)
  qed
next
  case (6 x) show ?case by simp
qed

section \<open>Search\<close>

definition enc_SearchRequest :: "SearchRequest \<Rightarrow> byte list" where
  "enc_SearchRequest s =
     enc_OCTETSTRING (sr_baseObject s) @ enc_ENUMERATED (sr_scope s) @ enc_ENUMERATED (sr_derefAliases s) @
     enc_INTEGER (sr_sizeLimit s) @ enc_INTEGER (sr_timeLimit s) @ enc_BOOLEAN (sr_typesOnly s) @
     enc_filter (sr_filter s) @ enc_seq enc_OCTETSTRING (sr_attributes s)"

definition wf_SearchRequest :: "SearchRequest \<Rightarrow> bool" where
  "wf_SearchRequest s \<longleftrightarrow>
     sr_scope s \<in> fst ` set EnumeratedSearchRequestScope \<and>
     sr_derefAliases s \<in> fst ` set EnumeratedSearchRequestDerefAliases \<and>
     0 \<le> sint (sr_sizeLimit s) \<and> 0 \<le> sint (sr_timeLimit s) \<and> wf_filter (sr_filter s)"

interpretation SearchRequest_body: ber_components SearchRequest_readComponents
  "\<lambda>s. write_then (write_then (write_then (write_then (write_then (write_then (write_then
     (AttributeSelection_write (sr_attributes s)) (Filter_write (sr_filter s)))
     (BOOLEAN_write (sr_typesOnly s))) (INTEGER_write (sr_timeLimit s)))
     (INTEGER_write (sr_sizeLimit s))) (ENUMERATED_write (sr_derefAliases s)))
     (ENUMERATED_write (sr_scope s))) (LDAPDN_write (sr_baseObject s))"
  "\<lambda>s. LDAPDN_size (sr_baseObject s) + ENUMERATED_size (sr_scope s) + ENUMERATED_size (sr_derefAliases s)
     + INTEGER_size (sr_sizeLimit s) + INTEGER_size (sr_timeLimit s) + BOOLEAN_size (sr_typesOnly s)
     + Filter_size (sr_filter s) + AttributeSelection_size (sr_attributes s)"
  enc_SearchRequest wf_SearchRequest
proof (unfold_locales, goal_cases)
  case 1 show ?case unfolding SearchRequest_readComponents_def
    by (intro terminates_rules Filter.terminates_rd AttributeSelection.terminates_rd)
next
  case (2 x) show ?case unfolding enc_SearchRequest_def
    by (intro writes_then AttributeSelection.writes_enc Filter.writes_enc codec_leaf_rules)
next
  case (3 x) show ?case
    by (simp add: enc_SearchRequest_def size_rules Filter.size_enc AttributeSelection.size_enc)
next
  case (4 x) then show ?case unfolding SearchRequest_readComponents_def enc_SearchRequest_def
    by (cases x) (rule reads_bind reads_bind_last reads_wrap string_readers enum_reader
        positive_int_readers(2) bool_readers Filter.reads_enc AttributeSelection.reads_enc consumes_reads
        | simp add: wf_SearchRequest_def)+
qed

interpretation SearchRequest: ber_codec readSearchRequest SearchRequest_write SearchRequest_size
  "\<lambda>r. tlv classApplication isCompound TagSearchRequest (enc_SearchRequest r)" wf_SearchRequest
  unfolding readSearchRequest_def SearchRequest_write_def [abs_def] SearchRequest_size_def [abs_def]
  by (rule SearchRequest_body.tagged_codec) simp_all

definition enc_SearchResultEntry :: "SearchResultEntry \<Rightarrow> byte list" where
  "enc_SearchResultEntry s = enc_OCTETSTRING (sre_objectName s) @ enc_seq enc_PartialAttribute (sre_attributes s)"

interpretation SearchResultEntry_body: ber_components SearchResultEntry_readComponents
  "\<lambda>s. write_then (PartialAttributeList_write (sre_attributes s)) (LDAPDN_write (sre_objectName s))"
  "\<lambda>s. LDAPDN_size (sre_objectName s) + PartialAttributeList_size (sre_attributes s)"
  enc_SearchResultEntry "\<lambda>s. list_all (\<lambda>_. True) (sre_attributes s)"
proof (unfold_locales, goal_cases)
  case 1 show ?case unfolding SearchResultEntry_readComponents_def
    by (intro terminates_rules PartialAttributeList.terminates_rd)
next
  case (2 x) show ?case unfolding enc_SearchResultEntry_def
    by (intro writes_then PartialAttributeList.writes_enc string_writers)
next
  case (3 x) show ?case by (simp add: enc_SearchResultEntry_def size_rules PartialAttributeList.size_enc)
next
  case (4 x) then show ?case unfolding SearchResultEntry_readComponents_def enc_SearchResultEntry_def
    by (cases x) (rule reads_bind reads_bind_last reads_wrap string_readers PartialAttributeList.reads_enc
        consumes_reads | simp)+
qed

interpretation SearchResultEntry: ber_codec readSearchResultEntry SearchResultEntry_write SearchResultEntry_size
  "\<lambda>s. tlv classApplication isCompound TagSearchResultEntry (enc_SearchResultEntry s)" "\<lambda>s. list_all (\<lambda>_. True) (sre_attributes s)"
  unfolding readSearchResultEntry_def SearchResultEntry_write_def [abs_def] SearchResultEntry_size_def [abs_def]
  by (rule SearchResultEntry_body.tagged_codec) simp_all

interpretation SearchResultReference_body: ber_components SearchResultReference_readComponents
  "write_list URI_write" "\<lambda>r. sum_list (map URI_size r)" enc_uris "\<lambda>r. r \<noteq> []"
  unfolding SearchResultReference_readComponents_def by (rule uris_components)

interpretation SearchResultReference: ber_codec readSearchResultReference SearchResultReference_write
  SearchResultReference_size "\<lambda>s. tlv classApplication isCompound TagSearchResultReference (enc_uris s)"
  "\<lambda>r. r \<noteq> []"
  unfolding readSearchResultReference_def SearchResultReference_write_def [abs_def]
    SearchResultReference_size_def [abs_def]
  by (rule SearchResultReference_body.tagged_codec) simp_all

section \<open>Add, delete, compare, abandon\<close>

definition enc_AddRequest :: "AddRequest \<Rightarrow> byte list" where
  "enc_AddRequest s = enc_OCTETSTRING (add_entry s) @ enc_seq enc_PartialAttribute (add_attributes s)"

interpretation AddRequest_body: ber_components AddRequest_readComponents
  "\<lambda>s. write_then (AttributeList_write (add_attributes s)) (LDAPDN_write (add_entry s))"
  "\<lambda>s. LDAPDN_size (add_entry s) + AttributeList_size (add_attributes s)"
  enc_AddRequest "\<lambda>s. list_all wf_Attribute (add_attributes s)"
proof (unfold_locales, goal_cases)
  case 1 show ?case unfolding AddRequest_readComponents_def
    by (intro terminates_rules AttributeList.terminates_rd)
next
  case (2 x) show ?case unfolding enc_AddRequest_def
    by (intro writes_then AttributeList.writes_enc string_writers)
next
  case (3 x) show ?case by (simp add: enc_AddRequest_def size_rules AttributeList.size_enc)
next
  case (4 x) then show ?case unfolding AddRequest_readComponents_def enc_AddRequest_def
    by (cases x) (rule reads_bind reads_bind_last reads_wrap string_readers AttributeList.reads_enc
        consumes_reads | simp)+
qed

interpretation AddRequest: ber_codec readAddRequest AddRequest_write AddRequest_size
  "\<lambda>s. tlv classApplication isCompound TagAddRequest (enc_AddRequest s)" "\<lambda>s. list_all wf_Attribute (add_attributes s)"
  unfolding readAddRequest_def AddRequest_write_def [abs_def] AddRequest_size_def [abs_def]
  by (rule AddRequest_body.tagged_codec) simp_all

definition enc_CompareRequest :: "CompareRequest \<Rightarrow> byte list" where
  "enc_CompareRequest s = enc_OCTETSTRING (cmp_entry s) @ (\<lambda>a. tlv classUniversal isCompound tagSequence (enc_ava a)) (cmp_ava s)"

interpretation CompareRequest_body: ber_components CompareRequest_readComponents
  "\<lambda>s. write_then (AttributeValueAssertion_write (cmp_ava s)) (LDAPDN_write (cmp_entry s))"
  "\<lambda>s. LDAPDN_size (cmp_entry s) + AttributeValueAssertion_size (cmp_ava s)"
  enc_CompareRequest "\<lambda>s. (\<lambda>_. True) (cmp_ava s)"
proof (unfold_locales, goal_cases)
  case 1 show ?case unfolding CompareRequest_readComponents_def
    by (intro terminates_rules AttributeValueAssertion.terminates_rd)
next
  case (2 x) show ?case unfolding enc_CompareRequest_def
    by (intro writes_then AttributeValueAssertion.writes_enc string_writers)
next
  case (3 x) show ?case by (simp add: enc_CompareRequest_def size_rules AttributeValueAssertion.size_enc)
next
  case (4 x) then show ?case unfolding CompareRequest_readComponents_def enc_CompareRequest_def
    by (cases x) (rule reads_bind reads_bind_last reads_wrap string_readers AttributeValueAssertion.reads_enc
        consumes_reads | simp)+
qed

interpretation CompareRequest: ber_codec readCompareRequest CompareRequest_write CompareRequest_size
  "\<lambda>s. tlv classApplication isCompound TagCompareRequest (enc_CompareRequest s)" "\<lambda>s. (\<lambda>_. True) (cmp_ava s)"
  unfolding readCompareRequest_def CompareRequest_write_def [abs_def] CompareRequest_size_def [abs_def]
  by (rule CompareRequest_body.tagged_codec) simp_all

interpretation DelRequest: ber_codec readDelRequest DelRequest_write DelRequest_size
  "enc_str classApplication TagDelRequest" "\<lambda>_. True"
  by unfold_locales
     (simp_all add: readDelRequest_def DelRequest_write_def DelRequest_size_def size_rules
       terminates_wrap terminates_string_readers advances_wrap advances_string_readers
       string_writers reads_wrap string_readers)

interpretation AbandonRequest: ber_codec readAbandonRequest AbandonRequest_write AbandonRequest_size
  "enc_int classApplication TagAbandonRequest" "\<lambda>i. 0 \<le> sint i"
  by unfold_locales
     (simp_all add: readAbandonRequest_def AbandonRequest_write_def AbandonRequest_size_def size_rules
       terminates_wrap terminates_positive_readers advances_wrap advances_positive_readers
       int_writers reads_wrap positive_int_readers)

section \<open>Results\<close>

lemma result_codec:
  assumes "low_tag classApplication tag"
  shows "ber_codec (go_wrap c (readTaggedLDAPResult classApplication tag))
    (\<lambda>r. LDAPResult_writeTagged r classApplication tag) (\<lambda>r. LDAPResult_sizeTagged r tag)
    (\<lambda>r. tlv classApplication isCompound tag (enc_LDAPResult r)) wf_LDAPResult"
  unfolding readTaggedLDAPResult_def LDAPResult_writeTagged_def LDAPResult_sizeTagged_def
  using assms
  by (intro ber_codec.wrap_codec [OF LDAPResult_body.tagged_codec]) (simp_all add: low_tag_def)

interpretation SearchResultDone: ber_codec readSearchResultDone SearchResultDone_write SearchResultDone_size
  "\<lambda>r. tlv classApplication isCompound TagSearchResultDone (enc_LDAPResult r)" wf_LDAPResult
  unfolding readSearchResultDone_def SearchResultDone_write_def [abs_def] SearchResultDone_size_def [abs_def]
  by (rule result_codec) simp

interpretation ModifyResponse: ber_codec readModifyResponse ModifyResponse_write ModifyResponse_size
  "\<lambda>r. tlv classApplication isCompound TagModifyResponse (enc_LDAPResult r)" wf_LDAPResult
  unfolding readModifyResponse_def ModifyResponse_write_def [abs_def] ModifyResponse_size_def [abs_def]
  by (rule result_codec) simp

interpretation AddResponse: ber_codec readAddResponse AddResponse_write AddResponse_size
  "\<lambda>r. tlv classApplication isCompound TagAddResponse (enc_LDAPResult r)" wf_LDAPResult
  unfolding readAddResponse_def AddResponse_write_def [abs_def] AddResponse_size_def [abs_def]
  by (rule result_codec) simp

interpretation DelResponse: ber_codec readDelResponse DelResponse_write DelResponse_size
  "\<lambda>r. tlv classApplication isCompound TagDelResponse (enc_LDAPResult r)" wf_LDAPResult
  unfolding readDelResponse_def DelResponse_write_def [abs_def] DelResponse_size_def [abs_def]
  by (rule result_codec) simp

interpretation ModifyDNResponse: ber_codec readModifyDNResponse ModifyDNResponse_write ModifyDNResponse_size
  "\<lambda>r. tlv classApplication isCompound TagModifyDNResponse (enc_LDAPResult r)" wf_LDAPResult
  unfolding readModifyDNResponse_def ModifyDNResponse_write_def [abs_def] ModifyDNResponse_size_def [abs_def]
  by (rule result_codec) simp

interpretation CompareResponse: ber_codec readCompareResponse CompareResponse_write CompareResponse_size
  "\<lambda>r. tlv classApplication isCompound TagCompareResponse (enc_LDAPResult r)" wf_LDAPResult
  unfolding readCompareResponse_def CompareResponse_write_def [abs_def] CompareResponse_size_def [abs_def]
  by (rule result_codec) simp

section \<open>Modify and modify DN\<close>

definition enc_change :: "ModifyRequestChange \<Rightarrow> byte list" where
  "enc_change m = enc_ENUMERATED (mc_operation m) @ enc_PartialAttribute (mc_modification m)"

definition wf_change :: "ModifyRequestChange \<Rightarrow> bool" where
  "wf_change m \<longleftrightarrow> mc_operation m \<in> fst ` set EnumeratedModifyRequestChangeOperation"

interpretation ModifyRequestChange_body: ber_components ModifyRequestChange_readComponents
  "\<lambda>m. write_then (PartialAttribute_write (mc_modification m)) (ENUMERATED_write (mc_operation m))"
  "\<lambda>m. ENUMERATED_size (mc_operation m) + PartialAttribute_size (mc_modification m)"
  enc_change wf_change
proof (unfold_locales, goal_cases)
  case 1 show ?case unfolding ModifyRequestChange_readComponents_def
    by (intro terminates_rules PartialAttribute.terminates_rd)
next
  case (2 x) show ?case unfolding enc_change_def
    by (intro writes_then PartialAttribute.writes_enc int_writers)
next
  case (3 x) show ?case by (simp add: enc_change_def size_rules PartialAttribute.size_enc)
next
  case (4 x) then show ?case unfolding ModifyRequestChange_readComponents_def enc_change_def
    by (cases x) (rule reads_bind reads_bind_last reads_wrap enum_reader PartialAttribute.reads_enc
        consumes_reads | simp add: wf_change_def)+
qed

interpretation ModifyRequestChange: ber_codec readModifyRequestChange ModifyRequestChange_write
  ModifyRequestChange_size "\<lambda>m. tlv classUniversal isCompound tagSequence (enc_change m)" wf_change
  unfolding readModifyRequestChange_def ModifyRequestChange_write_def [abs_def]
    ModifyRequestChange_size_def [abs_def]
  by (rule ModifyRequestChange_body.tagged_codec) simp_all

definition enc_ModifyRequest :: "ModifyRequest \<Rightarrow> byte list" where
  "enc_ModifyRequest m =
     enc_OCTETSTRING (mod_object m) @
     tlv classUniversal isCompound tagSequence
       (concat (map (\<lambda>m. tlv classUniversal isCompound tagSequence (enc_change m)) (mod_changes m)))"

interpretation ModifyRequest_changes: ber_components ModifyRequest_readChanges
  "write_list ModifyRequestChange_write" "\<lambda>cs. sum_list (map ModifyRequestChange_size cs)"
  "\<lambda>cs. concat (map (\<lambda>m. tlv classUniversal isCompound tagSequence (enc_change m)) cs)"
  "list_all wf_change"
  unfolding ModifyRequest_readChanges_def by (rule ModifyRequestChange.list_components)

interpretation ModifyRequest_body: ber_components ModifyRequest_readComponents
  "\<lambda>m. write_then
     (write_tagged classUniversal isCompound tagSequence (write_list ModifyRequestChange_write (mod_changes m)))
     (LDAPDN_write (mod_object m))"
  "\<lambda>m. size_tagged tagSequence (sum_list (map ModifyRequestChange_size (mod_changes m)))
     + LDAPDN_size (mod_object m)"
  enc_ModifyRequest "\<lambda>m. list_all wf_change (mod_changes m)"
proof (unfold_locales, goal_cases)
  case 1 show ?case unfolding ModifyRequest_readComponents_def
    by (intro terminates_rules ModifyRequest_changes.terminates_cb)
next
  case (2 x) show ?case unfolding enc_ModifyRequest_def
    by (intro writes_then writes_tagged low_tags ModifyRequest_changes.writes_components string_writers)
next
  case (3 x) show ?case
    by (simp add: enc_ModifyRequest_def size_rules ModifyRequest_changes.size_components add.commute
        del: length_concat)
next
  case (4 x) then show ?case unfolding ModifyRequest_readComponents_def enc_ModifyRequest_def
    by (cases x) (rule reads_bind reads_bind_last reads_wrap string_readers reads_ReadSubBytes
        ModifyRequest_changes.consumes_components consumes_reads | simp)+
qed

interpretation ModifyRequest: ber_codec readModifyRequest ModifyRequest_write ModifyRequest_size
  "\<lambda>m. tlv classApplication isCompound TagModifyRequest (enc_ModifyRequest m)"
  "\<lambda>m. list_all wf_change (mod_changes m)"
  unfolding readModifyRequest_def ModifyRequest_write_def [abs_def] ModifyRequest_size_def [abs_def]
  by (rule ModifyRequest_body.tagged_codec) simp_all

definition enc_ModifyDNRequest :: "ModifyDNRequest \<Rightarrow> byte list" where
  "enc_ModifyDNRequest m =
     enc_OCTETSTRING (mdn_entry m) @ enc_OCTETSTRING (mdn_newrdn m) @ enc_BOOLEAN (mdn_deleteoldrdn m) @
     enc_opt (enc_str classContextSpecific TagModifyDNRequestNewSuperior) (mdn_newSuperior m)"

interpretation ModifyDNRequest_body: ber_components ModifyDNRequest_readComponents
  "\<lambda>m. write_then (write_then (write_then
     (write_opt (\<lambda>s. LDAPDN_writeTagged s classContextSpecific TagModifyDNRequestNewSuperior) (mdn_newSuperior m))
     (BOOLEAN_write (mdn_deleteoldrdn m))) (RelativeLDAPDN_write (mdn_newrdn m))) (LDAPDN_write (mdn_entry m))"
  "\<lambda>m. LDAPDN_size (mdn_entry m) + RelativeLDAPDN_size (mdn_newrdn m) + BOOLEAN_size (mdn_deleteoldrdn m)
     + size_opt (\<lambda>s. LDAPDN_sizeTagged s TagModifyDNRequestNewSuperior) (mdn_newSuperior m)"
  enc_ModifyDNRequest "\<lambda>_. True"
proof (unfold_locales, goal_cases)
  case 1 show ?case unfolding ModifyDNRequest_readComponents_def by (intro terminates_rules)
next
  case (2 x) show ?case unfolding enc_ModifyDNRequest_def
    by (intro writes_then writes_opt_str codec_leaf_rules) simp
next
  case (3 x) show ?case
    by (simp add: enc_ModifyDNRequest_def size_rules)
next
  case (4 x) show ?case unfolding ModifyDNRequest_readComponents_def enc_ModifyDNRequest_def
    by (cases x) (rule reads_bind reads_bind_last [OF consumes_optional [OF optional_readers(2)]] reads_wrap
        string_readers bool_readers | simp)+
qed

interpretation ModifyDNRequest: ber_codec readModifyDNRequest ModifyDNRequest_write ModifyDNRequest_size
  "\<lambda>m. tlv classApplication isCompound TagModifyDNRequest (enc_ModifyDNRequest m)" "\<lambda>_. True"
  unfolding readModifyDNRequest_def ModifyDNRequest_write_def [abs_def] ModifyDNRequest_size_def [abs_def]
  by (rule ModifyDNRequest_body.tagged_codec) simp_all

section \<open>Extended operations\<close>

definition enc_ExtendedRequest :: "ExtendedRequest \<Rightarrow> byte list" where
  "enc_ExtendedRequest e =
     enc_str classContextSpecific TagExtendedRequestName (ext_requestName e) @
     enc_opt (enc_str classContextSpecific TagExtendedRequestValue) (ext_requestValue e)"

interpretation ExtendedRequest_body: ber_components ExtendedRequest_readComponents
  "\<lambda>e. write_then
     (write_opt (\<lambda>v. OCTETSTRING_writeTagged v classContextSpecific TagExtendedRequestValue) (ext_requestValue e))
     (LDAPOID_writeTagged (ext_requestName e) classContextSpecific TagExtendedRequestName)"
  "\<lambda>e. LDAPOID_sizeTagged (ext_requestName e) TagExtendedRequestName
     + size_opt (\<lambda>v. OCTETSTRING_sizeTagged v TagExtendedRequestValue) (ext_requestValue e)"
  enc_ExtendedRequest "\<lambda>_. True"
proof (unfold_locales, goal_cases)
  case 1 show ?case unfolding ExtendedRequest_readComponents_def by (intro terminates_rules)
next
  case (2 x) show ?case unfolding enc_ExtendedRequest_def
    by (intro writes_then writes_opt_str string_writers) simp_all
next
  case (3 x) show ?case
    by (simp add: enc_ExtendedRequest_def size_rules)
next
  case (4 x) show ?case unfolding ExtendedRequest_readComponents_def enc_ExtendedRequest_def
    by (cases x) (rule reads_bind reads_bind_last [OF consumes_optional [OF optional_readers(1)]] reads_wrap
        string_readers | simp)+
qed

interpretation ExtendedRequest: ber_codec readExtendedRequest ExtendedRequest_write ExtendedRequest_size
  "\<lambda>e. tlv classApplication isCompound TagExtendedRequest (enc_ExtendedRequest e)" "\<lambda>_. True"
  unfolding readExtendedRequest_def ExtendedRequest_write_def [abs_def] ExtendedRequest_size_def [abs_def]
  by (rule ExtendedRequest_body.tagged_codec) simp_all

definition enc_ExtendedResponse :: "ExtendedResponse \<Rightarrow> byte list" where
  "enc_ExtendedResponse e =
     enc_LDAPResult (eresp_LDAPResult e) @
     enc_opt (enc_str classContextSpecific TagExtendedResponseName) (eresp_responseName e) @
     enc_opt (enc_str classContextSpecific TagExtendedResponseValue) (eresp_responseValue e)"

interpretation ExtendedResponse_body: ber_components ExtendedResponse_readComponents
  "\<lambda>e. write_then (write_then
     (write_opt (\<lambda>v. OCTETSTRING_writeTagged v classContextSpecific TagExtendedResponseValue) (eresp_responseValue e))
     (write_opt (\<lambda>n. LDAPOID_writeTagged n classContextSpecific TagExtendedResponseName) (eresp_responseName e)))
     (LDAPResult_writeComponents (eresp_LDAPResult e))"
  "\<lambda>e. LDAPResult_sizeComponents (eresp_LDAPResult e)
     + size_opt (\<lambda>n. LDAPOID_sizeTagged n TagExtendedResponseName) (eresp_responseName e)
     + size_opt (\<lambda>v. OCTETSTRING_sizeTagged v TagExtendedResponseValue) (eresp_responseValue e)"
  enc_ExtendedResponse "\<lambda>e. wf_LDAPResult (eresp_LDAPResult e)"
proof (unfold_locales, goal_cases)
  case 1 show ?case unfolding ExtendedResponse_readComponents_def
    by (intro terminates_rules LDAPResult_body.terminates_cb)
next
  case (2 x) show ?case unfolding enc_ExtendedResponse_def
    by (intro writes_then writes_opt_str LDAPResult_body.writes_components) simp_all
next
  case (3 x) show ?case
    by (simp add: enc_ExtendedResponse_def LDAPResult_body.size_components size_rules)
next
  case (4 x)
  let ?n = "enc_opt (enc_str classContextSpecific TagExtendedResponseName) (eresp_responseName x)"
  let ?v = "enc_opt (enc_str classContextSpecific TagExtendedResponseValue) (eresp_responseValue x)"
  have o1: "other_tag TagExtendedResponseName (?v @ post)" if "length ?v < 2 ^ 31" "post = []" for post
    using that by (intro other_tag_opt_str) simp_all
  have o2: "other_tag TagLDAPResultReferral ((?n @ ?v) @ post)"
    if "length (?n @ ?v) < 2 ^ 31" "post = []" for post
    using that unfolding append_assoc by (intro other_tag_opt_str) simp_all
  show ?case unfolding ExtendedResponse_readComponents_def enc_ExtendedResponse_def
    by (rule reads_bind_optional [OF reads_wrap [OF reads_LDAPResult [OF 4]] _ o2],
        rule reads_bind_optional [OF optional_readers(3) _ o1], simp,
        rule reads_bind_last [OF consumes_optional [OF optional_readers(1)]])
       (simp, cases x, simp, simp_all)
qed

interpretation ExtendedResponse: ber_codec readExtendedResponse ExtendedResponse_write ExtendedResponse_size
  "\<lambda>e. tlv classApplication isCompound TagExtendedResponse (enc_ExtendedResponse e)"
  "\<lambda>e. wf_LDAPResult (eresp_LDAPResult e)"
  unfolding readExtendedResponse_def ExtendedResponse_write_def [abs_def] ExtendedResponse_size_def [abs_def]
  by (rule ExtendedResponse_body.tagged_codec) simp_all

definition enc_IntermediateResponse :: "IntermediateResponse \<Rightarrow> byte list" where
  "enc_IntermediateResponse i =
     enc_opt (enc_str classContextSpecific TagIntermediateResponseName) (ir_responseName i) @
     enc_opt (enc_str classContextSpecific TagIntermediateResponseValue) (ir_responseValue i)"

interpretation IntermediateResponse_body: ber_components IntermediateResponse_readComponents
  "\<lambda>i. write_then
     (write_opt (\<lambda>v. OCTETSTRING_writeTagged v classContextSpecific TagIntermediateResponseValue) (ir_responseValue i))
     (write_opt (\<lambda>n. LDAPOID_writeTagged n classContextSpecific TagIntermediateResponseName) (ir_responseName i))"
  "\<lambda>i. size_opt (\<lambda>n. LDAPOID_sizeTagged n TagIntermediateResponseName) (ir_responseName i)
     + size_opt (\<lambda>v. OCTETSTRING_sizeTagged v TagIntermediateResponseValue) (ir_responseValue i)"
  enc_IntermediateResponse "\<lambda>_. True"
proof (unfold_locales, goal_cases)
  case 1 show ?case unfolding IntermediateResponse_readComponents_def by (intro terminates_rules)
next
  case (2 x) show ?case unfolding enc_IntermediateResponse_def
    by (intro writes_then writes_opt_str) simp_all
next
  case (3 x) show ?case
    by (simp add: enc_IntermediateResponse_def size_rules)
next
  case (4 x)
  let ?v = "enc_opt (enc_str classContextSpecific TagIntermediateResponseValue) (ir_responseValue x)"
  have o1: "other_tag TagIntermediateResponseName (?v @ post)" if "length ?v < 2 ^ 31" "post = []" for post
    using that by (intro other_tag_opt_str) simp_all
  show ?case unfolding IntermediateResponse_readComponents_def enc_IntermediateResponse_def
    by (rule reads_bind_optional [OF optional_readers(3) _ o1], simp,
        rule reads_bind_last [OF consumes_optional [OF optional_readers(1)]])
       (simp, cases x, simp, simp_all)
qed

interpretation IntermediateResponse: ber_codec readIntermediateResponse IntermediateResponse_write
  IntermediateResponse_size
  "\<lambda>i. tlv classApplication isCompound TagIntermediateResponse (enc_IntermediateResponse i)" "\<lambda>_. True"
  unfolding readIntermediateResponse_def IntermediateResponse_write_def [abs_def]
    IntermediateResponse_size_def [abs_def]
  by (rule IntermediateResponse_body.tagged_codec) simp_all

section \<open>The password modify extended request\<close>

text \<open>What a client sends (RFC 3062): the fields in order inside a sequence.\<close>

definition enc_PasswordModify :: "PasswordModifyRequest \<Rightarrow> byte list" where
  "enc_PasswordModify r =
     tlv classUniversal isCompound tagSequence
       (enc_opt (enc_str classContextSpecific TagPasswordModifyRequestUserIdentity) (pmr_userIdentity r) @
        enc_opt (enc_str classContextSpecific TagPasswordModifyRequestOldPassword) (pmr_oldPassword r) @
        enc_opt (enc_str classContextSpecific TagPasswordModifyRequestNewPassword) (pmr_newPassword r))"

lemma reads_PasswordModify: "reads readPasswordModifyRequest (enc_PasswordModify r) r"
proof -
  let ?u = "enc_opt (enc_str classContextSpecific TagPasswordModifyRequestUserIdentity) (pmr_userIdentity r)"
  let ?p = "enc_opt (enc_str classContextSpecific TagPasswordModifyRequestOldPassword) (pmr_oldPassword r)"
  let ?n = "enc_opt (enc_str classContextSpecific TagPasswordModifyRequestNewPassword) (pmr_newPassword r)"
  have o1: "other_tag TagPasswordModifyRequestOldPassword (?n @ post)"
    if "length ?n < 2 ^ 31" "post = []" for post
    using that by (intro other_tag_opt_str) simp_all
  have o2: "other_tag TagPasswordModifyRequestUserIdentity ((?p @ ?n) @ post)"
    if "length (?p @ ?n) < 2 ^ 31" "post = []" for post
    using that unfolding append_assoc by (intro other_tag_opt_str) simp_all
  have "consumes PasswordModifyRequest_readComponents (?u @ ?p @ ?n) r"
    unfolding PasswordModifyRequest_readComponents_def readOptionalOctetString_def
    by (rule reads_bind_optional [OF optional_readers(1) _ o2], simp,
        rule reads_bind_optional [OF optional_readers(1) _ o1], simp,
        rule reads_bind_last [OF consumes_optional [OF optional_readers(1)]])
       (simp, cases r, simp, simp_all)
  then show ?thesis
    unfolding readPasswordModifyRequest_def enc_PasswordModify_def
    by (intro reads_wrap reads_ReadSubBytes low_tags)
qed

interpretation PasswordModifyRequest: ber_reader readPasswordModifyRequest
  by unfold_locales
     (auto simp: readPasswordModifyRequest_def PasswordModifyRequest_readComponents_def
       readOptionalOctetString_def intro!: terminates_rules advances_rules)

end
