(* ===== verification/Ldap_Message.thy ===== *)
theory Ldap_Message
  imports Ldap_Ops_Codec
begin

text \<open>
  Whole messages: \<^verbatim>\<open>protocol_op.go\<close>, \<^verbatim>\<open>message.go\<close>, \<^verbatim>\<open>read.go\<close> and \<^verbatim>\<open>struct_methods.go\<close>, and the
  theorems about the codec as a whole. The interface \<^verbatim>\<open>ProtocolOp\<close> is a datatype with a constructor
  for each of the 21 operations \<^verbatim>\<open>readProtocolOp\<close> can return and one for a bare
  \<^verbatim>\<open>LDAPResult\<close>, which the server's handler passes to the writer.
\<close>

section \<open>protocol\_op.go\<close>

datatype ProtocolOp =
    OpBindRequest BindRequest
  | OpBindResponse BindResponse
  | OpUnbindRequest
  | OpSearchRequest SearchRequest
  | OpSearchResultEntry SearchResultEntry
  | OpSearchResultDone LDAPResult
  | OpSearchResultReference SearchResultReference
  | OpModifyRequest ModifyRequest
  | OpModifyResponse LDAPResult
  | OpAddRequest AddRequest
  | OpAddResponse LDAPResult
  | OpDelRequest DelRequest
  | OpDelResponse LDAPResult
  | OpModifyDNRequest ModifyDNRequest
  | OpModifyDNResponse LDAPResult
  | OpCompareRequest CompareRequest
  | OpCompareResponse LDAPResult
  | OpAbandonRequest AbandonRequest
  | OpExtendedRequest ExtendedRequest
  | OpExtendedResponse ExtendedResponse
  | OpIntermediateResponse IntermediateResponse
  | OpLDAPResult LDAPResult

text \<open>The switch of \<^verbatim>\<open>readProtocolOp\<close>: it looks at the tag number only.\<close>

definition readProtocolOpCase :: "int \<Rightarrow> (Bytes, ProtocolOp) go option" where
  "readProtocolOpCase tag =
     (if tag = TagBindRequest then Some (go_map OpBindRequest readBindRequest)
      else if tag = TagBindResponse then Some (go_map OpBindResponse readBindResponse)
      else if tag = TagUnbindRequest then Some (go_map (\<lambda>_. OpUnbindRequest) readUnbindRequest)
      else if tag = TagSearchRequest then Some (go_map OpSearchRequest readSearchRequest)
      else if tag = TagSearchResultEntry then Some (go_map OpSearchResultEntry readSearchResultEntry)
      else if tag = TagSearchResultDone then Some (go_map OpSearchResultDone readSearchResultDone)
      else if tag = TagSearchResultReference then Some (go_map OpSearchResultReference readSearchResultReference)
      else if tag = TagModifyRequest then Some (go_map OpModifyRequest readModifyRequest)
      else if tag = TagModifyResponse then Some (go_map OpModifyResponse readModifyResponse)
      else if tag = TagAddRequest then Some (go_map OpAddRequest readAddRequest)
      else if tag = TagAddResponse then Some (go_map OpAddResponse readAddResponse)
      else if tag = TagDelRequest then Some (go_map OpDelRequest readDelRequest)
      else if tag = TagDelResponse then Some (go_map OpDelResponse readDelResponse)
      else if tag = TagModifyDNRequest then Some (go_map OpModifyDNRequest readModifyDNRequest)
      else if tag = TagModifyDNResponse then Some (go_map OpModifyDNResponse readModifyDNResponse)
      else if tag = TagCompareRequest then Some (go_map OpCompareRequest readCompareRequest)
      else if tag = TagCompareResponse then Some (go_map OpCompareResponse readCompareResponse)
      else if tag = TagAbandonRequest then Some (go_map OpAbandonRequest readAbandonRequest)
      else if tag = TagExtendedRequest then Some (go_map OpExtendedRequest readExtendedRequest)
      else if tag = TagExtendedResponse then Some (go_map OpExtendedResponse readExtendedResponse)
      else if tag = TagIntermediateResponse then Some (go_map OpIntermediateResponse readIntermediateResponse)
      else None)"

definition readProtocolOp :: "(Bytes, ProtocolOp) go" where
  "readProtocolOp =
     go_bind (go_wrap ''readProtocolOp'' PreviewTagAndLength) (\<lambda>t.
       case readProtocolOpCase (Tag t) of
         Some readOp \<Rightarrow> go_wrap ''readProtocolOp'' readOp
       | None \<Rightarrow> throw (LdapError ''readProtocolOp: invalid tag value'' [Tag t]))"

text \<open>The methods \<^verbatim>\<open>write\<close> and \<^verbatim>\<open>size\<close> of the interface.\<close>

fun ProtocolOp_write :: "ProtocolOp \<Rightarrow> (Bytes, nat) go" where
  "ProtocolOp_write (OpBindRequest x) = BindRequest_write x"
| "ProtocolOp_write (OpBindResponse x) = BindResponse_write x"
| "ProtocolOp_write OpUnbindRequest = UnbindRequest_write ()"
| "ProtocolOp_write (OpSearchRequest x) = SearchRequest_write x"
| "ProtocolOp_write (OpSearchResultEntry x) = SearchResultEntry_write x"
| "ProtocolOp_write (OpSearchResultDone x) = SearchResultDone_write x"
| "ProtocolOp_write (OpSearchResultReference x) = SearchResultReference_write x"
| "ProtocolOp_write (OpModifyRequest x) = ModifyRequest_write x"
| "ProtocolOp_write (OpModifyResponse x) = ModifyResponse_write x"
| "ProtocolOp_write (OpAddRequest x) = AddRequest_write x"
| "ProtocolOp_write (OpAddResponse x) = AddResponse_write x"
| "ProtocolOp_write (OpDelRequest x) = DelRequest_write x"
| "ProtocolOp_write (OpDelResponse x) = DelResponse_write x"
| "ProtocolOp_write (OpModifyDNRequest x) = ModifyDNRequest_write x"
| "ProtocolOp_write (OpModifyDNResponse x) = ModifyDNResponse_write x"
| "ProtocolOp_write (OpCompareRequest x) = CompareRequest_write x"
| "ProtocolOp_write (OpCompareResponse x) = CompareResponse_write x"
| "ProtocolOp_write (OpAbandonRequest x) = AbandonRequest_write x"
| "ProtocolOp_write (OpExtendedRequest x) = ExtendedRequest_write x"
| "ProtocolOp_write (OpExtendedResponse x) = ExtendedResponse_write x"
| "ProtocolOp_write (OpIntermediateResponse x) = IntermediateResponse_write x"
| "ProtocolOp_write (OpLDAPResult x) = LDAPResult_write x"

fun ProtocolOp_size :: "ProtocolOp \<Rightarrow> nat" where
  "ProtocolOp_size (OpBindRequest x) = BindRequest_size x"
| "ProtocolOp_size (OpBindResponse x) = BindResponse_size x"
| "ProtocolOp_size OpUnbindRequest = UnbindRequest_size ()"
| "ProtocolOp_size (OpSearchRequest x) = SearchRequest_size x"
| "ProtocolOp_size (OpSearchResultEntry x) = SearchResultEntry_size x"
| "ProtocolOp_size (OpSearchResultDone x) = SearchResultDone_size x"
| "ProtocolOp_size (OpSearchResultReference x) = SearchResultReference_size x"
| "ProtocolOp_size (OpModifyRequest x) = ModifyRequest_size x"
| "ProtocolOp_size (OpModifyResponse x) = ModifyResponse_size x"
| "ProtocolOp_size (OpAddRequest x) = AddRequest_size x"
| "ProtocolOp_size (OpAddResponse x) = AddResponse_size x"
| "ProtocolOp_size (OpDelRequest x) = DelRequest_size x"
| "ProtocolOp_size (OpDelResponse x) = DelResponse_size x"
| "ProtocolOp_size (OpModifyDNRequest x) = ModifyDNRequest_size x"
| "ProtocolOp_size (OpModifyDNResponse x) = ModifyDNResponse_size x"
| "ProtocolOp_size (OpCompareRequest x) = CompareRequest_size x"
| "ProtocolOp_size (OpCompareResponse x) = CompareResponse_size x"
| "ProtocolOp_size (OpAbandonRequest x) = AbandonRequest_size x"
| "ProtocolOp_size (OpExtendedRequest x) = ExtendedRequest_size x"
| "ProtocolOp_size (OpExtendedResponse x) = ExtendedResponse_size x"
| "ProtocolOp_size (OpIntermediateResponse x) = IntermediateResponse_size x"
| "ProtocolOp_size (OpLDAPResult x) = LDAPResult_size x"

section \<open>message.go, read.go, struct\_methods.go\<close>

record LDAPMessage =
  msg_messageID :: MessageID
  msg_protocolOp :: ProtocolOp
  msg_controls :: "Controls option"

definition NewLDAPMessageWithProtocolOp :: "ProtocolOp \<Rightarrow> LDAPMessage" where
  "NewLDAPMessageWithProtocolOp po = \<lparr>msg_messageID = 0, msg_protocolOp = po, msg_controls = None\<rparr>"

definition LDAPMessage_SetMessageID :: "MessageID \<Rightarrow> LDAPMessage \<Rightarrow> LDAPMessage" where
  "LDAPMessage_SetMessageID i m = m\<lparr>msg_messageID := i\<rparr>"

definition LDAPMessage_readComponents :: "(Bytes, LDAPMessage) go" where
  "LDAPMessage_readComponents =
     go_bind (go_wrap ''readComponents'' readMessageID) (\<lambda>i.
     go_bind (go_wrap ''readComponents'' readProtocolOp) (\<lambda>p.
     go_bind (read_optional TagLDAPMessageControls
       (readTaggedControls classContextSpecific TagLDAPMessageControls)) (\<lambda>c.
     ret \<lparr>msg_messageID = i, msg_protocolOp = p, msg_controls = c\<rparr>)))"

definition ReadLDAPMessage :: "(Bytes, LDAPMessage) go" where
  "ReadLDAPMessage =
     go_wrap ''ReadLDAPMessage'' (ReadSubBytes classUniversal tagSequence LDAPMessage_readComponents)"

definition LDAPMessage_size :: "LDAPMessage \<Rightarrow> nat" where
  "LDAPMessage_size l =
     size_tagged tagSequence
       (MessageID_size (msg_messageID l) + ProtocolOp_size (msg_protocolOp l)
        + size_opt (\<lambda>c. Controls_sizeTagged c TagLDAPMessageControls) (msg_controls l))"

text \<open>The writes of \<^verbatim>\<open>LDAPMessage.Write\<close>.\<close>

definition LDAPMessage_writeTo :: "LDAPMessage \<Rightarrow> (Bytes, nat) go" where
  "LDAPMessage_writeTo l =
     write_tagged classUniversal isCompound tagSequence
       (write_then (write_then
         (write_opt (\<lambda>c. Controls_writeTagged c classContextSpecific TagLDAPMessageControls) (msg_controls l))
         (ProtocolOp_write (msg_protocolOp l)))
         (MessageID_write (msg_messageID l)))"

text \<open>A panic inside \<^verbatim>\<open>Write\<close> is recovered and returned as an error.\<close>

definition LDAPMessage_Write :: "LDAPMessage \<Rightarrow> Bytes outcome" where
  "LDAPMessage_Write l =
     (let totalSize = LDAPMessage_size l in
      case LDAPMessage_writeTo l \<lparr>bytes = replicate totalSize 0, offset = totalSize\<rparr> of
        (Ok sz, bs) \<Rightarrow>
          if sz \<noteq> totalSize \<or> offset bs \<noteq> 0
          then Err (LdapError ''Something went wrong while writing the message !''
                 [int sz, int totalSize, int (offset bs)])
          else Ok bs
      | (Err e, bs) \<Rightarrow> Err e
      | (Panic p, bs) \<Rightarrow> Err (LdapError (''Error in LDAPMessage.Write: '' @ p) [])
      | (Diverge, bs) \<Rightarrow> Diverge)"

definition LDAPMessage_ProtocolOpType :: "LDAPMessage \<Rightarrow> int" where
  "LDAPMessage_ProtocolOpType l = (case msg_protocolOp l of OpBindRequest r \<Rightarrow> TagBindRequest | _ \<Rightarrow> 0)"

section \<open>The codec of a message\<close>

fun enc_op :: "ProtocolOp \<Rightarrow> byte list" where
  "enc_op (OpBindRequest x) = tlv classApplication isCompound TagBindRequest (enc_BindRequest x)"
| "enc_op (OpBindResponse x) = tlv classApplication isCompound TagBindResponse (enc_BindResponse x)"
| "enc_op OpUnbindRequest = tlv classApplication isNotCompound TagUnbindRequest []"
| "enc_op (OpSearchRequest x) = tlv classApplication isCompound TagSearchRequest (enc_SearchRequest x)"
| "enc_op (OpSearchResultEntry x) = tlv classApplication isCompound TagSearchResultEntry (enc_SearchResultEntry x)"
| "enc_op (OpSearchResultDone x) = tlv classApplication isCompound TagSearchResultDone (enc_LDAPResult x)"
| "enc_op (OpSearchResultReference x) = tlv classApplication isCompound TagSearchResultReference (enc_uris x)"
| "enc_op (OpModifyRequest x) = tlv classApplication isCompound TagModifyRequest (enc_ModifyRequest x)"
| "enc_op (OpModifyResponse x) = tlv classApplication isCompound TagModifyResponse (enc_LDAPResult x)"
| "enc_op (OpAddRequest x) = tlv classApplication isCompound TagAddRequest (enc_AddRequest x)"
| "enc_op (OpAddResponse x) = tlv classApplication isCompound TagAddResponse (enc_LDAPResult x)"
| "enc_op (OpDelRequest x) = tlv classApplication isNotCompound TagDelRequest (bytes_of x)"
| "enc_op (OpDelResponse x) = tlv classApplication isCompound TagDelResponse (enc_LDAPResult x)"
| "enc_op (OpModifyDNRequest x) = tlv classApplication isCompound TagModifyDNRequest (enc_ModifyDNRequest x)"
| "enc_op (OpModifyDNResponse x) = tlv classApplication isCompound TagModifyDNResponse (enc_LDAPResult x)"
| "enc_op (OpCompareRequest x) = tlv classApplication isCompound TagCompareRequest (enc_CompareRequest x)"
| "enc_op (OpCompareResponse x) = tlv classApplication isCompound TagCompareResponse (enc_LDAPResult x)"
| "enc_op (OpAbandonRequest x) = tlv classApplication isNotCompound TagAbandonRequest (int32_bytes x)"
| "enc_op (OpExtendedRequest x) = tlv classApplication isCompound TagExtendedRequest (enc_ExtendedRequest x)"
| "enc_op (OpExtendedResponse x) = tlv classApplication isCompound TagExtendedResponse (enc_ExtendedResponse x)"
| "enc_op (OpIntermediateResponse x) = tlv classApplication isCompound TagIntermediateResponse (enc_IntermediateResponse x)"
| "enc_op (OpLDAPResult x) = tlv classUniversal isCompound tagSequence (enc_LDAPResult x)"

text \<open>
  The operations the reader can return: result and scope codes that are declared, integers that
  are not negative, at least one value or URI where the RFC wants one, filters as above. A bare
  \<^verbatim>\<open>LDAPResult\<close> carries the tag of a sequence, which is no operation's.
\<close>

fun wf_op :: "ProtocolOp \<Rightarrow> bool" where
  "wf_op (OpBindRequest x) \<longleftrightarrow> wf_BindRequest x"
| "wf_op (OpBindResponse x) \<longleftrightarrow> wf_LDAPResult (bresp_LDAPResult x)"
| "wf_op (OpSearchRequest x) \<longleftrightarrow> wf_SearchRequest x"
| "wf_op (OpSearchResultReference x) \<longleftrightarrow> x \<noteq> []"
| "wf_op (OpModifyRequest x) \<longleftrightarrow> list_all wf_change (mod_changes x)"
| "wf_op (OpAddRequest x) \<longleftrightarrow> list_all wf_Attribute (add_attributes x)"
| "wf_op (OpAbandonRequest x) \<longleftrightarrow> 0 \<le> sint x"
| "wf_op (OpExtendedResponse x) \<longleftrightarrow> wf_LDAPResult (eresp_LDAPResult x)"
| "wf_op (OpSearchResultDone x) \<longleftrightarrow> wf_LDAPResult x"
| "wf_op (OpModifyResponse x) \<longleftrightarrow> wf_LDAPResult x"
| "wf_op (OpAddResponse x) \<longleftrightarrow> wf_LDAPResult x"
| "wf_op (OpDelResponse x) \<longleftrightarrow> wf_LDAPResult x"
| "wf_op (OpModifyDNResponse x) \<longleftrightarrow> wf_LDAPResult x"
| "wf_op (OpCompareResponse x) \<longleftrightarrow> wf_LDAPResult x"
| "wf_op (OpLDAPResult x) \<longleftrightarrow> False"
| "wf_op _ \<longleftrightarrow> True"

lemma readProtocolOpCase_simps [simp]:
  "readProtocolOpCase TagBindRequest = Some (go_map OpBindRequest readBindRequest)"
  "readProtocolOpCase TagBindResponse = Some (go_map OpBindResponse readBindResponse)"
  "readProtocolOpCase TagUnbindRequest = Some (go_map (\<lambda>_. OpUnbindRequest) readUnbindRequest)"
  "readProtocolOpCase TagSearchRequest = Some (go_map OpSearchRequest readSearchRequest)"
  "readProtocolOpCase TagSearchResultEntry = Some (go_map OpSearchResultEntry readSearchResultEntry)"
  "readProtocolOpCase TagSearchResultDone = Some (go_map OpSearchResultDone readSearchResultDone)"
  "readProtocolOpCase TagSearchResultReference = Some (go_map OpSearchResultReference readSearchResultReference)"
  "readProtocolOpCase TagModifyRequest = Some (go_map OpModifyRequest readModifyRequest)"
  "readProtocolOpCase TagModifyResponse = Some (go_map OpModifyResponse readModifyResponse)"
  "readProtocolOpCase TagAddRequest = Some (go_map OpAddRequest readAddRequest)"
  "readProtocolOpCase TagAddResponse = Some (go_map OpAddResponse readAddResponse)"
  "readProtocolOpCase TagDelRequest = Some (go_map OpDelRequest readDelRequest)"
  "readProtocolOpCase TagDelResponse = Some (go_map OpDelResponse readDelResponse)"
  "readProtocolOpCase TagModifyDNRequest = Some (go_map OpModifyDNRequest readModifyDNRequest)"
  "readProtocolOpCase TagModifyDNResponse = Some (go_map OpModifyDNResponse readModifyDNResponse)"
  "readProtocolOpCase TagCompareRequest = Some (go_map OpCompareRequest readCompareRequest)"
  "readProtocolOpCase TagCompareResponse = Some (go_map OpCompareResponse readCompareResponse)"
  "readProtocolOpCase TagAbandonRequest = Some (go_map OpAbandonRequest readAbandonRequest)"
  "readProtocolOpCase TagExtendedRequest = Some (go_map OpExtendedRequest readExtendedRequest)"
  "readProtocolOpCase TagExtendedResponse = Some (go_map OpExtendedResponse readExtendedResponse)"
  "readProtocolOpCase TagIntermediateResponse = Some (go_map OpIntermediateResponse readIntermediateResponse)"
  unfolding readProtocolOpCase_def by (simp_all add: ldap_tags)

lemma enc_prim_ops:
  "tlv classApplication isNotCompound TagDelRequest (bytes_of s) = enc_str classApplication TagDelRequest s"
  "tlv classApplication isNotCompound TagAbandonRequest (int32_bytes i) = enc_int classApplication TagAbandonRequest i"
  by (simp_all add: enc_leaf_defs)

lemma reads_op_case:
  assumes "reads (go_map F rd) (tlv classApplication cmp tag c) p"
    and "readProtocolOpCase tag = Some (go_map F rd)" and "low_tag classApplication tag"
  shows "reads readProtocolOp (tlv classApplication cmp tag c) p"
  using assms(1,2) unfolding readProtocolOp_def
  by (intro reads_preview assms(3)) (auto intro: reads_wrap)

lemma writes_op: "writes (ProtocolOp_write p) (enc_op p)"
  by (cases p) (simp_all add: enc_prim_ops LDAPResult_write_def writes_tagged LDAPResult_body.writes_components
      BindRequest.writes_enc BindResponse.writes_enc UnbindRequest.writes_enc SearchRequest.writes_enc SearchResultEntry.writes_enc SearchResultDone.writes_enc SearchResultReference.writes_enc ModifyRequest.writes_enc ModifyResponse.writes_enc AddRequest.writes_enc AddResponse.writes_enc DelRequest.writes_enc DelResponse.writes_enc ModifyDNRequest.writes_enc ModifyDNResponse.writes_enc CompareRequest.writes_enc CompareResponse.writes_enc AbandonRequest.writes_enc ExtendedRequest.writes_enc ExtendedResponse.writes_enc IntermediateResponse.writes_enc)

lemma size_op: "ProtocolOp_size p = length (enc_op p)"
proof (cases p)
  case (OpLDAPResult r)
  then show ?thesis
    by (simp add: LDAPResult_size_def LDAPResult_body.size_components size_tagged_size length_tlv_size)
qed (simp_all add: enc_prim_ops BindRequest.size_enc BindResponse.size_enc UnbindRequest.size_enc SearchRequest.size_enc SearchResultEntry.size_enc SearchResultDone.size_enc SearchResultReference.size_enc ModifyRequest.size_enc ModifyResponse.size_enc AddRequest.size_enc AddResponse.size_enc DelRequest.size_enc DelResponse.size_enc ModifyDNRequest.size_enc ModifyDNResponse.size_enc CompareRequest.size_enc CompareResponse.size_enc AbandonRequest.size_enc ExtendedRequest.size_enc ExtendedResponse.size_enc IntermediateResponse.size_enc)

lemma reads_op:
  assumes "wf_op p"
  shows "reads readProtocolOp (enc_op p) p"
proof (cases p)
  case (OpBindRequest x)
  have "reads readProtocolOp (enc_op (OpBindRequest x)) (OpBindRequest x)"
    unfolding enc_op.simps
    by (rule reads_op_case [OF reads_map [OF _ refl] readProtocolOpCase_simps(1)])
       (use assms OpBindRequest BindRequest.reads_enc [of x] in \<open>simp_all add: enc_prim_ops\<close>)
  then show ?thesis by (simp only: OpBindRequest)
next
  case (OpBindResponse x)
  have "reads readProtocolOp (enc_op (OpBindResponse x)) (OpBindResponse x)"
    unfolding enc_op.simps
    by (rule reads_op_case [OF reads_map [OF _ refl] readProtocolOpCase_simps(2)])
       (use assms OpBindResponse BindResponse.reads_enc [of x] in \<open>simp_all add: enc_prim_ops\<close>)
  then show ?thesis by (simp only: OpBindResponse)
next
  case OpUnbindRequest
  have "reads readProtocolOp (enc_op OpUnbindRequest) OpUnbindRequest"
    unfolding enc_op.simps
    by (rule reads_op_case [OF reads_map [OF UnbindRequest.reads_enc refl] readProtocolOpCase_simps(3)]) simp_all
  then show ?thesis by (simp only: OpUnbindRequest)
next
  case (OpSearchRequest x)
  have "reads readProtocolOp (enc_op (OpSearchRequest x)) (OpSearchRequest x)"
    unfolding enc_op.simps
    by (rule reads_op_case [OF reads_map [OF _ refl] readProtocolOpCase_simps(4)])
       (use assms OpSearchRequest SearchRequest.reads_enc [of x] in \<open>simp_all add: enc_prim_ops\<close>)
  then show ?thesis by (simp only: OpSearchRequest)
next
  case (OpSearchResultEntry x)
  have "reads readProtocolOp (enc_op (OpSearchResultEntry x)) (OpSearchResultEntry x)"
    unfolding enc_op.simps
    by (rule reads_op_case [OF reads_map [OF _ refl] readProtocolOpCase_simps(5)])
       (use assms OpSearchResultEntry SearchResultEntry.reads_enc [of x] in \<open>simp_all add: enc_prim_ops\<close>)
  then show ?thesis by (simp only: OpSearchResultEntry)
next
  case (OpSearchResultDone x)
  have "reads readProtocolOp (enc_op (OpSearchResultDone x)) (OpSearchResultDone x)"
    unfolding enc_op.simps
    by (rule reads_op_case [OF reads_map [OF _ refl] readProtocolOpCase_simps(6)])
       (use assms OpSearchResultDone SearchResultDone.reads_enc [of x] in \<open>simp_all add: enc_prim_ops\<close>)
  then show ?thesis by (simp only: OpSearchResultDone)
next
  case (OpSearchResultReference x)
  have "reads readProtocolOp (enc_op (OpSearchResultReference x)) (OpSearchResultReference x)"
    unfolding enc_op.simps
    by (rule reads_op_case [OF reads_map [OF _ refl] readProtocolOpCase_simps(7)])
       (use assms OpSearchResultReference SearchResultReference.reads_enc [of x] in \<open>simp_all add: enc_prim_ops\<close>)
  then show ?thesis by (simp only: OpSearchResultReference)
next
  case (OpModifyRequest x)
  have "reads readProtocolOp (enc_op (OpModifyRequest x)) (OpModifyRequest x)"
    unfolding enc_op.simps
    by (rule reads_op_case [OF reads_map [OF _ refl] readProtocolOpCase_simps(8)])
       (use assms OpModifyRequest ModifyRequest.reads_enc [of x] in \<open>simp_all add: enc_prim_ops\<close>)
  then show ?thesis by (simp only: OpModifyRequest)
next
  case (OpModifyResponse x)
  have "reads readProtocolOp (enc_op (OpModifyResponse x)) (OpModifyResponse x)"
    unfolding enc_op.simps
    by (rule reads_op_case [OF reads_map [OF _ refl] readProtocolOpCase_simps(9)])
       (use assms OpModifyResponse ModifyResponse.reads_enc [of x] in \<open>simp_all add: enc_prim_ops\<close>)
  then show ?thesis by (simp only: OpModifyResponse)
next
  case (OpAddRequest x)
  have "reads readProtocolOp (enc_op (OpAddRequest x)) (OpAddRequest x)"
    unfolding enc_op.simps
    by (rule reads_op_case [OF reads_map [OF _ refl] readProtocolOpCase_simps(10)])
       (use assms OpAddRequest AddRequest.reads_enc [of x] in \<open>simp_all add: enc_prim_ops\<close>)
  then show ?thesis by (simp only: OpAddRequest)
next
  case (OpAddResponse x)
  have "reads readProtocolOp (enc_op (OpAddResponse x)) (OpAddResponse x)"
    unfolding enc_op.simps
    by (rule reads_op_case [OF reads_map [OF _ refl] readProtocolOpCase_simps(11)])
       (use assms OpAddResponse AddResponse.reads_enc [of x] in \<open>simp_all add: enc_prim_ops\<close>)
  then show ?thesis by (simp only: OpAddResponse)
next
  case (OpDelRequest x)
  have "reads readProtocolOp (enc_op (OpDelRequest x)) (OpDelRequest x)"
    unfolding enc_op.simps
    by (rule reads_op_case [OF reads_map [OF _ refl] readProtocolOpCase_simps(12)])
       (use assms OpDelRequest DelRequest.reads_enc [of x] in \<open>simp_all add: enc_prim_ops\<close>)
  then show ?thesis by (simp only: OpDelRequest)
next
  case (OpDelResponse x)
  have "reads readProtocolOp (enc_op (OpDelResponse x)) (OpDelResponse x)"
    unfolding enc_op.simps
    by (rule reads_op_case [OF reads_map [OF _ refl] readProtocolOpCase_simps(13)])
       (use assms OpDelResponse DelResponse.reads_enc [of x] in \<open>simp_all add: enc_prim_ops\<close>)
  then show ?thesis by (simp only: OpDelResponse)
next
  case (OpModifyDNRequest x)
  have "reads readProtocolOp (enc_op (OpModifyDNRequest x)) (OpModifyDNRequest x)"
    unfolding enc_op.simps
    by (rule reads_op_case [OF reads_map [OF _ refl] readProtocolOpCase_simps(14)])
       (use assms OpModifyDNRequest ModifyDNRequest.reads_enc [of x] in \<open>simp_all add: enc_prim_ops\<close>)
  then show ?thesis by (simp only: OpModifyDNRequest)
next
  case (OpModifyDNResponse x)
  have "reads readProtocolOp (enc_op (OpModifyDNResponse x)) (OpModifyDNResponse x)"
    unfolding enc_op.simps
    by (rule reads_op_case [OF reads_map [OF _ refl] readProtocolOpCase_simps(15)])
       (use assms OpModifyDNResponse ModifyDNResponse.reads_enc [of x] in \<open>simp_all add: enc_prim_ops\<close>)
  then show ?thesis by (simp only: OpModifyDNResponse)
next
  case (OpCompareRequest x)
  have "reads readProtocolOp (enc_op (OpCompareRequest x)) (OpCompareRequest x)"
    unfolding enc_op.simps
    by (rule reads_op_case [OF reads_map [OF _ refl] readProtocolOpCase_simps(16)])
       (use assms OpCompareRequest CompareRequest.reads_enc [of x] in \<open>simp_all add: enc_prim_ops\<close>)
  then show ?thesis by (simp only: OpCompareRequest)
next
  case (OpCompareResponse x)
  have "reads readProtocolOp (enc_op (OpCompareResponse x)) (OpCompareResponse x)"
    unfolding enc_op.simps
    by (rule reads_op_case [OF reads_map [OF _ refl] readProtocolOpCase_simps(17)])
       (use assms OpCompareResponse CompareResponse.reads_enc [of x] in \<open>simp_all add: enc_prim_ops\<close>)
  then show ?thesis by (simp only: OpCompareResponse)
next
  case (OpAbandonRequest x)
  have "reads readProtocolOp (enc_op (OpAbandonRequest x)) (OpAbandonRequest x)"
    unfolding enc_op.simps
    by (rule reads_op_case [OF reads_map [OF _ refl] readProtocolOpCase_simps(18)])
       (use assms OpAbandonRequest AbandonRequest.reads_enc [of x] in \<open>simp_all add: enc_prim_ops\<close>)
  then show ?thesis by (simp only: OpAbandonRequest)
next
  case (OpExtendedRequest x)
  have "reads readProtocolOp (enc_op (OpExtendedRequest x)) (OpExtendedRequest x)"
    unfolding enc_op.simps
    by (rule reads_op_case [OF reads_map [OF _ refl] readProtocolOpCase_simps(19)])
       (use assms OpExtendedRequest ExtendedRequest.reads_enc [of x] in \<open>simp_all add: enc_prim_ops\<close>)
  then show ?thesis by (simp only: OpExtendedRequest)
next
  case (OpExtendedResponse x)
  have "reads readProtocolOp (enc_op (OpExtendedResponse x)) (OpExtendedResponse x)"
    unfolding enc_op.simps
    by (rule reads_op_case [OF reads_map [OF _ refl] readProtocolOpCase_simps(20)])
       (use assms OpExtendedResponse ExtendedResponse.reads_enc [of x] in \<open>simp_all add: enc_prim_ops\<close>)
  then show ?thesis by (simp only: OpExtendedResponse)
next
  case (OpIntermediateResponse x)
  have "reads readProtocolOp (enc_op (OpIntermediateResponse x)) (OpIntermediateResponse x)"
    unfolding enc_op.simps
    by (rule reads_op_case [OF reads_map [OF _ refl] readProtocolOpCase_simps(21)])
       (use assms OpIntermediateResponse IntermediateResponse.reads_enc [of x] in \<open>simp_all add: enc_prim_ops\<close>)
  then show ?thesis by (simp only: OpIntermediateResponse)
next
  case (OpLDAPResult x)
  then show ?thesis using assms by simp
qed

lemma op_case_codec:
  "readProtocolOpCase tag = Some rd \<Longrightarrow> terminates rd \<and> advances rd"
  unfolding readProtocolOpCase_def
  by (auto split: if_splits intro!: terminates_map advances_map
      BindRequest.terminates_rd BindRequest.advances_rd BindResponse.terminates_rd BindResponse.advances_rd UnbindRequest.terminates_rd UnbindRequest.advances_rd SearchRequest.terminates_rd SearchRequest.advances_rd SearchResultEntry.terminates_rd SearchResultEntry.advances_rd SearchResultDone.terminates_rd SearchResultDone.advances_rd SearchResultReference.terminates_rd SearchResultReference.advances_rd ModifyRequest.terminates_rd ModifyRequest.advances_rd ModifyResponse.terminates_rd ModifyResponse.advances_rd AddRequest.terminates_rd AddRequest.advances_rd AddResponse.terminates_rd AddResponse.advances_rd DelRequest.terminates_rd DelRequest.advances_rd DelResponse.terminates_rd DelResponse.advances_rd ModifyDNRequest.terminates_rd ModifyDNRequest.advances_rd ModifyDNResponse.terminates_rd ModifyDNResponse.advances_rd CompareRequest.terminates_rd CompareRequest.advances_rd CompareResponse.terminates_rd CompareResponse.advances_rd AbandonRequest.terminates_rd AbandonRequest.advances_rd ExtendedRequest.terminates_rd ExtendedRequest.advances_rd ExtendedResponse.terminates_rd ExtendedResponse.advances_rd IntermediateResponse.terminates_rd IntermediateResponse.advances_rd)

interpretation ProtocolOp: ber_codec readProtocolOp ProtocolOp_write ProtocolOp_size enc_op wf_op
proof (unfold_locales, goal_cases)
  case 1
  have "terminates (case readProtocolOpCase tag of
      Some rd \<Rightarrow> go_wrap c rd | None \<Rightarrow> throw e)" for tag c e
    using op_case_codec by (auto split: option.split intro!: terminates_rules)
  then show ?case unfolding readProtocolOp_def by (intro terminates_rules)
next
  case 2
  have "advances (case readProtocolOpCase tag of
      Some rd \<Rightarrow> go_wrap c rd | None \<Rightarrow> throw e)" for tag c e
    using op_case_codec by (auto split: option.split intro!: advances_rules)
  then show ?case unfolding readProtocolOp_def by (intro advances_rules)
next
  case (6 p) show ?case by (cases p) simp_all
qed (simp_all add: writes_op size_op reads_op)

definition enc_message :: "LDAPMessage \<Rightarrow> byte list" where
  "enc_message m =
     enc_INTEGER (msg_messageID m) @ enc_op (msg_protocolOp m) @
     enc_opt (\<lambda>c. tlv classContextSpecific isCompound TagLDAPMessageControls (enc_Controls c)) (msg_controls m)"

definition wf_message :: "LDAPMessage \<Rightarrow> bool" where
  "wf_message m \<longleftrightarrow> 0 \<le> sint (msg_messageID m) \<and> wf_op (msg_protocolOp m)"

interpretation LDAPMessage_body: ber_components LDAPMessage_readComponents
  "\<lambda>l. write_then (write_then
     (write_opt (\<lambda>c. Controls_writeTagged c classContextSpecific TagLDAPMessageControls) (msg_controls l))
     (ProtocolOp_write (msg_protocolOp l)))
     (MessageID_write (msg_messageID l))"
  "\<lambda>l. MessageID_size (msg_messageID l) + ProtocolOp_size (msg_protocolOp l)
     + size_opt (\<lambda>c. Controls_sizeTagged c TagLDAPMessageControls) (msg_controls l)"
  enc_message wf_message
proof (unfold_locales, goal_cases)
  case 1 show ?case unfolding LDAPMessage_readComponents_def readTaggedControls_def
    by (intro terminates_rules ProtocolOp.terminates_rd Controls_body.terminates_cb)
next
  case (2 x) show ?case unfolding enc_message_def Controls_writeTagged_def
    by (intro writes_then writes_opt writes_tagged Controls_body.writes_components ProtocolOp.writes_enc
        int_writers low_ldap_tags)
next
  case (3 x) show ?case
    by (cases "msg_controls x")
       (simp_all add: enc_message_def Controls_sizeTagged_def Controls_body.size_components
         ProtocolOp.size_enc size_rules)
next
  case (4 x)
  have c: "consumes (read_optional TagLDAPMessageControls
       (readTaggedControls classContextSpecific TagLDAPMessageControls))
     (enc_opt (\<lambda>c. tlv classContextSpecific isCompound TagLDAPMessageControls (enc_Controls c)) (msg_controls x))
     (msg_controls x)"
    unfolding readTaggedControls_def
    by (rule consumes_optional, rule reads_optional)
       (auto intro!: reads_wrap reads_ReadSubBytes Controls_body.consumes_components)
  show ?case unfolding LDAPMessage_readComponents_def enc_message_def using 4
    by (cases x) (rule reads_bind reads_bind_last [OF c] reads_wrap positive_int_readers(4) ProtocolOp.reads_enc
        | simp add: wf_message_def)+
qed

interpretation LDAPMessage: ber_codec ReadLDAPMessage LDAPMessage_writeTo LDAPMessage_size
  "\<lambda>m. tlv classUniversal isCompound tagSequence (enc_message m)" wf_message
  unfolding ReadLDAPMessage_def LDAPMessage_writeTo_def [abs_def] LDAPMessage_size_def [abs_def]
  by (rule LDAPMessage_body.tagged_codec) simp_all

lemma Write_enc:
  "LDAPMessage_Write m =
     Ok \<lparr>bytes = tlv classUniversal isCompound tagSequence (enc_message m), offset = 0\<rparr>"
  by (simp add: LDAPMessage_Write_def Let_def LDAPMessage.write_fresh)

end
