(* ===== verification/Ldap_Server.thy ===== *)
theory Ldap_Server
  imports Ldap_Message
begin

text \<open>
  The LDAP server \<^verbatim>\<open>lib/ldapsrv\<close>: packet framing on a connection (\<^verbatim>\<open>packet.go\<close>), the errors that
  carry a result code (\<^verbatim>\<open>error.go\<close>), request dispatch (\<^verbatim>\<open>handler.go\<close>), the responses
  (\<^verbatim>\<open>responsemessage.go\<close>, \<^verbatim>\<open>constants.go\<close>) and the per-connection loop (\<^verbatim>\<open>client.go\<close>).

  A connection is a \<open>bufio_Reader\<close>: the bytes already buffered and the segments the next reads of
  the socket return. The \<^verbatim>\<open>Handler\<close> interface is a record of functions over the connection
  state. The channel \<^verbatim>\<open>chanOut\<close>, drained by one goroutine, is the list of messages sent; a
  request's \<^verbatim>\<open>Done\<close> channel (capacity 2, never received from by the server) is the number of
  signals in it, and a send to a full one blocks for ever (\<open>Diverge\<close>). The text of an error,
  \<^verbatim>\<open>err.Error()\<close>, is a parameter. Deadlines, logging, metrics and tracing are left out.
\<close>

section \<open>error.go\<close>

definition withCode :: "ENUMERATED \<Rightarrow> string \<Rightarrow> goerr" where
  "withCode code message = CodeError code message"

definition ErrOperationsError :: goerr where "ErrOperationsError = withCode ResultCodeOperationsError ''operations error''"
definition ErrProtocolError :: goerr where "ErrProtocolError = withCode ResultCodeProtocolError ''protocol error''"
definition ErrTimeLimitExceeded :: goerr where "ErrTimeLimitExceeded = withCode ResultCodeTimeLimitExceeded ''time limit exceeded''"
definition ErrSizeLimitExceeded :: goerr where "ErrSizeLimitExceeded = withCode ResultCodeSizeLimitExceeded ''size limit exceeded''"
definition ErrCompareFalse :: goerr where "ErrCompareFalse = withCode ResultCodeCompareFalse ''compare false''"
definition ErrCompareTrue :: goerr where "ErrCompareTrue = withCode ResultCodeCompareTrue ''compare true''"
definition ErrAuthMethodNotSupported :: goerr where "ErrAuthMethodNotSupported = withCode ResultCodeAuthMethodNotSupported ''auth method not supported''"
definition ErrStrongerAuthRequired :: goerr where "ErrStrongerAuthRequired = withCode ResultCodeStrongerAuthRequired ''stronger auth required''"
definition ErrReferral :: goerr where "ErrReferral = withCode ResultCodeReferral ''referral''"
definition ErrAdminLimitExceeded :: goerr where "ErrAdminLimitExceeded = withCode ResultCodeAdminLimitExceeded ''admin limit exceeded''"
definition ErrUnavailableCriticalExtension :: goerr where "ErrUnavailableCriticalExtension = withCode ResultCodeUnavailableCriticalExtension ''unavailable critical extension''"
definition ErrConfidentialityRequired :: goerr where "ErrConfidentialityRequired = withCode ResultCodeConfidentialityRequired ''confidentiality required''"
definition ErrSaslBindInProgress :: goerr where "ErrSaslBindInProgress = withCode ResultCodeSaslBindInProgress ''sasl bind in progress''"
definition ErrNoSuchAttribute :: goerr where "ErrNoSuchAttribute = withCode ResultCodeNoSuchAttribute ''no such attribute''"
definition ErrUndefinedAttributeType :: goerr where "ErrUndefinedAttributeType = withCode ResultCodeUndefinedAttributeType ''undefined attribute type''"
definition ErrInappropriateMatching :: goerr where "ErrInappropriateMatching = withCode ResultCodeInappropriateMatching ''inappropriate matching''"
definition ErrConstraintViolation :: goerr where "ErrConstraintViolation = withCode ResultCodeConstraintViolation ''constraint violation''"
definition ErrAttributeOrValueExists :: goerr where "ErrAttributeOrValueExists = withCode ResultCodeAttributeOrValueExists ''attribute or value exists''"
definition ErrInvalidAttributeSyntax :: goerr where "ErrInvalidAttributeSyntax = withCode ResultCodeInvalidAttributeSyntax ''invalid attribute syntax''"
definition ErrNoSuchObject :: goerr where "ErrNoSuchObject = withCode ResultCodeNoSuchObject ''no such object''"
definition ErrAliasProblem :: goerr where "ErrAliasProblem = withCode ResultCodeAliasProblem ''alias problem''"
definition ErrInvalidDNSyntax :: goerr where "ErrInvalidDNSyntax = withCode ResultCodeInvalidDNSyntax ''invalid DN syntax''"
definition ErrAliasDereferencingProblem :: goerr where "ErrAliasDereferencingProblem = withCode ResultCodeAliasDereferencingProblem ''alias dereference problem''"
definition ErrInappropriateAuthentication :: goerr where "ErrInappropriateAuthentication = withCode ResultCodeInappropriateAuthentication ''inappropriate authentication''"
definition ErrInvalidCredentials :: goerr where "ErrInvalidCredentials = withCode ResultCodeInvalidCredentials ''invalid credentials''"
definition ErrInsufficientAccessRights :: goerr where "ErrInsufficientAccessRights = withCode ResultCodeInsufficientAccessRights ''insufficient access rights''"
definition ErrBusy :: goerr where "ErrBusy = withCode ResultCodeBusy ''busy''"
definition ErrUnavailable :: goerr where "ErrUnavailable = withCode ResultCodeUnavailable ''unavailable''"
definition ErrUnwillingToPerform :: goerr where "ErrUnwillingToPerform = withCode ResultCodeUnwillingToPerform ''unwilling to perform''"
definition ErrLoopDetect :: goerr where "ErrLoopDetect = withCode ResultCodeLoopDetect ''loop detected''"
definition ErrNamingViolation :: goerr where "ErrNamingViolation = withCode ResultCodeNamingViolation ''naming violation''"
definition ErrObjectClassViolation :: goerr where "ErrObjectClassViolation = withCode ResultCodeObjectClassViolation ''object class violation''"
definition ErrNotAllowedOnNonLeaf :: goerr where "ErrNotAllowedOnNonLeaf = withCode ResultCodeNotAllowedOnNonLeaf ''not allowed on non leaf''"
definition ErrNotAllowedOnRDN :: goerr where "ErrNotAllowedOnRDN = withCode ResultCodeNotAllowedOnRDN ''not allowed on RDN''"
definition ErrEntryAlreadyExists :: goerr where "ErrEntryAlreadyExists = withCode ResultCodeEntryAlreadyExists ''entry already exists''"
definition ErrObjectClassModsProhibited :: goerr where "ErrObjectClassModsProhibited = withCode ResultCodeObjectClassModsProhibited ''object class mods prohibited''"
definition ErrAffectsMultipleDSAs :: goerr where "ErrAffectsMultipleDSAs = withCode ResultCodeAffectsMultipleDSAs ''affects multiple DSAs''"
definition ErrOther :: goerr where "ErrOther = withCode ResultCodeOther ''other''"

definition ErrUnimplemented :: goerr where
  "ErrUnimplemented = Wrapped ''operation not unimplemented'' ErrUnwillingToPerform"

definition ErrUnsupported :: goerr where
  "ErrUnsupported = Wrapped ''operation not supported'' ErrUnwillingToPerform"

lemmas server_errors = withCode_def
  ErrOperationsError_def ErrProtocolError_def ErrTimeLimitExceeded_def ErrSizeLimitExceeded_def
  ErrCompareFalse_def ErrCompareTrue_def ErrAuthMethodNotSupported_def ErrStrongerAuthRequired_def
  ErrReferral_def ErrAdminLimitExceeded_def ErrUnavailableCriticalExtension_def
  ErrConfidentialityRequired_def ErrSaslBindInProgress_def ErrNoSuchAttribute_def
  ErrUndefinedAttributeType_def ErrInappropriateMatching_def ErrConstraintViolation_def
  ErrAttributeOrValueExists_def ErrInvalidAttributeSyntax_def ErrNoSuchObject_def
  ErrAliasProblem_def ErrInvalidDNSyntax_def ErrAliasDereferencingProblem_def
  ErrInappropriateAuthentication_def ErrInvalidCredentials_def ErrInsufficientAccessRights_def
  ErrBusy_def ErrUnavailable_def ErrUnwillingToPerform_def ErrLoopDetect_def ErrNamingViolation_def
  ErrObjectClassViolation_def ErrNotAllowedOnNonLeaf_def ErrNotAllowedOnRDN_def
  ErrEntryAlreadyExists_def ErrObjectClassModsProhibited_def ErrAffectsMultipleDSAs_def ErrOther_def
  ErrUnimplemented_def ErrUnsupported_def

text \<open>\<^verbatim>\<open>errors.AsType[withErrorCode](err)\<close>: the first error, depth first, that has a code.\<close>

fun errors_LDAPCode :: "goerr \<Rightarrow> ENUMERATED option" where
  "errors_LDAPCode (CodeError code m) = Some code"
| "errors_LDAPCode (Wrapped ctx e) = errors_LDAPCode e"
| "errors_LDAPCode (Joined a b) = (case errors_LDAPCode a of Some code \<Rightarrow> Some code | None \<Rightarrow> errors_LDAPCode b)"
| "errors_LDAPCode (HTTPError status e) = errors_LDAPCode e"
| "errors_LDAPCode _ = None"

section \<open>packet.go\<close>

text \<open>
  \<^verbatim>\<open>bufio.Reader\<close> of the default size. \<^verbatim>\<open>Read\<close> returns what is buffered, at most what is asked
  for; on an empty buffer it reads the socket once, straight into the caller's slice when that is
  at least as long as the buffer. It does not wait for the rest.
\<close>

record bufio_Reader =
  br_buf :: "byte list"
  br_segments :: "byte list list"

definition bufio_size :: nat where
  "bufio_size = 4096"

fun push_back :: "byte list \<Rightarrow> byte list list \<Rightarrow> byte list list" where
  "push_back [] segs = segs"
| "push_back rest segs = rest # segs"

definition ErrEOF :: goerr where
  "ErrEOF = PlainError ''end of file''"

definition bufio_Read :: "nat \<Rightarrow> bufio_Reader \<Rightarrow> byte list \<times> goerr option \<times> bufio_Reader" where
  "bufio_Read n br =
     (if n = 0 then ([], None, br)
      else if br_buf br \<noteq> [] then
        (take n (br_buf br), None, br\<lparr>br_buf := drop n (br_buf br)\<rparr>)
      else case br_segments br of
          [] \<Rightarrow> ([], Some (PlainError ''EOF''), br)
        | seg # segs \<Rightarrow>
            if bufio_size \<le> n then
              (take n seg, None, br\<lparr>br_segments := push_back (drop n seg) segs\<rparr>)
            else
              let filled = take bufio_size seg in
              (take n filled, None,
               \<lparr>br_buf = drop n filled, br_segments = push_back (drop bufio_size seg) segs\<rparr>))"

text \<open>\<^verbatim>\<open>readBytes\<close>: a short read is an error; the bytes go to the end of the slice.\<close>

definition readBytes :: "nat \<Rightarrow> (bufio_Reader \<times> byte list, byte) go" where
  "readBytes len = (\<lambda>(br, buf).
     let (newbytes, err, br') = bufio_Read len br in
     if length newbytes \<noteq> len
     then (Err (Wrapped ''read bytes'' ErrEOF), br', buf)
     else case err of
         Some e \<Rightarrow> (Err e, br', buf)
       | None \<Rightarrow>
           let buf' = buf @ newbytes in
           if buf' = [] then (Panic ''index out of range'', br', buf')
           else (Ok (last buf'), br', buf'))"

definition ErrInvalidFirstByte :: goerr where
  "ErrInvalidFirstByte = PlainError ''expected 0x30 as first byte''"

definition ErrInvalidPacket :: goerr where
  "ErrInvalidPacket = PlainError ''invalid packet''"

definition ErrInvalidMessage :: goerr where
  "ErrInvalidMessage = PlainError ''invalid message''"

fun readLengthLoop :: "nat \<Rightarrow> int \<Rightarrow> (bufio_Reader \<times> byte list, int) go" where
  "readLengthLoop 0 len = ret len"
| "readLengthLoop (Suc n) len =
     go_bind (readBytes 1) (\<lambda>b.
       if 2 ^ 23 \<le> len then throw (StructuralError ''length too large'')
       else readLengthLoop n (push_bit 8 len OR uint b))"

definition readTagAndLength :: "(bufio_Reader \<times> byte list, TagAndLength) go" where
  "readTagAndLength =
     go_bind (readBytes 1) (\<lambda>b.
       let cls = uint (drop_bit 6 b); cmp = (b AND 0x20 = 0x20); tag = uint (b AND 0x1f) in
       if b \<noteq> 0x30 then throw (Wrapped ''unexpected first byte'' ErrInvalidFirstByte)
       else go_bind (readBytes 1) (\<lambda>b2.
         if b2 AND 0x80 = 0
         then ret \<lparr>Class = cls, Tag = tag, Length = uint (b2 AND 0x7f), IsCompound = cmp\<rparr>
         else let numBytes = unat (b2 AND 0x7f) in
           if numBytes = 0 then throw (SyntaxError ''indefinite length found (not DER)'' [])
           else go_bind (readLengthLoop numBytes 0) (\<lambda>len.
             ret \<lparr>Class = cls, Tag = tag, Length = len, IsCompound = cmp\<rparr>)))"

definition readLdapMessageBytes :: "(bufio_Reader, byte list) go" where
  "readLdapMessageBytes = (\<lambda>br.
     case go_bind readTagAndLength (\<lambda>t. readBytes (nat (Length t))) (br, []) of
       (Ok _, br', buf) \<Rightarrow> (Ok buf, br')
     | (Err e, br', _) \<Rightarrow> (Err e, br')
     | (Panic p, br', _) \<Rightarrow> (Panic p, br')
     | (Diverge, br', _) \<Rightarrow> (Diverge, br'))"

text \<open>The recover of \<^verbatim>\<open>decodeMessage\<close> and of \<^verbatim>\<open>readMessage\<close>: a panic becomes an error.\<close>

definition decodeMessage :: "byte list \<Rightarrow> LDAPMessage outcome" where
  "decodeMessage packet = (case fst (ReadLDAPMessage (NewBytes 0 packet)) of
      Panic p \<Rightarrow> Err (Wrapped ''panic caught while decoding message'' ErrInvalidMessage)
    | r \<Rightarrow> r)"

definition readMessage :: "byte list \<Rightarrow> LDAPMessage outcome" where
  "readMessage packet = (case decodeMessage packet of
      Panic p \<Rightarrow> Err (Wrapped ''panic caught while reading message'' ErrInvalidPacket)
    | r \<Rightarrow> r)"

section \<open>responsemessage.go and constants.go\<close>

definition NewResponse :: "ENUMERATED \<Rightarrow> LDAPResult" where
  "NewResponse resultCode =
     LDAPResult_SetResultCode resultCode
       \<lparr>res_resultCode = 0, res_matchedDN = [], res_diagnosticMessage = [], res_referral = None\<rparr>"

definition NewExtendedResponse :: "ENUMERATED \<Rightarrow> ExtendedResponse" where
  "NewExtendedResponse resultCode =
     \<lparr>eresp_LDAPResult = NewResponse resultCode, eresp_responseName = None, eresp_responseValue = None\<rparr>"

definition NewSearchResultEntry :: "string \<Rightarrow> SearchResultEntry" where
  "NewSearchResultEntry objectname =
     SearchResultEntry_SetObjectName objectname \<lparr>sre_objectName = [], sre_attributes = []\<rparr>"

definition NoticeOfDisconnection :: LDAPOID where
  "NoticeOfDisconnection = ''1.3.6.1.4.1.1466.2003''"

definition NoticeOfPasswordModify :: LDAPOID where
  "NoticeOfPasswordModify = ''1.3.6.1.4.1.4203.1.11.1''"

section \<open>handler.go\<close>

text \<open>
  The interface \<^verbatim>\<open>Handler[T]\<close>. The world \<open>'w\<close> is what an implementation keeps outside the
  connection's state (for the directory service, its store).
\<close>

record ('w, 't) Handler =
  h_Bind :: "'t \<Rightarrow> BindRequest \<Rightarrow> ('w, 't \<times> goerr option) go"
  h_Search :: "'t \<Rightarrow> SearchRequest \<Rightarrow> ('w, SearchResultEntry list \<times> 't \<times> goerr option) go"
  h_Add :: "'t \<Rightarrow> AddRequest \<Rightarrow> ('w, 't \<times> goerr option) go"
  h_Del :: "'t \<Rightarrow> DelRequest \<Rightarrow> ('w, 't \<times> goerr option) go"
  h_Modify :: "'t \<Rightarrow> ModifyRequest \<Rightarrow> ('w, 't \<times> goerr option) go"
  h_Compare :: "'t \<Rightarrow> CompareRequest \<Rightarrow> ('w, bool \<times> 't \<times> goerr option) go"
  h_Extended :: "'t \<Rightarrow> ExtendedRequest \<Rightarrow> ('w, 't \<times> goerr option) go"

definition UnimplementedHandler :: "('w, 't) Handler" where
  "UnimplementedHandler =
     \<lparr>h_Bind = (\<lambda>s r. ret (s, Some ErrUnimplemented)),
      h_Search = (\<lambda>s r. ret ([], s, Some ErrUnimplemented)),
      h_Add = (\<lambda>s r. ret (s, Some ErrUnimplemented)),
      h_Del = (\<lambda>s r. ret (s, Some ErrUnimplemented)),
      h_Modify = (\<lambda>s r. ret (s, Some ErrUnimplemented)),
      h_Compare = (\<lambda>s r. ret (False, s, Some ErrUnimplemented)),
      h_Extended = (\<lambda>s r. ret (s, Some ErrUnimplemented))\<rparr>"

text \<open>
  The switch of \<^verbatim>\<open>runHandler\<close>: the operations written to the client, the new state, the code and
  the error. When no case matches, the named result \<open>state\<close> keeps the zero value of its type.
\<close>

definition dispatch :: "('w, 't) Handler \<Rightarrow> 't \<Rightarrow> 't \<Rightarrow> ProtocolOp \<Rightarrow>
    ('w, ProtocolOp list \<times> 't \<times> ENUMERATED \<times> goerr option) go" where
  "dispatch h zero is op = (case op of
      OpBindRequest r \<Rightarrow> go_map (\<lambda>(state, err). ([], state, ResultCodeSuccess, err)) (h_Bind h is r)
    | OpSearchRequest r \<Rightarrow>
        go_map (\<lambda>(results, state, err). (map OpSearchResultEntry results, state, ResultCodeSuccess, err))
          (h_Search h is r)
    | OpAddRequest r \<Rightarrow> go_map (\<lambda>(state, err). ([], state, ResultCodeSuccess, err)) (h_Add h is r)
    | OpDelRequest r \<Rightarrow> go_map (\<lambda>(state, err). ([], state, ResultCodeSuccess, err)) (h_Del h is r)
    | OpModifyRequest r \<Rightarrow> go_map (\<lambda>(state, err). ([], state, ResultCodeSuccess, err)) (h_Modify h is r)
    | OpCompareRequest r \<Rightarrow>
        go_map (\<lambda>(matched, state, err).
          ([], state, if matched then ResultCodeCompareTrue else ResultCodeCompareFalse, err))
          (h_Compare h is r)
    | OpExtendedRequest r \<Rightarrow> go_map (\<lambda>(state, err). ([], state, ResultCodeSuccess, err)) (h_Extended h is r)
    | _ \<Rightarrow> ret ([], zero, ResultCodeSuccess, Some ErrUnsupported))"

definition errorCode :: "ENUMERATED \<Rightarrow> goerr option \<Rightarrow> ENUMERATED" where
  "errorCode code err = (case err of
      None \<Rightarrow> code
    | Some e \<Rightarrow> (case errors_LDAPCode e of Some c \<Rightarrow> c | None \<Rightarrow> ResultCodeOther))"

definition runHandler :: "('w, 't) Handler \<Rightarrow> 't \<Rightarrow> 't \<Rightarrow> ProtocolOp \<Rightarrow>
    ('w, ProtocolOp list \<times> 't \<times> ENUMERATED \<times> goerr option) go" where
  "runHandler h zero is op =
     go_map (\<lambda>(written, state, code, err). (written, state, errorCode code err, err)) (dispatch h zero is op)"

text \<open>The final response, in the format of the request.\<close>

definition final_response :: "ProtocolOp \<Rightarrow> LDAPResult \<Rightarrow> ProtocolOp" where
  "final_response op res = (case op of
      OpBindRequest r \<Rightarrow> OpBindResponse \<lparr>bresp_LDAPResult = res, bresp_serverSaslCreds = None\<rparr>
    | OpSearchRequest r \<Rightarrow> OpSearchResultDone res
    | OpAddRequest r \<Rightarrow> OpAddResponse res
    | OpDelRequest r \<Rightarrow> OpDelResponse res
    | OpModifyRequest r \<Rightarrow> OpModifyResponse res
    | OpCompareRequest r \<Rightarrow> OpCompareResponse res
    | OpExtendedRequest r \<Rightarrow>
        OpExtendedResponse (ExtendedResponse_SetResponseName NoticeOfPasswordModify
          \<lparr>eresp_LDAPResult = res, eresp_responseName = None, eresp_responseValue = None\<rparr>)
    | _ \<Rightarrow> OpLDAPResult res)"

section \<open>client.go\<close>

text \<open>The connection: outstanding requests by message id, and what was sent to the client.\<close>

record client =
  cl_requestList :: "int \<rightharpoonup> nat"
  cl_chanOut :: "LDAPMessage list"

definition done_capacity :: nat where
  "done_capacity = 2"

definition responseWriter_Write :: "MessageID \<Rightarrow> ProtocolOp \<Rightarrow> client \<Rightarrow> client" where
  "responseWriter_Write messageID po c =
     c\<lparr>cl_chanOut := cl_chanOut c @ [LDAPMessage_SetMessageID messageID (NewLDAPMessageWithProtocolOp po)]\<rparr>"

definition Abandon :: "int \<Rightarrow> (client, unit) go" where
  "Abandon i = (\<lambda>c. case cl_requestList c i of
      None \<Rightarrow> (Ok (), c)
    | Some k \<Rightarrow> if k < done_capacity then (Ok (), c\<lparr>cl_requestList := (cl_requestList c)(i \<mapsto> k + 1)\<rparr>)
                else (Diverge, c))"

definition handleAbandon :: "ProtocolOp \<Rightarrow> (client, unit) go" where
  "handleAbandon op = (case op of OpAbandonRequest v \<Rightarrow> Abandon (sint v) | _ \<Rightarrow> ret ())"

definition error_result :: "(goerr \<Rightarrow> string) \<Rightarrow> ENUMERATED \<Rightarrow> goerr option \<Rightarrow> LDAPResult" where
  "error_result errtext code err = (case err of
      None \<Rightarrow> NewResponse code
    | Some e \<Rightarrow> LDAPResult_SetDiagnosticMessage (errtext e) (NewResponse code))"

definition on_client :: "('c, 'a) go \<Rightarrow> ('c \<times> 'w, 'a) go" where
  "on_client m = (\<lambda>(c, w). case m c of (r, c') \<Rightarrow> (r, c', w))"

definition on_world :: "('w, 'a) go \<Rightarrow> ('c \<times> 'w, 'a) go" where
  "on_world m = (\<lambda>(c, w). case m w of (r, w') \<Rightarrow> (r, c, w'))"

definition handle :: "(goerr \<Rightarrow> string) \<Rightarrow> ('w, 't) Handler \<Rightarrow> 't \<Rightarrow> 't \<Rightarrow> LDAPMessage \<Rightarrow>
    (client \<times> 'w, 't) go" where
  "handle errtext h zero state m =
     go_bind (on_client (handleAbandon (msg_protocolOp m))) (\<lambda>_.
     go_bind (on_world (runHandler h zero state (msg_protocolOp m))) (\<lambda>(written, state', code, err).
     go_bind (on_client (\<lambda>c. (Ok (), fold (responseWriter_Write (msg_messageID m)) written c))) (\<lambda>_.
     go_bind (on_client (\<lambda>c. (Ok (), responseWriter_Write (msg_messageID m)
         (final_response (msg_protocolOp m) (error_result errtext code err)) c))) (\<lambda>_.
     ret state'))))"

definition registerRequest :: "MessageID \<Rightarrow> client \<Rightarrow> client" where
  "registerRequest i c = c\<lparr>cl_requestList := (cl_requestList c)(sint i \<mapsto> 0)\<rparr>"

definition unregisterRequest :: "MessageID \<Rightarrow> client \<Rightarrow> client" where
  "unregisterRequest i c = c\<lparr>cl_requestList := (cl_requestList c)(sint i := None)\<rparr>"

definition ProcessRequestMessage :: "(goerr \<Rightarrow> string) \<Rightarrow> ('w, 't) Handler \<Rightarrow> 't \<Rightarrow> 't \<Rightarrow> LDAPMessage \<Rightarrow>
    (client \<times> 'w, 't) go" where
  "ProcessRequestMessage errtext h zero state m = (\<lambda>(c, w).
     case handle errtext h zero state m (registerRequest (msg_messageID m) c, w) of
       (r, c', w') \<Rightarrow> (r, unregisterRequest (msg_messageID m) c', w'))"

text \<open>
  The loop of \<^verbatim>\<open>serve\<close>, over what \<^verbatim>\<open>ReadPacket\<close> returns: a read error or an unbind request ends
  it, a packet that cannot be decoded is skipped. The result is the final state of the session.
\<close>

fun serve :: "(goerr \<Rightarrow> string) \<Rightarrow> ('w, 't) Handler \<Rightarrow> 't \<Rightarrow> 't \<Rightarrow> byte list outcome list \<Rightarrow>
    (client \<times> 'w, 't) go" where
  "serve errtext h zero state [] cw = (Ok state, cw)"
| "serve errtext h zero state (p # ps) cw = (case p of
      Ok packet \<Rightarrow>
        (case readMessage packet of
          Ok message \<Rightarrow>
            if msg_protocolOp message = OpUnbindRequest then (Ok state, cw)
            else go_bind (ProcessRequestMessage errtext h zero state message)
                   (\<lambda>state'. serve errtext h zero state' ps) cw
        | _ \<Rightarrow> serve errtext h zero state ps cw)
    | _ \<Rightarrow> (Ok state, cw))"

definition new_client :: client where
  "new_client = \<lparr>cl_requestList = Map.empty, cl_chanOut = []\<rparr>"

text \<open>What the loop reads from a connection: packets up to the first read error.\<close>

fun ReadPackets :: "nat \<Rightarrow> bufio_Reader \<Rightarrow> byte list outcome list" where
  "ReadPackets 0 br = []"
| "ReadPackets (Suc n) br = (case readLdapMessageBytes br of
      (Ok p, br') \<Rightarrow> Ok p # ReadPackets n br'
    | (r, br') \<Rightarrow> [r])"

section \<open>Framing\<close>

lemma readBytes_buffered:
  "e \<noteq> [] \<Longrightarrow> readBytes (length e) (\<lparr>br_buf = e @ rest, br_segments = segs\<rparr>, acc) =
     (Ok (last e), \<lparr>br_buf = rest, br_segments = segs\<rparr>, acc @ e)"
  by (simp add: readBytes_def bufio_Read_def)

lemma readBytes_one:
  "readBytes (Suc 0) (\<lparr>br_buf = b # rest, br_segments = segs\<rparr>, acc) =
     (Ok b, \<lparr>br_buf = rest, br_segments = segs\<rparr>, acc @ [b])"
  using readBytes_buffered [of "[b]"] by simp

lemma readBytes_content:
  "acc \<noteq> [] \<Longrightarrow> \<exists>b. readBytes (length e) (\<lparr>br_buf = e @ rest, br_segments = segs\<rparr>, acc) =
     (Ok b, \<lparr>br_buf = rest, br_segments = segs\<rparr>, acc @ e)"
  by (cases "e = []") (auto simp: readBytes_buffered, simp add: readBytes_def bufio_Read_def)

lemma readLengthLoop_be_bytes:
  "0 \<le> v \<Longrightarrow> v < 2 ^ 31 \<Longrightarrow>
   readLengthLoop (length (be_bytes v) + k) 0 (\<lparr>br_buf = be_bytes v @ rest, br_segments = segs\<rparr>, acc) =
   readLengthLoop k v (\<lparr>br_buf = rest, br_segments = segs\<rparr>, acc @ be_bytes v)"
proof (induction v arbitrary: k rest rule: be_bytes.induct)
  case (1 v)
  show ?case
  proof (cases "0 < v")
    case False
    with "1.prems" show ?thesis by simp
  next
    case True
    let ?hi = "v div 256"
    have hi: "0 \<le> ?hi" "?hi < 2 ^ 23"
      using True "1.prems" by (auto simp: pos_imp_zdiv_nonneg_iff)
    have "readLengthLoop (length (be_bytes ?hi) + Suc k) 0
        (\<lparr>br_buf = be_bytes ?hi @ (of_int v # rest), br_segments = segs\<rparr>, acc) =
      readLengthLoop (Suc k) ?hi (\<lparr>br_buf = of_int v # rest, br_segments = segs\<rparr>, acc @ be_bytes ?hi)"
      by (rule "1.IH" [OF True]) (use hi in auto)
    then show ?thesis
      using True hi shift_or_byte [of v] by (simp add: be_bytes_pos readBytes_one)
  qed
qed

lemma sequence_ident: "ident_byte classUniversal isCompound tagSequence = 0x30"
  by code_simp

lemma sequence_ident_fields:
  "uint (drop_bit 6 (0x30 :: byte)) = 0" "(0x30 :: byte) AND 0x20 = 0x20" "uint ((0x30 :: byte) AND 0x1f) = 16"
  by code_simp+

lemma readTagAndLength_header:
  assumes "n < 2 ^ 31"
  shows "\<exists>t. Length t = int n \<and>
    readTagAndLength
      (\<lparr>br_buf = header_bytes classUniversal isCompound tagSequence n @ rest, br_segments = segs\<rparr>, []) =
    (Ok t, \<lparr>br_buf = rest, br_segments = segs\<rparr>, header_bytes classUniversal isCompound tagSequence n)"
proof (cases "128 \<le> n")
  case False
  then have "n < 128" by simp
  note sl = short_length_fields [OF this]
  show ?thesis using False sl
    by (simp add: readTagAndLength_def header_bytes_def sequence_ident length_bytes_def readBytes_one Let_def)
next
  case True
  let ?be = "be_bytes (int n)"
  let ?c = "0x80 OR of_nat (length ?be) :: byte"
  have be: "0 < length ?be" "length ?be \<le> 4"
    using True be_bytes_nonempty [of "int n"] length_be_bytes_le_4 [OF assms] by auto
  note lo = length_octet_fields [OF be]
  have "readLengthLoop (length ?be + 0) 0 (\<lparr>br_buf = ?be @ rest, br_segments = segs\<rparr>, [0x30, ?c]) =
    readLengthLoop 0 (int n) (\<lparr>br_buf = rest, br_segments = segs\<rparr>, [0x30, ?c] @ ?be)"
    by (rule readLengthLoop_be_bytes) (use assms in auto)
  then show ?thesis using True lo be
    by (simp add: readTagAndLength_def header_bytes_def sequence_ident length_bytes_def readBytes_one Let_def)
qed

lemma readLdapMessageBytes_tlv:
  assumes "length c < 2 ^ 31"
  shows "readLdapMessageBytes
      \<lparr>br_buf = tlv classUniversal isCompound tagSequence c @ rest, br_segments = segs\<rparr> =
    (Ok (tlv classUniversal isCompound tagSequence c), \<lparr>br_buf = rest, br_segments = segs\<rparr>)"
proof -
  let ?h = "header_bytes classUniversal isCompound tagSequence (length c)"
  obtain t where t: "Length t = int (length c)"
    "readTagAndLength (\<lparr>br_buf = ?h @ c @ rest, br_segments = segs\<rparr>, []) =
      (Ok t, \<lparr>br_buf = c @ rest, br_segments = segs\<rparr>, ?h)"
    using readTagAndLength_header [OF assms] by blast
  have "?h \<noteq> []" by (simp add: header_bytes_def)
  then obtain b where "readBytes (length c) (\<lparr>br_buf = c @ rest, br_segments = segs\<rparr>, ?h) =
     (Ok b, \<lparr>br_buf = rest, br_segments = segs\<rparr>, ?h @ c)"
    using readBytes_content by blast
  with t show ?thesis by (simp add: readLdapMessageBytes_def tlv_def)
qed

text \<open>The bytes of a message on the wire.\<close>

definition wire :: "LDAPMessage \<Rightarrow> byte list" where
  "wire m = tlv classUniversal isCompound tagSequence (enc_message m)"

definition sendable :: "LDAPMessage \<Rightarrow> bool" where
  "sendable m \<longleftrightarrow> wf_message m \<and> LDAPMessage_size m < 2 ^ 31"

lemma decodeMessage_not_Panic: "decodeMessage p \<noteq> Panic e" "decodeMessage p \<noteq> Diverge"
proof -
  have "fst (ReadLDAPMessage (NewBytes 0 p)) \<noteq> Diverge"
    using LDAPMessage.terminates_rd by (simp add: terminates_def)
  then show "decodeMessage p \<noteq> Panic e" "decodeMessage p \<noteq> Diverge"
    by (simp_all add: decodeMessage_def split: outcome.splits)
qed

lemma readMessage_decode: "readMessage p = decodeMessage p"
  using decodeMessage_not_Panic [of p] by (simp add: readMessage_def split: outcome.splits)

lemma readMessage_wire: "sendable m \<Longrightarrow> readMessage (wire m) = Ok m"
  using LDAPMessage.read_enc [of m]
  by (simp add: readMessage_decode decodeMessage_def sendable_def wire_def NewBytes_def)

lemma readLdapMessageBytes_wire:
  assumes "sendable m"
  shows "readLdapMessageBytes \<lparr>br_buf = wire m @ rest, br_segments = segs\<rparr> =
    (Ok (wire m), \<lparr>br_buf = rest, br_segments = segs\<rparr>)"
proof -
  have "length (enc_message m) < 2 ^ 31"
    using assms length_tlv_gr [of "enc_message m" classUniversal isCompound tagSequence]
    by (simp add: sendable_def LDAPMessage.size_enc)
  then show ?thesis unfolding wire_def by (rule readLdapMessageBytes_tlv)
qed

lemma ReadPackets_wire:
  "list_all sendable ms \<Longrightarrow>
   ReadPackets (length ms + k) \<lparr>br_buf = concat (map wire ms) @ rest, br_segments = segs\<rparr> =
   map (\<lambda>m. Ok (wire m)) ms @ ReadPackets k \<lparr>br_buf = rest, br_segments = segs\<rparr>"
  by (induction ms) (simp_all add: readLdapMessageBytes_wire)

section \<open>Serving\<close>

text \<open>The session as a sequence of requests.\<close>

fun process_all :: "(goerr \<Rightarrow> string) \<Rightarrow> ('w, 't) Handler \<Rightarrow> 't \<Rightarrow> 't \<Rightarrow> LDAPMessage list \<Rightarrow>
    (client \<times> 'w, 't) go" where
  "process_all errtext h zero state [] = ret state"
| "process_all errtext h zero state (m # ms) =
     (if msg_protocolOp m = OpUnbindRequest then ret state
      else go_bind (ProcessRequestMessage errtext h zero state m)
             (\<lambda>state'. process_all errtext h zero state' ms))"

lemma serve_wire:
  "list_all sendable ms \<Longrightarrow>
   serve errtext h zero state (map (\<lambda>m. Ok (wire m)) ms) cw = process_all errtext h zero state ms cw"
proof (induction ms arbitrary: state cw)
  case (Cons m ms)
  then have "serve errtext h zero s (map (\<lambda>m. Ok (wire m)) ms) = process_all errtext h zero s ms" for s
    by (intro ext) simp
  with Cons.prems show ?case by (simp add: readMessage_wire)
qed simp

lemma fold_Write:
  "fold (responseWriter_Write i) ps c =
   c\<lparr>cl_chanOut := cl_chanOut c @ map (\<lambda>p. LDAPMessage_SetMessageID i (NewLDAPMessageWithProtocolOp p)) ps\<rparr>"
  by (induction ps arbitrary: c) (simp_all add: responseWriter_Write_def)

text \<open>One response per request, after the entries of a search, all with the id of the request.\<close>

definition response :: "MessageID \<Rightarrow> ProtocolOp \<Rightarrow> LDAPMessage" where
  "response i p = \<lparr>msg_messageID = i, msg_protocolOp = p, msg_controls = None\<rparr>"

lemma response_eq: "LDAPMessage_SetMessageID i (NewLDAPMessageWithProtocolOp p) = response i p"
  by (simp add: LDAPMessage_SetMessageID_def NewLDAPMessageWithProtocolOp_def response_def)

lemma handle_run:
  assumes "\<And>v. msg_protocolOp m \<noteq> OpAbandonRequest v"
    and "runHandler h zero state (msg_protocolOp m) w = (Ok (written, state', code, err), w')"
  shows "handle errtext h zero state m (c, w) =
    (Ok state',
     c\<lparr>cl_chanOut := cl_chanOut c @ map (response (msg_messageID m)) written @
        [response (msg_messageID m) (final_response (msg_protocolOp m) (error_result errtext code err))]\<rparr>, w')"
proof -
  have "handleAbandon (msg_protocolOp m) = ret ()"
    using assms(1) by (cases "msg_protocolOp m") (auto simp: handleAbandon_def)
  with assms(2) show ?thesis
    by (simp add: handle_def on_world_def on_client_def fold_Write responseWriter_Write_def response_eq
        comp_def)
qed

lemma process_run:
  assumes "\<And>v. msg_protocolOp m \<noteq> OpAbandonRequest v"
    and "runHandler h zero state (msg_protocolOp m) w = (Ok (written, state', code, err), w')"
  shows "ProcessRequestMessage errtext h zero state m (c, w) =
    (Ok state',
     c\<lparr>cl_requestList := (cl_requestList c)(sint (msg_messageID m) := None),
       cl_chanOut := cl_chanOut c @ map (response (msg_messageID m)) written @
         [response (msg_messageID m) (final_response (msg_protocolOp m) (error_result errtext code err))]\<rparr>, w')"
  using handle_run [OF assms, of errtext "registerRequest (msg_messageID m) c"]
  by (simp add: ProcessRequestMessage_def registerRequest_def unregisterRequest_def)

text \<open>A session ends with the connection.\<close>

lemma serve_wire_end:
  "list_all sendable ms \<Longrightarrow> (\<And>p. rest \<noteq> [] \<Longrightarrow> hd rest \<noteq> Ok p) \<Longrightarrow>
   serve errtext h zero state (map (\<lambda>m. Ok (wire m)) ms @ rest) cw = process_all errtext h zero state ms cw"
proof (induction ms arbitrary: state cw)
  case Nil
  then show ?case by (cases rest) (auto split: outcome.splits)
next
  case (Cons m ms)
  then have "serve errtext h zero s (map (\<lambda>m. Ok (wire m)) ms @ rest) = process_all errtext h zero s ms" for s
    by (intro ext) simp
  with Cons.prems show ?case by (simp add: readMessage_wire)
qed

lemma ReadPackets_closed:
  "ReadPackets (Suc k) \<lparr>br_buf = [], br_segments = []\<rparr> = [Err (Wrapped ''read bytes'' ErrEOF)]"
  by (simp add: readLdapMessageBytes_def readTagAndLength_def readBytes_def bufio_Read_def)

text \<open>The requests the dispatch knows.\<close>

fun supported_request :: "ProtocolOp \<Rightarrow> bool" where
  "supported_request (OpBindRequest r) = True"
| "supported_request (OpSearchRequest r) = True"
| "supported_request (OpAddRequest r) = True"
| "supported_request (OpDelRequest r) = True"
| "supported_request (OpModifyRequest r) = True"
| "supported_request (OpCompareRequest r) = True"
| "supported_request (OpExtendedRequest r) = True"
| "supported_request _ = False"

lemma unsupported_run:
  "\<not> supported_request op \<Longrightarrow>
   runHandler h zero state op w = (Ok ([], zero, ResultCodeUnwillingToPerform, Some ErrUnsupported), w)"
  by (cases op) (simp_all add: runHandler_def dispatch_def go_map_def errorCode_def server_errors)

lemma error_result_wf:
  "code \<in> fst ` set EnumeratedLDAPResultCode \<Longrightarrow> wf_LDAPResult (error_result errtext code err)"
  by (cases err) (simp_all add: error_result_def NewResponse_def wf_LDAPResult_def
      LDAPResult_SetResultCode_def LDAPResult_SetDiagnosticMessage_def)

lemma final_response_wf:
  "supported_request op \<Longrightarrow> code \<in> fst ` set EnumeratedLDAPResultCode \<Longrightarrow>
   wf_op (final_response op (error_result errtext code err))"
  by (cases op) (simp_all add: final_response_def ExtendedResponse_SetResponseName_def error_result_wf)

end
