(* ===== verification/Bottin.thy ===== *)
theory Bottin
  imports Bottin_ACL Bottin_Mem Ldap_Server
begin

text \<open>
  The directory service, \<^verbatim>\<open>service/bottin\<close>: the operations of the LDAP handler over a store, with
  group membership, password hashes and the access checks.

  The service's own state is the store's; the session's is \<open>State\<close>, the bound user. What a request
  gets from outside (its context, a random UUID, the clock, a salted hash) is the record \<open>Env\<close>; each
  is asked for at most once per request. The password packages are parameters (\<open>Crypto\<close>). An error
  keeps the sentinels its format wraps and the constant text; the values printed into the text
  are left out. Logging is left out.
\<close>

section \<open>bottin.go\<close>

definition AttrMemberOf :: AttributeKey where "AttrMemberOf = ''memberof''"
definition AttrEntryUUID :: AttributeKey where "AttrEntryUUID = ''entryuuid''"
definition AttrCreatorsName :: AttributeKey where "AttrCreatorsName = ''creatorsname''"
definition AttrCreateTimestamp :: AttributeKey where "AttrCreateTimestamp = ''createtimestamp''"
definition AttrModifiersName :: AttributeKey where "AttrModifiersName = ''modifiersname''"
definition AttrModifyTimestamp :: AttributeKey where "AttrModifyTimestamp = ''modifytimestamp''"
definition AttrObjectClass :: AttributeKey where "AttrObjectClass = ''objectclass''"
definition AttrMember :: AttributeKey where "AttrMember = ''member''"
definition AttrUserPassword :: AttributeKey where "AttrUserPassword = ''userpassword''"

lemmas attr_names = AttrMemberOf_def AttrEntryUUID_def AttrCreatorsName_def AttrCreateTimestamp_def
  AttrModifiersName_def AttrModifyTimestamp_def AttrObjectClass_def AttrMember_def AttrUserPassword_def

definition ErrSetRootPasswd :: goerr where "ErrSetRootPasswd = PlainError ''root entry password cannot be set''"
definition ErrNotAuthenticated :: goerr where "ErrNotAuthenticated = PlainError ''not authenticated''"
definition ErrMissingNewPassword :: goerr where "ErrMissingNewPassword = PlainError ''new password is missing''"
definition ErrDNNotPrefix :: goerr where "ErrDNNotPrefix = PlainError ''DN is not a prefix of base DN''"

record Crypto =
  md5_Sum :: "byte list \<Rightarrow> byte list"
  base64_EncodeToString :: "byte list \<Rightarrow> string"
  ssha256_Validate :: "string \<Rightarrow> string \<Rightarrow> bool outcome"
  ssha512_Validate :: "string \<Rightarrow> string \<Rightarrow> bool outcome"

record Env =
  env_ctx :: Context
  env_uuid :: "string outcome"
  env_now :: string
  env_ssha512_Generate :: "string \<Rightarrow> nat \<Rightarrow> string outcome"

record ('st, 'tx) Server =
  srv_baseDN :: DN
  srv_rootPasswd :: string
  srv_acl :: ACL
  srv_store :: "('st, 'tx) Store"
  srv_crypto :: Crypto

record State =
  state_user :: "User option"

definition AnonymousUser :: string where "AnonymousUser = ''ANONYMOUS''"

definition State_User :: "State \<Rightarrow> User" where
  "State_User s = (case state_user s of
      Some u \<Rightarrow> u
    | None \<Rightarrow> \<lparr>usr_user = AnonymousUser, usr_groups = []\<rparr>)"

definition parseDN :: "('st, 'tx) Server \<Rightarrow> string \<Rightarrow> bool \<Rightarrow> DN outcome" where
  "parseDN server rawDN allowPrefix =
     outcome_bind (ParseDN rawDN) (\<lambda>dn.
       let baseDN = srv_baseDN server; basePrefix = DN_Prefix baseDN in
       if Prefix_IsPrefixOf basePrefix (DN_Prefix dn) then Ok dn
       else if allowPrefix \<and> Prefix_IsPrefixOf (DN_Prefix dn) basePrefix then Ok baseDN
       else Err (Wrapped ''could not parse DN'' ErrDNNotPrefix))"

section \<open>util.go\<close>

definition OperationalAttributes :: "AttributeKey list" where
  "OperationalAttributes =
     [AttrEntryUUID, AttrCreatorsName, AttrCreateTimestamp, AttrModifiersName, AttrModifyTimestamp, ''entrycsn'']"

definition ErrMememberOfDefinition :: goerr where
  "ErrMememberOfDefinition =
     PlainError ''memberOf cannot be defined directly, membership must be specified in the group itself''"

definition ErrRestrictedAttribute :: goerr where
  "ErrRestrictedAttribute = PlainError ''attribute is restricted and may only be set by the system''"

definition isOperationalAttribute :: "AttributeKey \<Rightarrow> bool" where
  "isOperationalAttribute attr \<longleftrightarrow> list_ex (AttributeKey_EqualFold attr) OperationalAttributes"

definition canUpdateAttribute :: "AttributeKey \<Rightarrow> goerr option" where
  "canUpdateAttribute attr =
     (if AttributeKey_EqualFold attr AttrMemberOf then Some ErrMememberOfDefinition
      else if isOperationalAttribute attr then Some (Wrapped ''cannot modify attribute'' ErrRestrictedAttribute)
      else None)"

definition valueMatch :: "AttributeKey \<Rightarrow> string \<Rightarrow> string \<Rightarrow> bool" where
  "valueMatch attr val1 val2 \<longleftrightarrow>
     (if AttributeKey_EqualFold attr AttrUserPassword then val1 = val2 else strings_EqualFold val1 val2)"

section \<open>hash.go\<close>

type_synonym HashType = string

definition MD5 :: HashType where "MD5 = ''{MD5}''"
definition SSHA256 :: HashType where "SSHA256 = ''{SSHA256}''"
definition SSHA512 :: HashType where "SSHA512 = ''{SSHA512}''"

definition ErrNoValidHash :: goerr where "ErrNoValidHash = PlainError ''no valid hash found''"

definition ssha512Encode :: "Env \<Rightarrow> string \<Rightarrow> string outcome" where
  "ssha512Encode env passwd =
     outcome_wrap ''error while hashing password with ssha512'' (env_ssha512_Generate env passwd 16)"

definition parseHash :: "string \<Rightarrow> (HashType \<times> string) outcome" where
  "parseHash hash =
     (if strings_HasPrefix hash MD5 then Ok (MD5, drop (length MD5) hash)
      else if strings_HasPrefix hash SSHA256 then Ok (SSHA256, drop (length SSHA256) hash)
      else if strings_HasPrefix hash SSHA512 then Ok (SSHA512, drop (length SSHA512) hash)
      else Err ErrNoValidHash)"

definition matchPassword :: "Crypto \<Rightarrow> string \<Rightarrow> string \<Rightarrow> bool outcome" where
  "matchPassword crypto schemaHash passwd =
     outcome_bind (outcome_wrap ''invalid password hash stored'' (parseHash schemaHash)) (\<lambda>(hashType, hash).
       if hashType = MD5 then
         Ok (base64_EncodeToString crypto (md5_Sum crypto (bytes_of passwd)) = hash)
       else if hashType = SSHA256 then ssha256_Validate crypto passwd (SSHA256 @ hash)
       else if hashType = SSHA512 then ssha512_Validate crypto passwd (SSHA512 @ hash)
       else Ok False)"

section \<open>read.go: lookups\<close>

definition ErrNotFound :: goerr where "ErrNotFound = PlainError ''not found''"
definition ErrHasChildren :: goerr where "ErrHasChildren = PlainError ''has children''"
definition ErrAlreadyExists :: goerr where "ErrAlreadyExists = PlainError ''already exists''"

text \<open>\<^verbatim>\<open>fmt.Errorf("(%w) ...: %w", code, err)\<close>\<close>

definition coded :: "goerr \<Rightarrow> string \<Rightarrow> ('s, 'a) go \<Rightarrow> ('s, 'a) go" where
  "coded code ctx m = go_join code (go_wrap ctx m)"

definition getEntry :: "('st, 'tx) Server \<Rightarrow> DN \<Rightarrow> ('st, Entry) go" where
  "getEntry server dn =
     go_bind (coded ErrOperationsError ''error while fetching entry from store''
               (s_List (srv_store server) (DN_Prefix dn) True)) (\<lambda>entries.
       case entries of
         [] \<Rightarrow> throw (Joined ErrNoSuchObject (Wrapped ''error while fetching entry'' ErrNotFound))
       | [e] \<Rightarrow> ret e
       | _ \<Rightarrow> throw (Joined ErrOperationsError (Wrapped ''error while fetching entry'' ErrNotFound)))"

definition existsEntry :: "('st, 'tx) Server \<Rightarrow> DN \<Rightarrow> ('st, bool) go" where
  "existsEntry server dn =
     go_bind (go_wrap ''error while checking if entry exists''
               (s_List (srv_store server) (DN_Prefix dn) True)) (\<lambda>entries.
       ret (length entries = 1))"

text \<open>
  A handler returns the session's state and an error: every error leaves the state as it was.
\<close>

definition returning :: "'t \<Rightarrow> ('st, 't) go \<Rightarrow> ('st, 't \<times> goerr option) go" where
  "returning state m = (\<lambda>st. case m st of
      (Ok state', st') \<Rightarrow> (Ok (state', None), st')
    | (Err e, st') \<Rightarrow> (Ok (state, Some e), st')
    | (Panic p, st') \<Rightarrow> (Panic p, st')
    | (Diverge, st') \<Rightarrow> (Diverge, st'))"

definition require :: "bool \<Rightarrow> goerr \<Rightarrow> ('s, unit) go" where
  "require b e = (if b then ret () else throw e)"

definition denied :: "string \<Rightarrow> goerr" where
  "denied ctx = Wrapped ctx ErrInsufficientAccessRights"

section \<open>auth.go: Bind\<close>

fun join_errors :: "goerr \<Rightarrow> goerr list \<Rightarrow> goerr" where
  "join_errors e [] = e"
| "join_errors e (e' # es) = Joined e (join_errors e' es)"

definition invalid_credentials :: "goerr list \<Rightarrow> goerr" where
  "invalid_credentials errs = (case errs of
      [] \<Rightarrow> Wrapped [] ErrInvalidCredentials
    | e # es \<Rightarrow> Joined ErrInvalidCredentials (join_errors e es))"

text \<open>The loop over the hashes: a hash that cannot be checked is remembered and skipped.\<close>

fun bind_loop :: "Crypto \<Rightarrow> string \<Rightarrow> string list \<Rightarrow> goerr list \<Rightarrow> unit outcome" where
  "bind_loop crypto passwd [] errs = Err (invalid_credentials errs)"
| "bind_loop crypto passwd (hash # hashes) errs = (case matchPassword crypto hash passwd of
      Ok valid \<Rightarrow> if valid then Ok () else bind_loop crypto passwd hashes errs
    | Err e \<Rightarrow> bind_loop crypto passwd hashes (errs @ [Wrapped ''couldn't authenticate'' e])
    | Panic p \<Rightarrow> Panic p
    | Diverge \<Rightarrow> Diverge)"

definition Bottin_Bind :: "('st, 'tx) Server \<Rightarrow> State \<Rightarrow> BindRequest \<Rightarrow> ('st, State \<times> goerr option) go" where
  "Bottin_Bind server state r = returning state
     (go_bind (go_join ErrInvalidDNSyntax (lift (parseDN server (bind_name r) False))) (\<lambda>dn.
      go_bind (require (ACL_Check (srv_acl server) (State_User state) ''bind'' dn [])
                 (denied ''could not authentiate'')) (\<lambda>_.
      go_bind (getEntry server dn) (\<lambda>entry.
      go_bind (lift (BindRequest_AuthenticationSimple r)) (\<lambda>passwd.
      let hashes = (if DN_Equal dn (srv_baseDN server) then [srv_rootPasswd server]
                    else Entry_Get entry AttrUserPassword) in
      go_bind (lift (bind_loop (srv_crypto server) passwd hashes [])) (\<lambda>_.
      ret (state\<lparr>state_user :=
        Some \<lparr>usr_user = bind_name r, usr_groups = Entry_Get entry AttrMemberOf\<rparr>\<rparr>)))))))"

section \<open>read.go: Compare and Search\<close>

definition Bottin_Compare :: "('st, 'tx) Server \<Rightarrow> State \<Rightarrow> CompareRequest \<Rightarrow> ('st, bool \<times> State \<times> goerr option) go" where
  "Bottin_Compare server state r =
     (let attr = NewAttributeKey (ava_attributeDesc (cmp_ava r));
          expected = ava_assertionValue (cmp_ava r) in
      go_map (\<lambda>(matched, err). (if err = None then matched else False, state, err))
        (returning False
          (go_bind (go_join ErrInvalidDNSyntax (lift (parseDN server (cmp_entry r) False))) (\<lambda>dn.
           go_bind (require (ACL_Check (srv_acl server) (State_User state) ''read'' dn [attr])
                      (denied ''could not read'')) (\<lambda>_.
           go_bind (getEntry server dn) (\<lambda>entry.
           ret (list_ex (\<lambda>v. valueMatch attr v expected) (Entry_Get entry attr))))))))"

definition ErrUnsupportedFilter :: goerr where
  "ErrUnsupportedFilter = PlainError ''unsupported filter''"

definition applyPresent :: "Attributes \<Rightarrow> string \<Rightarrow> bool" where
  "applyPresent attrs what = (case List.find (\<lambda>(desc, values). strings_EqualFold what desc) attrs of
      Some (desc, values) \<Rightarrow> 0 < length values
    | None \<Rightarrow> False)"

definition applyEquality :: "Attributes \<Rightarrow> string \<Rightarrow> string \<Rightarrow> bool" where
  "applyEquality attrs desc target = (case List.find (\<lambda>(entryDesc, value). strings_EqualFold entryDesc desc) attrs of
      Some (entryDesc, value) \<Rightarrow> list_ex (\<lambda>val. valueMatch entryDesc val target) value
    | None \<Rightarrow> False)"

fun applyFilter :: "Entry \<Rightarrow> Filter \<Rightarrow> bool outcome"
  and applyAnd :: "Entry \<Rightarrow> Filter list \<Rightarrow> bool outcome"
  and applyOr :: "Entry \<Rightarrow> Filter list \<Rightarrow> bool outcome" where
  "applyFilter entry (FilterAnd fs) = applyAnd entry fs"
| "applyFilter entry (FilterOr fs) = applyOr entry fs"
| "applyFilter entry (FilterNot f) = outcome_bind (applyFilter entry f) (\<lambda>res. Ok (\<not> res))"
| "applyFilter entry (FilterPresent what) = Ok (applyPresent (entry_Attributes entry) what)"
| "applyFilter entry (FilterEqualityMatch ava) =
     Ok (applyEquality (entry_Attributes entry) (ava_attributeDesc ava) (ava_assertionValue ava))"
| "applyFilter entry (FilterSubstrings f) = Err (Wrapped ''error while applying filter'' ErrUnsupportedFilter)"
| "applyFilter entry (FilterGreaterOrEqual f) = Err (Wrapped ''error while applying filter'' ErrUnsupportedFilter)"
| "applyFilter entry (FilterLessOrEqual f) = Err (Wrapped ''error while applying filter'' ErrUnsupportedFilter)"
| "applyFilter entry (FilterApproxMatch f) = Err (Wrapped ''error while applying filter'' ErrUnsupportedFilter)"
| "applyFilter entry (FilterExtensibleMatch f) = Err (Wrapped ''error while applying filter'' ErrUnsupportedFilter)"
| "applyAnd entry [] = Ok True"
| "applyAnd entry (cond # conds) =
     outcome_bind (applyFilter entry cond) (\<lambda>res. if \<not> res then Ok False else applyAnd entry conds)"
| "applyOr entry [] = Ok False"
| "applyOr entry (cond # conds) =
     outcome_bind (applyFilter entry cond) (\<lambda>res. if res then Ok True else applyOr entry conds)"

definition SearchRequestScopeBaseObject :: ENUMERATED where "SearchRequestScopeBaseObject = 0"
definition SearchRequestSingleLevel :: ENUMERATED where "SearchRequestSingleLevel = 1"
definition SearchRequestHomeSubtree :: ENUMERATED where "SearchRequestHomeSubtree = 2"

text \<open>Whether an attribute was asked for: the loop over the request's selection.\<close>

fun selected_loop :: "nat \<Rightarrow> AttributeKey \<Rightarrow> string list \<Rightarrow> bool" where
  "selected_loop n attr [] \<longleftrightarrow> False"
| "selected_loop n attr (requested # rest) \<longleftrightarrow>
     (if requested = ''1.1'' \<and> n = 1 then False
      else if (requested = ''*'' \<and> \<not> isOperationalAttribute attr) \<or>
              (requested = ''+'' \<and> isOperationalAttribute attr) \<or>
              strings_EqualFold requested attr then True
      else selected_loop n attr rest)"

definition selected :: "string list \<Rightarrow> AttributeKey \<Rightarrow> bool" where
  "selected sel attr \<longleftrightarrow> (if 0 < length sel then selected_loop (length sel) attr sel else True)"

text \<open>The attributes of a result: those asked for that the user may read.\<close>

fun result_attributes :: "('st, 'tx) Server \<Rightarrow> User \<Rightarrow> SearchRequest \<Rightarrow> DN \<Rightarrow> Attributes \<Rightarrow> SearchResultEntry \<Rightarrow> SearchResultEntry" where
  "result_attributes server user r dn [] e = e"
| "result_attributes server user r dn ((attr, val) # attrs) e =
     (if \<not> selected (sr_attributes r) attr then result_attributes server user r dn attrs e
      else if \<not> ACL_Check (srv_acl server) user ''read'' dn [attr] then result_attributes server user r dn attrs e
      else result_attributes server user r dn attrs (SearchResultEntry_AddAttribute attr val e))"

fun search_loop :: "('st, 'tx) Server \<Rightarrow> User \<Rightarrow> SearchRequest \<Rightarrow> DN \<Rightarrow> Entry list \<Rightarrow> SearchResultEntry list outcome" where
  "search_loop server user r baseObject [] = Ok []"
| "search_loop server user r baseObject (entry # entries) =
     (if sr_scope r = SearchRequestScopeBaseObject \<and> DN_Equal (entry_DN entry) baseObject
      then search_loop server user r baseObject entries
      else if sr_scope r \<noteq> SearchRequestScopeBaseObject \<and> sr_scope r = SearchRequestSingleLevel \<and>
              DN_Level (entry_DN entry) \<noteq> DN_Level baseObject + 1
      then search_loop server user r baseObject entries
      else case applyFilter entry (sr_filter r) of
          Err e \<Rightarrow> Err (Joined ErrUnwillingToPerform (Wrapped ''error while applying filter'' e))
        | Panic p \<Rightarrow> Panic p
        | Diverge \<Rightarrow> Diverge
        | Ok matched \<Rightarrow>
            if \<not> matched then search_loop server user r baseObject entries
            else if \<not> ACL_Check (srv_acl server) user ''read'' (entry_DN entry) []
            then search_loop server user r baseObject entries
            else outcome_bind (search_loop server user r baseObject entries) (\<lambda>results.
              Ok (result_attributes server user r (entry_DN entry) (entry_Attributes entry)
                    (NewSearchResultEntry (DN_String (entry_DN entry))) # results)))"

definition Bottin_Search :: "('st, 'tx) Server \<Rightarrow> State \<Rightarrow> SearchRequest \<Rightarrow>
    ('st, SearchResultEntry list \<times> State \<times> goerr option) go" where
  "Bottin_Search server state r =
     go_map (\<lambda>(results, err). (results, state, err)) (returning []
       (go_bind (go_join ErrInvalidDNSyntax (lift (parseDN server (sr_baseObject r) True))) (\<lambda>baseObject.
        go_bind (require (ACL_Check (srv_acl server) (State_User state) ''read'' baseObject [])
                   (denied ''could not read'')) (\<lambda>_.
        let exact = (sr_scope r = SearchRequestScopeBaseObject) in
        go_bind (coded ErrOperationsError ''error while listing objects''
                   (s_List (srv_store server) (DN_Prefix baseObject) exact)) (\<lambda>entries.
        lift (search_loop server (State_User state) r baseObject entries))))))"

end
