(* ===== verification/Bottin_Write.thy ===== *)
theory Bottin_Write
  imports Bottin
begin

text \<open>
  The operations of the directory service that change the store (\<^verbatim>\<open>write.go\<close>, \<^verbatim>\<open>memberof.go\<close>, the
  password change of \<^verbatim>\<open>auth.go\<close> and the start-up of \<^verbatim>\<open>bottin.go\<close>), and the service as a handler of
  the LDAP server.
\<close>

section \<open>Transactions\<close>

definition on_store :: "('st, 'a) go \<Rightarrow> ('st \<times> 'tx, 'a) go" where
  "on_store m = (\<lambda>(st, tx). case m st of (r, st') \<Rightarrow> (r, st', tx))"

definition assign_attribute :: "('st, 'tx) Server \<Rightarrow> DN \<Rightarrow> AttributeKey \<Rightarrow> string list \<Rightarrow> ('st \<times> 'tx, unit) go" where
  "assign_attribute server dn attr value =
     (\<lambda>(st, tx). (Ok (), s_assign (srv_store server) (DN_Prefix dn) attr value st, tx))"

text \<open>Begin a transaction, run the body in it, and drop it.\<close>

definition in_tx :: "('st, 'tx) Server \<Rightarrow> Env \<Rightarrow> ('st \<times> 'tx, 'a) go \<Rightarrow> ('st, 'a) go" where
  "in_tx server env body =
     go_bind (coded ErrOperationsError ''error while beginning transaction''
               (s_Begin (srv_store server) (env_ctx env))) (\<lambda>tx st.
       case body (st, tx) of (r, st', tx') \<Rightarrow> (r, st'))"

section \<open>memberof.go\<close>

definition membershipAdd :: "('st, 'tx) Server \<Rightarrow> AttributeKey \<Rightarrow> DN \<Rightarrow> DN \<Rightarrow> ('st \<times> 'tx, unit) go" where
  "membershipAdd server attr member grp =
     go_bind (go_wrap ''error while fetching membership value (adding)'' (on_store (getEntry server member))) (\<lambda>entity.
     let membership = Entry_Get entity attr in
     if DN_String grp \<in> set membership then ret ()
     else
       let membership' = membership @ [DN_String grp];
           attributes = attr_set attr membership' (entry_Attributes entity) in
       go_bind (assign_attribute server member attr membership') (\<lambda>_.
       go_wrap ''error while updating membership value (adding)''
         (tx_Store (srv_store server) (NewEntry (entry_DN entity) attributes))))"

text \<open>The memberships that remain, in canonical form.\<close>

fun remaining :: "('st, 'tx) Server \<Rightarrow> DN \<Rightarrow> string list \<Rightarrow> string list outcome" where
  "remaining server grp [] = Ok []"
| "remaining server grp (g # gs) =
     outcome_bind (outcome_wrap ''error while parsing membership value (removing)'' (parseDN server g False)) (\<lambda>gdn.
     outcome_bind (remaining server grp gs) (\<lambda>rest.
     Ok (if \<not> DN_Equal gdn grp then DN_String gdn # rest else rest)))"

definition membershipRemove :: "('st, 'tx) Server \<Rightarrow> AttributeKey \<Rightarrow> DN \<Rightarrow> DN \<Rightarrow> ('st \<times> 'tx, unit) go" where
  "membershipRemove server attr member grp =
     go_bind (go_wrap ''error while fetching membership value (removing)'' (on_store (getEntry server member))) (\<lambda>entity.
     let membership = Entry_Get entity attr in
     go_bind (lift (remaining server grp membership)) (\<lambda>newMembership.
     if length newMembership = length member then ret ()
     else
       let attributes = attr_set attr newMembership (entry_Attributes entity) in
       go_bind (assign_attribute server member attr newMembership) (\<lambda>_.
       go_wrap ''error while updating membership value (removing)''
         (tx_Store (srv_store server) (NewEntry (entry_DN entity) attributes)))))"

section \<open>write.go: Add\<close>

text \<open>The members a value list names: each must parse and exist.\<close>

definition add_member :: "('st, 'tx) Server \<Rightarrow> string \<Rightarrow> DN list \<Rightarrow> ('st, DN list) go" where
  "add_member server member members =
     go_bind (go_join ErrInvalidDNSyntax (lift (parseDN server member False))) (\<lambda>memberCanonical.
     go_bind (go_join ErrOperationsError (existsEntry server memberCanonical)) (\<lambda>exists.
     go_bind (require exists (Wrapped ''cannot add to members, it does not exist'' ErrNoSuchObject)) (\<lambda>_.
     ret (members @ [memberCanonical]))))"

definition add_attribute :: "('st, 'tx) Server \<Rightarrow> PartialAttribute \<Rightarrow> Attributes \<times> DN list \<Rightarrow>
    ('st, Attributes \<times> DN list) go" where
  "add_attribute server attribute = (\<lambda>(attrs, members).
     let key = NewAttributeKey (pa_type attribute); vals = pa_vals attribute in
     case canUpdateAttribute key of
       Some err \<Rightarrow> throw (Joined ErrObjectClassViolation err)
     | None \<Rightarrow>
         if AttributeKey_EqualFold key AttrMember then
           go_bind (go_fold (add_member server) vals members) (\<lambda>members'.
           ret (attr_set key (map DN_String members') attrs, members'))
         else ret (attr_set key (Attributes_Get attrs key @ vals) attrs, members))"

definition add_system_attributes :: "State \<Rightarrow> Env \<Rightarrow> string \<Rightarrow> Attributes \<Rightarrow> Attributes" where
  "add_system_attributes state env uuid attrs =
     attr_set AttrEntryUUID [uuid]
       (attr_set AttrCreateTimestamp [env_now env]
         (attr_set AttrCreatorsName [usr_user (State_User state)] attrs))"

definition default_objectclass :: "Attributes \<Rightarrow> Attributes" where
  "default_objectclass attrs =
     (if length (Attributes_Get attrs AttrObjectClass) = 0 then attr_set AttrObjectClass [''top''] attrs else attrs)"

definition Bottin_Add :: "('st, 'tx) Server \<Rightarrow> Env \<Rightarrow> State \<Rightarrow> AddRequest \<Rightarrow> ('st, State \<times> goerr option) go" where
  "Bottin_Add server env state r = returning state
     (go_bind (go_join ErrInvalidDNSyntax (lift (parseDN server (add_entry r) False))) (\<lambda>dn.
      let attrList = map (\<lambda>a. NewAttributeKey (pa_type a)) (add_attributes r) in
      go_bind (require (ACL_Check (srv_acl server) (State_User state) ''add'' dn attrList) (denied ''could not add'')) (\<lambda>_.
      go_bind (go_join ErrOperationsError (existsEntry server dn)) (\<lambda>exists.
      go_bind (require (\<not> exists) (Joined ErrEntryAlreadyExists ErrAlreadyExists)) (\<lambda>_.
      go_bind (lift (DN_Parent dn)) (\<lambda>parentDN.
      go_bind (go_join ErrOperationsError (existsEntry server parentDN)) (\<lambda>parentExists.
      go_bind (require parentExists (Wrapped ''parent object does not exist'' ErrNoSuchObject)) (\<lambda>_.
      go_bind (go_fold (add_attribute server) (add_attributes r) ([], [])) (\<lambda>(attrs, members).
      let attrs = default_objectclass attrs in
      go_bind (coded ErrOperationsError ''error while generating random uuid'' (lift (env_uuid env))) (\<lambda>uuid.
      let attrs = add_system_attributes state env uuid attrs; entry = NewEntry dn attrs in
      in_tx server env
        (go_bind (coded ErrOperationsError ''error while storing entry'' (tx_Store (srv_store server) entry)) (\<lambda>_.
         go_bind (go_each (\<lambda>member. coded ErrOperationsError ''error while adding to group''
                    (membershipAdd server AttrMemberOf member dn)) members) (\<lambda>_.
         go_bind (coded ErrOperationsError ''could not commit transaction''
                    (tx_Commit (srv_store server) (env_ctx env))) (\<lambda>_.
         ret state))))))))))))))"

section \<open>write.go: Del\<close>

definition remove_from_group :: "('st, 'tx) Server \<Rightarrow> DN \<Rightarrow> string \<Rightarrow> ('st \<times> 'tx, unit) go" where
  "remove_from_group server dn grp =
     go_bind (coded ErrInvalidDNSyntax ''error while parsing DN from group members attribute''
                (lift (parseDN server grp False))) (\<lambda>gdn.
     coded ErrOperationsError ''could not update attribute after removal''
       (membershipRemove server AttrMember gdn dn))"

definition remove_from_member :: "('st, 'tx) Server \<Rightarrow> DN \<Rightarrow> string \<Rightarrow> ('st \<times> 'tx, unit) go" where
  "remove_from_member server dn member =
     go_bind (coded ErrInvalidDNSyntax ''error while parsing DN from memberOf attribute''
                (lift (parseDN server member False))) (\<lambda>mdn.
     coded ErrOperationsError ''error while removing memberOf''
       (membershipRemove server AttrMemberOf mdn dn))"

definition Bottin_Del :: "('st, 'tx) Server \<Rightarrow> Env \<Rightarrow> State \<Rightarrow> DelRequest \<Rightarrow> ('st, State \<times> goerr option) go" where
  "Bottin_Del server env state r = returning state
     (go_bind (go_join ErrInvalidDNSyntax (lift (parseDN server r False))) (\<lambda>dn.
      go_bind (require (ACL_Check (srv_acl server) (State_User state) ''delete'' dn []) (denied ''could not delete'')) (\<lambda>_.
      go_bind (coded ErrOperationsError ''error while fetching entry from store''
                 (s_List (srv_store server) (DN_Prefix dn) False)) (\<lambda>entries.
      go_bind (require (length entries \<noteq> 0) (Joined ErrNoSuchObject (Wrapped ''error fetching entry'' ErrNotFound))) (\<lambda>_.
      go_bind (require (list_all (\<lambda>entry. DN_Equal (entry_DN entry) dn) entries)
                 (Joined ErrNotAllowedOnNonLeaf (Wrapped ''cannot delete'' ErrHasChildren))) (\<lambda>_.
      let entry = hd entries;
          memberOf = Entry_Get entry AttrMemberOf;
          memberList = Entry_Get entry AttrMember in
      in_tx server env
        (go_bind (coded ErrOperationsError ''error while deleting entry'' (tx_Delete (srv_store server) dn)) (\<lambda>_.
         go_bind (go_each (remove_from_group server dn) memberOf) (\<lambda>_.
         go_bind (go_each (remove_from_member server dn) memberList) (\<lambda>_.
         go_bind (coded ErrOperationsError ''could not commit transaction''
                    (tx_Commit (srv_store server) (env_ctx env))) (\<lambda>_.
         ret state)))))))))))"

section \<open>write.go: Modify\<close>

definition ModifyRequestChangeOperationAdd :: ENUMERATED where "ModifyRequestChangeOperationAdd = 0"
definition ModifyRequestChangeOperationDelete :: ENUMERATED where "ModifyRequestChangeOperationDelete = 1"
definition ModifyRequestChangeOperationReplace :: ENUMERATED where "ModifyRequestChangeOperationReplace = 2"

record ModifyAcc =
  ma_attrs :: Attributes
  ma_addMembers :: "DN list"
  ma_delMembers :: "DN list"

text \<open>The DNs of some values, when the attribute is the member list.\<close>

fun member_DNs :: "('st, 'tx) Server \<Rightarrow> AttributeKey \<Rightarrow> string list \<Rightarrow> DN list outcome" where
  "member_DNs server attr [] = Ok []"
| "member_DNs server attr (val # vals) =
     (if \<not> AttributeKey_EqualFold attr AttrMember then Ok []
      else outcome_bind (parseDN server val False) (\<lambda>dn.
           outcome_bind (member_DNs server attr vals) (\<lambda>dns. Ok (dn # dns))))"

fun canonical_values :: "('st, 'tx) Server \<Rightarrow> string list \<Rightarrow> string list outcome" where
  "canonical_values server [] = Ok []"
| "canonical_values server (val # vals) =
     outcome_bind (parseDN server val False) (\<lambda>dn.
     outcome_bind (canonical_values server vals) (\<lambda>rest. Ok (DN_String dn # rest)))"

text \<open>The values an addition appends: those not there yet, each once.\<close>

fun added_values :: "string list \<Rightarrow> string list \<Rightarrow> string list" where
  "added_values old [] = []"
| "added_values old (val # vals) =
     (if val \<in> set old then added_values old vals else val # added_values (old @ [val]) vals)"

definition modify_attribute :: "Attributes \<Rightarrow> AttributeKey \<Rightarrow> AttributeKey" where
  "modify_attribute prev attr = (case List.find (\<lambda>(prevAttr, _). AttributeKey_EqualFold attr prevAttr) prev of
      Some (prevAttr, _) \<Rightarrow> prevAttr | None \<Rightarrow> attr)"

text \<open>The effect of one change on the new attributes and the member lists.\<close>

definition apply_operation :: "('st, 'tx) Server \<Rightarrow> ENUMERATED \<Rightarrow> AttributeKey \<Rightarrow> string list \<Rightarrow> ModifyAcc \<Rightarrow>
    ModifyAcc outcome" where
  "apply_operation server operation attr changeValues acc =
     (let old = Attributes_Get (ma_attrs acc) attr in
      if operation = ModifyRequestChangeOperationAdd then
        (let new = added_values old changeValues in
         outcome_bind (member_DNs server attr new) (\<lambda>dns.
         Ok (acc\<lparr>ma_attrs := (if new = [] then ma_attrs acc else attr_set attr (old @ new) (ma_attrs acc)),
                 ma_addMembers := ma_addMembers acc @ dns\<rparr>)))
      else if operation = ModifyRequestChangeOperationDelete then
        (if changeValues = [] then
           outcome_bind (member_DNs server attr old) (\<lambda>dns.
           Ok (acc\<lparr>ma_attrs := attr_set attr [] (ma_attrs acc), ma_delMembers := ma_delMembers acc @ dns\<rparr>))
         else
           outcome_bind (member_DNs server attr (filter (\<lambda>v. v \<in> set changeValues) old)) (\<lambda>dns.
           Ok (acc\<lparr>ma_attrs := attr_set attr (filter (\<lambda>v. v \<notin> set changeValues) old) (ma_attrs acc),
                   ma_delMembers := ma_delMembers acc @ dns\<rparr>)))
      else if operation = ModifyRequestChangeOperationReplace then
        outcome_bind (member_DNs server attr (filter (\<lambda>v. v \<notin> set old) changeValues)) (\<lambda>added.
        outcome_bind (member_DNs server attr (filter (\<lambda>v. v \<notin> set changeValues) old)) (\<lambda>deleted.
        Ok (acc\<lparr>ma_attrs := attr_set attr changeValues (ma_attrs acc),
                ma_addMembers := ma_addMembers acc @ added,
                ma_delMembers := ma_delMembers acc @ deleted\<rparr>)))
      else Ok acc)"

definition modify_change :: "('st, 'tx) Server \<Rightarrow> State \<Rightarrow> DN \<Rightarrow> Entry \<Rightarrow> ModifyRequestChange \<Rightarrow> ModifyAcc \<Rightarrow>
    ModifyAcc outcome" where
  "modify_change server state dn prevEntry change acc =
     (let attr = modify_attribute (entry_Attributes prevEntry) (NewAttributeKey (pa_type (mc_modification change)));
          changeValues = pa_vals (mc_modification change) in
      case canUpdateAttribute attr of
        Some err \<Rightarrow> Err (Joined ErrObjectClassViolation err)
      | None \<Rightarrow>
          if AttributeKey_EqualFold attr (NewAttributeKey (comp_Type (hd (entry_DN prevEntry)))) then
            Err (Wrapped ''may not be changed as it is part of object path'' ErrObjectClassViolation)
          else if \<not> ACL_Check (srv_acl server) (State_User state) ''modify'' dn [attr] then
            Err (denied ''cannot not modify attribute'')
          else
            outcome_bind (if AttributeKey_EqualFold attr AttrMember
                          then (case canonical_values server changeValues of
                                  Err e \<Rightarrow> Err (Joined ErrInvalidDNSyntax e) | res \<Rightarrow> res)
                          else Ok changeValues) (\<lambda>changeValues.
            let acc = (if map_of (ma_attrs acc) attr = None \<and> map_of (entry_Attributes prevEntry) attr \<noteq> None
                       then acc\<lparr>ma_attrs := attr_set attr (Attributes_Get (entry_Attributes prevEntry) attr) (ma_attrs acc)\<rparr>
                       else acc) in
            case apply_operation server (mc_operation change) attr changeValues acc of
              Err e \<Rightarrow> Err (Joined ErrInvalidDNSyntax e) | res \<Rightarrow> res))"

definition check_member :: "('st, 'tx) Server \<Rightarrow> DN \<Rightarrow> ('st, unit) go" where
  "check_member server dn =
     go_bind (go_join ErrOperationsError (existsEntry server dn)) (\<lambda>exists.
     require exists (Wrapped ''cannot add member, it does not exist'' ErrNoSuchObject))"

definition Bottin_Modify :: "('st, 'tx) Server \<Rightarrow> Env \<Rightarrow> State \<Rightarrow> ModifyRequest \<Rightarrow> ('st, State \<times> goerr option) go" where
  "Bottin_Modify server env state r = returning state
     (go_bind (go_join ErrInvalidDNSyntax (lift (parseDN server (mod_object r) False))) (\<lambda>dn.
      go_bind (require (ACL_Check (srv_acl server) (State_User state) ''modify'' dn []) (denied ''cannot not modify'')) (\<lambda>_.
      go_bind (getEntry server dn) (\<lambda>prevEntry.
      go_bind (if entry_DN prevEntry = [] then panic ''index out of range'' else ret ()) (\<lambda>_.
      go_bind (go_fold (\<lambda>change acc. lift (modify_change server state dn prevEntry change acc)) (mod_changes r)
                 \<lparr>ma_attrs = [], ma_addMembers = [], ma_delMembers = []\<rparr>) (\<lambda>acc.
      go_bind (go_each (check_member server) (ma_addMembers acc)) (\<lambda>_.
      go_bind (require (\<not> list_ex (\<lambda>(k, v). AttributeKey_EqualFold k AttrObjectClass \<and> length v = 0) (ma_attrs acc))
                 (Wrapped ''cannot remove all objectclass values'' ErrInsufficientAccessRights)) (\<lambda>_.
      let attrs = attr_set AttrModifyTimestamp [env_now env]
                    (attr_set AttrModifiersName [usr_user (State_User state)] (ma_attrs acc));
          entry = NewEntry (entry_DN prevEntry) attrs in
      in_tx server env
        (go_bind (coded ErrOperationsError ''error while storing updated entry'' (tx_Store (srv_store server) entry)) (\<lambda>_.
         go_bind (go_each (\<lambda>addMem. coded ErrOperationsError ''error while adding memberOf''
                    (membershipAdd server AttrMemberOf addMem dn)) (ma_addMembers acc)) (\<lambda>_.
         go_bind (go_each (\<lambda>delMem. coded ErrOperationsError ''error while removing memberOf''
                    (membershipRemove server AttrMemberOf delMem dn)) (ma_delMembers acc)) (\<lambda>_.
         go_bind (coded ErrOperationsError ''could not commit transaction''
                    (tx_Commit (srv_store server) (env_ctx env))) (\<lambda>_.
         ret state)))))))))))))"

section \<open>auth.go: Extended\<close>

definition ErrUnsupportedExtendedRequest :: goerr where
  "ErrUnsupportedExtendedRequest = PlainError ''unsupported extended request, we only support PasswordModify''"

definition Bottin_Extended :: "('st, 'tx) Server \<Rightarrow> Env \<Rightarrow> State \<Rightarrow> ExtendedRequest \<Rightarrow> ('st, State \<times> goerr option) go" where
  "Bottin_Extended server env state r = returning state
     (go_bind (require (ext_requestName r = NoticeOfPasswordModify)
                 (Joined ErrUnwillingToPerform ErrUnsupportedExtendedRequest)) (\<lambda>_.
      go_bind (coded ErrInvalidAttributeSyntax ''error while parsing PasswordModify''
                 (lift (ExtendedRequest_PasswordModifyRequest r))) (\<lambda>pmr.
      case pmr_newPassword pmr of
        None \<Rightarrow> throw (Joined ErrAuthMethodNotSupported ErrMissingNewPassword)
      | Some passwd \<Rightarrow>
          go_bind (require (usr_user (State_User state) \<noteq> AnonymousUser)
                     (Joined ErrInsufficientAccessRights ErrNotAuthenticated)) (\<lambda>_.
          let rawDN = (case pmr_userIdentity pmr of None \<Rightarrow> usr_user (State_User state) | Some u \<Rightarrow> u) in
          go_bind (go_join ErrInvalidDNSyntax (lift (parseDN server rawDN False))) (\<lambda>dn.
          go_bind (require (ACL_Check (srv_acl server) (State_User state) ''modify'' dn [AttrUserPassword])
                     (denied ''could not modify password'')) (\<lambda>_.
          go_bind (require (\<not> DN_Equal dn (srv_baseDN server)) (Joined ErrInvalidDNSyntax ErrSetRootPasswd)) (\<lambda>_.
          go_bind (getEntry server dn) (\<lambda>entry.
          go_bind (coded ErrOperationsError ''error while hashing passwd'' (lift (ssha512Encode env passwd))) (\<lambda>hash.
          let attrs = attr_set AttrUserPassword [hash] (entry_Attributes entry) in
          in_tx server env
            (go_bind (coded ErrOperationsError ''error while updating password''
                        (tx_Store (srv_store server) (NewEntry dn attrs))) (\<lambda>_.
             go_bind (coded ErrOperationsError ''could not commit transaction''
                        (tx_Commit (srv_store server) (env_ctx env))) (\<lambda>_.
             ret state))))))))))))"

section \<open>bottin.go: start-up\<close>

definition base_attributes :: "('st, 'tx) Server \<Rightarrow> Env \<Rightarrow> string \<Rightarrow> Attributes" where
  "base_attributes server env uuid =
     [(AttrObjectClass, [''top'', ''dcObject'', ''organization'']),
      (''structuralobjectclass'', [''organization'']),
      (AttrCreatorsName, [DN_String (srv_baseDN server)]),
      (AttrCreateTimestamp, [env_now env]),
      (AttrEntryUUID, [uuid])]"

text \<open>\<^verbatim>\<open>initialize\<close>, whose error \<^verbatim>\<open>Run\<close> returns; its transaction errors carry no code.\<close>

definition initialize :: "('st, 'tx) Server \<Rightarrow> Env \<Rightarrow> ('st, unit) go" where
  "initialize server env =
     go_bind (go_wrap ''error while checking for root object existence'' (existsEntry server (srv_baseDN server))) (\<lambda>exists.
     if exists then ret ()
     else
       go_bind (go_wrap ''error while generating random uuid'' (lift (env_uuid env))) (\<lambda>uuid.
       go_bind (go_wrap ''error while beginning store transaction'' (s_Begin (srv_store server) (env_ctx env))) (\<lambda>tx st.
       case go_bind (go_wrap ''error while storing base entry''
                       (tx_Store (srv_store server) (NewEntry (srv_baseDN server) (base_attributes server env uuid)))) (\<lambda>_.
            go_wrap ''could not commit store transaction'' (tx_Commit (srv_store server) (env_ctx env))) (st, tx) of
         (r, st', tx') \<Rightarrow> (r, st'))))"

definition Bottin_Run :: "('st, 'tx) Server \<Rightarrow> Env \<Rightarrow> ('st, unit) go" where
  "Bottin_Run server env = go_wrap ''error while initializing'' (initialize server env)"

record BottinConfig =
  cfg_BaseDN :: string
  cfg_Passwd :: string
  cfg_ACL :: "string list"

text \<open>\<^verbatim>\<open>NewBottin\<close>: \<open>random\<close> is the root password it makes up when none is configured.\<close>

definition NewBottin :: "BottinConfig \<Rightarrow> Env \<Rightarrow> Crypto \<Rightarrow> string outcome \<Rightarrow> ('st, 'tx) Store outcome \<Rightarrow>
    ('st, 'tx) Server outcome" where
  "NewBottin config env crypto random newstore =
     outcome_bind (outcome_wrap ''error while parsing ACL'' (parseACL (cfg_ACL config))) (\<lambda>acl.
     outcome_bind (outcome_wrap ''error while parsing baseDN'' (ParseDN (cfg_BaseDN config))) (\<lambda>baseDN.
     outcome_bind (if cfg_Passwd config = []
                   then outcome_wrap ''error while generating random root password'' random
                   else Ok (cfg_Passwd config)) (\<lambda>passwd.
     outcome_bind (outcome_wrap ''error while hashing root passwd'' (ssha512Encode env passwd)) (\<lambda>hash.
     outcome_bind (outcome_wrap ''error while initializing bottin store'' newstore) (\<lambda>store.
     Ok \<lparr>srv_baseDN = baseDN, srv_rootPasswd = hash, srv_acl = acl, srv_store = store, srv_crypto = crypto\<rparr>)))))"

section \<open>The handler\<close>

text \<open>
  The service as the server's handler. The world of the handler is the number of requests seen and
  the store; the environment of request \<open>n\<close> is \<open>envs n\<close>.
\<close>

definition with_env :: "(nat \<Rightarrow> Env) \<Rightarrow> (Env \<Rightarrow> ('st, 'a) go) \<Rightarrow> (nat \<times> 'st, 'a) go" where
  "with_env envs f = (\<lambda>(n, st). case f (envs n) st of (r, st') \<Rightarrow> (r, Suc n, st'))"

definition zero_State :: State where
  "zero_State = \<lparr>state_user = None\<rparr>"

definition Bottin_Handler :: "('st, 'tx) Server \<Rightarrow> (nat \<Rightarrow> Env) \<Rightarrow> (nat \<times> 'st, State) Handler" where
  "Bottin_Handler server envs =
     \<lparr>h_Bind = (\<lambda>s r. with_env envs (\<lambda>_. Bottin_Bind server s r)),
      h_Search = (\<lambda>s r. with_env envs (\<lambda>_. Bottin_Search server s r)),
      h_Add = (\<lambda>s r. with_env envs (\<lambda>env. Bottin_Add server env s r)),
      h_Del = (\<lambda>s r. with_env envs (\<lambda>env. Bottin_Del server env s r)),
      h_Modify = (\<lambda>s r. with_env envs (\<lambda>env. Bottin_Modify server env s r)),
      h_Compare = (\<lambda>s r. with_env envs (\<lambda>_. Bottin_Compare server s r)),
      h_Extended = (\<lambda>s r. with_env envs (\<lambda>env. Bottin_Extended server env s r))\<rparr>"

end
