(* ===== verification/Bottin_Tree.thy ===== *)
theory Bottin_Tree
  imports Bottin_Write
begin

text \<open>
  What the service keeps of the directory, proved once for every store that satisfies
  \<open>directory_store\<close>: lookups, the effect of the membership updates of a transaction, and the tree
  invariant (every entry is below the base entry and its parent is there) across all requests.
\<close>

section \<open>Directories that agree\<close>

definition rdn_key :: "DN \<Rightarrow> AttributeKey option" where
  "rdn_key dn = (case dn of [] \<Rightarrow> None | c # _ \<Rightarrow> Some (NewAttributeKey (comp_Type c)))"

text \<open>Two attribute lists of an entry that differ at most in some attributes and that of its RDN.\<close>

definition agree_attrs :: "AttributeKey set \<Rightarrow> DN \<Rightarrow> Attributes \<Rightarrow> Attributes \<Rightarrow> bool" where
  "agree_attrs K dn as as' \<longleftrightarrow>
     (\<forall>k. k \<notin> K \<longrightarrow> rdn_key dn \<noteq> Some k \<longrightarrow> Attributes_Get as' k = Attributes_Get as k)"

definition agree :: "AttributeKey set \<Rightarrow> DN set \<Rightarrow> directory \<Rightarrow> directory \<Rightarrow> bool" where
  "agree K M d d' \<longleftrightarrow> dom d' = dom d \<and> (\<forall>dn. dn \<notin> M \<longrightarrow> d' dn = d dn) \<and>
     (\<forall>dn as as'. d dn = Some as \<longrightarrow> d' dn = Some as' \<longrightarrow> agree_attrs K dn as as')"

lemma agree_attrs_refl [simp]: "agree_attrs K dn as as"
  by (simp add: agree_attrs_def)

lemma agree_attrs_trans: "agree_attrs K dn a b \<Longrightarrow> agree_attrs K dn b c \<Longrightarrow> agree_attrs K dn a c"
  by (simp add: agree_attrs_def)

lemma agree_refl [simp]: "agree K M d d"
  by (auto simp: agree_def)

lemma agree_UNIV: "agree K M d d' \<Longrightarrow> agree K UNIV d d'"
  by (simp add: agree_def)

lemma agree_attrs_set: "k \<in> K \<Longrightarrow> agree_attrs K dn as (attr_set k v as)"
  by (auto simp: agree_attrs_def Get_attr_set)

lemma agree_attrs_NewEntry: "agree_attrs K dn as (entry_Attributes (NewEntry dn as))"
  by (cases dn) (auto simp: agree_attrs_def NewEntry_def rdn_key_def Get_attr_set)

lemma agree_update:
  assumes "agree K M d d'" "d dn = Some as" "agree_attrs K dn as as'" "dn \<in> M"
  shows "agree K M d (d'(dn \<mapsto> as'))"
  using assms by (auto simp: agree_def)

lemma agreeD:
  assumes "agree K M d d'" "d' dn = Some as'"
  shows "\<exists>as. d dn = Some as \<and> agree_attrs K dn as as'"
proof -
  have "dn \<in> dom d" using assms domI [of d' dn as'] by (simp add: agree_def)
  then obtain as where "d dn = Some as" by blast
  with assms show ?thesis by (simp add: agree_def)
qed

text \<open>Changes that only put back entries that exist, with attributes that agree.\<close>

definition refresh :: "AttributeKey set \<Rightarrow> DN set \<Rightarrow> directory \<Rightarrow> dir_change \<Rightarrow> bool" where
  "refresh K M d c \<longleftrightarrow> (\<exists>dn as as'. c = Put dn as' \<and> dn \<in> M \<and> d dn = Some as \<and> agree_attrs K dn as as')"

lemma agree_apply:
  "agree K M d d' \<Longrightarrow> list_all (refresh K M d) cs \<Longrightarrow> agree K M d (apply_changes cs d')"
  by (induction cs arbitrary: d') (auto simp: refresh_def agree_update)

lemma refresh_DN: "refresh K M d c \<Longrightarrow> change_DN c \<in> dom d \<inter> M"
  by (auto simp: refresh_def)

lemma apply_change_at: "d e = d' e \<Longrightarrow> apply_change c d e = apply_change c d' e"
  by (cases c) auto

lemma apply_changes_at: "d e = d' e \<Longrightarrow> apply_changes cs d e = apply_changes cs d' e"
proof (induction cs arbitrary: d d')
  case (Cons c cs)
  have "apply_change c d e = apply_change c d' e" using Cons.prems by (rule apply_change_at)
  from Cons.IH [where d = "apply_change c d" and d' = "apply_change c d'", OF this]
  show ?case by (simp only: apply_changes_simps)
qed simp

lemma agree_upd: "agree K M d d' \<Longrightarrow> agree K M (d(dn := v)) (d'(dn := v))"
  by (auto simp: agree_def)

text \<open>
  One change \<open>c\<close> of a directory, with refreshed entries \<open>M\<close> beside it: the other entries agree, and
  the changed entry is as \<open>c\<close> says unless it is itself among those refreshed.
\<close>

fun change_value :: "dir_change \<Rightarrow> Attributes option" where
  "change_value (Put dn as) = Some as"
| "change_value (Remove dn) = None"

definition changed :: "AttributeKey set \<Rightarrow> DN set \<Rightarrow> dir_change \<Rightarrow> directory \<Rightarrow> directory \<Rightarrow> bool" where
  "changed K M c d d' \<longleftrightarrow>
     agree K M (d(change_DN c := None)) (d'(change_DN c := None)) \<and>
     (change_DN c \<notin> M \<or> d (change_DN c) = None \<longrightarrow> d' (change_DN c) = change_value c) \<and>
     (is_Put c \<longrightarrow> d' (change_DN c) \<noteq> None)"

lemma changed_apply:
  assumes "agree K M d d1" "list_all (refresh K M d) cs"
  shows "changed K M c d (apply_changes cs (apply_change c d1))"
proof -
  let ?dn = "change_DN c" and ?d = "apply_changes cs (apply_change c d1)"
  have other: "?d e = apply_changes cs d1 e" if "e \<noteq> ?dn" for e
    using that by (intro apply_changes_at) (cases c; simp)
  have puts: "list_all is_Put cs" using assms(2) by (auto simp: list_all_iff refresh_def)
  have "?d(?dn := None) = (apply_changes cs d1)(?dn := None)" using other by auto
  then have 1: "agree K M (d(?dn := None)) (?d(?dn := None))"
    using agree_upd [OF agree_apply [OF assms]] by simp
  have 2: "?d ?dn = change_value c" if "?dn \<notin> M \<or> d ?dn = None"
  proof -
    have "?dn \<notin> change_DN ` set cs"
    proof
      assume "?dn \<in> change_DN ` set cs"
      then obtain c' where "c' \<in> set cs" "change_DN c' = ?dn" by auto
      then have "?dn \<in> dom d \<inter> M" using assms(2) refresh_DN [of K M d c'] by (simp add: list_all_iff)
      with that show False by auto
    qed
    then show ?thesis by (cases c) (simp_all add: apply_changes_other)
  qed
  have 3: "?d ?dn \<noteq> None" if "is_Put c"
    using that dom_apply_puts [OF puts, of "apply_change c d1"] by (cases c) auto
  show ?thesis using 1 2 3 by (simp add: changed_def)
qed

lemma changed_dom:
  assumes "changed K M c d d'" "is_Put c"
  shows "dom d' = insert (change_DN c) (dom d)"
proof -
  have "dom (d'(change_DN c := None)) = dom (d(change_DN c := None))" "change_DN c \<in> dom d'"
    using assms by (auto simp: changed_def agree_def)
  then show ?thesis by auto
qed

lemma changed_dom_remove:
  assumes "changed K M (Remove dn) d d'" "dn \<in> dom d"
  shows "dom d - {dn} \<subseteq> dom d'" "dom d' \<subseteq> dom d"
proof -
  have "dom d' - {dn} = dom d - {dn}" using assms(1) by (simp add: changed_def agree_def)
  then show "dom d - {dn} \<subseteq> dom d'" "dom d' \<subseteq> dom d" using assms(2) by auto
qed

section \<open>Directories that are trees\<close>

definition tree :: "DN \<Rightarrow> directory \<Rightarrow> bool" where
  "tree base d \<longleftrightarrow> (\<forall>dn \<in> dom d. suffix base dn \<and> (dn = base \<or> tl dn \<in> dom d))"

lemma tree_dom: "dom d' = dom d \<Longrightarrow> tree base d' = tree base d"
  by (simp add: tree_def)

lemma tree_insert:
  assumes "tree base d" "dom d' = insert dn (dom d)" "suffix base dn" "tl dn \<in> dom d"
  shows "tree base d'"
  using assms by (auto simp: tree_def)

lemma tree_remove:
  assumes "tree base d" "dom d - {dn} \<subseteq> dom d'" "dom d' \<subseteq> dom d" "\<And>e. e \<in> dom d \<Longrightarrow> e \<noteq> dn \<Longrightarrow> tl e \<noteq> dn"
  shows "tree base d'"
  unfolding tree_def
proof
  fix e assume "e \<in> dom d'"
  then have e: "e \<in> dom d" using assms(3) by blast
  with assms(1) have "suffix base e" "e = base \<or> tl e \<in> dom d" unfolding tree_def by blast+
  moreover have "tl e \<in> dom d'" if "tl e \<in> dom d" "e \<noteq> dn" using that e assms(2,4) by blast
  moreover have "tl e \<in> dom d'" if "tl e \<in> dom d" "e = dn" "dn \<noteq> []"
  proof -
    have "tl e \<noteq> dn" using that by (metis length_tl diff_less length_greater_0_conv less_irrefl zero_less_one)
    then show ?thesis using that assms(2) by blast
  qed
  ultimately show "suffix base e \<and> (e = base \<or> tl e \<in> dom d')"
    using \<open>e \<in> dom d'\<close> by (cases "e = dn"; cases "dn = []") auto
qed

section \<open>Parsed names\<close>

lemma parseDN_suffix:
  assumes "parseDN server raw False = Ok dn"
  shows "suffix (srv_baseDN server) dn" "ParseDN raw = Ok dn"
  using assms by (auto simp: parseDN_def outcome_bind_def Let_def IsPrefixOf_suffix split: outcome.splits if_splits)

lemma parseDN_nonempty: "parseDN server raw False = Ok dn \<Longrightarrow> dn \<noteq> []"
  using parseDN_suffix(2) ParseDN_canonical by (fastforce simp: canonical_DN_def)

lemma ParseComponent_plain:
  assumes "ParseComponent s = Ok c" "prefixSeparator \<notin> set s"
  shows "plain_component c"
proof -
  obtain t v where s: "strings_Split s (CHR ''='') = [t, v]"
    and c: "c = \<lparr>comp_Type = strings_ToLower (strings_TrimSpace t), comp_Value = strings_ToLower (strings_TrimSpace v)\<rparr>"
    using assms(1) by (auto simp: ParseComponent_def split: list.splits)
  have "CHR ''='' \<notin> set (strings_ToLower (strings_TrimSpace w)) \<and>
      prefixSeparator \<notin> set (strings_ToLower (strings_TrimSpace w))" if "w \<in> {t, v}" for w
  proof -
    have "set w \<subseteq> set s" "CHR ''='' \<notin> set w"
      using that s Split_parts_no_sep [of w s "CHR ''=''"] Split_parts_subset [of w s "CHR ''=''"] by auto
    then have "CHR ''='' \<notin> set (strings_TrimSpace w)" "CHR ''/'' \<notin> set (strings_TrimSpace w)"
      using set_TrimSpace [of w] assms(2) by (auto simp: prefixSeparator_def)
    then show ?thesis by (auto simp: strings_ToLower_def prefixSeparator_def dest: sym)
  qed
  then show ?thesis by (simp add: c plain_component_def)
qed

lemma parseComponents_plain:
  "parseComponents ss = Ok cs \<Longrightarrow> (\<And>s. s \<in> set ss \<Longrightarrow> prefixSeparator \<notin> set s) \<Longrightarrow> list_all plain_component cs"
proof (induction ss arbitrary: cs)
  case (Cons s ss)
  then show ?case
    by (auto simp: outcome_bind_def ParseComponent_plain split: outcome.splits)
qed simp

lemma ParseDN_plain:
  assumes "ParseDN raw = Ok dn" "prefixSeparator \<notin> set raw"
  shows "good_DN dn"
proof -
  have "list_all plain_component dn"
    using assms parseComponents_plain [of "strings_Split raw dnSeparator" dn] Split_parts_subset
    by (fastforce simp: ParseDN_def parseComponentSlice_def)
  moreover have "dn \<noteq> []" using ParseDN_canonical [OF assms(1)] by (simp add: canonical_DN_def)
  ultimately show ?thesis by (simp add: good_DN_def plain_DN_def)
qed

section \<open>Lookups\<close>

lemma spec_coded: "go_spec P m Q E \<Longrightarrow> go_spec P (coded c x m) Q E"
  unfolding coded_def by (intro spec_join spec_wrap)

context directory_store
begin

lemma getEntry_eq:
  assumes "srv_store server = S" "wf st"
  shows "getEntry server dn st = (case dir st dn of
      None \<Rightarrow> (Err (Joined ErrNoSuchObject (Wrapped ''error while fetching entry'' ErrNotFound)), st)
    | Some as \<Rightarrow> (Ok \<lparr>entry_DN = dn, entry_Attributes = as\<rparr>, st))"
  using assms List_exact [OF assms(2), of dn]
  by (cases "dir st dn") (simp_all add: getEntry_def coded_def)

lemma existsEntry_eq:
  assumes "srv_store server = S" "wf st"
  shows "existsEntry server dn st = (Ok (dir st dn \<noteq> None), st)"
  using assms List_exact [OF assms(2), of dn]
  by (cases "dir st dn") (simp_all add: existsEntry_def)

end

section \<open>Inside a transaction\<close>

text \<open>
  The state in a transaction begun on directory \<open>d\<close>, after the changes \<open>L\<close>: the store agrees with
  \<open>d\<close> but for the attributes \<open>K\<close> of the entries \<open>M\<close>, and the changes since \<open>L\<close> only refresh such entries.
\<close>

definition tx_inv :: "('st \<Rightarrow> bool) \<Rightarrow> ('st \<Rightarrow> directory) \<Rightarrow> ('tx \<Rightarrow> bool) \<Rightarrow> ('tx \<Rightarrow> dir_change list) \<Rightarrow>
    AttributeKey set \<Rightarrow> DN set \<Rightarrow> directory \<Rightarrow> dir_change list \<Rightarrow> 'st \<times> 'tx \<Rightarrow> bool" where
  "tx_inv ok cont alive lg K M d L = (\<lambda>(st, tx). ok st \<and> agree K M d (cont st) \<and> alive tx \<and>
     (\<exists>cs. lg tx = L @ cs \<and> list_all (refresh K M d) cs))"

definition st_inv :: "('st \<Rightarrow> bool) \<Rightarrow> ('st \<Rightarrow> directory) \<Rightarrow> AttributeKey set \<Rightarrow> DN set \<Rightarrow> directory \<Rightarrow> 'st \<times> 'tx \<Rightarrow> bool" where
  "st_inv ok cont K M d = (\<lambda>(st, tx). ok st \<and> agree K M d (cont st))"

context directory_store
begin

lemma tx_inv_st_inv: "tx_inv wf dir live log K M d L s \<Longrightarrow> st_inv wf dir K M d s"
  by (auto simp: tx_inv_def st_inv_def)

lemma getEntry_tx:
  assumes "srv_store server = S"
  shows "go_spec (tx_inv wf dir live log K M d L) (on_store (getEntry server dn))
    (\<lambda>e s. tx_inv wf dir live log K M d L s \<and> entry_DN e = dn \<and> dir (fst s) dn = Some (entry_Attributes e))
    (st_inv wf dir K M d)"
proof (rule go_specI)
  fix s assume inv: "tx_inv wf dir live log K M d L s"
  obtain st tx where s: "s = (st, tx)" by (cases s)
  with inv have "wf st" by (simp add: tx_inv_def)
  with inv show "case fst (on_store (getEntry server dn) s) of
      Ok e \<Rightarrow> tx_inv wf dir live log K M d L (snd (on_store (getEntry server dn) s)) \<and> entry_DN e = dn \<and>
        dir (fst (snd (on_store (getEntry server dn) s))) dn = Some (entry_Attributes e)
    | _ \<Rightarrow> st_inv wf dir K M d (snd (on_store (getEntry server dn) s))"
    using tx_inv_st_inv [OF inv] getEntry_eq [OF assms]
    by (cases "dir st dn") (simp_all add: s on_store_def)
qed

text \<open>Assigning an attribute of a stored entry and storing the entry again.\<close>

lemma update_tx:
  assumes "srv_store server = S" "k \<in> K" "dn \<in> M"
  shows "go_spec (\<lambda>s. tx_inv wf dir live log K M d L s \<and> entry_DN e = dn \<and> dir (fst s) dn = Some (entry_Attributes e))
    (go_bind (assign_attribute server dn k v) (\<lambda>_.
       go_wrap ctx (tx_Store (srv_store server) (NewEntry (entry_DN e) (attr_set k v (entry_Attributes e))))))
    (\<lambda>_. tx_inv wf dir live log K M d L) (st_inv wf dir K M d)"
proof (rule spec_bind [where R = "\<lambda>_ s. tx_inv wf dir live log K M d L s \<and> entry_DN e = dn \<and>
      dir (fst s) dn = Some (attr_set k v (entry_Attributes e))"], goal_cases)
  case 1
  show ?case
  proof (rule go_specI)
    fix s assume P: "tx_inv wf dir live log K M d L s \<and> entry_DN e = dn \<and> dir (fst s) dn = Some (entry_Attributes e)"
    obtain st tx where s: "s = (st, tx)" by (cases s)
    let ?st = "s_assign S (DN_Prefix dn) k v st"
    from P s have a: "wf st" "agree K M d (dir st)" "dir st dn = Some (entry_Attributes e)"
      by (auto simp: tx_inv_def)
    note st' = assign [OF a(1,3), of k v]
    obtain as where as: "d dn = Some as" "agree_attrs K dn as (entry_Attributes e)"
      using agreeD [OF a(2,3)] by blast
    have "agree K M d (dir ?st)"
      using st' agree_update [OF a(2) as(1)] agree_attrs_trans [OF as(2) agree_attrs_set [OF assms(2)]] assms(3) by simp
    with P s st' show "case fst (assign_attribute server dn k v s) of
        Ok a \<Rightarrow> tx_inv wf dir live log K M d L (snd (assign_attribute server dn k v s)) \<and> entry_DN e = dn \<and>
          dir (fst (snd (assign_attribute server dn k v s))) dn = Some (attr_set k v (entry_Attributes e))
      | _ \<Rightarrow> st_inv wf dir K M d (snd (assign_attribute server dn k v s))"
      by (auto simp: assign_attribute_def assms(1) tx_inv_def)
  qed
next
  case (2 a)
  show ?case
  proof (rule spec_wrap, rule go_specI)
    fix s assume P: "tx_inv wf dir live log K M d L s \<and> entry_DN e = dn \<and>
      dir (fst s) dn = Some (attr_set k v (entry_Attributes e))"
    obtain st tx where s: "s = (st, tx)" by (cases s)
    let ?as = "attr_set k v (entry_Attributes e)" and ?e = "NewEntry (entry_DN e) (attr_set k v (entry_Attributes e))"
    obtain r st' tx' where step: "tx_Store S ?e (st, tx) = (r, st', tx')" by (metis prod_cases3)
    from P s have live: "live tx" and ag: "agree K M d (dir st)" and dn: "dir st dn = Some ?as" "entry_DN e = dn"
      by (auto simp: tx_inv_def)
    note tx' = Store [OF live step]
    obtain as where as: "d dn = Some as" "agree_attrs K dn as ?as" using agreeD [OF ag dn(1)] by blast
    then have "refresh K M d (Put dn (entry_Attributes ?e))"
      using agree_attrs_trans [OF as(2) agree_attrs_NewEntry] dn(2) assms(3) by (auto simp: refresh_def)
    then show "case fst (tx_Store (srv_store server) ?e s) of
        Ok a \<Rightarrow> tx_inv wf dir live log K M d L (snd (tx_Store (srv_store server) ?e s))
      | _ \<Rightarrow> st_inv wf dir K M d (snd (tx_Store (srv_store server) ?e s))"
      using P s step tx' dn(2) by (cases r) (auto simp: assms(1) tx_inv_def st_inv_def)
  qed
qed

lemma membershipAdd_tx:
  assumes "srv_store server = S" "attr \<in> K" "member \<in> M"
  shows "go_spec (tx_inv wf dir live log K M d L) (membershipAdd server attr member grp)
    (\<lambda>_. tx_inv wf dir live log K M d L) (st_inv wf dir K M d)"
  unfolding membershipAdd_def Let_def
  by (rule spec_bind [OF spec_wrap [OF getEntry_tx [OF assms(1)]]], rule spec_if, rule spec_ret, simp)
     (rule update_tx [OF assms])

lemma membershipRemove_tx:
  assumes "srv_store server = S" "attr \<in> K" "member \<in> M"
  shows "go_spec (tx_inv wf dir live log K M d L) (membershipRemove server attr member grp)
    (\<lambda>_. tx_inv wf dir live log K M d L) (st_inv wf dir K M d)"
  unfolding membershipRemove_def Let_def
  by (rule spec_bind [OF spec_wrap [OF getEntry_tx [OF assms(1)]]],
      rule spec_bind_lift, rule spec_if, rule spec_ret, simp,
      rule update_tx [OF assms]) (blast intro: tx_inv_st_inv)

text \<open>The first change of a transaction, and its commit.\<close>

lemma store_tx:
  assumes "srv_store server = S" "\<And>s. P s \<Longrightarrow> tx_inv wf dir live log K M d [] s \<and> log (snd s) = []"
  shows "go_spec P (tx_Store (srv_store server) e)
    (\<lambda>_. tx_inv wf dir live log K M d [Put (entry_DN e) (entry_Attributes e)]) (st_inv wf dir K M d)"
proof (rule go_specI)
  fix s assume P: "P s"
  obtain st tx where s: "s = (st, tx)" by (cases s)
  obtain r st' tx' where step: "tx_Store S e (st, tx) = (r, st', tx')" by (metis prod_cases3)
  have live: "live tx" using assms(2) [OF P] s by (simp add: tx_inv_def)
  show "case fst (tx_Store (srv_store server) e s) of
      Ok a \<Rightarrow> tx_inv wf dir live log K M d [Put (entry_DN e) (entry_Attributes e)] (snd (tx_Store (srv_store server) e s))
    | _ \<Rightarrow> st_inv wf dir K M d (snd (tx_Store (srv_store server) e s))"
    using assms(2) [OF P] s step Store [OF live step]
    by (cases r) (auto simp: assms(1) tx_inv_def st_inv_def)
qed

lemma delete_tx:
  assumes "srv_store server = S" "\<And>s. P s \<Longrightarrow> tx_inv wf dir live log K M d [] s \<and> log (snd s) = []"
  shows "go_spec P (tx_Delete (srv_store server) dn)
    (\<lambda>_. tx_inv wf dir live log K M d [Remove dn]) (st_inv wf dir K M d)"
proof (rule go_specI)
  fix s assume P: "P s"
  obtain st tx where s: "s = (st, tx)" by (cases s)
  obtain r st' tx' where step: "tx_Delete S dn (st, tx) = (r, st', tx')" by (metis prod_cases3)
  have live: "live tx" using assms(2) [OF P] s by (simp add: tx_inv_def)
  show "case fst (tx_Delete (srv_store server) dn s) of
      Ok a \<Rightarrow> tx_inv wf dir live log K M d [Remove dn] (snd (tx_Delete (srv_store server) dn s))
    | _ \<Rightarrow> st_inv wf dir K M d (snd (tx_Delete (srv_store server) dn s))"
    using assms(2) [OF P] s step Delete [OF live step]
    by (cases r) (auto simp: assms(1) tx_inv_def st_inv_def)
qed

lemma commit_tx:
  assumes "srv_store server = S" "good_DN (change_DN c)"
  shows "go_spec (tx_inv wf dir live log K M d [c]) (tx_Commit (srv_store server) ctx)
    (\<lambda>_ s. wf (fst s) \<and> changed K M c d (dir (fst s))) (st_inv wf dir K M d)"
proof (rule go_specI)
  fix s assume P: "tx_inv wf dir live log K M d [c] s"
  obtain st tx where s: "s = (st, tx)" by (cases s)
  obtain r st' tx' where step: "tx_Commit S ctx (st, tx) = (r, st', tx')" by (metis prod_cases3)
  obtain cs where cs: "log tx = [c] @ cs" "list_all (refresh K M d) cs" and live: "live tx" "wf st" "agree K M d (dir st)"
    using P s by (auto simp: tx_inv_def)
  have "good_DN (change_DN c)" if "c \<in> set cs" for c
  proof -
    have "refresh K M d c" using cs(2) that by (simp add: list_all_iff)
    then have "change_DN c \<in> dom d" using refresh_DN by blast
    then have "change_DN c \<in> dom (dir st)" using live(3) by (simp add: agree_def)
    then show ?thesis using wf_good [OF live(2)] by blast
  qed
  then have "list_all (\<lambda>c. good_DN (change_DN c)) (log tx)" using cs assms(2) by (auto simp: list_all_iff)
  note commit = Commit [OF live(2,1) this step]
  show "case fst (tx_Commit (srv_store server) ctx s) of
      Ok a \<Rightarrow> wf (fst (snd (tx_Commit (srv_store server) ctx s))) \<and>
        changed K M c d (dir (fst (snd (tx_Commit (srv_store server) ctx s))))
    | _ \<Rightarrow> st_inv wf dir K M d (snd (tx_Commit (srv_store server) ctx s))"
    using commit live cs step s changed_apply [OF live(3) cs(2), of c] by (cases r) (auto simp: assms(1) st_inv_def)
qed

lemma finish_tx:
  assumes "srv_store server = S" "good_DN (change_DN c)"
  shows "go_spec (tx_inv wf dir live log K M d [c])
    (go_bind (coded e x (tx_Commit (srv_store server) ctx)) (\<lambda>_. ret state))
    (\<lambda>s st. s = state \<and> wf (fst st) \<and> changed K M c d (dir (fst st))) (st_inv wf dir K M d)"
  by (rule spec_bind [OF spec_coded [OF commit_tx [OF assms]]], rule spec_ret) simp

text \<open>A handler's transaction, from the directory \<open>d\<close>.\<close>

lemma in_tx_spec:
  assumes "srv_store server = S"
    and "go_spec (\<lambda>s. tx_inv wf dir live log K M d [] s \<and> log (snd s) = []) body (\<lambda>a s. Q a (fst s)) (\<lambda>s. E (fst s))"
    and "\<And>st. wf st \<Longrightarrow> agree K M d (dir st) \<Longrightarrow> E st"
  shows "go_spec (\<lambda>st. wf st \<and> dir st = d) (in_tx server env body) Q E"
proof (rule go_specI)
  fix st assume P: "wf st \<and> dir st = d"
  obtain r st' where b: "s_Begin S (env_ctx env) st = (r, st')" by (cases "s_Begin S (env_ctx env) st")
  note begun = Begin [OF b]
  show "case fst (in_tx server env body st) of Ok a \<Rightarrow> Q a (snd (in_tx server env body st))
    | _ \<Rightarrow> E (snd (in_tx server env body st))"
  proof (cases r)
    case (Ok tx)
    with begun P have "tx_inv wf dir live log K M d [] (st, tx) \<and> log (snd (st, tx)) = []"
      by (auto simp: tx_inv_def)
    note body = go_specE [OF assms(2) this]
    have "in_tx server env body st = (fst (body (st, tx)), fst (snd (body (st, tx))))"
      using Ok b begun by (simp add: in_tx_def coded_def assms(1) split_beta)
    with body show ?thesis by (simp only: fst_conv snd_conv)
  qed (use b begun P assms(3) in \<open>simp_all add: in_tx_def coded_def assms(1) go_bind_split go_join_split go_wrap_split\<close>)
qed

end

section \<open>The requests\<close>

lemma returning_spec:
  assumes "go_spec P m Q E"
  shows "go_spec P (returning state m)
    (\<lambda>(s, err) st. (err = None \<longrightarrow> Q s st) \<and> (err \<noteq> None \<longrightarrow> s = state \<and> E st)) E"
proof (rule go_specI)
  fix st assume P: "P st"
  obtain r st' where m: "m st = (r, st')" by (cases "m st")
  from go_specE [OF assms P] m
  show "case fst (returning state m st) of
      Ok a \<Rightarrow> (case a of (s, err) \<Rightarrow> \<lambda>st. (err = None \<longrightarrow> Q s st) \<and> (err \<noteq> None \<longrightarrow> s = state \<and> E st)) (snd (returning state m st))
    | _ \<Rightarrow> E (snd (returning state m st))"
    by (cases r) (simp_all add: returning_def)
qed

lemma require_reads: "require b e s = (if b then Ok () else Err e, s)"
  by (simp add: require_def)

lemma require_Ok [simp]: "(if b then Ok () else Err e) = Ok a \<longleftrightarrow> b"
  by simp

text \<open>Steps of a handler that only look things up.\<close>

lemma spec_require:
  "(b \<Longrightarrow> go_spec P (f ()) Q E) \<Longrightarrow> (\<And>s. P s \<Longrightarrow> E s) \<Longrightarrow> go_spec P (go_bind (require b e) f) Q E"
  by (rule spec_bind_reads [OF require_reads]) (auto split: if_splits)

lemma spec_joined_lift:
  "(\<And>a. r = Ok a \<Longrightarrow> go_spec P (f a) Q E) \<Longrightarrow> (\<And>s. P s \<Longrightarrow> E s) \<Longrightarrow> go_spec P (go_bind (go_join c (lift r)) f) Q E"
  unfolding go_join_lift by (rule spec_bind_lift) simp_all

lemma spec_coded_lift:
  "(\<And>a. r = Ok a \<Longrightarrow> go_spec P (f a) Q E) \<Longrightarrow> (\<And>s. P s \<Longrightarrow> E s) \<Longrightarrow> go_spec P (go_bind (coded c x (lift r)) f) Q E"
  unfolding coded_def go_wrap_lift go_join_lift by (rule spec_bind_lift) simp_all

text \<open>The store while a handler only reads it, and after it failed.\<close>

definition membership :: "AttributeKey set" where
  "membership = {AttrMember, AttrMemberOf}"

definition reading :: "('st \<Rightarrow> bool) \<Rightarrow> ('st \<Rightarrow> directory) \<Rightarrow> directory \<Rightarrow> 'st \<Rightarrow> bool" where
  "reading ok cont d st \<longleftrightarrow> ok st \<and> cont st = d"

definition kept :: "('st \<Rightarrow> bool) \<Rightarrow> ('st \<Rightarrow> directory) \<Rightarrow> directory \<Rightarrow> 'st \<Rightarrow> bool" where
  "kept ok cont d st \<longleftrightarrow> ok st \<and> agree membership UNIV d (cont st)"

lemma reading_kept: "reading ok cont d st \<Longrightarrow> kept ok cont d st"
  by (simp add: reading_def kept_def)

context directory_store
begin

lemma spec_exists:
  assumes "srv_store server = S" "go_spec (reading wf dir d) (f (d dn \<noteq> None)) Q E" "\<And>s. reading wf dir d s \<Longrightarrow> E s"
  shows "go_spec (reading wf dir d) (go_bind (go_join c (existsEntry server dn)) f) Q E"
proof (rule spec_bind_reads [where r = "Ok (d dn \<noteq> None)"])
  show "go_join c (existsEntry server dn) s = (Ok (d dn \<noteq> None), s)" if "reading wf dir d s" for s
    using that existsEntry_eq [OF assms(1)] by (simp add: reading_def)
qed (use assms in auto)

lemma spec_getEntry:
  assumes "srv_store server = S"
    and "\<And>as. d dn = Some as \<Longrightarrow> go_spec (reading wf dir d) (f \<lparr>entry_DN = dn, entry_Attributes = as\<rparr>) Q E"
    and "\<And>s. reading wf dir d s \<Longrightarrow> E s"
  shows "go_spec (reading wf dir d) (go_bind (getEntry server dn) f) Q E"
proof (rule spec_bind_reads)
  let ?r = "case d dn of None \<Rightarrow> Err (Joined ErrNoSuchObject (Wrapped ''error while fetching entry'' ErrNotFound))
    | Some as \<Rightarrow> Ok \<lparr>entry_DN = dn, entry_Attributes = as\<rparr>"
  show "getEntry server dn s = (?r, s)" if "reading wf dir d s" for s
    using that getEntry_eq [OF assms(1)] by (auto simp: reading_def split: option.splits)
  show "go_spec (reading wf dir d) (f a) Q E" if "?r = Ok a" for a
    using that assms(2) by (auto split: option.splits)
qed (use assms in auto)

lemma spec_tx:
  assumes "srv_store server = S"
    and "go_spec (\<lambda>s. tx_inv wf dir live log membership M d [] s \<and> log (snd s) = []) body
      (\<lambda>a s. Q a (fst s)) (st_inv wf dir membership M d)"
  shows "go_spec (reading wf dir d) (in_tx server env body) Q (kept wf dir d)"
proof -
  have E: "kept wf dir d (fst s)" if "st_inv wf dir membership M d s" for s :: "'st \<times> 'tx"
    using that by (auto simp: kept_def st_inv_def intro: agree_UNIV)
  have "go_spec (\<lambda>st. wf st \<and> dir st = d) (in_tx server env body) Q (kept wf dir d)"
    by (rule in_tx_spec [OF assms(1), where K = membership and M = M])
       (rule spec_conseq [OF assms(2)], simp, simp, erule E, auto simp: kept_def intro: agree_UNIV)
  then show ?thesis by (rule spec_pre) (simp add: reading_def)
qed

text \<open>What the members of a request do to the store while it is checked: nothing.\<close>

lemma add_attributes_reads:
  assumes "srv_store server = S"
  shows "go_spec (reading wf dir d) (go_fold (add_attribute server) as acc)
    (\<lambda>_. reading wf dir d) (reading wf dir d)"
proof (rule spec_fold [where I = "\<lambda>_. reading wf dir d"])
  fix a acc
  have member: "go_spec (reading wf dir d) (add_member server m ms) (\<lambda>_. reading wf dir d) (reading wf dir d)" for m ms
    unfolding add_member_def
    by (rule spec_joined_lift spec_exists [OF assms] spec_require spec_ret | assumption)+
  have "go_spec (reading wf dir d) (go_fold (add_member server) vs ms) (\<lambda>_. reading wf dir d) (reading wf dir d)" for vs ms
    by (rule spec_fold [where I = "\<lambda>_. reading wf dir d"]) (rule member)
  then show "go_spec (reading wf dir d) (add_attribute server a acc) (\<lambda>_. reading wf dir d) (reading wf dir d)"
    by (cases acc) (auto simp: add_attribute_def Let_def split: option.splits
        intro!: spec_throw spec_ret spec_bind [where R = "\<lambda>_. reading wf dir d"])
qed

end

text \<open>The attributes a successful Add stores.\<close>

definition add_result :: "('st, 'tx) Server \<Rightarrow> Env \<Rightarrow> State \<Rightarrow> AddRequest \<Rightarrow> DN \<Rightarrow> Attributes \<Rightarrow> bool" where
  "add_result server env state r dn as \<longleftrightarrow>
     (\<exists>attrs members uuid st0 st1.
        go_fold (add_attribute server) (add_attributes r) ([], []) st0 = (Ok (attrs, members), st1) \<and>
        env_uuid env = Ok uuid \<and>
        as = entry_Attributes (NewEntry dn (add_system_attributes state env uuid (default_objectclass attrs))))"

text \<open>What a successful Add does to the directory.\<close>

definition added :: "('st, 'tx) Server \<Rightarrow> Env \<Rightarrow> State \<Rightarrow> AddRequest \<Rightarrow> directory \<Rightarrow> directory \<Rightarrow> bool" where
  "added server env state r d d' \<longleftrightarrow>
     (\<exists>dn as. parseDN server (add_entry r) False = Ok dn \<and>
        ACL_Check (srv_acl server) (State_User state) ''add'' dn (map (\<lambda>a. NewAttributeKey (pa_type a)) (add_attributes r)) \<and>
        d dn = None \<and> tl dn \<in> dom d \<and> d' dn = Some as \<and> add_result server env state r dn as \<and>
        agree membership UNIV d (d'(dn := None)))"

context directory_store
begin

lemma Add_tx:
  assumes S: "srv_store server = S" and dn: "good_DN (entry_DN e)"
  shows "go_spec (reading wf dir d)
    (in_tx server env
      (go_bind (coded c1 x1 (tx_Store (srv_store server) e)) (\<lambda>_.
       go_bind (go_each (\<lambda>m. coded c2 x2 (membershipAdd server AttrMemberOf m dn)) members) (\<lambda>_.
       go_bind (coded c3 x3 (tx_Commit (srv_store server) ctx)) (\<lambda>_. ret state)))))
    (\<lambda>s st. s = state \<and> wf st \<and> changed membership (set members) (Put (entry_DN e) (entry_Attributes e)) d (dir st))
    (kept wf dir d)"
  by (rule spec_tx [OF S, where M = "set members"], rule spec_bind [OF spec_coded [OF store_tx [OF S]]], assumption,
      rule spec_bind [OF spec_each], rule spec_coded, rule membershipAdd_tx [OF S])
     (simp_all add: membership_def finish_tx [OF S] dn)

lemma Add_spec:
  assumes S: "srv_store server = S"
    and plain: "\<And>dn. parseDN server (add_entry r) False = Ok dn \<Longrightarrow> good_DN dn"
  shows "go_spec (reading wf dir d) (Bottin_Add server env state r)
    (\<lambda>(s, err) st. (err = None \<longrightarrow> s = state \<and> wf st \<and> added server env state r d (dir st)) \<and>
       (err \<noteq> None \<longrightarrow> s = state \<and> kept wf dir d st)) (kept wf dir d)"
  unfolding Bottin_Add_def Let_def
proof (rule returning_spec, rule spec_joined_lift, rule spec_require, rule spec_exists [OF S],
    rule spec_require, rule spec_bind_lift, rule spec_exists [OF S], rule spec_require)
  fix dn parent
  assume dn: "parseDN server (add_entry r) False = Ok dn"
    and acl: "ACL_Check (srv_acl server) (State_User state) ''add'' dn (map (\<lambda>a. NewAttributeKey (pa_type a)) (add_attributes r))"
    and new: "\<not> d dn \<noteq> None" and parent: "DN_Parent dn = Ok parent" "d parent \<noteq> None"
  have tl: "tl dn \<in> dom d" using parent by (cases dn) (auto simp: DN_Parent_def)
  show "go_spec (reading wf dir d)
     (go_bind (go_fold (add_attribute server) (add_attributes r) ([], [])) (\<lambda>(attrs, members).
       go_bind (coded ErrOperationsError ''error while generating random uuid'' (lift (env_uuid env))) (\<lambda>uuid.
       in_tx server env
        (go_bind (coded ErrOperationsError ''error while storing entry'' (tx_Store (srv_store server)
            (NewEntry dn (add_system_attributes state env uuid (default_objectclass attrs))))) (\<lambda>_.
         go_bind (go_each (\<lambda>member. coded ErrOperationsError ''error while adding to group''
                    (membershipAdd server AttrMemberOf member dn)) members) (\<lambda>_.
         go_bind (coded ErrOperationsError ''could not commit transaction''
                    (tx_Commit (srv_store server) (env_ctx env))) (\<lambda>_.
         ret state)))))))
     (\<lambda>s st. s = state \<and> wf st \<and> added server env state r d (dir st)) (kept wf dir d)"
  proof (rule spec_bind_pair [where R = "\<lambda>_. reading wf dir d"], rule spec_conseq [OF add_attributes_reads [OF S]],
      assumption, assumption, erule reading_kept, rule spec_coded_lift)
    fix attrs members uuid st0 st1
    let ?as = "entry_Attributes (NewEntry dn (add_system_attributes state env uuid (default_objectclass attrs)))"
    assume run: "go_fold (add_attribute server) (add_attributes r) ([], []) st0 = (Ok (attrs, members), st1)"
      and uuid: "env_uuid env = Ok uuid"
    then have res: "add_result server env state r dn ?as" unfolding add_result_def by blast
    show "go_spec (reading wf dir d)
     (in_tx server env
        (go_bind (coded ErrOperationsError ''error while storing entry'' (tx_Store (srv_store server)
            (NewEntry dn (add_system_attributes state env uuid (default_objectclass attrs))))) (\<lambda>_.
         go_bind (go_each (\<lambda>member. coded ErrOperationsError ''error while adding to group''
                    (membershipAdd server AttrMemberOf member dn)) members) (\<lambda>_.
         go_bind (coded ErrOperationsError ''could not commit transaction''
                    (tx_Commit (srv_store server) (env_ctx env))) (\<lambda>_.
         ret state)))))
     (\<lambda>s st. s = state \<and> wf st \<and> added server env state r d (dir st)) (kept wf dir d)"
    proof (rule spec_conseq [OF Add_tx [OF S]])
      fix s st
      assume "s = state \<and> wf st \<and> changed membership (set members)
        (Put (entry_DN (NewEntry dn (add_system_attributes state env uuid (default_objectclass attrs)))) ?as) d (dir st)"
      then show "s = state \<and> wf st \<and> added server env state r d (dir st)"
        using new dn acl tl res by (auto simp: added_def changed_def fun_upd_idem intro!: agree_UNIV)
    qed (simp_all add: plain [OF dn])
  qed (rule reading_kept)
qed (auto intro: reading_kept)

end

end
