(* ===== verification/Ldap_Session.thy ===== *)
theory Ldap_Session
  imports Ldap_Server Go_Hoare
begin

text \<open>
  A whole connection: what the handler keeps of its world it keeps over everything a client may
  send, the outstanding requests after each request, and the responses as messages a client can
  decode.
\<close>

section \<open>One packet\<close>

text \<open>A packet ends the connection, is skipped, or is a request.\<close>

lemma serve_packet:
  obtains (stop) "serve errtext h zero state (p # ps) cw = (Ok state, cw)"
  | (skip) "serve errtext h zero state (p # ps) cw = serve errtext h zero state ps cw"
  | (request) packet m where "p = Ok packet" "readMessage packet = Ok m"
      "serve errtext h zero state (p # ps) cw =
        go_bind (ProcessRequestMessage errtext h zero state m) (\<lambda>state'. serve errtext h zero state' ps) cw"
proof (cases "\<exists>packet m. p = Ok packet \<and> readMessage packet = Ok m \<and> msg_protocolOp m \<noteq> OpUnbindRequest")
  case True
  then show thesis using request by auto
next
  case False
  then have "serve errtext h zero state (p # ps) cw = (Ok state, cw) \<or>
      serve errtext h zero state (p # ps) cw = serve errtext h zero state ps cw"
    by (auto split: outcome.splits)
  then show thesis using stop skip by blast
qed

lemma serve_rule:
  assumes step: "\<And>packet m state cw. Ok packet \<in> set ps \<Longrightarrow> readMessage packet = Ok m \<Longrightarrow> I cw \<Longrightarrow>
      I (snd (ProcessRequestMessage errtext h zero state m cw))"
    and "I cw"
  shows "I (snd (serve errtext h zero state ps cw))"
  using assms
proof (induction ps arbitrary: state cw)
  case (Cons p ps)
  have tail: "I (snd (serve errtext h zero state' ps cw'))" if "I cw'" for state' cw'
  proof (rule Cons.IH)
    fix packet m s c
    assume "Ok packet \<in> set ps" "readMessage packet = Ok m" "I c"
    then show "I (snd (ProcessRequestMessage errtext h zero s m c))"
      using Cons.prems(1) [of packet m c s] by simp
  qed (rule that)
  show ?case
  proof (cases rule: serve_packet [of errtext h zero state p ps cw])
    case stop
    with Cons.prems(2) show ?thesis by (simp only: snd_conv)
  next
    case skip
    with tail [OF Cons.prems(2)] show ?thesis by (simp only:)
  next
    case (request packet m)
    have step: "I (snd (ProcessRequestMessage errtext h zero state m cw))"
      by (rule Cons.prems(1)) (use request(1,2) Cons.prems(2) in simp_all)
    with tail request(3) show ?thesis
      by (cases "fst (ProcessRequestMessage errtext h zero state m cw)") (simp_all add: go_bind_split del: serve.simps)
  qed
qed simp

section \<open>Invariants of the handler's world\<close>

text \<open>
  A property of the world that every request with property \<open>P\<close> keeps, however it ends.
\<close>

locale world_invariant =
  fixes h :: "('w, 't) Handler" and zero :: "'t" and P :: "ProtocolOp \<Rightarrow> bool" and I :: "'w \<Rightarrow> bool"
  assumes dispatch_keeps: "P op \<Longrightarrow> go_spec I (dispatch h zero state op) (\<lambda>_. I) I"
begin

lemma runHandler_keeps: "P op \<Longrightarrow> go_spec I (runHandler h zero state op) (\<lambda>_. I) I"
  unfolding runHandler_def go_map_def
  by (rule spec_bind [OF dispatch_keeps]) (auto intro: spec_ret)

lemma on_world_keeps:
  assumes "go_spec I m (\<lambda>_. I) I"
  shows "go_spec (\<lambda>cw. I (snd cw)) (on_world m) (\<lambda>_ cw. I (snd cw)) (\<lambda>cw. I (snd cw))"
proof (rule go_specI)
  fix cw assume "I (snd cw)"
  then have "I (snd (m (snd cw)))" by (rule go_spec_final [OF assms])
  then show "case fst (on_world m cw) of Ok a \<Rightarrow> I (snd (snd (on_world m cw))) | _ \<Rightarrow> I (snd (snd (on_world m cw)))"
    by (cases cw; cases "m (snd cw)") (simp add: on_world_def split: outcome.splits)
qed

lemma on_client_keeps:
  fixes m :: "('c, 'b) go"
  shows "go_spec (\<lambda>cw. I (snd cw)) (on_client m) (\<lambda>_ cw. I (snd cw)) (\<lambda>cw. I (snd cw))"
proof (rule go_specI)
  fix cw :: "'c \<times> 'w" assume "I (snd cw)"
  then show "case fst (on_client m cw) of Ok a \<Rightarrow> I (snd (snd (on_client m cw))) | _ \<Rightarrow> I (snd (snd (on_client m cw)))"
    by (cases cw; cases "m (fst cw)") (simp add: on_client_def split: outcome.splits)
qed

lemma handle_keeps:
  "P (msg_protocolOp m) \<Longrightarrow>
   go_spec (\<lambda>cw. I (snd cw)) (handle errtext h zero state m) (\<lambda>_ cw. I (snd cw)) (\<lambda>cw. I (snd cw))"
  unfolding handle_def
  by (rule spec_bind [OF on_client_keeps], rule spec_bind [OF on_world_keeps [OF runHandler_keeps]], assumption)
     (auto intro!: spec_bind [OF on_client_keeps] spec_ret)

lemma ProcessRequestMessage_keeps:
  assumes "P (msg_protocolOp m)" "I (snd cw)"
  shows "I (snd (snd (ProcessRequestMessage errtext h zero state m cw)))"
proof -
  let ?cw = "(registerRequest (msg_messageID m) (fst cw), snd cw)"
  have "I (snd (snd (handle errtext h zero state m ?cw)))"
    by (rule go_spec_final [OF handle_keeps [OF assms(1)]]) (simp add: assms(2))
  then show ?thesis
    by (cases cw; cases "handle errtext h zero state m ?cw") (simp add: ProcessRequestMessage_def)
qed

text \<open>Whatever packets arrive, the invariant holds when the connection ends.\<close>

lemma serve_keeps:
  assumes "\<And>packet m. Ok packet \<in> set ps \<Longrightarrow> readMessage packet = Ok m \<Longrightarrow> P (msg_protocolOp m)" "I (snd cw)"
  shows "I (snd (snd (serve errtext h zero state ps cw)))"
  by (rule serve_rule [where I = "\<lambda>cw. I (snd cw)"]) (auto intro: ProcessRequestMessage_keeps assms)

end

section \<open>Outstanding requests\<close>

text \<open>
  Requests are handled one after the other, so none is outstanding between two of them.
\<close>

lemma Abandon_requests:
  "Abandon i c = (r, c') \<Longrightarrow> dom (cl_requestList c') = dom (cl_requestList c) \<and> cl_chanOut c' = cl_chanOut c"
  by (auto simp: Abandon_def split: option.splits if_splits)

lemma handleAbandon_requests:
  "handleAbandon op c = (r, c') \<Longrightarrow> dom (cl_requestList c') = dom (cl_requestList c) \<and> cl_chanOut c' = cl_chanOut c"
  by (cases op) (simp_all add: handleAbandon_def Abandon_requests)

text \<open>Code on one side of the connection keeps what holds of the other.\<close>

lemma on_client_spec:
  assumes "\<And>c. Q c \<Longrightarrow> Q (snd (f c))"
  shows "go_spec (\<lambda>cw. Q (fst cw)) (on_client f) (\<lambda>_ cw. Q (fst cw)) (\<lambda>cw. Q (fst cw))"
proof (rule go_specI)
  fix cw assume "Q (fst cw)"
  then have "Q (snd (f (fst cw)))" by (rule assms)
  then show "case fst (on_client f cw) of Ok a \<Rightarrow> Q (fst (snd (on_client f cw))) | _ \<Rightarrow> Q (fst (snd (on_client f cw)))"
    by (cases cw; cases "f (fst cw)") (simp add: on_client_def split: outcome.splits)
qed

lemma on_world_spec:
  fixes f :: "('w, 'b) go" and Q :: "'c \<Rightarrow> bool"
  shows "go_spec (\<lambda>cw. Q (fst cw)) (on_world f) (\<lambda>_ cw. Q (fst cw)) (\<lambda>cw. Q (fst cw))"
proof (rule go_specI)
  fix cw :: "'c \<times> 'w" assume "Q (fst cw)"
  then show "case fst (on_world f cw) of Ok a \<Rightarrow> Q (fst (snd (on_world f cw))) | _ \<Rightarrow> Q (fst (snd (on_world f cw)))"
    by (cases cw; cases "f (snd cw)") (simp add: on_world_def split: outcome.splits)
qed

lemma handle_requests:
  "go_spec (\<lambda>cw. dom (cl_requestList (fst cw)) = D) (handle errtext h zero state m)
     (\<lambda>_ cw. dom (cl_requestList (fst cw)) = D) (\<lambda>cw. dom (cl_requestList (fst cw)) = D)"
proof -
  let ?Q = "\<lambda>c. dom (cl_requestList c) = D"
  have abandon: "?Q (snd (handleAbandon (msg_protocolOp m) c))" if "?Q c" for c
    using that handleAbandon_requests [of "msg_protocolOp m" c] by (metis prod.collapse)
  show ?thesis
    unfolding handle_def
    by (rule spec_bind [OF on_client_spec [where Q = ?Q]], erule abandon, rule spec_bind [OF on_world_spec [where Q = ?Q]])
       (auto intro!: spec_bind [OF on_client_spec [where Q = ?Q]] spec_ret simp: fold_Write responseWriter_Write_def)
qed

lemma ProcessRequestMessage_requests:
  assumes "cl_requestList (fst cw) = Map.empty"
  shows "cl_requestList (fst (snd (ProcessRequestMessage errtext h zero state m cw))) = Map.empty"
proof -
  let ?i = "msg_messageID m"
  let ?cw = "(registerRequest ?i (fst cw), snd cw)"
  have "dom (cl_requestList (fst (snd (handle errtext h zero state m ?cw)))) = {sint ?i}"
    by (rule go_spec_final [OF handle_requests]) (simp add: registerRequest_def assms)
  then have "(cl_requestList (fst (snd (handle errtext h zero state m ?cw))))(sint ?i := None) = Map.empty"
    by (intro ext) (auto simp: dom_def split: if_splits)
  then show ?thesis
    by (cases cw; cases "handle errtext h zero state m ?cw") (simp add: ProcessRequestMessage_def unregisterRequest_def)
qed

lemma serve_requests:
  "cl_requestList (fst cw) = Map.empty \<Longrightarrow>
   cl_requestList (fst (snd (serve errtext h zero state ps cw))) = Map.empty"
  by (rule serve_rule [where I = "\<lambda>cw. cl_requestList (fst cw) = Map.empty"]) (rule ProcessRequestMessage_requests)

section \<open>A response no client can decode\<close>

text \<open>
  A bare \<^verbatim>\<open>LDAPResult\<close> has the tag of a sequence, 16, as an abandon request has, but not its class.
\<close>

lemma ReadSubBytes_Err:
  assumes "callback \<lparr>bytes = e, offset = 0\<rparr> = (Err err, sub)" "low_tag cls tag" "length e < 2 ^ 31"
  shows "\<exists>err' bs. ReadSubBytes cls tag callback \<lparr>bytes = tlv cls isCompound tag e, offset = 0\<rparr> = (Err err', bs)"
proof -
  let ?h = "header_bytes cls isCompound tag (length e)"
  have sl: "take (length e) (drop (length ?h) (?h @ e)) = e" by simp
  show ?thesis
    using ParseTagAndLength_tlv [OF assms(2,3), of "[]" isCompound "[]"] assms(1) sl
    by (simp add: ReadSubBytes_def Let_def tlv_def)
qed

lemma ReadPrimitive_other_class:
  assumes "low_tag cls' tag'" "length c < 2 ^ 31" "cls \<noteq> cls'"
  shows "\<exists>err bs. ReadPrimitiveSubBytes cls tag typeTag
    \<lparr>bytes = pre @ tlv cls' cmp tag' c @ post, offset = length pre\<rparr> = (Err err, bs)"
  using ParseTagAndLength_tlv [OF assms(1,2), of pre cmp post] assms(3)
  by (simp add: ReadPrimitiveSubBytes_def Expect_def ExpectClass_def go_wrap_lift)

lemma bare_result_undecodable:
  assumes "0 \<le> sint i" "LDAPMessage_size (response i (OpLDAPResult res)) < 2 ^ 31"
  shows "\<exists>e. readMessage (wire (response i (OpLDAPResult res))) = Err e"
proof -
  let ?r = "tlv classUniversal isCompound tagSequence (enc_LDAPResult res)"
  let ?e = "enc_INTEGER i @ ?r"
  have enc: "enc_message (response i (OpLDAPResult res)) = ?e"
    by (simp add: enc_message_def response_def)
  have len: "length ?e < 2 ^ 31" "length (enc_LDAPResult res) < 2 ^ 31"
    using assms(2) length_tlv_gr [of "?e" classUniversal isCompound tagSequence]
      length_tlv_gr [of "enc_LDAPResult res" classUniversal isCompound tagSequence]
    by (simp_all add: LDAPMessage.size_enc enc)
  have id: "readMessageID \<lparr>bytes = ?e, offset = 0\<rparr> = (Ok i, \<lparr>bytes = ?e, offset = length (enc_INTEGER i)\<rparr>)"
    using reads_ifD [OF positive_int_readers(4) [OF assms(1)], where pre = "[]" and post = "?r"] len by simp
  have "\<exists>err bs. readProtocolOp \<lparr>bytes = ?e, offset = length (enc_INTEGER i)\<rparr> = (Err err, bs)"
  proof -
    have "classApplication \<noteq> classUniversal" by (simp add: classApplication_def classUniversal_def)
    then have "\<exists>err bs. readAbandonRequest \<lparr>bytes = ?e @ [], offset = length (enc_INTEGER i)\<rparr> = (Err err, bs)"
      using ReadPrimitive_other_class [of classUniversal tagSequence "enc_LDAPResult res" classApplication TagAbandonRequest
          tagInteger "enc_INTEGER i" isCompound "[]"] len(2)
      by (auto simp: readAbandonRequest_def readTaggedMessageID_def readTaggedPositiveINTEGER_def readTaggedINTEGER_def)
    moreover have "readProtocolOpCase tagSequence = Some (go_map OpAbandonRequest readAbandonRequest)"
      by (simp add: readProtocolOpCase_def tagSequence_def ldap_tags)
    ultimately show ?thesis
      using PreviewTagAndLength_tlv [of classUniversal tagSequence "enc_LDAPResult res" "enc_INTEGER i" isCompound "[]"] len(2)
      by (auto simp: readProtocolOp_def go_map_def)
  qed
  then obtain err bs where "LDAPMessage_readComponents \<lparr>bytes = ?e, offset = 0\<rparr> = (Err err, bs)"
    using id by (auto simp: LDAPMessage_readComponents_def)
  from ReadSubBytes_Err [where callback = LDAPMessage_readComponents and e = "?e" and err = err and sub = bs
      and cls = classUniversal and tag = tagSequence, OF this] len(1)
  obtain err' bs' where "ReadLDAPMessage \<lparr>bytes = wire (response i (OpLDAPResult res)), offset = 0\<rparr> = (Err err', bs')"
    by (auto simp: ReadLDAPMessage_def wire_def enc)
  then show ?thesis by (simp add: readMessage_decode decodeMessage_def NewBytes_def)
qed
end
