(* ===== verification/Bottin_Requests.thy ===== *)
theory Bottin_Requests
  imports Bottin_Tree Ldap_Session
begin

text \<open>
  The remaining requests over a store that satisfies \<open>directory_store\<close> (Delete, Modify, the password
  change, and those that only read), and the tree invariant for any sequence of packets served.
\<close>

section \<open>Delete\<close>

text \<open>The DNs some values name.\<close>

definition named :: "('st, 'tx) Server \<Rightarrow> string list \<Rightarrow> DN set" where
  "named server vals = {dn. \<exists>raw \<in> set vals. parseDN server raw False = Ok dn}"

definition deleted :: "('st, 'tx) Server \<Rightarrow> State \<Rightarrow> DelRequest \<Rightarrow> directory \<Rightarrow> directory \<Rightarrow> bool" where
  "deleted server state r d d' \<longleftrightarrow>
     (\<exists>dn as. parseDN server r False = Ok dn \<and>
        ACL_Check (srv_acl server) (State_User state) ''delete'' dn [] \<and>
        d dn = Some as \<and> (\<forall>e \<in> dom d. in_range (DN_Prefix dn) (DN_Prefix e) \<longrightarrow> e = dn) \<and>
        changed membership (named server (Attributes_Get as AttrMemberOf @ Attributes_Get as AttrMember)) (Remove dn) d d')"

text \<open>An entry in range of no other entry has no child.\<close>

lemma no_child:
  assumes "\<forall>e \<in> dom d. in_range (DN_Prefix dn) (DN_Prefix e) \<longrightarrow> e = dn" "dn \<noteq> []" "e \<in> dom d" "e \<noteq> dn"
  shows "tl e \<noteq> dn"
proof
  assume "tl e = dn"
  then have "suffix dn e" using assms(2) by (cases e) (auto simp: suffix_def)
  then have "in_range (DN_Prefix dn) (DN_Prefix e)"
    using assms(2) by (intro in_range_descendant) (simp_all add: DN_Prefix_def reverse_slice_def suffix_to_prefix)
  with assms show False by blast
qed

lemma deleted_tree:
  assumes "tree base d" "deleted server state r d d'"
  shows "tree base d'"
proof -
  obtain dn as where "parseDN server r False = Ok dn" and as: "d dn = Some as"
    and alone: "\<forall>e \<in> dom d. in_range (DN_Prefix dn) (DN_Prefix e) \<longrightarrow> e = dn"
    and ch: "changed membership (named server (Attributes_Get as AttrMemberOf @ Attributes_Get as AttrMember)) (Remove dn) d d'"
    using assms(2) unfolding deleted_def by blast
  then have "dn \<noteq> []" using parseDN_nonempty by blast
  have "dn \<in> dom d" using as by blast
  show ?thesis
    by (rule tree_remove [OF assms(1) changed_dom_remove [OF ch \<open>dn \<in> dom d\<close>] no_child [OF alone \<open>dn \<noteq> []\<close>]])
qed

lemma added_tree:
  assumes "tree (srv_baseDN server) d" "added server env state r d d'"
  shows "tree (srv_baseDN server) d'"
proof -
  obtain dn as where dn: "parseDN server (add_entry r) False = Ok dn" "d dn = None" "tl dn \<in> dom d" "d' dn = Some as"
    "agree membership UNIV d (d'(dn := None))"
    using assms(2) unfolding added_def by blast
  have "dom d' - {dn} = dom d" using dn(5) by (simp add: agree_def)
  then have "dom d' = insert dn (dom d)" using dn(2,4) by blast
  then show ?thesis by (rule tree_insert [OF assms(1) _ parseDN_suffix(1) [OF dn(1)] dn(3)])
qed

context directory_store
begin

lemma remove_from_group_tx:
  assumes "srv_store server = S" "grp \<in> set gs"
  shows "go_spec (tx_inv wf dir live log membership (named server (gs @ ms)) d L) (remove_from_group server dn grp)
    (\<lambda>_. tx_inv wf dir live log membership (named server (gs @ ms)) d L) (st_inv wf dir membership (named server (gs @ ms)) d)"
  unfolding remove_from_group_def
  by (rule spec_coded_lift, rule spec_coded, rule membershipRemove_tx [OF assms(1)])
     (use assms(2) in \<open>auto simp: membership_def named_def intro: tx_inv_st_inv\<close>)

lemma remove_from_member_tx:
  assumes "srv_store server = S" "m \<in> set ms"
  shows "go_spec (tx_inv wf dir live log membership (named server (gs @ ms)) d L) (remove_from_member server dn m)
    (\<lambda>_. tx_inv wf dir live log membership (named server (gs @ ms)) d L) (st_inv wf dir membership (named server (gs @ ms)) d)"
  unfolding remove_from_member_def
  by (rule spec_coded_lift, rule spec_coded, rule membershipRemove_tx [OF assms(1)])
     (use assms(2) in \<open>auto simp: membership_def named_def intro: tx_inv_st_inv\<close>)

lemma Del_tx:
  assumes S: "srv_store server = S" and dn: "good_DN dn"
  shows "go_spec (reading wf dir d)
    (in_tx server env
      (go_bind (coded c1 x1 (tx_Delete (srv_store server) dn)) (\<lambda>_.
       go_bind (go_each (remove_from_group server dn) gs) (\<lambda>_.
       go_bind (go_each (remove_from_member server dn) ms) (\<lambda>_.
       go_bind (coded c3 x3 (tx_Commit (srv_store server) ctx)) (\<lambda>_. ret state))))))
    (\<lambda>s st. s = state \<and> wf st \<and> changed membership (named server (gs @ ms)) (Remove dn) d (dir st))
    (kept wf dir d)"
  by (rule spec_tx [OF S, where M = "named server (gs @ ms)"], rule spec_bind [OF spec_coded [OF delete_tx [OF S]]], assumption,
      rule spec_bind [OF spec_each [OF remove_from_group_tx [OF S]]], assumption,
      rule spec_bind [OF spec_each [OF remove_from_member_tx [OF S]]], assumption)
     (rule finish_tx [OF S], simp add: dn)

text \<open>What a listing of a range returns, when all of it is one entry.\<close>

lemma spec_list_range:
  assumes "srv_store server = S" "dn \<noteq> []"
    and "\<And>es. set es = {\<lparr>entry_DN = e, entry_Attributes = as\<rparr> | e as. d e = Some as \<and> in_range (DN_Prefix dn) (DN_Prefix e)} \<Longrightarrow>
      go_spec (reading wf dir d) (f es) Q E"
    and "\<And>s. reading wf dir d s \<Longrightarrow> E s"
  shows "go_spec (reading wf dir d) (go_bind (coded c x (s_List (srv_store server) (DN_Prefix dn) False)) f) Q E"
proof (rule go_specI)
  fix st assume st: "reading wf dir d st"
  then obtain es where l: "s_List S (DN_Prefix dn) False st = (Ok es, st)" and
    es: "set es = {\<lparr>entry_DN = e, entry_Attributes = as\<rparr> | e as. d e = Some as \<and> in_range (DN_Prefix dn) (DN_Prefix e)}"
    using List_range [OF _ assms(2), of st] by (auto simp: reading_def)
  from l have "go_bind (coded c x (s_List (srv_store server) (DN_Prefix dn) False)) f st = f es st"
    by (simp add: assms(1) coded_def)
  with go_specE [OF assms(3) [OF es] st]
  show "case fst (go_bind (coded c x (s_List (srv_store server) (DN_Prefix dn) False)) f st) of
      Ok a \<Rightarrow> Q a (snd (go_bind (coded c x (s_List (srv_store server) (DN_Prefix dn) False)) f st))
    | _ \<Rightarrow> E (snd (go_bind (coded c x (s_List (srv_store server) (DN_Prefix dn) False)) f st))"
    by (simp only:)
qed

lemma Del_spec:
  assumes S: "srv_store server = S" and good: "\<And>dn as. d dn = Some as \<Longrightarrow> good_DN dn"
  shows "go_spec (reading wf dir d) (Bottin_Del server env state r)
    (\<lambda>(s, err) st. (err = None \<longrightarrow> s = state \<and> wf st \<and> deleted server state r d (dir st)) \<and>
       (err \<noteq> None \<longrightarrow> s = state \<and> kept wf dir d st)) (kept wf dir d)"
  unfolding Bottin_Del_def Let_def
proof (rule returning_spec, rule spec_joined_lift, rule spec_require, rule spec_list_range [OF S],
    rule parseDN_nonempty, assumption, rule spec_require, rule spec_require)
  fix dn es
  assume dn: "parseDN server r False = Ok dn" and acl: "ACL_Check (srv_acl server) (State_User state) ''delete'' dn []"
    and es: "set es = {\<lparr>entry_DN = e, entry_Attributes = as\<rparr> | e as. d e = Some as \<and> in_range (DN_Prefix dn) (DN_Prefix e)}"
    and ne: "length es \<noteq> 0" and all: "list_all (\<lambda>entry. DN_Equal (entry_DN entry) dn) es"
  let ?e = "hd es"
  from ne have "?e \<in> set es" by (cases es) auto
  then have "entry_DN ?e = dn" using all by (simp add: list_all_iff DN_Equal_def)
  moreover obtain e as where "?e = \<lparr>entry_DN = e, entry_Attributes = as\<rparr>" "d e = Some as"
    using \<open>?e \<in> set es\<close> unfolding es by blast
  ultimately have e: "?e = \<lparr>entry_DN = dn, entry_Attributes = as\<rparr>" "d dn = Some as" by simp_all
  have alone: "\<forall>e \<in> dom d. in_range (DN_Prefix dn) (DN_Prefix e) \<longrightarrow> e = dn"
  proof (intro ballI impI)
    fix e assume "e \<in> dom d" "in_range (DN_Prefix dn) (DN_Prefix e)"
    then obtain a where "\<lparr>entry_DN = e, entry_Attributes = a\<rparr> \<in> set es" using es by auto
    then show "e = dn" using all by (auto simp: list_all_iff DN_Equal_def)
  qed
  have post: "deleted server state r d d'"
    if "changed membership (named server (Entry_Get ?e AttrMemberOf @ Entry_Get ?e AttrMember)) (Remove dn) d d'" for d'
    unfolding deleted_def using that dn acl e alone by (intro exI [of _ dn] exI [of _ as]) (simp add: Entry_Get_def)
  show "go_spec (reading wf dir d)
      (in_tx server env
        (go_bind (coded ErrOperationsError ''error while deleting entry'' (tx_Delete (srv_store server) dn)) (\<lambda>_.
         go_bind (go_each (remove_from_group server dn) (Entry_Get ?e AttrMemberOf)) (\<lambda>_.
         go_bind (go_each (remove_from_member server dn) (Entry_Get ?e AttrMember)) (\<lambda>_.
         go_bind (coded ErrOperationsError ''could not commit transaction''
                    (tx_Commit (srv_store server) (env_ctx env))) (\<lambda>_.
         ret state))))))
      (\<lambda>s st. s = state \<and> wf st \<and> deleted server state r d (dir st)) (kept wf dir d)"
    by (rule spec_conseq [OF Del_tx [OF S good [OF e(2)]]]) (use post in blast)+
qed (auto intro: reading_kept)

end

section \<open>Modify\<close>

text \<open>The attributes a successful Modify stores, and the members it adds and removes.\<close>

definition modify_acc :: "('st, 'tx) Server \<Rightarrow> State \<Rightarrow> DN \<Rightarrow> Entry \<Rightarrow> ModifyRequest \<Rightarrow> ModifyAcc \<Rightarrow> bool" where
  "modify_acc server state dn prev r acc \<longleftrightarrow>
     (\<exists>st0 st1 :: unit. go_fold (\<lambda>change acc. lift (modify_change server state dn prev change acc)) (mod_changes r)
        \<lparr>ma_attrs = [], ma_addMembers = [], ma_delMembers = []\<rparr> st0 = (Ok acc, st1))"

definition modified_attributes :: "Env \<Rightarrow> State \<Rightarrow> ModifyAcc \<Rightarrow> Attributes" where
  "modified_attributes env state acc =
     attr_set AttrModifyTimestamp [env_now env]
       (attr_set AttrModifiersName [usr_user (State_User state)] (ma_attrs acc))"

definition modified :: "('st, 'tx) Server \<Rightarrow> Env \<Rightarrow> State \<Rightarrow> ModifyRequest \<Rightarrow> directory \<Rightarrow> directory \<Rightarrow> bool" where
  "modified server env state r d d' \<longleftrightarrow>
     (\<exists>dn prev acc. parseDN server (mod_object r) False = Ok dn \<and>
        ACL_Check (srv_acl server) (State_User state) ''modify'' dn [] \<and>
        d dn = Some prev \<and> modify_acc server state dn \<lparr>entry_DN = dn, entry_Attributes = prev\<rparr> r acc \<and>
        set (ma_addMembers acc) \<subseteq> dom d \<and>
        changed membership (set (ma_addMembers acc) \<union> set (ma_delMembers acc))
          (Put dn (entry_Attributes (NewEntry dn (modified_attributes env state acc)))) d d')"

lemma modified_tree:
  assumes "tree base d" "modified server env state r d d'"
  shows "tree base d'"
proof -
  obtain dn prev M as where "d dn = Some prev" "changed membership M (Put dn as) d d'"
    using assms(2) unfolding modified_def by blast
  then have "dom d' = dom d" using changed_dom [of membership M "Put dn as" d d'] by auto
  with assms(1) show ?thesis using tree_dom by blast
qed

text \<open>A fold of computations is a computation.\<close>

lemma go_fold_lift:
  "go_fold (\<lambda>x acc. lift (f x acc)) xs acc = lift (fst (go_fold (\<lambda>x acc. lift (f x acc)) xs acc ()))"
proof (induction xs arbitrary: acc)
  case Nil
  show ?case by (auto simp: ret_def lift_def)
next
  case (Cons x xs)
  show ?case
  proof (cases "f x acc")
    case (Ok a)
    then show ?thesis using Cons [of a] by (auto simp: go_bind_def lift_def)
  qed (auto simp: go_bind_def lift_def)
qed

lemma spec_bind_fold_lift:
  assumes "\<And>a. fst (go_fold (\<lambda>x acc. lift (f x acc)) xs acc ()) = Ok a \<Longrightarrow> go_spec P (g a) Q E" "\<And>s. P s \<Longrightarrow> E s"
  shows "go_spec P (go_bind (go_fold (\<lambda>x acc. lift (f x acc)) xs acc) g) Q E"
  by (subst go_fold_lift, rule spec_bind_lift) (use assms in auto)

context directory_store
begin

lemma check_members_reads:
  assumes "srv_store server = S"
  shows "go_spec (reading wf dir d) (go_each (check_member server) ms)
    (\<lambda>_ st. reading wf dir d st \<and> set ms \<subseteq> dom d) (kept wf dir d)"
proof -
  have "go_spec (reading wf dir d) (go_each (check_member server) ms)
    (\<lambda>_ st. reading wf dir d st \<and> set ms \<subseteq> dom d) (reading wf dir d)"
  proof (induction ms)
    case Nil
    show ?case unfolding go_each.simps by (rule spec_ret) simp
  next
    case (Cons m ms)
    have "go_spec (reading wf dir d) (check_member server m) (\<lambda>_ st. reading wf dir d st \<and> m \<in> dom d) (reading wf dir d)"
      unfolding check_member_def
      by (rule spec_exists [OF assms]) (auto simp: go_spec_def require_def)
    then have "go_spec (reading wf dir d) (go_bind (check_member server m) (\<lambda>_. go_each (check_member server) ms))
        (\<lambda>_ st. reading wf dir d st \<and> set (m # ms) \<subseteq> dom d) (reading wf dir d)"
    proof (rule spec_bind)
      fix a
      show "go_spec (\<lambda>st. reading wf dir d st \<and> m \<in> dom d) (go_each (check_member server) ms)
        (\<lambda>_ st. reading wf dir d st \<and> set (m # ms) \<subseteq> dom d) (reading wf dir d)"
        using Cons unfolding go_spec_def by (auto split: outcome.splits)
    qed
    then show ?case by simp
  qed
  then show ?thesis by (rule spec_conseq) (auto intro: reading_kept)
qed

lemma Modify_tx:
  assumes S: "srv_store server = S" and dn: "good_DN (entry_DN e)"
  shows "go_spec (reading wf dir d)
    (in_tx server env
      (go_bind (coded c1 x1 (tx_Store (srv_store server) e)) (\<lambda>_.
       go_bind (go_each (\<lambda>m. coded c2 x2 (membershipAdd server AttrMemberOf m dn)) ams) (\<lambda>_.
       go_bind (go_each (\<lambda>m. coded c4 x4 (membershipRemove server AttrMemberOf m dn)) dms) (\<lambda>_.
       go_bind (coded c3 x3 (tx_Commit (srv_store server) ctx)) (\<lambda>_. ret state))))))
    (\<lambda>s st. s = state \<and> wf st \<and> changed membership (set ams \<union> set dms) (Put (entry_DN e) (entry_Attributes e)) d (dir st))
    (kept wf dir d)"
  by (rule spec_tx [OF S, where M = "set ams \<union> set dms"], rule spec_bind [OF spec_coded [OF store_tx [OF S]]], assumption,
      rule spec_bind [OF spec_each], rule spec_coded, rule membershipAdd_tx [OF S], simp add: membership_def, simp,
      rule spec_bind [OF spec_each], rule spec_coded, rule membershipRemove_tx [OF S], simp add: membership_def, simp)
     (rule finish_tx [OF S], simp add: dn)

lemma Modify_spec:
  assumes S: "srv_store server = S" and good: "\<And>dn as. d dn = Some as \<Longrightarrow> good_DN dn"
  shows "go_spec (reading wf dir d) (Bottin_Modify server env state r)
    (\<lambda>(s, err) st. (err = None \<longrightarrow> s = state \<and> wf st \<and> modified server env state r d (dir st)) \<and>
       (err \<noteq> None \<longrightarrow> s = state \<and> kept wf dir d st)) (kept wf dir d)"
  unfolding Bottin_Modify_def Let_def
proof (rule returning_spec, rule spec_joined_lift, rule spec_require, rule spec_getEntry [OF S])
  fix dn prev
  let ?prev = "\<lparr>entry_DN = dn, entry_Attributes = prev\<rparr>"
  let ?init = "\<lparr>ma_attrs = [], ma_addMembers = [], ma_delMembers = []\<rparr>"
  assume dn: "parseDN server (mod_object r) False = Ok dn" and acl: "ACL_Check (srv_acl server) (State_User state) ''modify'' dn []"
    and prev: "d dn = Some prev"
  have ne: "entry_DN ?prev \<noteq> []" using parseDN_nonempty [OF dn] by simp
  show "go_spec (reading wf dir d)
     (go_bind (if entry_DN ?prev = [] then panic ''index out of range'' else ret ()) (\<lambda>_.
      go_bind (go_fold (\<lambda>change acc. lift (modify_change server state dn ?prev change acc)) (mod_changes r) ?init) (\<lambda>acc.
      go_bind (go_each (check_member server) (ma_addMembers acc)) (\<lambda>_.
      go_bind (require (\<not> list_ex (\<lambda>(k, v). AttributeKey_EqualFold k AttrObjectClass \<and> length v = 0) (ma_attrs acc))
                 (Wrapped ''cannot remove all objectclass values'' ErrInsufficientAccessRights)) (\<lambda>_.
      in_tx server env
        (go_bind (coded ErrOperationsError ''error while storing updated entry'' (tx_Store (srv_store server)
            (NewEntry (entry_DN ?prev) (attr_set AttrModifyTimestamp [env_now env]
                    (attr_set AttrModifiersName [usr_user (State_User state)] (ma_attrs acc)))))) (\<lambda>_.
         go_bind (go_each (\<lambda>addMem. coded ErrOperationsError ''error while adding memberOf''
                    (membershipAdd server AttrMemberOf addMem dn)) (ma_addMembers acc)) (\<lambda>_.
         go_bind (go_each (\<lambda>delMem. coded ErrOperationsError ''error while removing memberOf''
                    (membershipRemove server AttrMemberOf delMem dn)) (ma_delMembers acc)) (\<lambda>_.
         go_bind (coded ErrOperationsError ''could not commit transaction''
                    (tx_Commit (srv_store server) (env_ctx env))) (\<lambda>_.
         ret state))))))))))
     (\<lambda>s st. s = state \<and> wf st \<and> modified server env state r d (dir st)) (kept wf dir d)"
    unfolding if_not_P [OF ne]
  proof (rule spec_bind [where R = "\<lambda>_. reading wf dir d"], rule spec_ret, assumption,
      rule spec_bind_fold_lift, rule spec_bind [OF check_members_reads [OF S]], rule spec_require)
    fix acc
    assume acc: "fst (go_fold (\<lambda>change acc. lift (modify_change server state dn ?prev change acc)) (mod_changes r) ?init ()) = Ok acc"
    then have macc: "modify_acc server state dn ?prev r acc"
      unfolding modify_acc_def by (metis prod.collapse)
    have post: "modified server env state r d d'"
      if "changed membership (set (ma_addMembers acc) \<union> set (ma_delMembers acc))
          (Put dn (entry_Attributes (NewEntry dn (modified_attributes env state acc)))) d d'" "set (ma_addMembers acc) \<subseteq> dom d" for d'
      unfolding modified_def using that dn acl prev macc by blast
    show "go_spec (\<lambda>st. reading wf dir d st \<and> set (ma_addMembers acc) \<subseteq> dom d)
      (in_tx server env
        (go_bind (coded ErrOperationsError ''error while storing updated entry'' (tx_Store (srv_store server)
            (NewEntry (entry_DN ?prev) (attr_set AttrModifyTimestamp [env_now env]
                    (attr_set AttrModifiersName [usr_user (State_User state)] (ma_attrs acc)))))) (\<lambda>_.
         go_bind (go_each (\<lambda>addMem. coded ErrOperationsError ''error while adding memberOf''
                    (membershipAdd server AttrMemberOf addMem dn)) (ma_addMembers acc)) (\<lambda>_.
         go_bind (go_each (\<lambda>delMem. coded ErrOperationsError ''error while removing memberOf''
                    (membershipRemove server AttrMemberOf delMem dn)) (ma_delMembers acc)) (\<lambda>_.
         go_bind (coded ErrOperationsError ''could not commit transaction''
                    (tx_Commit (srv_store server) (env_ctx env))) (\<lambda>_.
         ret state))))))
      (\<lambda>s st. s = state \<and> wf st \<and> modified server env state r d (dir st)) (kept wf dir d)"
    proof (cases "set (ma_addMembers acc) \<subseteq> dom d")
      case True
      show ?thesis
        by (rule spec_conseq [OF Modify_tx [OF S]])
           (use post True good [OF prev] in \<open>auto simp: modified_attributes_def\<close>)
    next
      case False
      then show ?thesis by (simp add: go_spec_def)
    qed
  qed (auto intro: reading_kept)
qed (auto intro: reading_kept)

end

section \<open>Password change\<close>

text \<open>The account a password change is for, and what a successful one does.\<close>

definition password_target :: "State \<Rightarrow> PasswordModifyRequest \<Rightarrow> string" where
  "password_target state pmr = (case pmr_userIdentity pmr of None \<Rightarrow> usr_user (State_User state) | Some u \<Rightarrow> u)"

definition password_changed :: "('st, 'tx) Server \<Rightarrow> Env \<Rightarrow> State \<Rightarrow> ExtendedRequest \<Rightarrow> directory \<Rightarrow> directory \<Rightarrow> bool" where
  "password_changed server env state r d d' \<longleftrightarrow>
     (\<exists>pmr pw dn as hash.
        ext_requestName r = NoticeOfPasswordModify \<and>
        ExtendedRequest_PasswordModifyRequest r = Ok pmr \<and> pmr_newPassword pmr = Some pw \<and>
        usr_user (State_User state) \<noteq> AnonymousUser \<and>
        parseDN server (password_target state pmr) False = Ok dn \<and>
        ACL_Check (srv_acl server) (State_User state) ''modify'' dn [AttrUserPassword] \<and>
        dn \<noteq> srv_baseDN server \<and> d dn = Some as \<and> env_ssha512_Generate env pw 16 = Ok hash \<and>
        d' = d(dn \<mapsto> entry_Attributes (NewEntry dn (attr_set AttrUserPassword [hash] as))))"

lemma changed_alone:
  assumes "changed K {} c d d'"
  shows "d' = apply_change c d"
proof (rule ext)
  fix e
  have "(d'(change_DN c := None)) e = (d(change_DN c := None)) e" "d' (change_DN c) = change_value c"
    using assms by (auto simp: changed_def agree_def)
  then show "d' e = apply_change c d e" by (cases c) (auto split: if_splits)
qed

lemma password_changed_tree:
  assumes "tree base d" "password_changed server env state r d d'"
  shows "tree base d'"
proof -
  obtain dn as v where "d dn = Some as" "d' = d(dn \<mapsto> v)"
    using assms(2) unfolding password_changed_def by blast
  then have "dom d' = dom d" by auto
  with assms(1) show ?thesis using tree_dom by blast
qed

context directory_store
begin

lemma Extended_tx:
  assumes S: "srv_store server = S" and dn: "good_DN (entry_DN e)"
  shows "go_spec (reading wf dir d)
    (in_tx server env
      (go_bind (coded c1 x1 (tx_Store (srv_store server) e)) (\<lambda>_.
       go_bind (coded c3 x3 (tx_Commit (srv_store server) ctx)) (\<lambda>_. ret state))))
    (\<lambda>s st. s = state \<and> wf st \<and> dir st = d(entry_DN e \<mapsto> entry_Attributes e))
    (kept wf dir d)"
proof -
  have "go_spec (reading wf dir d)
    (in_tx server env
      (go_bind (coded c1 x1 (tx_Store (srv_store server) e)) (\<lambda>_.
       go_bind (coded c3 x3 (tx_Commit (srv_store server) ctx)) (\<lambda>_. ret state))))
    (\<lambda>s st. s = state \<and> wf st \<and> changed membership {} (Put (entry_DN e) (entry_Attributes e)) d (dir st))
    (kept wf dir d)"
    by (rule spec_tx [OF S, where M = "{}"], rule spec_bind [OF spec_coded [OF store_tx [OF S]]], assumption)
       (rule finish_tx [OF S], simp add: dn)
  then show ?thesis by (rule spec_conseq) (auto dest: changed_alone)
qed

lemma Extended_spec:
  assumes S: "srv_store server = S" and good: "\<And>dn as. d dn = Some as \<Longrightarrow> good_DN dn"
  shows "go_spec (reading wf dir d) (Bottin_Extended server env state r)
    (\<lambda>(s, err) st. (err = None \<longrightarrow> s = state \<and> wf st \<and> password_changed server env state r d (dir st)) \<and>
       (err \<noteq> None \<longrightarrow> s = state \<and> kept wf dir d st)) (kept wf dir d)"
  unfolding Bottin_Extended_def Let_def
proof (rule returning_spec, rule spec_require, rule spec_coded_lift)
  fix pmr
  assume name: "ext_requestName r = NoticeOfPasswordModify" and pmr: "ExtendedRequest_PasswordModifyRequest r = Ok pmr"
  show "go_spec (reading wf dir d)
    (case pmr_newPassword pmr of
        None \<Rightarrow> throw (Joined ErrAuthMethodNotSupported ErrMissingNewPassword)
      | Some passwd \<Rightarrow>
          go_bind (require (usr_user (State_User state) \<noteq> AnonymousUser)
                     (Joined ErrInsufficientAccessRights ErrNotAuthenticated)) (\<lambda>_.
          go_bind (go_join ErrInvalidDNSyntax (lift (parseDN server
            (case pmr_userIdentity pmr of None \<Rightarrow> usr_user (State_User state) | Some u \<Rightarrow> u) False))) (\<lambda>dn.
          go_bind (require (ACL_Check (srv_acl server) (State_User state) ''modify'' dn [AttrUserPassword])
                     (denied ''could not modify password'')) (\<lambda>_.
          go_bind (require (\<not> DN_Equal dn (srv_baseDN server)) (Joined ErrInvalidDNSyntax ErrSetRootPasswd)) (\<lambda>_.
          go_bind (getEntry server dn) (\<lambda>entry.
          go_bind (coded ErrOperationsError ''error while hashing passwd'' (lift (ssha512Encode env passwd))) (\<lambda>hash.
          in_tx server env
            (go_bind (coded ErrOperationsError ''error while updating password''
                        (tx_Store (srv_store server) (NewEntry dn (attr_set AttrUserPassword [hash] (entry_Attributes entry))))) (\<lambda>_.
             go_bind (coded ErrOperationsError ''could not commit transaction''
                        (tx_Commit (srv_store server) (env_ctx env))) (\<lambda>_.
             ret state)))))))))) (\<lambda>s st. s = state \<and> wf st \<and> password_changed server env state r d (dir st)) (kept wf dir d)"
  proof (cases "pmr_newPassword pmr")
    case None
    then show ?thesis by (auto intro: spec_throw reading_kept)
  next
    case (Some pw)
    show ?thesis
      unfolding Some option.case
    proof (rule spec_require, rule spec_joined_lift, rule spec_require, rule spec_require, rule spec_getEntry [OF S],
        rule spec_coded_lift)
      fix dn as hash
      assume a: "usr_user (State_User state) \<noteq> AnonymousUser"
        "parseDN server (case pmr_userIdentity pmr of None \<Rightarrow> usr_user (State_User state) | Some u \<Rightarrow> u) False = Ok dn"
        "ACL_Check (srv_acl server) (State_User state) ''modify'' dn [AttrUserPassword]"
        "\<not> DN_Equal dn (srv_baseDN server)" "d dn = Some as" "ssha512Encode env pw = Ok hash"
      let ?e = "NewEntry dn (attr_set AttrUserPassword [hash] as)"
      have post: "password_changed server env state r d (d(dn \<mapsto> entry_Attributes ?e))"
        unfolding password_changed_def password_target_def
        using a name pmr Some by (auto simp: ssha512Encode_def DN_Equal_def)
      show "go_spec (reading wf dir d)
          (in_tx server env
            (go_bind (coded ErrOperationsError ''error while updating password''
                        (tx_Store (srv_store server)
                          (NewEntry dn (attr_set AttrUserPassword [hash] (entry_Attributes \<lparr>entry_DN = dn, entry_Attributes = as\<rparr>))))) (\<lambda>_.
             go_bind (coded ErrOperationsError ''could not commit transaction''
                        (tx_Commit (srv_store server) (env_ctx env))) (\<lambda>_.
             ret state))))
          (\<lambda>s st. s = state \<and> wf st \<and> password_changed server env state r d (dir st)) (kept wf dir d)"
        by (rule spec_conseq [OF Extended_tx [OF S]]) (use good [OF a(5)] post in auto)
    qed (auto intro: reading_kept)
  qed
qed (auto intro: reading_kept)

end

section \<open>Requests that only read\<close>

text \<open>What a successful Bind established.\<close>

definition authenticated :: "('st, 'tx) Server \<Rightarrow> State \<Rightarrow> BindRequest \<Rightarrow> directory \<Rightarrow> State \<Rightarrow> bool" where
  "authenticated server state r d state' \<longleftrightarrow>
     (\<exists>dn as pw hash. parseDN server (bind_name r) False = Ok dn \<and>
        ACL_Check (srv_acl server) (State_User state) ''bind'' dn [] \<and>
        d dn = Some as \<and> bind_authentication r = AuthSimple pw \<and>
        hash \<in> set (if dn = srv_baseDN server then [srv_rootPasswd server] else Attributes_Get as AttrUserPassword) \<and>
        matchPassword (srv_crypto server) hash pw = Ok True \<and>
        state' = state\<lparr>state_user := Some \<lparr>usr_user = bind_name r, usr_groups = Attributes_Get as AttrMemberOf\<rparr>\<rparr>)"

lemma bind_loop_Ok: "bind_loop crypto pw hashes errs = Ok () \<Longrightarrow> \<exists>h \<in> set hashes. matchPassword crypto h pw = Ok True"
proof (induction hashes arbitrary: errs)
  case (Cons h hashes)
  then show ?case by (cases "matchPassword crypto h pw") (auto split: if_splits)
qed simp

text \<open>A matching hash is found wherever it stands, unless checking one before it panics.\<close>

lemma bind_loop_finds:
  assumes "h \<in> set hashes" "matchPassword crypto h pw = Ok True"
    "\<And>h'. h' \<in> set hashes \<Longrightarrow> (\<exists>b. matchPassword crypto h' pw = Ok b) \<or> (\<exists>e. matchPassword crypto h' pw = Err e)"
  shows "bind_loop crypto pw hashes errs = Ok ()"
  using assms
proof (induction hashes arbitrary: errs)
  case (Cons h' hashes)
  then show ?case using Cons.prems(3) [of h'] by (cases "matchPassword crypto h' pw") auto
qed simp

context directory_store
begin

lemma Bind_spec:
  assumes S: "srv_store server = S"
  shows "go_spec (reading wf dir d) (Bottin_Bind server state r)
    (\<lambda>(s, err) st. (err = None \<longrightarrow> reading wf dir d st \<and> authenticated server state r d s) \<and>
       (err \<noteq> None \<longrightarrow> s = state \<and> reading wf dir d st)) (reading wf dir d)"
  unfolding Bottin_Bind_def Let_def
proof (rule returning_spec, rule spec_joined_lift, rule spec_require, rule spec_getEntry [OF S],
    rule spec_bind_lift, rule spec_bind_lift, rule spec_ret)
  fix dn as pw st and u :: unit
  assume "parseDN server (bind_name r) False = Ok dn" "ACL_Check (srv_acl server) (State_User state) ''bind'' dn []"
    "d dn = Some as" "BindRequest_AuthenticationSimple r = Ok pw"
    and loop: "bind_loop (srv_crypto server) pw
      (if DN_Equal dn (srv_baseDN server) then [srv_rootPasswd server]
       else Entry_Get \<lparr>entry_DN = dn, entry_Attributes = as\<rparr> AttrUserPassword) [] = Ok u"
    and st: "reading wf dir d st"
  moreover have "bind_authentication r = AuthSimple pw"
    using calculation(4) by (auto simp: BindRequest_AuthenticationSimple_def split: AuthenticationChoice.splits)
  moreover obtain hash where
    "hash \<in> set (if dn = srv_baseDN server then [srv_rootPasswd server] else Attributes_Get as AttrUserPassword)"
    "matchPassword (srv_crypto server) hash pw = Ok True"
    using bind_loop_Ok [OF loop [unfolded unit_eq [of u]]] by (auto simp: DN_Equal_def Entry_Get_def split: if_splits)
  ultimately show "reading wf dir d st \<and> authenticated server state r d
      (state\<lparr>state_user := Some \<lparr>usr_user = bind_name r,
         usr_groups = Entry_Get \<lparr>entry_DN = dn, entry_Attributes = as\<rparr> AttrMemberOf\<rparr>\<rparr>)"
    unfolding authenticated_def by (auto simp: Entry_Get_def)
qed

lemma Compare_spec:
  assumes S: "srv_store server = S"
  shows "go_spec (reading wf dir d) (Bottin_Compare server state r) (\<lambda>_. reading wf dir d) (reading wf dir d)"
  unfolding Bottin_Compare_def Let_def go_map_def
proof (rule spec_bind)
  show "go_spec (reading wf dir d) (returning False
      (go_bind (go_join ErrInvalidDNSyntax (lift (parseDN server (cmp_entry r) False))) (\<lambda>dn.
       go_bind (require (ACL_Check (srv_acl server) (State_User state) ''read'' dn [NewAttributeKey (ava_attributeDesc (cmp_ava r))])
          (denied ''could not read'')) (\<lambda>_.
       go_bind (getEntry server dn) (\<lambda>entry.
       ret (list_ex (\<lambda>v. valueMatch (NewAttributeKey (ava_attributeDesc (cmp_ava r))) v (ava_assertionValue (cmp_ava r)))
          (Entry_Get entry (NewAttributeKey (ava_attributeDesc (cmp_ava r)))))))))
      ) (\<lambda>_. reading wf dir d) (reading wf dir d)"
    by (rule spec_conseq [OF returning_spec [where Q = "\<lambda>_. reading wf dir d"]],
        rule spec_joined_lift, rule spec_require, rule spec_getEntry [OF S], rule spec_ret) auto
qed (auto intro: spec_ret)

lemma spec_list:
  assumes "srv_store server = S" "dn \<noteq> []"
    and "\<And>es. go_spec (reading wf dir d) (f es) Q E" "\<And>s. reading wf dir d s \<Longrightarrow> E s"
  shows "go_spec (reading wf dir d) (go_bind (coded c x (s_List (srv_store server) (DN_Prefix dn) exact)) f) Q E"
proof (cases exact)
  case True
  show ?thesis
  proof (rule spec_bind_reads)
    let ?r = "Ok (case d dn of None \<Rightarrow> [] | Some as \<Rightarrow> [\<lparr>entry_DN = dn, entry_Attributes = as\<rparr>])"
    show "coded c x (s_List (srv_store server) (DN_Prefix dn) exact) st = (?r, st)" if "reading wf dir d st" for st
      using that List_exact [of st dn] by (simp add: reading_def coded_def assms(1) True)
  qed (use assms in auto)
next
  case False
  then have "exact = False" by simp
  show ?thesis unfolding \<open>exact = False\<close> by (rule spec_list_range [OF assms(1,2)]) (use assms in auto)
qed

lemma Search_spec:
  assumes S: "srv_store server = S" and base: "srv_baseDN server \<noteq> []"
  shows "go_spec (reading wf dir d) (Bottin_Search server state r) (\<lambda>_. reading wf dir d) (reading wf dir d)"
proof -
  have ne: "dn \<noteq> []" if "parseDN server raw True = Ok dn" for raw dn
    using that base ParseDN_canonical [of raw] parseDN_nonempty [of server raw dn]
    by (auto simp: parseDN_def outcome_bind_def Let_def split: outcome.splits if_splits)
  show ?thesis
    unfolding Bottin_Search_def Let_def go_map_def
    by (rule spec_bind [where R = "\<lambda>_. reading wf dir d"],
        rule spec_conseq [OF returning_spec [where Q = "\<lambda>_. reading wf dir d"]],
        rule spec_joined_lift, rule spec_require, rule spec_list [OF S], erule ne, rule spec_lift)
       (auto intro: spec_ret)
qed

end

section \<open>Any sequence of requests keeps the tree\<close>

text \<open>Requests that do not name a new entry with a slash in it.\<close>

definition plain_request :: "ProtocolOp \<Rightarrow> bool" where
  "plain_request op = (case op of OpAddRequest r \<Rightarrow> prefixSeparator \<notin> set (add_entry r) | _ \<Rightarrow> True)"

definition dir_inv :: "('st \<Rightarrow> bool) \<Rightarrow> ('st \<Rightarrow> directory) \<Rightarrow> DN \<Rightarrow> 'st \<Rightarrow> bool" where
  "dir_inv ok cont base st \<longleftrightarrow> ok st \<and> tree base (cont st)"

lemma kept_inv: "kept ok cont d st \<Longrightarrow> tree base d \<Longrightarrow> dir_inv ok cont base st"
  using tree_dom [of "cont st" d base] by (simp add: kept_def dir_inv_def agree_def)

lemma with_env_spec:
  fixes I :: "'st \<Rightarrow> bool"
  assumes "\<And>env. go_spec I (f env) (\<lambda>_. I) I"
  shows "go_spec (\<lambda>w. I (snd w)) (with_env envs f) (\<lambda>_ w. I (snd w)) (\<lambda>w. I (snd w))"
proof (rule go_specI)
  fix w :: "nat \<times> 'st" assume "I (snd w)"
  then have "I (snd (f (envs (fst w)) (snd w)))" by (rule go_spec_final [OF assms])
  then show "case fst (with_env envs f w) of Ok a \<Rightarrow> I (snd (snd (with_env envs f w))) | _ \<Rightarrow> I (snd (snd (with_env envs f w)))"
    by (cases w; cases "f (envs (fst w)) (snd w)") (simp add: with_env_def split: outcome.splits)
qed

text \<open>From a specification for each directory to one for the invariant.\<close>

lemma spec_each_directory:
  assumes "\<And>d. tree base d \<Longrightarrow> (\<And>dn as. d dn = Some as \<Longrightarrow> good dn) \<Longrightarrow>
      go_spec (reading ok cont d) m (\<lambda>_. dir_inv ok cont base) (dir_inv ok cont base)"
    and "\<And>st dn as. ok st \<Longrightarrow> cont st dn = Some as \<Longrightarrow> good dn"
  shows "go_spec (dir_inv ok cont base) m (\<lambda>_. dir_inv ok cont base) (dir_inv ok cont base)"
proof (rule go_specI)
  fix st assume st: "dir_inv ok cont base st"
  then have "reading ok cont (cont st) st" by (simp add: dir_inv_def reading_def)
  moreover have "tree base (cont st)" "\<And>dn as. cont st dn = Some as \<Longrightarrow> good dn"
    using st assms(2) by (auto simp: dir_inv_def)
  ultimately show "case fst (m st) of Ok a \<Rightarrow> dir_inv ok cont base (snd (m st)) | _ \<Rightarrow> dir_inv ok cont base (snd (m st))"
    by (intro go_specE [OF assms(1)])
qed

context directory_store
begin

lemma write_inv:
  assumes "\<And>d. (\<And>dn as. d dn = Some as \<Longrightarrow> good_DN dn) \<Longrightarrow> go_spec (reading wf dir d) m
      (\<lambda>(s, err) st. (err = None \<longrightarrow> s = state \<and> wf st \<and> Q d (dir st)) \<and> (err \<noteq> None \<longrightarrow> s = state \<and> kept wf dir d st)) (kept wf dir d)"
    and "\<And>d d'. tree base d \<Longrightarrow> Q d d' \<Longrightarrow> tree base d'"
  shows "go_spec (dir_inv wf dir base) m (\<lambda>_. dir_inv wf dir base) (dir_inv wf dir base)"
proof (rule spec_each_directory [where good = good_DN])
  fix d assume d: "tree base d" "\<And>dn as. d dn = Some as \<Longrightarrow> good_DN dn"
  have kept: "dir_inv wf dir base st" if "kept wf dir d st" for st using that d(1) by (rule kept_inv)
  have fine: "dir_inv wf dir base st" if "wf st" "Q d (dir st)" for st
    using that assms(2) [OF d(1)] by (simp add: dir_inv_def)
  show "go_spec (reading wf dir d) m (\<lambda>_. dir_inv wf dir base) (dir_inv wf dir base)"
  proof (rule spec_conseq [OF assms(1) [OF d(2)]])
    fix a st
    assume "(case a of (s, err) \<Rightarrow> \<lambda>st. (err = None \<longrightarrow> s = state \<and> wf st \<and> Q d (dir st)) \<and>
        (err \<noteq> None \<longrightarrow> s = state \<and> kept wf dir d st)) st"
    then show "dir_inv wf dir base st" by (cases a; cases "snd a") (auto intro: kept fine)
  qed (auto intro: kept)
qed (rule wf_good)

lemma read_inv:
  assumes "\<And>d. go_spec (reading wf dir d) m (\<lambda>_. reading wf dir d) (reading wf dir d)"
  shows "go_spec (dir_inv wf dir base) m (\<lambda>_. dir_inv wf dir base) (dir_inv wf dir base)"
  by (rule spec_each_directory [where good = "\<lambda>_. True"], rule spec_conseq [OF assms])
     (auto simp: dir_inv_def reading_def)

lemma dispatch_inv:
  assumes S: "srv_store server = S" and base: "srv_baseDN server \<noteq> []" and op: "plain_request op"
  shows "go_spec (\<lambda>w. dir_inv wf dir (srv_baseDN server) (snd w)) (dispatch (Bottin_Handler server envs) zero state op)
    (\<lambda>_ w. dir_inv wf dir (srv_baseDN server) (snd w)) (\<lambda>w. dir_inv wf dir (srv_baseDN server) (snd w))"
proof -
  let ?I = "dir_inv wf dir (srv_baseDN server)"
  have run: "go_spec (\<lambda>w. ?I (snd w)) (go_map g (with_env envs f)) (\<lambda>_ w. ?I (snd w)) (\<lambda>w. ?I (snd w))"
    if "\<And>env. go_spec ?I (f env) (\<lambda>_. ?I) ?I" for f :: "Env \<Rightarrow> ('st, 'c) go" and g :: "'c \<Rightarrow> 'd"
    unfolding go_map_def by (rule spec_bind [OF with_env_spec [OF that]]) (rule spec_ret)
  have bind: "go_spec ?I (Bottin_Bind server state r) (\<lambda>_. ?I) ?I" for r
    by (rule read_inv, rule spec_conseq [OF Bind_spec [OF S]]) auto
  have add: "go_spec ?I (Bottin_Add server env state r) (\<lambda>_. ?I) ?I" if "prefixSeparator \<notin> set (add_entry r)" for env r
    by (rule write_inv [OF Add_spec [OF S]])
       (use that parseDN_suffix(2) ParseDN_plain added_tree in blast)+
  have del: "go_spec ?I (Bottin_Del server env state r) (\<lambda>_. ?I) ?I" for env r
    by (rule write_inv [OF Del_spec [OF S]]) (use deleted_tree in blast)+
  have modify: "go_spec ?I (Bottin_Modify server env state r) (\<lambda>_. ?I) ?I" for env r
    by (rule write_inv [OF Modify_spec [OF S]]) (use modified_tree in blast)+
  have extended: "go_spec ?I (Bottin_Extended server env state r) (\<lambda>_. ?I) ?I" for env r
    by (rule write_inv [OF Extended_spec [OF S]]) (use password_changed_tree in blast)+
  note ops = run [OF bind] run [OF read_inv [OF Search_spec [OF S base]]] run [OF read_inv [OF Compare_spec [OF S]]]
    run [OF del] run [OF modify] run [OF extended]
  show ?thesis
  proof (cases op)
    case (OpAddRequest r)
    with op have "prefixSeparator \<notin> set (add_entry r)" by (simp add: plain_request_def)
    from run [OF add [OF this]] OpAddRequest show ?thesis by (simp add: dispatch_def Bottin_Handler_def)
  qed (use ops in \<open>auto simp: dispatch_def Bottin_Handler_def intro: spec_ret\<close>)
qed

end

end
