(* ===== verification/Bottin_Query.thy ===== *)
theory Bottin_Query
  imports Bottin_Requests
begin

text \<open>
  What Search, Compare and the filters compute, and who may see what.
\<close>

section \<open>Filters\<close>

text \<open>The filters the service evaluates.\<close>

fun supported :: "Filter \<Rightarrow> bool" where
  "supported (FilterAnd fs) = list_all supported fs"
| "supported (FilterOr fs) = list_all supported fs"
| "supported (FilterNot f) = supported f"
| "supported (FilterPresent a) = True"
| "supported (FilterEqualityMatch ava) = True"
| "supported _ = False"

text \<open>Their meaning, as a predicate on the attributes of an entry.\<close>

fun satisfies :: "Attributes \<Rightarrow> Filter \<Rightarrow> bool" where
  "satisfies as (FilterAnd fs) = list_all (satisfies as) fs"
| "satisfies as (FilterOr fs) = list_ex (satisfies as) fs"
| "satisfies as (FilterNot f) = (\<not> satisfies as f)"
| "satisfies as (FilterPresent a) = (\<exists>k v. (k, v) \<in> set as \<and> strings_EqualFold a k \<and> v \<noteq> [])"
| "satisfies as (FilterEqualityMatch ava) =
     (\<exists>k v w. (k, v) \<in> set as \<and> strings_EqualFold (ava_attributeDesc ava) k \<and> w \<in> set v \<and>
        valueMatch k w (ava_assertionValue ava))"
| "satisfies as _ = False"

text \<open>Attribute maps whose keys are in lower case: at most one key folds to a given name.\<close>

definition lower_keys :: "Attributes \<Rightarrow> bool" where
  "lower_keys as \<longleftrightarrow> distinct (map fst as) \<and> list_all (\<lambda>(k, v). strings_ToLower k = k) as"

lemma EqualFold_sym: "strings_EqualFold a b \<longleftrightarrow> strings_EqualFold b a"
  by (auto simp: strings_EqualFold_def)

lemma lower_keys_unique:
  assumes "lower_keys as" "(k, v) \<in> set as" "(k', v') \<in> set as" "strings_EqualFold a k" "strings_EqualFold a k'"
  shows "k = k' \<and> v = v'"
proof -
  have "strings_ToLower k = k" "strings_ToLower k' = k'"
    using assms(1-3) by (auto simp: lower_keys_def list_all_iff)
  then have "k = k'" using assms(4,5) by (simp add: strings_EqualFold_def)
  with assms(1-3) show ?thesis by (auto simp: lower_keys_def dest: eq_key_imp_eq_value)
qed

lemma find_key:
  assumes "lower_keys as"
  shows "List.find (\<lambda>(k, v). strings_EqualFold a k) as = Some (k, v) \<longleftrightarrow> (k, v) \<in> set as \<and> strings_EqualFold a k"
proof
  assume "List.find (\<lambda>(k, v). strings_EqualFold a k) as = Some (k, v)"
  then show "(k, v) \<in> set as \<and> strings_EqualFold a k" using find_SomeD by fastforce
next
  assume kv: "(k, v) \<in> set as \<and> strings_EqualFold a k"
  then obtain p where p: "List.find (\<lambda>(k, v). strings_EqualFold a k) as = Some p"
    by (cases "List.find (\<lambda>(k, v). strings_EqualFold a k) as") (auto simp: find_None_iff)
  then have "p \<in> set as" "strings_EqualFold a (fst p)" using find_SomeD [OF p] by (auto simp: split_beta)
  then have "fst p = k \<and> snd p = v" using lower_keys_unique [OF assms, of "fst p" "snd p" k v a] kv by simp
  with p show "List.find (\<lambda>(k, v). strings_EqualFold a k) as = Some (k, v)" by (cases p) simp
qed

lemma applyPresent_iff:
  assumes "lower_keys as"
  shows "applyPresent as a \<longleftrightarrow> (\<exists>k v. (k, v) \<in> set as \<and> strings_EqualFold a k \<and> v \<noteq> [])"
proof (cases "List.find (\<lambda>(k, v). strings_EqualFold a k) as")
  case None
  moreover have "\<not> (\<exists>k v. (k, v) \<in> set as \<and> strings_EqualFold a k)" using None by (auto simp: find_None_iff)
  ultimately show ?thesis by (auto simp: applyPresent_def)
next
  case (Some p)
  obtain k v where p: "p = (k, v)" by (cases p)
  with Some have kv: "(k, v) \<in> set as" "strings_EqualFold a k" using find_key [OF assms] by auto
  have "(\<exists>k v. (k, v) \<in> set as \<and> strings_EqualFold a k \<and> v \<noteq> []) \<longleftrightarrow> v \<noteq> []"
    using kv lower_keys_unique [OF assms kv(1) _ kv(2)] by blast
  with Some p show ?thesis by (simp add: applyPresent_def)
qed

lemma applyEquality_iff:
  assumes "lower_keys as"
  shows "applyEquality as a target \<longleftrightarrow>
    (\<exists>k v w. (k, v) \<in> set as \<and> strings_EqualFold a k \<and> w \<in> set v \<and> valueMatch k w target)"
proof -
  have sym: "(\<lambda>(k, v :: string list). strings_EqualFold k a) = (\<lambda>(k, v). strings_EqualFold a k)"
    by (auto simp: EqualFold_sym)
  show ?thesis
  proof (cases "List.find (\<lambda>(k, v). strings_EqualFold a k) as")
    case None
    moreover have "\<not> (\<exists>k v. (k, v) \<in> set as \<and> strings_EqualFold a k)" using None by (auto simp: find_None_iff)
    ultimately show ?thesis by (auto simp: applyEquality_def sym)
  next
    case (Some p)
    obtain k v where p: "p = (k, v)" by (cases p)
    with Some have kv: "(k, v) \<in> set as" "strings_EqualFold a k" using find_key [OF assms] by auto
    have "(\<exists>k v w. (k, v) \<in> set as \<and> strings_EqualFold a k \<and> w \<in> set v \<and> valueMatch k w target) \<longleftrightarrow>
        (\<exists>w \<in> set v. valueMatch k w target)"
      using kv lower_keys_unique [OF assms kv(1) _ kv(2)] by blast
    with Some p show ?thesis by (simp add: applyEquality_def sym list_ex_iff)
  qed
qed

text \<open>Short-circuit evaluation with errors agrees with the meaning on supported filters.\<close>

lemma applyFilter_satisfies:
  assumes "lower_keys (entry_Attributes e)"
  shows "supported f \<Longrightarrow> applyFilter e f = Ok (satisfies (entry_Attributes e) f)"
    "list_all supported fs \<Longrightarrow> applyAnd e fs = Ok (list_all (satisfies (entry_Attributes e)) fs)"
    "list_all supported fs \<Longrightarrow> applyOr e fs = Ok (list_ex (satisfies (entry_Attributes e)) fs)"
  using assms
  by (induction e f and e fs and e fs rule: applyFilter_applyAnd_applyOr.induct)
     (auto simp: applyPresent_iff applyEquality_iff)

section \<open>Search\<close>

definition in_scope :: "SearchRequest \<Rightarrow> DN \<Rightarrow> DN \<Rightarrow> bool" where
  "in_scope r base dn \<longleftrightarrow>
     (if sr_scope r = SearchRequestScopeBaseObject then dn \<noteq> base
      else if sr_scope r = SearchRequestSingleLevel then length dn = length base + 1
      else True)"

text \<open>The entries a search shows: in scope, matching, and readable.\<close>

definition visible :: "('st, 'tx) Server \<Rightarrow> User \<Rightarrow> SearchRequest \<Rightarrow> DN \<Rightarrow> Entry \<Rightarrow> bool" where
  "visible server user r base e \<longleftrightarrow>
     in_scope r base (entry_DN e) \<and> applyFilter e (sr_filter r) = Ok True \<and>
     ACL_Check (srv_acl server) user ''read'' (entry_DN e) []"

definition shown :: "('st, 'tx) Server \<Rightarrow> User \<Rightarrow> SearchRequest \<Rightarrow> Entry \<Rightarrow> SearchResultEntry" where
  "shown server user r e =
     \<lparr>sre_objectName = DN_String (entry_DN e),
      sre_attributes = map (\<lambda>(k, v). \<lparr>pa_type = k, pa_vals = v\<rparr>)
        (filter (\<lambda>(k, v). selected (sr_attributes r) k \<and> ACL_Check (srv_acl server) user ''read'' (entry_DN e) [k])
          (entry_Attributes e))\<rparr>"

lemma result_attributes_eq:
  "result_attributes server user r dn as e =
   e\<lparr>sre_attributes := sre_attributes e @ map (\<lambda>(k, v). \<lparr>pa_type = k, pa_vals = v\<rparr>)
     (filter (\<lambda>(k, v). selected (sr_attributes r) k \<and> ACL_Check (srv_acl server) user ''read'' dn [k]) as)\<rparr>"
  by (induction server user r dn as e rule: result_attributes.induct)
     (simp_all add: SearchResultEntry_AddAttribute_def PartialAttributeList_add_def)

lemma result_shown:
  "result_attributes server user r (entry_DN e) (entry_Attributes e) (NewSearchResultEntry (DN_String (entry_DN e))) =
   shown server user r e"
  by (simp add: result_attributes_eq shown_def NewSearchResultEntry_def SearchResultEntry_SetObjectName_def)

lemma search_loop_Ok:
  "search_loop server user r base es = Ok rs \<Longrightarrow> rs = map (shown server user r) (filter (visible server user r base) es)"
proof (induction es arbitrary: rs)
  case (Cons e es)
  show ?case
  proof (cases "in_scope r base (entry_DN e)")
    case False
    with Cons show ?thesis by (auto simp: in_scope_def visible_def DN_Equal_def DN_Level_def split: if_splits)
  next
    case True
    then have "search_loop server user r base (e # es) =
       (case applyFilter e (sr_filter r) of
          Err x \<Rightarrow> Err (Joined ErrUnwillingToPerform (Wrapped ''error while applying filter'' x))
        | Panic p \<Rightarrow> Panic p | Diverge \<Rightarrow> Diverge
        | Ok matched \<Rightarrow>
            if \<not> matched then search_loop server user r base es
            else if \<not> ACL_Check (srv_acl server) user ''read'' (entry_DN e) [] then search_loop server user r base es
            else outcome_bind (search_loop server user r base es) (\<lambda>results. Ok (shown server user r e # results)))"
      by (auto simp: in_scope_def DN_Equal_def DN_Level_def result_shown split: if_splits outcome.splits)
    with Cons True show ?thesis
      by (auto simp: visible_def outcome_bind_def split: outcome.splits if_splits)
  qed
qed simp

lemma search_loop_total:
  assumes "\<And>e. e \<in> set es \<Longrightarrow> \<exists>b. applyFilter e (sr_filter r) = Ok b"
  shows "\<exists>rs. search_loop server user r base es = Ok rs"
  using assms
proof (induction es)
  case (Cons e es)
  then obtain rs where "search_loop server user r base es = Ok rs" by auto
  moreover obtain b where "applyFilter e (sr_filter r) = Ok b" using Cons.prems by auto
  ultimately show ?case by auto
qed simp

end
