(* ===== verification/Bottin_Service.thy ===== *)
theory Bottin_Service
  imports Bottin_Query
begin

text \<open>
  The service as a whole: what \<^verbatim>\<open>NewBottin\<close> and \<^verbatim>\<open>Run\<close> establish, and the server that serves any
  number of packets on top of it. The locale \<open>bottin_server\<close> joins the store's contract with a
  configured server and provides the contract of \<open>world_invariant\<close>.
\<close>

section \<open>Start-up\<close>

lemma NewBottin_Ok:
  assumes "NewBottin config env crypto random newstore = Ok server"
  shows "ParseDN (cfg_BaseDN config) = Ok (srv_baseDN server)" "newstore = Ok (srv_store server)"
    "parseACL (cfg_ACL config) = Ok (srv_acl server)"
    "\<exists>pw. (cfg_Passwd config \<noteq> [] \<longrightarrow> pw = cfg_Passwd config) \<and> env_ssha512_Generate env pw 16 = Ok (srv_rootPasswd server)"
  using assms
  by (auto simp: NewBottin_def outcome_bind_def ssha512Encode_def split: outcome.splits if_splits)

text \<open>What a successful \<^verbatim>\<open>initialize\<close> does: the base entry is there, made if it was not.\<close>

definition initialized :: "('st, 'tx) Server \<Rightarrow> Env \<Rightarrow> directory \<Rightarrow> directory \<Rightarrow> bool" where
  "initialized server env d d' \<longleftrightarrow>
     (if d (srv_baseDN server) \<noteq> None then d' = d
      else \<exists>uuid. env_uuid env = Ok uuid \<and>
        d' = d(srv_baseDN server \<mapsto> entry_Attributes (NewEntry (srv_baseDN server) (base_attributes server env uuid))))"

context directory_store
begin

lemma initialize_tx:
  assumes S: "srv_store server = S" and base: "good_DN (entry_DN e)"
  shows "go_spec (\<lambda>s. tx_inv wf dir live log {} {} d [] s \<and> log (snd s) = [])
    (go_bind (go_wrap x (tx_Store (srv_store server) e)) (\<lambda>_. go_wrap y (tx_Commit (srv_store server) ctx)))
    (\<lambda>_ s. wf (fst s) \<and> dir (fst s) = d(entry_DN e \<mapsto> entry_Attributes e)) (st_inv wf dir {} {} d)"
  by (rule spec_bind [OF spec_wrap [OF store_tx [OF S]]], assumption,
      rule spec_wrap, rule spec_conseq [OF commit_tx [OF S]])
     (auto simp: base dest: changed_alone)

text \<open>A transaction begun without a result code.\<close>

lemma begin_spec:
  assumes "srv_store server = S"
    and "go_spec (\<lambda>s. tx_inv wf dir live log {} {} d [] s \<and> log (snd s) = []) body (\<lambda>a s. Q a (fst s)) (st_inv wf dir {} {} d)"
  shows "go_spec (reading wf dir d)
    (go_bind (go_wrap x (s_Begin (srv_store server) ctx)) (\<lambda>tx st. case body (st, tx) of (r, st', tx') \<Rightarrow> (r, st')))
    Q (reading wf dir d)"
proof (rule go_specI)
  fix st assume P: "reading wf dir d st"
  let ?m = "go_bind (go_wrap x (s_Begin (srv_store server) ctx)) (\<lambda>tx st. case body (st, tx) of (r, st', tx') \<Rightarrow> (r, st'))"
  obtain r st' where b: "s_Begin S ctx st = (r, st')" by (cases "s_Begin S ctx st")
  note begun = Begin [OF b]
  have same: "reading wf dir d (fst s)" if "st_inv wf dir {} {} d s" for s :: "'st \<times> 'tx"
    using that by (auto simp: st_inv_def reading_def agree_def)
  show "case fst (?m st) of Ok a \<Rightarrow> Q a (snd (?m st)) | _ \<Rightarrow> reading wf dir d (snd (?m st))"
  proof (cases r)
    case (Ok tx)
    with begun P have "tx_inv wf dir live log {} {} d [] (st, tx) \<and> log (snd (st, tx)) = []"
      by (auto simp: tx_inv_def reading_def)
    note body = go_specE [OF assms(2) this]
    have m: "?m st = (fst (body (st, tx)), fst (snd (body (st, tx))))"
      using Ok b begun by (simp add: assms(1) split_beta)
    show ?thesis unfolding m using body same by (cases "fst (body (st, tx))") simp_all
  qed (use b begun P in \<open>simp_all add: assms(1) go_bind_split go_wrap_split\<close>)
qed

lemma initialize_spec:
  assumes S: "srv_store server = S" and base: "good_DN (srv_baseDN server)"
  shows "go_spec (reading wf dir d) (initialize server env)
    (\<lambda>_ st. wf st \<and> initialized server env d (dir st)) (reading wf dir d)"
  unfolding initialize_def go_wrap_lift
proof (rule spec_bind_reads [where r = "Ok (d (srv_baseDN server) \<noteq> None)"], goal_cases)
  case (1 st)
  then show ?case using existsEntry_eq [OF S] by (simp add: reading_def)
next
  case (2 exists)
  show ?case
  proof (rule spec_if, rule spec_ret, goal_cases)
    case (1 st)
    with 2 show ?case by (simp add: reading_def initialized_def)
  next
    case 2
    with \<open>Ok _ = Ok exists\<close> have "d (srv_baseDN server) = None" by simp
    then show ?case
      by (intro spec_bind_lift begin_spec [OF S] spec_conseq [OF initialize_tx [OF S]])
         (auto simp: base initialized_def)
  qed
qed simp

end

section \<open>The server\<close>

text \<open>A configured server over a store that keeps the contract.\<close>

locale bottin_server = directory_store S wf dir live log
  for S :: "('st, 'tx) Store" and wf :: "'st \<Rightarrow> bool" and dir :: "'st \<Rightarrow> directory"
    and live :: "'tx \<Rightarrow> bool" and log :: "'tx \<Rightarrow> dir_change list" +
  fixes server :: "('st, 'tx) Server" and envs :: "nat \<Rightarrow> Env"
  assumes store: "srv_store server = S" and base: "srv_baseDN server \<noteq> []"

sublocale bottin_server \<subseteq> requests: world_invariant "Bottin_Handler server envs" zero_State plain_request
    "\<lambda>w. dir_inv wf dir (srv_baseDN server) (snd w)"
  by unfold_locales (rule dispatch_inv [OF store base])

context bottin_server
begin

lemma serve_tree:
  assumes "\<And>packet m. Ok packet \<in> set ps \<Longrightarrow> readMessage packet = Ok m \<Longrightarrow> plain_request (msg_protocolOp m)"
    and "dir_inv wf dir (srv_baseDN server) st"
  shows "dir_inv wf dir (srv_baseDN server)
    (snd (snd (snd (serve errtext (Bottin_Handler server envs) zero_State state ps (c, n, st)))))"
  using requests.serve_keeps [of ps "(c, n, st)" errtext state] assms by simp

end

lemma Mem_server:
  assumes "google_btree mementryLess bt" "srv_store server = Mem bt" "srv_baseDN server \<noteq> []"
  shows "bottin_server (Mem bt) (mem_plain bt) (mem_dir bt) mem_live mem_log server"
  by (intro bottin_server.intro bottin_server_axioms.intro Mem_directory assms)

text \<open>An empty tree is the empty directory.\<close>

lemma NewMem_reading:
  assumes "google_btree mementryLess bt"
  shows "reading (mem_plain bt) (mem_dir bt) Map.empty (NewMem bt)"
  using google_btree.New [OF assms]
  by (simp add: reading_def mem_plain_def mem_inv_def mem_dir_def NewMem_def)

text \<open>After start-up on an empty memory store the directory is the base entry alone.\<close>

lemma Run_NewMem:
  assumes "google_btree mementryLess bt" "NewBottin config env0 crypto random (Ok (Mem bt)) = Ok server"
    "prefixSeparator \<notin> set (cfg_BaseDN config)" "Bottin_Run server env (NewMem bt) = (Ok u, st)"
  shows "mem_plain bt st" "initialized server env Map.empty (mem_dir bt st)"
proof -
  note new = NewBottin_Ok [OF assms(2)]
  have "good_DN (srv_baseDN server)" by (rule ParseDN_plain [OF new(1) assms(3)])
  note init = directory_store.initialize_spec [OF Mem_directory [OF assms(1)] _ this]
  have "go_spec (reading (mem_plain bt) (mem_dir bt) Map.empty) (Bottin_Run server env)
    (\<lambda>_ st. mem_plain bt st \<and> initialized server env Map.empty (mem_dir bt st)) (reading (mem_plain bt) (mem_dir bt) Map.empty)"
    unfolding Bottin_Run_def by (rule spec_wrap [OF init]) (use new(2) in simp)
  from go_specD [OF this NewMem_reading [OF assms(1)] assms(4)]
  show "mem_plain bt st" "initialized server env Map.empty (mem_dir bt st)" by simp_all
qed

lemma initialized_tree:
  assumes "tree (srv_baseDN server) d" "initialized server env d d'"
  shows "tree (srv_baseDN server) d'" "srv_baseDN server \<in> dom d'"
  using assms by (auto simp: initialized_def tree_def split: if_splits)

text \<open>Every name a server's base comes from is not empty.\<close>

lemma NewBottin_base: "NewBottin config env crypto random newstore = Ok server \<Longrightarrow> srv_baseDN server \<noteq> []"
  using NewBottin_Ok(1) ParseDN_canonical by (fastforce simp: canonical_DN_def)

end
