(* ===== verification/Bottin_Live.thy ===== *)
theory Bottin_Live
  imports Bottin_Service
begin

text \<open>
  When requests end and when they succeed, over a store that satisfies \<open>reliable_store\<close>: no handler
  panics or hangs (given that the packages it calls do not), and a request that passes the checks
  of its handler is carried out.
\<close>

section \<open>Parsing ends\<close>

lemma ParseComponent_ends: "ends True (ParseComponent s)"
  by (auto simp: ParseComponent_def split: list.splits)

lemma parseComponents_ends: "ends True (parseComponents ss)"
  by (induction ss) (auto intro!: ends_outcome_bind ParseComponent_ends)

lemma ParseDN_ends: "ends True (ParseDN s)"
  by (simp add: ParseDN_def parseComponentSlice_def parseComponents_ends)

lemma parseDN_ends: "ends True (parseDN server raw allow)"
  unfolding parseDN_def by (rule ends_outcome_bind [OF ParseDN_ends]) (simp add: Let_def)

lemma remaining_ends: "ends True (remaining server grp gs)"
  by (induction gs) (auto intro!: ends_outcome_bind simp: parseDN_ends)

section \<open>Handlers end\<close>

lemma ends_require: "(b \<or> c) \<Longrightarrow> (c \<Longrightarrow> go_ends b P (f ())) \<Longrightarrow> go_ends b P (go_bind (require c e) f)"
  by (rule ends_bind_reads [OF require_reads]) (auto split: if_splits)

lemma ends_joined_lift:
  "ends b r \<Longrightarrow> (\<And>a. r = Ok a \<Longrightarrow> go_ends b P (f a)) \<Longrightarrow> go_ends b P (go_bind (go_join c (lift r)) f)"
  unfolding go_join_lift by (rule ends_bind_lift) simp_all

lemma ends_coded_lift:
  "ends b r \<Longrightarrow> (\<And>a. r = Ok a \<Longrightarrow> go_ends b P (f a)) \<Longrightarrow> go_ends b P (go_bind (coded c x (lift r)) f)"
  unfolding coded_def go_wrap_lift go_join_lift by (rule ends_bind_lift) simp_all

lemma ends_coded: "go_ends b P m \<Longrightarrow> go_ends b P (coded c x m)"
  unfolding coded_def by (intro ends_rules)

text \<open>A handler that ends: it returns a state and an error, and no error when \<open>b\<close> is false.\<close>

definition handler_ends :: "bool \<Rightarrow> ('st \<Rightarrow> bool) \<Rightarrow> ('st, 't \<times> goerr option) go \<Rightarrow> bool" where
  "handler_ends b P h \<longleftrightarrow> (\<forall>st. P st \<longrightarrow> (\<exists>s err st'. h st = (Ok (s, err), st') \<and> (b \<or> err = None)))"

lemma handler_endsD: "handler_ends b P h \<Longrightarrow> P st \<Longrightarrow> \<exists>s err st'. h st = (Ok (s, err), st') \<and> (b \<or> err = None)"
  by (simp add: handler_ends_def)

lemma returning_ends:
  assumes "go_ends b P m"
  shows "handler_ends b P (returning state m)"
  unfolding handler_ends_def
proof (intro allI impI)
  fix st assume "P st"
  then have "ends b (fst (m st))" by (rule go_endsD [OF assms])
  then show "\<exists>s err st'. returning state m st = (Ok (s, err), st') \<and> (b \<or> err = None)"
    by (cases "m st"; cases "fst (m st)") (auto simp: returning_def)
qed

context directory_store
begin

lemma ends_exists:
  assumes "srv_store server = S" "go_ends b (reading wf dir d) (f (d dn \<noteq> None))"
  shows "go_ends b (reading wf dir d) (go_bind (go_join c (existsEntry server dn)) f)"
proof (rule ends_bind_reads [where r = "Ok (d dn \<noteq> None)"])
  show "go_join c (existsEntry server dn) s = (Ok (d dn \<noteq> None), s)" if "reading wf dir d s" for s
    using that existsEntry_eq [OF assms(1)] by (simp add: reading_def)
qed (use assms in auto)

lemma ends_getEntry:
  assumes "srv_store server = S" "b \<or> d dn \<noteq> None"
    and "\<And>as. d dn = Some as \<Longrightarrow> go_ends b (reading wf dir d) (f \<lparr>entry_DN = dn, entry_Attributes = as\<rparr>)"
  shows "go_ends b (reading wf dir d) (go_bind (getEntry server dn) f)"
proof (rule ends_bind_reads)
  let ?r = "case d dn of None \<Rightarrow> Err (Joined ErrNoSuchObject (Wrapped ''error while fetching entry'' ErrNotFound))
    | Some as \<Rightarrow> Ok \<lparr>entry_DN = dn, entry_Attributes = as\<rparr>"
  show "getEntry server dn s = (?r, s)" if "reading wf dir d s" for s
    using that getEntry_eq [OF assms(1)] by (auto simp: reading_def split: option.splits)
  show "go_ends b (reading wf dir d) (f a)" if "?r = Ok a" for a
    using that assms(3) by (auto split: option.splits)
  show "ends b ?r" using assms(2) by (auto split: option.splits)
qed

lemma getEntry_tx_ends:
  assumes "srv_store server = S" "b \<or> dn \<in> dom d"
  shows "go_ends b (tx_inv wf dir live log K M d L) (on_store (getEntry server dn))"
proof (rule go_endsI)
  fix s assume inv: "tx_inv wf dir live log K M d L s"
  obtain st tx where s: "s = (st, tx)" by (cases s)
  with inv have "wf st" "dom (dir st) = dom d" by (simp_all add: tx_inv_def agree_def)
  then show "ends b (fst (on_store (getEntry server dn) s))"
    using assms(2) getEntry_eq [OF assms(1)] by (cases "dir st dn") (auto simp: s on_store_def)
qed

end

context reliable_store
begin

lemma store_ends:
  assumes "srv_store server = S" "\<And>s. P s \<Longrightarrow> live (snd s)"
  shows "go_ends b P (tx_Store (srv_store server) e)"
  by (rule go_endsI) (metis Store_Ok assms ends_simps(1) prod.collapse)

lemma delete_ends:
  assumes "srv_store server = S" "\<And>s. P s \<Longrightarrow> live (snd s)"
  shows "go_ends b P (tx_Delete (srv_store server) dn)"
  by (rule go_endsI) (metis Delete_Ok assms ends_simps(1) prod.collapse)

lemma commit_ends:
  assumes "srv_store server = S" "b \<or> ctx_Err_Commit ctx = None" "\<And>s. P s \<Longrightarrow> live (snd s)"
  shows "go_ends b P (tx_Commit (srv_store server) ctx)"
proof (rule go_endsI)
  fix s assume "P s"
  then have "ends True (fst (tx_Commit S ctx s))" "ctx_Err_Commit ctx = None \<Longrightarrow> fst (tx_Commit S ctx s) = Ok ()"
    using Commit_ends [of ctx "fst s" "snd s"] Commit_Ok [of "snd s" ctx "fst s"] assms(3) by auto
  then show "ends b (fst (tx_Commit (srv_store server) ctx s))" using assms(1,2) by (cases b) auto
qed

lemma tx_inv_live: "tx_inv wf dir live log K M d L s \<Longrightarrow> live (snd s)"
  by (auto simp: tx_inv_def)

lemma in_tx_ends:
  assumes "srv_store server = S" "b \<or> ctx_Err_Begin (env_ctx env) = None"
    and "go_ends b (\<lambda>s. tx_inv wf dir live log membership M d [] s \<and> log (snd s) = []) body"
  shows "go_ends b (reading wf dir d) (in_tx server env body)"
proof (rule go_endsI)
  fix st assume P: "reading wf dir d st"
  obtain r st' where b: "s_Begin S (env_ctx env) st = (r, st')" by (cases "s_Begin S (env_ctx env) st")
  note begun = Begin [OF b]
  have "ends b r"
    using assms(2) b Begin_ends [of "env_ctx env" st] Begin_Ok [of "env_ctx env" st] by (cases b) auto
  show "ends b (fst (in_tx server env body st))"
  proof (cases r)
    case (Ok tx)
    with begun P have "tx_inv wf dir live log membership M d [] (st, tx) \<and> log (snd (st, tx)) = []"
      by (auto simp: tx_inv_def reading_def)
    note body = go_endsD [OF assms(3) this]
    have "in_tx server env body st = (fst (body (st, tx)), fst (snd (body (st, tx))))"
      using Ok b begun by (simp add: in_tx_def coded_def assms(1) split_beta)
    with body show ?thesis by simp
  qed (use b \<open>ends b r\<close> in \<open>simp_all add: in_tx_def coded_def assms(1) go_bind_split go_join_split go_wrap_split\<close>)
qed

text \<open>The updates of memberships, in a transaction.\<close>

lemma update_ends:
  assumes "srv_store server = S"
  shows "go_ends b (\<lambda>s. tx_inv wf dir live log K M d L s \<and> Q s)
    (go_bind (assign_attribute server dn k v) (\<lambda>_. go_wrap x (tx_Store (srv_store server) e)))"
proof (rule go_endsI)
  fix s assume P: "tx_inv wf dir live log K M d L s \<and> Q s"
  obtain st tx where s: "s = (st, tx)" by (cases s)
  with P have "live tx" by (simp add: tx_inv_def)
  then have "fst (tx_Store S e (s_assign S (DN_Prefix dn) k v st, tx)) = Ok ()" by (rule Store_Ok)
  then show "ends b (fst (go_bind (assign_attribute server dn k v) (\<lambda>_. go_wrap x (tx_Store (srv_store server) e)) s))"
    by (simp add: s assms assign_attribute_def go_wrap_split)
qed

lemma membershipAdd_ends:
  assumes "srv_store server = S" "b \<or> member \<in> dom d"
  shows "go_ends b (tx_inv wf dir live log K M d L) (membershipAdd server attr member grp)"
  unfolding membershipAdd_def Let_def
  by (rule ends_bind [OF ends_wrap [OF getEntry_tx_ends [OF assms]] spec_wrap [OF getEntry_tx [OF assms(1)]]])
     (intro ends_if ends_ret update_ends [OF assms(1)])

lemma membershipRemove_ends:
  assumes "srv_store server = S"
  shows "go_ends True (tx_inv wf dir live log K M d L) (membershipRemove server attr member grp)"
  unfolding membershipRemove_def Let_def
  by (rule ends_bind [OF ends_wrap [OF getEntry_tx_ends [OF assms]] spec_wrap [OF getEntry_tx [OF assms]]], simp)
     (intro ends_bind_lift remaining_ends ends_if ends_ret update_ends [OF assms])

lemma finish_ends:
  assumes "srv_store server = S" "b \<or> ctx_Err_Commit ctx = None"
  shows "go_ends b (tx_inv wf dir live log K M d L)
    (go_bind (coded e x (tx_Commit (srv_store server) ctx)) (\<lambda>_. ret state))"
  by (rule ends_bind [where R = "\<lambda>_ _. True"], rule ends_coded, rule commit_ends [OF assms], erule tx_inv_live,
      rule spec_conseq [where E' = "\<lambda>_. True" and Q' = "\<lambda>_ _. True" and P' = "\<lambda>_. True"])
     (simp_all add: go_spec_def ends_ret split: outcome.splits)

end

section \<open>Add\<close>

definition addable_attribute :: "('st, 'tx) Server \<Rightarrow> directory \<Rightarrow> PartialAttribute \<Rightarrow> bool" where
  "addable_attribute server d a \<longleftrightarrow>
     canUpdateAttribute (NewAttributeKey (pa_type a)) = None \<and>
     (AttributeKey_EqualFold (NewAttributeKey (pa_type a)) AttrMember \<longrightarrow>
       (\<forall>v \<in> set (pa_vals a). \<exists>dn. parseDN server v False = Ok dn \<and> dn \<in> dom d))"

text \<open>The checks of Add.\<close>

definition addable :: "('st, 'tx) Server \<Rightarrow> State \<Rightarrow> AddRequest \<Rightarrow> directory \<Rightarrow> DN \<Rightarrow> bool" where
  "addable server state r d dn \<longleftrightarrow>
     parseDN server (add_entry r) False = Ok dn \<and>
     ACL_Check (srv_acl server) (State_User state) ''add'' dn (map (\<lambda>a. NewAttributeKey (pa_type a)) (add_attributes r)) \<and>
     d dn = None \<and> tl dn \<in> dom d \<and> list_all (addable_attribute server d) (add_attributes r)"

context directory_store
begin

lemma add_member_spec:
  assumes "srv_store server = S"
  shows "go_spec (\<lambda>st. reading wf dir d st \<and> set ms \<subseteq> dom d) (add_member server v ms)
      (\<lambda>ms' st. (reading wf dir d st \<and> set ms' \<subseteq> dom d) \<and> (\<exists>dn. parseDN server v False = Ok dn \<and> dn \<in> dom d)) (reading wf dir d)"
    and "b \<or> (\<exists>dn. parseDN server v False = Ok dn \<and> dn \<in> dom d) \<Longrightarrow>
      go_ends b (reading wf dir d) (add_member server v ms)"
proof -
  show "go_spec (\<lambda>st. reading wf dir d st \<and> set ms \<subseteq> dom d) (add_member server v ms)
      (\<lambda>ms' st. (reading wf dir d st \<and> set ms' \<subseteq> dom d) \<and> (\<exists>dn. parseDN server v False = Ok dn \<and> dn \<in> dom d)) (reading wf dir d)"
  proof (cases "set ms \<subseteq> dom d")
    case True
    have "go_spec (reading wf dir d) (add_member server v ms)
      (\<lambda>ms' st. (reading wf dir d st \<and> set ms' \<subseteq> dom d) \<and> (\<exists>dn. parseDN server v False = Ok dn \<and> dn \<in> dom d)) (reading wf dir d)"
      unfolding add_member_def
      by (rule spec_joined_lift, rule spec_exists [OF assms], rule spec_require, rule spec_ret) (use True in auto)
    then show ?thesis by (rule spec_pre) simp
  next
    case False
    then show ?thesis by (simp add: go_spec_def)
  qed
  show "go_ends b (reading wf dir d) (add_member server v ms)"
    if "b \<or> (\<exists>dn. parseDN server v False = Ok dn \<and> dn \<in> dom d)"
    unfolding add_member_def
    by (rule ends_joined_lift, (cases b; use that parseDN_ends in auto), rule ends_exists [OF assms], rule ends_require)
       (use that in \<open>auto intro: ends_ret\<close>)
qed

text \<open>A loop over a list, with what each round found out.\<close>

lemma spec_fold_all:
  assumes "\<And>x acc. x \<in> set xs \<Longrightarrow> go_spec (I acc) (f x acc) (\<lambda>acc s. I acc s \<and> A x) E"
  shows "go_spec (I acc) (go_fold f xs acc) (\<lambda>acc s. I acc s \<and> list_all A xs) E"
  using assms
proof (induction xs arbitrary: acc)
  case (Cons x xs)
  have tail: "go_spec (\<lambda>s. I a s \<and> A x) (go_fold f xs a) (\<lambda>acc s. I acc s \<and> list_all A (x # xs)) E" for a
  proof (cases "A x")
    case True
    have "go_spec (I a) (go_fold f xs a) (\<lambda>acc s. I acc s \<and> list_all A xs) E"
      by (rule Cons.IH) (simp add: Cons.prems)
    then show ?thesis by (rule spec_conseq) (simp_all add: True)
  qed (simp add: go_spec_def)
  show ?case unfolding go_fold.simps by (rule spec_bind [OF Cons.prems tail]) simp
qed (auto intro: spec_ret)

lemma add_attribute_spec:
  assumes "srv_store server = S"
  shows "go_spec (\<lambda>st. reading wf dir d st \<and> set (snd acc) \<subseteq> dom d) (add_attribute server a acc)
      (\<lambda>acc st. (reading wf dir d st \<and> set (snd acc) \<subseteq> dom d) \<and> addable_attribute server d a) (reading wf dir d)"
    and "b \<or> addable_attribute server d a \<Longrightarrow> go_ends b (reading wf dir d) (add_attribute server a acc)"
proof -
  obtain attrs ms where acc: "acc = (attrs, ms)" by (cases acc)
  let ?k = "NewAttributeKey (pa_type a)"
  let ?A = "\<lambda>v. \<exists>dn. parseDN server v False = Ok dn \<and> dn \<in> dom d"
  have fold: "go_spec (\<lambda>st. reading wf dir d st \<and> set ms \<subseteq> dom d) (go_fold (add_member server) (pa_vals a) ms)
      (\<lambda>ms st. (reading wf dir d st \<and> set ms \<subseteq> dom d) \<and> list_all ?A (pa_vals a)) (reading wf dir d)"
    by (rule spec_fold_all [where I = "\<lambda>ms st. reading wf dir d st \<and> set ms \<subseteq> dom d"])
       (rule add_member_spec(1) [OF assms])
  show "go_spec (\<lambda>st. reading wf dir d st \<and> set (snd acc) \<subseteq> dom d) (add_attribute server a acc)
      (\<lambda>acc st. (reading wf dir d st \<and> set (snd acc) \<subseteq> dom d) \<and> addable_attribute server d a) (reading wf dir d)"
    unfolding add_attribute_def acc Let_def prod.case snd_conv
    by (cases "canUpdateAttribute ?k")
       (auto simp: addable_attribute_def list_all_iff intro!: spec_throw spec_ret spec_bind [OF fold])
  have "go_ends b (reading wf dir d) (go_fold (add_member server) (pa_vals a) ms)" if "b \<or> list_all ?A (pa_vals a)"
  proof (rule ends_fold [where E = "reading wf dir d"])
    show "go_ends b (reading wf dir d) (add_member server v acc)" if "v \<in> set (pa_vals a)" for v acc
      by (rule add_member_spec(2) [OF assms]) (use that \<open>b \<or> _\<close> in \<open>auto simp: list_all_iff\<close>)
    show "go_spec (reading wf dir d) (add_member server v acc) (\<lambda>_. reading wf dir d) (reading wf dir d)"
      if "v \<in> set (pa_vals a)" for v acc
      unfolding add_member_def
      by (rule spec_joined_lift spec_exists [OF assms] spec_require spec_ret | assumption)+
  qed
  moreover have "go_spec (reading wf dir d) (go_fold (add_member server) (pa_vals a) ms) (\<lambda>_ _. True) (\<lambda>_. True)"
    by (simp add: go_spec_def split: outcome.splits)
  ultimately show "b \<or> addable_attribute server d a \<Longrightarrow> go_ends b (reading wf dir d) (add_attribute server a acc)"
    unfolding add_attribute_def acc Let_def prod.case
    by (cases "canUpdateAttribute ?k")
       (auto simp: addable_attribute_def list_all_iff intro!: ends_throw ends_ret ends_bind [where R = "\<lambda>_ _. True"])
qed

end

context directory_store
begin

lemma add_attributes_spec:
  assumes "srv_store server = S"
  shows "go_spec (reading wf dir d) (go_fold (add_attribute server) as ([], []))
      (\<lambda>acc st. reading wf dir d st \<and> set (snd acc) \<subseteq> dom d \<and> list_all (addable_attribute server d) as) (reading wf dir d)"
    and "b \<or> list_all (addable_attribute server d) as \<Longrightarrow>
      go_ends b (reading wf dir d) (go_fold (add_attribute server) as acc)"
proof -
  have "go_spec (\<lambda>st. reading wf dir d st \<and> set (snd ([] :: Attributes, [] :: DN list)) \<subseteq> dom d)
      (go_fold (add_attribute server) as ([], []))
      (\<lambda>acc st. (reading wf dir d st \<and> set (snd acc) \<subseteq> dom d) \<and> list_all (addable_attribute server d) as) (reading wf dir d)"
    by (rule spec_fold_all [where I = "\<lambda>acc st. reading wf dir d st \<and> set (snd acc) \<subseteq> dom d"])
       (rule add_attribute_spec(1) [OF assms])
  then show "go_spec (reading wf dir d) (go_fold (add_attribute server) as ([], []))
      (\<lambda>acc st. reading wf dir d st \<and> set (snd acc) \<subseteq> dom d \<and> list_all (addable_attribute server d) as) (reading wf dir d)"
    by (rule spec_conseq) simp_all
  show "go_ends b (reading wf dir d) (go_fold (add_attribute server) as acc)"
    if "b \<or> list_all (addable_attribute server d) as"
  proof (rule ends_fold [where E = "reading wf dir d"])
    show "go_ends b (reading wf dir d) (add_attribute server a acc)" if "a \<in> set as" for a acc
      by (rule add_attribute_spec(2) [OF assms]) (use that \<open>b \<or> _\<close> in \<open>auto simp: list_all_iff\<close>)
    show "go_spec (reading wf dir d) (add_attribute server a acc) (\<lambda>_. reading wf dir d) (reading wf dir d)"
      if "a \<in> set as" for a acc
      using add_attributes_reads [OF assms, of d "[a]" acc] by (auto simp: go_spec_def go_bind_split split: outcome.splits)
  qed
qed

end

context reliable_store
begin

lemma Add_tx_ends:
  assumes S: "srv_store server = S" and "b \<or> ctx_Err_Begin (env_ctx env) = None \<and> ctx_Err_Commit ctx = None"
    and "set members \<subseteq> dom d"
  shows "go_ends b (reading wf dir d)
    (in_tx server env
      (go_bind (coded c1 x1 (tx_Store (srv_store server) e)) (\<lambda>_.
       go_bind (go_each (\<lambda>m. coded c2 x2 (membershipAdd server AttrMemberOf m dn)) members) (\<lambda>_.
       go_bind (coded c3 x3 (tx_Commit (srv_store server) ctx)) (\<lambda>_. ret state)))))"
proof (rule in_tx_ends [OF S, where M = "set members"], goal_cases)
  case 2
  have "go_ends b (tx_inv wf dir live log membership (set members) d L)
      (go_each (\<lambda>m. coded c2 x2 (membershipAdd server AttrMemberOf m dn)) members)" for L
    by (rule ends_each [OF ends_coded [OF membershipAdd_ends [OF S]] spec_coded [OF membershipAdd_tx [OF S]]])
       (use assms(3) in \<open>auto simp: membership_def\<close>)
  moreover have "go_spec (tx_inv wf dir live log membership (set members) d L)
      (go_each (\<lambda>m. coded c2 x2 (membershipAdd server AttrMemberOf m dn)) members)
      (\<lambda>_. tx_inv wf dir live log membership (set members) d L) (st_inv wf dir membership (set members) d)" for L
    by (rule spec_each [OF spec_coded [OF membershipAdd_tx [OF S]]]) (auto simp: membership_def)
  ultimately show ?case
    by (intro ends_bind [OF ends_coded [OF store_ends [OF S]] spec_coded [OF store_tx [OF S]]]
          ends_bind [where R = "\<lambda>_. tx_inv wf dir live log membership (set members) d [Put (entry_DN e) (entry_Attributes e)]"]
          finish_ends [OF S])
       (use assms(2) in \<open>auto dest: tx_inv_live\<close>)
qed (use assms(2) in auto)

lemma Add_ends:
  assumes S: "srv_store server = S" and ok: "b \<or> (\<exists>dn. addable server state r d dn)" and uuid: "ends b (env_uuid env)"
    and ctx: "b \<or> ctx_Err_Begin (env_ctx env) = None \<and> ctx_Err_Commit (env_ctx env) = None"
  shows "handler_ends b (reading wf dir d) (Bottin_Add server env state r)"
  unfolding Bottin_Add_def Let_def
proof (rule returning_ends, rule ends_joined_lift)
  show "ends b (parseDN server (add_entry r) False)" using ok parseDN_ends by (cases b) (auto simp: addable_def)
next
  fix dn assume dn: "parseDN server (add_entry r) False = Ok dn"
  from ok dn have ok: "b \<or> addable server state r d dn" by (auto simp: addable_def)
  have parent: "DN_Parent dn = Ok (tl dn)" using parseDN_nonempty [OF dn] by (cases dn) (simp_all add: DN_Parent_def)
  note fold = add_attributes_spec [OF S]
  show "go_ends b (reading wf dir d)
     (go_bind (require (ACL_Check (srv_acl server) (State_User state) ''add'' dn
        (map (\<lambda>a. NewAttributeKey (pa_type a)) (add_attributes r))) (denied ''could not add'')) (\<lambda>_.
      go_bind (go_join ErrOperationsError (existsEntry server dn)) (\<lambda>exists.
      go_bind (require (\<not> exists) (Joined ErrEntryAlreadyExists ErrAlreadyExists)) (\<lambda>_.
      go_bind (lift (DN_Parent dn)) (\<lambda>parentDN.
      go_bind (go_join ErrOperationsError (existsEntry server parentDN)) (\<lambda>parentExists.
      go_bind (require parentExists (Wrapped ''parent object does not exist'' ErrNoSuchObject)) (\<lambda>_.
      go_bind (go_fold (add_attribute server) (add_attributes r) ([], [])) (\<lambda>(attrs, members).
      go_bind (coded ErrOperationsError ''error while generating random uuid'' (lift (env_uuid env))) (\<lambda>uuid.
      in_tx server env
        (go_bind (coded ErrOperationsError ''error while storing entry'' (tx_Store (srv_store server)
            (NewEntry dn (add_system_attributes state env uuid (default_objectclass attrs))))) (\<lambda>_.
         go_bind (go_each (\<lambda>member. coded ErrOperationsError ''error while adding to group''
                    (membershipAdd server AttrMemberOf member dn)) members) (\<lambda>_.
         go_bind (coded ErrOperationsError ''could not commit transaction''
                    (tx_Commit (srv_store server) (env_ctx env))) (\<lambda>_.
         ret state)))))))))))))"
    unfolding parent
  proof (rule ends_require, goal_cases)
    case 2
    show ?case
    proof (rule ends_exists [OF S], rule ends_require, goal_cases)
      case 2
      show ?case
      proof (rule ends_bind_lift, simp, erule outcome.inject(1) [THEN iffD1, THEN subst],
          rule ends_exists [OF S], rule ends_require, goal_cases)
        case 2
        show ?case
        proof (rule ends_bind [OF fold(2) fold(1)], goal_cases)
          case (2 acc)
          show ?case
          proof (cases acc)
            case (Pair attrs members)
            have "go_ends b (reading wf dir d)
              (go_bind (coded ErrOperationsError ''error while generating random uuid'' (lift (env_uuid env))) (\<lambda>uuid.
               in_tx server env
                (go_bind (coded ErrOperationsError ''error while storing entry'' (tx_Store (srv_store server)
                    (NewEntry dn (add_system_attributes state env uuid (default_objectclass attrs))))) (\<lambda>_.
                 go_bind (go_each (\<lambda>member. coded ErrOperationsError ''error while adding to group''
                            (membershipAdd server AttrMemberOf member dn)) members) (\<lambda>_.
                 go_bind (coded ErrOperationsError ''could not commit transaction''
                            (tx_Commit (srv_store server) (env_ctx env))) (\<lambda>_.
                 ret state))))))" if "set members \<subseteq> dom d"
              by (rule ends_coded_lift [OF uuid], rule Add_tx_ends [OF S ctx that])
            then show ?thesis unfolding Pair prod.case
              by (cases "set members \<subseteq> dom d") (auto simp: go_ends_def)
          qed
        qed (use ok in \<open>auto simp: addable_def\<close>)
      qed (use ok in \<open>auto simp: addable_def\<close>)
    qed (use ok in \<open>auto simp: addable_def\<close>)
  qed (use ok in \<open>auto simp: addable_def\<close>)
qed

end

text \<open>Add passes only what satisfies its checks.\<close>

context directory_store
begin

lemma Add_only_if:
  assumes S: "srv_store server = S"
  shows "go_spec (reading wf dir d) (Bottin_Add server env state r)
    (\<lambda>(s, err) st. err = None \<longrightarrow> (\<exists>dn. addable server state r d dn)) (\<lambda>_. True)"
proof (rule spec_conseq)
  show "go_spec (reading wf dir d) (Bottin_Add server env state r)
    (\<lambda>(s, err) st. (err = None \<longrightarrow> (\<exists>dn. addable server state r d dn)) \<and> (err \<noteq> None \<longrightarrow> s = state \<and> True)) (\<lambda>_. True)"
    unfolding Bottin_Add_def Let_def
  proof (rule returning_spec [where E = "\<lambda>_. True" and Q = "\<lambda>_ _. \<exists>dn. addable server state r d dn"],
      rule spec_joined_lift, rule spec_require, rule spec_exists [OF S],
      rule spec_require, rule spec_bind_lift, rule spec_exists [OF S], rule spec_require, goal_cases)
    case (1 dn parent)
    then have tl: "tl dn \<in> dom d" by (cases dn) (auto simp: DN_Parent_def)
    show ?case
    proof (rule spec_bind [OF spec_conseq [OF add_attributes_spec(1) [OF S]]], assumption, assumption, simp, goal_cases)
      case (1 acc)
      show ?case
        using \<open>parseDN _ _ _ = _\<close> \<open>ACL_Check _ _ _ _ _\<close> \<open>\<not> d dn \<noteq> None\<close> tl
        by (cases "list_all (addable_attribute server d) (add_attributes r)")
           (auto simp: addable_def go_spec_def split: outcome.splits)
    qed
  qed simp_all
qed auto

end

section \<open>Delete\<close>

definition deletable :: "('st, 'tx) Server \<Rightarrow> State \<Rightarrow> DelRequest \<Rightarrow> directory \<Rightarrow> DN \<Rightarrow> Attributes \<Rightarrow> bool" where
  "deletable server state r d dn as \<longleftrightarrow>
     parseDN server r False = Ok dn \<and> ACL_Check (srv_acl server) (State_User state) ''delete'' dn [] \<and>
     d dn = Some as \<and> (\<forall>e \<in> dom d. in_range (DN_Prefix dn) (DN_Prefix e) \<longrightarrow> e = dn)"

context directory_store
begin

lemma ends_list:
  assumes "srv_store server = S" "dn \<noteq> []"
    and "\<And>es. (exact \<longrightarrow> set es = {\<lparr>entry_DN = dn, entry_Attributes = as\<rparr> | as. d dn = Some as}) \<Longrightarrow>
      (\<not> exact \<longrightarrow> distinct es \<and>
        set es = {\<lparr>entry_DN = e, entry_Attributes = as\<rparr> | e as. d e = Some as \<and> in_range (DN_Prefix dn) (DN_Prefix e)}) \<Longrightarrow>
      go_ends b (reading wf dir d) (f es)"
  shows "go_ends b (reading wf dir d) (go_bind (coded c x (s_List (srv_store server) (DN_Prefix dn) exact)) f)"
proof (rule go_endsI)
  fix st assume st: "reading wf dir d st"
  obtain es where es: "s_List S (DN_Prefix dn) exact st = (Ok es, st)"
    "exact \<longrightarrow> set es = {\<lparr>entry_DN = dn, entry_Attributes = as\<rparr> | as. d dn = Some as}"
    "\<not> exact \<longrightarrow> distinct es \<and>
       set es = {\<lparr>entry_DN = e, entry_Attributes = as\<rparr> | e as. d e = Some as \<and> in_range (DN_Prefix dn) (DN_Prefix e)}"
    using st List_exact [of st dn] List_range [of st dn] assms(2)
    by (cases exact; cases "d dn") (auto simp: reading_def)
  then have "go_bind (coded c x (s_List (srv_store server) (DN_Prefix dn) exact)) f st = f es st"
    by (simp add: assms(1) coded_def)
  with go_endsD [OF assms(3) [OF es(2,3)] st]
  show "ends b (fst (go_bind (coded c x (s_List (srv_store server) (DN_Prefix dn) exact)) f st))" by simp
qed

end

context reliable_store
begin

lemma remove_ends:
  assumes "srv_store server = S"
  shows "go_ends True (tx_inv wf dir live log K M d L) (remove_from_group server dn g)"
    "go_ends True (tx_inv wf dir live log K M d L) (remove_from_member server dn g)"
  unfolding remove_from_group_def remove_from_member_def
  by (intro ends_coded_lift parseDN_ends ends_coded membershipRemove_ends [OF assms])+

lemma Del_tx_ends:
  assumes S: "srv_store server = S" and "b \<or> ctx_Err_Begin (env_ctx env) = None \<and> ctx_Err_Commit ctx = None"
    and "b \<or> gs = [] \<and> ms = []"
  shows "go_ends b (reading wf dir d)
    (in_tx server env
      (go_bind (coded c1 x1 (tx_Delete (srv_store server) dn)) (\<lambda>_.
       go_bind (go_each (remove_from_group server dn) gs) (\<lambda>_.
       go_bind (go_each (remove_from_member server dn) ms) (\<lambda>_.
       go_bind (coded c3 x3 (tx_Commit (srv_store server) ctx)) (\<lambda>_. ret state))))))"
proof (rule in_tx_ends [OF S, where M = "named server (gs @ ms)"], goal_cases)
  case 2
  let ?I = "tx_inv wf dir live log membership (named server (gs @ ms)) d [Remove dn]"
  have "go_ends b ?I (go_each (remove_from_group server dn) gs)" "go_ends b ?I (go_each (remove_from_member server dn) ms)"
    using assms(3) by (cases b; auto intro!: ends_ret ends_each [OF remove_ends(1) [OF S] remove_from_group_tx [OF S]]
        ends_each [OF remove_ends(2) [OF S] remove_from_member_tx [OF S]])+
  moreover have "go_spec ?I (go_each (remove_from_group server dn) gs) (\<lambda>_. ?I) (st_inv wf dir membership (named server (gs @ ms)) d)"
    "go_spec ?I (go_each (remove_from_member server dn) ms) (\<lambda>_. ?I) (st_inv wf dir membership (named server (gs @ ms)) d)"
    by (rule spec_each, erule remove_from_group_tx [OF S], rule spec_each, erule remove_from_member_tx [OF S])
  ultimately show ?case
    by (intro ends_bind [OF ends_coded [OF delete_ends [OF S]] spec_coded [OF delete_tx [OF S]]]
          ends_bind [where R = "\<lambda>_. ?I"] finish_ends [OF S])
       (use assms(2) in \<open>auto dest: tx_inv_live\<close>)
qed (use assms(2) in auto)

lemma Del_ends:
  assumes S: "srv_store server = S"
    and ok: "b \<or> (\<exists>dn as. deletable server state r d dn as \<and> Attributes_Get as AttrMemberOf = [] \<and> Attributes_Get as AttrMember = [])"
    and ctx: "b \<or> ctx_Err_Begin (env_ctx env) = None \<and> ctx_Err_Commit (env_ctx env) = None"
  shows "handler_ends b (reading wf dir d) (Bottin_Del server env state r)"
  unfolding Bottin_Del_def Let_def
proof (rule returning_ends, rule ends_joined_lift, goal_cases)
  case 1
  show ?case using ok parseDN_ends by (cases b) (auto simp: deletable_def)
next
  case (2 dn)
  let ?free = "\<lambda>as. Attributes_Get as AttrMemberOf = [] \<and> Attributes_Get as AttrMember = []"
  from ok 2 have ok: "b \<or> (\<exists>as. deletable server state r d dn as \<and> ?free as)" by (auto simp: deletable_def)
  show ?case
  proof (rule ends_require, goal_cases)
    case 2
    show ?case
    proof (rule ends_list [OF S parseDN_nonempty [OF \<open>parseDN server r False = Ok dn\<close>]], rule ends_require, goal_cases)
      case (1 es)
      have "dn \<in> dom d \<longrightarrow> es \<noteq> []"
        using 1 in_range_descendant [of "DN_Prefix dn" "DN_Prefix dn"] parseDN_nonempty [OF \<open>parseDN server r False = Ok dn\<close>]
        by (auto simp: DN_Prefix_def reverse_slice_def)
      with ok show ?case by (auto simp: deletable_def)
    next
      case (2 es)
      show ?case
      proof (rule ends_require, goal_cases)
        case 1
        with ok 2 show ?case by (auto simp: deletable_def list_all_iff DN_Equal_def)
      next
        case eq: 2
        from 2 have "hd es \<in> set es" by (cases es) auto
        then have "d (entry_DN (hd es)) = Some (entry_Attributes (hd es))" using 2(2) by auto
        moreover have "entry_DN (hd es) = dn" using eq \<open>hd es \<in> set es\<close> by (simp add: list_all_iff DN_Equal_def)
        ultimately have "d dn = Some (entry_Attributes (hd es))" by simp
        then have "b \<or> ?free (entry_Attributes (hd es))" using ok by (auto simp: deletable_def)
        then show ?case by (intro Del_tx_ends [OF S ctx]) (simp add: Entry_Get_def)
      qed
    qed
  qed (use ok in \<open>auto simp: deletable_def\<close>)
qed

end

section \<open>Modify\<close>

lemma member_DNs_ends: "ends True (member_DNs server attr vals)"
  by (induction vals) (auto intro!: ends_outcome_bind parseDN_ends)

lemma canonical_values_ends: "ends True (canonical_values server vals)"
  by (induction vals) (auto intro!: ends_outcome_bind parseDN_ends)

lemma ends_joined_case: "ends True r \<Longrightarrow> ends True (case r of Err e \<Rightarrow> Err (Joined c e) | res \<Rightarrow> res)"
  by (cases r) simp_all

lemma apply_operation_ends: "ends True (apply_operation server op attr vals acc)"
  unfolding apply_operation_def Let_def by (auto intro!: ends_outcome_bind member_DNs_ends)

lemma modify_change_ends: "ends True (modify_change server state dn prev change acc)"
  unfolding modify_change_def Let_def
  by (auto split: option.splits intro!: ends_outcome_bind ends_joined_case apply_operation_ends canonical_values_ends)

lemma go_fold_ends:
  assumes "\<And>x acc. x \<in> set xs \<Longrightarrow> ends True (f x acc)"
  shows "ends True (fst (go_fold (\<lambda>x acc. lift (f x acc)) xs acc ()))"
proof -
  have "go_ends True (\<lambda>_ :: unit. True) (go_fold (\<lambda>x acc. lift (f x acc)) xs acc)"
    by (rule ends_fold [where E = "\<lambda>_. True"]) (auto intro!: ends_lift assms simp: go_spec_def split: outcome.splits)
  then show ?thesis by (simp add: go_ends_def)
qed

context reliable_store
begin

lemma check_members_ends:
  assumes "srv_store server = S"
  shows "go_ends True (reading wf dir d) (go_each (check_member server) ms)"
proof -
  have "go_ends True (reading wf dir d) (check_member server m)" for m
    unfolding check_member_def by (rule ends_exists [OF assms]) (auto simp: require_def intro: ends_ret ends_throw)
  moreover have "go_spec (reading wf dir d) (check_member server m) (\<lambda>_. reading wf dir d) (reading wf dir d)" for m
    unfolding check_member_def by (rule spec_exists [OF assms]) (auto simp: go_spec_def require_def)
  ultimately show ?thesis by (intro ends_each)
qed

lemma Modify_tx_ends:
  assumes S: "srv_store server = S"
  shows "go_ends True (reading wf dir d)
    (in_tx server env
      (go_bind (coded c1 x1 (tx_Store (srv_store server) e)) (\<lambda>_.
       go_bind (go_each (\<lambda>m. coded c2 x2 (membershipAdd server AttrMemberOf m dn)) ams) (\<lambda>_.
       go_bind (go_each (\<lambda>m. coded c4 x4 (membershipRemove server AttrMemberOf m dn)) dms) (\<lambda>_.
       go_bind (coded c3 x3 (tx_Commit (srv_store server) ctx)) (\<lambda>_. ret state))))))"
proof (rule in_tx_ends [OF S, where M = "set ams \<union> set dms"], simp, goal_cases)
  case 1
  let ?I = "tx_inv wf dir live log membership (set ams \<union> set dms) d [Put (entry_DN e) (entry_Attributes e)]"
  let ?E = "st_inv wf dir membership (set ams \<union> set dms) d"
  have add: "go_spec ?I (coded c2 x2 (membershipAdd server AttrMemberOf m dn)) (\<lambda>_. ?I) ?E" if "m \<in> set ams" for m
    by (rule spec_coded [OF membershipAdd_tx [OF S]]) (use that in \<open>auto simp: membership_def\<close>)
  have del: "go_spec ?I (coded c4 x4 (membershipRemove server AttrMemberOf m dn)) (\<lambda>_. ?I) ?E" if "m \<in> set dms" for m
    by (rule spec_coded [OF membershipRemove_tx [OF S]]) (use that in \<open>auto simp: membership_def\<close>)
  show ?case
    by (rule ends_bind [OF ends_coded [OF store_ends [OF S]] spec_coded [OF store_tx [OF S]]], use tx_inv_live in blast, assumption,
        rule ends_bind [OF ends_each spec_each [OF add]], rule ends_coded, rule membershipAdd_ends [OF S], simp, erule add, assumption,
        rule ends_bind [OF ends_each spec_each [OF del]], rule ends_coded, rule membershipRemove_ends [OF S], erule del, assumption)
       (rule finish_ends [OF S], simp)
qed

lemma Modify_ends:
  assumes S: "srv_store server = S"
  shows "handler_ends True (reading wf dir d) (Bottin_Modify server env state r)"
  unfolding Bottin_Modify_def Let_def
proof (rule returning_ends, rule ends_joined_lift [OF parseDN_ends], rule ends_require, simp, rule ends_getEntry [OF S], simp, goal_cases)
  case (1 dn prev)
  then have ne: "entry_DN \<lparr>entry_DN = dn, entry_Attributes = prev\<rparr> \<noteq> []" using parseDN_nonempty by simp
  show ?case
    unfolding if_not_P [OF ne]
    by (rule ends_bind [where R = "\<lambda>_. reading wf dir d"], rule ends_ret, rule spec_ret, assumption,
        subst go_fold_lift, rule ends_bind_lift, rule go_fold_ends, rule modify_change_ends,
        rule ends_bind [OF check_members_ends [OF S] check_members_reads [OF S]], rule ends_require, simp,
        rule ends_pre [OF Modify_tx_ends [OF S, where d = d]]) simp
qed

end

section \<open>Password change\<close>

text \<open>The checks of a password change.\<close>

definition password_changeable :: "('st, 'tx) Server \<Rightarrow> State \<Rightarrow> ExtendedRequest \<Rightarrow> directory \<Rightarrow> DN \<Rightarrow> string \<Rightarrow> bool" where
  "password_changeable server state r d dn pw \<longleftrightarrow>
     ext_requestName r = NoticeOfPasswordModify \<and>
     (\<exists>pmr. ExtendedRequest_PasswordModifyRequest r = Ok pmr \<and> pmr_newPassword pmr = Some pw \<and>
        parseDN server (password_target state pmr) False = Ok dn) \<and>
     usr_user (State_User state) \<noteq> AnonymousUser \<and>
     ACL_Check (srv_acl server) (State_User state) ''modify'' dn [AttrUserPassword] \<and>
     dn \<noteq> srv_baseDN server \<and> dn \<in> dom d"

context reliable_store
begin

lemma Extended_tx_ends:
  assumes S: "srv_store server = S" and "b \<or> ctx_Err_Begin (env_ctx env) = None \<and> ctx_Err_Commit ctx = None"
  shows "go_ends b (reading wf dir d)
    (in_tx server env
      (go_bind (coded c1 x1 (tx_Store (srv_store server) e)) (\<lambda>_.
       go_bind (coded c3 x3 (tx_Commit (srv_store server) ctx)) (\<lambda>_. ret state))))"
proof -
  have "b \<or> ctx_Err_Begin (env_ctx env) = None" "b \<or> ctx_Err_Commit ctx = None" using assms(2) by auto
  note finish = finish_ends [OF S this(2)] and begun = in_tx_ends [OF S this(1), where M = "{}"]
  show ?thesis
    by (rule begun, rule ends_bind [OF ends_coded [OF store_ends [OF S]] spec_coded [OF store_tx [OF S]]])
       (auto dest: tx_inv_live intro: finish)
qed

lemma Extended_ends:
  assumes S: "srv_store server = S" and ok: "b \<or> (\<exists>dn pw. password_changeable server state r d dn pw)"
    and parse: "ext_requestName r = NoticeOfPasswordModify \<Longrightarrow> ends True (ExtendedRequest_PasswordModifyRequest r)"
    and hash: "\<And>pmr pw. ExtendedRequest_PasswordModifyRequest r = Ok pmr \<Longrightarrow> pmr_newPassword pmr = Some pw \<Longrightarrow>
      ends b (env_ssha512_Generate env pw 16)"
    and ctx: "b \<or> ctx_Err_Begin (env_ctx env) = None \<and> ctx_Err_Commit (env_ctx env) = None"
  shows "handler_ends b (reading wf dir d) (Bottin_Extended server env state r)"
  unfolding Bottin_Extended_def Let_def
proof (rule returning_ends, rule ends_require, goal_cases)
  case 2
  show ?case
  proof (rule ends_coded_lift, goal_cases)
    case 1
    show ?case using ok parse [OF 2] by (cases b) (auto simp: password_changeable_def)
  next
    case (2 pmr)
    show ?case
    proof (cases "pmr_newPassword pmr")
      case None
      with ok 2 have b by (auto simp: password_changeable_def)
      with None show ?thesis by (simp add: ends_throw)
    next
      case (Some pw)
      show ?thesis unfolding Some option.case
      proof (rule ends_require, goal_cases)
        case 2
        show ?case
        proof (rule ends_joined_lift, goal_cases)
          case 1
          show ?case using ok \<open>ExtendedRequest_PasswordModifyRequest r = Ok pmr\<close> parseDN_ends
            by (cases b) (auto simp: password_changeable_def password_target_def)
        next
          case (2 dn)
          with ok \<open>ExtendedRequest_PasswordModifyRequest r = Ok pmr\<close> have ok: "b \<or> password_changeable server state r d dn pw"
            using Some by (auto simp: password_changeable_def password_target_def)
          then have "b \<or> ACL_Check (srv_acl server) (State_User state) ''modify'' dn [AttrUserPassword]"
            "b \<or> \<not> DN_Equal dn (srv_baseDN server)" "b \<or> d dn \<noteq> None" "ends b (ssha512Encode env pw)"
            using hash [OF \<open>ExtendedRequest_PasswordModifyRequest r = Ok pmr\<close> Some]
            by (auto simp: password_changeable_def DN_Equal_def ssha512Encode_def)
          then show ?case
            by (intro ends_require ends_getEntry [OF S] ends_coded_lift Extended_tx_ends [OF S ctx])
        qed
      qed (use ok in \<open>auto simp: password_changeable_def\<close>)
    qed
  qed
qed (use ok in \<open>auto simp: password_changeable_def\<close>)

end

section \<open>Bind, Compare and Search\<close>

text \<open>The password packages return.\<close>

definition crypto_ends :: "Crypto \<Rightarrow> bool" where
  "crypto_ends c \<longleftrightarrow> (\<forall>pw h. ends True (ssha256_Validate c pw h) \<and> ends True (ssha512_Validate c pw h))"

lemma matchPassword_ends: "crypto_ends c \<Longrightarrow> ends True (matchPassword c h pw)"
  unfolding matchPassword_def
  by (rule ends_outcome_bind) (auto simp: parseHash_def crypto_ends_def)

lemma bind_loop_ends: "crypto_ends c \<Longrightarrow> ends True (bind_loop c pw hs errs)"
proof (induction hs arbitrary: errs)
  case (Cons h hs)
  then show ?case using matchPassword_ends [of c h pw] by (cases "matchPassword c h pw") auto
qed simp

text \<open>The checks of Bind.\<close>

definition bindable :: "('st, 'tx) Server \<Rightarrow> State \<Rightarrow> BindRequest \<Rightarrow> directory \<Rightarrow> bool" where
  "bindable server state r d \<longleftrightarrow>
     (\<exists>dn as pw hash. parseDN server (bind_name r) False = Ok dn \<and>
        ACL_Check (srv_acl server) (State_User state) ''bind'' dn [] \<and> d dn = Some as \<and>
        bind_authentication r = AuthSimple pw \<and>
        hash \<in> set (if dn = srv_baseDN server then [srv_rootPasswd server] else Attributes_Get as AttrUserPassword) \<and>
        matchPassword (srv_crypto server) hash pw = Ok True)"

lemma applyFilter_ends:
  "ends True (applyFilter e f)" "ends True (applyAnd e fs)" "ends True (applyOr e fs)"
  by (induction e f and e fs and e fs rule: applyFilter_applyAnd_applyOr.induct)
     (simp_all add: ends_outcome_bind)

lemma search_loop_ends: "ends True (search_loop server user r base es)"
proof (induction es)
  case (Cons e es)
  then show ?case using applyFilter_ends(1) [of e "sr_filter r"]
    by (cases "applyFilter e (sr_filter r)") (simp_all add: ends_outcome_bind)
qed simp

context directory_store
begin

lemma Bind_ends:
  assumes S: "srv_store server = S" and crypto: "crypto_ends (srv_crypto server)"
    and simple: "bind_authentication r = AuthSimple pw" and ok: "b \<or> bindable server state r d"
  shows "handler_ends b (reading wf dir d) (Bottin_Bind server state r)"
  unfolding Bottin_Bind_def Let_def
proof (rule returning_ends, rule ends_joined_lift, goal_cases)
  case 1
  show ?case using ok parseDN_ends by (cases b) (auto simp: bindable_def)
next
  case (2 dn)
  have "b \<or> ACL_Check (srv_acl server) (State_User state) ''bind'' dn []" "b \<or> d dn \<noteq> None"
    using ok 2 by (auto simp: bindable_def)
  note check = ends_require [OF this(1)] and found = ends_getEntry [where d = d and dn = dn, OF S this(2)]
  show ?case
  proof (rule check, rule found, goal_cases)
    case (1 as)
    let ?hashes = "if DN_Equal dn (srv_baseDN server) then [srv_rootPasswd server]
      else Entry_Get \<lparr>entry_DN = dn, entry_Attributes = as\<rparr> AttrUserPassword"
    have hashes: "?hashes = (if dn = srv_baseDN server then [srv_rootPasswd server] else Attributes_Get as AttrUserPassword)"
      by (simp add: DN_Equal_def Entry_Get_def)
    have "ends b (bind_loop (srv_crypto server) pw ?hashes [])"
    proof (cases b)
      case False
      then obtain hash where "hash \<in> set ?hashes" "matchPassword (srv_crypto server) hash pw = Ok True"
        unfolding hashes using ok 2 1 simple by (auto simp: bindable_def)
      then show ?thesis using matchPassword_ends [OF crypto] bind_loop_finds [of hash ?hashes "srv_crypto server" pw "[]"]
        by (auto simp: ends_True)
    qed (simp add: bind_loop_ends [OF crypto])
    then show ?case by (auto simp: simple BindRequest_AuthenticationSimple_def intro!: ends_bind_lift ends_ret)
  qed
qed

lemma Compare_ends:
  assumes S: "srv_store server = S"
  shows "go_ends False (reading wf dir d) (Bottin_Compare server state r)"
proof -
  have "handler_ends True (reading wf dir d) (returning False
      (go_bind (go_join ErrInvalidDNSyntax (lift (parseDN server (cmp_entry r) False))) (\<lambda>dn.
       go_bind (require (ACL_Check (srv_acl server) (State_User state) ''read'' dn [NewAttributeKey (ava_attributeDesc (cmp_ava r))])
          (denied ''could not read'')) (\<lambda>_.
       go_bind (getEntry server dn) (\<lambda>entry.
       ret (list_ex (\<lambda>v. valueMatch (NewAttributeKey (ava_attributeDesc (cmp_ava r))) v (ava_assertionValue (cmp_ava r)))
          (Entry_Get entry (NewAttributeKey (ava_attributeDesc (cmp_ava r)))))))))
      )"
    by (intro returning_ends ends_joined_lift parseDN_ends ends_require ends_getEntry [OF S] ends_ret) simp_all
  then show ?thesis
    unfolding Bottin_Compare_def Let_def by (auto simp: go_ends_def go_map_def handler_ends_def go_bind_split)
qed

lemma Search_ends:
  assumes S: "srv_store server = S" and base: "srv_baseDN server \<noteq> []"
  shows "go_ends False (reading wf dir d) (Bottin_Search server state r)"
proof -
  have ne: "dn \<noteq> []" if "parseDN server raw True = Ok dn" for raw dn
    using that base ParseDN_canonical [of raw] parseDN_nonempty [of server raw dn]
    by (auto simp: parseDN_def outcome_bind_def Let_def split: outcome.splits if_splits)
  have "handler_ends True (reading wf dir d) (returning []
       (go_bind (go_join ErrInvalidDNSyntax (lift (parseDN server (sr_baseObject r) True))) (\<lambda>baseObject.
        go_bind (require (ACL_Check (srv_acl server) (State_User state) ''read'' baseObject [])
                   (denied ''could not read'')) (\<lambda>_.
        go_bind (coded ErrOperationsError ''error while listing objects''
                   (s_List (srv_store server) (DN_Prefix baseObject) (sr_scope r = SearchRequestScopeBaseObject))) (\<lambda>entries.
        lift (search_loop server (State_User state) r baseObject entries))))))"
    by (intro returning_ends ends_joined_lift parseDN_ends ends_require ends_list [OF S] ends_lift search_loop_ends ne) simp_all
  then show ?thesis
    unfolding Bottin_Search_def Let_def by (auto simp: go_ends_def go_map_def handler_ends_def go_bind_split)
qed

end

section \<open>Any request\<close>

text \<open>Requests that do not run into a panic of the decoder's accessors.\<close>

definition safe_request :: "ProtocolOp \<Rightarrow> bool" where
  "safe_request op = (case op of
      OpBindRequest r \<Rightarrow> (\<exists>pw. bind_authentication r = AuthSimple pw)
    | OpExtendedRequest r \<Rightarrow> ext_requestName r = NoticeOfPasswordModify \<longrightarrow> ends True (ExtendedRequest_PasswordModifyRequest r)
    | _ \<Rightarrow> True)"

definition env_ends :: "Env \<Rightarrow> bool" where
  "env_ends env \<longleftrightarrow> ends True (env_uuid env) \<and> (\<forall>pw. ends True (env_ssha512_Generate env pw 16))"

lemma handler_ends_go: "handler_ends b P h \<Longrightarrow> go_ends False P h"
  by (fastforce simp: handler_ends_def go_ends_def)

context reliable_store
begin

lemma dispatch_ends:
  assumes S: "srv_store server = S" and base: "srv_baseDN server \<noteq> []" and crypto: "crypto_ends (srv_crypto server)"
    and env: "\<And>n. env_ends (envs n)" and op: "safe_request op"
  shows "go_ends False (\<lambda>w. wf (snd w)) (dispatch (Bottin_Handler server envs) zero state op)"
proof -
  have run: "go_ends False (\<lambda>w. wf (snd w)) (go_map g (with_env envs f))"
    if "\<And>env d. env_ends env \<Longrightarrow> go_ends False (reading wf dir d) (f env)" for f :: "Env \<Rightarrow> ('a, 'c) go" and g :: "'c \<Rightarrow> 'd"
  proof (rule go_endsI)
    fix w :: "nat \<times> 'a" assume "wf (snd w)"
    then have "ends False (fst (f (envs (fst w)) (snd w)))"
      using go_endsD [OF that [OF env], of "dir (snd w)" "snd w"] by (simp add: reading_def)
    then show "ends False (fst (go_map g (with_env envs f) w))"
      by (cases w; cases "f (envs (fst w)) (snd w)") (auto simp: go_map_def go_bind_split with_env_def ends_False)
  qed
  have "go_ends False (reading wf dir d) (Bottin_Add server env s r)" if "env_ends env" for env d s r
    by (rule handler_ends_go [OF Add_ends [OF S, where b = True]]) (use that in \<open>auto simp: env_ends_def\<close>)
  moreover have "go_ends False (reading wf dir d) (Bottin_Del server env s r)" for env d s r
    by (rule handler_ends_go [OF Del_ends [OF S, where b = True]]) auto
  moreover have "go_ends False (reading wf dir d) (Bottin_Modify server env s r)" for env d s r
    by (rule handler_ends_go [OF Modify_ends [OF S]])
  moreover have "go_ends False (reading wf dir d) (Bottin_Extended server env s r)"
    if "env_ends env" "safe_request (OpExtendedRequest r)" for env d s r
    by (rule handler_ends_go [OF Extended_ends [OF S, where b = True]]) (use that in \<open>auto simp: env_ends_def safe_request_def\<close>)
  moreover have "go_ends False (reading wf dir d) (Bottin_Bind server s r)" if "safe_request (OpBindRequest r)" for d s r
    using that handler_ends_go [OF Bind_ends [OF S crypto, where b = True]] by (auto simp: safe_request_def)
  moreover note Compare_ends [OF S] Search_ends [OF S base]
  ultimately show ?thesis
    using op by (cases op) (auto simp: dispatch_def Bottin_Handler_def intro!: run ends_ret)
qed

end

end
