(* ===== verification/Bottin_Access.thy ===== *)
theory Bottin_Access
  imports Bottin_Live
begin

text \<open>
  Who may do what: refusals by the access rules, password changes followed by a bind, what a search
  returns, and what Modify stores.
\<close>

section \<open>Refusals\<close>

text \<open>The action, the name and the attributes a request is checked for.\<close>

fun permission :: "ProtocolOp \<Rightarrow> (string \<times> string \<times> bool \<times> AttributeKey list) option" where
  "permission (OpBindRequest r) = Some (''bind'', bind_name r, False, [])"
| "permission (OpSearchRequest r) = Some (''read'', sr_baseObject r, True, [])"
| "permission (OpAddRequest r) =
     Some (''add'', add_entry r, False, map (\<lambda>a. NewAttributeKey (pa_type a)) (add_attributes r))"
| "permission (OpDelRequest r) = Some (''delete'', r, False, [])"
| "permission (OpModifyRequest r) = Some (''modify'', mod_object r, False, [])"
| "permission (OpCompareRequest r) =
     Some (''read'', cmp_entry r, False, [NewAttributeKey (ava_attributeDesc (cmp_ava r))])"
| "permission _ = None"

lemmas run_handler = dispatch_def Bottin_Handler_def with_env_def go_map_def Let_def

lemma refused:
  assumes "permission op = Some (action, raw, up, attrs)" "parseDN server raw up = Ok dn"
    and "\<not> ACL_Check (srv_acl server) (State_User state) action dn attrs"
  shows "\<exists>code x. dispatch (Bottin_Handler server envs) zero state op (n, st) =
    (Ok ([], state, code, Some (denied x)), Suc n, st)"
proof (cases op)
  case (OpBindRequest r)
  with assms show ?thesis by (auto simp: run_handler returning_def require_def Bottin_Bind_def)
next
  case (OpSearchRequest r)
  with assms show ?thesis by (auto simp: run_handler returning_def require_def Bottin_Search_def)
next
  case (OpAddRequest r)
  with assms show ?thesis by (auto simp: run_handler returning_def require_def Bottin_Add_def)
next
  case (OpDelRequest r)
  with assms show ?thesis by (auto simp: run_handler returning_def require_def Bottin_Del_def)
next
  case (OpModifyRequest r)
  with assms show ?thesis by (auto simp: run_handler returning_def require_def Bottin_Modify_def)
next
  case (OpCompareRequest r)
  with assms show ?thesis by (auto simp: run_handler returning_def require_def Bottin_Compare_def)
qed (use assms(1) in simp_all)

lemma denied_code: "errorCode code (Some (denied x)) = ResultCodeInsufficientAccessRights"
  by (simp add: errorCode_def denied_def server_errors)

section \<open>Passwords\<close>

text \<open>A hash of the scheme the service writes is checked by that scheme.\<close>

lemma matchPassword_ssha512:
  assumes "strings_HasPrefix hash SSHA512"
  shows "matchPassword crypto hash pw = ssha512_Validate crypto pw hash"
proof -
  have hash: "hash = SSHA512 @ drop (length SSHA512) hash"
    using assms append_take_drop_id [of "length SSHA512" hash] by (simp add: strings_HasPrefix_def)
  have "\<not> strings_HasPrefix hash MD5" "\<not> strings_HasPrefix hash SSHA256"
    by (subst hash, simp add: strings_HasPrefix_def MD5_def SSHA512_def,
        subst hash, simp add: strings_HasPrefix_def SSHA256_def SSHA512_def)
  moreover have "SSHA512 \<noteq> MD5" "SSHA512 \<noteq> SSHA256" by (simp_all add: SSHA512_def MD5_def SSHA256_def)
  ultimately show ?thesis
    using assms hash by (simp add: matchPassword_def parseHash_def)
qed

section \<open>Searches\<close>

lemma lower_keys_filter:
  "lower_keys (entry_Attributes e) \<Longrightarrow> supported f \<Longrightarrow> applyFilter e f = Ok (satisfies (entry_Attributes e) f)"
  by (rule applyFilter_satisfies(1))

context directory_store
begin

text \<open>A search below a base that the user may read returns the entries in range that are visible.\<close>

lemma Search_below:
  assumes S: "srv_store server = S" and wf: "wf st" and "parseDN server (sr_baseObject r) True = Ok base" "base \<noteq> []"
    and acl: "ACL_Check (srv_acl server) (State_User state) ''read'' base []"
    and scope: "sr_scope r \<noteq> SearchRequestScopeBaseObject"
    and filters: "\<And>dn as. dir st dn = Some as \<Longrightarrow> \<exists>b. applyFilter \<lparr>entry_DN = dn, entry_Attributes = as\<rparr> (sr_filter r) = Ok b"
  shows "\<exists>rs. Bottin_Search server state r st = (Ok (rs, state, None), st) \<and>
    set rs = shown server (State_User state) r ` {e. dir st (entry_DN e) = Some (entry_Attributes e) \<and>
      in_range (DN_Prefix base) (DN_Prefix (entry_DN e)) \<and> visible server (State_User state) r base e}"
proof -
  obtain es where es: "s_List S (DN_Prefix base) False st = (Ok es, st)"
    "set es = {\<lparr>entry_DN = e, entry_Attributes = as\<rparr> | e as. dir st e = Some as \<and> in_range (DN_Prefix base) (DN_Prefix e)}"
    using List_range [OF wf assms(4)] by blast
  have mem: "e \<in> set es \<longleftrightarrow> dir st (entry_DN e) = Some (entry_Attributes e) \<and> in_range (DN_Prefix base) (DN_Prefix (entry_DN e))" for e
    unfolding es(2) by (cases e) auto
  obtain rs where rs: "search_loop server (State_User state) r base es = Ok rs"
    using search_loop_total [of es r server "State_User state" base] mem filters
    by (metis Entry.surjective old.unit.exhaust)
  have "Bottin_Search server state r st = (Ok (rs, state, None), st)"
    using es(1) rs assms(3) acl scope S
    by (simp add: Bottin_Search_def go_map_def returning_def require_def coded_def)
  moreover have "set rs = shown server (State_User state) r ` {e \<in> set es. visible server (State_User state) r base e}"
    using search_loop_Ok [OF rs] by auto
  ultimately show ?thesis using mem by auto
qed

text \<open>A search with scope base object returns nothing.\<close>

lemma Search_base:
  assumes S: "srv_store server = S" and wf: "wf st" and "parseDN server (sr_baseObject r) True = Ok base"
    and acl: "ACL_Check (srv_acl server) (State_User state) ''read'' base []"
    and scope: "sr_scope r = SearchRequestScopeBaseObject"
  shows "Bottin_Search server state r st = (Ok ([], state, None), st)"
proof -
  have "search_loop server (State_User state) r base
      (case dir st base of None \<Rightarrow> [] | Some as \<Rightarrow> [\<lparr>entry_DN = base, entry_Attributes = as\<rparr>]) = Ok []"
    using scope by (cases "dir st base") (simp_all add: DN_Equal_def)
  then show ?thesis
    using List_exact [OF wf, of base] assms(3) acl scope S
    by (simp add: Bottin_Search_def go_map_def returning_def require_def coded_def)
qed

end

section \<open>What Modify stores\<close>

text \<open>The attributes a request names, as Modify spells them.\<close>

definition changed_keys :: "Attributes \<Rightarrow> ModifyRequest \<Rightarrow> AttributeKey set" where
  "changed_keys prev r = (\<lambda>c. modify_attribute prev (NewAttributeKey (pa_type (mc_modification c)))) ` set (mod_changes r)"

lemma keys_attr_set: "fst ` set (attr_set k v as) = insert k (fst ` set as)"
  by (induction k v as rule: attr_set.induct) auto

lemma member_DNs_other: "\<not> AttributeKey_EqualFold attr AttrMember \<Longrightarrow> member_DNs server attr vals = Ok []"
  by (cases vals) simp_all

lemma apply_operation_effect:
  assumes "apply_operation server op attr vals acc = Ok acc'"
  shows "fst ` set (ma_attrs acc') \<subseteq> insert attr (fst ` set (ma_attrs acc))"
    and "\<not> AttributeKey_EqualFold attr AttrMember \<Longrightarrow>
      ma_addMembers acc' = ma_addMembers acc \<and> ma_delMembers acc' = ma_delMembers acc"
proof -
  have "\<exists>as. ma_attrs acc' = as \<and> (as = ma_attrs acc \<or> (\<exists>v. as = attr_set attr v (ma_attrs acc)))"
    using assms by (auto simp: apply_operation_def Let_def outcome_bind_def split: if_splits outcome.splits)
  then show "fst ` set (ma_attrs acc') \<subseteq> insert attr (fst ` set (ma_attrs acc))"
    using keys_attr_set [of attr _ "ma_attrs acc"] by (elim exE conjE disjE) (simp_all add: subset_insertI)
  show "ma_addMembers acc' = ma_addMembers acc \<and> ma_delMembers acc' = ma_delMembers acc"
    if "\<not> AttributeKey_EqualFold attr AttrMember"
    using assms member_DNs_other [OF that, of server]
    by (auto simp: apply_operation_def Let_def outcome_bind_def split: if_splits)
qed

text \<open>What holds of the accumulated changes as long as they name only certain attributes.\<close>

definition acc_within :: "AttributeKey set \<Rightarrow> ModifyAcc \<Rightarrow> bool" where
  "acc_within K acc \<longleftrightarrow> fst ` set (ma_attrs acc) \<subseteq> K \<and>
     ((\<forall>k \<in> K. \<not> AttributeKey_EqualFold k AttrMember) \<longrightarrow> ma_addMembers acc = [] \<and> ma_delMembers acc = [])"

lemma modify_change_within:
  assumes "modify_change server state dn prev change acc = Ok acc'" "acc_within K acc"
    and k: "modify_attribute (entry_Attributes prev) (NewAttributeKey (pa_type (mc_modification change))) \<in> K"
  shows "acc_within K acc'"
proof -
  let ?k = "modify_attribute (entry_Attributes prev) (NewAttributeKey (pa_type (mc_modification change)))"
  let ?acc = "if map_of (ma_attrs acc) ?k = None \<and> map_of (entry_Attributes prev) ?k \<noteq> None
     then acc\<lparr>ma_attrs := attr_set ?k (Attributes_Get (entry_Attributes prev) ?k) (ma_attrs acc)\<rparr> else acc"
  obtain vals where op: "apply_operation server (mc_operation change) ?k vals ?acc = Ok acc'"
    using assms(1) unfolding modify_change_def Let_def
    by (auto simp: outcome_bind_def split: option.splits if_splits outcome.splits)
  have "acc_within K ?acc" using assms(2) k by (simp add: acc_within_def keys_attr_set)
  note acc = this [unfolded acc_within_def] and effect = apply_operation_effect [OF op]
  have "insert ?k (fst ` set (ma_attrs ?acc)) \<subseteq> K" using acc k by simp
  with effect(1) have "fst ` set (ma_attrs acc') \<subseteq> K" by (rule order_trans)
  moreover have "ma_addMembers acc' = [] \<and> ma_delMembers acc' = []" if other: "\<forall>k \<in> K. \<not> AttributeKey_EqualFold k AttrMember"
    using effect(2) [OF bspec [OF other k]] mp [OF conjunct2 [OF acc] other] by metis
  ultimately show ?thesis by (simp add: acc_within_def)
qed

lemma modify_acc_within:
  assumes "modify_acc server state dn prev r acc"
  shows "acc_within (changed_keys (entry_Attributes prev) r) acc"
proof -
  let ?I = "\<lambda>acc (_ :: unit). acc_within (changed_keys (entry_Attributes prev) r) acc"
  have "go_spec (?I init) (go_fold (\<lambda>change acc. lift (modify_change server state dn prev change acc)) (mod_changes r) init)
      ?I (\<lambda>_. True)" for init
    by (rule spec_fold, rule spec_lift, erule modify_change_within) (auto simp: changed_keys_def)
  note within = go_specD [OF this]
  obtain st0 st1 :: unit where "go_fold (\<lambda>change acc. lift (modify_change server state dn prev change acc)) (mod_changes r)
      \<lparr>ma_attrs = [], ma_addMembers = [], ma_delMembers = []\<rparr> st0 = (Ok acc, st1)"
    using assms unfolding modify_acc_def by blast
  then show ?thesis by (rule within [rotated]) (simp add: acc_within_def)
qed

text \<open>An attribute that the request does not name is gone from the stored entry.\<close>

lemma modified_loses:
  assumes "modified server env state r d d'" "parseDN server (mod_object r) False = Ok dn" "d dn = Some prev"
    and "k \<notin> changed_keys prev r" "k \<notin> {AttrModifiersName, AttrModifyTimestamp}" "rdn_key dn \<noteq> Some k"
    and "\<forall>k \<in> changed_keys prev r. \<not> AttributeKey_EqualFold k AttrMember"
  shows "\<exists>as. d' dn = Some as \<and> Attributes_Get as k = []"
proof -
  obtain acc where acc: "modify_acc server state dn \<lparr>entry_DN = dn, entry_Attributes = prev\<rparr> r acc"
    and ch: "changed membership (set (ma_addMembers acc) \<union> set (ma_delMembers acc))
      (Put dn (entry_Attributes (NewEntry dn (modified_attributes env state acc)))) d d'"
    using assms(1-3) unfolding modified_def by auto
  note within = modify_acc_within [OF acc, unfolded acc_within_def, simplified]
  have d': "d' dn = Some (entry_Attributes (NewEntry dn (modified_attributes env state acc)))"
    using ch within assms(7) by (auto simp: changed_def)
  have "k \<notin> fst ` set (ma_attrs acc)" using within assms(4) by auto
  then have "map_of (ma_attrs acc) k = None" by (simp add: map_of_eq_None_iff)
  then have "Attributes_Get (modified_attributes env state acc) k = []"
    using assms(5) by (simp add: modified_attributes_def Attributes_Get_def)
  moreover have "agree_attrs {} dn (modified_attributes env state acc)
      (entry_Attributes (NewEntry dn (modified_attributes env state acc)))" by (rule agree_attrs_NewEntry)
  ultimately show ?thesis using d' assms(6) by (auto simp: agree_attrs_def)
qed

end
