(* ===== verification/Bottin_Example.thy ===== *)
theory Bottin_Example
  imports Bottin_Access
begin

text \<open>
  A small directory to evaluate the service on: base entry \<^verbatim>\<open>dc=t\<close>, one rule that permits
  everything, the memory store over a sorted list, and a password package whose hash is the
  password behind the scheme's tag.
\<close>

definition example_crypto :: Crypto where
  "example_crypto =
     \<lparr>md5_Sum = (\<lambda>b. b), base64_EncodeToString = string_of,
      ssha256_Validate = (\<lambda>pw h. Ok (h = SSHA256 @ pw)), ssha512_Validate = (\<lambda>pw h. Ok (h = SSHA512 @ pw))\<rparr>"

definition example_env :: Env where
  "example_env =
     \<lparr>env_ctx = context_Background, env_uuid = Ok ''uuid'', env_now = ''now'',
      env_ssha512_Generate = (\<lambda>pw n. Ok (SSHA512 @ pw))\<rparr>"

definition example_rule :: ACLEntry where
  "example_rule =
     \<lparr>acl_User = ''*'', acl_RequiredGroups = [], acl_Actions = [''*''], acl_Target = ''*'',
      acl_Attributes = [''*''], acl_ExcludedAttributes = []\<rparr>"

definition example_base :: DN where
  "example_base = [\<lparr>comp_Type = ''dc'', comp_Value = ''t''\<rparr>]"

definition example_server :: "(mementry list, MemTransaction) Server" where
  "example_server =
     \<lparr>srv_baseDN = example_base, srv_rootPasswd = SSHA512 @ ''root'', srv_acl = [example_rule],
      srv_store = Mem (list_btree mementryLess), srv_crypto = example_crypto\<rparr>"

definition example_state :: State where
  "example_state = \<lparr>state_user = Some \<lparr>usr_user = ''dc=t'', usr_groups = []\<rparr>\<rparr>"

text \<open>A store with some entries, given by their attributes.\<close>

fun example_store :: "(string \<times> Attributes) list \<Rightarrow> mementry list" where
  "example_store [] = []"
| "example_store ((raw, as) # rest) =
     (case ParseDN raw of
        Ok dn \<Rightarrow> insert_sorted mementryLess (newmementry \<lparr>entry_DN = dn, entry_Attributes = as\<rparr>) (example_store rest)
      | _ \<Rightarrow> example_store rest)"

definition example_add :: "string \<Rightarrow> (string \<times> string list) list \<Rightarrow> AddRequest" where
  "example_add dn as = \<lparr>add_entry = dn, add_attributes = map (\<lambda>(k, v). \<lparr>pa_type = k, pa_vals = v\<rparr>) as\<rparr>"

definition example_modify :: "string \<Rightarrow> ENUMERATED \<Rightarrow> string \<Rightarrow> string list \<Rightarrow> ModifyRequest" where
  "example_modify dn op k v =
     \<lparr>mod_object = dn, mod_changes = [\<lparr>mc_operation = op, mc_modification = \<lparr>pa_type = k, pa_vals = v\<rparr>\<rparr>]\<rparr>"

definition example_search :: "string \<Rightarrow> ENUMERATED \<Rightarrow> Filter \<Rightarrow> SearchRequest" where
  "example_search base scope f =
     \<lparr>sr_baseObject = base, sr_scope = scope, sr_derefAliases = 0, sr_sizeLimit = 0, sr_timeLimit = 0,
      sr_typesOnly = False, sr_filter = f, sr_attributes = []\<rparr>"

text \<open>The sorted list is a tree of the kind the store needs, and the example a server over it.\<close>

lemma example_tree: "google_btree mementryLess (list_btree mementryLess)"
  by (rule list_btree_google [OF weak_order_mementry])

interpretation example: bottin_server "Mem (list_btree mementryLess)" "mem_plain (list_btree mementryLess)"
    "mem_dir (list_btree mementryLess)" mem_live mem_log example_server "\<lambda>_. example_env"
  by (rule Mem_server [OF example_tree]) (simp_all add: example_server_def example_base_def)

text \<open>The configuration that gives this server, and the store after start-up with one user added.\<close>

definition example_config :: BottinConfig where
  "example_config = \<lparr>cfg_BaseDN = ''dc=t'', cfg_Passwd = ''root'', cfg_ACL = [''*::*:*:*'']\<rparr>"

lemma example_new:
  "NewBottin example_config example_env example_crypto (Err ErrNotFound) (Ok (Mem (list_btree mementryLess))) = Ok example_server"
proof -
  have "ParseDN ''dc=t'' = Ok example_base" "parseACL [''*::*:*:*''] = Ok [example_rule]" by code_simp+
  then show ?thesis
    by (simp add: NewBottin_def example_config_def ssha512Encode_def example_env_def example_server_def del: parseACL.simps)
qed

definition example_user :: DN where
  "example_user = \<lparr>comp_Type = ''uid'', comp_Value = ''a''\<rparr> # example_base"

definition example_dir :: "mementry list" where
  "example_dir = example_store [(''dc=t'', [(''dc'', [''t''])]), (''uid=a,dc=t'', [(''uid'', [''a'']), (''mail'', [''a@t''])])]"

lemma example_dir_plain: "mem_plain (list_btree mementryLess) example_dir"
  by code_simp

lemma example_run: "\<exists>st. Bottin_Run example_server example_env (NewMem (list_btree mementryLess)) = (Ok (), st)"
proof -
  have "fst (Bottin_Run example_server example_env (NewMem (list_btree mementryLess))) = Ok ()" by code_simp
  then show ?thesis by (metis prod.collapse)
qed

lemma example_facts:
  "srv_store example_server = Mem (list_btree mementryLess)" "srv_baseDN example_server \<noteq> []"
  "srv_crypto example_server = example_crypto" "srv_acl example_server = [example_rule]"
  by (simp_all add: example_server_def example_base_def)

lemma example_env_facts:
  "ctx_Err_Begin (env_ctx example_env) = None" "ctx_Err_Commit (env_ctx example_env) = None" "env_uuid example_env = Ok ''uuid''"
  "env_ssha512_Generate example_env pw n = Ok (SSHA512 @ pw)"
  by (simp_all add: example_env_def context_Background_def)

section \<open>Requests the code does not handle well\<close>

definition panics :: "'a outcome \<Rightarrow> bool" where
  "panics r = (case r of Panic _ \<Rightarrow> True | _ \<Rightarrow> False)"

text \<open>A password change with an empty value, sent before any bind, and a SASL bind.\<close>

lemma empty_password_change_panics:
  "panics (fst (Bottin_Extended example_server example_env zero_State
     \<lparr>ext_requestName = NoticeOfPasswordModify, ext_requestValue = Some []\<rparr> example_dir))"
  by code_simp

lemma sasl_bind_panics:
  "panics (fst (Bottin_Bind example_server zero_State \<lparr>bind_version = 3, bind_name = ''uid=a,dc=t'',
     bind_authentication = AuthSasl \<lparr>sasl_mechanism = ''PLAIN'', sasl_credentials = None\<rparr>\<rparr> example_dir))"
  by code_simp

text \<open>Deleting a group that is its own member reports success, and the entry is still there.\<close>

definition example_group :: DN where
  "example_group = \<lparr>comp_Type = ''cn'', comp_Value = ''g''\<rparr> # example_base"

lemma self_member_survives:
  "(case Bottin_Del example_server example_env example_state ''cn=g,dc=t'' (example_store [(''dc=t'', [(''dc'', [''t''])]),
       (''cn=g,dc=t'', [(''cn'', [''g'']), (''member'', [''cn=g,dc=t'']), (''memberof'', [''cn=g,dc=t''])])]) of
      (Ok (_, err), st) \<Rightarrow> err = None \<and> mem_dir (list_btree mementryLess) st example_group \<noteq> None
    | _ \<Rightarrow> False)"
  by code_simp

text \<open>Adding a group to its own members reports success, and the group has no member.\<close>

lemma self_member_lost:
  "(case Bottin_Modify example_server example_env example_state (example_modify ''cn=g,dc=t'' 0 ''member'' [''cn=g,dc=t''])
       (example_store [(''dc=t'', [(''dc'', [''t''])]), (''cn=g,dc=t'', [(''cn'', [''g''])])]) of
      (Ok (_, err), st) \<Rightarrow> err = None \<and>
        map_option (\<lambda>as. Attributes_Get as AttrMember) (mem_dir (list_btree mementryLess) st example_group) = Some []
    | _ \<Rightarrow> False)"
  by code_simp

text \<open>An entry without children cannot be deleted while a sibling's name begins with its name.\<close>

lemma sibling_blocks_delete:
  "(case Bottin_Del example_server example_env example_state ''cn=g,dc=t'' (example_store [(''dc=t'', [(''dc'', [''t''])]),
       (''cn=g,dc=t'', [(''cn'', [''g''])]), (''cn=g2,dc=t'', [(''cn'', [''g2''])])]) of
      (Ok (_, Some err), _) \<Rightarrow> errorCode 0 (Some err) = ResultCodeNotAllowedOnNonLeaf
    | _ \<Rightarrow> False)"
  by code_simp

end
