(* ===== verification/Spec2Isabelle.thy ===== *)
theory Spec2Isabelle
  imports Auth_Example Files Desec Net_Devices Kube Alerts Cal_Server Cal_Example Run_Services Broker Ui_Example S3_Example Log_Example Psql_Example
    Bottin_Example
begin

text \<open>
  A verification development for the teapot repository, a set of services in Go for a small
  cluster. The theories model the program part by part; this root theory states the properties that
  the parts have, and those that span them.

  \<^bold>\<open>The LDAP server and its directory.\<close> A client's bytes reach \<^verbatim>\<open>lib/ldapsrv\<close>, which frames and
  decodes them with \<^verbatim>\<open>lib/ldapsrv/goldap\<close>, calls a handler for each message in order, and encodes the
  responses. The handler is \<^verbatim>\<open>service/bottin\<close>, a directory with access rules over a store with
  transactions.

  \<^item> \<open>Go_Prelude\<close>: what a Go call can end in (\<open>Ok\<close>, \<open>Err\<close>, \<open>Panic\<close>, \<open>Diverge\<close> for a loop that does
    not end), the state-passing monad the code is written in, the generic lemmas. \<open>Go_Hoare\<close>: triples
    over that monad (\<open>go_spec\<close>) and the judgement that a run ends (\<open>ends\<close>, \<open>go_ends\<close>).
  \<^item> \<open>Ber\<close>, \<open>Ber_Codec\<close>, \<open>Ber_Prim\<close>: \<^verbatim>\<open>asn1.go\<close> and \<^verbatim>\<open>bytes.go\<close>. Integers have their width; the
    locale \<open>ber_codec\<close> is the contract between a reader, a writer and a size function (the writer
    writes what the size says, the reader reads it back, readers advance, stay in the buffer and end).
  \<^item> \<open>Ldap_Leaf\<close>, \<open>Ldap_Attr\<close>, \<open>Ldap_Result\<close>, \<open>Ldap_Filter\<close>, \<open>Ldap_Ops\<close>, \<open>Ldap_Message\<close> with the
    theories \<open>Ldap_Filter_Codec\<close> and \<open>Ldap_Ops_Codec\<close>: one group of definitions for each file of
    goldap, and an interpretation of \<open>ber_codec\<close> for each type. Together: C1 to C4.
  \<^item> \<open>Ldap_Server\<close>: \<^verbatim>\<open>packet.go\<close>, \<^verbatim>\<open>message.go\<close>, \<^verbatim>\<open>client.go\<close>, \<^verbatim>\<open>handler.go\<close>, \<^verbatim>\<open>errors.go\<close> and the
    constants. The buffered reader is a buffer and the segments still to arrive; the record \<open>Handler\<close>
    is the interface the service implements; \<open>serve\<close> is the loop of a connection, over the state of the
    client, the queue of responses and the world the handler changes. \<open>Ldap_Session\<close>: the locale
    \<open>world_invariant\<close> lifts an invariant that the handler keeps to whole sessions. Together: C5 to C10.
  \<^item> \<open>Bottin_Types\<close>, \<open>Bottin_Store\<close>, \<open>Bottin_Mem\<close>: the package \<^verbatim>\<open>store\<close>: names, entries, the interfaces
    \<^verbatim>\<open>Store\<close> and \<^verbatim>\<open>Transaction\<close> (a record of operations and the locales \<open>directory_store\<close> and
    \<open>reliable_store\<close>, stated on a map from names to attributes) and the memory store, which satisfies
    them over any ordered tree with the documented behaviour of the package btree (\<open>Btree\<close>).
  \<^item> \<open>Path_Match\<close>, \<open>Bottin_ACL\<close>: \<^verbatim>\<open>path.Match\<close> and \<^verbatim>\<open>acl.go\<close>. \<open>Bottin\<close>, \<open>Bottin_Write\<close>: \<^verbatim>\<open>bottin.go\<close>,
    \<^verbatim>\<open>auth.go\<close>, \<^verbatim>\<open>read.go\<close>, \<^verbatim>\<open>write.go\<close>, \<^verbatim>\<open>memberof.go\<close>, \<^verbatim>\<open>password.go\<close>: every operation of the handler.
    The clock, the random source, the request's context and the hash packages are parameters (\<open>Env\<close>,
    \<open>Crypto\<close>). Updates of attribute maps that alias the store's entries are made in the store at once
    (\<open>s_assign\<close>), as in the code, even when the transaction is dropped.
  \<^item> \<open>Bottin_Tree\<close>, \<open>Bottin_Requests\<close>, \<open>Bottin_Query\<close>, \<open>Bottin_Service\<close>, \<open>Bottin_Live\<close>, \<open>Bottin_Access\<close>:
    what each request does to the directory, for every store with the contract; that requests end and
    when they succeed; what searches return; who may do what. \<open>Bottin_Example\<close>: a small directory to
    evaluate the service on, and requests that the code does not handle well. Together: C11 to C20 and C23.

  \<^bold>\<open>The table cache and the PostgreSQL store.\<close> \<^verbatim>\<open>lib/pgcache\<close> keeps a database table in memory and
  tells other processes what a transaction changed.

  \<^item> \<open>Pg_SortedMap\<close>: \<^verbatim>\<open>sorted_map.go\<close>, a map behind a pointer that writers replace; \<open>Pg_Table\<close>:
    \<^verbatim>\<open>table.go\<close> and \<^verbatim>\<open>notification_manager.go\<close>, over parameters for the pool, JSON and the back-off;
    \<open>Pg_Replica\<close>: what a process makes of the events of another. \<open>Bottin_Psql\<close>: \<^verbatim>\<open>psql.go\<close>, the store
    of the directory on such a table, with the contract \<open>plain_store\<close>. \<open>Psql_Example\<close>: a database to
    evaluate it on. Together: C25 to C27.

  \<^bold>\<open>Files.\<close> \<open>Go_Strings\<close> has the string and path functions the code uses, \<open>Go_Os\<close> a disk whose system
  calls fail as a list of faults says.

  \<^item> \<open>Log_Worker\<close>, \<open>Log_Manager\<close>: \<^verbatim>\<open>service/log\<close>. A worker handles requests, flushes and rotations one
    at a time; the steps of a run are its state machine. \<open>Log_Stream\<close> proves over any gzip writer with
    the contract \<open>gzip_writer\<close> that the lines survive, \<open>Log_Example\<close> has an instance, C28 and C29.
  \<^item> \<open>Http_Handler\<close>: \<^verbatim>\<open>lib/httphandler\<close>, how errors become responses.
  \<^item> \<open>S3_Cache\<close>: \<^verbatim>\<open>lib/s3cache\<close>, a cache of a bucket on disk with its metadata file. \<open>S3_Cache_Proof\<close>
    has the locale \<open>s3_cache\<close> of what the client promises and the invariant, \<open>S3_Example\<close> a bucket,
    C32 and C34.

  \<^bold>\<open>Web pages.\<close> A page needs style sheets and scripts in an order that respects their requirements.

  \<^item> \<open>Ui_Linearize\<close>: \<^verbatim>\<open>lib/ui/dependency\<close> and \<^verbatim>\<open>linearize.go\<close>, Kahn's algorithm on maps that are
    iterated in any order. \<open>Ui_Render\<close>: the rest of \<^verbatim>\<open>lib/ui\<close>, with the packages of embedded files.
    \<open>Web_Handler\<close>: \<^verbatim>\<open>lib/ui/http\<close> and \<^verbatim>\<open>lib/webhandler\<close>, which call the renderer and the adapter of
    \<open>Http_Handler\<close>. \<open>Ui_Pages\<close> proves that the registry stays well formed, over the contract \<open>ui_env\<close>;
    \<open>Ui_Example\<close> has C35 to C37.

  \<^bold>\<open>Concurrency.\<close> \<open>Broker\<close> (\<^verbatim>\<open>lib/broker\<close>) and \<open>Run_Services\<close> (\<^verbatim>\<open>lib/run\<close>) are step relations whose steps
  interleave in any order, with invariants by induction over reachable states: C38 and C39.

  \<^bold>\<open>Calendars.\<close> \<open>Cal_Match\<close>: the filters of \<^verbatim>\<open>lib/webdav/caldav\<close>. \<open>Cal_Store\<close>, \<open>Cal_Online\<close>: the stores of
  \<^verbatim>\<open>service/calendar\<close>, in memory and online, the latter over \<open>Pg_Table\<close> and \<open>S3_Cache\<close>. \<open>Cal_Backend\<close>: the
  backend over a store. \<open>Cal_Example\<close>: the contracts \<open>object_store\<close> and \<open>exclusive_store\<close>, interpreted on
  the store in memory. \<open>Dav\<close>: \<^verbatim>\<open>lib/webdav/internal\<close> and \<^verbatim>\<open>lib/webdav/error\<close>, properties, headers and the
  dispatch of methods; a request has what the XML decoder makes of its body. \<open>Cal_Server\<close>: the rest of
  \<^verbatim>\<open>lib/webdav/caldav\<close>, the server over the backend, and C40.

  \<^bold>\<open>Users and web services.\<close> The web services authenticate their users against the directory.

  \<^item> \<open>Ldap_Pool\<close>: the pool of connections in \<^verbatim>\<open>lib/ldap/pool.go\<close>, a step relation over the two channels,
    the workers and the callers: C22. \<open>Ldap_Client\<close>: \<^verbatim>\<open>lib/tmplstring\<close> and the rest of \<^verbatim>\<open>lib/ldap\<close>, over a
    record \<open>ldap_lib\<close> of the operations of a connection.
  \<^item> \<open>Http_Auth\<close>: \<^verbatim>\<open>lib/httpauth\<close> and \<^verbatim>\<open>lib/webauth\<close>, over a record \<open>jwt_lib\<close> for the token package and
    a clock. \<open>Kontakte\<close>: the handlers and routes of \<^verbatim>\<open>service/kontakte\<close>. \<open>Auth_Example\<close>: a directory to
    evaluate them on, C24, C31 and C33.
  \<^item> \<open>Files\<close>: \<^verbatim>\<open>service/files\<close>, mounts, sessions, the file system behind WebDAV and the pages. Whatever
    name a client sends, the path used is valid and inside the root. \<open>Desec\<close>: \<^verbatim>\<open>service/desec\<close>, record
    sets and endpoints, the provider and the web hook.

  \<^bold>\<open>Network.\<close> \<open>Net\<close>: \<^verbatim>\<open>service/net\<close> and its router, from the nodes that Kubernetes reports to the routes of
  the kernel: C21. \<open>Net_Devices\<close>: the WireGuard peers and the bridge for containers. The kernel is a
  world that netlink, wgctrl and iptables change; addresses and prefixes are those of \<^verbatim>\<open>netip\<close>.

  \<^bold>\<open>Controllers and alerts.\<close> \<open>Kube\<close>: the queue of \<^verbatim>\<open>lib/kubecontroller\<close>, \<^verbatim>\<open>lib/kubeutil\<close>, \<^verbatim>\<open>service/ccm\<close> with
  its internal and external addresses, and \<^verbatim>\<open>service/loadbalancer\<close> with C30. The API of Kubernetes is a record
  of operations on a world; for C30 it obeys the laws \<open>lb_laws\<close>, and lists in any order. \<open>Alerts\<close>:
  \<^verbatim>\<open>service/alert\<close>, the channel of alerts, the back-off on rate limits and the issues made of alerts.

  \<^bold>\<open>Bounds.\<close> Encodings are shorter than \<open>2 ^ 31\<close> bytes where lengths are parsed. The readers of
  goldap recurse on the nesting of the input; the nesting bound of the model is the length of the
  input, which C3 shows to be enough. The loop of the linearisation is a partial function, and C35
  shows that it returns; the retries of a rotation end when the faults of the disk are used up.

  \<^bold>\<open>Not modelled.\<close> Sockets and TLS; the goroutines of a connection (its requests are processed one
  after the other, and the queue of responses is a list) and of the groups that fetch or convert
  objects in parallel; logging, histograms and tracing, except for the control that carries a trace;
  XML itself, and the file server of \<^verbatim>\<open>lib/webdav/server.go\<close>; static HTML; flags and the wiring of the
  commands; the creation of network devices; the informers that feed the queue of a controller; the
  release tool; the log files of httplog. Cluster events are values: that the code publishes a map which it later changes in place is
  not modelled. Contracts of the online calendar store are not proved yet.
\<close>

section \<open>The LDAP message codec\<close>

text \<open>
  C1. Round trip of the wire format: for every message the reader can represent (\<open>wf_message\<close>)
  whose encoding is shorter than \<open>2 ^ 31\<close> bytes, \<^verbatim>\<open>LDAPMessage.Write\<close> returns a buffer without
  an error, and \<^verbatim>\<open>ReadLDAPMessage\<close> on that buffer returns the same message and ends exactly at the
  end of the buffer.
\<close>

theorem message_roundtrip:
  assumes "wf_message m" and "LDAPMessage_size m < 2 ^ 31"
  shows "\<exists>bs. LDAPMessage_Write m = Ok bs \<and> length (bytes bs) = LDAPMessage_size m \<and>
    ReadLDAPMessage bs = (Ok m, bs\<lparr>offset := LDAPMessage_size m\<rparr>)"
  using LDAPMessage.read_enc [OF assms] by (simp add: Write_enc LDAPMessage.size_enc)

definition example_bind :: LDAPMessage where
  "example_bind =
     \<lparr>msg_messageID = 7,
      msg_protocolOp = OpBindRequest
        \<lparr>bind_version = 3, bind_name = ''cn=admin'', bind_authentication = AuthSimple ''secret''\<rparr>,
      msg_controls = Some [\<lparr>ctl_controlType = ''1.2.3'', ctl_criticality = True, ctl_controlValue = Some ''v''\<rparr>]\<rparr>"

lemma example_bind_wf: "wf_message example_bind"
  by code_simp

lemma example_bind_size: "LDAPMessage_size example_bind = 45"
  by code_simp

theorem message_roundtrip_witness:
  "\<exists>bs. LDAPMessage_Write example_bind = Ok bs \<and> length (bytes bs) = LDAPMessage_size example_bind \<and>
    ReadLDAPMessage bs = (Ok example_bind, bs\<lparr>offset := LDAPMessage_size example_bind\<rparr>)"
  by (rule message_roundtrip [OF example_bind_wf]) (simp add: example_bind_size)

text \<open>
  C2. \<^verbatim>\<open>LDAPMessage.Write\<close> succeeds on every message, well-formed or not: the size computed in
  advance is the number of bytes written, so neither the panic of \<^verbatim>\<open>writeBytes\<close> nor the final
  check of size and offset is ever reached.
\<close>

theorem Write_total:
  "\<exists>bs. LDAPMessage_Write m = Ok bs \<and> length (bytes bs) = LDAPMessage_size m \<and> offset bs = 0"
  by (simp add: Write_enc LDAPMessage.size_enc)

text \<open>
  C3. \<^verbatim>\<open>ReadLDAPMessage\<close> returns on every input: no loop of a reader and no nesting of filters
  runs into the bounds of the model, whatever bytes the buffer holds and wherever the offset is.
\<close>

theorem ReadLDAPMessage_returns: "fst (ReadLDAPMessage bs) \<noteq> Diverge"
  using LDAPMessage.terminates_rd by (simp add: terminates_def)

text \<open>
  C4. A successful \<^verbatim>\<open>ReadLDAPMessage\<close> leaves the buffer's bytes alone, consumes at least a tag
  and a length, and never moves the offset past the end of the buffer.
\<close>

theorem ReadLDAPMessage_bounds:
  assumes "ReadLDAPMessage bs = (Ok m, bs')"
  shows "bytes bs' = bytes bs \<and> offset bs + 2 \<le> offset bs' \<and> offset bs' \<le> length (bytes bs)"
  by (rule advancesD [OF LDAPMessage.advances_rd assms])

definition example_unbind :: Bytes where
  "example_unbind = \<lparr>bytes = [0x30, 0x05, 0x02, 0x01, 0x09, 0x42, 0x00], offset = 0\<rparr>"

lemma example_unbind_read:
  "ReadLDAPMessage example_unbind =
     (Ok \<lparr>msg_messageID = 9, msg_protocolOp = OpUnbindRequest, msg_controls = None\<rparr>,
      \<lparr>bytes = [0x30, 0x05, 0x02, 0x01, 0x09, 0x42, 0x00], offset = 7\<rparr>)"
  by code_simp

theorem ReadLDAPMessage_bounds_witness:
  "offset example_unbind + 2 \<le> (7 :: nat) \<and> 7 \<le> length (bytes example_unbind)"
  using ReadLDAPMessage_bounds [OF example_unbind_read] by simp

section \<open>The LDAP server\<close>


definition example_unbind_message :: LDAPMessage where
  "example_unbind_message = \<lparr>msg_messageID = 8, msg_protocolOp = OpUnbindRequest, msg_controls = None\<rparr>"

lemma example_sendable: "list_all sendable [example_bind, example_unbind_message]"
proof -
  have "wf_message example_unbind_message" "LDAPMessage_size example_unbind_message = 7" by code_simp+
  then show ?thesis using example_bind_wf example_bind_size by (simp add: sendable_def)
qed





text \<open>
  C7. A client can decode every final response to a supported request: the bytes of the response
  decode to the response itself, for every code of the protocol and every diagnostic text that
  keeps the message below \<open>2 ^ 31\<close> bytes.
\<close>

theorem response_decodes:
  assumes "supported_request op" "code \<in> fst ` set EnumeratedLDAPResultCode" "0 \<le> sint i"
    and "LDAPMessage_size (response i (final_response op (error_result errtext code err))) < 2 ^ 31"
  shows "readMessage (wire (response i (final_response op (error_result errtext code err)))) =
    Ok (response i (final_response op (error_result errtext code err)))"
  using assms final_response_wf [of op code errtext err]
  by (intro readMessage_wire) (simp add: sendable_def wf_message_def response_def)

lemma example_bind_reply:
  "response 7 (final_response (msg_protocolOp example_bind)
      (error_result (\<lambda>e. ''no'') ResultCodeInvalidCredentials (Some ErrInvalidCredentials))) =
   \<lparr>msg_messageID = 7, msg_protocolOp = OpBindResponse
      \<lparr>bresp_LDAPResult = \<lparr>res_resultCode = ResultCodeInvalidCredentials, res_matchedDN = [],
         res_diagnosticMessage = ''no'', res_referral = None\<rparr>, bresp_serverSaslCreds = None\<rparr>, msg_controls = None\<rparr>"
  by (simp add: response_def final_response_def example_bind_def error_result_def NewResponse_def
      LDAPResult_SetResultCode_def LDAPResult_SetDiagnosticMessage_def)

lemma example_bind_reply_size:
  "LDAPMessage_size \<lparr>msg_messageID = 7, msg_protocolOp = OpBindResponse
      \<lparr>bresp_LDAPResult = \<lparr>res_resultCode = ResultCodeInvalidCredentials, res_matchedDN = [],
         res_diagnosticMessage = ''no'', res_referral = None\<rparr>, bresp_serverSaslCreds = None\<rparr>, msg_controls = None\<rparr> = 16"
  by code_simp

theorem response_decodes_witness:
  "readMessage (wire (response 7 (final_response (msg_protocolOp example_bind)
      (error_result (\<lambda>e. ''no'') ResultCodeInvalidCredentials (Some ErrInvalidCredentials))))) =
   Ok (response 7 (final_response (msg_protocolOp example_bind)
      (error_result (\<lambda>e. ''no'') ResultCodeInvalidCredentials (Some ErrInvalidCredentials))))"
proof (rule response_decodes)
  show "LDAPMessage_size (response 7 (final_response (msg_protocolOp example_bind)
      (error_result (\<lambda>e. ''no'') ResultCodeInvalidCredentials (Some ErrInvalidCredentials)))) < 2 ^ 31"
    unfolding example_bind_reply example_bind_reply_size by simp
qed (simp_all add: example_bind_def EnumeratedLDAPResultCode_def)

text \<open>
  C8. Whatever bytes a packet holds, decoding it ends in a message or an error: a panic of the
  decoder is caught (it becomes an error that the loop skips), and no loop of it runs for ever.
\<close>

theorem readMessage_total: "(\<exists>m. readMessage p = Ok m) \<or> (\<exists>e. readMessage p = Err e)"
  using decodeMessage_not_Panic(1) [of p] decodeMessage_not_Panic(2) [of p]
  unfolding readMessage_decode by (cases "decodeMessage p") auto

text \<open>
  C9. When a connection ends, whatever was sent on it and whatever handler served it, no request
  is left registered.
\<close>

theorem no_request_left:
  "cl_requestList (fst (snd (serve errtext h zero state ps (new_client, w)))) = Map.empty"
  by (rule serve_requests) (simp add: new_client_def)




section \<open>The directory\<close>

text \<open>
  C11. The directory stays a tree. Take a service configured by \<^verbatim>\<open>NewBottin\<close> over the memory store
  and started by \<^verbatim>\<open>Run\<close>. Whatever packets any client then sends (as long as new entries are not named
  with a slash, the separator of the store's keys), whoever is bound, and however the clock, the
  random source and the requests' contexts behave, the tree of the store stays well formed, every entry is
  at or below the base entry, and every entry but the base has its parent in the directory.
\<close>

theorem serve_keeps_tree:
  assumes "google_btree mementryLess bt"
    and "NewBottin config env0 crypto random (Ok (Mem bt)) = Ok server" "prefixSeparator \<notin> set (cfg_BaseDN config)"
    and "Bottin_Run server env (NewMem bt) = (Ok u, st)"
    and "\<And>packet m. Ok packet \<in> set ps \<Longrightarrow> readMessage packet = Ok m \<Longrightarrow> plain_request (msg_protocolOp m)"
  shows "dir_inv (mem_plain bt) (mem_dir bt) (srv_baseDN server)
    (snd (snd (snd (serve errtext (Bottin_Handler server envs) zero_State zero_State ps (c, n, st)))))"
proof (rule bottin_server.serve_tree [OF Mem_server [OF assms(1)]])
  note run = Run_NewMem [OF assms(1-4)]
  have "tree (srv_baseDN server) Map.empty" by (simp add: tree_def)
  with initialized_tree(1) [OF this run(2)] run(1) show "dir_inv (mem_plain bt) (mem_dir bt) (srv_baseDN server) st"
    by (simp add: dir_inv_def)
  show "srv_store server = Mem bt" using NewBottin_Ok(2) [OF assms(2)] by simp
qed (use NewBottin_base [OF assms(2)] assms(5) in auto)

theorem serve_keeps_tree_witness:
  "\<exists>st. Bottin_Run example_server example_env (NewMem (list_btree mementryLess)) = (Ok (), st) \<and>
     dir_inv (mem_plain (list_btree mementryLess)) (mem_dir (list_btree mementryLess)) (srv_baseDN example_server)
       (snd (snd (snd (serve (\<lambda>e. []) (Bottin_Handler example_server (\<lambda>_. example_env)) zero_State zero_State
          [Ok (wire example_bind)] (new_client, 0, st)))))"
proof -
  obtain st where st: "Bottin_Run example_server example_env (NewMem (list_btree mementryLess)) = (Ok (), st)"
    using example_run by blast
  have "sendable example_bind" using example_sendable by simp
  note bind = readMessage_wire [OF this]
  have "dir_inv (mem_plain (list_btree mementryLess)) (mem_dir (list_btree mementryLess)) (srv_baseDN example_server)
       (snd (snd (snd (serve (\<lambda>e. []) (Bottin_Handler example_server (\<lambda>_. example_env)) zero_State zero_State
          [Ok (wire example_bind)] (new_client, 0, st)))))"
    by (rule serve_keeps_tree [OF example_tree example_new _ st])
       (use bind in \<open>auto simp: example_config_def prefixSeparator_def plain_request_def example_bind_def\<close>)
  with st show ?thesis by blast
qed

text \<open>
  C12. The memory store refines the directory as a map: a transaction that stores and deletes any
  entries (not named with a slash) and is committed with a live context succeeds, and the directory
  is then the old one with the changes applied in order.
\<close>

theorem Mem_transaction:
  assumes "google_btree mementryLess bt" "mem_plain bt tr"
    and "ctx_Err_Begin ctx = None" "ctx_Err_Commit ctx = None" "list_all (\<lambda>c. good_DN (change_DN c)) cs"
  shows "\<exists>tx tr' tx'. Mem_Begin ctx tr = (Ok tx, tr) \<and>
    go_bind (go_each (tx_apply (Mem bt)) cs) (\<lambda>_. MemTransaction_Commit bt ctx) (tr, tx) = (Ok (), tr', tx') \<and>
    mem_plain bt tr' \<and> mem_dir bt tr' = apply_changes cs (mem_dir bt tr)"
  using reliable_store.transaction_run [OF Mem_reliable [OF assms(1)] assms(2-5)] by (simp add: Mem_def)

definition example_changes :: "dir_change list" where
  "example_changes = [Put (\<lparr>comp_Type = ''ou'', comp_Value = ''x''\<rparr> # example_base) [], Remove example_user]"

theorem Mem_transaction_witness:
  "\<exists>tx tr' tx'. Mem_Begin context_Background example_dir = (Ok tx, example_dir) \<and>
    go_bind (go_each (tx_apply (Mem (list_btree mementryLess))) example_changes)
      (\<lambda>_. MemTransaction_Commit (list_btree mementryLess) context_Background) (example_dir, tx) = (Ok (), tr', tx') \<and>
    mem_plain (list_btree mementryLess) tr' \<and>
    mem_dir (list_btree mementryLess) tr' = apply_changes example_changes (mem_dir (list_btree mementryLess) example_dir)"
proof (rule Mem_transaction [OF example_tree example_dir_plain])
  show "list_all (\<lambda>c. good_DN (change_DN c)) example_changes" by code_simp
qed (simp_all add: context_Background_def)







text \<open>
  C16. A changed password works. A user who passes the checks of the password change gets no error
  from it, and whoever then binds to that entry with the new password (if the rules permit the bind)
  is authenticated under the name given. The hash package is taken at its word: it makes a hash
  with the tag of its scheme and validates it against the same password.
\<close>

theorem password_change_bind:
  assumes "google_btree mementryLess bt" "srv_store server = Mem bt" "mem_plain bt st"
    and change: "password_changeable server state r (mem_dir bt st) dn pw" "rdn_key dn \<noteq> Some AttrUserPassword"
    and ctx: "ctx_Err_Begin (env_ctx env) = None" "ctx_Err_Commit (env_ctx env) = None"
    and hash: "env_ssha512_Generate env pw 16 = Ok hash" "strings_HasPrefix hash SSHA512"
      "ssha512_Validate (srv_crypto server) pw hash = Ok True" "crypto_ends (srv_crypto server)"
    and bind: "parseDN server (bind_name b) False = Ok dn" "bind_authentication b = AuthSimple pw"
      "ACL_Check (srv_acl server) (State_User state') ''bind'' dn []"
  shows "\<exists>st' s st''. Bottin_Extended server env state r st = (Ok (state, None), st') \<and>
    Bottin_Bind server state' b st' = (Ok (s, None), st'') \<and> usr_user (State_User s) = bind_name b \<and>
    mem_plain bt st'' \<and> mem_dir bt st'' = mem_dir bt st'"
proof -
  let ?d = "mem_dir bt st"
  have R: "reading (mem_plain bt) (mem_dir bt) ?d st" using assms(3) by (simp add: reading_def)
  note store = Mem_reliable [OF assms(1)] and dir = Mem_directory [OF assms(1)]
  note good = directory_store.wf_good [OF dir assms(3)]
  obtain pmr where pmr: "ExtendedRequest_PasswordModifyRequest r = Ok pmr" "pmr_newPassword pmr = Some pw"
    "parseDN server (password_target state pmr) False = Ok dn" "dn \<noteq> srv_baseDN server"
    using change(1) by (auto simp: password_changeable_def)
  have "handler_ends False (reading (mem_plain bt) (mem_dir bt) ?d) (Bottin_Extended server env state r)"
    by (rule reliable_store.Extended_ends [OF store assms(2)]) (use change(1) pmr hash(1) ctx in auto)
  from handler_endsD [OF this R] obtain s st' where run: "Bottin_Extended server env state r st = (Ok (s, None), st')" by auto
  from go_specD [OF directory_store.Extended_spec [OF dir assms(2) good] R run]
  have s: "s = state" "mem_plain bt st'" and "password_changed server env state r ?d (mem_dir bt st')" by auto
  then obtain as where as: "mem_dir bt st' dn = Some (entry_Attributes (NewEntry dn (attr_set AttrUserPassword [hash] as)))"
    using pmr hash(1) by (auto simp: password_changed_def)
  have R': "reading (mem_plain bt) (mem_dir bt) (mem_dir bt st') st'" using s by (simp add: reading_def)
  have "Attributes_Get (entry_Attributes (NewEntry dn (attr_set AttrUserPassword [hash] as))) AttrUserPassword = [hash]"
    using agree_attrs_NewEntry [of "{}" dn "attr_set AttrUserPassword [hash] as"] change(2)
    by (simp add: agree_attrs_def Get_attr_set)
  then have "bindable server state' b (mem_dir bt st')"
    unfolding bindable_def using as bind pmr(4) hash(2,3) matchPassword_ssha512 by auto
  then have "handler_ends False (reading (mem_plain bt) (mem_dir bt) (mem_dir bt st')) (Bottin_Bind server state' b)"
    by (intro directory_store.Bind_ends [OF dir assms(2) hash(4) bind(2)]) simp
  from handler_endsD [OF this R'] obtain s' st'' where bound: "Bottin_Bind server state' b st' = (Ok (s', None), st'')" by auto
  from go_specD [OF directory_store.Bind_spec [OF dir assms(2)] R' bound]
  have "reading (mem_plain bt) (mem_dir bt) (mem_dir bt st') st''" "authenticated server state' b (mem_dir bt st') s'" by auto
  then have "usr_user (State_User s') = bind_name b" "mem_plain bt st''" "mem_dir bt st'' = mem_dir bt st'"
    by (auto simp: authenticated_def State_User_def reading_def)
  with run bound s(1) show ?thesis by blast
qed

definition example_password_change :: ExtendedRequest where
  "example_password_change = \<lparr>ext_requestName = NoticeOfPasswordModify,
     ext_requestValue = Some (string_of [0x30, 16, 0x80, 10] @ ''uid=a,dc=t'' @ string_of [0x82, 2] @ ''pw'')\<rparr>"

definition example_login :: BindRequest where
  "example_login = \<lparr>bind_version = 3, bind_name = ''uid=a,dc=t'', bind_authentication = AuthSimple ''pw''\<rparr>"

lemma example_password_request:
  "ExtendedRequest_PasswordModifyRequest example_password_change =
     Ok \<lparr>pmr_userIdentity = Some ''uid=a,dc=t'', pmr_oldPassword = None, pmr_newPassword = Some ''pw''\<rparr>"
  by code_simp

lemma example_names:
  "parseDN example_server ''uid=a,dc=t'' False = Ok example_user" "example_user \<noteq> example_base"
  "mem_dir (list_btree mementryLess) example_dir example_user = Some [(''uid'', [''a'']), (''mail'', [''a@t''])]"
  "ACL_Check [example_rule] (State_User example_state) ''modify'' example_user [AttrUserPassword]"
  "ACL_Check [example_rule] (State_User zero_State) ''bind'' example_user []"
  "rdn_key example_user \<noteq> Some AttrUserPassword" "usr_user (State_User example_state) \<noteq> AnonymousUser"
  by code_simp+

theorem password_change_bind_witness:
  "\<exists>st' s st''. Bottin_Extended example_server example_env example_state example_password_change example_dir =
      (Ok (example_state, None), st') \<and>
    Bottin_Bind example_server zero_State example_login st' = (Ok (s, None), st'') \<and>
    usr_user (State_User s) = bind_name example_login \<and>
    mem_plain (list_btree mementryLess) st'' \<and> mem_dir (list_btree mementryLess) st'' = mem_dir (list_btree mementryLess) st'"
proof (rule password_change_bind [OF example_tree example_facts(1) example_dir_plain _ example_names(6) example_env_facts(1,2)])
  show "password_changeable example_server example_state example_password_change (mem_dir (list_btree mementryLess) example_dir)
      example_user ''pw''"
    unfolding password_changeable_def
    using example_names example_password_request example_facts(4)
    by (simp add: password_target_def example_password_change_def example_server_def domI)
  show "env_ssha512_Generate example_env ''pw'' 16 = Ok (SSHA512 @ ''pw'')" by (rule example_env_facts(4))
qed (use example_names example_facts in
  \<open>simp_all add: strings_HasPrefix_def crypto_ends_def example_crypto_def example_login_def\<close>)

text \<open>
  C17. What Bind does, in every case. A simple bind returns and leaves the directory alone. It
  succeeds exactly when the name parses and lies below the base, the rules permit the bind, the entry
  exists and one of its hashes matches the password (the configured hash, for the base entry). Then the
  session is that user's, with the groups of the entry; otherwise it stays whose it was.
\<close>

theorem Bind_total:
  assumes "google_btree mementryLess bt" "srv_store server = Mem bt" "mem_plain bt st"
    and "crypto_ends (srv_crypto server)" "bind_authentication r = AuthSimple pw"
  shows "\<exists>s err st'. Bottin_Bind server state r st = (Ok (s, err), st') \<and> mem_plain bt st' \<and> mem_dir bt st' = mem_dir bt st \<and>
    (err = None \<longleftrightarrow> bindable server state r (mem_dir bt st)) \<and>
    (if err = None then authenticated server state r (mem_dir bt st) s else s = state)"
proof -
  let ?d = "mem_dir bt st"
  let ?ok = "bindable server state r ?d"
  have R: "reading (mem_plain bt) (mem_dir bt) ?d st" using assms(3) by (simp add: reading_def)
  note dir = Mem_directory [OF assms(1)]
  have "handler_ends (\<not> ?ok) (reading (mem_plain bt) (mem_dir bt) ?d) (Bottin_Bind server state r)"
    by (intro directory_store.Bind_ends [OF dir assms(2,4,5)]) simp
  from handler_endsD [OF this R] obtain s err st' where run: "Bottin_Bind server state r st = (Ok (s, err), st')" "\<not> ?ok \<or> err = None"
    by blast
  have "authenticated server state r ?d s \<Longrightarrow> ?ok"
    unfolding authenticated_def bindable_def by blast
  with go_specD [OF directory_store.Bind_spec [OF dir assms(2)] R run(1)] run show ?thesis
    by (cases err) (auto simp: reading_def)
qed

theorem Bind_total_witness:
  "\<exists>s err st'. Bottin_Bind example_server zero_State example_login example_dir = (Ok (s, err), st') \<and>
    mem_plain (list_btree mementryLess) st' \<and> mem_dir (list_btree mementryLess) st' = mem_dir (list_btree mementryLess) example_dir \<and>
    (err = None \<longleftrightarrow> bindable example_server zero_State example_login (mem_dir (list_btree mementryLess) example_dir)) \<and>
    (if err = None then authenticated example_server zero_State example_login (mem_dir (list_btree mementryLess) example_dir) s
     else s = zero_State)"
  by (rule Bind_total [OF example_tree example_facts(1) example_dir_plain, where pw = "''pw''"])
     (simp_all add: example_facts crypto_ends_def example_crypto_def example_login_def)

text \<open>
  C18. The rules are enforced. Bind, Search, Add, Delete, Modify and Compare on a name that parses
  are answered with insufficientAccessRights when no rule permits the action (for all the attributes
  given, where the request names attributes); the session and the store stay exactly as they were and
  no entry is sent.
\<close>

theorem access_refused:
  assumes "permission op = Some (action, raw, up, attrs)" "parseDN server raw up = Ok dn"
    and "\<forall>rule \<in> set (srv_acl server). \<not> rule_permits rule (State_User state) action dn attrs"
  shows "\<exists>err. runHandler (Bottin_Handler server envs) zero state op (n, st) =
    (Ok ([], state, ResultCodeInsufficientAccessRights, Some err), Suc n, st)"
proof -
  have "\<not> ACL_Check (srv_acl server) (State_User state) action dn attrs"
    using assms(3) by (simp add: ACL_Check_iff)
  from refused [OF assms(1,2) this] obtain code x where
    "dispatch (Bottin_Handler server envs) zero state op (n, st) = (Ok ([], state, code, Some (denied x)), Suc n, st)" by blast
  then show ?thesis by (simp add: runHandler_def denied_code)
qed

definition closed_server :: "(mementry list, MemTransaction) Server" where
  "closed_server = example_server\<lparr>srv_acl := []\<rparr>"

theorem access_refused_witness:
  "\<exists>err. runHandler (Bottin_Handler closed_server (\<lambda>_. example_env)) zero_State example_state (OpDelRequest ''uid=a,dc=t'') (0, example_dir) =
    (Ok ([], example_state, ResultCodeInsufficientAccessRights, Some err), Suc 0, example_dir)"
proof (rule access_refused)
  show "permission (OpDelRequest ''uid=a,dc=t'') = Some (''delete'', ''uid=a,dc=t'', False, [])" by simp
  show "parseDN closed_server ''uid=a,dc=t'' False = Ok example_user" by code_simp
qed (simp add: closed_server_def)

text \<open>
  C19. No request stops the server. With a store in good order and packages that return, every
  operation a client can send is completed by the service with a response and a session state, except
  for the two requests that run into a panic (\<open>safe_request\<close>): a bind that is not simple, and a
  password change whose value makes the decoder panic.
\<close>

theorem handlers_return:
  assumes "google_btree mementryLess bt" "srv_store server = Mem bt" "srv_baseDN server \<noteq> []" "mem_plain bt st"
    and "crypto_ends (srv_crypto server)" "\<And>n. env_ends (envs n)" "safe_request op"
  shows "\<exists>written state' code err st'. runHandler (Bottin_Handler server envs) zero state op (n, st) =
    (Ok (written, state', code, err), st')"
proof -
  have "ends False (fst (dispatch (Bottin_Handler server envs) zero state op (n, st)))"
    by (rule go_endsD [OF reliable_store.dispatch_ends [OF Mem_reliable [OF assms(1)] assms(2,3,5-7)]]) (simp add: assms(4))
  then show ?thesis
    by (cases "dispatch (Bottin_Handler server envs) zero state op (n, st)") (auto simp: runHandler_def ends_False)
qed

theorem handlers_return_witness:
  "\<exists>written state' code err st'. runHandler (Bottin_Handler example_server (\<lambda>_. example_env)) zero_State zero_State
      (OpBindRequest example_login) (0, example_dir) = (Ok (written, state', code, err), st')"
  by (rule handlers_return [OF example_tree example_facts(1,2) example_dir_plain])
     (simp_all add: example_facts crypto_ends_def example_crypto_def env_ends_def example_env_def safe_request_def example_login_def)

text \<open>
  C20. What a search below the base returns: with a scope other than the base object and a filter built
  from and, or, not, presence and equality, on entries whose attribute names are in lower case, the search
  the rules permit returns without error, does not change the store, and returns the entries in the
  range of the base that are in scope, satisfy the filter (read as a predicate on the attributes) and
  may be read by the user, each showing the requested attributes that the user may read.
\<close>

theorem Search_results:
  assumes "google_btree mementryLess bt" "srv_store server = Mem bt" "mem_plain bt st"
    and "parseDN server (sr_baseObject r) True = Ok base" "base \<noteq> []"
    and "ACL_Check (srv_acl server) (State_User state) ''read'' base []" "sr_scope r \<noteq> SearchRequestScopeBaseObject"
    and "supported (sr_filter r)" "\<forall>as \<in> ran (mem_dir bt st). lower_keys as"
  shows "\<exists>rs. Bottin_Search server state r st = (Ok (rs, state, None), st) \<and>
    set rs = shown server (State_User state) r ` {e. mem_dir bt st (entry_DN e) = Some (entry_Attributes e) \<and>
      in_range (DN_Prefix base) (DN_Prefix (entry_DN e)) \<and> in_scope r base (entry_DN e) \<and>
      satisfies (entry_Attributes e) (sr_filter r) \<and> ACL_Check (srv_acl server) (State_User state) ''read'' (entry_DN e) []}"
proof -
  have filters: "applyFilter e (sr_filter r) = Ok (satisfies (entry_Attributes e) (sr_filter r))"
    if "mem_dir bt st (entry_DN e) = Some (entry_Attributes e)" for e
    using lower_keys_filter [of e "sr_filter r"] assms(8,9) ranI [of "mem_dir bt st", OF that] by blast
  have "\<exists>b. applyFilter \<lparr>entry_DN = dn, entry_Attributes = as\<rparr> (sr_filter r) = Ok b" if "mem_dir bt st dn = Some as" for dn as
    using filters [of "\<lparr>entry_DN = dn, entry_Attributes = as\<rparr>"] that by simp
  note below = directory_store.Search_below [OF Mem_directory [OF assms(1)] assms(2-7) this]
  have "{e. mem_dir bt st (entry_DN e) = Some (entry_Attributes e) \<and>
      in_range (DN_Prefix base) (DN_Prefix (entry_DN e)) \<and> visible server (State_User state) r base e} =
    {e. mem_dir bt st (entry_DN e) = Some (entry_Attributes e) \<and>
      in_range (DN_Prefix base) (DN_Prefix (entry_DN e)) \<and> in_scope r base (entry_DN e) \<and>
      satisfies (entry_Attributes e) (sr_filter r) \<and> ACL_Check (srv_acl server) (State_User state) ''read'' (entry_DN e) []}"
    using filters by (auto simp: visible_def)
  with below show ?thesis by metis
qed

definition example_query :: SearchRequest where
  "example_query = example_search ''dc=t'' SearchRequestHomeSubtree
     (FilterNot (FilterEqualityMatch \<lparr>ava_attributeDesc = ''mail'', ava_assertionValue = ''b@t''\<rparr>))"

theorem Search_results_witness:
  "\<exists>rs. Bottin_Search example_server example_state example_query example_dir = (Ok (rs, example_state, None), example_dir) \<and>
    set rs = shown example_server (State_User example_state) example_query ` {e.
      mem_dir (list_btree mementryLess) example_dir (entry_DN e) = Some (entry_Attributes e) \<and>
      in_range (DN_Prefix example_base) (DN_Prefix (entry_DN e)) \<and> in_scope example_query example_base (entry_DN e) \<and>
      satisfies (entry_Attributes e) (sr_filter example_query) \<and>
      ACL_Check (srv_acl example_server) (State_User example_state) ''read'' (entry_DN e) []}"
proof (rule Search_results [OF example_tree example_facts(1) example_dir_plain])
  show "parseDN example_server (sr_baseObject example_query) True = Ok example_base" "example_base \<noteq> []"
    "ACL_Check (srv_acl example_server) (State_User example_state) ''read'' example_base []"
    "sr_scope example_query \<noteq> SearchRequestScopeBaseObject" "supported (sr_filter example_query)"
    by code_simp+
  show "\<forall>as \<in> ran (mem_dir (list_btree mementryLess) example_dir). lower_keys as"
  proof
    fix as assume "as \<in> ran (mem_dir (list_btree mementryLess) example_dir)"
    then have "as \<in> set (map (\<lambda>m. entry_Attributes (me_entry m)) example_dir)"
      by (force simp: mem_dir_def ran_def list_btree_def dest: map_of_SomeD)
    moreover have "list_all lower_keys (map (\<lambda>m. entry_Attributes (me_entry m)) example_dir)" by code_simp
    ultimately show "lower_keys as" by (simp only: list_all_iff)
  qed
qed

text \<open>
  A search of the base object returns nothing: with that scope the service lists the base entry
  and then skips exactly that entry, so the search ends successfully and empty whatever the
  directory holds.
\<close>

theorem Search_base_empty:
  assumes "google_btree mementryLess bt" "srv_store server = Mem bt" "mem_plain bt st"
    and "parseDN server (sr_baseObject r) True = Ok base"
    and "ACL_Check (srv_acl server) (State_User state) ''read'' base []" "sr_scope r = SearchRequestScopeBaseObject"
  shows "Bottin_Search server state r st = (Ok ([], state, None), st)"
  by (rule directory_store.Search_base [OF Mem_directory [OF assms(1)] assms(2-6)])

theorem Search_base_empty_witness:
  "Bottin_Search example_server example_state (example_search ''uid=a,dc=t'' SearchRequestScopeBaseObject (FilterPresent ''uid''))
     example_dir = (Ok ([], example_state, None), example_dir)"
proof (rule Search_base_empty [OF example_tree example_facts(1) example_dir_plain])
  show "parseDN example_server (sr_baseObject (example_search ''uid=a,dc=t'' SearchRequestScopeBaseObject (FilterPresent ''uid''))) True =
      Ok example_user" "ACL_Check (srv_acl example_server) (State_User example_state) ''read'' example_user []"
    "sr_scope (example_search ''uid=a,dc=t'' SearchRequestScopeBaseObject (FilterPresent ''uid'')) = SearchRequestScopeBaseObject"
    by code_simp+
qed

text \<open>
  Modify keeps only what it is told about. When a modification that names no member attribute
  succeeds, every attribute of the entry that the request does not name is gone afterwards, except for
  the attribute of its RDN and the two attributes that Modify writes itself.
\<close>

theorem Modify_drops:
  assumes "google_btree mementryLess bt" "srv_store server = Mem bt" "mem_plain bt st"
    and run: "Bottin_Modify server env state r st = (Ok (s, None), st')"
    and "parseDN server (mod_object r) False = Ok dn" "mem_dir bt st dn = Some prev"
    and "k \<notin> changed_keys prev r" "k \<notin> {AttrModifiersName, AttrModifyTimestamp}" "rdn_key dn \<noteq> Some k"
    and "\<forall>k \<in> changed_keys prev r. \<not> AttributeKey_EqualFold k AttrMember"
  shows "\<exists>as. mem_dir bt st' dn = Some as \<and> Attributes_Get as k = []"
proof (rule modified_loses [where d = "mem_dir bt st" and dn = dn, OF _ assms(5-10)])
  have "reading (mem_plain bt) (mem_dir bt) (mem_dir bt st) st" using assms(3) by (simp add: reading_def)
  note dir = Mem_directory [OF assms(1)]
  note good = directory_store.wf_good [OF dir assms(3)]
  from go_specD [OF directory_store.Modify_spec [OF dir assms(2) good] \<open>reading _ _ _ _\<close> run]
  show "modified server env state r (mem_dir bt st) (mem_dir bt st')" by simp
qed

theorem Modify_drops_witness:
  "\<exists>st' as. Bottin_Modify example_server example_env example_state (example_modify ''uid=a,dc=t'' 0 ''cn'' [''x'']) example_dir =
      (Ok (example_state, None), st') \<and>
    Attributes_Get [(''uid'', [''a'']), (''mail'', [''a@t''])] ''mail'' \<noteq> [] \<and>
    mem_dir (list_btree mementryLess) st' example_user = Some as \<and> Attributes_Get as ''mail'' = []"
proof -
  let ?r = "example_modify ''uid=a,dc=t'' 0 ''cn'' [''x'']"
  have "fst (Bottin_Modify example_server example_env example_state ?r example_dir) = Ok (example_state, None)" by code_simp
  then obtain st' where st': "Bottin_Modify example_server example_env example_state ?r example_dir = (Ok (example_state, None), st')"
    by (metis prod.collapse)
  have "\<exists>as. mem_dir (list_btree mementryLess) st' example_user = Some as \<and> Attributes_Get as ''mail'' = []"
  proof (rule Modify_drops [OF example_tree example_facts(1) example_dir_plain st'])
    show "parseDN example_server (mod_object ?r) False = Ok example_user"
      "mem_dir (list_btree mementryLess) example_dir example_user = Some [(''uid'', [''a'']), (''mail'', [''a@t''])]"
      "''mail'' \<notin> changed_keys [(''uid'', [''a'']), (''mail'', [''a@t''])] ?r"
      "''mail'' \<notin> {AttrModifiersName, AttrModifyTimestamp}" "rdn_key example_user \<noteq> Some ''mail''"
      "\<forall>k \<in> changed_keys [(''uid'', [''a'']), (''mail'', [''a@t''])] ?r. \<not> AttributeKey_EqualFold k AttrMember"
      by code_simp+
  qed
  with st' show ?thesis by (auto simp: Attributes_Get_def)
qed

text \<open>
  C23. Names: whatever text \<^verbatim>\<open>ParseDN\<close> accepts, the printed form of the result parses to the same
  name, and no other name in canonical form has the same printed form.
\<close>

theorem DN_roundtrip:
  assumes "ParseDN raw = Ok dn"
  shows "ParseDN (DN_String dn) = Ok dn \<and> (\<forall>dn'. canonical_DN dn' \<and> DN_String dn' = DN_String dn \<longrightarrow> dn' = dn)"
  using ParseDN_String ParseDN_canonical [OF assms] by (metis outcome.inject(1))

theorem DN_roundtrip_witness:
  "ParseDN '' UID = A , dc=t'' = Ok example_user \<and> ParseDN (DN_String example_user) = Ok example_user"
proof -
  have parsed: "ParseDN '' UID = A , dc=t'' = Ok example_user" by code_simp
  with DN_roundtrip [OF this] show ?thesis by blast
qed

text \<open>
  The range of keys that the store scans for an entry: an entry is in it exactly when its key
  is the entry's key followed by a text that sorts before \<^verbatim>\<open>utf8.MaxRune\<close>. So the entry and
  everything below it is in the range, and so is a sibling whose name begins with the entry's name.
\<close>

theorem scanned_range:
  assumes "dn \<noteq> []"
  shows "(in_range (DN_Prefix dn) (DN_Prefix e) \<longleftrightarrow>
      (\<exists>t. Prefix_String (DN_Prefix e) = Prefix_String (DN_Prefix dn) @ t \<and> t < MaxRune)) \<and>
    (suffix dn e \<longrightarrow> in_range (DN_Prefix dn) (DN_Prefix e))"
proof -
  have "DN_Prefix dn \<noteq> []" using assms by (simp add: DN_Prefix_def reverse_slice_def)
  then show ?thesis using in_range_iff in_range_descendant
    by (auto simp: DN_Prefix_def reverse_slice_def suffix_to_prefix)
qed

theorem scanned_range_witness:
  "in_range (DN_Prefix example_base) (DN_Prefix example_user) \<and>
   in_range (DN_Prefix example_base) (DN_Prefix [\<lparr>comp_Type = ''dc'', comp_Value = ''t2''\<rparr>])"
proof -
  have "Prefix_String (DN_Prefix [\<lparr>comp_Type = ''dc'', comp_Value = ''t2''\<rparr>]) = Prefix_String (DN_Prefix example_base) @ ''2''"
    "''2'' < MaxRune" "example_base \<noteq> []" "suffix example_base example_user" by code_simp+
  then show ?thesis using scanned_range [of example_base] by blast
qed

section \<open>The table cache\<close>

text \<open>
  C25. The ordered map under concurrent writers: however the loads and stores of its pointer by any
  number of writers interleave, a reader that iterates gets the keys in order, each once, with the
  values that a lookup would give, and a range query gets the part of it that lies in the range.
\<close>

theorem snapshots_consistent:
  assumes "pg_key K" "google_btree (key_Less K) bt" "(sm_step K bt)\<^sup>*\<^sup>* (NewSortedMap bt, []) (ptr, pending)"
  shows "sorted_wrt (key_Less K) (map fst (SortedMap_All K bt zero ptr)) \<and>
    map_of (map (\<lambda>(k, v). (key_String K k, v)) (SortedMap_All K bt zero ptr)) = sm_vals ptr \<and>
    SortedMap_Between K bt zero a b ptr = filter (\<lambda>(k, v). \<not> key_Less K k a \<and> key_Less K k b) (SortedMap_All K bt zero ptr)"
proof -
  note map = sorted_map.intro [OF assms(1,2)]
  have "sm_inv K bt (fst (ptr, pending)) \<and> list_all (sm_inv K bt) (snd (ptr, pending))"
    by (rule sorted_map.sm_steps_inv [OF map assms(3)]) (simp_all add: sorted_map.sm_inv_New [OF map])
  then have inv: "sm_inv K bt ptr" by simp
  show ?thesis
    using sorted_map.All_vals [OF map inv, of zero] sorted_map.range_filters(1) [OF map inv, of zero a b] by simp
qed

theorem snapshots_consistent_witness:
  "sorted_wrt (key_Less StringKey) (map fst (SortedMap_All StringKey (list_btree (key_Less StringKey)) (0 :: nat)
     (SortedMap_Store StringKey (list_btree (key_Less StringKey)) ''k'' 7 (NewSortedMap (list_btree (key_Less StringKey))))))"
proof -
  let ?bt = "list_btree (key_Less StringKey)"
  let ?m = "SortedMap_Store StringKey ?bt ''k'' (7 :: nat) (NewSortedMap ?bt)"
  have tree: "google_btree (key_Less StringKey) ?bt"
    by (rule list_btree_google, rule weak_order_key [where key = "\<lambda>s. s"]) (simp add: StringKey_def StringKey_Less_def)
  have "sm_step StringKey ?bt (NewSortedMap ?bt, []) (NewSortedMap ?bt, [?m])"
    using sm_step.build [of StringKey ?bt "NewSortedMap ?bt" "[]" "WriteStore ''k'' 7"] by simp
  moreover have "sm_step StringKey ?bt (NewSortedMap ?bt, [?m]) (?m, [])"
    using sm_step.publish [of StringKey ?bt "NewSortedMap ?bt" "[]" ?m "[]"] by simp
  ultimately have "(sm_step StringKey ?bt)\<^sup>*\<^sup>* (NewSortedMap ?bt, []) (?m, [])" by simp
  from snapshots_consistent [OF StringKey.pg_key_axioms tree this] show ?thesis by blast
qed

text \<open>
  C26. The PostgreSQL store refines the directory as a map, as the memory store does, for names
  without the separator of its keys: a transaction that reports success has applied its changes in
  order to the directory that lookups and range queries see, and one that reports an error (of the
  database, of the notification, of the commit) has left that directory as it was.
\<close>

theorem PSQL_transaction:
  assumes "google_btree Prefix_Less bt" "psql_wf bt st" "list_all (\<lambda>c. good_DN (change_DN c)) cs"
    and "PSQL_Begin (PSQL_table sql pool nm redo) ctx st = (Ok tx, st0)"
    and "go_bind (go_each (tx_apply (PSQL (PSQL_table sql pool nm redo) bt)) cs)
      (\<lambda>_. PSQLTransaction_Commit (PSQL_table sql pool nm redo) bt ctx) (st0, tx) = (r, st', tx')"
  shows "psql_wf bt st' \<and> psql_dir st' = (if r = Ok () then apply_changes cs (psql_dir st) else psql_dir st)"
  by (rule plain_store.transaction_effect [OF PSQL_plain [OF assms(1)] assms(2) _ assms(3)]) (use assms(4,5) in simp_all)

theorem PSQL_transaction_witness:
  "\<exists>tx st' tx'. PSQL_Begin (ex_table True (ex_payload EventTypeDelete) ''a'') context_Background
      (ex_state [ex_base, ex_user], [ex_base, ex_user]) = (Ok tx, (ex_state [ex_base, ex_user], [ex_base, ex_user])) \<and>
    go_bind (go_each (tx_apply (PSQL (ex_table True (ex_payload EventTypeDelete) ''a'') (list_btree Prefix_Less))) [Remove ex_user])
      (\<lambda>_. PSQLTransaction_Commit (ex_table True (ex_payload EventTypeDelete) ''a'') (list_btree Prefix_Less) context_Background)
      ((ex_state [ex_base, ex_user], [ex_base, ex_user]), tx) = (Ok (), st', tx') \<and>
    psql_dir st' = (psql_dir (ex_state [ex_base, ex_user], [ex_base, ex_user]))(ex_user := None)"
proof -
  let ?bt = "list_btree Prefix_Less" and ?st = "(ex_state [ex_base, ex_user], [ex_base, ex_user])"
  let ?p = "PSQL_table ex_sql (ex_pool True) (ex_nm (ex_payload EventTypeDelete) ''a'') (\<lambda>f. f 0)"
  let ?run = "go_bind (go_each (tx_apply (PSQL ?p ?bt)) [Remove ex_user]) (\<lambda>_. PSQLTransaction_Commit ?p ?bt context_Background)"
  let ?tx = "\<lparr>ttx_tx = [], ttx_updates = [], ttx_committed = False\<rparr>"
  have b: "PSQL_Begin ?p context_Background ?st = (Ok ?tx, ?st)"
    by (simp add: PSQL_Begin_def go_wrap_def Table_Begin_def PSQL_table_def ex_pool_def outcome_bind_def outcome_wrap_def)
  have "fst (?run (?st, ?tx)) = Ok ()" by code_simp
  then obtain st' tx' where run: "?run (?st, ?tx) = (Ok (), st', tx')" by (metis prod.collapse)
  have good: "list_all (\<lambda>c. good_DN (change_DN c)) [Remove ex_user]" by code_simp
  have "list_all ex_good [ex_base, ex_user]" by code_simp
  note wf = ex_state_wf [OF this, of "[ex_base, ex_user]"]
  from PSQL_transaction [OF ex_tree wf good b run] have "psql_dir st' = (psql_dir ?st)(ex_user := None)" by simp
  with b run show ?thesis unfolding ex_table_def by blast
qed

text \<open>
  C27. The caches of all processes follow the table. A process whose cache equals the table commits
  a transaction: its cache equals the table after the commit. It has sent a notification, and any
  other process whose cache equalled the table before, that receives the notification and reads the
  table in the state after the commit, has a cache that equals the table again. The database and
  the JSON packages are taken to behave as documented (\<open>psql_server\<close>, \<open>same_payload\<close>), and the
  retry of a call that succeeds to return its result.
\<close>

theorem replicas_converge:
  assumes "psql_server sql pool raw rawpend storable" "nm_fromString nm = PrefixFromString"
    and T: "T = PSQL_table sql pool nm redo"
    and inv: "ttx_inv T (\<lambda>tx. psql_pend sql (rawpend tx)) ttx" "ttx_updates ttx \<noteq> []"
      "\<forall>u \<in> set (ttx_updates ttx). good_prefix (upd_key Entry_Key u)"
    and run: "TableTx_Commit T bt ctx ((ts, db), ttx) = (Ok (), (ts', db'), ttx')"
    and json: "\<forall>msg. json_Marshal (nm_json nm) (commit_payload T (ttx_updates ttx)) = Ok msg \<longrightarrow>
      (\<exists>p. json_Unmarshal (nm_json nm) msg = Ok p \<and> same_payload (commit_payload T (ttx_updates ttx)) p)"
    and before: "cached ts = psql_rows sql (raw db)" "cached other = psql_rows sql (raw db)"
    and after: "raw (views 0) = raw db'" "\<And>dns. \<exists>rows. q_get sql dns (views 0) = Ok rows"
      "\<And>f objects. f 0 = Ok objects \<Longrightarrow> redo f = Ok objects"
    and name: "name \<noteq> nm_id nm"
  shows "cached ts' = psql_rows sql (raw db') \<and>
    (\<exists>msg db1 events other'. pool_Notify pool ctx (nm_channel nm) msg db = (Ok (), db1) \<and>
      nm_Next (nm\<lparr>nm_id := name\<rparr>) ((Ok (nm_channel nm, msg), views) # rest) = (Ok (events, views), rest) \<and>
      handleEvents T bt views events other = (Ok (), other') \<and> cached other' = psql_rows sql (raw db'))"
proof -
  note T_simps = T PSQL_table_def
  have pg: "pg_database T (\<lambda>db. psql_rows sql (raw db)) (\<lambda>tx. psql_pend sql (rawpend tx)) good_prefix storable"
    unfolding T by (rule psql_server.psql_database [OF assms(1,2)])
  from pg_database.Commit_effect [OF pg run inv(1)]
  have effect: "cached ts' = assign_all (psql_pend sql (rawpend (ttx_tx ttx))) (cached ts)"
    "psql_rows sql (raw db') = assign_all (psql_pend sql (rawpend (ttx_tx ttx))) (psql_rows sql (raw db))" by simp_all
  obtain msg db1 where msg: "json_Marshal (nm_json nm) (commit_payload T (ttx_updates ttx)) = Ok msg"
    "pool_Notify pool ctx (nm_channel nm) msg db = (Ok (), db1)"
    using Commit_sends [OF run _ inv(2)] inv(1) by (auto simp: ttx_inv_def T_simps)
  obtain p where p: "json_Unmarshal (nm_json nm) msg = Ok p" "same_payload (commit_payload T (ttx_updates ttx)) p"
    using json msg(1) by blast
  have reach: "\<exists>objects. t_getFunc T keys (views 0) = Ok objects" for keys
    using psql_server.getPSQL_Ok [OF assms(1) after(2)] by (simp add: T_simps)
  have "\<exists>events other'. nm_Next ((t_nm T)\<lparr>nm_id := name\<rparr>) ((Ok (nm_channel (t_nm T), msg), views) # rest) = (Ok (events, views), rest) \<and>
      handleEvents T bt views events other = (Ok (), other') \<and> cached other' = psql_rows sql (raw (views 0))"
  proof (rule pg_database.replica_follows [where views = views, OF pg inv(1) _ _ p(2) _ _ reach])
    show "psql_rows sql (raw (views 0)) = assign_all (psql_pend sql (rawpend (ttx_tx ttx))) (cached other)"
      using effect(2) before(2) after(1) by simp
  qed (use inv(3) p(1) name after(3) in \<open>simp_all add: T_simps\<close>)
  then show ?thesis using effect before(1) after(1) msg(2) by (auto simp: T_simps)
qed

theorem replicas_converge_witness:
  "\<exists>ts' ttx' events other'.
     TableTx_Commit (ex_table True (ex_payload EventTypeStore) ''a'') (list_btree Prefix_Less) context_Background
       ((ex_state [ex_base], [ex_base]), ex_insertion) = (Ok (), (ts', [ex_user, ex_base]), ttx') \<and>
     cached ts' = psql_rows ex_sql (ex_raw [ex_user, ex_base]) \<and>
     handleEvents (ex_table True (ex_payload EventTypeStore) ''a'') (list_btree Prefix_Less) (\<lambda>_. [ex_user, ex_base]) events
       (ex_state [ex_base]) = (Ok (), other') \<and>
     cached other' = psql_rows ex_sql (ex_raw [ex_user, ex_base])"
proof -
  let ?nm = "ex_nm (ex_payload EventTypeStore) ''a''" and ?T = "ex_table True (ex_payload EventTypeStore) ''a''"
  let ?run = "TableTx_Commit ?T (list_btree Prefix_Less) context_Background ((ex_state [ex_base], [ex_base]), ex_insertion)"
  have "fst ?run = Ok ()" "snd (fst (snd ?run)) = [ex_user, ex_base]" by code_simp+
  then obtain ts' ttx' where run: "?run = (Ok (), (ts', [ex_user, ex_base]), ttx')" by (metis prod.collapse)
  have T: "?T = PSQL_table ex_sql (ex_pool True) ?nm (\<lambda>f. f 0)" by (simp add: ex_table_def)
  have good: "list_all ex_good [ex_base]" by code_simp
  have payload: "commit_payload ?T (ttx_updates ex_insertion) = ex_payload EventTypeStore" by code_simp
  have "cached ts' = psql_rows ex_sql (ex_raw [ex_user, ex_base]) \<and>
    (\<exists>msg db1 events other'. pool_Notify (ex_pool True) context_Background (nm_channel ?nm) msg [ex_base] = (Ok (), db1) \<and>
      nm_Next (?nm\<lparr>nm_id := ''b''\<rparr>) ((Ok (nm_channel ?nm, msg), \<lambda>_. [ex_user, ex_base]) # []) =
        (Ok (events, \<lambda>_. [ex_user, ex_base]), []) \<and>
      handleEvents ?T (list_btree Prefix_Less) (\<lambda>_. [ex_user, ex_base]) events (ex_state [ex_base]) = (Ok (), other') \<and>
      cached other' = psql_rows ex_sql (ex_raw [ex_user, ex_base]))"
  proof (rule replicas_converge [OF ex_database _ T _ _ _ run])
    show "ttx_inv ?T (\<lambda>tx. psql_pend ex_sql (map ex_assign tx)) ex_insertion" "ttx_updates ex_insertion \<noteq> []"
      "\<forall>u \<in> set (ttx_updates ex_insertion). good_prefix (upd_key Entry_Key u)" by code_simp+
    show "\<forall>msg. json_Marshal (nm_json ?nm) (commit_payload ?T (ttx_updates ex_insertion)) = Ok msg \<longrightarrow>
      (\<exists>p. json_Unmarshal (nm_json ?nm) msg = Ok p \<and> same_payload (commit_payload ?T (ttx_updates ex_insertion)) p)"
      unfolding payload by (simp add: ex_nm_def same_payload_def ex_payload_def)
  qed (simp_all add: ex_nm_def ex_sql_def ex_state_rows [OF good])
  with run show ?thesis by blast
qed

end
